(* ===== verification/Prelude.thy ===== *)
theory Prelude
  imports Main "HOL-Library.Word" "HOL-Library.Monad_Syntax" "HOL-Library.List_Lexorder"
    "HOL-Library.Product_Lexorder"
begin

text \<open>
  Shared vocabulary of the development: the machine integers and byte strings of the Rust
  sources, the \<open>Result\<close> combinators behind the \<open>?\<close> operator, checked arithmetic,
  big-endian encodings, and the two interfaces that several components share: a counter
  domain with checked addition (\<open>checked_add_dom\<close>) and a self-delimiting byte encoding
  (\<open>prefix_codec\<close>).

  Rust's order on \<open>[u8]\<close> and on tuples is lexicographic; \<open>List_Lexorder\<close> and
  \<open>Product_Lexorder\<close> make it the order on lists and pairs here.
\<close>

unbundle bit_operations_syntax

section \<open>Types\<close>

type_synonym u8 = "8 word"
type_synonym u16 = "16 word"
type_synonym u32 = "32 word"
type_synonym u64 = "64 word"
type_synonym bytes = "u8 list"

named_theorems res_simps "inversion of the Result combinators"
named_theorems be_simps "big-endian encodings"

section \<open>Result\<close>

text \<open>\<open>Result<A, E>\<close> is \<open>'e + 'a\<close>; \<open>res_bind m f\<close> is \<open>f(m?)\<close>.\<close>

definition res_bind :: "'e + 'a \<Rightarrow> ('a \<Rightarrow> 'e + 'b) \<Rightarrow> 'e + 'b" where
  "res_bind m f = (case m of Inl e \<Rightarrow> Inl e | Inr x \<Rightarrow> f x)"

definition ok_or :: "'e \<Rightarrow> 'a option \<Rightarrow> 'e + 'a" where
  "ok_or e m = (case m of None \<Rightarrow> Inl e | Some x \<Rightarrow> Inr x)"

definition map_err :: "('e \<Rightarrow> 'f) \<Rightarrow> 'e + 'a \<Rightarrow> 'f + 'a" where
  "map_err g m = (case m of Inl e \<Rightarrow> Inl (g e) | Inr x \<Rightarrow> Inr x)"

lemma res_bind_Inl [simp]: "res_bind (Inl e) f = Inl e"
  by (simp add: res_bind_def)

lemma res_bind_Inr [simp]: "res_bind (Inr x) f = f x"
  by (simp add: res_bind_def)

lemma ok_or_simps [simp]: "ok_or e None = Inl e" "ok_or e (Some x) = Inr x"
  by (simp_all add: ok_or_def)

lemma map_err_simps [simp]: "map_err g (Inl e) = Inl (g e)" "map_err g (Inr x) = Inr x"
  by (simp_all add: map_err_def)

lemma res_bind_eq_Inr [res_simps]:
  "res_bind m f = Inr y \<longleftrightarrow> (\<exists>x. m = Inr x \<and> f x = Inr y)"
  by (cases m) auto

lemma res_bind_eq_Inl [res_simps]:
  "res_bind m f = Inl e \<longleftrightarrow> m = Inl e \<or> (\<exists>x. m = Inr x \<and> f x = Inl e)"
  by (cases m) auto

lemma ok_or_eq_Inr [res_simps]: "ok_or e m = Inr x \<longleftrightarrow> m = Some x"
  by (cases m) auto

lemma ok_or_eq_Inl [res_simps]: "ok_or e m = Inl e' \<longleftrightarrow> m = None \<and> e' = e"
  by (cases m) auto

lemma map_err_eq_Inr [res_simps]: "map_err g m = Inr x \<longleftrightarrow> m = Inr x"
  by (cases m) auto

lemma map_err_eq_Inl [res_simps]: "map_err g m = Inl e \<longleftrightarrow> (\<exists>e'. m = Inl e' \<and> e = g e')"
  by (cases m) auto

lemma if_Inl_eq_Inr [res_simps]: "(if b then Inl e else m) = Inr x \<longleftrightarrow> \<not> b \<and> m = Inr x"
  by simp

lemma if_None_eq_Some [simp]: "(if b then None else m) = Some x \<longleftrightarrow> \<not> b \<and> m = Some x"
  by simp

lemma if_else_None_eq_Some [simp]: "(if b then m else None) = Some x \<longleftrightarrow> b \<and> m = Some x"
  by simp

section \<open>Checked arithmetic\<close>

lemma unat_less_word: "unat (a :: 'a :: len word) < 2 ^ LENGTH('a)"
  by (rule unsigned_less)

definition checked_add_u64 :: "u64 \<Rightarrow> u64 \<Rightarrow> u64 option" where
  "checked_add_u64 a b = (if unat a + unat b < 2 ^ 64 then Some (a + b) else None)"

definition checked_mul_u64 :: "u64 \<Rightarrow> u64 \<Rightarrow> u64 option" where
  "checked_mul_u64 a b = (if unat a * unat b < 2 ^ 64 then Some (a * b) else None)"

definition saturating_sub_u64 :: "u64 \<Rightarrow> u64 \<Rightarrow> u64" where
  "saturating_sub_u64 a b = (if a < b then 0 else a - b)"

lemma unat_lt_2p64 [simp]: "unat (a :: u64) < 18446744073709551616"
  using unat_less_word [of a] by simp

lemma checked_add_u64_Some:
  "checked_add_u64 a b = Some c \<longleftrightarrow> unat a + unat b < 2 ^ 64 \<and> unat c = unat a + unat b"
  by (auto simp: checked_add_u64_def unat_word_ariths word_unat_eq_iff)

lemma checked_mul_u64_Some:
  "checked_mul_u64 a b = Some c \<longleftrightarrow> unat a * unat b < 2 ^ 64 \<and> unat c = unat a * unat b"
  by (auto simp: checked_mul_u64_def unat_word_ariths word_unat_eq_iff)

lemma checked_add_u64_None: "checked_add_u64 a b = None \<longleftrightarrow> 2 ^ 64 \<le> unat a + unat b"
  by (auto simp: checked_add_u64_def)

lemma checked_mul_u64_None: "checked_mul_u64 a b = None \<longleftrightarrow> 2 ^ 64 \<le> unat a * unat b"
  by (auto simp: checked_mul_u64_def)

lemma unat_saturating_sub_u64 [simp]: "unat (saturating_sub_u64 a b) = unat a - unat b"
  by (auto simp: saturating_sub_u64_def word_less_nat_alt unat_sub_if_size)

lemma unat_one_u64 [simp]: "unat (1 :: u64) = 1"
  by simp

text \<open>
  The contract every checked unsigned addition of the program keeps: it returns the exact sum,
  or nothing when the sum leaves the domain. \<open>ok\<close> is the well-formedness of a value.
\<close>

locale checked_add_dom =
  fixes val :: "'a \<Rightarrow> nat"
    and ok :: "'a \<Rightarrow> bool"
    and bound :: nat
    and add :: "'a \<Rightarrow> 'a \<Rightarrow> 'a option"
  assumes val_bound: "ok a \<Longrightarrow> val a < bound"
    and val_inj: "ok a \<Longrightarrow> ok b \<Longrightarrow> val a = val b \<Longrightarrow> a = b"
    and add_ok: "ok a \<Longrightarrow> ok b \<Longrightarrow> add a b = Some c \<Longrightarrow> ok c \<and> val c = val a + val b"
    and add_None: "ok a \<Longrightarrow> ok b \<Longrightarrow> add a b = None \<longleftrightarrow> bound \<le> val a + val b"
begin

lemma add_Some_iff:
  assumes "ok a" "ok b" "ok c"
  shows "add a b = Some c \<longleftrightarrow> val a + val b = val c"
proof (cases "add a b")
  case None
  then show ?thesis using add_None [OF assms(1,2)] val_bound [OF assms(3)] by auto
next
  case (Some d)
  then have "ok d" "val d = val a + val b" using add_ok [OF assms(1,2)] by auto
  then show ?thesis using Some val_inj [of c d] assms(3) by auto
qed

lemma add_commute: "ok a \<Longrightarrow> ok b \<Longrightarrow> add a b = add b a"
proof (cases "add a b")
  case None
  moreover assume "ok a" "ok b"
  ultimately show ?thesis using add_None by (metis add.commute)
next
  case (Some c)
  moreover assume ok: "ok a" "ok b"
  ultimately have c: "ok c" "val b + val a = val c" using add_ok [of a b c] by auto
  then have "add b a = Some c" using add_Some_iff [of b a c] ok by blast
  with Some show ?thesis by simp
qed

lemma add_mono: "ok a \<Longrightarrow> ok b \<Longrightarrow> add a b = Some c \<Longrightarrow> val a \<le> val c"
  using add_ok [of a b c] by simp

end

interpretation u64_add: checked_add_dom unat "\<lambda>_ :: u64. True" "2 ^ 64" checked_add_u64
proof
  show "unat a < 2 ^ 64" for a :: u64 using unat_less_word [of a] by simp
qed (simp_all add: checked_add_u64_Some checked_add_u64_None word_unat_eq_iff)

lemma unat_ucast_up: "LENGTH('a) \<le> LENGTH('b) \<Longrightarrow> unat (ucast (a :: 'a :: len word) :: 'b :: len word) = unat a"
  by (simp add: unsigned_ucast_eq unsigned_take_bit_eq [symmetric] take_bit_word_eq_self)

lemma unat_ucast_u8: "unat (ucast (a :: 'a :: len word) :: u8) = unat a mod 256"
  by (simp add: unsigned_ucast_eq take_bit_eq_mod)

lemma unat_drop_bit_8: "unat (drop_bit 8 (a :: 'a :: len word)) = unat a div 256"
proof -
  have "unat (drop_bit 8 a) = drop_bit 8 (unat a)" by (rule unat_drop_bit_eq)
  also have "\<dots> = unat a div 256" by (simp add: drop_bit_eq_div)
  finally show ?thesis .
qed

lemma byte_digits: "n div 256 * (256 * k) + n mod 256 * k = n * (k :: nat)"
proof -
  have "n div 256 * (256 * k) + n mod 256 * k = (n div 256 * 256 + n mod 256) * k"
    by (simp only: add_mult_distrib mult.assoc)
  then show ?thesis by simp
qed

section \<open>Big-endian encodings\<close>

fun be_val :: "bytes \<Rightarrow> nat" where
  "be_val [] = 0"
| "be_val (b # bs) = unat b * 256 ^ length bs + be_val bs"

text \<open>\<open>be_bytes n v\<close> is the \<open>n\<close>-byte big-endian form of \<open>v\<close> (\<open>to_be_bytes\<close>).\<close>

fun be_bytes :: "nat \<Rightarrow> nat \<Rightarrow> bytes" where
  "be_bytes 0 v = []"
| "be_bytes (Suc n) v = of_nat (v div 256 ^ n) # be_bytes n (v mod 256 ^ n)"

lemma length_be_bytes [simp, be_simps]: "length (be_bytes n v) = n"
  by (induction n arbitrary: v) auto

lemma unat_lt_256 [simp]: "unat (b :: u8) < 256"
  using unat_less_word [of b] by simp

lemma be_val_less: "be_val bs < 256 ^ length bs"
proof (induction bs)
  case Nil
  show ?case by simp
next
  case (Cons b bs)
  have "unat b * 256 ^ length bs + be_val bs < (unat b + 1) * 256 ^ length bs"
    using Cons by simp
  also have "\<dots> \<le> 256 * 256 ^ length bs"
    using unat_lt_256 [of b] by (intro mult_le_mono1) linarith
  finally show ?case by simp
qed

lemma unat_of_nat_u8: "n < 256 \<Longrightarrow> unat (of_nat n :: u8) = n"
  by (simp add: unat_of_nat take_bit_eq_mod)

lemma be_val_be_bytes [be_simps]: "v < 256 ^ n \<Longrightarrow> be_val (be_bytes n v) = v"
proof (induction n arbitrary: v)
  case 0
  then show ?case by simp
next
  case (Suc n)
  then have "v div 256 ^ n < 256"
    by (simp add: less_mult_imp_div_less)
  then show ?case using Suc.IH [of "v mod 256 ^ n"] by (simp add: unat_of_nat_u8 div_mult_mod_eq)
qed

lemma be_bytes_be_val [be_simps]: "be_bytes (length bs) (be_val bs) = bs"
proof (induction bs)
  case Nil
  show ?case by simp
next
  case (Cons b bs)
  have "(unat b * 256 ^ length bs + be_val bs) div 256 ^ length bs = unat b"
    using be_val_less [of bs] by simp
  moreover have "(unat b * 256 ^ length bs + be_val bs) mod 256 ^ length bs = be_val bs"
    using be_val_less [of bs] by simp
  ultimately show ?case using Cons by simp
qed

lemma be_val_inj: "length a = length b \<Longrightarrow> be_val a = be_val b \<Longrightarrow> a = b"
  by (metis be_bytes_be_val)

lemma be_val_append: "be_val (a @ b) = be_val a * 256 ^ length b + be_val b"
  by (induction a) (simp_all add: algebra_simps power_add)

lemma be_val_zeros [simp]: "be_val (replicate n 0) = 0"
  by (induction n) auto

definition be64 :: "u64 \<Rightarrow> bytes" where "be64 v = be_bytes 8 (unat v)"
definition be32 :: "u32 \<Rightarrow> bytes" where "be32 v = be_bytes 4 (unat v)"
definition be16 :: "u16 \<Rightarrow> bytes" where "be16 v = be_bytes 2 (unat v)"

lemma length_be64 [simp]: "length (be64 v) = 8" by (simp add: be64_def)
lemma length_be32 [simp]: "length (be32 v) = 4" by (simp add: be32_def)
lemma length_be16 [simp]: "length (be16 v) = 2" by (simp add: be16_def)

lemma be_val_be64 [simp]: "be_val (be64 v) = unat v"
  using unat_less_word [of v] by (simp add: be64_def be_val_be_bytes)

lemma be_val_be32 [simp]: "be_val (be32 v) = unat v"
  using unat_less_word [of v] by (simp add: be32_def be_val_be_bytes)

lemma be_val_be16 [simp]: "be_val (be16 v) = unat v"
  using unat_less_word [of v] by (simp add: be16_def be_val_be_bytes)

text \<open>On byte strings of one length the lexicographic order is the numeric order.\<close>

lemma be_val_less_iff: "length a = length b \<Longrightarrow> a < b \<longleftrightarrow> be_val a < be_val b"
proof (induction a b rule: list_induct2)
  case Nil
  show ?case by simp
next
  case (Cons x xs y ys)
  have lt: "u * k + p < v * k + q" if "u < v" "p < k" for u v k p q :: nat
  proof -
    have "u * k + p < (u + 1) * k" using that by simp
    also have "\<dots> \<le> v * k" using that by (intro mult_le_mono1) simp
    finally show ?thesis by simp
  qed
  have bx: "be_val xs < 256 ^ length ys" and by': "be_val ys < 256 ^ length ys"
    using be_val_less [of xs] be_val_less [of ys] Cons.hyps by simp_all
  consider "x < y" | "x = y" | "y < x" by (rule linorder_cases)
  then show ?case
  proof cases
    case 1
    then show ?thesis using lt [OF _ bx, of "unat x" "unat y"] Cons.hyps
      by (simp add: word_less_nat_alt)
  next
    case 2
    then show ?thesis using Cons by simp
  next
    case 3
    then have "\<not> x < y" "x \<noteq> y" by auto
    then show ?thesis using lt [OF _ by', of "unat y" "unat x" "be_val xs"] Cons.hyps 3
      by (simp add: word_less_nat_alt)
  qed
qed

lemma be_val_le_iff: "length a = length b \<Longrightarrow> a \<le> b \<longleftrightarrow> be_val a \<le> be_val b"
  using be_val_less_iff [of b a] by (simp add: linorder_not_less [symmetric])

section \<open>Self-delimiting encodings\<close>

text \<open>
  An encoding whose end is visible in the encoding itself: a decoder recovers the value and the
  bytes that follow. Signing preimages are concatenations of such fields, so they bind every
  field.
\<close>

locale prefix_codec =
  fixes enc :: "'a \<Rightarrow> bytes"
    and dec :: "bytes \<Rightarrow> ('a \<times> bytes) option"
    and ok :: "'a \<Rightarrow> bool"
  assumes dec_enc: "ok a \<Longrightarrow> dec (enc a @ rest) = Some (a, rest)"
begin

lemma append_inj: "ok a \<Longrightarrow> ok b \<Longrightarrow> enc a @ xs = enc b @ ys \<longleftrightarrow> a = b \<and> xs = ys"
  by (metis dec_enc option.inject prod.inject)

lemma enc_inj: "ok a \<Longrightarrow> ok b \<Longrightarrow> enc a = enc b \<longleftrightarrow> a = b"
  using append_inj [of a b "[]" "[]"] by simp

lemma concat_inj:
  "\<forall>a \<in> set as. ok a \<Longrightarrow> \<forall>b \<in> set bs. ok b \<Longrightarrow> length as = length bs
    \<Longrightarrow> concat (map enc as) @ xs = concat (map enc bs) @ ys \<longleftrightarrow> as = bs \<and> xs = ys"
proof (induction as arbitrary: bs)
  case Nil
  then show ?case by simp
next
  case (Cons a as)
  then obtain b bs' where "bs = b # bs'" by (cases bs) auto
  with Cons show ?case by (auto simp: append_inj)
qed

end

definition fixed_dec :: "nat \<Rightarrow> bytes \<Rightarrow> (bytes \<times> bytes) option" where
  "fixed_dec n bs = (if n \<le> length bs then Some (take n bs, drop n bs) else None)"

definition be64_dec :: "bytes \<Rightarrow> (u64 \<times> bytes) option" where
  "be64_dec bs = (if 8 \<le> length bs then Some (of_nat (be_val (take 8 bs)), drop 8 bs) else None)"

interpretation be64: prefix_codec be64 be64_dec "\<lambda>_. True"
  by unfold_locales (simp add: be64_dec_def)

lemma be64_eq_iff [simp, be_simps]: "be64 a = be64 b \<longleftrightarrow> a = b"
  by (simp add: be64.enc_inj)

lemma append_eq_fixed:
  "length a = length b \<Longrightarrow> a @ xs = b @ ys \<longleftrightarrow> a = b \<and> xs = ys"
  by simp

end
