(* ===== verification/Crypto.thy ===== *)
theory Crypto
  imports Prelude
begin

text \<open>
  The third-party cryptography the sources call, as a record of functions that every definition
  using it takes as an argument: the hash functions (\<open>sha3\<close>, \<open>sha2\<close>), Ed25519 verification
  (\<open>ed25519_dalek\<close>), XChaCha20-Poly1305 (\<open>chacha20poly1305\<close>), secp256k1 (\<open>k256\<close>) and Base58
  (\<open>bs58\<close>). Nothing is assumed of it here; a lemma that needs a documented behaviour (such as the
  length of a digest) names it as a hypothesis. The wrappers of \<open>secp256k1.rs\<close> are modelled on
  top of it.

  A hasher that is fed several pieces hashes their concatenation.
\<close>

record crypto =
  sha3_256 :: "bytes \<Rightarrow> bytes"
  sha3_512 :: "bytes \<Rightarrow> bytes"
  sha2_256 :: "bytes \<Rightarrow> bytes"
  keccak_256 :: "bytes \<Rightarrow> bytes"
  ed_key_ok :: "bytes \<Rightarrow> bool"
  ed_verify_strict :: "bytes \<Rightarrow> bytes \<Rightarrow> bytes \<Rightarrow> bool"
  xchacha_encrypt :: "bytes \<Rightarrow> bytes \<Rightarrow> bytes \<Rightarrow> bytes \<Rightarrow> bytes option"
  xchacha_decrypt :: "bytes \<Rightarrow> bytes \<Rightarrow> bytes \<Rightarrow> bytes \<Rightarrow> bytes option"
  k1_secret_ok :: "bytes \<Rightarrow> bool"
  k1_public :: "bytes \<Rightarrow> bytes"
  k1_sign :: "bytes \<Rightarrow> bytes \<Rightarrow> (bytes \<times> u8) option"
  k1_point_ok :: "bytes \<Rightarrow> bool"
  k1_sig_ok :: "bytes \<Rightarrow> bool"
  k1_recover :: "bytes \<Rightarrow> bytes \<Rightarrow> u8 \<Rightarrow> bytes option"
  base58 :: "bytes \<Rightarrow> bytes"

text \<open>A byte-string literal \<open>b"..."\<close>.\<close>

definition ascii :: "string \<Rightarrow> bytes" where
  "ascii s = map of_char s"

lemma length_ascii [simp]: "length (ascii s) = length s"
  by (simp add: ascii_def)

section \<open>secp256k1.rs\<close>

datatype secp256k1_error = Csprng | InvalidSecret | InvalidPublicKey | Sign | Recover

text \<open>A keypair is represented by its secret scalar; the verifying key is derived from it.\<close>

record keypair =
  kp_secret :: bytes

record recoverable_signature =
  rs_r :: bytes
  rs_s :: bytes
  rs_recovery_id :: u8

definition from_secret_bytes :: "crypto \<Rightarrow> bytes \<Rightarrow> secp256k1_error + keypair" where
  "from_secret_bytes C secret =
     (if k1_secret_ok C secret then Inr \<lparr>kp_secret = secret\<rparr> else Inl InvalidSecret)"

text \<open>The rejection-sampling loop over the random draws still available (\<open>None\<close>: getrandom failed).\<close>

fun generate_loop :: "crypto \<Rightarrow> nat \<Rightarrow> bytes option list
    \<Rightarrow> (secp256k1_error + keypair \<times> bytes) \<times> bytes option list" where
  "generate_loop C 0 draws = (Inl Csprng, draws)"
| "generate_loop C (Suc n) draws = (case draws of
     [] \<Rightarrow> (Inl Csprng, [])
   | None # draws' \<Rightarrow> (Inl Csprng, draws')
   | Some secret # draws' \<Rightarrow>
       (if k1_secret_ok C secret then (Inr (\<lparr>kp_secret = secret\<rparr>, secret), draws')
        else generate_loop C n draws'))"

definition generate_with_secret :: "crypto \<Rightarrow> bytes option list
    \<Rightarrow> (secp256k1_error + keypair \<times> bytes) \<times> bytes option list" where
  "generate_with_secret C draws = generate_loop C 64 draws"

definition public_key_uncompressed :: "crypto \<Rightarrow> keypair \<Rightarrow> bytes" where
  "public_key_uncompressed C kp = k1_public C (kp_secret kp)"

definition address_from_uncompressed_xy :: "crypto \<Rightarrow> bytes \<Rightarrow> bytes" where
  "address_from_uncompressed_xy C pubkey65 = drop 12 (keccak_256 C (drop 1 pubkey65))"

definition eth_address :: "crypto \<Rightarrow> keypair \<Rightarrow> bytes" where
  "eth_address C kp = address_from_uncompressed_xy C (public_key_uncompressed C kp)"

definition eth_address_from_uncompressed :: "crypto \<Rightarrow> bytes \<Rightarrow> secp256k1_error + bytes" where
  "eth_address_from_uncompressed C pubkey65 =
     (if pubkey65 ! 0 \<noteq> 0x04 then Inl InvalidPublicKey
      else if \<not> k1_point_ok C pubkey65 then Inl InvalidPublicKey
      else Inr (address_from_uncompressed_xy C pubkey65))"

definition tron_address_from_body :: "crypto \<Rightarrow> bytes \<Rightarrow> bytes" where
  "tron_address_from_body C body20 =
     (let payload = 0x41 # body20;
          h1 = sha2_256 C payload;
          h2 = sha2_256 C h1
      in base58 C (payload @ take 4 h2))"

definition sign_prehashed :: "crypto \<Rightarrow> keypair \<Rightarrow> bytes \<Rightarrow> secp256k1_error + recoverable_signature" where
  "sign_prehashed C kp hash32 = (case k1_sign C (kp_secret kp) hash32 of
     None \<Rightarrow> Inl Sign
   | Some (sig, rid) \<Rightarrow>
       (if rid > 1 then Inl Sign
        else Inr \<lparr>rs_r = take 32 sig, rs_s = drop 32 sig, rs_recovery_id = rid\<rparr>))"

definition recover_pubkey_uncompressed :: "crypto \<Rightarrow> bytes \<Rightarrow> recoverable_signature
    \<Rightarrow> secp256k1_error + bytes" where
  "recover_pubkey_uncompressed C hash32 sig =
     (let rs = rs_r sig @ rs_s sig in
      if \<not> k1_sig_ok C rs then Inl Recover
      else if rs_recovery_id sig > 3 then Inl Recover
      else ok_or Recover (k1_recover C hash32 rs (rs_recovery_id sig)))"

lemma sign_prehashed_recovery_id:
  "sign_prehashed C kp h = Inr sig \<Longrightarrow> rs_recovery_id sig \<le> 1"
  by (auto simp: sign_prehashed_def not_less split: option.splits if_splits)

text \<open>A generated key is a valid scalar that was drawn; at most \<open>n\<close> draws are consumed.\<close>

lemma generate_loop_valid:
  "generate_loop C n draws = (Inr (kp, secret), rest)
    \<Longrightarrow> kp_secret kp = secret \<and> k1_secret_ok C secret
      \<and> (\<exists>used. draws = used @ Some secret # rest \<and> length used < n)"
proof (induction C n draws rule: generate_loop.induct)
  case (2 C n draws)
  show ?case
  proof (cases draws)
    case (Cons d draws')
    then obtain secret' where d: "d = Some secret'" using 2(2) by (cases d) auto
    show ?thesis
    proof (cases "k1_secret_ok C secret'")
      case False
      then obtain used where "draws' = used @ Some secret # rest" "length used < n"
        "kp_secret kp = secret" "k1_secret_ok C secret"
        using 2 Cons d by auto
      then show ?thesis using Cons d by (intro conjI exI [of _ "d # used"]) auto
    qed (use 2 Cons d in auto)
  qed (use 2 in auto)
qed simp

text \<open>A toy instance, the concrete parameter of the witnesses.\<close>

definition sample_crypto :: crypto where
  "sample_crypto = \<lparr>sha3_256 = (\<lambda>m. be_bytes 32 (be_val m)), sha3_512 = (\<lambda>m. be_bytes 64 (be_val m)),
     sha2_256 = (\<lambda>m. replicate 32 0), keccak_256 = (\<lambda>m. replicate 32 5),
     ed_key_ok = (\<lambda>_. True), ed_verify_strict = (\<lambda>_ _ sig. sig = replicate 64 1),
     xchacha_encrypt = (\<lambda>_ _ m _. Some (m @ replicate 16 0)),
     xchacha_decrypt = (\<lambda>_ _ c _. if length c < 16 then None else Some (take (length c - 16) c)),
     k1_secret_ok = (\<lambda>s. s \<noteq> replicate 32 0), k1_public = (\<lambda>s. 0x04 # replicate 64 7),
     k1_sign = (\<lambda>_ _. Some (replicate 64 1, 0)), k1_point_ok = (\<lambda>_. True), k1_sig_ok = (\<lambda>_. True),
     k1_recover = (\<lambda>_ _ _. Some (0x04 # replicate 64 7)), base58 = (\<lambda>m. m)\<rparr>"

end
