(* ===== verification/U256.thy ===== *)
theory U256
  imports Prelude
begin

text \<open>
  Model of \<open>u256.rs\<close>: 256-bit unsigned integers as big-endian byte strings of length 32. The two
  loops run from index 31 down to 0; here they are recursions that treat the tail of the string
  first and hand the carry to the byte in front of it. The accumulators keep their width (\<open>u16\<close>
  and \<open>u128\<close>), so the absence of a wrap-around inside the loops is part of what is proved.
  The lemmas show that both operations are exact below \<open>2 ^ 256\<close> and return nothing from there
  on, and that the byte order is the numeric order.
\<close>

type_synonym u128 = "128 word"
type_synonym u256 = bytes

section \<open>Definitions\<close>

definition is_u256 :: "u256 \<Rightarrow> bool" where
  "is_u256 a \<longleftrightarrow> length a = 32"

definition u256_from_u64 :: "u64 \<Rightarrow> u256" where
  "u256_from_u64 x = replicate 24 0 @ be64 x"

definition u256_from_minimal_be :: "bytes \<Rightarrow> u256 option" where
  "u256_from_minimal_be bs =
     (if 32 < length bs then None else Some (replicate (32 - length bs) 0 @ bs))"

fun u256_add_loop :: "u256 \<Rightarrow> u256 \<Rightarrow> bytes \<times> u16" where
  "u256_add_loop (a # as) (b # bs) =
     (let (out, carry) = u256_add_loop as bs;
          sum = ucast a + ucast b + carry
      in (ucast sum # out, drop_bit 8 sum))"
| "u256_add_loop _ _ = ([], 0)"

definition u256_checked_add :: "u256 \<Rightarrow> u256 \<Rightarrow> u256 option" where
  "u256_checked_add a b =
     (let (out, carry) = u256_add_loop a b in if carry = 0 then Some out else None)"

fun u256_mul_loop :: "u256 \<Rightarrow> u64 \<Rightarrow> bytes \<times> u128" where
  "u256_mul_loop [] b = ([], 0)"
| "u256_mul_loop (a # as) b =
     (let (out, carry) = u256_mul_loop as b;
          prod = ucast a * ucast b + carry
      in (ucast prod # out, drop_bit 8 prod))"

definition u256_checked_mul_u64 :: "u256 \<Rightarrow> u64 \<Rightarrow> u256 option" where
  "u256_checked_mul_u64 a b =
     (let (out, carry) = u256_mul_loop a b in if carry = 0 then Some out else None)"

section \<open>The loops compute the exact sum and product\<close>

lemma u256_add_loop_exact:
  assumes "length a = length b" "u256_add_loop a b = (out, carry)"
  shows "length out = length a \<and> unat carry \<le> 1
    \<and> unat carry * 256 ^ length a + be_val out = be_val a + be_val b"
  using assms
proof (induction a b arbitrary: out carry rule: list_induct2)
  case Nil
  then show ?case by simp
next
  case (Cons x xs y ys)
  obtain out' carry' where rec: "u256_add_loop xs ys = (out', carry')" by fastforce
  note IH = Cons.IH [OF rec]
  define s :: u16 where "s = ucast x + ucast y + carry'"
  have "unat x + unat y + unat carry' < 65536"
    using IH unat_lt_256 [of x] unat_lt_256 [of y] by linarith
  then have lt: "unat x + unat y + unat carry' < 2 ^ 16" by simp
  have s: "unat s = unat x + unat y + unat carry'"
    using lt by (simp add: s_def unat_word_ariths unat_ucast_up)
  have out: "out = ucast s # out'" and carry: "carry = drop_bit 8 s"
    using Cons.prems rec by (simp_all add: Let_def s_def)
  have hd: "unat (ucast s :: u8) = unat s mod 256"
    by (rule unat_ucast_u8)
  have c: "unat carry = unat s div 256"
    using carry by (simp only: unat_drop_bit_8)
  have "unat carry \<le> 1"
    using c s IH unat_lt_256 [of x] unat_lt_256 [of y] by linarith
  moreover have "unat carry * 256 ^ Suc (length xs) + be_val out
    = unat s * 256 ^ length xs + be_val out'"
    using IH byte_digits [of "unat s" "256 ^ length xs"] by (simp add: out c hd)
  ultimately show ?case
    using IH Cons.hyps by (simp add: out s algebra_simps)
qed

lemma u256_mul_loop_exact:
  assumes "u256_mul_loop a b = (out, carry)"
  shows "length out = length a \<and> unat carry \<le> unat b
    \<and> unat carry * 256 ^ length a + be_val out = be_val a * unat b"
  using assms
proof (induction a b arbitrary: out carry rule: u256_mul_loop.induct)
  case 1
  then show ?case by simp
next
  case (2 x xs b)
  obtain out' carry' where rec: "u256_mul_loop xs b = (out', carry')" by fastforce
  note IH = "2.IH" [OF rec]
  define s :: u128 where "s = ucast x * ucast b + carry'"
  have xb: "unat x * unat b \<le> 255 * unat b"
    using unat_lt_256 [of x] by (intro mult_le_mono1) linarith
  have "unat x * unat b + unat carry' < 340282366920938463463374607431768211456"
    using IH xb unat_lt_2p64 [of b] by linarith
  then have lt: "unat x * unat b + unat carry' < 2 ^ 128" by simp
  have s: "unat s = unat x * unat b + unat carry'"
    using lt by (simp add: s_def unat_word_ariths unat_ucast_up)
  have out: "out = ucast s # out'" and carry: "carry = drop_bit 8 s"
    using "2.prems" rec by (simp_all add: Let_def s_def)
  have hd: "unat (ucast s :: u8) = unat s mod 256"
    by (rule unat_ucast_u8)
  have c: "unat carry = unat s div 256"
    using carry by (simp only: unat_drop_bit_8)
  have "unat carry \<le> unat b"
    using c s IH xb by linarith
  moreover have "unat carry * 256 ^ Suc (length xs) + be_val out
    = unat s * 256 ^ length xs + be_val out'"
    using IH byte_digits [of "unat s" "256 ^ length xs"] by (simp add: out c hd)
  ultimately show ?case
    using IH by (simp add: out s algebra_simps)
qed

section \<open>Exactness and overflow\<close>

lemma is_u256_from_u64 [simp]: "is_u256 (u256_from_u64 x)"
  by (simp add: is_u256_def u256_from_u64_def)

lemma be_val_u256_from_u64 [simp]: "be_val (u256_from_u64 x) = unat x"
  by (simp add: u256_from_u64_def be_val_append)

lemma u256_from_minimal_be_Some:
  "u256_from_minimal_be bs = Some a
    \<longleftrightarrow> length bs \<le> 32 \<and> is_u256 a \<and> be_val a = be_val bs"
proof -
  have "is_u256 a \<and> be_val a = be_val bs \<longleftrightarrow> replicate (32 - length bs) 0 @ bs = a"
    if "length bs \<le> 32"
  proof -
    have "is_u256 (replicate (32 - length bs) 0 @ bs)" using that by (simp add: is_u256_def)
    moreover have "be_val (replicate (32 - length bs) 0 @ bs) = be_val bs"
      by (simp add: be_val_append)
    ultimately show ?thesis using be_val_inj unfolding is_u256_def by metis
  qed
  then show ?thesis unfolding u256_from_minimal_be_def by (auto simp: not_less)
qed

lemma u256_bound: "is_u256 a \<Longrightarrow> be_val a < 256 ^ 32"
  using be_val_less [of a] by (simp add: is_u256_def)

lemma carry_word:
  assumes "be_val out < 256 ^ n"
  shows "(c :: 'a :: len word) = 0 \<longleftrightarrow> unat c * 256 ^ n + be_val out < 256 ^ n"
proof (cases "c = 0")
  case False
  then have "1 * 256 ^ n \<le> unat c * 256 ^ n"
    by (intro mult_le_mono1) (simp add: Suc_le_eq unat_gt_0)
  then have "\<not> unat c * 256 ^ n + be_val out < 256 ^ n" by linarith
  with False show ?thesis by blast
qed (use assms in simp)

lemma u256_checked_add_cases:
  assumes "is_u256 a" "is_u256 b"
  shows "(case u256_checked_add a b of
      Some c \<Rightarrow> is_u256 c \<and> be_val c = be_val a + be_val b
    | None \<Rightarrow> 256 ^ 32 \<le> be_val a + be_val b)"
proof -
  obtain out carry where l: "u256_add_loop a b = (out, carry)" by fastforce
  have len: "length a = length b" "length a = 32" using assms by (simp_all add: is_u256_def)
  note ex = u256_add_loop_exact [OF len(1) l, unfolded len(2)]
  then have "be_val out < 256 ^ 32" using be_val_less [of out] by simp
  then show ?thesis
    using ex carry_word [of out 32 carry] unfolding u256_checked_add_def l is_u256_def
    by (auto simp del: power_numeral)
qed

lemma u256_checked_mul_cases:
  assumes "is_u256 a"
  shows "(case u256_checked_mul_u64 a b of
      Some c \<Rightarrow> is_u256 c \<and> be_val c = be_val a * unat b
    | None \<Rightarrow> 256 ^ 32 \<le> be_val a * unat b)"
proof -
  obtain out carry where l: "u256_mul_loop a b = (out, carry)" by fastforce
  have len: "length a = 32" using assms by (simp add: is_u256_def)
  note ex = u256_mul_loop_exact [OF l, unfolded len]
  then have "be_val out < 256 ^ 32" using be_val_less [of out] by simp
  then show ?thesis
    using ex carry_word [of out 32 carry] unfolding u256_checked_mul_u64_def l is_u256_def
    by (auto simp del: power_numeral)
qed

text \<open>\<open>u256\<close> addition keeps the contract of checked addition.\<close>

interpretation u256_add: checked_add_dom be_val is_u256 "256 ^ 32" u256_checked_add
proof
  show "be_val a < 256 ^ 32" if "is_u256 a" for a
    using that by (rule u256_bound)
  show "a = b" if "is_u256 a" "is_u256 b" "be_val a = be_val b" for a b
    using that be_val_inj by (simp add: is_u256_def)
  show "is_u256 c \<and> be_val c = be_val a + be_val b"
    if "is_u256 a" "is_u256 b" "u256_checked_add a b = Some c" for a b c
    using u256_checked_add_cases [OF that(1,2)] that(3) by simp
  show "u256_checked_add a b = None \<longleftrightarrow> 256 ^ 32 \<le> be_val a + be_val b"
    if "is_u256 a" "is_u256 b" for a b
    using u256_checked_add_cases [OF that] u256_bound
    by (cases "u256_checked_add a b") (fastforce simp del: power_numeral)+
qed

lemma u256_checked_mul_Some:
  assumes "is_u256 a" "is_u256 c"
  shows "u256_checked_mul_u64 a b = Some c \<longleftrightarrow> be_val c = be_val a * unat b"
  using u256_checked_mul_cases [OF assms(1), of b] u256_bound [OF assms(2)] be_val_inj assms
  by (cases "u256_checked_mul_u64 a b") (auto simp: is_u256_def simp del: power_numeral)

lemma u256_le_iff: "is_u256 a \<Longrightarrow> is_u256 b \<Longrightarrow> a \<le> b \<longleftrightarrow> be_val a \<le> be_val b"
  by (simp add: is_u256_def be_val_le_iff)

lemma u256_less_iff: "is_u256 a \<Longrightarrow> is_u256 b \<Longrightarrow> a < b \<longleftrightarrow> be_val a < be_val b"
  by (simp add: is_u256_def be_val_less_iff)

section \<open>Properties\<close>

text \<open>C29: 256-bit addition and multiplication by a 64-bit word are exact: each returns the true sum or
  product as a 32-byte value, or nothing exactly when that value does not fit in 256 bits. Neither
  the 16-bit nor the 128-bit accumulator of the loops wraps.\<close>

theorem u256_arithmetic_exact:
  assumes "is_u256 a" "is_u256 b"
  shows "(case u256_checked_add a b of
      Some c \<Rightarrow> is_u256 c \<and> be_val c = be_val a + be_val b
    | None \<Rightarrow> 2 ^ 256 \<le> be_val a + be_val b)
   \<and> (case u256_checked_mul_u64 a n of
      Some c \<Rightarrow> is_u256 c \<and> be_val c = be_val a * unat n
    | None \<Rightarrow> 2 ^ 256 \<le> be_val a * unat n)"
proof -
  have pow: "(256 :: nat) ^ 32 = 2 ^ 256" by simp
  show ?thesis
    by (rule conjI [OF u256_checked_add_cases [OF assms, unfolded pow]
        u256_checked_mul_cases [OF assms(1), unfolded pow]])
qed

lemma u256_arithmetic_exact_witness:
  "(\<exists>c. u256_checked_add (u256_from_u64 0xff) (u256_from_u64 1) = Some c \<and> be_val c = 256)
   \<and> (\<exists>c. u256_checked_mul_u64 (u256_from_u64 0xff) 2 = Some c \<and> be_val c = 510)"
  using u256_arithmetic_exact [of "u256_from_u64 0xff" "u256_from_u64 1" 2]
  by (simp split: option.splits)

end
