(* ===== verification/Cbor.thy ===== *)
theory Cbor
  imports Prelude "HOL-Library.Sublist"
begin

text \<open>
  Model of \<open>agent_cbor.rs\<close> (the strict canonical CBOR reader for untrusted wire maps) and of the
  shared CBOR writers \<open>put_uint\<close>, \<open>put_text\<close> and \<open>put_bytes\<close> of \<open>agent_capability.rs\<close>.

  A reader state is the buffer, the position and the cap on strings, as in the source. Positions
  are \<open>nat\<close>: the overflow check of \<open>take\<close> is subsumed by its range check, because no slice is
  longer than \<open>isize::MAX\<close>. \<open>cur pre mx s\<close> is the state that has read \<open>pre\<close> and has \<open>s\<close> left.

  The interface \<open>sp_codec\<close> says what a reader promises: it succeeds exactly on the
  encodings of its valid values and stops right after them. Every reader of the source interprets
  it, so each decoder built from them is the exact inverse of the canonical encoder.
\<close>

section \<open>Values and writers\<close>

text \<open>The items the strict reader can produce (null, tags and floats are rejected by it).\<close>

datatype cbor_value =
    CInteger int
  | CBytes bytes
  | CText bytes
  | CBool bool
  | CArray "cbor_value list"
  | CMap "(cbor_value \<times> cbor_value) list"

definition put_uint :: "u8 \<Rightarrow> u64 \<Rightarrow> bytes" where
  "put_uint major val =
     (let mt = push_bit 5 major in
      if val < 24 then [mt OR ucast val]
      else if val \<le> 0xff then [mt OR 24, ucast val]
      else if val \<le> 0xffff then (mt OR 25) # be16 (ucast val)
      else if val \<le> 0xffffffff then (mt OR 26) # be32 (ucast val)
      else (mt OR 27) # be64 val)"

definition put_text :: "bytes \<Rightarrow> bytes" where
  "put_text s = put_uint 3 (of_nat (length s)) @ s"

definition put_bytes :: "bytes \<Rightarrow> bytes" where
  "put_bytes b = put_uint 2 (of_nat (length b)) @ b"

section \<open>UTF-8\<close>

text \<open>\<open>core::str::from_utf8\<close>: the well-formed byte sequences of RFC 3629.\<close>

definition utf8_cont :: "u8 \<Rightarrow> bool" where
  "utf8_cont c \<longleftrightarrow> 0x80 \<le> c \<and> c \<le> 0xbf"

fun utf8_valid :: "bytes \<Rightarrow> bool" where
  "utf8_valid [] = True"
| "utf8_valid (b # bs) =
     (if b < 0x80 then utf8_valid bs
      else if 0xc2 \<le> b \<and> b \<le> 0xdf then
        (case bs of c # r \<Rightarrow> utf8_cont c \<and> utf8_valid r | _ \<Rightarrow> False)
      else if 0xe0 \<le> b \<and> b \<le> 0xef then
        (case bs of c # d # r \<Rightarrow>
            utf8_cont c \<and> utf8_cont d \<and> (b = 0xe0 \<longrightarrow> 0xa0 \<le> c) \<and> (b = 0xed \<longrightarrow> c \<le> 0x9f)
            \<and> utf8_valid r
         | _ \<Rightarrow> False)
      else if 0xf0 \<le> b \<and> b \<le> 0xf4 then
        (case bs of c # d # e # r \<Rightarrow>
            utf8_cont c \<and> utf8_cont d \<and> utf8_cont e \<and> (b = 0xf0 \<longrightarrow> 0x90 \<le> c)
            \<and> (b = 0xf4 \<longrightarrow> c \<le> 0x8f) \<and> utf8_valid r
         | _ \<Rightarrow> False)
      else False)"

lemma utf8_valid_ascii: "\<forall>b \<in> set bs. b < 0x80 \<Longrightarrow> utf8_valid bs"
  by (induction bs) auto

section \<open>The reader\<close>

definition MAX_CBOR_DEPTH :: nat where "MAX_CBOR_DEPTH = 4"
definition MAX_MAP_ENTRIES :: u64 where "MAX_MAP_ENTRIES = 64"
definition MAX_ARRAY_ENTRIES :: u64 where "MAX_ARRAY_ENTRIES = 64"
definition MAX_STR_LEN :: u64 where "MAX_STR_LEN = 4096"
definition MARKS_SCOPE_TARGET_MAX_LEN :: nat where "MARKS_SCOPE_TARGET_MAX_LEN = 4096"

record strict_parser =
  sp_buf :: bytes
  sp_pos :: nat
  sp_max_bstr :: u64

definition sp_u8 :: "strict_parser \<Rightarrow> (u8 \<times> strict_parser) option" where
  "sp_u8 p = (if sp_pos p < length (sp_buf p)
     then Some (sp_buf p ! sp_pos p, p\<lparr>sp_pos := sp_pos p + 1\<rparr>) else None)"

definition sp_take :: "nat \<Rightarrow> strict_parser \<Rightarrow> (bytes \<times> strict_parser) option" where
  "sp_take n p =
     (let stop = sp_pos p + n in
      if stop \<le> length (sp_buf p)
      then Some (take n (drop (sp_pos p) (sp_buf p)), p\<lparr>sp_pos := stop\<rparr>) else None)"

text \<open>The argument of a head with this minor field, in shortest form only.\<close>

definition sp_head_arg :: "u8 \<Rightarrow> strict_parser \<Rightarrow> (u64 \<times> strict_parser) option" where
  "sp_head_arg minor p =
     (if minor \<le> 23 then Some (ucast minor, p)
      else if minor = 24 then do {
        (b, p) \<leftarrow> sp_u8 p;
        if (ucast b :: u64) < 24 then None else Some (ucast b, p) }
      else if minor = 25 then do {
        (b, p) \<leftarrow> sp_take 2 p;
        if (of_nat (be_val b) :: u64) \<le> 0xff then None else Some (of_nat (be_val b), p) }
      else if minor = 26 then do {
        (b, p) \<leftarrow> sp_take 4 p;
        if (of_nat (be_val b) :: u64) \<le> 0xffff then None else Some (of_nat (be_val b), p) }
      else if minor = 27 then do {
        (b, p) \<leftarrow> sp_take 8 p;
        if (of_nat (be_val b) :: u64) \<le> 0xffffffff then None else Some (of_nat (be_val b), p) }
      else None)"

definition sp_head :: "strict_parser \<Rightarrow> ((u8 \<times> u64) \<times> strict_parser) option" where
  "sp_head p = do {
     (ib, p) \<leftarrow> sp_u8 p;
     let major = drop_bit 5 ib;
     let minor = ib AND 0x1f;
     (arg, p) \<leftarrow> sp_head_arg minor p;
     Some ((major, arg), p) }"

definition sp_remaining :: "strict_parser \<Rightarrow> nat" where
  "sp_remaining p = length (sp_buf p) - sp_pos p"

text \<open>The two container loops, over the number of items left to read.\<close>

fun sp_array_loop :: "(strict_parser \<Rightarrow> (cbor_value \<times> strict_parser) option) \<Rightarrow> nat
    \<Rightarrow> strict_parser \<Rightarrow> (cbor_value list \<times> strict_parser) option" where
  "sp_array_loop item 0 p = Some ([], p)"
| "sp_array_loop item (Suc n) p = do {
     (v, p) \<leftarrow> item p;
     (vs, p) \<leftarrow> sp_array_loop item n p;
     Some (v # vs, p) }"

definition sp_slice :: "bytes \<Rightarrow> nat \<times> nat \<Rightarrow> bytes" where
  "sp_slice buf r = take (snd r - fst r) (drop (fst r) buf)"

fun sp_map_loop :: "(strict_parser \<Rightarrow> (cbor_value \<times> strict_parser) option) \<Rightarrow> nat
    \<Rightarrow> (nat \<times> nat) option \<Rightarrow> strict_parser
    \<Rightarrow> ((cbor_value \<times> cbor_value) list \<times> strict_parser) option" where
  "sp_map_loop item 0 last_key p = Some ([], p)"
| "sp_map_loop item (Suc n) last_key p = do {
     let key_start = sp_pos p;
     (k, p) \<leftarrow> item p;
     let key_end = sp_pos p;
     if (case last_key of None \<Rightarrow> False
         | Some r \<Rightarrow> sp_slice (sp_buf p) (key_start, key_end) \<le> sp_slice (sp_buf p) r)
     then None
     else do {
       (v, p) \<leftarrow> item p;
       (m, p) \<leftarrow> sp_map_loop item n (Some (key_start, key_end)) p;
       Some ((k, v) # m, p) } }"

function sp_item :: "nat \<Rightarrow> strict_parser \<Rightarrow> (cbor_value \<times> strict_parser) option" where
  "sp_item depth p =
     (if depth > MAX_CBOR_DEPTH then None
      else do {
        ((major, arg), p) \<leftarrow> sp_head p;
        if major = 0 then Some (CInteger (uint arg), p)
        else if major = 1 then Some (CInteger (- 1 - uint arg), p)
        else if major = 2 then
          (if arg > sp_max_bstr p then None
           else do { (b, p) \<leftarrow> sp_take (unat arg) p; Some (CBytes b, p) })
        else if major = 3 then
          (if arg > sp_max_bstr p then None
           else do {
             (b, p) \<leftarrow> sp_take (unat arg) p;
             if utf8_valid b then Some (CText b, p) else None })
        else if major = 4 then
          (if arg > MAX_ARRAY_ENTRIES \<or> unat arg > sp_remaining p then None
           else do {
             (vs, p) \<leftarrow> sp_array_loop (\<lambda>q. sp_item (depth + 1) q) (unat arg) p;
             Some (CArray vs, p) })
        else if major = 5 then
          (if arg > MAX_MAP_ENTRIES \<or> 2 * unat arg > sp_remaining p then None
           else do {
             (m, p) \<leftarrow> sp_map_loop (\<lambda>q. sp_item (depth + 1) q) (unat arg) None p;
             Some (CMap m, p) })
        else if major = 7 then
          (if arg = 20 then Some (CBool False, p)
           else if arg = 21 then Some (CBool True, p)
           else None)
        else None })"
  by pat_completeness auto
termination
  by (relation "measure (\<lambda>(depth, _). Suc MAX_CBOR_DEPTH - depth)") auto

declare sp_item.simps [simp del]

definition strict_decode_map_capped :: "bytes \<Rightarrow> u64 \<Rightarrow> (cbor_value \<times> cbor_value) list option" where
  "strict_decode_map_capped bs max_bstr = do {
     (v, p) \<leftarrow> sp_item 1 \<lparr>sp_buf = bs, sp_pos = 0, sp_max_bstr = max_bstr\<rparr>;
     if sp_pos p \<noteq> length bs then None
     else (case v of CMap m \<Rightarrow> Some m | _ \<Rightarrow> None) }"

definition strict_decode_map :: "bytes \<Rightarrow> (cbor_value \<times> cbor_value) list option" where
  "strict_decode_map bs = strict_decode_map_capped bs MAX_STR_LEN"

section \<open>Accessors\<close>

definition as_u64 :: "cbor_value \<Rightarrow> u64 option" where
  "as_u64 v = (case v of CInteger i \<Rightarrow> (if 0 \<le> i \<and> i < 2 ^ 64 then Some (of_int i) else None) | _ \<Rightarrow> None)"

definition map_get :: "(cbor_value \<times> cbor_value) list \<Rightarrow> u64 \<Rightarrow> cbor_value option" where
  "map_get m key = map_option snd (find (\<lambda>(k, _). as_u64 k = Some key) m)"

definition as_bytes :: "cbor_value \<Rightarrow> bytes option" where
  "as_bytes v = (case v of CBytes b \<Rightarrow> Some b | _ \<Rightarrow> None)"

definition as_bytes_n :: "nat \<Rightarrow> cbor_value \<Rightarrow> bytes option" where
  "as_bytes_n n v = do { b \<leftarrow> as_bytes v; if length b = n then Some b else None }"

definition as_bytes32 :: "cbor_value \<Rightarrow> bytes option" where
  "as_bytes32 = as_bytes_n 32"

definition as_u256_minimal_be :: "cbor_value \<Rightarrow> bytes option" where
  "as_u256_minimal_be v = do {
     b \<leftarrow> as_bytes v;
     if 32 < length b then None
     else if b \<noteq> [] \<and> hd b = 0 then None
     else Some b }"

fun check_strict_keys_loop :: "(u64 \<Rightarrow> bool) \<Rightarrow> u64 \<Rightarrow> (cbor_value \<times> cbor_value) list \<Rightarrow> bool" where
  "check_strict_keys_loop allowed seen [] = True"
| "check_strict_keys_loop allowed seen ((k, _) # m) =
     (case as_u64 k of
        None \<Rightarrow> False
      | Some n \<Rightarrow>
          if \<not> allowed n \<or> \<not> (1 \<le> n \<and> n \<le> 64) then False
          else (let b = push_bit (unat (n - 1)) 1 in
                if seen AND b \<noteq> 0 then False
                else check_strict_keys_loop allowed (seen OR b) m))"

definition check_strict_keys :: "(cbor_value \<times> cbor_value) list \<Rightarrow> (u64 \<Rightarrow> bool) \<Rightarrow> bool" where
  "check_strict_keys m allowed = check_strict_keys_loop allowed 0 m"

section \<open>Cursor states\<close>

definition cur :: "bytes \<Rightarrow> u64 \<Rightarrow> bytes \<Rightarrow> strict_parser" where
  "cur pre mx s = \<lparr>sp_buf = pre @ s, sp_pos = length pre, sp_max_bstr = mx\<rparr>"

lemma cur_simps [simp]:
  "sp_buf (cur pre mx s) = pre @ s" "sp_pos (cur pre mx s) = length pre"
  "sp_max_bstr (cur pre mx s) = mx" "sp_remaining (cur pre mx s) = length s"
  by (simp_all add: cur_def sp_remaining_def)

lemma sp_start: "\<lparr>sp_buf = bs, sp_pos = 0, sp_max_bstr = mx\<rparr> = cur [] mx bs"
  by (simp add: cur_def)

lemma sp_u8_cur: "sp_u8 (cur pre mx s) = (case s of [] \<Rightarrow> None | b # r \<Rightarrow> Some (b, cur (pre @ [b]) mx r))"
  by (cases s) (simp_all add: sp_u8_def cur_def)

lemma sp_take_cur:
  "sp_take n (cur pre mx s)
    = (if n \<le> length s then Some (take n s, cur (pre @ take n s) mx (drop n s)) else None)"
  by (simp add: sp_take_def cur_def Let_def)

lemma sp_take_append [simp]: "n = length a \<Longrightarrow> sp_take n (cur pre mx (a @ s)) = Some (a, cur (pre @ a) mx s)"
  by (simp add: sp_take_cur)

section \<open>Heads\<close>

lemma mask5: "(0x1f :: u8) = mask 5" by (simp add: mask_eq_exp_minus_1)

lemma word_take_bit_small: "unat n < 2 ^ k \<Longrightarrow> take_bit k n = (n :: 'a :: len word)"
  by (simp add: word_unat_eq_iff unsigned_take_bit_eq take_bit_nat_eq_self)

lemma ib_join: "push_bit 5 (drop_bit 5 ib) OR (ib AND 0x1f) = (ib :: u8)"
  unfolding mask5 by (auto intro!: bit_word_eqI simp: bit_simps)

lemma ib_major:
  assumes "m < 8" "n < 32"
  shows "drop_bit 5 (push_bit 5 m OR n) = (m :: u8)"
proof -
  have m: "take_bit 3 m = m" and n: "take_bit 5 n = n"
    using assms by (auto intro!: word_take_bit_small simp: word_less_nat_alt)
  have "drop_bit 5 (push_bit 5 (take_bit 3 m) OR take_bit 5 n) = take_bit 3 m"
    by (auto intro!: bit_word_eqI simp: bit_simps)
  then show ?thesis by (simp only: m n)
qed

lemma ib_minor:
  assumes "n < 32"
  shows "(push_bit 5 m OR n) AND 0x1f = (n :: u8)"
proof -
  have n: "take_bit 5 n = n"
    using assms by (auto intro!: word_take_bit_small simp: word_less_nat_alt)
  have "(push_bit 5 m OR take_bit 5 n) AND mask 5 = take_bit 5 n"
    by (auto intro!: bit_word_eqI simp: bit_simps)
  then show ?thesis by (simp only: n mask5)
qed

lemma drop_bit_5_less: "drop_bit 5 (ib :: u8) < 8"
proof -
  have "unat (drop_bit 5 ib) = drop_bit 5 (unat ib)" by (rule unat_drop_bit_eq)
  then have "unat (drop_bit 5 ib) = unat ib div 32" by (simp add: drop_bit_eq_div)
  then show ?thesis using unat_lt_256 [of ib] by (simp add: word_less_nat_alt less_mult_imp_div_less)
qed

lemma minor_less: "(ib :: u8) AND 0x1f < 32"
proof -
  have "unat (ib AND mask 5) = unat ib mod 32"
  proof -
    have "unat (ib AND mask 5) = unat (take_bit 5 ib)" by (simp only: take_bit_eq_mask)
    also have "\<dots> = take_bit 5 (unat ib)" by (rule unsigned_take_bit_eq)
    finally show ?thesis by (simp add: take_bit_eq_mod)
  qed
  then show ?thesis unfolding mask5 by (simp add: word_less_nat_alt)
qed

lemma unat_ucast_small: "unat a < 2 ^ LENGTH('b) \<Longrightarrow> unat (ucast (a :: 'a :: len word) :: 'b :: len word) = unat a"
  by (simp add: unsigned_ucast_eq take_bit_nat_eq_self)

lemma ucast_ucast_small:
  "unat a < 2 ^ LENGTH('b) \<Longrightarrow> ucast (ucast (a :: 'a :: len word) :: 'b :: len word) = a"
  by (simp add: word_unat_eq_iff unat_ucast_small unat_less_word)

lemma ucast_up_down: "ucast (ucast (a :: u8) :: u64) = a"
  by (simp only: word_unat_eq_iff unat_ucast_u8) (simp add: unat_ucast_up)

lemma be16_be_val: "length t = 2 \<Longrightarrow> be16 (ucast (of_nat (be_val t) :: u64)) = t"
  using be_val_less [of t] be_bytes_be_val [of t]
  by (simp add: be16_def unsigned_ucast_eq take_bit_eq_mod unat_of_nat)

lemma be32_be_val: "length t = 4 \<Longrightarrow> be32 (ucast (of_nat (be_val t) :: u64)) = t"
  using be_val_less [of t] be_bytes_be_val [of t]
  by (simp add: be32_def unsigned_ucast_eq take_bit_eq_mod unat_of_nat)

lemma be64_be_val: "length t = 8 \<Longrightarrow> be64 (of_nat (be_val t)) = t"
  using be_val_less [of t] be_bytes_be_val [of t]
  by (simp add: be64_def unat_of_nat)

lemma unat_of_nat_be_val: "length t \<le> 8 \<Longrightarrow> unat (of_nat (be_val t) :: u64) = be_val t"
proof -
  assume "length t \<le> 8"
  then have "(256 :: nat) ^ length t \<le> 256 ^ 8" by (intro power_increasing) auto
  then have "be_val t < 2 ^ 64" using be_val_less [of t] by simp
  then show ?thesis by (simp add: unat_of_nat)
qed

lemma sp_head_Cons:
  "sp_head (cur pre mx (ib # r)) = Some ((m, a), p')
    \<longleftrightarrow> m = drop_bit 5 ib \<and> sp_head_arg (ib AND 0x1f) (cur (pre @ [ib]) mx r) = Some (a, p')"
  by (auto simp: sp_head_def sp_u8_cur Let_def bind_eq_Some_conv)

lemma sp_head_put_uint:
  assumes "m < 8"
  shows "sp_head (cur pre mx (put_uint m a @ s)) = Some ((m, a), cur (pre @ put_uint m a) mx s)"
proof -
  consider "a < 24" | "24 \<le> a" "a \<le> 0xff" | "0xff < a" "a \<le> 0xffff"
    | "0xffff < a" "a \<le> 0xffffffff" | "0xffffffff < a" by force
  then show ?thesis
  proof cases
    case 1
    then have lt: "unat (ucast a :: u8) < 24" "unat a < 2 ^ LENGTH(8)"
      by (simp_all add: unat_ucast_small word_less_nat_alt)
    then have "ucast a < (32 :: u8)" "ucast a \<le> (23 :: u8)"
      by (simp_all add: word_less_nat_alt word_le_nat_alt)
    then show ?thesis
      using 1 assms lt
      by (simp add: put_uint_def sp_head_Cons sp_head_arg_def ib_major ib_minor ucast_ucast_small
          del: drop_bit_or)
  next
    case 2
    then have "unat a < 2 ^ LENGTH(8)" "\<not> a < 24" by (auto simp: word_le_nat_alt word_less_nat_alt)
    then show ?thesis
      using 2 assms
      by (simp add: put_uint_def sp_head_Cons sp_head_arg_def sp_u8_cur ib_major ib_minor ucast_ucast_small del: drop_bit_or)
  next
    case 3
    then have "unat a < 2 ^ LENGTH(16)" "\<not> a < 24" "\<not> a \<le> 0xff"
      by (auto simp: word_le_nat_alt word_less_nat_alt)
    then show ?thesis
      using 3 assms
      by (simp add: put_uint_def sp_head_Cons sp_head_arg_def ib_major ib_minor unat_ucast_small del: drop_bit_or)
  next
    case 4
    then have "unat a < 2 ^ LENGTH(32)" "\<not> a < 24" "\<not> a \<le> 0xff" "\<not> a \<le> 0xffff"
      by (auto simp: word_le_nat_alt word_less_nat_alt)
    then show ?thesis
      using 4 assms
      by (simp add: put_uint_def sp_head_Cons sp_head_arg_def ib_major ib_minor unat_ucast_small del: drop_bit_or)
  next
    case 5
    then have "\<not> a < 24" "\<not> a \<le> 0xff" "\<not> a \<le> 0xffff" "\<not> a \<le> 0xffffffff"
      by (auto simp: word_le_nat_alt word_less_nat_alt)
    then show ?thesis
      using 5 assms by (simp add: put_uint_def sp_head_Cons sp_head_arg_def ib_major ib_minor del: drop_bit_or)
  qed
qed

lemma sp_head_arg_exact:
  assumes "sp_head_arg minor (cur pre mx s) = Some (a, p')" "minor < 32"
  obtains e ys where "s = e @ ys" "p' = cur (pre @ e) mx ys" "put_uint m a = (push_bit 5 m OR minor) # e"
proof -
  consider "minor \<le> 23" | "minor = 24" | "minor = 25" | "minor = 26" | "minor = 27"
    using assms by (force simp: sp_head_arg_def split: if_splits)
  then show ?thesis
  proof cases
    case 1
    then have a: "a = ucast minor" and p': "p' = cur pre mx s"
      using assms by (simp_all add: sp_head_arg_def)
    have "a < 24"
      using 1 unat_ucast_up [of minor, where 'b = 64] by (simp add: a word_less_nat_alt word_le_nat_alt)
    then show ?thesis
      using that [of "[]" s] p' by (simp add: put_uint_def a ucast_up_down)
  next
    case 2
    then obtain b r where s: "s = b # r" and a: "a = ucast b" "\<not> a < 24" and p': "p' = cur (pre @ [b]) mx r"
      using assms by (cases s) (auto simp: sp_head_arg_def sp_u8_cur split: if_splits)
    have "unat b \<le> 255" using unat_lt_256 [of b] by linarith
    then have "a \<le> 0xff" unfolding a by (simp add: word_le_nat_alt unat_ucast_up)
    then show ?thesis
      using that [of "[b]" r] s p' 2 a by (simp add: put_uint_def ucast_up_down)
  next
    case 3
    then have s: "2 \<le> length s" and a: "a = of_nat (be_val (take 2 s))" "\<not> a \<le> 0xff"
      and p': "p' = cur (pre @ take 2 s) mx (drop 2 s)"
      using assms by (auto simp: sp_head_arg_def sp_take_cur split: if_splits)
    have "a \<le> 0xffff"
      using be_val_less [of "take 2 s"] s by (simp add: a word_le_nat_alt unat_of_nat_be_val)
    moreover have "\<not> a < 24" using a(2) by (auto simp: word_le_nat_alt word_less_nat_alt)
    ultimately show ?thesis
      using that [of "take 2 s" "drop 2 s"] s p' 3 a be16_be_val [of "take 2 s"] by (simp add: put_uint_def)
  next
    case 4
    then have s: "4 \<le> length s" and a: "a = of_nat (be_val (take 4 s))" "\<not> a \<le> 0xffff"
      and p': "p' = cur (pre @ take 4 s) mx (drop 4 s)"
      using assms by (auto simp: sp_head_arg_def sp_take_cur split: if_splits)
    have "a \<le> 0xffffffff"
      using be_val_less [of "take 4 s"] s by (simp add: a word_le_nat_alt unat_of_nat_be_val)
    moreover have "\<not> a < 24" "\<not> a \<le> 0xff" using a(2) by (auto simp: word_le_nat_alt word_less_nat_alt)
    ultimately show ?thesis
      using that [of "take 4 s" "drop 4 s"] s p' 4 a be32_be_val [of "take 4 s"] by (simp add: put_uint_def)
  next
    case 5
    then have s: "8 \<le> length s" and a: "a = of_nat (be_val (take 8 s))" "\<not> a \<le> 0xffffffff"
      and p': "p' = cur (pre @ take 8 s) mx (drop 8 s)"
      using assms by (auto simp: sp_head_arg_def sp_take_cur split: if_splits)
    have "\<not> a < 24" "\<not> a \<le> 0xff" "\<not> a \<le> 0xffff"
      using a(2) by (auto simp: word_le_nat_alt word_less_nat_alt)
    then show ?thesis
      using that [of "take 8 s" "drop 8 s"] s p' 5 a be64_be_val [of "take 8 s"] by (simp add: put_uint_def)
  qed
qed

lemma sp_head_iff:
  "sp_head (cur pre mx s) = Some ((m, a), p')
    \<longleftrightarrow> m < 8 \<and> (\<exists>ys. s = put_uint m a @ ys \<and> p' = cur (pre @ put_uint m a) mx ys)"
proof
  assume head: "sp_head (cur pre mx s) = Some ((m, a), p')"
  then obtain ib r where s: "s = ib # r"
    by (cases s) (auto simp: sp_head_def sp_u8_cur)
  then have m: "m = drop_bit 5 ib" and arg: "sp_head_arg (ib AND 0x1f) (cur (pre @ [ib]) mx r) = Some (a, p')"
    using head by (simp_all add: sp_head_Cons)
  obtain e ys where "r = e @ ys" "p' = cur ((pre @ [ib]) @ e) mx ys"
    "put_uint m a = (push_bit 5 m OR (ib AND 0x1f)) # e"
    by (rule sp_head_arg_exact [OF arg minor_less])
  then show "m < 8 \<and> (\<exists>ys. s = put_uint m a @ ys \<and> p' = cur (pre @ put_uint m a) mx ys)"
    using s ib_join [of ib] drop_bit_5_less [of ib] by (simp add: m)
qed (auto simp: sp_head_put_uint)

section \<open>The interface of a reader\<close>

locale sp_codec =
  fixes parse :: "strict_parser \<Rightarrow> ('a \<times> strict_parser) option"
    and enc :: "'a \<Rightarrow> bytes"
    and ok :: "u64 \<Rightarrow> 'a \<Rightarrow> bool"
  assumes parse_iff: "parse (cur pre mx s) = Some (x, p')
    \<longleftrightarrow> ok mx x \<and> (\<exists>ys. s = enc x @ ys \<and> p' = cur (pre @ enc x) mx ys)"
begin

lemma parse_enc: "ok mx x \<Longrightarrow> parse (cur pre mx (enc x @ ys)) = Some (x, cur (pre @ enc x) mx ys)"
  by (simp add: parse_iff)

lemma bind_iff:
  "parse (cur pre mx s) \<bind> (\<lambda>(x, p). K x p) = Some r
    \<longleftrightarrow> (\<exists>x ys. ok mx x \<and> s = enc x @ ys \<and> K x (cur (pre @ enc x) mx ys) = Some r)"
  by (auto simp: bind_eq_Some_conv parse_iff)

lemma prefix_free: "ok mx a \<Longrightarrow> ok mx b \<Longrightarrow> enc a @ xs = enc b @ ys \<Longrightarrow> a = b \<and> xs = ys"
proof -
  assume ok: "ok mx a" "ok mx b" and eq: "enc a @ xs = enc b @ ys"
  have "parse (cur [] mx (enc a @ xs)) = Some (a, cur (enc a) mx xs)"
    using parse_enc [OF ok(1), of "[]"] by simp
  moreover have "parse (cur [] mx (enc b @ ys)) = Some (b, cur (enc b) mx ys)"
    using parse_enc [OF ok(2), of "[]"] by simp
  ultimately show ?thesis using eq by (simp add: cur_def)
qed

end

text \<open>A reader is a decoder of a self-delimiting encoding.\<close>

definition sp_rest :: "strict_parser \<Rightarrow> bytes" where
  "sp_rest p = drop (sp_pos p) (sp_buf p)"

lemma sp_rest_cur [simp]: "sp_rest (cur pre mx s) = s"
  by (simp add: sp_rest_def)

sublocale sp_codec \<subseteq> prefix_codec enc
  "\<lambda>bs. map_option (\<lambda>(x, p). (x, sp_rest p)) (parse (cur [] mx bs))" "ok mx" for mx
  by unfold_locales (simp add: parse_enc)

interpretation head: sp_codec sp_head "\<lambda>(m, a). put_uint m a" "\<lambda>_ (m, _). m < 8"
  by unfold_locales (auto simp: sp_head_iff)

lemma put_uint_not_Nil [simp]: "put_uint m a \<noteq> []"
  by (simp add: put_uint_def Let_def)

lemma length_put_uint: "1 \<le> length (put_uint m a) \<and> length (put_uint m a) \<le> 9"
  by (simp add: put_uint_def Let_def)

section \<open>Container loops\<close>

lemma sp_array_loop_iff:
  assumes "sp_codec item enc ok"
  shows "sp_array_loop item n (cur pre mx s) = Some (vs, p')
    \<longleftrightarrow> length vs = n \<and> list_all (ok mx) vs
      \<and> (\<exists>ys. s = concat (map enc vs) @ ys \<and> p' = cur (pre @ concat (map enc vs)) mx ys)"
proof (induction n arbitrary: pre s vs)
  case 0
  then show ?case by auto
next
  case (Suc n)
  show ?case
    unfolding sp_array_loop.simps sp_codec.bind_iff [OF assms]
    by (cases vs) (auto simp: bind_eq_Some_conv Suc)
qed

lemma sp_slice_append: "snd r \<le> length pre \<Longrightarrow> sp_slice (pre @ x) r = sp_slice pre r"
  by (cases "fst r \<le> length pre") (auto simp: sp_slice_def)

lemma sp_slice_middle: "sp_slice (pre @ x @ y) (length pre, length pre + length x) = x"
  by (simp add: sp_slice_def)

definition enc_pairs :: "('a \<Rightarrow> bytes) \<Rightarrow> ('a \<times> 'a) list \<Rightarrow> bytes" where
  "enc_pairs enc m = concat (map (\<lambda>(k, v). enc k @ enc v) m)"

lemma enc_pairs_simps [simp]:
  "enc_pairs enc [] = []" "enc_pairs enc ((k, v) # m) = enc k @ enc v @ enc_pairs enc m"
  by (simp_all add: enc_pairs_def)

lemma sorted_wrt_less2:
  "sorted_wrt (<) (x # y # zs) \<longleftrightarrow> x < y \<and> sorted_wrt (<) (y # zs :: 'a :: order list)"
  by (auto simp: sorted_wrt2)

lemma sp_map_loop_iff:
  assumes "sp_codec item enc ok" "\<forall>r. lk = Some r \<longrightarrow> snd r \<le> length pre"
  shows "sp_map_loop item n lk (cur pre mx s) = Some (m, p')
    \<longleftrightarrow> length m = n \<and> list_all (\<lambda>(k, v). ok mx k \<and> ok mx v) m
      \<and> sorted_wrt (<) ((case lk of None \<Rightarrow> [] | Some r \<Rightarrow> [sp_slice pre r]) @ map (\<lambda>kv. enc (fst kv)) m)
      \<and> (\<exists>ys. s = enc_pairs enc m @ ys \<and> p' = cur (pre @ enc_pairs enc m) mx ys)"
  using assms(2)
proof (induction n arbitrary: pre s m lk)
  case 0
  then show ?case by (cases lk) auto
next
  case (Suc n)
  have step: "sp_map_loop item n (Some (length pre, length (pre @ enc k))) (cur (pre @ enc k @ enc v) mx ys)
      = Some (m', p')
    \<longleftrightarrow> length m' = n \<and> list_all (\<lambda>(k, v). ok mx k \<and> ok mx v) m'
      \<and> sorted_wrt (<) (enc k # map (\<lambda>kv. enc (fst kv)) m')
      \<and> (\<exists>zs. ys = enc_pairs enc m' @ zs \<and> p' = cur (pre @ enc k @ enc v @ enc_pairs enc m') mx zs)"
    for k v ys m'
    using Suc.IH [of "Some (length pre, length (pre @ enc k))" "pre @ enc k @ enc v" ys m']
    by (simp add: sp_slice_middle del: sorted_wrt.simps)
  let ?lk = "case lk of None \<Rightarrow> [] | Some r \<Rightarrow> [sp_slice pre r]"
  have guard: "(case lk of None \<Rightarrow> False
       | Some r \<Rightarrow> sp_slice (sp_buf (cur (pre @ enc k) mx ys)) (sp_pos (cur pre mx s), sp_pos (cur (pre @ enc k) mx ys))
           \<le> sp_slice (sp_buf (cur (pre @ enc k) mx ys)) r)
     \<longleftrightarrow> \<not> sorted_wrt (<) (?lk @ [enc k])" for k ys
    using Suc.prems sp_slice_middle [of pre "enc k" ys] by (cases lk) (auto simp: sp_slice_append)
  have sorted: "sorted_wrt (<) (?lk @ map (\<lambda>kv. enc (fst kv)) ((k, v) # m'))
    \<longleftrightarrow> sorted_wrt (<) (?lk @ [enc k]) \<and> sorted_wrt (<) (enc k # map (\<lambda>kv. enc (fst kv)) m')" for k v m'
    by (cases lk) auto
  show ?case (is "?run = Some (m, p') \<longleftrightarrow> ?spec m")
  proof
    assume run: "?run = Some (m, p')"
    then obtain k v m' ys where k: "ok mx k" "s = enc k @ enc v @ ys" "sorted_wrt (<) (?lk @ [enc k])"
      and v: "ok mx v" and m: "m = (k, v) # m'"
      and rec: "sp_map_loop item n (Some (length pre, length (pre @ enc k))) (cur (pre @ enc k @ enc v) mx ys) = Some (m', p')"
      unfolding sp_map_loop.simps Let_def sp_codec.bind_iff [OF assms(1)] guard
      by (auto simp: sp_codec.bind_iff [OF assms(1)] bind_eq_Some_conv [of "sp_map_loop item n lk p" for lk p]
          simp del: sorted_wrt.simps)
    then show "?spec m" unfolding step m sorted by (auto simp del: sorted_wrt.simps)
  next
    assume spec: "?spec m"
    then obtain k v m' where m: "m = (k, v) # m'" by (cases m) auto
    obtain zs where *: "length m' = n" "ok mx k" "ok mx v" "list_all (\<lambda>(k, v). ok mx k \<and> ok mx v) m'"
      "s = enc k @ enc v @ enc_pairs enc m' @ zs" "p' = cur (pre @ enc_pairs enc m) mx zs"
      using spec unfolding m by (auto simp del: sorted_wrt.simps)
    have **: "sorted_wrt (<) (?lk @ [enc k])" "sorted_wrt (<) (enc k # map (\<lambda>kv. enc (fst kv)) m')"
      using spec unfolding m sorted by blast+
    have rec: "sp_map_loop item n (Some (length pre, length (pre @ enc k)))
        (cur (pre @ enc k @ enc v) mx (enc_pairs enc m' @ zs)) = Some (m', p')"
      unfolding step using * ** by (auto simp: m simp del: sorted_wrt.simps)
    show "?run = Some (m, p')"
      unfolding sp_map_loop.simps Let_def sp_codec.bind_iff [OF assms(1)] guard
      using * ** rec sp_codec.parse_enc [OF assms(1) *(3)]
      by (intro exI [of _ k] exI [of _ "enc v @ enc_pairs enc m' @ zs"]) (auto simp: m simp del: sorted_wrt.simps)
  qed
qed

section \<open>Items\<close>

text \<open>The canonical encoding of a value, and the values within the reader's limits.\<close>

primrec enc_value :: "cbor_value \<Rightarrow> bytes" where
  "enc_value (CInteger i) =
     (if 0 \<le> i then put_uint 0 (of_int i) else put_uint 1 (of_int (- 1 - i)))"
| "enc_value (CBytes b) = put_bytes b"
| "enc_value (CText s) = put_text s"
| "enc_value (CBool b) = put_uint 7 (if b then 21 else 20)"
| "enc_value (CArray vs) = put_uint 4 (of_nat (length vs)) @ concat (map enc_value vs)"
| "enc_value (CMap m) = put_uint 5 (of_nat (length m))
     @ concat (map (\<lambda>(k, v). k @ v) (map (map_prod enc_value enc_value) m))"

primrec canon_value :: "cbor_value \<Rightarrow> u64 \<Rightarrow> nat \<Rightarrow> bool" where
  "canon_value (CInteger i) = (\<lambda>mx d. d \<le> MAX_CBOR_DEPTH \<and> - (2 ^ 64) \<le> i \<and> i < 2 ^ 64)"
| "canon_value (CBytes b) = (\<lambda>mx d. d \<le> MAX_CBOR_DEPTH \<and> length b \<le> unat mx)"
| "canon_value (CText s) = (\<lambda>mx d. d \<le> MAX_CBOR_DEPTH \<and> length s \<le> unat mx \<and> utf8_valid s)"
| "canon_value (CBool b) = (\<lambda>mx d. d \<le> MAX_CBOR_DEPTH)"
| "canon_value (CArray vs) = (\<lambda>mx d. d \<le> MAX_CBOR_DEPTH \<and> length vs \<le> 64
     \<and> list_all (\<lambda>c. c mx (d + 1)) (map canon_value vs))"
| "canon_value (CMap m) = (\<lambda>mx d. d \<le> MAX_CBOR_DEPTH \<and> length m \<le> 64
     \<and> list_all (\<lambda>(ck, cv). ck mx (d + 1) \<and> cv mx (d + 1)) (map (map_prod canon_value canon_value) m)
     \<and> sorted_wrt (<) (map (\<lambda>kv. enc_value (fst kv)) m))"

lemma enc_value_CMap:
  "enc_value (CMap m) = put_uint 5 (of_nat (length m)) @ enc_pairs enc_value m"
  by (simp add: enc_pairs_def comp_def case_prod_unfold)

lemma enc_value_not_Nil [simp]: "enc_value v \<noteq> []"
  by (cases v) (auto simp: put_bytes_def put_text_def)

lemma length_concat_enc: "length vs \<le> length (concat (map enc_value vs))"
proof (induction vs)
  case (Cons v vs)
  moreover have "0 < length (enc_value v)" by simp
  ultimately show ?case by (simp del: length_greater_0_conv)
qed simp

lemma length_enc_pairs: "2 * length m \<le> length (enc_pairs enc_value m)"
proof (induction m)
  case (Cons kv m)
  moreover have "0 < length (enc_value (fst kv))" "0 < length (enc_value (snd kv))" by simp_all
  ultimately show ?case by (cases kv) (simp del: length_greater_0_conv)
qed simp

lemma of_nat_le_64: "of_nat n \<le> (64 :: u64) \<and> n < 2 ^ 64 \<longleftrightarrow> n \<le> 64"
  by (auto simp: word_le_nat_alt unat_of_nat)

lemma unat_of_nat_u64: "n < 2 ^ 64 \<Longrightarrow> unat (of_nat n :: u64) = n"
  by (simp add: unat_of_nat)

lemma sp_item_unfold:
  "sp_item d (cur pre mx (put_uint m a @ s)) = (let p = cur (pre @ put_uint m a) mx s in
     if m = 0 then Some (CInteger (uint a), p)
     else if m = 1 then Some (CInteger (- 1 - uint a), p)
     else if m = 2 then (if a > mx then None else do { (b, p) \<leftarrow> sp_take (unat a) p; Some (CBytes b, p) })
     else if m = 3 then (if a > mx then None else do {
        (b, p) \<leftarrow> sp_take (unat a) p; if utf8_valid b then Some (CText b, p) else None })
     else if m = 4 then (if a > 64 \<or> unat a > length s then None
        else do { (vs, p) \<leftarrow> sp_array_loop (sp_item (d + 1)) (unat a) p; Some (CArray vs, p) })
     else if m = 5 then (if a > 64 \<or> 2 * unat a > length s then None
        else do { (kvs, p) \<leftarrow> sp_map_loop (sp_item (d + 1)) (unat a) None p; Some (CMap kvs, p) })
     else if m = 7 then (if a = 20 then Some (CBool False, p) else if a = 21 then Some (CBool True, p) else None)
     else None)" if "d \<le> MAX_CBOR_DEPTH" "m < 8"
  using that
  by (simp add: sp_item.simps [of d] sp_head_put_uint MAX_ARRAY_ENTRIES_def MAX_MAP_ENTRIES_def Let_def)


lemma sp_item_head:
  assumes "sp_item d (cur pre mx s) = Some (v, p')"
  obtains m a r where "d \<le> MAX_CBOR_DEPTH" "m < 8" "s = put_uint m a @ r"
proof -
  have d: "d \<le> MAX_CBOR_DEPTH"
    using assms by (subst (asm) sp_item.simps) (simp split: if_splits)
  obtain m a q where "sp_head (cur pre mx s) = Some ((m, a), q)"
    using assms d by (subst (asm) sp_item.simps) (auto simp: bind_eq_Some_conv)
  then show ?thesis using that d by (auto simp: sp_head_iff)
qed

lemma uint_of_int_u64: "0 \<le> i \<Longrightarrow> i < 2 ^ 64 \<Longrightarrow> uint (of_int i :: u64) = i"
  by (simp add: unsigned_of_int take_bit_int_eq_self)

lemma u8_cases8:
  assumes "(m :: u8) < 8"
  obtains "m = 0" | "m = 1" | "m = 2" | "m = 3" | "m = 4" | "m = 5" | "m = 6" | "m = 7"
proof -
  have "unat m < 8" using assms by (simp add: word_less_nat_alt)
  then consider "unat m = 0" | "unat m = 1" | "unat m = 2" | "unat m = 3" | "unat m = 4" | "unat m = 5"
    | "unat m = 6" | "unat m = 7" by linarith
  then show ?thesis
    using that by cases (simp_all add: word_unat_eq_iff)
qed

lemma canon_value_depth: "canon_value v mx d \<Longrightarrow> d \<le> MAX_CBOR_DEPTH"
  by (cases v) simp_all

lemma sp_item_sound:
  assumes IH: "sp_codec (sp_item (d + 1)) enc_value (\<lambda>mx v. canon_value v mx (d + 1))"
    and run: "sp_item d (cur pre mx s) = Some (v, p')"
  shows "canon_value v mx d \<and> (\<exists>ys. s = enc_value v @ ys \<and> p' = cur (pre @ enc_value v) mx ys)"
proof -
  obtain m a r where d: "d \<le> MAX_CBOR_DEPTH" and m: "m < 8" and s: "s = put_uint m a @ r"
    by (rule sp_item_head [OF run])
  note IH' = IH [unfolded One_nat_def add_Suc_right add_0_right]
  note unf = run [unfolded s sp_item_unfold [OF d m]]
  have a: "of_nat (unat a) = a" "of_int (uint a) = a" "unat a < 2 ^ 64" by simp_all
  have bs: "of_nat (length (take (unat a) r)) = a" if "unat a \<le> length r" using that by (simp add: min_def)
  have "0 \<le> uint a" by simp
  moreover have "int (unat a) < int 18446744073709551616" by (simp only: of_nat_less_iff unat_lt_2p64)
  ultimately have au: "- 18446744073709551616 \<le> uint a" "uint a < 18446744073709551616"
    unfolding of_nat_unat by (linarith, simp)
  have nonneg: "\<not> uint a \<le> - 1" using uint_ge_0 [of a] by linarith
  show ?thesis
    using m
  proof (cases rule: u8_cases8)
    case 1
    then show ?thesis using unf d s au by (auto simp: Let_def)
  next
    case 2
    then show ?thesis using unf d s au nonneg by (auto simp: Let_def)
  next
    case 3
    then show ?thesis
      using unf d s bs by (auto simp: Let_def sp_take_cur put_bytes_def word_less_nat_alt
          intro!: exI [of _ "drop (unat a) r"] split: if_splits)
  next
    case 4
    then show ?thesis
      using unf d s bs
      by (auto simp: Let_def sp_take_cur put_text_def word_less_nat_alt bind_eq_Some_conv
          intro!: exI [of _ "drop (unat a) r"] split: if_splits)
  next
    case 5
    then show ?thesis
      using unf d s a
      by (auto simp: Let_def sp_array_loop_iff [OF IH'] bind_eq_Some_conv list_all_iff word_less_nat_alt split: if_splits)
  next
    case 6
    then show ?thesis
      using unf d s a
      by (auto simp: Let_def sp_map_loop_iff [OF IH'] bind_eq_Some_conv list_all_iff word_less_nat_alt
          enc_value_CMap case_prod_unfold simp del: enc_value.simps(6) split: if_splits)
  next
    case 7
    then show ?thesis using unf by (simp add: Let_def)
  next
    case 8
    then show ?thesis using unf d s by (auto simp: Let_def split: if_splits)
  qed
qed

lemma sp_item_complete:
  assumes IH: "canon_value v mx d \<Longrightarrow> d < MAX_CBOR_DEPTH
      \<Longrightarrow> sp_codec (sp_item (d + 1)) enc_value (\<lambda>mx v. canon_value v mx (d + 1))"
    and v: "canon_value v mx d"
  shows "sp_item d (cur pre mx (enc_value v @ ys)) = Some (v, cur (pre @ enc_value v) mx ys)"
proof (cases v)
  case (CInteger i)
  moreover have "uint (- 1 - of_int i :: u64) = - 1 - i" if "i < 0" "- (2 ^ 64) \<le> i"
    using that uint_of_int_u64 [of "- 1 - i"] by simp
  ultimately show ?thesis using v
    by (auto simp: sp_item_unfold Let_def uint_of_int_u64)
next
  case (CBytes b)
  have "length b < 2 ^ 64" using v CBytes by (auto intro!: le_less_trans [OF _ unat_lt_2p64 [of mx]])
  then show ?thesis using v CBytes
    by (auto simp: sp_item_unfold Let_def put_bytes_def unat_of_nat_u64 word_less_nat_alt)
next
  case (CText s)
  have "length s < 2 ^ 64" using v CText by (auto intro!: le_less_trans [OF _ unat_lt_2p64 [of mx]])
  then show ?thesis using v CText
    by (auto simp: sp_item_unfold Let_def put_text_def unat_of_nat_u64 word_less_nat_alt)
next
  case (CBool b)
  then show ?thesis using v by (auto simp: sp_item_unfold Let_def)
next
  case (CArray vs)
  then have n: "length vs \<le> 64" "length vs \<le> length (concat (map enc_value vs) @ ys)" "d \<le> MAX_CBOR_DEPTH"
    using v length_concat_enc [of vs] by auto
  then have a: "unat (of_nat (length vs) :: u64) = length vs" "\<not> 64 < (of_nat (length vs) :: u64)"
    by (simp_all add: unat_of_nat_u64 word_less_nat_alt)
  have loop: "sp_array_loop (sp_item (d + 1)) (length vs) (cur (pre @ put_uint 4 (of_nat (length vs))) mx (concat (map enc_value vs) @ ys))
      = Some (vs, cur ((pre @ put_uint 4 (of_nat (length vs))) @ concat (map enc_value vs)) mx ys)"
  proof (cases "d < MAX_CBOR_DEPTH")
    case True
    show ?thesis
      unfolding sp_array_loop_iff [OF IH [OF v True]] using v CArray by (auto simp: list_all_iff)
  next
    case False
    then have "vs = []"
      using v CArray n by (cases vs) (auto dest!: canon_value_depth)
    then show ?thesis by simp
  qed
  show ?thesis
    using n a loop by (simp add: CArray sp_item_unfold Let_def)
next
  case (CMap m)
  then have n: "length m \<le> 64" "2 * length m \<le> length (enc_pairs enc_value m @ ys)" "d \<le> MAX_CBOR_DEPTH"
    using v length_enc_pairs [of m] by auto
  then have a: "unat (of_nat (length m) :: u64) = length m" "\<not> 64 < (of_nat (length m) :: u64)"
    by (simp_all add: unat_of_nat_u64 word_less_nat_alt)
  have loop: "sp_map_loop (sp_item (d + 1)) (length m) None (cur (pre @ put_uint 5 (of_nat (length m))) mx (enc_pairs enc_value m @ ys))
      = Some (m, cur ((pre @ put_uint 5 (of_nat (length m))) @ enc_pairs enc_value m) mx ys)"
  proof (cases "d < MAX_CBOR_DEPTH")
    case True
    show ?thesis
      by (subst sp_map_loop_iff [OF IH [OF v True]])
        (use v CMap in \<open>auto simp: list_all_iff case_prod_unfold\<close>)
  next
    case False
    then have "m = []"
      using v CMap n by (cases m) (auto dest!: canon_value_depth)
    then show ?thesis by simp
  qed
  show ?thesis
    using n a loop by (simp add: CMap sp_item_unfold Let_def enc_value_CMap del: enc_value.simps(6))
qed

lemma sp_item_codec: "sp_codec (sp_item d) enc_value (\<lambda>mx v. canon_value v mx d)"
proof (induction "Suc MAX_CBOR_DEPTH - d" arbitrary: d rule: less_induct)
  case less
  show ?case
  proof
    fix pre mx s v p'
    show "sp_item d (cur pre mx s) = Some (v, p')
      \<longleftrightarrow> canon_value v mx d \<and> (\<exists>ys. s = enc_value v @ ys \<and> p' = cur (pre @ enc_value v) mx ys)"
    proof (cases "d \<le> MAX_CBOR_DEPTH")
      case True
      then have IH: "sp_codec (sp_item (d + 1)) enc_value (\<lambda>mx v. canon_value v mx (d + 1))"
        by (intro less) simp
      show ?thesis
        using sp_item_sound [OF IH, of pre mx s v p'] sp_item_complete [OF IH, of v mx pre] by auto
    next
      case False
      then show ?thesis
        using canon_value_depth [of v mx d] by (auto elim: sp_item_head)
    qed
  qed
qed

interpretation item: sp_codec "sp_item d" enc_value "\<lambda>mx v. canon_value v mx d" for d
  by (rule sp_item_codec)

section \<open>The strict decoder accepts exactly the canonical encodings\<close>

lemma strict_decode_map_capped_iff:
  "strict_decode_map_capped bs mx = Some m \<longleftrightarrow> canon_value (CMap m) mx 1 \<and> bs = enc_value (CMap m)"
  unfolding strict_decode_map_capped_def sp_start item.bind_iff
  by (force simp del: canon_value.simps enc_value.simps split: cbor_value.split_asm)

lemma strict_decode_map_iff:
  "strict_decode_map bs = Some m \<longleftrightarrow> canon_value (CMap m) 4096 1 \<and> bs = enc_value (CMap m)"
  by (simp only: strict_decode_map_def strict_decode_map_capped_iff MAX_STR_LEN_def)

section \<open>The accessors\<close>

lemma as_u64_Some: "as_u64 v = Some n \<longleftrightarrow> v = CInteger (uint n)"
proof
  assume "v = CInteger (uint n)"
  moreover have "uint n < 2 ^ 64" using uint_lt2p [of n] by simp
  ultimately show "as_u64 v = Some n" by (simp add: as_u64_def)
qed (auto simp: as_u64_def uint_of_int_u64 split: cbor_value.splits if_splits)

lemma as_bytes_Some [simp]: "as_bytes v = Some b \<longleftrightarrow> v = CBytes b"
  by (auto simp: as_bytes_def split: cbor_value.splits)

lemma as_bytes_n_Some: "as_bytes_n n v = Some b \<longleftrightarrow> v = CBytes b \<and> length b = n"
  by (auto simp: as_bytes_n_def bind_eq_Some_conv)

lemma as_u256_minimal_be_Some:
  "as_u256_minimal_be v = Some b \<longleftrightarrow> v = CBytes b \<and> length b \<le> 32 \<and> (b \<noteq> [] \<longrightarrow> hd b \<noteq> 0)"
  by (auto simp: as_u256_minimal_be_def bind_eq_Some_conv)

text \<open>The bit mask of the key check records exactly the keys seen so far.\<close>

lemma bit_test_iff: "(seen :: u64) AND push_bit (unat (n - 1)) 1 = 0 \<longleftrightarrow> \<not> bit seen (unat (n - 1))"
  by (simp add: push_bit_of_1 and_exp_eq_0_iff_not_bit)

lemma bit_set_iff:
  assumes "1 \<le> (n :: u64)" "n \<le> 64" "1 \<le> (k :: u64)" "k \<le> 64"
  shows "bit ((seen :: u64) OR push_bit (unat (n - 1)) 1) (unat (k - 1)) \<longleftrightarrow> bit seen (unat (k - 1)) \<or> k = n"
proof -
  have "unat (n - 1) < 64" "unat (k - 1) < 64" "unat (k - 1) = unat (n - 1) \<longleftrightarrow> k = n"
    using assms by (auto simp: word_le_nat_alt unat_sub word_unat_eq_iff)
  then show ?thesis by (auto simp: bit_simps)
qed

lemma ex_Some_not_iff:
  "(\<forall>x \<in> A. \<exists>k. f x = Some k \<and> P k \<and> k \<noteq> n)
    \<longleftrightarrow> (\<forall>x \<in> A. \<exists>k. f x = Some k \<and> P k) \<and> Some n \<notin> f ` A"
  by force

lemma check_strict_keys_loop_iff:
  "check_strict_keys_loop allowed seen m \<longleftrightarrow>
     (\<forall>kv \<in> set m. \<exists>n. as_u64 (fst kv) = Some n \<and> allowed n \<and> 1 \<le> n \<and> n \<le> 64
        \<and> \<not> bit seen (unat (n - 1)))
     \<and> distinct (map (\<lambda>kv. as_u64 (fst kv)) m)"
proof (induction m arbitrary: seen)
  case Nil
  then show ?case by simp
next
  case (Cons kv m)
  obtain k v where kv: "kv = (k, v)" by fastforce
  show ?case
  proof (cases "as_u64 k")
    case None
    then show ?thesis by (simp add: kv)
  next
    case (Some n)
    show ?thesis
    proof (cases "allowed n \<and> 1 \<le> n \<and> n \<le> 64")
      case False
      then show ?thesis using Some by (auto simp: kv)
    next
      case True
      have "check_strict_keys_loop allowed (seen OR push_bit (unat (n - 1)) 1) m \<longleftrightarrow>
        (\<forall>kv \<in> set m. \<exists>k. as_u64 (fst kv) = Some k \<and> allowed k \<and> 1 \<le> k \<and> k \<le> 64
          \<and> \<not> bit seen (unat (k - 1)) \<and> k \<noteq> n) \<and> distinct (map (\<lambda>kv. as_u64 (fst kv)) m)"
        unfolding Cons using True bit_set_iff [of n] by fastforce
      also have "\<dots> \<longleftrightarrow>
        (\<forall>kv \<in> set m. \<exists>k. as_u64 (fst kv) = Some k \<and> allowed k \<and> 1 \<le> k \<and> k \<le> 64
          \<and> \<not> bit seen (unat (k - 1)))
        \<and> Some n \<notin> (\<lambda>kv. as_u64 (fst kv)) ` set m \<and> distinct (map (\<lambda>kv. as_u64 (fst kv)) m)"
        using ex_Some_not_iff [of "set m" "\<lambda>kv. as_u64 (fst kv)"
          "\<lambda>k. allowed k \<and> 1 \<le> k \<and> k \<le> 64 \<and> \<not> bit seen (unat (k - 1))" n]
        by (simp add: conj_assoc)
      finally show ?thesis
        using Some True bit_test_iff [of seen n] by (auto simp: kv Let_def simp del: push_bit_of_1)
    qed
  qed
qed

lemma check_strict_keys_iff:
  "check_strict_keys m allowed \<longleftrightarrow>
     (\<forall>kv \<in> set m. \<exists>n. as_u64 (fst kv) = Some n \<and> allowed n \<and> 1 \<le> n \<and> n \<le> 64)
     \<and> distinct (map (\<lambda>kv. as_u64 (fst kv)) m)"
  by (simp add: check_strict_keys_def check_strict_keys_loop_iff)

section \<open>Properties\<close>

text \<open>C26: The strict decoder of untrusted wire maps accepts exactly the canonical encodings: it returns
  a map precisely when that map is within the limits (nesting, entry counts, string lengths,
  UTF-8, keys strictly ascending by their encoding) and the input is its one canonical encoding,
  with nothing before or after it.\<close>

theorem strict_decode_map_canonical:
  "strict_decode_map bs = Some m \<longleftrightarrow> canon_value (CMap m) 4096 1 \<and> bs = enc_value (CMap m)"
  by (rule strict_decode_map_iff)

text \<open>The 64-bit mask of the key check is a faithful set of seen keys: a decoded map passes exactly
  when every key is an integer in \<open>1..=64\<close> that the schema allows and no key occurs twice.\<close>

theorem check_strict_keys_exact:
  "check_strict_keys m allowed \<longleftrightarrow>
     (\<forall>kv \<in> set m. \<exists>n. as_u64 (fst kv) = Some n \<and> allowed n \<and> 1 \<le> n \<and> n \<le> 64)
     \<and> distinct (map (\<lambda>kv. as_u64 (fst kv)) m)"
  by (rule check_strict_keys_iff)

lemma check_strict_keys_exact_witness:
  "check_strict_keys [(CInteger 1, CBool True), (CInteger 64, CBool False)] (\<lambda>_. True)
   \<and> \<not> check_strict_keys [(CInteger 7, CBool True), (CInteger 7, CBool False)] (\<lambda>_. True)"
  by (simp add: check_strict_keys_exact as_u64_def)

end
