(* ===== verification/Anchor_Wire.thy ===== *)
theory Anchor_Wire
  imports Cbor
begin

text \<open>
  The typed readers of \<open>agent_cbor.rs\<close> and its three positional decoders: the raw marks payload,
  the anchor's marks response and the anchor's commit acknowledgement. Each typed reader
  interprets \<open>sp_codec\<close>; the lemmas show that each decoder succeeds exactly on the canonical
  encoding of a well-formed record, so a decoded record determines the bytes.
\<close>

section \<open>Typed readers\<close>

definition sp_typed_head :: "u8 \<Rightarrow> strict_parser \<Rightarrow> (u64 \<times> strict_parser) option" where
  "sp_typed_head expected_major p = do {
     ((major, arg), p) \<leftarrow> sp_head p;
     if major \<noteq> expected_major then None else Some (arg, p) }"

definition sp_uint :: "strict_parser \<Rightarrow> (u64 \<times> strict_parser) option" where
  "sp_uint p = sp_typed_head 0 p"

definition sp_bstr :: "nat \<Rightarrow> strict_parser \<Rightarrow> (bytes \<times> strict_parser) option" where
  "sp_bstr mx p = do {
     (len, p) \<leftarrow> sp_typed_head 2 p;
     if unat len > mx then None else sp_take (unat len) p }"

definition sp_bstr_exact :: "nat \<Rightarrow> strict_parser \<Rightarrow> (bytes \<times> strict_parser) option" where
  "sp_bstr_exact n p = do {
     (len, p) \<leftarrow> sp_typed_head 2 p;
     if unat len \<noteq> n then None else sp_take n p }"

definition sp_text :: "nat \<Rightarrow> strict_parser \<Rightarrow> (bytes \<times> strict_parser) option" where
  "sp_text mx p = do {
     (len, p) \<leftarrow> sp_typed_head 3 p;
     if unat len > mx then None
     else do {
       (s, p) \<leftarrow> sp_take (unat len) p;
       if utf8_valid s then Some (s, p) else None } }"

text \<open>\<open>if p.uint()? != k { return Err(()) }\<close>, the positional key checks.\<close>

definition sp_key :: "u64 \<Rightarrow> strict_parser \<Rightarrow> (unit \<times> strict_parser) option" where
  "sp_key k p = do { (n, p) \<leftarrow> sp_uint p; if n \<noteq> k then None else Some ((), p) }"

definition sp_map_head :: "u64 \<Rightarrow> strict_parser \<Rightarrow> (unit \<times> strict_parser) option" where
  "sp_map_head n p = do { (k, p) \<leftarrow> sp_typed_head 5 p; if k \<noteq> n then None else Some ((), p) }"

lemma sp_typed_head_codec:
  "m < 8 \<Longrightarrow> sp_codec (sp_typed_head m) (put_uint m) (\<lambda>_ _. True)"
  by unfold_locales (auto simp: sp_typed_head_def head.bind_iff)

interpretation sp_uint: sp_codec sp_uint "put_uint 0" "\<lambda>_ _. True"
  using sp_typed_head_codec [of 0] by (simp add: sp_uint_def [abs_def])

interpretation sp_bytes_head: sp_codec "sp_typed_head 2" "put_uint 2" "\<lambda>_ _. True"
  by (rule sp_typed_head_codec) simp

interpretation sp_text_head: sp_codec "sp_typed_head 3" "put_uint 3" "\<lambda>_ _. True"
  by (rule sp_typed_head_codec) simp

interpretation sp_array_head: sp_codec "sp_typed_head 4" "put_uint 4" "\<lambda>_ _. True"
  by (rule sp_typed_head_codec) simp

interpretation sp_map5_head: sp_codec "sp_typed_head 5" "put_uint 5" "\<lambda>_ _. True"
  by (rule sp_typed_head_codec) simp

lemma sp_take_word_iff:
  "(\<exists>n :: u64. \<exists>ys. s = put_uint m n @ ys \<and> P (unat n) \<and> unat n \<le> length ys \<and> Q (take (unat n) ys)
      \<and> x = take (unat n) ys \<and> p' = cur (pre @ put_uint m n @ take (unat n) ys) mx (drop (unat n) ys))
   \<longleftrightarrow> P (length x) \<and> length x < 2 ^ 64 \<and> Q x \<and>
     (\<exists>ys. s = put_uint m (of_nat (length x)) @ x @ ys \<and> p' = cur (pre @ put_uint m (of_nat (length x)) @ x) mx ys)"
  (is "?l \<longleftrightarrow> ?r")
proof
  assume ?l
  then obtain n :: u64 and ys where *: "s = put_uint m n @ ys" "P (unat n)" "unat n \<le> length ys"
    "Q (take (unat n) ys)" "x = take (unat n) ys"
    "p' = cur (pre @ put_uint m n @ take (unat n) ys) mx (drop (unat n) ys)" by blast
  then have "length x = unat n" by simp
  with * show ?r by (auto intro!: exI [of _ "drop (unat n) ys"])
next
  assume r: ?r
  then have "unat (of_nat (length x) :: u64) = length x" by (simp add: unat_of_nat_u64)
  with r show ?l by (intro exI [of _ "of_nat (length x)"]) auto
qed

interpretation sp_bstr: sp_codec "sp_bstr n" put_bytes "\<lambda>_ b. length b \<le> n \<and> length b < 2 ^ 64" for n
proof
  fix pre mx s x p'
  show "sp_bstr n (cur pre mx s) = Some (x, p') \<longleftrightarrow>
    (length x \<le> n \<and> length x < 2 ^ 64) \<and> (\<exists>ys. s = put_bytes x @ ys \<and> p' = cur (pre @ put_bytes x) mx ys)"
    using sp_take_word_iff [of s 2 "\<lambda>k. k \<le> n" "\<lambda>_. True" x p' pre mx]
    unfolding sp_bstr_def sp_bytes_head.bind_iff put_bytes_def
    by (simp add: sp_take_cur not_less if_None_eq_Some conj_ac cong: conj_cong) (blast)
qed

interpretation sp_bstr_exact: sp_codec "sp_bstr_exact n" put_bytes "\<lambda>_ b. length b = n \<and> n < 2 ^ 64" for n
proof
  fix pre mx s x p'
  show "sp_bstr_exact n (cur pre mx s) = Some (x, p') \<longleftrightarrow>
    (length x = n \<and> n < 2 ^ 64) \<and> (\<exists>ys. s = put_bytes x @ ys \<and> p' = cur (pre @ put_bytes x) mx ys)"
  proof
    assume "sp_bstr_exact n (cur pre mx s) = Some (x, p')"
    then obtain k :: u64 and ys where *: "s = put_uint 2 k @ ys" "n = unat k" "n \<le> length ys"
      "x = take n ys" "p' = cur (pre @ put_uint 2 k @ x) mx (drop n ys)"
      unfolding sp_bstr_exact_def sp_bytes_head.bind_iff by (auto simp: sp_take_cur)
    then have "of_nat (length x) = k" "length x = n" by auto
    with * unat_lt_2p64 [of k]
    show "(length x = n \<and> n < 2 ^ 64) \<and> (\<exists>ys. s = put_bytes x @ ys \<and> p' = cur (pre @ put_bytes x) mx ys)"
      by (auto simp: put_bytes_def intro!: exI [of _ "drop n ys"])
  next
    assume "(length x = n \<and> n < 2 ^ 64) \<and> (\<exists>ys. s = put_bytes x @ ys \<and> p' = cur (pre @ put_bytes x) mx ys)"
    then show "sp_bstr_exact n (cur pre mx s) = Some (x, p')"
      by (auto simp: sp_bstr_exact_def put_bytes_def sp_bytes_head.parse_enc unat_of_nat_u64)
  qed
qed

interpretation sp_text: sp_codec "sp_text n" put_text
  "\<lambda>_ b. length b \<le> n \<and> length b < 2 ^ 64 \<and> utf8_valid b" for n
proof
  fix pre mx s x p'
  have take: "sp_take k (cur pre' mx s') \<bind> (\<lambda>(s, p). if utf8_valid s then Some (s, p) else None) = Some (x, p')
    \<longleftrightarrow> k \<le> length s' \<and> utf8_valid (take k s') \<and> x = take k s' \<and> p' = cur (pre' @ take k s') mx (drop k s')"
    for k pre' s' by (auto simp: sp_take_cur)
  show "sp_text n (cur pre mx s) = Some (x, p') \<longleftrightarrow>
    (length x \<le> n \<and> length x < 2 ^ 64 \<and> utf8_valid x) \<and> (\<exists>ys. s = put_text x @ ys \<and> p' = cur (pre @ put_text x) mx ys)"
    using sp_take_word_iff [of s 3 "\<lambda>k. k \<le> n" utf8_valid x p' pre mx]
    unfolding sp_text_def sp_text_head.bind_iff put_text_def
    by (simp add: take not_less conj_ac cong: conj_cong)
qed

interpretation sp_key: sp_codec "sp_key k" "\<lambda>_. put_uint 0 k" "\<lambda>_ _. True" for k
  by unfold_locales (auto simp: sp_key_def sp_uint.bind_iff)

interpretation sp_map_head: sp_codec "sp_map_head n" "\<lambda>_. put_uint 5 n" "\<lambda>_ _. True" for n
  by unfold_locales (auto simp: sp_map_head_def sp_map5_head.bind_iff)

lemmas sp_bind_iffs = sp_uint.bind_iff sp_bytes_head.bind_iff sp_text_head.bind_iff
  sp_array_head.bind_iff sp_bstr.bind_iff sp_bstr_exact.bind_iff sp_text.bind_iff
  sp_key.bind_iff sp_map_head.bind_iff

lemmas sp_runs = sp_key.parse_enc [where x = "()", simplified] sp_map_head.parse_enc [where x = "()", simplified]
  sp_uint.parse_enc [simplified] sp_array_head.parse_enc [simplified]
  sp_bstr.parse_enc sp_bstr_exact.parse_enc sp_text.parse_enc
  sp_uint.parse_enc [where ys = "[]", simplified] sp_bstr_exact.parse_enc [where ys = "[]", simplified]

section \<open>Fields of a preimage\<close>

text \<open>The writers are self-delimiting, so a concatenation of fields determines each of them.\<close>

lemma put_uint_append_eq:
  "m < 8 \<Longrightarrow> put_uint m a @ xs = put_uint m b @ ys \<longleftrightarrow> a = b \<and> xs = ys"
  using head.append_inj [of "(m, a)" "(m, b)" xs ys] by simp

lemma put_uint_eq: "m < 8 \<Longrightarrow> put_uint m a = put_uint m b \<longleftrightarrow> a = b"
  using put_uint_append_eq [of m a "[]" b "[]"] by simp

lemma length_word_eq:
  assumes "length a < 2 ^ 64" "length b < 2 ^ 64"
  shows "(of_nat (length a) :: u64) = of_nat (length b) \<longleftrightarrow> length a = length b"
  using unat_of_nat_u64 [OF assms(1)] unat_of_nat_u64 [OF assms(2)] by metis

lemma put_bytes_append_eq:
  "length a < 2 ^ 64 \<Longrightarrow> length b < 2 ^ 64 \<Longrightarrow> put_bytes a @ xs = put_bytes b @ ys \<longleftrightarrow> a = b \<and> xs = ys"
  using length_word_eq [of a b] by (auto simp: put_bytes_def put_uint_append_eq)

lemma put_text_append_eq:
  "length a < 2 ^ 64 \<Longrightarrow> length b < 2 ^ 64 \<Longrightarrow> put_text a @ xs = put_text b @ ys \<longleftrightarrow> a = b \<and> xs = ys"
  using length_word_eq [of a b] by (auto simp: put_text_def put_uint_append_eq)

lemma put_bytes_eq: "length a < 2 ^ 64 \<Longrightarrow> length b < 2 ^ 64 \<Longrightarrow> put_bytes a = put_bytes b \<longleftrightarrow> a = b"
  using put_bytes_append_eq [of a b "[]" "[]"] by simp

lemmas put_inj = put_uint_append_eq put_uint_eq put_bytes_append_eq put_text_append_eq put_bytes_eq

section \<open>The raw marks payload\<close>

record decoded_row =
  dr_authority :: bytes
  dr_scope_class :: u8
  dr_scope_target :: bytes
  dr_highest_accepted_counter :: u64

record decoded_marks =
  dm_rows :: "decoded_row list"
  dm_cumulative_native_spend :: bytes
  dm_lifetime_spend :: bytes
  dm_strict_recovery_counter :: u64

definition dr_key :: "decoded_row \<Rightarrow> bytes \<times> u8 \<times> bytes" where
  "dr_key r = (dr_authority r, dr_scope_class r, dr_scope_target r)"

definition MIN_ROW_BYTES :: nat where "MIN_ROW_BYTES = 38"

definition sp_marks_row :: "strict_parser \<Rightarrow> (decoded_row \<times> strict_parser) option" where
  "sp_marks_row p = do {
     (k, p) \<leftarrow> sp_typed_head 4 p;
     if k \<noteq> 4 then None
     else do {
       (authority, p) \<leftarrow> sp_bstr_exact 32 p;
       (sc, p) \<leftarrow> sp_uint p;
       if sc > 0xff then None
       else do {
         (scope_target, p) \<leftarrow> sp_bstr MARKS_SCOPE_TARGET_MAX_LEN p;
         (counter, p) \<leftarrow> sp_uint p;
         Some (\<lparr>dr_authority = authority, dr_scope_class = ucast sc,
                dr_scope_target = scope_target, dr_highest_accepted_counter = counter\<rparr>, p) } } }"

fun sp_marks_rows :: "nat \<Rightarrow> (bytes \<times> u8 \<times> bytes) option \<Rightarrow> strict_parser
    \<Rightarrow> (decoded_row list \<times> strict_parser) option" where
  "sp_marks_rows 0 prev_key p = Some ([], p)"
| "sp_marks_rows (Suc n) prev_key p = do {
     (r, p) \<leftarrow> sp_marks_row p;
     if (case prev_key of None \<Rightarrow> False | Some prev \<Rightarrow> dr_key r \<le> prev) then None
     else do {
       (rs, p) \<leftarrow> sp_marks_rows n (Some (dr_key r)) p;
       Some (r # rs, p) } }"

definition strict_decode_marks_payload :: "bytes \<Rightarrow> nat \<Rightarrow> decoded_marks option" where
  "strict_decode_marks_payload bs max_rows = do {
     let p = \<lparr>sp_buf = bs, sp_pos = 0, sp_max_bstr = MAX_STR_LEN\<rparr>;
     (_, p) \<leftarrow> sp_map_head 4 p;
     (_, p) \<leftarrow> sp_key 1 p;
     (n, p) \<leftarrow> sp_typed_head 4 p;
     let n_rows = unat n;
     if n_rows > max_rows \<or> min (n_rows * MIN_ROW_BYTES) (2 ^ 64 - 1) > sp_remaining p then None
     else do {
       (rows, p) \<leftarrow> sp_marks_rows n_rows None p;
       (_, p) \<leftarrow> sp_key 2 p;
       (cumulative, p) \<leftarrow> sp_bstr_exact 32 p;
       (_, p) \<leftarrow> sp_key 3 p;
       (lifetime, p) \<leftarrow> sp_bstr_exact 32 p;
       (_, p) \<leftarrow> sp_key 4 p;
       (recovery, p) \<leftarrow> sp_uint p;
       if sp_pos p \<noteq> length bs then None
       else Some \<lparr>dm_rows = rows, dm_cumulative_native_spend = cumulative,
                  dm_lifetime_spend = lifetime, dm_strict_recovery_counter = recovery\<rparr> } }"

text \<open>The payload grammar: \<open>enc_marks\<close> is the only encoding the decoder accepts.\<close>

definition enc_row :: "decoded_row \<Rightarrow> bytes" where
  "enc_row r = put_uint 4 4 @ put_bytes (dr_authority r) @ put_uint 0 (ucast (dr_scope_class r))
     @ put_bytes (dr_scope_target r) @ put_uint 0 (dr_highest_accepted_counter r)"

definition row_ok :: "decoded_row \<Rightarrow> bool" where
  "row_ok r \<longleftrightarrow> length (dr_authority r) = 32 \<and> length (dr_scope_target r) \<le> 4096"

definition enc_marks :: "decoded_marks \<Rightarrow> bytes" where
  "enc_marks m = put_uint 5 4 @ put_uint 0 1 @ put_uint 4 (of_nat (length (dm_rows m)))
     @ concat (map enc_row (dm_rows m))
     @ put_uint 0 2 @ put_bytes (dm_cumulative_native_spend m)
     @ put_uint 0 3 @ put_bytes (dm_lifetime_spend m)
     @ put_uint 0 4 @ put_uint 0 (dm_strict_recovery_counter m)"

definition marks_ok :: "nat \<Rightarrow> decoded_marks \<Rightarrow> bool" where
  "marks_ok max_rows m \<longleftrightarrow> length (dm_rows m) \<le> max_rows \<and> length (dm_rows m) < 2 ^ 64
     \<and> list_all row_ok (dm_rows m) \<and> sorted_wrt (<) (map dr_key (dm_rows m))
     \<and> length (dm_cumulative_native_spend m) = 32 \<and> length (dm_lifetime_spend m) = 32"

interpretation sp_marks_row: sp_codec sp_marks_row enc_row "\<lambda>_. row_ok"
proof
  fix pre mx s x p'
  show "sp_marks_row (cur pre mx s) = Some (x, p') \<longleftrightarrow>
    row_ok x \<and> (\<exists>ys. s = enc_row x @ ys \<and> p' = cur (pre @ enc_row x) mx ys)"
  proof
    assume "sp_marks_row (cur pre mx s) = Some (x, p')"
    then show "row_ok x \<and> (\<exists>ys. s = enc_row x @ ys \<and> p' = cur (pre @ enc_row x) mx ys)"
      unfolding sp_marks_row_def sp_bind_iffs
      by (auto simp: sp_bind_iffs row_ok_def enc_row_def MARKS_SCOPE_TARGET_MAX_LEN_def
          ucast_ucast_small word_le_nat_alt not_less)
  next
    assume "row_ok x \<and> (\<exists>ys. s = enc_row x @ ys \<and> p' = cur (pre @ enc_row x) mx ys)"
    moreover have "unat (dr_scope_class x) \<le> 255" using unat_lt_256 [of "dr_scope_class x"] by linarith
    then have "\<not> (ucast (dr_scope_class x) :: u64) > 0xff"
      by (simp add: word_less_nat_alt unat_ucast_up)
    ultimately show "sp_marks_row (cur pre mx s) = Some (x, p')"
      by (auto simp: sp_marks_row_def row_ok_def enc_row_def MARKS_SCOPE_TARGET_MAX_LEN_def
          sp_array_head.parse_enc sp_bstr_exact.parse_enc sp_uint.parse_enc sp_bstr.parse_enc ucast_up_down)
  qed
qed

lemma sp_marks_rows_iff:
  "sp_marks_rows n prev (cur pre mx s) = Some (rs, p') \<longleftrightarrow>
     length rs = n \<and> list_all row_ok rs
     \<and> sorted_wrt (<) ((case prev of None \<Rightarrow> [] | Some k \<Rightarrow> [k]) @ map dr_key rs)
     \<and> (\<exists>ys. s = concat (map enc_row rs) @ ys \<and> p' = cur (pre @ concat (map enc_row rs)) mx ys)"
proof (induction n arbitrary: prev pre s rs)
  case 0
  then show ?case by (cases prev) auto
next
  case (Suc n)
  let ?prev = "case prev of None \<Rightarrow> [] | Some k \<Rightarrow> [k]"
  have guard: "(case prev of None \<Rightarrow> False | Some k \<Rightarrow> dr_key r \<le> k)
    \<longleftrightarrow> \<not> sorted_wrt (<) (?prev @ [dr_key r])" for r
    by (cases prev) auto
  have sorted: "sorted_wrt (<) (?prev @ map dr_key (r # rs))
    \<longleftrightarrow> sorted_wrt (<) (?prev @ [dr_key r]) \<and> sorted_wrt (<) (dr_key r # map dr_key rs)" for r rs
    by (cases prev) auto
  show ?case
  proof (cases rs)
    case Nil
    then show ?thesis
      unfolding sp_marks_rows.simps sp_marks_row.bind_iff by (auto simp: bind_eq_Some_conv)
  next
    case (Cons r rs')
    show ?thesis
      unfolding Cons sorted sp_marks_rows.simps sp_marks_row.bind_iff guard
      by (auto simp: Suc bind_eq_Some_conv simp del: sorted_wrt.simps)
  qed
qed

interpretation sp_marks_rows: sp_codec "sp_marks_rows n None" "\<lambda>rs. concat (map enc_row rs)"
  "\<lambda>_ rs. length rs = n \<and> list_all row_ok rs \<and> sorted_wrt (<) (map dr_key rs)" for n
  by unfold_locales (auto simp: sp_marks_rows_iff)

lemma length_enc_row: "row_ok r \<Longrightarrow> MIN_ROW_BYTES \<le> length (enc_row r)"
  using length_put_uint [of 4 4] length_put_uint [of 0 "ucast (dr_scope_class r)"]
    length_put_uint [of 2 "of_nat (length (dr_scope_target r))"]
    length_put_uint [of 0 "dr_highest_accepted_counter r"]
  by (simp add: enc_row_def row_ok_def put_bytes_def MIN_ROW_BYTES_def)
    (simp add: put_uint_def)

lemma length_enc_rows:
  "list_all row_ok rs \<Longrightarrow> length rs * MIN_ROW_BYTES \<le> length (concat (map enc_row rs))"
proof (induction rs)
  case (Cons r rs)
  then show ?case using length_enc_row [of r] by simp
qed simp

lemma strict_decode_marks_payload_iff:
  "strict_decode_marks_payload bs max_rows = Some m \<longleftrightarrow> marks_ok max_rows m \<and> bs = enc_marks m"
proof
  assume dec: "strict_decode_marks_payload bs max_rows = Some m"
  then show "marks_ok max_rows m \<and> bs = enc_marks m"
    unfolding strict_decode_marks_payload_def sp_start Let_def sp_bind_iffs if_None_eq_Some
      sp_marks_rows.bind_iff
    by (auto simp: marks_ok_def enc_marks_def)
next
  assume "marks_ok max_rows m \<and> bs = enc_marks m"
  then have ok: "marks_ok max_rows m" and bs: "bs = enc_marks m" by auto
  let ?rows = "dm_rows m"
  have n: "unat (of_nat (length ?rows) :: u64) = length ?rows"
    using ok by (simp add: marks_ok_def unat_of_nat_u64)
  have rem: "\<not> length (concat (map enc_row ?rows)) + k < length ?rows * MIN_ROW_BYTES" for k
    using ok length_enc_rows [of ?rows] by (simp add: marks_ok_def)
  have rows: "sp_marks_rows (length ?rows) None (cur pre mx (concat (map enc_row ?rows) @ xs))
      = Some (?rows, cur (pre @ concat (map enc_row ?rows)) mx xs)" for pre mx xs
    using ok by (simp add: sp_marks_rows_iff marks_ok_def)
  show "strict_decode_marks_payload bs max_rows = Some m"
    unfolding strict_decode_marks_payload_def sp_start Let_def bs enc_marks_def
    using ok rem n
    by (simp add: sp_runs rows marks_ok_def)
qed

lemma strict_decode_marks_payload_inj:
  "strict_decode_marks_payload a n = Some m \<Longrightarrow> strict_decode_marks_payload b k = Some m \<Longrightarrow> a = b"
  by (simp add: strict_decode_marks_payload_iff)

lemma enc_marks_inj:
  assumes "marks_ok n a" "marks_ok n b" "enc_marks a = enc_marks b"
  shows "a = b"
proof -
  have "strict_decode_marks_payload (enc_marks a) n = Some a" using assms by (simp add: strict_decode_marks_payload_iff)
  moreover have "strict_decode_marks_payload (enc_marks a) n = Some b" using assms by (simp add: strict_decode_marks_payload_iff)
  ultimately show ?thesis by simp
qed

section \<open>The marks response\<close>

record marks_resp_fields =
  mr_version :: u64
  mr_chain_id :: u64
  mr_environment_identifier :: bytes
  mr_epoch :: u64
  mr_nonce :: bytes
  mr_marks_payload :: bytes
  mr_signature :: bytes

definition strict_decode_marks_response :: "bytes \<Rightarrow> nat \<Rightarrow> marks_resp_fields option" where
  "strict_decode_marks_response bs max_payload = do {
     let p = \<lparr>sp_buf = bs, sp_pos = 0, sp_max_bstr = MAX_STR_LEN\<rparr>;
     (_, p) \<leftarrow> sp_map_head 7 p;
     (_, p) \<leftarrow> sp_key 1 p;
     (version, p) \<leftarrow> sp_uint p;
     (_, p) \<leftarrow> sp_key 2 p;
     (chain_id, p) \<leftarrow> sp_uint p;
     (_, p) \<leftarrow> sp_key 3 p;
     (env, p) \<leftarrow> sp_text (unat MAX_STR_LEN) p;
     (_, p) \<leftarrow> sp_key 4 p;
     (epoch, p) \<leftarrow> sp_uint p;
     (_, p) \<leftarrow> sp_key 5 p;
     (nonce, p) \<leftarrow> sp_bstr_exact 32 p;
     (_, p) \<leftarrow> sp_key 6 p;
     (payload, p) \<leftarrow> sp_bstr max_payload p;
     (_, p) \<leftarrow> sp_key 13 p;
     (sig, p) \<leftarrow> sp_bstr_exact 64 p;
     if sp_pos p \<noteq> length bs then None
     else Some \<lparr>mr_version = version, mr_chain_id = chain_id, mr_environment_identifier = env,
                mr_epoch = epoch, mr_nonce = nonce, mr_marks_payload = payload, mr_signature = sig\<rparr> }"

definition enc_marks_response :: "marks_resp_fields \<Rightarrow> bytes" where
  "enc_marks_response r = put_uint 5 7
     @ put_uint 0 1 @ put_uint 0 (mr_version r)
     @ put_uint 0 2 @ put_uint 0 (mr_chain_id r)
     @ put_uint 0 3 @ put_text (mr_environment_identifier r)
     @ put_uint 0 4 @ put_uint 0 (mr_epoch r)
     @ put_uint 0 5 @ put_bytes (mr_nonce r)
     @ put_uint 0 6 @ put_bytes (mr_marks_payload r)
     @ put_uint 0 13 @ put_bytes (mr_signature r)"

definition marks_response_ok :: "nat \<Rightarrow> marks_resp_fields \<Rightarrow> bool" where
  "marks_response_ok mx r \<longleftrightarrow> length (mr_environment_identifier r) \<le> 4096
     \<and> utf8_valid (mr_environment_identifier r) \<and> length (mr_nonce r) = 32
     \<and> length (mr_marks_payload r) \<le> mx \<and> length (mr_marks_payload r) < 2 ^ 64
     \<and> length (mr_signature r) = 64"

lemma unat_MAX_STR_LEN [simp]: "unat MAX_STR_LEN = 4096"
  by (simp add: MAX_STR_LEN_def)

lemma strict_decode_marks_response_iff:
  "strict_decode_marks_response bs mx = Some r \<longleftrightarrow> marks_response_ok mx r \<and> bs = enc_marks_response r"
proof
  assume "strict_decode_marks_response bs mx = Some r"
  then show "marks_response_ok mx r \<and> bs = enc_marks_response r"
    unfolding strict_decode_marks_response_def sp_start Let_def sp_bind_iffs if_None_eq_Some
    by (auto simp: marks_response_ok_def enc_marks_response_def)
next
  assume "marks_response_ok mx r \<and> bs = enc_marks_response r"
  then show "strict_decode_marks_response bs mx = Some r"
    unfolding strict_decode_marks_response_def sp_start Let_def
    by (simp add: enc_marks_response_def marks_response_ok_def sp_runs)
qed

section \<open>The commit acknowledgement\<close>

record commit_ack_fields =
  ca_version :: u64
  ca_chain_id :: u64
  ca_environment_identifier :: bytes
  ca_epoch :: u64
  ca_structural_version :: u64
  ca_marks_digest :: bytes
  ca_nonce :: bytes
  ca_request_id :: bytes
  ca_signature :: bytes

definition strict_decode_commit_ack :: "bytes \<Rightarrow> nat \<Rightarrow> commit_ack_fields option" where
  "strict_decode_commit_ack bs max_request_id = do {
     let p = \<lparr>sp_buf = bs, sp_pos = 0, sp_max_bstr = MAX_STR_LEN\<rparr>;
     (_, p) \<leftarrow> sp_map_head 9 p;
     (_, p) \<leftarrow> sp_key 1 p;
     (version, p) \<leftarrow> sp_uint p;
     (_, p) \<leftarrow> sp_key 2 p;
     (chain_id, p) \<leftarrow> sp_uint p;
     (_, p) \<leftarrow> sp_key 3 p;
     (env, p) \<leftarrow> sp_text (unat MAX_STR_LEN) p;
     (_, p) \<leftarrow> sp_key 4 p;
     (epoch, p) \<leftarrow> sp_uint p;
     (_, p) \<leftarrow> sp_key 5 p;
     (structural, p) \<leftarrow> sp_uint p;
     (_, p) \<leftarrow> sp_key 6 p;
     (digest, p) \<leftarrow> sp_bstr_exact 32 p;
     (_, p) \<leftarrow> sp_key 7 p;
     (nonce, p) \<leftarrow> sp_bstr_exact 32 p;
     (_, p) \<leftarrow> sp_key 8 p;
     (request_id, p) \<leftarrow> sp_bstr max_request_id p;
     (_, p) \<leftarrow> sp_key 13 p;
     (sig, p) \<leftarrow> sp_bstr_exact 64 p;
     if sp_pos p \<noteq> length bs then None
     else Some \<lparr>ca_version = version, ca_chain_id = chain_id, ca_environment_identifier = env,
                ca_epoch = epoch, ca_structural_version = structural, ca_marks_digest = digest,
                ca_nonce = nonce, ca_request_id = request_id, ca_signature = sig\<rparr> }"

definition enc_commit_ack :: "commit_ack_fields \<Rightarrow> bytes" where
  "enc_commit_ack r = put_uint 5 9
     @ put_uint 0 1 @ put_uint 0 (ca_version r)
     @ put_uint 0 2 @ put_uint 0 (ca_chain_id r)
     @ put_uint 0 3 @ put_text (ca_environment_identifier r)
     @ put_uint 0 4 @ put_uint 0 (ca_epoch r)
     @ put_uint 0 5 @ put_uint 0 (ca_structural_version r)
     @ put_uint 0 6 @ put_bytes (ca_marks_digest r)
     @ put_uint 0 7 @ put_bytes (ca_nonce r)
     @ put_uint 0 8 @ put_bytes (ca_request_id r)
     @ put_uint 0 13 @ put_bytes (ca_signature r)"

definition commit_ack_ok :: "nat \<Rightarrow> commit_ack_fields \<Rightarrow> bool" where
  "commit_ack_ok mx r \<longleftrightarrow> length (ca_environment_identifier r) \<le> 4096
     \<and> utf8_valid (ca_environment_identifier r) \<and> length (ca_marks_digest r) = 32
     \<and> length (ca_nonce r) = 32
     \<and> length (ca_request_id r) \<le> mx \<and> length (ca_request_id r) < 2 ^ 64
     \<and> length (ca_signature r) = 64"

lemma strict_decode_commit_ack_iff:
  "strict_decode_commit_ack bs mx = Some r \<longleftrightarrow> commit_ack_ok mx r \<and> bs = enc_commit_ack r"
proof
  assume "strict_decode_commit_ack bs mx = Some r"
  then show "commit_ack_ok mx r \<and> bs = enc_commit_ack r"
    unfolding strict_decode_commit_ack_def sp_start Let_def sp_bind_iffs if_None_eq_Some
    by (auto simp: commit_ack_ok_def enc_commit_ack_def)
next
  assume "commit_ack_ok mx r \<and> bs = enc_commit_ack r"
  then show "strict_decode_commit_ack bs mx = Some r"
    unfolding strict_decode_commit_ack_def sp_start Let_def
    by (simp add: enc_commit_ack_def commit_ack_ok_def sp_runs)
qed

section \<open>Properties\<close>

text \<open>The three positional decoders of the anchor's messages accept exactly the canonical encoding
  of a well-formed record (field lengths, UTF-8, rows strictly ascending and within the row cap),
  so the bytes that were signed or hashed are determined by the fields that were decoded.\<close>

theorem anchor_decoders_canonical:
  "(strict_decode_marks_payload p n = Some m \<longleftrightarrow> marks_ok n m \<and> p = enc_marks m)
   \<and> (strict_decode_marks_response r k = Some f \<longleftrightarrow> marks_response_ok k f \<and> r = enc_marks_response f)
   \<and> (strict_decode_commit_ack a j = Some g \<longleftrightarrow> commit_ack_ok j g \<and> a = enc_commit_ack g)"
  using strict_decode_marks_payload_iff strict_decode_marks_response_iff strict_decode_commit_ack_iff
  by blast

end
