(* ===== verification/Keystore.thy ===== *)
theory Keystore
  imports Crypto U256 Anchor_Wire
begin

text \<open>
  Model of the sealed body of \<open>agent_keystore.rs\<close>: its records, its validation and the operations
  that change it, with the faucet's accept gate. Byte arrays \<open>[u8; N]\<close> are byte lists;
  \<open>body_typed\<close> states their lengths, which Rust's types guarantee. \<open>Result<(), E>\<close> of a method
  with \<open>&mut self\<close> is \<open>E + body\<close>: the body is only returned on success, which is exact
  for the methods here because none of them writes before its last check (this is visible in each
  definition), except \<open>seed_marks_forward\<close>, whose callers drop the candidate on an error.
\<close>

section \<open>Data\<close>

datatype keystore_error =
    EmptyMeasurement | TooShort | BadMagic | UnsupportedVersion | MeasurementMismatch | AeadKey
  | Decrypt | Encrypt | Csprng | Cbor | InvalidEnvironmentId | InvalidScopeId
  | InvalidStructuralVersion | CapacityExceeded | CounterRegression | InvalidFieldLength
  | DuplicateKeyRef | DuplicateCounterTuple | BlobTooLarge | MonotonicOverflow
  | AuditBackpressure | AuditSeqDisorder

definition MAX_TOTAL_KEY_ENTRIES :: nat where "MAX_TOTAL_KEY_ENTRIES = 4096"
definition MAX_BATCH_SIZE :: nat where "MAX_BATCH_SIZE = 256"
definition MAX_COUNTER_ENTRIES :: nat where "MAX_COUNTER_ENTRIES = 65536"
definition MAX_AUDIT_CAPACITY :: u32 where "MAX_AUDIT_CAPACITY = 65536"
definition SECP256K1_UNCOMPRESSED_LEN :: nat where "SECP256K1_UNCOMPRESSED_LEN = 65"
definition SECRET_SCALAR_LEN :: nat where "SECRET_SCALAR_LEN = 32"
definition ML_KEM_1024_ENCAPS_KEY_LEN :: nat where "ML_KEM_1024_ENCAPS_KEY_LEN = 1568"
definition MAX_SCOPE_TARGET_LEN :: nat where "MAX_SCOPE_TARGET_LEN = 64"
definition MAX_REQUEST_ID_LEN :: nat where "MAX_REQUEST_ID_LEN = 64"

definition MARKS_DOMAIN :: bytes where
  "MARKS_DOMAIN = ascii ''2d-hsm/agent-anchor-marks/v1'' @ [0]"

datatype key_purpose = AgentFaucetTreasuryK1 | AgentTransferK1

datatype key_algorithm = Secp256k1

record creation_metadata =
  cm_config_version :: u64
  cm_counter_snapshot :: u64
  cm_batch_id :: u64

record key_entry =
  ke_key_ref :: bytes
  ke_purpose :: key_purpose
  ke_algorithm :: key_algorithm
  ke_public_identity :: bytes
  ke_secret_scalar :: bytes
  ke_creation_metadata :: creation_metadata
  ke_last_exported_seq :: u64

record counter_entry =
  ce_authority :: bytes
  ce_environment_identifier :: bytes
  ce_scope_class :: u8
  ce_scope_target :: bytes
  ce_highest_accepted_counter :: u64

record faucet_state =
  fs_per_dispense_max_amount :: u256
  fs_max_gas_limit :: u64
  fs_max_effective_gas_fee_rate :: u64
  fs_cumulative_native_spend :: u256
  fs_lifetime_spend :: u256
  fs_circuit_breaker_threshold :: "u256 option"
  fs_cumulative_signing_budget :: u256

datatype faucet_cap_error =
    PerDispenseAmount | GasLimit | GasFeeRate | WorstCaseOverflow | CumulativeBudget | LifetimeBreaker

record audit_record =
  ar_seq :: u64
  ar_op :: u8
  ar_authority :: bytes
  ar_counter :: u64
  ar_config_version :: u64
  ar_scope_class :: u8
  ar_scope_target :: bytes
  ar_request_id :: bytes

record audit_append =
  aa_op :: u8
  aa_authority :: bytes
  aa_counter :: u64
  aa_config_version :: u64
  aa_scope_class :: u8
  aa_scope_target :: bytes
  aa_request_id :: bytes

record audit_ring =
  au_records :: "audit_record list"
  au_capacity :: u32
  au_last_exported_seq :: u64
  au_next_seq :: u64

record keystore_config =
  kc_twod_chain_id :: u64
  kc_environment_identifier :: bytes
  kc_admin_authority_pk :: bytes
  kc_recovery_authority_pk :: bytes
  kc_backup_recovery_wrapping_pubkey :: bytes
  kc_monotonic_treasury_config_version :: u64
  kc_authority_epoch :: u64
  kc_anchor_root :: bytes
  kc_enclave_scope_id :: bytes
  kc_fleet_scope_id :: bytes

record keystore_body =
  kb_config :: keystore_config
  kb_entries :: "key_entry list"
  kb_counters :: "counter_entry list"
  kb_faucet :: faucet_state
  kb_audit :: audit_ring
  kb_freshness_epoch :: u64
  kb_structural_version :: u64
  kb_strict_recovery_counter :: u64

section \<open>The faucet gate\<close>

definition zero32 :: bytes where
  "zero32 = replicate 32 0"

definition accept_and_debit :: "faucet_state \<Rightarrow> u256 \<Rightarrow> u64 \<Rightarrow> u256 \<Rightarrow> faucet_cap_error + faucet_state" where
  "accept_and_debit fs amount gas_limit gas_price =
     (if fs_cumulative_signing_budget fs = zero32 then Inl CumulativeBudget
      else if amount > fs_per_dispense_max_amount fs then Inl PerDispenseAmount
      else if gas_limit > fs_max_gas_limit fs then Inl GasLimit
      else if gas_price > u256_from_u64 (fs_max_effective_gas_fee_rate fs) then Inl GasFeeRate
      else
        res_bind (ok_or WorstCaseOverflow (u256_checked_mul_u64 gas_price gas_limit)) (\<lambda>gas_cost.
        res_bind (ok_or WorstCaseOverflow (u256_checked_add amount gas_cost)) (\<lambda>worst_case.
        res_bind (ok_or WorstCaseOverflow
            (u256_checked_add (fs_cumulative_native_spend fs) worst_case)) (\<lambda>new_cumulative.
        if new_cumulative > fs_cumulative_signing_budget fs then Inl CumulativeBudget
        else
          res_bind (ok_or WorstCaseOverflow
              (u256_checked_add (fs_lifetime_spend fs) worst_case)) (\<lambda>new_lifetime.
          if (case fs_circuit_breaker_threshold fs of None \<Rightarrow> False
              | Some breaker \<Rightarrow> new_lifetime > breaker)
          then Inl LifetimeBreaker
          else Inr (fs\<lparr>fs_cumulative_native_spend := new_cumulative,
                       fs_lifetime_spend := new_lifetime\<rparr>))))))"

section \<open>The marks payload\<close>

definition ce_sort_key :: "counter_entry \<Rightarrow> bytes \<times> u8 \<times> bytes \<times> bytes" where
  "ce_sort_key c = (ce_authority c, ce_scope_class c, ce_scope_target c, ce_environment_identifier c)"

definition put_marks_row :: "counter_entry \<Rightarrow> bytes" where
  "put_marks_row r = put_uint 4 4 @ put_bytes (ce_authority r) @ put_uint 0 (ucast (ce_scope_class r))
     @ put_bytes (ce_scope_target r) @ put_uint 0 (ce_highest_accepted_counter r)"

definition encode_marks_payload :: "keystore_body \<Rightarrow> bytes" where
  "encode_marks_payload b =
     (let rows = sort_key ce_sort_key (kb_counters b) in
      put_uint 5 4
      @ put_uint 0 1 @ put_uint 4 (of_nat (length rows)) @ concat (map put_marks_row rows)
      @ put_uint 0 2 @ put_bytes (fs_cumulative_native_spend (kb_faucet b))
      @ put_uint 0 3 @ put_bytes (fs_lifetime_spend (kb_faucet b))
      @ put_uint 0 4 @ put_uint 0 (kb_strict_recovery_counter b))"

definition compute_local_marks_digest :: "crypto \<Rightarrow> keystore_body \<Rightarrow> bytes" where
  "compute_local_marks_digest C b = sha3_256 C (MARKS_DOMAIN @ encode_marks_payload b)"

section \<open>Operations on the body\<close>

definition env_char :: "u8 \<Rightarrow> bool" where
  "env_char c \<longleftrightarrow> (0x61 \<le> c \<and> c \<le> 0x7a) \<or> (0x30 \<le> c \<and> c \<le> 0x39) \<or> c = 0x2d"

fun env_id_loop :: "bool \<Rightarrow> bytes \<Rightarrow> bool" where
  "env_id_loop prev_hyphen [] = True"
| "env_id_loop prev_hyphen (c # cs) =
     (if \<not> env_char c then False
      else if c = 0x2d \<and> prev_hyphen then False
      else env_id_loop (c = 0x2d) cs)"

definition is_valid_environment_identifier :: "bytes \<Rightarrow> bool" where
  "is_valid_environment_identifier b =
     (if b = [] \<or> length b > 64 then False
      else if hd b = 0x2d \<or> last b = 0x2d then False
      else env_id_loop False b)"

definition validate_environment_identifier :: "bytes \<Rightarrow> keystore_error + unit" where
  "validate_environment_identifier s =
     (if is_valid_environment_identifier s then Inr () else Inl InvalidEnvironmentId)"

fun validate_entries :: "bytes set \<Rightarrow> key_entry list \<Rightarrow> keystore_error + unit" where
  "validate_entries seen_refs [] = Inr ()"
| "validate_entries seen_refs (e # es) =
     (if length (ke_public_identity e) \<noteq> SECP256K1_UNCOMPRESSED_LEN \<or> ke_public_identity e ! 0 \<noteq> 0x04
      then Inl InvalidFieldLength
      else if length (ke_secret_scalar e) \<noteq> SECRET_SCALAR_LEN then Inl InvalidFieldLength
      else if ke_key_ref e \<in> seen_refs then Inl DuplicateKeyRef
      else validate_entries (insert (ke_key_ref e) seen_refs) es)"

definition ce_tuple :: "counter_entry \<Rightarrow> bytes \<times> u8 \<times> bytes" where
  "ce_tuple c = (ce_authority c, ce_scope_class c, ce_scope_target c)"

fun validate_counters :: "bytes \<Rightarrow> (bytes \<times> u8 \<times> bytes) set \<Rightarrow> counter_entry list
    \<Rightarrow> keystore_error + unit" where
  "validate_counters env seen_tuples [] = Inr ()"
| "validate_counters env seen_tuples (c # cs) =
     res_bind (validate_environment_identifier (ce_environment_identifier c)) (\<lambda>_.
     if ce_environment_identifier c \<noteq> env then Inl InvalidEnvironmentId
     else if length (ce_scope_target c) > MARKS_SCOPE_TARGET_MAX_LEN then Inl InvalidFieldLength
     else if ce_tuple c \<in> seen_tuples then Inl DuplicateCounterTuple
     else validate_counters env (insert (ce_tuple c) seen_tuples) cs)"

fun validate_records :: "audit_record list \<Rightarrow> keystore_error + unit" where
  "validate_records [] = Inr ()"
| "validate_records (r # rs) =
     (if length (ar_scope_target r) > MAX_SCOPE_TARGET_LEN \<or> length (ar_request_id r) > MAX_REQUEST_ID_LEN
      then Inl InvalidFieldLength else validate_records rs)"

fun validate_seqs :: "audit_record list \<Rightarrow> keystore_error + unit" where
  "validate_seqs (r # r' # rs) =
     (if ar_seq r' \<le> ar_seq r then Inl AuditSeqDisorder else validate_seqs (r' # rs))"
| "validate_seqs _ = Inr ()"

definition validate :: "keystore_body \<Rightarrow> keystore_error + unit" where
  "validate b =
     (let cfg = kb_config b; audit = kb_audit b in
      if kb_structural_version b = 0 then Inl InvalidStructuralVersion
      else res_bind (validate_environment_identifier (kc_environment_identifier cfg)) (\<lambda>_.
      if kc_enclave_scope_id cfg = zero32 \<or> kc_fleet_scope_id cfg = zero32
         \<or> kc_enclave_scope_id cfg = kc_fleet_scope_id cfg
      then Inl InvalidScopeId
      else if length (kc_backup_recovery_wrapping_pubkey cfg) \<noteq> ML_KEM_1024_ENCAPS_KEY_LEN
      then Inl InvalidFieldLength
      else if length (kb_entries b) > MAX_TOTAL_KEY_ENTRIES
         \<or> length (kb_counters b) > MAX_COUNTER_ENTRIES
      then Inl CapacityExceeded
      else res_bind (validate_entries {} (kb_entries b)) (\<lambda>_.
      res_bind (validate_counters (kc_environment_identifier cfg) {} (kb_counters b)) (\<lambda>_.
      if au_capacity audit > MAX_AUDIT_CAPACITY
         \<or> length (au_records audit) > unat (au_capacity audit)
      then Inl CapacityExceeded
      else res_bind (validate_records (au_records audit)) (\<lambda>_.
      res_bind (validate_seqs (au_records audit)) (\<lambda>_.
      if au_records audit \<noteq> [] \<and> au_next_seq audit \<le> ar_seq (last (au_records audit))
      then Inl AuditSeqDisorder
      else if au_last_exported_seq audit \<ge> au_next_seq audit then Inl AuditSeqDisorder
      else Inr ()))))))"

definition seed_marks_forward :: "decoded_marks \<Rightarrow> u64 \<Rightarrow> keystore_body \<Rightarrow> keystore_error + keystore_body" where
  "seed_marks_forward m epoch b =
     (let env = kc_environment_identifier (kb_config b);
          b' = b\<lparr>kb_counters := map (\<lambda>r. \<lparr>ce_authority = dr_authority r,
                     ce_environment_identifier = env, ce_scope_class = dr_scope_class r,
                     ce_scope_target = dr_scope_target r,
                     ce_highest_accepted_counter = dr_highest_accepted_counter r\<rparr>) (dm_rows m),
                 kb_faucet := (kb_faucet b)\<lparr>
                     fs_cumulative_native_spend := dm_cumulative_native_spend m,
                     fs_lifetime_spend := dm_lifetime_spend m\<rparr>,
                 kb_strict_recovery_counter := dm_strict_recovery_counter m,
                 kb_freshness_epoch := epoch\<rparr>
      in res_bind (validate b') (\<lambda>_. Inr b'))"

definition advance_commit_epoch :: "bool \<Rightarrow> keystore_body \<Rightarrow> keystore_error + keystore_body" where
  "advance_commit_epoch bumps_structural b =
     res_bind (ok_or MonotonicOverflow (checked_add_u64 (kb_freshness_epoch b) 1)) (\<lambda>new_epoch.
     res_bind (if bumps_structural
               then res_bind (ok_or MonotonicOverflow (checked_add_u64 (kb_structural_version b) 1))
                      (\<lambda>s. Inr (Some s))
               else Inr None) (\<lambda>new_structural.
     Inr (b\<lparr>kb_freshness_epoch := new_epoch,
            kb_structural_version := (case new_structural of Some s \<Rightarrow> s
                                      | None \<Rightarrow> kb_structural_version b)\<rparr>)))"

definition record_audit :: "audit_append \<Rightarrow> keystore_body \<Rightarrow> keystore_error + keystore_body" where
  "record_audit app b =
     (let audit = kb_audit b;
          cap = (ucast (au_capacity audit) :: u64) in
      if cap = 0 then Inl AuditBackpressure
      else
        (let live_unexported = saturating_sub_u64 (saturating_sub_u64 (au_next_seq audit) 1)
               (au_last_exported_seq audit) in
         if of_nat (length (au_records audit)) \<ge> cap \<and> live_unexported \<ge> cap
         then Inl AuditBackpressure
         else
           res_bind (ok_or MonotonicOverflow (checked_add_u64 (au_next_seq audit) 1)) (\<lambda>new_next.
           let record = \<lparr>ar_seq = au_next_seq audit, ar_op = aa_op app,
                 ar_authority = aa_authority app, ar_counter = aa_counter app,
                 ar_config_version = aa_config_version app,
                 ar_scope_class = aa_scope_class app, ar_scope_target = aa_scope_target app,
                 ar_request_id = aa_request_id app\<rparr>;
               records = (if of_nat (length (au_records audit)) < cap
                 then au_records audit @ [record]
                 else tl (au_records audit) @ [record])
           in Inr (b\<lparr>kb_audit := audit\<lparr>au_records := records, au_next_seq := new_next\<rparr>\<rparr>))))"

definition advance_export_high_water :: "keystore_body \<Rightarrow> keystore_error + keystore_body" where
  "advance_export_high_water b =
     (let audit = kb_audit b;
          target = saturating_sub_u64 (au_next_seq audit) 1
      in Inr (if target > au_last_exported_seq audit
              then b\<lparr>kb_audit := audit\<lparr>au_last_exported_seq := target\<rparr>\<rparr> else b))"

definition advance_treasury_config_version :: "keystore_body \<Rightarrow> keystore_error + keystore_body" where
  "advance_treasury_config_version b =
     res_bind (ok_or MonotonicOverflow
         (checked_add_u64 (kc_monotonic_treasury_config_version (kb_config b)) 1)) (\<lambda>v.
     Inr (b\<lparr>kb_config := (kb_config b)\<lparr>kc_monotonic_treasury_config_version := v\<rparr>\<rparr>))"

text \<open>\<open>iter_mut().find(p)\<close> followed by a write to the row found.\<close>

fun update_first :: "('a \<Rightarrow> bool) \<Rightarrow> ('a \<Rightarrow> 'a) \<Rightarrow> 'a list \<Rightarrow> 'a list" where
  "update_first P f [] = []"
| "update_first P f (x # xs) = (if P x then f x # xs else x # update_first P f xs)"

definition counter_row :: "bytes \<Rightarrow> bytes \<Rightarrow> u8 \<Rightarrow> bytes \<Rightarrow> counter_entry \<Rightarrow> bool" where
  "counter_row authority env scope_class scope_target c \<longleftrightarrow>
     ce_authority c = authority \<and> ce_environment_identifier c = env
     \<and> ce_scope_class c = scope_class \<and> ce_scope_target c = scope_target"

definition advance_counter :: "bytes \<Rightarrow> u8 \<Rightarrow> bytes \<Rightarrow> u64 \<Rightarrow> keystore_body
    \<Rightarrow> keystore_error + keystore_body" where
  "advance_counter authority scope_class scope_target incoming b =
     (let env = kc_environment_identifier (kb_config b);
          row = counter_row authority env scope_class scope_target in
      case find row (kb_counters b) of
        Some c \<Rightarrow>
          (if incoming \<le> ce_highest_accepted_counter c then Inl CounterRegression
           else Inr (b\<lparr>kb_counters :=
             update_first row (\<lambda>c. c\<lparr>ce_highest_accepted_counter := incoming\<rparr>) (kb_counters b)\<rparr>))
      | None \<Rightarrow>
          (if length (kb_counters b) \<ge> MAX_COUNTER_ENTRIES then Inl CapacityExceeded
           else Inr (b\<lparr>kb_counters := kb_counters b @ [\<lparr>ce_authority = authority,
             ce_environment_identifier = env, ce_scope_class = scope_class,
             ce_scope_target = scope_target, ce_highest_accepted_counter = incoming\<rparr>]\<rparr>)))"

end
