(* ===== verification/Faucet.thy ===== *)
theory Faucet
  imports Keystore
begin

text \<open>
  The faucet gate \<open>FaucetState::accept_and_debit\<close>: a specification over natural numbers, the
  proof that the byte-string code computes exactly it (no operation on the way wraps or loses a
  carry), and the budget and breaker invariants of any sequence of dispenses.
\<close>

section \<open>Specification over the naturals\<close>

definition opt_u256 :: "u256 option \<Rightarrow> bool" where
  "opt_u256 m = (case m of None \<Rightarrow> True | Some a \<Rightarrow> is_u256 a)"

definition faucet_typed :: "faucet_state \<Rightarrow> bool" where
  "faucet_typed fs \<longleftrightarrow> is_u256 (fs_per_dispense_max_amount fs)
     \<and> is_u256 (fs_cumulative_native_spend fs) \<and> is_u256 (fs_lifetime_spend fs)
     \<and> opt_u256 (fs_circuit_breaker_threshold fs)
     \<and> is_u256 (fs_cumulative_signing_budget fs)"

definition dispense_cost :: "u256 \<Rightarrow> u64 \<Rightarrow> u256 \<Rightarrow> nat" where
  "dispense_cost amount gas_limit gas_price = be_val amount + be_val gas_price * unat gas_limit"

definition faucet_spec :: "faucet_state \<Rightarrow> u256 \<Rightarrow> u64 \<Rightarrow> u256 \<Rightarrow> faucet_cap_error + nat \<times> nat" where
  "faucet_spec fs amount gas_limit gas_price =
     (let cost = dispense_cost amount gas_limit gas_price;
          cumulative = be_val (fs_cumulative_native_spend fs) + cost;
          lifetime = be_val (fs_lifetime_spend fs) + cost in
      if be_val (fs_cumulative_signing_budget fs) = 0 then Inl CumulativeBudget
      else if be_val (fs_per_dispense_max_amount fs) < be_val amount then Inl PerDispenseAmount
      else if unat (fs_max_gas_limit fs) < unat gas_limit then Inl GasLimit
      else if unat (fs_max_effective_gas_fee_rate fs) < be_val gas_price then Inl GasFeeRate
      else if 2 ^ 256 \<le> cumulative then Inl WorstCaseOverflow
      else if be_val (fs_cumulative_signing_budget fs) < cumulative then Inl CumulativeBudget
      else if 2 ^ 256 \<le> lifetime then Inl WorstCaseOverflow
      else if (case fs_circuit_breaker_threshold fs of None \<Rightarrow> False
               | Some breaker \<Rightarrow> be_val breaker < lifetime)
      then Inl LifetimeBreaker
      else Inr (cumulative, lifetime))"

lemma be_val_zero32 [simp]: "be_val zero32 = 0"
  by (simp add: zero32_def)

lemma is_u256_zero32 [simp]: "is_u256 zero32"
  by (simp add: zero32_def is_u256_def)

lemma eq_zero32_iff: "is_u256 a \<Longrightarrow> a = zero32 \<longleftrightarrow> be_val a = 0"
  using be_val_inj [of a zero32] by (auto simp: is_u256_def zero32_def)

lemma pow_256: "(256 :: nat) ^ 32 = 2 ^ 256"
  by simp

text \<open>The product never overflows once the fee rate is capped by a \<open>u64\<close>.\<close>

lemma gas_cost_bound:
  assumes "be_val gas_price \<le> unat (rate :: u64)"
  shows "be_val gas_price * unat (gas_limit :: u64) < 2 ^ 256"
proof -
  have "be_val gas_price * unat gas_limit \<le> unat rate * unat gas_limit"
    using assms by (rule mult_le_mono1)
  also have "\<dots> \<le> 2 ^ 64 * 2 ^ 64"
    by (intro mult_le_mono less_imp_le) simp_all
  also have "\<dots> < 2 ^ 256" by simp
  finally show ?thesis .
qed

lemma checked_add_cases:
  assumes "is_u256 a" "is_u256 b"
  obtains (overflow) "u256_checked_add a b = None" "2 ^ 256 \<le> be_val a + be_val b"
    | (sum) c where "u256_checked_add a b = Some c" "is_u256 c" "be_val c = be_val a + be_val b"
        "be_val a + be_val b < 2 ^ 256"
proof (cases "u256_checked_add a b")
  case None
  then show ?thesis using overflow u256_checked_add_cases [OF assms] by (simp add: pow_256 del: power_numeral)
next
  case (Some c)
  then have "is_u256 c" "be_val c = be_val a + be_val b" using u256_checked_add_cases [OF assms] by auto
  then show ?thesis using sum Some u256_bound [of c] by (simp add: pow_256 del: power_numeral)
qed

lemma accept_and_debit_refines:
  assumes "faucet_typed fs" "is_u256 amount" "is_u256 gas_price"
  shows "(case accept_and_debit fs amount gas_limit gas_price of
      Inl e \<Rightarrow> faucet_spec fs amount gas_limit gas_price = Inl e
    | Inr fs' \<Rightarrow> faucet_typed fs'
        \<and> faucet_spec fs amount gas_limit gas_price
            = Inr (be_val (fs_cumulative_native_spend fs'), be_val (fs_lifetime_spend fs'))
        \<and> fs' = fs\<lparr>fs_cumulative_native_spend := fs_cumulative_native_spend fs',
                   fs_lifetime_spend := fs_lifetime_spend fs'\<rparr>)"
proof -
  let ?budget = "fs_cumulative_signing_budget fs"
  have t: "is_u256 (fs_per_dispense_max_amount fs)" "is_u256 (fs_cumulative_native_spend fs)"
    "is_u256 (fs_lifetime_spend fs)" "opt_u256 (fs_circuit_breaker_threshold fs)" "is_u256 ?budget"
    using assms(1) by (auto simp: faucet_typed_def)
  note cmp = eq_zero32_iff [OF t(5)] u256_less_iff [OF t(1) assms(2)]
    u256_less_iff [OF is_u256_from_u64 assms(3)] be_val_u256_from_u64 word_less_nat_alt
  show ?thesis
  proof (cases "?budget = zero32 \<or> fs_per_dispense_max_amount fs < amount \<or> fs_max_gas_limit fs < gas_limit
      \<or> u256_from_u64 (fs_max_effective_gas_fee_rate fs) < gas_price")
    case True
    then show ?thesis
      by (auto simp: accept_and_debit_def faucet_spec_def cmp Let_def)
  next
    case caps: False
    then have rate: "be_val gas_price \<le> unat (fs_max_effective_gas_fee_rate fs)"
      by (simp add: cmp not_less)
    obtain gas where gas: "u256_checked_mul_u64 gas_price gas_limit = Some gas" "is_u256 gas"
      "be_val gas = be_val gas_price * unat gas_limit"
      using u256_checked_mul_cases [OF assms(3), of gas_limit] gas_cost_bound [OF rate, of gas_limit]
      by (cases "u256_checked_mul_u64 gas_price gas_limit") (auto simp: pow_256 simp del: power_numeral)
    have spec_caps: "\<not> (be_val ?budget = 0)" "\<not> be_val (fs_per_dispense_max_amount fs) < be_val amount"
      "\<not> unat (fs_max_gas_limit fs) < unat gas_limit"
      "\<not> unat (fs_max_effective_gas_fee_rate fs) < be_val gas_price"
      using caps by (auto simp: cmp)
    show ?thesis
      using assms(2) gas(2)
    proof (cases rule: checked_add_cases)
      case overflow
      then show ?thesis using caps spec_caps gas
        by (simp add: accept_and_debit_def faucet_spec_def dispense_cost_def Let_def)
    next
      case (sum worst)
      note worst = this
      show ?thesis
        using t(2) worst(2)
      proof (cases rule: checked_add_cases)
        case overflow
        then show ?thesis using caps spec_caps gas worst
          by (simp add: accept_and_debit_def faucet_spec_def dispense_cost_def Let_def)
      next
        case (sum cum)
        note cum = this
        show ?thesis
        proof (cases "?budget < cum")
          case True
          then show ?thesis using caps spec_caps gas worst cum u256_less_iff [OF t(5) cum(2)]
            by (simp add: accept_and_debit_def faucet_spec_def dispense_cost_def Let_def)
        next
          case budget: False
          then have budget': "\<not> be_val ?budget < be_val cum" using u256_less_iff [OF t(5) cum(2)] by simp
          show ?thesis
            using t(3) worst(2)
          proof (cases rule: checked_add_cases)
            case overflow
            then show ?thesis using caps spec_caps gas worst cum budget budget'
              by (simp add: accept_and_debit_def faucet_spec_def dispense_cost_def Let_def)
          next
            case (sum life)
            have br: "(case fs_circuit_breaker_threshold fs of None \<Rightarrow> False | Some br \<Rightarrow> br < life)
              = (case fs_circuit_breaker_threshold fs of None \<Rightarrow> False | Some br \<Rightarrow> be_val br < be_val life)"
              using t(4) u256_less_iff [OF _ sum(2)] by (auto simp: opt_u256_def split: option.splits)
            show ?thesis using caps spec_caps gas worst cum budget budget' sum br t
              by (cases "fs_circuit_breaker_threshold fs") (simp_all add: accept_and_debit_def faucet_spec_def dispense_cost_def faucet_typed_def Let_def)
          qed
        qed
      qed
    qed
  qed
qed

section \<open>Sequences of dispenses\<close>

text \<open>A rejected request leaves the state as it was (the handler drops its candidate).\<close>

type_synonym dispense = "u256 \<times> u64 \<times> u256"

fun run_dispenses :: "faucet_state \<Rightarrow> dispense list \<Rightarrow> faucet_state" where
  "run_dispenses fs [] = fs"
| "run_dispenses fs ((amount, gas_limit, gas_price) # ds) =
     (case accept_and_debit fs amount gas_limit gas_price of
        Inl e \<Rightarrow> run_dispenses fs ds
      | Inr fs' \<Rightarrow> run_dispenses fs' ds)"

text \<open>The summed cost of the accepted requests.\<close>

fun accepted_cost :: "faucet_state \<Rightarrow> dispense list \<Rightarrow> nat" where
  "accepted_cost fs [] = 0"
| "accepted_cost fs ((amount, gas_limit, gas_price) # ds) =
     (case accept_and_debit fs amount gas_limit gas_price of
        Inl e \<Rightarrow> accepted_cost fs ds
      | Inr fs' \<Rightarrow> dispense_cost amount gas_limit gas_price + accepted_cost fs' ds)"

definition dispense_typed :: "dispense \<Rightarrow> bool" where
  "dispense_typed d \<longleftrightarrow> is_u256 (fst d) \<and> is_u256 (snd (snd d))"

definition breaker_holds :: "faucet_state \<Rightarrow> bool" where
  "breaker_holds fs \<longleftrightarrow> (case fs_circuit_breaker_threshold fs of None \<Rightarrow> True
     | Some breaker \<Rightarrow> be_val (fs_lifetime_spend fs) \<le> be_val breaker)"

lemma accept_step:
  assumes "faucet_typed fs" "is_u256 amount" "is_u256 gas_price"
    and "accept_and_debit fs amount gas_limit gas_price = Inr fs'"
  shows "faucet_typed fs'"
    and "be_val (fs_cumulative_native_spend fs')
      = be_val (fs_cumulative_native_spend fs) + dispense_cost amount gas_limit gas_price"
    and "be_val (fs_lifetime_spend fs')
      = be_val (fs_lifetime_spend fs) + dispense_cost amount gas_limit gas_price"
    and "be_val (fs_cumulative_native_spend fs') \<le> be_val (fs_cumulative_signing_budget fs')"
    and "breaker_holds fs'"
    and "fs_cumulative_signing_budget fs' = fs_cumulative_signing_budget fs"
    and "fs_circuit_breaker_threshold fs' = fs_circuit_breaker_threshold fs"
proof -
  define c where "c = be_val (fs_cumulative_native_spend fs')"
  define l where "l = be_val (fs_lifetime_spend fs')"
  have spec: "faucet_spec fs amount gas_limit gas_price = Inr (c, l)"
    and fs': "fs' = fs\<lparr>fs_cumulative_native_spend := fs_cumulative_native_spend fs',
                   fs_lifetime_spend := fs_lifetime_spend fs'\<rparr>"
    and typed: "faucet_typed fs'"
    using accept_and_debit_refines [OF assms(1-3), of gas_limit] assms(4) by (simp_all add: c_def l_def)
  show "faucet_typed fs'" by (rule typed)
  show budget: "fs_cumulative_signing_budget fs' = fs_cumulative_signing_budget fs"
    by (subst fs') simp
  show breaker: "fs_circuit_breaker_threshold fs' = fs_circuit_breaker_threshold fs"
    by (subst fs') simp
  show "be_val (fs_cumulative_native_spend fs')
      = be_val (fs_cumulative_native_spend fs) + dispense_cost amount gas_limit gas_price"
    "be_val (fs_lifetime_spend fs')
      = be_val (fs_lifetime_spend fs) + dispense_cost amount gas_limit gas_price"
    "be_val (fs_cumulative_native_spend fs') \<le> be_val (fs_cumulative_signing_budget fs')"
    using spec unfolding budget
    by (auto simp: faucet_spec_def Let_def c_def l_def split: if_splits)
  show "breaker_holds fs'"
    using spec unfolding breaker_holds_def breaker
    by (auto simp: faucet_spec_def Let_def c_def l_def split: if_splits option.splits)
qed

lemma run_dispenses_budget:
  assumes "faucet_typed fs" "list_all dispense_typed ds"
  shows "faucet_typed (run_dispenses fs ds)
    \<and> fs_cumulative_signing_budget (run_dispenses fs ds) = fs_cumulative_signing_budget fs
    \<and> be_val (fs_cumulative_native_spend (run_dispenses fs ds))
        = be_val (fs_cumulative_native_spend fs) + accepted_cost fs ds
    \<and> be_val (fs_lifetime_spend (run_dispenses fs ds))
        = be_val (fs_lifetime_spend fs) + accepted_cost fs ds
    \<and> (accepted_cost fs ds = 0
       \<or> be_val (fs_cumulative_native_spend (run_dispenses fs ds)) \<le> be_val (fs_cumulative_signing_budget fs))
    \<and> (breaker_holds fs \<longrightarrow> breaker_holds (run_dispenses fs ds))"
  using assms
proof (induction fs ds rule: run_dispenses.induct)
  case (1 fs)
  then show ?case by simp
next
  case (2 fs amount gas_limit gas_price ds)
  have typed: "is_u256 amount" "is_u256 gas_price" "list_all dispense_typed ds"
    using 2(4) by (auto simp: dispense_typed_def list_all_iff)
  show ?case
  proof (cases "accept_and_debit fs amount gas_limit gas_price")
    case (Inl e)
    then show ?thesis using 2(1) 2(3) typed by auto
  next
    case (Inr fs')
    note step = accept_step [OF 2(3) typed(1,2) Inr]
    show ?thesis
      using 2(2) [OF Inr step(1) typed(3)] step Inr by auto
  qed
qed

section \<open>Properties\<close>

text \<open>C23: The faucet gate over big-endian byte strings computes exactly its specification over natural
  numbers: same verdict on every request, in the same order of checks, and on acceptance both
  spend counters advance by the true cost \<open>amount + gas_limit * gas_price\<close> while nothing
  else changes.\<close>

theorem accept_and_debit_implements_spec:
  assumes "faucet_typed fs" "is_u256 amount" "is_u256 gas_price"
  shows "(case accept_and_debit fs amount gas_limit gas_price of
      Inl e \<Rightarrow> faucet_spec fs amount gas_limit gas_price = Inl e
    | Inr fs' \<Rightarrow> faucet_typed fs'
        \<and> faucet_spec fs amount gas_limit gas_price
            = Inr (be_val (fs_cumulative_native_spend fs'), be_val (fs_lifetime_spend fs'))
        \<and> fs' = fs\<lparr>fs_cumulative_native_spend := fs_cumulative_native_spend fs',
                   fs_lifetime_spend := fs_lifetime_spend fs'\<rparr>)"
  by (rule accept_and_debit_refines [OF assms])

definition sample_faucet :: faucet_state where
  "sample_faucet = \<lparr>fs_per_dispense_max_amount = u256_from_u64 1000, fs_max_gas_limit = 50,
     fs_max_effective_gas_fee_rate = 10, fs_cumulative_native_spend = u256_from_u64 100,
     fs_lifetime_spend = u256_from_u64 400, fs_circuit_breaker_threshold = None,
     fs_cumulative_signing_budget = u256_from_u64 1000\<rparr>"

lemma sample_faucet_typed: "faucet_typed sample_faucet"
  by (simp add: faucet_typed_def sample_faucet_def opt_u256_def)

lemma accept_and_debit_implements_spec_witness:
  "(\<exists>fs'. accept_and_debit sample_faucet (u256_from_u64 300) 20 (u256_from_u64 5) = Inr fs'
      \<and> be_val (fs_cumulative_native_spend fs') = 500 \<and> be_val (fs_lifetime_spend fs') = 800)"
  using accept_and_debit_implements_spec
    [OF sample_faucet_typed, of "u256_from_u64 300" "u256_from_u64 5" 20]
  by (auto simp: faucet_spec_def sample_faucet_def dispense_cost_def split: sum.splits)

text \<open>Over any sequence of dispense requests the two spend counters advance together by the cost of
  the accepted ones; once anything is accepted the cumulative spend is within the sealed budget,
  and a lifetime breaker that holds keeps holding.\<close>

theorem dispenses_stay_in_budget:
  assumes "faucet_typed fs" "list_all dispense_typed ds"
  shows "faucet_typed (run_dispenses fs ds)
    \<and> fs_cumulative_signing_budget (run_dispenses fs ds) = fs_cumulative_signing_budget fs
    \<and> be_val (fs_cumulative_native_spend (run_dispenses fs ds))
        = be_val (fs_cumulative_native_spend fs) + accepted_cost fs ds
    \<and> be_val (fs_lifetime_spend (run_dispenses fs ds))
        = be_val (fs_lifetime_spend fs) + accepted_cost fs ds
    \<and> (accepted_cost fs ds = 0
       \<or> be_val (fs_cumulative_native_spend (run_dispenses fs ds)) \<le> be_val (fs_cumulative_signing_budget fs))
    \<and> (breaker_holds fs \<longrightarrow> breaker_holds (run_dispenses fs ds))"
  by (rule run_dispenses_budget [OF assms])

lemma dispenses_stay_in_budget_witness:
  "be_val (fs_cumulative_signing_budget (run_dispenses sample_faucet
     [(u256_from_u64 300, 20, u256_from_u64 5), (u256_from_u64 900, 20, u256_from_u64 5)])) = 1000"
  using dispenses_stay_in_budget [OF sample_faucet_typed,
      of "[(u256_from_u64 300, 20, u256_from_u64 5), (u256_from_u64 900, 20, u256_from_u64 5)]"]
  by (simp add: dispense_typed_def) (simp add: sample_faucet_def)

end
