(* ===== verification/Keystore_Invariant.thy ===== *)
theory Keystore_Invariant
  imports Faucet
begin

text \<open>
  The invariant of the sealed body. \<open>body_ok\<close> states declaratively what \<open>validate\<close> checks with
  its loops; every operation that changes the body preserves it. The counter table is stated as
  an interface, \<open>counter_table\<close>, whose client lemmas (a used counter value is never accepted
  again, counters never move back) rest on the laws of a lookup after an advance; the keystore's
  \<open>advance_counter\<close> interprets it. The last section is about the audit ring.
\<close>

section \<open>What \<open>validate\<close> checks\<close>

definition entry_ok :: "key_entry \<Rightarrow> bool" where
  "entry_ok e \<longleftrightarrow> length (ke_public_identity e) = 65 \<and> ke_public_identity e ! 0 = 0x04
     \<and> length (ke_secret_scalar e) = 32"

definition counters_ok :: "bytes \<Rightarrow> counter_entry list \<Rightarrow> bool" where
  "counters_ok env cs \<longleftrightarrow> length cs \<le> 65536
     \<and> (\<forall>c \<in> set cs. ce_environment_identifier c = env \<and> length (ce_scope_target c) \<le> 4096)
     \<and> distinct (map ce_tuple cs)"

definition audit_ok :: "audit_ring \<Rightarrow> bool" where
  "audit_ok a \<longleftrightarrow> au_capacity a \<le> 65536 \<and> length (au_records a) \<le> unat (au_capacity a)
     \<and> (\<forall>r \<in> set (au_records a). length (ar_scope_target r) \<le> 64 \<and> length (ar_request_id r) \<le> 64)
     \<and> sorted_wrt (<) (map ar_seq (au_records a) @ [au_next_seq a])
     \<and> au_last_exported_seq a < au_next_seq a"

definition config_ok :: "keystore_config \<Rightarrow> bool" where
  "config_ok c \<longleftrightarrow> is_valid_environment_identifier (kc_environment_identifier c)
     \<and> kc_enclave_scope_id c \<noteq> zero32 \<and> kc_fleet_scope_id c \<noteq> zero32
     \<and> kc_enclave_scope_id c \<noteq> kc_fleet_scope_id c
     \<and> length (kc_backup_recovery_wrapping_pubkey c) = 1568"

definition body_ok :: "keystore_body \<Rightarrow> bool" where
  "body_ok b \<longleftrightarrow> kb_structural_version b \<noteq> 0 \<and> config_ok (kb_config b)
     \<and> length (kb_entries b) \<le> 4096 \<and> (\<forall>e \<in> set (kb_entries b). entry_ok e)
     \<and> distinct (map ke_key_ref (kb_entries b))
     \<and> counters_ok (kc_environment_identifier (kb_config b)) (kb_counters b)
     \<and> audit_ok (kb_audit b)"

text \<open>The lengths of the byte arrays, guaranteed by their Rust types.\<close>

definition body_typed :: "keystore_body \<Rightarrow> bool" where
  "body_typed b \<longleftrightarrow> faucet_typed (kb_faucet b)
     \<and> (\<forall>c \<in> set (kb_counters b). length (ce_authority c) = 32)
     \<and> (\<forall>e \<in> set (kb_entries b). length (ke_key_ref e) = 32)
     \<and> (\<forall>r \<in> set (au_records (kb_audit b)). length (ar_authority r) = 32)
     \<and> length (kc_admin_authority_pk (kb_config b)) = 32
     \<and> length (kc_recovery_authority_pk (kb_config b)) = 32
     \<and> length (kc_anchor_root (kb_config b)) = 32
     \<and> length (kc_enclave_scope_id (kb_config b)) = 32
     \<and> length (kc_fleet_scope_id (kb_config b)) = 32"

lemma validate_entries_ok:
  "validate_entries seen es = Inr () \<longleftrightarrow>
     (\<forall>e \<in> set es. entry_ok e) \<and> seen \<inter> ke_key_ref ` set es = {} \<and> distinct (map ke_key_ref es)"
  by (induction seen es rule: validate_entries.induct)
    (auto simp: entry_ok_def SECP256K1_UNCOMPRESSED_LEN_def SECRET_SCALAR_LEN_def)

lemma validate_counters_ok:
  "is_valid_environment_identifier env \<Longrightarrow> validate_counters env seen cs = Inr () \<longleftrightarrow>
     (\<forall>c \<in> set cs. ce_environment_identifier c = env \<and> length (ce_scope_target c) \<le> 4096)
     \<and> seen \<inter> ce_tuple ` set cs = {} \<and> distinct (map ce_tuple cs)"
  by (induction env seen cs rule: validate_counters.induct)
    (auto simp: validate_environment_identifier_def MARKS_SCOPE_TARGET_MAX_LEN_def res_simps not_less)

lemma validate_records_ok:
  "validate_records rs = Inr () \<longleftrightarrow>
     (\<forall>r \<in> set rs. length (ar_scope_target r) \<le> 64 \<and> length (ar_request_id r) \<le> 64)"
  by (induction rs) (auto simp: MAX_SCOPE_TARGET_LEN_def MAX_REQUEST_ID_LEN_def)

lemma validate_seqs_ok: "validate_seqs rs = Inr () \<longleftrightarrow> sorted_wrt (<) (map ar_seq rs)"
  by (induction rs rule: validate_seqs.induct) (auto simp: not_le sorted_wrt2)

lemma sorted_wrt_snoc:
  "sorted_wrt (<) (xs @ [x :: 'a :: linorder]) \<longleftrightarrow> sorted_wrt (<) xs \<and> (xs \<noteq> [] \<longrightarrow> last xs < x)"
proof (cases xs rule: rev_cases)
  case (snoc ys y)
  then show ?thesis by (auto simp: sorted_wrt_append)
qed simp

lemma ex_unit: "(\<exists>x :: unit. P x) \<longleftrightarrow> P ()"
  by (metis old.unit.exhaust)

lemma validate_iff: "validate b = Inr () \<longleftrightarrow> body_ok b"
proof -
  have audit: "audit_ok a \<longleftrightarrow> \<not> (au_capacity a > MAX_AUDIT_CAPACITY \<or> length (au_records a) > unat (au_capacity a))
    \<and> validate_records (au_records a) = Inr () \<and> validate_seqs (au_records a) = Inr ()
    \<and> \<not> (au_records a \<noteq> [] \<and> au_next_seq a \<le> ar_seq (last (au_records a)))
    \<and> \<not> au_last_exported_seq a \<ge> au_next_seq a" for a
    unfolding audit_ok_def validate_records_ok validate_seqs_ok sorted_wrt_snoc MAX_AUDIT_CAPACITY_def
    by (auto simp: last_map)
  show ?thesis
  proof (cases "is_valid_environment_identifier (kc_environment_identifier (kb_config b))")
    case True
    show ?thesis
      unfolding validate_def Let_def res_simps ex_unit validate_entries_ok validate_counters_ok [OF True]
        body_ok_def audit config_ok_def counters_ok_def validate_environment_identifier_def
        MAX_TOTAL_KEY_ENTRIES_def MAX_COUNTER_ENTRIES_def ML_KEM_1024_ENCAPS_KEY_LEN_def
      by (auto simp: True)
  next
    case False
    then show ?thesis
      by (simp add: validate_def Let_def validate_environment_identifier_def body_ok_def config_ok_def)
  qed
qed

section \<open>The counter table\<close>

text \<open>
  The interface of a monotonic counter table. \<open>highest s k\<close> is the high-water mark of a key, 0 for
  a key that has no row yet; a client accepts a value only if it is the successor of the mark and
  then advances to it.
\<close>

locale counter_table =
  fixes highest :: "'s \<Rightarrow> 'k \<Rightarrow> nat"
    and advance :: "'k \<Rightarrow> u64 \<Rightarrow> 's \<Rightarrow> 's option"
    and inv :: "'s \<Rightarrow> bool"
    and key_ok :: "'k \<Rightarrow> bool"
  assumes inv_advance: "inv s \<Longrightarrow> key_ok k \<Longrightarrow> advance k n s = Some s' \<Longrightarrow> inv s'"
    and highest_advance: "inv s \<Longrightarrow> advance k n s = Some s' \<Longrightarrow> highest s' = (highest s)(k := unat n)"
begin

text \<open>The contiguous acceptance rule.\<close>

definition accept :: "'k \<times> u64 \<Rightarrow> 's \<Rightarrow> 's option" where
  "accept kn s = (if unat (snd kn) = Suc (highest s (fst kn)) then advance (fst kn) (snd kn) s else None)"

text \<open>A run of requests; a refused one leaves the state as it was.\<close>

fun run :: "('k \<times> u64) list \<Rightarrow> 's \<Rightarrow> 's" where
  "run [] s = s"
| "run (kn # kns) s = (case accept kn s of None \<Rightarrow> run kns s | Some s' \<Rightarrow> run kns s')"

lemma accept_Some:
  assumes "inv s" "key_ok (fst kn)" "accept kn s = Some s'"
  shows "inv s'" "highest s' = (highest s)(fst kn := unat (snd kn))"
    "unat (snd kn) = Suc (highest s (fst kn))"
  using assms inv_advance highest_advance by (auto simp: accept_def split: if_splits)

lemma run_inv_mono:
  assumes "inv s" "\<forall>kn \<in> set kns. key_ok (fst kn)"
  shows "inv (run kns s) \<and> highest s k \<le> highest (run kns s) k"
  using assms
proof (induction kns arbitrary: s)
  case (Cons kn kns)
  show ?case
  proof (cases "accept kn s")
    case None
    then show ?thesis using Cons by simp
  next
    case (Some s')
    note acc = accept_Some [OF Cons.prems(1) _ Some]
    have "highest s k \<le> highest s' k" using Cons.prems acc by auto
    moreover have "inv (run kns s') \<and> highest s' k \<le> highest (run kns s') k"
      using Cons.IH [of s'] Cons.prems acc(1) by simp
    ultimately show ?thesis using Some by simp
  qed
qed simp

text \<open>A value accepted once is refused ever after.\<close>

lemma no_replay:
  assumes "inv s" "\<forall>kn \<in> set kns. key_ok (fst kn)" "key_ok (fst kn)" "accept kn s = Some s'"
  shows "accept kn (run kns s') = None"
proof -
  note acc = accept_Some [OF assms(1,3,4)]
  have "highest s' (fst kn) \<le> highest (run kns s') (fst kn)"
    using run_inv_mono [OF acc(1) assms(2)] by blast
  then show ?thesis using acc by (simp add: accept_def)
qed

end

type_synonym counter_key = "bytes \<times> u8 \<times> bytes"

definition highest_counter :: "keystore_body \<Rightarrow> counter_key \<Rightarrow> nat" where
  "highest_counter b k =
     (case find (counter_row (fst k) (kc_environment_identifier (kb_config b)) (fst (snd k)) (snd (snd k)))
        (kb_counters b) of
        None \<Rightarrow> 0 | Some c \<Rightarrow> unat (ce_highest_accepted_counter c))"

definition ok_opt :: "'e + 'a \<Rightarrow> 'a option" where
  "ok_opt r = (case r of Inl _ \<Rightarrow> None | Inr x \<Rightarrow> Some x)"

lemma ok_opt_Some [simp]: "ok_opt r = Some x \<longleftrightarrow> r = Inr x"
  by (cases r) (auto simp: ok_opt_def)

definition advance_key :: "counter_key \<Rightarrow> u64 \<Rightarrow> keystore_body \<Rightarrow> keystore_body option" where
  "advance_key k n b = ok_opt (advance_counter (fst k) (fst (snd k)) (snd (snd k)) n b)"

lemma map_update_first:
  "(\<And>x. g (f x) = g x) \<Longrightarrow> map g (update_first P f xs) = map g xs"
  by (induction xs) auto

lemma set_update_first: "set (update_first P f xs) \<subseteq> set xs \<union> f ` set xs"
  by (induction xs) auto

lemma length_update_first [simp]: "length (update_first P f xs) = length xs"
  by (induction xs) auto

lemma find_update_first_same:
  "(\<And>x. P (f x) = P x) \<Longrightarrow> find P (update_first P f xs) = map_option f (find P xs)"
  by (induction xs) auto

lemma find_update_first_other:
  "(\<And>x. Q (f x) = Q x) \<Longrightarrow> (\<And>x. P x \<Longrightarrow> \<not> Q x) \<Longrightarrow> find Q (update_first P f xs) = find Q xs"
  by (induction xs) auto

lemma find_snoc: "find P (xs @ [x]) = (case find P xs of None \<Rightarrow> (if P x then Some x else None) | Some y \<Rightarrow> Some y)"
  by (induction xs) auto

lemma counter_row_update [simp]:
  "counter_row a e s t (c\<lparr>ce_highest_accepted_counter := n\<rparr>) = counter_row a e s t c"
  by (simp add: counter_row_def)

lemma counter_row_tuple:
  "counter_row a e s t c \<Longrightarrow> counter_row a' e s' t' c \<Longrightarrow> (a, s, t) = (a', s', t')"
  by (simp add: counter_row_def)

lemma advance_counter_highest:
  assumes "advance_counter a s t n b = Inr b'"
  shows "highest_counter b' = (highest_counter b)((a, s, t) := unat n)"
proof
  fix k :: counter_key
  obtain a' s' t' where k: "k = (a', s', t')" by (metis prod_cases3)
  let ?env = "kc_environment_identifier (kb_config b)"
  show "highest_counter b' k = ((highest_counter b)((a, s, t) := unat n)) k"
  proof (cases "find (counter_row a ?env s t) (kb_counters b)")
    case None
    then show ?thesis
      using assms by (auto simp: advance_counter_def highest_counter_def k find_snoc counter_row_def
          split: if_splits option.splits)
  next
    case (Some c)
    then have b': "b' = b\<lparr>kb_counters := update_first (counter_row a ?env s t)
        (\<lambda>c. c\<lparr>ce_highest_accepted_counter := n\<rparr>) (kb_counters b)\<rparr>"
      using assms by (auto simp: advance_counter_def split: if_splits)
    show ?thesis
    proof (cases "(a', s', t') = (a, s, t)")
      case True
      then show ?thesis using Some by (simp add: b' highest_counter_def k find_update_first_same)
    next
      case False
      have "kb_counters b' = update_first (counter_row a ?env s t)
          (\<lambda>c. c\<lparr>ce_highest_accepted_counter := n\<rparr>) (kb_counters b)"
        by (simp add: b')
      moreover have "find (counter_row a' ?env s' t') \<dots> = find (counter_row a' ?env s' t') (kb_counters b)"
        using False by (intro find_update_first_other) (auto dest: counter_row_tuple)
      ultimately have "find (counter_row a' ?env s' t') (kb_counters b') = find (counter_row a' ?env s' t') (kb_counters b)"
        by simp
      moreover have "k \<noteq> (a, s, t)" using False by (simp add: k)
      ultimately show ?thesis by (auto simp: b' highest_counter_def k)
    qed
  qed
qed

lemma body_ok_counters:
  "body_ok b \<Longrightarrow> counters_ok (kc_environment_identifier (kb_config b)) cs \<Longrightarrow> body_ok (b\<lparr>kb_counters := cs\<rparr>)"
  by (simp add: body_ok_def)

lemma advance_counter_ok:
  assumes "body_ok b" "length t \<le> 4096" "advance_counter a s t n b = Inr b'"
  shows "body_ok b'"
proof -
  let ?env = "kc_environment_identifier (kb_config b)"
  have cs: "counters_ok ?env (kb_counters b)" using assms(1) by (simp add: body_ok_def)
  have "counters_ok ?env (kb_counters b')"
  proof (cases "find (counter_row a ?env s t) (kb_counters b)")
    case None
    then have b': "kb_counters b' = kb_counters b @ [\<lparr>ce_authority = a, ce_environment_identifier = ?env,
        ce_scope_class = s, ce_scope_target = t, ce_highest_accepted_counter = n\<rparr>]"
      and len: "length (kb_counters b) < 65536"
      using assms(3) by (auto simp: advance_counter_def MAX_COUNTER_ENTRIES_def split: if_splits)
    have "(a, s, t) \<notin> ce_tuple ` set (kb_counters b)"
      using None cs by (auto simp: find_None_iff counter_row_def ce_tuple_def counters_ok_def)
    then show ?thesis
      using cs len assms(2) by (auto simp: b' counters_ok_def ce_tuple_def)
  next
    case (Some c)
    then have b': "kb_counters b' = update_first (counter_row a ?env s t)
        (\<lambda>c. c\<lparr>ce_highest_accepted_counter := n\<rparr>) (kb_counters b)"
      using assms(3) by (auto simp: advance_counter_def split: if_splits)
    have "map ce_tuple (kb_counters b') = map ce_tuple (kb_counters b)"
      unfolding b' by (rule map_update_first) (simp add: ce_tuple_def)
    moreover have "set (kb_counters b') \<subseteq> set (kb_counters b)
        \<union> (\<lambda>c. c\<lparr>ce_highest_accepted_counter := n\<rparr>) ` set (kb_counters b)"
      unfolding b' by (rule set_update_first)
    ultimately show ?thesis
      using cs unfolding counters_ok_def by (fastforce simp: b')
  qed
  moreover have "b' = b\<lparr>kb_counters := kb_counters b'\<rparr>"
    using assms(3) by (auto simp: advance_counter_def Let_def split: option.splits if_splits)
  ultimately show ?thesis
    using body_ok_counters [OF assms(1)] by metis
qed

interpretation keystore_counters: counter_table highest_counter advance_key body_ok
  "\<lambda>k. length (snd (snd k)) \<le> 4096"
  by unfold_locales (auto simp: advance_key_def dest: advance_counter_ok advance_counter_highest)

section \<open>The other operations keep the invariant\<close>

lemma advance_commit_epoch_Inr:
  "advance_commit_epoch s b = Inr b' \<longleftrightarrow>
     unat (kb_freshness_epoch b) + 1 < 2 ^ 64 \<and> (s \<longrightarrow> unat (kb_structural_version b) + 1 < 2 ^ 64)
     \<and> b' = b\<lparr>kb_freshness_epoch := kb_freshness_epoch b + 1,
              kb_structural_version := (if s then kb_structural_version b + 1 else kb_structural_version b)\<rparr>"
  by (auto simp: advance_commit_epoch_def res_simps checked_add_u64_def split: if_splits)

lemma plus_one_not_zero: "unat (a :: u64) + 1 < 2 ^ 64 \<Longrightarrow> a + 1 \<noteq> 0"
  by (auto simp: word_unat_eq_iff unat_word_ariths)

lemma advance_commit_epoch_ok: "body_ok b \<Longrightarrow> advance_commit_epoch s b = Inr b' \<Longrightarrow> body_ok b'"
  using plus_one_not_zero [of "kb_structural_version b"]
  by (auto simp: advance_commit_epoch_Inr body_ok_def)

lemma advance_treasury_config_version_ok:
  "body_ok b \<Longrightarrow> advance_treasury_config_version b = Inr b' \<Longrightarrow> body_ok b'"
  by (auto simp: advance_treasury_config_version_def res_simps body_ok_def config_ok_def)

lemma seed_marks_forward_ok: "seed_marks_forward m e b = Inr b' \<Longrightarrow> body_ok b'"
  by (auto simp: seed_marks_forward_def Let_def res_simps validate_iff)

section \<open>The audit ring\<close>

lemma unat_ucast_capacity [simp]: "unat (ucast (c :: u32) :: u64) = unat c"
  by (simp add: unat_ucast_up)

text \<open>Strictly ascending sequence numbers leave room below the next one.\<close>

lemma sorted_first_bound:
  "sorted_wrt (<) (map unat (xs @ [x :: u64])) \<Longrightarrow> xs \<noteq> [] \<Longrightarrow> unat (hd xs) + length xs \<le> unat x"
proof (induction xs)
  case (Cons y ys)
  show ?case
  proof (cases ys)
    case Nil
    then show ?thesis using Cons.prems by simp
  next
    case (Cons z zs)
    then show ?thesis using Cons.IH Cons.prems by auto
  qed
qed simp

lemma sorted_unat: "sorted_wrt (<) (map unat xs) \<longleftrightarrow> sorted_wrt (<) (xs :: u64 list)"
proof -
  have "(\<lambda>x y :: u64. unat x < unat y) = (<)" by (simp add: fun_eq_iff word_less_nat_alt)
  then show ?thesis by (simp add: sorted_wrt_map)
qed

lemma record_audit_cases:
  assumes "audit_ok (kb_audit b)" "record_audit app b = Inr b'"
  obtains r where "ar_seq r = au_next_seq (kb_audit b)"
    "unat (au_next_seq (kb_audit b)) + 1 < 2 ^ 64"
    "length (ar_scope_target r) = length (aa_scope_target app)"
    "length (ar_request_id r) = length (aa_request_id app)"
    "ar_authority r = aa_authority app"
    "b' = b\<lparr>kb_audit := (kb_audit b)\<lparr>
        au_records := (if length (au_records (kb_audit b)) < unat (au_capacity (kb_audit b))
          then au_records (kb_audit b) else tl (au_records (kb_audit b))) @ [r],
        au_next_seq := au_next_seq (kb_audit b) + 1\<rparr>\<rparr>"
    "length (au_records (kb_audit b)) < unat (au_capacity (kb_audit b))
      \<or> unat (au_next_seq (kb_audit b)) - 1 - unat (au_last_exported_seq (kb_audit b))
          < unat (au_capacity (kb_audit b))"
    "au_capacity (kb_audit b) \<noteq> 0"
proof -
  let ?a = "kb_audit b"
  have "unat (au_capacity ?a) \<le> 65536" using assms(1) by (simp add: audit_ok_def word_le_nat_alt)
  then have len: "unat (of_nat (length (au_records ?a)) :: u64) = length (au_records ?a)"
    using assms(1) by (intro unat_of_nat_u64) (simp add: audit_ok_def)
  have c0: "(ucast (au_capacity ?a) :: u64) = 0 \<longleftrightarrow> au_capacity ?a = 0"
    by (simp add: word_unat_eq_iff)
  show ?thesis
    using assms(2)
    by (intro that [of "\<lparr>ar_seq = au_next_seq ?a, ar_op = aa_op app,
                 ar_authority = aa_authority app, ar_counter = aa_counter app,
                 ar_config_version = aa_config_version app,
                 ar_scope_class = aa_scope_class app, ar_scope_target = aa_scope_target app,
                 ar_request_id = aa_request_id app\<rparr>"])
      (auto simp: record_audit_def Let_def res_simps checked_add_u64_def word_less_nat_alt
        word_le_nat_alt len c0 not_le split: if_splits)
qed

lemma record_audit_ok:
  assumes "body_ok b" "record_audit app b = Inr b'"
    and "length (aa_scope_target app) \<le> 64" "length (aa_request_id app) \<le> 64"
  shows "body_ok b'"
proof -
  let ?a = "kb_audit b"
  have a: "audit_ok ?a" using assms(1) by (simp add: body_ok_def)
  obtain r where r: "ar_seq r = au_next_seq ?a" "unat (au_next_seq ?a) + 1 < 2 ^ 64"
    "length (ar_scope_target r) = length (aa_scope_target app)"
    "length (ar_request_id r) = length (aa_request_id app)"
    and b': "b' = b\<lparr>kb_audit := ?a\<lparr>
        au_records := (if length (au_records ?a) < unat (au_capacity ?a)
          then au_records ?a else tl (au_records ?a)) @ [r],
        au_next_seq := au_next_seq ?a + 1\<rparr>\<rparr>"
    and cap: "au_capacity ?a \<noteq> 0"
    by (rule record_audit_cases [OF a assms(2)]) blast
  define kept where "kept = (if length (au_records ?a) < unat (au_capacity ?a)
          then au_records ?a else tl (au_records ?a))"
  have next1: "unat (au_next_seq ?a + 1) = unat (au_next_seq ?a) + 1"
    using r(2) by (simp add: unat_word_ariths)
  have sub: "set kept \<subseteq> set (au_records ?a)"
    unfolding kept_def by (cases "au_records ?a") auto
  have len: "length kept < unat (au_capacity ?a)"
    using a cap by (auto simp: kept_def audit_ok_def unat_gt_0)
  have sorted: "sorted_wrt (<) (map ar_seq (kept @ [r]) @ [au_next_seq ?a + 1])"
  proof -
    have "sorted_wrt (<) (map ar_seq (au_records ?a) @ [au_next_seq ?a])"
      using a by (simp add: audit_ok_def)
    then have "sorted_wrt (<) (map ar_seq kept @ [au_next_seq ?a])"
      unfolding kept_def by (cases "au_records ?a") auto
    then show ?thesis
      using r(1) next1 by (auto simp: sorted_wrt_append word_less_nat_alt)
  qed
  have "audit_ok (kb_audit b')"
    using a sub len sorted r(3,4) assms(3,4) next1
    unfolding audit_ok_def b' by (auto simp flip: kept_def simp: word_less_nat_alt)
  then show ?thesis using assms(1) by (simp add: b' body_ok_def)
qed

text \<open>Eviction only ever drops a record that was exported.\<close>

lemma record_audit_keeps_unexported:
  assumes "audit_ok (kb_audit b)" "record_audit app b = Inr b'"
    and "r \<in> set (au_records (kb_audit b))" "au_last_exported_seq (kb_audit b) < ar_seq r"
  shows "r \<in> set (au_records (kb_audit b'))"
proof -
  let ?a = "kb_audit b"
  obtain new where b': "b' = b\<lparr>kb_audit := ?a\<lparr>
        au_records := (if length (au_records ?a) < unat (au_capacity ?a)
          then au_records ?a else tl (au_records ?a)) @ [new],
        au_next_seq := au_next_seq ?a + 1\<rparr>\<rparr>"
    and room: "length (au_records ?a) < unat (au_capacity ?a)
      \<or> unat (au_next_seq ?a) - 1 - unat (au_last_exported_seq ?a) < unat (au_capacity ?a)"
    by (rule record_audit_cases [OF assms(1,2)]) blast
  show ?thesis
  proof (cases "length (au_records ?a) < unat (au_capacity ?a)")
    case True
    then show ?thesis using assms(3) by (simp add: b')
  next
    case False
    have ne: "au_records ?a \<noteq> []" using assms(3) by auto
    have full: "length (au_records ?a) = unat (au_capacity ?a)"
      using False assms(1) by (simp add: audit_ok_def)
    have "sorted_wrt (<) (map unat (map ar_seq (au_records ?a) @ [au_next_seq ?a]))"
      using assms(1) unfolding sorted_unat by (simp add: audit_ok_def)
    then have "unat (ar_seq (hd (au_records ?a))) + length (au_records ?a) \<le> unat (au_next_seq ?a)"
      using sorted_first_bound [of "map ar_seq (au_records ?a)" "au_next_seq ?a"] ne by (simp add: hd_map)
    moreover have "0 < unat (au_capacity ?a)" using full ne by (metis length_greater_0_conv)
    ultimately have "unat (ar_seq (hd (au_records ?a))) \<le> unat (au_last_exported_seq ?a)"
      using room False full by linarith
    then have "r \<noteq> hd (au_records ?a)"
      using assms(4) by (auto simp: word_less_nat_alt)
    then have "r \<in> set (tl (au_records ?a))"
      using assms(3) ne by (cases "au_records ?a") auto
    then show ?thesis using False by (simp add: b')
  qed
qed

lemma advance_export_high_water_ok:
  assumes "body_ok b" "advance_export_high_water b = Inr b'"
  shows "body_ok b'"
proof -
  have "0 < unat (au_next_seq (kb_audit b))"
    using assms(1) by (auto simp: body_ok_def audit_ok_def word_less_nat_alt)
  then have "saturating_sub_u64 (au_next_seq (kb_audit b)) 1 < au_next_seq (kb_audit b)"
    by (simp add: word_less_nat_alt)
  then show ?thesis
    using assms by (auto simp: advance_export_high_water_def Let_def body_ok_def audit_ok_def split: if_splits)
qed

section \<open>Properties\<close>

text \<open>A small keystore body, the concrete input of the witnesses below and in later theories.\<close>

definition sample_config :: keystore_config where
  "sample_config = \<lparr>kc_twod_chain_id = 11565, kc_environment_identifier = ascii ''lab'',
     kc_admin_authority_pk = replicate 32 0xa1, kc_recovery_authority_pk = replicate 32 0xb2,
     kc_backup_recovery_wrapping_pubkey = replicate 1568 0, kc_monotonic_treasury_config_version = 1,
     kc_authority_epoch = 0, kc_anchor_root = replicate 32 0xc3,
     kc_enclave_scope_id = replicate 32 0xe1, kc_fleet_scope_id = replicate 32 0xf1\<rparr>"

definition sample_record :: audit_record where
  "sample_record = \<lparr>ar_seq = 4, ar_op = 1, ar_authority = replicate 32 0xa1, ar_counter = 1,
     ar_config_version = 1, ar_scope_class = 0, ar_scope_target = [0x67], ar_request_id = [1]\<rparr>"

definition sample_body :: keystore_body where
  "sample_body = \<lparr>kb_config = sample_config, kb_entries = [],
     kb_counters = [\<lparr>ce_authority = replicate 32 0xa1, ce_environment_identifier = ascii ''lab'',
        ce_scope_class = 0, ce_scope_target = [0x67], ce_highest_accepted_counter = 4\<rparr>],
     kb_faucet = sample_faucet,
     kb_audit = \<lparr>au_records = [sample_record], au_capacity = 1, au_last_exported_seq = 4, au_next_seq = 5\<rparr>,
     kb_freshness_epoch = 6, kb_structural_version = 3, kb_strict_recovery_counter = 0\<rparr>"

lemma sample_env: "is_valid_environment_identifier (ascii ''lab'')"
  by (simp add: is_valid_environment_identifier_def ascii_def env_char_def of_char_def)

lemma sample_config_ok: "config_ok sample_config"
  by (simp add: config_ok_def sample_config_def zero32_def sample_env)

lemma sample_env_id [simp]: "kc_environment_identifier sample_config = ascii ''lab''"
  by (simp add: sample_config_def)

lemma sample_body_simps:
  "kb_config sample_body = sample_config" "kb_audit sample_body =
     \<lparr>au_records = [sample_record], au_capacity = 1, au_last_exported_seq = 4, au_next_seq = 5\<rparr>"
  by (simp_all add: sample_body_def)

lemma sample_body_ok: "body_ok sample_body"
  using sample_config_ok
  by (simp add: body_ok_def sample_body_def counters_ok_def audit_ok_def sample_record_def)

lemma sample_body_typed: "body_typed sample_body"
  by (simp add: body_typed_def sample_body_def sample_config_def sample_faucet_typed sample_record_def)

text \<open>The loops of \<open>validate\<close>, with their sets of seen handles and tuples and their pairwise
  comparison of sequence numbers, accept exactly the bodies that satisfy the declarative
  invariant: a nonzero structural version, a well-formed environment and scope identities, unique
  key handles and counter tuples within the caps, and a strictly ascending audit ring.\<close>

theorem validate_exact: "validate b = Inr () \<longleftrightarrow> body_ok b"
  by (rule validate_iff)

text \<open>C28: Every operation that changes the sealed body keeps the invariant, so a body that was
  valid when it was unsealed is still valid when it is sealed again.\<close>

theorem operations_keep_invariant:
  assumes "body_ok b"
  shows "(length t \<le> 4096 \<and> advance_counter a s t n b = Inr b' \<longrightarrow> body_ok b')
    \<and> (length (aa_scope_target app) \<le> 64 \<and> length (aa_request_id app) \<le> 64
        \<and> record_audit app b = Inr b' \<longrightarrow> body_ok b')
    \<and> (advance_export_high_water b = Inr b' \<longrightarrow> body_ok b')
    \<and> (advance_commit_epoch bump b = Inr b' \<longrightarrow> body_ok b')
    \<and> (advance_treasury_config_version b = Inr b' \<longrightarrow> body_ok b')
    \<and> (seed_marks_forward m e b = Inr b' \<longrightarrow> body_ok b')"
  using advance_counter_ok [OF assms] record_audit_ok [OF assms] advance_export_high_water_ok [OF assms]
    advance_commit_epoch_ok [OF assms] advance_treasury_config_version_ok [OF assms]
    seed_marks_forward_ok by blast

lemma operations_keep_invariant_witness:
  "\<exists>b'. advance_commit_epoch True sample_body = Inr b' \<and> kb_structural_version b' = 4 \<and> body_ok b'"
  using operations_keep_invariant [OF sample_body_ok, of _ _ _ _ _ _ True]
  by (auto simp: advance_commit_epoch_Inr) (simp_all add: sample_body_def)

text \<open>The bounded audit ring never overwrites history that was not exported: whenever an append
  succeeds on a valid ring, every record past the export high-water mark is still present.\<close>

theorem audit_append_keeps_unexported:
  assumes "audit_ok (kb_audit b)" "record_audit app b = Inr b'"
    and "r \<in> set (au_records (kb_audit b))" "au_last_exported_seq (kb_audit b) < ar_seq r"
  shows "r \<in> set (au_records (kb_audit b'))"
  by (rule record_audit_keeps_unexported [OF assms])

definition sample_append :: audit_append where
  "sample_append = \<lparr>aa_op = 1, aa_authority = replicate 32 0xa1, aa_counter = 5, aa_config_version = 1,
     aa_scope_class = 0, aa_scope_target = [0x67], aa_request_id = [2]\<rparr>"

lemma audit_append_keeps_unexported_witness:
  "(\<exists>b'. record_audit sample_append (sample_body\<lparr>kb_audit := (kb_audit sample_body)\<lparr>
        au_capacity := 2, au_last_exported_seq := 3\<rparr>\<rparr>) = Inr b'
      \<and> sample_record \<in> set (au_records (kb_audit b')))
   \<and> record_audit sample_append (sample_body\<lparr>kb_audit := (kb_audit sample_body)\<lparr>
        au_last_exported_seq := 3\<rparr>\<rparr>) = Inl AuditBackpressure"
proof -
  let ?b = "sample_body\<lparr>kb_audit := (kb_audit sample_body)\<lparr>au_capacity := 2, au_last_exported_seq := 3\<rparr>\<rparr>"
  have "\<exists>b'. record_audit sample_append ?b = Inr b'"
    by (simp add: record_audit_def sample_body_simps Let_def checked_add_u64_def saturating_sub_u64_def
        word_le_nat_alt)
  then obtain b' where b': "record_audit sample_append ?b = Inr b'" by blast
  have "audit_ok (kb_audit ?b)" "sample_record \<in> set (au_records (kb_audit ?b))"
    "au_last_exported_seq (kb_audit ?b) < ar_seq sample_record"
    by (simp_all add: sample_body_simps audit_ok_def sample_record_def)
  from audit_append_keeps_unexported [OF this(1) b' this(2,3)] b'
  show ?thesis
    by (simp add: record_audit_def sample_body_simps Let_def saturating_sub_u64_def word_le_nat_alt
        word_less_nat_alt)
qed

end
