(* ===== verification/Marks.thy ===== *)
theory Marks
  imports Keystore_Invariant
begin

text \<open>
  The anti-rollback marks of a body: \<open>encode_marks_payload\<close> is the canonical encoding of the
  four marks surfaces, so the strict decoder inverts it on every validated body, and seeding a
  body with decoded marks makes it encode to exactly the payload the marks came from.
\<close>

definition row_of :: "counter_entry \<Rightarrow> decoded_row" where
  "row_of c = \<lparr>dr_authority = ce_authority c, dr_scope_class = ce_scope_class c,
     dr_scope_target = ce_scope_target c, dr_highest_accepted_counter = ce_highest_accepted_counter c\<rparr>"

definition marks_of :: "keystore_body \<Rightarrow> decoded_marks" where
  "marks_of b = \<lparr>dm_rows = map row_of (sort_key ce_sort_key (kb_counters b)),
     dm_cumulative_native_spend = fs_cumulative_native_spend (kb_faucet b),
     dm_lifetime_spend = fs_lifetime_spend (kb_faucet b),
     dm_strict_recovery_counter = kb_strict_recovery_counter b\<rparr>"

lemma put_marks_row_of: "put_marks_row = (\<lambda>c. enc_row (row_of c))"
  by (simp add: fun_eq_iff put_marks_row_def enc_row_def row_of_def)

lemma encode_marks_payload_eq: "encode_marks_payload b = enc_marks (marks_of b)"
  by (simp add: encode_marks_payload_def enc_marks_def marks_of_def Let_def put_marks_row_of comp_def)

lemma dr_key_row_of [simp]: "dr_key (row_of c) = ce_tuple c"
  by (simp add: dr_key_def row_of_def ce_tuple_def)

lemma ce_sort_key_le:
  "ce_sort_key c \<le> ce_sort_key d \<Longrightarrow> ce_environment_identifier c = ce_environment_identifier d
    \<Longrightarrow> ce_tuple c \<le> ce_tuple d"
  by (auto simp: ce_sort_key_def ce_tuple_def less_eq_prod_simp less_prod_simp)

lemma sorted_rows:
  assumes "counters_ok env cs"
  shows "sorted_wrt (<) (map ce_tuple (sort_key ce_sort_key cs))"
proof -
  let ?rows = "sort_key ce_sort_key cs"
  have "sorted_wrt (\<lambda>c d. ce_sort_key c \<le> ce_sort_key d) ?rows"
    using sorted_sort_key [of ce_sort_key cs] by (simp add: sorted_wrt_map)
  moreover have "ce_tuple c \<le> ce_tuple d"
    if "c \<in> set ?rows" "d \<in> set ?rows" "ce_sort_key c \<le> ce_sort_key d" for c d
    using ce_sort_key_le [OF that(3)] that(1,2) assms by (simp add: counters_ok_def)
  ultimately have "sorted_wrt (\<lambda>c d. ce_tuple c \<le> ce_tuple d) ?rows"
    by (rule sorted_wrt_mono_rel [rotated]) blast
  then have "sorted (map ce_tuple ?rows)" by (simp add: sorted_wrt_map)
  moreover have "distinct (map ce_tuple ?rows)"
    using assms by (simp add: counters_ok_def distinct_map)
  ultimately show ?thesis by (simp add: strict_sorted_iff)
qed

lemma marks_of_ok:
  assumes "body_ok b" "body_typed b"
  shows "marks_ok MAX_COUNTER_ENTRIES (marks_of b)"
proof -
  have c: "counters_ok (kc_environment_identifier (kb_config b)) (kb_counters b)"
    using assms(1) by (simp add: body_ok_def)
  have "sorted_wrt (<) (map dr_key (dm_rows (marks_of b)))"
    using sorted_rows [OF c] by (simp add: marks_of_def comp_def)
  then show ?thesis
    using c assms(2)
    by (auto simp: marks_ok_def MAX_COUNTER_ENTRIES_def counters_ok_def body_typed_def faucet_typed_def
        marks_of_def row_ok_def row_of_def list_all_iff is_u256_def)
qed

lemma marks_roundtrip:
  assumes "body_ok b" "body_typed b"
  shows "strict_decode_marks_payload (encode_marks_payload b) MAX_COUNTER_ENTRIES = Some (marks_of b)"
  unfolding strict_decode_marks_payload_iff using marks_of_ok [OF assms] encode_marks_payload_eq by simp

text \<open>Two validated bodies with the same payload agree on every marks surface.\<close>

lemma encode_marks_payload_inj:
  assumes "body_ok a" "body_typed a" "body_ok b" "body_typed b"
    and "encode_marks_payload a = encode_marks_payload b"
  shows "marks_of a = marks_of b"
  using marks_roundtrip [OF assms(1,2)] marks_roundtrip [OF assms(3,4)] assms(5) by simp

section \<open>Seeding\<close>

lemma sort_key_id: "sorted (map f xs) \<Longrightarrow> sort_key f xs = xs"
  by (induction xs) (auto intro: insort_is_Cons)

lemma seed_marks_forward_marks:
  assumes "marks_ok n m" "seed_marks_forward m e b = Inr b'"
  shows "marks_of b' = m" and "encode_marks_payload b' = enc_marks m"
proof -
  let ?env = "kc_environment_identifier (kb_config b)"
  let ?row = "\<lambda>r. \<lparr>ce_authority = dr_authority r, ce_environment_identifier = ?env,
      ce_scope_class = dr_scope_class r, ce_scope_target = dr_scope_target r,
      ce_highest_accepted_counter = dr_highest_accepted_counter r\<rparr>"
  have b': "kb_counters b' = map ?row (dm_rows m)"
    "fs_cumulative_native_spend (kb_faucet b') = dm_cumulative_native_spend m"
    "fs_lifetime_spend (kb_faucet b') = dm_lifetime_spend m"
    "kb_strict_recovery_counter b' = dm_strict_recovery_counter m"
    using assms(2) by (auto simp: seed_marks_forward_def Let_def res_simps)
  have "sorted_wrt (\<lambda>r s. dr_key r < dr_key s) (dm_rows m)"
    using assms(1) by (simp add: marks_ok_def sorted_wrt_map)
  then have "sorted_wrt (\<lambda>r s. ce_sort_key (?row r) \<le> ce_sort_key (?row s)) (dm_rows m)"
    by (rule sorted_wrt_mono_rel [rotated])
      (auto simp: dr_key_def ce_sort_key_def less_prod_simp less_eq_prod_simp)
  then have "sort_key ce_sort_key (kb_counters b') = kb_counters b'"
    by (intro sort_key_id) (simp add: b' sorted_wrt_map)
  moreover have "row_of (?row r) = r" for r
    by (cases r) (simp add: row_of_def)
  ultimately show m: "marks_of b' = m"
    by (cases m) (simp add: marks_of_def b' comp_def)
  show "encode_marks_payload b' = enc_marks m"
    by (simp add: encode_marks_payload_eq m)
qed

text \<open>Seeding changes the four marks surfaces and the epoch, nothing else.\<close>

lemma seed_marks_forward_frame:
  assumes "seed_marks_forward m e b = Inr b'"
  shows "kb_config b' = kb_config b" "kb_entries b' = kb_entries b" "kb_audit b' = kb_audit b"
    "kb_structural_version b' = kb_structural_version b" "kb_freshness_epoch b' = e"
    "kb_faucet b' = (kb_faucet b)\<lparr>fs_cumulative_native_spend := dm_cumulative_native_spend m,
       fs_lifetime_spend := dm_lifetime_spend m\<rparr>"
    "kb_strict_recovery_counter b' = dm_strict_recovery_counter m"
  using assms by (auto simp: seed_marks_forward_def Let_def res_simps)

lemma seed_marks_forward_typed:
  assumes "marks_ok n m" "body_typed b" "seed_marks_forward m e b = Inr b'"
  shows "body_typed b'"
  using assms
  by (auto simp: seed_marks_forward_def Let_def res_simps body_typed_def marks_ok_def faucet_typed_def
      is_u256_def row_ok_def list_all_iff)

section \<open>Properties\<close>

text \<open>The encode/decode inverse of the anti-rollback marks: for every body that \<open>validate\<close>
  accepts, the strict decoder reads \<open>encode_marks_payload\<close> back to exactly the body's counter rows
  (sorted), spends and recovery counter, so the payload determines every marks surface.\<close>

theorem marks_payload_roundtrip:
  assumes "validate b = Inr ()" "body_typed b"
  shows "strict_decode_marks_payload (encode_marks_payload b) MAX_COUNTER_ENTRIES = Some (marks_of b)"
  using marks_roundtrip assms by (simp add: validate_iff)

lemma marks_payload_roundtrip_witness:
  "strict_decode_marks_payload (encode_marks_payload sample_body) MAX_COUNTER_ENTRIES
     = Some (marks_of sample_body)"
  by (rule marks_payload_roundtrip) (simp_all add: validate_iff sample_body_ok sample_body_typed)

text \<open>Seeding a body with decoded marks is exact: the seeded body is valid, encodes to precisely
  the canonical payload of those marks, carries the given epoch, and keeps its configuration,
  keys, audit ring, structural version and faucet policy.\<close>

theorem seeding_is_exact:
  assumes "strict_decode_marks_payload p n = Some m" "seed_marks_forward m e b = Inr b'"
  shows "body_ok b' \<and> encode_marks_payload b' = p \<and> kb_freshness_epoch b' = e
    \<and> kb_config b' = kb_config b \<and> kb_entries b' = kb_entries b \<and> kb_audit b' = kb_audit b
    \<and> kb_structural_version b' = kb_structural_version b
    \<and> kb_faucet b' = (kb_faucet b)\<lparr>fs_cumulative_native_spend := dm_cumulative_native_spend m,
        fs_lifetime_spend := dm_lifetime_spend m\<rparr>"
  using assms seed_marks_forward_ok [OF assms(2)] seed_marks_forward_marks [OF _ assms(2)]
    seed_marks_forward_frame [OF assms(2)]
  by (auto simp: strict_decode_marks_payload_iff)

definition sample_marks :: decoded_marks where
  "sample_marks = (marks_of sample_body)\<lparr>dm_cumulative_native_spend := u256_from_u64 150,
     dm_lifetime_spend := u256_from_u64 450\<rparr>"

lemma sample_marks_ok: "marks_ok MAX_COUNTER_ENTRIES sample_marks"
  using marks_of_ok [OF sample_body_ok sample_body_typed] is_u256_from_u64 [unfolded is_u256_def]
  by (simp add: sample_marks_def marks_ok_def)

lemma sample_seed: "\<exists>b'. seed_marks_forward sample_marks 7 sample_body = Inr b'"
  using sample_config_ok sample_body_ok
  by (simp add: seed_marks_forward_def Let_def res_simps validate_iff sample_marks_def marks_of_def
      sample_body_def body_ok_def counters_ok_def row_of_def ce_tuple_def)

lemma seeding_is_exact_witness:
  "\<exists>b'. seed_marks_forward sample_marks 7 sample_body = Inr b'
     \<and> encode_marks_payload b' = enc_marks sample_marks \<and> kb_structural_version b' = 3"
proof -
  obtain b' where b': "seed_marks_forward sample_marks 7 sample_body = Inr b'"
    using sample_seed by blast
  have "strict_decode_marks_payload (enc_marks sample_marks) MAX_COUNTER_ENTRIES = Some sample_marks"
    using sample_marks_ok by (simp add: strict_decode_marks_payload_iff)
  from seeding_is_exact [OF this b'] b' show ?thesis by (auto simp: sample_body_def)
qed

end
