(* ===== verification/Protocol.thy ===== *)
theory Protocol
  imports Prelude
begin

text \<open>
  Model of the framing layer of \<open>lib.rs\<close>: the protocol errors, the message types, the
  length-prefixed frame codec and the reader that assembles one frame from a byte stream. A stream
  is the list of what successive \<open>read\<close> calls return. The lemmas show that the decoder accepts
  exactly the encoder's frames and that a frame is reassembled from any chunking of it, with
  interruptions, leaving the bytes that follow it unread.
\<close>

section \<open>Types\<close>

datatype io_kind =
    UnexpectedEof | InvalidData | TimedOut | WouldBlock | Interrupted | BrokenPipe | ConnectionReset
  | AddrNotAvailable | OtherIo

datatype protocol_error =
    MessageTooLarge u32
  | InvalidVersion u8 u8
  | CborDecode
  | CborEncode
  | Io io_kind
  | UnknownMessageType u8
  | InvalidTicket string
  | RecentChainProofValidation string
  | WireProtocol string
  | PqSigningUnavailable string
  | PqSignatureInvalid string

datatype message_type =
    GetMeasurement | SignAuthorizationTicket | ArmForProduction | GetStatus | AgentGateway
  | AgentBootRelay | AgentAnchorMarksRelay | AgentAnchorCommitRelay | SignBlockRoot

definition PROTOCOL_VERSION :: u8 where "PROTOCOL_VERSION = 1"
definition MAX_MESSAGE_SIZE :: nat where "MAX_MESSAGE_SIZE = 1 * 1024 * 1024"

fun message_type_byte :: "message_type \<Rightarrow> u8" where
  "message_type_byte GetMeasurement = 0x01"
| "message_type_byte SignAuthorizationTicket = 0x10"
| "message_type_byte ArmForProduction = 0x20"
| "message_type_byte GetStatus = 0x30"
| "message_type_byte AgentGateway = 0x40"
| "message_type_byte AgentBootRelay = 0x41"
| "message_type_byte AgentAnchorMarksRelay = 0x44"
| "message_type_byte AgentAnchorCommitRelay = 0x45"
| "message_type_byte SignBlockRoot = 0x50"

record framed_message =
  fm_version :: u8
  fm_msg_type :: message_type
  fm_payload :: bytes

section \<open>The frame codec\<close>

definition encode_message_raw :: "u8 \<Rightarrow> bytes \<Rightarrow> protocol_error + bytes" where
  "encode_message_raw type_byte payload =
     (let total_len = 2 + length payload in
      if total_len > MAX_MESSAGE_SIZE then Inl (MessageTooLarge (of_nat total_len))
      else Inr (be32 (of_nat total_len) @ [PROTOCOL_VERSION] @ [type_byte] @ payload))"

definition encode_message :: "message_type \<Rightarrow> bytes \<Rightarrow> protocol_error + bytes" where
  "encode_message msg_type payload = encode_message_raw (message_type_byte msg_type) payload"

text \<open>The \<open>match\<close> on the type byte.\<close>

definition message_type_of :: "u8 \<Rightarrow> message_type option" where
  "message_type_of b =
     (if b = 0x01 then Some GetMeasurement
      else if b = 0x10 then Some SignAuthorizationTicket
      else if b = 0x20 then Some ArmForProduction
      else if b = 0x30 then Some GetStatus
      else if b = 0x40 then Some AgentGateway
      else if b = 0x41 then Some AgentBootRelay
      else if b = 0x44 then Some AgentAnchorMarksRelay
      else if b = 0x45 then Some AgentAnchorCommitRelay
      else if b = 0x50 then Some SignBlockRoot
      else None)"

definition decode_message :: "bytes \<Rightarrow> protocol_error + framed_message" where
  "decode_message data =
     (if length data < 6 then Inl (Io UnexpectedEof)
      else
        (let total_len = be_val (take 4 data) in
         if total_len > MAX_MESSAGE_SIZE then Inl (MessageTooLarge (of_nat total_len))
         else if length data \<noteq> 4 + total_len then Inl (Io InvalidData)
         else if data ! 4 \<noteq> PROTOCOL_VERSION then Inl (InvalidVersion (data ! 4) PROTOCOL_VERSION)
         else res_bind (ok_or (UnknownMessageType (data ! 5)) (message_type_of (data ! 5))) (\<lambda>msg_type.
           Inr \<lparr>fm_version = data ! 4, fm_msg_type = msg_type, fm_payload = drop 6 data\<rparr>)))"

section \<open>Reading a frame from a stream\<close>

text \<open>
  What one \<open>read\<close> call returns: up to the requested number of bytes (an empty chunk is end of
  stream) or an error; and whether the idle deadline, if there is one, has passed when the clock is
  read before and after the call. The clock is monotonic, so its second and third readings after
  the call agree.
\<close>

datatype read_outcome = Chunk bytes | ReadErr io_kind

record read_event =
  re_expired_before :: bool
  re_outcome :: read_outcome
  re_expired_after :: bool

fun read_exact_loop :: "bool \<Rightarrow> nat \<Rightarrow> bytes \<Rightarrow> read_event list
    \<Rightarrow> (protocol_error + bytes) \<times> read_event list" where
  "read_exact_loop has_deadline n buf [] =
     (if length buf < n then (Inl (Io UnexpectedEof), []) else (Inr buf, []))"
| "read_exact_loop has_deadline n buf (e # es) =
     (if \<not> length buf < n then (Inr buf, e # es)
      else if has_deadline \<and> re_expired_before e then (Inl (Io TimedOut), e # es)
      else (case re_outcome e of
          Chunk bs \<Rightarrow>
            if bs = [] then (Inl (Io UnexpectedEof), es)
            else
              (let room = n - length buf in
               if length bs \<le> room then read_exact_loop has_deadline n (buf @ bs) es
               else (Inr (buf @ take room bs), e\<lparr>re_outcome := Chunk (drop room bs)\<rparr> # es))
        | ReadErr k \<Rightarrow>
            if k = Interrupted then read_exact_loop has_deadline n buf es
            else if (k = TimedOut \<or> k = WouldBlock) \<and> has_deadline \<and> \<not> re_expired_after e
            then read_exact_loop has_deadline n buf es
            else if (k = TimedOut \<or> k = WouldBlock) \<and> has_deadline \<and> re_expired_after e
            then (Inl (Io TimedOut), es)
            else (Inl (Io k), es)))"

definition read_exact_with_idle_deadline :: "bool \<Rightarrow> nat \<Rightarrow> read_event list
    \<Rightarrow> (protocol_error + bytes) \<times> read_event list" where
  "read_exact_with_idle_deadline has_deadline n es = read_exact_loop has_deadline n [] es"

definition read_framed_message_with_idle_deadline :: "bool \<Rightarrow> read_event list
    \<Rightarrow> (protocol_error + bytes) \<times> read_event list" where
  "read_framed_message_with_idle_deadline has_deadline es =
     (case read_exact_with_idle_deadline has_deadline 4 es of
        (Inl e, es') \<Rightarrow> (Inl e, es')
      | (Inr len_buf, es') \<Rightarrow>
          (let total_len = be_val len_buf in
           if total_len > MAX_MESSAGE_SIZE then (Inl (MessageTooLarge (of_nat total_len)), es')
           else (case read_exact_with_idle_deadline has_deadline total_len es' of
               (Inl e, es'') \<Rightarrow> (Inl e, es'')
             | (Inr body, es'') \<Rightarrow> (Inr (len_buf @ body), es''))))"

definition read_framed_message :: "read_event list \<Rightarrow> (protocol_error + bytes) \<times> read_event list" where
  "read_framed_message es = read_framed_message_with_idle_deadline False es"

section \<open>The codec is exact\<close>

lemma message_type_of_byte [simp]: "message_type_of (message_type_byte t) = Some t"
  by (cases t) (simp_all add: message_type_of_def)

lemma message_type_of_Some: "message_type_of b = Some t \<longleftrightarrow> b = message_type_byte t"
  by (cases t) (auto simp: message_type_of_def split: if_splits)

text \<open>The frame of a message.\<close>

definition frame_of :: "message_type \<Rightarrow> bytes \<Rightarrow> bytes" where
  "frame_of t p = be32 (of_nat (2 + length p)) @ [PROTOCOL_VERSION, message_type_byte t] @ p"

lemma encode_message_Inr:
  "encode_message t p = Inr f \<longleftrightarrow> length p + 2 \<le> MAX_MESSAGE_SIZE \<and> f = frame_of t p"
  by (auto simp: encode_message_def encode_message_raw_def frame_of_def Let_def)

lemma unat_frame_len: "n \<le> MAX_MESSAGE_SIZE \<Longrightarrow> unat (of_nat n :: u32) = n"
  by (simp add: unat_of_nat MAX_MESSAGE_SIZE_def)

lemma frame_of_simps:
  assumes "length p + 2 \<le> MAX_MESSAGE_SIZE"
  shows "length (frame_of t p) = length p + 6" "be_val (take 4 (frame_of t p)) = length p + 2"
    "frame_of t p ! 4 = PROTOCOL_VERSION" "frame_of t p ! 5 = message_type_byte t" "drop 6 (frame_of t p) = p"
  using assms unat_frame_len [of "2 + length p"]
  by (simp_all add: frame_of_def nth_append)

lemma decode_message_Inr:
  "decode_message data = Inr m \<longleftrightarrow>
     (\<exists>t p. length p + 2 \<le> MAX_MESSAGE_SIZE \<and> data = frame_of t p
        \<and> m = \<lparr>fm_version = PROTOCOL_VERSION, fm_msg_type = t, fm_payload = p\<rparr>)"
proof
  assume m: "decode_message data = Inr m"
  then obtain t where d: "6 \<le> length data" "be_val (take 4 data) \<le> MAX_MESSAGE_SIZE"
      "length data = 4 + be_val (take 4 data)" "data ! 4 = PROTOCOL_VERSION" "data ! 5 = message_type_byte t"
      "m = \<lparr>fm_version = PROTOCOL_VERSION, fm_msg_type = t, fm_payload = drop 6 data\<rparr>"
    by (auto simp: decode_message_def Let_def res_simps message_type_of_Some split: if_splits)
  let ?n = "2 + length (drop 6 data)"
  have n: "?n = be_val (take 4 data)" using d(1,3) by simp
  have "length (take 4 data) = 4" using d(1) by simp
  then have "take 4 data = be32 (of_nat ?n)"
    unfolding n be32_def unat_frame_len [OF d(2)] by (metis be_bytes_be_val)
  moreover have "drop 4 data = [PROTOCOL_VERSION, message_type_byte t] @ drop 6 data"
    using d(1) Cons_nth_drop_Suc [of 4 data] Cons_nth_drop_Suc [of 5 data] d(4,5) by simp
  ultimately have "data = frame_of t (drop 6 data)"
    using append_take_drop_id [of 4 data] by (simp add: frame_of_def)
  then show "\<exists>t p. length p + 2 \<le> MAX_MESSAGE_SIZE \<and> data = frame_of t p
      \<and> m = \<lparr>fm_version = PROTOCOL_VERSION, fm_msg_type = t, fm_payload = p\<rparr>"
    using d(2,6) n by auto
next
  assume "\<exists>t p. length p + 2 \<le> MAX_MESSAGE_SIZE \<and> data = frame_of t p
      \<and> m = \<lparr>fm_version = PROTOCOL_VERSION, fm_msg_type = t, fm_payload = p\<rparr>"
  then show "decode_message data = Inr m"
    by (auto simp: decode_message_def frame_of_simps)
qed

section \<open>Streams\<close>

text \<open>The bytes a stream delivers, and the streams that deliver them without end or failure:
  non-empty chunks and interruptions (with a deadline, also timeouts before it has passed).\<close>

fun stream_bytes :: "read_event list \<Rightarrow> bytes" where
  "stream_bytes [] = []"
| "stream_bytes (e # es) = (case re_outcome e of Chunk bs \<Rightarrow> bs | ReadErr _ \<Rightarrow> []) @ stream_bytes es"

definition live_event :: "bool \<Rightarrow> read_event \<Rightarrow> bool" where
  "live_event has_deadline e \<longleftrightarrow> (has_deadline \<longrightarrow> \<not> re_expired_before e \<and> \<not> re_expired_after e)
     \<and> (case re_outcome e of Chunk bs \<Rightarrow> bs \<noteq> []
        | ReadErr k \<Rightarrow> k = Interrupted \<or> (has_deadline \<and> (k = TimedOut \<or> k = WouldBlock)))"

lemma live_event_Chunk: "re_outcome e = Chunk bs \<Longrightarrow>
    live_event dl e \<longleftrightarrow> bs \<noteq> [] \<and> (dl \<longrightarrow> \<not> re_expired_before e \<and> \<not> re_expired_after e)"
  by (auto simp: live_event_def)

lemma read_exact_loop_retry:
  assumes "live_event dl e" "re_outcome e = ReadErr k" "length buf < n"
  shows "read_exact_loop dl n buf (e # es) = read_exact_loop dl n buf es"
  using assms by (auto simp: live_event_def)

lemma read_exact_loop_live:
  assumes "list_all (live_event dl) es" "length buf \<le> n" "n \<le> length buf + length (stream_bytes es)"
  shows "\<exists>es'. read_exact_loop dl n buf es = (Inr (buf @ take (n - length buf) (stream_bytes es)), es')
    \<and> stream_bytes es' = drop (n - length buf) (stream_bytes es) \<and> list_all (live_event dl) es'"
  using assms
proof (induction es arbitrary: buf)
  case (Cons e es)
  have live: "live_event dl e" "list_all (live_event dl) es" using Cons.prems(1) by simp_all
  show ?case
  proof (cases "length buf < n")
    case True
    show ?thesis
    proof (cases "re_outcome e")
      case (Chunk bs)
      note e = live(1) [unfolded live_event_Chunk [OF Chunk]]
      show ?thesis
      proof (cases "length bs \<le> n - length buf")
        case short: True
        then have "read_exact_loop dl n buf (e # es) = read_exact_loop dl n (buf @ bs) es"
          using True e Chunk by auto
        then show ?thesis using Cons.IH [of "buf @ bs"] Cons.prems short live Chunk by simp
      next
        case False
        let ?e = "e\<lparr>re_outcome := Chunk (drop (n - length buf) bs)\<rparr>"
        have "read_exact_loop dl n buf (e # es) = (Inr (buf @ take (n - length buf) bs), ?e # es)"
          using True e Chunk False by (auto simp: Let_def)
        moreover have "live_event dl ?e"
          using e False by (subst live_event_Chunk) auto
        ultimately show ?thesis using live False Chunk by simp
      qed
    next
      case (ReadErr k)
      then show ?thesis
        using Cons.IH [of buf] Cons.prems live read_exact_loop_retry [OF live(1) ReadErr True, of es] by simp
    qed
  next
    case False
    then show ?thesis using Cons.prems by simp
  qed
qed simp

lemma read_exact_live:
  assumes "list_all (live_event dl) es" "stream_bytes es = xs @ ys" "length xs = n"
  shows "\<exists>es'. read_exact_with_idle_deadline dl n es = (Inr xs, es') \<and> stream_bytes es' = ys
    \<and> list_all (live_event dl) es'"
  using read_exact_loop_live [of dl es "[]" n] assms by (simp add: read_exact_with_idle_deadline_def)

lemma read_framed_live:
  assumes "list_all (live_event dl) es" "stream_bytes es = frame_of t p @ ys" "length p + 2 \<le> MAX_MESSAGE_SIZE"
  shows "\<exists>es'. read_framed_message_with_idle_deadline dl es = (Inr (frame_of t p), es') \<and> stream_bytes es' = ys
    \<and> list_all (live_event dl) es'"
proof -
  let ?h = "be32 (of_nat (2 + length p))" and ?b = "[PROTOCOL_VERSION, message_type_byte t] @ p"
  obtain es' where 1: "read_exact_with_idle_deadline dl 4 es = (Inr ?h, es')" "stream_bytes es' = ?b @ ys"
      "list_all (live_event dl) es'"
    using read_exact_live [OF assms(1), of ?h "?b @ ys" 4] assms(2) by (auto simp: frame_of_def)
  obtain es'' where "read_exact_with_idle_deadline dl (length p + 2) es' = (Inr ?b, es'')" "stream_bytes es'' = ys"
      "list_all (live_event dl) es''"
    using read_exact_live [OF 1(3,2)] by auto
  moreover have "be_val ?h = length p + 2" using assms(3) unat_frame_len [of "2 + length p"] by simp
  ultimately show ?thesis
    using 1(1) assms(3) by (simp add: read_framed_message_with_idle_deadline_def frame_of_def)
qed

section \<open>Properties\<close>

text \<open>The frame codec is exact: \<open>decode_message\<close> accepts precisely the frames that
  \<open>encode_message\<close> produces, and returns the type and payload that were encoded; a payload is
  refused by the encoder exactly when its frame would exceed 1 MiB.\<close>

theorem frame_codec_exact:
  "(decode_message data = Inr m \<longleftrightarrow>
      fm_version m = PROTOCOL_VERSION \<and> encode_message (fm_msg_type m) (fm_payload m) = Inr data)
   \<and> ((\<exists>e. encode_message t p = Inl e) \<longleftrightarrow> MAX_MESSAGE_SIZE < length p + 2)"
  by (cases m) (auto simp: decode_message_Inr encode_message_Inr, auto simp: encode_message_def encode_message_raw_def Let_def split: if_splits)

text \<open>The stream reader reassembles a frame however the stream splits it, across interruptions
  and (with a deadline) timeouts before the deadline: it returns exactly the encoded frame and
  leaves exactly the bytes that follow it.\<close>

theorem framed_stream_reads:
  assumes "encode_message t p = Inr f" "list_all (live_event dl) es" "stream_bytes es = f @ rest"
  shows "\<exists>es'. read_framed_message_with_idle_deadline dl es = (Inr f, es') \<and> stream_bytes es' = rest
    \<and> decode_message f = Inr \<lparr>fm_version = PROTOCOL_VERSION, fm_msg_type = t, fm_payload = p\<rparr>"
  using assms read_framed_live [OF assms(2), of t p rest] by (auto simp: encode_message_Inr decode_message_Inr)

definition sample_stream :: "read_event list" where
  "sample_stream =
     [\<lparr>re_expired_before = False, re_outcome = Chunk [0, 0, 0, 3, 1], re_expired_after = False\<rparr>,
      \<lparr>re_expired_before = False, re_outcome = ReadErr Interrupted, re_expired_after = False\<rparr>,
      \<lparr>re_expired_before = False, re_outcome = Chunk [0x30, 0xaa, 0xbb], re_expired_after = False\<rparr>]"

lemma framed_stream_reads_witness:
  "\<exists>es'. read_framed_message_with_idle_deadline False sample_stream = (Inr [0, 0, 0, 3, 1, 0x30, 0xaa], es')
     \<and> stream_bytes es' = [0xbb]"
proof -
  have "be32 3 = [0, 0, 0, 3]" by (rule be_val_inj) simp_all
  then have 1: "encode_message GetStatus [0xaa] = Inr [0, 0, 0, 3, 1, 0x30, 0xaa]"
    by (simp add: encode_message_def encode_message_raw_def MAX_MESSAGE_SIZE_def PROTOCOL_VERSION_def)
  have 2: "list_all (live_event False) sample_stream"
    by (simp add: sample_stream_def live_event_def)
  have 3: "stream_bytes sample_stream = [0, 0, 0, 3, 1, 0x30, 0xaa] @ [0xbb]"
    by (simp add: sample_stream_def)
  show ?thesis using framed_stream_reads [OF 1 2 3] by blast
qed

end
