(* ===== verification/Seal.thy ===== *)
theory Seal
  imports Marks Protocol
begin

text \<open>
  Model of the sealed-keystore envelope of \<open>agent_keystore.rs\<close>: the header, the key derivation
  and the sealing and unsealing of a body. The CBOR serialiser of the body (\<open>ciborium\<close> with
  \<open>serde\<close>) is a parameter: \<open>ser_body\<close> gives the encoding and \<open>de_body\<close> a decoded body with the
  number of bytes it consumed. The random nonce is an argument (\<open>None\<close>: getrandom failed).
\<close>

record serde =
  ser_body :: "keystore_body \<Rightarrow> bytes option"
  de_body :: "bytes \<Rightarrow> (keystore_body \<times> nat) option"

definition KEYSTORE_MAGIC :: bytes where "KEYSTORE_MAGIC = ascii ''2DAGTKS'' @ [0]"
definition KEYSTORE_FORMAT_VERSION :: u16 where "KEYSTORE_FORMAT_VERSION = 4"
definition MEAS_DIGEST_DOMAIN :: bytes where
  "MEAS_DIGEST_DOMAIN = ascii ''2d-hsm-agent-keystore-v1-meas''"
definition AEAD_KEY_DOMAIN :: bytes where
  "AEAD_KEY_DOMAIN = ascii ''2d-hsm-agent-keystore-v1-key''"
definition MEAS_DIGEST_LEN :: nat where "MEAS_DIGEST_LEN = 32"
definition NONCE_LEN :: nat where "NONCE_LEN = 24"
definition TAG_LEN :: nat where "TAG_LEN = 16"
definition HEADER_LEN :: nat where "HEADER_LEN = 8 + 2 + MEAS_DIGEST_LEN + NONCE_LEN"
definition AAD_LEN :: nat where "AAD_LEN = 8 + 2 + MEAS_DIGEST_LEN"
definition KEYSTORE_FRAMING_RESERVE :: nat where "KEYSTORE_FRAMING_RESERVE = 1024"
definition MAX_KEYSTORE_BLOB_SIZE :: nat where
  "MAX_KEYSTORE_BLOB_SIZE = MAX_MESSAGE_SIZE - KEYSTORE_FRAMING_RESERVE"

definition measurement_digest :: "crypto \<Rightarrow> bytes \<Rightarrow> bytes" where
  "measurement_digest C enclave_measurement = sha3_256 C (MEAS_DIGEST_DOMAIN @ enclave_measurement)"

definition derive_aead_key :: "crypto \<Rightarrow> bytes \<Rightarrow> bytes \<Rightarrow> bytes" where
  "derive_aead_key C provisioning_root meas_digest =
     sha3_256 C (AEAD_KEY_DOMAIN @ provisioning_root @ meas_digest)"

definition seal_keystore_with_nonce :: "crypto \<Rightarrow> bytes \<Rightarrow> bytes \<Rightarrow> bytes \<Rightarrow> bytes
    \<Rightarrow> keystore_error + bytes" where
  "seal_keystore_with_nonce C body provisioning_root enclave_measurement nonce =
     (if enclave_measurement = [] then Inl EmptyMeasurement
      else
        (let meas_digest = measurement_digest C enclave_measurement;
             key = derive_aead_key C provisioning_root meas_digest in
         if length key \<noteq> 32 then Inl AeadKey
         else
           (let out = KEYSTORE_MAGIC @ be16 KEYSTORE_FORMAT_VERSION @ meas_digest @ nonce;
                aad = take AAD_LEN out in
            res_bind (ok_or Encrypt (xchacha_encrypt C key nonce body aad)) (\<lambda>ct. Inr (out @ ct)))))"

definition seal_keystore :: "crypto \<Rightarrow> bytes \<Rightarrow> bytes \<Rightarrow> bytes \<Rightarrow> bytes option
    \<Rightarrow> keystore_error + bytes" where
  "seal_keystore C body provisioning_root enclave_measurement draw =
     res_bind (ok_or Csprng draw) (\<lambda>nonce.
     seal_keystore_with_nonce C body provisioning_root enclave_measurement nonce)"

definition unseal_keystore :: "crypto \<Rightarrow> bytes \<Rightarrow> bytes \<Rightarrow> bytes \<Rightarrow> keystore_error + bytes" where
  "unseal_keystore C blob provisioning_root enclave_measurement =
     (if enclave_measurement = [] then Inl EmptyMeasurement
      else if length blob < HEADER_LEN + TAG_LEN then Inl TooShort
      else if take 8 blob \<noteq> KEYSTORE_MAGIC then Inl BadMagic
      else if be_val (take 2 (drop 8 blob)) \<noteq> unat KEYSTORE_FORMAT_VERSION then Inl UnsupportedVersion
      else
        (let expected_meas = measurement_digest C enclave_measurement in
         if take MEAS_DIGEST_LEN (drop 10 blob) \<noteq> expected_meas then Inl MeasurementMismatch
         else
           (let key = derive_aead_key C provisioning_root expected_meas in
            if length key \<noteq> 32 then Inl AeadKey
            else
              (let nonce = take (HEADER_LEN - AAD_LEN) (drop AAD_LEN blob);
                   aad = take AAD_LEN blob in
               ok_or Decrypt (xchacha_decrypt C key nonce (drop HEADER_LEN blob) aad)))))"

definition seal_body :: "crypto \<Rightarrow> serde \<Rightarrow> keystore_body \<Rightarrow> bytes \<Rightarrow> bytes \<Rightarrow> bytes option
    \<Rightarrow> keystore_error + bytes" where
  "seal_body C S b provisioning_root enclave_measurement draw =
     res_bind (validate b) (\<lambda>_.
     res_bind (ok_or Cbor (ser_body S b)) (\<lambda>cbor.
     if HEADER_LEN + length cbor + TAG_LEN > MAX_KEYSTORE_BLOB_SIZE then Inl BlobTooLarge
     else seal_keystore C cbor provisioning_root enclave_measurement draw))"

definition unseal_body :: "crypto \<Rightarrow> serde \<Rightarrow> bytes \<Rightarrow> bytes \<Rightarrow> bytes
    \<Rightarrow> keystore_error + keystore_body" where
  "unseal_body C S blob provisioning_root enclave_measurement =
     res_bind (unseal_keystore C blob provisioning_root enclave_measurement) (\<lambda>cbor.
     res_bind (ok_or Cbor (de_body S cbor)) (\<lambda>(b, position).
     if position \<noteq> length cbor then Inl Cbor
     else res_bind (validate b) (\<lambda>_. Inr b)))"

section \<open>Documented behaviour of the parameters\<close>

definition sha3_digest_len :: "crypto \<Rightarrow> bool" where
  "sha3_digest_len C \<longleftrightarrow> (\<forall>m. length (sha3_256 C m) = 32)"

text \<open>An AEAD decrypts what it encrypted, and a ciphertext is 16 bytes longer than its message.\<close>

definition aead_correct :: "crypto \<Rightarrow> bool" where
  "aead_correct C \<longleftrightarrow> (\<forall>k n m a c. xchacha_encrypt C k n m a = Some c
     \<longrightarrow> xchacha_decrypt C k n c a = Some m \<and> length c = length m + 16)"

text \<open>The serialiser's output is decoded back, and decoded whole.\<close>

definition serde_correct :: "serde \<Rightarrow> bool" where
  "serde_correct S \<longleftrightarrow> (\<forall>b x. ser_body S b = Some x \<longrightarrow> de_body S x = Some (b, length x))"

lemmas seal_lens = HEADER_LEN_def AAD_LEN_def MEAS_DIGEST_LEN_def NONCE_LEN_def TAG_LEN_def

lemma length_KEYSTORE_MAGIC [simp]: "length KEYSTORE_MAGIC = 8"
  by (simp add: KEYSTORE_MAGIC_def)

lemma length_measurement_digest [simp]: "sha3_digest_len C \<Longrightarrow> length (measurement_digest C m) = 32"
  by (simp add: sha3_digest_len_def measurement_digest_def)

lemma length_derive_aead_key [simp]: "sha3_digest_len C \<Longrightarrow> length (derive_aead_key C r d) = 32"
  by (simp add: sha3_digest_len_def derive_aead_key_def)

section \<open>Sealing and unsealing\<close>

lemma unseal_seal_keystore:
  assumes "sha3_digest_len C" "aead_correct C" "length nonce = 24"
    and "seal_keystore_with_nonce C m root meas nonce = Inr blob"
  shows "unseal_keystore C blob root meas = Inr m" and "length blob = HEADER_LEN + length m + TAG_LEN"
proof -
  let ?d = "measurement_digest C meas"
  let ?out = "KEYSTORE_MAGIC @ be16 KEYSTORE_FORMAT_VERSION @ ?d @ nonce"
  obtain ct where meas: "meas \<noteq> []"
    and ct: "xchacha_encrypt C (derive_aead_key C root ?d) nonce m (take AAD_LEN ?out) = Some ct"
    and blob: "blob = ?out @ ct"
    using assms(1,4) by (auto simp: seal_keystore_with_nonce_def Let_def res_simps split: if_splits)
  have dec: "xchacha_decrypt C (derive_aead_key C root ?d) nonce ct (take AAD_LEN ?out) = Some m"
    and len: "length ct = length m + 16"
    using assms(2) ct unfolding aead_correct_def by blast+
  show "length blob = HEADER_LEN + length m + TAG_LEN"
    using assms(1,3) len by (simp add: blob seal_lens)
  show "unseal_keystore C blob root meas = Inr m"
    using meas assms(1,3) dec len
    by (simp add: unseal_keystore_def blob seal_lens be_val_be16)
qed

lemma unseal_seal_body:
  assumes "sha3_digest_len C" "aead_correct C" "serde_correct S" "draw = Some nonce" "length nonce = 24"
    and "seal_body C S b root meas draw = Inr blob"
  shows "unseal_body C S blob root meas = Inr b" and "length blob \<le> MAX_KEYSTORE_BLOB_SIZE"
proof -
  obtain x where v: "validate b = Inr ()" and x: "ser_body S b = Some x"
    and size: "HEADER_LEN + length x + TAG_LEN \<le> MAX_KEYSTORE_BLOB_SIZE"
    and seal: "seal_keystore_with_nonce C x root meas nonce = Inr blob"
    using assms(4,6) by (auto simp: seal_body_def seal_keystore_def res_simps not_less)
  note un = unseal_seal_keystore [OF assms(1,2,5) seal]
  show "length blob \<le> MAX_KEYSTORE_BLOB_SIZE" using un(2) size by simp
  show "unseal_body C S blob root meas = Inr b"
    using un(1) v x assms(3) by (simp add: unseal_body_def serde_correct_def)
qed

lemma unseal_body_Inr:
  assumes "unseal_body C S blob root meas = Inr b"
  shows "body_ok b \<and> take 8 blob = KEYSTORE_MAGIC \<and> be_val (take 2 (drop 8 blob)) = 4
    \<and> take 32 (drop 10 blob) = measurement_digest C meas \<and> meas \<noteq> []
    \<and> (\<exists>m. xchacha_decrypt C (derive_aead_key C root (measurement_digest C meas))
          (take 24 (drop 42 blob)) (drop 66 blob) (take 42 blob) = Some m
        \<and> de_body S m = Some (b, length m))"
  using assms
  by (auto simp: unseal_body_def unseal_keystore_def Let_def res_simps validate_iff seal_lens
      KEYSTORE_FORMAT_VERSION_def split: if_splits)

section \<open>Properties\<close>

text \<open>Sealing is invertible and bounded: whatever \<open>seal_body\<close> returns is at most the largest
  blob that can be installed again, and the enclave with the same provisioning root and
  measurement unseals it to the same body.\<close>

theorem seal_body_roundtrip:
  assumes "sha3_digest_len C" "aead_correct C" "serde_correct S" "length nonce = 24"
    and "seal_body C S b root meas (Some nonce) = Inr blob"
  shows "unseal_body C S blob root meas = Inr b \<and> length blob \<le> MAX_KEYSTORE_BLOB_SIZE"
  using unseal_seal_body [OF assms(1-3) refl assms(4,5)] by blast

definition sample_serde :: serde where
  "sample_serde = \<lparr>ser_body = (\<lambda>b. if b = sample_body then Some [7, 7] else None),
     de_body = (\<lambda>x. if x = [7, 7] then Some (sample_body, 2) else None)\<rparr>"

lemma sample_crypto_correct: "sha3_digest_len sample_crypto" "aead_correct sample_crypto"
  "serde_correct sample_serde"
  by (simp_all add: sha3_digest_len_def aead_correct_def serde_correct_def sample_crypto_def sample_serde_def)

lemma sample_seal: "\<exists>blob. seal_body sample_crypto sample_serde sample_body zero32 [1] (Some (replicate 24 3)) = Inr blob"
  using sample_body_ok [folded validate_iff]
  by (simp add: seal_body_def seal_keystore_def seal_keystore_with_nonce_def sample_serde_def
      sample_crypto_correct seal_lens MAX_KEYSTORE_BLOB_SIZE_def MAX_MESSAGE_SIZE_def
      KEYSTORE_FRAMING_RESERVE_def Let_def) (simp add: sample_crypto_def)

lemma seal_body_roundtrip_witness:
  "\<exists>blob. seal_body sample_crypto sample_serde sample_body zero32 [1] (Some (replicate 24 3)) = Inr blob
     \<and> unseal_body sample_crypto sample_serde blob zero32 [1] = Inr sample_body"
proof -
  obtain blob where blob:
    "seal_body sample_crypto sample_serde sample_body zero32 [1] (Some (replicate 24 3)) = Inr blob"
    using sample_seal by blast
  from seal_body_roundtrip [OF sample_crypto_correct _ blob] blob show ?thesis by auto
qed

text \<open>Only a well-formed envelope for this enclave is opened: an unsealed body satisfies the
  invariant, and the blob carried this format's magic and version and the digest of this
  enclave's own measurement, with the plaintext authenticated under the key derived from the
  provisioning root and that digest and decoded without a trailing byte.\<close>

theorem unseal_body_binds:
  assumes "unseal_body C S blob root meas = Inr b"
  shows "body_ok b \<and> take 8 blob = KEYSTORE_MAGIC \<and> be_val (take 2 (drop 8 blob)) = 4
    \<and> take 32 (drop 10 blob) = measurement_digest C meas \<and> meas \<noteq> []
    \<and> (\<exists>m. xchacha_decrypt C (derive_aead_key C root (measurement_digest C meas))
          (take 24 (drop 42 blob)) (drop 66 blob) (take 42 blob) = Some m
        \<and> de_body S m = Some (b, length m))"
  by (rule unseal_body_Inr [OF assms])

lemma unseal_body_binds_witness:
  "\<exists>blob. unseal_body sample_crypto sample_serde blob zero32 [1] = Inr sample_body
     \<and> take 8 blob = KEYSTORE_MAGIC"
proof -
  obtain blob where blob:
    "seal_body sample_crypto sample_serde sample_body zero32 [1] (Some (replicate 24 3)) = Inr blob"
    using sample_seal by blast
  have "unseal_body sample_crypto sample_serde blob zero32 [1] = Inr sample_body"
    using unseal_seal_body(1) [OF sample_crypto_correct refl _ blob] by simp
  from unseal_body_binds [OF this] this show ?thesis by blast
qed

end
