(* ===== verification/Anchor.thy ===== *)
theory Anchor
  imports Seal
begin

text \<open>
  Model of \<open>agent_anchor.rs\<close>: the three messages the anti-rollback anchor signs (freshness
  response, raw marks, commit acknowledgement), their verification against the sealed config,
  and the reconcile decision. The lemmas show that each signing preimage determines its fields,
  that no preimage of one message is a preimage of another, what a successful verification has
  established, and exactly when reconcile decides what.
\<close>

section \<open>Constants and types\<close>

definition ANCHOR_DOMAIN :: bytes where
  "ANCHOR_DOMAIN = ascii ''2d-hsm/agent-anchor/v1'' @ [0]"
definition ANCHOR_RESPONSE_VERSION :: u64 where "ANCHOR_RESPONSE_VERSION = 1"
definition MARKS_RESP_DOMAIN :: bytes where
  "MARKS_RESP_DOMAIN = ascii ''2d-hsm/agent-anchor-marks-resp/v1'' @ [0]"
definition MARKS_RESP_VERSION :: u64 where "MARKS_RESP_VERSION = 1"
definition COMMIT_ACK_DOMAIN :: bytes where
  "COMMIT_ACK_DOMAIN = ascii ''2d-hsm/agent-anchor-commit-ack/v1'' @ [0]"
definition COMMIT_ACK_VERSION :: u64 where "COMMIT_ACK_VERSION = 1"
definition HANDSHAKE_REPORT_DATA_DOMAIN :: bytes where
  "HANDSHAKE_REPORT_DATA_DOMAIN = ascii ''2d-hsm-agent-anchor-handshake-v1''"
definition MAX_MARKS_PAYLOAD_LEN :: nat where "MAX_MARKS_PAYLOAD_LEN = MAX_KEYSTORE_BLOB_SIZE"

datatype anchor_error = Malformed | SignatureInvalid | ScopeMismatch | NonceMismatch

record anchor_state =
  as_epoch :: u64
  as_structural_version :: u64
  as_marks_digest :: bytes
  as_chain_height :: "u64 option"
  as_chain_block_hash :: "bytes option"

datatype fail_reason = AnchorBehind | StructuralGap | Inconsistent

datatype reconcile_decision = Fresh | AdoptForward u64 | FailClosed fail_reason

record anchor_response =
  an_version :: u64
  an_chain_id :: u64
  an_environment_identifier :: bytes
  an_epoch :: u64
  an_structural_version :: u64
  an_marks_digest :: bytes
  an_nonce :: bytes
  an_chain_height :: "u64 option"
  an_chain_block_hash :: "bytes option"
  an_signature :: bytes

datatype marks_error = Malformed | SignatureInvalid | ScopeMismatch | NonceMismatch | EpochMismatch

datatype commit_ack_error =
    Malformed | SignatureInvalid | ScopeMismatch | NonceMismatch | EpochMismatch
  | StructuralMismatch | MarksMismatch | RequestIdMismatch

section \<open>The freshness response\<close>

text \<open>\<open>match map_get(..) { Some(v) => Some(f(v).ok_or(e)?), None => None }\<close>\<close>

definition opt_field :: "'e \<Rightarrow> (cbor_value \<Rightarrow> 'a option) \<Rightarrow> cbor_value option \<Rightarrow> 'e + 'a option" where
  "opt_field e f m = (case m of None \<Rightarrow> Inr None | Some v \<Rightarrow> res_bind (ok_or e (f v)) (\<lambda>x. Inr (Some x)))"

definition as_text :: "cbor_value \<Rightarrow> bytes option" where
  "as_text v = (case v of CText s \<Rightarrow> Some s | _ \<Rightarrow> None)"

definition parse_response :: "(cbor_value \<times> cbor_value) list \<Rightarrow> anchor_error + anchor_response" where
  "parse_response m =
     (if \<not> check_strict_keys m (\<lambda>n. (1 \<le> n \<and> n \<le> 9) \<or> n = 13) then Inl anchor_error.Malformed
      else
        (let req_u64 = (\<lambda>k. ok_or anchor_error.Malformed (Option.bind (map_get m k) as_u64));
             req_digest = (\<lambda>k. ok_or anchor_error.Malformed (Option.bind (map_get m k) as_bytes32)) in
         res_bind (req_u64 1) (\<lambda>version.
         res_bind (req_u64 2) (\<lambda>chain_id.
         res_bind (ok_or anchor_error.Malformed (Option.bind (map_get m 3) as_text)) (\<lambda>env.
         res_bind (req_u64 4) (\<lambda>epoch.
         res_bind (req_u64 5) (\<lambda>structural.
         res_bind (req_digest 6) (\<lambda>digest.
         res_bind (req_digest 7) (\<lambda>nonce.
         res_bind (opt_field anchor_error.Malformed as_u64 (map_get m 8)) (\<lambda>height.
         res_bind (opt_field anchor_error.Malformed as_bytes32 (map_get m 9)) (\<lambda>block_hash.
         if (height \<noteq> None) \<noteq> (block_hash \<noteq> None) then Inl anchor_error.Malformed
         else
           res_bind (ok_or anchor_error.Malformed (Option.bind (map_get m 13) (as_bytes_n 64))) (\<lambda>sig.
           Inr \<lparr>an_version = version, an_chain_id = chain_id, an_environment_identifier = env,
                an_epoch = epoch, an_structural_version = structural, an_marks_digest = digest,
                an_nonce = nonce, an_chain_height = height, an_chain_block_hash = block_hash,
                an_signature = sig\<rparr>))))))))))))"

definition anchor_signed_preimage :: "anchor_response \<Rightarrow> bytes" where
  "anchor_signed_preimage r =
     (let chain = (case (an_chain_height r, an_chain_block_hash r) of
            (Some h, Some bh) \<Rightarrow> Some (h, bh) | _ \<Rightarrow> None);
          count = (if chain \<noteq> None then 9 else 7) in
      ANCHOR_DOMAIN @ put_uint 5 count
      @ put_uint 0 1 @ put_uint 0 (an_version r)
      @ put_uint 0 2 @ put_uint 0 (an_chain_id r)
      @ put_uint 0 3 @ put_text (an_environment_identifier r)
      @ put_uint 0 4 @ put_uint 0 (an_epoch r)
      @ put_uint 0 5 @ put_uint 0 (an_structural_version r)
      @ put_uint 0 6 @ put_bytes (an_marks_digest r)
      @ put_uint 0 7 @ put_bytes (an_nonce r)
      @ (case chain of None \<Rightarrow> []
         | Some (h, bh) \<Rightarrow> put_uint 0 8 @ put_uint 0 h @ put_uint 0 9 @ put_bytes bh))"

definition verify_anchor_response :: "crypto \<Rightarrow> (cbor_value \<times> cbor_value) list \<Rightarrow> bytes
    \<Rightarrow> keystore_config \<Rightarrow> anchor_error + anchor_state" where
  "verify_anchor_response C m expected_nonce config =
     res_bind (parse_response m) (\<lambda>r.
     if an_version r \<noteq> ANCHOR_RESPONSE_VERSION then Inl anchor_error.Malformed
     else if \<not> ed_key_ok C (kc_anchor_root config) then Inl anchor_error.SignatureInvalid
     else if \<not> ed_verify_strict C (kc_anchor_root config) (anchor_signed_preimage r) (an_signature r)
     then Inl anchor_error.SignatureInvalid
     else if an_chain_id r \<noteq> kc_twod_chain_id config
        \<or> an_environment_identifier r \<noteq> kc_environment_identifier config
     then Inl anchor_error.ScopeMismatch
     else if an_nonce r \<noteq> expected_nonce then Inl anchor_error.NonceMismatch
     else Inr \<lparr>as_epoch = an_epoch r, as_structural_version = an_structural_version r,
               as_marks_digest = an_marks_digest r, as_chain_height = an_chain_height r,
               as_chain_block_hash = an_chain_block_hash r\<rparr>)"

definition verify_anchor_response_bytes :: "crypto \<Rightarrow> bytes \<Rightarrow> bytes \<Rightarrow> keystore_config
    \<Rightarrow> anchor_error + anchor_state" where
  "verify_anchor_response_bytes C bs expected_nonce config =
     res_bind (ok_or anchor_error.Malformed (strict_decode_map bs)) (\<lambda>m.
     verify_anchor_response C m expected_nonce config)"

section \<open>Reconcile\<close>

definition reconcile :: "u64 \<Rightarrow> u64 \<Rightarrow> bytes \<Rightarrow> anchor_state \<Rightarrow> reconcile_decision" where
  "reconcile local_epoch local_structural_version local_marks_digest anchor =
     (if as_epoch anchor < local_epoch then FailClosed AnchorBehind
      else if as_epoch anchor = local_epoch then
        (if as_structural_version anchor = local_structural_version
            \<and> as_marks_digest anchor = local_marks_digest
         then Fresh else FailClosed Inconsistent)
      else
        (if as_structural_version anchor = local_structural_version
         then AdoptForward (as_epoch anchor) else FailClosed StructuralGap))"

text \<open>The value hashed into the attestation's report data.\<close>

definition handshake_preimage :: "u64 \<Rightarrow> bytes \<Rightarrow> bytes \<Rightarrow> bytes" where
  "handshake_preimage chain_id env nonce =
     HANDSHAKE_REPORT_DATA_DOMAIN @ be64 chain_id @ be32 (of_nat (length env)) @ env @ nonce"

definition anchor_handshake_report_data :: "crypto \<Rightarrow> u64 \<Rightarrow> bytes \<Rightarrow> bytes \<Rightarrow> bytes" where
  "anchor_handshake_report_data C chain_id env nonce = sha3_512 C (handshake_preimage chain_id env nonce)"

section \<open>The raw marks response\<close>

definition marks_resp_signed_preimage :: "marks_resp_fields \<Rightarrow> bytes" where
  "marks_resp_signed_preimage f = MARKS_RESP_DOMAIN @ put_uint 5 6
     @ put_uint 0 1 @ put_uint 0 (mr_version f)
     @ put_uint 0 2 @ put_uint 0 (mr_chain_id f)
     @ put_uint 0 3 @ put_text (mr_environment_identifier f)
     @ put_uint 0 4 @ put_uint 0 (mr_epoch f)
     @ put_uint 0 5 @ put_bytes (mr_nonce f)
     @ put_uint 0 6 @ put_bytes (mr_marks_payload f)"

definition verify_marks_response_bytes :: "crypto \<Rightarrow> bytes \<Rightarrow> bytes \<Rightarrow> u64 \<Rightarrow> keystore_config
    \<Rightarrow> marks_error + bytes" where
  "verify_marks_response_bytes C bs expected_nonce expected_epoch config =
     res_bind (ok_or marks_error.Malformed (strict_decode_marks_response bs MAX_MARKS_PAYLOAD_LEN)) (\<lambda>f.
     if mr_version f \<noteq> MARKS_RESP_VERSION then Inl marks_error.Malformed
     else if \<not> ed_key_ok C (kc_anchor_root config) then Inl marks_error.SignatureInvalid
     else if \<not> ed_verify_strict C (kc_anchor_root config) (marks_resp_signed_preimage f) (mr_signature f)
     then Inl marks_error.SignatureInvalid
     else if mr_chain_id f \<noteq> kc_twod_chain_id config
        \<or> mr_environment_identifier f \<noteq> kc_environment_identifier config
     then Inl marks_error.ScopeMismatch
     else if mr_nonce f \<noteq> expected_nonce then Inl marks_error.NonceMismatch
     else if mr_epoch f \<noteq> expected_epoch then Inl marks_error.EpochMismatch
     else Inr (mr_marks_payload f))"

section \<open>The commit acknowledgement\<close>

definition commit_ack_signed_preimage :: "commit_ack_fields \<Rightarrow> bytes" where
  "commit_ack_signed_preimage f = COMMIT_ACK_DOMAIN @ put_uint 5 8
     @ put_uint 0 1 @ put_uint 0 (ca_version f)
     @ put_uint 0 2 @ put_uint 0 (ca_chain_id f)
     @ put_uint 0 3 @ put_text (ca_environment_identifier f)
     @ put_uint 0 4 @ put_uint 0 (ca_epoch f)
     @ put_uint 0 5 @ put_uint 0 (ca_structural_version f)
     @ put_uint 0 6 @ put_bytes (ca_marks_digest f)
     @ put_uint 0 7 @ put_bytes (ca_nonce f)
     @ put_uint 0 8 @ put_bytes (ca_request_id f)"

record expected_commit_ack =
  ea_nonce :: bytes
  ea_epoch :: u64
  ea_structural_version :: u64
  ea_marks_digest :: bytes
  ea_request_id :: bytes

definition verify_commit_ack_bytes :: "crypto \<Rightarrow> bytes \<Rightarrow> expected_commit_ack \<Rightarrow> keystore_config
    \<Rightarrow> commit_ack_error + unit" where
  "verify_commit_ack_bytes C bs expected config =
     res_bind (ok_or commit_ack_error.Malformed (strict_decode_commit_ack bs MAX_REQUEST_ID_LEN)) (\<lambda>f.
     if ca_version f \<noteq> COMMIT_ACK_VERSION then Inl commit_ack_error.Malformed
     else if \<not> ed_key_ok C (kc_anchor_root config) then Inl commit_ack_error.SignatureInvalid
     else if \<not> ed_verify_strict C (kc_anchor_root config) (commit_ack_signed_preimage f) (ca_signature f)
     then Inl commit_ack_error.SignatureInvalid
     else if ca_chain_id f \<noteq> kc_twod_chain_id config
        \<or> ca_environment_identifier f \<noteq> kc_environment_identifier config
     then Inl commit_ack_error.ScopeMismatch
     else if ca_nonce f \<noteq> ea_nonce expected then Inl commit_ack_error.NonceMismatch
     else if ca_epoch f \<noteq> ea_epoch expected then Inl commit_ack_error.EpochMismatch
     else if ca_structural_version f \<noteq> ea_structural_version expected
     then Inl commit_ack_error.StructuralMismatch
     else if ca_marks_digest f \<noteq> ea_marks_digest expected then Inl commit_ack_error.MarksMismatch
     else if ca_request_id f \<noteq> ea_request_id expected then Inl commit_ack_error.RequestIdMismatch
     else Inr ())"

section \<open>The preimages determine their fields\<close>

text \<open>\<open>strip_*\<close> forgets the signature, the one field a preimage does not cover.\<close>

definition anchor_response_ok :: "anchor_response \<Rightarrow> bool" where
  "anchor_response_ok r \<longleftrightarrow> length (an_environment_identifier r) < 2 ^ 64
     \<and> length (an_marks_digest r) = 32 \<and> length (an_nonce r) = 32
     \<and> (an_chain_height r = None \<longleftrightarrow> an_chain_block_hash r = None)
     \<and> (\<forall>h. an_chain_block_hash r = Some h \<longrightarrow> length h = 32)"

lemma anchor_signed_preimage_inj:
  assumes "anchor_response_ok r" "anchor_response_ok s"
    and "anchor_signed_preimage r = anchor_signed_preimage s"
  shows "r\<lparr>an_signature := x\<rparr> = s\<lparr>an_signature := x\<rparr>"
proof (cases r; cases s)
  fix v c e ep sv d n h bh sig v' c' e' ep' sv' d' n' h' bh' sig'
  assume r: "r = \<lparr>an_version = v, an_chain_id = c, an_environment_identifier = e, an_epoch = ep,
      an_structural_version = sv, an_marks_digest = d, an_nonce = n, an_chain_height = h,
      an_chain_block_hash = bh, an_signature = sig\<rparr>"
    and s: "s = \<lparr>an_version = v', an_chain_id = c', an_environment_identifier = e', an_epoch = ep',
      an_structural_version = sv', an_marks_digest = d', an_nonce = n', an_chain_height = h',
      an_chain_block_hash = bh', an_signature = sig'\<rparr>"
  show ?thesis
    using assms
    by (cases h; cases bh; cases h'; cases bh')
      (auto simp: r s anchor_response_ok_def anchor_signed_preimage_def put_inj)
qed

lemma marks_resp_signed_preimage_inj:
  assumes "marks_response_ok n r" "marks_response_ok k s"
    and "marks_resp_signed_preimage r = marks_resp_signed_preimage s"
  shows "r\<lparr>mr_signature := x\<rparr> = s\<lparr>mr_signature := x\<rparr>"
  using assms
  by (cases r; cases s) (auto simp: marks_response_ok_def marks_resp_signed_preimage_def put_inj)

lemma commit_ack_signed_preimage_inj:
  assumes "commit_ack_ok n r" "commit_ack_ok k s"
    and "commit_ack_signed_preimage r = commit_ack_signed_preimage s"
  shows "r\<lparr>ca_signature := x\<rparr> = s\<lparr>ca_signature := x\<rparr>"
  using assms
  by (cases r; cases s) (auto simp: commit_ack_ok_def commit_ack_signed_preimage_def put_inj)

text \<open>The labels differ within their first 21 bytes, so no message is a preimage of another.\<close>

lemma anchor_domains_disjoint:
  "anchor_signed_preimage r \<noteq> marks_resp_signed_preimage s"
  "anchor_signed_preimage r \<noteq> commit_ack_signed_preimage t"
  "marks_resp_signed_preimage s \<noteq> commit_ack_signed_preimage t"
proof -
  have "take 21 (anchor_signed_preimage r) = take 21 (ANCHOR_DOMAIN)"
    "take 21 (marks_resp_signed_preimage s) = take 21 (MARKS_RESP_DOMAIN)"
    "take 21 (commit_ack_signed_preimage t) = take 21 (COMMIT_ACK_DOMAIN)"
    by (simp_all add: anchor_signed_preimage_def marks_resp_signed_preimage_def
        commit_ack_signed_preimage_def ANCHOR_DOMAIN_def MARKS_RESP_DOMAIN_def COMMIT_ACK_DOMAIN_def Let_def)
  moreover have "take 21 ANCHOR_DOMAIN \<noteq> take 21 MARKS_RESP_DOMAIN"
    "take 21 ANCHOR_DOMAIN \<noteq> take 21 COMMIT_ACK_DOMAIN"
    "take 21 MARKS_RESP_DOMAIN \<noteq> take 21 COMMIT_ACK_DOMAIN"
    by (simp_all add: ANCHOR_DOMAIN_def MARKS_RESP_DOMAIN_def COMMIT_ACK_DOMAIN_def ascii_def)
  ultimately show "anchor_signed_preimage r \<noteq> marks_resp_signed_preimage s"
    "anchor_signed_preimage r \<noteq> commit_ack_signed_preimage t"
    "marks_resp_signed_preimage s \<noteq> commit_ack_signed_preimage t"
    by metis+
qed

section \<open>What a verified message establishes\<close>

lemma map_get_Some_in: "map_get m k = Some v \<Longrightarrow> \<exists>key. (key, v) \<in> set m"
  by (auto simp: map_get_def find_Some_iff in_set_conv_nth)
    (metis nth_mem snd_conv surj_pair prod.collapse)

lemma as_text_Some [simp]: "as_text v = Some s \<longleftrightarrow> v = CText s"
  by (cases v) (auto simp: as_text_def)

lemma opt_field_Inr: "opt_field e f m = Inr r \<longleftrightarrow>
    (m = None \<and> r = None) \<or> (\<exists>v x. m = Some v \<and> f v = Some x \<and> r = Some x)"
  by (auto simp: opt_field_def res_simps split: option.splits)

lemma parse_response_Inr:
  assumes "parse_response m = Inr r"
  shows "length (an_marks_digest r) = 32" "length (an_nonce r) = 32" "length (an_signature r) = 64"
    "an_chain_height r = None \<longleftrightarrow> an_chain_block_hash r = None"
    "an_chain_block_hash r = Some h \<Longrightarrow> length h = 32"
    "\<exists>k. (k, CText (an_environment_identifier r)) \<in> set m"
  using assms
  by (auto simp: parse_response_def Let_def res_simps opt_field_Inr bind_eq_Some_conv
      as_bytes32_def as_bytes_n_Some dest!: map_get_Some_in split: if_splits)

lemma verify_anchor_response_bytes_Inr:
  assumes "verify_anchor_response_bytes C bs nonce cfg = Inr st"
  shows "\<exists>m r. strict_decode_map bs = Some m \<and> parse_response m = Inr r \<and> anchor_response_ok r
    \<and> an_version r = 1 \<and> ed_verify_strict C (kc_anchor_root cfg) (anchor_signed_preimage r) (an_signature r)
    \<and> an_chain_id r = kc_twod_chain_id cfg
    \<and> an_environment_identifier r = kc_environment_identifier cfg
    \<and> an_nonce r = nonce
    \<and> st = \<lparr>as_epoch = an_epoch r, as_structural_version = an_structural_version r,
            as_marks_digest = an_marks_digest r, as_chain_height = an_chain_height r,
            as_chain_block_hash = an_chain_block_hash r\<rparr>"
proof -
  obtain m r where m: "strict_decode_map bs = Some m" and r: "parse_response m = Inr r"
    and v: "an_version r = 1" "ed_verify_strict C (kc_anchor_root cfg) (anchor_signed_preimage r) (an_signature r)"
      "an_chain_id r = kc_twod_chain_id cfg" "an_environment_identifier r = kc_environment_identifier cfg"
      "an_nonce r = nonce"
      "st = \<lparr>as_epoch = an_epoch r, as_structural_version = an_structural_version r,
            as_marks_digest = an_marks_digest r, as_chain_height = an_chain_height r,
            as_chain_block_hash = an_chain_block_hash r\<rparr>"
    using assms
    by (auto simp: verify_anchor_response_bytes_def verify_anchor_response_def res_simps
        ANCHOR_RESPONSE_VERSION_def split: if_splits)
  obtain k where "(k, CText (an_environment_identifier r)) \<in> set m"
    using parse_response_Inr(6) [OF r] by blast
  moreover have "canon_value (CMap m) 4096 1"
    using m by (simp add: strict_decode_map_iff del: canon_value.simps)
  ultimately have "length (an_environment_identifier r) \<le> 4096"
    by (fastforce simp: list_all_iff)
  then have "anchor_response_ok r"
    using parse_response_Inr [OF r] by (auto simp: anchor_response_ok_def)
  then show ?thesis using m r v by blast
qed

lemma verify_marks_response_bytes_Inr:
  "verify_marks_response_bytes C bs nonce epoch cfg = Inr p \<longleftrightarrow>
    (\<exists>f. marks_response_ok MAX_MARKS_PAYLOAD_LEN f \<and> bs = enc_marks_response f \<and> mr_version f = 1
      \<and> ed_key_ok C (kc_anchor_root cfg)
      \<and> ed_verify_strict C (kc_anchor_root cfg) (marks_resp_signed_preimage f) (mr_signature f)
      \<and> mr_chain_id f = kc_twod_chain_id cfg
      \<and> mr_environment_identifier f = kc_environment_identifier cfg
      \<and> mr_nonce f = nonce \<and> mr_epoch f = epoch \<and> mr_marks_payload f = p)"
  by (auto simp: verify_marks_response_bytes_def res_simps strict_decode_marks_response_iff
      MARKS_RESP_VERSION_def)

lemma verify_commit_ack_bytes_Inr:
  "verify_commit_ack_bytes C bs ex cfg = Inr () \<longleftrightarrow>
    (\<exists>f. commit_ack_ok 64 f \<and> bs = enc_commit_ack f \<and> ca_version f = 1
      \<and> ed_key_ok C (kc_anchor_root cfg)
      \<and> ed_verify_strict C (kc_anchor_root cfg) (commit_ack_signed_preimage f) (ca_signature f)
      \<and> ca_chain_id f = kc_twod_chain_id cfg
      \<and> ca_environment_identifier f = kc_environment_identifier cfg
      \<and> ca_nonce f = ea_nonce ex \<and> ca_epoch f = ea_epoch ex
      \<and> ca_structural_version f = ea_structural_version ex
      \<and> ca_marks_digest f = ea_marks_digest ex \<and> ca_request_id f = ea_request_id ex)"
  by (auto simp: verify_commit_ack_bytes_def res_simps strict_decode_commit_ack_iff
      COMMIT_ACK_VERSION_def MAX_REQUEST_ID_LEN_def)

lemma reconcile_cases:
  "reconcile le ls ld a = Fresh \<longleftrightarrow>
     as_epoch a = le \<and> as_structural_version a = ls \<and> as_marks_digest a = ld"
  "reconcile le ls ld a = AdoptForward e \<longleftrightarrow>
     e = as_epoch a \<and> le < e \<and> as_structural_version a = ls"
  "reconcile le ls ld a = FailClosed AnchorBehind \<longleftrightarrow> as_epoch a < le"
  "reconcile le ls ld a = FailClosed StructuralGap \<longleftrightarrow> le < as_epoch a \<and> as_structural_version a \<noteq> ls"
  "reconcile le ls ld a = FailClosed Inconsistent \<longleftrightarrow>
     as_epoch a = le \<and> (as_structural_version a \<noteq> ls \<or> as_marks_digest a \<noteq> ld)"
  by (auto simp: reconcile_def not_less_iff_gr_or_eq)


section \<open>Authenticity\<close>

text \<open>
  A family of signed messages whose preimage determines every field but the signature. What the
  signer has signed is \<open>preimage ` H\<close> together with messages of other kinds; a verified message
  whose preimage is among them is one of \<open>H\<close>, up to its signature.
\<close>

locale signed_family =
  fixes preimage :: "'m \<Rightarrow> bytes" and wf :: "'m \<Rightarrow> bool" and unsigned :: "'m \<Rightarrow> 'm"
    and foreign :: "bytes set"
  assumes determines: "wf r \<Longrightarrow> wf s \<Longrightarrow> preimage r = preimage s \<Longrightarrow> unsigned r = unsigned s"
    and not_foreign: "preimage r \<notin> foreign"
begin

lemma authentic:
  assumes "\<forall>h\<in>H. wf h" "wf r" "preimage r \<in> preimage ` H \<union> foreign"
  shows "\<exists>h\<in>H. unsigned h = unsigned r"
  using assms not_foreign [of r] determines by (metis (no_types, lifting) UnE imageE)

end

definition anchor_signed ::
  "anchor_response set \<Rightarrow> marks_resp_fields set \<Rightarrow> commit_ack_fields set \<Rightarrow> bytes set" where
  "anchor_signed H M A = anchor_signed_preimage ` H \<union> marks_resp_signed_preimage ` M
     \<union> commit_ack_signed_preimage ` A"

interpretation freshness: signed_family anchor_signed_preimage anchor_response_ok
    "an_signature_update (\<lambda>_. [])" "range marks_resp_signed_preimage \<union> range commit_ack_signed_preimage"
  by unfold_locales (auto simp: anchor_domains_disjoint dest: anchor_signed_preimage_inj)

interpretation marks_msg: signed_family marks_resp_signed_preimage
    "marks_response_ok MAX_MARKS_PAYLOAD_LEN" "mr_signature_update (\<lambda>_. [])"
    "range anchor_signed_preimage \<union> range commit_ack_signed_preimage"
  by unfold_locales
    (auto simp: anchor_domains_disjoint anchor_domains_disjoint [symmetric] dest: marks_resp_signed_preimage_inj)

interpretation ack_msg: signed_family commit_ack_signed_preimage
    "commit_ack_ok MAX_REQUEST_ID_LEN" "ca_signature_update (\<lambda>_. [])"
    "range anchor_signed_preimage \<union> range marks_resp_signed_preimage"
  by unfold_locales
    (auto simp: anchor_domains_disjoint [symmetric] dest: commit_ack_signed_preimage_inj)

lemma freshness_signed:
  assumes "\<forall>h\<in>H. anchor_response_ok h" "anchor_response_ok r" "anchor_signed_preimage r \<in> anchor_signed H M A"
  shows "\<exists>h\<in>H. h\<lparr>an_signature := []\<rparr> = r\<lparr>an_signature := []\<rparr>"
  by (rule freshness.authentic) (use assms in \<open>auto simp: anchor_signed_def\<close>)

lemma marks_signed:
  assumes "\<forall>h\<in>M. marks_response_ok MAX_MARKS_PAYLOAD_LEN h" "marks_response_ok MAX_MARKS_PAYLOAD_LEN r"
    "marks_resp_signed_preimage r \<in> anchor_signed H M A"
  shows "\<exists>h\<in>M. h\<lparr>mr_signature := []\<rparr> = r\<lparr>mr_signature := []\<rparr>"
  by (rule marks_msg.authentic) (use assms in \<open>auto simp: anchor_signed_def\<close>)

lemma ack_signed:
  assumes "\<forall>h\<in>A. commit_ack_ok MAX_REQUEST_ID_LEN h" "commit_ack_ok MAX_REQUEST_ID_LEN r"
    "commit_ack_signed_preimage r \<in> anchor_signed H M A"
  shows "\<exists>h\<in>A. h\<lparr>ca_signature := []\<rparr> = r\<lparr>ca_signature := []\<rparr>"
  by (rule ack_msg.authentic) (use assms in \<open>auto simp: anchor_signed_def\<close>)

text \<open>The state a freshness response reports.\<close>

definition state_of :: "anchor_response \<Rightarrow> anchor_state" where
  "state_of r = \<lparr>as_epoch = an_epoch r, as_structural_version = an_structural_version r,
     as_marks_digest = an_marks_digest r, as_chain_height = an_chain_height r,
     as_chain_block_hash = an_chain_block_hash r\<rparr>"

lemma unsigned_response: "h\<lparr>an_signature := []\<rparr> = r\<lparr>an_signature := []\<rparr> \<Longrightarrow>
    an_nonce h = an_nonce r \<and> an_chain_id h = an_chain_id r
     \<and> an_environment_identifier h = an_environment_identifier r \<and> state_of h = state_of r"
  by (cases h; cases r; simp add: state_of_def)

lemma unsigned_marks: "f\<lparr>mr_signature := []\<rparr> = g\<lparr>mr_signature := []\<rparr> \<Longrightarrow>
    mr_nonce f = mr_nonce g \<and> mr_epoch f = mr_epoch g \<and> mr_chain_id f = mr_chain_id g
     \<and> mr_environment_identifier f = mr_environment_identifier g \<and> mr_marks_payload f = mr_marks_payload g"
  by (cases f; cases g; simp)

lemma unsigned_ack: "a\<lparr>ca_signature := []\<rparr> = b\<lparr>ca_signature := []\<rparr> \<Longrightarrow>
    ca_nonce a = ca_nonce b \<and> ca_epoch a = ca_epoch b \<and> ca_chain_id a = ca_chain_id b
     \<and> ca_environment_identifier a = ca_environment_identifier b
     \<and> ca_structural_version a = ca_structural_version b \<and> ca_marks_digest a = ca_marks_digest b
     \<and> ca_request_id a = ca_request_id b"
  by (cases a; cases b; simp)

section \<open>Samples\<close>

text \<open>A crypto record that accepts a signature exactly on one given message.\<close>

definition sample_verifier :: "bytes \<Rightarrow> crypto" where
  "sample_verifier m = sample_crypto\<lparr>ed_verify_strict := (\<lambda>_ m' sig. m' = m \<and> sig = replicate 64 1)\<rparr>"

definition sample_response_at :: "u64 \<Rightarrow> bytes \<Rightarrow> bytes \<Rightarrow> anchor_response" where
  "sample_response_at epoch digest nonce =
     \<lparr>an_version = 1, an_chain_id = 11565, an_environment_identifier = ascii ''lab'',
      an_epoch = epoch, an_structural_version = 3, an_marks_digest = digest, an_nonce = nonce,
      an_chain_height = None, an_chain_block_hash = None, an_signature = replicate 64 1\<rparr>"

definition sample_response_map :: "u64 \<Rightarrow> bytes \<Rightarrow> bytes \<Rightarrow> (cbor_value \<times> cbor_value) list" where
  "sample_response_map epoch digest nonce =
     [(CInteger 1, CInteger 1), (CInteger 2, CInteger 11565), (CInteger 3, CText (ascii ''lab'')),
      (CInteger 4, CInteger (uint epoch)), (CInteger 5, CInteger 3), (CInteger 6, CBytes digest),
      (CInteger 7, CBytes nonce), (CInteger 13, CBytes (replicate 64 1))]"

definition sample_response_bytes :: "u64 \<Rightarrow> bytes \<Rightarrow> bytes \<Rightarrow> bytes" where
  "sample_response_bytes epoch digest nonce = enc_value (CMap (sample_response_map epoch digest nonce))"

lemma sample_response_parses:
  assumes "length digest = 32" "length nonce = 32"
  shows "parse_response (sample_response_map epoch digest nonce) = Inr (sample_response_at epoch digest nonce)"
proof -
  have u: "as_u64 (CInteger (uint epoch)) = Some epoch" by (simp add: as_u64_Some)
  have "check_strict_keys (sample_response_map epoch digest nonce) (\<lambda>n. (1 \<le> n \<and> n \<le> 9) \<or> n = 13)"
    by (simp add: check_strict_keys_iff sample_response_map_def as_u64_def)
  then show ?thesis
    using assms u
    by (simp add: parse_response_def sample_response_map_def sample_response_at_def map_get_def as_u64_def
        as_text_def as_bytes32_def as_bytes_n_def as_bytes_def opt_field_def Let_def)
qed

lemma sample_response_canonical:
  assumes "length digest = 32" "length nonce = 32"
  shows "strict_decode_map (sample_response_bytes epoch digest nonce) = Some (sample_response_map epoch digest nonce)"
proof -
  have "uint epoch < 2 ^ 64" using uint_lt2p [of epoch] by simp
  moreover have "- 18446744073709551616 \<le> uint epoch" using uint_ge_0 [of epoch] by linarith
  ultimately show ?thesis
    using assms unfolding sample_response_bytes_def strict_decode_map_iff
    by (simp add: sample_response_map_def MAX_CBOR_DEPTH_def put_uint_def Let_def utf8_valid_ascii ascii_def)
qed

lemma sample_response_verified:
  assumes "length digest = 32" "length nonce = 32"
    "ed_verify_strict C (kc_anchor_root sample_config)
       (anchor_signed_preimage (sample_response_at epoch digest nonce)) (replicate 64 1)"
    "ed_key_ok C (kc_anchor_root sample_config)"
  shows "verify_anchor_response_bytes C (sample_response_bytes epoch digest nonce) nonce sample_config
     = Inr (state_of (sample_response_at epoch digest nonce))"
proof -
  have f: "an_signature (sample_response_at epoch digest nonce) = replicate 64 1"
    "an_version (sample_response_at epoch digest nonce) = 1"
    "an_chain_id (sample_response_at epoch digest nonce) = kc_twod_chain_id sample_config"
    "an_environment_identifier (sample_response_at epoch digest nonce) = kc_environment_identifier sample_config"
    "an_nonce (sample_response_at epoch digest nonce) = nonce"
    by (simp_all add: sample_response_at_def sample_config_def)
  show ?thesis
    using assms
    by (simp add: verify_anchor_response_bytes_def verify_anchor_response_def sample_response_canonical
        sample_response_parses ANCHOR_RESPONSE_VERSION_def state_of_def f)
qed

definition sample_response :: anchor_response where
  "sample_response = sample_response_at 7 (replicate 32 9) (replicate 32 4)"

lemma sample_response_ok: "anchor_response_ok sample_response"
  by (simp add: anchor_response_ok_def sample_response_def sample_response_at_def)


section \<open>Properties\<close>

text \<open>C27: Whatever the channel delivers, a freshness response that the enclave accepts carries a
  valid anchor signature, and if the signed message is one the anchor ever signed (of any of its
  three kinds) then the anchor reported exactly the returned state, for this chain, this
  environment and this handshake's nonce.\<close>

theorem anchor_state_authentic:
  assumes "\<forall>h\<in>H. anchor_response_ok h"
    and "verify_anchor_response_bytes C bs nonce cfg = Inr st"
  shows "\<exists>m r. strict_decode_map bs = Some m \<and> parse_response m = Inr r
    \<and> ed_verify_strict C (kc_anchor_root cfg) (anchor_signed_preimage r) (an_signature r)
    \<and> (anchor_signed_preimage r \<in> anchor_signed H M A \<longrightarrow>
        (\<exists>h\<in>H. state_of h = st \<and> an_nonce h = nonce \<and> an_chain_id h = kc_twod_chain_id cfg
           \<and> an_environment_identifier h = kc_environment_identifier cfg))"
proof -
  obtain m r where d: "strict_decode_map bs = Some m" "parse_response m = Inr r"
      "ed_verify_strict C (kc_anchor_root cfg) (anchor_signed_preimage r) (an_signature r)"
    and r: "anchor_response_ok r" "an_chain_id r = kc_twod_chain_id cfg" "an_nonce r = nonce"
      "an_environment_identifier r = kc_environment_identifier cfg" "st = state_of r"
    using verify_anchor_response_bytes_Inr [OF assms(2)] by (auto simp: state_of_def)
  have "\<exists>h\<in>H. h\<lparr>an_signature := []\<rparr> = r\<lparr>an_signature := []\<rparr>"
    if "anchor_signed_preimage r \<in> anchor_signed H M A"
    using freshness_signed [OF assms(1) r(1) that] .
  then show ?thesis using d r unsigned_response by metis
qed

lemma anchor_state_authentic_witness:
  "\<exists>m r. strict_decode_map (sample_response_bytes 7 (replicate 32 9) (replicate 32 4)) = Some m
    \<and> parse_response m = Inr r
    \<and> (anchor_signed_preimage r \<in> anchor_signed {sample_response} {} {} \<longrightarrow>
        (\<exists>h\<in>{sample_response}. state_of h = state_of sample_response \<and> an_nonce h = replicate 32 4))"
proof -
  have v: "verify_anchor_response_bytes (sample_verifier (anchor_signed_preimage sample_response))
      (sample_response_bytes 7 (replicate 32 9) (replicate 32 4)) (replicate 32 4) sample_config
      = Inr (state_of sample_response)"
    unfolding sample_response_def
    by (rule sample_response_verified) (simp_all add: sample_verifier_def sample_crypto_def)
  show ?thesis
    using anchor_state_authentic [OF _ v, of "{sample_response}" "{}" "{}"] sample_response_ok by blast
qed

text \<open>What the anchor must have signed for accepted marks or for an accepted acknowledgement.\<close>

definition marks_reported :: "marks_resp_fields set \<Rightarrow> keystore_config \<Rightarrow> bytes \<Rightarrow> u64 \<Rightarrow> bytes \<Rightarrow> bool" where
  "marks_reported M cfg nonce epoch p \<longleftrightarrow> (\<exists>h\<in>M. mr_marks_payload h = p \<and> mr_nonce h = nonce
     \<and> mr_epoch h = epoch \<and> mr_chain_id h = kc_twod_chain_id cfg
     \<and> mr_environment_identifier h = kc_environment_identifier cfg)"

definition commit_acknowledged :: "commit_ack_fields set \<Rightarrow> keystore_config \<Rightarrow> expected_commit_ack \<Rightarrow> bool" where
  "commit_acknowledged A cfg ex \<longleftrightarrow> (\<exists>h\<in>A. ca_nonce h = ea_nonce ex \<and> ca_epoch h = ea_epoch ex
     \<and> ca_structural_version h = ea_structural_version ex \<and> ca_marks_digest h = ea_marks_digest ex
     \<and> ca_request_id h = ea_request_id ex \<and> ca_chain_id h = kc_twod_chain_id cfg
     \<and> ca_environment_identifier h = kc_environment_identifier cfg)"

lemma marks_reported_if_signed:
  assumes "\<forall>h\<in>M. marks_response_ok MAX_MARKS_PAYLOAD_LEN h"
    and "verify_marks_response_bytes C bs nonce epoch cfg = Inr p"
  shows "\<exists>r. bs = enc_marks_response r
    \<and> ed_verify_strict C (kc_anchor_root cfg) (marks_resp_signed_preimage r) (mr_signature r)
    \<and> (marks_resp_signed_preimage r \<in> anchor_signed H M A \<longrightarrow> marks_reported M cfg nonce epoch p)"
proof -
  obtain r where r: "marks_response_ok MAX_MARKS_PAYLOAD_LEN r" "bs = enc_marks_response r"
      "ed_verify_strict C (kc_anchor_root cfg) (marks_resp_signed_preimage r) (mr_signature r)"
      "mr_chain_id r = kc_twod_chain_id cfg" "mr_environment_identifier r = kc_environment_identifier cfg"
      "mr_nonce r = nonce" "mr_epoch r = epoch" "mr_marks_payload r = p"
    using assms(2) by (auto simp: verify_marks_response_bytes_Inr)
  then show ?thesis
    using marks_signed [OF assms(1) r(1)] unsigned_marks unfolding marks_reported_def by metis
qed

lemma commit_acknowledged_if_signed:
  assumes "\<forall>h\<in>A. commit_ack_ok MAX_REQUEST_ID_LEN h"
    and "verify_commit_ack_bytes C bs ex cfg = Inr ()"
  shows "\<exists>r. bs = enc_commit_ack r
    \<and> ed_verify_strict C (kc_anchor_root cfg) (commit_ack_signed_preimage r) (ca_signature r)
    \<and> (commit_ack_signed_preimage r \<in> anchor_signed H M A \<longrightarrow> commit_acknowledged A cfg ex)"
proof -
  obtain r where r: "commit_ack_ok MAX_REQUEST_ID_LEN r" "bs = enc_commit_ack r"
      "ed_verify_strict C (kc_anchor_root cfg) (commit_ack_signed_preimage r) (ca_signature r)"
      "ca_chain_id r = kc_twod_chain_id cfg" "ca_environment_identifier r = kc_environment_identifier cfg"
      "ca_nonce r = ea_nonce ex" "ca_epoch r = ea_epoch ex"
      "ca_structural_version r = ea_structural_version ex" "ca_marks_digest r = ea_marks_digest ex"
      "ca_request_id r = ea_request_id ex"
    using assms(2) by (auto simp: verify_commit_ack_bytes_Inr MAX_REQUEST_ID_LEN_def)
  then show ?thesis
    using ack_signed [OF assms(1) r(1)] unsigned_ack unfolding commit_acknowledged_def by metis
qed

text \<open>The same for the two other messages. Accepted marks are the canonical encoding of a record
  with a valid anchor signature, which, if the anchor signed it, names exactly the returned marks for this
  nonce and epoch; an accepted commit acknowledgement, if the anchor signed it, acknowledges exactly the
  epoch, structural version, marks digest, nonce and request the enclave proposed.\<close>

theorem anchor_effects_authentic:
  assumes "\<forall>h\<in>M. marks_response_ok MAX_MARKS_PAYLOAD_LEN h" "\<forall>h\<in>A. commit_ack_ok MAX_REQUEST_ID_LEN h"
  shows "(verify_marks_response_bytes C bs nonce epoch cfg = Inr p \<longrightarrow>
      (\<exists>r. bs = enc_marks_response r
        \<and> ed_verify_strict C (kc_anchor_root cfg) (marks_resp_signed_preimage r) (mr_signature r)
        \<and> (marks_resp_signed_preimage r \<in> anchor_signed H M A \<longrightarrow> marks_reported M cfg nonce epoch p)))
    \<and> (verify_commit_ack_bytes C bs ex cfg = Inr () \<longrightarrow>
      (\<exists>r. bs = enc_commit_ack r
        \<and> ed_verify_strict C (kc_anchor_root cfg) (commit_ack_signed_preimage r) (ca_signature r)
        \<and> (commit_ack_signed_preimage r \<in> anchor_signed H M A \<longrightarrow> commit_acknowledged A cfg ex)))"
  using marks_reported_if_signed [OF assms(1)] commit_acknowledged_if_signed [OF assms(2)] by blast

definition sample_ack :: commit_ack_fields where
  "sample_ack = \<lparr>ca_version = 1, ca_chain_id = 11565, ca_environment_identifier = ascii ''lab'', ca_epoch = 7,
     ca_structural_version = 3, ca_marks_digest = replicate 32 9, ca_nonce = replicate 32 4,
     ca_request_id = [1], ca_signature = replicate 64 1\<rparr>"

definition sample_expected_ack :: expected_commit_ack where
  "sample_expected_ack = \<lparr>ea_nonce = replicate 32 4, ea_epoch = 7, ea_structural_version = 3,
     ea_marks_digest = replicate 32 9, ea_request_id = [1]\<rparr>"

lemma sample_ack_ok: "commit_ack_ok MAX_REQUEST_ID_LEN sample_ack"
  by (simp add: commit_ack_ok_def sample_ack_def MAX_REQUEST_ID_LEN_def utf8_valid_ascii ascii_def
      MAX_STR_LEN_def)

lemma sample_ack_verified:
  "verify_commit_ack_bytes (sample_verifier (commit_ack_signed_preimage sample_ack)) (enc_commit_ack sample_ack)
     sample_expected_ack sample_config = Inr ()"
proof -
  have "commit_ack_ok 64 sample_ack" using sample_ack_ok by (simp add: MAX_REQUEST_ID_LEN_def)
  then show ?thesis
    unfolding verify_commit_ack_bytes_Inr
    by (intro exI [of _ sample_ack])
      (simp add: sample_verifier_def sample_crypto_def, simp add: sample_ack_def sample_expected_ack_def sample_config_def)
qed

lemma anchor_effects_authentic_witness:
  "\<exists>r. enc_commit_ack sample_ack = enc_commit_ack r
    \<and> (commit_ack_signed_preimage r \<in> anchor_signed {} {} {sample_ack} \<longrightarrow>
         commit_acknowledged {sample_ack} sample_config sample_expected_ack)"
  by (rule conjunct2 [OF anchor_effects_authentic [of "{}" "{sample_ack}"
      "sample_verifier (commit_ack_signed_preimage sample_ack)"], THEN mp, THEN exE])
    (use sample_ack_ok sample_ack_verified in auto)

text \<open>The reconcile decision is the two-phase model: fresh exactly when epoch, structural
  version and marks all agree; a forward adoption exactly when the anchor is ahead with the same
  structural version, and then of the anchor's own epoch; behind, a structural gap and every
  disagreement at equal epochs fail closed. An anchor behind the enclave is never adopted.\<close>

theorem reconcile_exact:
  "(reconcile le ls ld a = Fresh \<longleftrightarrow>
      as_epoch a = le \<and> as_structural_version a = ls \<and> as_marks_digest a = ld)
   \<and> (reconcile le ls ld a = AdoptForward e \<longleftrightarrow> e = as_epoch a \<and> le < e \<and> as_structural_version a = ls)
   \<and> (reconcile le ls ld a = FailClosed AnchorBehind \<longleftrightarrow> as_epoch a < le)
   \<and> (reconcile le ls ld a = FailClosed StructuralGap \<longleftrightarrow>
        le < as_epoch a \<and> as_structural_version a \<noteq> ls)
   \<and> (reconcile le ls ld a = FailClosed Inconsistent \<longleftrightarrow>
        as_epoch a = le \<and> \<not> (as_structural_version a = ls \<and> as_marks_digest a = ld))"
  by (auto simp: reconcile_cases)

end
