(* ===== verification/Strict_Map.thy ===== *)
theory Strict_Map
  imports Anchor
begin

text \<open>
  Wire maps with a schema \<open>{1: .., .., n: ..}\<close>. The decoders of \<open>agent_provision.rs\<close> and of the boot
  relay read such a map in three steps: the strict reader, \<open>check_strict_keys\<close> over \<open>1..=n\<close> and one lookup for
  every key. Together they leave one map only, the values in the order of their keys, so that a decoder built
  from them accepts one encoding of each message.
\<close>

definition field_map :: "cbor_value list \<Rightarrow> (cbor_value \<times> cbor_value) list" where
  "field_map vs = map (\<lambda>(i, v). (CInteger (int i), v)) (enumerate 1 vs)"

text \<open>The lookups of a decoder: \<open>map_get(..).ok_or(e)?\<close> followed by a typed accessor.\<close>

definition field :: "'e \<Rightarrow> (cbor_value \<Rightarrow> 'a option) \<Rightarrow> (cbor_value \<times> cbor_value) list \<Rightarrow> u64 \<Rightarrow> 'e + 'a" where
  "field e f m k = res_bind (ok_or e (map_get m k)) (\<lambda>v. ok_or e (f v))"

lemma field_Inr [res_simps]: "field e f m k = Inr x \<longleftrightarrow> (\<exists>v. map_get m k = Some v \<and> f v = Some x)"
  by (auto simp: field_def res_simps)

lemma field_Inl [res_simps]:
  "field e f m k = Inl e' \<longleftrightarrow> e' = e \<and> (case map_get m k of None \<Rightarrow> True | Some v \<Rightarrow> f v = None)"
  by (auto simp: field_def res_simps split: option.splits)

lemma length_field_map [simp]: "length (field_map vs) = length vs"
  by (simp add: field_map_def)

lemma nth_field_map: "i < length vs \<Longrightarrow> field_map vs ! i = (CInteger (int (Suc i)), vs ! i)"
  by (simp add: field_map_def nth_enumerate_eq)

lemma map_snd_field_map [simp]: "map snd (field_map vs) = vs"
  by (rule nth_equalityI) (simp_all add: nth_field_map)

lemma map_fst_field_map: "map fst (field_map vs) = map (\<lambda>i. CInteger (int i)) [1..<Suc (length vs)]"
  by (rule nth_equalityI) (simp_all add: nth_field_map nth_append del: upt_Suc)

lemma enc_small_key: "i < 24 \<Longrightarrow> enc_value (CInteger (int i)) = [of_nat i]"
proof -
  assume i: "i < 24"
  have "(of_nat i :: u64) < 24" using i by (simp add: word_less_nat_alt unat_of_nat_u64)
  moreover have "ucast (of_nat i :: u64) = (of_nat i :: u8)"
    using i by (simp add: word_unat_eq_iff unat_ucast_u8 unat_of_nat_u64 unat_of_nat_u8)
  ultimately show ?thesis by (simp add: put_uint_def)
qed

lemma small_keys_ascend_iff: "\<forall>i \<in> set ks. i < 24 \<Longrightarrow>
    sorted_wrt (<) (map (\<lambda>i. enc_value (CInteger (int i))) ks) \<longleftrightarrow> sorted_wrt (<) ks"
proof (induction ks)
  case (Cons k ks)
  have "[of_nat k] < ([of_nat i] :: bytes) \<longleftrightarrow> k < i" if "i \<in> set ks" for i
  proof -
    have "i < 256" "k < 256" using that Cons.prems by force+
    then show ?thesis by (simp add: word_less_nat_alt unat_of_nat_u8)
  qed
  then show ?case using Cons by (simp add: enc_small_key del: enc_value.simps)
qed simp

lemma uint_small: "i < 24 \<Longrightarrow> uint (of_nat i :: u64) = int i"
  by (simp add: unsigned_of_nat take_bit_nat_eq_self)

lemma as_u64_small: "i < 24 \<Longrightarrow> as_u64 (CInteger (int i)) = Some (of_nat i)"
  by (simp add: as_u64_Some uint_small)

lemma of_nat_small_eq: "i < 24 \<Longrightarrow> j < 24 \<Longrightarrow> (of_nat i :: u64) = of_nat j \<longleftrightarrow> i = j"
  by (metis uint_small of_nat_eq_iff)

text \<open>The map a schema leaves.\<close>

lemma canon_fields:
  assumes "canon_value (CMap m) mx 1" "check_strict_keys m (\<lambda>k. 1 \<le> k \<and> k \<le> of_nat n)" "n < 24"
    and "length m = n \<or> (\<forall>i \<in> {1..n}. map_get m (of_nat i) \<noteq> None)"
  shows "m = field_map (map snd m) \<and> length m = n"
proof -
  define ks where "ks = map (\<lambda>kv. case fst kv of CInteger i \<Rightarrow> nat i | _ \<Rightarrow> 0) m"
  have n: "unat (of_nat n :: u64) = n" using assms(3) by (simp add: unat_of_nat_u64)
  have key: "\<exists>i. fst kv = CInteger (int i) \<and> 1 \<le> i \<and> i \<le> n" if "kv \<in> set m" for kv
  proof -
    obtain k where "as_u64 (fst kv) = Some k" "1 \<le> k" "k \<le> of_nat n"
      using assms(2) \<open>kv \<in> set m\<close> unfolding check_strict_keys_iff by blast
    then show ?thesis
      by (intro exI [of _ "unat k"]) (simp add: as_u64_Some word_le_nat_alt n)
  qed
  have fst_m: "map fst m = map (\<lambda>i. CInteger (int i)) ks"
    unfolding ks_def map_map by (rule map_cong [OF refl]) (use key in force)
  have ks_n: "set ks \<subseteq> {1..n}" using key by (fastforce simp: ks_def)
  have "map (\<lambda>kv. enc_value (fst kv)) m = map (\<lambda>i. enc_value (CInteger (int i))) ks"
    using arg_cong [OF fst_m, of "map enc_value"] by (simp add: comp_def del: enc_value.simps)
  then have "sorted_wrt (<) ks"
    using assms(1,3) small_keys_ascend_iff [of ks] ks_n by (force simp del: enc_value.simps)
  moreover have "set ks = {1..n}"
    using assms(4)
  proof
    assume "length m = n"
    then have "card (set ks) = n"
      using \<open>sorted_wrt (<) ks\<close> distinct_card [of ks] by (simp add: ks_def strict_sorted_iff)
    then show ?thesis using ks_n by (simp add: card_subset_eq)
  next
    assume all: "\<forall>i \<in> {1..n}. map_get m (of_nat i) \<noteq> None"
    have "i \<in> set ks" if i: "i \<in> {1..n}" for i
    proof -
      obtain kv where "kv \<in> set m" "as_u64 (fst kv) = Some (of_nat i)"
        using all [rule_format, OF i] by (auto simp: map_get_def find_None_iff case_prod_unfold)
      moreover have "uint (of_nat i :: u64) = int i"
        using i assms(3) by (simp add: uint_small)
      ultimately have "fst kv = CInteger (int i)" by (simp only: as_u64_Some)
      with \<open>kv \<in> set m\<close> show ?thesis by (force simp: ks_def)
    qed
    then show ?thesis using ks_n by blast
  qed
  ultimately have ks: "ks = [1..<Suc n]"
    by (intro strict_sorted_equal) (simp_all add: atLeastLessThanSuc_atLeastAtMost strict_sorted_iff del: upt_Suc)
  have "length ks = length m" by (simp add: ks_def)
  then have "length m = n" by (simp add: ks del: upt_Suc)
  moreover have "m = field_map (map snd m)"
  proof (rule pair_list_eqI)
    show "map fst m = map fst (field_map (map snd m))"
      using \<open>length m = n\<close> by (simp only: map_fst_field_map fst_m ks length_map)
  qed simp
  ultimately show ?thesis by simp
qed

lemma field_map_canon:
  assumes "length vs < 24"
  shows "canon_value (CMap (field_map vs)) mx 1 \<longleftrightarrow> (\<forall>v \<in> set vs. canon_value v mx 2)"
proof -
  have keys: "map (\<lambda>kv. enc_value (fst kv)) (field_map vs) = map (\<lambda>i. enc_value (CInteger (int i))) [1..<Suc (length vs)]"
    using arg_cong [OF map_fst_field_map, of "map enc_value" vs] by (simp add: comp_def del: enc_value.simps)
  have "sorted_wrt (<) (map (\<lambda>kv. enc_value (fst kv)) (field_map vs))"
    unfolding keys using assms by (subst small_keys_ascend_iff) (auto simp: strict_sorted_iff simp del: upt_Suc)
  moreover have "list_all (\<lambda>(ck, cv). ck mx (1 + 1) \<and> cv mx (1 + 1)) (map (map_prod canon_value canon_value) (field_map vs))
    \<longleftrightarrow> (\<forall>v \<in> set vs. canon_value v mx 2)"
    using assms
    by (simp add: list_all_length nth_field_map all_set_conv_all_nth MAX_CBOR_DEPTH_def numeral_2_eq_2)
  ultimately show ?thesis using assms by (simp add: MAX_CBOR_DEPTH_def del: enc_value.simps)
qed

lemma field_map_keys:
  assumes "length vs < 24"
  shows "check_strict_keys (field_map vs) (\<lambda>k. 1 \<le> k \<and> k \<le> of_nat (length vs))"
proof -
  have n: "unat (of_nat (length vs) :: u64) = length vs" using assms by (simp add: unat_of_nat_u64)
  have 1: "\<exists>k. as_u64 (fst kv) = Some k \<and> (1 \<le> k \<and> k \<le> of_nat (length vs)) \<and> 1 \<le> k \<and> k \<le> 64"
    if kv: "kv \<in> set (field_map vs)" for kv
  proof -
    obtain i where i: "i < length vs" "kv = (CInteger (int (Suc i)), vs ! i)"
      using kv by (auto simp: in_set_conv_nth nth_field_map simp del: of_nat_Suc)
    define k where "k = (of_nat (Suc i) :: u64)"
    have "unat k = Suc i" unfolding k_def using assms i(1) by (intro unat_of_nat_u64) simp
    moreover have "as_u64 (fst kv) = Some k"
      unfolding i(2) fst_conv k_def using assms i(1) by (intro as_u64_small) linarith
    ultimately show ?thesis using assms i(1) by (intro exI [of _ k]) (simp add: word_le_nat_alt n)
  qed
  have "map (\<lambda>kv. as_u64 (fst kv)) (field_map vs) = map (\<lambda>i. Some (of_nat i)) [1..<Suc (length vs)]"
    by (rule nth_equalityI) (use assms as_u64_small in \<open>auto simp: nth_field_map simp del: of_nat_Suc upt_Suc\<close>)
  moreover have "inj_on (\<lambda>i. Some (of_nat i :: u64)) (set [1..<Suc (length vs)])"
    using assms by (intro inj_onI) (auto simp: of_nat_small_eq)
  ultimately have "distinct (map (\<lambda>kv. as_u64 (fst kv)) (field_map vs))"
    by (simp only: distinct_map distinct_upt simp_thms)
  with 1 show ?thesis unfolding check_strict_keys_iff by blast
qed

lemma map_get_field_map:
  assumes "length vs < 24" "i < length vs"
  shows "map_get (field_map vs) (of_nat (Suc i)) = Some (vs ! i)"
proof -
  have "find (\<lambda>(k, _). as_u64 k = Some (of_nat (Suc i))) (field_map vs) = Some (CInteger (int (Suc i)), vs ! i)"
    unfolding find_Some_iff
  proof (intro exI [of _ i] conjI allI impI)
    show "case field_map vs ! i of (k, _) \<Rightarrow> as_u64 k = Some (of_nat (Suc i))"
      using as_u64_small [of "Suc i"] assms by (simp add: nth_field_map del: of_nat_Suc)
    show "\<not> (case field_map vs ! j of (k, _) \<Rightarrow> as_u64 k = Some (of_nat (Suc i)))" if "j < i" for j
      using that as_u64_small [of "Suc j"] assms of_nat_small_eq [of "Suc j" "Suc i"]
      by (simp add: nth_field_map del: of_nat_Suc)
  qed (use assms in \<open>simp_all add: nth_field_map\<close>)
  then show ?thesis by (simp add: map_get_def)
qed

text \<open>What a decoder has when its reader, its key check and its lookups have passed, and when they do.\<close>

lemma decoded_fields:
  assumes "strict_decode_map_capped bs mx = Some m" "check_strict_keys m (\<lambda>k. 1 \<le> k \<and> k \<le> of_nat n)" "n < 24"
    and "length m = n \<or> (\<forall>i \<in> {1..n}. map_get m (of_nat i) \<noteq> None)"
  shows "\<exists>vs. length vs = n \<and> m = field_map vs \<and> (\<forall>v \<in> set vs. canon_value v mx 2)
    \<and> bs = enc_value (CMap (field_map vs))"
proof -
  have canon: "canon_value (CMap m) mx 1" and bs: "bs = enc_value (CMap m)"
    using assms(1) by (simp_all only: strict_decode_map_capped_iff)
  have m: "m = field_map (map snd m)" "length (map snd m) = n"
    using canon_fields [OF canon assms(2-4)] by auto
  then have "\<forall>v \<in> set (map snd m). canon_value v mx 2"
    using field_map_canon [of "map snd m" mx] canon assms(3) by simp
  with m bs show ?thesis by metis
qed

lemma decode_fields:
  assumes "length vs < 24" "\<forall>v \<in> set vs. canon_value v mx 2"
  shows "strict_decode_map_capped (enc_value (CMap (field_map vs))) mx = Some (field_map vs)"
    and "check_strict_keys (field_map vs) (\<lambda>k. 1 \<le> k \<and> k \<le> of_nat (length vs))"
  using field_map_canon [of vs mx] field_map_keys [of vs] assms by (simp_all add: strict_decode_map_capped_iff)

lemma keys_upto:
  "{1..1} = {1 :: nat}" "{1..2} = {1, 2 :: nat}" "{1..6} = {1, 2, 3, 4, 5, 6 :: nat}"
  by auto

lemma enc_field_map:
  "enc_value (CMap (field_map vs))
    = put_uint 5 (of_nat (length vs)) @ concat (map (\<lambda>(i, v). put_uint 0 (of_nat i) @ enc_value v) (enumerate 1 vs))"
  unfolding enc_value_CMap
  by (simp add: field_map_def enc_pairs_def comp_def case_prod_unfold)

lemma single_key: "(\<lambda>k :: u64. k = 1) = (\<lambda>k. 1 \<le> k \<and> k \<le> of_nat 1)"
  by (auto intro!: ext simp: word_le_nat_alt word_unat_eq_iff)

text \<open>The lookups and values of small schemas.\<close>

lemma fields_at:
  "map_get (field_map [a]) 1 = Some a"
  "map_get (field_map [a, b]) 1 = Some a" "map_get (field_map [a, b]) 2 = Some b"
  by (simp_all add: map_get_def field_map_def enumerate_simps as_u64_def)

lemma fields6_at:
  "map_get (field_map [a, b, c, d, e, f]) 1 = Some a" "map_get (field_map [a, b, c, d, e, f]) 2 = Some b"
  "map_get (field_map [a, b, c, d, e, f]) 3 = Some c" "map_get (field_map [a, b, c, d, e, f]) 4 = Some d"
  "map_get (field_map [a, b, c, d, e, f]) 5 = Some e" "map_get (field_map [a, b, c, d, e, f]) 6 = Some f"
  by (simp_all add: map_get_def field_map_def enumerate_simps as_u64_def)

lemma fields7_at:
  "map_get (field_map [a, b, c, d, e, f, g]) 1 = Some a" "map_get (field_map [a, b, c, d, e, f, g]) 2 = Some b"
  "map_get (field_map [a, b, c, d, e, f, g]) 3 = Some c" "map_get (field_map [a, b, c, d, e, f, g]) 4 = Some d"
  "map_get (field_map [a, b, c, d, e, f, g]) 5 = Some e" "map_get (field_map [a, b, c, d, e, f, g]) 6 = Some f"
  "map_get (field_map [a, b, c, d, e, f, g]) 7 = Some g"
  by (simp_all add: map_get_def field_map_def enumerate_simps as_u64_def)

lemma fields5_at:
  "map_get (field_map [a, b, c, d, e]) 1 = Some a" "map_get (field_map [a, b, c, d, e]) 2 = Some b"
  "map_get (field_map [a, b, c, d, e]) 3 = Some c" "map_get (field_map [a, b, c, d, e]) 4 = Some d"
  "map_get (field_map [a, b, c, d, e]) 5 = Some e"
  by (simp_all add: map_get_def field_map_def enumerate_simps as_u64_def)

lemma fields8_at:
  "map_get (field_map [a, b, c, d, e, f, g, h]) 1 = Some a" "map_get (field_map [a, b, c, d, e, f, g, h]) 2 = Some b"
  "map_get (field_map [a, b, c, d, e, f, g, h]) 3 = Some c" "map_get (field_map [a, b, c, d, e, f, g, h]) 4 = Some d"
  "map_get (field_map [a, b, c, d, e, f, g, h]) 5 = Some e" "map_get (field_map [a, b, c, d, e, f, g, h]) 6 = Some f"
  "map_get (field_map [a, b, c, d, e, f, g, h]) 7 = Some g" "map_get (field_map [a, b, c, d, e, f, g, h]) 8 = Some h"
  by (simp_all add: map_get_def field_map_def enumerate_simps as_u64_def)

lemma length_1_iff: "length vs = Suc 0 \<longleftrightarrow> (\<exists>a. vs = [a])"
  by (cases vs) auto

lemma length_2_iff: "length vs = 2 \<longleftrightarrow> (\<exists>a b. vs = [a, b])"
  by (auto simp: numeral_2_eq_2 length_Suc_conv)

lemma length_6_iff: "length vs = 6 \<longleftrightarrow> (\<exists>a b c d e f. vs = [a, b, c, d, e, f])"
  by (auto simp: eval_nat_numeral length_Suc_conv)

lemma length_7_iff: "length vs = 7 \<longleftrightarrow> (\<exists>a b c d e f g. vs = [a, b, c, d, e, f, g])"
  by (auto simp: eval_nat_numeral length_Suc_conv)

lemma canon_CBytes [simp]: "d \<le> 4 \<Longrightarrow> canon_value (CBytes b) mx d \<longleftrightarrow> length b \<le> unat mx"
  by (simp add: MAX_CBOR_DEPTH_def)

lemma as_bytes_n_CBytes [simp]: "as_bytes_n n (CBytes b) = (if length b = n then Some b else None)"
  by (simp add: as_bytes_n_def as_bytes_def)

lemma as_u64_uint [simp]: "as_u64 (CInteger (uint n)) = Some n"
  by (simp add: as_u64_Some)

lemma env_id_ascii: "env_id_loop p b \<Longrightarrow> \<forall>c \<in> set b. c < 0x80"
  by (induction p b rule: env_id_loop.induct) (auto simp: env_char_def word_less_nat_alt word_le_nat_alt split: if_splits)

lemma valid_env_utf8: "is_valid_environment_identifier b \<Longrightarrow> utf8_valid b \<and> length b \<le> 64"
  using env_id_ascii [of False b] by (auto simp: is_valid_environment_identifier_def utf8_valid_ascii split: if_splits)

end
