(* ===== verification/Capability.thy ===== *)
theory Capability
  imports Anchor
begin

text \<open>
  Model of \<open>agent_capability.rs\<close>: the strict decoding of an administrative or recovery capability,
  its Ed25519 signing preimage, and the verification against the sealed configuration and counters.
  The error band \<open>AgentError\<close> of \<open>agent_dispatch.rs\<close> is here because this is the lowest component that
  returns it. The lemmas show what an accepted capability establishes, that the preimage determines
  every signed field, and that an accepted capability is refused once its counter has been advanced.
\<close>

section \<open>The error band\<close>

datatype agent_error =
    Malformed | WrongProfile | KeyPurposeMismatch | CapabilityRejected | CapExceeded | NotConfigured | SealFailed

fun code :: "agent_error \<Rightarrow> u8" where
  "code agent_error.Malformed = 0x40"
| "code WrongProfile = 0x41"
| "code KeyPurposeMismatch = 0x42"
| "code CapabilityRejected = 0x43"
| "code CapExceeded = 0x44"
| "code NotConfigured = 0x45"
| "code SealFailed = 0x46"

text \<open>The band is ordered by its wire code.\<close>

lemma code_inj: "code e = code f \<longleftrightarrow> e = f"
  by (cases e; cases f) simp_all

instantiation agent_error :: linorder
begin

definition less_eq_agent_error :: "agent_error \<Rightarrow> agent_error \<Rightarrow> bool" where
  "less_eq_agent_error e f \<longleftrightarrow> code e \<le> code f"

definition less_agent_error :: "agent_error \<Rightarrow> agent_error \<Rightarrow> bool" where
  "less_agent_error e f \<longleftrightarrow> code e < code f"

instance
  by standard (auto simp: less_eq_agent_error_def less_agent_error_def le_less code_inj,
      metis code_inj linorder_neqE)

end

section \<open>The capability\<close>

definition CAP_DOMAIN :: bytes where "CAP_DOMAIN = ascii ''2d-hsm/agent-cap/v1'' @ [0]"
definition CAP_FORMAT_VERSION :: u64 where "CAP_FORMAT_VERSION = 2"
definition OPCODE_CONFIGURE_TREASURY :: u8 where "OPCODE_CONFIGURE_TREASURY = 6"
definition PRIVILEGED_OPCODES :: "u8 list" where "PRIVILEGED_OPCODES = [1, OPCODE_CONFIGURE_TREASURY, 7, 8]"
definition MAX_TREASURY_SUB_OP :: u8 where "MAX_TREASURY_SUB_OP = 3"
definition TREASURY_SUB_OP_RESET_LIFETIME_BREAKER :: u8 where "TREASURY_SUB_OP_RESET_LIFETIME_BREAKER = 3"
definition MAX_CAP_REQUEST_ID_LEN :: nat where "MAX_CAP_REQUEST_ID_LEN = 64"

definition is_valid_scope_target :: "bytes \<Rightarrow> bool" where
  "is_valid_scope_target b =
     (if b = [] \<or> length b > MAX_SCOPE_TARGET_LEN then False
      else list_all (\<lambda>c. (0x61 \<le> c \<and> c \<le> 0x7a) \<or> (0x30 \<le> c \<and> c \<le> 0x39) \<or> c = 0x5f \<or> c = 0x2d) b)"

record capability =
  cp_cap_format_version :: u64
  cp_command_opcode :: u8
  cp_treasury_sub_op :: "u8 option"
  cp_key_purpose :: u8
  cp_chain_id :: u64
  cp_environment_identifier :: bytes
  cp_scope_class :: u8
  cp_scope_target :: bytes
  cp_counter :: u64
  cp_request_id :: bytes
  cp_payload_binding :: bytes
  cp_is_recovery :: bool
  cp_scope_identity :: bytes
  cp_signature :: bytes

record verified_capability =
  vc_authority :: bytes
  vc_scope_class :: u8
  vc_scope_target :: bytes
  vc_counter :: u64
  vc_payload_binding :: bytes
  vc_key_purpose :: u8
  vc_treasury_sub_op :: "u8 option"

text \<open>\<open>u8::try_from\<close> on a decoded integer, and the boolean field.\<close>

definition u8_try_from :: "u64 \<Rightarrow> u8 option" where
  "u8_try_from v = (if v \<le> 0xff then Some (ucast v) else None)"

definition as_u8 :: "cbor_value \<Rightarrow> u8 option" where
  "as_u8 v = do { n \<leftarrow> as_u64 v; u8_try_from n }"

definition as_bool :: "cbor_value \<Rightarrow> bool option" where
  "as_bool v = (case v of CBool b \<Rightarrow> Some b | _ \<Rightarrow> None)"

definition guarded :: "('a \<Rightarrow> bool) \<Rightarrow> 'a option \<Rightarrow> 'a option" where
  "guarded p m = (case m of Some x \<Rightarrow> if p x then Some x else None | None \<Rightarrow> None)"

text \<open>Key 3: present exactly on a treasury capability, and in range.\<close>

definition parse_treasury_sub_op :: "u8 \<Rightarrow> cbor_value option \<Rightarrow> agent_error + u8 option" where
  "parse_treasury_sub_op opcode field =
     (case field of
        Some v \<Rightarrow>
          if opcode \<noteq> OPCODE_CONFIGURE_TREASURY then Inl agent_error.Malformed
          else res_bind (ok_or agent_error.Malformed (as_u8 v)) (\<lambda>sub.
            if sub > MAX_TREASURY_SUB_OP then Inl agent_error.Malformed else Inr (Some sub))
      | None \<Rightarrow>
          if opcode = OPCODE_CONFIGURE_TREASURY then Inl agent_error.Malformed else Inr None)"

definition parse_capability :: "(cbor_value \<times> cbor_value) list \<Rightarrow> agent_error + capability" where
  "parse_capability m =
     (if \<not> check_strict_keys m (\<lambda>n. 1 \<le> n \<and> n \<le> 14) then Inl agent_error.Malformed
      else
         res_bind (ok_or agent_error.Malformed (Option.bind (map_get m 1) as_u64)) (\<lambda>version.
         res_bind (ok_or agent_error.Malformed (Option.bind (map_get m 2) as_u8)) (\<lambda>opcode.
         if opcode \<notin> set PRIVILEGED_OPCODES then Inl agent_error.Malformed
         else
         res_bind (parse_treasury_sub_op opcode (map_get m 3)) (\<lambda>sub_op.
         res_bind (ok_or agent_error.Malformed (Option.bind (map_get m 4) as_u8)) (\<lambda>key_purpose.
         if \<not> (1 \<le> key_purpose \<and> key_purpose \<le> 2) then Inl agent_error.Malformed
         else
         res_bind (ok_or agent_error.Malformed (Option.bind (map_get m 5) as_u64)) (\<lambda>chain_id.
         res_bind (ok_or agent_error.Malformed
             (guarded is_valid_environment_identifier (Option.bind (map_get m 6) as_text))) (\<lambda>env.
         res_bind (ok_or agent_error.Malformed (Option.bind (map_get m 7) as_u8)) (\<lambda>scope_class.
         if scope_class > 1 then Inl agent_error.Malformed
         else
         res_bind (ok_or agent_error.Malformed
             (guarded is_valid_scope_target (Option.bind (map_get m 8) as_bytes))) (\<lambda>scope_target.
         res_bind (ok_or agent_error.Malformed (Option.bind (map_get m 9) as_u64)) (\<lambda>counter.
         res_bind (ok_or agent_error.Malformed
             (guarded (\<lambda>b. length b \<le> MAX_CAP_REQUEST_ID_LEN) (Option.bind (map_get m 10) as_bytes))) (\<lambda>request_id.
         res_bind (ok_or agent_error.Malformed (Option.bind (map_get m 11) as_bytes32)) (\<lambda>binding.
         res_bind (ok_or agent_error.Malformed (Option.bind (map_get m 12) as_bool)) (\<lambda>is_recovery.
         res_bind (ok_or agent_error.Malformed (Option.bind (map_get m 13) as_bytes32)) (\<lambda>scope_identity.
         res_bind (ok_or agent_error.Malformed (Option.bind (map_get m 14) (as_bytes_n 64))) (\<lambda>sig.
         Inr \<lparr>cp_cap_format_version = version, cp_command_opcode = opcode, cp_treasury_sub_op = sub_op,
              cp_key_purpose = key_purpose, cp_chain_id = chain_id, cp_environment_identifier = env,
              cp_scope_class = scope_class, cp_scope_target = scope_target, cp_counter = counter,
              cp_request_id = request_id, cp_payload_binding = binding, cp_is_recovery = is_recovery,
              cp_scope_identity = scope_identity, cp_signature = sig\<rparr>)))))))))))))))"

definition cap_signed_preimage :: "capability \<Rightarrow> bytes" where
  "cap_signed_preimage c =
     (let count = (if cp_treasury_sub_op c \<noteq> None then 13 else 12) in
      CAP_DOMAIN @ put_uint 5 count
      @ put_uint 0 1 @ put_uint 0 (cp_cap_format_version c)
      @ put_uint 0 2 @ put_uint 0 (ucast (cp_command_opcode c))
      @ (case cp_treasury_sub_op c of Some sub \<Rightarrow> put_uint 0 3 @ put_uint 0 (ucast sub) | None \<Rightarrow> [])
      @ put_uint 0 4 @ put_uint 0 (ucast (cp_key_purpose c))
      @ put_uint 0 5 @ put_uint 0 (cp_chain_id c)
      @ put_uint 0 6 @ put_text (cp_environment_identifier c)
      @ put_uint 0 7 @ put_uint 0 (ucast (cp_scope_class c))
      @ put_uint 0 8 @ put_bytes (cp_scope_target c)
      @ put_uint 0 9 @ put_uint 0 (cp_counter c)
      @ put_uint 0 10 @ put_bytes (cp_request_id c)
      @ put_uint 0 11 @ put_bytes (cp_payload_binding c)
      @ put_uint 0 12 @ [if cp_is_recovery c then 0xf5 else 0xf4]
      @ put_uint 0 13 @ put_bytes (cp_scope_identity c))"

definition tier_ok :: "capability \<Rightarrow> bool" where
  "tier_ok c =
     (if cp_command_opcode c = 1 \<or> cp_command_opcode c = 7 then \<not> cp_is_recovery c
      else if cp_command_opcode c = 8 then cp_is_recovery c
      else if cp_command_opcode c = OPCODE_CONFIGURE_TREASURY then
        (case cp_treasury_sub_op c of
           Some sub \<Rightarrow> if sub = TREASURY_SUB_OP_RESET_LIFETIME_BREAKER then cp_is_recovery c
                       else \<not> cp_is_recovery c
         | None \<Rightarrow> False)
      else False)"

definition verify_capability_extract :: "crypto \<Rightarrow> (cbor_value \<times> cbor_value) list \<Rightarrow> u8 \<Rightarrow> bytes
    \<Rightarrow> keystore_config \<Rightarrow> counter_entry list \<Rightarrow> agent_error + verified_capability" where
  "verify_capability_extract C cap_map request_opcode request_id config counters =
     res_bind (parse_capability cap_map) (\<lambda>cap.
     if cp_cap_format_version cap \<noteq> CAP_FORMAT_VERSION then Inl agent_error.Malformed
     else if \<not> tier_ok cap then Inl CapabilityRejected
     else
       (let authority = (if cp_is_recovery cap then kc_recovery_authority_pk config
                         else kc_admin_authority_pk config) in
        if \<not> ed_key_ok C authority then Inl CapabilityRejected
        else if \<not> ed_verify_strict C authority (cap_signed_preimage cap) (cp_signature cap)
        then Inl CapabilityRejected
        else if cp_command_opcode cap \<noteq> request_opcode then Inl CapabilityRejected
        else if cp_request_id cap \<noteq> request_id then Inl CapabilityRejected
        else if cp_chain_id cap \<noteq> kc_twod_chain_id config then Inl CapabilityRejected
        else if cp_environment_identifier cap \<noteq> kc_environment_identifier config then Inl CapabilityRejected
        else
          (let sealed_scope_id = (if cp_scope_class cap = 0 then kc_enclave_scope_id config
                                  else kc_fleet_scope_id config) in
           if cp_scope_identity cap \<noteq> sealed_scope_id then Inl CapabilityRejected
           else
             (let highest = (case find (\<lambda>c. ce_authority c = authority
                    \<and> ce_environment_identifier c = cp_environment_identifier cap
                    \<and> ce_scope_class c = cp_scope_class cap
                    \<and> ce_scope_target c = cp_scope_target cap) counters of
                  Some c \<Rightarrow> ce_highest_accepted_counter c | None \<Rightarrow> 0) in
              res_bind (ok_or CapabilityRejected (checked_add_u64 highest 1)) (\<lambda>expected.
              if cp_counter cap \<noteq> expected then Inl CapabilityRejected
              else Inr \<lparr>vc_authority = authority, vc_scope_class = cp_scope_class cap,
                        vc_scope_target = cp_scope_target cap, vc_counter = cp_counter cap,
                        vc_payload_binding = cp_payload_binding cap, vc_key_purpose = cp_key_purpose cap,
                        vc_treasury_sub_op = cp_treasury_sub_op cap\<rparr>)))))"

definition payload_binding :: "crypto \<Rightarrow> u8 \<Rightarrow> u8 option \<Rightarrow> bytes \<Rightarrow> bytes \<Rightarrow> bytes" where
  "payload_binding C opcode sub_op request_id canonical_params =
     keccak_256 C ([opcode] @ (case sub_op of Some s \<Rightarrow> [s] | None \<Rightarrow> []) @ request_id @ canonical_params)"


section \<open>The preimage determines the capability\<close>

lemma u8_try_from_Some: "u8_try_from v = Some b \<longleftrightarrow> v = ucast b"
proof
  assume "u8_try_from v = Some b"
  then have v: "unat v \<le> 255" "b = ucast v"
    by (auto simp: u8_try_from_def word_le_nat_alt split: if_splits)
  then have "unat b = unat v" by (simp add: unat_ucast_u8)
  moreover have "unat (ucast b :: u64) = unat b" by (rule unat_ucast_up) simp
  ultimately have "unat (ucast b :: u64) = unat v" by simp
  then show "v = ucast b" by (simp add: word_unat_eq_iff)
next
  assume v: "v = ucast b"
  have u: "unat (ucast b :: u64) = unat b" by (rule unat_ucast_up) simp
  then have "unat (ucast b :: u64) \<le> 255" using unat_lt_256 [of b] by linarith
  then have "(ucast b :: u64) \<le> 0xff" by (simp add: word_le_nat_alt)
  moreover have "(ucast (ucast b :: u64) :: u8) = b"
    using unat_ucast_u8 [of "ucast b :: u64"] u by (simp add: word_unat_eq_iff)
  ultimately show "u8_try_from v = Some b" by (simp add: v u8_try_from_def)
qed

lemma as_u8_Some: "as_u8 v = Some b \<longleftrightarrow> as_u64 v = Some (ucast b)"
  by (auto simp: as_u8_def u8_try_from_Some bind_eq_Some_conv)

lemma guarded_Some [simp]: "guarded p m = Some x \<longleftrightarrow> m = Some x \<and> p x"
  by (cases m) (auto simp: guarded_def)

text \<open>The field limits \<open>parse_capability\<close> enforces.\<close>

definition capability_ok :: "capability \<Rightarrow> bool" where
  "capability_ok c \<longleftrightarrow> cp_command_opcode c \<in> set PRIVILEGED_OPCODES
     \<and> (cp_treasury_sub_op c = None \<longleftrightarrow> cp_command_opcode c \<noteq> OPCODE_CONFIGURE_TREASURY)
     \<and> (\<forall>s. cp_treasury_sub_op c = Some s \<longrightarrow> s \<le> MAX_TREASURY_SUB_OP)
     \<and> 1 \<le> cp_key_purpose c \<and> cp_key_purpose c \<le> 2 \<and> cp_scope_class c \<le> 1
     \<and> is_valid_environment_identifier (cp_environment_identifier c)
     \<and> is_valid_scope_target (cp_scope_target c) \<and> length (cp_request_id c) \<le> MAX_CAP_REQUEST_ID_LEN
     \<and> length (cp_payload_binding c) = 32 \<and> length (cp_scope_identity c) = 32
     \<and> length (cp_signature c) = 64"

lemma parse_treasury_sub_op_Inr:
  "parse_treasury_sub_op opcode field = Inr r \<Longrightarrow>
     (r = None \<longleftrightarrow> opcode \<noteq> OPCODE_CONFIGURE_TREASURY) \<and> (\<forall>s. r = Some s \<longrightarrow> s \<le> MAX_TREASURY_SUB_OP)"
  by (auto simp: parse_treasury_sub_op_def res_simps split: option.splits if_splits)

lemma parse_capability_ok: "parse_capability m = Inr c \<Longrightarrow> capability_ok c"
  by (auto simp: parse_capability_def res_simps capability_ok_def as_bytes32_def as_bytes_n_Some
      bind_eq_Some_conv not_less dest!: parse_treasury_sub_op_Inr split: if_splits)

lemma capability_ok_lengths:
  assumes "capability_ok c"
  shows "length (cp_environment_identifier c) < 2 ^ 64" "length (cp_scope_target c) < 2 ^ 64"
    "length (cp_request_id c) < 2 ^ 64" "length (cp_payload_binding c) = 32" "length (cp_scope_identity c) = 32"
  using assms
  by (auto simp: capability_ok_def is_valid_environment_identifier_def is_valid_scope_target_def
      MAX_SCOPE_TARGET_LEN_def MAX_CAP_REQUEST_ID_LEN_def split: if_splits)

lemma ucast_u8_inj: "(ucast a :: u64) = ucast b \<longleftrightarrow> a = (b :: u8)"
  by (metis u8_try_from_Some option.inject)

lemma cap_signed_preimage_inj:
  assumes "capability_ok c" "capability_ok d" "cap_signed_preimage c = cap_signed_preimage d"
  shows "c\<lparr>cp_signature := x\<rparr> = d\<lparr>cp_signature := x\<rparr>"
proof (cases c; cases d)
  fix v op sub kp ch e sc st n r pb rec si sig v' op' sub' kp' ch' e' sc' st' n' r' pb' rec' si' sig'
  assume c: "c = \<lparr>cp_cap_format_version = v, cp_command_opcode = op, cp_treasury_sub_op = sub,
      cp_key_purpose = kp, cp_chain_id = ch, cp_environment_identifier = e, cp_scope_class = sc,
      cp_scope_target = st, cp_counter = n, cp_request_id = r, cp_payload_binding = pb, cp_is_recovery = rec,
      cp_scope_identity = si, cp_signature = sig\<rparr>"
    and d: "d = \<lparr>cp_cap_format_version = v', cp_command_opcode = op', cp_treasury_sub_op = sub',
      cp_key_purpose = kp', cp_chain_id = ch', cp_environment_identifier = e', cp_scope_class = sc',
      cp_scope_target = st', cp_counter = n', cp_request_id = r', cp_payload_binding = pb', cp_is_recovery = rec',
      cp_scope_identity = si', cp_signature = sig'\<rparr>"
  note lens = capability_ok_lengths [OF assms(1), unfolded c] capability_ok_lengths [OF assms(2), unfolded d]
  show ?thesis
    using assms(3) lens
    by (cases sub; cases sub')
      (auto simp: c d cap_signed_preimage_def put_inj ucast_u8_inj split: if_splits)
qed

text \<open>The capabilities an authority has issued.\<close>

interpretation issued: signed_family cap_signed_preimage capability_ok "cp_signature_update (\<lambda>_. [])" "{}"
  by unfold_locales (auto dest: cap_signed_preimage_inj)

section \<open>What verification establishes\<close>

definition cap_authority :: "keystore_config \<Rightarrow> capability \<Rightarrow> bytes" where
  "cap_authority config cap = (if cp_is_recovery cap then kc_recovery_authority_pk config else kc_admin_authority_pk config)"

lemma signature_irrelevant [simp]:
  "tier_ok (c\<lparr>cp_signature := s\<rparr>) = tier_ok c"
  "cap_authority cfg (c\<lparr>cp_signature := s\<rparr>) = cap_authority cfg c"
  by (simp_all add: tier_ok_def cap_authority_def split: option.split)

lemma find_counter_row:
  "(\<lambda>c. ce_authority c = a \<and> ce_environment_identifier c = e \<and> ce_scope_class c = s \<and> ce_scope_target c = t)
     = counter_row a e s t"
  by (auto simp: counter_row_def)

lemma verify_capability_extract_Inr:
  "verify_capability_extract C m opcode request_id (kb_config b) (kb_counters b) = Inr v \<longleftrightarrow>
     (\<exists>cap. parse_capability m = Inr cap \<and> cp_cap_format_version cap = CAP_FORMAT_VERSION \<and> tier_ok cap
        \<and> ed_key_ok C (cap_authority (kb_config b) cap)
        \<and> ed_verify_strict C (cap_authority (kb_config b) cap) (cap_signed_preimage cap) (cp_signature cap)
        \<and> cp_command_opcode cap = opcode \<and> cp_request_id cap = request_id
        \<and> cp_chain_id cap = kc_twod_chain_id (kb_config b)
        \<and> cp_environment_identifier cap = kc_environment_identifier (kb_config b)
        \<and> cp_scope_identity cap = (if cp_scope_class cap = 0 then kc_enclave_scope_id (kb_config b)
                                   else kc_fleet_scope_id (kb_config b))
        \<and> unat (cp_counter cap) = Suc (highest_counter b
             (cap_authority (kb_config b) cap, cp_scope_class cap, cp_scope_target cap))
        \<and> v = \<lparr>vc_authority = cap_authority (kb_config b) cap, vc_scope_class = cp_scope_class cap,
               vc_scope_target = cp_scope_target cap, vc_counter = cp_counter cap,
               vc_payload_binding = cp_payload_binding cap, vc_key_purpose = cp_key_purpose cap,
               vc_treasury_sub_op = cp_treasury_sub_op cap\<rparr>)"
  (is "?L \<longleftrightarrow> (\<exists>cap. ?R cap)")
proof -
  have row: "(case find (counter_row a (kc_environment_identifier (kb_config b)) s t) (kb_counters b) of
      Some c \<Rightarrow> ce_highest_accepted_counter c | None \<Rightarrow> 0) = h \<Longrightarrow> unat h = highest_counter b (a, s, t)" for a s t h
    by (auto simp: highest_counter_def split: option.splits)
  have "unat h < 18446744073709551615" if "unat n = Suc (unat h)" for h n :: u64
    using unat_lt_2p64 [of n] that by linarith
  then have "(\<exists>e. checked_add_u64 h 1 = Some e \<and> n = e) \<longleftrightarrow> unat n = Suc (unat h)" for h n
    by (auto simp: checked_add_u64_Some word_unat_eq_iff)
  then show ?thesis
    by (auto simp: verify_capability_extract_def res_simps Let_def find_counter_row cap_authority_def [symmetric]
        row [OF refl])
qed


section \<open>Counters after an acceptance\<close>

lemma advance_counter_config: "advance_counter a s t n b = Inr b' \<Longrightarrow> kb_config b' = kb_config b"
  by (auto simp: advance_counter_def Let_def split: option.splits if_splits)

lemma run_counters_config: "kb_config (keystore_counters.run kns b) = kb_config b"
  by (induction kns arbitrary: b)
    (auto simp: keystore_counters.accept_def advance_key_def advance_counter_config split: option.splits)

text \<open>However the counters grow from there, the same capability does not verify again.\<close>

lemma accepted_capability_spent:
  fixes b b' :: keystore_body
  assumes "verify_capability_extract C m opcode request_id (kb_config b) (kb_counters b) = Inr v"
    and "kb_config b' = kb_config b"
    and "unat (vc_counter v) \<le> highest_counter b' (vc_authority v, vc_scope_class v, vc_scope_target v)"
  shows "\<nexists>v'. verify_capability_extract C m opcode' request_id' (kb_config b') (kb_counters b') = Inr v'"
proof
  assume "\<exists>v'. verify_capability_extract C m opcode' request_id' (kb_config b') (kb_counters b') = Inr v'"
  then obtain v' cap where cap: "parse_capability m = Inr cap"
      "unat (cp_counter cap) = Suc (highest_counter b' (cap_authority (kb_config b) cap, cp_scope_class cap,
        cp_scope_target cap))"
    unfolding verify_capability_extract_Inr unfolding assms(2) by blast
  moreover have "vc_counter v = cp_counter cap" "vc_scope_class v = cp_scope_class cap"
      "vc_scope_target v = cp_scope_target cap" "vc_authority v = cap_authority (kb_config b) cap"
    using assms(1) cap(1) unfolding verify_capability_extract_Inr by auto
  ultimately show False using assms(3) by simp
qed

section \<open>Samples\<close>

definition sample_cap :: capability where
  "sample_cap = \<lparr>cp_cap_format_version = 2, cp_command_opcode = 1, cp_treasury_sub_op = None,
     cp_key_purpose = 1, cp_chain_id = 11565, cp_environment_identifier = ascii ''lab'', cp_scope_class = 0,
     cp_scope_target = [0x67], cp_counter = 5, cp_request_id = [1], cp_payload_binding = replicate 32 5,
     cp_is_recovery = False, cp_scope_identity = replicate 32 0xe1, cp_signature = replicate 64 1\<rparr>"

definition sample_cap_map :: "(cbor_value \<times> cbor_value) list" where
  "sample_cap_map = [(CInteger 1, CInteger 2), (CInteger 2, CInteger 1), (CInteger 4, CInteger 1),
     (CInteger 5, CInteger 11565), (CInteger 6, CText (ascii ''lab'')), (CInteger 7, CInteger 0),
     (CInteger 8, CBytes [0x67]), (CInteger 9, CInteger 5), (CInteger 10, CBytes [1]),
     (CInteger 11, CBytes (replicate 32 5)), (CInteger 12, CBool False),
     (CInteger 13, CBytes (replicate 32 0xe1)), (CInteger 14, CBytes (replicate 64 1))]"

lemma sample_cap_parses: "parse_capability sample_cap_map = Inr sample_cap"
proof -
  have "check_strict_keys sample_cap_map (\<lambda>n. 1 \<le> n \<and> n \<le> 14)"
    by (simp add: check_strict_keys_iff sample_cap_map_def as_u64_def)
  moreover have "as_u8 (CInteger 1) = Some 1" "as_u8 (CInteger 0) = Some 0"
    by (simp_all add: as_u8_def u8_try_from_def as_u64_def)
  moreover have "is_valid_scope_target [0x67]"
    by (simp add: is_valid_scope_target_def MAX_SCOPE_TARGET_LEN_def)
  ultimately show ?thesis
    using sample_env
    by (simp add: parse_capability_def sample_cap_map_def sample_cap_def map_get_def as_u64_def as_text_def
        as_bool_def as_bytes32_def as_bytes_n_def as_bytes_def guarded_def parse_treasury_sub_op_def
        PRIVILEGED_OPCODES_def OPCODE_CONFIGURE_TREASURY_def MAX_CAP_REQUEST_ID_LEN_def)
qed

definition sample_verified :: verified_capability where
  "sample_verified = \<lparr>vc_authority = replicate 32 0xa1, vc_scope_class = 0, vc_scope_target = [0x67],
     vc_counter = 5, vc_payload_binding = replicate 32 5, vc_key_purpose = 1, vc_treasury_sub_op = None\<rparr>"

lemma sample_highest: "highest_counter sample_body (replicate 32 0xa1, 0, [0x67]) = 4"
  by (simp add: highest_counter_def sample_body_def counter_row_def)

lemma sample_cap_verified:
  "verify_capability_extract sample_crypto sample_cap_map 1 [1] (kb_config sample_body) (kb_counters sample_body)
     = Inr sample_verified"
  unfolding verify_capability_extract_Inr
  using sample_cap_parses sample_highest
  by (intro exI [of _ sample_cap])
    (simp add: sample_cap_def CAP_FORMAT_VERSION_def tier_ok_def cap_authority_def sample_body_simps sample_crypto_def
      sample_config_def sample_verified_def)

section \<open>Properties\<close>

text \<open>C8: An accepted capability is an authorization for exactly this request on exactly this enclave: it
  is correctly signed by the sealed authority of its tier, and if that authority issued the signed
  message, it issued a capability for this opcode and request id, this chain and environment, this
  enclave's (or fleet's) sealed scope id, the next counter value of its lane and the payload
  binding, purpose and sub-operation handed to the handler; recovery operations only from the
  recovery tier and the others only from the admin tier.\<close>

theorem capability_authorizes:
  assumes "verify_capability_extract C m opcode request_id (kb_config b) (kb_counters b) = Inr v"
    and "\<forall>h\<in>H. capability_ok h"
  shows "\<exists>cap. parse_capability m = Inr cap
    \<and> ed_verify_strict C (vc_authority v) (cap_signed_preimage cap) (cp_signature cap)
    \<and> (cap_signed_preimage cap \<in> cap_signed_preimage ` H \<longrightarrow>
        (\<exists>h\<in>H. cp_command_opcode h = opcode \<and> cp_request_id h = request_id \<and> tier_ok h
           \<and> vc_authority v = cap_authority (kb_config b) h
           \<and> cp_chain_id h = kc_twod_chain_id (kb_config b)
           \<and> cp_environment_identifier h = kc_environment_identifier (kb_config b)
           \<and> cp_scope_identity h = (if vc_scope_class v = 0 then kc_enclave_scope_id (kb_config b)
                                    else kc_fleet_scope_id (kb_config b))
           \<and> cp_scope_class h = vc_scope_class v \<and> cp_scope_target h = vc_scope_target v
           \<and> cp_counter h = vc_counter v
           \<and> unat (vc_counter v) = Suc (highest_counter b (vc_authority v, vc_scope_class v, vc_scope_target v))
           \<and> cp_payload_binding h = vc_payload_binding v \<and> cp_key_purpose h = vc_key_purpose v
           \<and> cp_treasury_sub_op h = vc_treasury_sub_op v))"
proof -
  obtain cap where p: "parse_capability m = Inr cap"
    and c: "tier_ok cap"
      "ed_verify_strict C (cap_authority (kb_config b) cap) (cap_signed_preimage cap) (cp_signature cap)"
      "cp_command_opcode cap = opcode" "cp_request_id cap = request_id"
      "cp_chain_id cap = kc_twod_chain_id (kb_config b)"
      "cp_environment_identifier cap = kc_environment_identifier (kb_config b)"
      "cp_scope_identity cap = (if cp_scope_class cap = 0 then kc_enclave_scope_id (kb_config b)
                                 else kc_fleet_scope_id (kb_config b))"
      "unat (cp_counter cap) = Suc (highest_counter b
         (cap_authority (kb_config b) cap, cp_scope_class cap, cp_scope_target cap))"
    and v: "v = \<lparr>vc_authority = cap_authority (kb_config b) cap, vc_scope_class = cp_scope_class cap,
               vc_scope_target = cp_scope_target cap, vc_counter = cp_counter cap,
               vc_payload_binding = cp_payload_binding cap, vc_key_purpose = cp_key_purpose cap,
               vc_treasury_sub_op = cp_treasury_sub_op cap\<rparr>"
    using assms(1) unfolding verify_capability_extract_Inr by blast
  have "\<exists>h\<in>H. h\<lparr>cp_signature := []\<rparr> = cap\<lparr>cp_signature := []\<rparr>"
    if "cap_signed_preimage cap \<in> cap_signed_preimage ` H"
    using issued.authentic [OF assms(2) parse_capability_ok [OF p]] that by simp
  moreover have "\<exists>s. h = cap\<lparr>cp_signature := s\<rparr>" if "h\<lparr>cp_signature := []\<rparr> = cap\<lparr>cp_signature := []\<rparr>" for h
    using that by (cases h; cases cap; auto)
  ultimately have h: "\<exists>h\<in>H. \<exists>s. h = cap\<lparr>cp_signature := s\<rparr>" if "cap_signed_preimage cap \<in> cap_signed_preimage ` H"
    using that by blast
  show ?thesis
  proof (intro exI [of _ cap] conjI impI)
    assume "cap_signed_preimage cap \<in> cap_signed_preimage ` H"
    then obtain s where s: "cap\<lparr>cp_signature := s\<rparr> \<in> H" using h by blast
    show "\<exists>h\<in>H. cp_command_opcode h = opcode \<and> cp_request_id h = request_id \<and> tier_ok h
           \<and> vc_authority v = cap_authority (kb_config b) h
           \<and> cp_chain_id h = kc_twod_chain_id (kb_config b)
           \<and> cp_environment_identifier h = kc_environment_identifier (kb_config b)
           \<and> cp_scope_identity h = (if vc_scope_class v = 0 then kc_enclave_scope_id (kb_config b)
                                    else kc_fleet_scope_id (kb_config b))
           \<and> cp_scope_class h = vc_scope_class v \<and> cp_scope_target h = vc_scope_target v
           \<and> cp_counter h = vc_counter v
           \<and> unat (vc_counter v) = Suc (highest_counter b (vc_authority v, vc_scope_class v, vc_scope_target v))
           \<and> cp_payload_binding h = vc_payload_binding v \<and> cp_key_purpose h = vc_key_purpose v
           \<and> cp_treasury_sub_op h = vc_treasury_sub_op v"
      using c v by (intro bexI [OF _ s]) simp
  qed (use p c v in simp_all)
qed

lemma capability_authorizes_witness:
  "\<exists>cap. parse_capability sample_cap_map = Inr cap
    \<and> (cap_signed_preimage cap \<in> cap_signed_preimage ` {sample_cap} \<longrightarrow>
        (\<exists>h\<in>{sample_cap}. cp_command_opcode h = 1 \<and> cp_request_id h = [1] \<and> cp_counter h = 5))"
  using capability_authorizes [OF sample_cap_verified, of "{sample_cap}"] parse_capability_ok [OF sample_cap_parses]
  by (auto simp: sample_verified_def)

text \<open>A capability is single use. Once the handler has advanced the counter of an accepted
  capability, no request that presents the same capability verifies again, whatever other
  capability requests, accepted or refused, come in between.\<close>

theorem capability_single_use:
  assumes "body_ok b" "verify_capability_extract C m opcode request_id (kb_config b) (kb_counters b) = Inr v"
    and "advance_counter (vc_authority v) (vc_scope_class v) (vc_scope_target v) (vc_counter v) b = Inr b'"
    and "\<forall>kn \<in> set kns. length (snd (snd (fst kn))) \<le> 4096"
    and "b'' = keystore_counters.run kns b'"
  shows "\<exists>e. verify_capability_extract C m opcode' request_id' (kb_config b'') (kb_counters b'') = Inl e"
proof -
  let ?k = "(vc_authority v, vc_scope_class v, vc_scope_target v)"
  obtain cap where "parse_capability m = Inr cap" "vc_scope_target v = cp_scope_target cap"
    using assms(2) unfolding verify_capability_extract_Inr by auto
  then have "length (vc_scope_target v) \<le> 4096"
    using parse_capability_ok [of m cap]
    by (auto simp: capability_ok_def is_valid_scope_target_def MAX_SCOPE_TARGET_LEN_def split: if_splits)
  then have "body_ok b'" by (rule advance_counter_ok [OF assms(1) _ assms(3)])
  then have "highest_counter b' ?k \<le> highest_counter b'' ?k"
    using keystore_counters.run_inv_mono assms(4,5) by blast
  moreover have "highest_counter b' ?k = unat (vc_counter v)"
    using advance_counter_highest [OF assms(3)] by simp
  moreover have "kb_config b'' = kb_config b"
    using assms(5) run_counters_config advance_counter_config [OF assms(3)] by simp
  ultimately have "\<nexists>v'. verify_capability_extract C m opcode' request_id' (kb_config b'') (kb_counters b'') = Inr v'"
    by (intro accepted_capability_spent [OF assms(2)]) simp_all
  then show ?thesis by (metis sum.exhaust)
qed

lemma capability_single_use_witness:
  "\<exists>b' e. advance_counter (replicate 32 0xa1) 0 [0x67] 5 sample_body = Inr b'
     \<and> verify_capability_extract sample_crypto sample_cap_map 1 [1] (kb_config b') (kb_counters b') = Inl e"
proof -
  have "\<exists>b'. advance_counter (replicate 32 0xa1) 0 [0x67] 5 sample_body = Inr b'"
    by (simp add: advance_counter_def sample_body_def counter_row_def Let_def)
  then obtain b' where b': "advance_counter (replicate 32 0xa1) 0 [0x67] 5 sample_body = Inr b'" by blast
  then have "advance_counter (vc_authority sample_verified) (vc_scope_class sample_verified)
      (vc_scope_target sample_verified) (vc_counter sample_verified) sample_body = Inr b'"
    by (simp add: sample_verified_def)
  from capability_single_use [OF sample_body_ok sample_cap_verified this, of "[]" b' 1 "[1]"] b' show ?thesis
    by simp
qed

end
