(* ===== verification/Boot.thy ===== *)
theory Boot
  imports Anchor
begin

text \<open>
  Model of the boot anti-rollback ceremony: the freshness challenge of \<open>agent_challenge.rs\<close>, the
  runtime binding of \<open>agent_dispatch.rs\<close>, the reconcile and the forward adoption of
  \<open>agent_boot.rs\<close>, and the bounded handshake and serve decision of \<open>agent_boot_driver.rs\<close>.

  The two process globals \<open>OUTSTANDING_CHALLENGE\<close> and \<open>ANTI_ROLLBACK_BINDING\<close> are the record
  \<open>process\<close>, passed and returned by every operation. Random draws are a list (\<open>None\<close> or an
  exhausted list: getrandom failed). The transport trait is a pair of functions on a state of
  any type, so a lemma about the driver holds for every transport.
\<close>

section \<open>The process state\<close>

record challenge =
  ch_nonce :: bytes
  ch_chain_id :: u64
  ch_environment_identifier :: bytes

record anti_rollback_binding =
  ab_epoch :: u64
  ab_active :: bool

record process =
  pr_challenge :: "challenge option"
  pr_binding :: "anti_rollback_binding option"

type_synonym draws = "bytes option list"

definition getrandom :: "draws \<Rightarrow> bytes option \<times> draws" where
  "getrandom ds = (case ds of [] \<Rightarrow> (None, []) | d # ds' \<Rightarrow> (d, ds'))"

section \<open>agent_challenge.rs\<close>

datatype challenge_error = Csprng
datatype challenge_verify_error = NoOutstandingChallenge | Anchor anchor_error

definition report_data :: "crypto \<Rightarrow> challenge \<Rightarrow> bytes" where
  "report_data C c = anchor_handshake_report_data C (ch_chain_id c) (ch_environment_identifier c) (ch_nonce c)"

definition issue_challenge :: "u64 \<Rightarrow> bytes \<Rightarrow> draws \<Rightarrow> process
    \<Rightarrow> (challenge_error + challenge) \<times> draws \<times> process" where
  "issue_challenge chain_id env ds w =
     (case getrandom ds of
        (None, ds') \<Rightarrow> (Inl Csprng, ds', w)
      | (Some nonce, ds') \<Rightarrow>
          (let c = \<lparr>ch_nonce = nonce, ch_chain_id = chain_id, ch_environment_identifier = env\<rparr> in
           (Inr c, ds', w\<lparr>pr_challenge := Some c\<rparr>)))"

definition consume_outstanding_challenge :: "process \<Rightarrow> challenge option \<times> process" where
  "consume_outstanding_challenge w = (pr_challenge w, w\<lparr>pr_challenge := None\<rparr>)"

definition verify_outstanding_response :: "crypto \<Rightarrow> bytes \<Rightarrow> keystore_config \<Rightarrow> process
    \<Rightarrow> (challenge_verify_error + anchor_state \<times> bytes) \<times> process" where
  "verify_outstanding_response C response config w =
     (case consume_outstanding_challenge w of
        (None, w') \<Rightarrow> (Inl NoOutstandingChallenge, w')
      | (Some c, w') \<Rightarrow>
          (res_bind (map_err challenge_verify_error.Anchor
              (verify_anchor_response_bytes C response (ch_nonce c) config))
            (\<lambda>state. Inr (state, ch_nonce c)), w'))"

definition has_outstanding_challenge :: "process \<Rightarrow> bool" where
  "has_outstanding_challenge w = (pr_challenge w \<noteq> None)"

section \<open>The runtime binding\<close>

definition install_anti_rollback_binding :: "anti_rollback_binding \<Rightarrow> process \<Rightarrow> bool \<times> process" where
  "install_anti_rollback_binding b w =
     (if \<not> ab_active b then (False, w)
      else if pr_binding w \<noteq> None then (False, w)
      else (True, w\<lparr>pr_binding := Some b\<rparr>))"

definition is_anti_rollback_configured :: "process \<Rightarrow> bool" where
  "is_anti_rollback_configured w = (case pr_binding w of None \<Rightarrow> False | Some b \<Rightarrow> ab_active b)"

section \<open>agent_boot.rs\<close>

datatype boot_fail_reason =
    NoChallenge | VerifyMalformed | VerifySignatureInvalid | VerifyScopeMismatch | VerifyNonceMismatch
  | AnchorBehind | StructuralGap | Inconsistent | BindingInstall

datatype boot_anti_rollback_outcome =
    Ready anchor_state
  | AdoptForwardRequired anchor_state bytes
  | FailClosed boot_fail_reason

fun map_anchor_error :: "anchor_error \<Rightarrow> boot_fail_reason" where
  "map_anchor_error anchor_error.Malformed = VerifyMalformed"
| "map_anchor_error anchor_error.SignatureInvalid = VerifySignatureInvalid"
| "map_anchor_error anchor_error.ScopeMismatch = VerifyScopeMismatch"
| "map_anchor_error anchor_error.NonceMismatch = VerifyNonceMismatch"

fun map_fail_reason :: "fail_reason \<Rightarrow> boot_fail_reason" where
  "map_fail_reason fail_reason.AnchorBehind = boot_fail_reason.AnchorBehind"
| "map_fail_reason fail_reason.StructuralGap = boot_fail_reason.StructuralGap"
| "map_fail_reason fail_reason.Inconsistent = boot_fail_reason.Inconsistent"

definition boot_reconcile_anti_rollback :: "crypto \<Rightarrow> bytes \<Rightarrow> keystore_body \<Rightarrow> process
    \<Rightarrow> boot_anti_rollback_outcome \<times> process" where
  "boot_reconcile_anti_rollback C response body w =
     (case verify_outstanding_response C response (kb_config body) w of
        (Inl NoOutstandingChallenge, w) \<Rightarrow> (FailClosed NoChallenge, w)
      | (Inl (challenge_verify_error.Anchor e), w) \<Rightarrow> (FailClosed (map_anchor_error e), w)
      | (Inr (state, nonce), w) \<Rightarrow>
          (let local_marks = compute_local_marks_digest C body in
           (case reconcile (kb_freshness_epoch body) (kb_structural_version body) local_marks state of
              Fresh \<Rightarrow>
                (case install_anti_rollback_binding \<lparr>ab_epoch = as_epoch state, ab_active = True\<rparr> w of
                   (True, w) \<Rightarrow> (Ready state, w)
                 | (False, w) \<Rightarrow> (FailClosed BindingInstall, w))
            | AdoptForward _ \<Rightarrow> (AdoptForwardRequired state nonce, w)
            | reconcile_decision.FailClosed r \<Rightarrow> (FailClosed (map_fail_reason r), w))))"

datatype adopt_forward_fail = MarksVerify marks_error | MarksDecode | HashMismatch | BeltRegression | Seed

definition marks_dominate_local :: "decoded_marks \<Rightarrow> keystore_body \<Rightarrow> bool" where
  "marks_dominate_local decoded body =
     (list_all (\<lambda>local.
        case find (\<lambda>r. dr_authority r = ce_authority local \<and> dr_scope_class r = ce_scope_class local
                      \<and> dr_scope_target r = ce_scope_target local) (dm_rows decoded) of
          Some r \<Rightarrow> dr_highest_accepted_counter r \<ge> ce_highest_accepted_counter local
        | None \<Rightarrow> False) (kb_counters body)
      \<and> dm_cumulative_native_spend decoded \<ge> fs_cumulative_native_spend (kb_faucet body)
      \<and> dm_lifetime_spend decoded \<ge> fs_lifetime_spend (kb_faucet body)
      \<and> dm_strict_recovery_counter decoded \<ge> kb_strict_recovery_counter body)"

definition execute_adopt_forward :: "crypto \<Rightarrow> bytes \<Rightarrow> keystore_body \<Rightarrow> anchor_state \<Rightarrow> bytes
    \<Rightarrow> adopt_forward_fail + keystore_body" where
  "execute_adopt_forward C marks_bytes body state nonce =
     res_bind (map_err MarksVerify
         (verify_marks_response_bytes C marks_bytes nonce (as_epoch state) (kb_config body))) (\<lambda>marks_payload.
     res_bind (ok_or MarksDecode (strict_decode_marks_payload marks_payload MAX_COUNTER_ENTRIES)) (\<lambda>decoded.
     res_bind (map_err (\<lambda>_. Seed) (seed_marks_forward decoded (as_epoch state) body)) (\<lambda>candidate.
     if compute_local_marks_digest C candidate \<noteq> as_marks_digest state then Inl HashMismatch
     else if \<not> marks_dominate_local decoded body then Inl BeltRegression
     else Inr candidate)))"

section \<open>agent_boot_driver.rs\<close>

record anchor_boot_request =
  br_chain_id :: u64
  br_environment_identifier :: bytes
  br_nonce :: bytes
  br_report_data :: bytes

record anchor_marks_request =
  mq_chain_id :: u64
  mq_environment_identifier :: bytes
  mq_nonce :: bytes
  mq_epoch :: u64

text \<open>The trait \<open>AnchorBootTransport\<close>; an \<open>AnchorTransportError\<close> is its log string.\<close>

record 't anchor_boot_transport =
  anchor_round_trip :: "'t \<Rightarrow> anchor_boot_request \<Rightarrow> (string + bytes) \<times> 't"
  marks_round_trip :: "'t \<Rightarrow> anchor_marks_request \<Rightarrow> (string + bytes) \<times> 't"

definition MAX_BOOT_ATTEMPTS_CEILING :: nat where "MAX_BOOT_ATTEMPTS_CEILING = 64"

datatype boot_driver_fail =
    Reconcile boot_fail_reason
  | AdoptForwardFailed anchor_state adopt_forward_fail
  | RetriesExhausted string
  | Unstartable string

datatype boot_driver_outcome = Ready anchor_state | FailClosed boot_driver_fail

text \<open>What the loop changes: the transport, the draws, the process globals and the body.\<close>

record 't boot_run =
  bo_transport :: 't
  bo_draws :: draws
  bo_process :: process
  bo_body :: keystore_body

text \<open>One attempt: \<open>Inl\<close> returns from the driver, \<open>Inr\<close> continues with the last transport cause.\<close>

definition boot_attempt :: "crypto \<Rightarrow> 't anchor_boot_transport \<Rightarrow> u64 \<Rightarrow> bytes \<Rightarrow> 't boot_run
    \<Rightarrow> (boot_driver_outcome + string) \<times> 't boot_run" where
  "boot_attempt C T chain env s =
     (case issue_challenge chain env (bo_draws s) (bo_process s) of
        (Inl _, ds, w) \<Rightarrow>
          (Inl (FailClosed (Unstartable ''CSPRNG unavailable to draw the freshness nonce'')),
           s\<lparr>bo_draws := ds, bo_process := w\<rparr>)
      | (Inr c, ds, w) \<Rightarrow>
          (let request = \<lparr>br_chain_id = chain, br_environment_identifier = env, br_nonce = ch_nonce c,
                          br_report_data = report_data C c\<rparr>;
               s = s\<lparr>bo_draws := ds, bo_process := w\<rparr> in
           (case anchor_round_trip T (bo_transport s) request of
              (Inl e, t) \<Rightarrow>
                (Inr e, s\<lparr>bo_transport := t, bo_process := snd (consume_outstanding_challenge w)\<rparr>)
            | (Inr response, t) \<Rightarrow>
                (let s = s\<lparr>bo_transport := t\<rparr> in
                 (case boot_reconcile_anti_rollback C response (bo_body s) w of
                    (boot_anti_rollback_outcome.Ready state, w) \<Rightarrow>
                      (Inl (Ready state), s\<lparr>bo_process := w\<rparr>)
                  | (AdoptForwardRequired state nonce, w) \<Rightarrow>
                      (let marks_req = \<lparr>mq_chain_id = chain, mq_environment_identifier = env,
                                        mq_nonce = nonce, mq_epoch = as_epoch state\<rparr>;
                           s = s\<lparr>bo_process := w\<rparr> in
                       (case marks_round_trip T (bo_transport s) marks_req of
                          (Inl e, t) \<Rightarrow> (Inr e, s\<lparr>bo_transport := t\<rparr>)
                        | (Inr marks_bytes, t) \<Rightarrow>
                            (let s = s\<lparr>bo_transport := t\<rparr> in
                             (case execute_adopt_forward C marks_bytes (bo_body s) state nonce of
                                Inr seeded \<Rightarrow>
                                  (Inr ''adopted forward; re-run budget exhausted before Fresh'',
                                   s\<lparr>bo_body := seeded\<rparr>)
                              | Inl cause \<Rightarrow> (Inl (FailClosed (AdoptForwardFailed state cause)), s)))))
                  | (boot_anti_rollback_outcome.FailClosed reason, w) \<Rightarrow>
                      (Inl (FailClosed (Reconcile reason)), s\<lparr>bo_process := w\<rparr>))))))"

text \<open>The \<open>for\<close> loop over the remaining attempts.\<close>

fun boot_loop :: "crypto \<Rightarrow> 't anchor_boot_transport \<Rightarrow> u64 \<Rightarrow> bytes \<Rightarrow> nat \<Rightarrow> string \<Rightarrow> 't boot_run
    \<Rightarrow> boot_driver_outcome \<times> 't boot_run" where
  "boot_loop C T chain env 0 last_transport s = (FailClosed (RetriesExhausted last_transport), s)"
| "boot_loop C T chain env (Suc n) last_transport s =
     (case boot_attempt C T chain env s of
        (Inl outcome, s') \<Rightarrow> (outcome, s')
      | (Inr cause, s') \<Rightarrow> boot_loop C T chain env n cause s')"

definition run_boot_anti_rollback_handshake :: "crypto \<Rightarrow> 't anchor_boot_transport \<Rightarrow> nat \<Rightarrow> 't boot_run
    \<Rightarrow> boot_driver_outcome \<times> 't boot_run" where
  "run_boot_anti_rollback_handshake C T max_attempts s =
     (if max_attempts = 0
      then (FailClosed (Unstartable ''max_attempts must be >= 1''), s)
      else if max_attempts > MAX_BOOT_ATTEMPTS_CEILING
      then (FailClosed (Unstartable ''max_attempts exceeds MAX_BOOT_ATTEMPTS_CEILING''), s)
      else boot_loop C T (kc_twod_chain_id (kb_config (bo_body s)))
             (kc_environment_identifier (kb_config (bo_body s))) max_attempts ''no attempt completed'' s)"

definition agent_anti_rollback_serve_gate :: "bool \<Rightarrow> bool \<Rightarrow> protocol_error + unit" where
  "agent_anti_rollback_serve_gate require_real anti_rollback_configured =
     (if require_real \<and> \<not> anti_rollback_configured
      then Inl (PqSigningUnavailable (''agent gateway anti-rollback binding not installed ''
             @ ''(production refuses to serve rollback-sensitive frames)''))
      else Inr ())"

definition decide_serve :: "boot_driver_outcome \<Rightarrow> bool \<Rightarrow> process \<Rightarrow> protocol_error + anchor_state" where
  "decide_serve outcome require_real w =
     (case outcome of
        Ready state \<Rightarrow>
          res_bind (agent_anti_rollback_serve_gate require_real (is_anti_rollback_configured w))
            (\<lambda>_. Inr state)
      | FailClosed _ \<Rightarrow> Inl (PqSigningUnavailable
          ''agent gateway boot anti-rollback handshake did not reach Ready (refusing to serve)''))"


section \<open>Reconciling consumes the challenge\<close>

lemma verify_outstanding_Inr:
  "verify_outstanding_response C response cfg w = (Inr (state, nonce), w') \<longleftrightarrow>
     (\<exists>c. pr_challenge w = Some c \<and> nonce = ch_nonce c
        \<and> verify_anchor_response_bytes C response nonce cfg = Inr state)
     \<and> w' = w\<lparr>pr_challenge := None\<rparr>"
  by (auto simp: verify_outstanding_response_def consume_outstanding_challenge_def res_simps
      split: option.splits)

lemma verify_outstanding_process:
  "snd (verify_outstanding_response C response cfg w) = w\<lparr>pr_challenge := None\<rparr>"
  by (auto simp: verify_outstanding_response_def consume_outstanding_challenge_def split: option.splits)

lemma boot_reconcile_Ready:
  "boot_reconcile_anti_rollback C response body w = (boot_anti_rollback_outcome.Ready state, w') \<longleftrightarrow>
     (\<exists>c. pr_challenge w = Some c
        \<and> verify_anchor_response_bytes C response (ch_nonce c) (kb_config body) = Inr state)
     \<and> as_epoch state = kb_freshness_epoch body \<and> as_structural_version state = kb_structural_version body
     \<and> as_marks_digest state = compute_local_marks_digest C body
     \<and> pr_binding w = None
     \<and> w' = w\<lparr>pr_challenge := None, pr_binding := Some \<lparr>ab_epoch = as_epoch state, ab_active = True\<rparr>\<rparr>"
proof (cases "verify_outstanding_response C response (kb_config body) w")
  case (Pair r v)
  have v: "v = w\<lparr>pr_challenge := None\<rparr>"
    using verify_outstanding_process [of C response "kb_config body" w] Pair by simp
  show ?thesis
  proof (cases r)
    case (Inl e)
    then show ?thesis
      using Pair verify_outstanding_Inr [of C response "kb_config body" w]
      by (cases e) (auto simp: boot_reconcile_anti_rollback_def verify_outstanding_response_def
          consume_outstanding_challenge_def res_simps split: option.splits)
  next
    case (Inr sn)
    obtain st n where sn: "sn = (st, n)" by (cases sn)
    obtain c where c: "pr_challenge w = Some c" "n = ch_nonce c"
        "verify_anchor_response_bytes C response n (kb_config body) = Inr st"
      using Pair unfolding Inr sn verify_outstanding_Inr by blast
    show ?thesis
      by (auto simp: boot_reconcile_anti_rollback_def Pair Inr sn Let_def install_anti_rollback_binding_def v c(1)
          c(3) [unfolded c(2)] reconcile_def split: if_splits)
  qed
qed

lemma boot_reconcile_Adopt:
  assumes "boot_reconcile_anti_rollback C response body w = (AdoptForwardRequired state nonce, w')"
  shows "kb_freshness_epoch body < as_epoch state" "as_structural_version state = kb_structural_version body"
    "\<exists>c. pr_challenge w = Some c \<and> nonce = ch_nonce c
       \<and> verify_anchor_response_bytes C response nonce (kb_config body) = Inr state"
proof -
  obtain v e where "verify_outstanding_response C response (kb_config body) w = (Inr (state, nonce), v)"
    and "reconcile (kb_freshness_epoch body) (kb_structural_version body) (compute_local_marks_digest C body)
      state = AdoptForward e"
    using assms by (auto simp: boot_reconcile_anti_rollback_def Let_def
        split: prod.splits sum.splits challenge_verify_error.splits reconcile_decision.splits bool.splits)
  then show "kb_freshness_epoch body < as_epoch state" "as_structural_version state = kb_structural_version body"
    "\<exists>c. pr_challenge w = Some c \<and> nonce = ch_nonce c
       \<and> verify_anchor_response_bytes C response nonce (kb_config body) = Inr state"
    unfolding verify_outstanding_Inr reconcile_cases by auto
qed

lemma boot_reconcile_not_Ready:
  assumes "boot_reconcile_anti_rollback C response body w = (r, w')" "\<nexists>state. r = boot_anti_rollback_outcome.Ready state"
  shows "w' = w\<lparr>pr_challenge := None\<rparr>"
  using assms verify_outstanding_process [of C response "kb_config body" w]
  by (auto simp: boot_reconcile_anti_rollback_def Let_def install_anti_rollback_binding_def
      split: prod.splits sum.splits challenge_verify_error.splits reconcile_decision.splits if_splits)

section \<open>Forward adoption\<close>

text \<open>What an adoption may change: only upwards, and only the marks and the epoch.\<close>

definition adopted :: "keystore_body \<Rightarrow> keystore_body \<Rightarrow> bool" where
  "adopted b b' \<longleftrightarrow> kb_config b' = kb_config b \<and> kb_entries b' = kb_entries b \<and> kb_audit b' = kb_audit b
     \<and> kb_structural_version b' = kb_structural_version b
     \<and> (kb_faucet b')\<lparr>fs_cumulative_native_spend := [], fs_lifetime_spend := []\<rparr>
         = (kb_faucet b)\<lparr>fs_cumulative_native_spend := [], fs_lifetime_spend := []\<rparr>
     \<and> kb_freshness_epoch b \<le> kb_freshness_epoch b'
     \<and> highest_counter b \<le> highest_counter b'
     \<and> fs_cumulative_native_spend (kb_faucet b) \<le> fs_cumulative_native_spend (kb_faucet b')
     \<and> fs_lifetime_spend (kb_faucet b) \<le> fs_lifetime_spend (kb_faucet b')
     \<and> kb_strict_recovery_counter b \<le> kb_strict_recovery_counter b'"

lemma adopted_refl: "adopted b b"
  by (simp add: adopted_def)

lemma adopted_trans: "adopted a b \<Longrightarrow> adopted b c \<Longrightarrow> adopted a c"
  unfolding adopted_def by (auto intro: order_trans)

lemma seeded_counter:
  assumes "body_ok b" "marks_dominate_local m b" "seed_marks_forward m e b = Inr b'"
  shows "highest_counter b k \<le> highest_counter b' k"
proof -
  let ?env = "kc_environment_identifier (kb_config b)"
  obtain a s t where k: "k = (a, s, t)" by (metis prod_cases3)
  show ?thesis
  proof (cases "find (counter_row a ?env s t) (kb_counters b)")
    case None
    then show ?thesis by (simp add: highest_counter_def k)
  next
    case (Some c)
    then have c: "c \<in> set (kb_counters b)" "ce_authority c = a" "ce_scope_class c = s" "ce_scope_target c = t"
      by (auto simp: find_Some_iff counter_row_def)
    let ?p = "\<lambda>r. dr_authority r = a \<and> dr_scope_class r = s \<and> dr_scope_target r = t"
    obtain r where r: "find ?p (dm_rows m) = Some r" "ce_highest_accepted_counter c \<le> dr_highest_accepted_counter r"
      using assms(2) c by (fastforce simp: marks_dominate_local_def list_all_iff split: option.splits)
    let ?row = "\<lambda>r. \<lparr>ce_authority = dr_authority r, ce_environment_identifier = ?env,
      ce_scope_class = dr_scope_class r, ce_scope_target = dr_scope_target r,
      ce_highest_accepted_counter = dr_highest_accepted_counter r\<rparr>"
    have b': "kb_counters b' = map ?row (dm_rows m)" "kb_config b' = kb_config b"
      using assms(3) by (auto simp: seed_marks_forward_def Let_def res_simps)
    have find_row: "find (counter_row a ?env s t) (map ?row rs) = map_option ?row (find ?p rs)" for rs
      by (induction rs) (auto simp: counter_row_def)
    have "find (counter_row a ?env s t) (kb_counters b') = Some (?row r)"
      unfolding b'(1) find_row r(1) by simp
    then show ?thesis
      using Some r(2) by (simp add: highest_counter_def k b'(2) word_le_nat_alt)
  qed
qed

lemma execute_adopt_forward_Inr:
  assumes "execute_adopt_forward C bs body state nonce = Inr b'"
  shows "\<exists>p m. verify_marks_response_bytes C bs nonce (as_epoch state) (kb_config body) = Inr p
    \<and> strict_decode_marks_payload p MAX_COUNTER_ENTRIES = Some m
    \<and> seed_marks_forward m (as_epoch state) body = Inr b'
    \<and> compute_local_marks_digest C b' = as_marks_digest state \<and> marks_dominate_local m body"
  using assms by (auto simp: execute_adopt_forward_def res_simps split: if_splits)

lemma execute_adopt_forward_adopted:
  assumes "execute_adopt_forward C bs body state nonce = Inr b'" "body_ok body"
    "kb_freshness_epoch body \<le> as_epoch state"
  shows "adopted body b'" "body_ok b'"
proof -
  obtain p m where m: "seed_marks_forward m (as_epoch state) body = Inr b'" "marks_dominate_local m body"
    using execute_adopt_forward_Inr [OF assms(1)] by blast
  note frame = seed_marks_forward_frame [OF m(1)]
  show "adopted body b'"
    unfolding adopted_def using frame assms(3) seeded_counter [OF assms(2) m(2,1)] m(2)
    by (auto simp: marks_dominate_local_def le_fun_def)
  show "body_ok b'" by (rule seed_marks_forward_ok [OF m(1)])
qed


section \<open>The handshake\<close>

text \<open>What every attempt keeps of the state the loop was entered with.\<close>

definition boot_progress :: "'t boot_run \<Rightarrow> 't boot_run \<Rightarrow> bool" where
  "boot_progress s s' \<longleftrightarrow> adopted (bo_body s) (bo_body s') \<and> body_ok (bo_body s')
     \<and> pr_binding (bo_process s') = pr_binding (bo_process s) \<and> pr_challenge (bo_process s') = None
     \<and> set (bo_draws s') \<subseteq> set (bo_draws s)"

text \<open>What \<open>Ready\<close> means for the run that reached it from \<open>s\<close>.\<close>

definition boot_current :: "crypto \<Rightarrow> 't boot_run \<Rightarrow> 't boot_run \<Rightarrow> anchor_state \<Rightarrow> bool" where
  "boot_current C s s' state \<longleftrightarrow>
     adopted (bo_body s) (bo_body s') \<and> body_ok (bo_body s')
     \<and> kb_freshness_epoch (bo_body s') = as_epoch state
     \<and> kb_structural_version (bo_body s') = as_structural_version state
     \<and> compute_local_marks_digest C (bo_body s') = as_marks_digest state
     \<and> (\<exists>nonce response. Some nonce \<in> set (bo_draws s)
          \<and> verify_anchor_response_bytes C response nonce (kb_config (bo_body s)) = Inr state)
     \<and> pr_binding (bo_process s) = None
     \<and> bo_process s' = \<lparr>pr_challenge = None, pr_binding = Some \<lparr>ab_epoch = as_epoch state, ab_active = True\<rparr>\<rparr>"

lemma issue_challenge_Inr:
  "issue_challenge chain env ds w = (Inr c, ds', w') \<Longrightarrow>
     w' = w\<lparr>pr_challenge := Some c\<rparr> \<and> Some (ch_nonce c) \<in> set ds \<and> set ds' \<subseteq> set ds"
  by (auto simp: issue_challenge_def getrandom_def Let_def split: list.splits option.splits)

lemma issue_challenge_Inl:
  "issue_challenge chain env ds w = (Inl e, ds', w') \<Longrightarrow> w' = w"
  by (auto simp: issue_challenge_def Let_def split: prod.splits option.splits)

text \<open>The attempt from the reconcile verdict on.\<close>

lemma boot_attempt_reconciled:
  assumes "boot_attempt C T chain env s = (r, s')" "body_ok (bo_body s)"
    and ic: "issue_challenge chain env (bo_draws s) (bo_process s) = (Inr c, ds, w)"
    and rt: "anchor_round_trip T (bo_transport s) \<lparr>br_chain_id = chain,
        br_environment_identifier = env, br_nonce = ch_nonce c, br_report_data = report_data C c\<rparr> = (Inr response, t)"
    and br: "boot_reconcile_anti_rollback C response (bo_body s) w = (br, w')"
  shows "case r of Inl (Ready state) \<Rightarrow> boot_current C s s' state
    | Inl (FailClosed _) \<Rightarrow> pr_binding (bo_process s') = pr_binding (bo_process s) \<and> adopted (bo_body s) (bo_body s')
    | Inr _ \<Rightarrow> boot_progress s s'"
proof (cases br)
  case (Ready state)
  note w = issue_challenge_Inr [OF ic]
  have "boot_current C s s' state" "r = Inl (boot_driver_outcome.Ready state)"
    using br [unfolded Ready boot_reconcile_Ready] w assms(1,2) ic rt br Ready adopted_refl
    by (auto simp: boot_attempt_def boot_current_def)
  then show ?thesis by simp
next
  case (AdoptForwardRequired state nonce)
  note w = issue_challenge_Inr [OF ic]
  have w': "w' = w\<lparr>pr_challenge := None\<rparr>"
    using boot_reconcile_not_Ready [OF br] AdoptForwardRequired by simp
  have epoch: "kb_freshness_epoch (bo_body s) \<le> as_epoch state"
    using boot_reconcile_Adopt(1) [OF br [unfolded AdoptForwardRequired]] by simp
  have adopt: "adopted (bo_body s) b \<and> body_ok b"
    if "execute_adopt_forward C m (bo_body s) state nonce = Inr b" for m b
    using execute_adopt_forward_adopted [OF that assms(2) epoch] by blast
  show ?thesis
    using assms(1,2) ic rt br AdoptForwardRequired w w' adopted_refl adopt
    by (auto simp: boot_attempt_def boot_progress_def Let_def split: prod.splits sum.splits)
next
  case (FailClosed reason)
  then show ?thesis
    using assms(1) ic rt br issue_challenge_Inr [OF ic] boot_reconcile_not_Ready [OF br] adopted_refl
    by (auto simp: boot_attempt_def)
qed

lemma boot_attempt_cases:
  assumes "boot_attempt C T chain env s = (r, s')" "body_ok (bo_body s)"
  shows "case r of Inl (Ready state) \<Rightarrow> boot_current C s s' state
    | Inl (FailClosed _) \<Rightarrow> pr_binding (bo_process s') = pr_binding (bo_process s) \<and> adopted (bo_body s) (bo_body s')
    | Inr _ \<Rightarrow> boot_progress s s'"
proof -
  obtain ic ds w where ic: "issue_challenge chain env (bo_draws s) (bo_process s) = (ic, ds, w)"
    by (cases "issue_challenge chain env (bo_draws s) (bo_process s)")
  show ?thesis
  proof (cases ic)
    case (Inl e)
    then show ?thesis
      using assms(1) ic issue_challenge_Inl [OF ic [unfolded Inl]] adopted_refl
      by (auto simp: boot_attempt_def)
  next
    case (Inr c)
    note w = issue_challenge_Inr [OF ic [unfolded Inr]]
    let ?s = "s\<lparr>bo_draws := ds, bo_process := w\<rparr>"
    obtain rt t where rt: "anchor_round_trip T (bo_transport s) \<lparr>br_chain_id = chain,
        br_environment_identifier = env, br_nonce = ch_nonce c, br_report_data = report_data C c\<rparr> = (rt, t)"
      by (cases "anchor_round_trip T (bo_transport s) \<lparr>br_chain_id = chain,
        br_environment_identifier = env, br_nonce = ch_nonce c, br_report_data = report_data C c\<rparr>")
    show ?thesis
    proof (cases rt)
      case (Inl e)
      then show ?thesis
        using assms ic Inr rt w adopted_refl
        by (auto simp: boot_attempt_def boot_progress_def consume_outstanding_challenge_def)
    next
      case response: (Inr response)
      obtain br w' where br: "boot_reconcile_anti_rollback C response (bo_body s) w = (br, w')"
        by (cases "boot_reconcile_anti_rollback C response (bo_body s) w")
      show ?thesis
        by (rule boot_attempt_reconciled [OF assms ic [unfolded Inr] rt [unfolded response] br])
    qed
  qed
qed

lemma boot_progress_trans:
  "boot_progress s s' \<Longrightarrow> boot_progress s' s'' \<Longrightarrow> boot_progress s s''"
  by (auto simp: boot_progress_def intro: adopted_trans)

lemma boot_progress_current:
  assumes "boot_progress s s'" "boot_current C s' s'' state"
  shows "boot_current C s s'' state"
proof -
  have "kb_config (bo_body s') = kb_config (bo_body s)"
    using assms(1) by (simp add: boot_progress_def adopted_def)
  then show ?thesis
    using assms unfolding boot_current_def boot_progress_def by (auto intro: adopted_trans)
qed

lemma boot_loop_cases:
  assumes "boot_loop C T chain env n cause s = (r, s')" "body_ok (bo_body s)"
  shows "case r of Ready state \<Rightarrow> boot_current C s s' state
    | FailClosed _ \<Rightarrow> pr_binding (bo_process s') = pr_binding (bo_process s) \<and> adopted (bo_body s) (bo_body s')"
  using assms
proof (induction n arbitrary: s cause)
  case 0
  then show ?case using adopted_refl by auto
next
  case (Suc n)
  obtain a v where a: "boot_attempt C T chain env s = (a, v)" by (cases "boot_attempt C T chain env s")
  note cases = boot_attempt_cases [OF a Suc.prems(2)]
  show ?case
  proof (cases a)
    case (Inl outcome)
    then show ?thesis using Suc.prems(1) a cases by (simp split: boot_driver_outcome.splits)
  next
    case (Inr cause)
    then have p: "boot_progress s v" using cases by simp
    have "boot_loop C T chain env n cause v = (r, s')" using Suc.prems(1) a Inr by simp
    from Suc.IH [OF this] p have "case r of Ready state \<Rightarrow> boot_current C v s' state
      | FailClosed _ \<Rightarrow> pr_binding (bo_process s') = pr_binding (bo_process v) \<and> adopted (bo_body v) (bo_body s')"
      by (simp add: boot_progress_def)
    then show ?thesis
      using p boot_progress_current [OF p]
      by (auto simp: boot_progress_def intro: adopted_trans split: boot_driver_outcome.splits)
  qed
qed

lemma handshake_cases:
  assumes "run_boot_anti_rollback_handshake C T n s = (r, s')" "body_ok (bo_body s)"
  shows "case r of Ready state \<Rightarrow> boot_current C s s' state
    | FailClosed _ \<Rightarrow> pr_binding (bo_process s') = pr_binding (bo_process s) \<and> adopted (bo_body s) (bo_body s')"
  using assms boot_loop_cases adopted_refl
  by (auto simp: run_boot_anti_rollback_handshake_def split: if_splits)


section \<open>An honest anchor that is ahead\<close>

lemma seed_marks_forward_total:
  assumes "body_ok b" "marks_ok MAX_COUNTER_ENTRIES m"
  shows "\<exists>b'. seed_marks_forward m e b = Inr b'"
proof -
  let ?env = "kc_environment_identifier (kb_config b)"
  let ?row = "\<lambda>r. \<lparr>ce_authority = dr_authority r, ce_environment_identifier = ?env,
      ce_scope_class = dr_scope_class r, ce_scope_target = dr_scope_target r,
      ce_highest_accepted_counter = dr_highest_accepted_counter r\<rparr>"
  have "sorted_wrt (<) (map dr_key (dm_rows m))" using assms(2) by (simp add: marks_ok_def)
  then have "distinct (map dr_key (dm_rows m))" by (simp add: strict_sorted_iff)
  moreover have "ce_tuple \<circ> ?row = dr_key" by (auto simp: ce_tuple_def dr_key_def)
  ultimately have "counters_ok ?env (map ?row (dm_rows m))"
    using assms(2)
    by (auto simp: counters_ok_def marks_ok_def list_all_iff row_ok_def MAX_COUNTER_ENTRIES_def)
  then show ?thesis
    using assms(1) by (simp add: seed_marks_forward_def Let_def res_simps validate_iff body_ok_def)
qed

lemma compute_local_marks_digest_cong:
  "encode_marks_payload b = encode_marks_payload b' \<Longrightarrow> compute_local_marks_digest C b = compute_local_marks_digest C b'"
  by (simp add: compute_local_marks_digest_def)

text \<open>The requests of the driver for a nonce. A body whose marks are older, an anchor that reports \<open>state\<close> and hands out the marks \<open>m\<close>.\<close>

definition boot_request_for :: "crypto \<Rightarrow> keystore_config \<Rightarrow> bytes \<Rightarrow> anchor_boot_request" where
  "boot_request_for C cfg nonce = \<lparr>br_chain_id = kc_twod_chain_id cfg, br_environment_identifier = kc_environment_identifier cfg,
     br_nonce = nonce, br_report_data = report_data C \<lparr>ch_nonce = nonce, ch_chain_id = kc_twod_chain_id cfg,
       ch_environment_identifier = kc_environment_identifier cfg\<rparr>\<rparr>"

definition marks_request_for :: "keystore_config \<Rightarrow> bytes \<Rightarrow> u64 \<Rightarrow> anchor_marks_request" where
  "marks_request_for cfg nonce epoch = \<lparr>mq_chain_id = kc_twod_chain_id cfg,
     mq_environment_identifier = kc_environment_identifier cfg, mq_nonce = nonce, mq_epoch = epoch\<rparr>"

definition honest_ahead :: "crypto \<Rightarrow> 't anchor_boot_transport \<Rightarrow> keystore_body \<Rightarrow> anchor_state \<Rightarrow> decoded_marks \<Rightarrow> bool" where
  "honest_ahead C T b state m \<longleftrightarrow>
     marks_ok MAX_COUNTER_ENTRIES m \<and> marks_dominate_local m b
     \<and> kb_freshness_epoch b < as_epoch state \<and> as_structural_version state = kb_structural_version b
     \<and> as_marks_digest state = sha3_256 C (MARKS_DOMAIN @ enc_marks m)
     \<and> (\<forall>t nonce. length nonce = 32 \<longrightarrow> (\<exists>r t'. anchor_round_trip T t (boot_request_for C (kb_config b) nonce) = (Inr r, t')
          \<and> verify_anchor_response_bytes C r nonce (kb_config b) = Inr state))
     \<and> (\<forall>t nonce. length nonce = 32 \<longrightarrow>
          (\<exists>r t'. marks_round_trip T t (marks_request_for (kb_config b) nonce (as_epoch state)) = (Inr r, t')
             \<and> verify_marks_response_bytes C r nonce (as_epoch state) (kb_config b) = Inr (enc_marks m)))"

lemma execute_adopt_forward_honest:
  assumes "body_ok b" "marks_ok MAX_COUNTER_ENTRIES m" "marks_dominate_local m b"
    "as_marks_digest state = sha3_256 C (MARKS_DOMAIN @ enc_marks m)"
    "verify_marks_response_bytes C r nonce (as_epoch state) (kb_config b) = Inr (enc_marks m)"
  obtains b' where "execute_adopt_forward C r b state nonce = Inr b'"
    "seed_marks_forward m (as_epoch state) b = Inr b'"
    "compute_local_marks_digest C b' = as_marks_digest state"
proof -
  obtain b' where b': "seed_marks_forward m (as_epoch state) b = Inr b'"
    using seed_marks_forward_total [OF assms(1,2)] by blast
  have d: "compute_local_marks_digest C b' = as_marks_digest state"
    using seed_marks_forward_marks(2) [OF assms(2) b'] assms(4) by (simp add: compute_local_marks_digest_def)
  moreover have "strict_decode_marks_payload (enc_marks m) MAX_COUNTER_ENTRIES = Some m"
    using assms(2) by (simp add: strict_decode_marks_payload_iff)
  ultimately have "execute_adopt_forward C r b state nonce = Inr b'"
    using assms b' by (simp add: execute_adopt_forward_def)
  then show thesis using that b' d by blast
qed

lemma boot_attempt_adopts:
  assumes "honest_ahead C T (bo_body s) state m" "body_ok (bo_body s)"
    "bo_draws s = Some n1 # ds" "length n1 = 32"
    and env: "chain = kc_twod_chain_id (kb_config (bo_body s))" "env = kc_environment_identifier (kb_config (bo_body s))"
  obtains s' b' where "boot_attempt C T chain env s
      = (Inr ''adopted forward; re-run budget exhausted before Fresh'', s')"
    "seed_marks_forward m (as_epoch state) (bo_body s) = Inr b'" "bo_body s' = b'" "bo_draws s' = ds"
    "compute_local_marks_digest C b' = as_marks_digest state"
    "pr_binding (bo_process s') = pr_binding (bo_process s)"
proof -
  let ?c = "\<lparr>ch_nonce = n1, ch_chain_id = chain, ch_environment_identifier = env\<rparr>"
  let ?w = "(bo_process s)\<lparr>pr_challenge := Some ?c\<rparr>"
  let ?q = "\<lparr>br_chain_id = chain, br_environment_identifier = env, br_nonce = n1, br_report_data = report_data C ?c\<rparr>"
  let ?mq = "\<lparr>mq_chain_id = chain, mq_environment_identifier = env, mq_nonce = n1, mq_epoch = as_epoch state\<rparr>"
  note h = assms(1) [unfolded honest_ahead_def]
  obtain r t where r: "anchor_round_trip T (bo_transport s) ?q = (Inr r, t)"
      "verify_anchor_response_bytes C r n1 (kb_config (bo_body s)) = Inr state"
    using h assms(4) unfolding boot_request_for_def env by blast
  obtain rm t' where rm: "marks_round_trip T t ?mq = (Inr rm, t')"
      "verify_marks_response_bytes C rm n1 (as_epoch state) (kb_config (bo_body s)) = Inr (enc_marks m)"
    using h assms(4) unfolding marks_request_for_def env by blast
  obtain b' where b': "execute_adopt_forward C rm (bo_body s) state n1 = Inr b'"
      "seed_marks_forward m (as_epoch state) (bo_body s) = Inr b'"
      "compute_local_marks_digest C b' = as_marks_digest state"
    using execute_adopt_forward_honest [OF assms(2) _ _ _ rm(2)] h by blast
  have v: "verify_outstanding_response C r (kb_config (bo_body s)) ?w
      = (Inr (state, n1), (bo_process s)\<lparr>pr_challenge := None\<rparr>)"
    using r(2) by (simp add: verify_outstanding_Inr)
  have rec: "reconcile (kb_freshness_epoch (bo_body s)) (kb_structural_version (bo_body s))
      (compute_local_marks_digest C (bo_body s)) state = AdoptForward (as_epoch state)"
    using h by (simp add: reconcile_cases)
  have "boot_reconcile_anti_rollback C r (bo_body s) ?w
      = (AdoptForwardRequired state n1, (bo_process s)\<lparr>pr_challenge := None\<rparr>)"
    by (simp add: boot_reconcile_anti_rollback_def v rec)
  then have "boot_attempt C T chain env s = (Inr ''adopted forward; re-run budget exhausted before Fresh'',
      s\<lparr>bo_draws := ds, bo_process := (bo_process s)\<lparr>pr_challenge := None\<rparr>, bo_transport := t', bo_body := b'\<rparr>)"
    using r(1) rm(1) b'(1) assms(3)
    by (simp add: boot_attempt_def issue_challenge_def getrandom_def Let_def)
  then show thesis using that b' by simp
qed

lemma boot_attempt_fresh:
  assumes "bo_draws s = Some n1 # ds" "pr_binding (bo_process s) = None"
    and "anchor_round_trip T (bo_transport s) \<lparr>br_chain_id = chain, br_environment_identifier = env, br_nonce = n1,
      br_report_data = report_data C \<lparr>ch_nonce = n1, ch_chain_id = chain, ch_environment_identifier = env\<rparr>\<rparr> = (Inr r, t)"
    and "verify_anchor_response_bytes C r n1 (kb_config (bo_body s)) = Inr state"
    and "as_epoch state = kb_freshness_epoch (bo_body s)"
      "as_structural_version state = kb_structural_version (bo_body s)"
      "as_marks_digest state = compute_local_marks_digest C (bo_body s)"
  shows "\<exists>s'. boot_attempt C T chain env s = (Inl (Ready state), s')"
proof -
  let ?w = "(bo_process s)\<lparr>pr_challenge := Some \<lparr>ch_nonce = n1, ch_chain_id = chain, ch_environment_identifier = env\<rparr>\<rparr>"
  have "boot_reconcile_anti_rollback C r (bo_body s) ?w = (boot_anti_rollback_outcome.Ready state,
      ?w\<lparr>pr_challenge := None, pr_binding := Some \<lparr>ab_epoch = as_epoch state, ab_active = True\<rparr>\<rparr>)"
    using assms by (simp add: boot_reconcile_Ready)
  then show ?thesis
    using assms(1,3) by (simp add: boot_attempt_def issue_challenge_def getrandom_def Let_def)
qed


lemma boot_attempt_ready_body:
  "boot_attempt C T chain env s = (Inl (Ready state), s') \<Longrightarrow> bo_body s' = bo_body s"
  by (auto simp: boot_attempt_def Let_def split: prod.splits sum.splits boot_anti_rollback_outcome.splits)

lemma honest_handshake:
  assumes "honest_ahead C T (bo_body s) state m" "body_ok (bo_body s)" "pr_binding (bo_process s) = None"
    and "bo_draws s = Some n1 # Some n2 # ds" "length n1 = 32" "length n2 = 32"
    and "2 \<le> max_attempts" "max_attempts \<le> MAX_BOOT_ATTEMPTS_CEILING"
  shows "\<exists>s'. run_boot_anti_rollback_handshake C T max_attempts s = (Ready state, s')
    \<and> encode_marks_payload (bo_body s') = enc_marks m \<and> kb_freshness_epoch (bo_body s') = as_epoch state"
proof -
  let ?chain = "kc_twod_chain_id (kb_config (bo_body s))" and ?env = "kc_environment_identifier (kb_config (bo_body s))"
  obtain v b' where v: "boot_attempt C T ?chain ?env s
      = (Inr ''adopted forward; re-run budget exhausted before Fresh'', v)"
      "seed_marks_forward m (as_epoch state) (bo_body s) = Inr b'" "bo_body v = b'" "bo_draws v = Some n2 # ds"
      "compute_local_marks_digest C b' = as_marks_digest state" "pr_binding (bo_process v) = None"
    using boot_attempt_adopts [OF assms(1,2,4,5) refl refl] assms(3) by metis
  note frame = seed_marks_forward_frame [OF v(2)] and h = assms(1) [unfolded honest_ahead_def]
  let ?q = "\<lparr>br_chain_id = ?chain, br_environment_identifier = ?env, br_nonce = n2,
    br_report_data = report_data C \<lparr>ch_nonce = n2, ch_chain_id = ?chain, ch_environment_identifier = ?env\<rparr>\<rparr>"
  obtain r t where r: "anchor_round_trip T (bo_transport v) ?q = (Inr r, t)"
      "verify_anchor_response_bytes C r n2 (kb_config (bo_body s)) = Inr state"
    using h assms(6) unfolding boot_request_for_def by blast
  have "\<exists>s'. boot_attempt C T ?chain ?env v = (Inl (Ready state), s')"
    by (rule boot_attempt_fresh [OF v(4,6) r(1)]) (use r(2) v(3,5) frame h in auto)
  then obtain s' where s': "boot_attempt C T ?chain ?env v = (Inl (Ready state), s')" by blast
  obtain k where k: "max_attempts = Suc (Suc k)" using assms(7) by (metis add_2_eq_Suc le_Suc_ex)
  have run: "run_boot_anti_rollback_handshake C T max_attempts s = (Ready state, s')"
    using assms(8) v(1) s' by (simp add: run_boot_anti_rollback_handshake_def k)
  have "kb_freshness_epoch (bo_body s') = as_epoch state" "bo_body s' = b'"
    using handshake_cases [OF run assms(2)] boot_attempt_ready_body [OF s'] v(3) frame by simp_all
  then show ?thesis
    using run seed_marks_forward_marks(2) [OF _ v(2)] h by auto
qed

section \<open>Samples\<close>

definition sample_digest :: bytes where
  "sample_digest = sha3_256 sample_crypto (MARKS_DOMAIN @ enc_marks sample_marks)"

definition sample_marks_msg :: "bytes \<Rightarrow> marks_resp_fields" where
  "sample_marks_msg nonce = \<lparr>mr_version = 1, mr_chain_id = 11565, mr_environment_identifier = ascii ''lab'',
     mr_epoch = 7, mr_nonce = nonce, mr_marks_payload = enc_marks sample_marks, mr_signature = replicate 64 1\<rparr>"

definition sample_transport :: "unit anchor_boot_transport" where
  "sample_transport = \<lparr>
     anchor_round_trip = (\<lambda>t q. (Inr (sample_response_bytes 7 sample_digest (br_nonce q)), t)),
     marks_round_trip = (\<lambda>t q. (Inr (enc_marks_response (sample_marks_msg (mq_nonce q))), t))\<rparr>"

definition sample_anchor_state :: anchor_state where
  "sample_anchor_state = \<lparr>as_epoch = 7, as_structural_version = 3, as_marks_digest = sample_digest,
     as_chain_height = None, as_chain_block_hash = None\<rparr>"

definition sample_run :: "unit boot_run" where
  "sample_run = \<lparr>bo_transport = (), bo_draws = [Some (replicate 32 1), Some (replicate 32 2)],
     bo_process = \<lparr>pr_challenge = None, pr_binding = None\<rparr>, bo_body = sample_body\<rparr>"

lemma length_sample_digest: "length sample_digest = 32"
  by (simp add: sample_digest_def sample_crypto_def)

lemma length_put_uint_le: "length (put_uint m v) \<le> 9"
  by (simp add: put_uint_def Let_def)

lemma sample_payload_length: "length (enc_marks sample_marks) \<le> 1000"
proof -
  have u: "length (put_uint m v) \<le> 9" for m v by (rule length_put_uint_le)
  show ?thesis
    using u [of 5 4] u [of 0 1] u [of 4 1] u [of 0 2] u [of 0 3] u [of 0 4] u [of 2 32] u [of 2 1] u [of 4 4] u [of 0 0]
    by (simp add: enc_marks_def sample_marks_def marks_of_def sample_body_def enc_row_def row_of_def put_bytes_def
        sample_faucet_def u256_from_u64_def)
qed

lemma sample_state_reported:
  assumes "length nonce = 32"
  shows "verify_anchor_response_bytes sample_crypto (sample_response_bytes 7 sample_digest nonce) nonce sample_config
    = Inr sample_anchor_state"
proof -
  have "verify_anchor_response_bytes sample_crypto (sample_response_bytes 7 sample_digest nonce) nonce sample_config
      = Inr (state_of (sample_response_at 7 sample_digest nonce))"
    by (rule sample_response_verified) (simp_all add: assms length_sample_digest sample_crypto_def)
  then show ?thesis by (simp add: sample_anchor_state_def state_of_def sample_response_at_def)
qed

lemma sample_marks_reported:
  assumes "length nonce = 32"
  shows "verify_marks_response_bytes sample_crypto (enc_marks_response (sample_marks_msg nonce)) nonce 7 sample_config
    = Inr (enc_marks sample_marks)"
proof -
  have "marks_response_ok MAX_MARKS_PAYLOAD_LEN (sample_marks_msg nonce)"
    using assms sample_payload_length
    by (simp add: marks_response_ok_def sample_marks_msg_def utf8_valid_ascii ascii_def MAX_MARKS_PAYLOAD_LEN_def
        MAX_KEYSTORE_BLOB_SIZE_def MAX_MESSAGE_SIZE_def KEYSTORE_FRAMING_RESERVE_def)
  moreover have "mr_version (sample_marks_msg nonce) = 1" "mr_signature (sample_marks_msg nonce) = replicate 64 1"
    "mr_chain_id (sample_marks_msg nonce) = kc_twod_chain_id sample_config" "mr_nonce (sample_marks_msg nonce) = nonce"
    "mr_environment_identifier (sample_marks_msg nonce) = kc_environment_identifier sample_config"
    "mr_epoch (sample_marks_msg nonce) = 7" "mr_marks_payload (sample_marks_msg nonce) = enc_marks sample_marks"
    by (simp_all add: sample_marks_msg_def sample_config_def)
  ultimately show ?thesis
    unfolding verify_marks_response_bytes_Inr
    by (intro exI [of _ "sample_marks_msg nonce"]) (simp add: sample_crypto_def)
qed

lemma sample_dominates: "marks_dominate_local sample_marks sample_body"
proof -
  have "(u256_from_u64 100 :: bytes) \<le> u256_from_u64 150" "(u256_from_u64 400 :: bytes) \<le> u256_from_u64 450"
    by (simp_all add: u256_from_u64_def be_val_append less_imp_le be_val_less_iff)
  then show ?thesis
    by (simp add: marks_dominate_local_def sample_marks_def marks_of_def sample_body_def row_of_def sample_faucet_def)
qed

lemma sample_honest: "honest_ahead sample_crypto sample_transport sample_body sample_anchor_state sample_marks"
  using sample_marks_ok sample_dominates sample_state_reported sample_marks_reported
  by (simp add: honest_ahead_def sample_transport_def sample_anchor_state_def sample_digest_def sample_body_def
      boot_request_for_def marks_request_for_def)

lemma sample_handshake:
  "\<exists>s'. run_boot_anti_rollback_handshake sample_crypto sample_transport 5 sample_run = (Ready sample_anchor_state, s')"
  using honest_handshake [of sample_crypto sample_transport sample_run sample_anchor_state sample_marks
      "replicate 32 1" "replicate 32 2" "[]" 5] sample_honest sample_body_ok
  by (auto simp: sample_run_def MAX_BOOT_ATTEMPTS_CEILING_def)

section \<open>Properties\<close>

text \<open>C5: The gateway serves only current state. Against an arbitrary transport and any random draws, if
  the boot handshake ends and \<open>decide_serve\<close> lets the gateway serve, then a signed anchor response
  was verified against a nonce drawn in this boot, no binding existed before and exactly the
  binding of that anchor's epoch is installed, the challenge is spent, and the body that will be
  installed agrees with the anchor in epoch, structural version and marks digest; it differs from
  the unsealed body only by marks and epoch, none of which went down. In every other outcome
  \<open>decide_serve\<close> refuses and the binding is as it was.\<close>

theorem boot_serves_only_current:
  assumes "run_boot_anti_rollback_handshake C T max_attempts s = (outcome, s')" "body_ok (bo_body s)"
  shows "(case decide_serve outcome require_real (bo_process s') of
      Inr state \<Rightarrow> outcome = Ready state \<and> boot_current C s s' state
    | Inl _ \<Rightarrow> (\<exists>f. outcome = FailClosed f) \<and> pr_binding (bo_process s') = pr_binding (bo_process s))"
proof (cases outcome)
  case (Ready state)
  then have "boot_current C s s' state" using handshake_cases [OF assms] by simp
  moreover from this have "is_anti_rollback_configured (bo_process s')"
    by (simp add: boot_current_def is_anti_rollback_configured_def)
  ultimately show ?thesis using Ready by (simp add: decide_serve_def agent_anti_rollback_serve_gate_def)
next
  case (FailClosed f)
  then show ?thesis using handshake_cases [OF assms] by (simp add: decide_serve_def)
qed

lemma boot_serves_only_current_witness:
  "\<exists>s'. boot_current sample_crypto sample_run s' sample_anchor_state"
proof -
  obtain s' where run: "run_boot_anti_rollback_handshake sample_crypto sample_transport 5 sample_run
      = (Ready sample_anchor_state, s')"
    using sample_handshake by blast
  have "body_ok (bo_body sample_run)" using sample_body_ok by (simp add: sample_run_def)
  from boot_serves_only_current [OF run this, of False] show ?thesis
    by (auto simp: decide_serve_def agent_anti_rollback_serve_gate_def)
qed

text \<open>The hash gate of a forward adoption. The adopted body encodes to exactly the payload the
  anchor signed for this nonce and epoch, and that payload hashes to the marks digest of the
  verified freshness response; so for whatever payload \<open>q\<close> the anchor committed to in that digest,
  the adopted payload is \<open>q\<close> itself or an explicit SHA3-256 collision with it. Nothing goes down.\<close>

theorem adoption_is_authenticated:
  assumes "execute_adopt_forward C marks_bytes body state nonce = Inr body'" "body_ok body"
    and "kb_freshness_epoch body \<le> as_epoch state"
  shows "adopted body body' \<and> body_ok body' \<and> kb_freshness_epoch body' = as_epoch state
    \<and> verify_marks_response_bytes C marks_bytes nonce (as_epoch state) (kb_config body)
        = Inr (encode_marks_payload body')
    \<and> (as_marks_digest state = sha3_256 C (MARKS_DOMAIN @ q) \<longrightarrow>
        encode_marks_payload body' = q
        \<or> (MARKS_DOMAIN @ encode_marks_payload body' \<noteq> MARKS_DOMAIN @ q
           \<and> sha3_256 C (MARKS_DOMAIN @ encode_marks_payload body') = sha3_256 C (MARKS_DOMAIN @ q)))"
proof -
  obtain p m where pm: "verify_marks_response_bytes C marks_bytes nonce (as_epoch state) (kb_config body) = Inr p"
      "marks_ok MAX_COUNTER_ENTRIES m" "p = enc_marks m" "seed_marks_forward m (as_epoch state) body = Inr body'"
      "compute_local_marks_digest C body' = as_marks_digest state"
    using execute_adopt_forward_Inr [OF assms(1)] by (auto simp: strict_decode_marks_payload_iff)
  have "encode_marks_payload body' = p" using seed_marks_forward_marks(2) [OF pm(2,4)] pm(3) by simp
  then show ?thesis
    using execute_adopt_forward_adopted [OF assms] seed_marks_forward_frame(5) [OF pm(4)] pm(1,5)
    by (auto simp: compute_local_marks_digest_def)
qed

lemma adoption_is_authenticated_witness:
  "\<exists>b'. execute_adopt_forward sample_crypto (enc_marks_response (sample_marks_msg (replicate 32 1))) sample_body
      sample_anchor_state (replicate 32 1) = Inr b' \<and> adopted sample_body b' \<and> kb_freshness_epoch b' = 7"
proof -
  have m: "verify_marks_response_bytes sample_crypto (enc_marks_response (sample_marks_msg (replicate 32 1)))
      (replicate 32 1) (as_epoch sample_anchor_state) (kb_config sample_body) = Inr (enc_marks sample_marks)"
    using sample_marks_reported by (simp add: sample_anchor_state_def sample_body_simps)
  obtain b' where b': "execute_adopt_forward sample_crypto (enc_marks_response (sample_marks_msg (replicate 32 1)))
      sample_body sample_anchor_state (replicate 32 1) = Inr b'"
    using execute_adopt_forward_honest [OF sample_body_ok sample_marks_ok sample_dominates _ m]
    by (auto simp: sample_anchor_state_def sample_digest_def)
  have "kb_freshness_epoch sample_body \<le> as_epoch sample_anchor_state"
    by (simp add: sample_body_def sample_anchor_state_def)
  from adoption_is_authenticated [OF b' sample_body_ok this] b' show ?thesis
    by (auto simp: sample_anchor_state_def)
qed

text \<open>An honest anchor that is ahead by counters and spends brings the enclave up: if the transport
  delivers its signed state and marks, the handshake reaches \<open>Ready\<close> within two attempts, with
  the body seeded to the anchor's marks and epoch.\<close>

theorem handshake_reaches_ready:
  assumes "honest_ahead C T (bo_body s) state m" "body_ok (bo_body s)" "pr_binding (bo_process s) = None"
    and "bo_draws s = Some n1 # Some n2 # ds" "length n1 = 32" "length n2 = 32"
    and "2 \<le> max_attempts" "max_attempts \<le> MAX_BOOT_ATTEMPTS_CEILING"
  shows "\<exists>s'. run_boot_anti_rollback_handshake C T max_attempts s = (Ready state, s')
    \<and> encode_marks_payload (bo_body s') = enc_marks m \<and> kb_freshness_epoch (bo_body s') = as_epoch state"
  using honest_handshake [OF assms] .

lemma handshake_reaches_ready_witness:
  "\<exists>s'. run_boot_anti_rollback_handshake sample_crypto sample_transport 5 sample_run = (Ready sample_anchor_state, s')
     \<and> kb_freshness_epoch (bo_body s') = 7"
  using handshake_reaches_ready [of sample_crypto sample_transport sample_run sample_anchor_state sample_marks
      "replicate 32 1" "replicate 32 2" "[]" 5] sample_honest sample_body_ok
  by (auto simp: sample_run_def MAX_BOOT_ATTEMPTS_CEILING_def sample_anchor_state_def)

end
