(* ===== verification/Rlp.thy ===== *)
theory Rlp
  imports Prelude
begin

text \<open>
  Model of \<open>rlp.rs\<close>, the encoder of the EIP-155 transfer preimage, and of a reference decoder
  written from the RLP rules (the source only encodes). The decoder shows that both item kinds
  are self-delimiting: they interpret \<open>prefix_codec\<close>, so a list of encoded items determines the
  items.
\<close>

section \<open>The encoder\<close>

definition rlp_encode_length :: "nat \<Rightarrow> u8 \<Rightarrow> bytes" where
  "rlp_encode_length len offset =
     (if len < 56 then [offset + of_nat len]
      else (let len_bytes = dropWhile (\<lambda>b. b = 0) (be64 (of_nat len))
            in (offset + 55 + of_nat (length len_bytes)) # len_bytes))"

definition rlp_encode_bytes :: "bytes \<Rightarrow> bytes" where
  "rlp_encode_bytes bs =
     (if length bs = 1 \<and> hd bs < 0x80 then [hd bs]
      else rlp_encode_length (length bs) 0x80 @ bs)"

definition rlp_encode_uint_minimal :: "bytes \<Rightarrow> bytes" where
  "rlp_encode_uint_minimal be = rlp_encode_bytes (dropWhile (\<lambda>b. b = 0) be)"

definition rlp_encode_list :: "bytes list \<Rightarrow> bytes" where
  "rlp_encode_list items = rlp_encode_length (sum_list (map length items)) 0xc0 @ concat items"

section \<open>A reference decoder\<close>

text \<open>\<open>offset\<close> is 0x80 for a string and 0xc0 for a list; the input starts at the prefix byte.\<close>

definition rlp_decode_payload :: "nat \<Rightarrow> bytes \<Rightarrow> (bytes \<times> bytes) option" where
  "rlp_decode_payload offset bs = (case bs of [] \<Rightarrow> None | b # rest \<Rightarrow>
     (if unat b < offset then None
      else if unat b < offset + 56 then fixed_dec (unat b - offset) rest
      else if unat b < offset + 64 then
        (case fixed_dec (unat b - (offset + 55)) rest of None \<Rightarrow> None
         | Some (len, rest') \<Rightarrow> fixed_dec (be_val len) rest')
      else None))"

definition rlp_decode_bytes :: "bytes \<Rightarrow> (bytes \<times> bytes) option" where
  "rlp_decode_bytes bs = (case bs of [] \<Rightarrow> None
     | b # rest \<Rightarrow> (if b < 0x80 then Some ([b], rest) else rlp_decode_payload 0x80 bs))"

section \<open>Leading zeros\<close>

lemma be_val_strip [simp]: "be_val (dropWhile (\<lambda>b. b = 0) bs) = be_val bs"
  by (induction bs) auto

lemma length_strip_be64:
  assumes "n \<noteq> 0" "n < 2 ^ 64"
  shows "1 \<le> length (dropWhile (\<lambda>b. b = 0) (be64 (of_nat n)))
    \<and> length (dropWhile (\<lambda>b. b = 0) (be64 (of_nat n))) \<le> 8"
proof -
  let ?s = "dropWhile (\<lambda>b. b = 0) (be64 (of_nat n))"
  have "be_val ?s = n"
    using assms by (simp add: unat_of_nat)
  then have "?s \<noteq> []" using assms by (metis be_val.simps(1))
  moreover have "length ?s \<le> length (be64 (of_nat n))" by (rule length_dropWhile_le)
  ultimately show ?thesis by (simp add: Suc_le_eq)
qed

lemma be_val_lower: "bs \<noteq> [] \<Longrightarrow> hd bs \<noteq> 0 \<Longrightarrow> 256 ^ (length bs - 1) \<le> be_val bs"
proof (cases bs)
  case (Cons b xs)
  moreover assume "hd bs \<noteq> 0"
  ultimately have "1 * 256 ^ length xs \<le> unat b * 256 ^ length xs"
    by (intro mult_le_mono1) (simp add: Suc_le_eq unat_gt_0)
  then have "256 ^ length xs \<le> unat b * 256 ^ length xs + be_val xs" by linarith
  with Cons show ?thesis by simp
qed simp

lemma strip_shorter:
  assumes "be_val a = be_val b" "a = [] \<or> hd a \<noteq> 0" "b = [] \<or> hd b \<noteq> 0"
  shows "length b \<le> length a"
proof (rule ccontr)
  assume "\<not> length b \<le> length a"
  then have *: "length a \<le> length b - 1" "b \<noteq> []" by auto
  have "be_val a < 256 ^ length a" by (rule be_val_less)
  also have "\<dots> \<le> 256 ^ (length b - 1)" using * by (intro power_increasing) auto
  also have "\<dots> \<le> be_val b" using * assms(3) by (intro be_val_lower) auto
  finally show False using assms(1) by simp
qed

lemma strip_eq_iff:
  "dropWhile (\<lambda>b. b = 0) a = dropWhile (\<lambda>b. b = 0) b \<longleftrightarrow> be_val a = be_val b"
proof
  assume "be_val a = be_val b"
  moreover have "dropWhile (\<lambda>b. b = 0) x = [] \<or> hd (dropWhile (\<lambda>b. b = 0) x) \<noteq> 0" for x :: bytes
    using hd_dropWhile [of "\<lambda>b. b = 0" x] by auto
  ultimately have "length (dropWhile (\<lambda>b. b = 0) a) = length (dropWhile (\<lambda>b. b = 0) b)"
    by (intro antisym strip_shorter) simp_all
  with \<open>be_val a = be_val b\<close> show "dropWhile (\<lambda>b. b = 0) a = dropWhile (\<lambda>b. b = 0) b"
    by (intro be_val_inj) simp_all
qed (metis be_val_strip)

section \<open>The prefix determines the payload\<close>

lemma fixed_dec_append [simp]: "fixed_dec (length a) (a @ rest) = Some (a, rest)"
  by (simp add: fixed_dec_def)

lemma rlp_decode_payload_encode:
  assumes "length p < 2 ^ 64" "offset = 0x80 \<or> offset = 0xc0"
  shows "rlp_decode_payload (unat offset) (rlp_encode_length (length p) offset @ p @ rest)
    = Some (p, rest)"
proof (cases "length p < 56")
  case True
  then have "unat (offset + of_nat (length p)) = unat offset + length p"
    using assms(2) by (auto simp: unat_word_ariths unat_of_nat)
  then show ?thesis
    using True by (simp add: rlp_encode_length_def rlp_decode_payload_def)
next
  case False
  define l where "l = dropWhile (\<lambda>b. b = 0) (be64 (of_nat (length p)))"
  have l: "1 \<le> length l" "length l \<le> 8"
    using length_strip_be64 [OF _ assms(1)] False unfolding l_def by force+
  have v: "be_val l = length p"
    using assms(1) by (simp add: l_def unat_of_nat)
  have "unat (offset + 55 + of_nat (length l)) = unat offset + 55 + length l"
    using assms(2) l by (auto simp: unat_word_ariths unat_of_nat)
  moreover have "l \<noteq> []" using l by auto
  ultimately show ?thesis
    using False l v
    by (simp add: rlp_encode_length_def rlp_decode_payload_def Let_def flip: l_def)
qed

lemma rlp_encode_length_hd:
  "rlp_encode_length len offset = b # bs \<Longrightarrow> len < 2 ^ 64 \<Longrightarrow> offset = 0x80 \<or> offset = 0xc0
    \<Longrightarrow> unat offset \<le> unat b \<and> unat b < unat offset + 64"
  using length_strip_be64 [of len]
  by (auto simp: rlp_encode_length_def Let_def unat_word_ariths unat_of_nat split: if_splits)

interpretation rlp_bytes: prefix_codec rlp_encode_bytes rlp_decode_bytes "\<lambda>bs. length bs < 2 ^ 64"
proof
  fix bs rest :: bytes
  assume len: "length bs < 2 ^ 64"
  show "rlp_decode_bytes (rlp_encode_bytes bs @ rest) = Some (bs, rest)"
  proof (cases "length bs = 1 \<and> hd bs < 0x80")
    case True
    then show ?thesis by (cases bs) (auto simp: rlp_encode_bytes_def rlp_decode_bytes_def)
  next
    case False
    obtain b l where bl: "rlp_encode_length (length bs) 0x80 = b # l"
      by (cases "rlp_encode_length (length bs) 0x80") (auto simp: rlp_encode_length_def Let_def split: if_splits)
    then have "\<not> b < 0x80"
      using rlp_encode_length_hd [OF bl len] by (simp add: word_less_nat_alt)
    then show ?thesis
      using rlp_decode_payload_encode [OF len, of "0x80" rest] False bl
      by (auto simp: rlp_encode_bytes_def rlp_decode_bytes_def)
  qed
qed

interpretation rlp_list: prefix_codec "\<lambda>items. rlp_encode_length (length items) 0xc0 @ items"
  "rlp_decode_payload 0xc0" "\<lambda>items. length items < 2 ^ 64"
  using rlp_decode_payload_encode [where offset = "0xc0"] by unfold_locales simp

lemma rlp_encode_list_payload:
  "rlp_encode_list items = rlp_encode_length (length (concat items)) 0xc0 @ concat items"
  by (simp add: rlp_encode_list_def length_concat)

lemma rlp_encode_list_eq:
  assumes "length (concat as) < 2 ^ 64" "length (concat bs) < 2 ^ 64"
  shows "rlp_encode_list as = rlp_encode_list bs \<longleftrightarrow> concat as = concat bs"
  unfolding rlp_encode_list_payload using rlp_list.enc_inj assms by blast

text \<open>A list preimage starts at 0xc0 or above.\<close>

lemma rlp_encode_list_hd:
  assumes "length (concat items) < 2 ^ 64"
  obtains b l where "rlp_encode_list items = b # l" "0xc0 \<le> b"
proof -
  obtain b l where bl: "rlp_encode_length (length (concat items)) 0xc0 = b # l"
    by (cases "rlp_encode_length (length (concat items)) 0xc0")
      (auto simp: rlp_encode_length_def Let_def split: if_splits)
  then have "0xc0 \<le> b"
    using rlp_encode_length_hd [OF bl assms] by (simp add: word_le_nat_alt)
  then show ?thesis using bl that by (auto simp: rlp_encode_list_payload)
qed

lemma length_rlp_encode_bytes: "length (rlp_encode_bytes bs) \<le> length bs + 9"
  using length_dropWhile_le [of "\<lambda>b. b = 0" "be64 (of_nat (length bs))"]
  by (simp add: rlp_encode_bytes_def rlp_encode_length_def Let_def)

lemma length_rlp_encode_uint_minimal: "length (rlp_encode_uint_minimal bs) \<le> length bs + 9"
  using length_rlp_encode_bytes [of "dropWhile (\<lambda>b. b = 0) bs"]
    length_dropWhile_le [of "\<lambda>b. b = 0" bs]
  by (simp add: rlp_encode_uint_minimal_def)

lemma rlp_encode_uint_minimal_append_inj:
  assumes "length a < 2 ^ 64" "length b < 2 ^ 64"
  shows "rlp_encode_uint_minimal a @ xs = rlp_encode_uint_minimal b @ ys
    \<longleftrightarrow> be_val a = be_val b \<and> xs = ys"
  using rlp_bytes.append_inj [of "dropWhile (\<lambda>b. b = 0) a" "dropWhile (\<lambda>b. b = 0) b" xs ys]
    le_less_trans [OF length_dropWhile_le assms(1)] le_less_trans [OF length_dropWhile_le assms(2)]
  by (simp add: rlp_encode_uint_minimal_def strip_eq_iff)

end
