(* ===== verification/Signing.thy ===== *)
theory Signing
  imports Rlp Crypto Keystore_Invariant
begin

text \<open>
  Model of the two structured signers of the agent gateway: the EIP-155 transfer signer
  (\<open>agent_transfer.rs\<close>) and the EIP-191 identity-proof signer (\<open>agent_identity.rs\<close>). The lemmas
  show that each preimage determines every field that is signed, that the two preimage families
  are disjoint by their first byte, and what a successful signature attests.
\<close>

section \<open>Transfers\<close>

record eth_transfer_fields =
  et_chain_id :: u64
  et_nonce :: u64
  et_gas_limit :: u64
  et_to :: bytes
  et_value_be :: bytes
  et_gas_price_be :: bytes

datatype sign_transfer_error = ValueTooWide | ChainIdOverflow | Sign | RecoveryMismatch

record signed_transfer =
  st_signature :: recoverable_signature
  st_v :: u64
  st_signing_hash :: bytes
  st_signed_rlp :: bytes
  st_from :: bytes

definition unsigned_preimage :: "eth_transfer_fields \<Rightarrow> bytes" where
  "unsigned_preimage f = rlp_encode_list
     [rlp_encode_uint_minimal (be64 (et_nonce f)),
      rlp_encode_uint_minimal (et_gas_price_be f),
      rlp_encode_uint_minimal (be64 (et_gas_limit f)),
      rlp_encode_bytes (et_to f),
      rlp_encode_uint_minimal (et_value_be f),
      rlp_encode_bytes [],
      rlp_encode_uint_minimal (be64 (et_chain_id f)),
      rlp_encode_uint_minimal [],
      rlp_encode_uint_minimal []]"

definition signed_rlp :: "eth_transfer_fields \<Rightarrow> recoverable_signature \<Rightarrow> u64 \<Rightarrow> bytes" where
  "signed_rlp f sig v = rlp_encode_list
     [rlp_encode_uint_minimal (be64 (et_nonce f)),
      rlp_encode_uint_minimal (et_gas_price_be f),
      rlp_encode_uint_minimal (be64 (et_gas_limit f)),
      rlp_encode_bytes (et_to f),
      rlp_encode_uint_minimal (et_value_be f),
      rlp_encode_bytes [],
      rlp_encode_uint_minimal (be64 v),
      rlp_encode_uint_minimal (rs_r sig),
      rlp_encode_uint_minimal (rs_s sig)]"

definition sign_transfer :: "crypto \<Rightarrow> keypair \<Rightarrow> eth_transfer_fields
    \<Rightarrow> sign_transfer_error + signed_transfer" where
  "sign_transfer C kp f =
     (if length (et_value_be f) > 32 \<or> length (et_gas_price_be f) > 32 then Inl ValueTooWide
      else
        (let from_addr = eth_address C kp;
             signing_hash = keccak_256 C (unsigned_preimage f) in
         res_bind (map_err (\<lambda>_. Sign) (sign_prehashed C kp signing_hash)) (\<lambda>signature.
         res_bind (ok_or ChainIdOverflow (do {
             x \<leftarrow> checked_mul_u64 (et_chain_id f) 2;
             x \<leftarrow> checked_add_u64 x 35;
             checked_add_u64 x (ucast (rs_recovery_id signature)) })) (\<lambda>v.
         let signed = signed_rlp f signature v in
         res_bind (map_err (\<lambda>_. Sign) (recover_pubkey_uncompressed C signing_hash signature)) (\<lambda>recovered.
         res_bind (map_err (\<lambda>_. Sign) (eth_address_from_uncompressed C recovered)) (\<lambda>recovered_addr.
         if recovered_addr \<noteq> from_addr then Inl RecoveryMismatch
         else Inr \<lparr>st_signature = signature, st_v = v, st_signing_hash = signing_hash,
                   st_signed_rlp = signed, st_from = from_addr\<rparr>))))))"

section \<open>Identity proofs\<close>

definition EIP191_DOMAIN :: u8 where "EIP191_DOMAIN = 0x19"

definition IDENTITY_PROOF_LABEL :: bytes where
  "IDENTITY_PROOF_LABEL = ascii ''2d-hsm/agent-identity-proof/v1''"

datatype identity_proof_error = FieldTooLong | InvalidEnvironmentId | Sign

definition identity_proof_preimage :: "u64 \<Rightarrow> bytes \<Rightarrow> bytes \<Rightarrow> bytes \<Rightarrow> bytes \<Rightarrow> bytes
    \<Rightarrow> identity_proof_error + bytes" where
  "identity_proof_preimage chain_id env key_ref pubkey address verifier_nonce =
     (let label = IDENTITY_PROOF_LABEL in
      if length label > 255 then Inl FieldTooLong
      else if \<not> is_valid_environment_identifier env then Inl identity_proof_error.InvalidEnvironmentId
      else Inr ([EIP191_DOMAIN] @ [of_nat (length label)] @ label @ be64 chain_id
        @ [of_nat (length env)] @ env @ key_ref @ pubkey @ address @ verifier_nonce))"

record identity_proof =
  ip_signature :: recoverable_signature
  ip_pubkey_uncompressed :: bytes
  ip_address :: bytes
  ip_signing_hash :: bytes

definition sign_identity_proof :: "crypto \<Rightarrow> keypair \<Rightarrow> u64 \<Rightarrow> bytes \<Rightarrow> bytes \<Rightarrow> bytes
    \<Rightarrow> identity_proof_error + identity_proof" where
  "sign_identity_proof C kp chain_id env key_ref verifier_nonce =
     (let pubkey = public_key_uncompressed C kp;
          address = eth_address C kp in
      res_bind (identity_proof_preimage chain_id env key_ref pubkey address verifier_nonce) (\<lambda>preimage.
      let signing_hash = keccak_256 C preimage in
      res_bind (map_err (\<lambda>_. identity_proof_error.Sign) (sign_prehashed C kp signing_hash)) (\<lambda>signature.
      Inr \<lparr>ip_signature = signature, ip_pubkey_uncompressed = pubkey, ip_address = address,
           ip_signing_hash = signing_hash\<rparr>)))"

definition AGENT_GATEWAY_VERSION :: u8 where "AGENT_GATEWAY_VERSION = 1"

record public_identity =
  pi_pubkey_uncompressed :: bytes
  pi_eth_address :: bytes
  pi_tron_address :: bytes
  pi_key_ref :: bytes
  pi_key_purpose :: key_purpose
  pi_agent_version :: u8

definition find_entry :: "keystore_body \<Rightarrow> bytes \<Rightarrow> key_entry option" where
  "find_entry b key_ref = find (\<lambda>e. ke_key_ref e = key_ref) (kb_entries b)"

definition public_identity_from_entry :: "crypto \<Rightarrow> key_entry \<Rightarrow> secp256k1_error + public_identity" where
  "public_identity_from_entry C e =
     (if length (ke_public_identity e) \<noteq> 65 then Inl InvalidPublicKey
      else
        (let pubkey = ke_public_identity e in
         res_bind (eth_address_from_uncompressed C pubkey) (\<lambda>address.
         Inr \<lparr>pi_pubkey_uncompressed = pubkey, pi_eth_address = address,
              pi_tron_address = tron_address_from_body C address, pi_key_ref = ke_key_ref e,
              pi_key_purpose = ke_purpose e, pi_agent_version = AGENT_GATEWAY_VERSION\<rparr>)))"

section \<open>The transfer preimage determines the transfer\<close>

definition transfer_typed :: "eth_transfer_fields \<Rightarrow> bool" where
  "transfer_typed f \<longleftrightarrow> length (et_to f) = 20 \<and> length (et_value_be f) \<le> 32
     \<and> length (et_gas_price_be f) \<le> 32"

definition transfer_items :: "eth_transfer_fields \<Rightarrow> bytes list" where
  "transfer_items f =
     [rlp_encode_uint_minimal (be64 (et_nonce f)),
      rlp_encode_uint_minimal (et_gas_price_be f),
      rlp_encode_uint_minimal (be64 (et_gas_limit f)),
      rlp_encode_bytes (et_to f),
      rlp_encode_uint_minimal (et_value_be f),
      rlp_encode_bytes [],
      rlp_encode_uint_minimal (be64 (et_chain_id f)),
      rlp_encode_uint_minimal [],
      rlp_encode_uint_minimal []]"

lemma unsigned_preimage_items: "unsigned_preimage f = rlp_encode_list (transfer_items f)"
  by (simp add: unsigned_preimage_def transfer_items_def)

lemma transfer_items_short:
  assumes "transfer_typed f"
  shows "length (concat (transfer_items f)) < 2 ^ 64"
proof -
  have "length (concat (transfer_items f)) \<le> 17 + 41 + 17 + 29 + 41 + 9 + 17 + 9 + 9"
    using assms length_rlp_encode_uint_minimal [of "be64 (et_nonce f)"]
      length_rlp_encode_uint_minimal [of "et_gas_price_be f"]
      length_rlp_encode_uint_minimal [of "be64 (et_gas_limit f)"]
      length_rlp_encode_bytes [of "et_to f"] length_rlp_encode_uint_minimal [of "et_value_be f"]
      length_rlp_encode_bytes [of "[]"] length_rlp_encode_uint_minimal [of "be64 (et_chain_id f)"]
      length_rlp_encode_uint_minimal [of "[]"]
    by (simp add: transfer_items_def transfer_typed_def)
  then show ?thesis by simp
qed

lemma be_val_be64_eq: "be_val (be64 a) = be_val (be64 b) \<longleftrightarrow> a = b"
  by (simp add: word_unat_eq_iff)

lemma rlp_u64_item: "rlp_encode_uint_minimal (be64 a) = rlp_encode_uint_minimal (be64 b) \<longleftrightarrow> a = b"
  using rlp_encode_uint_minimal_append_inj [of "be64 a" "be64 b" "[]" "[]"] by (simp add: word_unat_eq_iff)

lemma transfer_items_inj:
  assumes "transfer_typed f" "transfer_typed g"
  shows "concat (transfer_items f) = concat (transfer_items g) \<longleftrightarrow>
    et_nonce f = et_nonce g \<and> be_val (et_gas_price_be f) = be_val (et_gas_price_be g)
    \<and> et_gas_limit f = et_gas_limit g \<and> et_to f = et_to g
    \<and> be_val (et_value_be f) = be_val (et_value_be g) \<and> et_chain_id f = et_chain_id g"
proof -
  have short: "length (be64 x) < 2 ^ 64" for x by simp
  have len: "length (et_value_be f) < 2 ^ 64" "length (et_value_be g) < 2 ^ 64"
    "length (et_gas_price_be f) < 2 ^ 64" "length (et_gas_price_be g) < 2 ^ 64"
    "length (et_to f) < 2 ^ 64" "length (et_to g) < 2 ^ 64"
    using assms by (auto simp: transfer_typed_def)
  show ?thesis
    unfolding transfer_items_def concat.simps
      rlp_encode_uint_minimal_append_inj [OF short short]
      rlp_encode_uint_minimal_append_inj [OF len(3,4)]
      rlp_encode_uint_minimal_append_inj [OF len(1,2)]
      rlp_bytes.append_inj [OF len(5,6)] be_val_be64_eq
    by (auto simp: rlp_u64_item)
qed

lemma unsigned_preimage_inj:
  assumes "transfer_typed f" "transfer_typed g"
  shows "unsigned_preimage f = unsigned_preimage g \<longleftrightarrow>
    et_nonce f = et_nonce g \<and> be_val (et_gas_price_be f) = be_val (et_gas_price_be g)
    \<and> et_gas_limit f = et_gas_limit g \<and> et_to f = et_to g
    \<and> be_val (et_value_be f) = be_val (et_value_be g) \<and> et_chain_id f = et_chain_id g"
  unfolding unsigned_preimage_items
  using rlp_encode_list_eq [OF transfer_items_short [OF assms(1)] transfer_items_short [OF assms(2)]]
    transfer_items_inj [OF assms] by blast

section \<open>The identity preimage determines the proof\<close>

lemma length_IDENTITY_PROOF_LABEL [simp]: "length IDENTITY_PROOF_LABEL = 30"
  by (simp add: IDENTITY_PROOF_LABEL_def)

lemma valid_env_length: "is_valid_environment_identifier env \<Longrightarrow> env \<noteq> [] \<and> length env \<le> 64"
  by (auto simp: is_valid_environment_identifier_def split: if_splits)

lemma len_byte_inj:
  assumes "length a \<le> 64" "length b \<le> 64"
  shows "(of_nat (length a) :: u8) = of_nat (length b) \<longleftrightarrow> length a = length b"
proof -
  have "unat (of_nat (length a) :: u8) = length a" "unat (of_nat (length b) :: u8) = length b"
    using assms by (simp_all add: unat_of_nat_u8)
  then show ?thesis by metis
qed

lemma identity_proof_preimage_inj:
  assumes "identity_proof_preimage c e k p a n = Inr x" "identity_proof_preimage c' e' k' p' a' n' = Inr x"
    and "length k = length k'" "length p = length p'" "length a = length a'"
  shows "c = c' \<and> e = e' \<and> k = k' \<and> p = p' \<and> a = a' \<and> n = n'"
proof -
  have e: "length e \<le> 64" "length e' \<le> 64"
    using assms(1,2) valid_env_length by (auto simp: identity_proof_preimage_def Let_def split: if_splits)
  have eq: "be64 c @ [of_nat (length e)] @ e @ k @ p @ a @ n
    = be64 c' @ [of_nat (length e')] @ e' @ k' @ p' @ a' @ n'"
    using assms(1,2) by (auto simp: identity_proof_preimage_def Let_def split: if_splits)
  then have "c = c'" "(of_nat (length e) :: u8) = of_nat (length e')" "e @ k @ p @ a @ n = e' @ k' @ p' @ a' @ n'"
    by (auto simp: be64.append_inj be64.enc_inj)
  then show ?thesis
    using len_byte_inj [OF e] assms(3-5) by simp
qed

section \<open>What a signature attests\<close>

lemma sign_transfer_Inr:
  assumes "sign_transfer C kp f = Inr st"
  shows "length (et_value_be f) \<le> 32 \<and> length (et_gas_price_be f) \<le> 32
    \<and> st_from st = eth_address C kp
    \<and> st_signing_hash st = keccak_256 C (unsigned_preimage f)
    \<and> sign_prehashed C kp (st_signing_hash st) = Inr (st_signature st)
    \<and> st_signed_rlp st = signed_rlp f (st_signature st) (st_v st)
    \<and> unat (st_v st) = 2 * unat (et_chain_id f) + 35 + unat (rs_recovery_id (st_signature st))
    \<and> unat (rs_recovery_id (st_signature st)) \<le> 1
    \<and> (\<exists>pub. recover_pubkey_uncompressed C (st_signing_hash st) (st_signature st) = Inr pub
        \<and> eth_address_from_uncompressed C pub = Inr (st_from st))"
proof -
  have v: "unat v = 2 * unat (et_chain_id f) + 35 + unat (rs_recovery_id sig)"
    if "do { x \<leftarrow> checked_mul_u64 (et_chain_id f) 2; x \<leftarrow> checked_add_u64 x 35;
             checked_add_u64 x (ucast (rs_recovery_id sig)) } = Some v" for v sig
    using that by (auto simp: bind_eq_Some_conv checked_mul_u64_Some checked_add_u64_Some unat_ucast_up)
  have rid: "unat (rs_recovery_id sig) \<le> 1" if "sign_prehashed C kp h = Inr sig" for h sig
    using sign_prehashed_recovery_id [OF that] by (simp add: word_le_nat_alt)
  show ?thesis
    using assms unfolding sign_transfer_def Let_def
    by (auto simp: res_simps not_less v dest: rid split: if_splits)
qed

section \<open>Properties\<close>

text \<open>A transfer signature binds every field of the transfer: two transfers have the same unsigned
  EIP-155 preimage exactly when they agree on nonce, gas price, gas limit, recipient, amount and
  chain (amounts and prices compared as numbers, since RLP strips leading zeros).\<close>

theorem transfer_preimage_binds:
  assumes "transfer_typed f" "transfer_typed g"
  shows "unsigned_preimage f = unsigned_preimage g \<longleftrightarrow>
    et_nonce f = et_nonce g \<and> be_val (et_gas_price_be f) = be_val (et_gas_price_be g)
    \<and> et_gas_limit f = et_gas_limit g \<and> et_to f = et_to g
    \<and> be_val (et_value_be f) = be_val (et_value_be g) \<and> et_chain_id f = et_chain_id g"
  by (rule unsigned_preimage_inj [OF assms])

definition sample_transfer :: eth_transfer_fields where
  "sample_transfer = \<lparr>et_chain_id = 11565, et_nonce = 7, et_gas_limit = 21000,
     et_to = replicate 20 0x11, et_value_be = [1, 0], et_gas_price_be = [5]\<rparr>"

lemma transfer_preimage_binds_witness:
  "unsigned_preimage sample_transfer \<noteq> unsigned_preimage (sample_transfer\<lparr>et_value_be := [1]\<rparr>)
   \<and> unsigned_preimage sample_transfer = unsigned_preimage (sample_transfer\<lparr>et_value_be := [0, 1, 0]\<rparr>)"
  using transfer_preimage_binds [of sample_transfer "sample_transfer\<lparr>et_value_be := [1]\<rparr>"]
    transfer_preimage_binds [of sample_transfer "sample_transfer\<lparr>et_value_be := [0, 1, 0]\<rparr>"]
  by (simp add: transfer_typed_def sample_transfer_def)

text \<open>The two signing domains are disjoint and each identity proof binds all its fields: a transfer
  preimage starts at 0xc0 or above and never equals an identity-proof preimage, which starts with
  0x19; equal identity preimages mean equal chain, environment, key handle, public key, address
  and verifier nonce.\<close>

theorem signing_domains_disjoint:
  assumes "transfer_typed f" "identity_proof_preimage c e k p a n = Inr x"
  shows "unsigned_preimage f \<noteq> x \<and> hd x = 0x19 \<and> 0xc0 \<le> hd (unsigned_preimage f)
    \<and> (identity_proof_preimage c' e' k' p' a' n' = Inr x \<and> length k = length k'
        \<and> length p = length p' \<and> length a = length a'
       \<longrightarrow> c = c' \<and> e = e' \<and> k = k' \<and> p = p' \<and> a = a' \<and> n = n')"
proof -
  obtain b l where "unsigned_preimage f = b # l" "0xc0 \<le> b"
    unfolding unsigned_preimage_items
    by (rule rlp_encode_list_hd [OF transfer_items_short [OF assms(1)]])
  moreover have "hd x = 0x19"
    using assms(2) by (auto simp: identity_proof_preimage_def Let_def EIP191_DOMAIN_def split: if_splits)
  ultimately show ?thesis
    using identity_proof_preimage_inj [OF assms(2)] by auto
qed

lemma signing_domains_disjoint_witness:
  "\<exists>x. identity_proof_preimage 11565 (ascii ''lab'') zero32 (replicate 65 4) (replicate 20 1) zero32 = Inr x
     \<and> unsigned_preimage sample_transfer \<noteq> x"
proof -
  have "\<exists>x. identity_proof_preimage 11565 (ascii ''lab'') zero32 (replicate 65 4) (replicate 20 1) zero32 = Inr x"
    by (simp add: identity_proof_preimage_def Let_def sample_env)
  then obtain x where x:
    "identity_proof_preimage 11565 (ascii ''lab'') zero32 (replicate 65 4) (replicate 20 1) zero32 = Inr x"
    by blast
  have "transfer_typed sample_transfer" by (simp add: transfer_typed_def sample_transfer_def)
  from signing_domains_disjoint [OF this x] x show ?thesis by blast
qed

text \<open>A transfer that \<open>sign_transfer\<close> returns is what a verifier expects: it signs the keccak hash
  of the EIP-155 preimage of exactly these fields, \<open>v\<close> is \<open>2 * chain_id + 35 + recovery_id\<close>
  without wrap-around, and recovering the signer from the returned signature yields the returned
  \<open>from\<close>, which is the signing key's own address.\<close>

theorem sign_transfer_attests:
  assumes "sign_transfer C kp f = Inr st"
  shows "length (et_value_be f) \<le> 32 \<and> length (et_gas_price_be f) \<le> 32
    \<and> st_from st = eth_address C kp
    \<and> st_signing_hash st = keccak_256 C (unsigned_preimage f)
    \<and> sign_prehashed C kp (st_signing_hash st) = Inr (st_signature st)
    \<and> st_signed_rlp st = signed_rlp f (st_signature st) (st_v st)
    \<and> unat (st_v st) = 2 * unat (et_chain_id f) + 35 + unat (rs_recovery_id (st_signature st))
    \<and> unat (rs_recovery_id (st_signature st)) \<le> 1
    \<and> (\<exists>pub. recover_pubkey_uncompressed C (st_signing_hash st) (st_signature st) = Inr pub
        \<and> eth_address_from_uncompressed C pub = Inr (st_from st))"
  by (rule sign_transfer_Inr [OF assms])

lemma sign_transfer_attests_witness:
  "\<exists>st. sign_transfer sample_crypto \<lparr>kp_secret = replicate 32 9\<rparr> sample_transfer = Inr st
     \<and> unat (st_v st) = 23165"
proof -
  have "\<exists>st. sign_transfer sample_crypto \<lparr>kp_secret = replicate 32 9\<rparr> sample_transfer = Inr st"
    by (simp add: sign_transfer_def sample_transfer_def sample_crypto_def Let_def sign_prehashed_def
        checked_mul_u64_def checked_add_u64_def recover_pubkey_uncompressed_def
        eth_address_from_uncompressed_def eth_address_def public_key_uncompressed_def)
  then obtain st where st: "sign_transfer sample_crypto \<lparr>kp_secret = replicate 32 9\<rparr> sample_transfer = Inr st"
    by blast
  note att = sign_transfer_attests [OF st]
  have "rs_recovery_id sig = 0" if "sign_prehashed sample_crypto kp h = Inr sig" for kp h sig
    using that by (auto simp: sign_prehashed_def sample_crypto_def)
  then have "rs_recovery_id (st_signature st) = 0" using att by blast
  with att st show ?thesis by (auto simp: sample_transfer_def)
qed

end
