(* ===== verification/Keygen.thy ===== *)
theory Keygen
  imports Boot Signing
begin

text \<open>
  Model of \<open>agent_keygen.rs\<close>: the generation of a batch of keys on a candidate body. All
  randomness comes from the list of draws. The lemmas show that a successful call appends exactly
  the requested number of fresh, valid entries, keeps the body invariant and the treasury
  singleton, and returns the public data of precisely the entries it appended.
\<close>

datatype generate_keys_error = InvalidCount | TreasuryExists | CapacityExceeded | Csprng

record generated_key =
  gk_key_ref :: bytes
  gk_pubkey_uncompressed :: bytes
  gk_eth_address :: bytes
  gk_tron_address :: bytes
  gk_key_purpose :: key_purpose

definition RNG_RETRIES :: nat where "RNG_RETRIES = 8"

text \<open>The inner loop: a reference that is not in use, or \<open>None\<close> (\<open>Csprng\<close>).\<close>

fun draw_key_ref :: "nat \<Rightarrow> bytes set \<Rightarrow> draws \<Rightarrow> bytes option \<times> draws" where
  "draw_key_ref 0 seen ds = (None, ds)"
| "draw_key_ref (Suc n) seen ds =
     (case getrandom ds of
        (None, ds') \<Rightarrow> (None, ds')
      | (Some key_ref, ds') \<Rightarrow>
          (if key_ref \<notin> seen then (Some key_ref, ds') else draw_key_ref n seen ds'))"

text \<open>The staging loop over the keys still to generate: the staged entries and their public data.\<close>

fun stage_keys :: "crypto \<Rightarrow> key_purpose \<Rightarrow> creation_metadata \<Rightarrow> nat \<Rightarrow> bytes set \<Rightarrow> draws
    \<Rightarrow> (generate_keys_error + key_entry list \<times> generated_key list) \<times> draws" where
  "stage_keys C purpose creation 0 seen ds = (Inr ([], []), ds)"
| "stage_keys C purpose creation (Suc n) seen ds =
     (case draw_key_ref RNG_RETRIES seen ds of
        (None, ds) \<Rightarrow> (Inl generate_keys_error.Csprng, ds)
      | (Some key_ref, ds) \<Rightarrow>
          (case generate_with_secret C ds of
             (Inl _, ds) \<Rightarrow> (Inl generate_keys_error.Csprng, ds)
           | (Inr (keypair, secret), ds) \<Rightarrow>
               (let pubkey = public_key_uncompressed C keypair;
                    eth = eth_address C keypair;
                    entry = \<lparr>ke_key_ref = key_ref, ke_purpose = purpose, ke_algorithm = Secp256k1,
                      ke_public_identity = pubkey, ke_secret_scalar = secret,
                      ke_creation_metadata = creation, ke_last_exported_seq = 0\<rparr>;
                    gen = \<lparr>gk_key_ref = key_ref, gk_pubkey_uncompressed = pubkey, gk_eth_address = eth,
                      gk_tron_address = tron_address_from_body C eth, gk_key_purpose = purpose\<rparr> in
                (case stage_keys C purpose creation n (insert key_ref seen) ds of
                   (Inl e, ds) \<Rightarrow> (Inl e, ds)
                 | (Inr (staged, generated), ds) \<Rightarrow> (Inr (entry # staged, gen # generated), ds)))))"

definition generate_keys :: "crypto \<Rightarrow> key_purpose \<Rightarrow> nat \<Rightarrow> creation_metadata \<Rightarrow> draws \<Rightarrow> keystore_body
    \<Rightarrow> (generate_keys_error + generated_key list \<times> keystore_body) \<times> draws" where
  "generate_keys C purpose count creation ds b =
     (if purpose = AgentFaucetTreasuryK1 \<and> count \<noteq> 1 then (Inl InvalidCount, ds)
      else if purpose = AgentTransferK1 \<and> count = 0 then (Inl InvalidCount, ds)
      else if purpose = AgentFaucetTreasuryK1
         \<and> list_ex (\<lambda>e. ke_purpose e = AgentFaucetTreasuryK1) (kb_entries b)
      then (Inl TreasuryExists, ds)
      else if count > MAX_BATCH_SIZE \<or> length (kb_entries b) + count > MAX_TOTAL_KEY_ENTRIES
      then (Inl generate_keys_error.CapacityExceeded, ds)
      else
        (case stage_keys C purpose creation count (set (map ke_key_ref (kb_entries b))) ds of
           (Inl e, ds) \<Rightarrow> (Inl e, ds)
         | (Inr (staged, generated), ds) \<Rightarrow>
             (Inr (generated, b\<lparr>kb_entries := kb_entries b @ staged\<rparr>), ds)))"

section \<open>What is generated\<close>

text \<open>Documented behaviour of the curve library: an uncompressed point is 65 bytes with tag 4.\<close>

definition k1_public_uncompressed :: "crypto \<Rightarrow> bool" where
  "k1_public_uncompressed C \<longleftrightarrow> (\<forall>s. k1_secret_ok C s \<longrightarrow> length (k1_public C s) = 65 \<and> k1_public C s ! 0 = 0x04)"

text \<open>An entry and the public data returned for it.\<close>

definition key_of :: "crypto \<Rightarrow> key_purpose \<Rightarrow> creation_metadata \<Rightarrow> key_entry \<Rightarrow> generated_key \<Rightarrow> bool" where
  "key_of C purpose creation e g \<longleftrightarrow>
     ke_purpose e = purpose \<and> ke_algorithm e = Secp256k1 \<and> ke_creation_metadata e = creation
     \<and> ke_last_exported_seq e = 0 \<and> k1_secret_ok C (ke_secret_scalar e)
     \<and> ke_public_identity e = k1_public C (ke_secret_scalar e)
     \<and> g = \<lparr>gk_key_ref = ke_key_ref e, gk_pubkey_uncompressed = ke_public_identity e,
            gk_eth_address = address_from_uncompressed_xy C (ke_public_identity e),
            gk_tron_address = tron_address_from_body C (address_from_uncompressed_xy C (ke_public_identity e)),
            gk_key_purpose = purpose\<rparr>"

lemma draw_key_ref_Some:
  "draw_key_ref n seen ds = (Some r, ds') \<Longrightarrow> r \<notin> seen \<and> Some r \<in> set ds \<and> set ds' \<subseteq> set ds"
proof (induction n seen ds rule: draw_key_ref.induct)
  case (2 n seen ds)
  show ?case
  proof (cases ds)
    case (Cons d ds1)
    then show ?thesis
      using 2 by (cases d) (auto simp: getrandom_def split: if_splits)
  qed (use 2 in \<open>simp add: getrandom_def\<close>)
qed simp

lemma generate_with_secret_Inr:
  assumes "generate_with_secret C ds = (Inr (kp, secret), ds')"
  shows "kp_secret kp = secret" "k1_secret_ok C secret" "Some secret \<in> set ds" "set ds' \<subseteq> set ds"
  using generate_loop_valid [OF assms [unfolded generate_with_secret_def]] by auto

lemma stage_keys_Inr:
  assumes "stage_keys C purpose creation n seen ds = (Inr (es, gs), ds')"
  shows "length es = n \<and> list_all2 (key_of C purpose creation) es gs
    \<and> distinct (map ke_key_ref es) \<and> set (map ke_key_ref es) \<inter> seen = {}
    \<and> (\<forall>e \<in> set es. Some (ke_key_ref e) \<in> set ds \<and> Some (ke_secret_scalar e) \<in> set ds)"
  using assms
proof (induction n arbitrary: seen ds es gs)
  case (Suc n)
  obtain r ds1 where r: "draw_key_ref RNG_RETRIES seen ds = (Some r, ds1)"
    using Suc.prems by (cases "draw_key_ref RNG_RETRIES seen ds"; cases "fst (draw_key_ref RNG_RETRIES seen ds)") auto
  obtain kp s ds2 where k: "generate_with_secret C ds1 = (Inr (kp, s), ds2)"
    using Suc.prems r by (auto split: prod.splits sum.splits)
  obtain es' gs' where rec: "stage_keys C purpose creation n (insert r seen) ds2 = (Inr (es', gs'), ds')"
    and es: "es = \<lparr>ke_key_ref = r, ke_purpose = purpose, ke_algorithm = Secp256k1,
        ke_public_identity = public_key_uncompressed C kp, ke_secret_scalar = s,
        ke_creation_metadata = creation, ke_last_exported_seq = 0\<rparr> # es'"
    and gs: "gs = \<lparr>gk_key_ref = r, gk_pubkey_uncompressed = public_key_uncompressed C kp,
        gk_eth_address = eth_address C kp, gk_tron_address = tron_address_from_body C (eth_address C kp),
        gk_key_purpose = purpose\<rparr> # gs'"
    using Suc.prems r k by (auto simp: Let_def split: prod.splits sum.splits)
  note draw = draw_key_ref_Some [OF r] and gen = generate_with_secret_Inr [OF k]
  show ?case
    using Suc.IH [OF rec] draw gen
    by (auto simp: es gs key_of_def public_key_uncompressed_def eth_address_def)
qed simp

lemma generate_keys_guards:
  assumes "generate_keys C purpose count creation ds b = (Inr r, ds')"
  shows "purpose = AgentFaucetTreasuryK1 \<Longrightarrow> count = 1" "purpose = AgentTransferK1 \<Longrightarrow> count \<noteq> 0"
    "purpose = AgentFaucetTreasuryK1 \<Longrightarrow> \<forall>e \<in> set (kb_entries b). ke_purpose e \<noteq> AgentFaucetTreasuryK1"
    "count \<le> 256" "length (kb_entries b) + count \<le> 4096"
proof -
  note split = assms [unfolded generate_keys_def MAX_BATCH_SIZE_def MAX_TOTAL_KEY_ENTRIES_def list_ex_iff]
  show 1: "count = 1" if "purpose = AgentFaucetTreasuryK1" using split that by (rule_tac ccontr) simp
  show 2: "count \<noteq> 0" if "purpose = AgentTransferK1" using split that by (rule_tac notI) simp
  show 3: "\<forall>e \<in> set (kb_entries b). ke_purpose e \<noteq> AgentFaucetTreasuryK1" if "purpose = AgentFaucetTreasuryK1"
    using split that 1 by (rule_tac ccontr) simp
  have "\<not> (count > 256 \<or> length (kb_entries b) + count > 4096)"
    using split by (rule_tac notI) (simp split: if_split_asm)
  then show "count \<le> 256" "length (kb_entries b) + count \<le> 4096" by simp_all
qed

lemma generate_keys_Inr:
  assumes "generate_keys C purpose count creation ds b = (Inr (gs, b'), ds')"
  shows "\<exists>es. b' = b\<lparr>kb_entries := kb_entries b @ es\<rparr> \<and> length es = count
    \<and> list_all2 (key_of C purpose creation) es gs
    \<and> distinct (map ke_key_ref es) \<and> set (map ke_key_ref es) \<inter> set (map ke_key_ref (kb_entries b)) = {}
    \<and> (\<forall>e \<in> set es. Some (ke_key_ref e) \<in> set ds \<and> Some (ke_secret_scalar e) \<in> set ds)"
    and "1 \<le> count" "count \<le> 256" "length (kb_entries b') \<le> 4096"
    and "purpose = AgentFaucetTreasuryK1 \<longrightarrow> count = 1 \<and> (\<forall>e \<in> set (kb_entries b). ke_purpose e \<noteq> AgentFaucetTreasuryK1)"
proof -
  obtain es where st: "stage_keys C purpose creation count (set (map ke_key_ref (kb_entries b))) ds = (Inr (es, gs), ds')"
    and b': "b' = b\<lparr>kb_entries := kb_entries b @ es\<rparr>"
    using assms by (auto simp: generate_keys_def split: if_splits prod.splits sum.splits)
  note staged = stage_keys_Inr [OF st]
  then show "\<exists>es. b' = b\<lparr>kb_entries := kb_entries b @ es\<rparr> \<and> length es = count
    \<and> list_all2 (key_of C purpose creation) es gs
    \<and> distinct (map ke_key_ref es) \<and> set (map ke_key_ref es) \<inter> set (map ke_key_ref (kb_entries b)) = {}
    \<and> (\<forall>e \<in> set es. Some (ke_key_ref e) \<in> set ds \<and> Some (ke_secret_scalar e) \<in> set ds)"
    using b' by blast
  note guards = generate_keys_guards [OF assms]
  show "1 \<le> count" using guards(1,2) by (cases purpose) auto
  show "count \<le> 256" by (rule guards(4))
  show "length (kb_entries b') \<le> 4096" using guards(5) staged by (simp add: b')
  show "purpose = AgentFaucetTreasuryK1 \<longrightarrow> count = 1 \<and> (\<forall>e \<in> set (kb_entries b). ke_purpose e \<noteq> AgentFaucetTreasuryK1)"
    using guards(1,3) by blast
qed

text \<open>Treasury keys are a singleton.\<close>

definition treasury_singleton :: "keystore_body \<Rightarrow> bool" where
  "treasury_singleton b \<longleftrightarrow> length (filter (\<lambda>e. ke_purpose e = AgentFaucetTreasuryK1) (kb_entries b)) \<le> 1"

lemma filter_purpose: "list_all2 (key_of C p creation) es gs \<Longrightarrow>
    filter (\<lambda>e. ke_purpose e = q) es = (if p = q then es else [])"
  by (induction es gs rule: list_all2_induct) (auto simp: key_of_def)

lemma generate_keys_singleton:
  assumes "generate_keys C purpose count creation ds b = (Inr (gs, b'), ds')" "treasury_singleton b"
  shows "treasury_singleton b'"
proof -
  obtain es where es: "b' = b\<lparr>kb_entries := kb_entries b @ es\<rparr>" "length es = count"
      "list_all2 (key_of C purpose creation) es gs"
    using generate_keys_Inr(1) [OF assms(1)] by blast
  have "filter (\<lambda>e. ke_purpose e = AgentFaucetTreasuryK1) (kb_entries b) = []" if "purpose = AgentFaucetTreasuryK1"
    using generate_keys_Inr(5) [OF assms(1)] that by simp
  then show ?thesis
    using assms(2) generate_keys_Inr(5) [OF assms(1)] es(2)
    by (simp add: treasury_singleton_def es(1) filter_purpose [OF es(3)])
qed

lemma generate_keys_ok:
  assumes "generate_keys C purpose count creation ds b = (Inr (gs, b'), ds')" "body_ok b"
    and "k1_public_uncompressed C" "\<forall>d. Some d \<in> set ds \<longrightarrow> length d = 32"
  shows "body_ok b'"
proof -
  obtain es where b': "b' = b\<lparr>kb_entries := kb_entries b @ es\<rparr>"
    and es: "list_all2 (key_of C purpose creation) es gs" "distinct (map ke_key_ref es)"
      "set (map ke_key_ref es) \<inter> set (map ke_key_ref (kb_entries b)) = {}"
      "\<forall>e \<in> set es. Some (ke_secret_scalar e) \<in> set ds"
    using generate_keys_Inr(1) [OF assms(1)] by blast
  have "entry_ok e" if e: "e \<in> set es" for e
  proof -
    obtain g where "key_of C purpose creation e g"
      using es(1) e by (auto simp: list_all2_conv_all_nth in_set_conv_nth)
    then show ?thesis
      using assms(3,4) es(4) e by (simp add: key_of_def entry_ok_def k1_public_uncompressed_def)
  qed
  then show ?thesis
    using assms(2) es(2,3) generate_keys_Inr(4) [OF assms(1)] by (auto simp: body_ok_def b')
qed

section \<open>Samples\<close>

definition sample_draws :: draws where
  "sample_draws = [Some (replicate 32 1), Some (replicate 32 2), Some (replicate 32 1), Some (replicate 32 3),
     Some (replicate 32 4)]"

definition sample_creation :: creation_metadata where
  "sample_creation = \<lparr>cm_config_version = 1, cm_counter_snapshot = 5, cm_batch_id = 5\<rparr>"

lemma sample_generate: "\<exists>gs b' ds. generate_keys sample_crypto AgentTransferK1 2 sample_creation sample_draws sample_body
    = (Inr (gs, b'), ds)"
proof -
  have loop: "draw_key_ref RNG_RETRIES seen ds = (case getrandom ds of (None, ds') \<Rightarrow> (None, ds')
      | (Some r, ds') \<Rightarrow> (if r \<notin> seen then (Some r, ds') else draw_key_ref 7 seen ds'))" for seen ds
    using draw_key_ref.simps(2) [of 7 seen ds] by (simp add: RNG_RETRIES_def)
  have seven: "draw_key_ref 7 seen ds = (case getrandom ds of (None, ds') \<Rightarrow> (None, ds')
      | (Some r, ds') \<Rightarrow> (if r \<notin> seen then (Some r, ds') else draw_key_ref 6 seen ds'))" for seen ds
    using draw_key_ref.simps(2) [of 6 seen ds] by simp
  have gen: "generate_with_secret sample_crypto (Some (replicate 32 k) # ds)
      = (Inr (\<lparr>kp_secret = replicate 32 k\<rparr>, replicate 32 k), ds)" if "k \<noteq> 0" for k :: u8 and ds
    using that generate_loop.simps(2) [of sample_crypto 63 "Some (replicate 32 k) # ds"]
    by (simp add: generate_with_secret_def sample_crypto_def)
  have d1: "draw_key_ref RNG_RETRIES {} (Some r # ds) = (Some r, ds)" for r ds
    by (simp add: loop getrandom_def)
  have d2: "draw_key_ref RNG_RETRIES {replicate 32 1} (Some (replicate 32 1) # Some (replicate 32 3) # ds)
      = (Some (replicate 32 3), ds)" for ds
    by (simp add: loop seven getrandom_def)
  obtain es gs ds' where "stage_keys sample_crypto AgentTransferK1 sample_creation (Suc (Suc 0)) {} sample_draws
      = (Inr (es, gs), ds')"
    by (simp add: sample_draws_def d1 gen d2 Let_def)
  then show ?thesis
    by (simp add: generate_keys_def sample_body_def numeral_2_eq_2 MAX_BATCH_SIZE_def MAX_TOTAL_KEY_ENTRIES_def)
qed

section \<open>Properties\<close>

text \<open>Key generation is all or nothing and keeps the keystore sound. A successful call appends exactly
  \<open>count\<close> entries and changes nothing else: every new reference is a drawn value that no other key has,
  every new key is a drawn valid scalar with its own public key and addresses, and the returned list
  is the public data of precisely those entries, in order. The body invariant and the treasury
  singleton are preserved, within the batch and the total capacity.\<close>

theorem key_generation_sound:
  assumes "generate_keys C purpose count creation ds b = (Inr (gs, b'), ds')"
    and "body_ok b" "treasury_singleton b" "k1_public_uncompressed C" "\<forall>d. Some d \<in> set ds \<longrightarrow> length d = 32"
  shows "body_ok b' \<and> treasury_singleton b' \<and> 1 \<le> count \<and> count \<le> 256
    \<and> (\<exists>es. b' = b\<lparr>kb_entries := kb_entries b @ es\<rparr> \<and> length es = count
         \<and> list_all2 (key_of C purpose creation) es gs
         \<and> (\<forall>e \<in> set es. Some (ke_key_ref e) \<in> set ds \<and> Some (ke_secret_scalar e) \<in> set ds))"
  using generate_keys_ok [OF assms(1,2,4,5)] generate_keys_singleton [OF assms(1,3)] generate_keys_Inr [OF assms(1)]
  by blast

lemma key_generation_sound_witness:
  "\<exists>gs b' ds. generate_keys sample_crypto AgentTransferK1 2 sample_creation sample_draws sample_body = (Inr (gs, b'), ds)
     \<and> body_ok b' \<and> treasury_singleton b'"
proof -
  obtain gs b' ds where g: "generate_keys sample_crypto AgentTransferK1 2 sample_creation sample_draws sample_body
      = (Inr (gs, b'), ds)"
    using sample_generate by blast
  have t: "treasury_singleton sample_body" by (simp add: treasury_singleton_def sample_body_def)
  have k: "k1_public_uncompressed sample_crypto" by (simp add: k1_public_uncompressed_def sample_crypto_def)
  have d: "\<forall>d. Some d \<in> set sample_draws \<longrightarrow> length d = 32" by (auto simp: sample_draws_def)
  show ?thesis using key_generation_sound [OF g sample_body_ok t k d] g by blast
qed

end
