(* ===== verification/Dispatch.thy ===== *)
theory Dispatch
  imports Capability Keygen
begin

text \<open>
  Model of the command layer of \<open>agent_dispatch.rs\<close>: the envelope, the opcode classes, the handlers
  and their routing. A mutating handler works on a candidate copy of the body and returns it; the
  frame layer seals, commits and installs it. The cargo features that switch handlers on are the
  record \<open>features\<close>; the build without \<open>agent-backup-export-preview\<close> is modelled, in which the backup
  opcodes are refused with \<open>NotConfigured\<close>.
\<close>

section \<open>Opcodes\<close>

definition COMMAND_DOMAIN :: bytes where "COMMAND_DOMAIN = ascii ''2d-hsm/agent-gateway/v1''"

datatype agent_opcode =
    GenerateKeys | PublicIdentity | ProveIdentity | SignTransfer | SignFaucetDispense
  | ConfigureTreasury | ExportBackup | RestoreBackup | GetRestorePubkey

definition opcode_from_u8 :: "u8 \<Rightarrow> agent_opcode option" where
  "opcode_from_u8 b =
     (if b = 1 then Some GenerateKeys else if b = 2 then Some PublicIdentity
      else if b = 3 then Some ProveIdentity else if b = 4 then Some SignTransfer
      else if b = 5 then Some SignFaucetDispense else if b = 6 then Some ConfigureTreasury
      else if b = 7 then Some ExportBackup else if b = 8 then Some RestoreBackup
      else if b = 9 then Some GetRestorePubkey else None)"

definition is_privileged :: "agent_opcode \<Rightarrow> bool" where
  "is_privileged op \<longleftrightarrow> op \<in> {GenerateKeys, ConfigureTreasury, ExportBackup, RestoreBackup}"

fun is_rollback_sensitive :: "agent_opcode \<Rightarrow> bool" where
  "is_rollback_sensitive GenerateKeys = True"
| "is_rollback_sensitive SignFaucetDispense = True"
| "is_rollback_sensitive ConfigureTreasury = True"
| "is_rollback_sensitive ExportBackup = True"
| "is_rollback_sensitive RestoreBackup = True"
| "is_rollback_sensitive SignTransfer = False"
| "is_rollback_sensitive PublicIdentity = False"
| "is_rollback_sensitive ProveIdentity = False"
| "is_rollback_sensitive GetRestorePubkey = False"

datatype commit_bump = Structural | EpochOnly | NotCommitted

fun commit_bump_class :: "agent_opcode \<Rightarrow> commit_bump" where
  "commit_bump_class GenerateKeys = Structural"
| "commit_bump_class ConfigureTreasury = Structural"
| "commit_bump_class ExportBackup = Structural"
| "commit_bump_class RestoreBackup = Structural"
| "commit_bump_class SignFaucetDispense = EpochOnly"
| "commit_bump_class SignTransfer = NotCommitted"
| "commit_bump_class PublicIdentity = NotCommitted"
| "commit_bump_class ProveIdentity = NotCommitted"
| "commit_bump_class GetRestorePubkey = NotCommitted"

definition configure_treasury_sub_op_bump_class :: "u8 \<Rightarrow> commit_bump" where
  "configure_treasury_sub_op_bump_class sub_op = (if sub_op \<le> 3 then Structural else Structural)"

datatype agent_profile = Producer | AgentGatewayProfile

record features =
  ft_keygen_exec :: bool
  ft_configure_treasury :: bool
  ft_prove_identity :: bool
  ft_sign_transfer :: bool
  ft_sign_faucet :: bool

datatype agent_response =
    PublicIdentityResp public_identity
  | ProveIdentityResp identity_proof
  | SignTransferResp signed_transfer
  | GenerateKeysResp "generated_key list" keystore_body bytes
  | SignFaucetDispenseResp signed_transfer keystore_body bytes
  | ConfigureTreasuryResp keystore_body bytes
  | ExportBackupResp keystore_body bytes bytes
  | RestoreBackupResp keystore_body bytes
  | GetRestorePubkeyResp bytes bytes bytes bytes

section \<open>The envelope\<close>

record agent_envelope =
  ae_agent_version :: u8
  ae_opcode :: u8
  ae_command_domain :: bytes
  ae_request_id :: bytes
  ae_capability :: "(cbor_value \<times> cbor_value) list option"
  ae_key_ref :: "bytes option"
  ae_payload :: "(cbor_value \<times> cbor_value) list option"

definition as_map :: "cbor_value \<Rightarrow> (cbor_value \<times> cbor_value) list option" where
  "as_map v = (case v of CMap m \<Rightarrow> Some m | _ \<Rightarrow> None)"

text \<open>A required field: \<open>map_get(m, k).and_then(f).ok_or(Malformed)\<close>.\<close>

definition req :: "(cbor_value \<times> cbor_value) list \<Rightarrow> u64 \<Rightarrow> (cbor_value \<Rightarrow> 'a option) \<Rightarrow> agent_error + 'a" where
  "req m k f = ok_or agent_error.Malformed (Option.bind (map_get m k) f)"

definition decode_envelope :: "bytes \<Rightarrow> agent_error + agent_envelope" where
  "decode_envelope payload =
     res_bind (ok_or agent_error.Malformed (strict_decode_map payload)) (\<lambda>m.
     if \<not> check_strict_keys m (\<lambda>n. 1 \<le> n \<and> n \<le> 7) then Inl agent_error.Malformed
     else
     res_bind (req m 1 as_u8) (\<lambda>agent_version.
     res_bind (req m 2 as_u8) (\<lambda>opcode.
     res_bind (req m 3 as_text) (\<lambda>command_domain.
     res_bind (ok_or agent_error.Malformed
         (guarded (\<lambda>b. length b \<le> MAX_REQUEST_ID_LEN) (Option.bind (map_get m 4) as_bytes))) (\<lambda>request_id.
     res_bind (opt_field agent_error.Malformed as_map (map_get m 5)) (\<lambda>capability.
     res_bind (opt_field agent_error.Malformed as_bytes32 (map_get m 6)) (\<lambda>key_ref.
     res_bind (opt_field agent_error.Malformed as_map (map_get m 7)) (\<lambda>inner.
     Inr \<lparr>ae_agent_version = agent_version, ae_opcode = opcode, ae_command_domain = command_domain,
          ae_request_id = request_id, ae_capability = capability, ae_key_ref = key_ref,
          ae_payload = inner\<rparr>))))))))"

definition verify_capability :: "crypto \<Rightarrow> agent_envelope \<Rightarrow> keystore_body \<Rightarrow> agent_error + verified_capability" where
  "verify_capability C env b =
     res_bind (ok_or CapabilityRejected (ae_capability env)) (\<lambda>cap.
     verify_capability_extract C cap (ae_opcode env) (ae_request_id env) (kb_config b) (kb_counters b))"

text \<open>The anti-rollback gate; the sealed opt-out is not implemented in the code and always false.\<close>

definition sealed_optout_acknowledged :: "keystore_body \<Rightarrow> bool" where
  "sealed_optout_acknowledged b = False"

definition anti_rollback_satisfied :: "process \<Rightarrow> keystore_body \<Rightarrow> bool" where
  "anti_rollback_satisfied w b = (is_anti_rollback_configured w \<or> sealed_optout_acknowledged b)"

section \<open>Identity handlers\<close>

definition handle_public_identity :: "crypto \<Rightarrow> agent_envelope \<Rightarrow> keystore_body \<Rightarrow> agent_error + agent_response" where
  "handle_public_identity C env b =
     res_bind (ok_or agent_error.Malformed (ae_key_ref env)) (\<lambda>key_ref.
     res_bind (ok_or KeyPurposeMismatch (find_entry b key_ref)) (\<lambda>entry.
     res_bind (map_err (\<lambda>_. KeyPurposeMismatch) (public_identity_from_entry C entry)) (\<lambda>identity.
     Inr (PublicIdentityResp identity))))"

definition load_keypair_for :: "crypto \<Rightarrow> key_entry \<Rightarrow> agent_error + keypair" where
  "load_keypair_for C entry =
     (if length (ke_secret_scalar entry) \<noteq> 32 then Inl KeyPurposeMismatch
      else map_err (\<lambda>_. KeyPurposeMismatch) (from_secret_bytes C (ke_secret_scalar entry)))"

definition handle_prove_identity :: "crypto \<Rightarrow> agent_envelope \<Rightarrow> keystore_body \<Rightarrow> agent_error + agent_response" where
  "handle_prove_identity C env b =
     res_bind (ok_or agent_error.Malformed (ae_key_ref env)) (\<lambda>key_ref.
     res_bind (ok_or agent_error.Malformed (ae_payload env)) (\<lambda>payload.
     if length payload \<noteq> 1 then Inl agent_error.Malformed
     else
     res_bind (req payload 1 as_bytes32) (\<lambda>verifier_nonce.
     res_bind (ok_or KeyPurposeMismatch (find_entry b key_ref)) (\<lambda>entry.
     res_bind (load_keypair_for C entry) (\<lambda>keypair.
     res_bind (map_err (\<lambda>_. KeyPurposeMismatch)
         (sign_identity_proof C keypair (kc_twod_chain_id (kb_config b))
            (kc_environment_identifier (kb_config b)) key_ref verifier_nonce)) (\<lambda>proof.
     Inr (ProveIdentityResp proof)))))))"

section \<open>Transfers and dispenses\<close>

text \<open>The strict eight-field payload both signing handlers decode with the same code.\<close>

record transfer_payload =
  tp_chain_id :: u64
  tp_from :: bytes
  tp_to :: bytes
  tp_value_be :: bytes
  tp_nonce :: u64
  tp_gas_limit :: u64
  tp_gas_price_be :: bytes

definition parse_transfer_payload :: "(cbor_value \<times> cbor_value) list \<Rightarrow> u64 \<Rightarrow> agent_error + transfer_payload" where
  "parse_transfer_payload payload sealed_chain_id =
     (if length payload \<noteq> 8 \<or> \<not> check_strict_keys payload (\<lambda>n. 1 \<le> n \<and> n \<le> 8) then Inl agent_error.Malformed
      else
     res_bind (req payload 1 as_u64) (\<lambda>req_chain_id.
     res_bind (req payload 2 (as_bytes_n 20)) (\<lambda>req_from.
     res_bind (req payload 3 (as_bytes_n 20)) (\<lambda>to.
     res_bind (req payload 4 as_u256_minimal_be) (\<lambda>value_be.
     res_bind (req payload 5 as_u64) (\<lambda>nonce.
     res_bind (req payload 6 as_u64) (\<lambda>gas_limit.
     res_bind (req payload 7 as_u256_minimal_be) (\<lambda>gas_price_be.
     res_bind (req payload 8 as_bytes) (\<lambda>data.
     if data \<noteq> [] then Inl agent_error.Malformed
     else if req_chain_id \<noteq> sealed_chain_id then Inl agent_error.Malformed
     else Inr \<lparr>tp_chain_id = req_chain_id, tp_from = req_from, tp_to = to, tp_value_be = value_be,
               tp_nonce = nonce, tp_gas_limit = gas_limit, tp_gas_price_be = gas_price_be\<rparr>)))))))))"

definition transfer_fields :: "transfer_payload \<Rightarrow> eth_transfer_fields" where
  "transfer_fields p = \<lparr>et_chain_id = tp_chain_id p, et_nonce = tp_nonce p, et_gas_limit = tp_gas_limit p,
     et_to = tp_to p, et_value_be = tp_value_be p, et_gas_price_be = tp_gas_price_be p\<rparr>"

text \<open>The key of the required purpose whose address is the claimed sender.\<close>

definition signing_key :: "crypto \<Rightarrow> key_purpose \<Rightarrow> bytes \<Rightarrow> bytes \<Rightarrow> keystore_body \<Rightarrow> agent_error + keypair" where
  "signing_key C purpose key_ref req_from b =
     res_bind (ok_or KeyPurposeMismatch (find_entry b key_ref)) (\<lambda>entry.
     if ke_purpose entry \<noteq> purpose then Inl KeyPurposeMismatch
     else
     res_bind (load_keypair_for C entry) (\<lambda>keypair.
     if req_from \<noteq> eth_address C keypair then Inl KeyPurposeMismatch else Inr keypair))"

definition handle_sign_transfer :: "crypto \<Rightarrow> agent_envelope \<Rightarrow> keystore_body \<Rightarrow> agent_error + agent_response" where
  "handle_sign_transfer C env b =
     res_bind (ok_or agent_error.Malformed (ae_key_ref env)) (\<lambda>key_ref.
     res_bind (ok_or agent_error.Malformed (ae_payload env)) (\<lambda>payload.
     res_bind (parse_transfer_payload payload (kc_twod_chain_id (kb_config b))) (\<lambda>p.
     res_bind (signing_key C AgentTransferK1 key_ref (tp_from p) b) (\<lambda>keypair.
     res_bind (map_err (\<lambda>_. KeyPurposeMismatch) (sign_transfer C keypair (transfer_fields p))) (\<lambda>signed.
     Inr (SignTransferResp signed))))))"

definition is_known_transfer_recipient :: "crypto \<Rightarrow> keystore_body \<Rightarrow> bytes \<Rightarrow> bool" where
  "is_known_transfer_recipient C b to =
     list_ex (\<lambda>e. ke_purpose e = AgentTransferK1
        \<and> length (ke_public_identity e) = 65
        \<and> eth_address_from_uncompressed C (ke_public_identity e) = Inr to) (kb_entries b)"

definition handle_sign_faucet_dispense :: "crypto \<Rightarrow> agent_envelope \<Rightarrow> keystore_body
    \<Rightarrow> agent_error + agent_response" where
  "handle_sign_faucet_dispense C env b =
     res_bind (ok_or agent_error.Malformed (ae_key_ref env)) (\<lambda>key_ref.
     res_bind (ok_or agent_error.Malformed (ae_payload env)) (\<lambda>payload.
     res_bind (parse_transfer_payload payload (kc_twod_chain_id (kb_config b))) (\<lambda>p.
     res_bind (ok_or agent_error.Malformed (u256_from_minimal_be (tp_value_be p))) (\<lambda>amount.
     res_bind (ok_or agent_error.Malformed (u256_from_minimal_be (tp_gas_price_be p))) (\<lambda>gas_price.
     res_bind (signing_key C AgentFaucetTreasuryK1 key_ref (tp_from p) b) (\<lambda>keypair.
     if \<not> is_known_transfer_recipient C b (tp_to p) then Inl KeyPurposeMismatch
     else
     res_bind (map_err (\<lambda>_. CapExceeded)
         (accept_and_debit (kb_faucet b) amount (tp_gas_limit p) gas_price)) (\<lambda>new_faucet.
     res_bind (map_err (\<lambda>_. KeyPurposeMismatch) (sign_transfer C keypair (transfer_fields p))) (\<lambda>signed.
     let candidate = b\<lparr>kb_faucet := new_faucet\<rparr>;
         bumps_structural = (commit_bump_class SignFaucetDispense = Structural) in
     res_bind (map_err (\<lambda>_. SealFailed) (advance_commit_epoch bumps_structural candidate)) (\<lambda>candidate.
     Inr (SignFaucetDispenseResp signed candidate (ae_request_id env)))))))))))"

section \<open>Key generation\<close>

definition generate_keys_canonical_params :: "u64 \<Rightarrow> u64 \<Rightarrow> bytes" where
  "generate_keys_canonical_params purpose_code count =
     put_uint 5 2 @ put_uint 0 1 @ put_uint 0 purpose_code @ put_uint 0 2 @ put_uint 0 count"

fun map_keygen_error :: "generate_keys_error \<Rightarrow> agent_error" where
  "map_keygen_error InvalidCount = agent_error.Malformed"
| "map_keygen_error TreasuryExists = CapabilityRejected"
| "map_keygen_error generate_keys_error.CapacityExceeded = CapExceeded"
| "map_keygen_error generate_keys_error.Csprng = SealFailed"

fun map_counter_error :: "keystore_error \<Rightarrow> agent_error" where
  "map_counter_error keystore_error.CapacityExceeded = CapExceeded"
| "map_counter_error _ = SealFailed"

definition purpose_of_code :: "u64 \<Rightarrow> key_purpose option" where
  "purpose_of_code c = (if c = 1 then Some AgentTransferK1
     else if c = 2 then Some AgentFaucetTreasuryK1 else None)"

text \<open>The tail both privileged handlers share: the counter, the epochs and the audit record.\<close>

definition audit_provenance :: "agent_envelope \<Rightarrow> verified_capability \<Rightarrow> keystore_body \<Rightarrow> audit_append" where
  "audit_provenance env v candidate = \<lparr>aa_op = ae_opcode env, aa_authority = vc_authority v,
     aa_counter = vc_counter v,
     aa_config_version = kc_monotonic_treasury_config_version (kb_config candidate),
     aa_scope_class = vc_scope_class v, aa_scope_target = vc_scope_target v,
     aa_request_id = ae_request_id env\<rparr>"

definition handle_generate_keys :: "crypto \<Rightarrow> agent_envelope \<Rightarrow> keystore_body \<Rightarrow> verified_capability \<Rightarrow> draws
    \<Rightarrow> (agent_error + agent_response) \<times> draws" where
  "handle_generate_keys C env b v ds =
     (case (res_bind (ok_or agent_error.Malformed (ae_payload env)) (\<lambda>payload.
        if length payload \<noteq> 2 then Inl agent_error.Malformed
        else
        res_bind (req payload 1 as_u64) (\<lambda>purpose_code.
        res_bind (req payload 2 as_u64) (\<lambda>count.
        res_bind (ok_or agent_error.Malformed (purpose_of_code purpose_code)) (\<lambda>purpose.
        if ucast (vc_key_purpose v) \<noteq> purpose_code then Inl KeyPurposeMismatch
        else if payload_binding C (ae_opcode env) None (ae_request_id env)
            (generate_keys_canonical_params purpose_code count) \<noteq> vc_payload_binding v
        then Inl CapabilityRejected
        else if purpose = AgentFaucetTreasuryK1 \<and> vc_scope_class v \<noteq> 0 then Inl CapabilityRejected
        else Inr (purpose, unat count)))))) of
        Inl e \<Rightarrow> (Inl e, ds)
      | Inr (purpose, count) \<Rightarrow>
          (let creation = \<lparr>cm_config_version = kc_monotonic_treasury_config_version (kb_config b),
                 cm_counter_snapshot = vc_counter v, cm_batch_id = vc_counter v\<rparr> in
           (case generate_keys C purpose count creation ds b of
              (Inl e, ds) \<Rightarrow> (Inl (map_keygen_error e), ds)
            | (Inr (keys, candidate), ds) \<Rightarrow>
                (res_bind (map_err map_counter_error
                    (advance_counter (vc_authority v) (vc_scope_class v) (vc_scope_target v) (vc_counter v)
                       candidate)) (\<lambda>candidate.
                 let bumps_structural = (commit_bump_class GenerateKeys = Structural) in
                 res_bind (map_err (\<lambda>_. SealFailed) (advance_commit_epoch bumps_structural candidate)) (\<lambda>candidate.
                 res_bind (map_err (\<lambda>_. SealFailed)
                     (record_audit (audit_provenance env v candidate) candidate)) (\<lambda>candidate.
                 Inr (GenerateKeysResp keys candidate (ae_request_id env))))), ds))))"

section \<open>Treasury configuration\<close>

definition configure_treasury_canonical_params :: "u8 \<Rightarrow> bytes \<Rightarrow> (u64 \<times> u64) option \<Rightarrow> bytes" where
  "configure_treasury_canonical_params sub_op field2 gas_fields =
     (let n_keys = (if gas_fields \<noteq> None then 4 else 2) in
      put_uint 5 n_keys
      @ put_uint 0 1 @ put_uint 0 (ucast sub_op)
      @ put_uint 0 2 @ put_bytes field2
      @ (case gas_fields of None \<Rightarrow> []
         | Some (max_gas_limit, max_fee_rate) \<Rightarrow>
             put_uint 0 3 @ put_uint 0 max_gas_limit @ put_uint 0 4 @ put_uint 0 max_fee_rate))"

datatype treasury_params =
    SetLimits u256 u64 u64
  | RefillBudget u256
  | RaiseBreaker u256
  | ResetBreaker u256

definition read_u256 :: "(cbor_value \<times> cbor_value) list \<Rightarrow> u64 \<Rightarrow> agent_error + bytes \<times> u256" where
  "read_u256 payload key =
     res_bind (req payload key as_u256_minimal_be) (\<lambda>minimal.
     res_bind (ok_or agent_error.Malformed (u256_from_minimal_be minimal)) (\<lambda>lifted.
     Inr (minimal, lifted)))"

definition parse_treasury_params :: "(cbor_value \<times> cbor_value) list \<Rightarrow> u8 \<Rightarrow> agent_error + treasury_params \<times> bytes" where
  "parse_treasury_params payload sub_op =
     (if sub_op = 0 then
        (if length payload \<noteq> 4 then Inl agent_error.Malformed
         else
         res_bind (read_u256 payload 2) (\<lambda>(f2, per_dispense_max).
         res_bind (req payload 3 as_u64) (\<lambda>max_gas_limit.
         res_bind (req payload 4 as_u64) (\<lambda>max_fee_rate.
         Inr (SetLimits per_dispense_max max_gas_limit max_fee_rate,
              configure_treasury_canonical_params sub_op f2 (Some (max_gas_limit, max_fee_rate)))))))
      else if sub_op = 1 \<or> sub_op = 2 \<or> sub_op = 3 then
        (if length payload \<noteq> 2 then Inl agent_error.Malformed
         else
         res_bind (read_u256 payload 2) (\<lambda>(f2, x).
         Inr (if sub_op = 1 then RefillBudget x else if sub_op = 2 then RaiseBreaker x else ResetBreaker x,
              configure_treasury_canonical_params sub_op f2 None)))
      else Inl agent_error.Malformed)"

definition apply_treasury_params :: "treasury_params \<Rightarrow> keystore_body \<Rightarrow> agent_error + keystore_body" where
  "apply_treasury_params params b =
     (let fs = kb_faucet b in
      case params of
        SetLimits per_dispense_max max_gas_limit max_fee_rate \<Rightarrow>
          Inr (b\<lparr>kb_faucet := fs\<lparr>fs_per_dispense_max_amount := per_dispense_max,
               fs_max_gas_limit := max_gas_limit, fs_max_effective_gas_fee_rate := max_fee_rate\<rparr>\<rparr>)
      | RefillBudget new_budget \<Rightarrow>
          if new_budget = zero32 then Inl CapExceeded
          else Inr (b\<lparr>kb_faucet := fs\<lparr>fs_cumulative_signing_budget := new_budget,
                    fs_cumulative_native_spend := zero32\<rparr>\<rparr>)
      | RaiseBreaker new_threshold \<Rightarrow>
          if new_threshold < fs_lifetime_spend fs then Inl CapExceeded
          else Inr (b\<lparr>kb_faucet := fs\<lparr>fs_circuit_breaker_threshold := Some new_threshold\<rparr>\<rparr>)
      | ResetBreaker target \<Rightarrow>
          if target > fs_lifetime_spend fs then Inl CapExceeded
          else
            res_bind (ok_or SealFailed (checked_add_u64 (kb_strict_recovery_counter b) 1)) (\<lambda>n.
            Inr (b\<lparr>kb_faucet := fs\<lparr>fs_lifetime_spend := target, fs_circuit_breaker_threshold := None\<rparr>,
                 kb_strict_recovery_counter := n\<rparr>)))"

definition handle_configure_treasury :: "crypto \<Rightarrow> agent_envelope \<Rightarrow> keystore_body \<Rightarrow> verified_capability
    \<Rightarrow> agent_error + agent_response" where
  "handle_configure_treasury C env b v =
     res_bind (ok_or agent_error.Malformed (ae_payload env)) (\<lambda>payload.
     res_bind (req payload 1 as_u8) (\<lambda>sub_op.
     res_bind (parse_treasury_params payload sub_op) (\<lambda>(params, canonical_params).
     if vc_treasury_sub_op v \<noteq> Some sub_op then Inl CapabilityRejected
     else if payload_binding C (ae_opcode env) (Some sub_op) (ae_request_id env) canonical_params
         \<noteq> vc_payload_binding v
     then Inl CapabilityRejected
     else if vc_scope_class v \<noteq> 0 then Inl CapabilityRejected
     else
     res_bind (apply_treasury_params params b) (\<lambda>candidate.
     res_bind (map_err map_counter_error
         (advance_counter (vc_authority v) (vc_scope_class v) (vc_scope_target v) (vc_counter v)
            candidate)) (\<lambda>candidate.
     res_bind (map_err (\<lambda>_. SealFailed) (advance_treasury_config_version candidate)) (\<lambda>candidate.
     let bumps_structural = (configure_treasury_sub_op_bump_class sub_op = Structural) in
     res_bind (map_err (\<lambda>_. SealFailed) (advance_commit_epoch bumps_structural candidate)) (\<lambda>candidate.
     res_bind (map_err (\<lambda>_. SealFailed)
         (record_audit (audit_provenance env v candidate) candidate)) (\<lambda>candidate.
     Inr (ConfigureTreasuryResp candidate (ae_request_id env))))))))))"

section \<open>Routing\<close>

definition dispatch_agent :: "crypto \<Rightarrow> features \<Rightarrow> process \<Rightarrow> agent_profile \<Rightarrow> bytes \<Rightarrow> keystore_body \<Rightarrow> draws
    \<Rightarrow> (agent_error + agent_response) \<times> draws" where
  "dispatch_agent C ft w profile payload b ds =
     (if profile \<noteq> AgentGatewayProfile then (Inl WrongProfile, ds)
      else
        (case decode_envelope payload of
           Inl e \<Rightarrow> (Inl e, ds)
         | Inr env \<Rightarrow>
             if ae_agent_version env \<noteq> AGENT_GATEWAY_VERSION \<or> ae_command_domain env \<noteq> COMMAND_DOMAIN
             then (Inl agent_error.Malformed, ds)
             else
               (case opcode_from_u8 (ae_opcode env) of
                  None \<Rightarrow> (Inl agent_error.Malformed, ds)
                | Some opcode \<Rightarrow>
                    if is_rollback_sensitive opcode \<and> \<not> anti_rollback_satisfied w b then (Inl NotConfigured, ds)
                    else if is_privileged opcode then
                      (if ae_capability env = None then (Inl CapabilityRejected, ds)
                       else
                         (case verify_capability C env b of
                            Inl e \<Rightarrow> (Inl e, ds)
                          | Inr v \<Rightarrow>
                              if opcode = GenerateKeys \<and> ft_keygen_exec ft then handle_generate_keys C env b v ds
                              else if opcode = ConfigureTreasury \<and> ft_configure_treasury ft
                              then (handle_configure_treasury C env b v, ds)
                              else (Inl NotConfigured, ds)))
                    else if ae_capability env \<noteq> None then (Inl agent_error.Malformed, ds)
                    else
                      ((case opcode of
                          PublicIdentity \<Rightarrow> handle_public_identity C env b
                        | ProveIdentity \<Rightarrow>
                            if ft_prove_identity ft then handle_prove_identity C env b else Inl NotConfigured
                        | SignTransfer \<Rightarrow>
                            if ft_sign_transfer ft then handle_sign_transfer C env b else Inl NotConfigured
                        | SignFaucetDispense \<Rightarrow>
                            if ft_sign_faucet ft then handle_sign_faucet_dispense C env b else Inl NotConfigured
                        | GetRestorePubkey \<Rightarrow> Inl NotConfigured
                        | _ \<Rightarrow> Inl agent_error.Malformed), ds))))"

section \<open>What a handler leaves in its candidate\<close>

fun candidate_of :: "agent_response \<Rightarrow> (keystore_body \<times> bytes) option" where
  "candidate_of (GenerateKeysResp keys candidate request_id) = Some (candidate, request_id)"
| "candidate_of (SignFaucetDispenseResp st candidate request_id) = Some (candidate, request_id)"
| "candidate_of (ConfigureTreasuryResp candidate request_id) = Some (candidate, request_id)"
| "candidate_of (ExportBackupResp candidate backup request_id) = Some (candidate, request_id)"
| "candidate_of (RestoreBackupResp candidate request_id) = Some (candidate, request_id)"
| "candidate_of _ = None"

lemma req_Inr [res_simps]: "req m k f = Inr x \<longleftrightarrow> (\<exists>v. map_get m k = Some v \<and> f v = Some x)"
  by (auto simp: req_def res_simps bind_eq_Some_conv)

lemma decode_envelope_request_id: "decode_envelope payload = Inr env \<Longrightarrow> length (ae_request_id env) \<le> 64"
  by (auto simp: decode_envelope_def res_simps MAX_REQUEST_ID_LEN_def split: if_splits)

lemma verify_capability_Inr: "verify_capability C env b = Inr v \<longleftrightarrow>
    (\<exists>m. ae_capability env = Some m
       \<and> verify_capability_extract C m (ae_opcode env) (ae_request_id env) (kb_config b) (kb_counters b) = Inr v)"
  by (auto simp: verify_capability_def res_simps)

lemma verified_scope_target:
  fixes b :: keystore_body
  assumes "verify_capability_extract C m opcode request_id (kb_config b) (kb_counters b) = Inr v"
  shows "length (vc_scope_target v) \<le> 64"
proof -
  obtain cap where cap: "parse_capability m = Inr cap" "vc_scope_target v = cp_scope_target cap"
    using assms unfolding verify_capability_extract_Inr by auto
  show ?thesis
    using parse_capability_ok [OF cap(1)] cap(2)
    by (auto simp: capability_ok_def is_valid_scope_target_def MAX_SCOPE_TARGET_LEN_def split: if_splits)
qed

text \<open>Verification and the counters read only the part of the configuration no operation changes.\<close>

definition same_config :: "keystore_config \<Rightarrow> keystore_config \<Rightarrow> bool" where
  "same_config c c' \<longleftrightarrow> c'\<lparr>kc_monotonic_treasury_config_version := 0\<rparr> = c\<lparr>kc_monotonic_treasury_config_version := 0\<rparr>"

lemma same_config_refl [simp]: "same_config c c"
  by (simp add: same_config_def)

lemma same_config_version [simp]: "same_config c (d\<lparr>kc_monotonic_treasury_config_version := v\<rparr>) = same_config c d"
  by (simp add: same_config_def)

lemma same_configD:
  assumes "same_config c c'"
  shows "c' = c\<lparr>kc_monotonic_treasury_config_version := kc_monotonic_treasury_config_version c'\<rparr>"
  using assms by (cases c; cases c') (simp add: same_config_def)

lemma verify_ignores_version [simp]:
  "verify_capability_extract C m opcode request_id (c\<lparr>kc_monotonic_treasury_config_version := v\<rparr>) counters
     = verify_capability_extract C m opcode request_id c counters"
  by (simp add: verify_capability_extract_def Let_def cong: if_cong)

lemma highest_counter_cong:
  "kb_counters b' = kb_counters b \<Longrightarrow> kc_environment_identifier (kb_config b') = kc_environment_identifier (kb_config b)
     \<Longrightarrow> highest_counter b' = highest_counter b"
  by (simp add: fun_eq_iff highest_counter_def)

text \<open>The effect every privileged request has besides its own: the capability's counter becomes the
  high-water of its tuple, both versions advance by one and the provenance is on the audit ring.\<close>

definition spends_capability :: "agent_envelope \<Rightarrow> verified_capability \<Rightarrow> keystore_body \<Rightarrow> keystore_body \<Rightarrow> bool" where
  "spends_capability env v b b' \<longleftrightarrow> body_ok b'
     \<and> highest_counter b' = (highest_counter b)((vc_authority v, vc_scope_class v, vc_scope_target v) := unat (vc_counter v))
     \<and> unat (kb_freshness_epoch b') = Suc (unat (kb_freshness_epoch b))
     \<and> unat (kb_structural_version b') = Suc (unat (kb_structural_version b))
     \<and> same_config (kb_config b) (kb_config b')
     \<and> (\<exists>r \<in> set (au_records (kb_audit b')). ar_seq r = au_next_seq (kb_audit b) \<and> ar_op r = ae_opcode env
          \<and> ar_authority r = vc_authority v \<and> ar_counter r = vc_counter v
          \<and> ar_config_version r = kc_monotonic_treasury_config_version (kb_config b')
          \<and> ar_scope_class r = vc_scope_class v \<and> ar_scope_target r = vc_scope_target v
          \<and> ar_request_id r = ae_request_id env)"

lemma advance_counter_frame: "advance_counter a s t n b = Inr b' \<Longrightarrow> b' = b\<lparr>kb_counters := kb_counters b'\<rparr>"
  by (auto simp: advance_counter_def Let_def split: option.splits if_splits)

lemma record_audit_frame: "record_audit app b = Inr b' \<Longrightarrow> b' = b\<lparr>kb_audit := kb_audit b'\<rparr>
    \<and> (\<exists>r \<in> set (au_records (kb_audit b')). ar_seq r = au_next_seq (kb_audit b) \<and> ar_op r = aa_op app
         \<and> ar_authority r = aa_authority app \<and> ar_counter r = aa_counter app
         \<and> ar_config_version r = aa_config_version app \<and> ar_scope_class r = aa_scope_class app
         \<and> ar_scope_target r = aa_scope_target app \<and> ar_request_id r = aa_request_id app)"
  by (auto simp: record_audit_def Let_def res_simps split: if_splits)

lemma advance_treasury_config_version_Inr: "advance_treasury_config_version b = Inr b' \<longleftrightarrow>
    unat (kc_monotonic_treasury_config_version (kb_config b)) + 1 < 2 ^ 64
    \<and> b' = b\<lparr>kb_config := (kb_config b)\<lparr>kc_monotonic_treasury_config_version :=
          kc_monotonic_treasury_config_version (kb_config b) + 1\<rparr>\<rparr>"
  by (auto simp: advance_treasury_config_version_def res_simps checked_add_u64_def)

lemma unat_plus_one: "unat (a :: u64) + 1 < 2 ^ 64 \<Longrightarrow> unat (a + 1) = Suc (unat a)"
  by (simp add: unat_word_ariths)

text \<open>The tail of both privileged handlers; \<open>b3\<close> is \<open>b2\<close>, with its configuration version advanced or not.\<close>

lemma commit_tail:
  assumes "body_ok b1" "length (vc_scope_target v) \<le> 64" "length (ae_request_id env) \<le> 64"
    and b2: "advance_counter (vc_authority v) (vc_scope_class v) (vc_scope_target v) (vc_counter v) b1 = Inr b2"
    and b3: "b3 = b2 \<or> advance_treasury_config_version b2 = Inr b3"
    and b4: "advance_commit_epoch True b3 = Inr b4"
    and b5: "record_audit (audit_provenance env v b4) b4 = Inr b5"
  shows "spends_capability env v b1 b5" "kb_entries b5 = kb_entries b1" "kb_faucet b5 = kb_faucet b1"
    "kb_strict_recovery_counter b5 = kb_strict_recovery_counter b1"
proof -
  have ok2: "body_ok b2" using advance_counter_ok [OF assms(1) _ b2] assms(2) by simp
  then have ok3: "body_ok b3" using b3 advance_treasury_config_version_ok by blast
  have ok4: "body_ok b4" by (rule advance_commit_epoch_ok [OF ok3 b4])
  have ok5: "body_ok b5"
    using record_audit_ok [OF ok4 b5] assms(2,3) by (simp add: audit_provenance_def)
  obtain cs where cs: "b2 = b1\<lparr>kb_counters := cs\<rparr>" using advance_counter_frame [OF b2] by blast
  have e4: "b4 = b3\<lparr>kb_freshness_epoch := kb_freshness_epoch b3 + 1, kb_structural_version := kb_structural_version b3 + 1\<rparr>"
    "unat (kb_freshness_epoch b3 + 1) = Suc (unat (kb_freshness_epoch b3))"
    "unat (kb_structural_version b3 + 1) = Suc (unat (kb_structural_version b3))"
    using b4 unat_plus_one by (simp_all add: advance_commit_epoch_Inr)
  note f5 = record_audit_frame [OF b5]
  then obtain au where au: "b5 = b4\<lparr>kb_audit := au\<rparr>" by blast
  have f3: "\<exists>x. b3 = b2\<lparr>kb_config := (kb_config b2)\<lparr>kc_monotonic_treasury_config_version := x\<rparr>\<rparr>"
    using b3
  proof
    assume "b3 = b2"
    then show ?thesis by (intro exI [of _ "kc_monotonic_treasury_config_version (kb_config b2)"]) simp
  qed (auto simp: advance_treasury_config_version_Inr)
  then obtain x where f3: "b3 = b2\<lparr>kb_config := (kb_config b2)\<lparr>kc_monotonic_treasury_config_version := x\<rparr>\<rparr>" by blast
  have frame: "kb_config b5 = (kb_config b1)\<lparr>kc_monotonic_treasury_config_version := x\<rparr>"
    "kb_counters b5 = kb_counters b2" "kb_entries b5 = kb_entries b1" "kb_faucet b5 = kb_faucet b1"
    "kb_strict_recovery_counter b5 = kb_strict_recovery_counter b1" "kb_config b4 = kb_config b5"
    "kb_audit b4 = kb_audit b1" "kb_freshness_epoch b5 = kb_freshness_epoch b4"
    "kb_structural_version b5 = kb_structural_version b4"
    "kb_freshness_epoch b3 = kb_freshness_epoch b1" "kb_structural_version b3 = kb_structural_version b1"
    by (simp_all add: e4(1) f3 cs au)
  have "highest_counter b5 = highest_counter b2"
    using frame advance_counter_config [OF b2] by (intro highest_counter_cong) simp_all
  then show "spends_capability env v b1 b5"
    using ok5 advance_counter_highest [OF b2] e4 frame conjunct2 [OF f5]
    by (simp add: spends_capability_def audit_provenance_def)
  show "kb_entries b5 = kb_entries b1" "kb_faucet b5 = kb_faucet b1"
    "kb_strict_recovery_counter b5 = kb_strict_recovery_counter b1" by (fact frame)+
qed

lemma spends_from:
  assumes "spends_capability env v b1 b'" "kb_counters b1 = kb_counters b" "kb_config b1 = kb_config b"
    "kb_freshness_epoch b1 = kb_freshness_epoch b" "kb_structural_version b1 = kb_structural_version b"
    "kb_audit b1 = kb_audit b"
  shows "spends_capability env v b b'"
  using assms highest_counter_cong [of b1 b] by (simp add: spends_capability_def)

lemma commit_bump_class_simps [simp]:
  "configure_treasury_sub_op_bump_class s = Structural"
  by (simp add: configure_treasury_sub_op_bump_class_def)

lemma handle_generate_keys_Inr:
  assumes "handle_generate_keys C env b v ds = (Inr resp, ds')"
  obtains payload purpose_code count purpose keys b1 b2 b3 b4 where
    "ae_payload env = Some payload" "map_get payload 1 = Some (CInteger (uint purpose_code))"
    "map_get payload 2 = Some (CInteger (uint count))"
    "purpose_of_code purpose_code = Some purpose" "ucast (vc_key_purpose v) = purpose_code"
    "payload_binding C (ae_opcode env) None (ae_request_id env)
       (generate_keys_canonical_params purpose_code count) = vc_payload_binding v"
    "purpose = AgentFaucetTreasuryK1 \<longrightarrow> vc_scope_class v = 0"
    "generate_keys C purpose (unat count) \<lparr>cm_config_version = kc_monotonic_treasury_config_version (kb_config b),
       cm_counter_snapshot = vc_counter v, cm_batch_id = vc_counter v\<rparr> ds b = (Inr (keys, b1), ds')"
    "advance_counter (vc_authority v) (vc_scope_class v) (vc_scope_target v) (vc_counter v) b1 = Inr b2"
    "advance_commit_epoch True b2 = Inr b3" "record_audit (audit_provenance env v b3) b3 = Inr b4"
    "resp = GenerateKeysResp keys b4 (ae_request_id env)"
  using assms unfolding handle_generate_keys_def
  by (auto simp: res_simps as_u64_Some Let_def split: sum.splits prod.splits)

lemma handle_generate_keys_spends:
  assumes "handle_generate_keys C env b v ds = (Inr resp, ds')" "body_ok b" "length (vc_scope_target v) \<le> 64"
    and "length (ae_request_id env) \<le> 64" "k1_public_uncompressed C" "\<forall>d. Some d \<in> set ds \<longrightarrow> length d = 32"
  shows "\<exists>keys b'. resp = GenerateKeysResp keys b' (ae_request_id env) \<and> spends_capability env v b b'
    \<and> kb_faucet b' = kb_faucet b \<and> kb_strict_recovery_counter b' = kb_strict_recovery_counter b
    \<and> (\<exists>es. kb_entries b' = kb_entries b @ es) \<and> (treasury_singleton b \<longrightarrow> treasury_singleton b')"
proof (rule handle_generate_keys_Inr [OF assms(1)], goal_cases)
  case (1 payload pc count purpose keys b1 b2 b3 b4)
  have ok: "body_ok b1" by (rule generate_keys_ok [OF 1(8) assms(2,5,6)])
  note tail = commit_tail [OF ok assms(3,4) 1(9) disjI1 [OF refl] 1(10,11)]
  obtain es where b1: "b1 = b\<lparr>kb_entries := kb_entries b @ es\<rparr>" using generate_keys_Inr(1) [OF 1(8)] by blast
  have "treasury_singleton b \<Longrightarrow> treasury_singleton b4"
    using generate_keys_singleton [OF 1(8)] tail(2) by (simp add: treasury_singleton_def)
  moreover have "spends_capability env v b b4" by (rule spends_from [OF tail(1)]) (simp_all add: b1)
  ultimately show ?case using 1(12) tail(2-4) by (simp add: b1)
qed

lemma parse_treasury_params_sub_op:
  "parse_treasury_params payload s = Inr (p, cp) \<Longrightarrow> s \<le> 3
    \<and> (case p of SetLimits _ _ _ \<Rightarrow> s = 0 | RefillBudget _ \<Rightarrow> s = 1 | RaiseBreaker _ \<Rightarrow> s = 2 | ResetBreaker _ \<Rightarrow> s = 3)"
  by (auto simp: parse_treasury_params_def res_simps split: if_splits)

lemma handle_configure_treasury_Inr:
  assumes "handle_configure_treasury C env b v = Inr resp"
  obtains payload sub_op params cp b1 b2 b3 b4 b5 where
    "ae_payload env = Some payload" "map_get payload 1 = Some (CInteger (uint (ucast sub_op :: u64)))"
    "parse_treasury_params payload sub_op = Inr (params, cp)" "vc_treasury_sub_op v = Some sub_op"
    "payload_binding C (ae_opcode env) (Some sub_op) (ae_request_id env) cp = vc_payload_binding v"
    "vc_scope_class v = 0" "apply_treasury_params params b = Inr b1"
    "advance_counter (vc_authority v) (vc_scope_class v) (vc_scope_target v) (vc_counter v) b1 = Inr b2"
    "advance_treasury_config_version b2 = Inr b3"
    "advance_commit_epoch True b3 = Inr b4" "record_audit (audit_provenance env v b4) b4 = Inr b5"
    "resp = ConfigureTreasuryResp b5 (ae_request_id env)"
  using assms unfolding handle_configure_treasury_def
  by (auto simp: res_simps as_u8_Some as_u64_Some Let_def split: prod.splits)

lemma apply_treasury_params_frame:
  assumes "apply_treasury_params params b = Inr b'"
  shows "\<exists>fs n. b' = b\<lparr>kb_faucet := fs, kb_strict_recovery_counter := n\<rparr>"
proof (cases params)
  case (SetLimits x y z)
  then show ?thesis
    using assms by (intro exI [of _ "kb_faucet b'"] exI [of _ "kb_strict_recovery_counter b"])
      (auto simp: apply_treasury_params_def Let_def)
next
  case (RefillBudget x)
  then show ?thesis
    using assms by (intro exI [of _ "kb_faucet b'"] exI [of _ "kb_strict_recovery_counter b"])
      (auto simp: apply_treasury_params_def Let_def split: if_splits)
next
  case (RaiseBreaker x)
  then show ?thesis
    using assms by (intro exI [of _ "kb_faucet b'"] exI [of _ "kb_strict_recovery_counter b"])
      (auto simp: apply_treasury_params_def Let_def split: if_splits)
next
  case (ResetBreaker x)
  then show ?thesis
    using assms by (intro exI [of _ "kb_faucet b'"] exI [of _ "kb_strict_recovery_counter b'"])
      (auto simp: apply_treasury_params_def Let_def res_simps split: if_splits)
qed

lemma handle_configure_treasury_spends:
  assumes "handle_configure_treasury C env b v = Inr resp" "body_ok b" "length (vc_scope_target v) \<le> 64"
    and "length (ae_request_id env) \<le> 64"
  shows "\<exists>b' b1 params cp sub_op payload. resp = ConfigureTreasuryResp b' (ae_request_id env) \<and> spends_capability env v b b'
    \<and> vc_treasury_sub_op v = Some sub_op \<and> vc_scope_class v = 0
    \<and> parse_treasury_params payload sub_op = Inr (params, cp)
    \<and> apply_treasury_params params b = Inr b1 \<and> kb_faucet b' = kb_faucet b1
    \<and> kb_strict_recovery_counter b' = kb_strict_recovery_counter b1 \<and> kb_entries b' = kb_entries b"
proof (rule handle_configure_treasury_Inr [OF assms(1)], goal_cases)
  case (1 payload sub_op params cp b1 b2 b3 b4 b5)
  obtain fs n where b1: "b1 = b\<lparr>kb_faucet := fs, kb_strict_recovery_counter := n\<rparr>"
    using apply_treasury_params_frame [OF 1(7)] by blast
  have ok: "body_ok b1" using assms(2) by (simp add: b1 body_ok_def)
  note tail = commit_tail [OF ok assms(3,4) 1(8) disjI2 [OF 1(9)] 1(10,11)]
  have "spends_capability env v b b5" by (rule spends_from [OF tail(1)]) (simp_all add: b1)
  moreover have "kb_entries b1 = kb_entries b" by (simp add: b1)
  ultimately show ?case using 1(3,4,6,7,12) tail(2-4) by metis
qed

text \<open>Once the high-water of its tuple has reached its counter, a capability is refused.\<close>

lemma spent_refused:
  fixes b b' :: keystore_body
  assumes "verify_capability_extract C m opcode request_id (kb_config b) (kb_counters b) = Inr v"
    and sc: "same_config (kb_config b) (kb_config b')"
    and "unat (vc_counter v) \<le> highest_counter b' (vc_authority v, vc_scope_class v, vc_scope_target v)"
  shows "\<exists>e. verify_capability_extract C m opcode' request_id' (kb_config b') (kb_counters b') = Inl e"
proof -
  let ?b = "b'\<lparr>kb_config := kb_config b\<rparr>"
  note cfg = same_configD [OF sc]
  have env: "kc_environment_identifier (kb_config b') = kc_environment_identifier (kb_config b)"
    by (subst cfg) simp
  have "highest_counter ?b = highest_counter b'" using env by (intro highest_counter_cong) simp_all
  then have "unat (vc_counter v) \<le> highest_counter ?b (vc_authority v, vc_scope_class v, vc_scope_target v)"
    using assms(3) by simp
  from accepted_capability_spent [OF assms(1) _ this]
  have "\<nexists>v'. verify_capability_extract C m opcode' request_id' (kb_config b) (kb_counters b') = Inr v'" by simp
  moreover have "verify_capability_extract C m opcode' request_id' (kb_config b') (kb_counters b')
    = verify_capability_extract C m opcode' request_id' (kb_config b) (kb_counters b')"
    by (subst cfg) simp
  ultimately show ?thesis
    by (cases "verify_capability_extract C m opcode' request_id' (kb_config b) (kb_counters b')") auto
qed

lemma spent_capability_refused:
  assumes "verify_capability_extract C m opcode request_id (kb_config b) (kb_counters b) = Inr v"
    and "spends_capability env v b b'"
  shows "\<exists>e. verify_capability_extract C m opcode' request_id' (kb_config b') (kb_counters b') = Inl e"
  by (rule spent_refused [OF assms(1)]) (use assms(2) in \<open>simp_all add: spends_capability_def\<close>)

section \<open>Signing handlers\<close>

lemma find_entry_Some: "find_entry b r = Some e \<Longrightarrow> e \<in> set (kb_entries b) \<and> ke_key_ref e = r"
  by (auto simp: find_entry_def find_Some_iff in_set_conv_nth)

lemma parse_transfer_payload_Inr:
  assumes "parse_transfer_payload payload chain = Inr p"
  shows "tp_chain_id p = chain" "transfer_typed (transfer_fields p)" "length (tp_from p) = 20"
  using assms
  by (auto simp: parse_transfer_payload_def res_simps as_bytes_n_Some as_u256_minimal_be_Some transfer_typed_def
      transfer_fields_def split: if_splits)

text \<open>What it means that the enclave signed transfer \<open>f\<close> with a key of this purpose.\<close>

definition signed_by :: "crypto \<Rightarrow> keystore_body \<Rightarrow> key_purpose \<Rightarrow> bytes \<Rightarrow> eth_transfer_fields \<Rightarrow> signed_transfer \<Rightarrow> bool" where
  "signed_by C b purpose key_ref f st \<longleftrightarrow> transfer_typed f \<and> et_chain_id f = kc_twod_chain_id (kb_config b)
     \<and> st_signing_hash st = keccak_256 C (unsigned_preimage f)
     \<and> (\<exists>e kp. find_entry b key_ref = Some e \<and> ke_purpose e = purpose \<and> kp_secret kp = ke_secret_scalar e
          \<and> sign_transfer C kp f = Inr st \<and> st_from st = eth_address C kp)"

lemma signing_key_Inr:
  assumes "signing_key C purpose key_ref sender b = Inr kp"
  shows "\<exists>e. find_entry b key_ref = Some e \<and> ke_purpose e = purpose \<and> kp_secret kp = ke_secret_scalar e
    \<and> sender = eth_address C kp"
  using assms
  by (auto simp: signing_key_def load_keypair_for_def from_secret_bytes_def res_simps split: if_splits)

lemma signed_byI:
  assumes "parse_transfer_payload payload (kc_twod_chain_id (kb_config b)) = Inr p"
    and "signing_key C purpose key_ref (tp_from p) b = Inr kp" "sign_transfer C kp (transfer_fields p) = Inr st"
  shows "signed_by C b purpose key_ref (transfer_fields p) st" "st_from st = tp_from p"
proof -
  have chain: "et_chain_id (transfer_fields p) = kc_twod_chain_id (kb_config b)"
    using parse_transfer_payload_Inr(1) [OF assms(1)] by (simp add: transfer_fields_def)
  note att = sign_transfer_Inr [OF assms(3)]
  obtain e where "find_entry b key_ref = Some e" "ke_purpose e = purpose" "kp_secret kp = ke_secret_scalar e"
    and sender: "tp_from p = eth_address C kp"
    using signing_key_Inr [OF assms(2)] by blast
  then show "signed_by C b purpose key_ref (transfer_fields p) st"
    unfolding signed_by_def using chain att assms(3) parse_transfer_payload_Inr(2) [OF assms(1)] by blast
  show "st_from st = tp_from p" using att sender by simp
qed

lemma handle_sign_transfer_Inr:
  assumes "handle_sign_transfer C env b = Inr resp"
  shows "\<exists>st f key_ref. resp = SignTransferResp st \<and> ae_key_ref env = Some key_ref
    \<and> signed_by C b AgentTransferK1 key_ref f st"
  using assms by (auto simp: handle_sign_transfer_def res_simps intro: signed_byI(1))

lemma is_known_transfer_recipient_iff: "is_known_transfer_recipient C b to \<longleftrightarrow>
    (\<exists>e \<in> set (kb_entries b). ke_purpose e = AgentTransferK1 \<and> length (ke_public_identity e) = 65
       \<and> eth_address_from_uncompressed C (ke_public_identity e) = Inr to)"
  by (simp add: is_known_transfer_recipient_def list_ex_iff)

lemma handle_sign_faucet_dispense_Inr:
  assumes "handle_sign_faucet_dispense C env b = Inr resp"
  obtains p key_ref payload amount price kp fs st where
    "ae_key_ref env = Some key_ref" "ae_payload env = Some payload"
    "parse_transfer_payload payload (kc_twod_chain_id (kb_config b)) = Inr p"
    "u256_from_minimal_be (tp_value_be p) = Some amount" "u256_from_minimal_be (tp_gas_price_be p) = Some price"
    "signing_key C AgentFaucetTreasuryK1 key_ref (tp_from p) b = Inr kp" "is_known_transfer_recipient C b (tp_to p)"
    "accept_and_debit (kb_faucet b) amount (tp_gas_limit p) price = Inr fs"
    "sign_transfer C kp (transfer_fields p) = Inr st"
    "resp = SignFaucetDispenseResp st (b\<lparr>kb_faucet := fs, kb_freshness_epoch := kb_freshness_epoch b + 1\<rparr>) (ae_request_id env)"
    "unat (kb_freshness_epoch b) + 1 < 2 ^ 64"
proof -
  have "\<And>c. advance_commit_epoch False b1 = Inr c \<longleftrightarrow> unat (kb_freshness_epoch b1) + 1 < 2 ^ 64
      \<and> c = b1\<lparr>kb_freshness_epoch := kb_freshness_epoch b1 + 1\<rparr>" for b1
    by (simp add: advance_commit_epoch_Inr)
  then show thesis
    using assms that unfolding handle_sign_faucet_dispense_def
    by (auto simp: res_simps Let_def split: if_splits)
qed

section \<open>Routing\<close>

lemma opcode_from_u8_cases: "opcode_from_u8 b = Some op \<Longrightarrow>
    b \<in> {1, 2, 3, 4, 5, 6, 7, 8, 9} \<and> (op = GenerateKeys \<longleftrightarrow> b = 1) \<and> (op = ConfigureTreasury \<longleftrightarrow> b = 6)"
  by (auto simp: opcode_from_u8_def split: if_splits)

lemma dispatch_agent_Inr:
  assumes "dispatch_agent C ft w profile payload b ds = (Inr resp, ds')"
  obtains env op where "decode_envelope payload = Inr env" "opcode_from_u8 (ae_opcode env) = Some op"
    "profile = AgentGatewayProfile" "ae_agent_version env = AGENT_GATEWAY_VERSION" "ae_command_domain env = COMMAND_DOMAIN"
    "is_rollback_sensitive op \<longrightarrow> is_anti_rollback_configured w"
    "(\<exists>v. op = GenerateKeys \<and> verify_capability C env b = Inr v \<and> handle_generate_keys C env b v ds = (Inr resp, ds'))
     \<or> (\<exists>v. op = ConfigureTreasury \<and> verify_capability C env b = Inr v \<and> handle_configure_treasury C env b v = Inr resp
          \<and> ds' = ds)
     \<or> ae_capability env = None \<and> ds' = ds \<and>
        (op = PublicIdentity \<and> handle_public_identity C env b = Inr resp
         \<or> op = ProveIdentity \<and> handle_prove_identity C env b = Inr resp
         \<or> op = SignTransfer \<and> handle_sign_transfer C env b = Inr resp
         \<or> op = SignFaucetDispense \<and> handle_sign_faucet_dispense C env b = Inr resp)"
proof -
  note unf = assms [unfolded dispatch_agent_def]
  have profile: "profile = AgentGatewayProfile" using unf by (simp split: if_splits)
  obtain env where env: "decode_envelope payload = Inr env"
    using unf profile by (cases "decode_envelope payload") auto
  have vd: "ae_agent_version env = AGENT_GATEWAY_VERSION" "ae_command_domain env = COMMAND_DOMAIN"
    using unf profile env by (auto split: if_splits)
  obtain op where op: "opcode_from_u8 (ae_opcode env) = Some op"
    using unf profile env vd by (cases "opcode_from_u8 (ae_opcode env)") auto
  have gate: "is_rollback_sensitive op \<longrightarrow> is_anti_rollback_configured w"
    using unf profile env vd op by (cases "is_anti_rollback_configured w")
      (auto simp: anti_rollback_satisfied_def sealed_optout_acknowledged_def)
  note rest = unf [simplified profile env vd op sum.case option.case simp_thms if_True if_False]
  have privileged: "(\<exists>v. op = GenerateKeys \<and> verify_capability C env b = Inr v \<and> handle_generate_keys C env b v ds = (Inr resp, ds'))
     \<or> (\<exists>v. op = ConfigureTreasury \<and> verify_capability C env b = Inr v \<and> handle_configure_treasury C env b v = Inr resp
          \<and> ds' = ds)" if priv: "is_privileged op"
  proof (cases "verify_capability C env b")
    case (Inl e)
    then show ?thesis
      using rest gate priv by (auto simp: anti_rollback_satisfied_def split: if_splits)
  next
    case (Inr v)
    then show ?thesis
      using rest gate priv by (auto simp: anti_rollback_satisfied_def split: if_splits)
  qed
  show thesis
  proof (cases "is_privileged op")
    case True
    then show ?thesis using that [OF env op profile vd gate] privileged by blast
  next
    case False
    then have "ae_capability env = None \<and> ds' = ds \<and>
        (op = PublicIdentity \<and> handle_public_identity C env b = Inr resp
         \<or> op = ProveIdentity \<and> handle_prove_identity C env b = Inr resp
         \<or> op = SignTransfer \<and> handle_sign_transfer C env b = Inr resp
         \<or> op = SignFaucetDispense \<and> handle_sign_faucet_dispense C env b = Inr resp)"
      using rest gate by (cases op) (auto simp: anti_rollback_satisfied_def is_privileged_def split: if_splits)
    then show ?thesis using that [OF env op profile vd gate] by blast
  qed
qed

lemma rollback_sensitive_iff_committed: "is_rollback_sensitive op \<longleftrightarrow> commit_bump_class op \<noteq> NotCommitted"
  by (cases op) simp_all

lemma dispense_body_ok: "body_ok b \<Longrightarrow> body_ok (b\<lparr>kb_faucet := fs, kb_freshness_epoch := e\<rparr>)"
  by (simp add: body_ok_def)

lemma dispatch_privileged:
  assumes "dispatch_agent C ft w profile payload b ds = (Inr resp, ds')" "decode_envelope payload = Inr env"
    and "opcode_from_u8 (ae_opcode env) = Some op" "is_privileged op"
    and "body_ok b" "k1_public_uncompressed C" "\<forall>d. Some d \<in> set ds \<longrightarrow> length d = 32"
  shows "is_anti_rollback_configured w \<and> (\<exists>m v b'. ae_capability env = Some m
    \<and> verify_capability_extract C m (ae_opcode env) (ae_request_id env) (kb_config b) (kb_counters b) = Inr v
    \<and> candidate_of resp = Some (b', ae_request_id env) \<and> spends_capability env v b b'
    \<and> (treasury_singleton b \<longrightarrow> treasury_singleton b'))"
proof (rule dispatch_agent_Inr [OF assms(1)], goal_cases)
  case (1 env' op')
  have eq: "env' = env" "op' = op" using 1 assms(2,3) by simp_all
  have op: "op = GenerateKeys \<or> op = ConfigureTreasury" using 1(7) assms(4) by (auto simp: eq is_privileged_def)
  then have gate: "is_anti_rollback_configured w" using 1(6) by (auto simp: eq)
  obtain v where v: "verify_capability C env b = Inr v"
    and h: "handle_generate_keys C env b v ds = (Inr resp, ds') \<or> handle_configure_treasury C env b v = Inr resp"
    using 1(7) op by (auto simp: eq)
  obtain m where m: "ae_capability env = Some m"
    "verify_capability_extract C m (ae_opcode env) (ae_request_id env) (kb_config b) (kb_counters b) = Inr v"
    using v by (auto simp: verify_capability_Inr)
  note len = verified_scope_target [OF m(2)] decode_envelope_request_id [OF assms(2)]
  have "\<exists>b'. candidate_of resp = Some (b', ae_request_id env) \<and> spends_capability env v b b'
      \<and> (treasury_singleton b \<longrightarrow> treasury_singleton b')"
    using h handle_generate_keys_spends [OF _ assms(5) len assms(6,7)]
      handle_configure_treasury_spends [OF _ assms(5) len]
    by (fastforce simp: treasury_singleton_def)
  then show ?case using gate m by blast
qed

lemma accept_and_debit_up:
  assumes "faucet_typed fs" "is_u256 amount" "is_u256 price" "accept_and_debit fs amount gas price = Inr fs'"
  shows "fs_cumulative_native_spend fs \<le> fs_cumulative_native_spend fs'" "fs_lifetime_spend fs \<le> fs_lifetime_spend fs'"
    "fs'\<lparr>fs_cumulative_native_spend := [], fs_lifetime_spend := []\<rparr> = fs\<lparr>fs_cumulative_native_spend := [], fs_lifetime_spend := []\<rparr>"
proof -
  note step = accept_step [OF assms]
  have t: "is_u256 (fs_cumulative_native_spend fs)" "is_u256 (fs_lifetime_spend fs)"
    "is_u256 (fs_cumulative_native_spend fs')" "is_u256 (fs_lifetime_spend fs')"
    using assms(1) step(1) by (simp_all add: faucet_typed_def)
  show "fs_cumulative_native_spend fs \<le> fs_cumulative_native_spend fs'" "fs_lifetime_spend fs \<le> fs_lifetime_spend fs'"
    using step(2,3) by (simp_all add: u256_le_iff t)
  show "fs'\<lparr>fs_cumulative_native_spend := [], fs_lifetime_spend := []\<rparr> = fs\<lparr>fs_cumulative_native_spend := [], fs_lifetime_spend := []\<rparr>"
    using accept_and_debit_refines [OF assms(1-3), of gas] assms(4) by (cases fs; cases fs') simp
qed

text \<open>What a dispense leaves in its candidate and which transfer it signed.\<close>

definition dispensed :: "crypto \<Rightarrow> agent_envelope \<Rightarrow> keystore_body \<Rightarrow> signed_transfer \<Rightarrow> keystore_body \<Rightarrow> bool" where
  "dispensed C env b st b' \<longleftrightarrow> body_ok b' \<and> faucet_typed (kb_faucet b') \<and> adopted b b'
     \<and> unat (kb_freshness_epoch b') = Suc (unat (kb_freshness_epoch b))
     \<and> kb_counters b' = kb_counters b \<and> kb_strict_recovery_counter b' = kb_strict_recovery_counter b
     \<and> (\<exists>key_ref f. ae_key_ref env = Some key_ref \<and> signed_by C b AgentFaucetTreasuryK1 key_ref f st
          \<and> is_known_transfer_recipient C b (et_to f)
          \<and> be_val (fs_cumulative_native_spend (kb_faucet b')) = be_val (fs_cumulative_native_spend (kb_faucet b))
              + be_val (et_value_be f) + be_val (et_gas_price_be f) * unat (et_gas_limit f))
     \<and> be_val (fs_cumulative_native_spend (kb_faucet b')) \<le> be_val (fs_cumulative_signing_budget (kb_faucet b))
     \<and> breaker_holds (kb_faucet b')"

lemma handle_sign_faucet_dispense_dispensed:
  assumes "handle_sign_faucet_dispense C env b = Inr resp" "body_ok b" "faucet_typed (kb_faucet b)"
  shows "\<exists>st b'. resp = SignFaucetDispenseResp st b' (ae_request_id env) \<and> dispensed C env b st b'"
proof (rule handle_sign_faucet_dispense_Inr [OF assms(1)], goal_cases)
  case (1 p key_ref payload amount price kp fs st)
  let ?b' = "b\<lparr>kb_faucet := fs, kb_freshness_epoch := kb_freshness_epoch b + 1\<rparr>"
  have u: "is_u256 amount" "is_u256 price" "be_val amount = be_val (tp_value_be p)" "be_val price = be_val (tp_gas_price_be p)"
    using 1(4,5) by (simp_all add: u256_from_minimal_be_Some)
  note step = accept_step [OF assms(3) u(1,2) 1(8)] and up = accept_and_debit_up [OF assms(3) u(1,2) 1(8)]
  have e: "unat (kb_freshness_epoch b + 1) = Suc (unat (kb_freshness_epoch b))" using 1(11) by (rule unat_plus_one)
  have "highest_counter ?b' = highest_counter b" by (intro highest_counter_cong) simp_all
  then have adopted: "adopted b ?b'"
    using e up by (simp add: adopted_def word_le_nat_alt)
  have f: "et_to (transfer_fields p) = tp_to p" "et_value_be (transfer_fields p) = tp_value_be p"
    "et_gas_price_be (transfer_fields p) = tp_gas_price_be p" "et_gas_limit (transfer_fields p) = tp_gas_limit p"
    by (simp_all add: transfer_fields_def)
  have "dispensed C env b st ?b'"
    unfolding dispensed_def using adopted dispense_body_ok [OF assms(2)] e step 1(1,7) u signed_byI(1) [OF 1(3,6,9)] f
    by (auto simp: dispense_cost_def intro!: exI [of _ key_ref] exI [of _ "transfer_fields p"])
  then show ?case using 1(10) by blast
qed

lemma dispatch_faucet:
  assumes "dispatch_agent C ft w profile payload b ds = (Inr (SignFaucetDispenseResp st b' request_id), ds')"
    and "body_ok b" "faucet_typed (kb_faucet b)"
  shows "\<exists>env. decode_envelope payload = Inr env \<and> opcode_from_u8 (ae_opcode env) = Some SignFaucetDispense
    \<and> is_anti_rollback_configured w \<and> ds' = ds \<and> request_id = ae_request_id env \<and> dispensed C env b st b'"
proof (rule dispatch_agent_Inr [OF assms(1)], goal_cases)
  case (1 env op)
  have no: "handle_generate_keys C env b v ds \<noteq> (Inr (SignFaucetDispenseResp st b' request_id), ds')"
    "handle_configure_treasury C env b v \<noteq> Inr (SignFaucetDispenseResp st b' request_id)" for v
    by (auto elim: handle_generate_keys_Inr handle_configure_treasury_Inr)
  have "handle_public_identity C env b \<noteq> Inr (SignFaucetDispenseResp st b' request_id)"
    "handle_prove_identity C env b \<noteq> Inr (SignFaucetDispenseResp st b' request_id)"
    "handle_sign_transfer C env b \<noteq> Inr (SignFaucetDispenseResp st b' request_id)"
    by (auto simp: handle_public_identity_def handle_prove_identity_def handle_sign_transfer_def res_simps)
  then have "op = SignFaucetDispense" "handle_sign_faucet_dispense C env b = Inr (SignFaucetDispenseResp st b' request_id)"
    "ds' = ds" using 1(7) no by auto
  then show ?case using 1(1,2,6) handle_sign_faucet_dispense_dispensed [OF _ assms(2,3)] by fastforce
qed

text \<open>Versions move exactly as the commit class of the opcode says.\<close>

definition committed_as :: "commit_bump \<Rightarrow> keystore_body \<Rightarrow> keystore_body \<Rightarrow> bool" where
  "committed_as c b b' \<longleftrightarrow> c \<noteq> NotCommitted \<and> body_ok b'
     \<and> same_config (kb_config b) (kb_config b')
     \<and> unat (kb_freshness_epoch b') = Suc (unat (kb_freshness_epoch b))
     \<and> unat (kb_structural_version b') = (if c = Structural then Suc (unat (kb_structural_version b))
                                         else unat (kb_structural_version b))"

lemma dispatch_candidate:
  assumes "dispatch_agent C ft w profile payload b ds = (Inr resp, ds')" "decode_envelope payload = Inr env"
    and "opcode_from_u8 (ae_opcode env) = Some op" "body_ok b" "k1_public_uncompressed C"
    and "\<forall>d. Some d \<in> set ds \<longrightarrow> length d = 32"
  shows "(case candidate_of resp of None \<Rightarrow> commit_bump_class op = NotCommitted \<and> ds' = ds
    | Some (b', request_id) \<Rightarrow> is_anti_rollback_configured w \<and> request_id = ae_request_id env
        \<and> committed_as (commit_bump_class op) b b')"
proof (cases "is_privileged op")
  case True
  then show ?thesis
    using dispatch_privileged [OF assms(1-3) True assms(4-6)]
    by (cases op) (auto simp: is_privileged_def spends_capability_def committed_as_def)
next
  case False
  show ?thesis
  proof (rule dispatch_agent_Inr [OF assms(1)], goal_cases)
    case (1 env' op')
    have eq: "env' = env" "op' = op" using 1 assms(2,3) by simp_all
    have "committed_as EpochOnly b b'" if "handle_sign_faucet_dispense C env b = Inr resp"
      and "candidate_of resp = Some (b', r)" for b' r
      by (rule handle_sign_faucet_dispense_Inr [OF that(1)])
        (use that(2) dispense_body_ok [OF assms(4)] unat_plus_one in \<open>auto simp: committed_as_def\<close>)
    moreover have "\<exists>b'. candidate_of resp = Some (b', ae_request_id env)"
      if "handle_sign_faucet_dispense C env b = Inr resp"
      by (rule handle_sign_faucet_dispense_Inr [OF that]) simp
    ultimately have faucet: "\<exists>b'. candidate_of resp = Some (b', ae_request_id env) \<and> committed_as EpochOnly b b'"
      if "handle_sign_faucet_dispense C env b = Inr resp"
      using that by blast
    have none: "candidate_of resp = None" if "handle_public_identity C env b = Inr resp \<or>
        handle_prove_identity C env b = Inr resp \<or> handle_sign_transfer C env b = Inr resp"
      using that by (auto simp: handle_public_identity_def handle_prove_identity_def handle_sign_transfer_def res_simps)
    have "op \<noteq> GenerateKeys" "op \<noteq> ConfigureTreasury" using False by (auto simp: is_privileged_def)
    then consider "commit_bump_class op = NotCommitted" "candidate_of resp = None" "ds' = ds"
      | "op = SignFaucetDispense" "handle_sign_faucet_dispense C env b = Inr resp"
      using 1(7) none unfolding eq by (elim disjE exE conjE) simp_all
    then show ?case
    proof cases
      case 2
      then show ?thesis using faucet 1(6) unfolding eq by auto
    qed simp
  qed
qed

section \<open>Samples\<close>

definition sample_features :: features where
  "sample_features = \<lparr>ft_keygen_exec = True, ft_configure_treasury = True, ft_prove_identity = True,
     ft_sign_transfer = True, ft_sign_faucet = True\<rparr>"

definition bound_process :: process where
  "bound_process = \<lparr>pr_challenge = None, pr_binding = Some \<lparr>ab_epoch = 7, ab_active = True\<rparr>\<rparr>"

lemma bound_process_configured [simp]: "is_anti_rollback_configured bound_process"
  by (simp add: is_anti_rollback_configured_def bound_process_def)

definition sample_request :: "(cbor_value \<times> cbor_value) list \<Rightarrow> bytes" where
  "sample_request m = enc_value (CMap m)"

definition keygen_request :: "(cbor_value \<times> cbor_value) list" where
  "keygen_request = [(CInteger 1, CInteger 1), (CInteger 2, CInteger 1), (CInteger 3, CText COMMAND_DOMAIN),
     (CInteger 4, CBytes [1]), (CInteger 5, CMap sample_cap_map),
     (CInteger 7, CMap [(CInteger 1, CInteger 1), (CInteger 2, CInteger 2)])]"

definition keygen_envelope :: agent_envelope where
  "keygen_envelope = \<lparr>ae_agent_version = 1, ae_opcode = 1, ae_command_domain = COMMAND_DOMAIN,
     ae_request_id = [1], ae_capability = Some sample_cap_map, ae_key_ref = None,
     ae_payload = Some [(CInteger 1, CInteger 1), (CInteger 2, CInteger 2)]\<rparr>"

lemma as_u8_sample: "as_u8 (CInteger 1) = Some 1" "as_u8 (CInteger 5) = Some 5" "as_u8 (CInteger 6) = Some 6"
    "as_u8 (CInteger 3) = Some 3" "as_u8 (CInteger 0) = Some 0" "as_u8 (CInteger 4) = Some 4"
  by (simp_all add: as_u8_def u8_try_from_def as_u64_def)

lemma COMMAND_DOMAIN_utf8: "utf8_valid COMMAND_DOMAIN" "length COMMAND_DOMAIN = 23"
  by (simp_all add: COMMAND_DOMAIN_def utf8_valid_ascii ascii_def)

lemma keygen_request_decodes: "decode_envelope (sample_request keygen_request) = Inr keygen_envelope"
proof -
  have "strict_decode_map (sample_request keygen_request) = Some keygen_request"
    unfolding sample_request_def strict_decode_map_iff
    by (simp add: keygen_request_def sample_cap_map_def MAX_CBOR_DEPTH_def put_uint_def Let_def COMMAND_DOMAIN_utf8
        utf8_valid_ascii ascii_def)
  moreover have "check_strict_keys keygen_request (\<lambda>n. 1 \<le> n \<and> n \<le> 7)"
    by (simp add: check_strict_keys_iff keygen_request_def as_u64_def)
  ultimately show ?thesis
    by (simp add: decode_envelope_def keygen_request_def keygen_envelope_def req_def map_get_def as_u64_def as_u8_sample
        as_text_def as_bytes_def opt_field_def as_map_def guarded_def MAX_REQUEST_ID_LEN_def)
qed

lemma sample_keygen_commits:
  "\<exists>keys b' ds'. dispatch_agent sample_crypto sample_features bound_process AgentGatewayProfile
      (sample_request keygen_request) sample_body sample_draws = (Inr (GenerateKeysResp keys b' [1]), ds')"
proof -
  obtain gs b1 ds where g: "generate_keys sample_crypto AgentTransferK1 2 sample_creation sample_draws sample_body
      = (Inr (gs, b1), ds)"
    using sample_generate by blast
  obtain es where b1: "b1 = sample_body\<lparr>kb_entries := kb_entries sample_body @ es\<rparr>"
    using generate_keys_Inr(1) [OF g] by blast
  have v: "verify_capability sample_crypto keygen_envelope sample_body = Inr sample_verified"
    using sample_cap_verified by (simp add: verify_capability_def keygen_envelope_def)
  have h: "\<exists>b'. handle_generate_keys sample_crypto keygen_envelope sample_body sample_verified sample_draws
      = (Inr (GenerateKeysResp gs b' [1]), ds)"
  proof -
    have creation: "\<lparr>cm_config_version = kc_monotonic_treasury_config_version (kb_config sample_body),
        cm_counter_snapshot = 5, cm_batch_id = 5\<rparr> = sample_creation"
      by (simp add: sample_creation_def sample_body_def sample_config_def)
    have "payload_binding sample_crypto o' s r p = replicate 32 5" for o' s r p
      by (simp add: payload_binding_def sample_crypto_def)
    moreover have "\<exists>b2. advance_counter (replicate 32 0xa1) 0 [0x67] 5 b1 = Inr b2"
      by (simp add: b1 sample_body_def advance_counter_def Let_def counter_row_def)
    then obtain b2 where b2: "advance_counter (replicate 32 0xa1) 0 [0x67] 5 b1 = Inr b2" by blast
    moreover have f2: "kb_audit b2 = kb_audit sample_body \<and> kb_freshness_epoch b2 = kb_freshness_epoch sample_body
        \<and> kb_structural_version b2 = kb_structural_version sample_body"
      by (subst advance_counter_frame [OF b2], simp add: b1)+
    then obtain b3 where b3: "advance_commit_epoch True b2 = Inr b3" "kb_audit b3 = kb_audit sample_body"
      by (simp add: advance_commit_epoch_Inr) (simp add: sample_body_def)
    moreover obtain b4 where "record_audit (audit_provenance keygen_envelope sample_verified b3) b3 = Inr b4"
      using b3(2) by (auto simp: record_audit_def sample_body_def Let_def checked_add_u64_def saturating_sub_u64_def)
    ultimately show ?thesis
      using g creation
      by (simp add: handle_generate_keys_def keygen_envelope_def req_def map_get_def as_u64_def purpose_of_code_def
          sample_verified_def)
  qed
  then obtain b' where "handle_generate_keys sample_crypto keygen_envelope sample_body sample_verified sample_draws
      = (Inr (GenerateKeysResp gs b' [1]), ds)" by blast
  then have "dispatch_agent sample_crypto sample_features bound_process AgentGatewayProfile
      (sample_request keygen_request) sample_body sample_draws = (Inr (GenerateKeysResp gs b' [1]), ds)"
    using v
    by (simp add: dispatch_agent_def keygen_request_decodes opcode_from_u8_def keygen_envelope_def AGENT_GATEWAY_VERSION_def
        is_privileged_def sample_features_def anti_rollback_satisfied_def)
  then show ?thesis by blast
qed

text \<open>A dispensing keystore: a treasury key, one transfer key and the request that pays the latter.\<close>

definition sample_key :: "u8 \<Rightarrow> key_purpose \<Rightarrow> key_entry" where
  "sample_key n purpose = \<lparr>ke_key_ref = replicate 32 n, ke_purpose = purpose, ke_algorithm = Secp256k1,
     ke_public_identity = 0x04 # replicate 64 7, ke_secret_scalar = replicate 32 n,
     ke_creation_metadata = sample_creation, ke_last_exported_seq = 0\<rparr>"

definition treasury_body :: keystore_body where
  "treasury_body = sample_body\<lparr>kb_entries := [sample_key 1 AgentFaucetTreasuryK1, sample_key 2 AgentTransferK1]\<rparr>"

definition dispense_payload :: "(cbor_value \<times> cbor_value) list" where
  "dispense_payload = [(CInteger 1, CInteger 11565), (CInteger 2, CBytes (replicate 20 5)),
     (CInteger 3, CBytes (replicate 20 5)), (CInteger 4, CBytes [1, 0]), (CInteger 5, CInteger 7),
     (CInteger 6, CInteger 20), (CInteger 7, CBytes [5]), (CInteger 8, CBytes [])]"

definition transfer_request :: "u8 \<Rightarrow> u8 \<Rightarrow> (cbor_value \<times> cbor_value) list" where
  "transfer_request opcode key = [(CInteger 1, CInteger 1), (CInteger 2, CInteger (uint opcode)),
     (CInteger 3, CText COMMAND_DOMAIN), (CInteger 4, CBytes [1]), (CInteger 6, CBytes (replicate 32 key)),
     (CInteger 7, CMap dispense_payload)]"

definition transfer_envelope :: "u8 \<Rightarrow> u8 \<Rightarrow> agent_envelope" where
  "transfer_envelope opcode key = \<lparr>ae_agent_version = 1, ae_opcode = opcode, ae_command_domain = COMMAND_DOMAIN,
     ae_request_id = [1], ae_capability = None, ae_key_ref = Some (replicate 32 key),
     ae_payload = Some dispense_payload\<rparr>"

lemma transfer_request_strict:
  assumes "opcode = 4 \<or> opcode = 5"
  shows "strict_decode_map (sample_request (transfer_request opcode key)) = Some (transfer_request opcode key)"
  unfolding sample_request_def strict_decode_map_iff
  using assms
  by (elim disjE) (simp_all add: transfer_request_def dispense_payload_def MAX_CBOR_DEPTH_def put_uint_def Let_def
      COMMAND_DOMAIN_utf8)

lemma transfer_request_decodes:
  assumes "opcode = 4 \<or> opcode = 5"
  shows "decode_envelope (sample_request (transfer_request opcode key)) = Inr (transfer_envelope opcode key)"
proof -
  have "check_strict_keys (transfer_request opcode key) (\<lambda>n. 1 \<le> n \<and> n \<le> 7)"
    by (simp add: check_strict_keys_iff transfer_request_def as_u64_def)
  moreover have "as_u8 (CInteger (uint opcode)) = Some opcode"
    using assms by (elim disjE) (simp_all add: as_u8_sample)
  ultimately show ?thesis
    unfolding decode_envelope_def transfer_request_strict [OF assms]
    by (simp add: transfer_request_def transfer_envelope_def req_def map_get_def as_u64_def as_u8_sample
        as_text_def as_bytes_def as_bytes32_def as_bytes_n_def opt_field_def as_map_def guarded_def MAX_REQUEST_ID_LEN_def)
qed

definition dispense_fields :: transfer_payload where
  "dispense_fields = \<lparr>tp_chain_id = 11565, tp_from = replicate 20 5, tp_to = replicate 20 5, tp_value_be = [1, 0],
     tp_nonce = 7, tp_gas_limit = 20, tp_gas_price_be = [5]\<rparr>"

lemma dispense_payload_parses: "parse_transfer_payload dispense_payload 11565 = Inr dispense_fields"
proof -
  have "check_strict_keys dispense_payload (\<lambda>n. 1 \<le> n \<and> n \<le> 8)"
    by (simp add: check_strict_keys_iff dispense_payload_def as_u64_def)
  then show ?thesis
    by (simp add: parse_transfer_payload_def dispense_payload_def dispense_fields_def req_def map_get_def as_u64_def
        as_bytes_n_def as_bytes_def as_u256_minimal_be_def)
qed

lemma sample_address: "eth_address sample_crypto kp = replicate 20 5"
    "eth_address_from_uncompressed sample_crypto (0x04 # bs) = Inr (replicate 20 5)"
  by (simp_all add: eth_address_def address_from_uncompressed_xy_def sample_crypto_def eth_address_from_uncompressed_def)

lemma sample_sign: "\<exists>st. sign_transfer sample_crypto kp (transfer_fields dispense_fields) = Inr st"
  by (simp add: sign_transfer_def dispense_fields_def transfer_fields_def sample_crypto_def Let_def sign_prehashed_def
      checked_mul_u64_def checked_add_u64_def recover_pubkey_uncompressed_def
      eth_address_from_uncompressed_def eth_address_def public_key_uncompressed_def)

lemma treasury_body_ok: "body_ok treasury_body" "faucet_typed (kb_faucet treasury_body)"
  using sample_body_ok sample_faucet_typed
  by (auto simp: treasury_body_def body_ok_def entry_ok_def sample_key_def) (simp add: sample_body_def)

lemma sample_signing_key:
  assumes "n = 1 \<and> p = AgentFaucetTreasuryK1 \<or> n = 2 \<and> p = AgentTransferK1"
  shows "signing_key sample_crypto p (replicate 32 n) (replicate 20 5) treasury_body = Inr \<lparr>kp_secret = replicate 32 n\<rparr>"
proof -
  have "k1_secret_ok sample_crypto (replicate 32 n)" using assms by (auto simp: sample_crypto_def)
  then show ?thesis
    using assms by (auto simp: signing_key_def find_entry_def treasury_body_def sample_key_def load_keypair_for_def
        from_secret_bytes_def sample_address)
qed

lemma sample_transfer_dispatch:
  "\<exists>st. dispatch_agent sample_crypto sample_features w AgentGatewayProfile
      (sample_request (transfer_request 4 2)) treasury_body ds = (Inr (SignTransferResp st), ds)"
proof -
  obtain st where st: "sign_transfer sample_crypto \<lparr>kp_secret = replicate 32 2\<rparr> (transfer_fields dispense_fields) = Inr st"
    using sample_sign by blast
  have chain: "kc_twod_chain_id (kb_config treasury_body) = 11565"
    by (simp add: treasury_body_def sample_body_def sample_config_def)
  have key: "signing_key sample_crypto AgentTransferK1 (replicate 32 2) (tp_from dispense_fields) treasury_body
      = Inr \<lparr>kp_secret = replicate 32 2\<rparr>"
    using sample_signing_key by (simp add: dispense_fields_def)
  have "handle_sign_transfer sample_crypto (transfer_envelope 4 2) treasury_body = Inr (SignTransferResp st)"
    using st key by (simp add: handle_sign_transfer_def transfer_envelope_def chain dispense_payload_parses)
  then show ?thesis
    by (simp add: dispatch_agent_def transfer_request_decodes opcode_from_u8_def transfer_envelope_def
        AGENT_GATEWAY_VERSION_def is_privileged_def sample_features_def)
qed

lemma sample_accept: "\<exists>fs. accept_and_debit sample_faucet amount 20 price = Inr fs"
  if "is_u256 amount" "is_u256 price" "be_val amount = 256" "be_val price = 5"
  using accept_and_debit_refines [OF sample_faucet_typed that(1,2), of 20] that(3,4)
  by (auto simp: faucet_spec_def sample_faucet_def dispense_cost_def split: sum.splits)

lemma sample_dispense_dispatch:
  "\<exists>st b'. dispatch_agent sample_crypto sample_features bound_process AgentGatewayProfile
      (sample_request (transfer_request 5 1)) treasury_body ds = (Inr (SignFaucetDispenseResp st b' [1]), ds)"
proof -
  obtain st where st: "sign_transfer sample_crypto \<lparr>kp_secret = replicate 32 1\<rparr> (transfer_fields dispense_fields) = Inr st"
    using sample_sign by blast
  have chain: "kc_twod_chain_id (kb_config treasury_body) = 11565"
    by (simp add: treasury_body_def sample_body_def sample_config_def)
  have key: "signing_key sample_crypto AgentFaucetTreasuryK1 (replicate 32 1) (tp_from dispense_fields) treasury_body
      = Inr \<lparr>kp_secret = replicate 32 1\<rparr>"
    using sample_signing_key by (simp add: dispense_fields_def)
  obtain a p where ap: "u256_from_minimal_be (tp_value_be dispense_fields) = Some a" "is_u256 a" "be_val a = 256"
      "u256_from_minimal_be (tp_gas_price_be dispense_fields) = Some p" "is_u256 p" "be_val p = 5"
  proof -
    have "u256_from_minimal_be [1, 0] = Some (replicate 30 0 @ [1, 0])" "u256_from_minimal_be [5] = Some (replicate 31 0 @ [5])"
      by (simp_all add: u256_from_minimal_be_def)
    then show thesis
      using that [of "replicate 30 0 @ [1, 0]" "replicate 31 0 @ [5]"]
      by (simp add: dispense_fields_def u256_from_minimal_be_Some)
  qed
  obtain fs where fs: "accept_and_debit (kb_faucet treasury_body) a (tp_gas_limit dispense_fields) p = Inr fs"
    using sample_accept [OF ap(2,5,3,6)] by (auto simp: treasury_body_def sample_body_def dispense_fields_def)
  have to: "is_known_transfer_recipient sample_crypto treasury_body (tp_to dispense_fields)"
    by (simp add: is_known_transfer_recipient_def treasury_body_def sample_key_def dispense_fields_def sample_address)
  have "\<exists>b'. advance_commit_epoch False (treasury_body\<lparr>kb_faucet := fs\<rparr>) = Inr b'"
    by (simp add: advance_commit_epoch_Inr treasury_body_def sample_body_def)
  then have "\<exists>b'. handle_sign_faucet_dispense sample_crypto (transfer_envelope 5 1) treasury_body
      = Inr (SignFaucetDispenseResp st b' [1])"
    using st key ap fs to
    by (auto simp: handle_sign_faucet_dispense_def transfer_envelope_def chain dispense_payload_parses)
  then show ?thesis
    by (auto simp: dispatch_agent_def transfer_request_decodes opcode_from_u8_def transfer_envelope_def
        AGENT_GATEWAY_VERSION_def is_privileged_def sample_features_def anti_rollback_satisfied_def)
qed

section \<open>Treasury configuration\<close>

text \<open>What each tier may do to the faucet: the administrator leaves the lifetime spend and the recovery
  counter alone; the recovery authority only lowers the lifetime spend, and every use is counted.\<close>

definition treasury_change :: "bool \<Rightarrow> keystore_body \<Rightarrow> keystore_body \<Rightarrow> bool" where
  "treasury_change recovery b b' \<longleftrightarrow>
     (let f = kb_faucet b; f' = kb_faucet b' in
      if recovery then
        unat (kb_strict_recovery_counter b') = Suc (unat (kb_strict_recovery_counter b))
        \<and> fs_lifetime_spend f' \<le> fs_lifetime_spend f
        \<and> f' = f\<lparr>fs_lifetime_spend := fs_lifetime_spend f', fs_circuit_breaker_threshold := None\<rparr>
      else
        kb_strict_recovery_counter b' = kb_strict_recovery_counter b
        \<and> fs_lifetime_spend f' = fs_lifetime_spend f
        \<and> (fs_circuit_breaker_threshold f' = fs_circuit_breaker_threshold f
           \<or> (\<exists>t. fs_circuit_breaker_threshold f' = Some t \<and> fs_lifetime_spend f \<le> t))
        \<and> (fs_cumulative_native_spend f' = fs_cumulative_native_spend f
           \<and> fs_cumulative_signing_budget f' = fs_cumulative_signing_budget f
           \<or> fs_cumulative_native_spend f' = zero32 \<and> fs_cumulative_signing_budget f' \<noteq> zero32))"

lemma apply_treasury_params_change:
  assumes "parse_treasury_params payload s = Inr (params, cp)" "apply_treasury_params params b = Inr b1"
  shows "treasury_change (s = 3) b b1"
  using parse_treasury_params_sub_op [OF assms(1)] assms(2)
  by (cases params) (auto simp: treasury_change_def apply_treasury_params_def Let_def res_simps
      checked_add_u64_def unat_word_ariths split: if_splits)

lemma configure_tier:
  fixes b :: keystore_body
  assumes "verify_capability_extract C m opcode request_id (kb_config b) (kb_counters b) = Inr v"
    and "vc_treasury_sub_op v = Some s"
  shows "vc_authority v = (if s = 3 then kc_recovery_authority_pk (kb_config b) else kc_admin_authority_pk (kb_config b))"
proof -
  obtain cap where cap: "parse_capability m = Inr cap" "tier_ok cap" "vc_authority v = cap_authority (kb_config b) cap"
      "cp_treasury_sub_op cap = Some s"
    using assms unfolding verify_capability_extract_Inr by auto
  have "cp_command_opcode cap = 6"
    using parse_capability_ok [OF cap(1)] cap(4) by (auto simp: capability_ok_def OPCODE_CONFIGURE_TREASURY_def)
  then show ?thesis
    using cap by (auto simp: tier_ok_def cap_authority_def OPCODE_CONFIGURE_TREASURY_def
        TREASURY_SUB_OP_RESET_LIFETIME_BREAKER_def split: if_splits)
qed

lemma dispatch_treasury:
  assumes "dispatch_agent C ft w profile payload b ds = (Inr (ConfigureTreasuryResp b' request_id), ds')" "body_ok b"
  shows "\<exists>env v s. decode_envelope payload = Inr env \<and> verify_capability C env b = Inr v
    \<and> spends_capability env v b b' \<and> vc_treasury_sub_op v = Some s \<and> vc_scope_class v = 0
    \<and> vc_authority v = (if s = 3 then kc_recovery_authority_pk (kb_config b) else kc_admin_authority_pk (kb_config b))
    \<and> kb_entries b' = kb_entries b \<and> treasury_change (s = 3) b b'"
proof (rule dispatch_agent_Inr [OF assms(1)], goal_cases)
  case (1 env op)
  have no: "handle_generate_keys C env b v ds \<noteq> (Inr (ConfigureTreasuryResp b' request_id), ds')"
    "handle_sign_faucet_dispense C env b \<noteq> Inr (ConfigureTreasuryResp b' request_id)" for v
    by (auto elim: handle_generate_keys_Inr handle_sign_faucet_dispense_Inr)
  have "handle_public_identity C env b \<noteq> Inr (ConfigureTreasuryResp b' request_id)"
    "handle_prove_identity C env b \<noteq> Inr (ConfigureTreasuryResp b' request_id)"
    "handle_sign_transfer C env b \<noteq> Inr (ConfigureTreasuryResp b' request_id)"
    by (auto simp: handle_public_identity_def handle_prove_identity_def handle_sign_transfer_def res_simps)
  then obtain v where v: "verify_capability C env b = Inr v"
    and h: "handle_configure_treasury C env b v = Inr (ConfigureTreasuryResp b' request_id)"
    using 1(7) no by auto
  obtain m where m: "verify_capability_extract C m (ae_opcode env) (ae_request_id env) (kb_config b) (kb_counters b) = Inr v"
    using v by (auto simp: verify_capability_Inr)
  obtain b1 params cp s payload' where r: "spends_capability env v b b'" "vc_treasury_sub_op v = Some s" "vc_scope_class v = 0"
      "parse_treasury_params payload' s = Inr (params, cp)" "apply_treasury_params params b = Inr b1"
      "kb_faucet b' = kb_faucet b1" "kb_strict_recovery_counter b' = kb_strict_recovery_counter b1"
      "kb_entries b' = kb_entries b"
    using handle_configure_treasury_spends [OF h assms(2) verified_scope_target [OF m] decode_envelope_request_id [OF 1(1)]]
    by auto
  have "treasury_change (s = 3) b b'"
    using apply_treasury_params_change [OF r(4,5)] unfolding treasury_change_def r(6,7) .
  then show ?case using 1(1) v r(1-3,8) configure_tier [OF m r(2)] by blast
qed

text \<open>A recovery capability that resets the lifetime breaker, and its request.\<close>

definition reset_cap :: capability where
  "reset_cap = \<lparr>cp_cap_format_version = 2, cp_command_opcode = 6, cp_treasury_sub_op = Some 3,
     cp_key_purpose = 2, cp_chain_id = 11565, cp_environment_identifier = ascii ''lab'', cp_scope_class = 0,
     cp_scope_target = [0x67], cp_counter = 1, cp_request_id = [1], cp_payload_binding = replicate 32 5,
     cp_is_recovery = True, cp_scope_identity = replicate 32 0xe1, cp_signature = replicate 64 1\<rparr>"

definition reset_cap_map :: "(cbor_value \<times> cbor_value) list" where
  "reset_cap_map = [(CInteger 1, CInteger 2), (CInteger 2, CInteger 6), (CInteger 3, CInteger 3), (CInteger 4, CInteger 2),
     (CInteger 5, CInteger 11565), (CInteger 6, CText (ascii ''lab'')), (CInteger 7, CInteger 0),
     (CInteger 8, CBytes [0x67]), (CInteger 9, CInteger 1), (CInteger 10, CBytes [1]),
     (CInteger 11, CBytes (replicate 32 5)), (CInteger 12, CBool True),
     (CInteger 13, CBytes (replicate 32 0xe1)), (CInteger 14, CBytes (replicate 64 1))]"

lemma reset_cap_parses: "parse_capability reset_cap_map = Inr reset_cap"
proof -
  have "check_strict_keys reset_cap_map (\<lambda>n. 1 \<le> n \<and> n \<le> 14)"
    by (simp add: check_strict_keys_iff reset_cap_map_def as_u64_def)
  moreover have "as_u8 (CInteger 6) = Some 6" "as_u8 (CInteger 3) = Some 3" "as_u8 (CInteger 2) = Some 2"
      "as_u8 (CInteger 0) = Some 0"
    by (simp_all add: as_u8_def u8_try_from_def as_u64_def)
  moreover have "is_valid_scope_target [0x67]"
    by (simp add: is_valid_scope_target_def MAX_SCOPE_TARGET_LEN_def)
  ultimately show ?thesis
    using sample_env
    by (simp add: parse_capability_def reset_cap_map_def reset_cap_def map_get_def as_u64_def guarded_def
        as_text_def as_bytes_def as_bytes32_def as_bytes_n_def as_bool_def PRIVILEGED_OPCODES_def
        OPCODE_CONFIGURE_TREASURY_def parse_treasury_sub_op_def MAX_TREASURY_SUB_OP_def MAX_CAP_REQUEST_ID_LEN_def)
qed

definition reset_verified :: verified_capability where
  "reset_verified = \<lparr>vc_authority = replicate 32 0xb2, vc_scope_class = 0, vc_scope_target = [0x67],
     vc_counter = 1, vc_payload_binding = replicate 32 5, vc_key_purpose = 2, vc_treasury_sub_op = Some 3\<rparr>"

lemma reset_cap_verified:
  "verify_capability_extract sample_crypto reset_cap_map 6 [1] (kb_config sample_body) (kb_counters sample_body)
     = Inr reset_verified"
proof -
  have "highest_counter sample_body (replicate 32 0xb2, 0, [0x67]) = 0"
    by (simp add: highest_counter_def sample_body_def counter_row_def)
  then show ?thesis
    unfolding verify_capability_extract_Inr
    using reset_cap_parses
    by (intro exI [of _ reset_cap])
      (simp add: reset_cap_def CAP_FORMAT_VERSION_def tier_ok_def cap_authority_def sample_body_simps sample_crypto_def
        sample_config_def reset_verified_def OPCODE_CONFIGURE_TREASURY_def TREASURY_SUB_OP_RESET_LIFETIME_BREAKER_def)
qed

definition reset_payload :: "(cbor_value \<times> cbor_value) list" where
  "reset_payload = [(CInteger 1, CInteger 3), (CInteger 2, CBytes [1])]"

definition reset_request :: "(cbor_value \<times> cbor_value) list" where
  "reset_request = [(CInteger 1, CInteger 1), (CInteger 2, CInteger 6), (CInteger 3, CText COMMAND_DOMAIN),
     (CInteger 4, CBytes [1]), (CInteger 5, CMap reset_cap_map), (CInteger 7, CMap reset_payload)]"

definition reset_envelope :: agent_envelope where
  "reset_envelope = \<lparr>ae_agent_version = 1, ae_opcode = 6, ae_command_domain = COMMAND_DOMAIN,
     ae_request_id = [1], ae_capability = Some reset_cap_map, ae_key_ref = None, ae_payload = Some reset_payload\<rparr>"

lemma reset_request_decodes: "decode_envelope (sample_request reset_request) = Inr reset_envelope"
proof -
  have "strict_decode_map (sample_request reset_request) = Some reset_request"
    unfolding sample_request_def strict_decode_map_iff
    by (simp add: reset_request_def reset_payload_def reset_cap_map_def MAX_CBOR_DEPTH_def put_uint_def Let_def
        COMMAND_DOMAIN_utf8 utf8_valid_ascii ascii_def)
  moreover have "check_strict_keys reset_request (\<lambda>n. 1 \<le> n \<and> n \<le> 7)"
    by (simp add: check_strict_keys_iff reset_request_def as_u64_def)
  ultimately show ?thesis
    by (simp add: decode_envelope_def reset_request_def reset_envelope_def req_def map_get_def as_u64_def as_u8_sample
        as_text_def as_bytes_def opt_field_def as_map_def guarded_def MAX_REQUEST_ID_LEN_def)
qed

lemma sample_reset_applies: "\<exists>params b1. (\<exists>cp. parse_treasury_params reset_payload 3 = Inr (params, cp))
    \<and> apply_treasury_params params sample_body = Inr b1"
proof -
  let ?one = "replicate 31 0 @ [1] :: bytes"
  have "u256_from_minimal_be [1] = Some ?one" by (simp add: u256_from_minimal_be_def)
  then have p: "\<exists>cp. parse_treasury_params reset_payload 3 = Inr (ResetBreaker ?one, cp)"
    by (simp add: parse_treasury_params_def reset_payload_def read_u256_def req_def map_get_def as_u64_def
        as_u256_minimal_be_def as_bytes_def)
  have "is_u256 ?one" "be_val ?one = 1" using \<open>u256_from_minimal_be [1] = Some ?one\<close> by (simp_all add: u256_from_minimal_be_Some)
  then have "\<not> ?one > fs_lifetime_spend (kb_faucet sample_body)"
    using sample_faucet_typed by (simp add: sample_body_def sample_faucet_def u256_less_iff faucet_typed_def)
  then have "\<exists>b1. apply_treasury_params (ResetBreaker ?one) sample_body = Inr b1"
    by (simp add: apply_treasury_params_def Let_def res_simps checked_add_u64_def) (simp add: sample_body_def)
  then show ?thesis using p by blast
qed

lemma sample_reset_commits:
  "\<exists>b'. dispatch_agent sample_crypto sample_features bound_process AgentGatewayProfile
      (sample_request reset_request) sample_body ds = (Inr (ConfigureTreasuryResp b' [1]), ds)"
proof -
  obtain params b1 cp where p: "parse_treasury_params reset_payload 3 = Inr (params, cp)"
    and b1: "apply_treasury_params params sample_body = Inr b1"
    using sample_reset_applies by blast
  obtain fs n where f1: "b1 = sample_body\<lparr>kb_faucet := fs, kb_strict_recovery_counter := n\<rparr>"
    using apply_treasury_params_frame [OF b1] by blast
  have v: "verify_capability sample_crypto reset_envelope sample_body = Inr reset_verified"
    using reset_cap_verified by (simp add: verify_capability_def reset_envelope_def)
  have bind: "payload_binding sample_crypto o' s r q = replicate 32 5" for o' s r q
    by (simp add: payload_binding_def sample_crypto_def)
  have sub: "map_get reset_payload 1 = Some (CInteger 3)" by (simp add: reset_payload_def map_get_def as_u64_def)
  obtain b2 where b2: "advance_counter (replicate 32 0xb2) 0 [0x67] 1 b1 = Inr b2"
    by (simp add: f1 sample_body_def advance_counter_def Let_def counter_row_def MAX_COUNTER_ENTRIES_def)
  have f2: "kb_audit b2 = kb_audit sample_body" "kb_freshness_epoch b2 = kb_freshness_epoch sample_body"
      "kb_structural_version b2 = kb_structural_version sample_body" "kb_config b2 = sample_config"
    by (subst advance_counter_frame [OF b2], simp add: f1 sample_body_simps)+
  obtain b3 where b3: "advance_treasury_config_version b2 = Inr b3" "kb_audit b3 = kb_audit sample_body"
      "kb_freshness_epoch b3 = kb_freshness_epoch sample_body"
      "kb_structural_version b3 = kb_structural_version sample_body"
    using f2 by (simp add: advance_treasury_config_version_Inr sample_config_def)
  obtain b4 where b4: "advance_commit_epoch True b3 = Inr b4" "kb_audit b4 = kb_audit sample_body"
    using b3 by (simp add: advance_commit_epoch_Inr) (simp add: sample_body_def)
  obtain b5 where b5: "record_audit (audit_provenance reset_envelope reset_verified b4) b4 = Inr b5"
    using b4(2) by (auto simp: record_audit_def sample_body_def Let_def checked_add_u64_def saturating_sub_u64_def)
  have "handle_configure_treasury sample_crypto reset_envelope sample_body reset_verified
      = Inr (ConfigureTreasuryResp b5 [1])"
    using p b1 b2 b3(1) b4(1) b5 sub
    by (simp add: handle_configure_treasury_def reset_envelope_def req_def as_u8_sample reset_verified_def bind)
  then have "dispatch_agent sample_crypto sample_features bound_process AgentGatewayProfile
      (sample_request reset_request) sample_body ds = (Inr (ConfigureTreasuryResp b5 [1]), ds)"
    using v
    by (simp add: dispatch_agent_def reset_request_decodes opcode_from_u8_def reset_envelope_def AGENT_GATEWAY_VERSION_def
        is_privileged_def sample_features_def anti_rollback_satisfied_def)
  then show ?thesis by blast
qed

section \<open>Properties\<close>

lemma sample_draws_typed: "\<forall>d. Some d \<in> set sample_draws \<longrightarrow> length d = 32"
  by (auto simp: sample_draws_def)

lemma sample_k1: "k1_public_uncompressed sample_crypto"
  by (simp add: k1_public_uncompressed_def sample_crypto_def)

text \<open>C16: A privileged request that succeeds has spent its capability. The anti-rollback mechanism was
  configured, the capability in the envelope verified against the live body, and in the candidate that is to be
  sealed the invariant holds, the capability's counter is the high-water of its authority and scope, both
  versions have advanced by exactly one, the provenance is on the audit ring, the treasury key is still a
  singleton, and the same capability is refused from then on under any opcode and request id.\<close>

theorem privileged_requests_spend_capabilities:
  assumes "dispatch_agent C ft w profile payload b ds = (Inr resp, ds')" "decode_envelope payload = Inr env"
    and "opcode_from_u8 (ae_opcode env) = Some op" "is_privileged op"
    and "body_ok b" "k1_public_uncompressed C" "\<forall>d. Some d \<in> set ds \<longrightarrow> length d = 32"
  shows "is_anti_rollback_configured w \<and> (\<exists>m v b'. ae_capability env = Some m
    \<and> verify_capability_extract C m (ae_opcode env) (ae_request_id env) (kb_config b) (kb_counters b) = Inr v
    \<and> candidate_of resp = Some (b', ae_request_id env) \<and> spends_capability env v b b'
    \<and> (treasury_singleton b \<longrightarrow> treasury_singleton b')
    \<and> (\<forall>opcode' request_id'. \<exists>e.
        verify_capability_extract C m opcode' request_id' (kb_config b') (kb_counters b') = Inl e))"
  using dispatch_privileged [OF assms] spent_capability_refused by blast

lemma privileged_requests_spend_capabilities_witness:
  "\<exists>keys b' ds'. dispatch_agent sample_crypto sample_features bound_process AgentGatewayProfile
      (sample_request keygen_request) sample_body sample_draws = (Inr (GenerateKeysResp keys b' [1]), ds')
    \<and> kb_structural_version b' = 4 \<and> (\<exists>e. verify_capability_extract sample_crypto sample_cap_map 1 [1] (kb_config b') (kb_counters b') = Inl e)"
proof -
  obtain keys b' ds' where d: "dispatch_agent sample_crypto sample_features bound_process AgentGatewayProfile
      (sample_request keygen_request) sample_body sample_draws = (Inr (GenerateKeysResp keys b' [1]), ds')"
    using sample_keygen_commits by blast
  have op: "opcode_from_u8 (ae_opcode keygen_envelope) = Some GenerateKeys" "is_privileged GenerateKeys"
    "ae_capability keygen_envelope = Some sample_cap_map"
    by (simp_all add: keygen_envelope_def opcode_from_u8_def is_privileged_def)
  obtain v where v: "spends_capability keygen_envelope v sample_body b'"
      "\<exists>e. verify_capability_extract sample_crypto sample_cap_map 1 [1] (kb_config b') (kb_counters b') = Inl e"
    using privileged_requests_spend_capabilities [OF d keygen_request_decodes op(1,2) sample_body_ok sample_k1
        sample_draws_typed] op(3) by auto
  have "unat (kb_structural_version b') = 4" using v(1) by (simp add: spends_capability_def sample_body_def)
  then have "kb_structural_version b' = 4" by (simp add: word_unat_eq_iff)
  then show ?thesis using d v(2) by blast
qed

text \<open>C2: A faucet dispense is confined. It needs a configured anti-rollback binding; the signed transfer is on
  the sealed chain, signed by the treasury key the request names, to the address of a stored transfer key; the
  candidate's cumulative spend has grown by exactly the worst-case cost of that very transfer and is within the
  sealed budget, a lifetime breaker holds, nothing but the marks and the epoch differs from the live body, and the
  difference is one the boot path can adopt.\<close>

theorem faucet_dispense_confined:
  assumes "dispatch_agent C ft w profile payload b ds = (Inr (SignFaucetDispenseResp st b' request_id), ds')"
    and "body_ok b" "faucet_typed (kb_faucet b)"
  shows "\<exists>env. decode_envelope payload = Inr env \<and> opcode_from_u8 (ae_opcode env) = Some SignFaucetDispense
    \<and> is_anti_rollback_configured w \<and> ds' = ds \<and> request_id = ae_request_id env \<and> dispensed C env b st b'"
  by (rule dispatch_faucet [OF assms])

lemma faucet_dispense_confined_witness:
  "\<exists>st b'. dispatch_agent sample_crypto sample_features bound_process AgentGatewayProfile
      (sample_request (transfer_request 5 1)) treasury_body [] = (Inr (SignFaucetDispenseResp st b' [1]), [])
    \<and> adopted treasury_body b' \<and> faucet_typed (kb_faucet b')"
proof -
  obtain st b' where d: "dispatch_agent sample_crypto sample_features bound_process AgentGatewayProfile
      (sample_request (transfer_request 5 1)) treasury_body [] = (Inr (SignFaucetDispenseResp st b' [1]), [])"
    using sample_dispense_dispatch by blast
  show ?thesis using faucet_dispense_confined [OF d treasury_body_ok] d by (auto simp: dispensed_def)
qed

text \<open>The treasury tiers are separate. A configuration request that succeeds was authorised by a verified,
  enclave-scoped capability of the authority its sub-operation belongs to. The administrator can neither change the
  lifetime spend nor put a breaker below it, and restarts the spend window only together with a non-zero
  budget; only the recovery authority lowers the lifetime spend, and each time it does the strict recovery
  counter goes up by one. The keys are not touched.\<close>

theorem treasury_tiers_separate:
  assumes "dispatch_agent C ft w profile payload b ds = (Inr (ConfigureTreasuryResp b' request_id), ds')" "body_ok b"
  shows "\<exists>env v s. decode_envelope payload = Inr env \<and> verify_capability C env b = Inr v
    \<and> spends_capability env v b b' \<and> vc_treasury_sub_op v = Some s \<and> vc_scope_class v = 0
    \<and> vc_authority v = (if s = 3 then kc_recovery_authority_pk (kb_config b) else kc_admin_authority_pk (kb_config b))
    \<and> kb_entries b' = kb_entries b \<and> treasury_change (s = 3) b b'"
  by (rule dispatch_treasury [OF assms])

lemma treasury_tiers_separate_witness:
  "\<exists>b'. dispatch_agent sample_crypto sample_features bound_process AgentGatewayProfile
      (sample_request reset_request) sample_body [] = (Inr (ConfigureTreasuryResp b' [1]), [])
    \<and> treasury_change True sample_body b'"
proof -
  obtain b' where d: "dispatch_agent sample_crypto sample_features bound_process AgentGatewayProfile
      (sample_request reset_request) sample_body [] = (Inr (ConfigureTreasuryResp b' [1]), [])"
    using sample_reset_commits by blast
  have v: "verify_capability sample_crypto reset_envelope sample_body = Inr reset_verified"
    using reset_cap_verified by (simp add: verify_capability_def reset_envelope_def)
  show ?thesis
    using treasury_tiers_separate [OF d sample_body_ok] d v reset_request_decodes
    by (auto simp: reset_verified_def)
qed

text \<open>The commit class of the opcode decides what a request may change. A response without a candidate comes
  exactly from the opcodes that are not committed and has consumed no randomness; every other response carries a candidate that
  satisfies the invariant, keeps the provisioned configuration, has its freshness epoch advanced by one, and its
  structural version advanced by one exactly when the class is structural, and it only exists when anti-rollback is configured.\<close>

theorem commit_class_decides:
  assumes "dispatch_agent C ft w profile payload b ds = (Inr resp, ds')" "decode_envelope payload = Inr env"
    and "opcode_from_u8 (ae_opcode env) = Some op" "body_ok b" "k1_public_uncompressed C"
    and "\<forall>d. Some d \<in> set ds \<longrightarrow> length d = 32"
  shows "(case candidate_of resp of None \<Rightarrow> commit_bump_class op = NotCommitted \<and> ds' = ds
    | Some (b', request_id) \<Rightarrow> is_anti_rollback_configured w \<and> request_id = ae_request_id env
        \<and> committed_as (commit_bump_class op) b b')"
  by (rule dispatch_candidate [OF assms])

lemma commit_class_decides_witness:
  "\<exists>st b'. dispatch_agent sample_crypto sample_features bound_process AgentGatewayProfile
      (sample_request (transfer_request 5 1)) treasury_body sample_draws = (Inr (SignFaucetDispenseResp st b' [1]), sample_draws)
    \<and> committed_as EpochOnly treasury_body b'"
proof -
  obtain st b' where d: "dispatch_agent sample_crypto sample_features bound_process AgentGatewayProfile
      (sample_request (transfer_request 5 1)) treasury_body sample_draws
      = (Inr (SignFaucetDispenseResp st b' [1]), sample_draws)"
    using sample_dispense_dispatch by blast
  have e: "decode_envelope (sample_request (transfer_request 5 1)) = Inr (transfer_envelope 5 1)"
    by (simp add: transfer_request_decodes)
  have o: "opcode_from_u8 (ae_opcode (transfer_envelope 5 1)) = Some SignFaucetDispense"
    by (simp add: transfer_envelope_def opcode_from_u8_def)
  show ?thesis
    using commit_class_decides [OF d e o treasury_body_ok(1) sample_k1 sample_draws_typed] d by auto
qed

text \<open>C18: An ordinary transfer is signed only by a transfer key of the keystore and only for a well-formed transfer on
  the sealed chain; what is signed is the keccak hash of that transfer's EIP-155 preimage, never bytes the caller chose, and
  neither the body nor the randomness changes.\<close>

theorem transfer_signing_confined:
  assumes "dispatch_agent C ft w profile payload b ds = (Inr (SignTransferResp st), ds')"
  shows "ds' = ds \<and> (\<exists>env key_ref f. decode_envelope payload = Inr env \<and> ae_capability env = None
    \<and> ae_key_ref env = Some key_ref \<and> signed_by C b AgentTransferK1 key_ref f st)"
proof (rule dispatch_agent_Inr [OF assms], goal_cases)
  case (1 env op)
  have no: "handle_generate_keys C env b v ds \<noteq> (Inr (SignTransferResp st), ds')"
    "handle_configure_treasury C env b v \<noteq> Inr (SignTransferResp st)"
    "handle_sign_faucet_dispense C env b \<noteq> Inr (SignTransferResp st)" for v
    by (auto elim: handle_generate_keys_Inr handle_configure_treasury_Inr handle_sign_faucet_dispense_Inr)
  have "handle_public_identity C env b \<noteq> Inr (SignTransferResp st)"
    "handle_prove_identity C env b \<noteq> Inr (SignTransferResp st)"
    by (auto simp: handle_public_identity_def handle_prove_identity_def res_simps)
  then have "handle_sign_transfer C env b = Inr (SignTransferResp st)" "ae_capability env = None" "ds' = ds"
    using 1(7) no by auto
  then show ?case using 1(1) handle_sign_transfer_Inr by fastforce
qed

lemma transfer_signing_confined_witness:
  "\<exists>st f. dispatch_agent sample_crypto sample_features bound_process AgentGatewayProfile
      (sample_request (transfer_request 4 2)) treasury_body [] = (Inr (SignTransferResp st), [])
    \<and> signed_by sample_crypto treasury_body AgentTransferK1 (replicate 32 2) f st"
proof -
  obtain st where d: "dispatch_agent sample_crypto sample_features bound_process AgentGatewayProfile
      (sample_request (transfer_request 4 2)) treasury_body [] = (Inr (SignTransferResp st), [])"
    using sample_transfer_dispatch by blast
  show ?thesis
    using transfer_signing_confined [OF d] d by (auto simp: transfer_request_decodes transfer_envelope_def)
qed

end
