(* ===== verification/Frame.thy ===== *)
theory Frame
  imports Dispatch Seal
begin

text \<open>
  Model of the frame layer of \<open>agent_dispatch.rs\<close> and of the commit round trip of
  \<open>agent_boot_relay.rs\<close>: the installed keystore and the installed commit channel, the seal-before-emit
  seam, the frame handler and its response encoders. The process globals are the record \<open>gateway\<close>; the
  handler is serial under the keystore lock, so a frame is one state transition.

  Parameters: the serialiser of the sealed body (\<open>serde\<close>), \<open>enc\<close>, the CBOR writer of the response
  bodies (\<open>ciborium::ser::into_writer\<close>), and \<open>rt\<close>, the round trip of the commit channel, which may
  change the channel's state and fail. The clock is not modelled: a lapsed deadline is one of the
  ways in which \<open>rt\<close> fails. Each random draw of \<open>draws\<close> supplies 32 bytes and the 24-byte nonce of the
  seal is a prefix of one.

  The lemmas show that a frame either leaves the keystore as it was or installs exactly the body that was
  sealed and that the anchor acknowledged, in that order, and what follows for a whole run.
\<close>

section \<open>State\<close>

record 'c gateway =
  gw_keystore :: "(keystore_body \<times> bytes) option"
  gw_root :: "bytes option"
  gw_channel :: "'c option"
  gw_process :: process
  gw_draws :: draws

type_synonym 'c round_trip = "'c \<Rightarrow> bytes \<Rightarrow> (string + bytes) \<times> 'c"

definition install_agent_keystore :: "keystore_body \<Rightarrow> bytes \<Rightarrow> 'c gateway \<Rightarrow> bool \<times> 'c gateway" where
  "install_agent_keystore body enclave_measurement s =
     (if enclave_measurement = [] then (False, s)
      else if gw_keystore s = None then (True, s\<lparr>gw_keystore := Some (body, enclave_measurement)\<rparr>)
      else (False, s))"

definition is_agent_keystore_installed :: "'c gateway \<Rightarrow> bool" where
  "is_agent_keystore_installed s = (gw_keystore s \<noteq> None)"

definition install_commit_channel :: "'c \<Rightarrow> 'c gateway \<Rightarrow> bool \<times> 'c gateway" where
  "install_commit_channel channel s =
     (if gw_channel s = None then (True, s\<lparr>gw_channel := Some channel\<rparr>) else (False, s))"

text \<open>The platform root, or none: the build without the reference root.\<close>

definition resolve_provisioning_root :: "'c gateway \<Rightarrow> protocol_error + bytes" where
  "resolve_provisioning_root s =
     ok_or (PqSigningUnavailable ''PQ seal v1 provisioning root not configured'') (gw_root s)"

section \<open>The anchor commit\<close>

definition COMMIT_REQUEST_VERSION :: u64 where "COMMIT_REQUEST_VERSION = 1"

record anchor_commit_request =
  cr_chain_id :: u64
  cr_environment_identifier :: bytes
  cr_new_epoch :: u64
  cr_new_structural_version :: u64
  cr_marks_digest :: bytes
  cr_nonce :: bytes
  cr_request_id :: bytes

definition anchor_commit_request_payload :: "anchor_commit_request \<Rightarrow> bytes" where
  "anchor_commit_request_payload r =
     put_uint 5 8
     @ put_uint 0 1 @ put_uint 0 COMMIT_REQUEST_VERSION
     @ put_uint 0 2 @ put_uint 0 (cr_chain_id r)
     @ put_uint 0 3 @ put_text (cr_environment_identifier r)
     @ put_uint 0 4 @ put_uint 0 (cr_new_epoch r)
     @ put_uint 0 5 @ put_uint 0 (cr_new_structural_version r)
     @ put_uint 0 6 @ put_bytes (cr_marks_digest r)
     @ put_uint 0 7 @ put_bytes (cr_nonce r)
     @ put_uint 0 8 @ put_bytes (cr_request_id r)"

definition encode_anchor_commit_request :: "anchor_commit_request \<Rightarrow> protocol_error + bytes" where
  "encode_anchor_commit_request r =
     (if length (cr_request_id r) > MAX_REQUEST_ID_LEN
      then Inl (WireProtocol ''commit request: request_id exceeds MAX_REQUEST_ID_LEN'')
      else encode_message AgentAnchorCommitRelay (anchor_commit_request_payload r))"

datatype commit_failure = Encode | Transport string | Ack commit_ack_error

record anchor_commit =
  ac_new_epoch :: u64
  ac_new_structural_version :: u64
  ac_marks_digest :: bytes
  ac_nonce :: bytes
  ac_request_id :: bytes

definition request_of :: "anchor_commit \<Rightarrow> keystore_config \<Rightarrow> anchor_commit_request" where
  "request_of commit config = \<lparr>cr_chain_id = kc_twod_chain_id config,
     cr_environment_identifier = kc_environment_identifier config, cr_new_epoch = ac_new_epoch commit,
     cr_new_structural_version = ac_new_structural_version commit, cr_marks_digest = ac_marks_digest commit,
     cr_nonce = ac_nonce commit, cr_request_id = ac_request_id commit\<rparr>"

definition expected_of :: "anchor_commit \<Rightarrow> expected_commit_ack" where
  "expected_of commit = \<lparr>ea_nonce = ac_nonce commit, ea_epoch = ac_new_epoch commit,
     ea_structural_version = ac_new_structural_version commit, ea_marks_digest = ac_marks_digest commit,
     ea_request_id = ac_request_id commit\<rparr>"

definition run_anchor_commit :: "crypto \<Rightarrow> 'c round_trip \<Rightarrow> 'c \<Rightarrow> anchor_commit \<Rightarrow> keystore_config
    \<Rightarrow> (commit_failure + unit) \<times> 'c" where
  "run_anchor_commit C rt channel commit config =
     (case encode_anchor_commit_request (request_of commit config) of
        Inl _ \<Rightarrow> (Inl commit_failure.Encode, channel)
      | Inr frame \<Rightarrow>
          (case rt channel frame of
             (Inl e, channel) \<Rightarrow> (Inl (Transport e), channel)
           | (Inr ack, channel) \<Rightarrow>
               (map_err Ack (verify_commit_ack_bytes C ack (expected_of commit) config), channel)))"

definition draw_commit_nonce :: "draws \<Rightarrow> (agent_error + bytes) \<times> draws" where
  "draw_commit_nonce ds = (case getrandom ds of (d, ds) \<Rightarrow> (ok_or SealFailed d, ds))"

definition commit_of :: "crypto \<Rightarrow> keystore_body \<Rightarrow> bytes \<Rightarrow> bytes \<Rightarrow> anchor_commit" where
  "commit_of C candidate nonce request_id = \<lparr>ac_new_epoch = kb_freshness_epoch candidate,
     ac_new_structural_version = kb_structural_version candidate,
     ac_marks_digest = compute_local_marks_digest C candidate, ac_nonce = nonce, ac_request_id = request_id\<rparr>"

definition commit_candidate_to_anchor :: "crypto \<Rightarrow> 'c round_trip \<Rightarrow> keystore_body \<Rightarrow> bytes \<Rightarrow> 'c gateway
    \<Rightarrow> (agent_error + unit) \<times> 'c gateway" where
  "commit_candidate_to_anchor C rt candidate request_id s =
     (case draw_commit_nonce (gw_draws s) of
        (Inl e, ds) \<Rightarrow> (Inl e, s\<lparr>gw_draws := ds\<rparr>)
      | (Inr nonce, ds) \<Rightarrow>
          (let s = s\<lparr>gw_draws := ds\<rparr> in
           case gw_channel s of
             None \<Rightarrow> (Inl SealFailed, s)
           | Some channel \<Rightarrow>
               (case run_anchor_commit C rt channel (commit_of C candidate nonce request_id) (kb_config candidate) of
                  (r, channel) \<Rightarrow> (map_err (\<lambda>_. SealFailed) r, s\<lparr>gw_channel := Some channel\<rparr>))))"

section \<open>Response bodies\<close>

definition reason :: "agent_error \<Rightarrow> bytes" where
  "reason e = (case e of
       agent_error.Malformed \<Rightarrow> ascii ''agent: malformed request''
     | WrongProfile \<Rightarrow> ascii ''agent: wrong profile''
     | KeyPurposeMismatch \<Rightarrow> ascii ''agent: key purpose mismatch''
     | CapabilityRejected \<Rightarrow> ascii ''agent: capability rejected''
     | CapExceeded \<Rightarrow> ascii ''agent: cap exceeded''
     | NotConfigured \<Rightarrow> ascii ''agent: not configured''
     | SealFailed \<Rightarrow> ascii ''agent: seal failed'')"

type_synonym writer = "cbor_value \<Rightarrow> bytes"

definition encode_body :: "writer \<Rightarrow> (cbor_value \<times> cbor_value) list \<Rightarrow> bytes" where
  "encode_body enc m = enc (CMap m)"

definition encode_agent_error :: "writer \<Rightarrow> agent_error \<Rightarrow> bytes" where
  "encode_agent_error enc e = encode_body enc
     [(CInteger 1, CInteger (uint (code e))), (CInteger 2, CText (reason e))]"

fun key_purpose_code :: "key_purpose \<Rightarrow> int" where
  "key_purpose_code AgentTransferK1 = 1"
| "key_purpose_code AgentFaucetTreasuryK1 = 2"

definition signed_transfer_pairs :: "signed_transfer \<Rightarrow> (cbor_value \<times> cbor_value) list" where
  "signed_transfer_pairs t =
     [(CInteger 1, CBytes (st_signed_rlp t)), (CInteger 2, CBytes (rs_r (st_signature t))),
      (CInteger 3, CBytes (rs_s (st_signature t))),
      (CInteger 4, CInteger (uint (rs_recovery_id (st_signature t)))), (CInteger 5, CInteger (uint (st_v t))),
      (CInteger 6, CBytes (st_signing_hash t)), (CInteger 7, CBytes (st_from t))]"

fun encode_agent_response :: "writer \<Rightarrow> agent_response \<Rightarrow> bytes" where
  "encode_agent_response enc (PublicIdentityResp i) = encode_body enc
     [(CInteger 1, CBytes (pi_pubkey_uncompressed i)), (CInteger 2, CBytes (pi_eth_address i)),
      (CInteger 3, CText (pi_tron_address i)), (CInteger 4, CBytes (pi_key_ref i)),
      (CInteger 5, CInteger (key_purpose_code (pi_key_purpose i))),
      (CInteger 6, CInteger (uint (pi_agent_version i)))]"
| "encode_agent_response enc (ProveIdentityResp p) = encode_body enc
     [(CInteger 1, CBytes (rs_r (ip_signature p))), (CInteger 2, CBytes (rs_s (ip_signature p))),
      (CInteger 3, CInteger (uint (rs_recovery_id (ip_signature p)))), (CInteger 4, CBytes (ip_address p)),
      (CInteger 5, CBytes (ip_pubkey_uncompressed p))]"
| "encode_agent_response enc (SignTransferResp t) = encode_body enc (signed_transfer_pairs t)"
| "encode_agent_response enc (GetRestorePubkeyResp encaps_key measurement attestation_report cert_chain) =
     encode_body enc [(CInteger 1, CBytes encaps_key), (CInteger 2, CBytes measurement),
       (CInteger 3, CBytes attestation_report), (CInteger 4, CBytes cert_chain)]"
| "encode_agent_response enc (GenerateKeysResp _ _ _) = encode_agent_error enc SealFailed"
| "encode_agent_response enc (SignFaucetDispenseResp _ _ _) = encode_agent_error enc SealFailed"
| "encode_agent_response enc (ConfigureTreasuryResp _ _) = encode_agent_error enc SealFailed"
| "encode_agent_response enc (ExportBackupResp _ _ _) = encode_agent_error enc SealFailed"
| "encode_agent_response enc (RestoreBackupResp _ _) = encode_agent_error enc SealFailed"

definition encode_generate_keys_response :: "writer \<Rightarrow> generated_key list \<Rightarrow> bytes \<Rightarrow> bytes" where
  "encode_generate_keys_response enc keys sealed_blob = encode_body enc
     [(CInteger 1, CArray (map (\<lambda>k. CMap [(CInteger 1, CBytes (gk_key_ref k)),
          (CInteger 2, CBytes (gk_pubkey_uncompressed k)), (CInteger 3, CBytes (gk_eth_address k)),
          (CInteger 4, CText (gk_tron_address k)), (CInteger 5, CInteger (key_purpose_code (gk_key_purpose k)))]) keys)),
      (CInteger 2, CBytes sealed_blob)]"

definition encode_sign_faucet_dispense_response :: "writer \<Rightarrow> signed_transfer \<Rightarrow> bytes \<Rightarrow> bytes" where
  "encode_sign_faucet_dispense_response enc t sealed_blob =
     encode_body enc (signed_transfer_pairs t @ [(CInteger 8, CBytes sealed_blob)])"

definition encode_configure_treasury_response :: "writer \<Rightarrow> bytes \<Rightarrow> bytes" where
  "encode_configure_treasury_response enc sealed_blob = encode_body enc [(CInteger 1, CBytes sealed_blob)]"

definition encode_export_backup_response :: "writer \<Rightarrow> bytes \<Rightarrow> bytes \<Rightarrow> bytes" where
  "encode_export_backup_response enc backup_blob sealed_blob =
     encode_body enc [(CInteger 1, CBytes backup_blob), (CInteger 2, CBytes sealed_blob)]"

section \<open>Seal before emit\<close>

text \<open>\<open>seal_body\<close> draws its nonce only when it gets that far, which is when a failing generator would make it
  fail with \<open>Csprng\<close>.\<close>

definition seal_body_rng :: "crypto \<Rightarrow> serde \<Rightarrow> keystore_body \<Rightarrow> bytes \<Rightarrow> bytes \<Rightarrow> draws
    \<Rightarrow> (keystore_error + bytes) \<times> draws" where
  "seal_body_rng C S b root measurement ds =
     (if seal_body C S b root measurement None = Inl keystore_error.Csprng
      then (case getrandom ds of (d, ds) \<Rightarrow> (seal_body C S b root measurement (map_option (take NONCE_LEN) d), ds))
      else (seal_body C S b root measurement None, ds))"

definition commit_before_emit :: "crypto \<Rightarrow> serde \<Rightarrow> writer \<Rightarrow> 'c round_trip \<Rightarrow> keystore_body \<Rightarrow> bytes \<Rightarrow> bytes
    \<Rightarrow> (bytes \<Rightarrow> bytes) \<Rightarrow> 'c gateway \<Rightarrow> bytes \<times> 'c gateway" where
  "commit_before_emit C S enc rt candidate request_id measurement encode_response s =
     (case resolve_provisioning_root s of
        Inl _ \<Rightarrow> (encode_agent_error enc SealFailed, s)
      | Inr root \<Rightarrow>
          (case seal_body_rng C S candidate root measurement (gw_draws s) of
             (Inl _, ds) \<Rightarrow> (encode_agent_error enc SealFailed, s\<lparr>gw_draws := ds\<rparr>)
           | (Inr sealed, ds) \<Rightarrow>
               (case commit_candidate_to_anchor C rt candidate request_id (s\<lparr>gw_draws := ds\<rparr>) of
                  (Inl e, s) \<Rightarrow> (encode_agent_error enc e, s)
                | (Inr _, s) \<Rightarrow>
                    (encode_response sealed, s\<lparr>gw_keystore := Some (candidate, measurement)\<rparr>))))"

definition handle_agent_gateway_frame :: "crypto \<Rightarrow> serde \<Rightarrow> features \<Rightarrow> writer \<Rightarrow> 'c round_trip \<Rightarrow> bytes
    \<Rightarrow> 'c gateway \<Rightarrow> bytes \<times> 'c gateway" where
  "handle_agent_gateway_frame C S ft enc rt payload s =
     (case gw_keystore s of
        None \<Rightarrow> (encode_agent_error enc WrongProfile, s)
      | Some (body, measurement) \<Rightarrow>
          (case dispatch_agent C ft (gw_process s) AgentGatewayProfile payload body (gw_draws s) of
             (outcome, ds) \<Rightarrow>
               (let s = s\<lparr>gw_draws := ds\<rparr> in
                case outcome of
                  Inr (GenerateKeysResp keys candidate request_id) \<Rightarrow>
                    commit_before_emit C S enc rt candidate request_id measurement
                      (encode_generate_keys_response enc keys) s
                | Inr (SignFaucetDispenseResp t candidate request_id) \<Rightarrow>
                    commit_before_emit C S enc rt candidate request_id measurement
                      (encode_sign_faucet_dispense_response enc t) s
                | Inr (ConfigureTreasuryResp candidate request_id) \<Rightarrow>
                    commit_before_emit C S enc rt candidate request_id measurement
                      (encode_configure_treasury_response enc) s
                | Inr (ExportBackupResp candidate backup_blob request_id) \<Rightarrow>
                    commit_before_emit C S enc rt candidate request_id measurement
                      (encode_export_backup_response enc backup_blob) s
                | Inr (RestoreBackupResp candidate request_id) \<Rightarrow> (encode_agent_error enc NotConfigured, s)
                | Inr resp \<Rightarrow> (encode_agent_response enc resp, s)
                | Inl e \<Rightarrow> (encode_agent_error enc e, s))))"

section \<open>Randomness only gets used up\<close>

lemma getrandom_subset: "set (snd (getrandom ds)) \<subseteq> set ds"
  by (auto simp: getrandom_def split: list.splits)

lemma getrandom_in: "getrandom ds = (Some d, ds') \<Longrightarrow> Some d \<in> set ds \<and> set ds' \<subseteq> set ds"
  by (auto simp: getrandom_def split: list.splits)

lemma draw_key_ref_subset: "set (snd (draw_key_ref n seen ds)) \<subseteq> set ds"
proof (induction n seen ds rule: draw_key_ref.induct)
  case (2 n seen ds)
  obtain d ds1 where g: "getrandom ds = (d, ds1)" by (cases "getrandom ds")
  then have "set ds1 \<subseteq> set ds" using getrandom_subset [of ds] by simp
  then show ?case
  proof (cases d)
    case (Some r)
    have "r \<in> seen \<Longrightarrow> set (snd (draw_key_ref n seen ds1)) \<subseteq> set ds1"
      using 2 g Some by simp
    then show ?thesis using \<open>set ds1 \<subseteq> set ds\<close> g Some by auto
  qed (simp add: g)
qed simp

lemma generate_loop_subset: "set (snd (generate_loop C n ds)) \<subseteq> set ds"
proof (induction C n ds rule: generate_loop.induct)
  case (2 C n ds)
  show ?case
  proof (cases ds)
    case (Cons d ds1)
    then show ?thesis using 2 by (cases d) auto
  qed simp
qed simp

lemma stage_keys_subset: "set (snd (stage_keys C p creation n seen ds)) \<subseteq> set ds"
proof (induction n arbitrary: seen ds)
  case (Suc n)
  obtain r ds1 where r: "draw_key_ref RNG_RETRIES seen ds = (r, ds1)" by (cases "draw_key_ref RNG_RETRIES seen ds")
  obtain k ds2 where k: "generate_with_secret C ds1 = (k, ds2)" by (cases "generate_with_secret C ds1")
  have sub: "set ds1 \<subseteq> set ds" "set ds2 \<subseteq> set ds1"
    using draw_key_ref_subset [of RNG_RETRIES seen ds] generate_loop_subset [of C 64 ds1] r k
    by (simp_all add: generate_with_secret_def)
  then have sub2: "set ds2 \<subseteq> set ds" by (rule order_trans [rotated])
  show ?case
  proof (cases r)
    case None
    then show ?thesis using r sub by simp
  next
    case (Some kr)
    have IH: "set (snd (stage_keys C p creation n (insert kr seen) ds2)) \<subseteq> set ds"
      using Suc.IH [of "insert kr seen" ds2] sub by (meson order_trans)
    show ?thesis
      using r k sub(1) sub2 Some IH by (auto simp: Let_def split: sum.splits prod.splits)
  qed
qed simp

lemma generate_keys_subset: "set (snd (generate_keys C p count creation ds b)) \<subseteq> set ds"
  using stage_keys_subset [of C p creation count "set (map ke_key_ref (kb_entries b))" ds]
  by (auto simp: generate_keys_def split: sum.splits prod.splits)

lemma handle_generate_keys_subset: "set (snd (handle_generate_keys C env b v ds)) \<subseteq> set ds"
proof -
  have "set ds1 \<subseteq> set ds" if "generate_keys C p n creation ds b = (r, ds1)" for p n creation r ds1
    using generate_keys_subset [of C p n creation ds b] that by simp
  then show ?thesis
    unfolding handle_generate_keys_def Let_def by (auto split: sum.splits prod.splits)
qed

lemma dispatch_agent_subset: "set (snd (dispatch_agent C ft w profile payload b ds)) \<subseteq> set ds"
  using handle_generate_keys_subset
  by (auto simp: dispatch_agent_def split: sum.splits option.splits)

section \<open>What a frame does\<close>

fun success_body :: "writer \<Rightarrow> agent_response \<Rightarrow> bytes \<Rightarrow> bytes" where
  "success_body enc (GenerateKeysResp keys _ _) sealed = encode_generate_keys_response enc keys sealed"
| "success_body enc (SignFaucetDispenseResp t _ _) sealed = encode_sign_faucet_dispense_response enc t sealed"
| "success_body enc (ConfigureTreasuryResp _ _) sealed = encode_configure_treasury_response enc sealed"
| "success_body enc (ExportBackupResp _ backup _) sealed = encode_export_backup_response enc backup sealed"
| "success_body enc resp sealed = encode_agent_response enc resp"

text \<open>The anchor acknowledged exactly this candidate for this request: the commit request was sent over the
  channel with a nonce drawn for it, and the answer verified against the same values.\<close>

definition anchor_committed :: "crypto \<Rightarrow> 'c round_trip \<Rightarrow> keystore_body \<Rightarrow> bytes \<Rightarrow> 'c gateway \<Rightarrow> 'c gateway \<Rightarrow> bool" where
  "anchor_committed C rt b' request_id s s' \<longleftrightarrow>
     (\<exists>nonce ch ch' frame ack. Some nonce \<in> set (gw_draws s) \<and> gw_channel s = Some ch
        \<and> encode_anchor_commit_request (request_of (commit_of C b' nonce request_id) (kb_config b')) = Inr frame
        \<and> rt ch frame = (Inr ack, ch') \<and> gw_channel s' = Some ch'
        \<and> verify_commit_ack_bytes C ack (expected_of (commit_of C b' nonce request_id)) (kb_config b') = Inr ())"

lemma run_anchor_commit_Inr: "run_anchor_commit C rt ch commit config = (Inr (), ch') \<longleftrightarrow>
    (\<exists>frame ack. encode_anchor_commit_request (request_of commit config) = Inr frame \<and> rt ch frame = (Inr ack, ch')
       \<and> verify_commit_ack_bytes C ack (expected_of commit) config = Inr ())"
  by (auto simp: run_anchor_commit_def res_simps split: sum.splits prod.splits)

text \<open>The parts of the state only a commit touches.\<close>

definition same_store :: "'c gateway \<Rightarrow> 'c gateway \<Rightarrow> bool" where
  "same_store s s' \<longleftrightarrow> gw_root s' = gw_root s \<and> gw_process s' = gw_process s \<and> set (gw_draws s') \<subseteq> set (gw_draws s)
     \<and> (gw_channel s' = None \<longleftrightarrow> gw_channel s = None)"

lemma commit_candidate_frame:
  assumes "commit_candidate_to_anchor C rt b' request_id s = (r, s')"
  shows "same_store s s' \<and> gw_keystore s' = gw_keystore s"
proof -
  obtain d ds where d: "getrandom (gw_draws s) = (d, ds)" by (cases "getrandom (gw_draws s)")
  have "set ds \<subseteq> set (gw_draws s)" using d getrandom_subset [of "gw_draws s"] by simp
  then show ?thesis
    using assms d by (cases d) (auto simp: commit_candidate_to_anchor_def draw_commit_nonce_def same_store_def Let_def
        split: option.splits prod.splits)
qed

lemma commit_candidate_Inr:
  assumes "commit_candidate_to_anchor C rt b' request_id s = (Inr (), s')"
  shows "anchor_committed C rt b' request_id s s'"
proof -
  obtain d ds where d: "getrandom (gw_draws s) = (Some d, ds)"
    using assms by (cases "getrandom (gw_draws s)"; cases "fst (getrandom (gw_draws s))")
      (auto simp: commit_candidate_to_anchor_def draw_commit_nonce_def)
  then show ?thesis
    using assms getrandom_in [OF d]
    by (auto simp: commit_candidate_to_anchor_def draw_commit_nonce_def Let_def anchor_committed_def res_simps
        run_anchor_commit_Inr split: option.splits prod.splits)
qed

lemma seal_body_rng_Inr:
  assumes "seal_body_rng C S b root measurement ds = (Inr sealed, ds')"
  shows "\<exists>n. Some n \<in> set ds \<and> seal_body C S b root measurement (Some (take NONCE_LEN n)) = Inr sealed"
proof -
  have none: "seal_body C S b root measurement None \<noteq> Inr sealed"
    by (auto simp: seal_body_def seal_keystore_def res_simps)
  obtain d ds1 where d: "getrandom ds = (d, ds1)" by (cases "getrandom ds")
  then show ?thesis
    using assms none getrandom_in [of ds]
    by (cases d) (auto simp: seal_body_rng_def split: if_splits)
qed

lemma seal_body_rng_subset: "set (snd (seal_body_rng C S b root measurement ds)) \<subseteq> set ds"
  using getrandom_subset [of ds] by (auto simp: seal_body_rng_def split: prod.splits)

text \<open>A frame that commits: dispatch produced the candidate from the installed body, the candidate was sealed under the
  provisioning root and the installed measurement, the anchor acknowledged it after that, and only then is it installed
  and the success body, with the sealed blob in it, returned.\<close>

definition frame_commits :: "crypto \<Rightarrow> serde \<Rightarrow> features \<Rightarrow> writer \<Rightarrow> 'c round_trip \<Rightarrow> bytes \<Rightarrow> 'c gateway \<Rightarrow> bytes
    \<Rightarrow> 'c gateway \<Rightarrow> keystore_body \<Rightarrow> agent_response \<Rightarrow> keystore_body \<Rightarrow> bytes \<Rightarrow> bool" where
  "frame_commits C S ft enc rt payload s out s' b resp b' sealed \<longleftrightarrow>
     (\<exists>measurement root n ds s1 request_id. gw_keystore s = Some (b, measurement) \<and> gw_root s = Some root
        \<and> dispatch_agent C ft (gw_process s) AgentGatewayProfile payload b (gw_draws s) = (Inr resp, ds)
        \<and> candidate_of resp = Some (b', request_id)
        \<and> Some n \<in> set (gw_draws s)
        \<and> seal_body C S b' root measurement (Some (take NONCE_LEN n)) = Inr sealed
        \<and> same_store s s1 \<and> gw_channel s1 = gw_channel s \<and> anchor_committed C rt b' request_id s1 s'
        \<and> gw_keystore s' = Some (b', measurement) \<and> out = success_body enc resp sealed)"

text \<open>A frame that does not: the keystore stays, and the body says so or answers a request that changes nothing.\<close>

definition frame_answers :: "crypto \<Rightarrow> features \<Rightarrow> writer \<Rightarrow> bytes \<Rightarrow> 'c gateway \<Rightarrow> bytes \<Rightarrow> 'c gateway \<Rightarrow> bool" where
  "frame_answers C ft enc payload s out s' \<longleftrightarrow> gw_keystore s' = gw_keystore s
     \<and> ((\<exists>e. out = encode_agent_error enc e)
        \<or> (\<exists>b measurement resp ds. gw_keystore s = Some (b, measurement)
             \<and> dispatch_agent C ft (gw_process s) AgentGatewayProfile payload b (gw_draws s) = (Inr resp, ds)
             \<and> candidate_of resp = None \<and> out = encode_agent_response enc resp))"

lemma success_body_fun:
  "success_body enc (GenerateKeysResp keys b r) = encode_generate_keys_response enc keys"
  "success_body enc (SignFaucetDispenseResp t b r) = encode_sign_faucet_dispense_response enc t"
  "success_body enc (ConfigureTreasuryResp b r) = encode_configure_treasury_response enc"
  "success_body enc (ExportBackupResp b backup r) = encode_export_backup_response enc backup"
  by (simp_all add: fun_eq_iff)

lemma same_store_trans: "same_store a b \<Longrightarrow> same_store b c \<Longrightarrow> same_store a c"
  by (auto simp: same_store_def)

lemma same_store_draws: "set ds \<subseteq> set (gw_draws s) \<Longrightarrow> same_store s (s\<lparr>gw_draws := ds\<rparr>)"
  by (simp add: same_store_def)

lemma commit_before_emit_cases:
  assumes "commit_before_emit C S enc rt b' request_id measurement f s = (out, s')"
  shows "same_store s s' \<and> (gw_keystore s' = gw_keystore s \<and> (\<exists>e. out = encode_agent_error enc e)
    \<or> (\<exists>root n sealed s1. gw_root s = Some root \<and> Some n \<in> set (gw_draws s)
         \<and> seal_body C S b' root measurement (Some (take NONCE_LEN n)) = Inr sealed
         \<and> same_store s s1 \<and> gw_channel s1 = gw_channel s \<and> anchor_committed C rt b' request_id s1 s'
         \<and> gw_keystore s' = Some (b', measurement) \<and> out = f sealed))"
proof (cases "gw_root s")
  case None
  then show ?thesis
    using assms by (auto simp: commit_before_emit_def resolve_provisioning_root_def same_store_def)
next
  case (Some root)
  obtain r ds where r: "seal_body_rng C S b' root measurement (gw_draws s) = (r, ds)"
    by (cases "seal_body_rng C S b' root measurement (gw_draws s)")
  let ?s1 = "s\<lparr>gw_draws := ds\<rparr>"
  have s1: "same_store s ?s1"
    using seal_body_rng_subset [of C S b' root measurement "gw_draws s"] r by (simp add: same_store_draws)
  obtain c s2 where c: "commit_candidate_to_anchor C rt b' request_id ?s1 = (c, s2)"
    by (cases "commit_candidate_to_anchor C rt b' request_id ?s1")
  note s2 = commit_candidate_frame [OF c]
  show ?thesis
  proof (cases r)
    case (Inl e)
    then show ?thesis
      using assms Some r s1 by (auto simp: commit_before_emit_def resolve_provisioning_root_def)
  next
    case (Inr sealed)
    note seal = seal_body_rng_Inr [OF r [unfolded Inr]]
    show ?thesis
    proof (cases c)
      case (Inl e)
      then show ?thesis
        using assms Some r Inr c s1 s2 by (auto simp: commit_before_emit_def resolve_provisioning_root_def same_store_def)
    next
      case Inr2: (Inr u)
      have ack: "anchor_committed C rt b' request_id ?s1 s2"
        using commit_candidate_Inr c Inr2 by (cases u) simp
      have out: "out = f sealed" "s' = s2\<lparr>gw_keystore := Some (b', measurement)\<rparr>"
        using assms Some r Inr c Inr2 by (simp_all add: commit_before_emit_def resolve_provisioning_root_def)
      have "anchor_committed C rt b' request_id ?s1 s'" using ack by (simp add: anchor_committed_def out)
      moreover have "same_store s s'" using same_store_trans [OF s1] s2 by (simp add: same_store_def out)
      moreover have "gw_channel ?s1 = gw_channel s" "gw_keystore s' = Some (b', measurement)" by (simp_all add: out)
      ultimately show ?thesis using seal Some s1 out(1) by blast
    qed
  qed
qed

lemma handle_frame_cases:
  assumes "handle_agent_gateway_frame C S ft enc rt payload s = (out, s')"
  shows "same_store s s' \<and> (frame_answers C ft enc payload s out s'
    \<or> (\<exists>b resp b' sealed. frame_commits C S ft enc rt payload s out s' b resp b' sealed))"
proof (cases "gw_keystore s")
  case None
  then show ?thesis
    using assms by (auto simp: handle_agent_gateway_frame_def frame_answers_def same_store_def)
next
  case (Some bm)
  obtain b measurement where bm: "bm = (b, measurement)" by (cases bm)
  obtain r ds where d: "dispatch_agent C ft (gw_process s) AgentGatewayProfile payload b (gw_draws s) = (r, ds)"
    by (cases "dispatch_agent C ft (gw_process s) AgentGatewayProfile payload b (gw_draws s)")
  let ?s0 = "s\<lparr>gw_draws := ds\<rparr>"
  have s0: "same_store s ?s0"
    using dispatch_agent_subset [of C ft "gw_process s" AgentGatewayProfile payload b "gw_draws s"] d
    by (simp add: same_store_draws)
  have commit: ?thesis
    if r: "r = Inr resp" "candidate_of resp = Some (b', request_id)"
      and run: "commit_before_emit C S enc rt b' request_id measurement (success_body enc resp) ?s0 = (out, s')"
    for resp b' request_id
  proof -
    note c = commit_before_emit_cases [OF run]
    have store: "same_store s s'" using same_store_trans [OF s0] c by blast
    from c show ?thesis
    proof (elim conjE disjE exE)
      fix e assume "gw_keystore s' = gw_keystore ?s0" "out = encode_agent_error enc e"
      then show ?thesis using store by (auto simp: frame_answers_def)
    next
      fix root n sealed s1
      assume *: "gw_root ?s0 = Some root" "Some n \<in> set (gw_draws ?s0)"
        "seal_body C S b' root measurement (Some (take NONCE_LEN n)) = Inr sealed" "same_store ?s0 s1"
        "gw_channel s1 = gw_channel ?s0" "anchor_committed C rt b' request_id s1 s'"
        "gw_keystore s' = Some (b', measurement)" "out = success_body enc resp sealed"
      have "Some n \<in> set (gw_draws s)" using *(2) s0 by (auto simp: same_store_def)
      then have "frame_commits C S ft enc rt payload s out s' b resp b' sealed"
        using * Some bm d r same_store_trans [OF s0 *(4)] by (auto simp: frame_commits_def)
      then show ?thesis using store by blast
    qed
  qed
  have answer: ?thesis if "s' = ?s0" "(\<exists>e. out = encode_agent_error enc e)
      \<or> (\<exists>resp. r = Inr resp \<and> candidate_of resp = None \<and> out = encode_agent_response enc resp)"
    using that s0 Some bm d by (auto simp: frame_answers_def)
  note run = assms [unfolded handle_agent_gateway_frame_def Some bm option.case prod.case d Let_def]
  show ?thesis
  proof (cases r)
    case (Inl e)
    then have "s' = ?s0" "out = encode_agent_error enc e" using run by simp_all
    then show ?thesis using answer by blast
  next
    case (Inr resp)
    then show ?thesis
      using run answer commit [OF Inr] by (cases resp) (auto simp: success_body_fun)
  qed
qed

section \<open>How the body evolves\<close>

definition evolves :: "keystore_body \<Rightarrow> keystore_body \<Rightarrow> bool" where
  "evolves b b' \<longleftrightarrow> body_ok b' \<and> same_config (kb_config b) (kb_config b')
     \<and> kb_freshness_epoch b < kb_freshness_epoch b' \<and> kb_structural_version b \<le> kb_structural_version b'
     \<and> highest_counter b \<le> highest_counter b'
     \<and> (\<exists>es. kb_entries b' = kb_entries b @ es) \<and> (treasury_singleton b \<longrightarrow> treasury_singleton b')"

lemma same_config_trans: "same_config a b \<Longrightarrow> same_config b c \<Longrightarrow> same_config a c"
  by (simp add: same_config_def)

lemma evolves_trans: "evolves a b \<Longrightarrow> evolves b c \<Longrightarrow> evolves a c"
  unfolding evolves_def by (auto intro: same_config_trans order_trans less_trans)

lemma spends_counters:
  fixes b :: keystore_body
  assumes "verify_capability_extract C m opcode request_id (kb_config b) (kb_counters b) = Inr v"
    and "spends_capability env v b b'"
  shows "highest_counter b \<le> highest_counter b'"
proof -
  have "highest_counter b (vc_authority v, vc_scope_class v, vc_scope_target v) \<le> unat (vc_counter v)"
    using assms(1) unfolding verify_capability_extract_Inr by auto
  then show ?thesis using assms(2) by (auto simp: le_fun_def spends_capability_def)
qed

lemma dispatch_evolves:
  assumes "dispatch_agent C ft w profile payload b ds = (Inr resp, ds')" "candidate_of resp = Some (b', request_id)"
    and "body_ok b" "k1_public_uncompressed C" "\<forall>d. Some d \<in> set ds \<longrightarrow> length d = 32"
  shows "evolves b b' \<and> unat (kb_freshness_epoch b') = Suc (unat (kb_freshness_epoch b))"
proof (rule dispatch_agent_Inr [OF assms(1)], goal_cases)
  case (1 env op)
  note req = decode_envelope_request_id [OF 1(1)]
  have c: "committed_as (commit_bump_class op) b b'"
    using dispatch_candidate [OF assms(1) 1(1,2) assms(3-5)] assms(2) by simp
  have spent: "highest_counter b \<le> highest_counter b'"
    if v: "verify_capability C env b = Inr v" and "spends_capability env v b b'" for v
    using v spends_counters [OF _ that(2)] by (auto simp: verify_capability_Inr)
  have len: "length (vc_scope_target v) \<le> 64" if "verify_capability C env b = Inr v" for v
    using that verified_scope_target by (auto simp: verify_capability_Inr)
  have rest: "highest_counter b \<le> highest_counter b' \<and> (\<exists>es. kb_entries b' = kb_entries b @ es)
      \<and> (treasury_singleton b \<longrightarrow> treasury_singleton b')"
    using 1(7)
  proof (elim disjE exE conjE)
    fix v assume v: "verify_capability C env b = Inr v"
      and h: "handle_generate_keys C env b v ds = (Inr resp, ds')"
    show ?thesis
      using handle_generate_keys_spends [OF h assms(3) len [OF v] req assms(4,5)] assms(2) spent [OF v] by auto
  next
    fix v assume v: "verify_capability C env b = Inr v"
      and h: "handle_configure_treasury C env b v = Inr resp"
    obtain b1 where "resp = ConfigureTreasuryResp b1 (ae_request_id env)" "spends_capability env v b b1"
        "kb_entries b1 = kb_entries b"
      using handle_configure_treasury_spends [OF h assms(3) len [OF v] req] by blast
    then show ?thesis using assms(2) spent [OF v] by (auto simp: treasury_singleton_def)
  next
    assume h: "handle_sign_faucet_dispense C env b = Inr resp"
    obtain fs e where b': "b' = b\<lparr>kb_faucet := fs, kb_freshness_epoch := e\<rparr>"
      by (rule handle_sign_faucet_dispense_Inr [OF h]) (use assms(2) that in auto)
    have "highest_counter b' = highest_counter b" by (rule highest_counter_cong) (simp_all add: b')
    then show ?thesis by (simp add: b' treasury_singleton_def)
  qed (use assms(2) in \<open>auto simp: handle_public_identity_def handle_prove_identity_def handle_sign_transfer_def res_simps\<close>)
  have "kb_structural_version b \<le> kb_structural_version b'"
    using c by (auto simp: committed_as_def word_le_nat_alt split: if_splits)
  then show ?case using c rest by (simp add: evolves_def committed_as_def word_less_nat_alt)
qed

section \<open>Runs\<close>

text \<open>The events of an agent instance: the boot path installs a body it unsealed (hence validated) and the commit
  channel, and then frames arrive.\<close>

datatype gateway_event =
    Installed bool
  | Linked bool
  | Answered bytes bytes
  | Committed bytes bytes

inductive gateway_step :: "crypto \<Rightarrow> serde \<Rightarrow> features \<Rightarrow> writer \<Rightarrow> 'c round_trip
    \<Rightarrow> 'c gateway \<Rightarrow> gateway_event \<Rightarrow> 'c gateway \<Rightarrow> bool"
  for C S ft enc rt where
  install: "install_agent_keystore body measurement s = (ok, s') \<Longrightarrow> body_ok body
     \<Longrightarrow> gateway_step C S ft enc rt s (Installed ok) s'"
| link: "install_commit_channel channel s = (ok, s') \<Longrightarrow> gateway_step C S ft enc rt s (Linked ok) s'"
| answer: "handle_agent_gateway_frame C S ft enc rt payload s = (out, s') \<Longrightarrow> gw_keystore s' = gw_keystore s
     \<Longrightarrow> gateway_step C S ft enc rt s (Answered payload out) s'"
| commit: "handle_agent_gateway_frame C S ft enc rt payload s = (out, s') \<Longrightarrow> gw_keystore s' \<noteq> gw_keystore s
     \<Longrightarrow> gateway_step C S ft enc rt s (Committed payload out) s'"

inductive gateway_run :: "crypto \<Rightarrow> serde \<Rightarrow> features \<Rightarrow> writer \<Rightarrow> 'c round_trip
    \<Rightarrow> 'c gateway \<Rightarrow> gateway_event list \<Rightarrow> 'c gateway \<Rightarrow> bool"
  for C S ft enc rt where
  run_Nil: "gateway_run C S ft enc rt s [] s"
| run_Cons: "gateway_step C S ft enc rt s e s' \<Longrightarrow> gateway_run C S ft enc rt s' es s''
     \<Longrightarrow> gateway_run C S ft enc rt s (e # es) s''"

inductive_cases committed_stepE: "gateway_step C S ft enc rt s (Committed payload out) s'"
inductive_cases answered_stepE: "gateway_step C S ft enc rt s (Answered payload out) s'"
inductive_simps run_Nil_iff [simp]: "gateway_run C S ft enc rt s [] s'"
inductive_simps run_Cons_iff: "gateway_run C S ft enc rt s (e # es) s'"

definition gateway_ok :: "'c gateway \<Rightarrow> bool" where
  "gateway_ok s \<longleftrightarrow> (case gw_keystore s of None \<Rightarrow> True | Some (b, measurement) \<Rightarrow> body_ok b)
     \<and> (\<forall>d. Some d \<in> set (gw_draws s) \<longrightarrow> length d = 32)"

fun is_commit :: "gateway_event \<Rightarrow> bool" where
  "is_commit (Committed _ _) = True"
| "is_commit _ = False"

text \<open>What one step does to an installed keystore.\<close>

definition advances :: "nat \<Rightarrow> 'c gateway \<Rightarrow> 'c gateway \<Rightarrow> bool" where
  "advances n s s' \<longleftrightarrow> (\<forall>b measurement. gw_keystore s = Some (b, measurement) \<longrightarrow>
     (\<exists>b'. gw_keystore s' = Some (b', measurement)
        \<and> (if n = 0 then b' = b else evolves b b')
        \<and> unat (kb_freshness_epoch b') = unat (kb_freshness_epoch b) + n))"

lemma advances_trans: "advances m s s' \<Longrightarrow> advances n s' s'' \<Longrightarrow> advances (m + n) s s''"
  unfolding advances_def by (fastforce intro: evolves_trans split: if_splits)

lemma commit_advances:
  assumes "frame_commits C S ft enc rt payload s out s' b resp b' sealed" "gateway_ok s" "k1_public_uncompressed C"
  shows "evolves b b'" "unat (kb_freshness_epoch b') = Suc (unat (kb_freshness_epoch b))"
  using assms dispatch_evolves unfolding frame_commits_def gateway_ok_def by (auto split: option.splits)

lemma gateway_step_ok:
  assumes "gateway_step C S ft enc rt s e s'" "gateway_ok s" "k1_public_uncompressed C"
  shows "gateway_ok s' \<and> advances (if is_commit e then 1 else 0) s s'"
  using assms(1)
proof cases
  case (install body measurement ok)
  then show ?thesis
    using assms(2) by (auto simp: install_agent_keystore_def gateway_ok_def advances_def split: if_splits)
next
  case (link channel ok)
  then show ?thesis
    using assms(2) by (auto simp: install_commit_channel_def gateway_ok_def advances_def split: if_splits)
next
  case (answer payload out)
  have "same_store s s'" using handle_frame_cases [OF answer(2)] by blast
  then have "gateway_ok s'" using answer assms(2) by (auto simp: same_store_def gateway_ok_def)
  then show ?thesis using answer by (simp add: advances_def)
next
  case (commit payload out)
  obtain b resp b' sealed where c: "frame_commits C S ft enc rt payload s out s' b resp b' sealed"
    using handle_frame_cases [OF commit(2)] commit(3) by (auto simp: frame_answers_def)
  have "same_store s s'" using handle_frame_cases [OF commit(2)] by blast
  then have "gateway_ok s'"
    using c commit_advances(1) [OF c assms(2,3)] assms(2)
    by (auto simp: same_store_def gateway_ok_def frame_commits_def evolves_def)
  moreover have "advances 1 s s'"
    using c commit_advances [OF c assms(2,3)] by (auto simp: advances_def frame_commits_def)
  ultimately show ?thesis using commit by simp
qed

lemma gateway_run_ok:
  assumes "gateway_run C S ft enc rt s es s'" "gateway_ok s" "k1_public_uncompressed C"
  shows "gateway_ok s' \<and> advances (length (filter is_commit es)) s s'"
  using assms
proof (induction rule: gateway_run.induct)
  case (run_Nil s)
  then show ?case by (simp add: advances_def)
next
  case (run_Cons s e s' es s'')
  note step = gateway_step_ok [OF run_Cons.hyps(1) run_Cons.prems]
  have "gateway_ok s''" "advances (length (filter is_commit es)) s' s''"
    using run_Cons.IH step run_Cons.prems(2) by blast+
  then show ?case using advances_trans step by (cases "is_commit e") fastforce+
qed

section \<open>Samples\<close>

definition sample_gateway :: "keystore_body \<Rightarrow> unit gateway" where
  "sample_gateway b = \<lparr>gw_keystore = Some (b, [1]), gw_root = Some zero32, gw_channel = Some (),
     gw_process = bound_process, gw_draws = [Some (replicate 32 8), Some (replicate 32 9)]\<rparr>"

lemma sample_gateway_ok: "body_ok b \<Longrightarrow> gateway_ok (sample_gateway b)"
  by (simp add: gateway_ok_def sample_gateway_def)

text \<open>A serialiser that knows one body, and an anchor that acknowledges one candidate under the second draw.\<close>

definition serde_for :: "keystore_body \<Rightarrow> serde" where
  "serde_for b = \<lparr>ser_body = (\<lambda>b'. if b' = b then Some [7] else None), de_body = (\<lambda>_. Some (b, 1))\<rparr>"

definition ack_fields_for :: "keystore_body \<Rightarrow> commit_ack_fields" where
  "ack_fields_for b = \<lparr>ca_version = 1, ca_chain_id = 11565, ca_environment_identifier = ascii ''lab'',
     ca_epoch = kb_freshness_epoch b, ca_structural_version = kb_structural_version b,
     ca_marks_digest = compute_local_marks_digest sample_crypto b, ca_nonce = replicate 32 9, ca_request_id = [1],
     ca_signature = replicate 64 1\<rparr>"

definition ack_for :: "keystore_body \<Rightarrow> bytes" where
  "ack_for b = enc_commit_ack (ack_fields_for b)"

definition anchor_for :: "keystore_body \<Rightarrow> unit round_trip" where
  "anchor_for b = (\<lambda>ch frame. (Inr (ack_for b), ch))"

lemma serde_for_correct: "serde_correct (serde_for b)"
  by (auto simp: serde_correct_def serde_for_def)

lemma sample_marks_digest_length: "length (compute_local_marks_digest sample_crypto b) = 32"
  by (simp add: compute_local_marks_digest_def sample_crypto_def)

lemma length_anchor_commit_request_payload:
  "length (anchor_commit_request_payload r) \<le> 180 + length (cr_environment_identifier r) + length (cr_marks_digest r)
     + length (cr_nonce r) + length (cr_request_id r)"
proof -
  note u = length_put_uint [THEN conjunct2]
  show ?thesis
    using u [of 5 8] u [of 0 1] u [of 0 COMMIT_REQUEST_VERSION] u [of 0 2] u [of 0 "cr_chain_id r"] u [of 0 3]
      u [of 3 "of_nat (length (cr_environment_identifier r))"] u [of 0 4] u [of 0 "cr_new_epoch r"] u [of 0 5]
      u [of 0 "cr_new_structural_version r"] u [of 0 6] u [of 2 "of_nat (length (cr_marks_digest r))"] u [of 0 7]
      u [of 2 "of_nat (length (cr_nonce r))"] u [of 0 8] u [of 2 "of_nat (length (cr_request_id r))"]
    by (simp add: anchor_commit_request_payload_def put_text_def put_bytes_def)
qed

text \<open>The request of a valid candidate always fits a frame.\<close>

lemma commit_request_encodes:
  assumes "config_ok cfg" "length request_id \<le> 64" "length nonce = 32" "length (compute_local_marks_digest C b) = 32"
  shows "\<exists>frame. encode_anchor_commit_request (request_of (commit_of C b nonce request_id) cfg) = Inr frame"
proof -
  have "length (kc_environment_identifier cfg) \<le> 64"
    using assms(1) valid_env_length by (simp add: config_ok_def)
  then have "length (anchor_commit_request_payload (request_of (commit_of C b nonce request_id) cfg)) \<le> 400"
    using length_anchor_commit_request_payload [of "request_of (commit_of C b nonce request_id) cfg"] assms
    by (simp add: request_of_def commit_of_def)
  then show ?thesis
    using assms(2) by (simp add: encode_anchor_commit_request_def request_of_def commit_of_def MAX_REQUEST_ID_LEN_def
        encode_message_Inr MAX_MESSAGE_SIZE_def)
qed

lemma sample_ack_verifies:
  "verify_commit_ack_bytes sample_crypto (ack_for b) (expected_of (commit_of sample_crypto b (replicate 32 9) [1])) sample_config
     = Inr ()"
  unfolding verify_commit_ack_bytes_Inr
  using sample_marks_digest_length [of b]
  by (intro exI [of _ "ack_fields_for b"])
    (simp add: commit_ack_ok_def ack_for_def ack_fields_for_def utf8_valid_ascii ascii_def expected_of_def commit_of_def
      sample_config_def, simp add: sample_crypto_def)

lemma ack_ignores_version:
  "verify_commit_ack_bytes C bs ex (c\<lparr>kc_monotonic_treasury_config_version := v\<rparr>) = verify_commit_ack_bytes C bs ex c"
  by (simp add: verify_commit_ack_bytes_def cong: if_cong)

text \<open>Over a valid candidate of the sample enclave: it seals, and the anchor acknowledges it.\<close>

lemma sample_seal_rng:
  assumes "body_ok b'"
  shows "\<exists>sealed. seal_body_rng sample_crypto (serde_for b') b' zero32 [1] [Some (replicate 32 8), Some (replicate 32 9)]
    = (Inr sealed, [Some (replicate 32 9)])"
proof -
  have "validate b' = Inr ()" using assms by (simp add: validate_iff)
  then have none: "seal_body sample_crypto (serde_for b') b' zero32 [1] None = Inl keystore_error.Csprng"
    and "\<exists>sealed. seal_body sample_crypto (serde_for b') b' zero32 [1] (Some (replicate 24 8)) = Inr sealed"
    by (simp_all add: seal_body_def serde_for_def seal_lens MAX_KEYSTORE_BLOB_SIZE_def MAX_MESSAGE_SIZE_def
        KEYSTORE_FRAMING_RESERVE_def seal_keystore_def seal_keystore_with_nonce_def Let_def sample_crypto_correct)
      (simp add: sample_crypto_def)
  then obtain sealed where "seal_body sample_crypto (serde_for b') b' zero32 [1] (Some (take NONCE_LEN (replicate 32 8))) = Inr sealed"
    by (auto simp: NONCE_LEN_def)
  then show ?thesis using none by (simp add: seal_body_rng_def getrandom_def)
qed

lemma sample_commit:
  assumes "body_ok b'" "same_config sample_config (kb_config b')" "gw_channel s = Some ()"
    and "gw_draws s = [Some (replicate 32 9)]"
  shows "\<exists>s'. commit_candidate_to_anchor sample_crypto (anchor_for b') b' [1] s = (Inr (), s')"
proof -
  have cfg: "kb_config b' = sample_config\<lparr>kc_monotonic_treasury_config_version := kc_monotonic_treasury_config_version (kb_config b')\<rparr>"
    by (rule same_configD [OF assms(2)])
  have "config_ok (kb_config b')" using assms(1) by (simp add: body_ok_def)
  then obtain frame where "encode_anchor_commit_request (request_of (commit_of sample_crypto b' (replicate 32 9) [1]) (kb_config b')) = Inr frame"
    using commit_request_encodes [OF _ _ _ sample_marks_digest_length] by force
  moreover have "verify_commit_ack_bytes sample_crypto (ack_for b')
      (expected_of (commit_of sample_crypto b' (replicate 32 9) [1])) (kb_config b') = Inr ()"
    by (subst cfg) (simp add: ack_ignores_version sample_ack_verifies)
  ultimately have "run_anchor_commit sample_crypto (anchor_for b') () (commit_of sample_crypto b' (replicate 32 9) [1]) (kb_config b')
      = (Inr (), ())"
    unfolding run_anchor_commit_Inr by (auto simp: anchor_for_def)
  then show ?thesis
    using assms(3,4) by (simp add: commit_candidate_to_anchor_def draw_commit_nonce_def getrandom_def Let_def)
qed

lemma sample_seam:
  assumes "body_ok b'" "same_config sample_config (kb_config b')" "gw_root s = Some zero32" "gw_channel s = Some ()"
    and "gw_draws s = [Some (replicate 32 8), Some (replicate 32 9)]"
  shows "\<exists>sealed s'. commit_before_emit sample_crypto (serde_for b') enc (anchor_for b') b' [1] [1] f s = (f sealed, s')
    \<and> gw_keystore s' = Some (b', [1])"
proof -
  obtain sealed where seal: "seal_body_rng sample_crypto (serde_for b') b' zero32 [1] (gw_draws s) = (Inr sealed, [Some (replicate 32 9)])"
    using sample_seal_rng [OF assms(1)] assms(5) by auto
  obtain s' where "commit_candidate_to_anchor sample_crypto (anchor_for b') b' [1] (s\<lparr>gw_draws := [Some (replicate 32 9)]\<rparr>) = (Inr (), s')"
    using sample_commit [OF assms(1,2), of "s\<lparr>gw_draws := [Some (replicate 32 9)]\<rparr>"] assms(4) by auto
  then show ?thesis
    using seal assms(3) by (intro exI [of _ sealed]) (simp add: commit_before_emit_def resolve_provisioning_root_def)
qed

lemma sample_dispense_commits:
  "\<exists>b' out s'. handle_agent_gateway_frame sample_crypto (serde_for b') sample_features enc (anchor_for b')
      (sample_request (transfer_request 5 1)) (sample_gateway treasury_body) = (out, s')
    \<and> gw_keystore s' = Some (b', [1]) \<and> b' \<noteq> treasury_body"
proof -
  let ?ds = "[Some (replicate 32 8), Some (replicate 32 9)]"
  obtain st b' where d: "dispatch_agent sample_crypto sample_features bound_process AgentGatewayProfile
      (sample_request (transfer_request 5 1)) treasury_body ?ds = (Inr (SignFaucetDispenseResp st b' [1]), ?ds)"
    using sample_dispense_dispatch by blast
  obtain env where env: "dispensed sample_crypto env treasury_body st b'"
    using dispatch_faucet [OF d treasury_body_ok] by blast
  have b': "body_ok b'" "kb_config b' = sample_config" "b' \<noteq> treasury_body"
    using env by (auto simp: dispensed_def adopted_def treasury_body_def sample_body_simps)
  show ?thesis
    using sample_seam [OF b'(1), of "sample_gateway treasury_body" enc "encode_sign_faucet_dispense_response enc st"] b'(2,3) d
    by (auto simp: handle_agent_gateway_frame_def sample_gateway_def Let_def)
qed

lemma sample_reset_commits_frame:
  "\<exists>b' out s'. handle_agent_gateway_frame sample_crypto (serde_for b') sample_features enc (anchor_for b')
      (sample_request reset_request) (sample_gateway sample_body) = (out, s')
    \<and> gw_keystore s' = Some (b', [1]) \<and> b' \<noteq> sample_body"
proof -
  let ?ds = "[Some (replicate 32 8), Some (replicate 32 9)]"
  obtain b' where d: "dispatch_agent sample_crypto sample_features bound_process AgentGatewayProfile
      (sample_request reset_request) sample_body ?ds = (Inr (ConfigureTreasuryResp b' [1]), ?ds)"
    using sample_reset_commits by blast
  obtain env v where "spends_capability env v sample_body b'"
    using dispatch_treasury [OF d sample_body_ok] by blast
  then have b': "body_ok b'" "same_config sample_config (kb_config b')" "b' \<noteq> sample_body"
    by (auto simp: spends_capability_def sample_body_simps)
  show ?thesis
    using sample_seam [OF b'(1,2), of "sample_gateway sample_body" enc "encode_configure_treasury_response enc"] b'(3) d
    by (auto simp: handle_agent_gateway_frame_def sample_gateway_def Let_def)
qed

section \<open>Properties\<close>

text \<open>C1: Seal before emit. Whatever a frame contains, it either leaves the installed keystore alone and returns an error
  or the answer of a request that changes nothing, or it commits: then the installed body is the candidate dispatch
  produced, the returned body carries a blob that this enclave unseals to exactly that candidate and that is small enough
  to be installed again, and before the swap the anchor had acknowledged, under a fresh nonce and this request's id,
  exactly the candidate's epoch, structural version and marks. The root and the anti-rollback binding never change.\<close>

theorem seal_before_emit:
  assumes "handle_agent_gateway_frame C S ft enc rt payload s = (out, s')"
    and "sha3_digest_len C" "aead_correct C" "serde_correct S" "gateway_ok s"
  shows "same_store s s' \<and> (frame_answers C ft enc payload s out s'
    \<or> (\<exists>b resp b' sealed root measurement. frame_commits C S ft enc rt payload s out s' b resp b' sealed
         \<and> gw_root s = Some root \<and> gw_keystore s' = Some (b', measurement)
         \<and> unseal_body C S sealed root measurement = Inr b' \<and> length sealed \<le> MAX_KEYSTORE_BLOB_SIZE))"
proof -
  have "\<exists>root measurement. gw_root s = Some root \<and> gw_keystore s' = Some (b', measurement)
      \<and> unseal_body C S sealed root measurement = Inr b' \<and> length sealed \<le> MAX_KEYSTORE_BLOB_SIZE"
    if c: "frame_commits C S ft enc rt payload s out s' b resp b' sealed" for b resp b' sealed
  proof -
    obtain measurement root n where r: "gw_root s = Some root" "Some n \<in> set (gw_draws s)"
        "seal_body C S b' root measurement (Some (take NONCE_LEN n)) = Inr sealed" "gw_keystore s' = Some (b', measurement)"
      using c by (auto simp: frame_commits_def)
    have "length (take NONCE_LEN n) = 24"
      using assms(5) r(2) by (auto simp: gateway_ok_def NONCE_LEN_def)
    then show ?thesis using unseal_seal_body [OF assms(2-4) refl _ r(3)] r by blast
  qed
  then show ?thesis using handle_frame_cases [OF assms(1)] by blast
qed

lemma seal_before_emit_witness:
  "\<exists>b' out s' sealed. handle_agent_gateway_frame sample_crypto (serde_for b') sample_features enc_value (anchor_for b')
      (sample_request (transfer_request 5 1)) (sample_gateway treasury_body) = (out, s')
    \<and> gw_keystore s' = Some (b', [1]) \<and> unseal_body sample_crypto (serde_for b') sealed zero32 [1] = Inr b'"
proof -
  obtain b' out s' where h: "handle_agent_gateway_frame sample_crypto (serde_for b') sample_features enc_value (anchor_for b')
      (sample_request (transfer_request 5 1)) (sample_gateway treasury_body) = (out, s')"
    and k: "gw_keystore s' = Some (b', [1])" "b' \<noteq> treasury_body"
    using sample_dispense_commits by blast
  then have "gw_keystore s' \<noteq> gw_keystore (sample_gateway treasury_body)" by (auto simp: sample_gateway_def)
  then show ?thesis
    using seal_before_emit [OF h sample_crypto_correct(1,2) serde_for_correct sample_gateway_ok [OF treasury_body_ok(1)]] h k
    by (auto simp: frame_answers_def sample_gateway_def)
qed

text \<open>C10: Over any run, installations and frames in any order, valid or hostile, the installed body stays valid, its
  freshness epoch grows by exactly one per committed frame and by nothing else, and if anything was committed the
  structural version and every capability counter have not gone back, the provisioned configuration is the same, the old
  keys are still there, and the treasury key is still a singleton.\<close>

theorem runs_keep_custody:
  assumes "gateway_run C S ft enc rt s es s'" "gateway_ok s" "k1_public_uncompressed C"
  shows "gateway_ok s' \<and> advances (length (filter is_commit es)) s s'"
  by (rule gateway_run_ok [OF assms])

lemma sample_step:
  assumes "handle_agent_gateway_frame C S ft enc rt payload (sample_gateway b) = (out, s')"
    and "gw_keystore s' = Some (b', [1])" "b' \<noteq> b"
  shows "gateway_step C S ft enc rt (sample_gateway b) (Committed payload out) s'"
  using assms by (auto intro!: gateway_step.commit simp: sample_gateway_def)

lemma runs_keep_custody_witness:
  "\<exists>b' out s'. gateway_run sample_crypto (serde_for b') sample_features enc_value (anchor_for b') (sample_gateway treasury_body)
      [Committed (sample_request (transfer_request 5 1)) out] s' \<and> advances 1 (sample_gateway treasury_body) s'"
proof -
  obtain b' out s' where h: "handle_agent_gateway_frame sample_crypto (serde_for b') sample_features enc_value (anchor_for b')
      (sample_request (transfer_request 5 1)) (sample_gateway treasury_body) = (out, s')"
    and k: "gw_keystore s' = Some (b', [1])" "b' \<noteq> treasury_body"
    using sample_dispense_commits by blast
  have r: "gateway_run sample_crypto (serde_for b') sample_features enc_value (anchor_for b') (sample_gateway treasury_body)
      [Committed (sample_request (transfer_request 5 1)) out] s'"
    using sample_step [OF h k] by (simp add: run_Cons_iff)
  show ?thesis using runs_keep_custody [OF r sample_gateway_ok [OF treasury_body_ok(1)] sample_k1] r by auto
qed

text \<open>C13: A capability authorises one committed request, for good. Once a frame that carries it has committed, then after
  any further run the body that is installed refuses it, under every opcode and every request id.\<close>

theorem capabilities_never_replay:
  assumes "gateway_step C S ft enc rt s (Committed payload out) s1" "gateway_run C S ft enc rt s1 es s2"
    and "gateway_ok s" "k1_public_uncompressed C" "decode_envelope payload = Inr env" "ae_capability env = Some m"
    and "gw_keystore s2 = Some (b2, measurement)"
  shows "\<exists>e. verify_capability_extract C m opcode request_id (kb_config b2) (kb_counters b2) = Inl e"
proof -
  obtain b resp b1 sealed where c: "frame_commits C S ft enc rt payload s out s1 b resp b1 sealed"
    using assms(1) handle_frame_cases by (fastforce elim: committed_stepE simp: frame_answers_def)
  obtain ds rid ms where d: "dispatch_agent C ft (gw_process s) AgentGatewayProfile payload b (gw_draws s) = (Inr resp, ds)"
      and cand: "candidate_of resp = Some (b1, rid)" and k: "gw_keystore s = Some (b, ms)" "gw_keystore s1 = Some (b1, ms)"
    using c by (auto simp: frame_commits_def)
  have ok: "body_ok b" "\<forall>d. Some d \<in> set (gw_draws s) \<longrightarrow> length d = 32"
    using assms(3) k by (auto simp: gateway_ok_def)
  obtain op where op: "opcode_from_u8 (ae_opcode env) = Some op" "is_privileged op"
    by (rule dispatch_agent_Inr [OF d]) (use assms(5,6) in \<open>auto simp: is_privileged_def\<close>)
  obtain v where v: "verify_capability_extract C m (ae_opcode env) (ae_request_id env) (kb_config b) (kb_counters b) = Inr v"
      "spends_capability env v b b1"
    using dispatch_privileged [OF d assms(5) op ok(1) assms(4) ok(2)] assms(6) cand by auto
  have s1: "gateway_ok s1" using gateway_step_ok [OF assms(1,3,4)] by blast
  have e: "b2 = b1 \<or> evolves b1 b2"
    using gateway_run_ok [OF assms(2) s1 assms(4)] k(2) assms(7) by (auto simp: advances_def split: if_splits)
  have cfg: "same_config (kb_config b) (kb_config b2)"
    using e v(2) same_config_trans by (auto simp: evolves_def spends_capability_def)
  have "unat (vc_counter v) \<le> highest_counter b2 (vc_authority v, vc_scope_class v, vc_scope_target v)"
    using e v(2) le_funD [of "highest_counter b1" "highest_counter b2" "(vc_authority v, vc_scope_class v, vc_scope_target v)"]
    by (auto simp: evolves_def spends_capability_def)
  then show ?thesis by (rule spent_refused [OF v(1) cfg])
qed

lemma capabilities_never_replay_witness:
  "\<exists>b' out s' e. gateway_step sample_crypto (serde_for b') sample_features enc_value (anchor_for b') (sample_gateway sample_body)
      (Committed (sample_request reset_request) out) s'
    \<and> verify_capability_extract sample_crypto reset_cap_map 6 [1] (kb_config b') (kb_counters b') = Inl e"
proof -
  obtain b' out s' where h: "handle_agent_gateway_frame sample_crypto (serde_for b') sample_features enc_value (anchor_for b')
      (sample_request reset_request) (sample_gateway sample_body) = (out, s')"
    and k: "gw_keystore s' = Some (b', [1])" "b' \<noteq> sample_body"
    using sample_reset_commits_frame by blast
  note step = sample_step [OF h k]
  have "ae_capability reset_envelope = Some reset_cap_map" by (simp add: reset_envelope_def)
  then show ?thesis
    using capabilities_never_replay [OF step gateway_run.run_Nil sample_gateway_ok [OF sample_body_ok] sample_k1
        reset_request_decodes _ k(1)] step by blast
qed

end
