(* ===== verification/Snp_Report.thy ===== *)
theory Snp_Report
  imports Protocol Crypto
begin

text \<open>
  Attestation reports, \<open>snp_report.rs\<close>: the fields read out of a raw report, the \<open>report_data\<close> bindings the
  enclave asks for, their verification by the operator and by 2D, and the fetch sequence over the \<open>TsmFs\<close> seam
  with its boot cache. The configfs operations behind the seam (file I/O) are the parameter \<open>tsm_fs\<close>, over an
  arbitrary file-system state; \<open>Configfs\<close> has the real ones and the orphan sweep of the quote child.
\<close>

definition REPORT_DATA_OFFSET :: nat where "REPORT_DATA_OFFSET = 0x50"
definition REPORT_DATA_LEN :: nat where "REPORT_DATA_LEN = 64"
definition MEASUREMENT_OFFSET :: nat where "MEASUREMENT_OFFSET = 0x90"
definition SNP_MEASUREMENT_LEN :: nat where "SNP_MEASUREMENT_LEN = 48"
definition MIN_REPORT_LEN :: nat where "MIN_REPORT_LEN = MEASUREMENT_OFFSET + SNP_MEASUREMENT_LEN"
definition MAX_OUTBLOB_LEN :: nat where "MAX_OUTBLOB_LEN = 8192"
definition MAX_CERT_CHAIN_LEN :: nat where "MAX_CERT_CHAIN_LEN = 64 * 1024"
definition REPORT_DATA_DOMAIN :: bytes where "REPORT_DATA_DOMAIN = ascii ''2d-hsm-snp-report-data-v1''"
definition RESTORE_REPORT_DATA_DOMAIN :: bytes where
  "RESTORE_REPORT_DATA_DOMAIN = ascii ''2d-hsm-restore-ephemeral-v1''"
definition RESTORE_COMPLETION_DOMAIN :: bytes where
  "RESTORE_COMPLETION_DOMAIN = ascii ''2d-hsm-restore-completion-v1''"

section \<open>Fields of a report\<close>

definition measurement_from_report :: "bytes \<Rightarrow> protocol_error + bytes" where
  "measurement_from_report report =
     (if length report < MIN_REPORT_LEN
      then Inl (PqSigningUnavailable ''SNP report shorter than ABI minimum (measurement field)'')
      else Inr (take SNP_MEASUREMENT_LEN (drop MEASUREMENT_OFFSET report)))"

definition report_data_from_report :: "bytes \<Rightarrow> protocol_error + bytes" where
  "report_data_from_report report =
     (if length report < REPORT_DATA_OFFSET + REPORT_DATA_LEN
      then Inl (PqSigningUnavailable ''SNP report shorter than ABI minimum (report_data field)'')
      else Inr (take REPORT_DATA_LEN (drop REPORT_DATA_OFFSET report)))"

section \<open>Bindings\<close>

definition report_data_for_pubkey :: "crypto \<Rightarrow> bytes \<Rightarrow> bytes" where
  "report_data_for_pubkey C pq_pubkey = sha3_512 C (REPORT_DATA_DOMAIN @ pq_pubkey)"

text \<open>The bytes hashed, and their hash; \<open>len as u64\<close> is the length of a slice.\<close>

definition len64 :: "bytes \<Rightarrow> bytes" where "len64 x = be64 (of_nat (length x))"

definition restore_ephemeral_preimage :: "bytes \<Rightarrow> bytes \<Rightarrow> u64 \<Rightarrow> bytes \<Rightarrow> bytes" where
  "restore_ephemeral_preimage encaps_key measurement chain_id environment_identifier =
     RESTORE_REPORT_DATA_DOMAIN @ encaps_key @ measurement @ be64 chain_id
     @ len64 environment_identifier @ environment_identifier"

definition report_data_for_restore_ephemeral :: "crypto \<Rightarrow> bytes \<Rightarrow> bytes \<Rightarrow> u64 \<Rightarrow> bytes \<Rightarrow> bytes" where
  "report_data_for_restore_ephemeral C encaps_key measurement chain_id environment_identifier =
     sha3_512 C (restore_ephemeral_preimage encaps_key measurement chain_id environment_identifier)"

definition restore_completion_preimage :: "bytes \<Rightarrow> bytes \<Rightarrow> bytes \<Rightarrow> u64 \<Rightarrow> bytes \<Rightarrow> bytes" where
  "restore_completion_preimage request_id_echo identity_set_hash sealed_blob_hash chain_id environment_identifier =
     RESTORE_COMPLETION_DOMAIN @ be64 chain_id @ len64 environment_identifier @ environment_identifier
     @ len64 request_id_echo @ request_id_echo @ identity_set_hash @ sealed_blob_hash"

definition report_data_for_restore_completion :: "crypto \<Rightarrow> bytes \<Rightarrow> bytes \<Rightarrow> bytes \<Rightarrow> u64 \<Rightarrow> bytes \<Rightarrow> bytes" where
  "report_data_for_restore_completion C request_id_echo identity_set_hash sealed_blob_hash chain_id
       environment_identifier =
     sha3_512 C (restore_completion_preimage request_id_echo identity_set_hash sealed_blob_hash chain_id
       environment_identifier)"

section \<open>Verification\<close>

definition verify_restore_ephemeral_attestation :: "crypto \<Rightarrow> bytes \<Rightarrow> bytes \<Rightarrow> bytes \<Rightarrow> u64 \<Rightarrow> bytes
    \<Rightarrow> protocol_error + bytes" where
  "verify_restore_ephemeral_attestation C report encaps_key expected_measurement chain_id environment_identifier =
     res_bind (report_data_from_report report) (\<lambda>echoed.
     let expected = report_data_for_restore_ephemeral C encaps_key expected_measurement chain_id
           environment_identifier in
     if echoed \<noteq> expected
     then Inl (PqSigningUnavailable ''restore-ephemeral attestation: report_data does not bind the ephemeral key + TEE identity (host may have substituted the key or replayed a foreign report)'')
     else
       res_bind (measurement_from_report report) (\<lambda>report_measurement.
       if report_measurement \<noteq> expected_measurement
       then Inl (PqSigningUnavailable ''restore-ephemeral attestation: the report's hardware-signed measurement does not match the expected enclave measurement (the key may be from a different/compromised TEE build)'')
       else Inr report_measurement))"

definition verify_restore_completion_attestation :: "crypto \<Rightarrow> bytes \<Rightarrow> bytes \<Rightarrow> bytes \<Rightarrow> bytes \<Rightarrow> bytes \<Rightarrow> u64
    \<Rightarrow> bytes \<Rightarrow> protocol_error + bytes" where
  "verify_restore_completion_attestation C report request_id_echo identity_set_hash sealed_blob_hash
       expected_measurement chain_id environment_identifier =
     res_bind (report_data_from_report report) (\<lambda>echoed.
     let expected = report_data_for_restore_completion C request_id_echo identity_set_hash sealed_blob_hash
           chain_id environment_identifier in
     if echoed \<noteq> expected
     then Inl (PqSigningUnavailable ''restore-completion attestation: report_data does not bind (request_id, identity_set, sealed_blob, chain, env) - the host may have forged the plaintext evidence, spliced a different sealed blob, or replayed a foreign report'')
     else
       res_bind (measurement_from_report report) (\<lambda>report_measurement.
       if report_measurement \<noteq> expected_measurement
       then Inl (PqSigningUnavailable ''restore-completion attestation: the report's hardware-signed measurement does not match the expected enclave measurement'')
       else Inr report_measurement))"

section \<open>Fetching\<close>

record 'f tsm_fs =
  remove_entry :: "string \<Rightarrow> 'f \<Rightarrow> 'f"
  create_entry :: "string \<Rightarrow> 'f \<Rightarrow> (protocol_error + unit) \<times> 'f"
  write_inblob :: "string \<Rightarrow> bytes \<Rightarrow> 'f \<Rightarrow> (protocol_error + unit) \<times> 'f"
  read_outblob :: "string \<Rightarrow> 'f \<Rightarrow> (protocol_error + bytes) \<times> 'f"
  read_auxblob :: "string \<Rightarrow> 'f \<Rightarrow> bytes \<times> 'f"

definition TSM_REPORT_ENTRY :: string where "TSM_REPORT_ENTRY = ''/sys/kernel/config/tsm/report/twod-hsm''"

definition fetch_report_inner_with :: "'f tsm_fs \<Rightarrow> string \<Rightarrow> bytes \<Rightarrow> 'f
    \<Rightarrow> (protocol_error + bytes \<times> bytes) \<times> 'f" where
  "fetch_report_inner_with fs entry data s =
     (case create_entry fs entry s of
        (Inl e, s) \<Rightarrow> (Inl e, s)
      | (Inr _, s) \<Rightarrow>
          (case write_inblob fs entry data s of
             (Inl e, s) \<Rightarrow> (Inl e, s)
           | (Inr _, s) \<Rightarrow>
               (case read_outblob fs entry s of
                  (Inl e, s) \<Rightarrow> (Inl e, s)
                | (Inr report, s) \<Rightarrow>
                    if length report < MIN_REPORT_LEN
                    then (Inl (PqSigningUnavailable ''SNP attestation: outblob shorter than ABI minimum''), s)
                    else if length report > MAX_OUTBLOB_LEN
                    then (Inl (PqSigningUnavailable ''SNP attestation: outblob exceeds max size''), s)
                    else (case read_auxblob fs entry s of (cert_chain, s) \<Rightarrow> (Inr (report, cert_chain), s)))))"

definition fetch_report_with_at :: "'f tsm_fs \<Rightarrow> string \<Rightarrow> bytes \<Rightarrow> 'f
    \<Rightarrow> (protocol_error + bytes \<times> bytes) \<times> 'f" where
  "fetch_report_with_at fs entry_path data s =
     (let s = remove_entry fs entry_path s in
      case fetch_report_inner_with fs entry_path data s of
        (result, s) \<Rightarrow> (result, remove_entry fs entry_path s))"

definition fetch_report_with :: "'f tsm_fs \<Rightarrow> bytes \<Rightarrow> 'f \<Rightarrow> (protocol_error + bytes \<times> bytes) \<times> 'f" where
  "fetch_report_with fs data s = fetch_report_with_at fs TSM_REPORT_ENTRY data s"

definition verify_and_extract_measurement :: "bytes \<Rightarrow> bytes \<Rightarrow> protocol_error + bytes" where
  "verify_and_extract_measurement report expected_report_data =
     res_bind (report_data_from_report report) (\<lambda>echoed.
     if echoed \<noteq> expected_report_data
     then Inl (PqSigningUnavailable ''SNP report_data does not echo the requested key binding'')
     else measurement_from_report report)"

definition fetch_measurement_and_report :: "crypto \<Rightarrow> 'f tsm_fs \<Rightarrow> bytes \<Rightarrow> 'f
    \<Rightarrow> (protocol_error + bytes \<times> bytes \<times> bytes) \<times> 'f" where
  "fetch_measurement_and_report C fs pq_pubkey s =
     (let data = report_data_for_pubkey C pq_pubkey in
      case fetch_report_with fs data s of
        (r, s) \<Rightarrow> (res_bind r (\<lambda>(report, cert_chain).
                    res_bind (verify_and_extract_measurement report data) (\<lambda>measurement.
                    Inr (measurement, report, cert_chain))), s))"

text \<open>The boot cache: \<open>(measurement, report, cert_chain)\<close>.\<close>

type_synonym cached_attestation = "(bytes \<times> bytes \<times> bytes) option"

definition boot_fetch_and_cache :: "crypto \<Rightarrow> 'f tsm_fs \<Rightarrow> bytes \<Rightarrow> cached_attestation \<times> 'f
    \<Rightarrow> (protocol_error + unit) \<times> cached_attestation \<times> 'f" where
  "boot_fetch_and_cache C fs pq_pubkey st =
     (case st of (cache, s) \<Rightarrow>
       case fetch_measurement_and_report C fs pq_pubkey s of
         (Inl e, s) \<Rightarrow> (Inl e, cache, s)
       | (Inr a, s) \<Rightarrow> (Inr (), Some a, s))"

section \<open>What the bindings bind\<close>

lemma be64_len_append: "be64 a @ x = be64 b @ y \<longleftrightarrow> a = b \<and> x = y"
  by (simp add: be64.append_inj)

lemma len64_append_inj:
  assumes "length x < 2 ^ 64" "length y < 2 ^ 64"
  shows "len64 x @ x @ s = len64 y @ y @ t \<longleftrightarrow> x = y \<and> s = t"
proof -
  have "(of_nat (length x) :: u64) = of_nat (length y) \<longleftrightarrow> length x = length y"
    using assms by (simp add: word_unat_eq_iff unat_of_nat take_bit_nat_eq_self)
  then show ?thesis by (auto simp: len64_def be64_len_append)
qed

lemma restore_completion_preimage_inj:
  assumes "restore_completion_preimage r i s c e = restore_completion_preimage r' i' s' c' e'"
    and "length r < 2 ^ 64" "length r' < 2 ^ 64" "length e < 2 ^ 64" "length e' < 2 ^ 64"
    and "length i = 32" "length i' = 32"
  shows "r = r' \<and> i = i' \<and> s = s' \<and> c = c' \<and> e = e'"
  using assms
  by (simp add: restore_completion_preimage_def be64_len_append len64_append_inj)

lemma restore_ephemeral_preimage_inj:
  assumes "restore_ephemeral_preimage k m c e = restore_ephemeral_preimage k' m' c' e'"
    and "length k = length k'" "length m = length m'" "length e < 2 ^ 64" "length e' < 2 ^ 64"
  shows "k = k' \<and> m = m' \<and> c = c' \<and> e = e'"
proof -
  have "len64 e @ e @ [] = len64 e' @ e' @ [] \<longleftrightarrow> e = e'"
    using len64_append_inj [OF assms(4,5), of "[]" "[]"] by simp
  then show ?thesis
    using assms(1-3) by (simp add: restore_ephemeral_preimage_def be64_len_append)
qed

lemma report_domains_disjoint:
  "REPORT_DATA_DOMAIN @ pk \<noteq> restore_ephemeral_preimage k m c e"
  "REPORT_DATA_DOMAIN @ pk \<noteq> restore_completion_preimage r i s c' e'"
  "restore_ephemeral_preimage k m c e \<noteq> restore_completion_preimage r i s c' e'"
proof -
  have "take 16 (REPORT_DATA_DOMAIN @ pk) = take 16 REPORT_DATA_DOMAIN"
    "take 16 (restore_ephemeral_preimage k m c e) = take 16 RESTORE_REPORT_DATA_DOMAIN"
    "take 16 (restore_completion_preimage r i s c' e') = take 16 RESTORE_COMPLETION_DOMAIN"
    by (simp_all add: restore_ephemeral_preimage_def restore_completion_preimage_def REPORT_DATA_DOMAIN_def
        RESTORE_REPORT_DATA_DOMAIN_def RESTORE_COMPLETION_DOMAIN_def)
  moreover have "take 16 REPORT_DATA_DOMAIN \<noteq> take 16 RESTORE_REPORT_DATA_DOMAIN"
    "take 16 REPORT_DATA_DOMAIN \<noteq> take 16 RESTORE_COMPLETION_DOMAIN"
    "take 16 RESTORE_REPORT_DATA_DOMAIN \<noteq> take 16 RESTORE_COMPLETION_DOMAIN"
    by (simp_all add: REPORT_DATA_DOMAIN_def RESTORE_REPORT_DATA_DOMAIN_def RESTORE_COMPLETION_DOMAIN_def ascii_def)
  ultimately show "REPORT_DATA_DOMAIN @ pk \<noteq> restore_ephemeral_preimage k m c e"
    "REPORT_DATA_DOMAIN @ pk \<noteq> restore_completion_preimage r i s c' e'"
    "restore_ephemeral_preimage k m c e \<noteq> restore_completion_preimage r i s c' e'"
    by metis+
qed

lemmas report_lens = REPORT_DATA_OFFSET_def REPORT_DATA_LEN_def MEASUREMENT_OFFSET_def SNP_MEASUREMENT_LEN_def
  MIN_REPORT_LEN_def

text \<open>What an accepted report carries: the requested \<open>report_data\<close> and the expected launch measurement.\<close>

definition report_carries :: "bytes \<Rightarrow> bytes \<Rightarrow> bytes \<Rightarrow> bool" where
  "report_carries report data measurement \<longleftrightarrow> length report \<ge> 192 \<and> take 64 (drop 0x50 report) = data
     \<and> take 48 (drop 0x90 report) = measurement"

lemma verify_restore_completion_iff:
  "verify_restore_completion_attestation C report r i s m c e = Inr m' \<longleftrightarrow>
     report_carries report (report_data_for_restore_completion C r i s c e) m \<and> m' = m"
  by (auto simp: verify_restore_completion_attestation_def report_carries_def report_data_from_report_def
      measurement_from_report_def report_lens Let_def res_simps)

lemma verify_restore_ephemeral_iff:
  "verify_restore_ephemeral_attestation C report k m c e = Inr m' \<longleftrightarrow>
     report_carries report (report_data_for_restore_ephemeral C k m c e) m \<and> m' = m"
  by (auto simp: verify_restore_ephemeral_attestation_def report_carries_def report_data_from_report_def
      measurement_from_report_def report_lens Let_def res_simps)

section \<open>The fetch cleans up\<close>

text \<open>Removing an entry leaves it absent, whatever happened before.\<close>

definition removes :: "'f tsm_fs \<Rightarrow> (string \<Rightarrow> 'f \<Rightarrow> bool) \<Rightarrow> bool" where
  "removes fs present \<longleftrightarrow> (\<forall>entry s. \<not> present entry (remove_entry fs entry s))"

lemma fetch_report_cleans:
  assumes "removes fs present" "fetch_report_with_at fs entry data s = (r, s')"
  shows "\<not> present entry s'"
  using assms by (auto simp: fetch_report_with_at_def removes_def Let_def split: prod.splits)

lemma fetch_report_bounded:
  assumes "fetch_report_with_at fs entry data s = (Inr (report, chain), s')"
  shows "192 \<le> length report" "length report \<le> 8192"
  using assms
  by (auto simp: fetch_report_with_at_def fetch_report_inner_with_def report_lens MAX_OUTBLOB_LEN_def Let_def
      split: prod.splits sum.splits if_splits)

lemma boot_cache_authentic:
  assumes "boot_fetch_and_cache C fs pk (cache, s) = (Inr (), cache', s')"
  shows "\<exists>m report chain. cache' = Some (m, report, chain) \<and> report_carries report (report_data_for_pubkey C pk) m"
  using assms
  by (auto simp: boot_fetch_and_cache_def fetch_measurement_and_report_def verify_and_extract_measurement_def
      report_carries_def report_data_from_report_def measurement_from_report_def report_lens Let_def res_simps
      split: prod.splits sum.splits)

text \<open>Restore evidence cannot be reused for another restore: if one attestation report is accepted as completion
  evidence for two tuples of request id, identity set, sealed blob, chain and environment, they are the same tuple,
  or the two preimages are a collision of SHA3-512; and the same report is not accepted as the attestation of an
  ephemeral restore key, except by such a collision. The measurement accepted is the one in the signed report.\<close>

theorem restore_evidence_binds:
  assumes "verify_restore_completion_attestation C report r i s m c e = Inr x"
    and "verify_restore_completion_attestation C report r' i' s' m' c' e' = Inr x'"
    and "length i = 32" "length i' = 32" "length r < 2 ^ 64" "length r' < 2 ^ 64" "length e < 2 ^ 64" "length e' < 2 ^ 64"
  shows "x = take 48 (drop 0x90 report) \<and> x = m \<and> m' = m
    \<and> ((r, i, s, c, e) = (r', i', s', c', e')
       \<or> (\<exists>p q. p = restore_completion_preimage r i s c e \<and> q = restore_completion_preimage r' i' s' c' e'
            \<and> p \<noteq> q \<and> sha3_512 C p = sha3_512 C q))
    \<and> (verify_restore_ephemeral_attestation C report k m'' c'' e'' = Inr x''
       \<longrightarrow> (\<exists>p q. p = restore_completion_preimage r i s c e \<and> q = restore_ephemeral_preimage k m'' c'' e''
            \<and> p \<noteq> q \<and> sha3_512 C p = sha3_512 C q))"
proof -
  have c: "report_carries report (report_data_for_restore_completion C r i s c e) m" "x = m"
    and c': "report_carries report (report_data_for_restore_completion C r' i' s' c' e') m'"
    using assms(1,2) by (simp_all add: verify_restore_completion_iff)
  let ?p = "restore_completion_preimage r i s c e" and ?q = "restore_completion_preimage r' i' s' c' e'"
  have "sha3_512 C ?p = sha3_512 C ?q" "m = m'" "m = take 48 (drop 0x90 report)"
    using c c' by (auto simp: report_carries_def report_data_for_restore_completion_def)
  moreover have "?p = ?q \<Longrightarrow> (r, i, s, c, e) = (r', i', s', c', e')"
    using restore_completion_preimage_inj assms(3-) by blast
  moreover have "sha3_512 C ?p = sha3_512 C (restore_ephemeral_preimage k m'' c'' e'')"
    if "verify_restore_ephemeral_attestation C report k m'' c'' e'' = Inr x''"
    using c(1) that
    by (auto simp: verify_restore_ephemeral_iff report_carries_def report_data_for_restore_completion_def
        report_data_for_restore_ephemeral_def)
  moreover have "?p \<noteq> restore_ephemeral_preimage k m'' c'' e''"
    using report_domains_disjoint(3) [of k m'' c'' e'' r i s c e] by metis
  ultimately show ?thesis using c(2) by blast
qed

text \<open>A report in the layout of the ABI.\<close>

definition sample_report :: "bytes \<Rightarrow> bytes \<Rightarrow> bytes" where
  "sample_report data measurement = replicate 80 0 @ data @ measurement"

lemma sample_report_carries:
  "length data = 64 \<Longrightarrow> length m = 48 \<Longrightarrow> report_carries (sample_report data m) data m"
  by (simp add: report_carries_def sample_report_def)

lemma restore_evidence_binds_witness:
  "\<exists>report. verify_restore_completion_attestation sample_crypto report [1] (replicate 32 2) (replicate 32 3)
      (replicate 48 4) 11 [5] = Inr (replicate 48 4) \<and> take 48 (drop 0x90 report) = replicate 48 4"
proof -
  let ?r = "sample_report (report_data_for_restore_completion sample_crypto [1] (replicate 32 2) (replicate 32 3) 11 [5])
      (replicate 48 4)"
  have "length (report_data_for_restore_completion sample_crypto [1] (replicate 32 2) (replicate 32 3) 11 [5]) = 64"
    by (simp add: report_data_for_restore_completion_def sample_crypto_def)
  then have v: "verify_restore_completion_attestation sample_crypto ?r [1] (replicate 32 2) (replicate 32 3)
      (replicate 48 4) 11 [5] = Inr (replicate 48 4)"
    using sample_report_carries by (simp add: verify_restore_completion_iff)
  have "replicate 48 4 = take 48 (drop 0x90 ?r)"
    using restore_evidence_binds [OF v v] by simp
  then show ?thesis using v by metis
qed

end
