(* ===== verification/Wire.thy ===== *)
theory Wire
  imports Protocol
begin

text \<open>
  The producer commands of \<open>lib.rs\<close> (requests, responses) and their CBOR form, \<open>wire.rs\<close>: maps
  with integer keys, built as \<open>ciborium\<close> values. \<open>ciborium\<close> itself is a parameter: \<open>cb_ser\<close> is its
  writer and \<open>cb_de\<close> its reader, which returns a value and the number of bytes it consumed.

  The interface \<open>field_codec\<close> says that a field decoder inverts its encoder; every field of the
  commands interprets it, and the round trips of the messages rest on those interpretations. A
  Rust array \<open>[u8; 32]\<close> is a byte string of length 32 (\<open>h32\<close>).
\<close>

section \<open>Values\<close>

datatype wire_value =
    WInteger int
  | WBytes bytes
  | WFloat u64
  | WText string
  | WBool bool
  | WNull
  | WTag u64 wire_value
  | WArray "wire_value list"
  | WMap "(wire_value \<times> wire_value) list"

record ciborium =
  cb_ser :: "wire_value \<Rightarrow> bytes option"
  cb_de :: "bytes \<Rightarrow> (wire_value \<times> nat) option"

text \<open>What the sources rely on: what is written is read back, and nothing is left over.\<close>

definition ciborium_correct :: "ciborium \<Rightarrow> bool" where
  "ciborium_correct cb \<longleftrightarrow> (\<forall>v b. cb_ser cb v = Some b \<longrightarrow> cb_de cb b = Some (v, length b))"

definition encode_value :: "ciborium \<Rightarrow> wire_value \<Rightarrow> protocol_error + bytes" where
  "encode_value cb v = ok_or CborEncode (cb_ser cb v)"

definition decode_value :: "ciborium \<Rightarrow> bytes \<Rightarrow> protocol_error + wire_value" where
  "decode_value cb bs =
     res_bind (ok_or CborDecode (cb_de cb bs)) (\<lambda>(v, consumed).
       if consumed \<noteq> length bs then Inl (WireProtocol ''trailing bytes after CBOR value'') else Inr v)"

definition require_protocol_version :: "u64 \<Rightarrow> protocol_error + unit" where
  "require_protocol_version version =
     (if 256 \<le> unat version then Inl (WireProtocol ''version out of range'')
      else if ucast version \<noteq> PROTOCOL_VERSION
      then Inl (InvalidVersion (ucast version) PROTOCOL_VERSION)
      else Inr ())"

text \<open>\<open>collect::<Result<Vec<_>, _>>()\<close>: the results in order, or the first error.\<close>

fun res_mapM :: "('a \<Rightarrow> 'e + 'b) \<Rightarrow> 'a list \<Rightarrow> 'e + 'b list" where
  "res_mapM f [] = Inr []"
| "res_mapM f (x # xs) = res_bind (f x) (\<lambda>y. res_bind (res_mapM f xs) (\<lambda>ys. Inr (y # ys)))"

lemma res_mapM_Inr: "res_mapM f xs = Inr ys \<longleftrightarrow> list_all2 (\<lambda>x y. f x = Inr y) xs ys"
  by (induction xs arbitrary: ys) (auto simp: res_bind_eq_Inr list_all2_Cons1)

type_synonym wire_map = "(wire_value \<times> wire_value) list"

definition map_get_opt :: "wire_map \<Rightarrow> nat \<Rightarrow> wire_value option" where
  "map_get_opt m key = map_option snd (find (\<lambda>(k, v). k = WInteger (int key)) m)"

definition wire_map_get :: "wire_map \<Rightarrow> nat \<Rightarrow> protocol_error + wire_value" where
  "wire_map_get m key = ok_or (RecentChainProofValidation ''missing required CBOR map key'') (map_get_opt m key)"

fun value_to_u64 :: "wire_value \<Rightarrow> protocol_error + u64" where
  "value_to_u64 (WInteger i) =
     (if 0 \<le> i \<and> i < 2 ^ 64 then Inr (of_int i)
      else Inl (RecentChainProofValidation ''integer field out of range''))"
| "value_to_u64 _ = Inl (RecentChainProofValidation ''expected unsigned integer'')"

fun value_to_bool :: "wire_value \<Rightarrow> protocol_error + bool" where
  "value_to_bool (WBool b) = Inr b"
| "value_to_bool _ = Inl (RecentChainProofValidation ''expected bool'')"

fun value_to_bytes :: "wire_value \<Rightarrow> protocol_error + bytes" where
  "value_to_bytes (WBytes b) = Inr b"
| "value_to_bytes _ = Inl (RecentChainProofValidation ''expected bytes'')"

fun value_to_text :: "wire_value \<Rightarrow> protocol_error + string" where
  "value_to_text (WText s) = Inr s"
| "value_to_text _ = Inl (WireProtocol ''expected CBOR text'')"

definition value_to_bytes32 :: "wire_value \<Rightarrow> protocol_error + bytes" where
  "value_to_bytes32 v = res_bind (value_to_bytes v) (\<lambda>b.
     if length b = 32 then Inr b else Inl (RecentChainProofValidation ''expected 32-byte hash''))"

definition value_to_u8 :: "wire_value \<Rightarrow> protocol_error + u8" where
  "value_to_u8 v = res_bind (value_to_u64 v) (\<lambda>n.
     if unat n < 256 then Inr (ucast n) else Inl (InvalidTicket ''ticket_type out of range''))"

definition value_to_u32 :: "wire_value \<Rightarrow> protocol_error + u32" where
  "value_to_u32 v = res_bind (value_to_u64 v) (\<lambda>n.
     if unat n < 2 ^ 32 then Inr (ucast n)
     else Inl (RecentChainProofValidation ''new_header_version out of range''))"

text \<open>The three \<open>value_to_optional_...\<close> functions: null is \<open>None\<close>, anything else is decoded.\<close>

definition value_to_optional :: "(wire_value \<Rightarrow> protocol_error + 'a) \<Rightarrow> wire_value \<Rightarrow> protocol_error + 'a option" where
  "value_to_optional dec v = (if v = WNull then Inr None else res_bind (dec v) (\<lambda>x. Inr (Some x)))"

definition value_to_optional_u64 :: "wire_value \<Rightarrow> protocol_error + u64 option" where
  "value_to_optional_u64 = value_to_optional value_to_u64"

definition value_to_optional_bytes32 :: "wire_value \<Rightarrow> protocol_error + bytes option" where
  "value_to_optional_bytes32 = value_to_optional value_to_bytes32"

definition value_to_optional_u32 :: "wire_value \<Rightarrow> protocol_error + u32 option" where
  "value_to_optional_u32 = value_to_optional value_to_u32"

text \<open>\<open>Value::Integer(x.into())\<close>, and \<open>.map(f).unwrap_or(Value::Null)\<close>.\<close>

definition w_uint :: "'a :: len word \<Rightarrow> wire_value" where
  "w_uint x = WInteger (uint x)"

definition w_opt :: "('a \<Rightarrow> wire_value) \<Rightarrow> 'a option \<Rightarrow> wire_value" where
  "w_opt f m = (case m of None \<Rightarrow> WNull | Some x \<Rightarrow> f x)"

text \<open>A map literal with integer keys.\<close>

definition w_map :: "(nat \<times> wire_value) list \<Rightarrow> wire_value" where
  "w_map kvs = WMap (map (\<lambda>(k, v). (WInteger (int k), v)) kvs)"

definition the_map :: "protocol_error \<Rightarrow> wire_value \<Rightarrow> protocol_error + wire_map" where
  "the_map e v = (case v of WMap m \<Rightarrow> Inr m | _ \<Rightarrow> Inl e)"

section \<open>Commands of lib.rs\<close>

record get_measurement_request = gmq_version :: u8

record get_measurement_response =
  gmr_measurement :: bytes
  gmr_attestation :: bytes
  gmr_pq_pubkey :: bytes
  gmr_supported_ticket_types :: bytes
  gmr_pq_signing_ready :: bool
  gmr_cert_chain :: bytes

record authorization_ticket_payload =
  tk_ticket_type :: u8
  tk_nonce :: u64
  tk_context_hash :: bytes
  tk_activation_height :: u64
  tk_new_measurement :: bytes
  tk_pq_pubkey :: bytes
  tk_fork_spec_hash :: "bytes option"
  tk_new_header_version :: "u32 option"

record sign_authorization_ticket_response =
  sar_signature :: bytes
  sar_ticket_hash :: bytes

record sign_block_root_response =
  sbr_signature :: bytes
  sbr_signed_hash :: bytes

record recent_chain_proof =
  cp_finalized_height :: u64
  cp_finalized_header_hash :: bytes
  cp_recovery_history_tail :: "bytes list"
  cp_proof_data :: bytes
  cp_signature :: "bytes option"

record authorized_producer_state =
  ap_pq_pubkey :: bytes
  ap_measurement :: bytes
  ap_activated_at_height :: u64
  ap_source_ticket_hash :: bytes

record arm_for_production_request =
  af_authorized_state :: authorized_producer_state
  af_recent_chain_proof :: recent_chain_proof

record arm_for_production_response =
  ar_status :: string
  ar_reason :: "string option"

record get_status_response =
  gs_armed :: bool
  gs_authorized_measurement :: bytes
  gs_authorized_pq_pubkey :: bytes
  gs_authorized_activated_at_height :: "u64 option"
  gs_proof_finalized_height :: "u64 option"
  gs_source_ticket_hash :: "bytes option"
  gs_pending_hard_fork_height :: "u64 option"
  gs_last_known_block :: "u64 option"

text \<open>Requests that carry one field are that field: the version of \<open>GET_STATUS\<close>, the ticket of
  \<open>SIGN_AUTHORIZATION_TICKET\<close>, the block hash of \<open>SIGN_BLOCK_ROOT\<close>, the raw \<open>0x40\<close> payload.\<close>

datatype command =
    CmdGetMeasurement get_measurement_request
  | CmdSignAuthorizationTicket authorization_ticket_payload
  | CmdSignBlockRoot bytes
  | CmdArmForProduction arm_for_production_request
  | CmdGetStatus u8
  | CmdAgentGateway bytes

datatype response =
    RespGetMeasurement get_measurement_response
  | RespSignAuthorizationTicket sign_authorization_ticket_response
  | RespSignBlockRoot sign_block_root_response
  | RespArmForProduction arm_for_production_response
  | RespGetStatus get_status_response
  | RespError string
  | RespAgentGateway bytes

section \<open>Codecs of wire.rs\<close>

definition encode_authorized_producer_state :: "authorized_producer_state \<Rightarrow> wire_value" where
  "encode_authorized_producer_state s = w_map
     [(1, WBytes (ap_pq_pubkey s)), (2, WBytes (ap_measurement s)),
      (3, w_uint (ap_activated_at_height s)), (4, WBytes (ap_source_ticket_hash s))]"

definition decode_authorized_producer_state :: "wire_value \<Rightarrow> protocol_error + authorized_producer_state" where
  "decode_authorized_producer_state v =
     res_bind (the_map (RecentChainProofValidation ''authorized_state must be a CBOR map'') v) (\<lambda>m.
     res_bind (res_bind (wire_map_get m 1) value_to_bytes) (\<lambda>pk.
     res_bind (res_bind (wire_map_get m 2) value_to_bytes) (\<lambda>meas.
     res_bind (res_bind (wire_map_get m 3) value_to_u64) (\<lambda>h.
     res_bind (res_bind (wire_map_get m 4) value_to_bytes32) (\<lambda>src.
     Inr \<lparr>ap_pq_pubkey = pk, ap_measurement = meas, ap_activated_at_height = h, ap_source_ticket_hash = src\<rparr>)))))"

definition encode_recent_chain_proof :: "recent_chain_proof \<Rightarrow> wire_value" where
  "encode_recent_chain_proof p = w_map
     [(1, w_uint (cp_finalized_height p)), (2, WBytes (cp_finalized_header_hash p)),
      (3, WArray (map WBytes (cp_recovery_history_tail p))), (4, WBytes (cp_proof_data p)),
      (5, w_opt WBytes (cp_signature p))]"

definition value_to_array :: "protocol_error \<Rightarrow> wire_value \<Rightarrow> protocol_error + wire_value list" where
  "value_to_array e v = (case v of WArray vs \<Rightarrow> Inr vs | _ \<Rightarrow> Inl e)"

definition decode_recent_chain_proof :: "wire_value \<Rightarrow> protocol_error + recent_chain_proof" where
  "decode_recent_chain_proof v =
     res_bind (the_map (RecentChainProofValidation ''recent_chain_proof must be a CBOR map'') v) (\<lambda>m.
     res_bind (wire_map_get m 3) (\<lambda>tail_val.
     res_bind (res_bind (value_to_array
         (RecentChainProofValidation ''recovery_history_tail must be a CBOR array'') tail_val)
       (res_mapM value_to_bytes32)) (\<lambda>tail.
     res_bind (res_bind (wire_map_get m 5) (value_to_optional value_to_bytes)) (\<lambda>sig.
     res_bind (res_bind (wire_map_get m 1) value_to_u64) (\<lambda>h.
     res_bind (res_bind (wire_map_get m 2) value_to_bytes32) (\<lambda>hdr.
     res_bind (res_bind (wire_map_get m 4) value_to_bytes) (\<lambda>pd.
     Inr \<lparr>cp_finalized_height = h, cp_finalized_header_hash = hdr, cp_recovery_history_tail = tail,
       cp_proof_data = pd, cp_signature = sig\<rparr>)))))))"

definition encode_wire_error :: "ciborium \<Rightarrow> int \<Rightarrow> string \<Rightarrow> protocol_error + bytes" where
  "encode_wire_error cb error_code reason =
     encode_value cb (w_map [(1, WInteger error_code), (2, WText reason)])"

definition is_wire_error_map :: "wire_map \<Rightarrow> bool" where
  "is_wire_error_map m = (case (wire_map_get m 1, wire_map_get m 2) of
     (Inr (WInteger _), Inr (WText _)) \<Rightarrow> True | _ \<Rightarrow> False)"

definition decode_wire_error :: "ciborium \<Rightarrow> bytes \<Rightarrow> protocol_error + int \<times> string" where
  "decode_wire_error cb bs =
     res_bind (decode_value cb bs) (\<lambda>v.
     res_bind (the_map (WireProtocol ''wire error must be a CBOR map'') v) (\<lambda>m.
     if \<not> is_wire_error_map m
     then Inl (WireProtocol ''payload is a success response, not a wire error'')
     else res_bind (res_bind (wire_map_get m 1) value_to_u64) (\<lambda>code.
       res_bind (res_bind (wire_map_get m 2) value_to_text) (\<lambda>reason.
       Inr (sint code, reason)))))"

definition is_wire_error_payload :: "ciborium \<Rightarrow> bytes \<Rightarrow> bool" where
  "is_wire_error_payload cb bs = (case decode_wire_error cb bs of Inr _ \<Rightarrow> True | Inl _ \<Rightarrow> False)"

text \<open>The common head of every decoder: a map whose key 1 is the protocol version.\<close>

definition decode_versioned_map :: "ciborium \<Rightarrow> protocol_error \<Rightarrow> bytes \<Rightarrow> protocol_error + u64 \<times> wire_map" where
  "decode_versioned_map cb e bs =
     res_bind (decode_value cb bs) (\<lambda>v.
     res_bind (the_map e v) (\<lambda>m.
     res_bind (res_bind (wire_map_get m 1) value_to_u64) (\<lambda>version.
     res_bind (require_protocol_version version) (\<lambda>_. Inr (version, m)))))"

definition encode_get_measurement_request :: "ciborium \<Rightarrow> get_measurement_request \<Rightarrow> protocol_error + bytes" where
  "encode_get_measurement_request cb r = encode_value cb (w_map [(1, w_uint (gmq_version r))])"

definition decode_get_measurement_request :: "ciborium \<Rightarrow> bytes \<Rightarrow> protocol_error + get_measurement_request" where
  "decode_get_measurement_request cb bs =
     res_bind (decode_versioned_map cb (WireProtocol ''GET_MEASUREMENT request must be a CBOR map'') bs)
       (\<lambda>(version, m). Inr \<lparr>gmq_version = ucast version\<rparr>)"

definition encode_get_measurement_response :: "ciborium \<Rightarrow> get_measurement_response \<Rightarrow> protocol_error + bytes" where
  "encode_get_measurement_response cb r = encode_value cb (w_map
     [(1, w_uint PROTOCOL_VERSION), (2, WBytes (gmr_measurement r)), (3, WBytes (gmr_attestation r)),
      (4, WBytes (gmr_pq_pubkey r)), (5, WArray (map w_uint (gmr_supported_ticket_types r))),
      (6, WBool (gmr_pq_signing_ready r)), (7, WBytes (gmr_cert_chain r))])"

definition value_to_ticket_type :: "wire_value \<Rightarrow> protocol_error + u8" where
  "value_to_ticket_type v = res_bind (value_to_u64 v) (\<lambda>n.
     if unat n < 256 then Inr (ucast n)
     else Inl (WireProtocol ''supported_ticket_types entry out of range''))"

definition decode_get_measurement_response :: "ciborium \<Rightarrow> bytes \<Rightarrow> protocol_error + get_measurement_response" where
  "decode_get_measurement_response cb bs =
     res_bind (decode_versioned_map cb (WireProtocol ''GET_MEASUREMENT response must be a CBOR map'') bs) (\<lambda>(_, m).
     res_bind (wire_map_get m 5) (\<lambda>st.
     res_bind (res_bind (value_to_array (WireProtocol ''supported_ticket_types must be a CBOR array'') st)
       (res_mapM value_to_ticket_type)) (\<lambda>supported.
     res_bind (case map_get_opt m 7 of None \<Rightarrow> Inr [] | Some v \<Rightarrow>
       if v = WNull then Inr [] else value_to_bytes v) (\<lambda>chain.
     res_bind (res_bind (wire_map_get m 2) value_to_bytes) (\<lambda>meas.
     res_bind (res_bind (wire_map_get m 3) value_to_bytes) (\<lambda>att.
     res_bind (res_bind (wire_map_get m 4) value_to_bytes) (\<lambda>pk.
     res_bind (res_bind (wire_map_get m 6) value_to_bool) (\<lambda>ready.
     Inr \<lparr>gmr_measurement = meas, gmr_attestation = att, gmr_pq_pubkey = pk,
       gmr_supported_ticket_types = supported, gmr_pq_signing_ready = ready, gmr_cert_chain = chain\<rparr>))))))))"

definition encode_get_status_request :: "ciborium \<Rightarrow> u8 \<Rightarrow> protocol_error + bytes" where
  "encode_get_status_request cb version = encode_value cb (w_map [(1, w_uint version)])"

definition decode_get_status_request :: "ciborium \<Rightarrow> bytes \<Rightarrow> protocol_error + u8" where
  "decode_get_status_request cb bs =
     res_bind (decode_versioned_map cb
         (RecentChainProofValidation ''GET_STATUS request must be a CBOR map'') bs)
       (\<lambda>(version, m). Inr (ucast version))"

definition encode_get_status_response :: "ciborium \<Rightarrow> get_status_response \<Rightarrow> protocol_error + bytes" where
  "encode_get_status_response cb r = encode_value cb (w_map
     [(1, w_uint PROTOCOL_VERSION), (2, WBool (gs_armed r)), (3, WBytes (gs_authorized_measurement r)),
      (4, WBytes (gs_authorized_pq_pubkey r)), (5, w_opt w_uint (gs_authorized_activated_at_height r)),
      (6, w_opt w_uint (gs_proof_finalized_height r)), (7, w_opt WBytes (gs_source_ticket_hash r)),
      (8, w_opt w_uint (gs_pending_hard_fork_height r)), (9, w_opt w_uint (gs_last_known_block r))])"

definition decode_get_status_response :: "ciborium \<Rightarrow> bytes \<Rightarrow> protocol_error + get_status_response" where
  "decode_get_status_response cb bs =
     res_bind (decode_versioned_map cb (WireProtocol ''GET_STATUS response must be a CBOR map'') bs) (\<lambda>(_, m).
     res_bind (res_bind (wire_map_get m 2) value_to_bool) (\<lambda>armed.
     res_bind (res_bind (wire_map_get m 3) value_to_bytes) (\<lambda>meas.
     res_bind (res_bind (wire_map_get m 4) value_to_bytes) (\<lambda>pk.
     res_bind (res_bind (wire_map_get m 5) value_to_optional_u64) (\<lambda>act.
     res_bind (res_bind (wire_map_get m 6) value_to_optional_u64) (\<lambda>fin.
     res_bind (res_bind (wire_map_get m 7) value_to_optional_bytes32) (\<lambda>src.
     res_bind (res_bind (wire_map_get m 8) value_to_optional_u64) (\<lambda>hf.
     res_bind (res_bind (wire_map_get m 9) value_to_optional_u64) (\<lambda>blk.
     Inr \<lparr>gs_armed = armed, gs_authorized_measurement = meas, gs_authorized_pq_pubkey = pk,
       gs_authorized_activated_at_height = act, gs_proof_finalized_height = fin,
       gs_source_ticket_hash = src, gs_pending_hard_fork_height = hf, gs_last_known_block = blk\<rparr>)))))))))"

definition encode_arm_for_production_response :: "ciborium \<Rightarrow> arm_for_production_response \<Rightarrow> protocol_error + bytes" where
  "encode_arm_for_production_response cb r =
     (if ar_status r = ''armed'' then encode_value cb (w_map [(1, WText ''armed'')])
      else encode_wire_error cb 2
        (case ar_reason r of None \<Rightarrow> ''ARM_FOR_PRODUCTION refused'' | Some reason \<Rightarrow> reason))"

text \<open>Decimal digits, as \<open>format!\<close> prints an unsigned integer.\<close>

fun dec_string :: "nat \<Rightarrow> string" where
  "dec_string n = (if n < 10 then [char_of (48 + n)] else dec_string (n div 10) @ [char_of (48 + n mod 10)])"

declare dec_string.simps [simp del]

definition decode_arm_for_production_response :: "ciborium \<Rightarrow> bytes \<Rightarrow> protocol_error + arm_for_production_response" where
  "decode_arm_for_production_response cb bs =
     res_bind (decode_value cb bs) (\<lambda>v.
     res_bind (the_map (WireProtocol ''ARM_FOR_PRODUCTION response must be a CBOR map'') v) (\<lambda>m.
     if res_bind (wire_map_get m 1) value_to_text = Inr ''armed''
     then Inr \<lparr>ar_status = ''armed'', ar_reason = None\<rparr>
     else
       (let code = (case res_bind (wire_map_get m 1) value_to_u64 of Inr c \<Rightarrow> c | Inl _ \<Rightarrow> 2);
            reason = (case res_bind (wire_map_get m 2) value_to_text of Inr s \<Rightarrow> s
              | Inl _ \<Rightarrow> ''arm refused (code '' @ dec_string (unat code) @ '')'')
        in Inr \<lparr>ar_status = ''refused'', ar_reason = Some reason\<rparr>)))"

definition encode_arm_for_production_request :: "ciborium \<Rightarrow> arm_for_production_request \<Rightarrow> protocol_error + bytes" where
  "encode_arm_for_production_request cb r = encode_value cb (w_map
     [(1, w_uint PROTOCOL_VERSION), (2, encode_authorized_producer_state (af_authorized_state r)),
      (3, encode_recent_chain_proof (af_recent_chain_proof r))])"

definition decode_arm_for_production_request :: "ciborium \<Rightarrow> bytes \<Rightarrow> protocol_error + arm_for_production_request" where
  "decode_arm_for_production_request cb bs =
     res_bind (decode_versioned_map cb
       (RecentChainProofValidation ''ARM_FOR_PRODUCTION request must be a CBOR map'') bs) (\<lambda>(_, m).
     res_bind (res_bind (wire_map_get m 2) decode_authorized_producer_state) (\<lambda>s.
     res_bind (res_bind (wire_map_get m 3) decode_recent_chain_proof) (\<lambda>p.
     Inr \<lparr>af_authorized_state = s, af_recent_chain_proof = p\<rparr>)))"

definition decode_authorization_ticket_payload :: "wire_value \<Rightarrow> protocol_error + authorization_ticket_payload" where
  "decode_authorization_ticket_payload v =
     res_bind (the_map (RecentChainProofValidation ''ticket must be a CBOR map'') v) (\<lambda>m.
     res_bind (res_bind (wire_map_get m 1) value_to_u8) (\<lambda>ty.
     res_bind (res_bind (wire_map_get m 2) value_to_u64) (\<lambda>nonce.
     res_bind (res_bind (wire_map_get m 3) value_to_bytes32) (\<lambda>ctx.
     res_bind (res_bind (wire_map_get m 4) value_to_u64) (\<lambda>act.
     res_bind (res_bind (wire_map_get m 5) value_to_bytes) (\<lambda>meas.
     res_bind (res_bind (wire_map_get m 6) value_to_bytes) (\<lambda>pk.
     res_bind (res_bind (wire_map_get m 7) value_to_optional_bytes32) (\<lambda>fork.
     res_bind (res_bind (wire_map_get m 8) value_to_optional_u32) (\<lambda>ver.
     Inr \<lparr>tk_ticket_type = ty, tk_nonce = nonce, tk_context_hash = ctx, tk_activation_height = act,
       tk_new_measurement = meas, tk_pq_pubkey = pk, tk_fork_spec_hash = fork,
       tk_new_header_version = ver\<rparr>)))))))))"

text \<open>The ticket map of the request.\<close>

definition encode_ticket :: "authorization_ticket_payload \<Rightarrow> wire_value" where
  "encode_ticket t = w_map
     [(1, w_uint (tk_ticket_type t)), (2, w_uint (tk_nonce t)), (3, WBytes (tk_context_hash t)),
      (4, w_uint (tk_activation_height t)), (5, WBytes (tk_new_measurement t)),
      (6, WBytes (tk_pq_pubkey t)), (7, w_opt WBytes (tk_fork_spec_hash t)),
      (8, w_opt w_uint (tk_new_header_version t)), (9, WNull)]"

definition encode_sign_authorization_ticket_request :: "ciborium \<Rightarrow> authorization_ticket_payload \<Rightarrow> protocol_error + bytes" where
  "encode_sign_authorization_ticket_request cb t = encode_value cb (w_map
     [(1, w_uint PROTOCOL_VERSION),
      (2, encode_ticket t)])"

definition decode_sign_authorization_ticket_request :: "ciborium \<Rightarrow> bytes \<Rightarrow> protocol_error + authorization_ticket_payload" where
  "decode_sign_authorization_ticket_request cb bs =
     res_bind (decode_versioned_map cb
       (RecentChainProofValidation ''SIGN_AUTHORIZATION_TICKET request must be a CBOR map'') bs) (\<lambda>(_, m).
     res_bind (wire_map_get m 2) decode_authorization_ticket_payload)"

definition encode_sign_authorization_ticket_response :: "ciborium \<Rightarrow> sign_authorization_ticket_response \<Rightarrow> protocol_error + bytes" where
  "encode_sign_authorization_ticket_response cb r = encode_value cb (w_map
     [(1, w_uint PROTOCOL_VERSION), (2, WBytes (sar_signature r)), (3, WBytes (sar_ticket_hash r))])"

definition decode_sign_authorization_ticket_response :: "ciborium \<Rightarrow> bytes \<Rightarrow> protocol_error + sign_authorization_ticket_response" where
  "decode_sign_authorization_ticket_response cb bs =
     res_bind (decode_versioned_map cb
       (RecentChainProofValidation ''SIGN_AUTHORIZATION_TICKET response must be a CBOR map'') bs) (\<lambda>(_, m).
     res_bind (res_bind (wire_map_get m 2) value_to_bytes) (\<lambda>sig.
     res_bind (res_bind (wire_map_get m 3) value_to_bytes32) (\<lambda>h.
     Inr \<lparr>sar_signature = sig, sar_ticket_hash = h\<rparr>)))"

definition encode_sign_block_root_request :: "ciborium \<Rightarrow> bytes \<Rightarrow> protocol_error + bytes" where
  "encode_sign_block_root_request cb block_hash = encode_value cb (w_map
     [(1, w_uint PROTOCOL_VERSION), (2, WBytes block_hash)])"

definition decode_sign_block_root_request :: "ciborium \<Rightarrow> bytes \<Rightarrow> protocol_error + bytes" where
  "decode_sign_block_root_request cb bs =
     res_bind (decode_versioned_map cb (WireProtocol ''SIGN_BLOCK_ROOT request must be a CBOR map'') bs) (\<lambda>(_, m).
     res_bind (wire_map_get m 2) value_to_bytes32)"

definition encode_sign_block_root_response :: "ciborium \<Rightarrow> sign_block_root_response \<Rightarrow> protocol_error + bytes" where
  "encode_sign_block_root_response cb r = encode_value cb (w_map
     [(1, w_uint PROTOCOL_VERSION), (2, WBytes (sbr_signature r)), (3, WBytes (sbr_signed_hash r))])"

definition decode_sign_block_root_response :: "ciborium \<Rightarrow> bytes \<Rightarrow> protocol_error + sign_block_root_response" where
  "decode_sign_block_root_response cb bs =
     res_bind (decode_versioned_map cb (WireProtocol ''SIGN_BLOCK_ROOT response must be a CBOR map'') bs) (\<lambda>(_, m).
     res_bind (res_bind (wire_map_get m 2) value_to_bytes) (\<lambda>sig.
     res_bind (res_bind (wire_map_get m 3) value_to_bytes32) (\<lambda>h.
     Inr \<lparr>sbr_signature = sig, sbr_signed_hash = h\<rparr>)))"

section \<open>Fields\<close>

text \<open>The contract of a field: its decoder inverts its encoder on the well-formed values, which are
  never encoded as null.\<close>

locale field_codec =
  fixes enc :: "'a \<Rightarrow> wire_value"
    and dec :: "wire_value \<Rightarrow> protocol_error + 'a"
    and ok :: "'a \<Rightarrow> bool"
  assumes dec_enc: "ok a \<Longrightarrow> dec (enc a) = Inr a"
    and enc_not_null: "enc a \<noteq> WNull"
begin

lemma list_dec_enc: "\<forall>a \<in> set as. ok a \<Longrightarrow> res_mapM dec (map enc as) = Inr as"
  by (induction as) (simp_all add: dec_enc)

lemma opt_dec_enc: "pred_option ok m \<Longrightarrow> value_to_optional dec (w_opt enc m) = Inr m"
  by (cases m) (simp_all add: value_to_optional_def w_opt_def dec_enc enc_not_null)

end

definition h32 :: "bytes \<Rightarrow> bool" where "h32 b \<longleftrightarrow> length b = 32"

lemma w_uint_not_null [simp]: "w_uint x \<noteq> WNull"
  by (simp add: w_uint_def)

lemma value_to_u64_w_uint:
  assumes "LENGTH('a) \<le> 64"
  shows "value_to_u64 (w_uint (x :: 'a :: len word)) = Inr (ucast x)"
proof -
  have "uint x < 2 ^ LENGTH('a)" by (rule uint_lt2p)
  also have "\<dots> \<le> (2 :: int) ^ 64" using assms by (rule power_increasing) simp
  finally have "uint x < 2 ^ 64" .
  moreover have "(of_int (uint x) :: u64) = ucast x" by (rule ucast_eq [symmetric])
  ultimately show ?thesis by (simp only: w_uint_def value_to_u64.simps uint_ge_0 simp_thms if_True)
qed

lemma unat_u32_lt [simp]: "unat (x :: u32) < 4294967296"
  using unat_less_word [of x] by simp

lemma ucast_down_up: "LENGTH('a) \<le> LENGTH('b) \<Longrightarrow> ucast (ucast (x :: 'a :: len word) :: 'b :: len word) = x"
  by (metis ucast_down_ucast_id is_down)

interpretation bytes_field: field_codec WBytes value_to_bytes "\<lambda>_. True"
  by unfold_locales simp_all

interpretation hash_field: field_codec WBytes value_to_bytes32 h32
  by unfold_locales (simp_all add: value_to_bytes32_def h32_def)

interpretation u64_field: field_codec "w_uint :: u64 \<Rightarrow> wire_value" value_to_u64 "\<lambda>_. True"
  by unfold_locales (simp_all add: value_to_u64_w_uint)

interpretation u8_field: field_codec "w_uint :: u8 \<Rightarrow> wire_value" value_to_u8 "\<lambda>_. True"
  by unfold_locales (simp_all add: value_to_u8_def value_to_u64_w_uint ucast_down_up unat_ucast_up)

interpretation ticket_type_field: field_codec "w_uint :: u8 \<Rightarrow> wire_value" value_to_ticket_type "\<lambda>_. True"
  by unfold_locales (simp_all add: value_to_ticket_type_def value_to_u64_w_uint ucast_down_up unat_ucast_up)

interpretation u32_field: field_codec "w_uint :: u32 \<Rightarrow> wire_value" value_to_u32 "\<lambda>_. True"
  by unfold_locales (simp_all add: value_to_u32_def value_to_u64_w_uint ucast_down_up unat_ucast_up)

lemma map_get_opt_Cons [simp]:
  "map_get_opt ((WInteger i, v) # m) j = (if i = int j then Some v else map_get_opt m j)"
  by (simp add: map_get_opt_def)

lemma map_get_opt_Nil [simp]: "map_get_opt [] j = None"
  by (simp add: map_get_opt_def)

lemma the_map_w_map [simp]: "the_map e (w_map kvs) = Inr (map (\<lambda>(k, v). (WInteger (int k), v)) kvs)"
  by (simp add: the_map_def w_map_def)

lemma the_map_eq_Inr [res_simps]: "the_map e v = Inr m \<longleftrightarrow> v = WMap m"
  by (cases v) (auto simp: the_map_def)

lemma map_get_eq [simp]: "wire_map_get m k = ok_or (RecentChainProofValidation ''missing required CBOR map key'') (map_get_opt m k)"
  by (simp add: wire_map_get_def)

lemma value_to_array_WArray [simp]: "value_to_array e (WArray vs) = Inr vs"
  by (simp add: value_to_array_def)

lemma w_map_not_null [simp]: "w_map kvs \<noteq> WNull"
  by (simp add: w_map_def)

definition authorized_typed :: "authorized_producer_state \<Rightarrow> bool" where
  "authorized_typed s \<longleftrightarrow> h32 (ap_source_ticket_hash s)"

definition proof_typed :: "recent_chain_proof \<Rightarrow> bool" where
  "proof_typed p \<longleftrightarrow> h32 (cp_finalized_header_hash p) \<and> (\<forall>h \<in> set (cp_recovery_history_tail p). h32 h)"

definition ticket_typed :: "authorization_ticket_payload \<Rightarrow> bool" where
  "ticket_typed t \<longleftrightarrow> h32 (tk_context_hash t) \<and> pred_option h32 (tk_fork_spec_hash t)"

lemmas wire_fields = bytes_field.dec_enc hash_field.dec_enc u64_field.dec_enc u8_field.dec_enc
  u32_field.dec_enc bytes_field.opt_dec_enc hash_field.opt_dec_enc u64_field.opt_dec_enc
  u32_field.opt_dec_enc hash_field.list_dec_enc ticket_type_field.list_dec_enc
  value_to_optional_u64_def value_to_optional_bytes32_def value_to_optional_u32_def

lemma pred_option_True [simp]: "pred_option (\<lambda>_. True) m"
  by (cases m) simp_all

interpretation authorized_field: field_codec encode_authorized_producer_state decode_authorized_producer_state authorized_typed
  by unfold_locales
    (simp_all add: encode_authorized_producer_state_def decode_authorized_producer_state_def authorized_typed_def
      wire_fields del: value_to_bytes.simps)

interpretation proof_field: field_codec encode_recent_chain_proof decode_recent_chain_proof proof_typed
  by unfold_locales
    (simp_all add: encode_recent_chain_proof_def decode_recent_chain_proof_def proof_typed_def wire_fields
      del: value_to_bytes.simps)

interpretation ticket_field: field_codec encode_ticket decode_authorization_ticket_payload ticket_typed
  by unfold_locales
    (simp_all add: encode_ticket_def decode_authorization_ticket_payload_def ticket_typed_def wire_fields
      del: value_to_bytes.simps)

section \<open>Messages\<close>

lemma decode_encode_value:
  "ciborium_correct cb \<Longrightarrow> encode_value cb v = Inr bs \<Longrightarrow> decode_value cb bs = Inr v"
  by (simp add: ciborium_correct_def encode_value_def decode_value_def res_simps)

lemma decode_value_Inr:
  "decode_value cb bs = Inr v \<longleftrightarrow> cb_de cb bs = Some (v, length bs)"
  by (auto simp: decode_value_def res_simps)

lemma PROTOCOL_VERSION_ok: "require_protocol_version v = Inr u \<longleftrightarrow> v = 1"
proof -
  have "unat v < 256 \<and> (ucast v :: u8) = 1 \<longleftrightarrow> v = 1"
  proof
    assume v: "unat v < 256 \<and> (ucast v :: u8) = 1"
    have "unat (ucast v :: u8) = unat v mod 256" by (rule unat_ucast_u8)
    also have "\<dots> = unat v" using v by simp
    finally have "unat (ucast v :: u8) = unat v" .
    then have "unat v = unat (1 :: u8)" using v by metis
    then have "unat v = unat (1 :: u64)" by simp
    then show "v = 1" by (simp only: word_unat_eq_iff)
  qed simp
  then show ?thesis by (auto simp: require_protocol_version_def PROTOCOL_VERSION_def not_le)
qed

lemma decode_versioned_map_Inr:
  "decode_versioned_map cb e bs = Inr (v, m) \<longleftrightarrow>
     cb_de cb bs = Some (WMap m, length bs) \<and> v = 1 \<and> map_get_opt m 1 = Some (WInteger 1)"
proof -
  have "value_to_u64 w = Inr 1 \<longleftrightarrow> w = WInteger 1" for w
  proof (cases w)
    case (WInteger i)
    have "(of_int i :: u64) = 1 \<longleftrightarrow> i = 1" if "0 \<le> i" "i < 2 ^ 64"
    proof
      assume "(of_int i :: u64) = 1"
      then have "uint (of_int i :: u64) = uint (1 :: u64)" by simp
      then show "i = 1" using that by (simp add: unsigned_of_int take_bit_int_eq_self)
    qed simp
    with WInteger show ?thesis by auto
  qed auto
  then show ?thesis
    by (auto simp: decode_versioned_map_def decode_value_Inr res_simps PROTOCOL_VERSION_ok)
qed

lemma decode_versioned_encode:
  assumes "ciborium_correct cb" "encode_value cb (w_map ((1, w_uint PROTOCOL_VERSION) # kvs)) = Inr bs"
  shows "decode_versioned_map cb e bs
    = Inr (1, (WInteger 1, WInteger 1) # map (\<lambda>(k, v). (WInteger (int k), v)) kvs)"
  using decode_encode_value [OF assms]
  by (simp add: decode_versioned_map_Inr decode_value_Inr w_map_def w_uint_def PROTOCOL_VERSION_def map_get_opt_def)

lemmas message_defs =
  encode_get_measurement_request_def decode_get_measurement_request_def
  encode_get_measurement_response_def decode_get_measurement_response_def
  encode_get_status_request_def decode_get_status_request_def
  encode_get_status_response_def decode_get_status_response_def
  encode_arm_for_production_request_def decode_arm_for_production_request_def
  encode_sign_authorization_ticket_request_def decode_sign_authorization_ticket_request_def
  encode_sign_authorization_ticket_response_def decode_sign_authorization_ticket_response_def
  encode_sign_block_root_request_def decode_sign_block_root_request_def
  encode_sign_block_root_response_def decode_sign_block_root_response_def

lemma ucast_1_version: "PROTOCOL_VERSION = 1"
  by (simp add: PROTOCOL_VERSION_def)

text \<open>Requests and responses are read back, each in turn.\<close>

lemma request_roundtrips:
  assumes cb: "ciborium_correct cb"
  shows "encode_get_measurement_request cb \<lparr>gmq_version = PROTOCOL_VERSION\<rparr> = Inr bs
      \<Longrightarrow> decode_get_measurement_request cb bs = Inr \<lparr>gmq_version = PROTOCOL_VERSION\<rparr>"
    and "encode_get_status_request cb PROTOCOL_VERSION = Inr bs
      \<Longrightarrow> decode_get_status_request cb bs = Inr PROTOCOL_VERSION"
    and "authorized_typed (af_authorized_state a) \<Longrightarrow> proof_typed (af_recent_chain_proof a)
      \<Longrightarrow> encode_arm_for_production_request cb a = Inr bs \<Longrightarrow> decode_arm_for_production_request cb bs = Inr a"
    and "ticket_typed t \<Longrightarrow> encode_sign_authorization_ticket_request cb t = Inr bs
      \<Longrightarrow> decode_sign_authorization_ticket_request cb bs = Inr t"
    and "h32 b \<Longrightarrow> encode_sign_block_root_request cb b = Inr bs \<Longrightarrow> decode_sign_block_root_request cb bs = Inr b"
  using decode_versioned_encode [OF cb, unfolded ucast_1_version]
  by (simp_all add: message_defs ucast_1_version authorized_field.dec_enc
      proof_field.dec_enc ticket_field.dec_enc hash_field.dec_enc)

lemma response_roundtrips:
  assumes cb: "ciborium_correct cb"
  shows "encode_get_measurement_response cb gm = Inr bs \<Longrightarrow> decode_get_measurement_response cb bs = Inr gm"
    and "pred_option h32 (gs_source_ticket_hash gs)
      \<Longrightarrow> encode_get_status_response cb gs = Inr bs \<Longrightarrow> decode_get_status_response cb bs = Inr gs"
    and "h32 (sar_ticket_hash sa) \<Longrightarrow> encode_sign_authorization_ticket_response cb sa = Inr bs
      \<Longrightarrow> decode_sign_authorization_ticket_response cb bs = Inr sa"
    and "h32 (sbr_signed_hash sb) \<Longrightarrow> encode_sign_block_root_response cb sb = Inr bs
      \<Longrightarrow> decode_sign_block_root_response cb bs = Inr sb"
  using decode_versioned_encode [OF cb]
  by (simp_all add: message_defs wire_fields del: value_to_bytes.simps)

lemma arm_response_roundtrip:
  assumes cb: "ciborium_correct cb"
    and ar: "ar = \<lparr>ar_status = ''armed'', ar_reason = None\<rparr> \<or> ar = \<lparr>ar_status = ''refused'', ar_reason = Some reason\<rparr>"
    and enc: "encode_arm_for_production_response cb ar = Inr bs"
  shows "decode_arm_for_production_response cb bs = Inr ar"
  using ar enc decode_encode_value [OF cb]
  by (auto simp: encode_arm_for_production_response_def decode_arm_for_production_response_def
      encode_wire_error_def w_map_def the_map_def)

lemma wire_error_roundtrip:
  assumes cb: "ciborium_correct cb" and code: "0 \<le> code" "code < 2 ^ 63"
    and enc: "encode_wire_error cb code reason = Inr bs"
  shows "decode_wire_error cb bs = Inr (code, reason)"
proof -
  have "sint (word_of_int code :: u64) = code"
    using code by (simp add: sint_sbintrunc' signed_take_bit_int_eq_self)
  then show ?thesis
    using decode_encode_value [OF cb enc [unfolded encode_wire_error_def]] code
    by (simp add: decode_wire_error_def is_wire_error_map_def)
qed

text \<open>A success response of a command is never taken for a wire error.\<close>

lemma success_is_no_wire_error:
  assumes cb: "ciborium_correct cb"
    and enc: "encode_get_measurement_response cb gm = Inr bs \<or> encode_get_status_response cb gs = Inr bs
      \<or> encode_sign_authorization_ticket_response cb sa = Inr bs \<or> encode_sign_block_root_response cb sb = Inr bs
      \<or> encode_arm_for_production_response cb \<lparr>ar_status = ''armed'', ar_reason = None\<rparr> = Inr bs"
  shows "\<not> is_wire_error_payload cb bs"
proof -
  have *: "is_wire_error_map (map (\<lambda>(k, v). (WInteger (int k), v)) kvs)"
    if "encode_value cb (w_map kvs) = Inr bs" "is_wire_error_payload cb bs" for kvs
    using decode_encode_value [OF cb that(1)] that(2)
    by (simp add: is_wire_error_payload_def decode_wire_error_def split: if_splits)
  from enc show ?thesis
    by (elim disjE) (auto simp: message_defs encode_arm_for_production_response_def is_wire_error_map_def w_uint_def
        dest: *)
qed

section \<open>Properties\<close>

text \<open>Every message of the producer protocol is read back as it was written: requests and
  responses of all five commands with well-formed fields, both answers to
  \<open>ARM_FOR_PRODUCTION\<close>, and error bodies with their code and reason.\<close>

theorem wire_messages_roundtrip:
  assumes cb: "ciborium_correct cb"
    and ok: "authorized_typed (af_authorized_state a)" "proof_typed (af_recent_chain_proof a)" "ticket_typed t"
      "h32 root" "pred_option h32 (gs_source_ticket_hash gs)" "h32 (sar_ticket_hash sa)"
      "h32 (sbr_signed_hash sb)" "0 \<le> code" "code < 2 ^ 63"
  shows "(encode_arm_for_production_request cb a = Inr bs \<longrightarrow> decode_arm_for_production_request cb bs = Inr a)
    \<and> (encode_sign_authorization_ticket_request cb t = Inr bs
        \<longrightarrow> decode_sign_authorization_ticket_request cb bs = Inr t)
    \<and> (encode_sign_block_root_request cb root = Inr bs \<longrightarrow> decode_sign_block_root_request cb bs = Inr root)
    \<and> (encode_get_measurement_response cb gm = Inr bs \<longrightarrow> decode_get_measurement_response cb bs = Inr gm)
    \<and> (encode_get_status_response cb gs = Inr bs \<longrightarrow> decode_get_status_response cb bs = Inr gs)
    \<and> (encode_sign_authorization_ticket_response cb sa = Inr bs
        \<longrightarrow> decode_sign_authorization_ticket_response cb bs = Inr sa)
    \<and> (encode_sign_block_root_response cb sb = Inr bs \<longrightarrow> decode_sign_block_root_response cb bs = Inr sb)
    \<and> (encode_wire_error cb code reason = Inr bs \<longrightarrow> decode_wire_error cb bs = Inr (code, reason))"
  using ok request_roundtrips [OF cb] response_roundtrips [OF cb] wire_error_roundtrip [OF cb] by simp

text \<open>A writer and reader for one value, for the witnesses.\<close>

definition one_value :: "wire_value \<Rightarrow> ciborium" where
  "one_value v = \<lparr>cb_ser = (\<lambda>w. if w = v then Some [1] else None),
     cb_de = (\<lambda>b. if b = [1] then Some (v, 1) else None)\<rparr>"

lemma one_value_correct: "ciborium_correct (one_value v)"
  by (simp add: ciborium_correct_def one_value_def)

definition sample_authorized :: authorized_producer_state where
  "sample_authorized = \<lparr>ap_pq_pubkey = [7, 7], ap_measurement = [9], ap_activated_at_height = 100,
     ap_source_ticket_hash = replicate 32 3\<rparr>"

definition sample_ticket :: authorization_ticket_payload where
  "sample_ticket = \<lparr>tk_ticket_type = 1, tk_nonce = 5, tk_context_hash = replicate 32 1,
     tk_activation_height = 900, tk_new_measurement = [9, 9], tk_pq_pubkey = [7, 7],
     tk_fork_spec_hash = Some (replicate 32 2), tk_new_header_version = Some 4\<rparr>"

definition sample_unsigned_proof :: recent_chain_proof where
  "sample_unsigned_proof = \<lparr>cp_finalized_height = 120, cp_finalized_header_hash = replicate 32 8,
     cp_recovery_history_tail = [replicate 32 3], cp_proof_data = [], cp_signature = None\<rparr>"

definition sample_ticket_value :: wire_value where
  "sample_ticket_value = w_map [(1, w_uint PROTOCOL_VERSION), (2, encode_ticket sample_ticket)]"

lemma wire_messages_roundtrip_witness:
  "encode_sign_authorization_ticket_request (one_value sample_ticket_value) sample_ticket = Inr [1]
   \<and> decode_sign_authorization_ticket_request (one_value sample_ticket_value) [1] = Inr sample_ticket"
proof -
  let ?cb = "one_value sample_ticket_value"
  let ?a = "\<lparr>af_authorized_state = sample_authorized, af_recent_chain_proof = sample_unsigned_proof\<rparr>"
  let ?sa = "\<lparr>sar_signature = [], sar_ticket_hash = replicate 32 0\<rparr>"
  let ?sb = "\<lparr>sbr_signature = [], sbr_signed_hash = replicate 32 0\<rparr>"
  let ?gs = "\<lparr>gs_armed = False, gs_authorized_measurement = [], gs_authorized_pq_pubkey = [],
    gs_authorized_activated_at_height = None, gs_proof_finalized_height = None, gs_source_ticket_hash = None,
    gs_pending_hard_fork_height = None, gs_last_known_block = None\<rparr>"
  have enc: "encode_sign_authorization_ticket_request ?cb sample_ticket = Inr [1]"
    by (simp add: encode_sign_authorization_ticket_request_def encode_value_def one_value_def sample_ticket_value_def)
  have 1: "authorized_typed (af_authorized_state ?a)" "proof_typed (af_recent_chain_proof ?a)" "ticket_typed sample_ticket"
    "h32 (replicate 32 0)" "pred_option h32 (gs_source_ticket_hash ?gs)" "h32 (sar_ticket_hash ?sa)"
    "h32 (sbr_signed_hash ?sb)" "(0 :: int) \<le> 2" "(2 :: int) < 2 ^ 63"
    by (simp_all add: authorized_typed_def proof_typed_def ticket_typed_def h32_def sample_authorized_def
        sample_unsigned_proof_def sample_ticket_def)
  show ?thesis
    using enc wire_messages_roundtrip [OF one_value_correct [of sample_ticket_value] 1] by blast
qed

end
