(* ===== verification/Chain_Proof.thy ===== *)
theory Chain_Proof
  imports Wire Crypto
begin

text \<open>
  The Producer Chain Attestation v1 of \<open>chain_proof_crypto.rs\<close>: the digest of the recovery tail, the
  \<open>proof_data\<close> envelope, the signing preimage and the Ed25519 verification, with the structural
  checks of \<open>validate_recent_chain_proof\<close> (\<open>lib.rs\<close>). Ed25519 (\<open>ed25519_dalek\<close>, the non-strict
  \<open>verify\<close>) is a parameter; the trust anchor is the 32 bytes of its verifying key.
\<close>

record ed25519 =
  ed_from_bytes_ok :: "bytes \<Rightarrow> bool"
  ed_public :: "bytes \<Rightarrow> bytes"
  ed_sign :: "bytes \<Rightarrow> bytes \<Rightarrow> bytes"
  ed_verify :: "bytes \<Rightarrow> bytes \<Rightarrow> bytes \<Rightarrow> bool"

definition trust_from_verifying_key_bytes :: "ed25519 \<Rightarrow> bytes \<Rightarrow> protocol_error + bytes" where
  "trust_from_verifying_key_bytes E bs =
     (if ed_from_bytes_ok E bs then Inr bs
      else Inl (RecentChainProofValidation ''invalid attestation Ed25519 public key''))"

definition PROOF_DATA_FORMAT_V1 :: u8 where "PROOF_DATA_FORMAT_V1 = 1"
definition PROOF_DATA_V1_LEN :: nat where "PROOF_DATA_V1_LEN = 33"
definition PRODUCER_ATTESTATION_SIGNATURE_LEN :: nat where "PRODUCER_ATTESTATION_SIGNATURE_LEN = 64"
definition SIGNING_DOMAIN :: bytes where "SIGNING_DOMAIN = ascii ''2d-hsm/RecentChainProof/v1'' @ [0]"

definition compute_recovery_tail_digest :: "crypto \<Rightarrow> bytes list \<Rightarrow> bytes" where
  "compute_recovery_tail_digest C recovery_history_tail = keccak_256 C (concat recovery_history_tail)"

definition build_proof_data_v1 :: "crypto \<Rightarrow> bytes list \<Rightarrow> bytes" where
  "build_proof_data_v1 C recovery_history_tail =
     PROOF_DATA_FORMAT_V1 # compute_recovery_tail_digest C recovery_history_tail"

definition recent_chain_proof_signing_preimage :: "recent_chain_proof \<Rightarrow> authorized_producer_state \<Rightarrow> bytes \<Rightarrow> bytes" where
  "recent_chain_proof_signing_preimage proof authorized recovery_tail_digest =
     SIGNING_DOMAIN @ be64 (cp_finalized_height proof) @ cp_finalized_header_hash proof
     @ be64 (ap_activated_at_height authorized) @ ap_source_ticket_hash authorized @ recovery_tail_digest
     @ be32 (of_nat (length (ap_pq_pubkey authorized))) @ ap_pq_pubkey authorized
     @ be32 (of_nat (length (ap_measurement authorized))) @ ap_measurement authorized"

definition parse_proof_data_v1 :: "bytes \<Rightarrow> protocol_error + bytes" where
  "parse_proof_data_v1 proof_data =
     (if length proof_data \<noteq> PROOF_DATA_V1_LEN
      then Inl (RecentChainProofValidation ''proof_data must be exactly 33 bytes for Producer Chain Attestation v1'')
      else if proof_data ! 0 \<noteq> PROOF_DATA_FORMAT_V1
      then Inl (RecentChainProofValidation ''unsupported proof_data format (expected 0x01)'')
      else Inr (take 32 (drop 1 proof_data)))"

definition sign_recent_chain_proof :: "crypto \<Rightarrow> ed25519 \<Rightarrow> recent_chain_proof \<Rightarrow> authorized_producer_state
    \<Rightarrow> bytes \<Rightarrow> protocol_error + bytes \<times> bytes" where
  "sign_recent_chain_proof C E proof authorized sk =
     (let proof_data = build_proof_data_v1 C (cp_recovery_history_tail proof) in
      res_bind (parse_proof_data_v1 proof_data) (\<lambda>parsed.
      let expected_digest = compute_recovery_tail_digest C (cp_recovery_history_tail proof) in
      if parsed \<noteq> expected_digest
      then Inl (RecentChainProofValidation ''internal tail digest mismatch while signing'')
      else Inr (proof_data, ed_sign E sk (recent_chain_proof_signing_preimage proof authorized expected_digest))))"

definition build_signed_recent_chain_proof :: "crypto \<Rightarrow> ed25519 \<Rightarrow> u64 \<Rightarrow> bytes \<Rightarrow> bytes list
    \<Rightarrow> authorized_producer_state \<Rightarrow> bytes \<Rightarrow> protocol_error + recent_chain_proof" where
  "build_signed_recent_chain_proof C E finalized_height finalized_header_hash recovery_history_tail authorized sk =
     (let proof = \<lparr>cp_finalized_height = finalized_height, cp_finalized_header_hash = finalized_header_hash,
        cp_recovery_history_tail = recovery_history_tail, cp_proof_data = [], cp_signature = None\<rparr> in
      res_bind (sign_recent_chain_proof C E proof authorized sk) (\<lambda>(proof_data, signature).
      Inr (proof\<lparr>cp_proof_data := proof_data, cp_signature := Some signature\<rparr>)))"

definition verify_recent_chain_proof_crypto :: "crypto \<Rightarrow> ed25519 \<Rightarrow> recent_chain_proof \<Rightarrow> authorized_producer_state
    \<Rightarrow> bytes \<Rightarrow> protocol_error + unit" where
  "verify_recent_chain_proof_crypto C E proof authorized trust =
     (if cp_proof_data proof = []
      then Inl (RecentChainProofValidation ''proof_data must not be empty (Producer Chain Attestation v1 required)'')
      else
        res_bind (parse_proof_data_v1 (cp_proof_data proof)) (\<lambda>parsed.
        if parsed \<noteq> compute_recovery_tail_digest C (cp_recovery_history_tail proof)
        then Inl (RecentChainProofValidation ''proof_data recovery_tail_digest does not match recovery_history_tail'')
        else
          res_bind (ok_or (RecentChainProofValidation ''signature_from_recent_producer is required'')
            (cp_signature proof)) (\<lambda>signature.
          if length signature \<noteq> PRODUCER_ATTESTATION_SIGNATURE_LEN
          then Inl (RecentChainProofValidation ''signature_from_recent_producer must be 64 bytes (Ed25519)'')
          else if \<not> ed_verify E trust (recent_chain_proof_signing_preimage proof authorized parsed) signature
          then Inl (RecentChainProofValidation ''Ed25519 signature over RecentChainProof preimage is invalid for the trusted attestation key'')
          else Inr ())))"

text \<open>The \<open>for\<close> loop over the tail.\<close>

fun reject_zero_hashes :: "bytes list \<Rightarrow> protocol_error + unit" where
  "reject_zero_hashes [] = Inr ()"
| "reject_zero_hashes (h # hs) =
     (if h = replicate 32 0 then Inl (RecentChainProofValidation ''recovery_history_tail contains zero hash'')
      else reject_zero_hashes hs)"

definition validate_recent_chain_proof :: "crypto \<Rightarrow> ed25519 \<Rightarrow> recent_chain_proof \<Rightarrow> authorized_producer_state
    \<Rightarrow> bytes \<Rightarrow> protocol_error + unit" where
  "validate_recent_chain_proof C E proof authorized trust =
     (if cp_finalized_header_hash proof = replicate 32 0
      then Inl (RecentChainProofValidation ''finalized_header_hash must not be zero'')
      else if cp_finalized_height proof = 0
      then Inl (RecentChainProofValidation ''finalized_height must be positive'')
      else if cp_finalized_height proof < ap_activated_at_height authorized
      then Inl (RecentChainProofValidation ''finalized_height is older than the authorized state's activation height (stale/replay)'')
      else if cp_recovery_history_tail proof \<noteq> []
          \<and> \<not> list_ex (\<lambda>h. h = ap_source_ticket_hash authorized) (cp_recovery_history_tail proof)
      then Inl (RecentChainProofValidation ''recovery_history_tail is non-empty but does not contain the claimed source_ticket_hash (possible replay or superseded state)'')
      else res_bind (reject_zero_hashes (cp_recovery_history_tail proof)) (\<lambda>_.
        verify_recent_chain_proof_crypto C E proof authorized trust))"

section \<open>What a valid proof is\<close>

text \<open>The attestation of a proof: its signed preimage, and the checks, as one predicate.\<close>

definition attested_preimage :: "crypto \<Rightarrow> recent_chain_proof \<Rightarrow> authorized_producer_state \<Rightarrow> bytes" where
  "attested_preimage C p a =
     recent_chain_proof_signing_preimage p a (compute_recovery_tail_digest C (cp_recovery_history_tail p))"

definition chain_proof_valid :: "crypto \<Rightarrow> ed25519 \<Rightarrow> recent_chain_proof \<Rightarrow> authorized_producer_state \<Rightarrow> bytes \<Rightarrow> bool" where
  "chain_proof_valid C E p a trust \<longleftrightarrow>
     cp_finalized_header_hash p \<noteq> replicate 32 0 \<and> 0 < cp_finalized_height p
     \<and> ap_activated_at_height a \<le> cp_finalized_height p
     \<and> (cp_recovery_history_tail p = [] \<or> ap_source_ticket_hash a \<in> set (cp_recovery_history_tail p))
     \<and> replicate 32 0 \<notin> set (cp_recovery_history_tail p)
     \<and> cp_proof_data p = PROOF_DATA_FORMAT_V1 # compute_recovery_tail_digest C (cp_recovery_history_tail p)
     \<and> length (cp_proof_data p) = 33
     \<and> (\<exists>sig. cp_signature p = Some sig \<and> length sig = 64 \<and> ed_verify E trust (attested_preimage C p a) sig)"

lemma reject_zero_hashes_Inr: "reject_zero_hashes hs = Inr () \<longleftrightarrow> replicate 32 0 \<notin> set hs"
  by (induction hs) auto

lemma parse_proof_data_v1_Inr:
  "parse_proof_data_v1 pd = Inr d \<longleftrightarrow> length pd = 33 \<and> pd = PROOF_DATA_FORMAT_V1 # d"
proof (cases pd)
  case (Cons x xs)
  then show ?thesis by (auto simp: parse_proof_data_v1_def PROOF_DATA_V1_LEN_def)
qed (simp add: parse_proof_data_v1_def PROOF_DATA_V1_LEN_def)

lemma verify_recent_chain_proof_crypto_Inr:
  "verify_recent_chain_proof_crypto C E p a trust = Inr () \<longleftrightarrow>
     cp_proof_data p = PROOF_DATA_FORMAT_V1 # compute_recovery_tail_digest C (cp_recovery_history_tail p)
     \<and> length (cp_proof_data p) = 33
     \<and> (\<exists>sig. cp_signature p = Some sig \<and> length sig = 64 \<and> ed_verify E trust (attested_preimage C p a) sig)"
  by (auto simp: verify_recent_chain_proof_crypto_def res_simps parse_proof_data_v1_Inr attested_preimage_def
      PRODUCER_ATTESTATION_SIGNATURE_LEN_def)

lemma validate_recent_chain_proof_Inr:
  "validate_recent_chain_proof C E p a trust = Inr () \<longleftrightarrow> chain_proof_valid C E p a trust"
proof -
  have tail: "list_ex (\<lambda>h. h = x) hs \<longleftrightarrow> x \<in> set hs" for x :: bytes and hs
    by (auto simp: list_ex_iff)
  show ?thesis
    by (auto simp: validate_recent_chain_proof_def chain_proof_valid_def res_simps tail reject_zero_hashes_Inr
        verify_recent_chain_proof_crypto_Inr word_gt_0 not_less split: if_splits)
qed

text \<open>A producer holding the attestation key can always build a proof that verifies.\<close>

definition ed_correct :: "ed25519 \<Rightarrow> bool" where
  "ed_correct E \<longleftrightarrow> (\<forall>sk m. length (ed_sign E sk m) = 64 \<and> ed_verify E (ed_public E sk) m (ed_sign E sk m))"

definition keccak_len :: "crypto \<Rightarrow> bool" where
  "keccak_len C \<longleftrightarrow> (\<forall>m. length (keccak_256 C m) = 32)"

lemma build_signed_recent_chain_proof_valid:
  assumes "keccak_len C" "ed_correct E"
    and "hdr \<noteq> replicate 32 0" "0 < h" "ap_activated_at_height a \<le> h"
    and "tail = [] \<or> ap_source_ticket_hash a \<in> set tail" "replicate 32 0 \<notin> set tail"
  shows "\<exists>p. build_signed_recent_chain_proof C E h hdr tail a sk = Inr p \<and> cp_finalized_height p = h
     \<and> chain_proof_valid C E p a (ed_public E sk)"
proof -
  have len: "length (compute_recovery_tail_digest C tail) = 32"
    using assms(1) by (simp add: keccak_len_def compute_recovery_tail_digest_def)
  have sign: "sign_recent_chain_proof C E p a sk
      = Inr (build_proof_data_v1 C tail, ed_sign E sk (attested_preimage C p a))"
    if "cp_recovery_history_tail p = tail" for p
  proof -
    have "parse_proof_data_v1 (build_proof_data_v1 C tail) = Inr (compute_recovery_tail_digest C tail)"
      using len by (simp add: parse_proof_data_v1_Inr build_proof_data_v1_def)
    then show ?thesis using that by (simp add: sign_recent_chain_proof_def attested_preimage_def)
  qed
  show ?thesis
    using assms len by (simp add: build_signed_recent_chain_proof_def sign chain_proof_valid_def
        build_proof_data_v1_def ed_correct_def)
      (simp add: attested_preimage_def recent_chain_proof_signing_preimage_def)
qed

text \<open>The preimage is a prefix code: the proof's height and header, the producer's activation height,
  source ticket, tail digest, key and measurement are all read off it.\<close>

lemma signing_preimage_binds:
  assumes "proof_typed p" "proof_typed p'" "authorized_typed a" "authorized_typed a'" "length d = 32" "length d' = 32"
    and "length (ap_pq_pubkey a) < 2 ^ 32" "length (ap_pq_pubkey a') < 2 ^ 32"
    and "recent_chain_proof_signing_preimage p a d = recent_chain_proof_signing_preimage p' a' d'"
  shows "cp_finalized_height p = cp_finalized_height p' \<and> cp_finalized_header_hash p = cp_finalized_header_hash p'
    \<and> a = a' \<and> d = d'"
proof -
  have len: "length (ap_pq_pubkey a) = length (ap_pq_pubkey a')"
    if "be32 (of_nat (length (ap_pq_pubkey a))) = be32 (of_nat (length (ap_pq_pubkey a')))"
    using arg_cong [OF that, of be_val] assms(7,8) by (simp add: unat_of_nat)
  show ?thesis
    using assms len
    by (cases a, cases a') (auto simp: recent_chain_proof_signing_preimage_def proof_typed_def authorized_typed_def h32_def
        append_eq_append_conv)
qed

end
