(* ===== verification/Ticket.thy ===== *)
theory Ticket
  imports Wire Crypto
begin

text \<open>
  The authorization ticket of \<open>lib.rs\<close>: its validation and its canonical hash, which the on-chain
  verifier recomputes as \<open>keccak256(abi.encode(...))\<close>. \<open>abi_encode\<close> is the reference: the head and
  tail encoding of the contract ABI for a tuple of static words and dynamic byte strings, written
  from the ABI rules. Lengths and offsets of the source are \<open>u64\<close> and wrap; \<open>rust_len\<close> is the
  bound every Rust slice has (at most \<open>isize::MAX\<close> bytes).
\<close>

section \<open>The source\<close>

definition u64_word :: "u64 \<Rightarrow> bytes" where
  "u64_word v = replicate 24 0 @ be64 v"

definition abi_padding :: "u64 \<Rightarrow> bytes" where
  "abi_padding len =
     (let padding = (32 - len mod 32) mod 32 in if padding > 0 then take (unat padding) (replicate 32 0) else [])"

text \<open>The bytes the hasher of \<open>compute_canonical_ticket_hash\<close> is fed, in order.\<close>

definition canonical_ticket_preimage :: "authorization_ticket_payload \<Rightarrow> bytes" where
  "canonical_ticket_preimage t =
     (let meas_len = of_nat (length (tk_new_measurement t)) :: u64;
          meas_data_padded = 32 + meas_len + (32 - meas_len mod 32) mod 32;
          pq_offset = 256 + meas_data_padded;
          fork_hash = (if tk_ticket_type t = 0 then replicate 32 0
            else case tk_fork_spec_hash t of None \<Rightarrow> replicate 32 0 | Some h \<Rightarrow> h);
          ver = (if tk_ticket_type t = 0 then 0
            else case tk_new_header_version t of None \<Rightarrow> 0 | Some v \<Rightarrow> v);
          pq_len = of_nat (length (tk_pq_pubkey t)) :: u64
      in (replicate 31 0 @ [tk_ticket_type t])
         @ u64_word (tk_nonce t)
         @ tk_context_hash t
         @ u64_word (tk_activation_height t)
         @ u64_word 256
         @ u64_word pq_offset
         @ fork_hash
         @ (replicate 28 0 @ be32 ver)
         @ u64_word meas_len @ tk_new_measurement t @ abi_padding meas_len
         @ u64_word pq_len @ tk_pq_pubkey t @ abi_padding pq_len)"

definition compute_canonical_ticket_hash :: "crypto \<Rightarrow> authorization_ticket_payload \<Rightarrow> bytes" where
  "compute_canonical_ticket_hash C t = keccak_256 C (canonical_ticket_preimage t)"

definition validate_ticket_payload :: "authorization_ticket_payload \<Rightarrow> protocol_error + unit" where
  "validate_ticket_payload t =
     (if tk_ticket_type t = 0 then
        (if tk_fork_spec_hash t \<noteq> None \<or> tk_new_header_version t \<noteq> None
         then Inl (InvalidTicket ''Non-hard-fork tickets must not include hard-fork specific fields'')
         else Inr ())
      else if tk_ticket_type t = 1 then
        res_bind (ok_or (InvalidTicket ''Hard-fork tickets must include fork_spec_hash'') (tk_fork_spec_hash t)) (\<lambda>fork_spec.
        if fork_spec = replicate 32 0 then Inl (InvalidTicket ''Hard-fork fork_spec_hash must be non-zero'')
        else
          res_bind (ok_or (InvalidTicket ''Hard-fork tickets must include new_header_version'')
            (tk_new_header_version t)) (\<lambda>header_version.
          if header_version = 0 then Inl (InvalidTicket ''Hard-fork new_header_version must be non-zero'')
          else Inr ()))
      else Inl (InvalidTicket ''Unsupported ticket_type (only 0 = Recovery and 1 = HardFork are allowed)''))"

definition prepare_ticket_for_signing :: "crypto \<Rightarrow> authorization_ticket_payload \<Rightarrow> protocol_error + bytes" where
  "prepare_ticket_for_signing C t =
     res_bind (validate_ticket_payload t) (\<lambda>_. Inr (compute_canonical_ticket_hash C t))"

definition BLOCK_ROOT_SIGNING_DOMAIN :: bytes where "BLOCK_ROOT_SIGNING_DOMAIN = ascii ''2D_BLOCK_ROOT_V1''"

definition compute_block_root_signing_hash :: "crypto \<Rightarrow> bytes \<Rightarrow> bytes" where
  "compute_block_root_signing_hash C block_hash = keccak_256 C (BLOCK_ROOT_SIGNING_DOMAIN @ block_hash)"

section \<open>The contract ABI\<close>

datatype abi_item = AbiUint nat | AbiBytes32 bytes | AbiBytes bytes

definition abi_word :: "nat \<Rightarrow> bytes" where "abi_word n = be_bytes 32 n"

definition abi_bytes :: "bytes \<Rightarrow> bytes" where
  "abi_bytes b = abi_word (length b) @ b @ replicate ((32 - length b mod 32) mod 32) 0"

fun abi_tail :: "abi_item \<Rightarrow> bytes" where
  "abi_tail (AbiBytes b) = abi_bytes b"
| "abi_tail _ = []"

fun abi_heads :: "nat \<Rightarrow> abi_item list \<Rightarrow> bytes" where
  "abi_heads off [] = []"
| "abi_heads off (x # xs) =
     (case x of AbiUint n \<Rightarrow> abi_word n | AbiBytes32 h \<Rightarrow> h | AbiBytes _ \<Rightarrow> abi_word off)
     @ abi_heads (off + length (abi_tail x)) xs"

definition abi_encode :: "abi_item list \<Rightarrow> bytes" where
  "abi_encode xs = abi_heads (32 * length xs) xs @ concat (map abi_tail xs)"

text \<open>The tuple of the specification: a recovery ticket carries zeros for the hard-fork fields.\<close>

definition ticket_tuple :: "authorization_ticket_payload \<Rightarrow> abi_item list" where
  "ticket_tuple t =
     [AbiUint (unat (tk_ticket_type t)), AbiUint (unat (tk_nonce t)), AbiBytes32 (tk_context_hash t),
      AbiUint (unat (tk_activation_height t)), AbiBytes (tk_new_measurement t), AbiBytes (tk_pq_pubkey t),
      AbiBytes32 (if tk_ticket_type t = 0 then replicate 32 0
        else case tk_fork_spec_hash t of None \<Rightarrow> replicate 32 0 | Some h \<Rightarrow> h),
      AbiUint (if tk_ticket_type t = 0 then 0
        else case tk_new_header_version t of None \<Rightarrow> 0 | Some v \<Rightarrow> unat v)]"

definition rust_len :: "bytes \<Rightarrow> bool" where "rust_len b \<longleftrightarrow> length b < 2 ^ 63"

section \<open>The preimage is the ABI encoding\<close>

lemma be_bytes_zeros: "v < 256 ^ n \<Longrightarrow> be_bytes (k + n) v = replicate k 0 @ be_bytes n v"
proof (induction k)
  case (Suc k)
  have "(256 :: nat) ^ n \<le> 256 ^ (k + n)" by (rule power_increasing) simp_all
  then have "v < 256 ^ (k + n)" using Suc.prems by linarith
  then show ?case using Suc by simp
qed simp

lemma u64_word_abi: "u64_word v = abi_word (unat v)"
  using be_bytes_zeros [of "unat v" 8 24] unat_less_word [of v] by (simp add: u64_word_def abi_word_def be64_def)

lemma u32_word_abi: "replicate 28 0 @ be32 v = abi_word (unat v)"
  using be_bytes_zeros [of "unat v" 4 28] unat_less_word [of v] by (simp add: abi_word_def be32_def)

lemma u8_word_abi: "replicate 31 0 @ [v] = abi_word (unat v)"
  using be_bytes_zeros [of "unat v" 1 31] by (simp add: abi_word_def)

lemma length_abi_word [simp]: "length (abi_word n) = 32"
  by (simp add: abi_word_def)

lemma pad_le: "((32 :: nat) - n mod 32) mod 32 \<le> 31"
  using pos_mod_bound [of 32] by (simp add: less_Suc_eq_le [symmetric])

lemma unat_pad:
  assumes "n < 2 ^ 63"
  shows "unat ((32 - of_nat n mod 32) mod 32 :: u64) = (32 - n mod 32) mod 32"
proof -
  have n: "unat (of_nat n :: u64) = n" using assms by (simp add: unat_of_nat take_bit_nat_eq_self)
  have m: "unat (of_nat n mod 32 :: u64) = n mod 32" by (simp add: unat_mod n)
  have "(of_nat n mod 32 :: u64) \<le> 32" by (simp add: word_le_nat_alt m)
  then have "unat (32 - of_nat n mod 32 :: u64) = 32 - n mod 32" by (simp add: unat_sub m)
  then show ?thesis by (simp add: unat_mod)
qed

lemma abi_padding_eq:
  assumes "n < 2 ^ 63"
  shows "abi_padding (of_nat n) = replicate ((32 - n mod 32) mod 32) 0"
proof -
  have "(0 < (32 - of_nat n mod 32) mod (32 :: u64)) \<longleftrightarrow> 0 < (32 - n mod 32) mod 32"
    using unat_pad [OF assms] by (metis word_gt_0 unat_0 unat_gt_0)
  then show ?thesis
    using unat_pad [OF assms] pad_le [of n] by (simp add: abi_padding_def Let_def min_def)
qed

lemma u64_len: "n < 2 ^ 63 \<Longrightarrow> u64_word (of_nat n) = abi_word n"
  by (simp add: u64_word_abi unat_of_nat take_bit_nat_eq_self)

lemma pq_offset_eq:
  assumes "n < 2 ^ 63"
  shows "u64_word (256 + (32 + of_nat n + (32 - of_nat n mod 32) mod 32))
    = abi_word (256 + (32 + n + (32 - n mod 32) mod 32))"
proof -
  have "of_nat ((32 - n mod 32) mod 32) = ((32 - of_nat n mod 32) mod 32 :: u64)"
    by (simp flip: unat_pad [OF assms])
  then have "(256 + (32 + of_nat n + (32 - of_nat n mod 32) mod 32) :: u64)
      = of_nat (256 + (32 + n + (32 - n mod 32) mod 32))" by simp
  moreover have "256 + (32 + n + (32 - n mod 32) mod 32) < (2 :: nat) ^ 64"
    using assms pad_le [of n] by simp
  moreover have "unat (of_nat k :: u64) = k" if "k < 2 ^ 64" for k
    using that by (simp add: unat_of_nat take_bit_nat_eq_self)
  ultimately show ?thesis by (simp only: u64_word_abi)
qed

lemma canonical_ticket_preimage_abi:
  assumes "rust_len (tk_new_measurement t)" "rust_len (tk_pq_pubkey t)"
  shows "canonical_ticket_preimage t = abi_encode (ticket_tuple t)"
proof -
  let ?m = "length (tk_new_measurement t)" and ?k = "length (tk_pq_pubkey t)"
  have len: "?m < 2 ^ 63" "?k < 2 ^ 63" using assms by (simp_all add: rust_len_def)
  have words: "u64_word 256 = abi_word 256" "u64_word (tk_nonce t) = abi_word (unat (tk_nonce t))"
      "u64_word (tk_activation_height t) = abi_word (unat (tk_activation_height t))"
    using u64_word_abi [of 256] by (simp, simp_all only: u64_word_abi)
  have off: "u64_word (256 + (32 + of_nat ?m + (32 - of_nat ?m mod 32) mod 32)) = abi_word (256 + length (abi_bytes (tk_new_measurement t)))"
    unfolding pq_offset_eq [OF len(1)] by (simp add: abi_bytes_def)
  show ?thesis
    unfolding canonical_ticket_preimage_def Let_def off u64_len [OF len(1)] u64_len [OF len(2)] words u8_word_abi u32_word_abi
      abi_padding_eq [OF len(1)] abi_padding_eq [OF len(2)]
    by (simp add: abi_encode_def ticket_tuple_def abi_bytes_def split: option.split)
qed

section \<open>The preimage binds the ticket\<close>

definition abi_bytes_dec :: "bytes \<Rightarrow> (bytes \<times> bytes) option" where
  "abi_bytes_dec bs =
     (let n = be_val (take 32 bs) in
      Some (take n (drop 32 bs), drop (32 + n + (32 - n mod 32) mod 32) bs))"

interpretation abi_bytes: prefix_codec abi_bytes abi_bytes_dec rust_len
proof
  fix b rest assume "rust_len b"
  then have "length b < 256 ^ 32" by (simp add: rust_len_def)
  then show "abi_bytes_dec (abi_bytes b @ rest) = Some (b, rest)"
    by (simp add: abi_bytes_dec_def abi_bytes_def abi_word_def be_val_be_bytes Let_def)
qed

lemma abi_word_inj: "m < 256 ^ 32 \<Longrightarrow> n < 256 ^ 32 \<Longrightarrow> abi_word m = abi_word n \<longleftrightarrow> m = n"
  unfolding abi_word_def by (metis be_val_be_bytes)

lemma abi_word_unat_inj: "LENGTH('a) \<le> 64 \<Longrightarrow> abi_word (unat a) = abi_word (unat b) \<longleftrightarrow> a = (b :: 'a :: len word)"
proof -
  assume l: "LENGTH('a) \<le> 64"
  have "unat x < 256 ^ 32" for x :: "'a word"
  proof -
    have "unat x < 2 ^ LENGTH('a)" by (rule unat_less_word)
    also have "\<dots> \<le> 2 ^ 64" using l by (rule power_increasing) simp
    also have "\<dots> < (256 :: nat) ^ 32" by simp
    finally show ?thesis .
  qed
  then show ?thesis by (simp only: abi_word_inj word_unat_eq_iff)
qed

text \<open>Which tickets are well formed.\<close>

lemma validate_ticket_payload_Inr:
  "validate_ticket_payload t = Inr () \<longleftrightarrow>
     tk_ticket_type t = 0 \<and> tk_fork_spec_hash t = None \<and> tk_new_header_version t = None
     \<or> tk_ticket_type t = 1 \<and> (\<exists>h v. tk_fork_spec_hash t = Some h \<and> h \<noteq> replicate 32 0
          \<and> tk_new_header_version t = Some v \<and> v \<noteq> 0)"
  by (auto simp: validate_ticket_payload_def res_simps)

definition fork_word :: "authorization_ticket_payload \<Rightarrow> bytes" where
  "fork_word t = (if tk_ticket_type t = 0 then replicate 32 0
     else case tk_fork_spec_hash t of None \<Rightarrow> replicate 32 0 | Some h \<Rightarrow> h)"

definition version_word :: "authorization_ticket_payload \<Rightarrow> u32" where
  "version_word t = (if tk_ticket_type t = 0 then 0 else case tk_new_header_version t of None \<Rightarrow> 0 | Some v \<Rightarrow> v)"

lemma abi_encode_ticket:
  "abi_encode (ticket_tuple t) =
     abi_word (unat (tk_ticket_type t)) @ abi_word (unat (tk_nonce t)) @ tk_context_hash t
     @ abi_word (unat (tk_activation_height t)) @ abi_word 256
     @ abi_word (256 + length (abi_bytes (tk_new_measurement t))) @ fork_word t @ abi_word (unat (version_word t))
     @ abi_bytes (tk_new_measurement t) @ abi_bytes (tk_pq_pubkey t)"
  by (simp add: abi_encode_def ticket_tuple_def fork_word_def version_word_def split: option.split)

lemma length_fork_word: "ticket_typed t \<Longrightarrow> length (fork_word t) = 32"
  by (auto simp: fork_word_def ticket_typed_def h32_def split: option.splits)

lemma ticket_binds:
  assumes ok: "ticket_typed t" "ticket_typed t'" "rust_len (tk_new_measurement t)" "rust_len (tk_new_measurement t')"
      "rust_len (tk_pq_pubkey t)" "rust_len (tk_pq_pubkey t')"
    and v: "validate_ticket_payload t = Inr ()" "validate_ticket_payload t' = Inr ()"
    and eq: "abi_encode (ticket_tuple t) = abi_encode (ticket_tuple t')"
  shows "t = t'"
proof -
  have ctx: "length (tk_context_hash t) = length (tk_context_hash t')"
    using ok by (simp add: ticket_typed_def h32_def)
  have b: "tk_ticket_type t = tk_ticket_type t'" "tk_nonce t = tk_nonce t'" "tk_context_hash t = tk_context_hash t'"
      "tk_activation_height t = tk_activation_height t'" "fork_word t = fork_word t'"
      "version_word t = version_word t'"
      "abi_bytes (tk_new_measurement t) @ abi_bytes (tk_pq_pubkey t)
       = abi_bytes (tk_new_measurement t') @ abi_bytes (tk_pq_pubkey t')"
    using eq ctx length_fork_word [OF ok(1)] length_fork_word [OF ok(2)]
    unfolding abi_encode_ticket by (simp_all add: append_eq_append_conv abi_word_unat_inj)
  then have "tk_new_measurement t = tk_new_measurement t'" "tk_pq_pubkey t = tk_pq_pubkey t'"
    using abi_bytes.append_inj [OF ok(3,4)] abi_bytes.enc_inj [OF ok(5,6)] by simp_all
  moreover have "tk_fork_spec_hash t = tk_fork_spec_hash t'" "tk_new_header_version t = tk_new_header_version t'"
    using v b(1,5,6) by (auto simp: validate_ticket_payload_Inr fork_word_def version_word_def)
  ultimately show ?thesis using b by (cases t, cases t') simp
qed

section \<open>Properties\<close>

text \<open>The ticket hash is the hash of the contract ABI encoding of the ticket tuple (so the on-chain
  verifier computes the same one), the encoding determines a well-formed ticket completely, and no
  ticket preimage is a block-root preimage, whose hashes the same key signs.\<close>

theorem ticket_hash_canonical:
  assumes "ticket_typed t" "ticket_typed t'" "rust_len (tk_new_measurement t)" "rust_len (tk_new_measurement t')"
      "rust_len (tk_pq_pubkey t)" "rust_len (tk_pq_pubkey t')"
    and "validate_ticket_payload t = Inr ()" "validate_ticket_payload t' = Inr ()" "h32 root"
  shows "compute_canonical_ticket_hash C t = keccak_256 C (abi_encode (ticket_tuple t))
    \<and> (canonical_ticket_preimage t = canonical_ticket_preimage t' \<longleftrightarrow> t = t')
    \<and> canonical_ticket_preimage t \<noteq> BLOCK_ROOT_SIGNING_DOMAIN @ root"
proof -
  note eq = canonical_ticket_preimage_abi [OF assms(3,5)] canonical_ticket_preimage_abi [OF assms(4,6)]
  have "length (canonical_ticket_preimage t) > length (BLOCK_ROOT_SIGNING_DOMAIN @ root)"
    using assms(1,9) length_fork_word [OF assms(1)]
    by (simp add: eq abi_encode_ticket ticket_typed_def h32_def BLOCK_ROOT_SIGNING_DOMAIN_def abi_bytes_def)
  then have "canonical_ticket_preimage t \<noteq> BLOCK_ROOT_SIGNING_DOMAIN @ root" by auto
  moreover have "canonical_ticket_preimage t = canonical_ticket_preimage t' \<longleftrightarrow> t = t'"
    using ticket_binds [OF assms(1-8)] by (auto simp: eq)
  ultimately show ?thesis by (simp add: compute_canonical_ticket_hash_def eq)
qed

lemma ticket_hash_canonical_witness:
  "compute_canonical_ticket_hash sample_crypto sample_ticket
     = keccak_256 sample_crypto (abi_encode (ticket_tuple sample_ticket))
   \<and> canonical_ticket_preimage sample_ticket \<noteq> canonical_ticket_preimage (sample_ticket\<lparr>tk_nonce := 6\<rparr>)"
proof -
  let ?t = "sample_ticket\<lparr>tk_nonce := 6\<rparr>"
  have t: "ticket_typed sample_ticket" "ticket_typed ?t" "rust_len (tk_new_measurement sample_ticket)"
      "rust_len (tk_new_measurement ?t)" "rust_len (tk_pq_pubkey sample_ticket)" "rust_len (tk_pq_pubkey ?t)"
      "validate_ticket_payload sample_ticket = Inr ()" "validate_ticket_payload ?t = Inr ()" "h32 (replicate 32 0)"
    by (simp_all add: ticket_typed_def h32_def rust_len_def validate_ticket_payload_Inr sample_ticket_def)
  have "sample_ticket \<noteq> ?t" by (simp add: sample_ticket_def)
  then show ?thesis using ticket_hash_canonical [OF t] by blast
qed

end
