(* ===== verification/Pq_Signer.thy ===== *)
theory Pq_Signer
  imports Protocol Crypto
begin

text \<open>
  The producer's post-quantum signer: \<open>mldsa65.rs\<close> (an ML-DSA-65 key held inside the enclave) and
  \<open>pq_signer.rs\<close> (the sealed key blob \<open>pq-seal-v1\<close> and the install-once signer slot), in the build
  with the feature \<open>ml-dsa-65\<close> outside tests. ML-DSA (\<open>pqcrypto_mldsa\<close>) and ChaCha20-Poly1305
  (\<open>chacha20poly1305\<close>) are parameters. The provisioning root (\<open>seal_root.rs\<close>) and the slot are the
  two process-wide mutexes, here explicit state; a poisoned mutex is not modelled.
\<close>

record pq_crypto =
  md_pk_ok :: "bytes \<Rightarrow> bool"
  md_sk_ok :: "bytes \<Rightarrow> bool"
  md_sign :: "bytes \<Rightarrow> bytes \<Rightarrow> bytes"
  md_sig_ok :: "bytes \<Rightarrow> bool"
  md_verify :: "bytes \<Rightarrow> bytes \<Rightarrow> bytes \<Rightarrow> bool"
  chacha_encrypt :: "bytes \<Rightarrow> bytes \<Rightarrow> bytes \<Rightarrow> bytes \<Rightarrow> bytes option"
  chacha_decrypt :: "bytes \<Rightarrow> bytes \<Rightarrow> bytes \<Rightarrow> bytes \<Rightarrow> bytes option"

definition ML_DSA65_SECRETKEY_LEN :: nat where "ML_DSA65_SECRETKEY_LEN = 4032"
definition ML_DSA65_PUBKEY_LEN :: nat where "ML_DSA65_PUBKEY_LEN = 1952"
definition ML_DSA65_SIGNATURE_LEN :: nat where "ML_DSA65_SIGNATURE_LEN = 3309"

section \<open>mldsa65.rs\<close>

definition INSTALL_SELF_TEST_MSG :: bytes where
  "INSTALL_SELF_TEST_MSG = ascii ''2d-hsm-pq-install-self-test!!!!!''"

record mldsa65_signer =
  ms_public_key :: bytes
  ms_secret_key :: bytes

definition from_key_bytes :: "pq_crypto \<Rightarrow> bytes \<Rightarrow> bytes \<Rightarrow> protocol_error + mldsa65_signer" where
  "from_key_bytes Q sk_bytes pk_bytes =
     (if length sk_bytes \<noteq> ML_DSA65_SECRETKEY_LEN
      then Inl (PqSigningUnavailable ''invalid ML-DSA-65 secret key'')
      else if \<not> md_pk_ok Q pk_bytes then Inl (PqSigningUnavailable ''invalid ML-DSA-65 public key'')
      else Inr \<lparr>ms_public_key = pk_bytes, ms_secret_key = sk_bytes\<rparr>)"

definition sign_ticket_hash :: "pq_crypto \<Rightarrow> mldsa65_signer \<Rightarrow> bytes \<Rightarrow> protocol_error + bytes" where
  "sign_ticket_hash Q s ticket_hash =
     (if \<not> md_sk_ok Q (ms_secret_key s)
      then Inl (PqSigningUnavailable ''stored ML-DSA-65 secret key invalid'')
      else
        (let bs = md_sign Q (ms_secret_key s) ticket_hash in
         if length bs \<noteq> ML_DSA65_SIGNATURE_LEN
         then Inl (PqSigningUnavailable ''ML-DSA-65 signature length mismatch vs wire spec'')
         else Inr bs))"

definition verify_ticket_hash :: "pq_crypto \<Rightarrow> mldsa65_signer \<Rightarrow> bytes \<Rightarrow> bytes \<Rightarrow> protocol_error + unit" where
  "verify_ticket_hash Q s ticket_hash signature =
     (if length signature \<noteq> ML_DSA65_SIGNATURE_LEN
      then Inl (PqSignatureInvalid ''invalid signature length'')
      else if \<not> md_sig_ok Q signature then Inl (PqSignatureInvalid ''invalid signature encoding'')
      else if \<not> md_verify Q signature ticket_hash (ms_public_key s)
      then Inl (PqSignatureInvalid ''ML-DSA-65 signature verification failed'')
      else Inr ())"

definition self_test_keypair :: "pq_crypto \<Rightarrow> mldsa65_signer \<Rightarrow> protocol_error + unit" where
  "self_test_keypair Q s =
     res_bind (sign_ticket_hash Q s INSTALL_SELF_TEST_MSG) (\<lambda>sig.
     verify_ticket_hash Q s INSTALL_SELF_TEST_MSG sig)"

definition from_verified_key_bytes :: "pq_crypto \<Rightarrow> bytes \<Rightarrow> bytes \<Rightarrow> protocol_error + mldsa65_signer" where
  "from_verified_key_bytes Q sk_bytes pk_bytes =
     res_bind (from_key_bytes Q sk_bytes pk_bytes) (\<lambda>signer.
     res_bind (self_test_keypair Q signer) (\<lambda>_. Inr signer))"

section \<open>The sealed key blob\<close>

definition SEALED_BLOB_V1_VERSION :: u8 where "SEALED_BLOB_V1_VERSION = 1"
definition SEALED_BLOB_V1_MAGIC :: bytes where "SEALED_BLOB_V1_MAGIC = ascii ''2DHSMV1'' @ [0]"
definition SEALED_BLOB_V0_MAGIC :: bytes where "SEALED_BLOB_V0_MAGIC = ascii ''2DHSMV0'' @ [0]"
definition V1_MEAS_DIGEST_DOMAIN :: bytes where "V1_MEAS_DIGEST_DOMAIN = ascii ''2d-hsm-pq-seal-v1-meas''"
definition V1_AEAD_KEY_DOMAIN :: bytes where "V1_AEAD_KEY_DOMAIN = ascii ''2d-hsm-pq-seal-v1-key''"
definition V1_NONCE_LEN :: nat where "V1_NONCE_LEN = 12"
definition V1_MEAS_DIGEST_LEN :: nat where "V1_MEAS_DIGEST_LEN = 32"
definition SEALED_BLOB_V1_HEADER_LEN :: nat where
  "SEALED_BLOB_V1_HEADER_LEN = 8 + 1 + V1_MEAS_DIGEST_LEN + V1_NONCE_LEN"
definition PLAINTEXT_LEN :: nat where "PLAINTEXT_LEN = ML_DSA65_SECRETKEY_LEN + ML_DSA65_PUBKEY_LEN"

definition measurement_digest_v1 :: "crypto \<Rightarrow> bytes \<Rightarrow> bytes" where
  "measurement_digest_v1 C enclave_measurement = sha3_256 C (V1_MEAS_DIGEST_DOMAIN @ enclave_measurement)"

definition pq_seal_v1_expected_blob_len :: nat where
  "pq_seal_v1_expected_blob_len = SEALED_BLOB_V1_HEADER_LEN + PLAINTEXT_LEN + 16"

definition derive_aead_key_v1 :: "crypto \<Rightarrow> bytes \<Rightarrow> bytes \<Rightarrow> bytes" where
  "derive_aead_key_v1 C root meas_digest = sha3_256 C (V1_AEAD_KEY_DOMAIN @ root @ meas_digest)"

definition unseal_mldsa65_keypair_v1_with_root :: "crypto \<Rightarrow> pq_crypto \<Rightarrow> bytes \<Rightarrow> bytes \<Rightarrow> bytes
    \<Rightarrow> protocol_error + bytes \<times> bytes" where
  "unseal_mldsa65_keypair_v1_with_root C Q blob enclave_measurement provisioning_root =
     (if enclave_measurement = []
      then Inl (PqSigningUnavailable ''enclave measurement must be non-empty for v1 seal'')
      else
        (let expected_meas = measurement_digest_v1 C enclave_measurement in
         if length blob \<noteq> pq_seal_v1_expected_blob_len
         then Inl (PqSigningUnavailable ''v1 sealed blob length mismatch'')
         else if take 8 blob \<noteq> SEALED_BLOB_V1_MAGIC
         then Inl (PqSigningUnavailable ''invalid v1 sealed blob magic'')
         else if blob ! 8 \<noteq> SEALED_BLOB_V1_VERSION
         then Inl (PqSigningUnavailable ''unsupported v1 sealed blob version'')
         else if take V1_MEAS_DIGEST_LEN (drop 9 blob) \<noteq> expected_meas
         then Inl (PqSigningUnavailable ''v1 sealed blob measurement digest does not match enclave measurement'')
         else
           (let key = derive_aead_key_v1 C provisioning_root expected_meas in
            if length key \<noteq> 32 then Inl (PqSigningUnavailable ''v1 AEAD key invalid'')
            else
              (let nonce = take (SEALED_BLOB_V1_HEADER_LEN - 41) (drop 41 blob);
                   aad = take (9 + V1_MEAS_DIGEST_LEN) blob in
               res_bind (ok_or (PqSigningUnavailable ''v1 sealed blob decrypt failed'')
                 (chacha_decrypt Q key nonce (drop SEALED_BLOB_V1_HEADER_LEN blob) aad)) (\<lambda>plain.
               if length plain \<noteq> PLAINTEXT_LEN
               then Inl (PqSigningUnavailable ''v1 sealed blob plaintext length mismatch'')
               else Inr (take ML_DSA65_SECRETKEY_LEN plain, drop ML_DSA65_SECRETKEY_LEN plain))))))"

definition seal_mldsa65_keypair_v1_with_root :: "crypto \<Rightarrow> pq_crypto \<Rightarrow> bytes \<Rightarrow> bytes \<Rightarrow> bytes \<Rightarrow> bytes
    \<Rightarrow> bytes option \<Rightarrow> protocol_error + bytes" where
  "seal_mldsa65_keypair_v1_with_root C Q secret_key public_key enclave_measurement provisioning_root draw =
     (if length secret_key \<noteq> ML_DSA65_SECRETKEY_LEN
      then Inl (PqSigningUnavailable ''invalid ML-DSA-65 secret key length for v1 sealing'')
      else if length public_key \<noteq> ML_DSA65_PUBKEY_LEN
      then Inl (PqSigningUnavailable ''invalid ML-DSA-65 public key length for v1 sealing'')
      else if enclave_measurement = []
      then Inl (PqSigningUnavailable ''enclave measurement must be non-empty for v1 sealing'')
      else
        res_bind (from_verified_key_bytes Q secret_key public_key) (\<lambda>_.
        let meas_digest = measurement_digest_v1 C enclave_measurement;
            key = derive_aead_key_v1 C provisioning_root meas_digest in
        if length key \<noteq> 32 then Inl (PqSigningUnavailable ''v1 AEAD key invalid'')
        else
          res_bind (ok_or (PqSigningUnavailable ''CSPRNG unavailable for v1 seal nonce'') draw) (\<lambda>nonce.
          let out = SEALED_BLOB_V1_MAGIC @ [SEALED_BLOB_V1_VERSION] @ meas_digest @ nonce;
              aad = take (9 + V1_MEAS_DIGEST_LEN) out in
          res_bind (ok_or (PqSigningUnavailable ''v1 sealed blob encrypt failed'')
            (chacha_encrypt Q key nonce (secret_key @ public_key) aad)) (\<lambda>ct.
          Inr (out @ ct)))))"

section \<open>The signer slot\<close>

record pq_state =
  ps_root :: "bytes option"
  ps_signer :: "mldsa65_signer option"

definition set_pq_seal_v1_provisioning_root :: "bytes \<Rightarrow> pq_state \<Rightarrow> protocol_error + pq_state" where
  "set_pq_seal_v1_provisioning_root root s =
     (if ps_root s \<noteq> None then Inl (PqSigningUnavailable ''PQ seal v1 provisioning root already configured'')
      else Inr (s\<lparr>ps_root := Some root\<rparr>))"

definition resolve_pq_provisioning_root :: "pq_state \<Rightarrow> protocol_error + bytes" where
  "resolve_pq_provisioning_root s =
     ok_or (PqSigningUnavailable ''PQ seal v1 provisioning root not configured (call set_pq_seal_v1_provisioning_root at enclave boot)'')
       (ps_root s)"

definition is_sealed_signer_installed :: "pq_state \<Rightarrow> bool" where
  "is_sealed_signer_installed s \<longleftrightarrow> ps_signer s \<noteq> None"

definition sealed_signer_public_key_bytes :: "pq_state \<Rightarrow> bytes option" where
  "sealed_signer_public_key_bytes s = map_option ms_public_key (ps_signer s)"

definition install_signer_from_key_material :: "pq_crypto \<Rightarrow> bytes \<Rightarrow> bytes \<Rightarrow> pq_state
    \<Rightarrow> protocol_error + pq_state" where
  "install_signer_from_key_material Q sk_bytes pk_bytes s =
     (if ps_signer s \<noteq> None
      then Inl (PqSigningUnavailable ''PQ signer already installed; enclave restart required to reprovision'')
      else res_bind (from_verified_key_bytes Q sk_bytes pk_bytes) (\<lambda>signer.
        Inr (s\<lparr>ps_signer := Some signer\<rparr>)))"

definition unseal_sealed_keypair :: "crypto \<Rightarrow> pq_crypto \<Rightarrow> bytes \<Rightarrow> bytes \<Rightarrow> pq_state
    \<Rightarrow> protocol_error + bytes \<times> bytes" where
  "unseal_sealed_keypair C Q blob enclave_measurement s =
     (if 8 \<le> length blob \<and> take 8 blob = SEALED_BLOB_V1_MAGIC
      then res_bind (resolve_pq_provisioning_root s)
        (unseal_mldsa65_keypair_v1_with_root C Q blob enclave_measurement)
      else if 8 \<le> length blob \<and> take 8 blob = SEALED_BLOB_V0_MAGIC
      then Inl (PqSigningUnavailable ''v0 XOR sealed PQ blobs are test-only'')
      else Inl (PqSigningUnavailable ''unknown sealed PQ blob magic''))"

definition install_sealed_pq_signer :: "crypto \<Rightarrow> pq_crypto \<Rightarrow> bytes \<Rightarrow> bytes \<Rightarrow> pq_state
    \<Rightarrow> protocol_error + pq_state" where
  "install_sealed_pq_signer C Q blob enclave_measurement s =
     res_bind (unseal_sealed_keypair C Q blob enclave_measurement s) (\<lambda>(sk, pk).
     install_signer_from_key_material Q sk pk s)"

definition sign_ticket_hash_sealed :: "pq_crypto \<Rightarrow> pq_state \<Rightarrow> bytes \<Rightarrow> protocol_error + bytes" where
  "sign_ticket_hash_sealed Q s ticket_hash =
     res_bind (ok_or (PqSigningUnavailable ''no sealed PQ signer installed'') (ps_signer s)) (\<lambda>signer.
     sign_ticket_hash Q signer ticket_hash)"

section \<open>Documented behaviour of the parameters\<close>

definition aead12_correct :: "pq_crypto \<Rightarrow> bool" where
  "aead12_correct Q \<longleftrightarrow> (\<forall>k n m a c. chacha_encrypt Q k n m a = Some c
     \<longrightarrow> chacha_decrypt Q k n c a = Some m \<and> length c = length m + 16)"

definition sha3_len :: "crypto \<Rightarrow> bool" where
  "sha3_len C \<longleftrightarrow> (\<forall>m. length (sha3_256 C m) = 32)"

lemmas pq_lens = SEALED_BLOB_V1_HEADER_LEN_def V1_MEAS_DIGEST_LEN_def V1_NONCE_LEN_def PLAINTEXT_LEN_def
  pq_seal_v1_expected_blob_len_def

lemma length_v1_magic [simp]: "length SEALED_BLOB_V1_MAGIC = 8"
  by (simp add: SEALED_BLOB_V1_MAGIC_def)

lemma from_key_bytes_Inr:
  "from_key_bytes Q sk pk = Inr s \<longleftrightarrow> length sk = ML_DSA65_SECRETKEY_LEN \<and> md_pk_ok Q pk
     \<and> s = \<lparr>ms_public_key = pk, ms_secret_key = sk\<rparr>"
  by (auto simp: from_key_bytes_def)

lemma sign_ticket_hash_Inr:
  "sign_ticket_hash Q s h = Inr sig \<longleftrightarrow> md_sk_ok Q (ms_secret_key s) \<and> sig = md_sign Q (ms_secret_key s) h
     \<and> length sig = ML_DSA65_SIGNATURE_LEN"
  by (auto simp: sign_ticket_hash_def Let_def)

text \<open>A key pair is accepted when it passes the self test.\<close>

lemma from_verified_key_bytes_Inr:
  "from_verified_key_bytes Q sk pk = Inr s \<longleftrightarrow>
     from_key_bytes Q sk pk = Inr s \<and> self_test_keypair Q s = Inr ()"
  by (auto simp: from_verified_key_bytes_def res_simps)

lemma self_test_verifies:
  "self_test_keypair Q s = Inr () \<Longrightarrow>
     md_verify Q (md_sign Q (ms_secret_key s) INSTALL_SELF_TEST_MSG) INSTALL_SELF_TEST_MSG (ms_public_key s)"
  by (auto simp: self_test_keypair_def verify_ticket_hash_def sign_ticket_hash_Inr res_simps split: if_splits)

lemma install_Inr:
  "install_sealed_pq_signer C Q blob meas s = Inr s' \<longleftrightarrow>
     (\<exists>sk pk signer. unseal_sealed_keypair C Q blob meas s = Inr (sk, pk) \<and> ps_signer s = None
        \<and> from_verified_key_bytes Q sk pk = Inr signer \<and> s' = s\<lparr>ps_signer := Some signer\<rparr>)"
  by (auto simp: install_sealed_pq_signer_def install_signer_from_key_material_def res_simps split_def)

lemma seal_v1_Inr:
  assumes "seal_mldsa65_keypair_v1_with_root C Q sk pk meas root (Some nonce) = Inr blob"
  obtains ct signer where "length sk = ML_DSA65_SECRETKEY_LEN" "length pk = ML_DSA65_PUBKEY_LEN" "meas \<noteq> []"
    "from_verified_key_bytes Q sk pk = Inr signer"
    "chacha_encrypt Q (derive_aead_key_v1 C root (measurement_digest_v1 C meas)) nonce (sk @ pk)
       (take 41 (SEALED_BLOB_V1_MAGIC @ [SEALED_BLOB_V1_VERSION] @ measurement_digest_v1 C meas @ nonce)) = Some ct"
    "blob = SEALED_BLOB_V1_MAGIC @ [SEALED_BLOB_V1_VERSION] @ measurement_digest_v1 C meas @ nonce @ ct"
  using assms
  by (auto simp: seal_mldsa65_keypair_v1_with_root_def Let_def res_simps V1_MEAS_DIGEST_LEN_def split: if_splits)

lemma unseal_seal_v1:
  assumes C: "sha3_len C" and Q: "aead12_correct Q" and n: "length nonce = 12"
    and seal: "seal_mldsa65_keypair_v1_with_root C Q sk pk meas root (Some nonce) = Inr blob"
  shows "unseal_mldsa65_keypair_v1_with_root C Q blob meas root = Inr (sk, pk)"
    and "length blob = pq_seal_v1_expected_blob_len" and "take 8 blob = SEALED_BLOB_V1_MAGIC"
proof -
  let ?d = "measurement_digest_v1 C meas"
  obtain ct signer where o: "length sk = ML_DSA65_SECRETKEY_LEN" "length pk = ML_DSA65_PUBKEY_LEN" "meas \<noteq> []"
    and enc: "chacha_encrypt Q (derive_aead_key_v1 C root ?d) nonce (sk @ pk)
       (take 41 (SEALED_BLOB_V1_MAGIC @ [SEALED_BLOB_V1_VERSION] @ ?d @ nonce)) = Some ct"
    and blob: "blob = SEALED_BLOB_V1_MAGIC @ [SEALED_BLOB_V1_VERSION] @ ?d @ nonce @ ct"
    using seal_v1_Inr [OF seal] by metis
  have d: "length ?d = 32" "length (derive_aead_key_v1 C root ?d) = 32"
    using C by (simp_all add: sha3_len_def measurement_digest_v1_def derive_aead_key_v1_def)
  have dec: "chacha_decrypt Q (derive_aead_key_v1 C root ?d) nonce ct
      (take 41 (SEALED_BLOB_V1_MAGIC @ [SEALED_BLOB_V1_VERSION] @ ?d @ nonce)) = Some (sk @ pk)"
    and len: "length ct = length sk + length pk + 16"
    using Q enc unfolding aead12_correct_def by fastforce+
  show 1: "length blob = pq_seal_v1_expected_blob_len" and 2: "take 8 blob = SEALED_BLOB_V1_MAGIC"
    using o d n len by (simp_all add: blob pq_lens)
  have b: "blob ! 8 = SEALED_BLOB_V1_VERSION" "take 32 (drop 9 blob) = ?d" "take 12 (drop 41 blob) = nonce"
      "drop 53 blob = ct"
      "take 41 blob = take 41 (SEALED_BLOB_V1_MAGIC @ [SEALED_BLOB_V1_VERSION] @ ?d @ nonce)"
    using d n by (simp_all add: blob nth_append)
  show "unseal_mldsa65_keypair_v1_with_root C Q blob meas root = Inr (sk, pk)"
    using o d dec 1 2 b by (simp add: unseal_mldsa65_keypair_v1_with_root_def V1_MEAS_DIGEST_LEN_def
        SEALED_BLOB_V1_HEADER_LEN_def V1_NONCE_LEN_def PLAINTEXT_LEN_def)
qed

text \<open>The blob installs its pair where the root and the measurement are those of the seal.\<close>

lemma install_seal_v1:
  assumes C: "sha3_len C" and Q: "aead12_correct Q" and n: "length nonce = 12"
    and seal: "seal_mldsa65_keypair_v1_with_root C Q sk pk meas root (Some nonce) = Inr blob"
    and s: "ps_root s = Some root" "ps_signer s = None"
  shows "install_sealed_pq_signer C Q blob meas s = Inr (s\<lparr>ps_signer := Some \<lparr>ms_public_key = pk, ms_secret_key = sk\<rparr>\<rparr>)"
proof -
  note un = unseal_seal_v1 [OF C Q n seal]
  have "from_verified_key_bytes Q sk pk = Inr \<lparr>ms_public_key = pk, ms_secret_key = sk\<rparr>"
    using seal_v1_Inr [OF seal] by (metis from_key_bytes_Inr from_verified_key_bytes_Inr)
  then show ?thesis
    using un s by (auto simp: install_Inr unseal_sealed_keypair_def resolve_pq_provisioning_root_def pq_lens)
qed

section \<open>Properties\<close>

text \<open>The producer's signing key is provisioned through its sealed blob alone, and once: the blob
  sealed offline for a measurement and root installs exactly that key pair in the enclave with that
  root and measurement and an empty slot; whatever blob an enclave installs, the key pair passed
  the signing self test; and an occupied slot is never replaced.\<close>

theorem sealed_signer_provisioning:
  assumes C: "sha3_len C" and Q: "aead12_correct Q" and n: "length nonce = 12"
    and seal: "seal_mldsa65_keypair_v1_with_root C Q sk pk meas root (Some nonce) = Inr blob"
    and s: "ps_root s = Some root" "ps_signer s = None"
  shows "install_sealed_pq_signer C Q blob meas s
      = Inr (s\<lparr>ps_signer := Some \<lparr>ms_public_key = pk, ms_secret_key = sk\<rparr>\<rparr>)
    \<and> (\<forall>blob' meas' s1 s2. install_sealed_pq_signer C Q blob' meas' s1 = Inr s2 \<longrightarrow>
        ps_signer s1 = None \<and> ps_root s2 = ps_root s1 \<and> (\<exists>signer. ps_signer s2 = Some signer
          \<and> self_test_keypair Q signer = Inr ()
          \<and> (\<forall>blob'' meas''. \<exists>e. install_sealed_pq_signer C Q blob'' meas'' s2 = Inl e)))"
proof (intro conjI allI impI)
  show "install_sealed_pq_signer C Q blob meas s
      = Inr (s\<lparr>ps_signer := Some \<lparr>ms_public_key = pk, ms_secret_key = sk\<rparr>\<rparr>)"
    by (rule install_seal_v1) (fact assms)+
next
  fix blob' meas' s1 s2 assume "install_sealed_pq_signer C Q blob' meas' s1 = Inr s2"
  then obtain signer where i: "ps_signer s1 = None" "self_test_keypair Q signer = Inr ()"
      "s2 = s1\<lparr>ps_signer := Some signer\<rparr>"
    by (auto simp: install_Inr from_verified_key_bytes_Inr)
  then show "ps_signer s1 = None" "ps_root s2 = ps_root s1" by simp_all
  have "install_sealed_pq_signer C Q blob'' meas'' s2 \<noteq> Inr s3" for blob'' meas'' s3
    using i by (simp add: install_Inr)
  then have "\<exists>e. install_sealed_pq_signer C Q blob'' meas'' s2 = Inl e" for blob'' meas''
    by (cases "install_sealed_pq_signer C Q blob'' meas'' s2") auto
  then show "\<exists>signer. ps_signer s2 = Some signer \<and> self_test_keypair Q signer = Inr ()
      \<and> (\<forall>blob'' meas''. \<exists>e. install_sealed_pq_signer C Q blob'' meas'' s2 = Inl e)"
    using i by simp
qed

text \<open>A toy instance for the witnesses: the signature of a message under a secret key.\<close>

definition sample_pq :: pq_crypto where
  "sample_pq = \<lparr>md_pk_ok = (\<lambda>pk. length pk = 1952), md_sk_ok = (\<lambda>sk. length sk = 4032),
     md_sign = (\<lambda>sk m. take 3309 (m @ replicate 3309 1)), md_sig_ok = (\<lambda>sig. length sig = 3309),
     md_verify = (\<lambda>sig m pk. sig = take 3309 (m @ replicate 3309 1)),
     chacha_encrypt = (\<lambda>_ _ m _. Some (m @ replicate 16 0)),
     chacha_decrypt = (\<lambda>_ _ c _. if length c < 16 then None else Some (take (length c - 16) c))\<rparr>"

definition sample_sk :: bytes where "sample_sk = replicate 4032 5"
definition sample_pk :: bytes where "sample_pk = replicate 1952 6"

definition sample_signer :: mldsa65_signer where
  "sample_signer = \<lparr>ms_public_key = sample_pk, ms_secret_key = sample_sk\<rparr>"

lemma sample_pq_correct: "aead12_correct sample_pq" "sha3_len sample_crypto"
  by (simp_all add: aead12_correct_def sha3_len_def sample_pq_def sample_crypto_def)

lemma sample_signs: "length m \<le> 3309 \<Longrightarrow> sign_ticket_hash sample_pq sample_signer m = Inr (m @ replicate (3309 - length m) 1)"
  by (simp add: sign_ticket_hash_def sample_pq_def sample_signer_def sample_sk_def ML_DSA65_SIGNATURE_LEN_def)

lemma sample_pair_verified: "from_verified_key_bytes sample_pq sample_sk sample_pk = Inr sample_signer"
proof -
  have "sign_ticket_hash sample_pq sample_signer INSTALL_SELF_TEST_MSG = Inr (INSTALL_SELF_TEST_MSG @ replicate 3277 1)"
    using sample_signs [of INSTALL_SELF_TEST_MSG] by (simp add: INSTALL_SELF_TEST_MSG_def)
  moreover have "length INSTALL_SELF_TEST_MSG = 32" by (simp add: INSTALL_SELF_TEST_MSG_def)
  ultimately have "self_test_keypair sample_pq sample_signer = Inr ()"
    by (simp add: self_test_keypair_def verify_ticket_hash_def ML_DSA65_SIGNATURE_LEN_def)
      (simp add: sample_pq_def)
  then show ?thesis
    by (simp add: from_verified_key_bytes_Inr from_key_bytes_Inr sample_signer_def)
      (simp add: sample_pq_def sample_sk_def sample_pk_def ML_DSA65_SECRETKEY_LEN_def)
qed

lemma sample_lens: "length sample_sk = ML_DSA65_SECRETKEY_LEN" "length sample_pk = ML_DSA65_PUBKEY_LEN"
  by (simp_all add: sample_sk_def sample_pk_def ML_DSA65_SECRETKEY_LEN_def ML_DSA65_PUBKEY_LEN_def)

lemma sample_encrypt: "chacha_encrypt sample_pq k n m a = Some (m @ replicate 16 0)"
  by (simp add: sample_pq_def)

lemma sealed_signer_provisioning_witness:
  "\<exists>blob. install_sealed_pq_signer sample_crypto sample_pq blob [1] \<lparr>ps_root = Some [2], ps_signer = None\<rparr>
     = Inr \<lparr>ps_root = Some [2], ps_signer = Some sample_signer\<rparr>"
proof -
  let ?s = "\<lparr>ps_root = Some [2], ps_signer = None\<rparr>"
  obtain blob where seal: "seal_mldsa65_keypair_v1_with_root sample_crypto sample_pq sample_sk sample_pk [1] [2]
      (Some (replicate 12 0)) = Inr blob"
    using sample_pq_correct(2) sample_pair_verified
    by (simp add: seal_mldsa65_keypair_v1_with_root_def sha3_len_def derive_aead_key_v1_def sample_lens
        sample_encrypt cong: if_cong)
  have s: "ps_root ?s = Some [2]" "ps_signer ?s = None" "length (replicate 12 (0 :: u8)) = 12" by simp_all
  show ?thesis
    using sealed_signer_provisioning [OF sample_pq_correct(2,1) s(3) seal s(1,2)]
    by (auto simp: sample_signer_def)
qed

end
