(* ===== verification/Producer.thy ===== *)
theory Producer
  imports Chain_Proof Ticket Pq_Signer
begin

text \<open>
  The producer side of \<open>lib.rs\<close>: arming with a chain proof, ticket and block-root signing, status and
  measurement, the stateful dispatcher, and the processing of one framed request against the shared
  state. A process has the enclave state, the signer slot (\<open>pq_signer.rs\<close>), the attestation captured
  at boot (\<open>snp_report.rs\<close>) and the state \<open>'g\<close> of the agent gateway, whose frame handler is an
  argument: \<open>None\<close> is a build without the feature \<open>agent-gateway\<close>. The build with \<open>test-support\<close>,
  the mock signatures and the staging measurement are not modelled.

  The texts of third-party errors and the debug form of a response are parameters.
\<close>

section \<open>State\<close>

record enclave_armed_state =
  as_proof :: recent_chain_proof
  as_attestation_trust :: bytes
  as_authorized_activated_at_height :: u64
  as_authorized_measurement :: bytes
  as_authorized_pq_pubkey :: bytes
  as_source_ticket_hash :: bytes
  as_pending_hard_fork_height :: "u64 option"

datatype enclave_state = Unarmed | Armed enclave_armed_state

record 'g host_process =
  hp_state :: enclave_state
  hp_pq :: pq_state
  hp_attestation :: "(bytes \<times> bytes \<times> bytes) option"
  hp_agent :: 'g

text \<open>The libraries and the build: \<open>pe_mldsa\<close> is the feature \<open>ml-dsa-65\<close>.\<close>

record 'g producer_env =
  pe_crypto :: crypto
  pe_ed :: ed25519
  pe_pq :: pq_crypto
  pe_cbor :: ciborium
  pe_mldsa :: bool
  pe_agent :: "(bytes \<Rightarrow> 'g \<Rightarrow> bytes \<times> 'g) option"
  pe_foreign_text :: "protocol_error \<Rightarrow> string"
  pe_debug_type :: "message_type \<Rightarrow> string"
  pe_debug_response :: "response \<Rightarrow> string"

definition pq_signing_ready :: "'g producer_env \<Rightarrow> pq_state \<Rightarrow> bool" where
  "pq_signing_ready E q \<longleftrightarrow> pe_mldsa E \<and> is_sealed_signer_installed q"

definition active_signing_public_key_bytes :: "'g producer_env \<Rightarrow> pq_state \<Rightarrow> bytes option" where
  "active_signing_public_key_bytes E q = (if pe_mldsa E then sealed_signer_public_key_bytes q else None)"

definition expect_pq_pubkey_matches_active_signer :: "'g producer_env \<Rightarrow> pq_state \<Rightarrow> bytes \<Rightarrow> protocol_error + unit" where
  "expect_pq_pubkey_matches_active_signer E q pq_pubkey =
     (case active_signing_public_key_bytes E q of
        None \<Rightarrow> Inr ()
      | Some expected \<Rightarrow>
          if pq_pubkey \<noteq> expected then Inl (InvalidTicket ''pq_pubkey must match the enclave PQ signing key'')
          else Inr ())"

definition validate_ticket_pq_pubkey_matches_signer :: "'g producer_env \<Rightarrow> pq_state \<Rightarrow> authorization_ticket_payload
    \<Rightarrow> protocol_error + unit" where
  "validate_ticket_pq_pubkey_matches_signer E q ticket = expect_pq_pubkey_matches_active_signer E q (tk_pq_pubkey ticket)"

definition snp_attestation_boot_gate :: "bool \<Rightarrow> bool \<Rightarrow> bool \<Rightarrow> protocol_error + unit" where
  "snp_attestation_boot_gate require_real signer_installed measurement_captured =
     (if require_real \<and> signer_installed \<and> \<not> measurement_captured
      then Inl (PqSigningUnavailable ''operational PQ signer without a real SNP measurement (production refuses to serve)'')
      else Inr ())"

section \<open>Measurement and status\<close>

definition LAB_PROD_MEASUREMENT :: bytes where "LAB_PROD_MEASUREMENT = ascii ''enclave-measurement-placeholder''"

definition resolve_measurement_and_attestation :: "'g host_process \<Rightarrow> bytes \<times> bytes \<times> bytes" where
  "resolve_measurement_and_attestation s = (case hp_attestation s of
     Some (measurement, report, cert_chain) \<Rightarrow> (measurement, report, cert_chain)
   | None \<Rightarrow> (LAB_PROD_MEASUREMENT, ascii ''attestation-placeholder'', []))"

definition measurement_response :: "'g producer_env \<Rightarrow> 'g host_process \<Rightarrow> get_measurement_response" where
  "measurement_response E s =
     (let pq_pubkey = (case active_signing_public_key_bytes E (hp_pq s) of None \<Rightarrow> [] | Some pk \<Rightarrow> pk);
          (measurement, attestation, cert_chain) = resolve_measurement_and_attestation s
      in \<lparr>gmr_measurement = measurement, gmr_attestation = attestation, gmr_pq_pubkey = pq_pubkey,
          gmr_supported_ticket_types = [0, 1], gmr_pq_signing_ready = pq_signing_ready E (hp_pq s),
          gmr_cert_chain = cert_chain\<rparr>)"

fun build_get_status_response :: "enclave_state \<Rightarrow> get_status_response" where
  "build_get_status_response (Armed a) =
     \<lparr>gs_armed = True, gs_authorized_measurement = as_authorized_measurement a,
      gs_authorized_pq_pubkey = as_authorized_pq_pubkey a,
      gs_authorized_activated_at_height = Some (as_authorized_activated_at_height a),
      gs_proof_finalized_height = Some (cp_finalized_height (as_proof a)),
      gs_source_ticket_hash = Some (as_source_ticket_hash a),
      gs_pending_hard_fork_height = as_pending_hard_fork_height a,
      gs_last_known_block = Some (cp_finalized_height (as_proof a))\<rparr>"
| "build_get_status_response Unarmed =
     \<lparr>gs_armed = False, gs_authorized_measurement = [], gs_authorized_pq_pubkey = [],
      gs_authorized_activated_at_height = None, gs_proof_finalized_height = None, gs_source_ticket_hash = None,
      gs_pending_hard_fork_height = None, gs_last_known_block = None\<rparr>"

section \<open>Arming\<close>

definition arm_for_production :: "'g producer_env \<Rightarrow> pq_state \<Rightarrow> enclave_state \<Rightarrow> arm_for_production_request
    \<Rightarrow> bytes \<Rightarrow> protocol_error + enclave_state" where
  "arm_for_production E q current_state req trust =
     res_bind (case current_state of
         Unarmed \<Rightarrow> Inr ()
       | Armed armed \<Rightarrow>
           if cp_finalized_height (af_recent_chain_proof req) \<le> cp_finalized_height (as_proof armed)
           then Inl (RecentChainProofValidation ''re-arm requires strictly greater finalized_height than the current session proof'')
           else if as_attestation_trust armed \<noteq> trust
           then Inl (RecentChainProofValidation ''re-arm attestation trust must match the current session trust anchor'')
           else Inr ()) (\<lambda>_.
     if \<not> pq_signing_ready E q
     then Inl (PqSigningUnavailable ''ARM_FOR_PRODUCTION requires operational PQ signing (pq_signing_ready)'')
     else
       res_bind (validate_recent_chain_proof (pe_crypto E) (pe_ed E) (af_recent_chain_proof req)
         (af_authorized_state req) trust) (\<lambda>_.
       res_bind (expect_pq_pubkey_matches_active_signer E q (ap_pq_pubkey (af_authorized_state req))) (\<lambda>_.
       Inr (Armed \<lparr>as_proof = af_recent_chain_proof req, as_attestation_trust = trust,
         as_authorized_activated_at_height = ap_activated_at_height (af_authorized_state req),
         as_authorized_measurement = ap_measurement (af_authorized_state req),
         as_authorized_pq_pubkey = ap_pq_pubkey (af_authorized_state req),
         as_source_ticket_hash = ap_source_ticket_hash (af_authorized_state req),
         as_pending_hard_fork_height = None\<rparr>))))"

definition authorized_state_from_armed :: "enclave_armed_state \<Rightarrow> authorized_producer_state" where
  "authorized_state_from_armed a =
     \<lparr>ap_pq_pubkey = as_authorized_pq_pubkey a, ap_measurement = as_authorized_measurement a,
      ap_activated_at_height = as_authorized_activated_at_height a, ap_source_ticket_hash = as_source_ticket_hash a\<rparr>"

definition validate_hard_fork_sign_preconditions :: "'g producer_env \<Rightarrow> authorization_ticket_payload
    \<Rightarrow> enclave_armed_state \<Rightarrow> protocol_error + unit" where
  "validate_hard_fork_sign_preconditions E ticket armed =
     (if as_pending_hard_fork_height armed \<noteq> None
      then Inl (InvalidTicket ''only one HARD_FORK_ACTIVATION ticket may be signed per armed session; re-arm to announce another fork'')
      else if tk_pq_pubkey ticket \<noteq> as_authorized_pq_pubkey armed
      then Inl (InvalidTicket ''pq_pubkey in hard-fork ticket must match the currently armed producer key'')
      else
        res_bind (validate_recent_chain_proof (pe_crypto E) (pe_ed E) (as_proof armed)
          (authorized_state_from_armed armed) (as_attestation_trust armed)) (\<lambda>_.
        if tk_activation_height ticket \<le> cp_finalized_height (as_proof armed)
        then Inl (InvalidTicket ''activation_height must be strictly greater than the finalized height from the armed RecentChainProof (stale chain view)'')
        else Inr ()))"

section \<open>Signing\<close>

definition produce_pq_signature :: "'g producer_env \<Rightarrow> pq_state \<Rightarrow> bytes \<Rightarrow> protocol_error + bytes" where
  "produce_pq_signature E q ticket_hash =
     (if \<not> pe_mldsa E
      then Inl (PqSigningUnavailable ''ML-DSA-65 signing disabled (build with ml-dsa-65 and install sealed key at boot)'')
      else if pq_signing_ready E q then sign_ticket_hash_sealed (pe_pq E) q ticket_hash
      else Inl (PqSigningUnavailable ''ML-DSA-65 signer not provisioned (install sealed key at enclave boot)''))"

definition sign_recovery_ticket :: "'g producer_env \<Rightarrow> pq_state \<Rightarrow> authorization_ticket_payload
    \<Rightarrow> protocol_error + sign_authorization_ticket_response" where
  "sign_recovery_ticket E q ticket =
     res_bind (validate_ticket_pq_pubkey_matches_signer E q ticket) (\<lambda>_.
     res_bind (prepare_ticket_for_signing (pe_crypto E) ticket) (\<lambda>ticket_hash.
     res_bind (produce_pq_signature E q ticket_hash) (\<lambda>signature.
     Inr \<lparr>sar_signature = signature, sar_ticket_hash = ticket_hash\<rparr>)))"

definition handle_sign_authorization_ticket :: "'g producer_env \<Rightarrow> pq_state \<Rightarrow> authorization_ticket_payload
    \<Rightarrow> protocol_error + sign_authorization_ticket_response" where
  "handle_sign_authorization_ticket E q ticket =
     (if tk_ticket_type ticket = 1
      then Inl (InvalidTicket ''Hard-fork (type=1) ticket signing requires armed enclave state. Use dispatch_command_with_state after ARM_FOR_PRODUCTION with a validated RecentChainProof.'')
      else sign_recovery_ticket E q ticket)"

definition handle_sign_block_root :: "'g producer_env \<Rightarrow> pq_state \<Rightarrow> bytes \<Rightarrow> protocol_error + sign_block_root_response" where
  "handle_sign_block_root E q block_hash =
     (if \<not> pq_signing_ready E q
      then Inl (PqSigningUnavailable ''block-root signing requires an operational PQ signer (install a sealed key at boot)'')
      else
        (let signed_hash = compute_block_root_signing_hash (pe_crypto E) block_hash in
         res_bind (produce_pq_signature E q signed_hash) (\<lambda>signature.
         Inr \<lparr>sbr_signature = signature, sbr_signed_hash = signed_hash\<rparr>)))"

text \<open>The state is the second component; only a signed hard-fork ticket changes it. In the last case
  the validation refuses every type but 0 and 1, so the value that stands for \<open>unreachable!\<close> is
  never returned (\<open>sign_other_types\<close>).\<close>

definition handle_sign_authorization_ticket_with_state :: "'g producer_env \<Rightarrow> pq_state
    \<Rightarrow> authorization_ticket_payload \<Rightarrow> enclave_state
    \<Rightarrow> (protocol_error + sign_authorization_ticket_response) \<times> enclave_state" where
  "handle_sign_authorization_ticket_with_state E q ticket st =
     (if tk_ticket_type ticket = 0 then (sign_recovery_ticket E q ticket, st)
      else if tk_ticket_type ticket = 1 then
        (case st of
           Unarmed \<Rightarrow> (Inl (InvalidTicket ''Hard-fork signing requires the enclave to be armed via ARM_FOR_PRODUCTION with a validated RecentChainProof''), st)
         | Armed armed \<Rightarrow>
             (case res_bind (validate_hard_fork_sign_preconditions E ticket armed) (\<lambda>_.
                   res_bind (validate_ticket_pq_pubkey_matches_signer E q ticket) (\<lambda>_.
                   res_bind (prepare_ticket_for_signing (pe_crypto E) ticket) (\<lambda>ticket_hash.
                   res_bind (produce_pq_signature E q ticket_hash) (\<lambda>signature.
                   Inr \<lparr>sar_signature = signature, sar_ticket_hash = ticket_hash\<rparr>)))) of
                Inl e \<Rightarrow> (Inl e, st)
              | Inr resp \<Rightarrow>
                  (Inr resp, Armed (armed\<lparr>as_pending_hard_fork_height := Some (tk_activation_height ticket)\<rparr>))))
      else (res_bind (validate_ticket_payload ticket) (\<lambda>_.
        Inl (InvalidTicket ''validate_ticket_payload only accepts ticket types 0 and 1'')), st))"

section \<open>Dispatch\<close>

text \<open>\<open>Display\<close> of \<open>ProtocolError\<close>; the inner text of a third-party error is a parameter.\<close>

fun display_error :: "(protocol_error \<Rightarrow> string) \<Rightarrow> protocol_error \<Rightarrow> string" where
  "display_error tx (MessageTooLarge n) = ''message too large: '' @ dec_string (unat n) @ '' bytes (max 1048576)''"
| "display_error tx (InvalidVersion got expected) =
     ''invalid protocol version: got '' @ dec_string (unat got) @ '', expected '' @ dec_string (unat expected)"
| "display_error tx CborDecode = ''cbor decode error: '' @ tx CborDecode"
| "display_error tx CborEncode = ''cbor encode error: '' @ tx CborEncode"
| "display_error tx (Io k) = ''io error: '' @ tx (Io k)"
| "display_error tx (UnknownMessageType b) = ''unknown message type: '' @ dec_string (unat b)"
| "display_error tx (InvalidTicket s) = ''invalid ticket payload: '' @ s"
| "display_error tx (RecentChainProofValidation s) = ''recent chain proof validation failed: '' @ s"
| "display_error tx (WireProtocol s) = ''wire protocol error: '' @ s"
| "display_error tx (PqSigningUnavailable s) = ''PQ signing unavailable: '' @ s"
| "display_error tx (PqSignatureInvalid s) = ''PQ signature invalid: '' @ s"

definition agent_gateway_response :: "'g producer_env \<Rightarrow> bytes \<Rightarrow> 'g host_process \<Rightarrow> response \<times> 'g host_process" where
  "agent_gateway_response E payload s = (case pe_agent E of
     Some handle \<Rightarrow> (case handle payload (hp_agent s) of (body, g) \<Rightarrow> (RespAgentGateway body, s\<lparr>hp_agent := g\<rparr>))
   | None \<Rightarrow> (RespError [], s))"

text \<open>The stateless dispatcher; the gateway has its own slot, so its state is the only one threaded.\<close>

fun dispatch_command :: "'g producer_env \<Rightarrow> command \<Rightarrow> 'g host_process \<Rightarrow> response \<times> 'g host_process" where
  "dispatch_command E (CmdSignAuthorizationTicket ticket) s =
     (case handle_sign_authorization_ticket E (hp_pq s) ticket of
        Inr resp \<Rightarrow> (RespSignAuthorizationTicket resp, s)
      | Inl e \<Rightarrow> (RespError (''sign_authorization_ticket failed: '' @ display_error (pe_foreign_text E) e), s))"
| "dispatch_command E (CmdSignBlockRoot _) s =
     (RespError ''SIGN_BLOCK_ROOT requires dispatch_command_with_state (armed enclave required)'', s)"
| "dispatch_command E (CmdGetMeasurement _) s = (RespGetMeasurement (measurement_response E s), s)"
| "dispatch_command E (CmdArmForProduction _) s =
     (RespError ''ARM_FOR_PRODUCTION requires dispatch_command_with_state and an enclave-held ProducerAttestationTrust (host cannot supply the trust anchor)'', s)"
| "dispatch_command E (CmdGetStatus _) s = (RespError ''GET_STATUS requires dispatch_command_with_state'', s)"
| "dispatch_command E (CmdAgentGateway payload) s = agent_gateway_response E payload s"

fun dispatch_command_with_state :: "'g producer_env \<Rightarrow> bytes \<Rightarrow> command \<Rightarrow> 'g host_process \<Rightarrow> response \<times> 'g host_process" where
  "dispatch_command_with_state E trust (CmdSignAuthorizationTicket ticket) s =
     (case handle_sign_authorization_ticket_with_state E (hp_pq s) ticket (hp_state s) of
        (Inr resp, st) \<Rightarrow> (RespSignAuthorizationTicket resp, s\<lparr>hp_state := st\<rparr>)
      | (Inl e, st) \<Rightarrow> (RespError (''sign_authorization_ticket failed: '' @ display_error (pe_foreign_text E) e),
          s\<lparr>hp_state := st\<rparr>))"
| "dispatch_command_with_state E trust (CmdSignBlockRoot block_hash) s =
     (case hp_state s of
        Unarmed \<Rightarrow> (RespError ''sign_block_root requires ARM_FOR_PRODUCTION first (enclave not armed)'', s)
      | Armed _ \<Rightarrow>
          (case handle_sign_block_root E (hp_pq s) block_hash of
             Inr resp \<Rightarrow> (RespSignBlockRoot resp, s)
           | Inl e \<Rightarrow> (RespError (''sign_block_root failed: '' @ display_error (pe_foreign_text E) e), s)))"
| "dispatch_command_with_state E trust (CmdGetMeasurement _) s = (RespGetMeasurement (measurement_response E s), s)"
| "dispatch_command_with_state E trust (CmdArmForProduction req) s =
     (case arm_for_production E (hp_pq s) (hp_state s) req trust of
        Inr new_state \<Rightarrow>
          (RespArmForProduction \<lparr>ar_status = ''armed'', ar_reason = None\<rparr>, s\<lparr>hp_state := new_state\<rparr>)
      | Inl e \<Rightarrow>
          (RespArmForProduction \<lparr>ar_status = ''refused'', ar_reason = Some (display_error (pe_foreign_text E) e)\<rparr>, s))"
| "dispatch_command_with_state E trust (CmdGetStatus _) s = (RespGetStatus (build_get_status_response (hp_state s)), s)"
| "dispatch_command_with_state E trust (CmdAgentGateway payload) s = agent_gateway_response E payload s"

section \<open>Framed requests\<close>

fun decode_wire_command :: "'g producer_env \<Rightarrow> message_type \<Rightarrow> bytes \<Rightarrow> protocol_error + command" where
  "decode_wire_command E GetMeasurement payload =
     res_bind (decode_get_measurement_request (pe_cbor E) payload) (\<lambda>r. Inr (CmdGetMeasurement r))"
| "decode_wire_command E SignAuthorizationTicket payload =
     res_bind (decode_sign_authorization_ticket_request (pe_cbor E) payload) (\<lambda>r. Inr (CmdSignAuthorizationTicket r))"
| "decode_wire_command E ArmForProduction payload =
     res_bind (decode_arm_for_production_request (pe_cbor E) payload) (\<lambda>r. Inr (CmdArmForProduction r))"
| "decode_wire_command E GetStatus payload =
     res_bind (decode_get_status_request (pe_cbor E) payload) (\<lambda>r. Inr (CmdGetStatus r))"
| "decode_wire_command E SignBlockRoot payload =
     res_bind (decode_sign_block_root_request (pe_cbor E) payload) (\<lambda>r. Inr (CmdSignBlockRoot r))"
| "decode_wire_command E AgentGateway payload =
     (if pe_agent E = None
      then Inl (WireProtocol ''agent gateway commands require the agent-gateway feature (reserved by TASK-7.1)'')
      else Inr (CmdAgentGateway payload))"
| "decode_wire_command E AgentBootRelay payload =
     Inl (WireProtocol ''AGENT_BOOT_RELAY is enclave-initiated; not serve-dispatchable'')"
| "decode_wire_command E AgentAnchorMarksRelay payload =
     Inl (WireProtocol ''AGENT_ANCHOR_MARKS_RELAY is enclave-initiated; not serve-dispatchable'')"
| "decode_wire_command E AgentAnchorCommitRelay payload =
     Inl (WireProtocol ''AGENT_ANCHOR_COMMIT_RELAY is enclave-initiated; not serve-dispatchable'')"

text \<open>The cases that pair a command with its own response, an error response, and a mismatch.\<close>

definition encode_wire_response :: "'g producer_env \<Rightarrow> message_type \<Rightarrow> response \<Rightarrow> protocol_error + bytes" where
  "encode_wire_response E t resp = (case (t, resp) of
     (GetMeasurement, RespGetMeasurement r) \<Rightarrow> encode_get_measurement_response (pe_cbor E) r
   | (ArmForProduction, RespArmForProduction r) \<Rightarrow> encode_arm_for_production_response (pe_cbor E) r
   | (GetStatus, RespGetStatus r) \<Rightarrow> encode_get_status_response (pe_cbor E) r
   | (SignAuthorizationTicket, RespSignAuthorizationTicket r) \<Rightarrow> encode_sign_authorization_ticket_response (pe_cbor E) r
   | (SignBlockRoot, RespSignBlockRoot r) \<Rightarrow> encode_sign_block_root_response (pe_cbor E) r
   | (AgentGateway, RespAgentGateway body) \<Rightarrow> Inr body
   | (_, RespError msg) \<Rightarrow> encode_wire_error (pe_cbor E) 1 msg
   | (expected, other) \<Rightarrow> encode_wire_error (pe_cbor E) 1
       (''unexpected response '' @ pe_debug_response E other @ '' for message type '' @ pe_debug_type E expected))"

definition peek_msg_type_from_frame :: "bytes \<Rightarrow> message_type option" where
  "peek_msg_type_from_frame frame = (if 5 < length frame then message_type_of (frame ! 5) else None)"

fun protocol_error_to_wire_body :: "'g producer_env \<Rightarrow> protocol_error \<Rightarrow> protocol_error + bytes" where
  "protocol_error_to_wire_body E (MessageTooLarge n) =
     encode_wire_error (pe_cbor E) 1 (''message too large: '' @ dec_string (unat n))"
| "protocol_error_to_wire_body E (InvalidVersion got expected) =
     encode_wire_error (pe_cbor E) 1
       (''invalid version: got '' @ dec_string (unat got) @ '', expected '' @ dec_string (unat expected))"
| "protocol_error_to_wire_body E (UnknownMessageType b) =
     encode_wire_error (pe_cbor E) 1 (''unknown message type: '' @ dec_string (unat b))"
| "protocol_error_to_wire_body E (WireProtocol s) = encode_wire_error (pe_cbor E) 1 s"
| "protocol_error_to_wire_body E (InvalidTicket s) = encode_wire_error (pe_cbor E) 2 s"
| "protocol_error_to_wire_body E (RecentChainProofValidation s) = encode_wire_error (pe_cbor E) 2 s"
| "protocol_error_to_wire_body E (PqSigningUnavailable s) = encode_wire_error (pe_cbor E) 2 s"
| "protocol_error_to_wire_body E (PqSignatureInvalid s) = encode_wire_error (pe_cbor E) 2 s"
| "protocol_error_to_wire_body E CborDecode =
     encode_wire_error (pe_cbor E) 1 (''cbor decode error: '' @ pe_foreign_text E CborDecode)"
| "protocol_error_to_wire_body E CborEncode =
     encode_wire_error (pe_cbor E) 1 (''cbor encode error: '' @ pe_foreign_text E CborEncode)"
| "protocol_error_to_wire_body E (Io k) = Inl (WireProtocol ''internal: Io errors must not be encoded as wire errors'')"

definition encode_wire_error_frame :: "'g producer_env \<Rightarrow> message_type \<Rightarrow> protocol_error \<Rightarrow> protocol_error + bytes" where
  "encode_wire_error_frame E t e = res_bind (protocol_error_to_wire_body E e) (\<lambda>body. encode_message t body)"

definition encode_wire_error_frame_for_frame :: "'g producer_env \<Rightarrow> bytes \<Rightarrow> protocol_error \<Rightarrow> protocol_error + bytes" where
  "encode_wire_error_frame_for_frame E frame e = (case peek_msg_type_from_frame frame of
     Some t \<Rightarrow> encode_wire_error_frame E t e
   | None \<Rightarrow>
       (let type_byte = (if 5 < length frame then frame ! 5 else 0) in
        res_bind (protocol_error_to_wire_body E e) (\<lambda>body. encode_message_raw type_byte body)))"

definition try_process_framed_with_shared_state :: "'g producer_env \<Rightarrow> bytes \<Rightarrow> bytes \<Rightarrow> 'g host_process
    \<Rightarrow> (protocol_error + bytes) \<times> 'g host_process" where
  "try_process_framed_with_shared_state E trust frame s =
     (case decode_message frame of
        Inl e \<Rightarrow> (Inl e, s)
      | Inr framed \<Rightarrow>
          (case decode_wire_command E (fm_msg_type framed) (fm_payload framed) of
             Inl e \<Rightarrow> (Inl e, s)
           | Inr cmd \<Rightarrow>
               (case dispatch_command_with_state E trust cmd s of (response, s') \<Rightarrow>
                 (res_bind (encode_wire_response E (fm_msg_type framed) response) (\<lambda>body.
                    encode_message (fm_msg_type framed) body), s'))))"

definition process_framed_with_shared_state :: "'g producer_env \<Rightarrow> bytes \<Rightarrow> bytes \<Rightarrow> 'g host_process
    \<Rightarrow> (protocol_error + bytes) \<times> 'g host_process" where
  "process_framed_with_shared_state E trust frame s =
     (case try_process_framed_with_shared_state E trust frame s of
        (Inr resp, s') \<Rightarrow> (Inr resp, s')
      | (Inl (Io k), s') \<Rightarrow> (Inl (Io k), s')
      | (Inl e, s') \<Rightarrow> (encode_wire_error_frame_for_frame E frame e, s'))"

definition try_process_framed_bytes :: "'g producer_env \<Rightarrow> bytes \<Rightarrow> 'g host_process \<Rightarrow> protocol_error + bytes" where
  "try_process_framed_bytes E frame s =
     res_bind (decode_message frame) (\<lambda>framed.
     if fm_msg_type framed \<noteq> GetMeasurement
     then Inl (WireProtocol ''stateless stdio bridge supports GET_MEASUREMENT only; use enclave-stdio-session for ARM/STATUS/SIGN'')
     else
       res_bind (decode_get_measurement_request (pe_cbor E) (fm_payload framed)) (\<lambda>req.
       res_bind (case fst (dispatch_command E (CmdGetMeasurement req) s) of
           RespGetMeasurement resp \<Rightarrow> encode_get_measurement_response (pe_cbor E) resp
         | RespError msg \<Rightarrow> encode_wire_error (pe_cbor E) 1 msg
         | other \<Rightarrow> encode_wire_error (pe_cbor E) 1
             (''unexpected dispatch response for GET_MEASUREMENT: '' @ pe_debug_response E other)) (\<lambda>body.
       encode_message GetMeasurement body)))"

definition process_framed_bytes :: "'g producer_env \<Rightarrow> bytes \<Rightarrow> 'g host_process \<Rightarrow> protocol_error + bytes" where
  "process_framed_bytes E frame s =
     (case try_process_framed_bytes E frame s of
        Inr resp \<Rightarrow> Inr resp
      | Inl (Io k) \<Rightarrow> Inl (Io k)
      | Inl e \<Rightarrow> encode_wire_error_frame_for_frame E frame e)"

section \<open>What each operation does\<close>

lemma sign_other_types:
  "tk_ticket_type t \<noteq> 0 \<Longrightarrow> tk_ticket_type t \<noteq> 1 \<Longrightarrow>
     handle_sign_authorization_ticket_with_state E q t st
       = (Inl (InvalidTicket ''Unsupported ticket_type (only 0 = Recovery and 1 = HardFork are allowed)''), st)"
  by (simp add: handle_sign_authorization_ticket_with_state_def validate_ticket_payload_def)

text \<open>The signer signs this hash with its public key \<open>pk\<close>.\<close>

definition signs_with :: "'g producer_env \<Rightarrow> pq_state \<Rightarrow> bytes \<Rightarrow> bytes \<Rightarrow> bytes \<Rightarrow> bool" where
  "signs_with E q pk h sig \<longleftrightarrow> pe_mldsa E \<and> (\<exists>signer. ps_signer q = Some signer \<and> ms_public_key signer = pk
     \<and> sign_ticket_hash (pe_pq E) signer h = Inr sig)"

lemma produce_pq_signature_Inr:
  "produce_pq_signature E q h = Inr sig \<longleftrightarrow> (\<exists>pk. signs_with E q pk h sig)"
  by (auto simp: produce_pq_signature_def pq_signing_ready_def is_sealed_signer_installed_def signs_with_def
      sign_ticket_hash_sealed_def res_simps split: if_splits)

lemma ready_active_key:
  "pq_signing_ready E q \<longleftrightarrow> (\<exists>pk. active_signing_public_key_bytes E q = Some pk)"
  by (auto simp: pq_signing_ready_def is_sealed_signer_installed_def active_signing_public_key_bytes_def
      sealed_signer_public_key_bytes_def)

lemma signs_with_active: "signs_with E q pk h sig \<Longrightarrow> active_signing_public_key_bytes E q = Some pk"
  by (auto simp: signs_with_def active_signing_public_key_bytes_def sealed_signer_public_key_bytes_def)

lemma expect_pq_pubkey_Inr:
  "expect_pq_pubkey_matches_active_signer E q pk = Inr () \<longleftrightarrow>
     (\<forall>k. active_signing_public_key_bytes E q = Some k \<longrightarrow> pk = k)"
  by (auto simp: expect_pq_pubkey_matches_active_signer_def split: option.splits)

text \<open>The two signing paths produce a response exactly when the ticket is well formed and names the
  installed key, and the response is the canonical hash with that key's signature.\<close>

definition ticket_signed :: "'g producer_env \<Rightarrow> pq_state \<Rightarrow> authorization_ticket_payload
    \<Rightarrow> sign_authorization_ticket_response \<Rightarrow> bool" where
  "ticket_signed E q t r \<longleftrightarrow> validate_ticket_payload t = Inr ()
     \<and> sar_ticket_hash r = compute_canonical_ticket_hash (pe_crypto E) t
     \<and> signs_with E q (tk_pq_pubkey t) (sar_ticket_hash r) (sar_signature r)"

lemma sign_steps_Inr:
  "res_bind (validate_ticket_pq_pubkey_matches_signer E q t) (\<lambda>_.
   res_bind (prepare_ticket_for_signing (pe_crypto E) t) (\<lambda>ticket_hash.
   res_bind (produce_pq_signature E q ticket_hash) (\<lambda>signature.
   Inr \<lparr>sar_signature = signature, sar_ticket_hash = ticket_hash\<rparr>))) = Inr r \<longleftrightarrow> ticket_signed E q t r"
proof -
  have "signs_with E q pk h sig \<Longrightarrow> (\<forall>k. active_signing_public_key_bytes E q = Some k \<longrightarrow> tk_pq_pubkey t = k)
      \<longleftrightarrow> pk = tk_pq_pubkey t" for pk h sig
    using signs_with_active by fastforce
  then show ?thesis
    by (cases r) (auto simp: validate_ticket_pq_pubkey_matches_signer_def prepare_ticket_for_signing_def
        ticket_signed_def produce_pq_signature_Inr expect_pq_pubkey_Inr res_simps)
qed

lemma sign_recovery_ticket_Inr: "sign_recovery_ticket E q t = Inr r \<longleftrightarrow> ticket_signed E q t r"
  unfolding sign_recovery_ticket_def by (rule sign_steps_Inr)

lemma ticket_signed_unique: "ticket_signed E q t r \<Longrightarrow> ticket_signed E q t r' \<Longrightarrow> r = r'"
  unfolding sign_recovery_ticket_Inr [symmetric] by simp

lemma validate_hard_fork_sign_preconditions_Inr:
  "validate_hard_fork_sign_preconditions E t a = Inr () \<longleftrightarrow>
     as_pending_hard_fork_height a = None \<and> tk_pq_pubkey t = as_authorized_pq_pubkey a
     \<and> chain_proof_valid (pe_crypto E) (pe_ed E) (as_proof a) (authorized_state_from_armed a) (as_attestation_trust a)
     \<and> cp_finalized_height (as_proof a) < tk_activation_height t"
  by (auto simp: validate_hard_fork_sign_preconditions_def res_simps validate_recent_chain_proof_Inr not_le)

lemma handle_sign_with_state_Inr:
  "handle_sign_authorization_ticket_with_state E q t st = (Inr r, st') \<longleftrightarrow>
     ticket_signed E q t r \<and>
     (tk_ticket_type t = 0 \<and> st' = st
      \<or> tk_ticket_type t = 1 \<and> (\<exists>a. st = Armed a \<and> validate_hard_fork_sign_preconditions E t a = Inr ()
          \<and> st' = Armed (a\<lparr>as_pending_hard_fork_height := Some (tk_activation_height t)\<rparr>)))"
proof -
  consider "tk_ticket_type t = 0" | "tk_ticket_type t = 1" | "tk_ticket_type t \<noteq> 0" "tk_ticket_type t \<noteq> 1" by blast
  then show ?thesis
  proof cases
    case 2
    show ?thesis
      using 2 sign_recovery_ticket_Inr [of E q t]
      by (cases st; cases "sign_recovery_ticket E q t")
        (auto simp: handle_sign_authorization_ticket_with_state_def sign_recovery_ticket_def [symmetric] res_simps
          split: sum.splits dest: ticket_signed_unique)
  next
    case 3
    then show ?thesis by (auto simp: sign_other_types ticket_signed_def validate_ticket_payload_Inr)
  qed (auto simp: handle_sign_authorization_ticket_with_state_def sign_recovery_ticket_Inr)
qed

lemma handle_sign_with_state_Inl:
  "handle_sign_authorization_ticket_with_state E q t st = (Inl e, st') \<Longrightarrow> st' = st"
  by (auto simp: handle_sign_authorization_ticket_with_state_def split: if_splits enclave_state.splits sum.splits)

definition armed_with :: "arm_for_production_request \<Rightarrow> bytes \<Rightarrow> enclave_armed_state" where
  "armed_with req trust =
     \<lparr>as_proof = af_recent_chain_proof req, as_attestation_trust = trust,
      as_authorized_activated_at_height = ap_activated_at_height (af_authorized_state req),
      as_authorized_measurement = ap_measurement (af_authorized_state req),
      as_authorized_pq_pubkey = ap_pq_pubkey (af_authorized_state req),
      as_source_ticket_hash = ap_source_ticket_hash (af_authorized_state req),
      as_pending_hard_fork_height = None\<rparr>"

lemma authorized_state_from_armed_with [simp]:
  "authorized_state_from_armed (armed_with req trust) = af_authorized_state req"
  by (simp add: authorized_state_from_armed_def armed_with_def)

lemma authorized_state_from_armed_key [simp]: "ap_pq_pubkey (authorized_state_from_armed a) = as_authorized_pq_pubkey a"
  by (simp add: authorized_state_from_armed_def)

lemma arm_for_production_Inr:
  "arm_for_production E q st req trust = Inr st' \<longleftrightarrow>
     (\<forall>a. st = Armed a \<longrightarrow> cp_finalized_height (as_proof a) < cp_finalized_height (af_recent_chain_proof req)
        \<and> as_attestation_trust a = trust)
     \<and> active_signing_public_key_bytes E q = Some (ap_pq_pubkey (af_authorized_state req))
     \<and> chain_proof_valid (pe_crypto E) (pe_ed E) (af_recent_chain_proof req) (af_authorized_state req) trust
     \<and> st' = Armed (armed_with req trust)"
  unfolding armed_with_def
  by (cases st) (auto simp: arm_for_production_def res_simps expect_pq_pubkey_Inr validate_recent_chain_proof_Inr
      ready_active_key not_le split: if_splits)

text \<open>The signer, the captured attestation and (but for arming and hard forks) the enclave state are
  never changed by a command.\<close>

lemma dispatch_keeps:
  assumes "dispatch_command_with_state E trust cmd s = (resp, s')"
  shows "hp_pq s' = hp_pq s" and "hp_attestation s' = hp_attestation s"
  using assms by (cases cmd; auto simp: agent_gateway_response_def split: prod.splits sum.splits enclave_state.splits option.splits)+

lemma dispatch_state_cases:
  assumes "dispatch_command_with_state E trust cmd s = (resp, s')"
  obtains (same) "hp_state s' = hp_state s" "\<And>t r. cmd = CmdSignAuthorizationTicket t
      \<Longrightarrow> resp = RespSignAuthorizationTicket r \<Longrightarrow> tk_ticket_type t = 0 \<and> ticket_signed E (hp_pq s) t r"
  | (armed) req where "cmd = CmdArmForProduction req" "arm_for_production E (hp_pq s) (hp_state s) req trust = Inr (hp_state s')"
  | (forked) t r a where "cmd = CmdSignAuthorizationTicket t" "resp = RespSignAuthorizationTicket r"
      "tk_ticket_type t = 1" "ticket_signed E (hp_pq s) t r" "hp_state s = Armed a"
      "validate_hard_fork_sign_preconditions E t a = Inr ()"
      "hp_state s' = Armed (a\<lparr>as_pending_hard_fork_height := Some (tk_activation_height t)\<rparr>)"
proof (cases cmd)
  case (CmdSignAuthorizationTicket t)
  obtain x st where h: "handle_sign_authorization_ticket_with_state E (hp_pq s) t (hp_state s) = (x, st)" by force
  show thesis
  proof (cases x)
    case (Inl e)
    then show thesis using that(1) assms CmdSignAuthorizationTicket h handle_sign_with_state_Inl [of E "hp_pq s" t "hp_state s" e st]
      by auto
  next
    case (Inr r)
    then have "resp = RespSignAuthorizationTicket r" "hp_state s' = st"
      using assms CmdSignAuthorizationTicket h by auto
    then show thesis
      using that(1) that(3) [OF CmdSignAuthorizationTicket, of r] CmdSignAuthorizationTicket
        h [unfolded Inr handle_sign_with_state_Inr] by blast
  qed
next
  case (CmdArmForProduction req)
  then show thesis using that(1) that(2) [OF CmdArmForProduction] assms by (auto split: sum.splits)
qed (use that(1) assms in \<open>auto simp: agent_gateway_response_def split: prod.splits sum.splits enclave_state.splits option.splits\<close>)

section \<open>Runs\<close>

text \<open>What a command adds to the record of signed hard forks: the height of the chain proof the enclave
  was armed with, the ticket and the response.\<close>

type_synonym hard_fork = "u64 \<times> authorization_ticket_payload \<times> sign_authorization_ticket_response"

fun hard_fork_log :: "enclave_state \<Rightarrow> command \<Rightarrow> response \<Rightarrow> hard_fork list" where
  "hard_fork_log (Armed a) (CmdSignAuthorizationTicket t) (RespSignAuthorizationTicket r) =
     (if tk_ticket_type t = 1 then [(cp_finalized_height (as_proof a), t, r)] else [])"
| "hard_fork_log _ _ _ = []"

inductive producer_run :: "'g producer_env \<Rightarrow> bytes \<Rightarrow> 'g host_process \<Rightarrow> hard_fork list \<Rightarrow> 'g host_process \<Rightarrow> bool"
  for E trust s where
  start: "producer_run E trust s [] s"
| step: "producer_run E trust s hist s1 \<Longrightarrow> dispatch_command_with_state E trust cmd s1 = (resp, s2)
    \<Longrightarrow> producer_run E trust s (hist @ hard_fork_log (hp_state s1) cmd resp) s2"

definition armed_ok :: "'g producer_env \<Rightarrow> bytes \<Rightarrow> pq_state \<Rightarrow> enclave_armed_state \<Rightarrow> bool" where
  "armed_ok E trust q a \<longleftrightarrow>
     chain_proof_valid (pe_crypto E) (pe_ed E) (as_proof a) (authorized_state_from_armed a) trust
     \<and> as_attestation_trust a = trust
     \<and> active_signing_public_key_bytes E q = Some (as_authorized_pq_pubkey a)"

definition hard_fork_ok :: "'g producer_env \<Rightarrow> bytes \<Rightarrow> pq_state \<Rightarrow> hard_fork \<Rightarrow> bool" where
  "hard_fork_ok E trust q = (\<lambda>(h, t, r). tk_ticket_type t = 1 \<and> h < tk_activation_height t \<and> ticket_signed E q t r
     \<and> (\<exists>p a. chain_proof_valid (pe_crypto E) (pe_ed E) p a trust \<and> cp_finalized_height p = h
          \<and> ap_pq_pubkey a = tk_pq_pubkey t))"

text \<open>The invariant: an armed enclave holds a valid proof under the pinned trust anchor for its own
  key, every recorded fork was signed at a height no later than the armed proof's, and strictly
  earlier while no fork is pending.\<close>

definition run_ok :: "'g producer_env \<Rightarrow> bytes \<Rightarrow> hard_fork list \<Rightarrow> 'g host_process \<Rightarrow> bool" where
  "run_ok E trust hist s \<longleftrightarrow>
     sorted_wrt (\<lambda>x y. fst x < fst y) hist \<and> list_all (hard_fork_ok E trust (hp_pq s)) hist
     \<and> (case hp_state s of Unarmed \<Rightarrow> hist = []
        | Armed a \<Rightarrow> armed_ok E trust (hp_pq s) a
            \<and> (\<forall>x \<in> set hist. fst x < cp_finalized_height (as_proof a)
                \<or> fst x = cp_finalized_height (as_proof a) \<and> as_pending_hard_fork_height a \<noteq> None))"

lemma run_ok_step:
  assumes ok: "run_ok E trust hist s" and d: "dispatch_command_with_state E trust cmd s = (resp, s')"
  shows "run_ok E trust (hist @ hard_fork_log (hp_state s) cmd resp) s'"
proof -
  have q: "hp_pq s' = hp_pq s" using d by (rule dispatch_keeps)
  from d show ?thesis
  proof (cases rule: dispatch_state_cases)
    case same
    then have "hard_fork_log (hp_state s) cmd resp = []"
      by (cases "(hp_state s, cmd, resp)" rule: hard_fork_log.cases) auto
    then show ?thesis using ok same(1) q by (auto simp: run_ok_def split: enclave_state.splits)
  next
    case (armed req)
    have a: "hp_state s' = Armed (armed_with req trust)"
      "active_signing_public_key_bytes E (hp_pq s) = Some (ap_pq_pubkey (af_authorized_state req))"
      "chain_proof_valid (pe_crypto E) (pe_ed E) (af_recent_chain_proof req) (af_authorized_state req) trust"
      "\<And>a. hp_state s = Armed a \<Longrightarrow> cp_finalized_height (as_proof a) < cp_finalized_height (af_recent_chain_proof req)"
      using armed(2) by (simp_all add: arm_for_production_Inr)
    have "\<forall>x \<in> set hist. fst x < cp_finalized_height (af_recent_chain_proof req)"
      using ok a(4) by (cases "hp_state s") (auto simp: run_ok_def)
    moreover have "armed_ok E trust (hp_pq s) (armed_with req trust)"
      using a(2,3) unfolding armed_ok_def authorized_state_from_armed_with by (simp add: armed_with_def)
    ultimately show ?thesis
      using ok a(1) q armed(1) by (simp add: run_ok_def) (simp add: armed_with_def)
  next
    case (forked t r a)
    have v: "as_pending_hard_fork_height a = None" "tk_pq_pubkey t = as_authorized_pq_pubkey a"
      "chain_proof_valid (pe_crypto E) (pe_ed E) (as_proof a) (authorized_state_from_armed a) trust"
      "cp_finalized_height (as_proof a) < tk_activation_height t"
      using forked(5,6) ok by (auto simp: validate_hard_fork_sign_preconditions_Inr run_ok_def armed_ok_def)
    then have "hard_fork_ok E trust (hp_pq s) (cp_finalized_height (as_proof a), t, r)"
      using forked(3,4) authorized_state_from_armed_key [of a] unfolding hard_fork_ok_def by fastforce
    moreover have "\<forall>x \<in> set hist. fst x < cp_finalized_height (as_proof a)"
      using ok forked(5) v(1) by (auto simp: run_ok_def)
    ultimately show ?thesis
      using ok forked q by (auto simp: run_ok_def armed_ok_def sorted_wrt_append authorized_state_from_armed_def)
  qed
qed

lemma producer_run_ok:
  assumes "producer_run E trust s hist s'" "hp_state s = Unarmed"
  shows "run_ok E trust hist s' \<and> hp_pq s' = hp_pq s"
  using assms
proof induction
  case start
  then show ?case by (simp add: run_ok_def)
next
  case (step hist s1 cmd resp s2)
  then show ?case using run_ok_step dispatch_keeps(1) by metis
qed

section \<open>Framed requests\<close>

text \<open>One framed request performs one decoded command, or changes nothing.\<close>

lemma try_process_cases:
  assumes "try_process_framed_with_shared_state E trust frame s = (x, s')"
  obtains (refused) e where "x = Inl e" "s' = s"
  | (served) m cmd resp where "decode_message frame = Inr m"
      "decode_wire_command E (fm_msg_type m) (fm_payload m) = Inr cmd"
      "dispatch_command_with_state E trust cmd s = (resp, s')"
      "x = res_bind (encode_wire_response E (fm_msg_type m) resp) (\<lambda>body. encode_message (fm_msg_type m) body)"
  using assms by (auto simp: try_process_framed_with_shared_state_def split: sum.splits prod.splits)

lemma process_framed_state:
  "snd (process_framed_with_shared_state E trust frame s) = snd (try_process_framed_with_shared_state E trust frame s)"
  by (auto simp: process_framed_with_shared_state_def split: prod.splits sum.splits protocol_error.splits)

lemma nth_frame_of [simp]: "frame_of t p ! 5 = message_type_byte t" "length (frame_of t p) = length p + 6"
  by (simp_all add: frame_of_def nth_append)

lemma encode_message_raw_Inr:
  "encode_message_raw b p = Inr f \<Longrightarrow> 6 \<le> length f \<and> f ! 5 = b"
  by (auto simp: encode_message_raw_def Let_def nth_append split: if_splits)

lemma encode_message_type:
  "encode_message t p = Inr f \<Longrightarrow> 6 \<le> length f \<and> f ! 5 = message_type_byte t"
  unfolding encode_message_def by (rule encode_message_raw_Inr)

lemma decode_message_type: "decode_message f = Inr m \<Longrightarrow> 6 \<le> length f \<and> f ! 5 = message_type_byte (fm_msg_type m)"
  by (auto simp: decode_message_Inr)

lemma decode_message_short: "length f < 6 \<Longrightarrow> decode_message f = Inl (Io UnexpectedEof)"
  by (simp add: decode_message_def)

lemma error_frame_type:
  assumes "encode_wire_error_frame_for_frame E frame e = Inr f" "6 \<le> length frame"
  shows "6 \<le> length f \<and> f ! 5 = frame ! 5"
proof (cases "message_type_of (frame ! 5)")
  case None
  then show ?thesis using assms encode_message_raw_Inr
    by (auto simp: encode_wire_error_frame_for_frame_def peek_msg_type_from_frame_def res_simps)
next
  case (Some t)
  then have "frame ! 5 = message_type_byte t" by (simp add: message_type_of_Some)
  then show ?thesis using assms Some encode_message_type
    by (auto simp: encode_wire_error_frame_for_frame_def peek_msg_type_from_frame_def encode_wire_error_frame_def res_simps)
qed

lemma decode_wire_command_inbound:
  "decode_wire_command E t p = Inr cmd \<Longrightarrow> t \<notin> {AgentBootRelay, AgentAnchorMarksRelay, AgentAnchorCommitRelay}"
  by (cases t) simp_all

section \<open>Properties\<close>

text \<open>C6: Anti-equivocation of hard forks: in every run of the dispatcher from an unarmed process, under
  the trust anchor pinned in the enclave, the hard-fork tickets signed are signed at strictly
  increasing finalized heights, so at most one per chain view. Each was signed with the installed
  key over its canonical hash, activates strictly after the height of a chain proof the pinned
  producer attested, and names the producer key of that proof; the signer itself never changes.\<close>

theorem hard_forks_never_equivocate:
  assumes "producer_run E trust s hist s'" "hp_state s = Unarmed"
  shows "sorted_wrt (\<lambda>x y. fst x < fst y) hist \<and> hp_pq s' = hp_pq s
    \<and> list_all (\<lambda>(h, t, r). h < tk_activation_height t \<and> validate_ticket_payload t = Inr ()
        \<and> sar_ticket_hash r = compute_canonical_ticket_hash (pe_crypto E) t
        \<and> signs_with E (hp_pq s) (tk_pq_pubkey t) (sar_ticket_hash r) (sar_signature r)
        \<and> (\<exists>p a. chain_proof_valid (pe_crypto E) (pe_ed E) p a trust \<and> cp_finalized_height p = h
             \<and> ap_pq_pubkey a = tk_pq_pubkey t)) hist"
proof -
  from producer_run_ok [OF assms] have "run_ok E trust hist s'" "hp_pq s' = hp_pq s" by simp_all
  then show ?thesis
    by (auto simp: run_ok_def hard_fork_ok_def ticket_signed_def list_all_iff split_beta)
qed

text \<open>Arming is exact: the enclave (re-)arms precisely when the request's producer key is the
  installed signer's, its chain proof is structurally valid and Ed25519-signed under the pinned
  trust anchor, and, when already armed, the proof is strictly newer and the anchor unchanged; a
  refused request changes nothing, and an accepted one clears the pending hard fork.\<close>

theorem arming_exact:
  "(fst (dispatch_command_with_state E trust (CmdArmForProduction req) s)
      = RespArmForProduction \<lparr>ar_status = ''armed'', ar_reason = None\<rparr>)
    = (active_signing_public_key_bytes E (hp_pq s) = Some (ap_pq_pubkey (af_authorized_state req))
       \<and> chain_proof_valid (pe_crypto E) (pe_ed E) (af_recent_chain_proof req) (af_authorized_state req) trust
       \<and> (case hp_state s of Unarmed \<Rightarrow> True | Armed a \<Rightarrow>
            cp_finalized_height (as_proof a) < cp_finalized_height (af_recent_chain_proof req)
            \<and> as_attestation_trust a = trust))
   \<and> snd (dispatch_command_with_state E trust (CmdArmForProduction req) s)
     = (if fst (dispatch_command_with_state E trust (CmdArmForProduction req) s)
          = RespArmForProduction \<lparr>ar_status = ''armed'', ar_reason = None\<rparr>
        then s\<lparr>hp_state := Armed (armed_with req trust)\<rparr> else s)"
proof (cases "arm_for_production E (hp_pq s) (hp_state s) req trust")
  case (Inl e)
  then have "arm_for_production E (hp_pq s) (hp_state s) req trust \<noteq> Inr (Armed (armed_with req trust))" by simp
  note n = this [unfolded arm_for_production_Inr]
  show ?thesis using Inl n by (auto split: enclave_state.splits)
next
  case (Inr st)
  note a = Inr [unfolded arm_for_production_Inr]
  then show ?thesis using Inr by (auto split: enclave_state.splits)
qed

text \<open>C19: What the signing key signs: a ticket response comes only from a well-formed ticket that names
  the installed key, over its canonical hash; a hard-fork ticket moreover only in an armed session
  with no fork pending, whose proof is revalidated, and it makes that fork the pending one, while a
  recovery ticket changes nothing. A block root is signed only while armed and only under its own
  hash domain. Neither command can be answered from any other.\<close>

theorem producer_signatures_confined:
  assumes "dispatch_command_with_state E trust cmd s = (resp, s')"
  shows "(\<forall>r. resp = RespSignAuthorizationTicket r \<longrightarrow> (\<exists>t. cmd = CmdSignAuthorizationTicket t
        \<and> validate_ticket_payload t = Inr () \<and> sar_ticket_hash r = compute_canonical_ticket_hash (pe_crypto E) t
        \<and> signs_with E (hp_pq s) (tk_pq_pubkey t) (sar_ticket_hash r) (sar_signature r)
        \<and> (tk_ticket_type t = 0 \<and> s' = s
           \<or> tk_ticket_type t = 1 \<and> (\<exists>a. hp_state s = Armed a \<and> as_pending_hard_fork_height a = None
                \<and> as_authorized_pq_pubkey a = tk_pq_pubkey t
                \<and> chain_proof_valid (pe_crypto E) (pe_ed E) (as_proof a) (authorized_state_from_armed a)
                    (as_attestation_trust a)
                \<and> cp_finalized_height (as_proof a) < tk_activation_height t
                \<and> s' = s\<lparr>hp_state := Armed (a\<lparr>as_pending_hard_fork_height := Some (tk_activation_height t)\<rparr>)\<rparr>))))
    \<and> (\<forall>r. resp = RespSignBlockRoot r \<longrightarrow> (\<exists>root a pk. cmd = CmdSignBlockRoot root \<and> hp_state s = Armed a \<and> s' = s
        \<and> sbr_signed_hash r = keccak_256 (pe_crypto E) (BLOCK_ROOT_SIGNING_DOMAIN @ root)
        \<and> signs_with E (hp_pq s) pk (sbr_signed_hash r) (sbr_signature r)))"
proof (cases cmd)
  case (CmdSignAuthorizationTicket t)
  obtain x st where h: "handle_sign_authorization_ticket_with_state E (hp_pq s) t (hp_state s) = (x, st)" by force
  show ?thesis
  proof (cases x)
    case (Inr r)
    show ?thesis
      using assms CmdSignAuthorizationTicket h h [unfolded Inr handle_sign_with_state_Inr] Inr
      by (auto simp: ticket_signed_def validate_hard_fork_sign_preconditions_Inr)
  qed (use assms CmdSignAuthorizationTicket h in auto)
next
  case (CmdSignBlockRoot root)
  then show ?thesis using assms
    by (auto simp: handle_sign_block_root_def produce_pq_signature_Inr compute_block_root_signing_hash_def Let_def res_simps
        split: enclave_state.splits sum.splits if_splits)
next
  case (CmdAgentGateway p)
  then show ?thesis using assms by (auto simp: agent_gateway_response_def split: option.splits prod.splits)
qed (use assms in \<open>auto split: sum.splits\<close>)

text \<open>The serve loop fails closed on every frame: an answer always carries the message type byte of
  its request, known or not; a frame that is not a complete frame, does not decode, or is one of the
  enclave-initiated relay types leaves the process exactly as it was; and whatever a frame changes,
  the signing key, the captured attestation and (unless it is an agent frame) the agent gateway are
  kept.\<close>

theorem framed_requests_fail_closed:
  assumes "process_framed_with_shared_state E trust frame s = (x, s')"
  shows "(\<forall>f. x = Inr f \<longrightarrow> 6 \<le> length f \<and> 6 \<le> length frame \<and> f ! 5 = frame ! 5)
    \<and> hp_pq s' = hp_pq s \<and> hp_attestation s' = hp_attestation s
    \<and> (s' = s \<or> (\<exists>m cmd resp. decode_message frame = Inr m
          \<and> decode_wire_command E (fm_msg_type m) (fm_payload m) = Inr cmd
          \<and> fm_msg_type m \<notin> {AgentBootRelay, AgentAnchorMarksRelay, AgentAnchorCommitRelay}
          \<and> dispatch_command_with_state E trust cmd s = (resp, s')
          \<and> (fm_msg_type m = AgentGateway \<or> hp_agent s' = hp_agent s)))"
proof -
  obtain y where y: "try_process_framed_with_shared_state E trust frame s = (y, s')"
    using process_framed_state [of E trust frame s] assms
    by (cases "try_process_framed_with_shared_state E trust frame s") auto
  have len: "6 \<le> length frame" if "x = Inr f" for f
  proof (rule ccontr)
    assume "\<not> 6 \<le> length frame"
    then have "decode_message frame = Inl (Io UnexpectedEof)" by (simp add: decode_message_short)
    then show False using assms that
      by (simp add: process_framed_with_shared_state_def try_process_framed_with_shared_state_def)
  qed
  have byte: "6 \<le> length f \<and> f ! 5 = frame ! 5" if x: "x = Inr f" for f
  proof (cases y)
    case (Inl e)
    then have "encode_wire_error_frame_for_frame E frame e = Inr f"
      using assms y x by (auto simp: process_framed_with_shared_state_def split: protocol_error.splits)
    then show ?thesis using len [OF x] by (rule error_frame_type)
  next
    case (Inr g)
    then have "f = g" using assms y x by (auto simp: process_framed_with_shared_state_def)
    with y Inr show ?thesis
      by (cases rule: try_process_cases) (auto simp: res_simps dest!: encode_message_type decode_message_type)
  qed
  have "hp_pq s' = hp_pq s \<and> hp_attestation s' = hp_attestation s \<and> (s' = s \<or> (\<exists>m cmd resp. decode_message frame = Inr m
          \<and> decode_wire_command E (fm_msg_type m) (fm_payload m) = Inr cmd
          \<and> fm_msg_type m \<notin> {AgentBootRelay, AgentAnchorMarksRelay, AgentAnchorCommitRelay}
          \<and> dispatch_command_with_state E trust cmd s = (resp, s')
          \<and> (fm_msg_type m = AgentGateway \<or> hp_agent s' = hp_agent s)))"
    using y
  proof (cases rule: try_process_cases)
    case (served m cmd resp)
    have "fm_msg_type m = AgentGateway \<or> hp_agent s' = hp_agent s"
      using served(2,3) by (cases "fm_msg_type m")
        (auto simp: res_simps split: prod.splits sum.splits enclave_state.splits)
    then show ?thesis using served dispatch_keeps [OF served(3)] decode_wire_command_inbound [OF served(2)] by blast
  qed simp
  then show ?thesis using byte len by blast
qed

section \<open>A concrete producer\<close>

definition sample_ed :: ed25519 where
  "sample_ed = \<lparr>ed_from_bytes_ok = (\<lambda>_. True), ed_public = (\<lambda>sk. sk), ed_sign = (\<lambda>_ _. replicate 64 1),
     ed_verify = (\<lambda>_ _ sig. sig = replicate 64 1)\<rparr>"

definition sample_build :: "unit producer_env" where
  "sample_build = \<lparr>pe_crypto = sample_crypto, pe_ed = sample_ed, pe_pq = sample_pq,
     pe_cbor = one_value (w_map [(1, WInteger 2), (2, WText ''x'')]), pe_mldsa = True, pe_agent = None,
     pe_foreign_text = (\<lambda>_. []), pe_debug_type = (\<lambda>_. []), pe_debug_response = (\<lambda>_. [])\<rparr>"

definition sample_process :: "unit host_process" where
  "sample_process = \<lparr>hp_state = Unarmed, hp_pq = \<lparr>ps_root = Some [2], ps_signer = Some sample_signer\<rparr>,
     hp_attestation = None, hp_agent = ()\<rparr>"

definition sample_producer :: authorized_producer_state where
  "sample_producer = sample_authorized\<lparr>ap_pq_pubkey := sample_pk\<rparr>"

definition sample_proof :: recent_chain_proof where
  "sample_proof = sample_unsigned_proof\<lparr>cp_proof_data := 1 # replicate 32 5, cp_signature := Some (replicate 64 1)\<rparr>"

definition sample_fork :: authorization_ticket_payload where
  "sample_fork = sample_ticket\<lparr>tk_pq_pubkey := sample_pk\<rparr>"

definition sample_arm :: arm_for_production_request where
  "sample_arm = \<lparr>af_authorized_state = sample_producer, af_recent_chain_proof = sample_proof\<rparr>"

definition sample_trust :: bytes where "sample_trust = replicate 32 4"

definition sample_armed :: "unit host_process" where
  "sample_armed = sample_process\<lparr>hp_state := Armed (armed_with sample_arm sample_trust)\<rparr>"

lemma sample_build_sel [simp]: "pe_crypto sample_build = sample_crypto" "pe_ed sample_build = sample_ed"
  "pe_pq sample_build = sample_pq" "pe_mldsa sample_build" "pe_agent sample_build = None"
  by (simp_all add: sample_build_def)

lemma sample_process_sel [simp]: "hp_state sample_process = Unarmed"
  "hp_pq sample_process = \<lparr>ps_root = Some [2], ps_signer = Some sample_signer\<rparr>"
  by (simp_all add: sample_process_def)

lemma sample_active: "active_signing_public_key_bytes sample_build (hp_pq sample_process) = Some sample_pk"
  by (simp add: active_signing_public_key_bytes_def sealed_signer_public_key_bytes_def sample_signer_def)

lemma sample_keccak [simp]: "keccak_256 sample_crypto m = replicate 32 5"
  by (simp add: sample_crypto_def)

lemma sample_ed_verify [simp]: "ed_verify sample_ed k m sig = (sig = replicate 64 1)"
  by (simp add: sample_ed_def)

lemma sample_proof_valid: "chain_proof_valid sample_crypto sample_ed sample_proof sample_producer sample_trust"
  by (simp add: chain_proof_valid_def sample_proof_def sample_unsigned_proof_def sample_producer_def sample_authorized_def
      compute_recovery_tail_digest_def PROOF_DATA_FORMAT_V1_def)

lemma sample_arms:
  "dispatch_command_with_state sample_build sample_trust (CmdArmForProduction sample_arm) sample_process
     = (RespArmForProduction \<lparr>ar_status = ''armed'', ar_reason = None\<rparr>, sample_armed)"
proof -
  have "arm_for_production sample_build (hp_pq sample_process) (hp_state sample_process) sample_arm sample_trust
      = Inr (Armed (armed_with sample_arm sample_trust))"
    using sample_active sample_proof_valid by (simp add: arm_for_production_Inr sample_arm_def)
      (simp add: sample_producer_def)
  then show ?thesis by (simp add: sample_armed_def)
qed

definition sample_fork_response :: sign_authorization_ticket_response where
  "sample_fork_response = \<lparr>sar_signature = replicate 32 5 @ replicate 3277 1, sar_ticket_hash = replicate 32 5\<rparr>"

lemma sample_fork_signed: "ticket_signed sample_build (hp_pq sample_process) sample_fork sample_fork_response"
proof -
  have "sign_ticket_hash sample_pq sample_signer (replicate 32 5) = Inr (replicate 32 5 @ replicate 3277 1)"
    using sample_signs [of "replicate 32 5"] by simp
  then show ?thesis
    by (simp add: ticket_signed_def sample_fork_response_def signs_with_def compute_canonical_ticket_hash_def
        validate_ticket_payload_Inr sample_fork_def sample_ticket_def sample_signer_def)
qed

lemma sample_fork_dispatch:
  "\<exists>s'. dispatch_command_with_state sample_build sample_trust (CmdSignAuthorizationTicket sample_fork) sample_armed
     = (RespSignAuthorizationTicket sample_fork_response, s')"
proof -
  let ?a = "armed_with sample_arm sample_trust"
  have "validate_hard_fork_sign_preconditions sample_build sample_fork ?a = Inr ()"
    using sample_proof_valid
    by (simp add: validate_hard_fork_sign_preconditions_Inr sample_arm_def)
      (simp add: armed_with_def sample_fork_def sample_producer_def sample_ticket_def sample_proof_def sample_unsigned_proof_def)
  moreover have "tk_ticket_type sample_fork = 1" by (simp add: sample_fork_def sample_ticket_def)
  ultimately have "handle_sign_authorization_ticket_with_state sample_build (hp_pq sample_process) sample_fork (Armed ?a)
      = (Inr sample_fork_response, Armed (?a\<lparr>as_pending_hard_fork_height := Some (tk_activation_height sample_fork)\<rparr>))"
    using sample_fork_signed by (simp add: handle_sign_with_state_Inr)
  then show ?thesis by (simp add: sample_armed_def)
qed

lemma hard_forks_never_equivocate_witness:
  "\<exists>s'. producer_run sample_build sample_trust sample_process [(120, sample_fork, sample_fork_response)] s'
     \<and> hp_pq s' = hp_pq sample_process \<and> (120 :: u64) < tk_activation_height sample_fork"
proof -
  obtain s' where f: "dispatch_command_with_state sample_build sample_trust (CmdSignAuthorizationTicket sample_fork) sample_armed
     = (RespSignAuthorizationTicket sample_fork_response, s')" using sample_fork_dispatch by blast
  have "producer_run sample_build sample_trust sample_process [] sample_armed"
    using producer_run.step [OF producer_run.start sample_arms] by simp
  from producer_run.step [OF this f]
  have run: "producer_run sample_build sample_trust sample_process [(120, sample_fork, sample_fork_response)] s'"
    by (simp add: sample_armed_def)
      (simp add: armed_with_def sample_arm_def sample_proof_def sample_unsigned_proof_def sample_fork_def sample_ticket_def)
  show ?thesis using run hard_forks_never_equivocate [OF run] by auto
qed

lemma producer_signatures_confined_witness:
  "\<exists>s'. dispatch_command_with_state sample_build sample_trust (CmdSignAuthorizationTicket sample_fork) sample_armed
       = (RespSignAuthorizationTicket sample_fork_response, s')
     \<and> sar_ticket_hash sample_fork_response = compute_canonical_ticket_hash sample_crypto sample_fork"
proof -
  obtain s' where f: "dispatch_command_with_state sample_build sample_trust (CmdSignAuthorizationTicket sample_fork) sample_armed
     = (RespSignAuthorizationTicket sample_fork_response, s')" using sample_fork_dispatch by blast
  then show ?thesis using producer_signatures_confined [OF f] by auto
qed

text \<open>An enclave-initiated relay frame is refused: the answer echoes its type, the process is unchanged.\<close>

definition sample_relay_frame :: bytes where
  "sample_relay_frame = frame_of AgentBootRelay []"

lemma framed_requests_fail_closed_witness:
  "snd (process_framed_with_shared_state sample_build sample_trust sample_relay_frame sample_armed) = sample_armed
   \<and> hp_pq sample_armed = hp_pq sample_process"
proof -
  let ?r = "process_framed_with_shared_state sample_build sample_trust sample_relay_frame sample_armed"
  have m: "decode_message sample_relay_frame = Inr \<lparr>fm_version = PROTOCOL_VERSION, fm_msg_type = AgentBootRelay, fm_payload = []\<rparr>"
    unfolding sample_relay_frame_def decode_message_Inr by (intro exI [of _ AgentBootRelay] exI [of _ "[]"]) (simp add: MAX_MESSAGE_SIZE_def)
  have "process_framed_with_shared_state sample_build sample_trust sample_relay_frame sample_armed = (fst ?r, snd ?r)" by simp
  from framed_requests_fail_closed [OF this] have "snd ?r = sample_armed" using m by auto
  then show ?thesis by (simp add: sample_armed_def)
qed

end
