(* ===== verification/Relay.thy ===== *)
theory Relay
  imports Strict_Map Frame Snp_Report Producer
begin

text \<open>
  The boot relay: the request codecs, the bounded response framing and the round-trip cores of
  \<open>agent_boot_relay.rs\<close>, the deadline helpers of \<open>cancellable_boundary.rs\<close>, and the host's forwarding daemon of
  \<open>host_anchor_relay.rs\<close>. The relay is untrusted; what is shown is that it is transparent (the anchor gets the
  enclave's bytes, the enclave the anchor's, and nothing else) and that an honest chain of legs delivers.

  \<open>cb\<close> is the lenient \<open>ciborium\<close> reader: the value and how many bytes it took. A value of a kind that
  \<open>cbor_value\<close> lacks (null, float, tag) is refused by every decoder here and is left out of its range.
\<close>

section \<open>Requests\<close>

type_synonym cbor_reader = "bytes \<Rightarrow> (cbor_value \<times> nat) option"

definition RELAY_REQUEST_VERSION :: u64 where "RELAY_REQUEST_VERSION = 1"
definition MARKS_REQUEST_VERSION :: u64 where "MARKS_REQUEST_VERSION = 1"
definition MAX_ANCHOR_RESPONSE_LEN :: nat where "MAX_ANCHOR_RESPONSE_LEN = 4096"
definition MAX_QUOTE_REPORT_LEN :: nat where "MAX_QUOTE_REPORT_LEN = 8192"
definition MARKS_RESP_ENVELOPE_RESERVE :: nat where "MARKS_RESP_ENVELOPE_RESERVE = 256"
definition MAX_MARKS_RESPONSE_LEN :: nat where
  "MAX_MARKS_RESPONSE_LEN = MAX_MARKS_PAYLOAD_LEN + MARKS_RESP_ENVELOPE_RESERVE"

record decoded_boot_request =
  db_chain_id :: u64
  db_environment_identifier :: bytes
  db_nonce :: bytes
  db_report_data :: bytes
  db_quote_report :: bytes
  db_cert_chain :: bytes

definition encode_anchor_boot_request :: "bytes \<Rightarrow> bytes \<Rightarrow> anchor_boot_request \<Rightarrow> protocol_error + bytes" where
  "encode_anchor_boot_request quote_report cert_chain r =
     (if length quote_report > MAX_QUOTE_REPORT_LEN
      then Inl (WireProtocol ''anchor boot request: quote_report too large'')
      else if length cert_chain > MAX_CERT_CHAIN_LEN
      then Inl (WireProtocol ''anchor boot request: cert_chain too large'')
      else encode_message AgentBootRelay
        (put_uint 5 7
         @ put_uint 0 1 @ put_uint 0 RELAY_REQUEST_VERSION
         @ put_uint 0 2 @ put_uint 0 (br_chain_id r)
         @ put_uint 0 3 @ put_text (br_environment_identifier r)
         @ put_uint 0 4 @ put_bytes (br_nonce r)
         @ put_uint 0 5 @ put_bytes (br_report_data r)
         @ put_uint 0 6 @ put_bytes quote_report
         @ put_uint 0 7 @ put_bytes cert_chain))"

text \<open>The common front of the three request decoders: the frame and its type, the CBOR map with no trailing byte and
  the keys.\<close>

definition request_map :: "cbor_reader \<Rightarrow> message_type \<Rightarrow> string \<Rightarrow> string \<Rightarrow> u64 \<Rightarrow> bytes
    \<Rightarrow> protocol_error + (cbor_value \<times> cbor_value) list" where
  "request_map cb ty not_ty what n frame =
     res_bind (decode_message frame) (\<lambda>framed.
     if fm_msg_type framed \<noteq> ty then Inl (WireProtocol not_ty)
     else
     res_bind (ok_or (WireProtocol (what @ '': bad CBOR'')) (cb (fm_payload framed))) (\<lambda>(v, position).
     if position \<noteq> length (fm_payload framed) then Inl (WireProtocol (what @ '': trailing bytes after CBOR''))
     else (case v of
         CMap m \<Rightarrow>
           (if \<not> check_strict_keys m (\<lambda>k. 1 \<le> k \<and> k \<le> n)
            then Inl (WireProtocol (what @ '': unexpected/missing/duplicate key''))
            else Inr m)
       | _ \<Rightarrow> Inl (WireProtocol (what @ '': payload is not a CBOR map'')))))"

definition decode_anchor_boot_request :: "crypto \<Rightarrow> cbor_reader \<Rightarrow> bytes \<Rightarrow> protocol_error + decoded_boot_request" where
  "decode_anchor_boot_request C cb frame =
     res_bind (request_map cb AgentBootRelay ''not an AGENT_BOOT_RELAY frame'' ''boot request'' 7 frame) (\<lambda>m.
     res_bind (field (WireProtocol ''boot request: bad uint'') as_u64 m 1) (\<lambda>version.
     if version \<noteq> RELAY_REQUEST_VERSION then Inl (WireProtocol ''boot request: unsupported version'')
     else
     res_bind (field (WireProtocol ''boot request: bad uint'') as_u64 m 2) (\<lambda>chain_id.
     res_bind (field (WireProtocol ''boot request: env must be text'') as_text m 3) (\<lambda>env.
     res_bind (field (WireProtocol ''boot request: nonce must be 32 bytes'') (as_bytes_n 32) m 4) (\<lambda>nonce.
     res_bind (field (WireProtocol ''boot request: report_data must be 64 bytes'') (as_bytes_n 64) m 5) (\<lambda>rdata.
     res_bind (field (WireProtocol ''boot request: quote_report must be bytes'') as_bytes m 6) (\<lambda>quote.
     if length quote > MAX_QUOTE_REPORT_LEN then Inl (WireProtocol ''boot request: quote_report too large'')
     else
     res_bind (field (WireProtocol ''boot request: cert_chain must be bytes'') as_bytes m 7) (\<lambda>cert.
     if length cert > MAX_CERT_CHAIN_LEN then Inl (WireProtocol ''boot request: cert_chain too large'')
     else if rdata \<noteq> anchor_handshake_report_data C chain_id env nonce
     then Inl (WireProtocol ''boot request: report_data inconsistent with (chain,env,nonce)'')
     else Inr \<lparr>db_chain_id = chain_id, db_environment_identifier = env, db_nonce = nonce,
            db_report_data = rdata, db_quote_report = quote, db_cert_chain = cert\<rparr>))))))))"

definition encode_anchor_marks_request :: "anchor_marks_request \<Rightarrow> protocol_error + bytes" where
  "encode_anchor_marks_request r =
     encode_message AgentAnchorMarksRelay
       (put_uint 5 5
        @ put_uint 0 1 @ put_uint 0 MARKS_REQUEST_VERSION
        @ put_uint 0 2 @ put_uint 0 (mq_chain_id r)
        @ put_uint 0 3 @ put_text (mq_environment_identifier r)
        @ put_uint 0 4 @ put_bytes (mq_nonce r)
        @ put_uint 0 5 @ put_uint 0 (mq_epoch r))"

text \<open>\<open>DecodedMarksRequest\<close> and \<open>DecodedCommitRequest\<close> have the fields of the requests, owned.\<close>

definition decode_anchor_marks_request :: "cbor_reader \<Rightarrow> bytes \<Rightarrow> protocol_error + anchor_marks_request" where
  "decode_anchor_marks_request cb frame =
     res_bind (request_map cb AgentAnchorMarksRelay ''not an AGENT_ANCHOR_MARKS_RELAY frame'' ''marks request'' 5 frame) (\<lambda>m.
     res_bind (field (WireProtocol ''marks request: bad uint'') as_u64 m 1) (\<lambda>version.
     if version \<noteq> MARKS_REQUEST_VERSION then Inl (WireProtocol ''marks request: unsupported version'')
     else
     res_bind (field (WireProtocol ''marks request: bad uint'') as_u64 m 2) (\<lambda>chain_id.
     res_bind (field (WireProtocol ''marks request: env must be text'') as_text m 3) (\<lambda>env.
     res_bind (field (WireProtocol ''marks request: nonce must be 32 bytes'') (as_bytes_n 32) m 4) (\<lambda>nonce.
     res_bind (field (WireProtocol ''marks request: bad uint'') as_u64 m 5) (\<lambda>epoch.
     Inr \<lparr>mq_chain_id = chain_id, mq_environment_identifier = env, mq_nonce = nonce, mq_epoch = epoch\<rparr>))))))"

definition decode_anchor_commit_request :: "cbor_reader \<Rightarrow> bytes \<Rightarrow> protocol_error + anchor_commit_request" where
  "decode_anchor_commit_request cb frame =
     res_bind (request_map cb AgentAnchorCommitRelay ''not an AGENT_ANCHOR_COMMIT_RELAY frame'' ''commit request'' 8 frame) (\<lambda>m.
     res_bind (field (WireProtocol ''commit request: bad uint'') as_u64 m 1) (\<lambda>version.
     if version \<noteq> COMMIT_REQUEST_VERSION then Inl (WireProtocol ''commit request: unsupported version'')
     else
     res_bind (field (WireProtocol ''commit request: bad uint'') as_u64 m 2) (\<lambda>chain_id.
     res_bind (field (WireProtocol ''commit request: env must be text'') as_text m 3) (\<lambda>env.
     res_bind (field (WireProtocol ''commit request: bad uint'') as_u64 m 4) (\<lambda>new_epoch.
     res_bind (field (WireProtocol ''commit request: bad uint'') as_u64 m 5) (\<lambda>new_structural_version.
     res_bind (field (WireProtocol ''commit request: marks_digest must be 32 bytes'') (as_bytes_n 32) m 6) (\<lambda>marks_digest.
     res_bind (field (WireProtocol ''commit request: nonce must be 32 bytes'') (as_bytes_n 32) m 7) (\<lambda>nonce.
     res_bind (field (WireProtocol ''commit request: request_id missing or over cap'')
         (\<lambda>v. Option.bind (as_bytes v) (\<lambda>b. if length b \<le> MAX_REQUEST_ID_LEN then Some b else None)) m 8) (\<lambda>request_id.
     Inr \<lparr>cr_chain_id = chain_id, cr_environment_identifier = env, cr_new_epoch = new_epoch,
       cr_new_structural_version = new_structural_version, cr_marks_digest = marks_digest, cr_nonce = nonce,
       cr_request_id = request_id\<rparr>)))))))))"

section \<open>Deadlines (cancellable_boundary.rs)\<close>

text \<open>Times are nanoseconds on the monotonic clock.\<close>

definition MIN_BOUNDARY_BUDGET :: nat where "MIN_BOUNDARY_BUDGET = 1000000"
definition DEADLINE_LAPSED_MSG :: string where "DEADLINE_LAPSED_MSG = ''deadline lapsed''"

definition remaining_or_lapsed :: "nat \<Rightarrow> nat \<Rightarrow> protocol_error + nat" where
  "remaining_or_lapsed deadline now =
     (if now \<le> deadline \<and> MIN_BOUNDARY_BUDGET \<le> deadline - now then Inr (deadline - now)
      else Inl (WireProtocol DEADLINE_LAPSED_MSG))"

text \<open>\<open>PollTimeout::try_from(remaining).unwrap_or(MAX)\<close>, in milliseconds.\<close>

definition poll_timeout :: "nat \<Rightarrow> nat" where
  "poll_timeout remaining = min (remaining div 1000000) 2147483647"

text \<open>What one \<open>poll\<close> returns: a timeout, the events of the descriptor (\<open>None\<close> for unknown bits), an interruption or
  another error.\<close>

datatype poll_result = PollTimeout | PollReady "u16 option" | PollInterrupted | PollFailed

text \<open>One turn of the loop as the host plays it: the time until the clock is read, and to every timeout in milliseconds what
  \<open>poll\<close> answers and how long it takes.\<close>

record poll_event =
  po_delay :: nat
  po_poll :: "nat \<Rightarrow> poll_result \<times> nat"

text \<open>The loop from the time \<open>now\<close> on, over the turns to come: its result and when it returns, \<open>None\<close> when it has not
  by their end.\<close>

fun poll_run :: "nat \<Rightarrow> nat \<Rightarrow> poll_event list \<Rightarrow> ((protocol_error + u16) \<times> nat) option" where
  "poll_run deadline now [] = None"
| "poll_run deadline now (e # es) =
     (let now = now + po_delay e in
      case remaining_or_lapsed deadline now of
        Inl err \<Rightarrow> Some (Inl err, now)
      | Inr remaining \<Rightarrow>
          (case po_poll e (poll_timeout remaining) of
             (PollTimeout, took) \<Rightarrow> poll_run deadline (now + took) es
           | (PollReady r, took) \<Rightarrow> Some (ok_or (WireProtocol ''poll: ready but no revents'') r, now + took)
           | (PollInterrupted, took) \<Rightarrow> poll_run deadline (now + took) es
           | (PollFailed, took) \<Rightarrow> Some (Inl (WireProtocol ''poll: syscall error''), now + took)))"

definition poll_with_deadline :: "nat \<Rightarrow> nat \<Rightarrow> poll_event list \<Rightarrow> (protocol_error + u16) option" where
  "poll_with_deadline deadline now es = map_option fst (poll_run deadline now es)"

definition POLLIN :: u16 where "POLLIN = 0x01"
definition POLLOUT :: u16 where "POLLOUT = 0x04"
definition POLLERR :: u16 where "POLLERR = 0x08"
definition POLLHUP :: u16 where "POLLHUP = 0x10"
definition POLLNVAL :: u16 where "POLLNVAL = 0x20"

unbundle bit_operations_syntax

definition connect_poll_succeeded :: "u16 \<Rightarrow> bool" where
  "connect_poll_succeeded revents \<longleftrightarrow> revents AND POLLOUT = POLLOUT
     \<and> revents AND (POLLERR OR POLLHUP OR POLLNVAL) = 0"

datatype pipe_readiness = ReadNow | BrokenFd

definition classify_pipe_revents :: "u16 \<Rightarrow> pipe_readiness" where
  "classify_pipe_revents revents = (if revents AND (POLLIN OR POLLHUP) \<noteq> 0 then ReadNow else BrokenFd)"

text \<open>What the system calls of one \<open>connect_bounded\<close> answer: the clock on entry, whether a socket is made, the
  \<open>connect\<close>, the polls after \<open>EINPROGRESS\<close>, \<open>SO_ERROR\<close> (\<open>None\<close> when \<open>getsockopt\<close> fails) and the return to
  blocking mode.\<close>

datatype connect_result = Connected | InProgress | ConnectFailed

record connect_script =
  co_now :: nat
  co_socket :: bool
  co_connect :: connect_result
  co_polls :: "poll_event list"
  co_so_error :: "int option"
  co_blocking :: bool

definition VSOCK_CONNECT_LAPSE_MSG :: string where
  "VSOCK_CONNECT_LAPSE_MSG = ''anchor relay: vsock connect deadline lapsed''"
definition VSOCK_CONNECT_VETO_MSG :: string where
  "VSOCK_CONNECT_VETO_MSG = ''anchor relay: vsock connect failed (poll)''"

definition relabel_lapse :: "protocol_error \<Rightarrow> protocol_error" where
  "relabel_lapse e = (if e = WireProtocol DEADLINE_LAPSED_MSG then WireProtocol VSOCK_CONNECT_LAPSE_MSG else e)"

definition connect_bounded :: "nat \<Rightarrow> connect_script \<Rightarrow> (protocol_error + unit) option" where
  "connect_bounded deadline c =
     (let finish =
        (case co_so_error c of
           Some pending \<Rightarrow>
             (if pending \<noteq> 0 then Inl (WireProtocol ''anchor relay: vsock connect SO_ERROR set'')
              else if co_blocking c then Inr () else Inl (WireProtocol ''anchor relay: clear O_NONBLOCK failed''))
         | None \<Rightarrow> Inl (WireProtocol ''anchor relay: vsock connect getsockopt(SO_ERROR) failed'')) in
      case remaining_or_lapsed deadline (co_now c) of
        Inl _ \<Rightarrow> Some (Inl (WireProtocol VSOCK_CONNECT_LAPSE_MSG))
      | Inr _ \<Rightarrow>
          if \<not> co_socket c then Some (Inl (WireProtocol ''anchor relay: vsock socket() failed''))
          else
          (case co_connect c of
             Connected \<Rightarrow> Some finish
           | InProgress \<Rightarrow>
               map_option (\<lambda>r. case map_err relabel_lapse r of
                   Inl e \<Rightarrow> Inl e
                 | Inr revents \<Rightarrow>
                     if \<not> connect_poll_succeeded revents then Inl (WireProtocol VSOCK_CONNECT_VETO_MSG) else finish)
                 (poll_with_deadline deadline (co_now c) (co_polls c))
           | ConnectFailed \<Rightarrow> Some (Inl (WireProtocol ''anchor relay: vsock connect failed''))))"

section \<open>Streams\<close>

text \<open>A stream with a deadline: the reads to come, and for every guarded write what the clock says before it, whether it
  fails (and after how many bytes), what the clock says before the flush, and whether that fails. A script that is
  used up has lapsed.\<close>

record write_event =
  we_lapsed_before :: bool
  we_write :: "(nat \<times> io_kind) option"
  we_lapsed_between :: bool
  we_flush :: "io_kind option"

record duplex =
  dx_reads :: "read_event list"
  dx_writes :: "write_event list"
  dx_written :: bytes

definition deadline_guarded_write :: "bytes \<Rightarrow> string \<Rightarrow> duplex \<Rightarrow> (protocol_error + unit) \<times> duplex" where
  "deadline_guarded_write bs what d =
     (case dx_writes d of
        [] \<Rightarrow> (Inl (WireProtocol what), d)
      | e # es \<Rightarrow>
          (let d = d\<lparr>dx_writes := es\<rparr> in
           if we_lapsed_before e then (Inl (WireProtocol what), d)
           else (case we_write e of
               Some (k, kind) \<Rightarrow> (Inl (Io kind), d\<lparr>dx_written := dx_written d @ take k bs\<rparr>)
             | None \<Rightarrow>
                 (let d = d\<lparr>dx_written := dx_written d @ bs\<rparr> in
                  if we_lapsed_between e then (Inl (WireProtocol what), d)
                  else (case we_flush e of Some kind \<Rightarrow> (Inl (Io kind), d) | None \<Rightarrow> (Inr (), d))))))"

definition read_bounded_response_cap :: "nat \<Rightarrow> duplex \<Rightarrow> (protocol_error + bytes) \<times> duplex" where
  "read_bounded_response_cap cap d =
     (case read_exact_with_idle_deadline True 4 (dx_reads d) of
        (Inl e, es) \<Rightarrow> (Inl e, d\<lparr>dx_reads := es\<rparr>)
      | (Inr len_buf, es) \<Rightarrow>
          (let len = be_val len_buf in
           if len > cap then (Inl (WireProtocol ''anchor response too large''), d\<lparr>dx_reads := es\<rparr>)
           else (case read_exact_with_idle_deadline True len es of (r, es) \<Rightarrow> (r, d\<lparr>dx_reads := es\<rparr>))))"

definition read_bounded_anchor_response :: "duplex \<Rightarrow> (protocol_error + bytes) \<times> duplex" where
  "read_bounded_anchor_response d = read_bounded_response_cap MAX_ANCHOR_RESPONSE_LEN d"

definition frame_response_cap :: "bytes \<Rightarrow> nat \<Rightarrow> protocol_error + bytes" where
  "frame_response_cap response cap =
     (if length response > cap then Inl (WireProtocol ''anchor response too large to frame'')
      else Inr (be32 (of_nat (length response)) @ response))"

definition frame_anchor_response :: "bytes \<Rightarrow> protocol_error + bytes" where
  "frame_anchor_response response = frame_response_cap response MAX_ANCHOR_RESPONSE_LEN"

definition relay_round_trip_over_stream_cap :: "bytes \<Rightarrow> nat \<Rightarrow> duplex \<Rightarrow> (protocol_error + bytes) \<times> duplex" where
  "relay_round_trip_over_stream_cap frame cap d =
     (case deadline_guarded_write frame ''anchor relay: deadline before write'' d of
        (Inl e, d) \<Rightarrow> (Inl e, d)
      | (Inr _, d) \<Rightarrow> read_bounded_response_cap cap d)"

definition relay_round_trip_over_stream :: "bytes \<Rightarrow> duplex \<Rightarrow> (protocol_error + bytes) \<times> duplex" where
  "relay_round_trip_over_stream frame d = relay_round_trip_over_stream_cap frame MAX_ANCHOR_RESPONSE_LEN d"

definition read_request_frame :: "duplex \<Rightarrow> (protocol_error + bytes) \<times> duplex" where
  "read_request_frame d =
     (case read_framed_message_with_idle_deadline True (dx_reads d) of (r, es) \<Rightarrow> (r, d\<lparr>dx_reads := es\<rparr>))"

definition relay_forward_once :: "crypto \<Rightarrow> cbor_reader \<Rightarrow> duplex \<Rightarrow> duplex
    \<Rightarrow> (protocol_error + unit) \<times> duplex \<times> duplex" where
  "relay_forward_once C cb enclave anchor =
     (case read_request_frame enclave of
        (Inl e, enclave) \<Rightarrow> (Inl e, enclave, anchor)
      | (Inr frame, enclave) \<Rightarrow>
          (case decode_anchor_boot_request C cb frame of
             Inl e \<Rightarrow> (Inl e, enclave, anchor)
           | Inr _ \<Rightarrow>
               (case deadline_guarded_write frame ''anchor relay: deadline before anchor write'' anchor of
                  (Inl e, anchor) \<Rightarrow> (Inl e, enclave, anchor)
                | (Inr _, anchor) \<Rightarrow>
                    (case read_bounded_anchor_response anchor of
                       (Inl e, anchor) \<Rightarrow> (Inl e, enclave, anchor)
                     | (Inr response, anchor) \<Rightarrow>
                         (case frame_anchor_response response of
                            Inl e \<Rightarrow> (Inl e, enclave, anchor)
                          | Inr wire \<Rightarrow>
                              (case deadline_guarded_write wire ''anchor relay: deadline before enclave write'' enclave of
                                 (r, enclave) \<Rightarrow> (r, enclave, anchor)))))))"

section \<open>The enclave's transport\<close>

text \<open>The two seams: the quote and the channel, each a function of its own state. An error of the channel is its log
  string.\<close>

type_synonym 'q quote_fetch = "'q \<Rightarrow> bytes \<Rightarrow> (protocol_error + bytes \<times> bytes) \<times> 'q"

record 'c boot_relay_channel =
  bc_round_trip :: "'c \<Rightarrow> bytes \<Rightarrow> (string + bytes) \<times> 'c"
  bc_marks_round_trip :: "'c \<Rightarrow> bytes \<Rightarrow> (string + bytes) \<times> 'c"

definition relay_anchor_round_trip :: "'q quote_fetch \<Rightarrow> 'c boot_relay_channel \<Rightarrow> 'q \<times> 'c \<Rightarrow> anchor_boot_request
    \<Rightarrow> (string + bytes) \<times> 'q \<times> 'c" where
  "relay_anchor_round_trip fetch ch t r =
     (case t of (q, c) \<Rightarrow>
       (case fetch q (br_report_data r) of
          (Inl _, q) \<Rightarrow> (Inl ''anchor relay: SNP quote fetch failed'', q, c)
        | (Inr (report, cert_chain), q) \<Rightarrow>
            (case encode_anchor_boot_request report cert_chain r of
               Inl _ \<Rightarrow> (Inl ''anchor relay: request encode failed'', q, c)
             | Inr frame \<Rightarrow> (case bc_round_trip ch c frame of (x, c) \<Rightarrow> (x, q, c)))))"

definition relay_marks_round_trip :: "'c boot_relay_channel \<Rightarrow> 'q \<times> 'c \<Rightarrow> anchor_marks_request
    \<Rightarrow> (string + bytes) \<times> 'q \<times> 'c" where
  "relay_marks_round_trip ch t r =
     (case t of (q, c) \<Rightarrow>
       (case encode_anchor_marks_request r of
          Inl _ \<Rightarrow> (Inl ''anchor relay: marks request encode failed'', q, c)
        | Inr frame \<Rightarrow> (case bc_marks_round_trip ch c frame of (x, c) \<Rightarrow> (x, q, c))))"

definition relay_anchor_transport :: "'q quote_fetch \<Rightarrow> 'c boot_relay_channel \<Rightarrow> ('q \<times> 'c) anchor_boot_transport" where
  "relay_anchor_transport fetch ch =
     \<lparr>anchor_round_trip = relay_anchor_round_trip fetch ch, marks_round_trip = relay_marks_round_trip ch\<rparr>"

text \<open>The vsock channel: every round trip takes a fresh connection, or the failure to make one.\<close>

type_synonym connections = "(protocol_error + duplex) list"

definition round_trip_inner :: "bytes \<Rightarrow> nat \<Rightarrow> connections \<Rightarrow> (protocol_error + bytes) \<times> connections" where
  "round_trip_inner frame cap cs =
     (case cs of
        [] \<Rightarrow> (Inl (WireProtocol VSOCK_CONNECT_LAPSE_MSG), [])
      | Inl e # cs \<Rightarrow> (Inl e, cs)
      | Inr d # cs \<Rightarrow> (fst (relay_round_trip_over_stream_cap frame cap d), cs))"

definition vsock_round_trip :: "connections \<Rightarrow> bytes \<Rightarrow> (string + bytes) \<times> connections" where
  "vsock_round_trip cs frame =
     (case round_trip_inner frame MAX_ANCHOR_RESPONSE_LEN cs of
        (r, cs) \<Rightarrow> (map_err (\<lambda>_. ''anchor relay: vsock channel round-trip failed'') r, cs))"

definition vsock_marks_round_trip :: "connections \<Rightarrow> bytes \<Rightarrow> (string + bytes) \<times> connections" where
  "vsock_marks_round_trip cs frame =
     (case round_trip_inner frame MAX_MARKS_RESPONSE_LEN cs of
        (r, cs) \<Rightarrow> (map_err (\<lambda>_. ''anchor relay: vsock marks round-trip failed'') r, cs))"

definition vsock_boot_relay_channel :: "connections boot_relay_channel" where
  "vsock_boot_relay_channel = \<lparr>bc_round_trip = vsock_round_trip, bc_marks_round_trip = vsock_marks_round_trip\<rparr>"

section \<open>The host's relay daemon (host_anchor_relay.rs)\<close>

text \<open>Milliseconds.\<close>

definition PUMP_BUDGET :: nat where "PUMP_BUDGET = 10000"
definition CONNECT_BUDGET_DIVISOR :: nat where "CONNECT_BUDGET_DIVISOR = 4"
definition CONNECT_BUDGET_MIN :: nat where "CONNECT_BUDGET_MIN = 500"

definition connect_budget :: nat where
  "connect_budget =
     (let derived = (if CONNECT_BUDGET_DIVISOR = 0 then CONNECT_BUDGET_MIN else PUMP_BUDGET div CONNECT_BUDGET_DIVISOR)
      in max derived CONNECT_BUDGET_MIN)"

text \<open>One address of \<open>TcpAnchorDial::dial\<close>: the budget left when its turn comes (in nanoseconds, saturated at zero), and
  what connecting within the given timeout and setting \<open>TCP_NODELAY\<close> yield.\<close>

record dial_attempt =
  da_remaining :: nat
  da_connect :: "nat \<Rightarrow> io_kind + duplex"
  da_nodelay :: "io_kind option"

fun tcp_dial :: "dial_attempt list \<Rightarrow> io_kind option \<Rightarrow> io_kind + duplex" where
  "tcp_dial [] last_err = Inl (case last_err of Some e \<Rightarrow> e | None \<Rightarrow> AddrNotAvailable)"
| "tcp_dial (a # as) last_err =
     (if da_remaining a = 0 then Inl (case last_err of Some e \<Rightarrow> e | None \<Rightarrow> TimedOut)
      else (case da_connect a (max (da_remaining a) 1000000) of
          Inr s \<Rightarrow> (case da_nodelay a of Some e \<Rightarrow> Inl e | None \<Rightarrow> Inr s)
        | Inl e \<Rightarrow> tcp_dial as (Some e)))"

datatype relay_fault = AnchorConnect io_kind | Pump protocol_error

definition string_contains :: "string \<Rightarrow> string \<Rightarrow> bool" where
  "string_contains m p = sublist p m"

definition classify_close :: "relay_fault \<Rightarrow> string" where
  "classify_close fault =
     (case fault of
        AnchorConnect k \<Rightarrow> (if k = TimedOut then ''anchor-connect-timeout'' else ''anchor-unavailable'')
      | Pump (MessageTooLarge _) \<Rightarrow> ''oversized-request-frame''
      | Pump (Io k) \<Rightarrow>
          (if k = TimedOut \<or> k = WouldBlock then ''socket-timeout''
           else if k = UnexpectedEof \<or> k = BrokenPipe \<or> k = ConnectionReset then ''peer-closed''
           else ''io-error'')
      | Pump (WireProtocol m) \<Rightarrow>
          (if string_contains m ''anchor response too large'' then ''oversized-anchor-response''
           else if string_contains m ''deadline'' then ''pump-timeout''
           else if string_contains m ''boot request'' \<or> string_contains m ''marks request''
             \<or> string_contains m ''commit request'' \<or> string_contains m ''forwardable'' then ''malformed-request''
           else ''relay-error'')
      | Pump _ \<Rightarrow> ''relay-error'')"

text \<open>The decoder and the response cap of a request frame.\<close>

definition forwardable :: "crypto \<Rightarrow> cbor_reader \<Rightarrow> bytes \<Rightarrow> protocol_error + nat" where
  "forwardable C cb frame =
     (case peek_msg_type_from_frame frame of
        Some AgentBootRelay \<Rightarrow> res_bind (decode_anchor_boot_request C cb frame) (\<lambda>_. Inr MAX_ANCHOR_RESPONSE_LEN)
      | Some AgentAnchorMarksRelay \<Rightarrow> res_bind (decode_anchor_marks_request cb frame) (\<lambda>_. Inr MAX_MARKS_RESPONSE_LEN)
      | Some AgentAnchorCommitRelay \<Rightarrow> res_bind (decode_anchor_commit_request cb frame) (\<lambda>_. Inr MAX_ANCHOR_RESPONSE_LEN)
      | _ \<Rightarrow> Inl (WireProtocol (''anchor relay: only AGENT_BOOT_RELAY (0x41) / AGENT_ANCHOR_MARKS_RELAY (0x44)''
               @ '' / AGENT_ANCHOR_COMMIT_RELAY (0x45) are forwardable'')))"

text \<open>One pump. \<open>dial\<close> is what dialling the anchor yields, \<open>arm\<close> whether its timeouts can be set. The result carries the
  enclave's stream and the anchor's, when there is one.\<close>

definition relay_one_pump_until :: "crypto \<Rightarrow> cbor_reader \<Rightarrow> io_kind + duplex \<Rightarrow> io_kind option \<Rightarrow> duplex
    \<Rightarrow> (relay_fault + unit) \<times> duplex \<times> duplex option" where
  "relay_one_pump_until C cb dial arm enclave =
     (case read_request_frame enclave of
        (Inl e, enclave) \<Rightarrow> (Inl (Pump e), enclave, None)
      | (Inr frame, enclave) \<Rightarrow>
          (case forwardable C cb frame of
             Inl e \<Rightarrow> (Inl (Pump e), enclave, None)
           | Inr response_cap \<Rightarrow>
               (case dial of
                  Inl k \<Rightarrow> (Inl (AnchorConnect k), enclave, None)
                | Inr anchor \<Rightarrow>
                    (case arm of
                       Some k \<Rightarrow> (Inl (AnchorConnect k), enclave, Some anchor)
                     | None \<Rightarrow>
                         (case relay_round_trip_over_stream_cap frame response_cap anchor of
                            (Inl e, anchor) \<Rightarrow> (Inl (Pump e), enclave, Some anchor)
                          | (Inr response, anchor) \<Rightarrow>
                              (case frame_response_cap response response_cap of
                                 Inl e \<Rightarrow> (Inl (Pump e), enclave, Some anchor)
                               | Inr wire \<Rightarrow>
                                   (case deadline_guarded_write wire ''anchor relay: deadline before enclave write'' enclave of
                                      (r, enclave) \<Rightarrow> (map_err Pump r, enclave, Some anchor))))))))"

datatype relay_event = AcceptError io_kind | PumpOk | PumpFault string

text \<open>The serial accept loop over the connections to come, each with the dial it will see.\<close>

definition handle_accepted :: "crypto \<Rightarrow> cbor_reader \<Rightarrow> (io_kind + duplex) \<times> (io_kind + duplex) \<times> io_kind option
    \<Rightarrow> relay_event" where
  "handle_accepted C cb a =
     (case a of
        (Inl k, _) \<Rightarrow> AcceptError k
      | (Inr enclave, dial, arm) \<Rightarrow>
          (case relay_one_pump_until C cb dial arm enclave of
             (Inr _, _) \<Rightarrow> PumpOk
           | (Inl fault, _) \<Rightarrow> PumpFault (classify_close fault)))"

definition serve_anchor_relay_loop :: "crypto \<Rightarrow> cbor_reader
    \<Rightarrow> ((io_kind + duplex) \<times> (io_kind + duplex) \<times> io_kind option) list \<Rightarrow> relay_event list" where
  "serve_anchor_relay_loop C cb incoming = map (handle_accepted C cb) incoming"

section \<open>Streams deliver what was sent\<close>

lemma read_exact_loop_sound:
  assumes "read_exact_loop dl n buf es = (Inr xs, es')" "length buf \<le> n"
  shows "\<exists>ys. xs = buf @ ys \<and> length xs = n \<and> stream_bytes es = ys @ stream_bytes es'"
  using assms
proof (induction es arbitrary: buf)
  case (Cons e es)
  show ?case
  proof (cases "length buf < n \<and> \<not> (dl \<and> re_expired_before e)")
    case True
    show ?thesis
    proof (cases "re_outcome e")
      case (Chunk bs)
      show ?thesis
      proof (cases "bs \<noteq> [] \<and> length bs \<le> n - length buf")
        case True2: True
        then have "read_exact_loop dl n (buf @ bs) es = (Inr xs, es')" "length (buf @ bs) \<le> n"
          using Cons.prems True Chunk by (auto simp: Let_def)
        from Cons.IH [OF this] obtain ys where "xs = buf @ bs @ ys" "length xs = n" "stream_bytes es = ys @ stream_bytes es'"
          by auto
        then show ?thesis using Chunk by (intro exI [of _ "bs @ ys"]) simp
      next
        case False
        then show ?thesis using Cons.prems True Chunk by (auto simp: Let_def split: if_splits)
      qed
    next
      case (ReadErr k)
      then show ?thesis using Cons True by (auto split: if_splits)
    qed
  next
    case False
    then show ?thesis using Cons.prems by (auto split: if_splits)
  qed
qed (auto split: if_splits)

lemma read_exact_sound:
  "read_exact_with_idle_deadline dl n es = (Inr xs, es') \<Longrightarrow> length xs = n \<and> stream_bytes es = xs @ stream_bytes es'"
  using read_exact_loop_sound [of dl n "[]" es xs es'] by (auto simp: read_exact_with_idle_deadline_def)

lemma read_request_sound:
  assumes "read_request_frame d = (Inr frame, d')"
  shows "stream_bytes (dx_reads d) = frame @ stream_bytes (dx_reads d')" "d' = d\<lparr>dx_reads := dx_reads d'\<rparr>"
proof -
  obtain h es1 where h: "read_exact_with_idle_deadline True 4 (dx_reads d) = (Inr h, es1)"
    using assms by (auto simp: read_request_frame_def read_framed_message_with_idle_deadline_def split: prod.splits sum.splits)
  obtain b es2 where b: "read_exact_with_idle_deadline True (be_val h) es1 = (Inr b, es2)" and out: "frame = h @ b" "d' = d\<lparr>dx_reads := es2\<rparr>"
    using assms h by (auto simp: read_request_frame_def read_framed_message_with_idle_deadline_def Let_def split: prod.splits sum.splits if_splits)
  show "stream_bytes (dx_reads d) = frame @ stream_bytes (dx_reads d')"
    using read_exact_sound [OF h] read_exact_sound [OF b] out by simp
  show "d' = d\<lparr>dx_reads := dx_reads d'\<rparr>" using out by simp
qed

lemma read_request_keeps: "read_request_frame d = (r, d') \<Longrightarrow> dx_written d' = dx_written d \<and> dx_writes d' = dx_writes d"
  by (auto simp: read_request_frame_def split: prod.splits)

lemma read_response_sound:
  assumes "read_bounded_response_cap cap d = (Inr response, d')"
  shows "length response \<le> cap" "stream_bytes (dx_reads d) = be_bytes 4 (length response) @ response @ stream_bytes (dx_reads d')"
    "length response < 2 ^ 32"
proof -
  obtain h es1 where h: "read_exact_with_idle_deadline True 4 (dx_reads d) = (Inr h, es1)"
    using assms by (auto simp: read_bounded_response_cap_def split: prod.splits sum.splits)
  obtain es2 where b: "read_exact_with_idle_deadline True (be_val h) es1 = (Inr response, es2)" "be_val h \<le> cap"
    and out: "d' = d\<lparr>dx_reads := es2\<rparr>"
    using assms h by (auto simp: read_bounded_response_cap_def Let_def split: prod.splits sum.splits if_splits)
  note h' = read_exact_sound [OF h] and b' = read_exact_sound [OF b(1)]
  show "length response \<le> cap" using b' b(2) by simp
  have "be_bytes 4 (length response) = h" using h' b' be_bytes_be_val [of h] by simp
  then show "stream_bytes (dx_reads d) = be_bytes 4 (length response) @ response @ stream_bytes (dx_reads d')"
    using h' b' out by simp
  show "length response < 2 ^ 32" using b' h' be_val_less [of h] by simp
qed

lemma read_response_keeps: "read_bounded_response_cap cap d = (r, d') \<Longrightarrow> dx_written d' = dx_written d"
  by (auto simp: read_bounded_response_cap_def Let_def split: prod.splits sum.splits if_splits)

text \<open>A guarded write leaves a prefix of its bytes, all of them when it succeeds.\<close>

lemma guarded_write_prefix:
  assumes "deadline_guarded_write bs what d = (r, d')"
  shows "\<exists>sent. dx_written d' = dx_written d @ sent \<and> prefix sent bs \<and> (r = Inr () \<longrightarrow> sent = bs)"
    and "dx_reads d' = dx_reads d"
  using assms
  by (auto simp: deadline_guarded_write_def Let_def take_is_prefix split: list.splits if_splits option.splits)

lemma round_trip_prefix:
  assumes "relay_round_trip_over_stream_cap frame cap d = (r, d')"
  shows "\<exists>sent. dx_written d' = dx_written d @ sent \<and> prefix sent frame
    \<and> (\<forall>response. r = Inr response \<longrightarrow> sent = frame \<and> length response \<le> cap \<and> length response < 2 ^ 32
        \<and> (\<exists>rest. stream_bytes (dx_reads d) = be_bytes 4 (length response) @ response @ rest))"
proof -
  obtain w d1 where w: "deadline_guarded_write frame ''anchor relay: deadline before write'' d = (w, d1)" by fastforce
  note p = guarded_write_prefix [OF w]
  show ?thesis
  proof (cases w)
    case (Inl e)
    then show ?thesis using assms w p(1) by (auto simp: relay_round_trip_over_stream_cap_def)
  next
    case (Inr u)
    then have r: "read_bounded_response_cap cap d1 = (r, d')"
      using assms w by (simp add: relay_round_trip_over_stream_cap_def)
    have "dx_written d1 = dx_written d @ frame" using p(1) Inr by auto
    then show ?thesis
      using read_response_keeps [OF r] read_response_sound [of cap d1 _ d'] r p(2) by (auto intro!: exI [of _ frame])
  qed
qed

section \<open>The request codecs\<close>

text \<open>The reader's documented behaviour: it decodes the canonical encoding of a map within the frame limit, whole.\<close>

definition reads_canonical :: "cbor_reader \<Rightarrow> bool" where
  "reads_canonical cb \<longleftrightarrow> (\<forall>m. canon_value (CMap m) 1048576 1
     \<longrightarrow> cb (enc_value (CMap m)) = Some (CMap m, length (enc_value (CMap m))))"

text \<open>The requests the enclave makes: values of their Rust types, a sealed environment id and, for the freshness
  request, the report data of its own challenge.\<close>

definition boot_request_ok :: "crypto \<Rightarrow> anchor_boot_request \<Rightarrow> bool" where
  "boot_request_ok C r \<longleftrightarrow> is_valid_environment_identifier (br_environment_identifier r) \<and> length (br_nonce r) = 32
     \<and> length (br_report_data r) = 64
     \<and> anchor_handshake_report_data C (br_chain_id r) (br_environment_identifier r) (br_nonce r) = br_report_data r"

definition marks_request_ok :: "anchor_marks_request \<Rightarrow> bool" where
  "marks_request_ok r \<longleftrightarrow> is_valid_environment_identifier (mq_environment_identifier r) \<and> length (mq_nonce r) = 32"

definition commit_request_ok :: "anchor_commit_request \<Rightarrow> bool" where
  "commit_request_ok r \<longleftrightarrow> is_valid_environment_identifier (cr_environment_identifier r) \<and> length (cr_nonce r) = 32
     \<and> length (cr_marks_digest r) = 32"

lemma request_map_fields:
  assumes "reads_canonical cb" "length vs < 24" "\<forall>v \<in> set vs. canon_value v 1048576 2"
    "encode_message ty (enc_value (CMap (field_map vs))) = Inr f"
  shows "request_map cb ty not_ty what (of_nat (length vs)) f = Inr (field_map vs)"
proof -
  have "canon_value (CMap (field_map vs)) 1048576 1" using assms(2,3) field_map_canon by blast
  then have "cb (enc_value (CMap (field_map vs))) = Some (CMap (field_map vs), length (enc_value (CMap (field_map vs))))"
    using assms(1) unfolding reads_canonical_def by blast
  moreover have "decode_message f = Inr \<lparr>fm_version = PROTOCOL_VERSION, fm_msg_type = ty, fm_payload = enc_value (CMap (field_map vs))\<rparr>"
    using assms(4) by (simp add: encode_message_Inr decode_message_Inr del: enc_value.simps)
  moreover have "check_strict_keys (field_map vs) (\<lambda>k. 1 \<le> k \<and> k \<le> of_nat (length vs))"
    using field_map_keys [OF assms(2)] .
  ultimately show ?thesis by (simp add: request_map_def del: enc_value.simps)
qed

lemma canon_uint: "d \<le> 4 \<Longrightarrow> canon_value (CInteger (uint (n :: u64))) mx d"
  using uint_lt2p [of n] by (auto simp: MAX_CBOR_DEPTH_def intro: order_trans [of _ 0])

lemma canon_env: "is_valid_environment_identifier env \<Longrightarrow> canon_value (CText env) 1048576 2"
  using valid_env_utf8 [of env] by (simp add: MAX_CBOR_DEPTH_def)

lemma boot_request_roundtrip:
  assumes "reads_canonical cb" "boot_request_ok C r" "encode_anchor_boot_request quote cert r = Inr f"
  shows "decode_anchor_boot_request C cb f = Inr \<lparr>db_chain_id = br_chain_id r,
    db_environment_identifier = br_environment_identifier r, db_nonce = br_nonce r,
    db_report_data = br_report_data r, db_quote_report = quote, db_cert_chain = cert\<rparr>"
proof -
  let ?vs = "[CInteger (uint RELAY_REQUEST_VERSION), CInteger (uint (br_chain_id r)), CText (br_environment_identifier r),
    CBytes (br_nonce r), CBytes (br_report_data r), CBytes quote, CBytes cert]"
  have len: "length quote \<le> 8192" "length cert \<le> 65536"
    and e: "encode_message AgentBootRelay (enc_value (CMap (field_map ?vs))) = Inr f"
    unfolding enc_field_map using assms(3)
    by (auto simp: encode_anchor_boot_request_def enumerate_simps MAX_QUOTE_REPORT_LEN_def MAX_CERT_CHAIN_LEN_def split: if_splits)
  have "length (br_report_data r) = 64" "length (br_nonce r) = 32" "is_valid_environment_identifier (br_environment_identifier r)"
    using assms(2) by (auto simp: boot_request_ok_def)
  then have "\<forall>v \<in> set ?vs. canon_value v 1048576 2"
    using len by (simp add: canon_uint canon_env canon_CBytes del: canon_value.simps)
  from request_map_fields [OF assms(1) _ this e]
  have "request_map cb AgentBootRelay not_ty what 7 f = Inr (field_map ?vs)" for not_ty what by simp
  then show ?thesis
    using assms(2) len
    by (simp add: decode_anchor_boot_request_def field_def fields7_at as_text_def as_bytes_def boot_request_ok_def
        MAX_QUOTE_REPORT_LEN_def MAX_CERT_CHAIN_LEN_def)
qed

lemma marks_request_roundtrip:
  assumes "reads_canonical cb" "marks_request_ok r" "encode_anchor_marks_request r = Inr f"
  shows "decode_anchor_marks_request cb f = Inr r"
proof -
  let ?vs = "[CInteger (uint MARKS_REQUEST_VERSION), CInteger (uint (mq_chain_id r)), CText (mq_environment_identifier r),
    CBytes (mq_nonce r), CInteger (uint (mq_epoch r))]"
  have e: "encode_message AgentAnchorMarksRelay (enc_value (CMap (field_map ?vs))) = Inr f"
    unfolding enc_field_map using assms(3) by (simp add: encode_anchor_marks_request_def enumerate_simps)
  have "\<forall>v \<in> set ?vs. canon_value v 1048576 2"
    using assms(2) by (simp add: canon_uint canon_env marks_request_ok_def del: canon_value.simps)
  from request_map_fields [OF assms(1) _ this e]
  have "request_map cb AgentAnchorMarksRelay not_ty what 5 f = Inr (field_map ?vs)" for not_ty what by simp
  then show ?thesis
    using assms(2) by (simp add: decode_anchor_marks_request_def field_def fields5_at as_text_def marks_request_ok_def)
qed

lemma commit_request_roundtrip:
  assumes "reads_canonical cb" "commit_request_ok r" "encode_anchor_commit_request r = Inr f"
  shows "decode_anchor_commit_request cb f = Inr r"
proof -
  let ?vs = "[CInteger (uint COMMIT_REQUEST_VERSION), CInteger (uint (cr_chain_id r)), CText (cr_environment_identifier r),
    CInteger (uint (cr_new_epoch r)), CInteger (uint (cr_new_structural_version r)), CBytes (cr_marks_digest r),
    CBytes (cr_nonce r), CBytes (cr_request_id r)]"
  have len: "length (cr_request_id r) \<le> 64"
    and e: "encode_message AgentAnchorCommitRelay (enc_value (CMap (field_map ?vs))) = Inr f"
    unfolding enc_field_map using assms(3)
    by (auto simp: encode_anchor_commit_request_def anchor_commit_request_payload_def enumerate_simps MAX_REQUEST_ID_LEN_def
        split: if_splits)
  have "\<forall>v \<in> set ?vs. canon_value v 1048576 2"
    using assms(2) len by (simp add: canon_uint canon_env commit_request_ok_def del: canon_value.simps)
  from request_map_fields [OF assms(1) _ this e]
  have "request_map cb AgentAnchorCommitRelay not_ty what 8 f = Inr (field_map ?vs)" for not_ty what by simp
  then show ?thesis
    using assms(2) len by (simp add: decode_anchor_commit_request_def field_def fields8_at as_text_def as_bytes_def
        commit_request_ok_def MAX_REQUEST_ID_LEN_def)
qed

section \<open>The poll loop returns\<close>

text \<open>What a host is documented to do, up to a lateness: the clock is read at most \<open>late\<close> after the previous turn, a \<open>poll\<close>
  ends at most \<open>late\<close> after its timeout, and one that reports a timeout has slept all of it. An interrupted \<open>poll\<close> may have
  slept any time.\<close>

definition punctual :: "nat \<Rightarrow> poll_event \<Rightarrow> bool" where
  "punctual late e \<longleftrightarrow> po_delay e \<le> late
     \<and> (\<forall>ms. snd (po_poll e ms) \<le> ms * 1000000 + late \<and> (fst (po_poll e ms) = PollTimeout \<longrightarrow> ms * 1000000 \<le> snd (po_poll e ms)))"

text \<open>Time passes: the clock goes past every instant, whatever the polls answer.\<close>

definition time_passes :: "(nat \<Rightarrow> poll_event) \<Rightarrow> bool" where
  "time_passes E \<longleftrightarrow> (\<forall>t. \<exists>n. t \<le> (\<Sum>i<n. po_delay (E i)))"

text \<open>An answer \<open>r\<close> at the time \<open>t\<close>: a lapse when less than a millisecond was left, otherwise the answer of a poll with a timeout
  of at least one millisecond that the time then left covers.\<close>

definition poll_answer :: "nat \<Rightarrow> poll_event list \<Rightarrow> protocol_error + u16 \<Rightarrow> nat \<Rightarrow> bool" where
  "poll_answer deadline es r t \<longleftrightarrow>
     (r = Inl (WireProtocol DEADLINE_LAPSED_MSG) \<and> deadline < t + MIN_BOUNDARY_BUDGET)
     \<or> (\<exists>e \<in> set es. \<exists>ms res took. po_poll e ms = (res, took) \<and> 1 \<le> ms \<and> took \<le> t \<and> t - took + ms * 1000000 \<le> deadline
          \<and> (case res of
               PollReady (Some revents) \<Rightarrow> r = Inr revents
             | PollReady None \<Rightarrow> r = Inl (WireProtocol ''poll: ready but no revents'')
             | PollFailed \<Rightarrow> r = Inl (WireProtocol ''poll: syscall error'')
             | _ \<Rightarrow> False))"

lemma remaining_Inr: "remaining_or_lapsed deadline now = Inr rem \<longleftrightarrow> now + MIN_BOUNDARY_BUDGET \<le> deadline \<and> rem = deadline - now"
  by (auto simp: remaining_or_lapsed_def MIN_BOUNDARY_BUDGET_def)

lemma remaining_Inl: "remaining_or_lapsed deadline now = Inl e \<longleftrightarrow> deadline < now + MIN_BOUNDARY_BUDGET \<and> e = WireProtocol DEADLINE_LAPSED_MSG"
  by (auto simp: remaining_or_lapsed_def MIN_BOUNDARY_BUDGET_def)

text \<open>The timeout handed to \<open>poll\<close> is never zero and never more than what is left.\<close>

lemma poll_timeout_within:
  assumes "now + MIN_BOUNDARY_BUDGET \<le> deadline"
  shows "1 \<le> poll_timeout (deadline - now)" "now + poll_timeout (deadline - now) * 1000000 \<le> deadline"
proof -
  have rem: "1000000 \<le> deadline - now" using assms by (simp add: MIN_BOUNDARY_BUDGET_def)
  then show "1 \<le> poll_timeout (deadline - now)" using div_le_mono [OF rem, of 1000000] by (simp add: poll_timeout_def)
  have "poll_timeout (deadline - now) * 1000000 \<le> (deadline - now) div 1000000 * 1000000"
    by (intro mult_le_mono) (simp_all add: poll_timeout_def)
  also have "\<dots> \<le> deadline - now" by simp
  finally show "now + poll_timeout (deadline - now) * 1000000 \<le> deadline" using rem by linarith
qed

text \<open>One turn: it returns, or time has gone on and the loop goes on.\<close>

lemma poll_run_cases:
  assumes "poll_run deadline now (e # es) = x"
  obtains (lapsed) "deadline < now + po_delay e + MIN_BOUNDARY_BUDGET" "x = Some (Inl (WireProtocol DEADLINE_LAPSED_MSG), now + po_delay e)"
    | (answered) res took r where "now + po_delay e + MIN_BOUNDARY_BUDGET \<le> deadline"
        "po_poll e (poll_timeout (deadline - (now + po_delay e))) = (res, took)" "x = Some (r, now + po_delay e + took)"
        "case res of PollReady (Some revents) \<Rightarrow> r = Inr revents
           | PollReady None \<Rightarrow> r = Inl (WireProtocol ''poll: ready but no revents'')
           | PollFailed \<Rightarrow> r = Inl (WireProtocol ''poll: syscall error'') | _ \<Rightarrow> False"
    | (again) res took where "now + po_delay e + MIN_BOUNDARY_BUDGET \<le> deadline"
        "po_poll e (poll_timeout (deadline - (now + po_delay e))) = (res, took)" "poll_run deadline (now + po_delay e + took) es = x"
proof (cases "now + po_delay e + MIN_BOUNDARY_BUDGET \<le> deadline")
  case True
  obtain res took where p: "po_poll e (poll_timeout (deadline - (now + po_delay e))) = (res, took)" by fastforce
  have "remaining_or_lapsed deadline (now + po_delay e) = Inr (deadline - (now + po_delay e))" using True by (simp add: remaining_Inr)
  then show ?thesis
    using assms p True answered [OF True p] again [OF True p]
    by (cases res) (auto simp: Let_def ok_or_def split: option.splits)
next
  case False
  then have "remaining_or_lapsed deadline (now + po_delay e) = Inl (WireProtocol DEADLINE_LAPSED_MSG)" by (simp add: remaining_Inl)
  then show ?thesis using assms False lapsed by (simp add: Let_def)
qed

lemma poll_run_append: "poll_run deadline now es = Some x \<Longrightarrow> poll_run deadline now (es @ es') = Some x"
proof (induction es arbitrary: now)
  case (Cons e es)
  then show ?case by (auto simp: Let_def split: sum.splits prod.splits poll_result.splits)
qed simp

lemma poll_run_None:
  "poll_run deadline now es = None \<Longrightarrow> es \<noteq> [] \<Longrightarrow> now + sum_list (List.map po_delay es) < deadline"
proof (induction es arbitrary: now)
  case (Cons e es)
  from Cons.prems(1) show ?case
  proof (cases rule: poll_run_cases)
    case (again res took)
    then show ?thesis using Cons.IH [OF again(3)] by (cases "es = []") (auto simp: MIN_BOUNDARY_BUDGET_def)
  qed simp_all
qed simp

lemma poll_run_answer: "poll_run deadline now es = Some (r, t) \<Longrightarrow> now \<le> t \<and> poll_answer deadline es r t"
proof (induction es arbitrary: now)
  case (Cons e es)
  from Cons.prems show ?case
  proof (cases rule: poll_run_cases)
    case lapsed
    then show ?thesis by (auto simp: poll_answer_def)
  next
    case (answered res took r')
    note w = poll_timeout_within [OF answered(1)]
    have "po_poll e (poll_timeout (deadline - (now + po_delay e))) = (res, took) \<and> 1 \<le> poll_timeout (deadline - (now + po_delay e))
        \<and> took \<le> t \<and> t - took + poll_timeout (deadline - (now + po_delay e)) * 1000000 \<le> deadline"
      using answered(2,3) w by simp
    then show ?thesis using answered(3,4) unfolding poll_answer_def by fastforce
  next
    case (again res took)
    then show ?thesis using Cons.IH [OF again(3)] unfolding poll_answer_def by fastforce
  qed
qed simp

lemma poll_run_punctual:
  assumes "poll_run deadline now es = Some (r, t)" "list_all (punctual late) es" "now \<le> max start (deadline + late)"
  shows "t \<le> max (start + late) (deadline + 2 * late)"
  using assms
proof (induction es arbitrary: now)
  case (Cons e es)
  have e: "po_delay e \<le> late" "\<And>ms. snd (po_poll e ms) \<le> ms * 1000000 + late" using Cons.prems(2) by (simp_all add: punctual_def)
  from Cons.prems(1) show ?case
  proof (cases rule: poll_run_cases)
    case lapsed
    then show ?thesis using Cons.prems(3) e(1) by auto
  next
    case (answered res took r')
    then show ?thesis using poll_timeout_within(2) [OF answered(1)] e(2) [of "poll_timeout (deadline - (now + po_delay e))"] by simp
  next
    case (again res took)
    have "now + po_delay e + took \<le> max start (deadline + late)"
      using again(2) poll_timeout_within(2) [OF again(1)] e(2) [of "poll_timeout (deadline - (now + po_delay e))"] by simp
    then show ?thesis using Cons.IH [OF again(3)] Cons.prems(2) by simp
  qed
qed simp

text \<open>C33: every wait on a descriptor ends by its deadline, whatever interruptions come. On a host that is at most \<open>late\<close> late, and
  on which time passes, \<open>poll_with_deadline\<close> returns even if every \<open>poll\<close> is interrupted; it returns at most twice the lateness
  after the deadline, or at once when the deadline is past already; it never asks \<open>poll\<close> for a wait of no time or for more than
  what is left, and what it reports is the answer of such a poll or a lapse with less than a millisecond left. \<open>connect_bounded\<close>,
  which waits with it, returns too, and connects only on a clean writable event with no pending error.\<close>

theorem deadline_waits_return:
  assumes "\<forall>i. punctual late (E i)" "time_passes E"
  shows "\<exists>n r t. \<forall>m\<ge>n. poll_run deadline now (List.map E [0..<m]) = Some (r, t)
    \<and> t \<le> max (now + late) (deadline + 2 * late) \<and> poll_answer deadline (List.map E [0..<m]) r t
    \<and> (\<forall>c. co_now c = now \<and> co_polls c = List.map E [0..<m] \<longrightarrow> (\<exists>s. connect_bounded deadline c = Some s
          \<and> (s = Inr () \<and> co_connect c = InProgress \<longrightarrow> (\<exists>revents. r = Inr revents \<and> connect_poll_succeeded revents)
              \<and> co_so_error c = Some 0)))"
proof -
  obtain k where k: "deadline \<le> (\<Sum>i<k. po_delay (E i))" using assms(2) unfolding time_passes_def by blast
  let ?n = "Suc k"
  have sum: "sum_list (List.map po_delay (List.map E [0..<n])) = (\<Sum>i<n. po_delay (E i))" for n
    by (induction n) simp_all
  have "poll_run deadline now (List.map E [0..<?n]) \<noteq> None"
  proof
    assume "poll_run deadline now (List.map E [0..<?n]) = None"
    then have "now + sum_list (List.map po_delay (List.map E [0..<?n])) < deadline" by (rule poll_run_None) simp
    then show False using k unfolding sum by simp
  qed
  then obtain r t where r: "poll_run deadline now (List.map E [0..<?n]) = Some (r, t)" by (metis option.exhaust surj_pair)
  have all: "poll_run deadline now (List.map E [0..<m]) = Some (r, t)" if "?n \<le> m" for m
  proof -
    have "[0..<m] = [0..<?n] @ [?n..<m]" using upt_add_eq_append [of 0 ?n "m - ?n"] that by simp
    then show ?thesis using poll_run_append [OF r] by simp
  qed
  have c: "\<forall>c. co_now c = now \<and> co_polls c = List.map E [0..<m] \<longrightarrow> (\<exists>s. connect_bounded deadline c = Some s
      \<and> (s = Inr () \<and> co_connect c = InProgress \<longrightarrow> (\<exists>revents. r = Inr revents \<and> connect_poll_succeeded revents)
          \<and> co_so_error c = Some 0))" if "?n \<le> m" for m
    using all [OF that]
    by (cases r) (auto simp: connect_bounded_def poll_with_deadline_def map_err_def Let_def
        split: sum.splits connect_result.splits option.splits if_splits)
  have late: "t \<le> max (now + late) (deadline + 2 * late)"
    using poll_run_punctual [OF r, of late now] assms(1) by (simp add: list_all_iff)
  have "\<forall>m\<ge>?n. poll_run deadline now (List.map E [0..<m]) = Some (r, t)
    \<and> t \<le> max (now + late) (deadline + 2 * late) \<and> poll_answer deadline (List.map E [0..<m]) r t
    \<and> (\<forall>c. co_now c = now \<and> co_polls c = List.map E [0..<m] \<longrightarrow> (\<exists>s. connect_bounded deadline c = Some s
          \<and> (s = Inr () \<and> co_connect c = InProgress \<longrightarrow> (\<exists>revents. r = Inr revents \<and> connect_poll_succeeded revents)
              \<and> co_so_error c = Some 0)))" (is "\<forall>m\<ge>_. ?P m")
  proof (intro allI impI)
    fix m assume m: "?n \<le> m"
    show "?P m" by (intro conjI all [OF m] late poll_run_answer [OF all [OF m], THEN conjunct2] c [OF m])
  qed
  then show ?thesis by (intro exI)
qed

text \<open>A storm of interruptions, one every half millisecond.\<close>

definition poll_storm :: "nat \<Rightarrow> poll_event" where
  "poll_storm i = \<lparr>po_delay = 1, po_poll = (\<lambda>ms. (PollInterrupted, 500000))\<rparr>"

theorem deadline_waits_return_witness:
  "\<exists>n r t. poll_run 5000000 0 (List.map poll_storm [0..<n]) = Some (r, t) \<and> t \<le> 6000000
     \<and> poll_answer 5000000 (List.map poll_storm [0..<n]) r t"
proof -
  have "\<forall>i. punctual 500000 (poll_storm i)" by (simp add: punctual_def poll_storm_def)
  moreover have "time_passes poll_storm" by (auto simp: time_passes_def poll_storm_def)
  ultimately have "\<exists>n r t. \<forall>m\<ge>n. poll_run 5000000 0 (List.map poll_storm [0..<m]) = Some (r, t)
    \<and> t \<le> max (0 + 500000) (5000000 + 2 * 500000) \<and> poll_answer 5000000 (List.map poll_storm [0..<m]) r t
    \<and> (\<forall>c. co_now c = 0 \<and> co_polls c = List.map poll_storm [0..<m] \<longrightarrow> (\<exists>s. connect_bounded 5000000 c = Some s
          \<and> (s = Inr () \<and> co_connect c = InProgress \<longrightarrow> (\<exists>revents. r = Inr revents \<and> connect_poll_succeeded revents)
              \<and> co_so_error c = Some 0)))" by (rule deadline_waits_return)
  then show ?thesis by auto
qed

section \<open>What the relay guarantees\<close>

lemma frame_response_Inr:
  "frame_response_cap response cap = Inr w \<longleftrightarrow> length response \<le> cap \<and> w = be32 (of_nat (length response)) @ response"
  by (auto simp: frame_response_cap_def)

lemma be32_length: "n < 2 ^ 32 \<Longrightarrow> be32 (of_nat n) = be_bytes 4 n"
  by (simp add: be32_def unat_of_nat take_bit_nat_eq_self)

text \<open>What a pump may have done with the anchor: it wrote a prefix of one forwardable frame of the enclave, and returned
  (a prefix of) the one framed response of the anchor only after it wrote the whole frame.\<close>

definition transparent :: "crypto \<Rightarrow> cbor_reader \<Rightarrow> bytes \<Rightarrow> duplex \<Rightarrow> duplex \<Rightarrow> bytes \<Rightarrow> bool \<Rightarrow> bool" where
  "transparent C cb enclave_bytes anchor anchor' ret completed \<longleftrightarrow>
     (\<exists>frame rest cap sent. enclave_bytes = frame @ rest \<and> forwardable C cb frame = Inr cap
        \<and> dx_written anchor' = dx_written anchor @ sent \<and> prefix sent frame
        \<and> (completed \<longrightarrow> ret \<noteq> [])
        \<and> (ret \<noteq> [] \<longrightarrow> sent = frame \<and> (\<exists>response rest. length response \<le> cap
             \<and> stream_bytes (dx_reads anchor) = be_bytes 4 (length response) @ response @ rest
             \<and> prefix ret (be_bytes 4 (length response) @ response)
             \<and> (completed \<longrightarrow> ret = be_bytes 4 (length response) @ response))))"

text \<open>C32: the host's relay is transparent. Whatever the streams do, a pump writes nothing to the enclave unless a dial
  succeeded; to the anchor it writes a prefix of exactly the bytes of one frame the enclave sent, and only of a frame
  that one of the three request decoders accepts; to the enclave it writes a prefix of exactly the one
  length-prefixed response the anchor sent, within the cap of the request's type and only once the whole frame was
  written; and it reports success only when all of both was written. It can withhold and truncate, and nothing more.\<close>

theorem relay_transparent:
  assumes "relay_one_pump_until C cb dial arm enclave = (r, enclave', anchor')"
  shows "\<exists>ret. dx_written enclave' = dx_written enclave @ ret
    \<and> (case anchor' of
         None \<Rightarrow> ret = [] \<and> (\<exists>fault. r = Inl fault)
       | Some a' \<Rightarrow> (\<exists>a. dial = Inr a \<and> transparent C cb (stream_bytes (dx_reads enclave)) a a' ret (r = Inr ())))"
proof -
  obtain x e1 where x: "read_request_frame enclave = (x, e1)" by fastforce
  note k = read_request_keeps [OF x]
  show ?thesis
  proof (cases "\<exists>frame cap a. x = Inr frame \<and> forwardable C cb frame = Inr cap \<and> dial = Inr a \<and> arm = None")
    case False
    then consider e where "x = Inl e" | frame e where "x = Inr frame" "forwardable C cb frame = Inl e"
      | frame cap i where "x = Inr frame" "forwardable C cb frame = Inr cap" "dial = Inl i"
      | frame cap a i where "x = Inr frame" "forwardable C cb frame = Inr cap" "dial = Inr a" "arm = Some i"
      by (cases x; cases dial; cases arm) (metis sum.exhaust)+
    then show ?thesis
    proof cases
      case 4
      then have "transparent C cb (stream_bytes (dx_reads enclave)) a a [] False"
        using read_request_sound(1) [of enclave frame e1] x by (auto simp: transparent_def)
      then show ?thesis using assms x k 4 by (auto simp: relay_one_pump_until_def)
    qed (use assms x k in \<open>auto simp: relay_one_pump_until_def\<close>)
  next
    case True
    then obtain frame cap a where f: "x = Inr frame" "forwardable C cb frame = Inr cap" "dial = Inr a" "arm = None" by blast
    have src: "stream_bytes (dx_reads enclave) = frame @ stream_bytes (dx_reads e1)"
      using read_request_sound(1) x f(1) by blast
    obtain y a1 where y: "relay_round_trip_over_stream_cap frame cap a = (y, a1)" by fastforce
    from round_trip_prefix [OF this] obtain sent where sent: "dx_written a1 = dx_written a @ sent" "prefix sent frame"
      "\<And>response. y = Inr response \<Longrightarrow> sent = frame \<and> length response \<le> cap \<and> length response < 2 ^ 32
        \<and> (\<exists>rest. stream_bytes (dx_reads a) = be_bytes 4 (length response) @ response @ rest)" by blast
    show ?thesis
    proof (cases y)
      case (Inl e)
      then have "r = Inl (Pump e)" "enclave' = e1" "anchor' = Some a1"
        using assms x f y by (auto simp: relay_one_pump_until_def)
      moreover have "transparent C cb (stream_bytes (dx_reads enclave)) a a1 [] False"
        using src f(2) sent(1,2) by (auto simp: transparent_def)
      ultimately show ?thesis using k f(3) by auto
    next
      case (Inr response)
      let ?w = "be_bytes 4 (length response) @ response"
      note s = sent(3) [OF Inr]
      have "frame_response_cap response cap = Inr ?w" using s by (simp add: frame_response_Inr be32_length)
      then obtain z where z: "deadline_guarded_write ?w ''anchor relay: deadline before enclave write'' e1 = (z, enclave')"
        "r = map_err Pump z" "anchor' = Some a1"
        using assms x f y Inr by (auto simp: relay_one_pump_until_def split: prod.splits)
      from guarded_write_prefix(1) [OF z(1)] obtain ret where ret: "dx_written enclave' = dx_written e1 @ ret"
        "prefix ret ?w" "z = Inr () \<longrightarrow> ret = ?w" by blast
      have w: "?w \<noteq> []" using length_be_bytes [of 4 "length response"] by (metis append_is_Nil_conv list.size(3) zero_neq_numeral)
      have "r = Inr () \<longleftrightarrow> z = Inr ()" using z(2) by (cases z) (auto simp: map_err_def)
      then have "transparent C cb (stream_bytes (dx_reads enclave)) a a1 ret (r = Inr ())"
        unfolding transparent_def using src f(2) sent(1) s ret(2,3) w
        by (intro exI [of _ frame] exI [of _ "stream_bytes (dx_reads e1)"] exI [of _ cap] exI [of _ frame]) blast
      then show ?thesis using ret(1) k z(3) f(3) by auto
    qed
  qed
qed

text \<open>The requests an enclave makes, with the response cap of their type.\<close>

definition enclave_request :: "crypto \<Rightarrow> bytes \<Rightarrow> nat \<Rightarrow> bool" where
  "enclave_request C frame cap \<longleftrightarrow>
     (\<exists>r quote cert. boot_request_ok C r \<and> encode_anchor_boot_request quote cert r = Inr frame \<and> cap = MAX_ANCHOR_RESPONSE_LEN)
     \<or> (\<exists>r. marks_request_ok r \<and> encode_anchor_marks_request r = Inr frame \<and> cap = MAX_MARKS_RESPONSE_LEN)
     \<or> (\<exists>r. commit_request_ok r \<and> encode_anchor_commit_request r = Inr frame \<and> cap = MAX_ANCHOR_RESPONSE_LEN)"

lemma peek_encoded: "encode_message t p = Inr f \<Longrightarrow> peek_msg_type_from_frame f = Some t"
  using encode_message_type [of t p f] by (auto simp: peek_msg_type_from_frame_def)

lemma boot_request_encoded: "encode_anchor_boot_request quote cert r = Inr f \<Longrightarrow> \<exists>p. encode_message AgentBootRelay p = Inr f"
  by (auto simp: encode_anchor_boot_request_def split: if_splits)

lemma commit_request_encoded: "encode_anchor_commit_request r = Inr f \<Longrightarrow> \<exists>p. encode_message AgentAnchorCommitRelay p = Inr f"
  by (auto simp: encode_anchor_commit_request_def split: if_splits)

lemma enclave_request_forwardable:
  assumes "reads_canonical cb" "enclave_request C frame cap"
  shows "forwardable C cb frame = Inr cap" "\<exists>t p. encode_message t p = Inr frame" "cap < 2 ^ 32"
proof -
  consider r quote cert where "boot_request_ok C r" "encode_anchor_boot_request quote cert r = Inr frame" "cap = MAX_ANCHOR_RESPONSE_LEN"
    | r where "marks_request_ok r" "encode_anchor_marks_request r = Inr frame" "cap = MAX_MARKS_RESPONSE_LEN"
    | r where "commit_request_ok r" "encode_anchor_commit_request r = Inr frame" "cap = MAX_ANCHOR_RESPONSE_LEN"
    using assms(2) by (auto simp: enclave_request_def)
  then have "forwardable C cb frame = Inr cap \<and> (\<exists>t p. encode_message t p = Inr frame) \<and> cap < 2 ^ 32"
  proof cases
    case 1
    obtain p where p: "encode_message AgentBootRelay p = Inr frame" using boot_request_encoded [OF 1(2)] ..
    show ?thesis using boot_request_roundtrip [OF assms(1) 1(1,2)] p peek_encoded [OF p] 1(3)
      by (auto simp: forwardable_def MAX_ANCHOR_RESPONSE_LEN_def)
  next
    case 2
    then obtain p where p: "encode_message AgentAnchorMarksRelay p = Inr frame" by (auto simp: encode_anchor_marks_request_def)
    show ?thesis using marks_request_roundtrip [OF assms(1) 2(1,2)] p peek_encoded [OF p] 2(3)
      by (auto simp: forwardable_def MAX_MARKS_RESPONSE_LEN_def MAX_MARKS_PAYLOAD_LEN_def MARKS_RESP_ENVELOPE_RESERVE_def MAX_KEYSTORE_BLOB_SIZE_def
          MAX_MESSAGE_SIZE_def KEYSTORE_FRAMING_RESERVE_def)
  next
    case 3
    obtain p where p: "encode_message AgentAnchorCommitRelay p = Inr frame" using commit_request_encoded [OF 3(2)] ..
    show ?thesis using commit_request_roundtrip [OF assms(1) 3(1,2)] p peek_encoded [OF p] 3(3)
      by (auto simp: forwardable_def MAX_ANCHOR_RESPONSE_LEN_def)
  qed
  then show "forwardable C cb frame = Inr cap" "\<exists>t p. encode_message t p = Inr frame" "cap < 2 ^ 32" by blast+
qed

text \<open>A leg that works: the bytes come before the deadline and the next write goes through.\<close>

definition live_write :: write_event where
  "live_write = \<lparr>we_lapsed_before = False, we_write = None, we_lapsed_between = False, we_flush = None\<rparr>"

definition live_leg :: "duplex \<Rightarrow> bytes \<Rightarrow> bool" where
  "live_leg d bs \<longleftrightarrow> list_all (live_event True) (dx_reads d) \<and> stream_bytes (dx_reads d) = bs
     \<and> (\<exists>es. dx_writes d = live_write # es) \<and> dx_written d = []"

lemma guarded_write_live:
  assumes "dx_writes d = live_write # es"
  shows "deadline_guarded_write bs what d = (Inr (), d\<lparr>dx_writes := es, dx_written := dx_written d @ bs\<rparr>)"
  using assms by (simp add: deadline_guarded_write_def live_write_def)

lemma read_response_live:
  assumes "list_all (live_event True) (dx_reads d)" "stream_bytes (dx_reads d) = be32 (of_nat (length response)) @ response"
    "length response \<le> cap" "cap < 2 ^ 32"
  shows "\<exists>es. read_bounded_response_cap cap d = (Inr response, d\<lparr>dx_reads := es\<rparr>)"
proof -
  obtain es1 where 1: "read_exact_with_idle_deadline True 4 (dx_reads d) = (Inr (be32 (of_nat (length response))), es1)"
    "stream_bytes es1 = response @ []" "list_all (live_event True) es1"
    using read_exact_live [OF assms(1,2), of 4] by auto
  obtain es2 where "read_exact_with_idle_deadline True (length response) es1 = (Inr response, es2)"
    using read_exact_live [OF 1(3,2) refl] by blast
  moreover have "be_val (be32 (of_nat (length response) :: u32)) = length response"
    using assms(3,4) by (simp add: unat_of_nat take_bit_nat_eq_self)
  ultimately show ?thesis using 1(1) assms(3) by (auto simp: read_bounded_response_cap_def)
qed

lemma round_trip_live:
  assumes "live_leg d (be32 (of_nat (length response)) @ response)" "length response \<le> cap" "cap < 2 ^ 32"
  shows "\<exists>d'. relay_round_trip_over_stream_cap frame cap d = (Inr response, d') \<and> dx_written d' = frame"
proof -
  obtain es where w: "dx_writes d = live_write # es" using assms(1) by (auto simp: live_leg_def)
  let ?d = "d\<lparr>dx_writes := es, dx_written := dx_written d @ frame\<rparr>"
  obtain es' where "read_bounded_response_cap cap ?d = (Inr response, ?d\<lparr>dx_reads := es'\<rparr>)"
    using read_response_live [of ?d response cap] assms by (auto simp: live_leg_def)
  then show ?thesis using guarded_write_live [OF w] assms(1)
    by (simp add: relay_round_trip_over_stream_cap_def live_leg_def)
qed

lemma honest_chain:
  assumes "reads_canonical cb" "enclave_request C frame cap" "length response \<le> cap"
    "live_leg pumped frame" "live_leg anchor (be32 (of_nat (length response)) @ response)"
  shows "\<exists>pumped' anchor'. relay_one_pump_until C cb (Inr anchor) None pumped = (Inr (), pumped', Some anchor')
    \<and> dx_written anchor' = frame
    \<and> (\<forall>own. live_leg own (dx_written pumped') \<longrightarrow>
         (\<exists>own'. relay_round_trip_over_stream_cap frame cap own = (Inr response, own') \<and> dx_written own' = frame))"
proof -
  note fw = enclave_request_forwardable [OF assms(1,2)]
  obtain t p where "encode_message t p = Inr frame" using fw(2) by blast
  then have f: "frame = frame_of t p" "length p + 2 \<le> MAX_MESSAGE_SIZE" by (auto simp: encode_message_Inr)
  obtain es where r: "read_framed_message_with_idle_deadline True (dx_reads pumped) = (Inr frame, es)"
    using read_framed_live [of True "dx_reads pumped" t p "[]"] assms(4) f by (auto simp: live_leg_def)
  obtain ws where w: "dx_writes pumped = live_write # ws" "dx_written pumped = []" using assms(4) by (auto simp: live_leg_def)
  obtain a' where a': "relay_round_trip_over_stream_cap frame cap anchor = (Inr response, a')" "dx_written a' = frame"
    using round_trip_live [OF assms(5,3) fw(3)] by blast
  have wr: "deadline_guarded_write bs what (pumped\<lparr>dx_reads := es\<rparr>) = (Inr (), pumped\<lparr>dx_reads := es, dx_writes := ws, dx_written := bs\<rparr>)"
    for bs what using guarded_write_live [of "pumped\<lparr>dx_reads := es\<rparr>" ws] w by simp
  let ?p = "pumped\<lparr>dx_reads := es, dx_writes := ws, dx_written := be32 (of_nat (length response)) @ response\<rparr>"
  have "relay_one_pump_until C cb (Inr anchor) None pumped = (Inr (), ?p, Some a')"
    using r fw(1) a'(1) assms(3) wr by (simp add: relay_one_pump_until_def read_request_frame_def frame_response_cap_def map_err_def)
  moreover have "\<exists>own'. relay_round_trip_over_stream_cap frame cap own = (Inr response, own') \<and> dx_written own' = frame"
    if "live_leg own (dx_written ?p)" for own
    using round_trip_live [of own response cap frame] that assms(3) fw(3) by simp
  ultimately show ?thesis using a'(2) by blast
qed

text \<open>an honest relay chain delivers. Over legs that work, every request the enclave can make (freshness, marks or
  commit) goes through a pump of the host's relay to the anchor unchanged, and any response within the cap of its type
  comes back to the enclave whole: the pump succeeds, the anchor is written exactly the frame, and the enclave's own
  round trip over what the pump wrote returns exactly the anchor's response.\<close>

theorem relay_chain_delivers:
  assumes "reads_canonical cb" "enclave_request C frame cap" "length response \<le> cap"
    "live_leg pumped frame" "live_leg anchor (be32 (of_nat (length response)) @ response)"
  shows "\<exists>pumped' anchor'. relay_one_pump_until C cb (Inr anchor) None pumped = (Inr (), pumped', Some anchor')
    \<and> dx_written anchor' = frame
    \<and> (\<forall>own. live_leg own (dx_written pumped') \<longrightarrow>
         (\<exists>own'. relay_round_trip_over_stream_cap frame cap own = (Inr response, own') \<and> dx_written own' = frame))"
  by (rule honest_chain [OF assms])

section \<open>Samples\<close>

text \<open>A reader that behaves as documented on canonical maps.\<close>

definition strict_reader :: cbor_reader where
  "strict_reader bs = map_option (\<lambda>m. (CMap m, length bs)) (strict_decode_map_capped bs 1048576)"

lemma strict_reader_canonical: "reads_canonical strict_reader"
  unfolding reads_canonical_def strict_reader_def
  by (auto simp: strict_decode_map_capped_iff simp del: enc_value.simps canon_value.simps)

definition sample_marks_request :: anchor_marks_request where
  "sample_marks_request = \<lparr>mq_chain_id = 1, mq_environment_identifier = ascii ''lab'', mq_nonce = replicate 32 7, mq_epoch = 9\<rparr>"

definition sample_frame :: bytes where
  "sample_frame = (case encode_anchor_marks_request sample_marks_request of Inr f \<Rightarrow> f | Inl _ \<Rightarrow> [])"

lemma sample_frame: "marks_request_ok sample_marks_request" "encode_anchor_marks_request sample_marks_request = Inr sample_frame"
proof -
  show "marks_request_ok sample_marks_request" by (simp add: sample_marks_request_def marks_request_ok_def sample_env)
  show "encode_anchor_marks_request sample_marks_request = Inr sample_frame"
    by (simp add: sample_frame_def sample_marks_request_def encode_anchor_marks_request_def encode_message_def
        encode_message_raw_def Let_def MAX_MESSAGE_SIZE_def put_text_def put_bytes_def put_uint_def ascii_def)
qed

lemma sample_request: "enclave_request C sample_frame MAX_MARKS_RESPONSE_LEN"
  using sample_frame unfolding enclave_request_def by blast

definition leg :: "bytes \<Rightarrow> duplex" where
  "leg bs = \<lparr>dx_reads = [\<lparr>re_expired_before = False, re_outcome = Chunk bs, re_expired_after = False\<rparr>],
     dx_writes = [live_write], dx_written = []\<rparr>"

lemma live_leg_leg: "bs \<noteq> [] \<Longrightarrow> live_leg (leg bs) bs"
  by (simp add: live_leg_def leg_def live_event_def)

lemma sample_legs: "live_leg (leg sample_frame) sample_frame" "live_leg (leg (be32 3 @ [1, 2, 3])) (be32 3 @ [1, 2, 3])"
proof -
  have "encode_message AgentAnchorMarksRelay p = Inr sample_frame \<Longrightarrow> sample_frame \<noteq> []" for p
    using encode_message_type [of AgentAnchorMarksRelay p sample_frame] by auto
  then have "sample_frame \<noteq> []" using sample_frame(2) by (auto simp: encode_anchor_marks_request_def)
  then show "live_leg (leg sample_frame) sample_frame" by (rule live_leg_leg)
  show "live_leg (leg (be32 3 @ [1, 2, 3])) (be32 3 @ [1, 2, 3])" by (rule live_leg_leg) simp
qed

theorem relay_chain_delivers_witness:
  "\<exists>pumped' anchor'. relay_one_pump_until sample_crypto strict_reader (Inr (leg (be32 3 @ [1, 2, 3]))) None (leg sample_frame)
      = (Inr (), pumped', Some anchor') \<and> dx_written anchor' = sample_frame"
proof -
  have l: "live_leg (leg (be32 3 @ [1, 2, 3])) (be32 (of_nat (length [1, 2, 3 :: u8])) @ [1, 2, 3])" using sample_legs(2) by simp
  have c: "length [1, 2, 3 :: u8] \<le> MAX_MARKS_RESPONSE_LEN" by (simp add: MAX_MARKS_RESPONSE_LEN_def MARKS_RESP_ENVELOPE_RESERVE_def)
  show ?thesis using relay_chain_delivers [OF strict_reader_canonical sample_request c sample_legs(1) l] by blast
qed

theorem relay_transparent_witness:
  "\<exists>pumped' a'. relay_one_pump_until sample_crypto strict_reader (Inr (leg (be32 3 @ [1, 2, 3]))) None (leg sample_frame)
      = (Inr (), pumped', Some a')
    \<and> transparent sample_crypto strict_reader sample_frame (leg (be32 3 @ [1, 2, 3])) a' (dx_written pumped') True"
proof -
  let ?a = "leg (be32 3 @ [1, 2, 3])"
  have l: "live_leg ?a (be32 (of_nat (length [1, 2, 3 :: u8])) @ [1, 2, 3])" using sample_legs(2) by simp
  have c: "length [1, 2, 3 :: u8] \<le> MAX_MARKS_RESPONSE_LEN" by (simp add: MAX_MARKS_RESPONSE_LEN_def MARKS_RESP_ENVELOPE_RESERVE_def)
  obtain p a where p: "relay_one_pump_until sample_crypto strict_reader (Inr ?a) None (leg sample_frame) = (Inr (), p, Some a)"
    using honest_chain [OF strict_reader_canonical sample_request c sample_legs(1) l] by blast
  then show ?thesis using relay_transparent [OF p] by (auto simp: leg_def)
qed

end
