(* ===== verification/Quote_Child.thy ===== *)
theory Quote_Child
  imports Relay
begin

text \<open>
  The killable quote child, \<open>quote_subprocess.rs\<close>: the one-frame protocol between the enclave and the child it
  spawns to read an attestation quote, the deadline-bounded drain of its pipe, the custody of children that cannot
  be reaped, the boot-budget check that gates the producer, and the code that runs inside the child.

  A child is a script: what its pipe delivers, when a \<open>waitpid\<close> says it has exited, and what the clock says in
  between. Durations and times are nanoseconds. \<open>KillOnDrop\<close> acts only when the parent panics between spawning and
  disposing, which no modelled path does; \<open>smoke_breadcrumb_arm\<close> and the process calls themselves are not modelled.
\<close>

section \<open>The frame\<close>

definition FRAME_STATUS_OK :: u8 where "FRAME_STATUS_OK = 0xA1"
definition FRAME_STATUS_ERR :: u8 where "FRAME_STATUS_ERR = 0xA2"
definition MAX_QUOTE_FRAME_LEN :: nat where
  "MAX_QUOTE_FRAME_LEN = 1 + 4 + MAX_OUTBLOB_LEN + 4 + MAX_CERT_CHAIN_LEN"

datatype child_reply = Quote bytes bytes | ChildError string

datatype frame_progress = NeedMore | Complete child_reply

definition child_err_str :: "u8 \<Rightarrow> string" where
  "child_err_str n =
     (if n = 1 then ''quote child: bad env input''
      else if n = 2 then ''quote child: entry create failed''
      else if n = 3 then ''quote child: inblob write failed''
      else if n = 4 then ''quote child: outblob read failed''
      else if n = 5 then ''quote child: outblob oversize''
      else if n = 6 then ''quote child: outblob short''
      else ''quote child: unknown error code'')"

definition parse_child_frame :: "bytes \<Rightarrow> protocol_error + frame_progress" where
  "parse_child_frame accum =
     (case accum of
        [] \<Rightarrow> Inr NeedMore
      | status # _ \<Rightarrow>
          if status = FRAME_STATUS_ERR then
            (if length accum < 2 then Inr NeedMore
             else if length accum > 2 then Inl (WireProtocol ''quote child: trailing bytes after frame'')
             else Inr (Complete (ChildError (child_err_str (accum ! 1)))))
          else if status = FRAME_STATUS_OK then
            (if length accum < 1 + 4 then Inr NeedMore
             else
             let report_len = be_val (take 4 (drop 1 accum)) in
             if report_len < MIN_REPORT_LEN then Inl (WireProtocol ''quote child: report below ABI minimum'')
             else if report_len > MAX_OUTBLOB_LEN then Inl (WireProtocol ''quote child: report length over cap'')
             else
             let chain_at = 1 + 4 + report_len in
             if length accum < chain_at + 4 then Inr NeedMore
             else
             let chain_len = be_val (take 4 (drop chain_at accum)) in
             if chain_len > MAX_CERT_CHAIN_LEN then Inl (WireProtocol ''quote child: cert chain length over cap'')
             else
             let total = chain_at + 4 + chain_len in
             if length accum < total then Inr NeedMore
             else if length accum > total then Inl (WireProtocol ''quote child: trailing bytes after frame'')
             else Inr (Complete (Quote (take report_len (drop 5 accum)) (take chain_len (drop (chain_at + 4) accum)))))
          else Inl (WireProtocol ''quote child: malformed frame status''))"

definition encode_ok_frame :: "bytes \<Rightarrow> bytes \<Rightarrow> protocol_error + bytes" where
  "encode_ok_frame report cert_chain =
     (if length report < MIN_REPORT_LEN \<or> length report > MAX_OUTBLOB_LEN
      then Inl (WireProtocol ''quote child: encode report length out of range'')
      else if length cert_chain > MAX_CERT_CHAIN_LEN
      then Inl (WireProtocol ''quote child: encode cert chain over cap'')
      else Inr ([FRAME_STATUS_OK] @ be32 (of_nat (length report)) @ report
             @ be32 (of_nat (length cert_chain)) @ cert_chain))"

definition encode_err_frame :: "u8 \<Rightarrow> bytes" where
  "encode_err_frame n = [FRAME_STATUS_ERR, n]"

section \<open>Draining the pipe\<close>

text \<open>One turn of the drain loop: when it begins, what its \<open>poll_with_deadline\<close> meets and what the \<open>read\<close> of at most 4096 bytes
  yields (\<open>Chunk []\<close> is end of file).\<close>

record pipe_turn =
  pt_now :: nat
  pt_polls :: "poll_event list"
  pt_read :: read_outcome

fun read_child_reply :: "nat \<Rightarrow> bytes \<Rightarrow> pipe_turn list \<Rightarrow> (protocol_error + child_reply) option" where
  "read_child_reply deadline accum [] = None"
| "read_child_reply deadline accum (t # ts) =
     (case poll_with_deadline deadline (pt_now t) (pt_polls t) of
        None \<Rightarrow> None
      | Some (Inl e) \<Rightarrow> Some (Inl e)
      | Some (Inr revents) \<Rightarrow>
          (case classify_pipe_revents revents of
             BrokenFd \<Rightarrow> Some (Inl (WireProtocol ''quote child: pipe fd broken''))
           | ReadNow \<Rightarrow>
               (case pt_read t of
                  Chunk bs \<Rightarrow>
                    (if bs = [] then Some (Inl (WireProtocol ''quote child: pipe closed mid-frame''))
                     else (case parse_child_frame (accum @ bs) of
                         Inl e \<Rightarrow> Some (Inl e)
                       | Inr (Complete reply) \<Rightarrow> Some (Inr reply)
                       | Inr NeedMore \<Rightarrow> read_child_reply deadline (accum @ bs) ts))
                | ReadErr k \<Rightarrow>
                    (if k = WouldBlock \<or> k = Interrupted then read_child_reply deadline accum ts
                     else Some (Inl (WireProtocol ''quote child: pipe read failed''))))))"

section \<open>Children and the ledger\<close>

datatype reap_outcome = Exited | Running

text \<open>What \<open>try_wait\<close> answers (\<open>None\<close>: an error), folded.\<close>

definition fold_try_wait :: "bool option \<Rightarrow> reap_outcome" where
  "fold_try_wait r = (if r = Some True then Exited else Running)"

text \<open>A child handle: its process id, the answers of the \<open>waitpid\<close> calls to come (used up: still running) and
  whether it has been sent SIGKILL.\<close>

record child_handle =
  ch_pid :: nat
  ch_waits :: "bool option list"
  ch_killed :: bool

definition kill_best_effort :: "child_handle \<Rightarrow> child_handle" where
  "kill_best_effort h = h\<lparr>ch_killed := True\<rparr>"

definition try_reap :: "child_handle \<Rightarrow> reap_outcome \<times> child_handle" where
  "try_reap h = (case ch_waits h of [] \<Rightarrow> (Running, h) | w # ws \<Rightarrow> (fold_try_wait w, h\<lparr>ch_waits := ws\<rparr>))"

definition ABANDONED_CHILD_BUDGET :: nat where "ABANDONED_CHILD_BUDGET = MAX_BOOT_ATTEMPTS_CEILING"
definition REAP_GRACE :: nat where "REAP_GRACE = 10000000"
definition QUOTE_ATTEMPT_OVERHEAD :: nat where "QUOTE_ATTEMPT_OVERHEAD = REAP_GRACE + 2000000"

type_synonym abandoned_ledger = "child_handle list"

fun sweep :: "abandoned_ledger \<Rightarrow> abandoned_ledger" where
  "sweep [] = []"
| "sweep (h # hs) = (case try_reap h of (Exited, _) \<Rightarrow> sweep hs | (Running, h) \<Rightarrow> h # sweep hs)"

definition abandon :: "child_handle \<Rightarrow> abandoned_ledger \<Rightarrow> abandoned_ledger" where
  "abandon h ledger = ledger @ [h]"

definition is_full :: "abandoned_ledger \<Rightarrow> bool" where
  "is_full ledger \<longleftrightarrow> ABANDONED_CHILD_BUDGET \<le> length ledger"

text \<open>The final pass of \<open>Drop\<close>.\<close>

definition drop_ledger :: "abandoned_ledger \<Rightarrow> abandoned_ledger" where
  "drop_ledger ledger = List.map (\<lambda>h. snd (try_reap (kill_best_effort h))) ledger"

text \<open>The reap loop, over what \<open>start.elapsed()\<close> reads after each failed attempt; between two turns it sleeps a
  millisecond.\<close>

fun reap_loop :: "nat list \<Rightarrow> child_handle \<Rightarrow> abandoned_ledger \<Rightarrow> abandoned_ledger option" where
  "reap_loop elapsed h ledger =
     (case try_reap h of
        (Exited, _) \<Rightarrow> Some ledger
      | (Running, h) \<Rightarrow>
          (case elapsed of
             [] \<Rightarrow> None
           | e # es \<Rightarrow> if e \<ge> REAP_GRACE then Some (abandon h ledger) else reap_loop es h ledger))"

definition dispose_child :: "nat list \<Rightarrow> child_handle \<Rightarrow> abandoned_ledger \<Rightarrow> abandoned_ledger option" where
  "dispose_child elapsed h ledger = reap_loop elapsed (kill_best_effort h) ledger"

section \<open>Fetching a quote\<close>

text \<open>Everything outside the program that one fetch sees: when its deadline was minted, the clock on entry, whether the child marker is in the
  environment, what the spawn yields, the two \<open>fcntl\<close> calls, the pipe and the clock of the disposition.\<close>

record fetch_script =
  fe_minted :: nat
  fe_now :: nat
  fe_in_child :: bool
  fe_spawn :: "protocol_error + child_handle"
  fe_getfl :: bool
  fe_setfl :: bool
  fe_pipe :: "pipe_turn list"
  fe_elapsed :: "nat list"

definition set_nonblock :: "fetch_script \<Rightarrow> protocol_error + unit" where
  "set_nonblock f =
     (if \<not> fe_getfl f then Inl (WireProtocol ''quote child: F_GETFL failed'')
      else if \<not> fe_setfl f then Inl (WireProtocol ''quote child: F_SETFL failed'')
      else Inr ())"

definition validate_child_reply :: "bytes \<Rightarrow> child_reply \<Rightarrow> protocol_error + bytes \<times> bytes" where
  "validate_child_reply rdata reply =
     (case reply of
        ChildError msg \<Rightarrow> Inl (WireProtocol msg)
      | Quote report cert_chain \<Rightarrow>
          if length report < MIN_REPORT_LEN then Inl (WireProtocol ''quote child: report below ABI minimum'')
          else res_bind (map_err (\<lambda>_. WireProtocol ''quote child: report_data echo unreadable'') (report_data_from_report report))
            (\<lambda>echoed. if echoed \<noteq> rdata then Inl (WireProtocol ''quote child: report_data echo mismatch'')
              else Inr (report, cert_chain)))"

definition fetch_quote_via_child_inner :: "nat \<Rightarrow> bytes \<Rightarrow> fetch_script \<Rightarrow> abandoned_ledger
    \<Rightarrow> ((protocol_error + bytes \<times> bytes) \<times> abandoned_ledger) option" where
  "fetch_quote_via_child_inner deadline rdata f ledger =
     (case remaining_or_lapsed deadline (fe_now f) of
        Inl e \<Rightarrow> Some (Inl e, ledger)
      | Inr _ \<Rightarrow>
          if fe_in_child f then Some (Inl (WireProtocol ''quote child: fetch refused inside child''), ledger)
          else
          let ledger = sweep ledger in
          if is_full ledger then Some (Inl (WireProtocol ''quote child: abandoned-child budget exhausted''), ledger)
          else
          (case fe_spawn f of
             Inl e \<Rightarrow> Some (Inl e, ledger)
           | Inr h \<Rightarrow>
               (case set_nonblock f of
                  Inl e \<Rightarrow> map_option (\<lambda>ledger. (Inl e, ledger)) (dispose_child (fe_elapsed f) h ledger)
                | Inr _ \<Rightarrow>
                    (case read_child_reply deadline [] (fe_pipe f) of
                       None \<Rightarrow> None
                     | Some reply \<Rightarrow>
                         map_option (\<lambda>ledger. (res_bind reply (validate_child_reply rdata), ledger))
                           (dispose_child (fe_elapsed f) h ledger)))))"

definition relabel_pipe_lapse :: "protocol_error \<Rightarrow> protocol_error" where
  "relabel_pipe_lapse e = (if e = WireProtocol DEADLINE_LAPSED_MSG
     then WireProtocol ''anchor relay: quote pipe deadline lapsed'' else e)"

definition fetch_quote_via_child :: "nat \<Rightarrow> bytes \<Rightarrow> fetch_script \<Rightarrow> abandoned_ledger
    \<Rightarrow> ((protocol_error + bytes \<times> bytes) \<times> abandoned_ledger) option" where
  "fetch_quote_via_child deadline rdata f ledger =
     map_option (\<lambda>(r, ledger). (map_err relabel_pipe_lapse r, ledger)) (fetch_quote_via_child_inner deadline rdata f ledger)"

text \<open>The restore path's own door: a relabel, a budget of five seconds and a ledger of its own (\<open>None\<close>: its mutex is
  poisoned).\<close>

definition RESTORE_QUOTE_DEADLINE :: nat where "RESTORE_QUOTE_DEADLINE = 5000000000"

definition fetch_quote_for_restore_inner :: "nat \<Rightarrow> bytes \<Rightarrow> fetch_script \<Rightarrow> abandoned_ledger
    \<Rightarrow> ((protocol_error + bytes \<times> bytes) \<times> abandoned_ledger) option" where
  "fetch_quote_for_restore_inner deadline rdata f ledger =
     map_option (\<lambda>(r, ledger). (map_err (\<lambda>e. if e = WireProtocol ''anchor relay: quote pipe deadline lapsed''
         then WireProtocol ''restore quote: pipe deadline lapsed (configfs-tsm provider may be wedged)'' else e) r, ledger))
       (fetch_quote_via_child deadline rdata f ledger)"

definition fetch_quote_for_restore :: "bytes \<Rightarrow> fetch_script \<Rightarrow> nat \<Rightarrow> abandoned_ledger option
    \<Rightarrow> ((protocol_error + bytes \<times> bytes) \<times> abandoned_ledger option) option" where
  "fetch_quote_for_restore rdata f now guard =
     (case guard of
        None \<Rightarrow> Some (Inl (WireProtocol
          ''restore quote: ledger mutex poisoned (a prior fetch panicked - restart the enclave process)''), None)
      | Some ledger \<Rightarrow> map_option (\<lambda>(r, ledger). (r, Some ledger))
          (fetch_quote_for_restore_inner (now + RESTORE_QUOTE_DEADLINE) rdata f ledger))"

section \<open>The boot budget\<close>

text \<open>\<open>std::time::Duration\<close> and its checked operations.\<close>

definition DURATION_MAX :: nat where "DURATION_MAX = 2 ^ 64 * 1000000000 - 1"

definition duration_checked_add :: "nat \<Rightarrow> nat \<Rightarrow> nat option" where
  "duration_checked_add a b = (if a + b \<le> DURATION_MAX then Some (a + b) else None)"

definition duration_checked_mul :: "nat \<Rightarrow> nat \<Rightarrow> nat option" where
  "duration_checked_mul a n = (if a * n \<le> DURATION_MAX then Some (a * n) else None)"

definition BOOT_BUDGET_OVERFLOW_MSG :: string where
  "BOOT_BUDGET_OVERFLOW_MSG = ''boot budget: nominal boot cost arithmetic overflow''"
definition MAX_PER_LEG_TIMEOUT :: nat where "MAX_PER_LEG_TIMEOUT = 3600 * 1000000000"

definition per_attempt_nominal_cost :: "nat \<Rightarrow> nat \<Rightarrow> nat \<Rightarrow> protocol_error + nat" where
  "per_attempt_nominal_cost quote_leg freshness_leg marks_leg =
     ok_or (WireProtocol BOOT_BUDGET_OVERFLOW_MSG)
       (Option.bind (duration_checked_add quote_leg freshness_leg) (\<lambda>legs.
        Option.bind (duration_checked_add legs marks_leg) (\<lambda>legs.
        duration_checked_add legs QUOTE_ATTEMPT_OVERHEAD)))"

record validated_boot_budget =
  vb_max_attempts :: nat
  vb_per_leg_timeout :: nat
  vb_overall_boot_budget :: nat
  vb_nominal_boot_cost :: nat

definition validate_boot_budget :: "nat \<Rightarrow> nat \<Rightarrow> nat \<Rightarrow> protocol_error + validated_boot_budget" where
  "validate_boot_budget max_attempts per_leg overall =
     (if max_attempts = 0 then Inl (WireProtocol ''boot budget: max_attempts must be >= 1'')
      else if max_attempts > MAX_BOOT_ATTEMPTS_CEILING
      then Inl (WireProtocol ''boot budget: max_attempts exceeds MAX_BOOT_ATTEMPTS_CEILING'')
      else if per_leg < MIN_BOUNDARY_BUDGET
      then Inl (WireProtocol ''boot budget: per-leg timeout below MIN_BOUNDARY_BUDGET'')
      else if per_leg > MAX_PER_LEG_TIMEOUT
      then Inl (WireProtocol ''boot budget: per-leg timeout exceeds MAX_PER_LEG_TIMEOUT'')
      else
      res_bind (per_attempt_nominal_cost per_leg per_leg per_leg) (\<lambda>per_attempt.
      res_bind (ok_or (WireProtocol BOOT_BUDGET_OVERFLOW_MSG) (duration_checked_mul per_attempt max_attempts)) (\<lambda>nominal.
      if nominal > overall then Inl (WireProtocol ''boot budget: nominal boot cost exceeds overall_boot_budget'')
      else Inr \<lparr>vb_max_attempts = max_attempts, vb_per_leg_timeout = per_leg,
                 vb_overall_boot_budget = overall, vb_nominal_boot_cost = nominal\<rparr>)))"

definition budget_slack :: "validated_boot_budget \<Rightarrow> nat" where
  "budget_slack b = vb_overall_boot_budget b - vb_nominal_boot_cost b"

section \<open>The producer\<close>

text \<open>\<open>HardBoundedQuoteProducer\<close>: the fetches it will make and its one ledger. \<open>claimed\<close> is the process flag, which
  nothing clears.\<close>

record quote_producer =
  qp_fetches :: "fetch_script list"
  qp_ledger :: abandoned_ledger

definition new_quote_producer :: "validated_boot_budget \<Rightarrow> fetch_script list \<Rightarrow> bool
    \<Rightarrow> (protocol_error + quote_producer) \<times> bool" where
  "new_quote_producer budget spawn claimed =
     (if claimed then (Inl (WireProtocol ''quote producer: process quote ledger already claimed''), claimed)
      else (Inr \<lparr>qp_fetches = spawn, qp_ledger = []\<rparr>, True))"

text \<open>\<open>fetch\<close>, under the deadline that \<open>RelayAnchorTransport\<close> minted from the per-leg timeout. A fetch
  whose script ends, or for which there is none, has lapsed.\<close>

definition producer_fetch :: "nat \<Rightarrow> quote_producer quote_fetch" where
  "producer_fetch timeout p rdata =
     (case qp_fetches p of
        [] \<Rightarrow> (Inl (WireProtocol ''anchor relay: quote pipe deadline lapsed''), p)
      | f # fs \<Rightarrow>
          (case fetch_quote_via_child (fe_minted f + timeout) rdata f (qp_ledger p) of
             None \<Rightarrow> (Inl (WireProtocol ''anchor relay: quote pipe deadline lapsed''), p\<lparr>qp_fetches := fs\<rparr>)
           | Some (r, ledger) \<Rightarrow> (r, \<lparr>qp_fetches = fs, qp_ledger = ledger\<rparr>)))"

definition transport_with_spawn :: "validated_boot_budget \<Rightarrow> fetch_script list \<Rightarrow> 'c boot_relay_channel \<Rightarrow> 'c \<Rightarrow> bool
    \<Rightarrow> (protocol_error + (quote_producer \<times> 'c) anchor_boot_transport \<times> quote_producer \<times> 'c) \<times> bool" where
  "transport_with_spawn budget spawn ch c claimed =
     (case new_quote_producer budget spawn claimed of
        (Inl e, claimed) \<Rightarrow> (Inl e, claimed)
      | (Inr p, claimed) \<Rightarrow>
          (Inr (relay_anchor_transport (producer_fetch (vb_per_leg_timeout budget)) ch, p, c), claimed))"

section \<open>Spawning the child\<close>

type_synonym environment = "string \<rightharpoonup> bytes"

definition QUOTE_CHILD_ENV :: string where "QUOTE_CHILD_ENV = ''TWOD_HSM_QUOTE_CHILD''"
definition QUOTE_CHILD_REPORT_DATA_ENV :: string where
  "QUOTE_CHILD_REPORT_DATA_ENV = ''TWOD_HSM_QUOTE_CHILD_REPORT_DATA''"

datatype pipe_source = Stdout | Stderr

definition HEX :: bytes where "HEX = ascii ''0123456789abcdef''"

definition hex128 :: "bytes \<Rightarrow> bytes" where
  "hex128 data = concat (List.map (\<lambda>b. [HEX ! unat (drop_bit 4 b), HEX ! unat (b AND 0x0f)]) data)"

record exec_child_spawn =
  ex_program :: string
  ex_leading_args :: "bytes list"
  ex_extra_env :: "(string \<times> bytes) list"
  ex_pipe_source :: pipe_source
  ex_clear_env :: bool

record child_command =
  cc_program :: string
  cc_args :: "bytes list"
  cc_env :: environment
  cc_piped :: pipe_source

definition production_spawn :: exec_child_spawn where
  "production_spawn = \<lparr>ex_program = ''/proc/self/exe'', ex_leading_args = [], ex_extra_env = [],
     ex_pipe_source = Stdout, ex_clear_env = True\<rparr>"

definition child_environment :: "exec_child_spawn \<Rightarrow> environment \<Rightarrow> bytes \<Rightarrow> environment" where
  "child_environment spec env rdata =
     (fold (\<lambda>(k, v) m. m(k \<mapsto> v)) (ex_extra_env spec) (if ex_clear_env spec then Map.empty else env))
       (QUOTE_CHILD_ENV \<mapsto> ascii ''1'', QUOTE_CHILD_REPORT_DATA_ENV \<mapsto> hex128 rdata)"

text \<open>\<open>os\<close> is what the system makes of the command: an error, or a child and whether its pipe end is there.\<close>

definition exec_spawn :: "(child_command \<Rightarrow> io_kind + bool \<times> child_handle) \<Rightarrow> environment \<Rightarrow> exec_child_spawn \<Rightarrow> bytes
    \<Rightarrow> protocol_error + child_handle" where
  "exec_spawn os env spec rdata =
     (if env QUOTE_CHILD_ENV \<noteq> None then Inl (WireProtocol ''quote child: spawn refused inside child'')
      else (case os \<lparr>cc_program = ex_program spec, cc_args = ex_leading_args spec,
                      cc_env = child_environment spec env rdata, cc_piped = ex_pipe_source spec\<rparr> of
          Inl k \<Rightarrow> Inl (Io k)
        | Inr (pipe, h) \<Rightarrow>
            if pipe then Inr h else Inl (WireProtocol ''quote child: pipe end missing after spawn'')))"

section \<open>Inside the child\<close>

datatype fetch_step = NoStep | CreateEntry | WriteInblob | ReadOutblob

text \<open>\<open>StepTracker\<close>: the file system with the step last attempted.\<close>

definition step_tracker :: "'f tsm_fs \<Rightarrow> ('f \<times> fetch_step) tsm_fs" where
  "step_tracker fs =
     \<lparr>remove_entry = (\<lambda>entry (s, step). (remove_entry fs entry s, step)),
      create_entry = (\<lambda>entry (s, step). case create_entry fs entry s of (r, s) \<Rightarrow> (r, s, CreateEntry)),
      write_inblob = (\<lambda>entry data (s, step). case write_inblob fs entry data s of (r, s) \<Rightarrow> (r, s, WriteInblob)),
      read_outblob = (\<lambda>entry (s, step). case read_outblob fs entry s of (r, s) \<Rightarrow> (r, s, ReadOutblob)),
      read_auxblob = (\<lambda>entry (s, step). case read_auxblob fs entry s of (x, s) \<Rightarrow> (x, s, step))\<rparr>"

definition OUTBLOB_OVERSIZE_MSG :: string where "OUTBLOB_OVERSIZE_MSG = ''SNP attestation: outblob exceeds max size''"
definition OUTBLOB_SHORT_MSG :: string where "OUTBLOB_SHORT_MSG = ''SNP attestation: outblob shorter than ABI minimum''"

definition child_err_code :: "fetch_step \<Rightarrow> protocol_error \<Rightarrow> u8" where
  "child_err_code step e =
     (let msg = (case e of PqSigningUnavailable m \<Rightarrow> m | WireProtocol m \<Rightarrow> m | _ \<Rightarrow> '''') in
      if msg = OUTBLOB_OVERSIZE_MSG then 5
      else if msg = OUTBLOB_SHORT_MSG then 6
      else (case step of CreateEntry \<Rightarrow> 2 | WriteInblob \<Rightarrow> 3 | ReadOutblob \<Rightarrow> 4 | NoStep \<Rightarrow> 4))"

definition CHILD_EXIT_WRITE_FAILED :: nat where "CHILD_EXIT_WRITE_FAILED = 10"

text \<open>\<open>emit\<close>: the exit code and what reached the pipe; \<open>fails\<close> is after how many bytes writing or flushing fails.\<close>

definition emit_frame :: "nat option \<Rightarrow> bytes \<Rightarrow> nat \<Rightarrow> nat \<times> bytes" where
  "emit_frame fails frame ok_code =
     (case fails of None \<Rightarrow> (ok_code, frame) | Some k \<Rightarrow> (CHILD_EXIT_WRITE_FAILED, take k frame))"

definition TSM_REPORT_DIR :: string where "TSM_REPORT_DIR = ''/sys/kernel/config/tsm/report''"
definition TSM_QUOTE_ENTRY_PREFIX :: string where "TSM_QUOTE_ENTRY_PREFIX = ''twod-hsm-q-''"

definition quote_child_entry_path :: "nat \<Rightarrow> string" where
  "quote_child_entry_path pid = TSM_REPORT_DIR @ ''/'' @ TSM_QUOTE_ENTRY_PREFIX @ dec_string pid"

definition quote_child_main_with :: "'f tsm_fs \<Rightarrow> nat \<Rightarrow> bytes \<Rightarrow> nat option \<Rightarrow> 'f \<Rightarrow> (nat \<times> bytes) \<times> 'f" where
  "quote_child_main_with fs pid rdata fails s =
     (case fetch_report_with_at (step_tracker fs) (quote_child_entry_path pid) rdata (s, NoStep) of
        (Inr (report, cert_chain), s, _) \<Rightarrow>
          (let cert_chain = (if length cert_chain > MAX_CERT_CHAIN_LEN then [] else cert_chain) in
           case encode_ok_frame report cert_chain of
             Inr frame \<Rightarrow> (emit_frame fails frame 0, s)
           | Inl _ \<Rightarrow> (emit_frame fails (encode_err_frame 5) 5, s))
      | (Inl e, s, step) \<Rightarrow>
          (let n = child_err_code step e in (emit_frame fails (encode_err_frame n) (unat n), s)))"

definition nib :: "u8 \<Rightarrow> u8 option" where
  "nib c = (if 0x30 \<le> c \<and> c \<le> 0x39 then Some (c - 0x30)
     else if 0x61 \<le> c \<and> c \<le> 0x66 then Some (c - 0x61 + 10) else None)"

fun parse_nibs :: "bytes \<Rightarrow> bytes option" where
  "parse_nibs (a # b # r) =
     Option.bind (nib a) (\<lambda>h. Option.bind (nib b) (\<lambda>l. map_option (\<lambda>out. (push_bit 4 h OR l) # out) (parse_nibs r)))"
| "parse_nibs r = Some []"

definition parse_report_data_env :: "bytes \<Rightarrow> protocol_error + bytes" where
  "parse_report_data_env val =
     (if \<not> utf8_valid val then Inl (WireProtocol ''quote child: report_data env not UTF-8'')
      else if length val \<noteq> 128 then Inl (WireProtocol ''quote child: report_data env wrong length'')
      else ok_or (WireProtocol ''quote child: report_data env bad hex'') (parse_nibs val))"

text \<open>The entry point: \<open>gc\<close> is the best-effort sweep of orphaned entries.\<close>

definition agent_quote_child_main :: "environment \<Rightarrow> 'f tsm_fs \<Rightarrow> ('f \<Rightarrow> 'f) \<Rightarrow> nat \<Rightarrow> nat option \<Rightarrow> 'f
    \<Rightarrow> (nat \<times> bytes) \<times> 'f" where
  "agent_quote_child_main env fs gc pid fails s =
     (case res_bind (ok_or (WireProtocol ''quote child: report_data env missing'') (env QUOTE_CHILD_REPORT_DATA_ENV))
             parse_report_data_env of
        Inl _ \<Rightarrow> (emit_frame fails (encode_err_frame 1) 1, s)
      | Inr rdata \<Rightarrow> quote_child_main_with fs pid rdata fails (gc s))"

definition agent_quote_child_dispatch :: "environment \<Rightarrow> 'f tsm_fs \<Rightarrow> ('f \<Rightarrow> 'f) \<Rightarrow> nat \<Rightarrow> nat option \<Rightarrow> 'f
    \<Rightarrow> ((nat \<times> bytes) \<times> 'f) option" where
  "agent_quote_child_dispatch env fs gc pid fails s =
     (if env QUOTE_CHILD_ENV \<noteq> None then Some (agent_quote_child_main env fs gc pid fails s) else None)"

section \<open>The frame parser is exact\<close>

lemmas quote_lens = MIN_REPORT_LEN_def MEASUREMENT_OFFSET_def SNP_MEASUREMENT_LEN_def MAX_OUTBLOB_LEN_def
  MAX_CERT_CHAIN_LEN_def MAX_QUOTE_FRAME_LEN_def

lemma status_distinct [simp]: "FRAME_STATUS_OK \<noteq> FRAME_STATUS_ERR" "FRAME_STATUS_ERR \<noteq> FRAME_STATUS_OK"
  by (simp_all add: FRAME_STATUS_OK_def FRAME_STATUS_ERR_def)

text \<open>The bytes of a well-formed frame, and the split of an accumulator at its length fields.\<close>

definition quote_frame :: "bytes \<Rightarrow> bytes \<Rightarrow> bytes" where
  "quote_frame report chain = FRAME_STATUS_OK # be_bytes 4 (length report) @ report @ be_bytes 4 (length chain) @ chain"

lemma encode_ok_frame_Inr:
  "encode_ok_frame report chain = Inr f \<longleftrightarrow> 192 \<le> length report \<and> length report \<le> 8192 \<and> length chain \<le> 65536
     \<and> f = quote_frame report chain"
  by (auto simp: encode_ok_frame_def quote_frame_def quote_lens be32_length)

lemma be_val_be_bytes4: "n < 2 ^ 32 \<Longrightarrow> be_val (be_bytes 4 n) = n"
  by (simp add: be_val_be_bytes)

definition parse_ok_body :: "nat \<Rightarrow> nat \<Rightarrow> bytes \<Rightarrow> protocol_error + frame_progress" where
  "parse_ok_body n m r =
     (if length r < 4 then Inr NeedMore
      else if n < 192 then Inl (WireProtocol ''quote child: report below ABI minimum'')
      else if n > 8192 then Inl (WireProtocol ''quote child: report length over cap'')
      else if length r < 8 + n then Inr NeedMore
      else if m > 65536 then Inl (WireProtocol ''quote child: cert chain length over cap'')
      else if length r < 8 + n + m then Inr NeedMore
      else if length r > 8 + n + m then Inl (WireProtocol ''quote child: trailing bytes after frame'')
      else Inr (Complete (Quote (take n (drop 4 r)) (take m (drop (8 + n) r)))))"

lemma parse_ok_frame:
  assumes "n = be_val (take 4 r)" "m = be_val (take 4 (drop (4 + n) r))"
  shows "parse_child_frame (FRAME_STATUS_OK # r) = parse_ok_body n m r"
proof -
  have d: "drop 1 (x # r) = r" "drop 5 (x # r) = drop 4 r" "drop (1 + 4 + n) (x # r) = drop (4 + n) r"
    "drop (1 + 4 + n + 4) (x # r) = drop (8 + n) r" "length (x # r) = Suc (length r)" for x :: u8
    by (simp_all add: drop_Cons')
  have c: "Suc l < 1 + 4 \<longleftrightarrow> l < 4" "Suc l < 1 + 4 + n + 4 \<longleftrightarrow> l < 8 + n" "Suc l < 1 + 4 + n + 4 + m \<longleftrightarrow> l < 8 + n + m"
    "1 + 4 + n + 4 + m < Suc l \<longleftrightarrow> 8 + n + m < l" "144 + 48 = (192 :: nat)" "64 * 1024 = (65536 :: nat)" for l by auto
  show ?thesis
    unfolding parse_child_frame_def list.case Let_def quote_lens d assms(1) [symmetric] assms(2) [symmetric] c
      parse_ok_body_def if_not_P [OF status_distinct(1)] if_P [OF refl] ..
qed

lemma parse_ok_Inr:
  "parse_ok_body n m r = Inr p \<longleftrightarrow>
     (length r < 4 \<and> p = NeedMore)
     \<or> (4 \<le> length r \<and> 192 \<le> n \<and> n \<le> 8192
        \<and> (length r < 8 + n \<and> p = NeedMore
          \<or> 8 + n \<le> length r \<and> m \<le> 65536
            \<and> (length r < 8 + n + m \<and> p = NeedMore
              \<or> length r = 8 + n + m \<and> p = Complete (Quote (take n (drop 4 r)) (take m (drop (8 + n) r))))))"
  unfolding parse_ok_body_def by auto

lemma parse_err_frame:
  "parse_child_frame (FRAME_STATUS_ERR # r) =
     (case r of [] \<Rightarrow> Inr NeedMore | [n] \<Rightarrow> Inr (Complete (ChildError (child_err_str n)))
      | _ \<Rightarrow> Inl (WireProtocol ''quote child: trailing bytes after frame''))"
  by (auto simp: parse_child_frame_def split: list.splits)

lemma parse_bad_frame:
  "\<lbrakk>x \<noteq> FRAME_STATUS_OK; x \<noteq> FRAME_STATUS_ERR\<rbrakk>
    \<Longrightarrow> parse_child_frame (x # r) = Inl (WireProtocol ''quote child: malformed frame status'')"
  by (simp add: parse_child_frame_def)

lemma parse_Inr_cases:
  assumes "parse_child_frame accum = Inr p"
  obtains (empty) "accum = []" "p = NeedMore" | (ok) r where "accum = FRAME_STATUS_OK # r" | (err) r where "accum = FRAME_STATUS_ERR # r"
proof (cases accum)
  case Nil
  then show ?thesis using assms empty by (simp add: parse_child_frame_def)
next
  case (Cons x r)
  then show ?thesis using assms ok err parse_bad_frame [of x r] by fastforce
qed

lemma parse_quote_frame:
  assumes "192 \<le> length report" "length report \<le> 8192" "length chain \<le> 65536"
  shows "parse_child_frame (quote_frame report chain) = Inr (Complete (Quote report chain))"
proof -
  let ?r = "be_bytes 4 (length report) @ report @ be_bytes 4 (length chain) @ chain"
  have n: "length report = be_val (take 4 ?r)" and m: "length chain = be_val (take 4 (drop (4 + length report) ?r))"
    using assms by (simp_all add: be_val_be_bytes4)
  show ?thesis unfolding quote_frame_def parse_ok_frame [OF n m] parse_ok_Inr using assms by auto
qed

lemma parse_quote_prefix:
  assumes "192 \<le> length report" "length report \<le> 8192" "length chain \<le> 65536"
    "accum @ t = quote_frame report chain" "t \<noteq> []"
  shows "parse_child_frame accum = Inr NeedMore"
proof (cases accum)
  case (Cons a r)
  have a: "a = FRAME_STATUS_OK" and rt: "r @ t = be_bytes 4 (length report) @ report @ be_bytes 4 (length chain) @ chain"
    using assms(4) Cons by (auto simp: quote_frame_def)
  have "length r + length t = 8 + (length report + length chain)"
    using arg_cong [OF rt, of length] by simp
  moreover have "0 < length t" using assms(5) by simp
  ultimately have lt: "length r < 8 + length report + length chain" by linarith
  have r1: "take 4 r = be_bytes 4 (length report)" if "4 \<le> length r"
    using arg_cong [OF rt, of "take 4"] that by simp
  have r2: "take 4 (drop (4 + length report) r) = be_bytes 4 (length chain)" if "8 + length report \<le> length r"
    using arg_cong [OF rt, of "\<lambda>x. take 4 (drop (4 + length report) x)"] that by simp
  have n: "4 \<le> length r \<Longrightarrow> be_val (take 4 r) = length report" using r1 assms(2) by (simp add: be_val_be_bytes4)
  have m: "8 + length report \<le> length r \<Longrightarrow> be_val (take 4 (drop (4 + length report) r)) = length chain"
    using r2 assms(3) by (simp add: be_val_be_bytes4)
  show ?thesis unfolding Cons a parse_ok_frame [OF refl refl] parse_ok_Inr
    using n m lt assms(1-3) by (cases "4 \<le> length r"; cases "8 + length report \<le> length r") auto
qed (simp add: parse_child_frame_def)

lemma be_bytes_take4: "4 \<le> length r \<Longrightarrow> be_bytes 4 (be_val (take 4 r)) = take 4 r"
  using be_bytes_be_val [of "take 4 r"] by simp

lemma quote_frame_split:
  assumes "length r = 8 + n + m" "n = be_val (take 4 r)" "m = be_val (take 4 (drop (4 + n) r))"
  shows "FRAME_STATUS_OK # r = quote_frame (take n (drop 4 r)) (take m (drop (8 + n) r))"
proof -
  have "r = take 4 r @ take n (drop 4 r) @ take 4 (drop (4 + n) r) @ drop (8 + n) r"
    using append_take_drop_id [of 4 r] append_take_drop_id [of n "drop 4 r"] append_take_drop_id [of 4 "drop (4 + n) r"]
    by (simp add: add.commute)
  moreover have "length (take n (drop 4 r)) = n" "length (take m (drop (8 + n) r)) = m" "take m (drop (8 + n) r) = drop (8 + n) r"
    using assms(1) by simp_all
  moreover have "be_bytes 4 n = take 4 r" "be_bytes 4 m = take 4 (drop (4 + n) r)"
    using assms(1) be_bytes_take4 [of r, folded assms(2)] be_bytes_take4 [of "drop (4 + n) r", folded assms(3)] by simp_all
  ultimately show ?thesis unfolding quote_frame_def by metis
qed

lemma parse_complete_frame:
  assumes "parse_child_frame accum = Inr (Complete (Quote report chain))"
  shows "192 \<le> length report \<and> length report \<le> 8192 \<and> length chain \<le> 65536 \<and> accum = quote_frame report chain"
  using assms
proof (cases rule: parse_Inr_cases)
  case (ok r)
  let ?n = "be_val (take 4 r)"
  let ?m = "be_val (take 4 (drop (4 + ?n) r))"
  have b: "192 \<le> ?n" "?n \<le> 8192" "?m \<le> 65536" "length r = 8 + ?n + ?m"
    and out: "report = take ?n (drop 4 r)" "chain = take ?m (drop (8 + ?n) r)"
    using assms unfolding ok parse_ok_frame [OF refl refl] parse_ok_Inr by blast+
  have "length report = ?n" "length chain = ?m" using b(4) unfolding out length_take length_drop by linarith+
  then show ?thesis using quote_frame_split [OF b(4) refl refl] b(1-3) unfolding ok out by metis
next
  case (err r)
  then show ?thesis using assms by (auto simp: parse_err_frame split: list.splits)
qed simp

lemma parse_complete_error:
  "parse_child_frame accum = Inr (Complete (ChildError m)) \<longleftrightarrow> (\<exists>n. accum = encode_err_frame n \<and> m = child_err_str n)"
proof
  assume p: "parse_child_frame accum = Inr (Complete (ChildError m))"
  then show "\<exists>n. accum = encode_err_frame n \<and> m = child_err_str n"
  proof (cases rule: parse_Inr_cases)
    case (ok r)
    then show ?thesis using p unfolding ok parse_ok_frame [OF refl refl] parse_ok_Inr by blast
  next
    case (err r)
    then show ?thesis using p by (auto simp: parse_err_frame encode_err_frame_def split: list.splits)
  qed simp
qed (auto simp: parse_err_frame encode_err_frame_def)

lemma parse_more_bounded:
  assumes "parse_child_frame accum = Inr NeedMore" shows "length accum < MAX_QUOTE_FRAME_LEN"
  using assms
proof (cases rule: parse_Inr_cases)
  case (ok r)
  then show ?thesis using assms unfolding ok parse_ok_frame [OF refl refl] parse_ok_Inr quote_lens by auto
next
  case (err r)
  then show ?thesis using assms by (auto simp: parse_err_frame quote_lens split: list.splits)
qed (simp add: quote_lens)

section \<open>Draining is exact and returns\<close>

fun turn_bytes :: "pipe_turn \<Rightarrow> bytes" where
  "turn_bytes t = (case pt_read t of Chunk bs \<Rightarrow> bs | ReadErr _ \<Rightarrow> [])"

definition pipe_bytes :: "pipe_turn list \<Rightarrow> bytes" where
  "pipe_bytes ts = concat (List.map turn_bytes ts)"

lemma pipe_bytes_simps [simp]: "pipe_bytes [] = []" "pipe_bytes (t # ts) = turn_bytes t @ pipe_bytes ts"
  by (simp_all add: pipe_bytes_def)

lemma drain_sound:
  "read_child_reply deadline accum ts = Some (Inr reply)
    \<Longrightarrow> \<exists>n \<le> length ts. parse_child_frame (accum @ pipe_bytes (take n ts)) = Inr (Complete reply)"
proof (induction ts arbitrary: accum)
  case (Cons t ts)
  show ?case
  proof (cases "parse_child_frame (accum @ turn_bytes t) = Inr (Complete reply)")
    case True
    then show ?thesis by (intro exI [of _ 1]) simp
  next
    case False
    then have "read_child_reply deadline (accum @ turn_bytes t) ts = Some (Inr reply)"
      using Cons.prems
      by (auto split: option.splits sum.splits pipe_readiness.splits read_outcome.splits if_splits frame_progress.splits)
    from Cons.IH [OF this] obtain n where "n \<le> length ts"
      "parse_child_frame ((accum @ turn_bytes t) @ pipe_bytes (take n ts)) = Inr (Complete reply)" by blast
    then show ?thesis by (intro exI [of _ "Suc n"]) simp
  qed
qed simp

text \<open>A turn that works: its wait ends in readiness and its read yields bytes or must be repeated.\<close>

definition live_turn :: "nat \<Rightarrow> pipe_turn \<Rightarrow> bool" where
  "live_turn deadline t \<longleftrightarrow>
     (\<exists>revents. poll_with_deadline deadline (pt_now t) (pt_polls t) = Some (Inr revents) \<and> classify_pipe_revents revents = ReadNow)
     \<and> (case pt_read t of Chunk bs \<Rightarrow> bs \<noteq> [] | ReadErr k \<Rightarrow> k = WouldBlock \<or> k = Interrupted)"

lemma drain_live:
  assumes "list_all (live_turn deadline) ts" "accum @ pipe_bytes ts = f"
    "parse_child_frame f = Inr (Complete reply)" "accum \<noteq> f"
    "\<And>p t. p @ t = f \<Longrightarrow> t \<noteq> [] \<Longrightarrow> parse_child_frame p = Inr NeedMore"
  shows "read_child_reply deadline accum ts = Some (Inr reply)"
  using assms(1,2,4)
proof (induction ts arbitrary: accum)
  case (Cons t ts)
  obtain revents where r: "poll_with_deadline deadline (pt_now t) (pt_polls t) = Some (Inr revents)" "classify_pipe_revents revents = ReadNow"
    using Cons.prems(1) by (auto simp: live_turn_def)
  show ?case
  proof (cases "pt_read t")
    case (Chunk bs)
    then have bs: "bs \<noteq> []" using Cons.prems(1) by (simp add: live_turn_def)
    show ?thesis
    proof (cases "accum @ bs = f")
      case True
      then show ?thesis using r Chunk bs assms(3) by simp
    next
      case False
      have e: "(accum @ bs) @ pipe_bytes ts = f" using Cons.prems(2) Chunk by simp
      then have "pipe_bytes ts \<noteq> []" using False by auto
      then have "parse_child_frame (accum @ bs) = Inr NeedMore" using assms(5) [OF e] by blast
      then show ?thesis using r Chunk bs Cons.IH [OF _ e False] Cons.prems(1) by simp
    qed
  next
    case (ReadErr k)
    then have "k = WouldBlock \<or> k = Interrupted" using Cons.prems(1) by (simp add: live_turn_def)
    then show ?thesis using r ReadErr Cons by simp
  qed
qed simp

lemma drain_quote:
  assumes "list_all (live_turn deadline) ts" "encode_ok_frame report chain = Inr (pipe_bytes ts)"
  shows "read_child_reply deadline [] ts = Some (Inr (Quote report chain))"
proof -
  have f: "192 \<le> length report" "length report \<le> 8192" "length chain \<le> 65536" "pipe_bytes ts = quote_frame report chain"
    using assms(2) by (simp_all add: encode_ok_frame_Inr)
  show ?thesis
    using drain_live [OF assms(1), of "[]", OF _ parse_quote_frame [OF f(1-3)]] f(4) parse_quote_prefix [OF f(1-3)]
    by (simp add: quote_frame_def)
qed

lemma drain_error:
  assumes "list_all (live_turn deadline) ts" "pipe_bytes ts = encode_err_frame n"
  shows "read_child_reply deadline [] ts = Some (Inr (ChildError (child_err_str n)))"
proof (rule drain_live [OF assms(1)])
  show "parse_child_frame (encode_err_frame n) = Inr (Complete (ChildError (child_err_str n)))"
    by (simp add: encode_err_frame_def parse_err_frame)
  show "parse_child_frame p = Inr NeedMore" if "p @ t = encode_err_frame n" "t \<noteq> []" for p t
    using that by (auto simp: encode_err_frame_def append_eq_Cons_conv parse_err_frame parse_child_frame_def)
qed (use assms(2) in \<open>auto simp: encode_err_frame_def\<close>)

definition is_chunk :: "pipe_turn \<Rightarrow> bool" where
  "is_chunk t \<longleftrightarrow> (case pt_read t of Chunk _ \<Rightarrow> True | ReadErr _ \<Rightarrow> False)"

lemma drain_returns:
  assumes "\<forall>t \<in> set ts. poll_with_deadline deadline (pt_now t) (pt_polls t) \<noteq> None"
    "MAX_QUOTE_FRAME_LEN \<le> length accum + length (filter is_chunk ts)" "length accum < MAX_QUOTE_FRAME_LEN"
  shows "read_child_reply deadline accum ts \<noteq> None"
  using assms
proof (induction ts arbitrary: accum)
  case (Cons t ts)
  obtain r where r: "poll_with_deadline deadline (pt_now t) (pt_polls t) = Some r" using Cons.prems(1) by fastforce
  have tl: "\<forall>t \<in> set ts. poll_with_deadline deadline (pt_now t) (pt_polls t) \<noteq> None" using Cons.prems(1) by simp
  show ?case
  proof (cases r)
    case (Inr revents)
    show ?thesis
    proof (cases "pt_read t")
      case (Chunk bs)
      have "read_child_reply deadline (accum @ bs) ts \<noteq> None" if "bs \<noteq> []" "parse_child_frame (accum @ bs) = Inr NeedMore"
      proof (rule Cons.IH [OF tl])
        have "0 < length bs" using that(1) by simp
        moreover have "is_chunk t" using Chunk by (simp add: is_chunk_def)
        then have "MAX_QUOTE_FRAME_LEN \<le> length accum + Suc (length (filter is_chunk ts))" using Cons.prems(2) by simp
        moreover have "length (accum @ bs) = length accum + length bs" by simp
        ultimately show "MAX_QUOTE_FRAME_LEN \<le> length (accum @ bs) + length (filter is_chunk ts)" by linarith
      qed (rule parse_more_bounded [OF that(2)])
      then show ?thesis using r Inr Chunk
        by (cases "classify_pipe_revents revents") (auto split: sum.splits frame_progress.splits)
    next
      case (ReadErr k)
      have "read_child_reply deadline accum ts \<noteq> None"
        using Cons.prems ReadErr by (intro Cons.IH [OF tl]) (simp_all add: is_chunk_def)
      then show ?thesis using r Inr ReadErr by (cases "classify_pipe_revents revents") auto
    qed
  qed (use r in simp)
qed simp

section \<open>Custody of children\<close>

text \<open>\<open>h'\<close> is \<open>h\<close> later on: the same process, asked more often.\<close>

definition later :: "child_handle \<Rightarrow> child_handle \<Rightarrow> bool" where
  "later h h' \<longleftrightarrow> ch_pid h' = ch_pid h \<and> suffix (ch_waits h') (ch_waits h) \<and> (ch_killed h \<longrightarrow> ch_killed h')"

definition said_exited :: "child_handle \<Rightarrow> bool" where
  "said_exited h \<longleftrightarrow> Some True \<in> set (ch_waits h)"

lemma later_refl [simp]: "later h h" by (simp add: later_def)

lemma later_trans: "later a b \<Longrightarrow> later b c \<Longrightarrow> later a c"
  by (auto simp: later_def intro: suffix_order.trans)

lemma later_exited: "later a b \<Longrightarrow> said_exited b \<Longrightarrow> said_exited a"
  by (auto simp: later_def said_exited_def suffix_def)

lemma kill_later: "later h (kill_best_effort h)" "ch_killed (kill_best_effort h)"
  by (simp_all add: later_def kill_best_effort_def)

lemma try_reap_later:
  assumes "try_reap h = (r, h')"
  shows "later h h'" "ch_killed h' = ch_killed h" "r = Exited \<Longrightarrow> said_exited h"
  using assms by (auto simp: try_reap_def later_def said_exited_def fold_try_wait_def suffix_Cons split: list.splits if_splits)

definition in_custody :: "abandoned_ledger \<Rightarrow> child_handle \<Rightarrow> bool" where
  "in_custody ledger h \<longleftrightarrow> said_exited h \<or> (\<exists>h' \<in> set ledger. later h h')"

lemma sweep_length: "length (sweep ledger) \<le> length ledger"
  by (induction ledger) (auto split: prod.splits reap_outcome.splits)

lemma sweep_later: "h' \<in> set (sweep ledger) \<Longrightarrow> \<exists>h \<in> set ledger. later h h' \<and> ch_killed h' = ch_killed h"
proof (induction ledger)
  case (Cons a ledger)
  obtain r b where b: "try_reap a = (r, b)" by fastforce
  show ?case
  proof (cases "h' = b \<and> r = Running")
    case True
    then show ?thesis using try_reap_later [OF b] by auto
  next
    case False
    then have "h' \<in> set (sweep ledger)" using Cons.prems b by (auto split: reap_outcome.splits)
    then show ?thesis using Cons.IH by auto
  qed
qed simp

lemma sweep_keeps: "h \<in> set ledger \<Longrightarrow> in_custody (sweep ledger) h"
proof (induction ledger)
  case (Cons a ledger)
  obtain r b where b: "try_reap a = (r, b)" by fastforce
  show ?case
  proof (cases "h \<in> set ledger")
    case True
    then show ?thesis using Cons.IH b by (auto simp: in_custody_def split: reap_outcome.splits)
  next
    case False
    then have "h = a" using Cons.prems by simp
    then show ?thesis using try_reap_later [OF b] b by (cases r) (auto simp: in_custody_def)
  qed
qed simp

lemma reap_loop_custody:
  assumes "reap_loop elapsed h ledger = Some ledger'"
  shows "ledger' = ledger \<and> said_exited h \<or> (\<exists>h'. ledger' = ledger @ [h'] \<and> later h h' \<and> ch_killed h' = ch_killed h)"
  using assms
proof (induction elapsed h ledger rule: reap_loop.induct)
  case (1 elapsed h ledger)
  obtain r b where b: "try_reap h = (r, b)" by fastforce
  note l = try_reap_later [OF b]
  show ?case
  proof (cases r)
    case Exited
    then show ?thesis using 1(2) b l by simp
  next
    case Running
    then obtain e es where e: "elapsed = e # es" using 1(2) b by (cases elapsed) auto
    show ?thesis
    proof (cases "REAP_GRACE \<le> e")
      case True
      then show ?thesis using 1(2) b Running e l by (auto simp: abandon_def)
    next
      case False
      then have "reap_loop es b ledger = Some ledger'" using 1(2) b Running e by simp
      from 1(1) [OF b [symmetric] Running e False this] show ?thesis
        using l later_trans later_exited by metis
    qed
  qed
qed

lemma dispose_custody:
  assumes "dispose_child elapsed h ledger = Some ledger'"
  shows "ledger' = ledger \<and> said_exited h \<or> (\<exists>h'. ledger' = ledger @ [h'] \<and> later h h' \<and> ch_killed h')"
  using reap_loop_custody [OF assms [unfolded dispose_child_def]] kill_later [of h] later_trans later_exited by blast

lemma reap_loop_returns: "\<exists>e \<in> set elapsed. REAP_GRACE \<le> e \<Longrightarrow> reap_loop elapsed h ledger \<noteq> None"
proof (induction elapsed h ledger rule: reap_loop.induct)
  case (1 elapsed h ledger)
  obtain r b where b: "try_reap h = (r, b)" by fastforce
  obtain e es where e: "elapsed = e # es" using 1(2) by (cases elapsed) auto
  show ?case
  proof (cases "r = Running \<and> e < REAP_GRACE")
    case True
    then have "\<exists>e \<in> set es. REAP_GRACE \<le> e" using 1(2) e by auto
    then show ?thesis using 1(1) [OF b [symmetric] _ e] True b e by simp
  next
    case False
    then show ?thesis using b e by (cases r) auto
  qed
qed

text \<open>The child a fetch starts, if it starts one.\<close>

definition spawned :: "nat \<Rightarrow> fetch_script \<Rightarrow> abandoned_ledger \<Rightarrow> child_handle list" where
  "spawned deadline f ledger =
     (if (\<exists>budget. remaining_or_lapsed deadline (fe_now f) = Inr budget) \<and> \<not> fe_in_child f \<and> \<not> is_full (sweep ledger)
      then (case fe_spawn f of Inr h \<Rightarrow> [h] | Inl _ \<Rightarrow> []) else [])"

lemma fetch_inner_cases:
  assumes "fetch_quote_via_child_inner deadline rdata f ledger = Some (r, ledger')"
  shows "spawned deadline f ledger = [] \<and> ledger' \<in> {ledger, sweep ledger} \<and> (\<exists>e. r = Inl e)
    \<or> (\<exists>h. spawned deadline f ledger = [h] \<and> \<not> is_full (sweep ledger)
        \<and> dispose_child (fe_elapsed f) h (sweep ledger) = Some ledger'
        \<and> (\<forall>q. r = Inr q \<longrightarrow> (\<exists>reply. read_child_reply deadline [] (fe_pipe f) = Some (Inr reply)
             \<and> validate_child_reply rdata reply = Inr q)))"
proof (cases "spawned deadline f ledger")
  case Nil
  then show ?thesis using assms
    by (auto simp: fetch_quote_via_child_inner_def spawned_def Let_def split: sum.splits if_splits)
next
  case (Cons h hs)
  then have s: "remaining_or_lapsed deadline (fe_now f) \<noteq> Inl e" "\<not> fe_in_child f" "\<not> is_full (sweep ledger)" "fe_spawn f = Inr h" "hs = []" for e
    by (auto simp: spawned_def split: sum.splits if_splits)
  obtain b where b: "remaining_or_lapsed deadline (fe_now f) = Inr b" using s(1) by (cases "remaining_or_lapsed deadline (fe_now f)") auto
  show ?thesis
  proof (cases "set_nonblock f")
    case (Inl e)
    then show ?thesis using assms s b Cons by (auto simp: fetch_quote_via_child_inner_def Let_def)
  next
    case (Inr u)
    then obtain reply where "read_child_reply deadline [] (fe_pipe f) = Some reply"
      "r = res_bind reply (validate_child_reply rdata)" "dispose_child (fe_elapsed f) h (sweep ledger) = Some ledger'"
      using assms s b by (auto simp: fetch_quote_via_child_inner_def Let_def split: option.splits)
    then show ?thesis using s Cons by (cases reply) auto
  qed
qed

lemma fetch_cases:
  assumes "fetch_quote_via_child deadline rdata f ledger = Some (r, ledger')"
  shows "spawned deadline f ledger = [] \<and> ledger' \<in> {ledger, sweep ledger} \<and> (\<exists>e. r = Inl e)
    \<or> (\<exists>h. spawned deadline f ledger = [h] \<and> \<not> is_full (sweep ledger)
        \<and> dispose_child (fe_elapsed f) h (sweep ledger) = Some ledger'
        \<and> (\<forall>q. r = Inr q \<longrightarrow> (\<exists>reply. read_child_reply deadline [] (fe_pipe f) = Some (Inr reply)
             \<and> validate_child_reply rdata reply = Inr q)))"
proof -
  obtain r0 where "fetch_quote_via_child_inner deadline rdata f ledger = Some (r0, ledger')" "r = map_err relabel_pipe_lapse r0"
    using assms by (auto simp: fetch_quote_via_child_def)
  then show ?thesis using fetch_inner_cases [of deadline rdata f ledger r0 ledger'] by (cases r0) auto
qed

text \<open>Every sequence of fetches over one ledger, with the children it started.\<close>

inductive custody_run :: "child_handle list \<Rightarrow> abandoned_ledger \<Rightarrow> bool" where
  custody_start: "custody_run [] []"
| custody_fetch: "\<lbrakk>custody_run started ledger; fetch_quote_via_child deadline rdata f ledger = Some (r, ledger')\<rbrakk>
    \<Longrightarrow> custody_run (started @ spawned deadline f ledger) ledger'"

definition custody_ok :: "child_handle list \<Rightarrow> abandoned_ledger \<Rightarrow> bool" where
  "custody_ok started ledger \<longleftrightarrow> length ledger \<le> ABANDONED_CHILD_BUDGET \<and> (\<forall>h \<in> set started. in_custody ledger h)
     \<and> (\<forall>h' \<in> set ledger. ch_killed h' \<and> (\<exists>h \<in> set started. later h h'))"

lemma in_custody_sweep: "in_custody ledger h \<Longrightarrow> in_custody (sweep ledger) h"
  unfolding in_custody_def using sweep_keeps [unfolded in_custody_def] later_trans later_exited by metis

lemma in_custody_mono: "in_custody ledger h \<Longrightarrow> set ledger \<subseteq> set ledger' \<Longrightarrow> in_custody ledger' h"
  by (auto simp: in_custody_def)

lemma custody_sweep: "custody_ok started ledger \<Longrightarrow> custody_ok started (sweep ledger)"
  unfolding custody_ok_def
  using sweep_length [of ledger] in_custody_sweep sweep_later later_trans le_trans by metis

lemma custody_dispose:
  assumes "custody_ok started ledger" "\<not> is_full ledger" "dispose_child elapsed h ledger = Some ledger'"
  shows "custody_ok (started @ [h]) ledger'"
proof -
  consider "ledger' = ledger" "said_exited h" | h' where "ledger' = ledger @ [h']" "later h h'" "ch_killed h'"
    using dispose_custody [OF assms(3)] by blast
  then show ?thesis
  proof cases
    case 1
    then show ?thesis using assms(1) by (auto simp: custody_ok_def in_custody_def)
  next
    case 2
    then have "set ledger \<subseteq> set ledger'" by auto
    then have "\<forall>x \<in> set started. in_custody ledger' x" using assms(1) in_custody_mono unfolding custody_ok_def by blast
    moreover have "in_custody ledger' h" using 2 by (auto simp: in_custody_def)
    ultimately show ?thesis using assms(1,2) 2 by (auto simp: custody_ok_def is_full_def)
  qed
qed

lemma custody_run_ok: "custody_run started ledger \<Longrightarrow> custody_ok started ledger"
proof (induction rule: custody_run.induct)
  case custody_start
  show ?case by (simp add: custody_ok_def)
next
  case (custody_fetch started ledger deadline rdata f r ledger')
  note sw = custody_sweep [OF custody_fetch.IH]
  from fetch_cases [OF custody_fetch.hyps(2)] show ?case
    using custody_fetch.IH sw custody_dispose [OF sw] by auto
qed

text \<open>C21: no quote child is ever forgotten. After any sequence of fetches over the process's ledger, every child that was
  started either has been reported exited by \<open>waitpid\<close> or is in the ledger; every child in the ledger is one that was
  started and has been sent SIGKILL; and the ledger never holds more than the driver's ceiling of attempts (64): at that
  point a fetch is refused before it spawns.\<close>

theorem quote_children_in_custody:
  assumes "custody_run started ledger"
  shows "(\<forall>h \<in> set started. Some True \<in> set (ch_waits h) \<or> (\<exists>h' \<in> set ledger. later h h'))
    \<and> (\<forall>h' \<in> set ledger. ch_killed h' \<and> (\<exists>h \<in> set started. later h h'))
    \<and> length ledger \<le> 64
    \<and> (length (sweep ledger) = 64 \<longrightarrow> spawned deadline f ledger = [])"
proof -
  note ok = custody_run_ok [OF assms, unfolded custody_ok_def in_custody_def said_exited_def]
  have "length ledger \<le> 64" using ok by (simp add: ABANDONED_CHILD_BUDGET_def MAX_BOOT_ATTEMPTS_CEILING_def)
  moreover have "length (sweep ledger) = 64 \<longrightarrow> spawned deadline f ledger = []"
    by (simp add: spawned_def is_full_def ABANDONED_CHILD_BUDGET_def MAX_BOOT_ATTEMPTS_CEILING_def)
  ultimately show ?thesis using ok by blast
qed

section \<open>What a fetched quote is\<close>

text \<open>C34: a quote handed to the boot relay is exactly one well-formed frame of the killed child, for this challenge: a
  fetch that succeeds returns a report within the ABI bounds that carries the requested \<open>report_data\<close> and a bounded
  certificate chain, and the bytes read off the pipe were exactly the frame that \<open>encode_ok_frame\<close> makes of them; it
  started a child, and that child is dead or in custody. The restore door returns only what this fetch returns.\<close>

theorem fetched_quote_is_exact:
  assumes "fetch_quote_via_child deadline rdata f ledger = Some (Inr (report, chain), ledger')"
  shows "192 \<le> length report \<and> length report \<le> 8192 \<and> length chain \<le> 65536
    \<and> take 64 (drop 0x50 report) = rdata
    \<and> (\<exists>n. encode_ok_frame report chain = Inr (pipe_bytes (take n (fe_pipe f))))
    \<and> (\<exists>h. spawned deadline f ledger = [h]
         \<and> (Some True \<in> set (ch_waits h) \<or> (\<exists>h' \<in> set ledger'. later h h' \<and> ch_killed h')))
    \<and> fetch_quote_for_restore_inner deadline rdata f ledger = Some (Inr (report, chain), ledger')"
proof -
  obtain h reply where h: "spawned deadline f ledger = [h]" "dispose_child (fe_elapsed f) h (sweep ledger) = Some ledger'"
    and r: "read_child_reply deadline [] (fe_pipe f) = Some (Inr reply)" "validate_child_reply rdata reply = Inr (report, chain)"
    using fetch_cases [OF assms] by auto
  have q: "reply = Quote report chain" "take 64 (drop 0x50 report) = rdata"
    using r(2) by (auto simp: validate_child_reply_def report_data_from_report_def report_lens map_err_def res_simps
        split: child_reply.splits if_splits)
  obtain n where "parse_child_frame (pipe_bytes (take n (fe_pipe f))) = Inr (Complete (Quote report chain))"
    using drain_sound [OF r(1)] q(1) by auto
  note p = parse_complete_frame [OF this]
  then have "encode_ok_frame report chain = Inr (pipe_bytes (take n (fe_pipe f)))" by (simp add: encode_ok_frame_Inr)
  moreover have "Some True \<in> set (ch_waits h) \<or> (\<exists>h' \<in> set ledger'. later h h' \<and> ch_killed h')"
    using dispose_custody [OF h(2)] by (auto simp: said_exited_def)
  moreover have "fetch_quote_for_restore_inner deadline rdata f ledger = Some (Inr (report, chain), ledger')"
    using assms by (simp add: fetch_quote_for_restore_inner_def map_err_def)
  ultimately show ?thesis using p q(2) h(1) by blast
qed

text \<open>a fetch always ends. When every wait on the pipe returns (it does by the deadline), the script goes on for as
  many reads as the longest frame has bytes, and some reading of the disposition's clock is past the ten-millisecond
  grace, the fetch returns, whatever the child writes, however its bytes are split and whether or not it can be
  reaped.\<close>

theorem quote_fetch_returns:
  assumes "\<forall>t \<in> set (fe_pipe f). poll_with_deadline deadline (pt_now t) (pt_polls t) \<noteq> None"
    "MAX_QUOTE_FRAME_LEN \<le> length (filter is_chunk (fe_pipe f))" "\<exists>e \<in> set (fe_elapsed f). REAP_GRACE \<le> e"
  shows "\<exists>r ledger'. fetch_quote_via_child deadline rdata f ledger = Some (r, ledger')"
proof -
  have "read_child_reply deadline [] (fe_pipe f) \<noteq> None"
    using assms(1,2) by (intro drain_returns) (simp_all add: quote_lens)
  moreover have "dispose_child (fe_elapsed f) h ledger \<noteq> None" for h ledger
    using reap_loop_returns [OF assms(3)] by (simp add: dispose_child_def)
  ultimately have "fetch_quote_via_child_inner deadline rdata f ledger \<noteq> None"
    by (auto simp: fetch_quote_via_child_inner_def Let_def split: sum.splits)
  then show ?thesis by (auto simp: fetch_quote_via_child_def)
qed

section \<open>The budget check is exact\<close>

lemma per_attempt_Inr:
  "per_attempt_nominal_cost a b c = Inr p \<longleftrightarrow> p = a + b + c + 12000000 \<and> p \<le> DURATION_MAX"
  by (auto simp: per_attempt_nominal_cost_def duration_checked_add_def QUOTE_ATTEMPT_OVERHEAD_def REAP_GRACE_def ok_or_def
      bind_eq_Some_conv split: option.splits if_splits)

lemma boot_budget_cost_fits: "n \<le> 64 \<Longrightarrow> t \<le> 3600000000000 \<Longrightarrow> n * (3 * t + 12000000) \<le> DURATION_MAX"
proof -
  assume "n \<le> 64" "t \<le> 3600000000000"
  then have "n * (3 * t + 12000000) \<le> 64 * (3 * 3600000000000 + 12000000)" by (intro mult_le_mono) simp_all
  then show ?thesis by (simp add: DURATION_MAX_def)
qed

lemma validate_boot_budget_Inr:
  "validate_boot_budget n t overall = Inr b \<longleftrightarrow> 1 \<le> n \<and> n \<le> 64 \<and> 1000000 \<le> t \<and> t \<le> 3600000000000
     \<and> n * (3 * t + 12000000) \<le> overall
     \<and> b = \<lparr>vb_max_attempts = n, vb_per_leg_timeout = t, vb_overall_boot_budget = overall,
            vb_nominal_boot_cost = n * (3 * t + 12000000)\<rparr>"
proof (cases "1 \<le> n \<and> n \<le> 64 \<and> 1000000 \<le> t \<and> t \<le> 3600000000000")
  case True
  then have p: "per_attempt_nominal_cost t t t = Inr (3 * t + 12000000)"
    using boot_budget_cost_fits [of 1 t] by (simp add: per_attempt_Inr)
  have "duration_checked_mul (3 * t + 12000000) n = Some (n * (3 * t + 12000000))"
    using boot_budget_cost_fits [of n t] True by (simp only: duration_checked_mul_def mult.commute [of _ n] if_True)
  then show ?thesis using True p
    by (auto simp: validate_boot_budget_def MAX_BOOT_ATTEMPTS_CEILING_def MIN_BOUNDARY_BUDGET_def MAX_PER_LEG_TIMEOUT_def
        res_simps)
next
  case False
  then show ?thesis
    by (auto simp: validate_boot_budget_def MAX_BOOT_ATTEMPTS_CEILING_def MIN_BOUNDARY_BUDGET_def MAX_PER_LEG_TIMEOUT_def)
qed

section \<open>From child to parent\<close>

lemma HEX_bytes: "HEX = [0x30, 0x31, 0x32, 0x33, 0x34, 0x35, 0x36, 0x37, 0x38, 0x39, 0x61, 0x62, 0x63, 0x64, 0x65, 0x66]"
  by (simp add: HEX_def ascii_def)

lemma nib_HEX: assumes "n < 16" shows "nib (HEX ! n) = Some (of_nat n)" "HEX ! n < 0x80"
proof -
  have u: "[0..<16] = [0, 1, 2, 3, 4, 5, 6, 7, 8, 9, 10, 11, 12, 13, 14, 15 :: nat]" by (simp add: upt_rec)
  have l: "length HEX = 16" by (simp add: HEX_bytes)
  have "List.map nib HEX = List.map (\<lambda>n. Some (of_nat n)) [0..<16]" unfolding u by (simp add: HEX_bytes nib_def)
  from arg_cong [OF this, of "\<lambda>xs. xs ! n"] show "nib (HEX ! n) = Some (of_nat n)" using assms l by (simp del: upt_conv_Cons)
  have "list_all (\<lambda>x. x < 0x80) HEX" by (simp add: HEX_bytes)
  then show "HEX ! n < 0x80" using assms l by (simp add: list_all_length)
qed

lemma nibbles:
  "unat (drop_bit 4 b) < 16" "unat (b AND 0x0f) < 16" "push_bit 4 (drop_bit 4 b) OR (b AND 0x0f) = (b :: u8)"
proof -
  have "unat b < 16 * 16" using unat_less_word [of b] by simp
  then have "unat b div 16 < 16" by (rule less_mult_imp_div_less)
  moreover have "unat (drop_bit 4 b) = unat b div 2 ^ 4" by (simp only: unat_drop_bit_eq drop_bit_eq_div [where 'a = nat])
  ultimately show "unat (drop_bit 4 b) < 16" by simp
  have "b AND 0x0f \<le> 0x0f" by (rule word_and_le1)
  then show "unat (b AND 0x0f) < 16" by (simp add: word_le_nat_alt)
  show "push_bit 4 (drop_bit 4 b) OR (b AND 0x0f) = b"
  proof -
    have m: "(0x0f :: u8) = mask 4" by (simp add: mask_eq_exp_minus_1)
    show ?thesis unfolding m
      by (rule bit_word_eqI) (auto simp: bit_simps)
  qed
qed

lemma parse_hex128: "parse_nibs (hex128 d) = Some d"
  using nib_HEX nibbles by (induction d) (simp_all add: hex128_def)

lemma hex128_ascii: "\<forall>x \<in> set (hex128 d). x < 0x80"
  using nib_HEX nibbles by (auto simp: hex128_def)

lemma length_hex128: "length (hex128 d) = 2 * length d"
  by (induction d) (simp_all add: hex128_def)

lemma parse_report_data_hex: "length d = 64 \<Longrightarrow> parse_report_data_env (hex128 d) = Inr d"
  using utf8_valid_ascii [OF hex128_ascii] by (simp add: parse_report_data_env_def length_hex128 parse_hex128)

lemma child_environment_reserved:
  "child_environment spec env rdata QUOTE_CHILD_ENV = Some (ascii ''1'')"
  "child_environment spec env rdata QUOTE_CHILD_REPORT_DATA_ENV = Some (hex128 rdata)"
  by (simp_all add: child_environment_def QUOTE_CHILD_ENV_def QUOTE_CHILD_REPORT_DATA_ENV_def)

text \<open>The tracker only watches.\<close>

lemma step_tracker_fetch:
  assumes "fetch_report_with_at fs entry rdata s = (r, s')"
  shows "\<exists>step. fetch_report_with_at (step_tracker fs) entry rdata (s, NoStep) = (r, s', step)"
  using assms
  by (auto simp: fetch_report_with_at_def fetch_report_inner_with_def step_tracker_def Let_def split: prod.splits sum.splits if_splits)

lemma child_err_code_range: "child_err_code step e \<in> {2, 3, 4, 5, 6}"
  by (auto simp: child_err_code_def Let_def split: fetch_step.splits)

text \<open>A fetch that gets as far as draining its child.\<close>

definition fetch_ready :: "nat \<Rightarrow> fetch_script \<Rightarrow> abandoned_ledger \<Rightarrow> bool" where
  "fetch_ready deadline f ledger \<longleftrightarrow> (\<exists>budget. remaining_or_lapsed deadline (fe_now f) = Inr budget) \<and> \<not> fe_in_child f
     \<and> \<not> is_full (sweep ledger) \<and> (\<exists>h. fe_spawn f = Inr h) \<and> fe_getfl f \<and> fe_setfl f
     \<and> (\<exists>e \<in> set (fe_elapsed f). REAP_GRACE \<le> e) \<and> list_all (live_turn deadline) (fe_pipe f)"

lemma fetch_ready_result:
  assumes "fetch_ready deadline f ledger" "read_child_reply deadline [] (fe_pipe f) = Some (Inr reply)"
  shows "\<exists>ledger'. fetch_quote_via_child deadline rdata f ledger
    = Some (map_err relabel_pipe_lapse (validate_child_reply rdata reply), ledger')"
proof -
  obtain b h where b: "remaining_or_lapsed deadline (fe_now f) = Inr b" "fe_spawn f = Inr h"
    using assms(1) by (auto simp: fetch_ready_def)
  obtain l where "dispose_child (fe_elapsed f) h (sweep ledger) = Some l"
    using reap_loop_returns assms(1) by (fastforce simp: fetch_ready_def dispose_child_def)
  then show ?thesis using assms b
    by (simp add: fetch_quote_via_child_def fetch_quote_via_child_inner_def fetch_ready_def set_nonblock_def Let_def res_simps)
qed

lemma child_main_frame:
  assumes "length rdata = 64" "fetch_report_with_at fs (quote_child_entry_path pid) rdata (gc s) = (r, s')"
  shows "\<exists>n out. agent_quote_child_dispatch (child_environment spec env rdata) fs gc pid None s = Some ((n, out), s')
    \<and> (case r of
         Inr (report, chain) \<Rightarrow> n = 0
           \<and> encode_ok_frame report (if length chain > MAX_CERT_CHAIN_LEN then [] else chain) = Inr out
       | Inl _ \<Rightarrow> n \<in> {2..6} \<and> (\<exists>k \<in> {2, 3, 4, 5, 6}. out = encode_err_frame k))"
proof -
  from step_tracker_fetch [OF assms(2)] obtain step where st:
    "fetch_report_with_at (step_tracker fs) (quote_child_entry_path pid) rdata (gc s, NoStep) = (r, s', step)" ..
  have d: "agent_quote_child_dispatch (child_environment spec env rdata) fs gc pid None s
      = Some (quote_child_main_with fs pid rdata None (gc s))"
    using parse_report_data_hex [OF assms(1)]
    by (simp add: agent_quote_child_dispatch_def agent_quote_child_main_def child_environment_reserved res_simps)
  show ?thesis
  proof (cases r)
    case (Inl e)
    have "child_err_code step e \<in> {2, 3, 4, 5, 6}" by (rule child_err_code_range)
    then show ?thesis unfolding d using st Inl by (auto simp: quote_child_main_with_def emit_frame_def Let_def)
  next
    case (Inr q)
    obtain report chain where q: "q = (report, chain)" by fastforce
    note b = fetch_report_bounded [OF assms(2) [unfolded Inr q]]
    obtain frame where "encode_ok_frame report (if length chain > MAX_CERT_CHAIN_LEN then [] else chain) = Inr frame"
      using b by (auto simp: encode_ok_frame_Inr quote_lens)
    then show ?thesis unfolding d using st Inr q by (simp add: quote_child_main_with_def emit_frame_def Let_def)
  qed
qed

text \<open>C35: the two halves of the quote protocol agree. The parent spawns the child with the requested \<open>report_data\<close> in its
  environment, whatever else is put there; the child, run in that environment, reads it back, fetches a report for it and
  writes one frame; and a parent that drains that frame, however the pipe splits it, gets exactly the child's report and
  chain (a chain over the cap becomes empty) when the report echoes the request, the echo error when it does not, and
  one of the child's five step errors when the child's fetch failed.\<close>

theorem quote_child_roundtrip:
  assumes "length rdata = 64" "fetch_report_with_at fs (quote_child_entry_path pid) rdata (gc s) = (r, s')"
    "agent_quote_child_dispatch (child_environment spec env rdata) fs gc pid None s = Some ((n, pipe_bytes (fe_pipe f)), s')"
    "fetch_ready deadline f ledger"
  shows "\<exists>ledger'. (case r of
      Inr (report, chain) \<Rightarrow> n = 0 \<and> fetch_quote_via_child deadline rdata f ledger = Some
        (if take 64 (drop 0x50 report) = rdata then Inr (report, if length chain > 65536 then [] else chain)
         else Inl (WireProtocol ''quote child: report_data echo mismatch''), ledger')
    | Inl _ \<Rightarrow> n \<noteq> 0 \<and> (\<exists>k \<in> {2, 3, 4, 5, 6}. fetch_quote_via_child deadline rdata f ledger
        = Some (Inl (WireProtocol (child_err_str k)), ledger')))"
proof -
  have live: "list_all (live_turn deadline) (fe_pipe f)" using assms(4) by (simp add: fetch_ready_def)
  note c = child_main_frame [where gc = gc and s = s and spec = spec and env = env, OF assms(1,2), unfolded assms(3)]
  show ?thesis
  proof (cases r)
    case (Inl e)
    then obtain k where k: "k \<in> {2, 3, 4, 5, 6}" "pipe_bytes (fe_pipe f) = encode_err_frame k" "n \<in> {2..6}" using c by auto
    from fetch_ready_result [OF assms(4) drain_error [OF live k(2)], of rdata]
    have "\<exists>ledger'. fetch_quote_via_child deadline rdata f ledger = Some (Inl (WireProtocol (child_err_str k)), ledger')"
      using k(1) by (auto simp: validate_child_reply_def map_err_def relabel_pipe_lapse_def DEADLINE_LAPSED_MSG_def child_err_str_def)
    then show ?thesis using k Inl by auto
  next
    case (Inr q)
    obtain report chain where q: "q = (report, chain)" by fastforce
    let ?chain = "if length chain > MAX_CERT_CHAIN_LEN then [] else chain"
    have f: "encode_ok_frame report ?chain = Inr (pipe_bytes (fe_pipe f))" "n = 0" using c Inr q by auto
    from fetch_ready_result [OF assms(4) drain_quote [OF live f(1)], of rdata]
    show ?thesis using Inr q f fetch_report_bounded(1) [OF assms(2) [unfolded Inr q]]
      by (auto simp: validate_child_reply_def report_data_from_report_def report_lens map_err_def res_simps relabel_pipe_lapse_def
          DEADLINE_LAPSED_MSG_def MAX_CERT_CHAIN_LEN_def)
  qed
qed

text \<open>the boot budget check is exact and total. It accepts a configuration precisely when there are 1 to 64 attempts,
  a leg of one millisecond to one hour, and the overall budget covers every attempt taking all three legs and the
  12 ms overhead; the cost it records is that product, never a wrapped one, and its overflow error cannot occur. A
  configuration with leg and budget swapped is refused.\<close>

theorem boot_budget_exact:
  "(validate_boot_budget n t overall = Inr b \<longleftrightarrow> 1 \<le> n \<and> n \<le> 64 \<and> 1000000 \<le> t \<and> t \<le> 3600000000000
      \<and> n * (3 * t + 12000000) \<le> overall
      \<and> b = \<lparr>vb_max_attempts = n, vb_per_leg_timeout = t, vb_overall_boot_budget = overall,
             vb_nominal_boot_cost = n * (3 * t + 12000000)\<rparr>)
   \<and> validate_boot_budget n t overall \<noteq> Inl (WireProtocol BOOT_BUDGET_OVERFLOW_MSG)
   \<and> (validate_boot_budget n t overall = Inr b \<longrightarrow>
        (\<exists>e. validate_boot_budget n overall t = Inl e) \<and> vb_nominal_boot_cost b + budget_slack b = overall)"
proof (intro conjI impI)
  show "validate_boot_budget n t overall \<noteq> Inl (WireProtocol BOOT_BUDGET_OVERFLOW_MSG)"
  proof (cases "1 \<le> n \<and> n \<le> 64 \<and> 1000000 \<le> t \<and> t \<le> 3600000000000")
    case True
    have p: "per_attempt_nominal_cost t t t = Inr (3 * t + 12000000)"
      using boot_budget_cost_fits [of 1 t] True by (simp add: per_attempt_Inr)
    have "duration_checked_mul (3 * t + 12000000) n = Some (n * (3 * t + 12000000))"
      using boot_budget_cost_fits [of n t] True by (simp only: duration_checked_mul_def mult.commute [of _ n] if_True)
    then show ?thesis using True p by (auto simp: validate_boot_budget_def BOOT_BUDGET_OVERFLOW_MSG_def)
  qed (auto simp: validate_boot_budget_def BOOT_BUDGET_OVERFLOW_MSG_def MAX_BOOT_ATTEMPTS_CEILING_def MIN_BOUNDARY_BUDGET_def
      MAX_PER_LEG_TIMEOUT_def)
next
  assume v: "validate_boot_budget n t overall = Inr b"
  then have n: "1 \<le> n" and cost: "n * (3 * t + 12000000) \<le> overall" by (simp_all only: validate_boot_budget_Inr)
  have "3 * t + 12000000 \<le> overall" using order_trans [OF mult_le_mono1 [OF n] cost] by simp
  then have "t < overall" by simp
  have "\<not> n * (3 * overall + 12000000) \<le> t"
  proof
    assume "n * (3 * overall + 12000000) \<le> t"
    then have "3 * overall + 12000000 \<le> t" using order_trans [OF mult_le_mono1 [OF n]] by simp
    then show False using \<open>t < overall\<close> by simp
  qed
  then show "\<exists>e. validate_boot_budget n overall t = Inl e"
    using validate_boot_budget_Inr [of n overall t] by (cases "validate_boot_budget n overall t") auto
  show "vb_nominal_boot_cost b + budget_slack b = overall"
    using v unfolding validate_boot_budget_Inr by (simp add: budget_slack_def)
qed (rule validate_boot_budget_Inr)

section \<open>Samples\<close>

text \<open>A provider that signs any \<open>report_data\<close>; a wedged child; and a healthy one whose frame comes in two pieces.\<close>

definition sample_tsm :: "bytes tsm_fs" where
  "sample_tsm = \<lparr>remove_entry = (\<lambda>_ s. s), create_entry = (\<lambda>_ s. (Inr (), s)), write_inblob = (\<lambda>_ d _. (Inr (), d)),
     read_outblob = (\<lambda>_ s. (Inr (sample_report s (replicate 48 4)), s)), read_auxblob = (\<lambda>_ s. ([9], s))\<rparr>"

definition sample_turn :: "read_outcome \<Rightarrow> pipe_turn" where
  "sample_turn r = \<lparr>pt_now = 6, pt_polls = [\<lparr>po_delay = 1, po_poll = (\<lambda>_. (PollReady (Some POLLIN), 20))\<rparr>], pt_read = r\<rparr>"

definition sample_fetch :: "bool option list \<Rightarrow> pipe_turn list \<Rightarrow> fetch_script" where
  "sample_fetch waits pipe = \<lparr>fe_minted = 0, fe_now = 5, fe_in_child = False,
     fe_spawn = Inr \<lparr>ch_pid = 42, ch_waits = waits, ch_killed = False\<rparr>, fe_getfl = True, fe_setfl = True,
     fe_pipe = pipe, fe_elapsed = [0, 1200000, REAP_GRACE]\<rparr>"

definition sample_rdata :: bytes where "sample_rdata = replicate 64 3"

lemma sample_turn_live: "live_turn 5000000 (sample_turn r) \<longleftrightarrow> (case r of Chunk bs \<Rightarrow> bs \<noteq> [] | ReadErr k \<Rightarrow> k = WouldBlock \<or> k = Interrupted)"
  by (simp add: live_turn_def sample_turn_def remaining_or_lapsed_def MIN_BOUNDARY_BUDGET_def ok_or_def
      classify_pipe_revents_def POLLIN_def POLLHUP_def poll_with_deadline_def)

definition wedged :: fetch_script where
  "wedged = sample_fetch [] [\<lparr>pt_now = 6, pt_polls = [\<lparr>po_delay = 1, po_poll = (\<lambda>ms. (PollTimeout, ms * 1000000))\<rparr>,
     \<lparr>po_delay = 999000, po_poll = (\<lambda>_. (PollInterrupted, 0))\<rparr>], pt_read = Chunk []\<rparr>]"

lemma wedged_fetch:
  "fetch_quote_via_child 5000000 sample_rdata wedged []
    = Some (Inl (WireProtocol ''anchor relay: quote pipe deadline lapsed''), [\<lparr>ch_pid = 42, ch_waits = [], ch_killed = True\<rparr>])"
  by (simp add: fetch_quote_via_child_def fetch_quote_via_child_inner_def wedged_def sample_fetch_def set_nonblock_def
      remaining_or_lapsed_def MIN_BOUNDARY_BUDGET_def is_full_def ABANDONED_CHILD_BUDGET_def MAX_BOOT_ATTEMPTS_CEILING_def
      dispose_child_def try_reap_def kill_best_effort_def abandon_def REAP_GRACE_def relabel_pipe_lapse_def map_err_def poll_with_deadline_def
      poll_timeout_def)

theorem quote_children_in_custody_witness:
  "\<exists>started ledger. custody_run started ledger \<and> length started = 1 \<and> length ledger = 1
     \<and> (\<forall>h \<in> set started. Some True \<in> set (ch_waits h) \<or> (\<exists>h' \<in> set ledger. later h h'))"
proof -
  have "spawned 5000000 wedged [] = [\<lparr>ch_pid = 42, ch_waits = [], ch_killed = False\<rparr>]"
    by (simp add: spawned_def wedged_def sample_fetch_def remaining_or_lapsed_def MIN_BOUNDARY_BUDGET_def is_full_def
        ABANDONED_CHILD_BUDGET_def MAX_BOOT_ATTEMPTS_CEILING_def)
  then have "custody_run [\<lparr>ch_pid = 42, ch_waits = [], ch_killed = False\<rparr>] [\<lparr>ch_pid = 42, ch_waits = [], ch_killed = True\<rparr>]"
    using custody_fetch [OF custody_start wedged_fetch] by simp
  from this quote_children_in_custody [OF this] show ?thesis by (metis One_nat_def length_Cons list.size(3))
qed

definition sample_quote :: bytes where
  "sample_quote = quote_frame (sample_report sample_rdata (replicate 48 4)) [9]"

definition healthy :: fetch_script where
  "healthy = sample_fetch [Some False, Some True]
     [sample_turn (Chunk (take 5 sample_quote)), sample_turn (ReadErr Interrupted), sample_turn (Chunk (drop 5 sample_quote))]"

lemma healthy_pipe: "pipe_bytes (fe_pipe healthy) = sample_quote"
  by (simp add: healthy_def sample_fetch_def sample_turn_def)

lemma healthy_ready: "fetch_ready 5000000 healthy []"
proof -
  have "length sample_quote = 202" by (simp add: sample_quote_def quote_frame_def sample_report_def sample_rdata_def)
  then have "take 5 sample_quote \<noteq> []" "drop 5 sample_quote \<noteq> []" by auto
  then show ?thesis
    by (simp add: fetch_ready_def healthy_def sample_fetch_def remaining_or_lapsed_def MIN_BOUNDARY_BUDGET_def is_full_def
        ABANDONED_CHILD_BUDGET_def MAX_BOOT_ATTEMPTS_CEILING_def sample_turn_live)
qed

lemma sample_tsm_fetch:
  "fetch_report_with_at sample_tsm entry sample_rdata [] = (Inr (sample_report sample_rdata (replicate 48 4), [9]), sample_rdata)"
  by (simp add: fetch_report_with_at_def fetch_report_inner_with_def sample_tsm_def report_lens MAX_OUTBLOB_LEN_def
      sample_report_def sample_rdata_def)

lemma sample_child:
  "agent_quote_child_dispatch (child_environment spec env sample_rdata) sample_tsm (\<lambda>s. s) 42 None []
     = Some ((0, sample_quote), sample_rdata)"
proof -
  have "length sample_rdata = 64" by (simp add: sample_rdata_def)
  from child_main_frame [where gc = "\<lambda>s. s" and s = "[]" and spec = spec and env = env and fs = sample_tsm and pid = 42,
      OF this sample_tsm_fetch] show ?thesis
    by (auto simp: encode_ok_frame_Inr sample_quote_def MAX_CERT_CHAIN_LEN_def)
qed

lemma healthy_fetch:
  "\<exists>ledger. fetch_quote_via_child 5000000 sample_rdata healthy [] = Some (Inr (sample_report sample_rdata (replicate 48 4), [9]), ledger)"
proof -
  have "encode_ok_frame (sample_report sample_rdata (replicate 48 4)) [9] = Inr (pipe_bytes (fe_pipe healthy))"
    by (simp add: encode_ok_frame_Inr healthy_pipe sample_quote_def) (simp add: sample_report_def sample_rdata_def)
  from fetch_ready_result [OF healthy_ready drain_quote [OF _ this], of sample_rdata] show ?thesis
    using healthy_ready
    by (simp add: fetch_ready_def validate_child_reply_def report_data_from_report_def report_lens map_err_def res_simps
        sample_report_def sample_rdata_def)
qed

theorem fetched_quote_is_exact_witness:
  "\<exists>report chain ledger. fetch_quote_via_child 5000000 sample_rdata healthy [] = Some (Inr (report, chain), ledger)
     \<and> take 64 (drop 0x50 report) = replicate 64 3 \<and> chain = [9]"
proof -
  obtain l where "fetch_quote_via_child 5000000 sample_rdata healthy [] = Some (Inr (sample_report sample_rdata (replicate 48 4), [9]), l)"
    using healthy_fetch by blast
  with fetched_quote_is_exact [OF this] show ?thesis by (metis sample_rdata_def)
qed

theorem quote_child_roundtrip_witness:
  "\<exists>ledger. fetch_quote_via_child 5000000 sample_rdata healthy []
     = Some (Inr (sample_report sample_rdata (replicate 48 4), [9]), ledger)"
proof -
  have l: "length sample_rdata = 64" by (simp add: sample_rdata_def)
  have d: "agent_quote_child_dispatch (child_environment production_spawn Map.empty sample_rdata) sample_tsm (\<lambda>s. s) 42 None []
      = Some ((0, pipe_bytes (fe_pipe healthy)), sample_rdata)" by (simp add: sample_child healthy_pipe)
  show ?thesis
    using quote_child_roundtrip [where gc = "\<lambda>s. s" and s = "[]", OF l sample_tsm_fetch d healthy_ready]
    by (simp add: sample_report_def sample_rdata_def)
qed

theorem quote_fetch_returns_witness:
  "\<exists>r ledger. fetch_quote_via_child 5000000 sample_rdata
     (sample_fetch [] (replicate 73737 (sample_turn (Chunk [0xA1])))) [] = Some (r, ledger)"
proof (rule quote_fetch_returns)
  let ?f = "sample_fetch [] (replicate 73737 (sample_turn (Chunk [0xA1])))"
  show "\<forall>t \<in> set (fe_pipe ?f). poll_with_deadline 5000000 (pt_now t) (pt_polls t) \<noteq> None"
    by (auto simp: sample_fetch_def sample_turn_def remaining_or_lapsed_def MIN_BOUNDARY_BUDGET_def poll_with_deadline_def ok_or_def)
  show "MAX_QUOTE_FRAME_LEN \<le> length (filter is_chunk (fe_pipe ?f))"
    by (simp add: sample_fetch_def sample_turn_def is_chunk_def quote_lens filter_replicate)
  show "\<exists>e \<in> set (fe_elapsed ?f). REAP_GRACE \<le> e" by (simp add: sample_fetch_def)
qed

theorem boot_budget_exact_witness:
  "\<exists>b. validate_boot_budget 5 5000000000 82000000000 = Inr b \<and> (\<exists>e. validate_boot_budget 5 82000000000 5000000000 = Inl e)"
proof -
  let ?b = "\<lparr>vb_max_attempts = 5, vb_per_leg_timeout = 5000000000, vb_overall_boot_budget = 82000000000,
      vb_nominal_boot_cost = 75060000000\<rparr>"
  have "validate_boot_budget 5 5000000000 82000000000 = Inr ?b" using boot_budget_exact by simp
  moreover from this have "\<exists>e. validate_boot_budget 5 82000000000 5000000000 = Inl e" using boot_budget_exact by blast
  ultimately show ?thesis by blast
qed

end
