(* ===== verification/Config.thy ===== *)
theory Config
  imports Quote_Child
begin

text \<open>
  The operator's configuration: environment variables and their parsing (\<open>env_config.rs\<close>), the vsock addresses and
  ports (\<open>vsock_addr.rs\<close>), boot files (\<open>boot_input.rs\<close>). The environment is a map from names to byte strings; a
  message that \<open>format!\<close> builds is the datatype of the data it is built from.
\<close>

section \<open>Environment variables\<close>

datatype var_error = NotPresent | NotUnicode bytes

definition env_var :: "environment \<Rightarrow> string \<Rightarrow> var_error + bytes" where
  "env_var env name =
     (case env name of
        None \<Rightarrow> Inl NotPresent
      | Some v \<Rightarrow> if utf8_valid v then Inr v else Inl (NotUnicode v))"

definition var_twod :: "environment \<Rightarrow> string \<Rightarrow> string \<Rightarrow> var_error + bytes" where
  "var_twod env primary legacy =
     (case env_var env primary of
        Inr v \<Rightarrow> Inr v
      | Inl NotPresent \<Rightarrow> env_var env legacy
      | Inl e \<Rightarrow> Inl e)"

definition TWOD_HSM_VSOCK_CID :: string where "TWOD_HSM_VSOCK_CID = ''TWOD_HSM_VSOCK_CID''"
definition LEGACY_HSM_VSOCK_CID :: string where "LEGACY_HSM_VSOCK_CID = ''2D_HSM_VSOCK_CID''"
definition TWOD_HSM_VSOCK_PORT :: string where "TWOD_HSM_VSOCK_PORT = ''TWOD_HSM_VSOCK_PORT''"
definition LEGACY_HSM_VSOCK_PORT :: string where "LEGACY_HSM_VSOCK_PORT = ''2D_HSM_VSOCK_PORT''"
definition TWOD_HSM_ANCHOR_RELAY_PORT :: string where "TWOD_HSM_ANCHOR_RELAY_PORT = ''TWOD_HSM_ANCHOR_RELAY_PORT''"
definition LEGACY_HSM_ANCHOR_RELAY_PORT :: string where "LEGACY_HSM_ANCHOR_RELAY_PORT = ''2D_HSM_ANCHOR_RELAY_PORT''"
definition TWOD_HSM_ANCHOR_ENDPOINT :: string where "TWOD_HSM_ANCHOR_ENDPOINT = ''TWOD_HSM_ANCHOR_ENDPOINT''"
definition LEGACY_HSM_ANCHOR_ENDPOINT :: string where "LEGACY_HSM_ANCHOR_ENDPOINT = ''2D_HSM_ANCHOR_ENDPOINT''"
definition TWOD_HSM_PQ_SEAL_V1_ROOT_FILE :: string where "TWOD_HSM_PQ_SEAL_V1_ROOT_FILE = ''TWOD_HSM_PQ_SEAL_V1_ROOT_FILE''"
definition LEGACY_HSM_PQ_SEAL_V1_ROOT_FILE :: string where "LEGACY_HSM_PQ_SEAL_V1_ROOT_FILE = ''2D_HSM_PQ_SEAL_V1_ROOT_FILE''"
definition TWOD_HSM_ENCLAVE_MEASUREMENT_FILE :: string where
  "TWOD_HSM_ENCLAVE_MEASUREMENT_FILE = ''TWOD_HSM_ENCLAVE_MEASUREMENT_FILE''"
definition LEGACY_HSM_ENCLAVE_MEASUREMENT_FILE :: string where
  "LEGACY_HSM_ENCLAVE_MEASUREMENT_FILE = ''2D_HSM_ENCLAVE_MEASUREMENT_FILE''"
definition TWOD_HSM_AGENT_SEALED_KEYSTORE_FILE :: string where
  "TWOD_HSM_AGENT_SEALED_KEYSTORE_FILE = ''TWOD_HSM_AGENT_SEALED_KEYSTORE_FILE''"
definition LEGACY_HSM_AGENT_SEALED_KEYSTORE_FILE :: string where
  "LEGACY_HSM_AGENT_SEALED_KEYSTORE_FILE = ''2D_HSM_AGENT_SEALED_KEYSTORE_FILE''"
definition TWOD_HSM_PROVISIONING_VSOCK_PORT :: string where
  "TWOD_HSM_PROVISIONING_VSOCK_PORT = ''TWOD_HSM_PROVISIONING_VSOCK_PORT''"
definition LEGACY_HSM_PROVISIONING_VSOCK_PORT :: string where
  "LEGACY_HSM_PROVISIONING_VSOCK_PORT = ''2D_HSM_PROVISIONING_VSOCK_PORT''"
definition TWOD_HSM_OPERATOR_CA_ROOT_HEX :: string where "TWOD_HSM_OPERATOR_CA_ROOT_HEX = ''TWOD_HSM_OPERATOR_CA_ROOT_HEX''"
definition LEGACY_HSM_OPERATOR_CA_ROOT_HEX :: string where "LEGACY_HSM_OPERATOR_CA_ROOT_HEX = ''2D_HSM_OPERATOR_CA_ROOT_HEX''"
definition TWOD_HSM_TRANSPORT_ONLY_MODE :: string where "TWOD_HSM_TRANSPORT_ONLY_MODE = ''TWOD_HSM_TRANSPORT_ONLY_MODE''"
definition LEGACY_HSM_TRANSPORT_ONLY_MODE :: string where "LEGACY_HSM_TRANSPORT_ONLY_MODE = ''2D_HSM_TRANSPORT_ONLY_MODE''"
definition TWOD_HSM_PROVISIONING_MODE :: string where "TWOD_HSM_PROVISIONING_MODE = ''TWOD_HSM_PROVISIONING_MODE''"
definition LEGACY_HSM_PROVISIONING_MODE :: string where "LEGACY_HSM_PROVISIONING_MODE = ''2D_HSM_PROVISIONING_MODE''"
definition TWOD_HSM_BOOT_MAX_ATTEMPTS :: string where "TWOD_HSM_BOOT_MAX_ATTEMPTS = ''TWOD_HSM_BOOT_MAX_ATTEMPTS''"
definition LEGACY_HSM_BOOT_MAX_ATTEMPTS :: string where "LEGACY_HSM_BOOT_MAX_ATTEMPTS = ''2D_HSM_BOOT_MAX_ATTEMPTS''"
definition TWOD_HSM_BOOT_PER_LEG_TIMEOUT_MS :: string where
  "TWOD_HSM_BOOT_PER_LEG_TIMEOUT_MS = ''TWOD_HSM_BOOT_PER_LEG_TIMEOUT_MS''"
definition LEGACY_HSM_BOOT_PER_LEG_TIMEOUT_MS :: string where
  "LEGACY_HSM_BOOT_PER_LEG_TIMEOUT_MS = ''2D_HSM_BOOT_PER_LEG_TIMEOUT_MS''"
definition TWOD_HSM_BOOT_OVERALL_BUDGET_MS :: string where
  "TWOD_HSM_BOOT_OVERALL_BUDGET_MS = ''TWOD_HSM_BOOT_OVERALL_BUDGET_MS''"
definition LEGACY_HSM_BOOT_OVERALL_BUDGET_MS :: string where
  "LEGACY_HSM_BOOT_OVERALL_BUDGET_MS = ''2D_HSM_BOOT_OVERALL_BUDGET_MS''"

definition transport_only_mode_enabled :: "environment \<Rightarrow> bool" where
  "transport_only_mode_enabled env \<longleftrightarrow>
     var_twod env TWOD_HSM_TRANSPORT_ONLY_MODE LEGACY_HSM_TRANSPORT_ONLY_MODE = Inr (ascii ''1'')"

definition provisioning_mode_enabled :: "environment \<Rightarrow> bool" where
  "provisioning_mode_enabled env \<longleftrightarrow>
     var_twod env TWOD_HSM_PROVISIONING_MODE LEGACY_HSM_PROVISIONING_MODE = Inr (ascii ''1'')"

section \<open>Numbers\<close>

text \<open>\<open>str::parse\<close> for an unsigned type: an optional plus sign, then decimal digits, at least one, within the range.\<close>

definition digit :: "u8 \<Rightarrow> nat option" where
  "digit c = (if 0x30 \<le> c \<and> c \<le> 0x39 then Some (unat c - 48) else None)"

fun parse_digits :: "nat \<Rightarrow> nat \<Rightarrow> bytes \<Rightarrow> nat option" where
  "parse_digits bound acc [] = Some acc"
| "parse_digits bound acc (c # cs) =
     (case digit c of
        None \<Rightarrow> None
      | Some d \<Rightarrow> if acc * 10 + d < bound then parse_digits bound (acc * 10 + d) cs else None)"

definition parse_unsigned :: "nat \<Rightarrow> bytes \<Rightarrow> nat option" where
  "parse_unsigned bound s =
     (let s = (case s of c # cs \<Rightarrow> if c = 0x2b then cs else s | [] \<Rightarrow> s) in
      if s = [] then None else parse_digits bound 0 s)"

datatype config_error =
    NotU32 string string
  | NotU64 string string
  | NotUtf8 string string
  | VarFailed string string var_error
  | CidZero
  | PortZero
  | RelayPortZero
  | RelayIsServe nat nat
  | ProvisioningIsServe nat nat
  | ProvisioningIsRelay nat nat
  | EndpointUnset
  | EndpointUnresolvable bytes
  | EndpointNoAddress bytes

definition DEFAULT_BOOT_MAX_ATTEMPTS :: nat where "DEFAULT_BOOT_MAX_ATTEMPTS = 5"
definition DEFAULT_BOOT_PER_LEG_TIMEOUT_MS :: nat where "DEFAULT_BOOT_PER_LEG_TIMEOUT_MS = 5000"
definition BOOT_DERIVE_PER_ATTEMPT_MARGIN_MS :: nat where "BOOT_DERIVE_PER_ATTEMPT_MARGIN_MS = 1000"
definition BOOT_DERIVE_SLACK_MS :: nat where "BOOT_DERIVE_SLACK_MS = 2000"

definition env_u32_or :: "environment \<Rightarrow> string \<Rightarrow> string \<Rightarrow> nat \<Rightarrow> config_error + nat" where
  "env_u32_or env primary legacy dflt =
     (case var_twod env primary legacy of
        Inr s \<Rightarrow> if s \<noteq> [] then ok_or (NotU32 primary legacy) (parse_unsigned (2 ^ 32) s) else Inr dflt
      | Inl NotPresent \<Rightarrow> Inr dflt
      | Inl (NotUnicode _) \<Rightarrow> Inl (NotUtf8 primary legacy))"

definition env_u64_or :: "environment \<Rightarrow> string \<Rightarrow> string \<Rightarrow> nat \<Rightarrow> config_error + nat" where
  "env_u64_or env primary legacy dflt =
     (case var_twod env primary legacy of
        Inr s \<Rightarrow> if s \<noteq> [] then ok_or (NotU64 primary legacy) (parse_unsigned (2 ^ 64) s) else Inr dflt
      | Inl NotPresent \<Rightarrow> Inr dflt
      | Inl (NotUnicode _) \<Rightarrow> Inl (NotUtf8 primary legacy))"

definition u64_sat :: "nat \<Rightarrow> nat" where "u64_sat n = min n (2 ^ 64 - 1)"

definition derive_overall_budget_ms :: "nat \<Rightarrow> nat \<Rightarrow> nat" where
  "derive_overall_budget_ms max_attempts per_leg_ms =
     (let per_attempt = u64_sat (u64_sat (per_leg_ms * 3) + BOOT_DERIVE_PER_ATTEMPT_MARGIN_MS)
      in u64_sat (u64_sat (max_attempts * per_attempt) + BOOT_DERIVE_SLACK_MS))"

text \<open>\<open>Duration::from_millis\<close>.\<close>

definition from_millis :: "nat \<Rightarrow> nat" where "from_millis ms = ms * 1000000"

definition boot_budget_config_from_env :: "environment \<Rightarrow> config_error + nat \<times> nat \<times> nat" where
  "boot_budget_config_from_env env =
     res_bind (env_u32_or env TWOD_HSM_BOOT_MAX_ATTEMPTS LEGACY_HSM_BOOT_MAX_ATTEMPTS DEFAULT_BOOT_MAX_ATTEMPTS) (\<lambda>max_attempts.
     res_bind (env_u64_or env TWOD_HSM_BOOT_PER_LEG_TIMEOUT_MS LEGACY_HSM_BOOT_PER_LEG_TIMEOUT_MS
         DEFAULT_BOOT_PER_LEG_TIMEOUT_MS) (\<lambda>per_leg_ms.
     res_bind (env_u64_or env TWOD_HSM_BOOT_OVERALL_BUDGET_MS LEGACY_HSM_BOOT_OVERALL_BUDGET_MS
         (derive_overall_budget_ms max_attempts per_leg_ms)) (\<lambda>overall_ms.
     Inr (max_attempts, from_millis per_leg_ms, from_millis overall_ms))))"

section \<open>Addresses and ports (vsock_addr.rs)\<close>

definition DEFAULT_VSOCK_CID :: nat where "DEFAULT_VSOCK_CID = 4294967295"
definition DEFAULT_VSOCK_PORT :: nat where "DEFAULT_VSOCK_PORT = 5000"
definition VMADDR_CID_HOST :: nat where "VMADDR_CID_HOST = 2"
definition DEFAULT_ANCHOR_RELAY_PORT :: nat where "DEFAULT_ANCHOR_RELAY_PORT = 5001"
definition DEFAULT_PROVISIONING_VSOCK_PORT :: nat where "DEFAULT_PROVISIONING_VSOCK_PORT = 5002"

definition env_u32_twod :: "environment \<Rightarrow> string \<Rightarrow> string \<Rightarrow> nat \<Rightarrow> config_error + nat" where
  "env_u32_twod env primary legacy dflt =
     (case var_twod env primary legacy of
        Inr s \<Rightarrow> if s = [] then Inr dflt else ok_or (NotU32 primary legacy) (parse_unsigned (2 ^ 32) s)
      | Inl NotPresent \<Rightarrow> Inr dflt
      | Inl e \<Rightarrow> Inl (VarFailed primary legacy e))"

definition validate_vsock_listen_addr :: "nat \<Rightarrow> nat \<Rightarrow> config_error + nat \<times> nat" where
  "validate_vsock_listen_addr cid port =
     (if cid = 0 then Inl CidZero else if port = 0 then Inl PortZero else Inr (cid, port))"

definition serve_vsock_port_from_env :: "environment \<Rightarrow> config_error + nat" where
  "serve_vsock_port_from_env env = env_u32_twod env TWOD_HSM_VSOCK_PORT LEGACY_HSM_VSOCK_PORT DEFAULT_VSOCK_PORT"

definition vsock_listen_addr_from_env :: "environment \<Rightarrow> config_error + nat \<times> nat" where
  "vsock_listen_addr_from_env env =
     res_bind (env_u32_twod env TWOD_HSM_VSOCK_CID LEGACY_HSM_VSOCK_CID DEFAULT_VSOCK_CID) (\<lambda>cid.
     res_bind (serve_vsock_port_from_env env) (validate_vsock_listen_addr cid))"

definition validate_relay_port :: "nat \<Rightarrow> nat \<Rightarrow> config_error + nat" where
  "validate_relay_port port serve_port =
     (if port = 0 then Inl RelayPortZero
      else if port = serve_port then Inl (RelayIsServe port serve_port)
      else Inr port)"

definition anchor_relay_port_from_env :: "environment \<Rightarrow> config_error + nat" where
  "anchor_relay_port_from_env env =
     res_bind (env_u32_twod env TWOD_HSM_ANCHOR_RELAY_PORT LEGACY_HSM_ANCHOR_RELAY_PORT DEFAULT_ANCHOR_RELAY_PORT) (\<lambda>port.
     res_bind (serve_vsock_port_from_env env) (validate_relay_port port))"

definition provisioning_vsock_port_from_env :: "environment \<Rightarrow> config_error + nat" where
  "provisioning_vsock_port_from_env env =
     res_bind (env_u32_twod env TWOD_HSM_PROVISIONING_VSOCK_PORT LEGACY_HSM_PROVISIONING_VSOCK_PORT
         DEFAULT_PROVISIONING_VSOCK_PORT) (\<lambda>port.
     res_bind (serve_vsock_port_from_env env) (\<lambda>serve.
     if port = serve then Inl (ProvisioningIsServe port serve)
     else
     res_bind (env_u32_twod env TWOD_HSM_ANCHOR_RELAY_PORT LEGACY_HSM_ANCHOR_RELAY_PORT DEFAULT_ANCHOR_RELAY_PORT) (\<lambda>relay.
     if port = relay then Inl (ProvisioningIsRelay port relay) else Inr port)))"

text \<open>\<open>resolve\<close> is the bounded resolver: addresses, or an error or lapse.\<close>

definition anchor_endpoint_from_env :: "(bytes \<Rightarrow> 'a list option) \<Rightarrow> environment \<Rightarrow> config_error + 'a list" where
  "anchor_endpoint_from_env resolve env =
     (case var_twod env TWOD_HSM_ANCHOR_ENDPOINT LEGACY_HSM_ANCHOR_ENDPOINT of
        Inl _ \<Rightarrow> Inl EndpointUnset
      | Inr raw \<Rightarrow>
          if raw = [] then Inl EndpointUnset
          else res_bind (ok_or (EndpointUnresolvable raw) (resolve raw)) (\<lambda>addrs.
            if addrs = [] then Inl (EndpointNoAddress raw) else Inr addrs))"

section \<open>Boot files (boot_input.rs)\<close>

text \<open>The files of the host: the content of a path that can be opened and read, and what \<open>try_exists\<close> says.\<close>

record boot_host =
  bh_env :: environment
  bh_file :: "bytes \<Rightarrow> bytes option"
  bh_exists :: "bytes \<Rightarrow> bool option"

definition read_boot_file :: "boot_host \<Rightarrow> bytes \<Rightarrow> string \<Rightarrow> protocol_error + bytes" where
  "read_boot_file h path err_label = ok_or (PqSigningUnavailable err_label) (bh_file h path)"

definition read_boot_file_capped :: "boot_host \<Rightarrow> bytes \<Rightarrow> nat \<Rightarrow> string \<Rightarrow> protocol_error + bytes" where
  "read_boot_file_capped h path max_bytes err_label =
     ok_or (PqSigningUnavailable err_label) (map_option (take (max_bytes + 1)) (bh_file h path))"

definition trim_trailing_newlines :: "bytes \<Rightarrow> bytes" where
  "trim_trailing_newlines b = rev (dropWhile (\<lambda>c. c = 0x0a \<or> c = 0x0d) (rev b))"

definition read_boot_file_trim_trailing_newlines :: "boot_host \<Rightarrow> bytes \<Rightarrow> string \<Rightarrow> protocol_error + bytes" where
  "read_boot_file_trim_trailing_newlines h path err_label =
     res_bind (read_boot_file h path err_label) (\<lambda>b. Inr (trim_trailing_newlines b))"

section \<open>What the configuration guarantees\<close>

text \<open>Parsing inverts printing and never leaves the type.\<close>

lemma parse_digits_less: "parse_digits bound acc s = Some n \<Longrightarrow> acc < bound \<Longrightarrow> n < bound"
  by (induction bound acc s rule: parse_digits.induct) (auto split: option.splits if_splits)

lemma parse_unsigned_less: "parse_unsigned bound s = Some n \<Longrightarrow> 0 < bound \<Longrightarrow> n < bound"
  using parse_digits_less by (auto simp: parse_unsigned_def Let_def split: if_splits)

lemma parse_digits_mono: "parse_digits bound acc (xs @ ys) = Option.bind (parse_digits bound acc xs) (\<lambda>a. parse_digits bound a ys)"
  by (induction xs arbitrary: acc) (auto split: option.splits)

lemma unat_digit: "d < 10 \<Longrightarrow> unat (of_nat (48 + d) :: u8) = 48 + d"
  by (simp add: unat_of_nat take_bit_nat_eq_self del: of_nat_add)

lemma digit_byte: "d < 10 \<Longrightarrow> digit (of_nat (48 + d)) = Some d"
  using unat_digit [of d] by (simp add: digit_def word_le_nat_alt del: of_nat_add)

lemma ascii_dec_string: "ascii (dec_string n) = (if n < 10 then [of_nat (48 + n)] else ascii (dec_string (n div 10)) @ [of_nat (48 + n mod 10)])"
proof -
  have c: "(of_char (char_of m :: char) :: u8) = of_nat m" if "m < 256" for m
    using that of_nat_of_char [of "char_of m", where 'a = u8] by simp
  have "n mod 10 < 10" by simp
  then show ?thesis by (subst dec_string.simps) (simp add: ascii_def c)
qed

lemma parse_dec_digits: "n < bound \<Longrightarrow> parse_digits bound 0 (ascii (dec_string n)) = Some n"
proof (induction n rule: dec_string.induct)
  case (1 n)
  show ?case
  proof (cases "n < 10")
    case True
    then show ?thesis using 1(2) digit_byte [of n] by (subst ascii_dec_string) simp
  next
    case False
    then have "parse_digits bound 0 (ascii (dec_string (n div 10))) = Some (n div 10)"
      using 1 by (simp add: div_less_dividend order.strict_trans1 [OF div_le_dividend])
    moreover have "n div 10 * 10 + n mod 10 = n" by simp
    ultimately show ?thesis using False 1(2) digit_byte [of "n mod 10"]
      by (subst ascii_dec_string) (simp add: parse_digits_mono)
  qed
qed

lemma parse_dec_string:
  assumes "n < bound" shows "parse_unsigned bound (ascii (dec_string n)) = Some n"
proof -
  have "hd (ascii (dec_string n)) \<noteq> 0x2b \<and> ascii (dec_string n) \<noteq> []"
  proof (induction n rule: dec_string.induct)
    case (1 n)
    have "(of_nat (48 + n) :: u8) \<noteq> 0x2b" if "n < 10"
    proof
      assume "(of_nat (48 + n) :: u8) = 0x2b"
      then have "unat (of_nat (48 + n) :: u8) = 43" by (simp del: of_nat_add)
      then show False using unat_digit [OF that] by simp
    qed
    then show ?case using 1 by (subst (1 2) ascii_dec_string) (auto simp del: of_nat_add)
  qed
  then show ?thesis using parse_dec_digits [OF assms] by (cases "ascii (dec_string n)") (auto simp: parse_unsigned_def)
qed

lemma ok_or_Inr [simp]: "ok_or e x = Inr v \<longleftrightarrow> x = Some v"
  by (cases x) (simp_all add: ok_or_def)

lemma env_u32_twod_bounded: "env_u32_twod env p l d = Inr n \<Longrightarrow> d < 2 ^ 32 \<Longrightarrow> n < 2 ^ 32"
  using parse_unsigned_less [of "2 ^ 32"] by (auto simp: env_u32_twod_def split: sum.splits var_error.splits if_splits)

lemma dec_string_ascii: "\<forall>b \<in> set (ascii (dec_string n)). b < 0x80"
proof (induction n rule: dec_string.induct)
  case (1 n)
  have d: "(of_nat (48 + d) :: u8) < 0x80" if "d < 10" for d
    using unat_digit [OF that] that by (simp add: word_less_nat_alt del: of_nat_add)
  show ?case using 1 d [of n] d [of "n mod 10"] by (subst ascii_dec_string) (auto simp del: of_nat_add)
qed

lemma env_var_dec: "env name = Some (ascii (dec_string n)) \<Longrightarrow> env_var env name = Inr (ascii (dec_string n))"
  using utf8_valid_ascii [OF dec_string_ascii] by (simp add: env_var_def)

lemma dec_string_nonempty: "ascii (dec_string n) \<noteq> []"
  by (subst ascii_dec_string) simp

lemma derive_budget_exact:
  assumes "n \<le> 64" "ms \<le> 3600000"
  shows "derive_overall_budget_ms n ms = n * (ms * 3 + 1000) + 2000"
proof -
  have "n * (ms * 3 + 1000) \<le> 64 * (3600000 * 3 + 1000)" using assms by (intro mult_le_mono) simp_all
  then show ?thesis using assms
    by (simp add: derive_overall_budget_ms_def u64_sat_def Let_def BOOT_DERIVE_PER_ATTEMPT_MARGIN_MS_def BOOT_DERIVE_SLACK_MS_def min_def)
qed

lemma derived_budget_validates:
  assumes "1 \<le> n" "n \<le> 64" "1 \<le> ms" "ms \<le> 3600000"
  shows "\<exists>b. validate_boot_budget n (from_millis ms) (from_millis (derive_overall_budget_ms n ms)) = Inr b
    \<and> 2000000000 \<le> budget_slack b"
proof -
  define cost where "cost = n * (3 * (ms * 1000000) + 12000000)"
  have c: "cost + 2000000000 \<le> (n * (ms * 3 + 1000) + 2000) * 1000000"
    by (simp add: cost_def algebra_simps)
  then have "cost \<le> (n * (ms * 3 + 1000) + 2000) * 1000000"
    "2000000000 \<le> (n * (ms * 3 + 1000) + 2000) * 1000000 - cost" by linarith+
  then show ?thesis using assms
    by (simp add: validate_boot_budget_Inr derive_budget_exact [OF assms(2,4)] from_millis_def budget_slack_def cost_def
        algebra_simps)
qed

text \<open>The operator's choice of attempts and leg timeout, the overall budget left unset or empty.\<close>

definition budget_env :: "environment \<Rightarrow> nat \<Rightarrow> nat \<Rightarrow> bool" where
  "budget_env env n ms \<longleftrightarrow>
     env TWOD_HSM_BOOT_MAX_ATTEMPTS = Some (ascii (dec_string n))
     \<and> env TWOD_HSM_BOOT_PER_LEG_TIMEOUT_MS = Some (ascii (dec_string ms))
     \<and> (env TWOD_HSM_BOOT_OVERALL_BUDGET_MS = Some []
        \<or> env TWOD_HSM_BOOT_OVERALL_BUDGET_MS = None \<and> env LEGACY_HSM_BOOT_OVERALL_BUDGET_MS \<in> {None, Some []})"

lemma budget_env_parsed:
  assumes "budget_env env n ms" "n < 2 ^ 32" "ms < 2 ^ 64"
  shows "boot_budget_config_from_env env = Inr (n, from_millis ms, from_millis (derive_overall_budget_ms n ms))"
proof -
  have "var_twod env TWOD_HSM_BOOT_MAX_ATTEMPTS l = Inr (ascii (dec_string n))"
    "var_twod env TWOD_HSM_BOOT_PER_LEG_TIMEOUT_MS l = Inr (ascii (dec_string ms))" for l
    using assms(1) env_var_dec by (simp_all add: budget_env_def var_twod_def)
  moreover have "env_u64_or env TWOD_HSM_BOOT_OVERALL_BUDGET_MS LEGACY_HSM_BOOT_OVERALL_BUDGET_MS d = Inr d" for d
    using assms(1) by (auto simp: budget_env_def env_u64_or_def var_twod_def env_var_def split: if_splits)
  ultimately show ?thesis
    using parse_dec_string [OF assms(2)] parse_dec_string [OF assms(3)] dec_string_nonempty
    by (simp add: boot_budget_config_from_env_def env_u32_or_def env_u64_or_def)
qed

text \<open>What the operator has written: the variable, or the old one when it is not set at all. A number is one in decimal digits, with
  at most a plus sign before them; the default stands for a variable that is not set or empty, and for nothing else.\<close>

definition setting :: "environment \<Rightarrow> string \<Rightarrow> string \<Rightarrow> bytes option" where
  "setting env primary legacy = (case env primary of Some v \<Rightarrow> Some v | None \<Rightarrow> env legacy)"

definition dec_digit :: "nat \<Rightarrow> u8" where "dec_digit d = of_nat (48 + d)"

definition decimal :: "nat \<Rightarrow> bytes \<Rightarrow> nat \<Rightarrow> bool" where
  "decimal bound s v \<longleftrightarrow> v < bound \<and> (\<exists>ds. ds \<noteq> [] \<and> list_all (\<lambda>d. d < 10) ds \<and> v = foldl (\<lambda>a d. a * 10 + d) 0 ds
     \<and> (s = List.map dec_digit ds \<or> s = 0x2b # List.map dec_digit ds))"

definition configured :: "nat \<Rightarrow> environment \<Rightarrow> string \<Rightarrow> string \<Rightarrow> nat \<Rightarrow> nat \<Rightarrow> bool" where
  "configured bound env primary legacy dflt v \<longleftrightarrow>
     (case setting env primary legacy of None \<Rightarrow> v = dflt | Some s \<Rightarrow> if s = [] then v = dflt else decimal bound s v)"

lemma dec_digit_unat: "d < 10 \<Longrightarrow> unat (dec_digit d) = 48 + d"
  unfolding dec_digit_def by (rule unat_digit)

lemma digit_Some: "digit c = Some d \<longleftrightarrow> d < 10 \<and> c = dec_digit d"
proof
  assume a: "digit c = Some d"
  then have c: "48 \<le> unat c" "unat c \<le> 57" "d = unat c - 48" by (auto simp: digit_def word_le_nat_alt split: if_splits)
  then have "48 + d = unat c" by simp
  then show "d < 10 \<and> c = dec_digit d" using c by (simp add: dec_digit_def del: of_nat_add)
next
  assume "d < 10 \<and> c = dec_digit d"
  then show "digit c = Some d" unfolding dec_digit_def using digit_byte by blast
qed

lemma foldl_digits_ge: "(a :: nat) \<le> foldl (\<lambda>a d. a * 10 + d) a ds"
proof (induction ds arbitrary: a)
  case (Cons d ds)
  have "a \<le> a * 10 + d" by simp
  then show ?case using Cons.IH [of "a * 10 + d"] by (simp only: foldl_Cons)
qed simp

text \<open>The digits of a text, one by one.\<close>

lemma parse_digits_Some:
  "acc < bound \<Longrightarrow> parse_digits bound acc s = Some v \<Longrightarrow> v < bound
     \<and> (\<exists>ds. list_all (\<lambda>d. d < 10) ds \<and> v = foldl (\<lambda>a d. a * 10 + d) acc ds \<and> s = List.map dec_digit ds)"
proof (induction s arbitrary: acc)
  case (Cons c s)
  then obtain d where d: "digit c = Some d" "acc * 10 + d < bound" "parse_digits bound (acc * 10 + d) s = Some v"
    by (auto split: option.splits if_splits)
  from Cons.IH [OF d(2,3)] obtain ds where ds: "v < bound" "list_all (\<lambda>d. d < 10) ds"
    "v = foldl (\<lambda>a d. a * 10 + d) (acc * 10 + d) ds" "s = List.map dec_digit ds" by blast
  have "list_all (\<lambda>d. d < 10) (d # ds) \<and> v = foldl (\<lambda>a d. a * 10 + d) acc (d # ds) \<and> c # s = List.map dec_digit (d # ds)"
    using ds(2-4) d(1) digit_Some by simp
  then show ?case using ds(1) by (intro conjI exI [of _ "d # ds"]) blast+
qed simp

lemma parse_digits_digits:
  "list_all (\<lambda>d. d < 10) ds \<Longrightarrow> foldl (\<lambda>a d. a * 10 + d) acc ds < bound
     \<Longrightarrow> parse_digits bound acc (List.map dec_digit ds) = Some (foldl (\<lambda>a d. a * 10 + d) acc ds)"
proof (induction ds arbitrary: acc)
  case (Cons d ds)
  have "digit (dec_digit d) = Some d" using Cons.prems(1) digit_Some by simp
  moreover have "acc * 10 + d < bound" using Cons.prems(2) foldl_digits_ge [of "acc * 10 + d" ds] by (simp only: foldl_Cons)
  ultimately show ?case using Cons by simp
qed simp

lemma digits_not_plus: "list_all (\<lambda>d. d < 10) ds \<Longrightarrow> List.map dec_digit ds \<noteq> 0x2b # cs"
proof (cases ds)
  case (Cons d ds')
  assume "list_all (\<lambda>d. d < 10) ds"
  then have "unat (dec_digit d) = 48 + d" using Cons dec_digit_unat by simp
  then have "dec_digit d \<noteq> 0x2b" by auto
  then show ?thesis using Cons by simp
qed simp

lemma parse_digits_decimal:
  assumes "0 < bound"
  shows "parse_digits bound 0 s = Some v \<longleftrightarrow> v < bound
     \<and> (\<exists>ds. list_all (\<lambda>d. d < 10) ds \<and> v = foldl (\<lambda>a d. a * 10 + d) 0 ds \<and> s = List.map dec_digit ds)"
  using parse_digits_Some [OF assms] parse_digits_digits by blast

lemma parse_unsigned_iff:
  assumes "0 < bound" shows "parse_unsigned bound s = Some v \<longleftrightarrow> decimal bound s v"
proof -
  note p = parse_digits_decimal [OF assms, of _ v]
  consider (plus) cs where "s = 0x2b # cs" | (other) "\<forall>cs. s \<noteq> 0x2b # cs" by blast
  then show ?thesis
  proof cases
    case plus
    then have "parse_unsigned bound s = Some v \<longleftrightarrow> cs \<noteq> [] \<and> parse_digits bound 0 cs = Some v" by (auto simp: parse_unsigned_def)
    moreover have "decimal bound s v \<longleftrightarrow> cs \<noteq> [] \<and> v < bound
        \<and> (\<exists>ds. list_all (\<lambda>d. d < 10) ds \<and> v = foldl (\<lambda>a d. a * 10 + d) 0 ds \<and> cs = List.map dec_digit ds)"
      using plus digits_not_plus [of _ cs] unfolding decimal_def by (metis list.inject map_is_Nil_conv)
    ultimately show ?thesis using p by blast
  next
    case other
    then have "parse_unsigned bound s = Some v \<longleftrightarrow> s \<noteq> [] \<and> parse_digits bound 0 s = Some v"
      by (auto simp: parse_unsigned_def split: list.splits)
    moreover have "decimal bound s v \<longleftrightarrow> s \<noteq> [] \<and> v < bound
        \<and> (\<exists>ds. list_all (\<lambda>d. d < 10) ds \<and> v = foldl (\<lambda>a d. a * 10 + d) 0 ds \<and> s = List.map dec_digit ds)"
      using other unfolding decimal_def by (metis map_is_Nil_conv)
    ultimately show ?thesis using p by blast
  qed
qed

lemma decimal_utf8: "decimal bound s v \<Longrightarrow> utf8_valid s"
proof (rule utf8_valid_ascii)
  assume "decimal bound s v"
  then obtain ds where ds: "list_all (\<lambda>d. d < 10) ds" "s = List.map dec_digit ds \<or> s = 0x2b # List.map dec_digit ds"
    unfolding decimal_def by blast
  have "dec_digit d < 0x80" if "d \<in> set ds" for d
  proof -
    have d: "d < 10" using that ds(1) by (simp add: list_all_iff)
    then show ?thesis using dec_digit_unat [OF d] by (simp add: word_less_nat_alt)
  qed
  then show "\<forall>b \<in> set s. b < 0x80" using ds(2) by auto
qed

lemma var_setting:
  "var_twod env p l = (case setting env p l of None \<Rightarrow> Inl NotPresent
     | Some s \<Rightarrow> if utf8_valid s then Inr s else Inl (NotUnicode s))"
  by (auto simp: var_twod_def env_var_def setting_def split: option.splits)

lemma env_configured:
  "env_u32_or env p l d = Inr v \<longleftrightarrow> configured (2 ^ 32) env p l d v"
  "env_u64_or env p l d = Inr v \<longleftrightarrow> configured (2 ^ 64) env p l d v"
  "env_u32_twod env p l d = Inr v \<longleftrightarrow> configured (2 ^ 32) env p l d v"
  using decimal_utf8 utf8_valid_ascii [of "[]"]
  by (auto simp: env_u32_or_def env_u64_or_def env_u32_twod_def var_setting configured_def parse_unsigned_iff split: option.splits if_splits)

text \<open>C36: a configuration means what the operator has written, or is refused. The boot budget, the listen address and the two ports are
  accepted exactly when every variable they read is unset or empty, which stands for the default, or a decimal number within
  its width, with the values so written; text that is no such number is refused and never replaced by a default. What is accepted is
  in range: the address has no reserved CID or port, the relay port is not reserved and differs from the serve port, and the
  provisioning port differs from both, all within 32 bits. Any printed number of attempts from 1 to 64 and leg timeout of one
  millisecond to one hour is read back exactly, and with the overall budget left unset the derived one always passes the
  boot budget check, with two seconds or more of slack.\<close>

theorem operator_config_sound:
  "(boot_budget_config_from_env env = Inr (n, per_leg, overall) \<longleftrightarrow>
      (\<exists>ms os. configured (2 ^ 32) env TWOD_HSM_BOOT_MAX_ATTEMPTS LEGACY_HSM_BOOT_MAX_ATTEMPTS 5 n
         \<and> configured (2 ^ 64) env TWOD_HSM_BOOT_PER_LEG_TIMEOUT_MS LEGACY_HSM_BOOT_PER_LEG_TIMEOUT_MS 5000 ms
         \<and> configured (2 ^ 64) env TWOD_HSM_BOOT_OVERALL_BUDGET_MS LEGACY_HSM_BOOT_OVERALL_BUDGET_MS (derive_overall_budget_ms n ms) os
         \<and> per_leg = ms * 1000000 \<and> overall = os * 1000000))
   \<and> (vsock_listen_addr_from_env env = Inr (cid, serve) \<longleftrightarrow>
        configured (2 ^ 32) env TWOD_HSM_VSOCK_CID LEGACY_HSM_VSOCK_CID 4294967295 cid
         \<and> configured (2 ^ 32) env TWOD_HSM_VSOCK_PORT LEGACY_HSM_VSOCK_PORT 5000 serve \<and> cid \<noteq> 0 \<and> serve \<noteq> 0)
   \<and> (anchor_relay_port_from_env env = Inr relay \<longleftrightarrow>
        configured (2 ^ 32) env TWOD_HSM_ANCHOR_RELAY_PORT LEGACY_HSM_ANCHOR_RELAY_PORT 5001 relay \<and> relay \<noteq> 0
         \<and> (\<exists>s. configured (2 ^ 32) env TWOD_HSM_VSOCK_PORT LEGACY_HSM_VSOCK_PORT 5000 s \<and> relay \<noteq> s))
   \<and> (provisioning_vsock_port_from_env env = Inr prov \<longleftrightarrow>
        configured (2 ^ 32) env TWOD_HSM_PROVISIONING_VSOCK_PORT LEGACY_HSM_PROVISIONING_VSOCK_PORT 5002 prov
         \<and> (\<exists>s r. configured (2 ^ 32) env TWOD_HSM_VSOCK_PORT LEGACY_HSM_VSOCK_PORT 5000 s \<and> prov \<noteq> s
              \<and> configured (2 ^ 32) env TWOD_HSM_ANCHOR_RELAY_PORT LEGACY_HSM_ANCHOR_RELAY_PORT 5001 r \<and> prov \<noteq> r))
   \<and> (vsock_listen_addr_from_env env = Inr (cid, serve) \<longrightarrow> 0 < cid \<and> cid < 2 ^ 32 \<and> 0 < serve \<and> serve < 2 ^ 32
      \<and> (anchor_relay_port_from_env env = Inr relay \<longrightarrow> 0 < relay \<and> relay < 2 ^ 32 \<and> relay \<noteq> serve)
      \<and> (provisioning_vsock_port_from_env env = Inr prov \<longrightarrow> prov < 2 ^ 32 \<and> prov \<noteq> serve
           \<and> (anchor_relay_port_from_env env = Inr relay \<longrightarrow> prov \<noteq> relay)))
   \<and> (budget_env env n ms \<and> 1 \<le> n \<and> n \<le> 64 \<and> 1 \<le> ms \<and> ms \<le> 3600000 \<longrightarrow>
      (\<exists>overall b. boot_budget_config_from_env env = Inr (n, ms * 1000000, overall)
         \<and> validate_boot_budget n (ms * 1000000) overall = Inr b \<and> 2000000000 \<le> budget_slack b))"
proof (intro conjI)
  have det: "configured b env p l d v \<Longrightarrow> configured b env p l d w \<Longrightarrow> b = 2 ^ 32 \<Longrightarrow> v = w" for b p l d v w
    using env_configured(1) [of env p l d] by (metis sum.inject(2))
  have small: "configured (2 ^ 32) env p l d v \<Longrightarrow> d < 2 ^ 32 \<Longrightarrow> v < 2 ^ 32" for p l d v
    using env_u32_twod_bounded env_configured(3) by blast
  show "boot_budget_config_from_env env = Inr (n, per_leg, overall) \<longleftrightarrow>
      (\<exists>ms os. configured (2 ^ 32) env TWOD_HSM_BOOT_MAX_ATTEMPTS LEGACY_HSM_BOOT_MAX_ATTEMPTS 5 n
         \<and> configured (2 ^ 64) env TWOD_HSM_BOOT_PER_LEG_TIMEOUT_MS LEGACY_HSM_BOOT_PER_LEG_TIMEOUT_MS 5000 ms
         \<and> configured (2 ^ 64) env TWOD_HSM_BOOT_OVERALL_BUDGET_MS LEGACY_HSM_BOOT_OVERALL_BUDGET_MS (derive_overall_budget_ms n ms) os
         \<and> per_leg = ms * 1000000 \<and> overall = os * 1000000)"
    unfolding boot_budget_config_from_env_def res_simps env_configured DEFAULT_BOOT_MAX_ATTEMPTS_def DEFAULT_BOOT_PER_LEG_TIMEOUT_MS_def
      from_millis_def by auto
  show addr: "vsock_listen_addr_from_env env = Inr (cid, serve) \<longleftrightarrow>
        configured (2 ^ 32) env TWOD_HSM_VSOCK_CID LEGACY_HSM_VSOCK_CID 4294967295 cid
         \<and> configured (2 ^ 32) env TWOD_HSM_VSOCK_PORT LEGACY_HSM_VSOCK_PORT 5000 serve \<and> cid \<noteq> 0 \<and> serve \<noteq> 0"
    unfolding vsock_listen_addr_from_env_def serve_vsock_port_from_env_def res_simps env_configured DEFAULT_VSOCK_CID_def
      DEFAULT_VSOCK_PORT_def validate_vsock_listen_addr_def by (auto split: if_splits)
  show relay: "anchor_relay_port_from_env env = Inr relay \<longleftrightarrow>
        configured (2 ^ 32) env TWOD_HSM_ANCHOR_RELAY_PORT LEGACY_HSM_ANCHOR_RELAY_PORT 5001 relay \<and> relay \<noteq> 0
         \<and> (\<exists>s. configured (2 ^ 32) env TWOD_HSM_VSOCK_PORT LEGACY_HSM_VSOCK_PORT 5000 s \<and> relay \<noteq> s)"
    unfolding anchor_relay_port_from_env_def serve_vsock_port_from_env_def res_simps env_configured DEFAULT_ANCHOR_RELAY_PORT_def
      DEFAULT_VSOCK_PORT_def validate_relay_port_def by (auto split: if_splits)
  show prov: "provisioning_vsock_port_from_env env = Inr prov \<longleftrightarrow>
        configured (2 ^ 32) env TWOD_HSM_PROVISIONING_VSOCK_PORT LEGACY_HSM_PROVISIONING_VSOCK_PORT 5002 prov
         \<and> (\<exists>s r. configured (2 ^ 32) env TWOD_HSM_VSOCK_PORT LEGACY_HSM_VSOCK_PORT 5000 s \<and> prov \<noteq> s
              \<and> configured (2 ^ 32) env TWOD_HSM_ANCHOR_RELAY_PORT LEGACY_HSM_ANCHOR_RELAY_PORT 5001 r \<and> prov \<noteq> r)"
    unfolding provisioning_vsock_port_from_env_def serve_vsock_port_from_env_def res_simps env_configured DEFAULT_ANCHOR_RELAY_PORT_def
      DEFAULT_VSOCK_PORT_def DEFAULT_PROVISIONING_VSOCK_PORT_def by (auto split: if_splits simp: env_configured res_simps)
  show "vsock_listen_addr_from_env env = Inr (cid, serve) \<longrightarrow> 0 < cid \<and> cid < 2 ^ 32 \<and> 0 < serve \<and> serve < 2 ^ 32
      \<and> (anchor_relay_port_from_env env = Inr relay \<longrightarrow> 0 < relay \<and> relay < 2 ^ 32 \<and> relay \<noteq> serve)
      \<and> (provisioning_vsock_port_from_env env = Inr prov \<longrightarrow> prov < 2 ^ 32 \<and> prov \<noteq> serve
           \<and> (anchor_relay_port_from_env env = Inr relay \<longrightarrow> prov \<noteq> relay))"
    unfolding addr relay prov using small det by auto
  show "budget_env env n ms \<and> 1 \<le> n \<and> n \<le> 64 \<and> 1 \<le> ms \<and> ms \<le> 3600000 \<longrightarrow>
      (\<exists>overall b. boot_budget_config_from_env env = Inr (n, ms * 1000000, overall)
         \<and> validate_boot_budget n (ms * 1000000) overall = Inr b \<and> 2000000000 \<le> budget_slack b)"
    using budget_env_parsed [of env n ms] derived_budget_validates [of n ms] by (auto simp: from_millis_def)
qed

definition sample_env_vars :: environment where
  "sample_env_vars = [TWOD_HSM_BOOT_MAX_ATTEMPTS \<mapsto> ascii (dec_string 7), TWOD_HSM_BOOT_PER_LEG_TIMEOUT_MS \<mapsto> ascii (dec_string 2500)]"

theorem operator_config_sound_witness:
  "(\<exists>overall b. boot_budget_config_from_env sample_env_vars = Inr (7, 2500000000, overall)
     \<and> validate_boot_budget 7 2500000000 overall = Inr b)
   \<and> boot_budget_config_from_env (sample_env_vars(TWOD_HSM_BOOT_MAX_ATTEMPTS \<mapsto> [0x37, 0x20])) \<noteq> Inr (5, 2500000000, 82000000000)"
proof
  have "budget_env sample_env_vars 7 2500"
    by (simp add: budget_env_def sample_env_vars_def TWOD_HSM_BOOT_MAX_ATTEMPTS_def TWOD_HSM_BOOT_PER_LEG_TIMEOUT_MS_def
        TWOD_HSM_BOOT_OVERALL_BUDGET_MS_def LEGACY_HSM_BOOT_OVERALL_BUDGET_MS_def)
  then show "\<exists>overall b. boot_budget_config_from_env sample_env_vars = Inr (7, 2500000000, overall)
     \<and> validate_boot_budget 7 2500000000 overall = Inr b"
    using operator_config_sound [of sample_env_vars 7 0 0 0 0 0 0 2500] by auto
  let ?env = "sample_env_vars(TWOD_HSM_BOOT_MAX_ATTEMPTS \<mapsto> [0x37, 0x20])"
  have "parse_unsigned (2 ^ 32) [0x37, 0x20] \<noteq> Some 5" by (simp add: parse_unsigned_def digit_def)
  then have "\<not> configured (2 ^ 32) ?env TWOD_HSM_BOOT_MAX_ATTEMPTS l 5 5" for l
    by (simp add: configured_def setting_def parse_unsigned_iff)
  then show "boot_budget_config_from_env ?env \<noteq> Inr (5, 2500000000, 82000000000)"
    using operator_config_sound [of ?env 5 2500000000 82000000000 0 0 0 0 0] by blast
qed

end
