(* ===== verification/Provision.thy ===== *)
theory Provision
  imports Strict_Map Frame
begin

text \<open>
  Model of \<open>agent_provision.rs\<close> and of the ceremony driver of \<open>provision_bootstrap.rs\<close>: the wire format of the
  four provisioning messages, the provisioner's certificate, the transcript signature, the mint of the enclave's
  scope id, the sealed genesis keystore and the one-shot session.

  \<open>x509\<close> is the third-party DER parser (\<open>x509_cert\<close>): the fields of a certificate that the source reads, or
  \<open>None\<close> when it does not parse. \<open>fetch_report\<close> is the attestation hardware. The random draws are explicit.
\<close>

section \<open>Constants and errors\<close>

definition PROVISION_MAGIC :: bytes where "PROVISION_MAGIC = ascii ''2DAGPRV'' @ [0]"
definition PROVISION_WIRE_VERSION :: u8 where "PROVISION_WIRE_VERSION = 1"
definition PROVISION_DOMAIN :: bytes where "PROVISION_DOMAIN = ascii ''2d-hsm/agent-provision/v1'' @ [0]"
definition HANDSHAKE_DOMAIN :: bytes where "HANDSHAKE_DOMAIN = ascii ''2d-hsm-agent-provision-handshake-v1''"
definition MSG_M1_CHALLENGE :: u8 where "MSG_M1_CHALLENGE = 0x01"
definition MSG_M2_ATTEST :: u8 where "MSG_M2_ATTEST = 0x02"
definition MSG_M3_CONFIG :: u8 where "MSG_M3_CONFIG = 0x03"
definition MSG_M4_SEALED :: u8 where "MSG_M4_SEALED = 0x04"
definition ENVELOPE_OVERHEAD :: nat where "ENVELOPE_OVERHEAD = 10"
definition MAX_PROV_PAYLOAD_LEN :: nat where "MAX_PROV_PAYLOAD_LEN = 8192"
definition MAX_CONFIG_MAP_LEN :: nat where "MAX_CONFIG_MAP_LEN = 4096"
definition MAX_PROV_CERT_LEN :: nat where "MAX_PROV_CERT_LEN = 2048"
definition PROV_NONCE_LEN :: nat where "PROV_NONCE_LEN = 32"
definition SIG_PROV_LEN :: nat where "SIG_PROV_LEN = 64"
definition SNP_REPORT_LEN :: nat where "SNP_REPORT_LEN = 1184"

lemmas prov_consts = PROVISION_WIRE_VERSION_def MSG_M1_CHALLENGE_def MSG_M2_ATTEST_def MSG_M3_CONFIG_def
  MSG_M4_SEALED_def ENVELOPE_OVERHEAD_def MAX_PROV_PAYLOAD_LEN_def MAX_CONFIG_MAP_LEN_def MAX_PROV_CERT_LEN_def
  PROV_NONCE_LEN_def SIG_PROV_LEN_def SNP_REPORT_LEN_def

datatype provision_error =
    BadMagic | UnsupportedVersion | Malformed | TooLarge | AttestMismatch | TranscriptMismatch
  | UnauthorizedProvisioner | BadSignature | Csprng | SealFailed

section \<open>Envelope and direction\<close>

definition prov_encode_envelope :: "u8 \<Rightarrow> bytes \<Rightarrow> bytes" where
  "prov_encode_envelope msg_type payload = PROVISION_MAGIC @ [PROVISION_WIRE_VERSION, msg_type] @ payload"

definition prov_decode_envelope :: "bytes \<Rightarrow> provision_error + u8 \<times> bytes" where
  "prov_decode_envelope bs =
     (if length bs < ENVELOPE_OVERHEAD then Inl Malformed
      else if take 8 bs \<noteq> PROVISION_MAGIC then Inl BadMagic
      else if bs ! 8 \<noteq> PROVISION_WIRE_VERSION then Inl UnsupportedVersion
      else let msg_type = bs ! 9 in
        if \<not> (msg_type = MSG_M1_CHALLENGE \<or> msg_type = MSG_M2_ATTEST \<or> msg_type = MSG_M3_CONFIG
              \<or> msg_type = MSG_M4_SEALED) then Inl Malformed
        else Inr (msg_type, drop ENVELOPE_OVERHEAD bs))"

datatype handshake_step = AwaitingM1 | AwaitingM2 | AwaitingM3 | AwaitingM4 | Done

definition validate_inbound :: "handshake_step \<Rightarrow> u8 \<Rightarrow> provision_error + handshake_step" where
  "validate_inbound step t =
     (if step = AwaitingM1 \<and> t = MSG_M1_CHALLENGE then Inr AwaitingM3
      else if step = AwaitingM2 \<and> t = MSG_M2_ATTEST then Inr AwaitingM4
      else if step = AwaitingM3 \<and> t = MSG_M3_CONFIG then Inr Done
      else if step = AwaitingM4 \<and> t = MSG_M4_SEALED then Inr Done
      else Inl Malformed)"

section \<open>The four messages\<close>

record m1_challenge =
  m1_n_p :: bytes

definition encode_m1 :: "bytes \<Rightarrow> bytes" where
  "encode_m1 n_p = put_uint 5 1 @ put_uint 0 1 @ put_bytes n_p"

definition decode_m1 :: "bytes \<Rightarrow> provision_error + m1_challenge" where
  "decode_m1 payload =
     (if length payload > MAX_PROV_PAYLOAD_LEN then Inl TooLarge
      else
      res_bind (ok_or Malformed (strict_decode_map payload)) (\<lambda>m.
      if \<not> check_strict_keys m (\<lambda>k. k = 1) then Inl Malformed
      else
      res_bind (field Malformed (as_bytes_n PROV_NONCE_LEN) m 1) (\<lambda>n_p. Inr \<lparr>m1_n_p = n_p\<rparr>)))"

record m2_attest =
  m2_n_e :: bytes
  m2_report :: bytes

definition encode_m2 :: "bytes \<Rightarrow> bytes \<Rightarrow> bytes" where
  "encode_m2 n_e report = put_uint 5 2 @ put_uint 0 1 @ put_bytes n_e @ put_uint 0 2 @ put_bytes report"

definition decode_m2 :: "bytes \<Rightarrow> provision_error + m2_attest" where
  "decode_m2 payload =
     res_bind (ok_or Malformed (strict_decode_map_capped payload (of_nat MAX_MESSAGE_SIZE))) (\<lambda>m.
     if \<not> check_strict_keys m (\<lambda>k. 1 \<le> k \<and> k \<le> 2) then Inl Malformed
     else
     res_bind (field Malformed (as_bytes_n PROV_NONCE_LEN) m 1) (\<lambda>n_e.
     res_bind (field Malformed as_bytes m 2) (\<lambda>report.
     if length report \<noteq> SNP_REPORT_LEN then Inl TooLarge
     else Inr \<lparr>m2_n_e = n_e, m2_report = report\<rparr>)))"

record m3_config =
  m3_config_map_bytes :: bytes
  m3_n_p :: bytes
  m3_n_e :: bytes
  m3_report_hash :: bytes
  m3_sig_prov :: bytes
  m3_provisioner_cert :: bytes

definition decode_m3 :: "bytes \<Rightarrow> provision_error + m3_config" where
  "decode_m3 payload =
     (if length payload > MAX_PROV_PAYLOAD_LEN then Inl TooLarge
      else
      res_bind (ok_or Malformed (strict_decode_map_capped payload (of_nat MAX_PROV_PAYLOAD_LEN))) (\<lambda>m.
      if \<not> check_strict_keys m (\<lambda>k. 1 \<le> k \<and> k \<le> 6) then Inl Malformed
      else
      res_bind (field Malformed as_bytes m 1) (\<lambda>config_map_bytes.
      if length config_map_bytes > MAX_CONFIG_MAP_LEN then Inl TooLarge
      else
      res_bind (field Malformed (as_bytes_n PROV_NONCE_LEN) m 2) (\<lambda>n_p.
      res_bind (field Malformed (as_bytes_n PROV_NONCE_LEN) m 3) (\<lambda>n_e.
      res_bind (field Malformed as_bytes32 m 4) (\<lambda>report_hash.
      res_bind (field Malformed (as_bytes_n SIG_PROV_LEN) m 5) (\<lambda>sig_prov.
      res_bind (field Malformed as_bytes m 6) (\<lambda>provisioner_cert.
      if length provisioner_cert > MAX_PROV_CERT_LEN then Inl TooLarge
      else Inr \<lparr>m3_config_map_bytes = config_map_bytes, m3_n_p = n_p, m3_n_e = n_e,
             m3_report_hash = report_hash, m3_sig_prov = sig_prov,
             m3_provisioner_cert = provisioner_cert\<rparr>))))))))"

record m4_sealed =
  m4_sealed_blob :: bytes

definition encode_m4 :: "bytes \<Rightarrow> bytes" where
  "encode_m4 sealed_blob = put_uint 5 1 @ put_uint 0 1 @ put_bytes sealed_blob"

definition decode_m4 :: "bytes \<Rightarrow> provision_error + m4_sealed" where
  "decode_m4 payload =
     res_bind (ok_or Malformed (strict_decode_map_capped payload (of_nat MAX_MESSAGE_SIZE))) (\<lambda>m.
     if \<not> check_strict_keys m (\<lambda>k. k = 1) then Inl Malformed
     else
     res_bind (field Malformed as_bytes m 1) (\<lambda>sealed_blob.
     if length sealed_blob > MAX_KEYSTORE_BLOB_SIZE then Inl TooLarge
     else Inr \<lparr>m4_sealed_blob = sealed_blob\<rparr>))"

section \<open>The configuration\<close>

record provision_config =
  pc_twod_chain_id :: u64
  pc_environment_identifier :: bytes
  pc_admin_authority_pk :: bytes
  pc_recovery_authority_pk :: bytes
  pc_backup_recovery_wrapping_pubkey :: bytes
  pc_anchor_root :: bytes
  pc_fleet_scope_id :: bytes

definition encode_config_map :: "provision_config \<Rightarrow> bytes" where
  "encode_config_map cfg = put_uint 5 7
     @ put_uint 0 1 @ put_uint 0 (pc_twod_chain_id cfg)
     @ put_uint 0 2 @ put_text (pc_environment_identifier cfg)
     @ put_uint 0 3 @ put_bytes (pc_admin_authority_pk cfg)
     @ put_uint 0 4 @ put_bytes (pc_recovery_authority_pk cfg)
     @ put_uint 0 5 @ put_bytes (pc_backup_recovery_wrapping_pubkey cfg)
     @ put_uint 0 6 @ put_bytes (pc_anchor_root cfg)
     @ put_uint 0 7 @ put_bytes (pc_fleet_scope_id cfg)"

definition decode_config_map :: "bytes \<Rightarrow> provision_error + provision_config" where
  "decode_config_map bs =
     res_bind (ok_or Malformed (strict_decode_map bs)) (\<lambda>m.
     if \<not> check_strict_keys m (\<lambda>k. 1 \<le> k \<and> k \<le> 7) \<or> length m \<noteq> 7 then Inl Malformed
     else
     res_bind (field Malformed as_u64 m 1) (\<lambda>twod_chain_id.
     res_bind (field Malformed as_text m 2) (\<lambda>environment_identifier.
     if \<not> is_valid_environment_identifier environment_identifier then Inl Malformed
     else
     res_bind (field Malformed as_bytes32 m 3) (\<lambda>admin_authority_pk.
     res_bind (field Malformed as_bytes32 m 4) (\<lambda>recovery_authority_pk.
     res_bind (field Malformed as_bytes m 5) (\<lambda>backup_recovery_wrapping_pubkey.
     if length backup_recovery_wrapping_pubkey \<noteq> ML_KEM_1024_ENCAPS_KEY_LEN then Inl Malformed
     else
     res_bind (field Malformed as_bytes32 m 6) (\<lambda>anchor_root.
     res_bind (field Malformed as_bytes32 m 7) (\<lambda>fleet_scope_id.
     if fleet_scope_id = zero32 \<or> fleet_scope_id = replicate 32 0xf1 then Inl Malformed
     else Inr \<lparr>pc_twod_chain_id = twod_chain_id, pc_environment_identifier = environment_identifier,
            pc_admin_authority_pk = admin_authority_pk, pc_recovery_authority_pk = recovery_authority_pk,
            pc_backup_recovery_wrapping_pubkey = backup_recovery_wrapping_pubkey,
            pc_anchor_root = anchor_root, pc_fleet_scope_id = fleet_scope_id\<rparr>))))))))"

section \<open>The provisioner's certificate\<close>

text \<open>What the source reads of a parsed certificate. A bit string is \<open>None\<close> when its length is not a whole number of
  bytes; the extended key usages are \<open>Inl ()\<close> when the extension does not parse and \<open>Inr None\<close> when there is none.\<close>

record x509_algorithm =
  xa_oid :: "nat list"
  xa_has_parameters :: bool

record x509_certificate =
  xc_v3 :: bool
  xc_spki_algorithm :: x509_algorithm
  xc_subject_public_key :: "bytes option"
  xc_signature_algorithm :: x509_algorithm
  xc_tbs_signature :: x509_algorithm
  xc_signature :: "bytes option"
  xc_extended_key_usage :: "unit + nat list list option"

definition PROVISIONER_EKU_OID :: "nat list" where "PROVISIONER_EKU_OID = [2, 25, 209175620]"
definition ED25519_ALG_OID :: "nat list" where "ED25519_ALG_OID = [1, 3, 101, 112]"
definition ED25519_PUBKEY_LEN :: nat where "ED25519_PUBKEY_LEN = 32"

text \<open>\<open>None\<close> stands for \<open>Err(())\<close>. The long form has at most four length bytes, so its value fits \<open>usize\<close>.\<close>

definition der_head :: "bytes \<Rightarrow> (nat \<times> nat) option" where
  "der_head b =
     (if length b < 2 then None
      else let n = b ! 1 in
        if n < 0x80 then Some (2, unat n)
        else let k = unat (n AND 0x7f) in
          if k = 0 \<or> k > 4 \<or> length b < 2 + k then None
          else Some (2 + k, be_val (take k (drop 2 b))))"

definition cert_tbs_bytes :: "bytes \<Rightarrow> bytes option" where
  "cert_tbs_bytes cert_der = do {
     (outer_hdr, _) \<leftarrow> der_head cert_der;
     (tbs_hdr, tbs_len) \<leftarrow> der_head (drop outer_hdr cert_der);
     let stop = outer_hdr + tbs_hdr + tbs_len;
     if stop > length cert_der then None
     else Some (take (stop - outer_hdr) (drop outer_hdr cert_der)) }"

definition sig_alg_ok :: "x509_algorithm \<Rightarrow> bool" where
  "sig_alg_ok a \<longleftrightarrow> xa_oid a = ED25519_ALG_OID \<and> \<not> xa_has_parameters a"

definition verify_provisioner_cert :: "crypto \<Rightarrow> (bytes \<Rightarrow> x509_certificate option) \<Rightarrow> bytes \<Rightarrow> bytes
    \<Rightarrow> provision_error + bytes" where
  "verify_provisioner_cert C x509 cert_der operator_ca_root =
     res_bind (ok_or Malformed (x509 cert_der)) (\<lambda>cert.
     if \<not> xc_v3 cert then Inl Malformed
     else if xa_oid (xc_spki_algorithm cert) \<noteq> ED25519_ALG_OID \<or> xa_has_parameters (xc_spki_algorithm cert)
     then Inl Malformed
     else
     res_bind (ok_or Malformed (xc_subject_public_key cert)) (\<lambda>prov_pub.
     if length prov_pub \<noteq> ED25519_PUBKEY_LEN then Inl Malformed
     else if \<not> ed_key_ok C prov_pub then Inl Malformed
     else if \<not> sig_alg_ok (xc_signature_algorithm cert) \<or> \<not> sig_alg_ok (xc_tbs_signature cert) then Inl Malformed
     else
     res_bind (ok_or Malformed (cert_tbs_bytes cert_der)) (\<lambda>tbs_bytes.
     res_bind (ok_or Malformed (xc_signature cert)) (\<lambda>sig.
     if length sig \<noteq> 64 then Inl Malformed
     else if \<not> ed_verify_strict C operator_ca_root tbs_bytes sig then Inl UnauthorizedProvisioner
     else
     res_bind (map_err (\<lambda>_. Malformed) (xc_extended_key_usage cert)) (\<lambda>eku.
     if \<not> (case eku of None \<Rightarrow> False | Some oids \<Rightarrow> PROVISIONER_EKU_OID \<in> set oids)
     then Inl UnauthorizedProvisioner
     else Inr prov_pub)))))"

section \<open>The transcript\<close>

definition compute_report_data :: "crypto \<Rightarrow> bytes \<Rightarrow> bytes \<Rightarrow> bytes" where
  "compute_report_data C n_p n_e = sha3_512 C (HANDSHAKE_DOMAIN @ n_p @ n_e)"

definition compute_report_hash :: "crypto \<Rightarrow> bytes \<Rightarrow> bytes" where
  "compute_report_hash C report = sha3_256 C report"

definition transcript_canonical :: "bytes \<Rightarrow> bytes \<Rightarrow> bytes \<Rightarrow> bytes \<Rightarrow> bytes" where
  "transcript_canonical config_map_bytes n_p n_e report_hash = put_uint 5 4
     @ put_uint 0 1 @ put_bytes config_map_bytes
     @ put_uint 0 2 @ put_bytes n_p
     @ put_uint 0 3 @ put_bytes n_e
     @ put_uint 0 4 @ put_bytes report_hash"

definition sig_prov_signed_bytes :: "bytes \<Rightarrow> bytes \<Rightarrow> bytes \<Rightarrow> bytes \<Rightarrow> bytes" where
  "sig_prov_signed_bytes config_map_bytes n_p n_e report_hash =
     PROVISION_DOMAIN @ transcript_canonical config_map_bytes n_p n_e report_hash"

definition verify_m3_transcript_and_sig :: "crypto \<Rightarrow> m3_config \<Rightarrow> bytes \<Rightarrow> bytes \<Rightarrow> bytes \<Rightarrow> bytes
    \<Rightarrow> provision_error + unit" where
  "verify_m3_transcript_and_sig C m3 prov_pub session_n_p session_n_e session_report_hash =
     (if m3_n_p m3 \<noteq> session_n_p \<or> m3_n_e m3 \<noteq> session_n_e \<or> m3_report_hash m3 \<noteq> session_report_hash
      then Inl TranscriptMismatch
      else let signed = sig_prov_signed_bytes (m3_config_map_bytes m3) (m3_n_p m3) (m3_n_e m3) (m3_report_hash m3) in
        if \<not> ed_verify_strict C prov_pub signed (m3_sig_prov m3) then Inl BadSignature
        else Inr ())"

definition verify_m3_in_order :: "crypto \<Rightarrow> (bytes \<Rightarrow> x509_certificate option) \<Rightarrow> bytes \<Rightarrow> bytes \<Rightarrow> bytes \<Rightarrow> bytes
    \<Rightarrow> bytes \<Rightarrow> provision_error + provision_config \<times> bytes" where
  "verify_m3_in_order C x509 m3_message pinned_root session_n_p session_n_e session_report_hash =
     res_bind (prov_decode_envelope m3_message) (\<lambda>(msg_type, payload).
     if msg_type \<noteq> MSG_M3_CONFIG then Inl Malformed
     else
     res_bind (decode_m3 payload) (\<lambda>m3.
     res_bind (verify_provisioner_cert C x509 (m3_provisioner_cert m3) pinned_root) (\<lambda>prov_pub.
     res_bind (verify_m3_transcript_and_sig C m3 prov_pub session_n_p session_n_e session_report_hash) (\<lambda>_.
     res_bind (decode_config_map (m3_config_map_bytes m3)) (\<lambda>config. Inr (config, prov_pub))))))"

section \<open>Mint and seal\<close>

definition validate_minted_scope_id :: "bytes \<Rightarrow> provision_error + unit" where
  "validate_minted_scope_id i =
     (if i = zero32 \<or> i = replicate 32 0xe1 \<or> i = replicate 32 0xf1 then Inl Csprng else Inr ())"

definition mint_enclave_scope_id :: "draws \<Rightarrow> (provision_error + bytes) \<times> draws" where
  "mint_enclave_scope_id ds =
     (case getrandom ds of (d, ds) \<Rightarrow>
        (res_bind (ok_or Csprng d) (\<lambda>i. res_bind (validate_minted_scope_id i) (\<lambda>_. Inr i)), ds))"

definition build_provisioned_keystore_body :: "provision_config \<Rightarrow> bytes \<Rightarrow> keystore_body" where
  "build_provisioned_keystore_body config enclave_scope_id =
     \<lparr>kb_config =
        \<lparr>kc_twod_chain_id = pc_twod_chain_id config,
         kc_environment_identifier = pc_environment_identifier config,
         kc_admin_authority_pk = pc_admin_authority_pk config,
         kc_recovery_authority_pk = pc_recovery_authority_pk config,
         kc_backup_recovery_wrapping_pubkey = pc_backup_recovery_wrapping_pubkey config,
         kc_monotonic_treasury_config_version = 1,
         kc_authority_epoch = 0,
         kc_anchor_root = pc_anchor_root config,
         kc_enclave_scope_id = enclave_scope_id,
         kc_fleet_scope_id = pc_fleet_scope_id config\<rparr>,
      kb_entries = [], kb_counters = [],
      kb_faucet =
        \<lparr>fs_per_dispense_max_amount = zero32, fs_max_gas_limit = 0, fs_max_effective_gas_fee_rate = 0,
         fs_cumulative_native_spend = zero32, fs_lifetime_spend = zero32,
         fs_circuit_breaker_threshold = None, fs_cumulative_signing_budget = zero32\<rparr>,
      kb_audit = \<lparr>au_records = [], au_capacity = 256, au_last_exported_seq = 0, au_next_seq = 1\<rparr>,
      kb_freshness_epoch = 1, kb_structural_version = 1, kb_strict_recovery_counter = 0\<rparr>"

definition map_seal_error :: "keystore_error \<Rightarrow> provision_error" where
  "map_seal_error e = (case e of keystore_error.Csprng \<Rightarrow> Csprng | _ \<Rightarrow> SealFailed)"

definition seal_provisioned_keystore :: "crypto \<Rightarrow> serde \<Rightarrow> provision_config \<Rightarrow> bytes \<Rightarrow> bytes \<Rightarrow> bytes \<Rightarrow> draws
    \<Rightarrow> (provision_error + bytes) \<times> draws" where
  "seal_provisioned_keystore C S config enclave_scope_id provisioning_root enclave_measurement ds =
     (case validate_minted_scope_id enclave_scope_id of
        Inl e \<Rightarrow> (Inl e, ds)
      | Inr _ \<Rightarrow>
          (case seal_body_rng C S (build_provisioned_keystore_body config enclave_scope_id)
              provisioning_root enclave_measurement ds of
             (r, ds) \<Rightarrow> (map_err map_seal_error r, ds)))"

section \<open>The session\<close>

datatype session_state = AwaitingM1 | AwaitingM3 | Done | Failed

record provision_session =
  ps_pinned_root :: bytes
  ps_seal_root :: bytes
  ps_measurement :: bytes
  ps_n_p :: "bytes option"
  ps_n_e :: "bytes option"
  ps_state :: session_state

definition new_session :: "bytes \<Rightarrow> bytes \<Rightarrow> bytes \<Rightarrow> provision_session" where
  "new_session pinned_root seal_root measurement =
     \<lparr>ps_pinned_root = pinned_root, ps_seal_root = seal_root, ps_measurement = measurement,
      ps_n_p = None, ps_n_e = None, ps_state = AwaitingM1\<rparr>"

definition on_m1 :: "crypto \<Rightarrow> bytes \<Rightarrow> draws \<Rightarrow> provision_session
    \<Rightarrow> (provision_error + bytes \<times> bytes) \<times> draws \<times> provision_session" where
  "on_m1 C n_p ds s =
     (if ps_state s \<noteq> AwaitingM1 then (Inl Malformed, ds, s)
      else (case getrandom ds of
          (None, ds) \<Rightarrow> (Inl Csprng, ds, s)
        | (Some n_e, ds) \<Rightarrow>
            (Inr (n_e, compute_report_data C n_p n_e), ds,
             s\<lparr>ps_n_p := Some n_p, ps_n_e := Some n_e, ps_state := AwaitingM3\<rparr>)))"

text \<open>The verify, mint and seal closure of \<open>on_m3\<close>.\<close>

definition provision_outcome :: "crypto \<Rightarrow> serde \<Rightarrow> (bytes \<Rightarrow> x509_certificate option) \<Rightarrow> provision_session
    \<Rightarrow> bytes \<Rightarrow> bytes \<Rightarrow> bytes \<Rightarrow> bytes \<Rightarrow> draws \<Rightarrow> (provision_error + provision_config \<times> bytes) \<times> draws" where
  "provision_outcome C S x509 s m3_message n_p n_e report_hash ds =
     (case verify_m3_in_order C x509 m3_message (ps_pinned_root s) n_p n_e report_hash of
        Inl e \<Rightarrow> (Inl e, ds)
      | Inr (config, _) \<Rightarrow>
          (case mint_enclave_scope_id ds of
             (Inl e, ds) \<Rightarrow> (Inl e, ds)
           | (Inr scope_id, ds) \<Rightarrow>
               (case seal_provisioned_keystore C S config scope_id (ps_seal_root s) (ps_measurement s) ds of
                  (Inl e, ds) \<Rightarrow> (Inl e, ds)
                | (Inr sealed, ds) \<Rightarrow> (Inr (config, sealed), ds))))"

text \<open>The outer \<open>None\<close> is the panic of \<open>expect("AwaitingM3 ..")\<close>.\<close>

definition on_m3 :: "crypto \<Rightarrow> serde \<Rightarrow> (bytes \<Rightarrow> x509_certificate option) \<Rightarrow> bytes \<Rightarrow> bytes \<Rightarrow> draws
    \<Rightarrow> provision_session
    \<Rightarrow> ((provision_error + provision_config \<times> bytes) \<times> draws \<times> provision_session) option" where
  "on_m3 C S x509 m3_message report ds s =
     (if ps_state s \<noteq> AwaitingM3 then Some (Inl Malformed, ds, s)
      else do {
        n_p \<leftarrow> ps_n_p s;
        n_e \<leftarrow> ps_n_e s;
        let report_hash = compute_report_hash C report;
        let (outcome, ds) = provision_outcome C S x509 s m3_message n_p n_e report_hash ds;
        Some (outcome, ds, s\<lparr>ps_state := (case outcome of Inr _ \<Rightarrow> Done | Inl _ \<Rightarrow> Failed)\<rparr>) })"

section \<open>The decoders accept exactly the encodings\<close>

lemma m1_map: "encode_m1 n = enc_value (CMap (field_map [CBytes n]))"
  unfolding enc_field_map by (simp add: encode_m1_def enumerate_simps)

lemma m2_map: "encode_m2 n r = enc_value (CMap (field_map [CBytes n, CBytes r]))"
  unfolding enc_field_map by (simp add: encode_m2_def enumerate_simps)

lemma m4_map: "encode_m4 b = enc_value (CMap (field_map [CBytes b]))"
  unfolding enc_field_map by (simp add: encode_m4_def enumerate_simps)

definition config_values :: "provision_config \<Rightarrow> cbor_value list" where
  "config_values c = [CInteger (uint (pc_twod_chain_id c)), CText (pc_environment_identifier c),
     CBytes (pc_admin_authority_pk c), CBytes (pc_recovery_authority_pk c),
     CBytes (pc_backup_recovery_wrapping_pubkey c), CBytes (pc_anchor_root c), CBytes (pc_fleet_scope_id c)]"

lemma config_map: "encode_config_map c = enc_value (CMap (field_map (config_values c)))"
  unfolding enc_field_map by (simp add: encode_config_map_def config_values_def enumerate_simps)

lemma transcript_map: "transcript_canonical c p e h = enc_value (CMap (field_map [CBytes c, CBytes p, CBytes e, CBytes h]))"
  unfolding enc_field_map by (simp add: transcript_canonical_def enumerate_simps)

text \<open>The encoding of an M3 payload; the enclave only reads this message.\<close>

definition m3_values :: "m3_config \<Rightarrow> cbor_value list" where
  "m3_values r = [CBytes (m3_config_map_bytes r), CBytes (m3_n_p r), CBytes (m3_n_e r),
     CBytes (m3_report_hash r), CBytes (m3_sig_prov r), CBytes (m3_provisioner_cert r)]"

definition m3_payload :: "m3_config \<Rightarrow> bytes" where
  "m3_payload r = enc_value (CMap (field_map (m3_values r)))"

definition m3_ok :: "m3_config \<Rightarrow> bool" where
  "m3_ok r \<longleftrightarrow> length (m3_config_map_bytes r) \<le> 4096 \<and> length (m3_n_p r) = 32 \<and> length (m3_n_e r) = 32
     \<and> length (m3_report_hash r) = 32 \<and> length (m3_sig_prov r) = 64 \<and> length (m3_provisioner_cert r) \<le> 2048
     \<and> length (m3_payload r) \<le> 8192"

definition provision_config_ok :: "provision_config \<Rightarrow> bool" where
  "provision_config_ok c \<longleftrightarrow> is_valid_environment_identifier (pc_environment_identifier c)
     \<and> length (pc_admin_authority_pk c) = 32 \<and> length (pc_recovery_authority_pk c) = 32
     \<and> length (pc_backup_recovery_wrapping_pubkey c) = 1568 \<and> length (pc_anchor_root c) = 32
     \<and> length (pc_fleet_scope_id c) = 32
     \<and> pc_fleet_scope_id c \<noteq> zero32 \<and> pc_fleet_scope_id c \<noteq> replicate 32 0xf1"

lemma decode_m1_exact:
  "decode_m1 payload = Inr r \<longleftrightarrow> length (m1_n_p r) = 32 \<and> payload = encode_m1 (m1_n_p r)"
proof
  assume d: "decode_m1 payload = Inr r"
  then obtain m where m: "strict_decode_map_capped payload 4096 = Some m" "check_strict_keys m (\<lambda>k. k = 1)"
    "map_get m 1 = Some (CBytes (m1_n_p r))" "length (m1_n_p r) = 32"
    by (auto simp: decode_m1_def res_simps as_bytes_n_Some strict_decode_map_def MAX_STR_LEN_def prov_consts split: if_splits)
  have "\<forall>i \<in> {1..1}. map_get m (of_nat i) \<noteq> None" unfolding keys_upto by (simp add: m)
  then obtain vs where "length vs = 1" "m = field_map vs" "payload = enc_value (CMap (field_map vs))"
    using decoded_fields [OF m(1), of 1] m(2) by (auto simp: single_key simp del: enc_value.simps canon_value.simps)
  with m show "length (m1_n_p r) = 32 \<and> payload = encode_m1 (m1_n_p r)"
    by (auto simp: length_1_iff fields_at m1_map simp del: enc_value.simps canon_value.simps)
next
  assume r: "length (m1_n_p r) = 32 \<and> payload = encode_m1 (m1_n_p r)"
  then have "length payload \<le> 8192"
    using length_put_uint [of 5 1] length_put_uint [of 0 1] length_put_uint [of 2 32] by (simp add: encode_m1_def put_bytes_def)
  with r show "decode_m1 payload = Inr r"
    using decode_fields [of "[CBytes (m1_n_p r)]" 4096]
    by (simp add: decode_m1_def m1_map single_key strict_decode_map_def MAX_STR_LEN_def prov_consts field_def fields_at
        as_bytes_n_Some del: enc_value.simps canon_value.simps)
qed

lemma decode_m2_exact:
  "decode_m2 payload = Inr r \<longleftrightarrow> length (m2_n_e r) = 32 \<and> length (m2_report r) = 1184
     \<and> payload = encode_m2 (m2_n_e r) (m2_report r)"
proof
  assume d: "decode_m2 payload = Inr r"
  then obtain m where m: "strict_decode_map_capped payload 1048576 = Some m" "check_strict_keys m (\<lambda>k. 1 \<le> k \<and> k \<le> 2)"
    "map_get m 1 = Some (CBytes (m2_n_e r))" "length (m2_n_e r) = 32"
    "map_get m 2 = Some (CBytes (m2_report r))" "length (m2_report r) = 1184"
    by (auto simp: decode_m2_def res_simps as_bytes_n_Some MAX_MESSAGE_SIZE_def prov_consts split: if_splits)
  have "\<forall>i \<in> {1..2}. map_get m (of_nat i) \<noteq> None" unfolding keys_upto by (simp add: m)
  then obtain vs where "length vs = 2" "m = field_map vs" "payload = enc_value (CMap (field_map vs))"
    using decoded_fields [OF m(1), of 2] m(2) by (auto simp del: enc_value.simps canon_value.simps)
  with m show "length (m2_n_e r) = 32 \<and> length (m2_report r) = 1184 \<and> payload = encode_m2 (m2_n_e r) (m2_report r)"
    by (auto simp: length_2_iff fields_at m2_map simp del: enc_value.simps canon_value.simps)
next
  assume r: "length (m2_n_e r) = 32 \<and> length (m2_report r) = 1184 \<and> payload = encode_m2 (m2_n_e r) (m2_report r)"
  then show "decode_m2 payload = Inr r"
    using decode_fields [of "[CBytes (m2_n_e r), CBytes (m2_report r)]" 1048576]
    by (simp add: decode_m2_def m2_map MAX_MESSAGE_SIZE_def prov_consts field_def fields_at
        as_bytes_n_Some as_bytes_def del: enc_value.simps canon_value.simps)
qed

lemma decode_m4_exact:
  "decode_m4 payload = Inr r \<longleftrightarrow> length (m4_sealed_blob r) \<le> MAX_KEYSTORE_BLOB_SIZE
     \<and> payload = encode_m4 (m4_sealed_blob r)"
proof
  assume d: "decode_m4 payload = Inr r"
  then obtain m where m: "strict_decode_map_capped payload 1048576 = Some m" "check_strict_keys m (\<lambda>k. k = 1)"
    "map_get m 1 = Some (CBytes (m4_sealed_blob r))" "length (m4_sealed_blob r) \<le> MAX_KEYSTORE_BLOB_SIZE"
    by (auto simp: decode_m4_def res_simps MAX_MESSAGE_SIZE_def prov_consts split: if_splits)
  have "\<forall>i \<in> {1..1}. map_get m (of_nat i) \<noteq> None" unfolding keys_upto by (simp add: m)
  then obtain vs where "length vs = 1" "m = field_map vs" "payload = enc_value (CMap (field_map vs))"
    using decoded_fields [OF m(1), of 1] m(2) by (auto simp: single_key simp del: enc_value.simps canon_value.simps)
  with m show "length (m4_sealed_blob r) \<le> MAX_KEYSTORE_BLOB_SIZE \<and> payload = encode_m4 (m4_sealed_blob r)"
    by (auto simp: length_1_iff fields_at m4_map simp del: enc_value.simps canon_value.simps)
next
  assume r: "length (m4_sealed_blob r) \<le> MAX_KEYSTORE_BLOB_SIZE \<and> payload = encode_m4 (m4_sealed_blob r)"
  then have "length (m4_sealed_blob r) \<le> 1048576"
    by (simp add: MAX_KEYSTORE_BLOB_SIZE_def MAX_MESSAGE_SIZE_def KEYSTORE_FRAMING_RESERVE_def)
  with r show "decode_m4 payload = Inr r"
    using decode_fields [of "[CBytes (m4_sealed_blob r)]" 1048576]
    by (simp add: decode_m4_def m4_map single_key MAX_MESSAGE_SIZE_def field_def fields_at
        as_bytes_def del: enc_value.simps canon_value.simps)
qed

lemma decode_m3_exact: "decode_m3 payload = Inr r \<longleftrightarrow> m3_ok r \<and> payload = m3_payload r"
proof
  assume d: "decode_m3 payload = Inr r"
  then obtain m where m: "strict_decode_map_capped payload 8192 = Some m" "check_strict_keys m (\<lambda>k. 1 \<le> k \<and> k \<le> 6)"
    "map_get m 1 = Some (CBytes (m3_config_map_bytes r))" "map_get m 2 = Some (CBytes (m3_n_p r))"
    "map_get m 3 = Some (CBytes (m3_n_e r))" "map_get m 4 = Some (CBytes (m3_report_hash r))"
    "map_get m 5 = Some (CBytes (m3_sig_prov r))" "map_get m 6 = Some (CBytes (m3_provisioner_cert r))"
    and len: "length (m3_config_map_bytes r) \<le> 4096" "length (m3_n_p r) = 32" "length (m3_n_e r) = 32"
     "length (m3_report_hash r) = 32" "length (m3_sig_prov r) = 64" "length (m3_provisioner_cert r) \<le> 2048"
     "length payload \<le> 8192"
    by (auto simp: decode_m3_def res_simps as_bytes_n_Some as_bytes32_def prov_consts split: if_splits)
  have "\<forall>i \<in> {1..6}. map_get m (of_nat i) \<noteq> None" unfolding keys_upto by (simp add: m)
  then obtain vs where "length vs = 6" "m = field_map vs" "payload = enc_value (CMap (field_map vs))"
    using decoded_fields [OF m(1), of 6] m(2) by (auto simp del: enc_value.simps canon_value.simps)
  with m have "payload = m3_payload r"
    by (auto simp: length_6_iff fields6_at m3_payload_def m3_values_def simp del: enc_value.simps canon_value.simps)
  with len show "m3_ok r \<and> payload = m3_payload r" by (simp add: m3_ok_def)
next
  assume r: "m3_ok r \<and> payload = m3_payload r"
  then show "decode_m3 payload = Inr r"
    using decode_fields [of "m3_values r" 8192]
    by (simp add: decode_m3_def m3_payload_def m3_values_def m3_ok_def prov_consts field_def fields6_at
        as_bytes_n_Some as_bytes32_def as_bytes_def del: enc_value.simps canon_value.simps)
qed

lemma decode_config_exact:
  "decode_config_map bs = Inr c \<longleftrightarrow> provision_config_ok c \<and> bs = encode_config_map c"
proof
  assume d: "decode_config_map bs = Inr c"
  then obtain m where m: "strict_decode_map_capped bs 4096 = Some m" "check_strict_keys m (\<lambda>k. 1 \<le> k \<and> k \<le> 7)"
    "length m = 7" "map_get m 1 = Some (CInteger (uint (pc_twod_chain_id c)))"
    "map_get m 2 = Some (CText (pc_environment_identifier c))"
    "map_get m 3 = Some (CBytes (pc_admin_authority_pk c))" "map_get m 4 = Some (CBytes (pc_recovery_authority_pk c))"
    "map_get m 5 = Some (CBytes (pc_backup_recovery_wrapping_pubkey c))"
    "map_get m 6 = Some (CBytes (pc_anchor_root c))" "map_get m 7 = Some (CBytes (pc_fleet_scope_id c))"
    and ok: "provision_config_ok c"
    by (auto simp: decode_config_map_def res_simps as_bytes_n_Some as_bytes32_def as_u64_Some strict_decode_map_def
        MAX_STR_LEN_def ML_KEM_1024_ENCAPS_KEY_LEN_def provision_config_ok_def split: if_splits)
  then obtain vs where "length vs = 7" "m = field_map vs" "bs = enc_value (CMap (field_map vs))"
    using decoded_fields [OF m(1), of 7] m(2) by (auto simp del: enc_value.simps)
  with m have "bs = encode_config_map c"
    by (auto simp: length_7_iff fields7_at config_map config_values_def simp del: enc_value.simps)
  with ok show "provision_config_ok c \<and> bs = encode_config_map c" by simp
next
  assume r: "provision_config_ok c \<and> bs = encode_config_map c"
  then have "\<forall>v \<in> set (config_values c). canon_value v 4096 2"
    using valid_env_utf8 [of "pc_environment_identifier c"] uint_lt2p [of "pc_twod_chain_id c"]
    by (auto simp: config_values_def provision_config_ok_def MAX_CBOR_DEPTH_def intro: order_trans [of _ 0])
  with r show "decode_config_map bs = Inr c"
    using decode_fields [of "config_values c" 4096]
    by (simp add: decode_config_map_def config_map config_values_def provision_config_ok_def field_def fields7_at
        as_bytes32_def as_bytes_def as_u64_Some as_text_def strict_decode_map_def MAX_STR_LEN_def
        ML_KEM_1024_ENCAPS_KEY_LEN_def del: enc_value.simps canon_value.simps)
qed

lemma prov_envelope_exact:
  "prov_decode_envelope bs = Inr (t, p) \<longleftrightarrow> t \<in> {1, 2, 3, 4} \<and> bs = prov_encode_envelope t p"
proof
  assume d: "prov_decode_envelope bs = Inr (t, p)"
  then have "10 \<le> length bs" "take 8 bs = PROVISION_MAGIC" "bs ! 8 = 1" "t = bs ! 9" "t \<in> {1, 2, 3, 4}" "p = drop 10 bs"
    by (auto simp: prov_decode_envelope_def prov_consts Let_def not_less split: if_splits)
  moreover from this have "drop 8 bs = bs ! 8 # bs ! 9 # drop 10 bs"
    using Cons_nth_drop_Suc [of 8 bs] Cons_nth_drop_Suc [of 9 bs] by simp
  then have "bs = take 8 bs @ bs ! 8 # bs ! 9 # drop 10 bs" by (metis append_take_drop_id)
  ultimately show "t \<in> {1, 2, 3, 4} \<and> bs = prov_encode_envelope t p"
    by (simp add: prov_encode_envelope_def prov_consts)
qed (auto simp: prov_decode_envelope_def prov_encode_envelope_def PROVISION_MAGIC_def prov_consts nth_append)

lemma transcript_inj:
  assumes "sig_prov_signed_bytes c p e h = sig_prov_signed_bytes c' p' e' h'"
    and "\<forall>b \<in> {c, p, e, h, c', p', e', h'}. length b < 2 ^ 63"
  shows "c = c' \<and> p = p' \<and> e = e' \<and> h = h'"
proof -
  let ?v = "[CBytes c, CBytes p, CBytes e, CBytes h]" and ?w = "[CBytes c', CBytes p', CBytes e', CBytes h']"
  have "enc_value (CMap (field_map ?v)) @ [] = enc_value (CMap (field_map ?w)) @ []"
    using assms(1) by (simp add: sig_prov_signed_bytes_def transcript_map del: enc_value.simps)
  moreover have "canon_value (CMap (field_map ?v)) 9223372036854775808 1" "canon_value (CMap (field_map ?w)) 9223372036854775808 1"
    by (subst field_map_canon; use assms(2) in \<open>simp del: canon_value.simps\<close>)+
  ultimately have "CMap (field_map ?v) = CMap (field_map ?w)" using item.prefix_free by blast
  then have "map snd (field_map ?v) = map snd (field_map ?w)" by simp
  then show ?thesis by simp
qed

section \<open>What a successful M3 has shown\<close>

text \<open>A leaf certificate issued by the pinned root for a provisioner with this key.\<close>

definition provisioner_leaf :: "crypto \<Rightarrow> (bytes \<Rightarrow> x509_certificate option) \<Rightarrow> bytes \<Rightarrow> bytes \<Rightarrow> bytes \<Rightarrow> bool" where
  "provisioner_leaf C x509 root cert_der prov_pub \<longleftrightarrow>
     (\<exists>cert tbs sig oids. x509 cert_der = Some cert \<and> xc_v3 cert
        \<and> xa_oid (xc_spki_algorithm cert) = ED25519_ALG_OID \<and> \<not> xa_has_parameters (xc_spki_algorithm cert)
        \<and> xc_subject_public_key cert = Some prov_pub \<and> length prov_pub = 32 \<and> ed_key_ok C prov_pub
        \<and> sig_alg_ok (xc_signature_algorithm cert) \<and> sig_alg_ok (xc_tbs_signature cert)
        \<and> cert_tbs_bytes cert_der = Some tbs \<and> xc_signature cert = Some sig \<and> length sig = 64
        \<and> ed_verify_strict C root tbs sig
        \<and> xc_extended_key_usage cert = Inr (Some oids) \<and> PROVISIONER_EKU_OID \<in> set oids)"

lemma verify_provisioner_cert_Inr:
  "verify_provisioner_cert C x509 cert_der root = Inr pub \<longleftrightarrow> provisioner_leaf C x509 root cert_der pub"
proof
  show "verify_provisioner_cert C x509 cert_der root = Inr pub \<Longrightarrow> provisioner_leaf C x509 root cert_der pub"
    by (auto simp: verify_provisioner_cert_def provisioner_leaf_def res_simps ED25519_PUBKEY_LEN_def
        split: option.splits)
  show "provisioner_leaf C x509 root cert_der pub \<Longrightarrow> verify_provisioner_cert C x509 cert_der root = Inr pub"
    by (auto simp: verify_provisioner_cert_def provisioner_leaf_def ED25519_PUBKEY_LEN_def)
qed

text \<open>What the provisioner has signed for one session: the encoded configuration, both nonces and the report hash.\<close>

lemma verify_m3_Inr:
  "verify_m3_in_order C x509 msg root n_p n_e h = Inr (config, pub) \<longleftrightarrow>
     (\<exists>m3. msg = prov_encode_envelope MSG_M3_CONFIG (m3_payload m3) \<and> m3_ok m3
        \<and> provisioner_leaf C x509 root (m3_provisioner_cert m3) pub
        \<and> m3_n_p m3 = n_p \<and> m3_n_e m3 = n_e \<and> m3_report_hash m3 = h
        \<and> ed_verify_strict C pub (sig_prov_signed_bytes (encode_config_map config) n_p n_e h) (m3_sig_prov m3)
        \<and> provision_config_ok config \<and> m3_config_map_bytes m3 = encode_config_map config)"
  (is "?l \<longleftrightarrow> ?r")
proof
  show "?l \<Longrightarrow> ?r"
    by (auto simp: verify_m3_in_order_def res_simps prov_envelope_exact decode_m3_exact decode_config_exact
        verify_provisioner_cert_Inr verify_m3_transcript_and_sig_def Let_def prov_consts)
next
  assume ?r
  then obtain m3 where m3: "msg = prov_encode_envelope MSG_M3_CONFIG (m3_payload m3)" "m3_ok m3"
      "provisioner_leaf C x509 root (m3_provisioner_cert m3) pub"
      "m3_n_p m3 = n_p" "m3_n_e m3 = n_e" "m3_report_hash m3 = h"
      "ed_verify_strict C pub (sig_prov_signed_bytes (encode_config_map config) n_p n_e h) (m3_sig_prov m3)"
      "provision_config_ok config" "m3_config_map_bytes m3 = encode_config_map config" by blast
  have "prov_decode_envelope msg = Inr (MSG_M3_CONFIG, m3_payload m3)"
    using m3(1) by (simp add: prov_envelope_exact prov_consts)
  moreover have "decode_m3 (m3_payload m3) = Inr m3" using m3(2) by (simp add: decode_m3_exact)
  moreover have "verify_provisioner_cert C x509 (m3_provisioner_cert m3) root = Inr pub"
    using m3(3) by (simp add: verify_provisioner_cert_Inr)
  moreover have "decode_config_map (m3_config_map_bytes m3) = Inr config"
    using m3(8,9) by (simp add: decode_config_exact)
  ultimately show ?l using m3(4-7,9) by (simp add: verify_m3_in_order_def verify_m3_transcript_and_sig_def)
qed

lemma mint_Inr:
  "mint_enclave_scope_id ds = (Inr i, ds') \<longleftrightarrow>
     getrandom ds = (Some i, ds') \<and> i \<noteq> zero32 \<and> i \<noteq> replicate 32 0xe1 \<and> i \<noteq> replicate 32 0xf1"
  by (auto simp: mint_enclave_scope_id_def validate_minted_scope_id_def res_simps split: prod.splits if_splits)

lemma seal_provisioned_Inr:
  assumes "seal_provisioned_keystore C S config i root meas ds = (Inr sealed, ds')"
  shows "\<exists>n. Some n \<in> set ds
    \<and> seal_body C S (build_provisioned_keystore_body config i) root meas (Some (take NONCE_LEN n)) = Inr sealed"
proof -
  obtain r where "seal_body_rng C S (build_provisioned_keystore_body config i) root meas ds = (r, ds')"
    and "map_err map_seal_error r = Inr sealed"
    using assms by (auto simp: seal_provisioned_keystore_def split: sum.splits prod.splits)
  then show ?thesis using seal_body_rng_Inr by (auto simp: res_simps)
qed

lemma provision_outcome_Inr:
  assumes "provision_outcome C S x509 s msg n_p n_e h ds = (Inr (config, sealed), ds')"
  shows "\<exists>pub i n. verify_m3_in_order C x509 msg (ps_pinned_root s) n_p n_e h = Inr (config, pub)
    \<and> Some i \<in> set ds \<and> Some n \<in> set ds \<and> i \<noteq> zero32 \<and> i \<noteq> replicate 32 0xe1 \<and> i \<noteq> replicate 32 0xf1
    \<and> seal_body C S (build_provisioned_keystore_body config i) (ps_seal_root s) (ps_measurement s)
        (Some (take NONCE_LEN n)) = Inr sealed"
proof -
  obtain pub where v: "verify_m3_in_order C x509 msg (ps_pinned_root s) n_p n_e h = Inr (config, pub)"
    and i: "\<exists>i ds1. mint_enclave_scope_id ds = (Inr i, ds1)
      \<and> seal_provisioned_keystore C S config i (ps_seal_root s) (ps_measurement s) ds1 = (Inr sealed, ds')"
    using assms by (auto simp: provision_outcome_def split: sum.splits prod.splits)
  then obtain i ds1 where i: "mint_enclave_scope_id ds = (Inr i, ds1)"
    "seal_provisioned_keystore C S config i (ps_seal_root s) (ps_measurement s) ds1 = (Inr sealed, ds')"
    by blast
  from seal_provisioned_Inr [OF i(2)] i(1) getrandom_in [of ds i ds1] getrandom_subset [of ds] v show ?thesis
    by (force simp: mint_Inr)
qed

lemma on_m3_Inr:
  assumes "on_m3 C S x509 msg report ds s = Some (Inr (config, sealed), ds', s')"
  shows "\<exists>n_p n_e. ps_state s = AwaitingM3 \<and> ps_n_p s = Some n_p \<and> ps_n_e s = Some n_e
    \<and> provision_outcome C S x509 s msg n_p n_e (compute_report_hash C report) ds = (Inr (config, sealed), ds')
    \<and> s' = s\<lparr>ps_state := Done\<rparr>"
proof -
  obtain n_p n_e where n: "ps_state s = AwaitingM3" "ps_n_p s = Some n_p" "ps_n_e s = Some n_e"
    using assms by (auto simp: on_m3_def bind_eq_Some_conv split: if_splits)
  obtain o' ds1 where "provision_outcome C S x509 s msg n_p n_e (compute_report_hash C report) ds = (o', ds1)"
    by fastforce
  with n assms show ?thesis by (auto simp: on_m3_def)
qed

end
