(* ===== verification/Ceremony.thy ===== *)
theory Ceremony
  imports Provision
begin

text \<open>
  The provisioning ceremony end to end: the driver of \<open>provision_bootstrap.rs\<close> over a stream, and the session of
  \<open>agent_provision.rs\<close> under any order of calls. A sealed keystore comes out only of a configuration that an
  authorised provisioner signed for the nonces and the report of this very session; the session answers one
  challenge and judges one configuration; what is sealed is the genesis keystore of that configuration.

  \<open>session_event\<close> and \<open>session_run\<close> are not code: they are the calls a driver may make, in any order.
\<close>

section \<open>The ceremony driver\<close>

text \<open>The stream of \<open>provision_bootstrap.rs\<close>: what the reads will return (both reads have an idle deadline), whether each
  framed write succeeds, and the frames written so far. A write that fails may have got a piece of its frame out: its first
  \<open>cs_part\<close> bytes, all of them when only the flush fails, which are then in \<open>cs_cut\<close>.\<close>

record ceremony_stream =
  cs_reads :: "read_event list"
  cs_write_ok :: "bool list"
  cs_written :: "bytes list"
  cs_part :: nat
  cs_cut :: bytes

definition write_framed_message :: "bytes \<Rightarrow> ceremony_stream \<Rightarrow> bool \<times> ceremony_stream" where
  "write_framed_message frame st =
     (case cs_write_ok st of
        True # oks \<Rightarrow> (True, st\<lparr>cs_write_ok := oks, cs_written := cs_written st @ [frame]\<rparr>)
      | _ \<Rightarrow> (False, st\<lparr>cs_write_ok := tl (cs_write_ok st), cs_cut := take (cs_part st) frame\<rparr>))"

definition provision_frame :: "bytes \<Rightarrow> bytes" where
  "provision_frame envelope = be32 (of_nat (length envelope)) @ envelope"

definition write_provision_envelope :: "bytes \<Rightarrow> ceremony_stream \<Rightarrow> (provision_error + unit) \<times> ceremony_stream" where
  "write_provision_envelope envelope st =
     (case write_framed_message (provision_frame envelope) st of
        (ok, st) \<Rightarrow> (if ok then Inr () else Inl Malformed, st))"

definition read_provision_frame :: "ceremony_stream \<Rightarrow> (provision_error + bytes) \<times> ceremony_stream" where
  "read_provision_frame st =
     (case read_framed_message_with_idle_deadline True (cs_reads st) of
        (r, es) \<Rightarrow> (map_err (\<lambda>_. Malformed) r, st\<lparr>cs_reads := es\<rparr>))"

text \<open>The M1 half up to the recorded challenge, and the M3 half. The panic of \<open>on_m3\<close> is the outer \<open>None\<close>.\<close>

definition read_challenge :: "bytes \<Rightarrow> provision_error + bytes" where
  "read_challenge m1_frame =
     res_bind (prov_decode_envelope (drop 4 m1_frame)) (\<lambda>(msg_type, m1_payload).
     if msg_type \<noteq> MSG_M1_CHALLENGE then Inl Malformed
     else res_bind (decode_m1 m1_payload) (\<lambda>m1. Inr (m1_n_p m1)))"

definition finish_ceremony :: "crypto \<Rightarrow> serde \<Rightarrow> (bytes \<Rightarrow> x509_certificate option) \<Rightarrow> bytes \<Rightarrow> draws
    \<Rightarrow> provision_session \<Rightarrow> ceremony_stream
    \<Rightarrow> ((provision_error + provision_config \<times> bytes) \<times> draws \<times> ceremony_stream) option" where
  "finish_ceremony C S x509 report ds s st =
     (case read_provision_frame st of
        (Inl e, st) \<Rightarrow> Some (Inl e, ds, st)
      | (Inr m3_frame, st) \<Rightarrow>
          (case on_m3 C S x509 (drop 4 m3_frame) report ds s of
             None \<Rightarrow> None
           | Some (Inl e, ds, s) \<Rightarrow> Some (Inl e, ds, st)
           | Some (Inr (config, sealed_blob), ds, s) \<Rightarrow>
               (case write_provision_envelope (prov_encode_envelope MSG_M4_SEALED (encode_m4 sealed_blob)) st of
                  (Inl e, st) \<Rightarrow> Some (Inl e, ds, st)
                | (Inr _, st) \<Rightarrow> Some (Inr (config, sealed_blob), ds, st))))"

definition run_provisioning_ceremony :: "crypto \<Rightarrow> serde \<Rightarrow> (bytes \<Rightarrow> x509_certificate option) \<Rightarrow> bytes \<Rightarrow> bytes \<Rightarrow> bytes
    \<Rightarrow> (bytes \<Rightarrow> provision_error + bytes) \<Rightarrow> draws \<Rightarrow> ceremony_stream
    \<Rightarrow> ((provision_error + provision_config \<times> bytes) \<times> draws \<times> ceremony_stream) option" where
  "run_provisioning_ceremony C S x509 pinned_root seal_root measurement fetch_report ds st =
     (let s = new_session pinned_root seal_root measurement in
      case read_provision_frame st of
        (Inl e, st) \<Rightarrow> Some (Inl e, ds, st)
      | (Inr m1_frame, st) \<Rightarrow>
          (case read_challenge m1_frame of
             Inl e \<Rightarrow> Some (Inl e, ds, st)
           | Inr n_p \<Rightarrow>
               (case on_m1 C n_p ds s of
                  (Inl e, ds, s) \<Rightarrow> Some (Inl e, ds, st)
                | (Inr (n_e, rdata), ds, s) \<Rightarrow>
                    (case fetch_report rdata of
                       Inl e \<Rightarrow> Some (Inl e, ds, st)
                     | Inr report \<Rightarrow>
                         (case write_provision_envelope (prov_encode_envelope MSG_M2_ATTEST (encode_m2 n_e report)) st of
                            (Inl e, st) \<Rightarrow> Some (Inl e, ds, st)
                          | (Inr _, st) \<Rightarrow> finish_ceremony C S x509 report ds s st)))))"

section \<open>Sessions over event sequences\<close>

text \<open>A driver may call the session in any order; \<open>None\<close> is a panic.\<close>

datatype session_event = Challenge bytes | Config bytes bytes
datatype session_output =
    Attested "provision_error + bytes \<times> bytes"
  | Provisioned "provision_error + provision_config \<times> bytes"

fun session_run :: "crypto \<Rightarrow> serde \<Rightarrow> (bytes \<Rightarrow> x509_certificate option) \<Rightarrow> session_event list \<Rightarrow> draws
    \<Rightarrow> provision_session \<Rightarrow> (session_output list \<times> draws \<times> provision_session) option" where
  "session_run C S x509 [] ds s = Some ([], ds, s)"
| "session_run C S x509 (Challenge n_p # es) ds s =
     (case on_m1 C n_p ds s of (r, ds, s) \<Rightarrow>
        map_option (\<lambda>(outs, x). (Attested r # outs, x)) (session_run C S x509 es ds s))"
| "session_run C S x509 (Config msg report # es) ds s =
     (case on_m3 C S x509 msg report ds s of
        None \<Rightarrow> None
      | Some (r, ds, s) \<Rightarrow>
          map_option (\<lambda>(outs, x). (Provisioned r # outs, x)) (session_run C S x509 es ds s))"

fun refused :: "session_event \<Rightarrow> session_output" where
  "refused (Challenge _) = Attested (Inl Malformed)"
| "refused (Config _ _) = Provisioned (Inl Malformed)"

fun attests :: "session_output \<Rightarrow> bool" where
  "attests (Attested (Inr _)) = True"
| "attests _ = False"

text \<open>An M3 got as far as the certificate, or further.\<close>

fun judged :: "session_output \<Rightarrow> bool" where
  "judged (Provisioned r) = (r \<noteq> Inl Malformed)"
| "judged _ = False"

definition session_ok :: "provision_session \<Rightarrow> bool" where
  "session_ok s \<longleftrightarrow> (ps_state s = AwaitingM3 \<longrightarrow> ps_n_p s \<noteq> None \<and> ps_n_e s \<noteq> None)"

lemma session_closed:
  "ps_state s = Done \<or> ps_state s = Failed \<Longrightarrow> session_run C S x509 es ds s = Some (map refused es, ds, s)"
proof (induction es)
  case (Cons e es)
  then show ?case by (cases e) (auto simp: on_m1_def on_m3_def)
qed simp

lemma on_m3_total:
  assumes "ps_state s = AwaitingM3" "session_ok s"
  shows "\<exists>r ds' s'. on_m3 C S x509 msg report ds s = Some (r, ds', s') \<and> (ps_state s' = Done \<or> ps_state s' = Failed)"
  using assms by (auto simp: on_m3_def session_ok_def split: prod.splits sum.splits)

lemma session_consumed:
  assumes "ps_state s = AwaitingM3" "session_ok s"
  shows "\<exists>r ds' s'. session_run C S x509 (Config msg report # es) ds s = Some (Provisioned r # map refused es, ds', s')
    \<and> (ps_state s' = Done \<or> ps_state s' = Failed)"
  using on_m3_total [OF assms, of C S x509 msg report ds] session_closed by fastforce

lemma refused_quiet [simp]: "\<not> attests (refused e)" "\<not> judged (refused e)"
  by (cases e; simp)+

lemma refusals_quiet [simp]: "filter attests (map refused es) = []" "filter judged (map refused es) = []"
  by (auto simp: filter_empty_conv)

lemma session_run_bounds:
  assumes "session_ok s"
  shows "\<exists>outs ds' s'. session_run C S x509 es ds s = Some (outs, ds', s') \<and> session_ok s'
    \<and> length (filter attests outs) \<le> (if ps_state s = AwaitingM1 then 1 else 0) \<and> length (filter judged outs) \<le> 1"
  using assms
proof (induction es arbitrary: ds s)
  case (Cons e es)
  show ?case
  proof (cases "ps_state s")
    case AwaitingM1
    show ?thesis
    proof (cases e)
      case (Challenge n_p)
      obtain d ds1 where d: "getrandom ds = (d, ds1)" by fastforce
      let ?s = "s\<lparr>ps_n_p := Some n_p, ps_n_e := d, ps_state := AwaitingM3\<rparr>"
      show ?thesis
      proof (cases d)
        case None
        then show ?thesis using Cons.IH [OF Cons.prems, of ds1] AwaitingM1 Challenge d by (auto simp: on_m1_def)
      next
        case (Some n_e)
        have "session_ok ?s" using Some by (simp add: session_ok_def)
        then show ?thesis using Cons.IH [of ?s ds1] AwaitingM1 Challenge d Some by (auto simp: on_m1_def)
      qed
    next
      case (Config msg report)
      then show ?thesis using Cons.IH [OF Cons.prems, of ds] AwaitingM1 by (auto simp: on_m3_def)
    qed
  next
    case AwaitingM3
    show ?thesis
    proof (cases e)
      case (Challenge n_p)
      then show ?thesis using Cons.IH [OF Cons.prems, of ds] AwaitingM3 by (auto simp: on_m1_def)
    next
      case (Config msg report)
      obtain r ds' s' where r: "session_run C S x509 (Config msg report # es) ds s = Some (Provisioned r # map refused es, ds', s')"
        "ps_state s' = Done \<or> ps_state s' = Failed"
        using session_consumed [OF AwaitingM3 Cons.prems] by blast
      then show ?thesis using Config AwaitingM3 by (auto simp: session_ok_def)
    qed
  next
    case Done
    then show ?thesis using session_closed [of s C S x509 "e # es" ds] Cons.prems by auto
  next
    case Failed
    then show ?thesis using session_closed [of s C S x509 "e # es" ds] Cons.prems by auto
  qed
qed simp

lemma read_challenge_Inr:
  "read_challenge f = Inr n_p \<longleftrightarrow> length n_p = 32 \<and> drop 4 f = prov_encode_envelope MSG_M1_CHALLENGE (encode_m1 n_p)"
  (is "?l \<longleftrightarrow> ?r")
proof
  show "?l \<Longrightarrow> ?r"
    by (auto simp: read_challenge_def res_simps prov_envelope_exact decode_m1_exact prov_consts)
next
  assume r: ?r
  then have "prov_decode_envelope (drop 4 f) = Inr (MSG_M1_CHALLENGE, encode_m1 n_p)"
    by (simp add: prov_envelope_exact prov_consts)
  moreover have "decode_m1 (encode_m1 n_p) = Inr \<lparr>m1_n_p = n_p\<rparr>" using r by (simp add: decode_m1_exact)
  ultimately show ?l by (simp add: read_challenge_def)
qed

lemma read_frame_written: "read_provision_frame st = (r, st') \<Longrightarrow> cs_written st' = cs_written st \<and> cs_write_ok st' = cs_write_ok st
    \<and> cs_cut st' = cs_cut st"
  by (auto simp: read_provision_frame_def split: prod.splits)

lemma write_envelope_cases:
  "write_provision_envelope e st = (r, st') \<Longrightarrow>
     cs_written st' = cs_written st @ (case r of Inr _ \<Rightarrow> [provision_frame e] | Inl _ \<Rightarrow> [])
     \<and> (case r of Inr _ \<Rightarrow> cs_cut st' = cs_cut st | Inl _ \<Rightarrow> \<exists>n. cs_cut st' = take n (provision_frame e))"
  by (auto simp: write_provision_envelope_def write_framed_message_def split: list.splits bool.splits)

definition m2_frame :: "bytes \<Rightarrow> bytes \<Rightarrow> bytes" where
  "m2_frame n_e report = provision_frame (prov_encode_envelope MSG_M2_ATTEST (encode_m2 n_e report))"

definition m4_frame :: "bytes \<Rightarrow> bytes" where
  "m4_frame sealed = provision_frame (prov_encode_envelope MSG_M4_SEALED (encode_m4 sealed))"

lemma finish_ceremony_cases:
  assumes "finish_ceremony C S x509 report ds s st = Some (r, ds', st')"
  shows "case r of
      Inl _ \<Rightarrow> cs_written st' = cs_written st \<and> (cs_cut st' = cs_cut st \<or> (\<exists>n sealed. cs_cut st' = take n (m4_frame sealed)))
    | Inr (config, sealed) \<Rightarrow> cs_written st' = cs_written st @ [m4_frame sealed]
        \<and> (\<exists>msg s'. on_m3 C S x509 msg report ds s = Some (Inr (config, sealed), ds', s'))"
proof -
  obtain f st1 where f: "read_provision_frame st = (f, st1)" by fastforce
  note w1 = read_frame_written [OF f]
  show ?thesis
  proof (cases f)
    case (Inl e)
    then show ?thesis using assms f w1 by (auto simp: finish_ceremony_def)
  next
    case (Inr m3_frame)
    then obtain o' ds1 s1 where o: "on_m3 C S x509 (drop 4 m3_frame) report ds s = Some (o', ds1, s1)"
      using assms f by (auto simp: finish_ceremony_def split: option.splits)
    show ?thesis
    proof (cases o')
      case (Inl e)
      then show ?thesis using assms f w1 Inr o by (auto simp: finish_ceremony_def)
    next
      case Inr2: (Inr cs)
      obtain config sealed where cs: "cs = (config, sealed)" by fastforce
      obtain w st2 where w: "write_provision_envelope (prov_encode_envelope MSG_M4_SEALED (encode_m4 sealed)) st1 = (w, st2)"
        by fastforce
      show ?thesis
        using assms f w1 Inr o Inr2 cs w write_envelope_cases [OF w]
        by (cases w) (fastforce simp: finish_ceremony_def m4_frame_def)+
    qed
  qed
qed

lemma on_m1_fresh:
  assumes "on_m1 C n_p ds s = (Inr (n_e, rdata), ds', s')"
  shows "ps_state s = AwaitingM1 \<and> getrandom ds = (Some n_e, ds') \<and> rdata = compute_report_data C n_p n_e
    \<and> s' = s\<lparr>ps_n_p := Some n_p, ps_n_e := Some n_e, ps_state := AwaitingM3\<rparr>"
  using assms by (auto simp: on_m1_def split: if_splits prod.splits option.splits)

lemma ceremony_cases:
  assumes "run_provisioning_ceremony C S x509 root seal meas fetch ds st = Some (r, ds', st')"
  shows "case r of
      Inl _ \<Rightarrow> (\<exists>sent. cs_written st' = cs_written st @ sent \<and> (sent = [] \<or> (\<exists>n_e report. sent = [m2_frame n_e report])))
        \<and> (cs_cut st' = cs_cut st \<or> (\<exists>n n_e report. cs_cut st' = take n (m2_frame n_e report))
            \<or> (\<exists>n sealed. cs_cut st' = take n (m4_frame sealed)))
    | Inr (config, sealed) \<Rightarrow> \<exists>n_p n_e report ds1 msg s'. getrandom ds = (Some n_e, ds1)
        \<and> fetch (compute_report_data C n_p n_e) = Inr report
        \<and> cs_written st' = cs_written st @ [m2_frame n_e report, m4_frame sealed]
        \<and> on_m3 C S x509 msg report ds1
            (new_session root seal meas\<lparr>ps_n_p := Some n_p, ps_n_e := Some n_e, ps_state := AwaitingM3\<rparr>)
          = Some (Inr (config, sealed), ds', s')"
proof -
  let ?s = "new_session root seal meas"
  obtain f st1 where f: "read_provision_frame st = (f, st1)" by fastforce
  note w1 = read_frame_written [OF f]
  show ?thesis
  proof (cases "\<exists>m1 n_p. f = Inr m1 \<and> read_challenge m1 = Inr n_p")
    case False
    then have "(\<exists>e. r = Inl e) \<and> st' = st1"
      using assms f by (auto simp: run_provisioning_ceremony_def Let_def split: sum.splits)
    then show ?thesis using w1 by auto
  next
    case True
    then obtain m1 n_p where m1: "f = Inr m1" "read_challenge m1 = Inr n_p" by blast
    obtain o' ds1 s1 where o: "on_m1 C n_p ds ?s = (o', ds1, s1)" by (cases "on_m1 C n_p ds ?s")
    show ?thesis
    proof (cases "\<exists>n_e rdata report. o' = Inr (n_e, rdata) \<and> fetch rdata = Inr report")
      case False
      then have "(\<exists>e. r = Inl e) \<and> st' = st1"
        using assms f m1 o by (auto simp: run_provisioning_ceremony_def Let_def split: sum.splits)
      then show ?thesis using w1 by auto
    next
      case True
      then obtain n_e rdata report where n: "o' = Inr (n_e, rdata)" "fetch rdata = Inr report" by blast
      note fresh = on_m1_fresh [OF o [unfolded n(1)]]
      obtain w st2 where w: "write_provision_envelope (prov_encode_envelope MSG_M2_ATTEST (encode_m2 n_e report)) st1 = (w, st2)"
        by fastforce
      note w2 = write_envelope_cases [OF w]
      show ?thesis
      proof (cases w)
        case (Inl e)
        then have "st' = st2" "r = Inl e" using assms f m1 o n w by (simp_all add: run_provisioning_ceremony_def)
        moreover have "\<exists>k. cs_cut st2 = take k (m2_frame n_e report)" "cs_written st2 = cs_written st"
          using Inl w1 w2 by (simp_all add: m2_frame_def)
        ultimately show ?thesis by auto
      next
        case (Inr u)
        then have fin: "finish_ceremony C S x509 report ds1 s1 st2 = Some (r, ds', st')"
          and sent: "cs_written st2 = cs_written st @ [m2_frame n_e report]" "cs_cut st2 = cs_cut st"
          using assms f m1 o n w w1 w2 by (simp_all add: run_provisioning_ceremony_def m2_frame_def)
        show ?thesis
        proof (cases r)
          case (Inl e)
          then show ?thesis using finish_ceremony_cases [OF fin] sent by auto
        next
          case (Inr cs)
          obtain config sealed where cs: "cs = (config, sealed)" by fastforce
          obtain msg s' where "cs_written st' = cs_written st @ [m2_frame n_e report, m4_frame sealed]"
            and "on_m3 C S x509 msg report ds1 s1 = Some (Inr (config, sealed), ds', s')"
            using finish_ceremony_cases [OF fin] sent Inr cs by auto
          with fresh n(2) Inr cs show ?thesis by auto
        qed
      qed
    qed
  qed
qed

section \<open>Authenticity\<close>

text \<open>What provisioners sign: tuples of an encoded configuration, both nonces and a report hash, of their Rust types.\<close>

definition provision_tuple_ok :: "bytes \<times> bytes \<times> bytes \<times> bytes \<Rightarrow> bool" where
  "provision_tuple_ok = (\<lambda>(c, p, e, h). length c \<le> MAX_CONFIG_MAP_LEN \<and> length p = 32 \<and> length e = 32 \<and> length h = 32)"

text \<open>Whoever holds an authorised provisioner key signs under this domain the tuples of \<open>H\<close> only.\<close>

definition provisioners_sign_only :: "crypto \<Rightarrow> (bytes \<Rightarrow> x509_certificate option) \<Rightarrow> bytes
    \<Rightarrow> (bytes \<times> bytes \<times> bytes \<times> bytes) set \<Rightarrow> bool" where
  "provisioners_sign_only C x509 root H \<longleftrightarrow> (\<forall>t \<in> H. provision_tuple_ok t)
     \<and> (\<forall>cert pub m sig. provisioner_leaf C x509 root cert pub \<longrightarrow> ed_verify_strict C pub m sig
        \<longrightarrow> prefix PROVISION_DOMAIN m \<longrightarrow> m \<in> (\<lambda>(c, p, e, h). sig_prov_signed_bytes c p e h) ` H)"

lemma prefix_signed [simp]: "prefix PROVISION_DOMAIN (sig_prov_signed_bytes c p e h)"
  by (simp add: sig_prov_signed_bytes_def)

lemma verified_m3_signed:
  assumes "verify_m3_in_order C x509 msg root n_p n_e h = Inr (config, pub)" "provisioners_sign_only C x509 root H"
  shows "(encode_config_map config, n_p, n_e, h) \<in> H \<and> provision_config_ok config"
proof -
  obtain m3 where m3: "m3_ok m3" "provisioner_leaf C x509 root (m3_provisioner_cert m3) pub"
      "m3_n_p m3 = n_p" "m3_n_e m3 = n_e" "m3_report_hash m3 = h"
      "ed_verify_strict C pub (sig_prov_signed_bytes (encode_config_map config) n_p n_e h) (m3_sig_prov m3)"
      "provision_config_ok config" "m3_config_map_bytes m3 = encode_config_map config"
    using assms(1) by (auto simp: verify_m3_Inr)
  have typed: "provision_tuple_ok t" if "t \<in> H" for t using assms(2) that by (simp add: provisioners_sign_only_def)
  have "sig_prov_signed_bytes (encode_config_map config) n_p n_e h \<in> (\<lambda>(c, p, e, h). sig_prov_signed_bytes c p e h) ` H"
    using assms(2) m3(2,6) unfolding provisioners_sign_only_def by (metis prefix_signed)
  then obtain c p e h' where t: "(c, p, e, h') \<in> H"
    "sig_prov_signed_bytes (encode_config_map config) n_p n_e h = sig_prov_signed_bytes c p e h'"
    by auto
  have "encode_config_map config = c \<and> n_p = p \<and> n_e = e \<and> h = h'"
    by (rule transcript_inj [OF t(2)])
      (use m3 typed [OF t(1)] in \<open>auto simp: provision_tuple_ok_def m3_ok_def MAX_CONFIG_MAP_LEN_def\<close>)
  with t m3(7) show ?thesis by simp
qed

section \<open>What is sealed\<close>

lemma genesis_dispenses_nothing:
  "accept_and_debit (kb_faucet (build_provisioned_keystore_body config i)) amount gas price = Inl CumulativeBudget"
  by (simp add: accept_and_debit_def build_provisioned_keystore_body_def)

lemma genesis_typed:
  "provision_config_ok config \<Longrightarrow> length i = 32 \<Longrightarrow> body_typed (build_provisioned_keystore_body config i)"
  by (simp add: body_typed_def build_provisioned_keystore_body_def provision_config_ok_def faucet_typed_def
      is_u256_def opt_u256_def zero32_def)

text \<open>The genesis keystore of a configuration is valid for every scope id the mint accepts, but the fleet's.\<close>

lemma genesis_ok:
  assumes "provision_config_ok config" "i \<noteq> zero32" "i \<noteq> pc_fleet_scope_id config"
  shows "body_ok (build_provisioned_keystore_body config i)"
  using assms
  by (simp add: body_ok_def build_provisioned_keystore_body_def provision_config_ok_def config_ok_def counters_ok_def
      audit_ok_def)

definition genesis_sealed :: "crypto \<Rightarrow> serde \<Rightarrow> bytes \<Rightarrow> bytes \<Rightarrow> draws \<Rightarrow> provision_config \<Rightarrow> bytes \<Rightarrow> bool" where
  "genesis_sealed C S root meas ds config sealed \<longleftrightarrow>
     (\<exists>i. Some i \<in> set ds \<and> i \<noteq> zero32 \<and> i \<noteq> replicate 32 0xe1 \<and> i \<noteq> replicate 32 0xf1
        \<and> i \<noteq> pc_fleet_scope_id config
        \<and> unseal_body C S sealed root meas = Inr (build_provisioned_keystore_body config i)
        \<and> length sealed \<le> MAX_KEYSTORE_BLOB_SIZE
        \<and> body_ok (build_provisioned_keystore_body config i) \<and> body_typed (build_provisioned_keystore_body config i))"

lemma provisioned_genesis:
  assumes "on_m3 C S x509 msg report ds s = Some (Inr (config, sealed), ds', s')"
    and "sha3_digest_len C" "aead_correct C" "serde_correct S" "\<forall>d. Some d \<in> set ds \<longrightarrow> length d = 32"
  shows "genesis_sealed C S (ps_seal_root s) (ps_measurement s) ds config sealed"
proof -
  obtain n_p n_e where o: "provision_outcome C S x509 s msg n_p n_e (compute_report_hash C report) ds = (Inr (config, sealed), ds')"
    using on_m3_Inr [OF assms(1)] by blast
  obtain pub i n where v: "verify_m3_in_order C x509 msg (ps_pinned_root s) n_p n_e (compute_report_hash C report) = Inr (config, pub)"
    and i: "Some i \<in> set ds" "i \<noteq> zero32" "i \<noteq> replicate 32 0xe1" "i \<noteq> replicate 32 0xf1" and n: "Some n \<in> set ds"
    and seal: "seal_body C S (build_provisioned_keystore_body config i) (ps_seal_root s) (ps_measurement s)
        (Some (take NONCE_LEN n)) = Inr sealed"
    using provision_outcome_Inr [OF o] by blast
  have nonce: "length (take NONCE_LEN n) = 24" using assms(5) n by (simp add: NONCE_LEN_def)
  note un = unseal_seal_body [OF assms(2-4) refl nonce seal]
  have ok: "body_ok (build_provisioned_keystore_body config i)" using unseal_body_Inr [OF un(1)] by blast
  then have "i \<noteq> pc_fleet_scope_id config"
    by (auto simp: body_ok_def config_ok_def build_provisioned_keystore_body_def)
  moreover have "body_typed (build_provisioned_keystore_body config i)"
    using v i(1) assms(5) by (auto simp: verify_m3_Inr intro: genesis_typed)
  ultimately show ?thesis unfolding genesis_sealed_def using un ok i by blast
qed

section \<open>An honest provisioner gets its keystore\<close>

lemma provision_frame_body [simp]: "drop 4 (provision_frame b) = b"
  by (simp add: provision_frame_def)

lemma read_provision_live:
  assumes "list_all (live_event True) (cs_reads st)" "stream_bytes (cs_reads st) = provision_frame b @ ys"
    "length b \<le> MAX_MESSAGE_SIZE"
  shows "\<exists>es. read_provision_frame st = (Inr (provision_frame b), st\<lparr>cs_reads := es\<rparr>)
    \<and> list_all (live_event True) es \<and> stream_bytes es = ys"
proof -
  let ?h = "be32 (of_nat (length b))"
  obtain es1 where 1: "read_exact_with_idle_deadline True 4 (cs_reads st) = (Inr ?h, es1)" "stream_bytes es1 = b @ ys"
      "list_all (live_event True) es1"
    using read_exact_live [OF assms(1), of ?h "b @ ys" 4] assms(2) by (auto simp: provision_frame_def)
  obtain es2 where "read_exact_with_idle_deadline True (length b) es1 = (Inr b, es2)" "stream_bytes es2 = ys"
      "list_all (live_event True) es2"
    using read_exact_live [OF 1(3,2)] by auto
  moreover have "be_val ?h = length b" using assms(3) unat_frame_len [of "length b"] by simp
  ultimately show ?thesis
    using 1(1) assms(3) by (intro exI [of _ es2]) (simp add: read_provision_frame_def read_framed_message_with_idle_deadline_def provision_frame_def)
qed

lemma write_provision_live:
  "cs_write_ok st = True # oks \<Longrightarrow> write_provision_envelope e st
     = (Inr (), st\<lparr>cs_write_ok := oks, cs_written := cs_written st @ [provision_frame e]\<rparr>)"
  by (simp add: write_provision_envelope_def write_framed_message_def)

lemma seal_body_draws:
  assumes "seal_body C S b root meas (Some n) = Inr sealed"
  shows "seal_body C S b root meas None = Inl keystore_error.Csprng"
  using assms by (auto simp: seal_body_def seal_keystore_def res_simps split: if_splits)

lemma seal_rng_draws:
  assumes "seal_body C S b root meas (Some (take NONCE_LEN n)) = Inr sealed"
  shows "seal_body_rng C S b root meas (Some n # ds) = (Inr sealed, ds)"
  using seal_body_draws [OF assms] assms by (simp add: seal_body_rng_def getrandom_def)

text \<open>A message that the provisioner behind an authorised key made for a session.\<close>

definition honest_m3 :: "crypto \<Rightarrow> (bytes \<Rightarrow> x509_certificate option) \<Rightarrow> bytes \<Rightarrow> bytes \<Rightarrow> bytes \<Rightarrow> bytes
    \<Rightarrow> provision_config \<Rightarrow> m3_config \<Rightarrow> bool" where
  "honest_m3 C x509 root n_p n_e h config m3 \<longleftrightarrow> m3_ok m3
     \<and> m3_n_p m3 = n_p \<and> m3_n_e m3 = n_e \<and> m3_report_hash m3 = h
     \<and> provision_config_ok config \<and> m3_config_map_bytes m3 = encode_config_map config
     \<and> (\<exists>pub. provisioner_leaf C x509 root (m3_provisioner_cert m3) pub
          \<and> ed_verify_strict C pub (sig_prov_signed_bytes (encode_config_map config) n_p n_e h) (m3_sig_prov m3))"

lemma on_m3_completes:
  assumes "honest_m3 C x509 (ps_pinned_root s) n_p n_e (compute_report_hash C report) config m3"
    "ps_state s = AwaitingM3" "ps_n_p s = Some n_p" "ps_n_e s = Some n_e"
    "i \<noteq> zero32" "i \<noteq> replicate 32 0xe1" "i \<noteq> replicate 32 0xf1"
    "seal_body C S (build_provisioned_keystore_body config i) (ps_seal_root s) (ps_measurement s)
       (Some (take NONCE_LEN n)) = Inr sealed"
  shows "on_m3 C S x509 (prov_encode_envelope MSG_M3_CONFIG (m3_payload m3)) report (Some i # Some n # ds) s
    = Some (Inr (config, sealed), ds, s\<lparr>ps_state := Done\<rparr>)"
proof -
  obtain pub where "verify_m3_in_order C x509 (prov_encode_envelope MSG_M3_CONFIG (m3_payload m3)) (ps_pinned_root s)
      n_p n_e (compute_report_hash C report) = Inr (config, pub)"
    using assms(1) unfolding verify_m3_Inr honest_m3_def by blast
  moreover have "mint_enclave_scope_id (Some i # Some n # ds) = (Inr i, Some n # ds)"
    using assms(5-7) by (simp add: mint_Inr getrandom_def)
  moreover have "seal_provisioned_keystore C S config i (ps_seal_root s) (ps_measurement s) (Some n # ds) = (Inr sealed, ds)"
    using assms(5-7) seal_rng_draws [OF assms(8)]
    by (simp add: seal_provisioned_keystore_def validate_minted_scope_id_def)
  ultimately show ?thesis
    using assms(2-4) by (simp add: on_m3_def provision_outcome_def)
qed

lemma m1_length: "length n_p = 32 \<Longrightarrow> length (prov_encode_envelope MSG_M1_CHALLENGE (encode_m1 n_p)) \<le> MAX_MESSAGE_SIZE"
  using length_put_uint [of 5 1] length_put_uint [of 0 1] length_put_uint [of 2 32]
  by (simp add: prov_encode_envelope_def encode_m1_def put_bytes_def PROVISION_MAGIC_def MAX_MESSAGE_SIZE_def)

lemma m3_length: "m3_ok m3 \<Longrightarrow> length (prov_encode_envelope MSG_M3_CONFIG (m3_payload m3)) \<le> MAX_MESSAGE_SIZE"
  by (simp add: prov_encode_envelope_def m3_ok_def PROVISION_MAGIC_def MAX_MESSAGE_SIZE_def)

lemma ceremony_completes:
  assumes "list_all (live_event True) (cs_reads st)" "cs_write_ok st = True # True # oks"
    "stream_bytes (cs_reads st) = provision_frame (prov_encode_envelope MSG_M1_CHALLENGE (encode_m1 n_p))
       @ provision_frame (prov_encode_envelope MSG_M3_CONFIG (m3_payload m3)) @ ys"
    "length n_p = 32" "fetch (compute_report_data C n_p n_e) = Inr report"
    "honest_m3 C x509 root n_p n_e (compute_report_hash C report) config m3"
    "i \<noteq> zero32" "i \<noteq> replicate 32 0xe1" "i \<noteq> replicate 32 0xf1"
    "seal_body C S (build_provisioned_keystore_body config i) seal_root meas (Some (take NONCE_LEN n)) = Inr sealed"
  shows "\<exists>st'. run_provisioning_ceremony C S x509 root seal_root meas fetch (Some n_e # Some i # Some n # ds) st
      = Some (Inr (config, sealed), ds, st')
    \<and> cs_written st' = cs_written st @ [m2_frame n_e report, m4_frame sealed]"
proof -
  let ?m1 = "prov_encode_envelope MSG_M1_CHALLENGE (encode_m1 n_p)"
  let ?m3 = "prov_encode_envelope MSG_M3_CONFIG (m3_payload m3)"
  let ?s = "new_session root seal_root meas\<lparr>ps_n_p := Some n_p, ps_n_e := Some n_e, ps_state := AwaitingM3\<rparr>"
  obtain es1 where r1: "read_provision_frame st = (Inr (provision_frame ?m1), st\<lparr>cs_reads := es1\<rparr>)"
    "list_all (live_event True) es1" "stream_bytes es1 = provision_frame ?m3 @ ys"
    using read_provision_live [OF assms(1,3) m1_length [OF assms(4)]] by blast
  have c: "read_challenge (provision_frame ?m1) = Inr n_p" using assms(4) by (simp add: read_challenge_Inr)
  have m1: "on_m1 C n_p (Some n_e # Some i # Some n # ds) (new_session root seal_root meas)
      = (Inr (n_e, compute_report_data C n_p n_e), Some i # Some n # ds, ?s)"
    by (simp add: on_m1_def new_session_def getrandom_def)
  let ?st = "st\<lparr>cs_reads := es1, cs_write_ok := True # oks, cs_written := cs_written st @ [m2_frame n_e report]\<rparr>"
  have w1: "write_provision_envelope (prov_encode_envelope MSG_M2_ATTEST (encode_m2 n_e report)) (st\<lparr>cs_reads := es1\<rparr>)
      = (Inr (), ?st)"
    using assms(2) by (simp add: write_provision_live m2_frame_def)
  have len3: "length ?m3 \<le> MAX_MESSAGE_SIZE" using assms(6) by (intro m3_length) (simp add: honest_m3_def)
  obtain es2 where r2: "read_provision_frame ?st = (Inr (provision_frame ?m3), ?st\<lparr>cs_reads := es2\<rparr>)"
    using read_provision_live [of ?st ?m3 ys] r1(2,3) len3 by auto
  have m3: "on_m3 C S x509 ?m3 report (Some i # Some n # ds) ?s = Some (Inr (config, sealed), ds, ?s\<lparr>ps_state := Done\<rparr>)"
    using assms(6-10) by (intro on_m3_completes) (simp_all add: new_session_def)
  show ?thesis
    using r1(1) c m1 assms(5) w1 r2 m3
    by (simp add: run_provisioning_ceremony_def finish_ceremony_def write_provision_live m4_frame_def)
qed

section \<open>Samples\<close>

lemma put_lengths:
  "length (put_uint m a) \<le> 9" "length (put_bytes b) \<le> 9 + length b" "length (put_text b) \<le> 9 + length b"
  using length_put_uint [of m a] length_put_uint [of 2 "of_nat (length b)"] length_put_uint [of 3 "of_nat (length b)"]
  by (simp_all add: put_bytes_def put_text_def)

lemma config_map_length: "provision_config_ok c \<Longrightarrow> length (encode_config_map c) \<le> 2048"
  using put_lengths(1) [of 5 7] put_lengths(1) [of 0 1] put_lengths(1) [of 0 "pc_twod_chain_id c"]
    put_lengths(1) [of 0 2] put_lengths(3) [of "pc_environment_identifier c"]
    put_lengths(1) [of 0 3] put_lengths(2) [of "pc_admin_authority_pk c"]
    put_lengths(1) [of 0 4] put_lengths(2) [of "pc_recovery_authority_pk c"]
    put_lengths(1) [of 0 5] put_lengths(2) [of "pc_backup_recovery_wrapping_pubkey c"]
    put_lengths(1) [of 0 6] put_lengths(2) [of "pc_anchor_root c"]
    put_lengths(1) [of 0 7] put_lengths(2) [of "pc_fleet_scope_id c"] valid_env_utf8 [of "pc_environment_identifier c"]
  by (simp add: encode_config_map_def provision_config_ok_def)

text \<open>Every message a provisioner has to send is within the caps.\<close>

lemma m3_within_caps:
  assumes "length (m3_config_map_bytes r) \<le> 4096" "length (m3_n_p r) = 32" "length (m3_n_e r) = 32"
    "length (m3_report_hash r) = 32" "length (m3_sig_prov r) = 64" "length (m3_provisioner_cert r) \<le> 2048"
  shows "m3_ok r"
proof -
  have "m3_payload r = put_uint 5 6 @ put_uint 0 1 @ put_bytes (m3_config_map_bytes r)
      @ put_uint 0 2 @ put_bytes (m3_n_p r) @ put_uint 0 3 @ put_bytes (m3_n_e r)
      @ put_uint 0 4 @ put_bytes (m3_report_hash r) @ put_uint 0 5 @ put_bytes (m3_sig_prov r)
      @ put_uint 0 6 @ put_bytes (m3_provisioner_cert r)"
    unfolding m3_payload_def enc_field_map by (simp add: m3_values_def enumerate_simps)
  then have "length (m3_payload r) \<le> 8192"
    using assms put_lengths(1) [of 5 6] put_lengths(1) [of 0 1] put_lengths(1) [of 0 2] put_lengths(1) [of 0 3]
      put_lengths(1) [of 0 4] put_lengths(1) [of 0 5] put_lengths(1) [of 0 6]
      put_lengths(2) [of "m3_config_map_bytes r"] put_lengths(2) [of "m3_n_p r"] put_lengths(2) [of "m3_n_e r"]
      put_lengths(2) [of "m3_report_hash r"] put_lengths(2) [of "m3_sig_prov r"] put_lengths(2) [of "m3_provisioner_cert r"]
    by simp
  with assms show ?thesis by (simp add: m3_ok_def)
qed

definition sample_provision_config :: provision_config where
  "sample_provision_config = \<lparr>pc_twod_chain_id = 11565, pc_environment_identifier = ascii ''lab'',
     pc_admin_authority_pk = replicate 32 0xa1, pc_recovery_authority_pk = replicate 32 0xb2,
     pc_backup_recovery_wrapping_pubkey = replicate 1568 0, pc_anchor_root = replicate 32 0xc3,
     pc_fleet_scope_id = replicate 32 0x55\<rparr>"

lemma sample_provision_config_ok: "provision_config_ok sample_provision_config"
  by (simp add: provision_config_ok_def sample_provision_config_def sample_env zero32_def)

definition sample_cert :: bytes where "sample_cert = [0x30, 5, 0x30, 3, 1, 2, 3]"

definition sample_ed25519 :: x509_algorithm where
  "sample_ed25519 = \<lparr>xa_oid = ED25519_ALG_OID, xa_has_parameters = False\<rparr>"

definition sample_x509 :: "bytes \<Rightarrow> x509_certificate option" where
  "sample_x509 der = (if der = sample_cert then Some
     \<lparr>xc_v3 = True, xc_spki_algorithm = sample_ed25519, xc_subject_public_key = Some (replicate 32 8),
      xc_signature_algorithm = sample_ed25519, xc_tbs_signature = sample_ed25519,
      xc_signature = Some (replicate 64 1), xc_extended_key_usage = Inr (Some [PROVISIONER_EKU_OID])\<rparr> else None)"

definition sample_report :: bytes where "sample_report = replicate 1184 0"

definition sample_tuple :: "bytes \<times> bytes \<times> bytes \<times> bytes" where
  "sample_tuple = (encode_config_map sample_provision_config, replicate 32 1, replicate 32 2,
     compute_report_hash sample_crypto sample_report)"

text \<open>Keys that have signed the certificate and one transcript.\<close>

definition provision_crypto :: crypto where
  "provision_crypto = sample_crypto\<lparr>ed_verify_strict := (\<lambda>pub m sig. sig = replicate 64 1
     \<and> (m = drop 2 sample_cert \<or> m = (\<lambda>(c, p, e, h). sig_prov_signed_bytes c p e h) sample_tuple))\<rparr>"

definition sample_m3 :: m3_config where
  "sample_m3 = \<lparr>m3_config_map_bytes = encode_config_map sample_provision_config, m3_n_p = replicate 32 1,
     m3_n_e = replicate 32 2, m3_report_hash = compute_report_hash sample_crypto sample_report,
     m3_sig_prov = replicate 64 1, m3_provisioner_cert = sample_cert\<rparr>"

lemma provision_crypto_simps [simp]:
  "compute_report_hash provision_crypto r = compute_report_hash sample_crypto r"
  "compute_report_data provision_crypto p e = compute_report_data sample_crypto p e"
  "length (compute_report_hash sample_crypto r) = 32"
  by (simp_all add: provision_crypto_def compute_report_hash_def compute_report_data_def sample_crypto_def)

lemma provision_crypto_correct: "sha3_digest_len provision_crypto" "aead_correct provision_crypto"
  using sample_crypto_correct
  by (simp_all add: sha3_digest_len_def aead_correct_def provision_crypto_def)

lemma sample_tbs: "cert_tbs_bytes sample_cert = Some (drop 2 sample_cert)"
  by (simp add: cert_tbs_bytes_def der_head_def sample_cert_def)

lemma sample_leaf: "provisioner_leaf provision_crypto sample_x509 root sample_cert (replicate 32 8)"
  by (simp add: provisioner_leaf_def sample_x509_def sample_tbs sig_alg_ok_def sample_ed25519_def)
    (simp add: provision_crypto_def sample_crypto_def)

lemma sample_m3_honest:
  "honest_m3 provision_crypto sample_x509 root (replicate 32 1) (replicate 32 2)
     (compute_report_hash sample_crypto sample_report) sample_provision_config sample_m3"
proof -
  have "m3_ok sample_m3"
    using config_map_length [OF sample_provision_config_ok]
    by (intro m3_within_caps) (simp_all add: sample_m3_def sample_cert_def)
  then show ?thesis
    using sample_provision_config_ok sample_leaf
    by (auto simp: honest_m3_def sample_m3_def provision_crypto_def sample_tuple_def)
qed

lemma sample_sign_only: "provisioners_sign_only provision_crypto sample_x509 root {sample_tuple}"
proof -
  have "length (encode_config_map sample_provision_config) \<le> 4096"
    using config_map_length [OF sample_provision_config_ok] by simp
  then show ?thesis
    by (auto simp: provisioners_sign_only_def provision_tuple_ok_def sample_tuple_def MAX_CONFIG_MAP_LEN_def
        provision_crypto_def sample_cert_def PROVISION_DOMAIN_def ascii_def)
qed

definition sample_genesis :: keystore_body where
  "sample_genesis = build_provisioned_keystore_body sample_provision_config (replicate 32 3)"

lemma sample_genesis_seals:
  "\<exists>sealed. seal_body provision_crypto (serde_for sample_genesis) sample_genesis zero32 [1]
     (Some (take NONCE_LEN (replicate 32 4))) = Inr sealed"
proof -
  have "body_ok sample_genesis"
    unfolding sample_genesis_def
    by (rule genesis_ok [OF sample_provision_config_ok]) (simp_all add: zero32_def sample_provision_config_def)
  then have "validate sample_genesis = Inr ()" by (simp add: validate_iff)
  then show ?thesis
    by (simp add: seal_body_def serde_for_def seal_lens MAX_KEYSTORE_BLOB_SIZE_def MAX_MESSAGE_SIZE_def
        KEYSTORE_FRAMING_RESERVE_def seal_keystore_def seal_keystore_with_nonce_def Let_def provision_crypto_correct)
      (simp add: provision_crypto_def sample_crypto_def)
qed

definition sample_ceremony_stream :: ceremony_stream where
  "sample_ceremony_stream = \<lparr>cs_reads = [\<lparr>re_expired_before = False,
       re_outcome = Chunk (provision_frame (prov_encode_envelope MSG_M1_CHALLENGE (encode_m1 (replicate 32 1)))
         @ provision_frame (prov_encode_envelope MSG_M3_CONFIG (m3_payload sample_m3))), re_expired_after = False\<rparr>],
     cs_write_ok = [True, True], cs_written = [], cs_part = 0, cs_cut = []\<rparr>"

lemma sample_stream_live:
  "list_all (live_event True) (cs_reads sample_ceremony_stream)" "cs_write_ok sample_ceremony_stream = [True, True]"
  "stream_bytes (cs_reads sample_ceremony_stream) = provision_frame (prov_encode_envelope MSG_M1_CHALLENGE (encode_m1 (replicate 32 1)))
     @ provision_frame (prov_encode_envelope MSG_M3_CONFIG (m3_payload sample_m3)) @ []"
  by (simp_all add: sample_ceremony_stream_def live_event_def provision_frame_def prov_encode_envelope_def)

definition sample_provision_draws :: draws where
  "sample_provision_draws = [Some (replicate 32 2), Some (replicate 32 3), Some (replicate 32 4)]"

lemma sample_ceremony:
  "\<exists>sealed st'. run_provisioning_ceremony provision_crypto (serde_for sample_genesis) sample_x509 zero32 zero32 [1]
     (\<lambda>_. Inr sample_report) sample_provision_draws sample_ceremony_stream
   = Some (Inr (sample_provision_config, sealed), [], st')"
proof -
  obtain sealed where seal: "seal_body provision_crypto (serde_for sample_genesis)
      (build_provisioned_keystore_body sample_provision_config (replicate 32 3)) zero32 [1]
      (Some (take NONCE_LEN (replicate 32 4))) = Inr sealed"
    using sample_genesis_seals unfolding sample_genesis_def by blast
  have ids: "replicate 32 (3 :: u8) \<noteq> zero32" "replicate 32 (3 :: u8) \<noteq> replicate 32 0xe1"
    "replicate 32 (3 :: u8) \<noteq> replicate 32 0xf1"
    by (simp_all add: zero32_def)
  show ?thesis
    unfolding sample_provision_draws_def
    using ceremony_completes [OF sample_stream_live _ _ _ ids seal, where fetch = "\<lambda>_. Inr sample_report"
        and n_e = "replicate 32 2" and report = sample_report and ?x509.0 = sample_x509 and root = zero32 and ds = "[]"]
      sample_m3_honest by auto
qed

section \<open>Properties\<close>

lemma ceremony_total: "run_provisioning_ceremony C S x509 root seal_root meas fetch ds st \<noteq> None"
proof -
  have fin: "finish_ceremony C S x509 report ds1 s st1 \<noteq> None" if s: "session_ok s" "ps_state s = AwaitingM3" for report ds1 s st1
  proof -
    obtain f st2 where f: "read_provision_frame st1 = (f, st2)" by fastforce
    show ?thesis
    proof (cases f)
      case (Inr m3)
      obtain r ds' s' where "on_m3 C S x509 (drop 4 m3) report ds1 s = Some (r, ds', s')"
        using on_m3_total [OF s(2,1)] by blast
      then show ?thesis using f Inr by (auto simp: finish_ceremony_def split: prod.split sum.split)
    qed (simp add: finish_ceremony_def f)
  qed
  have m1: "session_ok s1 \<and> ps_state s1 = AwaitingM3" if "on_m1 C n_p ds s = (Inr x, ds1, s1)" for n_p s x ds1 s1
    using that on_m1_fresh [of C n_p ds s "fst x" "snd x"] by (simp add: session_ok_def)
  show ?thesis
    using fin m1 unfolding run_provisioning_ceremony_def Let_def
    by (auto split: prod.split sum.split dest!: m1)
qed

text \<open>C22: A provisioning ceremony seals only what an authorised provisioner signed for it. When the driver returns a
  configuration and a blob, then some holder of a certificate under the pinned root with the provisioner role signed
  exactly this configuration together with the challenge, the nonce drawn for this session and the hash of the report
  fetched for these two nonces; the blob unseals under this enclave's root and measurement to the genesis keystore of
  that configuration, valid, with a scope id that was drawn inside the enclave and is none of the known ids, and with
  a faucet that dispenses nothing; and the peer was sent exactly the attestation and the blob.\<close>

theorem ceremony_authenticated:
  assumes "run_provisioning_ceremony C S x509 root seal_root meas fetch ds st = Some (Inr (config, sealed), ds', st')"
    and "provisioners_sign_only C x509 root H"
    and "sha3_digest_len C" "aead_correct C" "serde_correct S" "\<forall>d. Some d \<in> set ds \<longrightarrow> length d = 32"
  shows "\<exists>n_p n_e report. hd ds = Some n_e \<and> fetch (compute_report_data C n_p n_e) = Inr report
    \<and> (encode_config_map config, n_p, n_e, compute_report_hash C report) \<in> H
    \<and> genesis_sealed C S seal_root meas (tl ds) config sealed
    \<and> (\<forall>i amount gas price.
         accept_and_debit (kb_faucet (build_provisioned_keystore_body config i)) amount gas price = Inl CumulativeBudget)
    \<and> cs_written st' = cs_written st @ [m2_frame n_e report, m4_frame sealed]"
proof -
  obtain n_p n_e report ds1 msg s' where c: "getrandom ds = (Some n_e, ds1)" "fetch (compute_report_data C n_p n_e) = Inr report"
    "cs_written st' = cs_written st @ [m2_frame n_e report, m4_frame sealed]"
    and m3: "on_m3 C S x509 msg report ds1 (new_session root seal_root meas
        \<lparr>ps_n_p := Some n_p, ps_n_e := Some n_e, ps_state := AwaitingM3\<rparr>) = Some (Inr (config, sealed), ds', s')"
    using ceremony_cases [OF assms(1)] by auto
  have ds: "ds = Some n_e # ds1" using c(1) by (auto simp: getrandom_def split: list.splits)
  have "provision_outcome C S x509 (new_session root seal_root meas
      \<lparr>ps_n_p := Some n_p, ps_n_e := Some n_e, ps_state := AwaitingM3\<rparr>) msg n_p n_e (compute_report_hash C report) ds1
      = (Inr (config, sealed), ds')"
    using on_m3_Inr [OF m3] by auto
  then obtain pub where "verify_m3_in_order C x509 msg root n_p n_e (compute_report_hash C report) = Inr (config, pub)"
    using provision_outcome_Inr by (fastforce simp: new_session_def)
  note signed = verified_m3_signed [OF this assms(2)]
  have "genesis_sealed C S seal_root meas ds1 config sealed"
    using provisioned_genesis [OF m3 assms(3-5)] assms(6) by (simp add: ds new_session_def)
  with c signed show ?thesis by (intro exI [of _ n_p] exI [of _ n_e] exI [of _ report]) (simp add: ds genesis_dispenses_nothing)
qed

lemma ceremony_authenticated_witness:
  "\<exists>sealed st'. run_provisioning_ceremony provision_crypto (serde_for sample_genesis) sample_x509 zero32 zero32 [1]
       (\<lambda>_. Inr sample_report) sample_provision_draws sample_ceremony_stream
     = Some (Inr (sample_provision_config, sealed), [], st')
   \<and> genesis_sealed provision_crypto (serde_for sample_genesis) zero32 [1] (tl sample_provision_draws)
       sample_provision_config sealed"
proof -
  obtain sealed st' where run: "run_provisioning_ceremony provision_crypto (serde_for sample_genesis) sample_x509 zero32 zero32 [1]
       (\<lambda>_. Inr sample_report) sample_provision_draws sample_ceremony_stream
     = Some (Inr (sample_provision_config, sealed), [], st')"
    using sample_ceremony by blast
  have "\<forall>d. Some d \<in> set sample_provision_draws \<longrightarrow> length d = 32" by (simp add: sample_provision_draws_def)
  from ceremony_authenticated [OF run sample_sign_only provision_crypto_correct serde_for_correct this] run
  show ?thesis by blast
qed

text \<open>The ceremony always ends without a panic, and one that fails hands out no keystore: whatever the peer, the
  report source and the random generator do, the driver returns, and when it returns an error the only whole frame the peer has
  been sent is an attestation. A write that failed may have sent the first bytes of that frame, or of the one with the sealed blob.\<close>

theorem failed_ceremony_emits_nothing:
  "\<exists>r ds' st'. run_provisioning_ceremony C S x509 root seal_root meas fetch ds st = Some (r, ds', st')
     \<and> ((\<exists>e. r = Inl e) \<longrightarrow> (\<exists>sent. cs_written st' = cs_written st @ sent
          \<and> (sent = [] \<or> (\<exists>n_e report. sent = [m2_frame n_e report])))
        \<and> (cs_cut st' = cs_cut st \<or> (\<exists>n n_e report. cs_cut st' = take n (m2_frame n_e report))
            \<or> (\<exists>n sealed. cs_cut st' = take n (m4_frame sealed))))"
proof -
  obtain r ds' st' where "run_provisioning_ceremony C S x509 root seal_root meas fetch ds st = Some (r, ds', st')"
    using ceremony_total [of C S x509 root seal_root meas fetch ds st] by auto
  with ceremony_cases [OF this] show ?thesis by auto
qed

lemma failed_ceremony_emits_nothing_witness:
  "\<exists>ds' st'. run_provisioning_ceremony provision_crypto (serde_for sample_genesis) sample_x509 zero32 zero32 [1]
       (\<lambda>_. Inr sample_report) sample_provision_draws \<lparr>cs_reads = [], cs_write_ok = [True, True], cs_written = [], cs_part = 0, cs_cut = []\<rparr>
     = Some (Inl Malformed, ds', st') \<and> length (cs_written st') \<le> 1"
proof -
  let ?st = "\<lparr>cs_reads = [], cs_write_ok = [True, True], cs_written = [], cs_part = 0, cs_cut = []\<rparr>"
  have "run_provisioning_ceremony provision_crypto (serde_for sample_genesis) sample_x509 zero32 zero32 [1]
      (\<lambda>_. Inr sample_report) sample_provision_draws ?st = Some (Inl Malformed, sample_provision_draws, ?st)"
    by (simp add: run_provisioning_ceremony_def read_provision_frame_def read_framed_message_with_idle_deadline_def
        read_exact_with_idle_deadline_def)
  moreover obtain r ds' st' where
    "run_provisioning_ceremony provision_crypto (serde_for sample_genesis) sample_x509 zero32 zero32 [1]
       (\<lambda>_. Inr sample_report) sample_provision_draws ?st = Some (r, ds', st')"
    "(\<exists>e. r = Inl e) \<longrightarrow> (\<exists>sent. cs_written st' = cs_written ?st @ sent
          \<and> (sent = [] \<or> (\<exists>n_e report. sent = [m2_frame n_e report])))"
    using failed_ceremony_emits_nothing [of provision_crypto "serde_for sample_genesis" sample_x509 zero32 zero32 "[1]"
        "\<lambda>_. Inr sample_report" sample_provision_draws ?st] by blast
  ultimately show ?thesis by auto
qed

text \<open>C31: An honest provisioner on a live stream gets its keystore. If the stream delivers its challenge and its signed
  configuration however they are split and delayed, both writes succeed, the report is fetched, the scope id drawn is
  no known id and the genesis keystore seals, then the ceremony returns that configuration with the sealed blob and
  has sent the attestation and the blob.\<close>

theorem honest_ceremony_completes:
  assumes "list_all (live_event True) (cs_reads st)" "cs_write_ok st = True # True # oks"
    "stream_bytes (cs_reads st) = provision_frame (prov_encode_envelope MSG_M1_CHALLENGE (encode_m1 n_p))
       @ provision_frame (prov_encode_envelope MSG_M3_CONFIG (m3_payload m3)) @ ys"
    "length n_p = 32" "fetch (compute_report_data C n_p n_e) = Inr report"
    "honest_m3 C x509 root n_p n_e (compute_report_hash C report) config m3"
    "i \<noteq> zero32" "i \<noteq> replicate 32 0xe1" "i \<noteq> replicate 32 0xf1"
    "seal_body C S (build_provisioned_keystore_body config i) seal_root meas (Some (take NONCE_LEN n)) = Inr sealed"
  shows "\<exists>st'. run_provisioning_ceremony C S x509 root seal_root meas fetch (Some n_e # Some i # Some n # ds) st
      = Some (Inr (config, sealed), ds, st')
    \<and> cs_written st' = cs_written st @ [m2_frame n_e report, m4_frame sealed]"
  by (rule ceremony_completes) (fact assms)+

lemma honest_ceremony_completes_witness:
  "\<exists>sealed st'. run_provisioning_ceremony provision_crypto (serde_for sample_genesis) sample_x509 zero32 zero32 [1]
     (\<lambda>_. Inr sample_report) [Some (replicate 32 2), Some (replicate 32 3), Some (replicate 32 4)] sample_ceremony_stream
   = Some (Inr (sample_provision_config, sealed), [], st')"
proof -
  obtain sealed where seal: "seal_body provision_crypto (serde_for sample_genesis)
      (build_provisioned_keystore_body sample_provision_config (replicate 32 3)) zero32 [1]
      (Some (take NONCE_LEN (replicate 32 4))) = Inr sealed"
    using sample_genesis_seals unfolding sample_genesis_def by blast
  have ids: "replicate 32 (3 :: u8) \<noteq> zero32" "replicate 32 (3 :: u8) \<noteq> replicate 32 0xe1"
    "replicate 32 (3 :: u8) \<noteq> replicate 32 0xf1"
    by (simp_all add: zero32_def)
  show ?thesis
    using honest_ceremony_completes [OF sample_stream_live _ _ _ ids seal, where fetch = "\<lambda>_. Inr sample_report"
        and n_e = "replicate 32 2" and report = sample_report and ?x509.0 = sample_x509 and root = zero32 and ds = "[]"]
      sample_m3_honest by auto
qed

text \<open>C30: A session is one-shot. Whatever calls the driver makes and in whatever order, the session does not panic,
  answers at most one challenge and gives at most one configuration message a verdict beyond \<open>Malformed\<close>, so it
  seals at most one keystore; and once it waits for a configuration, the first one it gets, good or bad, uses it up:
  every later call is refused.\<close>

theorem session_one_shot:
  "\<exists>outs ds' s'. session_run C S x509 es ds (new_session root seal_root meas) = Some (outs, ds', s')
     \<and> length (filter attests outs) \<le> 1 \<and> length (filter judged outs) \<le> 1
     \<and> (ps_state s' = AwaitingM3 \<longrightarrow> (\<forall>msg report es'. \<exists>r ds'' s''.
          session_run C S x509 (Config msg report # es') ds' s' = Some (Provisioned r # map refused es', ds'', s'')))"
proof -
  have "session_ok (new_session root seal_root meas)" by (simp add: session_ok_def new_session_def)
  then obtain outs ds' s' where run: "session_run C S x509 es ds (new_session root seal_root meas) = Some (outs, ds', s')"
    "session_ok s'" "length (filter attests outs) \<le> 1" "length (filter judged outs) \<le> 1"
    using session_run_bounds [of "new_session root seal_root meas" C S x509 es ds] by (auto simp: new_session_def)
  moreover have "\<exists>r ds'' s''. session_run C S x509 (Config msg report # es') ds' s' = Some (Provisioned r # map refused es', ds'', s'')"
    if "ps_state s' = AwaitingM3" for msg report es'
    using session_consumed [OF that run(2), of C S x509 msg report es' ds'] by blast
  ultimately show ?thesis by blast
qed

lemma session_one_shot_witness:
  "\<exists>ds' s' r ds'' s''. session_run provision_crypto (serde_for sample_genesis) sample_x509 [Challenge (replicate 32 1)]
       sample_provision_draws (new_session zero32 zero32 [1])
     = Some ([Attested (Inr (replicate 32 2, compute_report_data provision_crypto (replicate 32 1) (replicate 32 2)))], ds', s')
   \<and> session_run provision_crypto (serde_for sample_genesis) sample_x509 [Config [] [], Config [] []] ds' s'
     = Some ([Provisioned r, Provisioned (Inl Malformed)], ds'', s'')"
proof -
  let ?s = "new_session zero32 zero32 [1] \<lparr>ps_n_p := Some (replicate 32 1), ps_n_e := Some (replicate 32 2), ps_state := AwaitingM3\<rparr>"
  have run: "session_run provision_crypto (serde_for sample_genesis) sample_x509 [Challenge (replicate 32 1)]
       sample_provision_draws (new_session zero32 zero32 [1])
     = Some ([Attested (Inr (replicate 32 2, compute_report_data provision_crypto (replicate 32 1) (replicate 32 2)))],
         tl sample_provision_draws, ?s)"
    by (simp add: on_m1_def new_session_def sample_provision_draws_def getrandom_def)
  moreover obtain outs ds' s' where one: "session_run provision_crypto (serde_for sample_genesis) sample_x509 [Challenge (replicate 32 1)]
       sample_provision_draws (new_session zero32 zero32 [1]) = Some (outs, ds', s')"
    "ps_state s' = AwaitingM3 \<longrightarrow> (\<forall>msg report es'. \<exists>r ds'' s''.
        session_run provision_crypto (serde_for sample_genesis) sample_x509 (Config msg report # es') ds' s'
          = Some (Provisioned r # map refused es', ds'', s''))"
    using session_one_shot [of provision_crypto "serde_for sample_genesis" sample_x509 "[Challenge (replicate 32 1)]"
        sample_provision_draws zero32 zero32 "[1]"] by blast
  ultimately have eqs: "ds' = tl sample_provision_draws" "s' = ?s" by simp_all
  have "ps_state s' = AwaitingM3" by (simp add: eqs(2))
  from mp [OF one(2) this] have "\<exists>r ds'' s''. session_run provision_crypto (serde_for sample_genesis) sample_x509
      (Config [] [] # [Config [] []]) (tl sample_provision_draws) ?s
    = Some (Provisioned r # map refused [Config [] []], ds'', s'')"
    unfolding eqs by blast
  with run show ?thesis by auto
qed

text \<open>The provisioning decoders accept one encoding of each message. The envelope, the challenge, the attestation,
  the configuration message, the sealed blob and the configuration decode to a value exactly when the input is the
  encoder's output for it and the value keeps the field widths and caps; a configuration has exactly its seven fields,
  so the peer cannot supply a scope id.\<close>

theorem provision_codecs_exact:
  "(prov_decode_envelope bs = Inr (t, p) \<longleftrightarrow> t \<in> {1, 2, 3, 4} \<and> bs = prov_encode_envelope t p)
   \<and> (decode_m1 bs = Inr r1 \<longleftrightarrow> length (m1_n_p r1) = 32 \<and> bs = encode_m1 (m1_n_p r1))
   \<and> (decode_m2 bs = Inr r2 \<longleftrightarrow> length (m2_n_e r2) = 32 \<and> length (m2_report r2) = 1184
        \<and> bs = encode_m2 (m2_n_e r2) (m2_report r2))
   \<and> (decode_m3 bs = Inr r3 \<longleftrightarrow> m3_ok r3 \<and> bs = m3_payload r3)
   \<and> (decode_m4 bs = Inr r4 \<longleftrightarrow> length (m4_sealed_blob r4) \<le> MAX_KEYSTORE_BLOB_SIZE \<and> bs = encode_m4 (m4_sealed_blob r4))
   \<and> (decode_config_map bs = Inr c \<longleftrightarrow> provision_config_ok c \<and> bs = encode_config_map c)"
  by (intro conjI prov_envelope_exact decode_m1_exact decode_m2_exact decode_m3_exact decode_m4_exact decode_config_exact)

end
