(* ===== verification/Boot_Source.thy ===== *)
theory Boot_Source
  imports Config Ceremony
begin

text \<open>
  Where the agent's keystore comes from at boot: the platform root, the measurement and the sealed blob of
  \<open>boot_agent_keystore.rs\<close>, with the provisioning ceremony as the source of a first boot, and the provisioning
  driver of \<open>agent_gateway_boot.rs\<close>. Nothing here judges freshness and nothing installs a keystore.

  A step maps the machine to its result and the machine after it; the outer \<open>None\<close> is a panic. The Cargo features of
  the build are the record \<open>build\<close>; \<open>agent-gateway\<close> is always on, and the reference root of test builds is not built in.
\<close>

section \<open>The machine\<close>

record build =
  bd_lab_keystore_file :: bool
  bd_root_from_boot_file :: bool
  bd_vsock :: bool
  bd_keygen_preview :: bool
  bd_release :: bool

text \<open>What the boot logs (\<open>agent_gateway_boot.rs\<close>): the raw attempts, leg timeout and overall budget; the same with the nominal
  cost and the slack once validated; the outcome, as the value its line renders.\<close>

datatype agent_boot_event =
    RawBudgetConfig nat nat nat
  | ValidatedBudget nat nat nat nat nat
  | HandshakeOutcome bool boot_driver_outcome

text \<open>A one-shot vsock listener: whether it binds, accepts, arms the timeouts, and the connection it then gets.\<close>

record listener =
  li_bind :: bool
  li_accept :: bool
  li_timeouts :: bool
  li_stream :: ceremony_stream

record 'f machine =
  ma_gateway :: "connections gateway"
  ma_host :: boot_host
  ma_create :: "bytes \<Rightarrow> bytes \<Rightarrow> bytes option"
  ma_listen :: "nat \<times> nat \<Rightarrow> listener"
  ma_tsm :: 'f
  ma_claimed :: bool
  ma_spawn :: "fetch_script list"
  ma_relay :: "nat \<times> nat \<Rightarrow> connections"
  ma_events :: "agent_boot_event list"

record 'f platform =
  pl_crypto :: crypto
  pl_serde :: serde
  pl_x509 :: "bytes \<Rightarrow> x509_certificate option"
  pl_tsm :: "'f tsm_fs"
  pl_build :: build
  pl_features :: features
  pl_writer :: writer
  pl_wire :: ciborium

type_synonym ('s, 'a) step = "'s \<Rightarrow> ((protocol_error + 'a) \<times> 's) option"

definition and_then :: "('s, 'a) step \<Rightarrow> ('a \<Rightarrow> ('s, 'b) step) \<Rightarrow> ('s, 'b) step" where
  "and_then m k s = (case m s of
     None \<Rightarrow> None | Some (Inl e, s) \<Rightarrow> Some (Inl e, s) | Some (Inr x, s) \<Rightarrow> k x s)"

definition pure_step :: "('s \<Rightarrow> protocol_error + 'a) \<Rightarrow> ('s, 'a) step" where
  "pure_step f s = Some (f s, s)"

abbreviation unavailable :: "string \<Rightarrow> protocol_error + 'a" where
  "unavailable label \<equiv> Inl (PqSigningUnavailable label)"

section \<open>The provisioning root\<close>

text \<open>\<open>set_pq_seal_v1_provisioning_root\<close> of \<open>seal_root.rs\<close>: installed once.\<close>

definition set_provisioning_root :: "bytes \<Rightarrow> 'c gateway \<Rightarrow> (protocol_error + unit) \<times> 'c gateway" where
  "set_provisioning_root root g =
     (if gw_root g \<noteq> None then (unavailable ''PQ seal v1 provisioning root already configured'', g)
      else (Inr (), g\<lparr>gw_root := Some root\<rparr>))"

definition PQ_SEAL_ROOT_PATH :: bytes where "PQ_SEAL_ROOT_PATH = ascii ''/run/twod-hsm/pq-seal-root.bin''"

definition exactly_32 :: "string \<Rightarrow> bytes \<Rightarrow> protocol_error + bytes" where
  "exactly_32 label b = (if length b = 32 then Inr b else unavailable label)"

definition derive_agent_provisioning_root :: "build \<Rightarrow> boot_host \<Rightarrow> protocol_error + bytes" where
  "derive_agent_provisioning_root bd h =
     (if bd_lab_keystore_file bd then
        res_bind (map_err (\<lambda>_. PqSigningUnavailable ''agent keystore: TWOD_HSM_PQ_SEAL_V1_ROOT_FILE not set (expected path to a 32-byte provisioning root)'')
            (var_twod (bh_env h) TWOD_HSM_PQ_SEAL_V1_ROOT_FILE LEGACY_HSM_PQ_SEAL_V1_ROOT_FILE)) (\<lambda>path.
        res_bind (read_boot_file_capped h path 32 ''agent keystore: failed to read TWOD_HSM_PQ_SEAL_V1_ROOT_FILE provisioning root'')
          (exactly_32 ''agent keystore: provisioning root file must be exactly 32 bytes''))
      else if bd_root_from_boot_file bd then
        res_bind (read_boot_file_capped h PQ_SEAL_ROOT_PATH 32
            ''agent keystore: failed to read /run/twod-hsm/pq-seal-root.bin (snp-derive-root oneshot)'')
          (exactly_32 ''agent keystore: provisioning root file must be exactly 32 bytes'')
      else unavailable (''agent keystore: platform seal root hook not configured (integrate vTPM/SNP VMPL/Nitro ''
        @ ''set_pq_seal_v1_provisioning_root at boot, or enable lab-agent-keystore-from-file for labs)''))"

definition boot_configure_agent_seal_root :: "build \<Rightarrow> ('f machine, unit) step" where
  "boot_configure_agent_seal_root bd =
     and_then (pure_step (\<lambda>m. derive_agent_provisioning_root bd (ma_host m))) (\<lambda>root m.
       (case set_provisioning_root root (ma_gateway m) of (r, g) \<Rightarrow> Some (r, m\<lparr>ma_gateway := g\<rparr>)))"

section \<open>The measurement\<close>

definition AGENT_KEYSTORE_BOOT_PLACEHOLDER_MEASUREMENT :: bytes where
  "AGENT_KEYSTORE_BOOT_PLACEHOLDER_MEASUREMENT = ascii ''agent-keystore-measurement-placeholder''"
definition AGENT_MEASUREMENT_FILE_MAX_BYTES :: nat where "AGENT_MEASUREMENT_FILE_MAX_BYTES = 4096"

definition agent_boot_measurement :: "build \<Rightarrow> boot_host \<Rightarrow> protocol_error + bytes" where
  "agent_boot_measurement bd h =
     (if bd_lab_keystore_file bd then
        res_bind (case var_twod (bh_env h) TWOD_HSM_ENCLAVE_MEASUREMENT_FILE LEGACY_HSM_ENCLAVE_MEASUREMENT_FILE of
            Inr path \<Rightarrow>
              res_bind (read_boot_file_capped h path AGENT_MEASUREMENT_FILE_MAX_BYTES
                  ''agent keystore: failed to read TWOD_HSM_ENCLAVE_MEASUREMENT_FILE'') (\<lambda>b.
              if length b > AGENT_MEASUREMENT_FILE_MAX_BYTES
              then unavailable ''agent keystore: enclave measurement file exceeds 4 KiB''
              else Inr (trim_trailing_newlines b))
          | Inl _ \<Rightarrow> Inr AGENT_KEYSTORE_BOOT_PLACEHOLDER_MEASUREMENT) (\<lambda>measurement.
        if measurement = [] then unavailable ''agent keystore: enclave measurement must be non-empty''
        else Inr measurement)
      else unavailable (''agent keystore: enclave measurement source not configured (production derives the attested ''
        @ ''48-byte SNP launch measurement; enable lab-agent-keystore-from-file for labs)''))"

section \<open>The operator's root of trust\<close>

text \<open>\<open>str::trim\<close>: the encodings of the code points with the property White\_Space, removed from both ends. On UTF-8
  text no other character starts or ends with one of them.\<close>

definition white_space :: "bytes list" where
  "white_space = [[0x09], [0x0a], [0x0b], [0x0c], [0x0d], [0x20], [0xc2, 0x85], [0xc2, 0xa0], [0xe1, 0x9a, 0x80],
     [0xe2, 0x80, 0x80], [0xe2, 0x80, 0x81], [0xe2, 0x80, 0x82], [0xe2, 0x80, 0x83], [0xe2, 0x80, 0x84], [0xe2, 0x80, 0x85],
     [0xe2, 0x80, 0x86], [0xe2, 0x80, 0x87], [0xe2, 0x80, 0x88], [0xe2, 0x80, 0x89], [0xe2, 0x80, 0x8a], [0xe2, 0x80, 0xa8],
     [0xe2, 0x80, 0xa9], [0xe2, 0x80, 0xaf], [0xe2, 0x81, 0x9f], [0xe3, 0x80, 0x80]]"

definition leading :: "bytes list \<Rightarrow> bytes \<Rightarrow> nat" where
  "leading ws s = (case find (\<lambda>w. w \<noteq> [] \<and> take (length w) s = w) ws of None \<Rightarrow> 0 | Some w \<Rightarrow> length w)"

lemma leading_shorter: "leading ws s \<noteq> 0 \<Longrightarrow> length (drop (leading ws s) s) < length s"
  by (cases s) (auto simp: leading_def find_Some_iff split: option.splits)

function strip :: "bytes list \<Rightarrow> bytes \<Rightarrow> bytes" where
  "strip ws s = (if leading ws s = 0 then s else strip ws (drop (leading ws s) s))"
  by auto
termination by (relation "measure (length \<circ> snd)") (use leading_shorter in auto)

declare strip.simps [simp del]

definition trim_str :: "bytes \<Rightarrow> bytes" where
  "trim_str s = rev (strip (map rev white_space) (rev (strip white_space s)))"

text \<open>\<open>u8::from_str_radix(_, 16)\<close>: an optional plus sign, then hexadecimal digits, at least one, within a byte.\<close>

definition hex_digit :: "u8 \<Rightarrow> nat option" where
  "hex_digit c =
     (if 0x30 \<le> c \<and> c \<le> 0x39 then Some (unat c - 48)
      else if 0x41 \<le> c \<and> c \<le> 0x46 then Some (unat c - 55)
      else if 0x61 \<le> c \<and> c \<le> 0x66 then Some (unat c - 87)
      else None)"

fun radix16 :: "nat \<Rightarrow> bytes \<Rightarrow> nat option" where
  "radix16 acc [] = Some acc"
| "radix16 acc (c # cs) =
     (case hex_digit c of
        None \<Rightarrow> None
      | Some d \<Rightarrow> if acc * 16 + d < 256 then radix16 (acc * 16 + d) cs else None)"

definition u8_from_hex :: "bytes \<Rightarrow> u8 option" where
  "u8_from_hex s =
     (let s = (case s of c # cs \<Rightarrow> if c = 0x2b \<and> cs \<noteq> [] then cs else s | [] \<Rightarrow> s) in
      if s = [] then None else map_option of_nat (radix16 0 s))"

text \<open>\<open>boot_agent_keystore.rs\<close> slices the string: a slice that does not end between two characters panics (the outer
  \<open>None\<close>). \<open>agent_gateway_boot.rs\<close> cuts the bytes, and a pair that is not text does not parse.\<close>

definition continuation_byte :: "u8 \<Rightarrow> bool" where "continuation_byte b \<longleftrightarrow> 0x80 \<le> b \<and> b \<le> 0xbf"

fun hex_slices :: "bytes \<Rightarrow> bytes option option" where
  "hex_slices (a # b # rest) =
     (if (case rest of [] \<Rightarrow> False | c # _ \<Rightarrow> continuation_byte c) then None
      else (case u8_from_hex [a, b] of
          None \<Rightarrow> Some None
        | Some x \<Rightarrow> map_option (map_option (\<lambda>xs. x # xs)) (hex_slices rest)))"
| "hex_slices s = Some (Some [])"

fun hex_chunks :: "bytes \<Rightarrow> bytes option" where
  "hex_chunks (a # b # rest) =
     (case u8_from_hex (if utf8_valid [a, b] then [a, b] else []) of
        None \<Rightarrow> None
      | Some x \<Rightarrow> map_option (\<lambda>xs. x # xs) (hex_chunks rest))"
| "hex_chunks s = Some []"

definition operator_ca_root :: "crypto \<Rightarrow> boot_host \<Rightarrow> (protocol_error + bytes) option" where
  "operator_ca_root C h =
     (case var_twod (bh_env h) TWOD_HSM_OPERATOR_CA_ROOT_HEX LEGACY_HSM_OPERATOR_CA_ROOT_HEX of
        Inl _ \<Rightarrow> Some (unavailable ''agent keystore: TWOD_HSM_OPERATOR_CA_ROOT_HEX not set (the pinned operator CA root pubkey)'')
      | Inr ca_hex \<Rightarrow>
          if length (trim_str ca_hex) \<noteq> 64
          then Some (unavailable ''agent keystore: TWOD_HSM_OPERATOR_CA_ROOT_HEX must be exactly 64 hex chars (32 bytes)'')
          else (case hex_slices (trim_str ca_hex) of
              None \<Rightarrow> None
            | Some None \<Rightarrow> Some (unavailable ''agent keystore: TWOD_HSM_OPERATOR_CA_ROOT_HEX is not valid hex'')
            | Some (Some root) \<Rightarrow>
                Some (if ed_key_ok C root then Inr root
                      else unavailable ''agent keystore: TWOD_HSM_OPERATOR_CA_ROOT_HEX is not a valid Ed25519 public key'')))"

definition provisioning_ca_root :: "crypto \<Rightarrow> boot_host \<Rightarrow> protocol_error + bytes" where
  "provisioning_ca_root C h =
     res_bind (map_err (\<lambda>_. PqSigningUnavailable ''provisioning: TWOD_HSM_OPERATOR_CA_ROOT_HEX not set'')
         (var_twod (bh_env h) TWOD_HSM_OPERATOR_CA_ROOT_HEX LEGACY_HSM_OPERATOR_CA_ROOT_HEX)) (\<lambda>ca_hex.
     if length (trim_str ca_hex) \<noteq> 64
     then unavailable ''provisioning: operator CA root hex must be 64 chars (32 bytes)''
     else
     res_bind (ok_or (PqSigningUnavailable ''provisioning: operator CA root hex decode failed'')
         (hex_chunks (trim_str ca_hex))) (\<lambda>root.
     res_bind (exactly_32 ''provisioning: operator CA root must be exactly 32 bytes'' root) (\<lambda>root.
     if ed_key_ok C root then Inr root
     else unavailable ''provisioning: operator CA root is not a valid Ed25519 verifying key'')))"

section \<open>The ceremony as the keystore source\<close>

text \<open>\<open>LabReportProducer\<close>: the fixed mock report of lab builds.\<close>

definition lab_report :: "bytes \<Rightarrow> provision_error + bytes" where
  "lab_report rdata = Inr (replicate SNP_REPORT_LEN 0)"

definition close_stream :: "nat \<times> nat \<Rightarrow> ceremony_stream \<Rightarrow> 'f machine \<Rightarrow> 'f machine" where
  "close_stream addr st m = m\<lparr>ma_listen := (ma_listen m)(addr := (ma_listen m addr)\<lparr>li_stream := st\<rparr>)\<rparr>"

definition with_draws :: "draws \<Rightarrow> 'f machine \<Rightarrow> 'f machine" where
  "with_draws ds m = m\<lparr>ma_gateway := (ma_gateway m)\<lparr>gw_draws := ds\<rparr>\<rparr>"

text \<open>\<open>provision_bootstrap::vsock\<close>: one listener, one connection, one ceremony.\<close>

definition run_vsock_provisioning_bootstrap :: "'f platform \<Rightarrow> nat \<Rightarrow> nat \<Rightarrow> bytes \<Rightarrow> bytes \<Rightarrow> bytes
    \<Rightarrow> (bytes \<Rightarrow> provision_error + bytes) \<Rightarrow> 'f machine
    \<Rightarrow> ((provision_error + provision_config \<times> bytes) \<times> 'f machine) option" where
  "run_vsock_provisioning_bootstrap P cid port pinned_root seal_root measurement report_producer m =
     (let li = ma_listen m (cid, port) in
      if \<not> li_bind li then Some (Inl Malformed, m)
      else if \<not> li_accept li then Some (Inl Malformed, m)
      else if \<not> li_timeouts li then Some (Inl Malformed, m)
      else (case run_provisioning_ceremony (pl_crypto P) (pl_serde P) (pl_x509 P) pinned_root seal_root measurement
              report_producer (gw_draws (ma_gateway m)) (li_stream li) of
          None \<Rightarrow> None
        | Some (r, ds, st) \<Rightarrow> Some (r, close_stream (cid, port) st (with_draws ds m))))"

text \<open>\<open>File::create\<close> and \<open>write_all\<close>, whose errors are ignored: what the path holds afterwards, if it could be created.\<close>

definition persist :: "bytes \<Rightarrow> bytes \<Rightarrow> 'f machine \<Rightarrow> 'f machine" where
  "persist path blob m =
     (case ma_create m path blob of
        None \<Rightarrow> m
      | Some content \<Rightarrow> m\<lparr>ma_host := (ma_host m)\<lparr>bh_file := (bh_file (ma_host m))(path \<mapsto> content),
            bh_exists := (bh_exists (ma_host m))(path \<mapsto> True)\<rparr>\<rparr>)"

definition keystore_path :: "boot_host \<Rightarrow> var_error + bytes" where
  "keystore_path h = var_twod (bh_env h) TWOD_HSM_AGENT_SEALED_KEYSTORE_FILE LEGACY_HSM_AGENT_SEALED_KEYSTORE_FILE"

definition agent_sealed_keystore_blob_from_provisioning :: "'f platform \<Rightarrow> ('f machine, bytes) step" where
  "agent_sealed_keystore_blob_from_provisioning P =
     and_then (\<lambda>m. map_option (\<lambda>r. (r, m)) (operator_ca_root (pl_crypto P) (ma_host m))) (\<lambda>pinned_root.
     and_then (pure_step (\<lambda>m. map_err (\<lambda>_. PqSigningUnavailable ''agent keystore: invalid provisioning vsock port config (see prior log line)'')
         (provisioning_vsock_port_from_env (bh_env (ma_host m))))) (\<lambda>prov_port.
     and_then (pure_step (\<lambda>m. map_err (\<lambda>_. PqSigningUnavailable ''agent keystore: provisioning root not configured for the sealing ceremony'')
         (resolve_provisioning_root (ma_gateway m)))) (\<lambda>seal_root.
     and_then (pure_step (\<lambda>m. agent_boot_measurement (pl_build P) (ma_host m))) (\<lambda>measurement m.
       (case run_vsock_provisioning_bootstrap P DEFAULT_VSOCK_CID prov_port pinned_root seal_root measurement lab_report m of
          None \<Rightarrow> None
        | Some (Inl _, m) \<Rightarrow> Some (unavailable ''agent keystore: provisioning ceremony failed'', m)
        | Some (Inr (_, sealed_blob), m) \<Rightarrow>
            Some (Inr sealed_blob, case keystore_path (ma_host m) of Inr path \<Rightarrow> persist path sealed_blob m | Inl _ \<Rightarrow> m))))))"

definition agent_sealed_keystore_blob_from_provisioning_or_fail :: "'f platform \<Rightarrow> ('f machine, bytes) step" where
  "agent_sealed_keystore_blob_from_provisioning_or_fail P =
     (if bd_vsock (pl_build P) \<and> bd_lab_keystore_file (pl_build P) then agent_sealed_keystore_blob_from_provisioning P
      else pure_step (\<lambda>_. unavailable (''agent keystore: no sealed keystore file and vsock provisioning unavailable ''
        @ ''(needs Linux + vsock-transport + lab-agent-keystore-from-file)'')))"

definition agent_sealed_keystore_blob :: "'f platform \<Rightarrow> ('f machine, bytes) step" where
  "agent_sealed_keystore_blob P m =
     (if bd_lab_keystore_file (pl_build P) then
        (case keystore_path (ma_host m) of
           Inr path \<Rightarrow>
             (case bh_exists (ma_host m) path of
                Some False \<Rightarrow> agent_sealed_keystore_blob_from_provisioning_or_fail P m
              | None \<Rightarrow> Some (unavailable ''agent keystore: cannot access TWOD_HSM_AGENT_SEALED_KEYSTORE_FILE path'', m)
              | Some True \<Rightarrow>
                  Some (res_bind (read_boot_file_capped (ma_host m) path MAX_KEYSTORE_BLOB_SIZE
                      ''agent keystore: failed to read TWOD_HSM_AGENT_SEALED_KEYSTORE_FILE'') (\<lambda>blob.
                    if length blob > MAX_KEYSTORE_BLOB_SIZE
                    then unavailable ''agent keystore: sealed blob exceeds MAX_KEYSTORE_BLOB_SIZE''
                    else Inr blob), m))
         | Inl _ \<Rightarrow> agent_sealed_keystore_blob_from_provisioning_or_fail P m)
      else Some (unavailable (''agent keystore: sealed source not configured. LAB: set TWOD_HSM_AGENT_SEALED_KEYSTORE_FILE ''
        @ ''or enable lab-agent-keystore-from-file + vsock-transport for the provisioning ceremony. ''
        @ ''PRODUCTION: the attested host-vsock install channel + SNP report fetch are not yet wired.''), m))"

fun map_keystore_error :: "keystore_error \<Rightarrow> protocol_error" where
  "map_keystore_error EmptyMeasurement = PqSigningUnavailable ''agent keystore: empty enclave measurement''"
| "map_keystore_error TooShort = PqSigningUnavailable ''agent keystore: malformed sealed blob''"
| "map_keystore_error keystore_error.BadMagic = PqSigningUnavailable ''agent keystore: malformed sealed blob''"
| "map_keystore_error keystore_error.UnsupportedVersion = PqSigningUnavailable ''agent keystore: unsupported sealed-keystore version''"
| "map_keystore_error MeasurementMismatch =
     PqSigningUnavailable ''agent keystore: sealed measurement does not match enclave measurement''"
| "map_keystore_error AeadKey = PqSigningUnavailable ''agent keystore: sealed blob authentication failed''"
| "map_keystore_error Decrypt = PqSigningUnavailable ''agent keystore: sealed blob authentication failed''"
| "map_keystore_error Encrypt = PqSigningUnavailable ''agent keystore: seal-path crypto failure''"
| "map_keystore_error keystore_error.Csprng = PqSigningUnavailable ''agent keystore: seal-path crypto failure''"
| "map_keystore_error InvalidStructuralVersion =
     PqSigningUnavailable ''agent keystore: invalid structural_version (must be >= 1)''"
| "map_keystore_error MonotonicOverflow = PqSigningUnavailable ''agent keystore: monotonic counter overflow''"
| "map_keystore_error AuditBackpressure = PqSigningUnavailable ''agent keystore: audit-ring backpressure''"
| "map_keystore_error _ = PqSigningUnavailable ''agent keystore: invalid keystore body''"

definition unseal_agent_keystore_at_boot :: "'f platform \<Rightarrow> ('f machine, keystore_body \<times> bytes) step" where
  "unseal_agent_keystore_at_boot P =
     and_then (pure_step (\<lambda>m. agent_boot_measurement (pl_build P) (ma_host m))) (\<lambda>measurement.
     and_then (agent_sealed_keystore_blob P) (\<lambda>blob.
     and_then (pure_step (\<lambda>m. map_err (\<lambda>_. PqSigningUnavailable ''agent keystore: provisioning root not configured (run boot_configure_agent_seal_root at boot)'')
         (resolve_provisioning_root (ma_gateway m)))) (\<lambda>root.
     pure_step (\<lambda>_. res_bind (map_err map_keystore_error (unseal_body (pl_crypto P) (pl_serde P) blob root measurement))
       (\<lambda>body. Inr (body, measurement))))))"

section \<open>The provisioning driver (agent_gateway_boot.rs)\<close>

text \<open>Every write call of the driver is one write of the stream; a flush writes nothing.\<close>

definition recv_frame :: "ceremony_stream \<Rightarrow> (protocol_error + bytes) \<times> ceremony_stream" where
  "recv_frame st =
     (case read_exact_with_idle_deadline False 4 (cs_reads st) of
        (Inl _, es) \<Rightarrow> (unavailable ''provisioning: frame header read failed'', st\<lparr>cs_reads := es\<rparr>)
      | (Inr len_buf, es) \<Rightarrow>
          if be_val len_buf > MAX_MESSAGE_SIZE
          then (unavailable ''provisioning: frame too large'', st\<lparr>cs_reads := es\<rparr>)
          else (case read_exact_with_idle_deadline False (be_val len_buf) es of
              (Inl _, es) \<Rightarrow> (unavailable ''provisioning: frame body read failed'', st\<lparr>cs_reads := es\<rparr>)
            | (Inr buf, es) \<Rightarrow> (Inr buf, st\<lparr>cs_reads := es\<rparr>)))"

definition send_frame :: "bytes \<Rightarrow> ceremony_stream \<Rightarrow> (protocol_error + unit) \<times> ceremony_stream" where
  "send_frame data st =
     (case write_framed_message (be32 (of_nat (length data))) st of
        (False, st) \<Rightarrow> (unavailable ''provisioning: frame header write failed'', st)
      | (True, st) \<Rightarrow>
          (case write_framed_message data st of
             (False, st) \<Rightarrow> (unavailable ''provisioning: frame body write failed'', st)
           | (True, st) \<Rightarrow>
               (case write_framed_message [] st of
                  (False, st) \<Rightarrow> (unavailable ''provisioning: frame flush failed'', st)
                | (True, st) \<Rightarrow> (Inr (), st))))"

text \<open>The seam of the handshake, over any report source.\<close>

definition finish_provisioning_handshake :: "crypto \<Rightarrow> serde \<Rightarrow> (bytes \<Rightarrow> x509_certificate option) \<Rightarrow> bytes \<Rightarrow> draws
    \<Rightarrow> ceremony_stream \<Rightarrow> provision_session
    \<Rightarrow> ((protocol_error + bytes) \<times> draws \<times> ceremony_stream \<times> provision_session) option" where
  "finish_provisioning_handshake C S x509 report ds st session =
     (case recv_frame st of
        (Inl e, st) \<Rightarrow> Some (Inl e, ds, st, session)
      | (Inr m3_raw, st) \<Rightarrow>
          (case on_m3 C S x509 m3_raw report ds session of
             None \<Rightarrow> None
           | Some (Inl _, ds, session) \<Rightarrow>
               Some (unavailable (''provisioning: on_m3 failed '' @ ''- session consumed (restart required)''), ds, st, session)
           | Some (Inr (_, sealed_blob), ds, session) \<Rightarrow>
               (case send_frame (prov_encode_envelope MSG_M4_SEALED (encode_m4 sealed_blob)) st of
                  (r, st) \<Rightarrow> Some (res_bind r (\<lambda>_. Inr sealed_blob), ds, st, session))))"

definition provisioning_challenge :: "bytes \<Rightarrow> protocol_error + bytes" where
  "provisioning_challenge m1_raw =
     res_bind (map_err (\<lambda>_. PqSigningUnavailable ''provisioning: M1 envelope decode failed'')
         (prov_decode_envelope m1_raw)) (\<lambda>(m1_type, m1_payload).
     res_bind (map_err (\<lambda>_. PqSigningUnavailable ''provisioning: M1 wrong msg_type'')
         (validate_inbound handshake_step.AwaitingM1 m1_type)) (\<lambda>_.
     res_bind (map_err (\<lambda>_. PqSigningUnavailable ''provisioning: M1 decode failed'') (decode_m1 m1_payload)) (\<lambda>m1.
     Inr (m1_n_p m1))))"

definition drive_provisioning_handshake :: "crypto \<Rightarrow> serde \<Rightarrow> (bytes \<Rightarrow> x509_certificate option)
    \<Rightarrow> (bytes \<Rightarrow> 'f \<Rightarrow> (protocol_error + bytes \<times> bytes) \<times> 'f) \<Rightarrow> 'f \<Rightarrow> draws \<Rightarrow> ceremony_stream \<Rightarrow> provision_session
    \<Rightarrow> ((protocol_error + bytes) \<times> 'f \<times> draws \<times> ceremony_stream \<times> provision_session) option" where
  "drive_provisioning_handshake C S x509 fetch_report f ds st session =
     (case recv_frame st of
        (Inl e, st) \<Rightarrow> Some (Inl e, f, ds, st, session)
      | (Inr m1_raw, st) \<Rightarrow>
          (case provisioning_challenge m1_raw of
             Inl e \<Rightarrow> Some (Inl e, f, ds, st, session)
           | Inr n_p \<Rightarrow>
               (case on_m1 C n_p ds session of
                  (Inl _, ds, session) \<Rightarrow> Some (unavailable ''provisioning: on_m1 failed'', f, ds, st, session)
                | (Inr (n_e, rdata), ds, session) \<Rightarrow>
                    (case fetch_report rdata f of
                       (Inl e, f) \<Rightarrow> Some (Inl e, f, ds, st, session)
                     | (Inr (report, _), f) \<Rightarrow>
                         (case send_frame (prov_encode_envelope MSG_M2_ATTEST (encode_m2 n_e report)) st of
                            (Inl e, st) \<Rightarrow> Some (Inl e, f, ds, st, session)
                          | (Inr _, st) \<Rightarrow>
                              map_option (\<lambda>(r, x). (r, f, x)) (finish_provisioning_handshake C S x509 report ds st session))))))"

definition fetch_tsm_report :: "'f platform \<Rightarrow> bytes \<Rightarrow> ('f machine, bytes \<times> bytes) step" where
  "fetch_tsm_report P rdata m =
     (case fetch_report_with (pl_tsm P) rdata (ma_tsm m) of (r, f) \<Rightarrow> Some (r, m\<lparr>ma_tsm := f\<rparr>))"

definition accept_provisioner :: "nat \<Rightarrow> 'f machine \<Rightarrow> protocol_error + ceremony_stream" where
  "accept_provisioner port m =
     (let li = ma_listen m (DEFAULT_VSOCK_CID, port) in
      if \<not> li_bind li then unavailable ''provisioning: vsock bind failed (see prior log line)''
      else if \<not> li_accept li then unavailable ''provisioning: accept failed (see prior log line)''
      else if \<not> li_timeouts li then unavailable ''provisioning: session timeout config failed''
      else Inr (li_stream li))"

definition run_provisioning_bootstrap :: "'f platform \<Rightarrow> bytes \<Rightarrow> ('f machine, keystore_body \<times> bytes) step" where
  "run_provisioning_bootstrap P seal_root =
     and_then (fetch_tsm_report P (replicate 64 0)) (\<lambda>(dummy_report, _).
     and_then (pure_step (\<lambda>_. measurement_from_report dummy_report)) (\<lambda>measurement.
     and_then (pure_step (\<lambda>m. provisioning_ca_root (pl_crypto P) (ma_host m))) (\<lambda>ca_root.
     and_then (pure_step (\<lambda>m. map_err (\<lambda>_. PqSigningUnavailable ''provisioning: invalid provisioning vsock port (see prior log line)'')
         (provisioning_vsock_port_from_env (bh_env (ma_host m))))) (\<lambda>port.
     and_then (pure_step (accept_provisioner port)) (\<lambda>stream.
     and_then (\<lambda>m. map_option (\<lambda>(r, f, ds, st, _). (r, close_stream (DEFAULT_VSOCK_CID, port) st (with_draws ds (m\<lparr>ma_tsm := f\<rparr>))))
         (drive_provisioning_handshake (pl_crypto P) (pl_serde P) (pl_x509 P) (fetch_report_with (pl_tsm P)) (ma_tsm m)
            (gw_draws (ma_gateway m)) stream (new_session ca_root seal_root measurement))) (\<lambda>sealed_blob.
     pure_step (\<lambda>_. res_bind (map_err (\<lambda>_. PqSigningUnavailable ''provisioning: unseal of freshly-provisioned blob failed'')
         (unseal_body (pl_crypto P) (pl_serde P) sealed_blob seal_root measurement)) (\<lambda>body. Inr (body, measurement)))))))))"

text \<open>Step (B) of the boot: which source.\<close>

definition agent_keystore_source :: "'f platform \<Rightarrow> ('f machine, keystore_body \<times> bytes) step" where
  "agent_keystore_source P m =
     (if bd_vsock (pl_build P) \<and> provisioning_mode_enabled (bh_env (ma_host m))
      then and_then (pure_step (\<lambda>m. resolve_provisioning_root (ma_gateway m))) (run_provisioning_bootstrap P) m
      else unseal_agent_keystore_at_boot P m)"

section \<open>Steps\<close>

lemma and_then_Inr: "and_then p k s = Some (Inr y, s'') \<longleftrightarrow> (\<exists>x s'. p s = Some (Inr x, s') \<and> k x s' = Some (Inr y, s''))"
  by (auto simp: and_then_def split: option.splits sum.splits)

lemma and_then_Inl:
  "and_then p k s = Some (Inl e, s'') \<longleftrightarrow> p s = Some (Inl e, s'') \<or> (\<exists>x s'. p s = Some (Inr x, s') \<and> k x s' = Some (Inl e, s''))"
  by (auto simp: and_then_def split: option.splits sum.splits)

lemma pure_step_Some: "pure_step f s = Some (r, s') \<longleftrightarrow> r = f s \<and> s' = s"
  by (auto simp: pure_step_def)

lemma pure_step_Inr: "pure_step f s = Some (Inr x, s') \<longleftrightarrow> f s = Inr x \<and> s' = s"
  by (auto simp: pure_step_def)

text \<open>A relation that a step keeps.\<close>

definition keeps :: "('s \<Rightarrow> 's \<Rightarrow> bool) \<Rightarrow> ('s, 'a) step \<Rightarrow> bool" where
  "keeps R p \<longleftrightarrow> (\<forall>s r s'. p s = Some (r, s') \<longrightarrow> R s s')"

lemma keeps_pure [simp]: "reflp R \<Longrightarrow> keeps R (pure_step f)"
  by (auto simp: keeps_def pure_step_def reflp_def)

lemma keeps_and_then:
  assumes "transp R" "keeps R p" "\<And>x. keeps R (k x)"
  shows "keeps R (and_then p k)"
  using assms unfolding keeps_def and_then_def transp_def
  by (fastforce split: option.splits sum.splits)

section \<open>The two parsers of the operator root agree\<close>

lemma u8_from_hex_ascii: "u8_from_hex [a, b] = Some x \<Longrightarrow> a < 0x80 \<and> b < 0x80"
  by (auto simp: u8_from_hex_def Let_def hex_digit_def word_le_nat_alt word_less_nat_alt split: if_splits option.splits)

lemma u8_from_hex_chunk: "u8_from_hex (if utf8_valid [a, b] then [a, b] else []) = u8_from_hex [a, b]"
proof (cases "utf8_valid [a, b]")
  case False
  then have "u8_from_hex [a, b] = None"
    using u8_from_hex_ascii [of a b] utf8_valid_ascii [of "[a, b]"] by (cases "u8_from_hex [a, b]") auto
  moreover have "u8_from_hex [] = None" by (simp add: u8_from_hex_def)
  ultimately show ?thesis using False by presburger
qed presburger

lemma hex_slices_chunks: "hex_slices s = Some r \<Longrightarrow> r = hex_chunks s"
proof (induction s arbitrary: r rule: hex_slices.induct)
  case (1 a b rest)
  then show ?case unfolding hex_chunks.simps u8_from_hex_chunk
    by (auto split: option.splits if_splits)
qed auto

lemma hex_chunks_continuation: "even (length s) \<Longrightarrow> s = c # cs \<Longrightarrow> continuation_byte c \<Longrightarrow> hex_chunks s = None"
proof (induction s rule: hex_chunks.induct)
  case (1 a b rest)
  then have "continuation_byte a" by simp
  then have "\<not> a < 0x80" by (simp add: continuation_byte_def not_less)
  then have "u8_from_hex [a, b] = None" using u8_from_hex_ascii by fastforce
  then show ?case unfolding hex_chunks.simps u8_from_hex_chunk by simp
qed auto

lemma hex_slices_panic: "hex_slices s = None \<Longrightarrow> even (length s) \<Longrightarrow> hex_chunks s = None"
proof (induction s rule: hex_slices.induct)
  case (1 a b rest)
  show ?case
  proof (cases "case rest of [] \<Rightarrow> False | c # _ \<Rightarrow> continuation_byte c")
    case True
    then obtain c cs where "rest = c # cs" "continuation_byte c" by (auto split: list.splits)
    then have "hex_chunks rest = None" using hex_chunks_continuation [of rest] 1(3) by simp
    then show ?thesis unfolding hex_chunks.simps u8_from_hex_chunk by (simp split: option.split)
  next
    case False
    then show ?thesis
      using 1 unfolding hex_chunks.simps u8_from_hex_chunk by (auto split: option.splits)
  qed
qed auto

lemma hex_slices_iff: "even (length s) \<Longrightarrow> hex_slices s = Some (Some r) \<longleftrightarrow> hex_chunks s = Some r"
  using hex_slices_chunks [of s] hex_slices_panic [of s] by (cases "hex_slices s") auto

lemma length_hex_chunks: "hex_chunks s = Some r \<Longrightarrow> length r = length s div 2"
proof (induction s arbitrary: r rule: hex_chunks.induct)
  case (1 a b rest)
  then show ?case unfolding hex_chunks.simps u8_from_hex_chunk by (auto split: option.splits)
qed auto

lemma hex_digit_HEX: "n < 16 \<Longrightarrow> hex_digit (HEX ! n) = Some n \<and> HEX ! n \<noteq> 0x2b"
proof -
  have u: "[0..<16] = [0, 1, 2, 3, 4, 5, 6, 7, 8, 9, 10, 11, 12, 13, 14, 15 :: nat]" by (simp add: upt_rec)
  have "list_all (\<lambda>n. hex_digit (HEX ! n) = Some n \<and> HEX ! n \<noteq> 0x2b) [0..<16]"
    unfolding u by (simp add: HEX_bytes hex_digit_def)
  then show "n < 16 \<Longrightarrow> ?thesis" by (simp add: list_all_iff del: upt_conv_Cons)
qed

lemma hex_pair: "u8_from_hex [HEX ! unat (drop_bit 4 b), HEX ! unat (b AND 0x0f)] = Some b"
proof -
  have "unat (drop_bit 4 b) = unat b div 2 ^ 4" by (simp only: unat_drop_bit_eq drop_bit_eq_div [where 'a = nat])
  moreover have "unat (b AND 0x0f) = unat b mod 2 ^ 4"
  proof -
    have "b AND 0x0f = take_bit 4 b" by (simp add: take_bit_eq_mask mask_eq_exp_minus_1)
    then show ?thesis by (simp only: unsigned_take_bit_eq take_bit_eq_mod [where 'a = nat])
  qed
  ultimately have "unat (drop_bit 4 b) * 16 + unat (b AND 0x0f) = unat b" using div_mult_mod_eq [of "unat b" 16] by simp
  then show ?thesis
    using hex_digit_HEX nibbles [of b] unat_less_word [of b] by (simp add: u8_from_hex_def)
qed

lemma hex_chunks_hex: "hex_chunks (hex128 r) = Some r"
proof (induction r)
  case (Cons b r)
  have "hex128 (b # r) = HEX ! unat (drop_bit 4 b) # HEX ! unat (b AND 0x0f) # hex128 r" by (simp add: hex128_def)
  then show ?case using Cons hex_pair [of b] unfolding \<open>hex128 (b # r) = _\<close> hex_chunks.simps u8_from_hex_chunk by simp
qed (simp add: hex128_def)

lemma strip_id:
  assumes "s \<noteq> []" "\<forall>w \<in> set ws. hd w \<noteq> hd s"
  shows "strip ws s = s"
proof -
  have "take (length w) s = w \<Longrightarrow> w \<noteq> [] \<Longrightarrow> hd w = hd s" for w by (metis hd_take length_greater_0_conv)
  then have "find (\<lambda>w. w \<noteq> [] \<and> take (length w) s = w) ws = None" using assms(2) by (auto simp: find_None_iff)
  then have "leading ws s = 0" by (simp add: leading_def)
  then show ?thesis by (simp add: strip.simps [of ws s])
qed

lemma no_white_hex: "\<forall>w \<in> set white_space. hd w \<notin> set HEX \<and> hd (rev w) \<notin> set HEX"
  by code_simp

lemma hex128_HEX: "x \<in> set (hex128 d) \<Longrightarrow> x \<in> set HEX"
proof -
  have "length HEX = 16" by (simp add: HEX_def)
  then have "HEX ! unat (drop_bit 4 b) \<in> set HEX" "HEX ! unat (b AND 0x0f) \<in> set HEX" for b :: u8
    using nibbles by simp_all
  then show "x \<in> set (hex128 d) \<Longrightarrow> x \<in> set HEX" by (auto simp: hex128_def)
qed

lemma trim_hex: "d \<noteq> [] \<Longrightarrow> trim_str (hex128 d) = hex128 d"
proof -
  assume "d \<noteq> []"
  then have ne: "hex128 d \<noteq> []" "rev (hex128 d) \<noteq> []" using length_hex128 [of d] by auto
  then have "hd (hex128 d) \<in> set HEX" "hd (rev (hex128 d)) \<in> set HEX"
    using hex128_HEX [of _ d] by (metis hd_in_set, metis hd_in_set set_rev)
  then have "strip white_space (hex128 d) = hex128 d" "strip (map rev white_space) (rev (hex128 d)) = rev (hex128 d)"
    using no_white_hex by (intro strip_id ne ballI; fastforce)+
  then show ?thesis by (simp add: trim_str_def)
qed

lemma operator_ca_root_iff: "operator_ca_root C h = Some (Inr root) \<longleftrightarrow> provisioning_ca_root C h = Inr root"
proof (cases "var_twod (bh_env h) TWOD_HSM_OPERATOR_CA_ROOT_HEX LEGACY_HSM_OPERATOR_CA_ROOT_HEX")
  case (Inr s)
  show ?thesis
  proof (cases "length (trim_str s) = 64")
    case True
    have "hex_chunks (trim_str s) = Some r \<Longrightarrow> length r = 32" for r using length_hex_chunks [of "trim_str s" r] True by simp
    moreover have "hex_slices (trim_str s) = Some (Some root) \<longleftrightarrow> hex_chunks (trim_str s) = Some root"
      using hex_slices_iff True by simp
    ultimately show ?thesis
      using Inr True
      by (auto simp: operator_ca_root_def provisioning_ca_root_def exactly_32_def res_simps split: option.splits if_splits)
  qed (simp add: operator_ca_root_def provisioning_ca_root_def Inr)
qed (simp add: operator_ca_root_def provisioning_ca_root_def)

text \<open>both doors of a first boot pin the same operator root: whatever the variable holds, one accepts a root exactly
  when the other accepts the same one, it then has 32 bytes and is a key, and any key written in lower-case
  hexadecimal is read back exactly.\<close>

theorem operator_root_parsers_agree:
  "(operator_ca_root C h = Some (Inr root) \<longleftrightarrow> provisioning_ca_root C h = Inr root)
   \<and> (provisioning_ca_root C h = Inr root \<longrightarrow> length root = 32 \<and> ed_key_ok C root)
   \<and> (length key = 32 \<longrightarrow> ed_key_ok C key \<longrightarrow>
        provisioning_ca_root C (h\<lparr>bh_env := (bh_env h)(TWOD_HSM_OPERATOR_CA_ROOT_HEX \<mapsto> hex128 key)\<rparr>) = Inr key)"
proof (intro conjI impI)
  show "operator_ca_root C h = Some (Inr root) \<longleftrightarrow> provisioning_ca_root C h = Inr root" by (rule operator_ca_root_iff)
next
  assume "provisioning_ca_root C h = Inr root"
  then show "length root = 32" "ed_key_ok C root"
    by (auto simp: provisioning_ca_root_def exactly_32_def res_simps split: if_splits)
next
  assume key: "length key = 32" "ed_key_ok C key"
  show "provisioning_ca_root C (h\<lparr>bh_env := (bh_env h)(TWOD_HSM_OPERATOR_CA_ROOT_HEX \<mapsto> hex128 key)\<rparr>) = Inr key"
  proof -
    have "utf8_valid (hex128 key)" by (rule utf8_valid_ascii [OF hex128_ascii])
    moreover have "key \<noteq> []" using key by auto
    ultimately show ?thesis
      using key trim_hex [of key]
      by (simp add: provisioning_ca_root_def var_twod_def env_var_def length_hex128 hex_chunks_hex exactly_32_def)
  qed
qed

lemma operator_root_parsers_agree_witness:
  "provisioning_ca_root provision_crypto \<lparr>bh_env = [TWOD_HSM_OPERATOR_CA_ROOT_HEX \<mapsto> hex128 (replicate 32 0xab)],
     bh_file = (\<lambda>_. None), bh_exists = (\<lambda>_. None)\<rparr> = Inr (replicate 32 0xab)"
  using operator_root_parsers_agree [of provision_crypto "\<lparr>bh_env = Map.empty, bh_file = \<lambda>_. None, bh_exists = \<lambda>_. None\<rparr>"
      "[]" "replicate 32 0xab"]
  by (simp add: provision_crypto_def sample_crypto_def)

text \<open>Where they differ: a value of 64 bytes with a character across a pair boundary panics in one.\<close>

lemma split_character_panics:
  "operator_ca_root C \<lparr>bh_env = [TWOD_HSM_OPERATOR_CA_ROOT_HEX \<mapsto> 0x30 # 0xc3 # 0xa9 # replicate 61 0x30],
     bh_file = f, bh_exists = x\<rparr> = None"
proof -
  let ?s = "0x30 # 0xc3 # 0xa9 # replicate 61 0x30 :: bytes"
  have "utf8_valid ?s" using utf8_valid_ascii [of "replicate 61 0x30"] by (simp add: utf8_cont_def)
  moreover have "trim_str ?s = ?s"
    unfolding trim_str_def by (subst strip_id; simp add: white_space_def)+
  ultimately show ?thesis
    by (simp add: operator_ca_root_def var_twod_def env_var_def continuation_byte_def)
qed

section \<open>The keystore source\<close>

text \<open>A ceremony only uses up random draws.\<close>

lemma provision_outcome_subset: "set (snd (provision_outcome C S x509 s msg n_p n_e h ds)) \<subseteq> set ds"
proof -
  have m: "set (snd (mint_enclave_scope_id ds)) \<subseteq> set ds"
    using getrandom_subset [of ds] by (auto simp: mint_enclave_scope_id_def split: prod.splits)
  have s: "set (snd (seal_provisioned_keystore C S config i root meas ds)) \<subseteq> set ds" for config i root meas ds
    using seal_body_rng_subset [of C S "build_provisioned_keystore_body config i" root meas ds]
    by (auto simp: seal_provisioned_keystore_def split: prod.splits sum.splits)
  obtain r ds1 where r: "mint_enclave_scope_id ds = (r, ds1)" by fastforce
  have "set ds1 \<subseteq> set ds" using m r by simp
  moreover have "set ds2 \<subseteq> set ds1" if "seal_provisioned_keystore C S config i root meas ds1 = (q, ds2)" for config i root meas q ds2
    using s [of config i root meas ds1] that by simp
  ultimately show ?thesis using r
    by (auto simp: provision_outcome_def split: prod.splits sum.splits) blast+
qed

lemma on_m1_subset: "on_m1 C n_p ds s = (r, ds', s') \<Longrightarrow> set ds' \<subseteq> set ds"
  using getrandom_subset [of ds] by (auto simp: on_m1_def split: prod.splits option.splits if_splits)

lemma on_m3_subset: "on_m3 C S x509 msg report ds s = Some (r, ds', s') \<Longrightarrow> set ds' \<subseteq> set ds"
proof -
  assume a: "on_m3 C S x509 msg report ds s = Some (r, ds', s')"
  show "set ds' \<subseteq> set ds"
  proof (cases "ps_state s = AwaitingM3")
    case True
    then obtain n_p n_e where "provision_outcome C S x509 s msg n_p n_e (compute_report_hash C report) ds = (r, ds')"
      using a by (auto simp: on_m3_def split: Option.bind_splits prod.splits)
    then show ?thesis using provision_outcome_subset [of C S x509 s msg n_p n_e "compute_report_hash C report" ds] by simp
  qed (use a in \<open>auto simp: on_m3_def\<close>)
qed

lemma ceremony_subset:
  "run_provisioning_ceremony C S x509 root seal meas fetch ds st = Some (r, ds', st') \<Longrightarrow> set ds' \<subseteq> set ds"
  using on_m1_subset on_m3_subset
  unfolding run_provisioning_ceremony_def finish_ceremony_def Let_def
  by (auto split: prod.splits sum.splits option.splits) (meson subset_eq)+

lemma handshake_subset:
  "drive_provisioning_handshake C S x509 fetch f ds st s = Some (r, f', ds', st', s') \<Longrightarrow> set ds' \<subseteq> set ds"
  using on_m1_subset on_m3_subset
  unfolding drive_provisioning_handshake_def finish_provisioning_handshake_def
  by (auto split: prod.splits sum.splits option.splits) (meson subset_eq)+

text \<open>What a source never touches: everything of the gateway but the random draws it uses up, and the boot's other means.\<close>

definition same_custody :: "'f machine \<Rightarrow> 'f machine \<Rightarrow> bool" where
  "same_custody m m' \<longleftrightarrow> gw_keystore (ma_gateway m') = gw_keystore (ma_gateway m)
     \<and> gw_root (ma_gateway m') = gw_root (ma_gateway m) \<and> gw_channel (ma_gateway m') = gw_channel (ma_gateway m)
     \<and> gw_process (ma_gateway m') = gw_process (ma_gateway m)
     \<and> set (gw_draws (ma_gateway m')) \<subseteq> set (gw_draws (ma_gateway m))
     \<and> ma_claimed m' = ma_claimed m \<and> ma_spawn m' = ma_spawn m \<and> ma_relay m' = ma_relay m \<and> ma_events m' = ma_events m
     \<and> ma_create m' = ma_create m \<and> bh_env (ma_host m') = bh_env (ma_host m)"

lemma same_custody_refl [simp]: "same_custody m m"
  by (simp add: same_custody_def)

lemma same_custody_trans: "same_custody m m' \<Longrightarrow> same_custody m' m'' \<Longrightarrow> same_custody m m''"
  unfolding same_custody_def by auto

lemma same_custody_rel [simp]: "reflp same_custody" "transp same_custody"
  using same_custody_trans by (auto simp: reflp_def transp_def)

lemma same_custody_updates [simp]:
  "same_custody m (close_stream addr st m') = same_custody m m'"
  "same_custody m (m'\<lparr>ma_tsm := f\<rparr>) = same_custody m m'"
  by (simp_all add: same_custody_def close_stream_def)

lemma same_custody_draws: "set ds \<subseteq> set (gw_draws (ma_gateway m)) \<Longrightarrow> same_custody m (with_draws ds m)"
  by (auto simp: same_custody_def with_draws_def)

lemma same_custody_persist [simp]: "same_custody m (persist path blob m') = same_custody m m'"
  by (auto simp: same_custody_def persist_def split: option.split)

lemma vsock_bootstrap_custody:
  "run_vsock_provisioning_bootstrap P cid port root seal meas rp m = Some (r, m') \<Longrightarrow> same_custody m m'"
  using ceremony_subset
  by (fastforce simp: run_vsock_provisioning_bootstrap_def Let_def same_custody_draws split: if_splits option.splits)

lemma from_provisioning_custody: "keeps same_custody (agent_sealed_keystore_blob_from_provisioning P)"
proof -
  have "keeps same_custody (\<lambda>m. map_option (\<lambda>r. (r, m)) (operator_ca_root C (ma_host m)))" for C
    by (auto simp: keeps_def)
  then show ?thesis
    unfolding agent_sealed_keystore_blob_from_provisioning_def
    by (intro keeps_and_then) (auto simp: keeps_def pure_step_Some split: option.splits sum.splits dest!: vsock_bootstrap_custody)
qed

lemma sealed_blob_custody: "keeps same_custody (agent_sealed_keystore_blob P)"
  using from_provisioning_custody [of P]
  by (auto simp: keeps_def agent_sealed_keystore_blob_def agent_sealed_keystore_blob_from_provisioning_or_fail_def
      pure_step_def split: if_splits sum.splits option.splits bool.splits)

lemma keystore_source_custody: "keeps same_custody (agent_keystore_source P)"
proof -
  have f: "keeps same_custody (fetch_tsm_report P r)" for r
    by (auto simp: keeps_def fetch_tsm_report_def split: prod.splits)
  have h: "keeps same_custody (\<lambda>m. map_option
      (\<lambda>(r, f, ds, st, _). (r, close_stream addr st (with_draws ds (m\<lparr>ma_tsm := f\<rparr>))))
      (drive_provisioning_handshake C S x fetch (ma_tsm m) (gw_draws (ma_gateway m)) stream session))"
    for addr C S x fetch stream session
    unfolding keeps_def
  proof (intro allI impI)
    fix m r m'
    assume "map_option (\<lambda>(r, f, ds, st, _). (r, close_stream addr st (with_draws ds (m\<lparr>ma_tsm := f\<rparr>))))
      (drive_provisioning_handshake C S x fetch (ma_tsm m) (gw_draws (ma_gateway m)) stream session) = Some (r, m')"
    then obtain f ds st s where
      h: "drive_provisioning_handshake C S x fetch (ma_tsm m) (gw_draws (ma_gateway m)) stream session = Some (r, f, ds, st, s)"
      and m': "m' = close_stream addr st (with_draws ds (m\<lparr>ma_tsm := f\<rparr>))"
      by auto
    show "same_custody m m'"
      using handshake_subset [OF h] by (simp add: m' same_custody_def with_draws_def close_stream_def)
  qed
  have "keeps same_custody (run_provisioning_bootstrap P root)" for root
    unfolding run_provisioning_bootstrap_def split_def
    by (intro keeps_and_then keeps_pure same_custody_rel f h [unfolded split_def])
  moreover have "keeps same_custody (unseal_agent_keystore_at_boot P)"
    unfolding unseal_agent_keystore_at_boot_def
    by (intro keeps_and_then keeps_pure same_custody_rel sealed_blob_custody)
  ultimately show ?thesis
    by (auto simp: agent_keystore_source_def keeps_def and_then_Inr and_then_def pure_step_def split: if_splits sum.splits)
qed

text \<open>A blob that this boot's ceremony sealed: for a configuration that was signed for its nonces and its report.\<close>

definition provisioned_by :: "'f platform \<Rightarrow> (bytes \<times> bytes \<times> bytes \<times> bytes) set \<Rightarrow> draws \<Rightarrow> bytes \<Rightarrow> bytes \<Rightarrow> bytes \<Rightarrow> bool" where
  "provisioned_by P H ds root meas blob \<longleftrightarrow> (\<exists>config n_p n_e report ds1. ds = Some n_e # ds1
     \<and> (encode_config_map config, n_p, n_e, compute_report_hash (pl_crypto P) report) \<in> H
     \<and> genesis_sealed (pl_crypto P) (pl_serde P) root meas ds1 config blob)"

definition platform_correct :: "'f platform \<Rightarrow> bool" where
  "platform_correct P \<longleftrightarrow> sha3_digest_len (pl_crypto P) \<and> aead_correct (pl_crypto P) \<and> serde_correct (pl_serde P)"

lemma judged_genesis:
  assumes "on_m3 (pl_crypto P) (pl_serde P) (pl_x509 P) msg report ds1
      (new_session ca root meas\<lparr>ps_n_p := Some n_p, ps_n_e := Some n_e, ps_state := AwaitingM3\<rparr>) = Some (Inr (config, sealed), ds', s')"
    and "getrandom ds = (Some n_e, ds1)" "provisioners_sign_only (pl_crypto P) (pl_x509 P) ca H"
    and "platform_correct P" "\<forall>d. Some d \<in> set ds \<longrightarrow> length d = 32"
  shows "provisioned_by P H ds root meas sealed"
proof -
  let ?s = "new_session ca root meas\<lparr>ps_n_p := Some n_p, ps_n_e := Some n_e, ps_state := AwaitingM3\<rparr>"
  have ds: "ds = Some n_e # ds1" using assms(2) by (auto simp: getrandom_def split: list.splits)
  have "provision_outcome (pl_crypto P) (pl_serde P) (pl_x509 P) ?s msg n_p n_e (compute_report_hash (pl_crypto P) report) ds1
      = (Inr (config, sealed), ds')"
    using on_m3_Inr [OF assms(1)] by auto
  then obtain pub where "verify_m3_in_order (pl_crypto P) (pl_x509 P) msg ca n_p n_e (compute_report_hash (pl_crypto P) report)
      = Inr (config, pub)"
    using provision_outcome_Inr by (fastforce simp: new_session_def)
  note signed = verified_m3_signed [OF this assms(3)]
  have "genesis_sealed (pl_crypto P) (pl_serde P) root meas ds1 config sealed"
    using provisioned_genesis [OF assms(1)] assms(4,5) by (simp add: ds new_session_def platform_correct_def)
  with ds signed show ?thesis unfolding provisioned_by_def by blast
qed

lemma handshake_sealed:
  assumes "drive_provisioning_handshake (pl_crypto P) (pl_serde P) (pl_x509 P) fetch f ds st (new_session ca root meas)
      = Some (Inr sealed, f', ds', st', s')"
    and "provisioners_sign_only (pl_crypto P) (pl_x509 P) ca H"
    and "platform_correct P" "\<forall>d. Some d \<in> set ds \<longrightarrow> length d = 32"
  shows "provisioned_by P H ds root meas sealed"
proof -
  obtain n_p n_e rdata ds1 s1 report st1 where m1: "on_m1 (pl_crypto P) n_p ds (new_session ca root meas) = (Inr (n_e, rdata), ds1, s1)"
    and fin: "finish_provisioning_handshake (pl_crypto P) (pl_serde P) (pl_x509 P) report ds1 st1 s1 = Some (Inr sealed, ds', st', s')"
    using assms(1) by (auto simp: drive_provisioning_handshake_def split: prod.splits sum.splits)
  obtain config msg s2 where "on_m3 (pl_crypto P) (pl_serde P) (pl_x509 P) msg report ds1 s1 = Some (Inr (config, sealed), ds', s2)"
    using fin by (auto simp: finish_provisioning_handshake_def res_simps split: prod.splits sum.splits option.splits)
  with on_m1_fresh [OF m1] judged_genesis [OF _ _ assms(2-4)] show ?thesis by auto
qed

lemma vsock_bootstrap_sealed:
  assumes "run_vsock_provisioning_bootstrap P cid port ca root meas rp m = Some (Inr (config, sealed), m')"
    and "provisioners_sign_only (pl_crypto P) (pl_x509 P) ca H"
    and "platform_correct P" "\<forall>d. Some d \<in> set (gw_draws (ma_gateway m)) \<longrightarrow> length d = 32"
  shows "provisioned_by P H (gw_draws (ma_gateway m)) root meas sealed"
proof -
  obtain ds' st' where "run_provisioning_ceremony (pl_crypto P) (pl_serde P) (pl_x509 P) ca root meas rp
      (gw_draws (ma_gateway m)) (li_stream (ma_listen m (cid, port))) = Some (Inr (config, sealed), ds', st')"
    using assms(1) by (auto simp: run_vsock_provisioning_bootstrap_def Let_def split: if_splits option.splits)
  from ceremony_cases [OF this] judged_genesis [OF _ _ assms(2-4)] show ?thesis by auto
qed

lemma provisioned_unseals:
  "provisioned_by P H ds root meas blob \<Longrightarrow> \<exists>b. unseal_body (pl_crypto P) (pl_serde P) blob root meas = Inr b \<and> body_ok b \<and> body_typed b
     \<and> length blob \<le> MAX_KEYSTORE_BLOB_SIZE"
  by (auto simp: provisioned_by_def genesis_sealed_def)

text \<open>The inputs a boot depends on.\<close>

definition trusted_provisioners :: "'f platform \<Rightarrow> (bytes \<times> bytes \<times> bytes \<times> bytes) set \<Rightarrow> 'f machine \<Rightarrow> bool" where
  "trusted_provisioners P H m \<longleftrightarrow> (\<forall>ca. provisioning_ca_root (pl_crypto P) (ma_host m) = Inr ca \<longrightarrow>
     provisioners_sign_only (pl_crypto P) (pl_x509 P) ca H)"

lemma ceremony_blob_Inr:
  "(case r of None \<Rightarrow> None | Some (Inl _, m) \<Rightarrow> Some (Inl e, m) | Some (Inr (_, blob), m) \<Rightarrow> Some (Inr blob, g blob m)) = Some (Inr y, m')
     \<longleftrightarrow> (\<exists>c m1. r = Some (Inr (c, y), m1) \<and> m' = g y m1)"
  by (auto split: option.splits sum.splits)

lemma sealed_blob_cases:
  assumes "agent_sealed_keystore_blob P m = Some (Inr blob, m')"
  shows "(\<exists>path. keystore_path (ma_host m) = Inr path \<and> bh_exists (ma_host m) path = Some True
       \<and> bh_file (ma_host m) path = Some blob \<and> length blob \<le> MAX_KEYSTORE_BLOB_SIZE \<and> m' = m)
    \<or> (\<exists>ca port root meas config m1. provisioning_ca_root (pl_crypto P) (ma_host m) = Inr ca \<and> gw_root (ma_gateway m) = Some root
         \<and> agent_boot_measurement (pl_build P) (ma_host m) = Inr meas
         \<and> (\<forall>path. keystore_path (ma_host m) = Inr path \<longrightarrow> bh_exists (ma_host m) path = Some False)
         \<and> run_vsock_provisioning_bootstrap P DEFAULT_VSOCK_CID port ca root meas lab_report m = Some (Inr (config, blob), m1)
         \<and> m' = (case keystore_path (ma_host m) of Inr path \<Rightarrow> persist path blob m1 | Inl _ \<Rightarrow> m1))"
proof -
  have prov: "\<exists>ca port root meas config m1. provisioning_ca_root (pl_crypto P) (ma_host m) = Inr ca \<and> gw_root (ma_gateway m) = Some root
         \<and> agent_boot_measurement (pl_build P) (ma_host m) = Inr meas
         \<and> run_vsock_provisioning_bootstrap P DEFAULT_VSOCK_CID port ca root meas lab_report m = Some (Inr (config, blob), m1)
         \<and> m' = (case keystore_path (ma_host m1) of Inr path \<Rightarrow> persist path blob m1 | Inl _ \<Rightarrow> m1)"
    if "agent_sealed_keystore_blob_from_provisioning_or_fail P m = Some (Inr blob, m')"
    using that
    by (auto simp: agent_sealed_keystore_blob_from_provisioning_or_fail_def agent_sealed_keystore_blob_from_provisioning_def
        and_then_Inr pure_step_Inr operator_ca_root_iff resolve_provisioning_root_def res_simps ceremony_blob_Inr
        split: if_split_asm) blast
  have env: "keystore_path (ma_host m1) = keystore_path (ma_host m)"
    if "run_vsock_provisioning_bootstrap P c p ca root meas rp m = Some (r, m1)" for c p ca root meas rp r m1
    using vsock_bootstrap_custody [OF that] by (simp add: same_custody_def keystore_path_def)
  show ?thesis
  proof (cases "agent_sealed_keystore_blob_from_provisioning_or_fail P m = Some (Inr blob, m')
      \<and> (\<forall>path. keystore_path (ma_host m) = Inr path \<longrightarrow> bh_exists (ma_host m) path = Some False)")
    case True
    then show ?thesis using prov env by metis
  next
    case False
    then show ?thesis
      using assms by (auto simp: agent_sealed_keystore_blob_def read_boot_file_capped_def res_simps
          split: if_splits sum.splits option.splits bool.splits)
  qed
qed

lemma keystore_source_cases:
  assumes "agent_keystore_source P m = Some (Inr (b, meas), m')"
    "trusted_provisioners P H m" "platform_correct P" "\<forall>d. Some d \<in> set (gw_draws (ma_gateway m)) \<longrightarrow> length d = 32"
  shows "\<exists>root blob. gw_root (ma_gateway m) = Some root \<and> unseal_body (pl_crypto P) (pl_serde P) blob root meas = Inr b
     \<and> ((m' = m \<and> (\<exists>path. keystore_path (ma_host m) = Inr path \<and> bh_file (ma_host m) path = Some blob
           \<and> length blob \<le> MAX_KEYSTORE_BLOB_SIZE))
        \<or> provisioned_by P H (gw_draws (ma_gateway m)) root meas blob)"
proof (cases "bd_vsock (pl_build P) \<and> provisioning_mode_enabled (bh_env (ma_host m))")
  case True
  then obtain root where root: "gw_root (ma_gateway m) = Some root" "run_provisioning_bootstrap P root m = Some (Inr (b, meas), m')"
    using assms(1) by (auto simp: agent_keystore_source_def and_then_Inr pure_step_Inr resolve_provisioning_root_def res_simps)
  obtain ca f1 port st blob f' ds' st' s' where c: "provisioning_ca_root (pl_crypto P) (ma_host m) = Inr ca"
    and h: "drive_provisioning_handshake (pl_crypto P) (pl_serde P) (pl_x509 P) (fetch_report_with (pl_tsm P)) f1
        (gw_draws (ma_gateway m)) st (new_session ca root meas) = Some (Inr blob, f', ds', st', s')"
    and u: "unseal_body (pl_crypto P) (pl_serde P) blob root meas = Inr b"
    using root(2) by (auto simp: run_provisioning_bootstrap_def and_then_Inr pure_step_Inr fetch_tsm_report_def res_simps
        split: prod.split_asm)
  have "provisioned_by P H (gw_draws (ma_gateway m)) root meas blob"
    using handshake_sealed [OF h _ assms(3,4)] c assms(2) by (simp add: trusted_provisioners_def)
  then show ?thesis using root(1) u by blast
next
  case False
  then obtain blob root where a: "agent_boot_measurement (pl_build P) (ma_host m) = Inr meas"
      "agent_sealed_keystore_blob P m = Some (Inr blob, m')" "gw_root (ma_gateway m') = Some root"
      "unseal_body (pl_crypto P) (pl_serde P) blob root meas = Inr b"
    using assms(1) by (auto simp: agent_keystore_source_def unseal_agent_keystore_at_boot_def and_then_Inr pure_step_Inr
        resolve_provisioning_root_def res_simps)
  have "same_custody m m'" using sealed_blob_custody [of P] a(2) unfolding keeps_def by blast
  then have root: "gw_root (ma_gateway m) = Some root" using a(3) by (simp add: same_custody_def)
  show ?thesis
    using sealed_blob_cases [OF a(2)]
  proof (elim disjE exE conjE, goal_cases)
    case (2 ca port root' meas' config m1)
    then have "provisioned_by P H (gw_draws (ma_gateway m)) root meas blob"
      using vsock_bootstrap_sealed [OF 2(5) _ assms(3,4)] assms(2) root a(1) by (simp add: trusted_provisioners_def)
    then show ?case using root a(4) by blast
  qed (use root a(4) in blast)
qed

text \<open>a boot takes its keystore from one of two places only. It is unsealed, valid, under the root of this
  platform and a non-empty measurement, either from the sealed file that the operator named, or from a blob that a
  provisioning ceremony of this very boot sealed for a configuration that an authorised provisioner signed for the
  nonce this boot drew; and whatever the source does, and also when it fails, nothing is installed, no root is set and
  the binding and the channel stay as they were.\<close>

theorem keystore_source_sound:
  assumes "agent_keystore_source P m = Some (r, m')" "trusted_provisioners P H m" "platform_correct P"
    "\<forall>d. Some d \<in> set (gw_draws (ma_gateway m)) \<longrightarrow> length d = 32"
  shows "same_custody m m' \<and> (\<forall>b meas. r = Inr (b, meas) \<longrightarrow> body_ok b \<and> meas \<noteq> []
     \<and> (\<exists>root blob. gw_root (ma_gateway m) = Some root \<and> unseal_body (pl_crypto P) (pl_serde P) blob root meas = Inr b
          \<and> ((\<exists>path. keystore_path (ma_host m) = Inr path \<and> bh_file (ma_host m) path = Some blob
                \<and> length blob \<le> MAX_KEYSTORE_BLOB_SIZE)
             \<or> provisioned_by P H (gw_draws (ma_gateway m)) root meas blob)))"
proof (intro conjI allI impI)
  show "same_custody m m'" using keystore_source_custody [of P] assms(1) unfolding keeps_def by blast
  fix b meas assume "r = Inr (b, meas)"
  then obtain root blob where s: "gw_root (ma_gateway m) = Some root" "unseal_body (pl_crypto P) (pl_serde P) blob root meas = Inr b"
      "(m' = m \<and> (\<exists>path. keystore_path (ma_host m) = Inr path \<and> bh_file (ma_host m) path = Some blob
           \<and> length blob \<le> MAX_KEYSTORE_BLOB_SIZE))
        \<or> provisioned_by P H (gw_draws (ma_gateway m)) root meas blob"
    using keystore_source_cases [OF _ assms(2-4)] assms(1) by blast
  then show "\<exists>root blob. gw_root (ma_gateway m) = Some root \<and> unseal_body (pl_crypto P) (pl_serde P) blob root meas = Inr b
      \<and> ((\<exists>path. keystore_path (ma_host m) = Inr path \<and> bh_file (ma_host m) path = Some blob
            \<and> length blob \<le> MAX_KEYSTORE_BLOB_SIZE)
         \<or> provisioned_by P H (gw_draws (ma_gateway m)) root meas blob)" by blast
  show "body_ok b" "meas \<noteq> []" using unseal_body_Inr [OF s(2)] by simp_all
qed

section \<open>The next boot\<close>

text \<open>A machine that restarts with the same host, and its root configured again.\<close>

definition restarted :: "'f machine \<Rightarrow> 'f machine \<Rightarrow> bool" where
  "restarted m m' \<longleftrightarrow> ma_host m' = ma_host m \<and> gw_root (ma_gateway m') = gw_root (ma_gateway m)"

definition measurement_path :: "boot_host \<Rightarrow> var_error + bytes" where
  "measurement_path h = var_twod (bh_env h) TWOD_HSM_ENCLAVE_MEASUREMENT_FILE LEGACY_HSM_ENCLAVE_MEASUREMENT_FILE"

lemma measurement_cong:
  assumes "bh_env h' = bh_env h" "\<forall>p. measurement_path h = Inr p \<longrightarrow> bh_file h' p = bh_file h p"
  shows "agent_boot_measurement bd h' = agent_boot_measurement bd h"
  using assms by (auto simp: agent_boot_measurement_def measurement_path_def read_boot_file_capped_def split: sum.splits)

lemma vsock_bootstrap_host:
  "run_vsock_provisioning_bootstrap P cid port ca root meas rp m = Some (r, m') \<Longrightarrow> ma_host m' = ma_host m"
  by (auto simp: run_vsock_provisioning_bootstrap_def Let_def close_stream_def with_draws_def split: if_splits option.splits)

lemma restart_unseals:
  assumes "unseal_agent_keystore_at_boot P m = Some (Inr (b, meas), m')"
    and "keystore_path (ma_host m) = Inr path" "measurement_path (ma_host m) \<noteq> Inr path"
    and "\<forall>blob. ma_create m path blob = Some blob"
    and "trusted_provisioners P H m" "platform_correct P" "\<forall>d. Some d \<in> set (gw_draws (ma_gateway m)) \<longrightarrow> length d = 32"
    and "restarted m' n"
  shows "unseal_agent_keystore_at_boot P n = Some (Inr (b, meas), n)
    \<and> (\<exists>blob. bh_file (ma_host m') path = Some blob \<and> agent_sealed_keystore_blob P n = Some (Inr blob, n))"
proof -
  obtain blob root where a: "agent_boot_measurement (pl_build P) (ma_host m) = Inr meas"
      "agent_sealed_keystore_blob P m = Some (Inr blob, m')" "gw_root (ma_gateway m') = Some root"
      "unseal_body (pl_crypto P) (pl_serde P) blob root meas = Inr b"
    using assms(1) by (auto simp: unseal_agent_keystore_at_boot_def and_then_Inr pure_step_Inr
        resolve_provisioning_root_def res_simps)
  have lab: "bd_lab_keystore_file (pl_build P)" using a(1) by (auto simp: agent_boot_measurement_def split: if_splits)
  have "bh_env (ma_host m') = bh_env (ma_host m) \<and> bh_exists (ma_host m') path = Some True
      \<and> bh_file (ma_host m') path = Some blob \<and> length blob \<le> MAX_KEYSTORE_BLOB_SIZE
      \<and> (\<forall>p. p \<noteq> path \<longrightarrow> bh_file (ma_host m') p = bh_file (ma_host m) p)"
    using sealed_blob_cases [OF a(2)]
  proof (elim disjE exE conjE, goal_cases)
    case (2 ca port root' meas' config m1)
    have "provisioned_by P H (gw_draws (ma_gateway m)) root' meas' blob"
      using vsock_bootstrap_sealed [OF 2(5) _ assms(6,7)] 2(1) assms(5) by (simp add: trusted_provisioners_def)
    then have "length blob \<le> MAX_KEYSTORE_BLOB_SIZE" using provisioned_unseals by blast
    moreover have "ma_host m1 = ma_host m" by (rule vsock_bootstrap_host [OF 2(5)])
    moreover have "ma_create m1 = ma_create m" using vsock_bootstrap_custody [OF 2(5)] by (simp add: same_custody_def)
    ultimately show ?case using 2(6) assms(2,4) by (simp add: persist_def)
  qed (use assms(2) in auto)
  then have h': "bh_env (ma_host n) = bh_env (ma_host m)" "bh_exists (ma_host n) path = Some True"
      "bh_file (ma_host n) path = Some blob" "length blob \<le> MAX_KEYSTORE_BLOB_SIZE"
      "\<forall>p. p \<noteq> path \<longrightarrow> bh_file (ma_host n) p = bh_file (ma_host m) p" "gw_root (ma_gateway n) = Some root"
    using assms(8) a(3) by (simp_all add: restarted_def)
  have "agent_boot_measurement (pl_build P) (ma_host n) = Inr meas"
    using measurement_cong [OF h'(1)] h'(5) assms(3) a(1) by metis
  moreover have "agent_sealed_keystore_blob P n = Some (Inr blob, n)"
    using lab h' assms(2) by (simp add: agent_sealed_keystore_blob_def keystore_path_def read_boot_file_capped_def)
  moreover have "bh_file (ma_host m') path = Some blob" using h'(3) assms(8) by (simp add: restarted_def)
  ultimately show ?thesis
    using a(4) h'(6) by (simp add: unseal_agent_keystore_at_boot_def and_then_def pure_step_def resolve_provisioning_root_def)
qed

section \<open>Samples\<close>

definition lab_build :: build where
  "lab_build = \<lparr>bd_lab_keystore_file = True, bd_root_from_boot_file = False, bd_vsock = True, bd_keygen_preview = True,
     bd_release = False\<rparr>"

definition sample_platform :: "bytes platform" where
  "sample_platform = \<lparr>pl_crypto = provision_crypto, pl_serde = serde_for sample_genesis, pl_x509 = sample_x509,
     pl_tsm = sample_tsm, pl_build = lab_build, pl_features = sample_features, pl_writer = (\<lambda>_. []),
     pl_wire = \<lparr>cb_ser = (\<lambda>_. None), cb_de = (\<lambda>_. None)\<rparr>\<rparr>"

definition sample_boot_host :: boot_host where
  "sample_boot_host = \<lparr>bh_env = [TWOD_HSM_OPERATOR_CA_ROOT_HEX \<mapsto> hex128 zero32,
       TWOD_HSM_AGENT_SEALED_KEYSTORE_FILE \<mapsto> ascii ''k'', TWOD_HSM_ENCLAVE_MEASUREMENT_FILE \<mapsto> ascii ''m''],
     bh_file = [ascii ''m'' \<mapsto> [1]], bh_exists = [ascii ''k'' \<mapsto> False]\<rparr>"

definition sample_machine :: "bytes machine" where
  "sample_machine = \<lparr>ma_gateway = \<lparr>gw_keystore = None, gw_root = Some zero32, gw_channel = None,
       gw_process = \<lparr>pr_challenge = None, pr_binding = None\<rparr>, gw_draws = sample_provision_draws\<rparr>,
     ma_host = sample_boot_host, ma_create = (\<lambda>_ content. Some content),
     ma_listen = (\<lambda>_. \<lparr>li_bind = True, li_accept = True, li_timeouts = True, li_stream = sample_ceremony_stream\<rparr>),
     ma_tsm = [], ma_claimed = False, ma_spawn = [], ma_relay = (\<lambda>_. []), ma_events = []\<rparr>"

lemmas boot_names = TWOD_HSM_OPERATOR_CA_ROOT_HEX_def TWOD_HSM_AGENT_SEALED_KEYSTORE_FILE_def
  TWOD_HSM_ENCLAVE_MEASUREMENT_FILE_def TWOD_HSM_PROVISIONING_VSOCK_PORT_def LEGACY_HSM_PROVISIONING_VSOCK_PORT_def
  TWOD_HSM_VSOCK_PORT_def LEGACY_HSM_VSOCK_PORT_def TWOD_HSM_ANCHOR_RELAY_PORT_def LEGACY_HSM_ANCHOR_RELAY_PORT_def
  TWOD_HSM_PROVISIONING_MODE_def LEGACY_HSM_PROVISIONING_MODE_def

lemma sample_ports: "provisioning_vsock_port_from_env (bh_env sample_boot_host) = Inr 5002"
  by (simp add: provisioning_vsock_port_from_env_def serve_vsock_port_from_env_def env_u32_twod_def var_twod_def env_var_def
      sample_boot_host_def boot_names DEFAULT_PROVISIONING_VSOCK_PORT_def DEFAULT_VSOCK_PORT_def DEFAULT_ANCHOR_RELAY_PORT_def)

lemma sample_paths:
  "keystore_path sample_boot_host = Inr (ascii ''k'')" "measurement_path sample_boot_host = Inr (ascii ''m'')"
  "agent_boot_measurement lab_build sample_boot_host = Inr [1]" "provisioning_ca_root provision_crypto sample_boot_host = Inr zero32"
proof -
  have "utf8_valid (hex128 zero32)" by (rule utf8_valid_ascii [OF hex128_ascii])
  then show "provisioning_ca_root provision_crypto sample_boot_host = Inr zero32"
    using trim_hex [of zero32]
    by (simp add: provisioning_ca_root_def var_twod_def env_var_def length_hex128 hex_chunks_hex exactly_32_def
        sample_boot_host_def boot_names zero32_def)
      (simp add: provision_crypto_def sample_crypto_def)
qed (simp_all add: keystore_path_def measurement_path_def agent_boot_measurement_def var_twod_def env_var_def ascii_def
    sample_boot_host_def boot_names read_boot_file_capped_def trim_trailing_newlines_def lab_build_def
    AGENT_MEASUREMENT_FILE_MAX_BYTES_def)

lemma sample_platform_correct:
  "platform_correct sample_platform" "trusted_provisioners sample_platform {sample_tuple} m"
  using provision_crypto_correct serde_for_correct sample_sign_only
  by (simp_all add: platform_correct_def trusted_provisioners_def sample_platform_def)

lemma sample_draws: "\<forall>d. Some d \<in> set (gw_draws (ma_gateway sample_machine)) \<longrightarrow> length d = 32"
  by (simp add: sample_machine_def sample_provision_draws_def)

lemma sample_first_boot: "\<exists>m'. unseal_agent_keystore_at_boot sample_platform sample_machine = Some (Inr (sample_genesis, [1]), m')"
proof -
  obtain sealed st' where run: "run_provisioning_ceremony provision_crypto (serde_for sample_genesis) sample_x509 zero32 zero32 [1]
       (\<lambda>_. Inr sample_report) sample_provision_draws sample_ceremony_stream
     = Some (Inr (sample_provision_config, sealed), [], st')"
    using sample_ceremony by blast
  have rep: "lab_report = (\<lambda>_. Inr sample_report)"
    by (rule ext) (simp add: lab_report_def sample_report_def SNP_REPORT_LEN_def)
  have boot: "run_vsock_provisioning_bootstrap sample_platform DEFAULT_VSOCK_CID 5002 zero32 zero32 [1] lab_report sample_machine
      = Some (Inr (sample_provision_config, sealed), close_stream (DEFAULT_VSOCK_CID, 5002) st' (with_draws [] sample_machine))"
    using run by (simp add: run_vsock_provisioning_bootstrap_def sample_platform_def sample_machine_def rep)
  then have "provisioned_by sample_platform {sample_tuple} (gw_draws (ma_gateway sample_machine)) zero32 [1] sealed"
    using vsock_bootstrap_sealed [OF boot _ sample_platform_correct(1) sample_draws] sample_sign_only
    by (simp add: sample_platform_def)
  then obtain i where "unseal_body provision_crypto (serde_for sample_genesis) sealed zero32 [1] = Inr i"
    using provisioned_unseals by (fastforce simp: sample_platform_def)
  then have u: "unseal_body provision_crypto (serde_for sample_genesis) sealed zero32 [1] = Inr sample_genesis"
    by (auto simp: unseal_body_def serde_for_def res_simps Let_def split: if_splits)
  have h: "ma_host sample_machine = sample_boot_host" "pl_build sample_platform = lab_build" "pl_crypto sample_platform = provision_crypto"
    "pl_serde sample_platform = serde_for sample_genesis" "gw_root (ma_gateway sample_machine) = Some zero32"
    by (simp_all add: sample_machine_def sample_platform_def)
  have lab: "bd_lab_keystore_file lab_build" "bd_vsock lab_build" "bh_exists sample_boot_host (ascii ''k'') = Some False"
    by (simp_all add: lab_build_def sample_boot_host_def)
  show ?thesis
    using boot u lab sample_paths sample_ports
    by (simp add: unseal_agent_keystore_at_boot_def agent_sealed_keystore_blob_def
        agent_sealed_keystore_blob_from_provisioning_or_fail_def agent_sealed_keystore_blob_from_provisioning_def
        and_then_def pure_step_def h operator_ca_root_iff [THEN iffD2, OF sample_paths(4)] resolve_provisioning_root_def
        close_stream_def with_draws_def persist_def split: option.split)
qed

lemma keystore_source_sound_witness:
  "\<exists>r m'. agent_keystore_source sample_platform sample_machine = Some (Inr r, m') \<and> same_custody sample_machine m'
     \<and> snd r = [1]"
proof -
  have "\<not> provisioning_mode_enabled (bh_env (ma_host sample_machine))"
    by (simp add: provisioning_mode_enabled_def var_twod_def env_var_def sample_machine_def sample_boot_host_def boot_names)
  then obtain m' where run: "agent_keystore_source sample_platform sample_machine = Some (Inr (sample_genesis, [1]), m')"
    using sample_first_boot by (auto simp: agent_keystore_source_def)
  from keystore_source_sound [OF run sample_platform_correct(2,1) sample_draws] run show ?thesis by fastforce
qed

text \<open>C37: a keystore survives the restart. Whether a lab boot provisioned it over vsock or read it from its file, the
  next boot of the same host, with the same root, finds the persisted blob and unseals the same body under the same
  measurement, and the machine is as before: no second ceremony ran and no randomness was used. This needs the file
  to be writable and not to be the measurement file as well.\<close>

theorem provisioned_keystore_survives_restart:
  assumes "unseal_agent_keystore_at_boot P m = Some (Inr (b, meas), m')"
    and "keystore_path (ma_host m) = Inr path" "measurement_path (ma_host m) \<noteq> Inr path"
    and "\<forall>blob. ma_create m path blob = Some blob"
    and "trusted_provisioners P H m" "platform_correct P" "\<forall>d. Some d \<in> set (gw_draws (ma_gateway m)) \<longrightarrow> length d = 32"
    and "restarted m' n"
  shows "unseal_agent_keystore_at_boot P n = Some (Inr (b, meas), n)
    \<and> (\<exists>blob. bh_file (ma_host m') path = Some blob \<and> agent_sealed_keystore_blob P n = Some (Inr blob, n))"
  by (rule restart_unseals [OF assms])

lemma provisioned_keystore_survives_restart_witness:
  "\<exists>n. unseal_agent_keystore_at_boot sample_platform n = Some (Inr (sample_genesis, [1]), n)
     \<and> gw_draws (ma_gateway n) = []"
proof -
  obtain m' where run: "unseal_agent_keystore_at_boot sample_platform sample_machine = Some (Inr (sample_genesis, [1]), m')"
    using sample_first_boot by blast
  let ?n = "sample_machine\<lparr>ma_host := ma_host m', ma_gateway := (ma_gateway m')\<lparr>gw_draws := []\<rparr>\<rparr>"
  have "keystore_path (ma_host sample_machine) = Inr (ascii ''k'')" "measurement_path (ma_host sample_machine) \<noteq> Inr (ascii ''k'')"
    "\<forall>blob. ma_create sample_machine (ascii ''k'') blob = Some blob"
    using sample_paths by (simp_all add: sample_machine_def ascii_def)
  moreover have "restarted m' ?n" by (simp add: restarted_def)
  ultimately have "unseal_agent_keystore_at_boot sample_platform ?n = Some (Inr (sample_genesis, [1]), ?n)"
    using provisioned_keystore_survives_restart [OF run _ _ _ sample_platform_correct(2,1) sample_draws] by blast
  then show ?thesis by (intro exI [of _ ?n]) simp
qed

end
