(* ===== verification/Gateway_Boot.thy ===== *)
theory Gateway_Boot
  imports Boot_Source
begin

text \<open>
  The boot of the agent gateway and its serve loop: the wiring of \<open>agent_gateway_boot.rs\<close> from the configured root to
  the installed keystore, and the per-connection pump of \<open>enclave_serve.rs\<close> behind the listener that answers agent
  frames only. The sources are those of \<open>Boot_Source\<close>, the handshake that of \<open>Boot\<close> over the transport of
  \<open>Relay\<close> and \<open>Quote_Child\<close>, the frames those of \<open>Frame\<close>.

  The serve loop never ends; the model runs it over the connections that have arrived. A log line is the data
  it is made of.
\<close>

section \<open>Boot events\<close>

datatype boot_log_level = Info | Warn

definition validated_from :: "validated_boot_budget \<Rightarrow> agent_boot_event" where
  "validated_from b = ValidatedBudget (vb_max_attempts b) (vb_per_leg_timeout b) (vb_overall_boot_budget b)
     (vb_nominal_boot_cost b) (budget_slack b)"

fun is_zero_slack :: "agent_boot_event \<Rightarrow> bool" where
  "is_zero_slack (ValidatedBudget _ _ _ _ slack) = (slack = 0)"
| "is_zero_slack _ = False"

fun boot_event_level :: "agent_boot_event \<Rightarrow> boot_log_level" where
  "boot_event_level (ValidatedBudget n per_leg overall cost slack) =
     (if is_zero_slack (ValidatedBudget n per_leg overall cost slack) then Warn else Info)"
| "boot_event_level (HandshakeOutcome ready line) = (if ready then Info else Warn)"
| "boot_event_level (RawBudgetConfig _ _ _) = Info"

definition emit_event :: "agent_boot_event \<Rightarrow> 'f machine \<Rightarrow> 'f machine" where
  "emit_event ev m = m\<lparr>ma_events := ma_events m @ [ev]\<rparr>"

section \<open>The wired handshake\<close>

definition run_boot_handshake_core :: "crypto \<Rightarrow> nat \<Rightarrow> nat \<Rightarrow> nat \<Rightarrow> fetch_script list \<Rightarrow> 'c boot_relay_channel \<Rightarrow> 'c
    \<Rightarrow> keystore_body \<Rightarrow> bool \<Rightarrow> 'f machine \<Rightarrow> (protocol_error + anchor_state \<times> keystore_body \<times> 'c) \<times> 'f machine" where
  "run_boot_handshake_core C max_attempts per_leg overall spawn ch c body require_real m =
     (let m = emit_event (RawBudgetConfig max_attempts per_leg overall) m in
      case validate_boot_budget max_attempts per_leg overall of
        Inl e \<Rightarrow> (Inl e, m)
      | Inr budget \<Rightarrow>
          (let m = emit_event (validated_from budget) m in
           case transport_with_spawn budget spawn ch c (ma_claimed m) of
             (Inl e, claimed) \<Rightarrow> (Inl e, m\<lparr>ma_claimed := claimed\<rparr>)
           | (Inr (transport, p, c), claimed) \<Rightarrow>
               (case run_boot_anti_rollback_handshake C transport (vb_max_attempts budget)
                   \<lparr>bo_transport = (p, c), bo_draws = gw_draws (ma_gateway m), bo_process = gw_process (ma_gateway m),
                    bo_body = body\<rparr> of
                  (outcome, s) \<Rightarrow>
                    (res_bind (decide_serve outcome require_real (bo_process s))
                       (\<lambda>state. Inr (state, bo_body s, snd (bo_transport s))),
                     emit_event (HandshakeOutcome (case outcome of Ready _ \<Rightarrow> True | FailClosed _ \<Rightarrow> False) outcome)
                       (m\<lparr>ma_claimed := claimed, ma_spawn := qp_fetches (fst (bo_transport s)),
                          ma_gateway := (ma_gateway m)\<lparr>gw_draws := bo_draws s, gw_process := bo_process s\<rparr>\<rparr>)))))"

text \<open>With the children of \<open>ExecChildSpawn::production\<close>.\<close>

definition run_boot_handshake_wired :: "crypto \<Rightarrow> nat \<Rightarrow> nat \<Rightarrow> nat \<Rightarrow> 'c boot_relay_channel \<Rightarrow> 'c \<Rightarrow> keystore_body
    \<Rightarrow> bool \<Rightarrow> 'f machine \<Rightarrow> (protocol_error + anchor_state \<times> keystore_body \<times> 'c) \<times> 'f machine" where
  "run_boot_handshake_wired C max_attempts per_leg overall ch c body require_real m =
     run_boot_handshake_core C max_attempts per_leg overall (ma_spawn m) ch c body require_real m"

section \<open>From the root to the installed keystore\<close>

definition install_or_abort :: "keystore_body \<Rightarrow> bytes \<Rightarrow> ('f machine, unit) step" where
  "install_or_abort body measurement m =
     (case install_agent_keystore body measurement (ma_gateway m) of (ok, g) \<Rightarrow>
        Some (if ok then Inr () else unavailable (''agent boot: install_agent_keystore returned false (already installed / empty ''
          @ ''measurement) - fatal''), m\<lparr>ma_gateway := g\<rparr>))"

definition install_serve_time_commit_channel :: "connections \<Rightarrow> ('f machine, unit) step" where
  "install_serve_time_commit_channel channel m =
     (case install_commit_channel channel (ma_gateway m) of (ok, g) \<Rightarrow>
        Some (if ok then Inr () else unavailable ''agent boot: install_commit_channel returned false (already installed) - fatal'',
          m\<lparr>ma_gateway := g\<rparr>))"

text \<open>Steps (A) to (G') of \<open>run_agent_gateway_boot_inner\<close>. The commit channel gets the connections that the handshake's
  channel left.\<close>

definition agent_gateway_boot_steps :: "'f platform \<Rightarrow> ('f machine, unit) step" where
  "agent_gateway_boot_steps P =
     and_then (boot_configure_agent_seal_root (pl_build P)) (\<lambda>_.
     and_then (agent_keystore_source P) (\<lambda>(body, measurement).
     and_then (pure_step (\<lambda>m. map_err (\<lambda>_. PqSigningUnavailable ''agent boot: invalid boot-budget config (see prior log line)'')
         (boot_budget_config_from_env (bh_env (ma_host m))))) (\<lambda>(max_attempts, per_leg, overall).
     and_then (pure_step (\<lambda>m. map_err (\<lambda>_. PqSigningUnavailable ''agent boot: invalid anchor relay port (see prior log line)'')
         (anchor_relay_port_from_env (bh_env (ma_host m))))) (\<lambda>relay_port.
     and_then (\<lambda>m. Some (run_boot_handshake_wired (pl_crypto P) max_attempts per_leg overall vsock_boot_relay_channel
         (ma_relay m (VMADDR_CID_HOST, relay_port)) body (bd_release (pl_build P)) m)) (\<lambda>(_, body, connections).
     and_then (install_or_abort body measurement) (\<lambda>_.
     if bd_keygen_preview (pl_build P) then install_serve_time_commit_channel connections
     else pure_step (\<lambda>_. Inr ())))))))"

section \<open>The pump (enclave_serve.rs)\<close>

text \<open>What a connection brings: reads with the clock before and after each, and for each framed write its failure or the
  clock after it; \<open>an_written\<close> are the frames written so far.\<close>

record timed_read =
  tr_before :: nat
  tr_outcome :: read_outcome
  tr_after :: nat

record agent_conn =
  an_prepare :: "io_kind option"
  an_opened :: nat
  an_reads :: "timed_read list"
  an_writes :: "(io_kind option \<times> nat) list"
  an_written :: "bytes list"

definition SESSION_IDLE_TIMEOUT :: nat where "SESSION_IDLE_TIMEOUT = 300 * 1000000000"

definition read_events :: "nat \<Rightarrow> timed_read list \<Rightarrow> read_event list" where
  "read_events deadline ts = map (\<lambda>t. \<lparr>re_expired_before = deadline \<le> tr_before t, re_outcome = tr_outcome t,
     re_expired_after = deadline \<le> tr_after t\<rparr>) ts"

definition unread :: "timed_read list \<Rightarrow> read_event list \<Rightarrow> timed_read list" where
  "unread ts es = map2 (\<lambda>t e. t\<lparr>tr_outcome := re_outcome e\<rparr>) (drop (length ts - length es) ts) es"

definition read_frame :: "nat \<Rightarrow> timed_read list \<Rightarrow> (protocol_error + bytes) \<times> timed_read list" where
  "read_frame deadline ts =
     (case read_framed_message_with_idle_deadline True (read_events deadline ts) of (r, es) \<Rightarrow> (r, unread ts es))"

definition reply_resets_idle :: "ciborium \<Rightarrow> bytes \<Rightarrow> bool" where
  "reply_resets_idle cb reply =
     (case decode_message reply of Inl _ \<Rightarrow> False | Inr framed \<Rightarrow> \<not> is_wire_error_payload cb (fm_payload framed))"

text \<open>The read errors that close the connection without a fault.\<close>

fun closes_quietly :: "protocol_error \<Rightarrow> bool" where
  "closes_quietly (Io k) = (k = UnexpectedEof \<or> k = TimedOut \<or> k = WouldBlock)"
| "closes_quietly (MessageTooLarge _) = True"
| "closes_quietly _ = False"

fun serve_framed_loop :: "(bytes \<Rightarrow> 's \<Rightarrow> (protocol_error + bytes) \<times> 's) \<Rightarrow> ciborium \<Rightarrow> nat \<Rightarrow> nat
    \<Rightarrow> (io_kind option \<times> nat) list \<Rightarrow> agent_conn \<Rightarrow> 's \<Rightarrow> (protocol_error + unit) \<times> agent_conn \<times> 's" where
  "serve_framed_loop handle_frame cb idle_timeout deadline writes c s =
     (case read_frame deadline (an_reads c) of
        (Inl e, ts) \<Rightarrow> (if closes_quietly e then Inr () else Inl e, c\<lparr>an_reads := ts, an_writes := writes\<rparr>, s)
      | (Inr frame, ts) \<Rightarrow>
          (case handle_frame frame s of
             (Inl e, s) \<Rightarrow> (Inl e, c\<lparr>an_reads := ts, an_writes := writes\<rparr>, s)
           | (Inr reply, s) \<Rightarrow>
               (case writes of
                  [] \<Rightarrow> (Inl (Io BrokenPipe), c\<lparr>an_reads := ts, an_writes := []\<rparr>, s)
                | (Some k, _) # writes \<Rightarrow> (Inl (Io k), c\<lparr>an_reads := ts, an_writes := writes\<rparr>, s)
                | (None, now) # writes \<Rightarrow>
                    serve_framed_loop handle_frame cb idle_timeout
                      (if reply_resets_idle cb reply then now + idle_timeout else deadline) writes
                      (c\<lparr>an_reads := ts, an_written := an_written c @ [reply]\<rparr>) s)))"

declare serve_framed_loop.simps [simp del]

definition serve_framed_pump :: "(bytes \<Rightarrow> 's \<Rightarrow> (protocol_error + bytes) \<times> 's) \<Rightarrow> ciborium \<Rightarrow> nat
    \<Rightarrow> agent_conn \<Rightarrow> 's \<Rightarrow> (protocol_error + unit) \<times> agent_conn \<times> 's" where
  "serve_framed_pump handle_frame cb idle_timeout c s =
     serve_framed_loop handle_frame cb idle_timeout (an_opened c + idle_timeout) (an_writes c) c s"

section \<open>The agent listener\<close>

text \<open>Frames that are not agent frames close the connection without an answer.\<close>

definition agent_serve_one_frame :: "'f platform \<Rightarrow> bytes \<Rightarrow> connections gateway
    \<Rightarrow> (protocol_error + bytes) \<times> connections gateway" where
  "agent_serve_one_frame P frame g =
     (case decode_message frame of
        Inl e \<Rightarrow> (Inl e, g)
      | Inr decoded \<Rightarrow>
          if fm_msg_type decoded \<noteq> AgentGateway
          then (Inl (WireProtocol ''agent serve: non-0x40 frame on the agent listener''), g)
          else (case handle_agent_gateway_frame (pl_crypto P) (pl_serde P) (pl_features P) (pl_writer P) vsock_round_trip
                   (fm_payload decoded) g of
              (body, g) \<Rightarrow> (encode_message AgentGateway body, g)))"

fun is_peer_protocol_reject :: "protocol_error \<Rightarrow> bool" where
  "is_peer_protocol_reject (WireProtocol _) = True"
| "is_peer_protocol_reject (InvalidVersion _ _) = True"
| "is_peer_protocol_reject (UnknownMessageType _) = True"
| "is_peer_protocol_reject (Io k) = (k = UnexpectedEof)"
| "is_peer_protocol_reject _ = False"

datatype serve_log =
    AcceptFault io_kind
  | SetupFailed io_kind
  | ClosedCleanly
  | PeerRejected protocol_error
  | ConnectionFault protocol_error

definition handle_agent_accepted :: "'f platform \<Rightarrow> io_kind + agent_conn \<Rightarrow> connections gateway
    \<Rightarrow> serve_log \<times> bytes list \<times> connections gateway" where
  "handle_agent_accepted P accepted g =
     (case accepted of
        Inl k \<Rightarrow> (AcceptFault k, [], g)
      | Inr conn \<Rightarrow>
          (case an_prepare conn of
             Some k \<Rightarrow> (SetupFailed k, [], g)
           | None \<Rightarrow>
               (case serve_framed_pump (agent_serve_one_frame P) (pl_wire P) SESSION_IDLE_TIMEOUT conn g of
                  (r, conn, g) \<Rightarrow>
                    (case r of
                       Inr _ \<Rightarrow> ClosedCleanly
                     | Inl e \<Rightarrow> if is_peer_protocol_reject e then PeerRejected e else ConnectionFault e,
                     an_written conn, g))))"

fun serve_agent_loop :: "'f platform \<Rightarrow> (io_kind + agent_conn) list \<Rightarrow> connections gateway
    \<Rightarrow> (serve_log \<times> bytes list) list \<times> connections gateway" where
  "serve_agent_loop P [] g = ([], g)"
| "serve_agent_loop P (accepted # incoming) g =
     (case handle_agent_accepted P accepted g of (line, sent, g) \<Rightarrow>
       (case serve_agent_loop P incoming g of (rest, g) \<Rightarrow> ((line, sent) # rest, g)))"

text \<open>An error is the only way back: otherwise the loop is still serving after the connections so far.\<close>

definition run_agent_serve_loop :: "'f platform \<Rightarrow> (io_kind + agent_conn) list
    \<Rightarrow> ('f machine, (serve_log \<times> bytes list) list) step" where
  "run_agent_serve_loop P incoming =
     and_then (pure_step (\<lambda>m. map_err (\<lambda>_. PqSigningUnavailable ''agent serve: invalid vsock listen addr (see prior log line)'')
         (vsock_listen_addr_from_env (bh_env (ma_host m))))) (\<lambda>addr m.
     if \<not> li_bind (ma_listen m addr) then Some (unavailable ''agent serve: vsock bind failed (see prior log line)'', m)
     else (case serve_agent_loop P incoming (ma_gateway m) of (lines, g) \<Rightarrow> Some (Inr lines, m\<lparr>ma_gateway := g\<rparr>)))"

definition run_agent_gateway_boot_inner :: "'f platform \<Rightarrow> (io_kind + agent_conn) list
    \<Rightarrow> ('f machine, (serve_log \<times> bytes list) list) step" where
  "run_agent_gateway_boot_inner P incoming = and_then (agent_gateway_boot_steps P) (\<lambda>_. run_agent_serve_loop P incoming)"

section \<open>The handshake's events\<close>

text \<open>What the driver does with a validated configuration.\<close>

definition handshake_run :: "crypto \<Rightarrow> validated_boot_budget \<Rightarrow> fetch_script list \<Rightarrow> 'c boot_relay_channel \<Rightarrow> 'c \<Rightarrow> keystore_body
    \<Rightarrow> 'f machine \<Rightarrow> boot_driver_outcome \<times> (quote_producer \<times> 'c) boot_run" where
  "handshake_run C b spawn ch c body m =
     run_boot_anti_rollback_handshake C (relay_anchor_transport (producer_fetch (vb_per_leg_timeout b)) ch) (vb_max_attempts b)
       \<lparr>bo_transport = (\<lparr>qp_fetches = spawn, qp_ledger = []\<rparr>, c), bo_draws = gw_draws (ma_gateway m),
        bo_process = gw_process (ma_gateway m), bo_body = body\<rparr>"

lemma transport_with_spawn_cases:
  "transport_with_spawn b spawn ch c claimed =
     (if claimed then (Inl (WireProtocol ''quote producer: process quote ledger already claimed''), True)
      else (Inr (relay_anchor_transport (producer_fetch (vb_per_leg_timeout b)) ch, \<lparr>qp_fetches = spawn, qp_ledger = []\<rparr>, c), True))"
  by (simp add: transport_with_spawn_def new_quote_producer_def)

lemma handshake_core_cases:
  "run_boot_handshake_core C n per_leg overall spawn ch c body req_real m =
     (let raw = RawBudgetConfig n per_leg overall in
      case validate_boot_budget n per_leg overall of
        Inl e \<Rightarrow> (Inl e, m\<lparr>ma_events := ma_events m @ [raw]\<rparr>)
      | Inr b \<Rightarrow>
          if ma_claimed m
          then (Inl (WireProtocol ''quote producer: process quote ledger already claimed''),
                m\<lparr>ma_events := ma_events m @ [raw, validated_from b]\<rparr>)
          else (case handshake_run C b spawn ch c body m of (outcome, s) \<Rightarrow>
             (res_bind (decide_serve outcome req_real (bo_process s)) (\<lambda>state. Inr (state, bo_body s, snd (bo_transport s))),
              m\<lparr>ma_events := ma_events m @ [raw, validated_from b, HandshakeOutcome (\<exists>state. outcome = Ready state) outcome],
                ma_claimed := True, ma_spawn := qp_fetches (fst (bo_transport s)),
                ma_gateway := (ma_gateway m)\<lparr>gw_draws := bo_draws s, gw_process := bo_process s\<rparr>\<rparr>)))"
  by (auto simp: run_boot_handshake_core_def emit_event_def Let_def transport_with_spawn_cases handshake_run_def
      split: sum.split prod.split boot_driver_outcome.split)

section \<open>Ready\<close>

lemma boot_attempt_draws: "set (bo_draws (snd (boot_attempt C T chain env s))) \<subseteq> set (bo_draws s)"
proof -
  have "set ds \<subseteq> set (bo_draws s)" if "issue_challenge chain env (bo_draws s) (bo_process s) = (r, ds, w)" for r ds w
    using that getrandom_subset [of "bo_draws s"]
    by (auto simp: issue_challenge_def Let_def split: prod.splits option.splits)
  then show ?thesis
    unfolding boot_attempt_def
    by (auto simp: Let_def split: prod.splits sum.splits boot_anti_rollback_outcome.splits)
qed

lemma boot_loop_draws: "set (bo_draws (snd (boot_loop C T chain env n cause s))) \<subseteq> set (bo_draws s)"
proof (induction n arbitrary: cause s)
  case (Suc n)
  obtain r s' where r: "boot_attempt C T chain env s = (r, s')" by fastforce
  have "set (bo_draws s') \<subseteq> set (bo_draws s)" using boot_attempt_draws [of C T chain env s] r by simp
  then show ?case using r Suc by (cases r) (auto intro: subset_trans)
qed simp

lemma handshake_draws: "set (bo_draws (snd (run_boot_anti_rollback_handshake C T n s))) \<subseteq> set (bo_draws s)"
  by (simp add: run_boot_anti_rollback_handshake_def boot_loop_draws)

text \<open>The body that may be installed: the one from the source, or that one brought forward to what the anchor signed for a
  nonce of this boot.\<close>

definition anchored :: "crypto \<Rightarrow> draws \<Rightarrow> keystore_body \<Rightarrow> keystore_body \<Rightarrow> anchor_state \<Rightarrow> bool" where
  "anchored C ds b0 b state \<longleftrightarrow> adopted b0 b \<and> body_ok b
     \<and> kb_freshness_epoch b = as_epoch state \<and> kb_structural_version b = as_structural_version state
     \<and> compute_local_marks_digest C b = as_marks_digest state
     \<and> (\<exists>nonce response. Some nonce \<in> set ds \<and> verify_anchor_response_bytes C response nonce (kb_config b0) = Inr state)"

definition bound_to :: "anchor_state \<Rightarrow> process" where
  "bound_to state = \<lparr>pr_challenge = None, pr_binding = Some \<lparr>ab_epoch = as_epoch state, ab_active = True\<rparr>\<rparr>"

text \<open>What the handshake changes of the machine.\<close>

definition handshake_keeps :: "'f machine \<Rightarrow> 'f machine \<Rightarrow> bool" where
  "handshake_keeps m m' \<longleftrightarrow> gw_keystore (ma_gateway m') = gw_keystore (ma_gateway m)
     \<and> gw_root (ma_gateway m') = gw_root (ma_gateway m) \<and> gw_channel (ma_gateway m') = gw_channel (ma_gateway m)
     \<and> set (gw_draws (ma_gateway m')) \<subseteq> set (gw_draws (ma_gateway m))
     \<and> ma_host m' = ma_host m \<and> ma_listen m' = ma_listen m"

lemma handshake_run_draws:
  "handshake_run C b spawn ch c body m = (outcome, s) \<Longrightarrow> set (bo_draws s) \<subseteq> set (gw_draws (ma_gateway m))"
  using handshake_draws unfolding handshake_run_def by (metis boot_run.select_convs(2) snd_conv)

lemma handshake_core_keeps:
  assumes "run_boot_handshake_core C n per_leg overall spawn ch c body req_real m = (r, m')"
  shows "handshake_keeps m m'"
proof (cases "\<exists>b. validate_boot_budget n per_leg overall = Inr b \<and> \<not> ma_claimed m")
  case True
  then obtain b where b: "validate_boot_budget n per_leg overall = Inr b" "\<not> ma_claimed m" by blast
  obtain outcome s where h: "handshake_run C b spawn ch c body m = (outcome, s)" by fastforce
  show ?thesis using assms b h handshake_run_draws [OF h] by (auto simp: handshake_core_cases Let_def handshake_keeps_def)
next
  case False
  then show ?thesis using assms by (auto simp: handshake_core_cases Let_def handshake_keeps_def split: sum.splits if_splits)
qed

lemma handshake_core_Inr:
  assumes "run_boot_handshake_core C n per_leg overall spawn ch c body req_real m = (Inr (state, b, c'), m')" "body_ok body"
  shows "anchored C (gw_draws (ma_gateway m)) body b state" "gw_process (ma_gateway m') = bound_to state"
    "pr_binding (gw_process (ma_gateway m)) = None" "\<not> ma_claimed m" "ma_claimed m'"
proof -
  obtain bud where v: "validate_boot_budget n per_leg overall = Inr bud" and cl: "\<not> ma_claimed m"
    using assms(1) by (auto simp: handshake_core_cases Let_def split: sum.splits if_splits)
  obtain outcome s where h: "handshake_run C bud spawn ch c body m = (outcome, s)" by fastforce
  have "decide_serve outcome req_real (bo_process s) = Inr state" "b = bo_body s" "gw_process (ma_gateway m') = bo_process s" "ma_claimed m'"
    using assms(1) v cl h by (auto simp: handshake_core_cases Let_def res_simps)
  moreover from this have "outcome = Ready state" by (auto simp: decide_serve_def res_simps split: boot_driver_outcome.splits)
  ultimately show "anchored C (gw_draws (ma_gateway m)) body b state" "gw_process (ma_gateway m') = bound_to state"
    "pr_binding (gw_process (ma_gateway m)) = None" "\<not> ma_claimed m" "ma_claimed m'"
    using cl handshake_cases [OF h [unfolded handshake_run_def]] assms(2)
    by (auto simp: boot_current_def anchored_def bound_to_def)
qed

section \<open>From the root to the keystore\<close>

text \<open>A process that has just started.\<close>

definition fresh_process :: "'f machine \<Rightarrow> bool" where
  "fresh_process m \<longleftrightarrow> gw_keystore (ma_gateway m) = None \<and> gw_root (ma_gateway m) = None
     \<and> gw_channel (ma_gateway m) = None \<and> (\<forall>d. Some d \<in> set (gw_draws (ma_gateway m)) \<longrightarrow> length d = 32)"

lemma configured_root:
  assumes "boot_configure_agent_seal_root bd m = Some (r, m')"
  shows "case r of
      Inl _ \<Rightarrow> m' = m
    | Inr _ \<Rightarrow> \<exists>root. derive_agent_provisioning_root bd (ma_host m) = Inr root \<and> length root = 32
        \<and> gw_root (ma_gateway m) = None \<and> m' = m\<lparr>ma_gateway := (ma_gateway m)\<lparr>gw_root := Some root\<rparr>\<rparr>"
proof (cases "derive_agent_provisioning_root bd (ma_host m)")
  case (Inl e)
  then show ?thesis using assms by (auto simp: boot_configure_agent_seal_root_def and_then_def pure_step_def)
next
  case (Inr root)
  then have "length root = 32"
    by (auto simp: derive_agent_provisioning_root_def exactly_32_def res_simps split: if_splits)
  then show ?thesis using assms Inr
    by (auto simp: boot_configure_agent_seal_root_def and_then_def pure_step_def set_provisioning_root_def split: if_splits)
qed

text \<open>Where the body of a boot comes from.\<close>

definition sourced :: "'f platform \<Rightarrow> (bytes \<times> bytes \<times> bytes \<times> bytes) set \<Rightarrow> 'f machine \<Rightarrow> bytes \<Rightarrow> keystore_body \<Rightarrow> bool" where
  "sourced P H m meas b \<longleftrightarrow> (\<exists>root blob. derive_agent_provisioning_root (pl_build P) (ma_host m) = Inr root
     \<and> unseal_body (pl_crypto P) (pl_serde P) blob root meas = Inr b
     \<and> ((\<exists>path. keystore_path (ma_host m) = Inr path \<and> bh_file (ma_host m) path = Some blob
           \<and> length blob \<le> MAX_KEYSTORE_BLOB_SIZE)
        \<or> provisioned_by P H (gw_draws (ma_gateway m)) root meas blob))"

lemma install_or_abort_cases:
  assumes "install_or_abort b meas m = Some (r, m')"
  shows "case r of Inl _ \<Rightarrow> m' = m | Inr _ \<Rightarrow> gw_keystore (ma_gateway m) = None \<and> meas \<noteq> []
     \<and> m' = m\<lparr>ma_gateway := (ma_gateway m)\<lparr>gw_keystore := Some (b, meas)\<rparr>\<rparr>"
  using assms by (auto simp: install_or_abort_def install_agent_keystore_def split: if_splits)

lemma install_channel_cases:
  assumes "install_serve_time_commit_channel ch m = Some (r, m')"
  shows "case r of Inl _ \<Rightarrow> gw_channel (ma_gateway m) \<noteq> None
    | Inr _ \<Rightarrow> m' = m\<lparr>ma_gateway := (ma_gateway m)\<lparr>gw_channel := Some ch\<rparr>\<rparr>"
  using assms by (auto simp: install_serve_time_commit_channel_def install_commit_channel_def split: if_splits)

text \<open>Everything after the source, as one step.\<close>

definition boot_body :: "'f platform \<Rightarrow> keystore_body \<Rightarrow> bytes \<Rightarrow> ('f machine, unit) step" where
  "boot_body P body measurement =
     and_then (pure_step (\<lambda>m. map_err (\<lambda>_. PqSigningUnavailable ''agent boot: invalid boot-budget config (see prior log line)'')
         (boot_budget_config_from_env (bh_env (ma_host m))))) (\<lambda>(max_attempts, per_leg, overall).
     and_then (pure_step (\<lambda>m. map_err (\<lambda>_. PqSigningUnavailable ''agent boot: invalid anchor relay port (see prior log line)'')
         (anchor_relay_port_from_env (bh_env (ma_host m))))) (\<lambda>relay_port.
     and_then (\<lambda>m. Some (run_boot_handshake_wired (pl_crypto P) max_attempts per_leg overall vsock_boot_relay_channel
         (ma_relay m (VMADDR_CID_HOST, relay_port)) body (bd_release (pl_build P)) m)) (\<lambda>(_, body, connections).
     and_then (install_or_abort body measurement) (\<lambda>_.
     if bd_keygen_preview (pl_build P) then install_serve_time_commit_channel connections
     else pure_step (\<lambda>_. Inr ())))))"

lemma boot_steps_body: "agent_gateway_boot_steps P =
    and_then (boot_configure_agent_seal_root (pl_build P)) (\<lambda>_. and_then (agent_keystore_source P) (\<lambda>(b, meas). boot_body P b meas))"
  by (simp add: agent_gateway_boot_steps_def boot_body_def)

lemma boot_body_cases:
  assumes "boot_body P b0 meas m = Some (r, m')" "body_ok b0"
    "gw_keystore (ma_gateway m) = None" "gw_channel (ma_gateway m) = None"
  shows "case r of
      Inl _ \<Rightarrow> gw_keystore (ma_gateway m') = None
    | Inr _ \<Rightarrow> \<exists>b state. gw_keystore (ma_gateway m') = Some (b, meas) \<and> meas \<noteq> []
        \<and> anchored (pl_crypto P) (gw_draws (ma_gateway m)) b0 b state \<and> gw_process (ma_gateway m') = bound_to state
        \<and> set (gw_draws (ma_gateway m')) \<subseteq> set (gw_draws (ma_gateway m))
        \<and> gw_root (ma_gateway m') = gw_root (ma_gateway m)
        \<and> (gw_channel (ma_gateway m') \<noteq> None \<longleftrightarrow> bd_keygen_preview (pl_build P)) \<and> \<not> ma_claimed m"
proof -
  let ?hs = "\<lambda>n per_leg overall port. run_boot_handshake_wired (pl_crypto P) n per_leg overall vsock_boot_relay_channel
      (ma_relay m (VMADDR_CID_HOST, port)) b0 (bd_release (pl_build P)) m"
  have keeps: "handshake_keeps m m1" if "?hs n per_leg overall port = (r1, m1)" for n per_leg overall port r1 m1
    by (rule handshake_core_keeps [OF that [unfolded run_boot_handshake_wired_def]])
  show ?thesis
  proof (cases r)
    case (Inl e)
    have "m' = m \<or> (\<exists>n per_leg overall port. ?hs n per_leg overall port = (Inl e, m'))
      \<or> (\<exists>n per_leg overall port st b links m1. ?hs n per_leg overall port = (Inr (st, b, links), m1)
          \<and> (install_or_abort b meas m1 = Some (Inl e, m')
            \<or> (\<exists>m2. install_or_abort b meas m1 = Some (Inr (), m2)
                 \<and> install_serve_time_commit_channel links m2 = Some (Inl e, m'))))"
      using assms(1) unfolding boot_body_def Inl
      by (auto simp: and_then_Inl pure_step_def and_then_Inr split: if_split_asm)
    then have "gw_keystore (ma_gateway m') = None"
    proof (elim disjE exE conjE, goal_cases)
      case (4 n per_leg overall port st b links m1 m2)
      then show ?case
        using keeps [OF 4(1)] install_or_abort_cases [OF 4(2)] install_channel_cases [OF 4(3)] assms(4)
        by (simp add: handshake_keeps_def)
    qed (use assms(3) keeps install_or_abort_cases in \<open>fastforce simp: handshake_keeps_def\<close>)+
    then show ?thesis using Inl by simp
  next
    case (Inr u)
    obtain n per_leg overall port st b links m1 m2 where h: "?hs n per_leg overall port = (Inr (st, b, links), m1)"
      and i: "install_or_abort b meas m1 = Some (Inr (), m2)"
      and l: "(if bd_keygen_preview (pl_build P) then install_serve_time_commit_channel links else pure_step (\<lambda>_. Inr ())) m2
        = Some (Inr (), m')"
      using assms(1) unfolding boot_body_def Inr by (auto simp: and_then_Inr pure_step_Inr)
    note k = keeps [OF h]
    note hs = handshake_core_Inr [OF h [unfolded run_boot_handshake_wired_def] assms(2)]
    have m2: "m2 = m1\<lparr>ma_gateway := (ma_gateway m1)\<lparr>gw_keystore := Some (b, meas)\<rparr>\<rparr>" "meas \<noteq> []"
      using install_or_abort_cases [OF i] by auto
    show ?thesis
      using hs k m2 l install_channel_cases [of links m2 "Inr ()" m'] assms(4)
      by (auto simp: Inr handshake_keeps_def pure_step_def split: if_splits)
  qed
qed

section \<open>An honest boot is served\<close>

text \<open>What an honest host supplies for one fresh boot: a child that quotes the challenge, a leg to the anchor that brings
  back the anchor's signed state, and a sealed keystore that this state describes.\<close>

definition honest_quote :: "crypto \<Rightarrow> nat \<Rightarrow> keystore_body \<Rightarrow> bytes \<Rightarrow> fetch_script \<Rightarrow> bool" where
  "honest_quote C per_leg b nonce f \<longleftrightarrow> fetch_ready (fe_minted f + per_leg) f []
     \<and> (\<exists>report chain. encode_ok_frame report chain = Inr (pipe_bytes (fe_pipe f))
          \<and> take 64 (drop 0x50 report) = anchor_handshake_report_data C (kc_twod_chain_id (kb_config b))
              (kc_environment_identifier (kb_config b)) nonce)"

definition honest_leg :: "crypto \<Rightarrow> keystore_body \<Rightarrow> bytes \<Rightarrow> anchor_state \<Rightarrow> duplex \<Rightarrow> bool" where
  "honest_leg C b nonce state d \<longleftrightarrow> (\<exists>response. live_leg d (be32 (of_nat (length response)) @ response)
     \<and> length response \<le> MAX_ANCHOR_RESPONSE_LEN
     \<and> verify_anchor_response_bytes C response nonce (kb_config b) = Inr state)"

definition current_at :: "crypto \<Rightarrow> keystore_body \<Rightarrow> anchor_state \<Rightarrow> bool" where
  "current_at C b state \<longleftrightarrow> as_epoch state = kb_freshness_epoch b \<and> as_structural_version state = kb_structural_version b
     \<and> as_marks_digest state = compute_local_marks_digest C b"

lemma honest_round_trip:
  assumes "honest_quote C per_leg b nonce f" "honest_leg C b nonce state d" "length nonce = 32"
    "is_valid_environment_identifier (kc_environment_identifier (kb_config b))"
    "r = \<lparr>br_chain_id = kc_twod_chain_id (kb_config b), br_environment_identifier = kc_environment_identifier (kb_config b),
          br_nonce = nonce, br_report_data = anchor_handshake_report_data C (kc_twod_chain_id (kb_config b))
            (kc_environment_identifier (kb_config b)) nonce\<rparr>"
  shows "\<exists>response ledger. anchor_round_trip (relay_anchor_transport (producer_fetch per_leg) vsock_boot_relay_channel)
      (\<lparr>qp_fetches = f # fs, qp_ledger = []\<rparr>, Inr d # cs) r = (Inr response, \<lparr>qp_fetches = fs, qp_ledger = ledger\<rparr>, cs)
    \<and> verify_anchor_response_bytes C response nonce (kb_config b) = Inr state"
proof -
  let ?rdata = "anchor_handshake_report_data C (kc_twod_chain_id (kb_config b)) (kc_environment_identifier (kb_config b)) nonce"
  obtain report chain where q: "fetch_ready (fe_minted f + per_leg) f []" "encode_ok_frame report chain = Inr (pipe_bytes (fe_pipe f))"
    "take 64 (drop 0x50 report) = ?rdata"
    using assms(1) by (auto simp: honest_quote_def)
  have len: "192 \<le> length report" "length report \<le> 8192" "length chain \<le> 65536" using q(2) by (simp_all add: encode_ok_frame_Inr)
  have "list_all (live_turn (fe_minted f + per_leg)) (fe_pipe f)" using q(1) by (simp add: fetch_ready_def)
  from fetch_ready_result [OF q(1) drain_quote [OF this q(2)], of ?rdata] obtain ledger where
    fetch: "fetch_quote_via_child (fe_minted f + per_leg) ?rdata f [] = Some (Inr (report, chain), ledger)"
    using q(3) len by (auto simp: validate_child_reply_def report_data_from_report_def report_lens)
  have "length ?rdata \<le> 64" unfolding q(3) [symmetric] by simp
  then have "\<exists>frame. encode_anchor_boot_request report chain r = Inr frame"
    using len assms(3) valid_env_utf8 [OF assms(4)] put_lengths(1) [of 5 7] put_lengths(1) [of 0 1]
      put_lengths(1) [of 0 RELAY_REQUEST_VERSION] put_lengths(1) [of 0 "kc_twod_chain_id (kb_config b)"]
      put_lengths(1) [of 0 2] put_lengths(3) [of "kc_environment_identifier (kb_config b)"]
      put_lengths(1) [of 0 3] put_lengths(2) [of nonce] put_lengths(1) [of 0 4] put_lengths(2) [of ?rdata]
      put_lengths(1) [of 0 5] put_lengths(2) [of report] put_lengths(1) [of 0 6] put_lengths(2) [of chain] put_lengths(1) [of 0 7]
    by (simp add: encode_anchor_boot_request_def assms(5) MAX_QUOTE_REPORT_LEN_def MAX_CERT_CHAIN_LEN_def encode_message_def
        encode_message_raw_def Let_def MAX_MESSAGE_SIZE_def)
  then obtain frame where frame: "encode_anchor_boot_request report chain r = Inr frame" ..
  obtain response where resp: "live_leg d (be32 (of_nat (length response)) @ response)" "length response \<le> MAX_ANCHOR_RESPONSE_LEN"
    "verify_anchor_response_bytes C response nonce (kb_config b) = Inr state"
    using assms(2) by (auto simp: honest_leg_def)
  obtain d' where "relay_round_trip_over_stream_cap frame MAX_ANCHOR_RESPONSE_LEN d = (Inr response, d')"
    using round_trip_live [OF resp(1,2), of frame] by (auto simp: MAX_ANCHOR_RESPONSE_LEN_def)
  then show ?thesis
    using fetch frame resp(3)
    by (simp add: relay_anchor_transport_def relay_anchor_round_trip_def producer_fetch_def vsock_boot_relay_channel_def
        vsock_round_trip_def round_trip_inner_def assms(5))
qed

lemma honest_handshake_run:
  assumes "honest_quote (pl_crypto P) per_leg b nonce f" "honest_leg (pl_crypto P) b nonce state d" "length nonce = 32"
    "body_ok b" "current_at (pl_crypto P) b state" "gw_draws (ma_gateway m) = Some nonce # ds"
    "pr_binding (gw_process (ma_gateway m)) = None" "1 \<le> vb_max_attempts bud" "vb_max_attempts bud \<le> 64"
    "vb_per_leg_timeout bud = per_leg"
  shows "\<exists>s. handshake_run (pl_crypto P) bud (f # fs) vsock_boot_relay_channel (Inr d # cs) b m = (Ready state, s) \<and> bo_body s = b"
proof -
  let ?C = "pl_crypto P"
  let ?T = "relay_anchor_transport (producer_fetch per_leg) vsock_boot_relay_channel"
  let ?chain = "kc_twod_chain_id (kb_config b)" and ?env = "kc_environment_identifier (kb_config b)"
  let ?s = "\<lparr>bo_transport = (\<lparr>qp_fetches = f # fs, qp_ledger = []\<rparr>, Inr d # cs), bo_draws = gw_draws (ma_gateway m),
    bo_process = gw_process (ma_gateway m), bo_body = b\<rparr>"
  let ?r = "\<lparr>br_chain_id = ?chain, br_environment_identifier = ?env, br_nonce = nonce,
    br_report_data = report_data ?C \<lparr>ch_nonce = nonce, ch_chain_id = ?chain, ch_environment_identifier = ?env\<rparr>\<rparr>"
  have "is_valid_environment_identifier ?env" using assms(4) by (auto simp: body_ok_def config_ok_def)
  then obtain response t where rt: "anchor_round_trip ?T (bo_transport ?s) ?r = (Inr response, t)"
    "verify_anchor_response_bytes ?C response nonce (kb_config b) = Inr state"
    using honest_round_trip [OF assms(1-3), of ?r fs cs] by (auto simp: report_data_def)
  have "\<exists>s'. boot_attempt ?C ?T ?chain ?env ?s = (Inl (Ready state), s')"
    by (rule boot_attempt_fresh [OF _ _ rt(1)]) (use assms(5-7) rt(2) in \<open>auto simp: current_at_def\<close>)
  then obtain s' where s': "boot_attempt ?C ?T ?chain ?env ?s = (Inl (Ready state), s')" ..
  obtain k where k: "vb_max_attempts bud = Suc k" using assms(8) by (cases "vb_max_attempts bud") auto
  show ?thesis
    using s' boot_attempt_ready_body [OF s'] assms(9,10)
    by (simp add: handshake_run_def run_boot_anti_rollback_handshake_def k MAX_BOOT_ATTEMPTS_CEILING_def)
qed

lemma source_ok:
  assumes "agent_keystore_source P m = Some (Inr (b, meas), m')"
  shows "body_ok b \<and> meas \<noteq> []"
proof -
  obtain blob root where "unseal_body (pl_crypto P) (pl_serde P) blob root meas = Inr b"
    using assms
    by (auto simp: agent_keystore_source_def unseal_agent_keystore_at_boot_def run_provisioning_bootstrap_def and_then_Inr
        pure_step_Inr res_simps split: if_splits prod.splits)
  from unseal_body_Inr [OF this] show ?thesis by simp
qed

lemma honest_boot_body:
  assumes "boot_budget_config_from_env (bh_env (ma_host m)) = Inr (n, per_leg, overall)"
    "validate_boot_budget n per_leg overall = Inr bud" "anchor_relay_port_from_env (bh_env (ma_host m)) = Inr port"
    "ma_spawn m = f # fs" "ma_relay m (VMADDR_CID_HOST, port) = Inr d # cs" "\<not> ma_claimed m"
    "gw_keystore (ma_gateway m) = None" "gw_channel (ma_gateway m) = None" "pr_binding (gw_process (ma_gateway m)) = None"
    "gw_draws (ma_gateway m) = Some nonce # ds" "length nonce = 32" "body_ok b" "meas \<noteq> []" "current_at (pl_crypto P) b state"
    "honest_quote (pl_crypto P) per_leg b nonce f" "honest_leg (pl_crypto P) b nonce state d"
  shows "\<exists>m'. boot_body P b meas m = Some (Inr (), m') \<and> gw_keystore (ma_gateway m') = Some (b, meas)
    \<and> gw_process (ma_gateway m') = bound_to state \<and> ma_listen m' = ma_listen m \<and> ma_host m' = ma_host m"
proof -
  have bud: "1 \<le> vb_max_attempts bud" "vb_max_attempts bud \<le> 64" "vb_per_leg_timeout bud = per_leg"
    using assms(2) unfolding validate_boot_budget_Inr by simp_all
  obtain s where h: "handshake_run (pl_crypto P) bud (f # fs) vsock_boot_relay_channel (Inr d # cs) b m = (Ready state, s)" "bo_body s = b"
    using honest_handshake_run [OF assms(15,16,11,12,14,10,9) bud] by blast
  have "pr_binding (bo_process s) = Some \<lparr>ab_epoch = as_epoch state, ab_active = True\<rparr>"
    "bo_process s = bound_to state"
    using handshake_cases [OF h(1) [unfolded handshake_run_def]] assms(12) by (simp_all add: boot_current_def bound_to_def)
  then have "decide_serve (Ready state) real (bo_process s) = Inr state" for real
    by (simp add: decide_serve_def agent_anti_rollback_serve_gate_def is_anti_rollback_configured_def)
  then show ?thesis
    using assms(1-8,13) h \<open>bo_process s = bound_to state\<close>
    by (simp add: boot_body_def and_then_def pure_step_def run_boot_handshake_wired_def handshake_core_cases Let_def
        install_or_abort_def install_agent_keystore_def install_serve_time_commit_channel_def install_commit_channel_def)
qed

lemma boot_steps_cases:
  assumes "agent_gateway_boot_steps P m = Some (r, m')" "fresh_process m" "trusted_provisioners P H m" "platform_correct P"
  shows "case r of
      Inl _ \<Rightarrow> gw_keystore (ma_gateway m') = None
    | Inr _ \<Rightarrow> \<exists>b0 b meas state. sourced P H m meas b0 \<and> anchored (pl_crypto P) (gw_draws (ma_gateway m)) b0 b state
        \<and> gw_keystore (ma_gateway m') = Some (b, meas) \<and> gw_process (ma_gateway m') = bound_to state
        \<and> set (gw_draws (ma_gateway m')) \<subseteq> set (gw_draws (ma_gateway m)) \<and> \<not> ma_claimed m
        \<and> (gw_channel (ma_gateway m') \<noteq> None \<longleftrightarrow> bd_keygen_preview (pl_build P))
        \<and> gw_root (ma_gateway m') \<noteq> None"
proof -
  obtain r1 m1 where 1: "boot_configure_agent_seal_root (pl_build P) m = Some (r1, m1)"
    using assms(1) by (auto simp: boot_steps_body and_then_def split: option.splits)
  show ?thesis
  proof (cases r1)
    case (Inl e)
    then show ?thesis using 1 assms(1,2) configured_root [OF 1]
      by (auto simp: boot_steps_body and_then_def fresh_process_def)
  next
    case (Inr u)
    obtain root where root: "derive_agent_provisioning_root (pl_build P) (ma_host m) = Inr root"
      "m1 = m\<lparr>ma_gateway := (ma_gateway m)\<lparr>gw_root := Some root\<rparr>\<rparr>"
      using configured_root [OF 1] Inr by auto
    have t1: "trusted_provisioners P H m1" "\<forall>d. Some d \<in> set (gw_draws (ma_gateway m1)) \<longrightarrow> length d = 32"
      using assms(2,3) by (simp_all add: root(2) trusted_provisioners_def fresh_process_def)
    obtain r2 m2 where 2: "agent_keystore_source P m1 = Some (r2, m2)"
      using assms(1) 1 Inr by (auto simp: boot_steps_body and_then_def split: option.splits)
    have k2: "same_custody m1 m2" using keystore_source_custody [of P] 2 unfolding keeps_def by blast
    show ?thesis
    proof (cases r2)
      case Inl2: (Inl e)
      then show ?thesis using 1 2 Inr assms(1,2) k2
        by (auto simp: boot_steps_body and_then_def fresh_process_def same_custody_def root(2))
    next
      case Inr2: (Inr x)
      obtain b0 meas where x: "x = (b0, meas)" by fastforce
      have s: "sourced P H m meas b0"
        using keystore_source_cases [OF 2 [unfolded Inr2 x] t1(1) assms(4) t1(2)] root by (auto simp: sourced_def)
      have body: "boot_body P b0 meas m2 = Some (r, m')"
        using assms(1) 1 2 Inr Inr2 x by (simp add: boot_steps_body and_then_def)
      have fresh: "gw_keystore (ma_gateway m2) = None" "gw_channel (ma_gateway m2) = None"
        using k2 assms(2) by (simp_all add: same_custody_def root(2) fresh_process_def)
      show ?thesis
        using boot_body_cases [OF body _ fresh] source_ok [OF 2 [unfolded Inr2 x]] s k2
        by (fastforce simp: same_custody_def root(2) anchored_def split: sum.splits)
    qed
  qed
qed

section \<open>The pump\<close>

text \<open>Reads that begin at or after the deadline are not made.\<close>

definition live_prefix :: "read_event list \<Rightarrow> read_event list \<Rightarrow> bool" where
  "live_prefix es es' \<longleftrightarrow> (\<exists>k \<le> length es. length es' = length es - k \<and> (\<forall>e \<in> set (take k es). \<not> re_expired_before e)
       \<and> map re_expired_before es' = drop k (map re_expired_before es))"

lemma live_prefix_same: "map re_expired_before es' = map re_expired_before es \<Longrightarrow> live_prefix es es'"
  by (auto simp: live_prefix_def intro!: exI [of _ 0] dest: map_eq_imp_length_eq)

lemma live_prefix_Cons: "live_prefix es es' \<Longrightarrow> \<not> re_expired_before e \<Longrightarrow> live_prefix (e # es) es'"
  unfolding live_prefix_def by (elim exE conjE, rule_tac x = "Suc k" in exI) simp

lemma read_exact_before: "read_exact_loop True n buf es = (r, es') \<Longrightarrow> live_prefix es es'"
proof (induction es arbitrary: buf)
  case (Cons e es)
  have skip: "live_prefix (e # es) es" if "\<not> re_expired_before e"
    by (rule live_prefix_Cons [OF live_prefix_same that]) simp
  show ?case
    using Cons.prems Cons.IH skip
    by (auto simp: Let_def live_prefix_same split: if_splits read_outcome.splits intro: live_prefix_Cons)
qed (auto simp: live_prefix_same split: if_splits)

lemma read_framed_before:
  assumes "read_framed_message_with_idle_deadline True es = (r, es')"
  shows "\<exists>k \<le> length es. length es' = length es - k \<and> (\<forall>e \<in> set (take k es). \<not> re_expired_before e)"
proof -
  obtain h es1 where h: "read_exact_loop True 4 [] es = (h, es1)" by fastforce
  obtain k where k: "k \<le> length es" "length es1 = length es - k" "\<forall>e \<in> set (take k es). \<not> re_expired_before e"
    "map re_expired_before es1 = drop k (map re_expired_before es)" using read_exact_before [OF h] unfolding live_prefix_def by blast
  show ?thesis
  proof (cases "es' = es1")
    case True
    then show ?thesis using k by blast
  next
    case False
    then obtain l r2 where l: "h = Inr l" "read_exact_loop True (be_val l) [] es1 = (r2, es')"
      using assms h by (auto simp: read_framed_message_with_idle_deadline_def read_exact_with_idle_deadline_def Let_def
          split: sum.splits if_splits prod.splits)
    obtain j where j: "j \<le> length es1" "length es' = length es1 - j" "\<forall>e \<in> set (take j es1). \<not> re_expired_before e"
      using read_exact_before [OF l(2)] unfolding live_prefix_def by blast
    have "set (take j (map re_expired_before es1)) \<subseteq> {False}" using j(3) by (auto simp: take_map)
    then have "set (take j (drop k (map re_expired_before es))) \<subseteq> {False}" by (simp only: k(4))
    then have "\<forall>e \<in> set (take j (drop k es)). \<not> re_expired_before e" by (auto simp: drop_map take_map)
    moreover have "take (k + j) es = take k es @ take j (drop k es)" by (simp add: take_add)
    ultimately show ?thesis using k j by (intro exI [of _ "k + j"]) auto
  qed
qed

lemma read_frame_before:
  assumes "read_frame deadline ts = (r, ts')"
  shows "\<exists>k \<le> length ts. map tr_before ts' = drop k (map tr_before ts) \<and> (\<forall>t \<in> set (take k (map tr_before ts)). t < deadline)"
proof -
  obtain es where es: "read_framed_message_with_idle_deadline True (read_events deadline ts) = (r, es)" "ts' = unread ts es"
    using assms by (auto simp: read_frame_def split: prod.splits)
  obtain k where k: "k \<le> length ts" "length es = length ts - k" "\<forall>e \<in> set (take k (read_events deadline ts)). \<not> re_expired_before e"
    using read_framed_before [OF es(1)] by (auto simp: read_events_def)
  have m: "map tr_before (map2 (\<lambda>t e. t\<lparr>tr_outcome := re_outcome e\<rparr>) xs zs) = map tr_before xs" if "length xs = length zs" for xs zs
    using that by (induction xs zs rule: list_induct2) auto
  then have "map tr_before ts' = drop k (map tr_before ts)" using k(1,2) m [of "drop k ts" es]
    by (simp add: es(2) unread_def drop_map del: map_map map_zip_map2)
  moreover have "\<forall>t \<in> set (take k (map tr_before ts)). t < deadline"
    using k(3) by (auto simp: read_events_def take_map not_le)
  ultimately show ?thesis using k(1) by blast
qed

text \<open>One turn of the pump: it stops, at most having handled a frame, or it has answered one and goes on.\<close>

lemma serve_loop_cases:
  assumes "serve_framed_loop H cb idle deadline ws c s = (r, c', s')"
  obtains (stop) x ts where "read_frame deadline (an_reads c) = (x, ts)" "an_reads c' = ts" "an_written c' = an_written c"
      "s' = s \<or> (\<exists>frame. x = Inr frame \<and> s' = snd (H frame s))"
    | (turn) frame ts reply s1 now ws1 where "read_frame deadline (an_reads c) = (Inr frame, ts)" "H frame s = (Inr reply, s1)"
      "ws = (None, now) # ws1"
      "serve_framed_loop H cb idle (if reply_resets_idle cb reply then now + idle else deadline) ws1
         (c\<lparr>an_reads := ts, an_written := an_written c @ [reply]\<rparr>) s1 = (r, c', s')"
proof -
  obtain x ts where x: "read_frame deadline (an_reads c) = (x, ts)" by fastforce
  note run = assms [unfolded serve_framed_loop.simps [of H cb idle deadline ws c s]]
  show thesis
  proof (cases "\<exists>frame reply s1 now ws1. x = Inr frame \<and> H frame s = (Inr reply, s1) \<and> ws = (None, now) # ws1")
    case False
    then have "an_reads c' = ts \<and> an_written c' = an_written c \<and> (s' = s \<or> (\<exists>frame. x = Inr frame \<and> s' = snd (H frame s)))"
      using run x by (auto split: sum.splits prod.splits list.splits option.splits if_splits)
    then show thesis using stop [OF x] by blast
  next
    case True
    then obtain frame reply s1 now ws1 where y: "x = Inr frame" "H frame s = (Inr reply, s1)" "ws = (None, now) # ws1" by blast
    show thesis using turn [OF x [unfolded y(1)] y(2,3)] run x y by simp
  qed
qed

text \<open>What holds of the writes, of the replies so far, of the handler's state, and of the reads.\<close>

lemma serve_loop_induct:
  assumes "serve_framed_loop H cb idle deadline ws c s = (r, c', s')"
    and "\<And>ws deadline c s x ts c' s'. read_frame deadline (an_reads c) = (x, ts) \<Longrightarrow> an_reads c' = ts \<Longrightarrow> an_written c' = an_written c
      \<Longrightarrow> s' = s \<or> (\<exists>frame. x = Inr frame \<and> s' = snd (H frame s)) \<Longrightarrow> Q ws deadline c s c' s'"
    and "\<And>ws deadline c s frame ts reply s1 now c' s'. read_frame deadline (an_reads c) = (Inr frame, ts)
      \<Longrightarrow> H frame s = (Inr reply, s1)
      \<Longrightarrow> Q ws (if reply_resets_idle cb reply then now + idle else deadline)
            (c\<lparr>an_reads := ts, an_written := an_written c @ [reply]\<rparr>) s1 c' s' \<Longrightarrow> Q ((None, now) # ws) deadline c s c' s'"
  shows "Q ws deadline c s c' s'"
  using assms(1)
proof (induction ws arbitrary: deadline c s)
  case Nil
  from Nil.prems show ?case by (rule serve_loop_cases) (use assms(2) in auto)
next
  case (Cons w ws)
  from Cons.prems show ?case
  proof (rule serve_loop_cases)
    fix x ts
    assume "read_frame deadline (an_reads c) = (x, ts)" "an_reads c' = ts" "an_written c' = an_written c"
      "s' = s \<or> (\<exists>frame. x = Inr frame \<and> s' = snd (H frame s))"
    then show ?thesis by (rule assms(2))
  next
    fix frame ts reply s1 now ws1
    assume a: "read_frame deadline (an_reads c) = (Inr frame, ts)" "H frame s = (Inr reply, s1)" "w # ws = (None, now) # ws1"
      "serve_framed_loop H cb idle (if reply_resets_idle cb reply then now + idle else deadline) ws1
         (c\<lparr>an_reads := ts, an_written := an_written c @ [reply]\<rparr>) s1 = (r, c', s')"
    then have "Q ws (if reply_resets_idle cb reply then now + idle else deadline)
        (c\<lparr>an_reads := ts, an_written := an_written c @ [reply]\<rparr>) s1 c' s'" by (intro Cons.IH) simp
    from assms(3) [OF a(1,2) this] a(3) show ?thesis by simp
  qed
qed

text \<open>When a read may begin: before the deadline, or within the idle time after a reply that extends it.\<close>

definition in_time :: "ciborium \<Rightarrow> nat \<Rightarrow> nat \<Rightarrow> (io_kind option \<times> nat) list \<Rightarrow> bytes list \<Rightarrow> nat \<Rightarrow> bool" where
  "in_time cb idle deadline ws sent t \<longleftrightarrow> t < deadline
     \<or> (\<exists>i < length sent. \<exists>now. ws ! i = (None, now) \<and> t < now + idle \<and> reply_resets_idle cb (sent ! i))"

lemma in_time_turn:
  assumes "in_time cb idle (if reply_resets_idle cb reply then now + idle else deadline) ws sent t"
  shows "in_time cb idle deadline ((None, now) # ws) (reply # sent) t"
proof -
  consider (turn) "reply_resets_idle cb reply" "t < now + idle" | "t < deadline"
    | (later) i now' where "i < length sent" "ws ! i = (None, now')" "t < now' + idle" "reply_resets_idle cb (sent ! i)"
    using assms unfolding in_time_def by (auto split: if_splits)
  then show ?thesis
  proof cases
    case turn
    then show ?thesis unfolding in_time_def by (intro disjI2 exI [of _ 0]) simp
  next
    case later
    then show ?thesis unfolding in_time_def by (intro disjI2 exI [of _ "Suc i"]) simp
  qed (simp add: in_time_def)
qed

lemma serve_loop_before:
  "serve_framed_loop H cb idle deadline ws c s = (r, c', s') \<Longrightarrow>
     (\<exists>sent k. an_written c' = an_written c @ sent \<and> k \<le> length (an_reads c)
       \<and> map tr_before (an_reads c') = drop k (map tr_before (an_reads c))
       \<and> (\<forall>t \<in> set (take k (map tr_before (an_reads c))). in_time cb idle deadline ws sent t))"
proof (erule serve_loop_induct, goal_cases)
  case (1 ws deadline c s x ts c' s')
  obtain k where "k \<le> length (an_reads c)" "map tr_before ts = drop k (map tr_before (an_reads c))"
    "\<forall>t \<in> set (take k (map tr_before (an_reads c))). t < deadline" using read_frame_before [OF 1(1)] by blast
  then show ?case using 1 by (intro exI [of _ "[]"] exI [of _ k]) (auto simp: in_time_def)
next
  case (2 ws deadline c s frame ts reply s1 now c' s')
  obtain k where k: "k \<le> length (an_reads c)" "map tr_before ts = drop k (map tr_before (an_reads c))"
    "\<forall>t \<in> set (take k (map tr_before (an_reads c))). t < deadline" using read_frame_before [OF 2(1)] by blast
  obtain sent j where j: "an_written c' = an_written c @ reply # sent" "j \<le> length ts"
    "map tr_before (an_reads c') = drop j (map tr_before ts)"
    "\<forall>t \<in> set (take j (map tr_before ts)). in_time cb idle (if reply_resets_idle cb reply then now + idle else deadline) ws sent t"
    using 2(3) by auto
  have "length ts = length (an_reads c) - k" using arg_cong [OF k(2), of length] by simp
  moreover have "take (k + j) (map tr_before (an_reads c)) = take k (map tr_before (an_reads c)) @ take j (map tr_before ts)"
    by (simp only: take_add k(2))
  moreover have "in_time cb idle deadline ((None, now) # ws) (reply # sent) t" if "t < deadline" for t
    using that by (simp add: in_time_def)
  ultimately show ?case using k j in_time_turn
    by (intro exI [of _ "reply # sent"] exI [of _ "k + j"]) (auto simp: add.commute)
qed

section \<open>Serving is a run of the gateway\<close>

text \<open>A run of the serving gateway, frame by frame: each frame is handled by the code's handler and either leaves the keystore as
  it is, or is a commit, and then the body it installs was sealed and acknowledged by the anchor for this request
  (\<open>frame_commits\<close>, \<open>anchor_committed\<close>).\<close>

inductive acked_run :: "'f platform \<Rightarrow> connections gateway \<Rightarrow> gateway_event list \<Rightarrow> connections gateway \<Rightarrow> bool" for P where
  acked_Nil: "acked_run P g [] g"
| acked_answer: "handle_agent_gateway_frame (pl_crypto P) (pl_serde P) (pl_features P) (pl_writer P) vsock_round_trip payload g = (out, g1)
     \<Longrightarrow> same_store g g1 \<Longrightarrow> frame_answers (pl_crypto P) (pl_features P) (pl_writer P) payload g out g1
     \<Longrightarrow> acked_run P g1 es g' \<Longrightarrow> acked_run P g (Answered payload out # es) g'"
| acked_commit: "handle_agent_gateway_frame (pl_crypto P) (pl_serde P) (pl_features P) (pl_writer P) vsock_round_trip payload g = (out, g1)
     \<Longrightarrow> same_store g g1
     \<Longrightarrow> frame_commits (pl_crypto P) (pl_serde P) (pl_features P) (pl_writer P) vsock_round_trip payload g out g1 b resp b' sealed
     \<Longrightarrow> acked_run P g1 es g' \<Longrightarrow> acked_run P g (Committed payload out # es) g'"

fun event_out :: "gateway_event \<Rightarrow> bytes" where
  "event_out (Answered _ out) = out"
| "event_out (Committed _ out) = out"
| "event_out _ = []"

text \<open>The frame in which the reply to an event goes out.\<close>

definition reply_frame :: "gateway_event \<Rightarrow> protocol_error + bytes" where
  "reply_frame e = encode_message AgentGateway (event_out e)"

lemmas acked_run_intros [intro] = acked_run.intros

lemma acked_append: "acked_run P g es g' \<Longrightarrow> acked_run P g' es' g'' \<Longrightarrow> acked_run P g (es @ es') g''"
  by (induction rule: acked_run.induct) auto

lemma frame_acked:
  assumes "handle_agent_gateway_frame (pl_crypto P) (pl_serde P) (pl_features P) (pl_writer P) vsock_round_trip payload g = (out, g')"
  shows "\<exists>e. acked_run P g [e] g' \<and> event_out e = out"
  using handle_frame_cases [OF assms]
proof (elim conjE disjE exE)
  assume "same_store g g'" "frame_answers (pl_crypto P) (pl_features P) (pl_writer P) payload g out g'"
  from acked_answer [OF assms this acked_Nil] show ?thesis by (intro exI [of _ "Answered payload out"]) simp
next
  fix b resp b' sealed
  assume "same_store g g'"
    "frame_commits (pl_crypto P) (pl_serde P) (pl_features P) (pl_writer P) vsock_round_trip payload g out g' b resp b' sealed"
  from acked_commit [OF assms this acked_Nil] show ?thesis by (intro exI [of _ "Committed payload out"]) simp
qed

lemma one_frame_acked:
  assumes "agent_serve_one_frame P frame g = (r, g')"
  shows "(\<exists>e. r = Inl e \<and> g' = g) \<or> (\<exists>e. acked_run P g [e] g' \<and> r = reply_frame e)"
  using assms frame_acked by (fastforce simp: agent_serve_one_frame_def reply_frame_def split: sum.splits prod.splits if_splits)

text \<open>The replies of a connection are those of the events, in order; only the last one may have failed to go out.\<close>

lemma pump_acked:
  "serve_framed_loop (agent_serve_one_frame P) cb idle deadline ws c g = (r, c', g') \<Longrightarrow>
     (\<exists>es sent. acked_run P g es g' \<and> an_written c' = an_written c @ sent \<and> length sent \<le> length es \<and> length es \<le> Suc (length sent)
        \<and> map Inr sent = map reply_frame (take (length sent) es))"
proof (erule serve_loop_induct, goal_cases)
  case (1 ws deadline c s x ts c' s')
  have "\<exists>es. acked_run P s es s' \<and> length es \<le> 1"
  proof (cases "s' = s")
    case True
    then show ?thesis by (intro exI [of _ "[]"]) auto
  next
    case False
    then obtain frame where f: "s' = snd (agent_serve_one_frame P frame s)" using 1(4) by blast
    from one_frame_acked [of P frame s] False show ?thesis unfolding f
      by (metis One_nat_def length_Cons list.size(3) order_refl prod.collapse)
  qed
  then obtain es where "acked_run P s es s'" "length es \<le> 1" by blast
  then show ?case using 1(3) by (intro exI [of _ es] exI [of _ "[]"]) simp
next
  case (2 ws deadline c s frame ts reply s1 now c' s')
  obtain e where e: "acked_run P s [e] s1" "reply_frame e = Inr reply" using one_frame_acked [OF 2(2)] by auto
  obtain es sent where es: "acked_run P s1 es s'" "an_written c' = an_written c @ reply # sent" "length sent \<le> length es"
    "length es \<le> Suc (length sent)" "map Inr sent = map reply_frame (take (length sent) es)" using 2(3) by auto
  show ?case using acked_append [OF e(1) es(1)] es(2-5) e(2) by (intro exI [of _ "e # es"] exI [of _ "reply # sent"]) simp
qed

lemma subseq_take: "subseq (take n xs) xs"
  by (metis append_take_drop_id subseq_rev_drop_many subseq_order.refl)

lemma accepted_acked:
  assumes "handle_agent_accepted P a g = (line, sent, g')"
  shows "\<exists>es. acked_run P g es g' \<and> ((\<forall>conn. a = Inr conn \<longrightarrow> an_written conn = []) \<longrightarrow> subseq (map Inr sent) (map reply_frame es))"
proof -
  consider "g' = g" "sent = []" | (pump) conn r c' where "a = Inr conn" "an_written c' = sent"
      "serve_framed_pump (agent_serve_one_frame P) (pl_wire P) SESSION_IDLE_TIMEOUT conn g = (r, c', g')"
    using assms by (auto simp: handle_agent_accepted_def split: sum.splits option.splits prod.splits)
  then show ?thesis
  proof cases
    case pump
    from pump_acked [OF pump(3) [unfolded serve_framed_pump_def]] obtain es out where
      es: "acked_run P g es g'" "sent = an_written conn @ out" "map Inr out = map reply_frame (take (length out) es)"
      using pump(2) by blast
    moreover have "subseq (map Inr out) (map reply_frame es)" unfolding es(3) by (intro subseq_map subseq_take)
    ultimately show ?thesis using pump(1) by auto
  qed (auto intro: exI [of _ "[]"])
qed

lemma serve_loop_acked:
  "serve_agent_loop P incoming g = (lines, g') \<Longrightarrow>
     (\<exists>es. acked_run P g es g' \<and> ((\<forall>conn. Inr conn \<in> set incoming \<longrightarrow> an_written conn = []) \<longrightarrow>
        subseq (map Inr (concat (map snd lines))) (map reply_frame es)))"
proof (induction incoming arbitrary: g lines)
  case (Cons a incoming)
  obtain line sent g1 rest where a: "handle_agent_accepted P a g = (line, sent, g1)" "serve_agent_loop P incoming g1 = (rest, g')"
    "lines = (line, sent) # rest" using Cons.prems by (auto split: prod.splits)
  obtain es where es: "acked_run P g es g1"
    "(\<forall>conn. a = Inr conn \<longrightarrow> an_written conn = []) \<longrightarrow> subseq (map Inr sent) (map reply_frame es)" using accepted_acked [OF a(1)] by blast
  obtain es' where es': "acked_run P g1 es' g'" "(\<forall>conn. Inr conn \<in> set incoming \<longrightarrow> an_written conn = []) \<longrightarrow>
      subseq (map Inr (concat (map snd rest))) (map reply_frame es')" using Cons.IH [OF a(2)] by blast
  show ?case using acked_append [OF es(1) es'(1)] es(2) es'(2) a(3)
    by (intro exI [of _ "es @ es'"]) (auto intro: list_emb_append_mono)
qed (auto intro: exI [of _ "[]"])

text \<open>What such a run does to the keystore: as many commits, as many steps of the epoch.\<close>

lemma acked_run_ok:
  "acked_run P g es g' \<Longrightarrow> gateway_ok g \<Longrightarrow> k1_public_uncompressed (pl_crypto P) \<Longrightarrow>
     gateway_ok g' \<and> advances (length (filter is_commit es)) g g' \<and> same_store g g'"
proof (induction rule: acked_run.induct)
  case (acked_Nil g)
  then show ?case by (simp add: advances_def same_store_def)
next
  case (acked_answer payload g out g1 es g')
  have "gw_keystore g1 = gw_keystore g" using acked_answer(3) by (simp add: frame_answers_def)
  then have "gateway_ok g1" "advances 0 g g1" using acked_answer by (auto simp: same_store_def gateway_ok_def advances_def)
  then show ?case using acked_answer advances_trans [of 0 g g1] same_store_trans by fastforce
next
  case (acked_commit payload g out g1 b resp b' sealed es g')
  note c = commit_advances [OF acked_commit(3,6,7)]
  have "gateway_ok g1" using acked_commit(2,3,6) c(1) by (auto simp: same_store_def gateway_ok_def frame_commits_def evolves_def)
  moreover have "advances 1 g g1" using acked_commit(3) c by (auto simp: advances_def frame_commits_def)
  ultimately show ?case using acked_commit advances_trans [of 1 g g1] same_store_trans by fastforce
qed

section \<open>Samples\<close>

text \<open>A lab machine whose keystore was provisioned before: its root, its measurement and the sealed blob are files, the
  anchor knows its state, and a healthy child and one leg to the anchor are there.\<close>

definition sample_blob :: bytes where
  "sample_blob = (case seal_body sample_crypto sample_serde sample_body zero32 [1] (Some (replicate 24 3)) of Inr b \<Rightarrow> b | Inl _ \<Rightarrow> [])"

lemma sample_blob: "unseal_body sample_crypto sample_serde sample_blob zero32 [1] = Inr sample_body"
    "length sample_blob \<le> MAX_KEYSTORE_BLOB_SIZE"
proof -
  obtain blob where b: "seal_body sample_crypto sample_serde sample_body zero32 [1] (Some (replicate 24 3)) = Inr blob"
    using sample_seal by blast
  show "unseal_body sample_crypto sample_serde sample_blob zero32 [1] = Inr sample_body" "length sample_blob \<le> MAX_KEYSTORE_BLOB_SIZE"
    using unseal_seal_body [OF sample_crypto_correct refl _ b] by (simp_all add: sample_blob_def b)
qed

definition served_platform :: "bytes platform" where
  "served_platform = sample_platform\<lparr>pl_crypto := sample_crypto, pl_serde := sample_serde\<rparr>"

definition served_host :: boot_host where
  "served_host = \<lparr>bh_env = [TWOD_HSM_PQ_SEAL_V1_ROOT_FILE \<mapsto> ascii ''r'',
       TWOD_HSM_AGENT_SEALED_KEYSTORE_FILE \<mapsto> ascii ''k'', TWOD_HSM_ENCLAVE_MEASUREMENT_FILE \<mapsto> ascii ''m''],
     bh_file = [ascii ''r'' \<mapsto> zero32, ascii ''k'' \<mapsto> sample_blob, ascii ''m'' \<mapsto> [1]], bh_exists = [ascii ''k'' \<mapsto> True]\<rparr>"

definition served_rdata :: bytes where
  "served_rdata = anchor_handshake_report_data sample_crypto 11565 (ascii ''lab'') (replicate 32 2)"

definition served_fetch :: fetch_script where
  "served_fetch = sample_fetch [Some True] [sample_turn (Chunk (quote_frame (Snp_Report.sample_report served_rdata (replicate 48 4)) [9]))]"

definition served_state :: anchor_state where
  "served_state = \<lparr>as_epoch = 6, as_structural_version = 3, as_marks_digest = compute_local_marks_digest sample_crypto sample_body,
     as_chain_height = None, as_chain_block_hash = None\<rparr>"

definition served_response :: bytes where
  "served_response = sample_response_bytes 6 (compute_local_marks_digest sample_crypto sample_body) (replicate 32 2)"

definition served_machine :: "bytes machine" where
  "served_machine = \<lparr>ma_gateway = \<lparr>gw_keystore = None, gw_root = None, gw_channel = None,
       gw_process = \<lparr>pr_challenge = None, pr_binding = None\<rparr>, gw_draws = [Some (replicate 32 2)]\<rparr>,
     ma_host = served_host, ma_create = (\<lambda>_ _. None),
     ma_listen = (\<lambda>_. \<lparr>li_bind = True, li_accept = True, li_timeouts = True, li_stream = sample_ceremony_stream\<rparr>),
     ma_tsm = [], ma_claimed = False, ma_spawn = [served_fetch],
     ma_relay = (\<lambda>_. [Inr (leg (be32 (of_nat (length served_response)) @ served_response))]), ma_events = []\<rparr>"

lemmas served_names = boot_names TWOD_HSM_PQ_SEAL_V1_ROOT_FILE_def LEGACY_HSM_PQ_SEAL_V1_ROOT_FILE_def
  TWOD_HSM_BOOT_MAX_ATTEMPTS_def LEGACY_HSM_BOOT_MAX_ATTEMPTS_def TWOD_HSM_BOOT_PER_LEG_TIMEOUT_MS_def
  LEGACY_HSM_BOOT_PER_LEG_TIMEOUT_MS_def TWOD_HSM_BOOT_OVERALL_BUDGET_MS_def LEGACY_HSM_BOOT_OVERALL_BUDGET_MS_def
  TWOD_HSM_VSOCK_CID_def LEGACY_HSM_VSOCK_CID_def LEGACY_HSM_OPERATOR_CA_ROOT_HEX_def

lemma served_env:
  "boot_budget_config_from_env (bh_env served_host) = Inr (5, 5000000000, 82000000000)"
  "anchor_relay_port_from_env (bh_env served_host) = Inr 5001"
  "vsock_listen_addr_from_env (bh_env served_host) = Inr (DEFAULT_VSOCK_CID, DEFAULT_VSOCK_PORT)"
  "\<not> provisioning_mode_enabled (bh_env served_host)"
  "provisioning_ca_root C served_host = unavailable ''provisioning: TWOD_HSM_OPERATOR_CA_ROOT_HEX not set''"
  by (simp_all add: boot_budget_config_from_env_def env_u32_or_def env_u64_or_def var_twod_def env_var_def served_host_def
      served_names DEFAULT_BOOT_MAX_ATTEMPTS_def DEFAULT_BOOT_PER_LEG_TIMEOUT_MS_def derive_overall_budget_ms_def u64_sat_def
      BOOT_DERIVE_PER_ATTEMPT_MARGIN_MS_def BOOT_DERIVE_SLACK_MS_def from_millis_def anchor_relay_port_from_env_def
      serve_vsock_port_from_env_def env_u32_twod_def DEFAULT_ANCHOR_RELAY_PORT_def DEFAULT_VSOCK_PORT_def validate_relay_port_def
      vsock_listen_addr_from_env_def validate_vsock_listen_addr_def DEFAULT_VSOCK_CID_def provisioning_mode_enabled_def
      provisioning_ca_root_def)

lemma served_budget: "\<exists>bud. validate_boot_budget 5 5000000000 82000000000 = Inr bud"
  by (simp add: validate_boot_budget_Inr)

lemma served_root: "boot_configure_agent_seal_root lab_build served_machine
    = Some (Inr (), served_machine\<lparr>ma_gateway := (ma_gateway served_machine)\<lparr>gw_root := Some zero32\<rparr>\<rparr>)"
  by (simp add: boot_configure_agent_seal_root_def derive_agent_provisioning_root_def lab_build_def served_machine_def served_host_def
      var_twod_def env_var_def served_names ascii_def read_boot_file_capped_def exactly_32_def zero32_def and_then_def pure_step_def
      set_provisioning_root_def)

lemma served_source:
  assumes "ma_host m = served_host" "gw_root (ma_gateway m) = Some zero32"
  shows "agent_keystore_source served_platform m = Some (Inr (sample_body, [1]), m)"
proof -
  have "agent_boot_measurement lab_build served_host = Inr [1]"
    by (simp add: agent_boot_measurement_def var_twod_def env_var_def ascii_def served_host_def served_names
        read_boot_file_capped_def trim_trailing_newlines_def lab_build_def AGENT_MEASUREMENT_FILE_MAX_BYTES_def)
  moreover have "agent_sealed_keystore_blob served_platform m = Some (Inr sample_blob, m)"
    using sample_blob(2) assms(1)
    by (simp add: agent_sealed_keystore_blob_def served_platform_def sample_platform_def lab_build_def keystore_path_def var_twod_def
        env_var_def ascii_def served_host_def served_names read_boot_file_capped_def)
  moreover have "pl_build served_platform = lab_build" "pl_crypto served_platform = sample_crypto" "pl_serde served_platform = sample_serde"
    by (simp_all add: served_platform_def sample_platform_def)
  ultimately show ?thesis
    using assms sample_blob(1) served_env(4)
    by (simp add: agent_keystore_source_def unseal_agent_keystore_at_boot_def and_then_def pure_step_def resolve_provisioning_root_def)
qed

lemma served_quote: "honest_quote sample_crypto 5000000000 sample_body (replicate 32 2) served_fetch"
proof -
  have len: "length served_rdata = 64" by (simp add: served_rdata_def anchor_handshake_report_data_def sample_crypto_def)
  let ?r = "Snp_Report.sample_report served_rdata (replicate 48 4)"
  have "pipe_bytes (fe_pipe served_fetch) = quote_frame ?r [9]"
    by (simp add: served_fetch_def sample_fetch_def sample_turn_def)
  moreover have "encode_ok_frame ?r [9] = Inr (quote_frame ?r [9])"
    using len by (simp add: encode_ok_frame_Inr Snp_Report.sample_report_def)
  moreover have "take 64 (drop 0x50 ?r) = served_rdata" using len by (simp add: Snp_Report.sample_report_def)
  moreover have "fetch_ready (fe_minted served_fetch + 5000000000) served_fetch []"
    by (simp add: fetch_ready_def served_fetch_def sample_fetch_def remaining_or_lapsed_def MIN_BOUNDARY_BUDGET_def is_full_def
        ABANDONED_CHILD_BUDGET_def MAX_BOOT_ATTEMPTS_CEILING_def live_turn_def sample_turn_def ok_or_def
        classify_pipe_revents_def POLLIN_def POLLHUP_def quote_frame_def poll_with_deadline_def)
  moreover have "served_rdata = anchor_handshake_report_data sample_crypto (kc_twod_chain_id (kb_config sample_body))
      (kc_environment_identifier (kb_config sample_body)) (replicate 32 2)"
    by (simp add: served_rdata_def sample_body_def sample_config_def)
  ultimately show ?thesis unfolding honest_quote_def by metis
qed

lemma served_reply: "honest_leg sample_crypto sample_body (replicate 32 2) served_state
    (leg (be32 (of_nat (length served_response)) @ served_response))"
proof -
  have "verify_anchor_response_bytes sample_crypto served_response (replicate 32 2) sample_config
      = Inr (state_of (sample_response_at 6 (compute_local_marks_digest sample_crypto sample_body) (replicate 32 2)))"
    unfolding served_response_def
    by (rule sample_response_verified) (simp_all add: sample_marks_digest_length, simp_all add: sample_crypto_def)
  moreover have "length served_response \<le> 4096"
    by (simp add: served_response_def sample_response_bytes_def sample_response_map_def put_uint_def put_bytes_def put_text_def Let_def
        sample_marks_digest_length ascii_def)
  moreover have "live_leg (leg (be32 n @ served_response)) (be32 n @ served_response)" for n
  proof (rule live_leg_leg)
    have "length (be32 n) = 4" by simp
    then show "be32 n @ served_response \<noteq> []" by fastforce
  qed
  ultimately show ?thesis
    unfolding honest_leg_def
    by (intro exI [of _ served_response])
      (simp add: live_leg_leg MAX_ANCHOR_RESPONSE_LEN_def served_state_def state_of_def sample_response_at_def sample_body_def)
qed

lemma served_current: "current_at sample_crypto sample_body served_state"
  by (simp add: current_at_def served_state_def sample_body_def)

section \<open>Properties\<close>

text \<open>C38: the keystore is installed last and only when it is current. Started in a fresh process, and against whatever host,
  provisioner, quote device and anchor it meets, the boot either ends with no keystore installed, or it installs, with
  its measurement, the body from its source (the sealed file or this boot's ceremony), brought forward at most in marks
  and epoch, and that agrees with a state the anchor signed for a nonce this boot drew; the anti-rollback binding is then that of
  this epoch, the quote ledger was claimed for the first time, and the commit channel is there exactly in the builds that commit.\<close>

theorem boot_installs_only_current:
  assumes "agent_gateway_boot_steps P m = Some (r, m')" "fresh_process m" "trusted_provisioners P H m" "platform_correct P"
  shows "(case r of
      Inl _ \<Rightarrow> gw_keystore (ma_gateway m') = None
    | Inr _ \<Rightarrow> \<exists>b0 b meas state. sourced P H m meas b0 \<and> anchored (pl_crypto P) (gw_draws (ma_gateway m)) b0 b state
        \<and> gw_keystore (ma_gateway m') = Some (b, meas) \<and> gw_process (ma_gateway m') = bound_to state \<and> \<not> ma_claimed m
        \<and> (gw_channel (ma_gateway m') \<noteq> None \<longleftrightarrow> bd_keygen_preview (pl_build P)))"
  using boot_steps_cases [OF assms] by (fastforce split: sum.splits)

lemma honest_boot_steps:
  assumes "boot_configure_agent_seal_root (pl_build P) m = Some (Inr (), m1)"
    "agent_keystore_source P m1 = Some (Inr (b, meas), m2)" "fresh_process m"
    "\<not> ma_claimed m" "pr_binding (gw_process (ma_gateway m)) = None"
    "boot_budget_config_from_env (bh_env (ma_host m)) = Inr (n, per_leg, overall)"
    "validate_boot_budget n per_leg overall = Inr bud" "anchor_relay_port_from_env (bh_env (ma_host m)) = Inr port"
    "ma_spawn m = f # fs" "ma_relay m (VMADDR_CID_HOST, port) = Inr d # cs"
    "gw_draws (ma_gateway m2) = Some nonce # ds"
    "current_at (pl_crypto P) b state" "honest_quote (pl_crypto P) per_leg b nonce f" "honest_leg (pl_crypto P) b nonce state d"
  shows "\<exists>m'. agent_gateway_boot_steps P m = Some (Inr (), m') \<and> gw_keystore (ma_gateway m') = Some (b, meas)
    \<and> gw_process (ma_gateway m') = bound_to state \<and> ma_listen m' = ma_listen m2 \<and> bh_env (ma_host m') = bh_env (ma_host m)"
proof -
  obtain root where m1: "m1 = m\<lparr>ma_gateway := (ma_gateway m)\<lparr>gw_root := Some root\<rparr>\<rparr>"
    using configured_root [OF assms(1)] by auto
  have k: "same_custody m1 m2" using keystore_source_custody [of P] assms(2) unfolding keeps_def by blast
  have "Some nonce \<in> set (gw_draws (ma_gateway m))" using k assms(11) by (auto simp: same_custody_def m1)
  then have nonce: "length nonce = 32" using assms(3) by (simp add: fresh_process_def)
  have "\<exists>m'. boot_body P b meas m2 = Some (Inr (), m') \<and> gw_keystore (ma_gateway m') = Some (b, meas)
      \<and> gw_process (ma_gateway m') = bound_to state \<and> ma_listen m' = ma_listen m2 \<and> ma_host m' = ma_host m2"
    by (rule honest_boot_body [OF _ assms(7) _ _ _ _ _ _ _ assms(11) nonce _ _ assms(12-14)])
      (use k assms(3-6,8-10) source_ok [OF assms(2)] in \<open>simp_all add: same_custody_def m1 fresh_process_def\<close>)
  then show ?thesis using assms(1,2) k by (auto simp: boot_steps_body and_then_def same_custody_def m1)
qed

lemma served_boot:
  "\<exists>m'. agent_gateway_boot_steps served_platform served_machine = Some (Inr (), m')
     \<and> gw_keystore (ma_gateway m') = Some (sample_body, [1]) \<and> ma_listen m' = ma_listen served_machine
     \<and> bh_env (ma_host m') = bh_env served_host"
proof -
  have P: "pl_build served_platform = lab_build" "pl_crypto served_platform = sample_crypto"
    by (simp_all add: served_platform_def sample_platform_def)
  let ?m1 = "served_machine\<lparr>ma_gateway := (ma_gateway served_machine)\<lparr>gw_root := Some zero32\<rparr>\<rparr>"
  have src: "agent_keystore_source served_platform ?m1 = Some (Inr (sample_body, [1]), ?m1)"
    by (rule served_source) (simp_all add: served_machine_def)
  obtain bud where bud: "validate_boot_budget 5 5000000000 82000000000 = Inr bud" using served_budget by blast
  have "\<exists>m'. agent_gateway_boot_steps served_platform served_machine = Some (Inr (), m')
      \<and> gw_keystore (ma_gateway m') = Some (sample_body, [1]) \<and> gw_process (ma_gateway m') = bound_to served_state
      \<and> ma_listen m' = ma_listen ?m1 \<and> bh_env (ma_host m') = bh_env (ma_host served_machine)"
    by (rule honest_boot_steps [OF served_root [folded P] src _ _ _ _ bud _ _ _ _ served_current [folded P(2)]
          served_quote [folded P(2)] served_reply [folded P(2)]])
      (simp_all add: served_machine_def served_env fresh_process_def)
  then show ?thesis by (auto simp: served_machine_def)
qed

lemma served_trusted: "fresh_process served_machine" "trusted_provisioners served_platform {} served_machine"
    "platform_correct served_platform"
  using sample_crypto_correct
  by (simp_all add: fresh_process_def served_machine_def trusted_provisioners_def served_env platform_correct_def
      served_platform_def sample_platform_def)

lemma boot_installs_only_current_witness:
  "\<exists>m' b meas state. agent_gateway_boot_steps served_platform served_machine = Some (Inr (), m')
     \<and> gw_keystore (ma_gateway m') = Some (b, meas) \<and> anchored sample_crypto [Some (replicate 32 2)] sample_body b state"
proof -
  obtain m' where run: "agent_gateway_boot_steps served_platform served_machine = Some (Inr (), m')"
    "gw_keystore (ma_gateway m') = Some (sample_body, [1])" using served_boot by blast
  have P: "pl_crypto served_platform = sample_crypto" "gw_draws (ma_gateway served_machine) = [Some (replicate 32 2)]"
    by (simp_all add: served_platform_def sample_platform_def served_machine_def)
  from boot_installs_only_current [OF run(1) served_trusted] obtain b0 state where
    "anchored sample_crypto [Some (replicate 32 2)] b0 sample_body state"
    using run(2) by (auto simp: P)
  moreover from this have "anchored sample_crypto [Some (replicate 32 2)] sample_body sample_body state"
    by (auto simp: anchored_def adopted_refl adopted_def)
  ultimately show ?thesis using run by blast
qed

lemma served_anchored:
  assumes "run_agent_gateway_boot_inner P incoming m = Some (r, m')" "fresh_process m" "trusted_provisioners P H m"
    "platform_correct P" "k1_public_uncompressed (pl_crypto P)"
  shows "(case gw_keystore (ma_gateway m') of
      None \<Rightarrow> \<exists>e. r = Inl e
    | Some (b, meas) \<Rightarrow> \<exists>m1 b0 b1 state es. agent_gateway_boot_steps P m = Some (Inr (), m1)
        \<and> sourced P H m meas b0 \<and> anchored (pl_crypto P) (gw_draws (ma_gateway m)) b0 b1 state
        \<and> gw_keystore (ma_gateway m1) = Some (b1, meas) \<and> gw_process (ma_gateway m1) = bound_to state
        \<and> acked_run P (ma_gateway m1) es (ma_gateway m') \<and> gw_process (ma_gateway m') = bound_to state
        \<and> (if filter is_commit es = [] then b = b1 else evolves b1 b)
        \<and> unat (kb_freshness_epoch b) = unat (as_epoch state) + length (filter is_commit es)
        \<and> (\<forall>lines. r = Inr lines \<and> (\<forall>conn. Inr conn \<in> set incoming \<longrightarrow> an_written conn = [])
             \<longrightarrow> subseq (map Inr (concat (map snd lines))) (map reply_frame es)))"
proof -
  obtain r1 m1 where 1: "agent_gateway_boot_steps P m = Some (r1, m1)"
    using assms(1) by (auto simp: run_agent_gateway_boot_inner_def and_then_def split: option.splits)
  show ?thesis
  proof (cases r1)
    case (Inl e)
    then show ?thesis using 1 assms(1) boot_steps_cases [OF 1 assms(2-4)]
      by (auto simp: run_agent_gateway_boot_inner_def and_then_def)
  next
    case (Inr u)
    obtain b0 b1 meas state where b: "sourced P H m meas b0" "anchored (pl_crypto P) (gw_draws (ma_gateway m)) b0 b1 state"
      "gw_keystore (ma_gateway m1) = Some (b1, meas)" "gw_process (ma_gateway m1) = bound_to state"
      "set (gw_draws (ma_gateway m1)) \<subseteq> set (gw_draws (ma_gateway m))"
      using boot_steps_cases [OF 1 assms(2-4)] Inr by auto
    have "run_agent_serve_loop P incoming m1 = Some (r, m')"
      using assms(1) 1 Inr by (simp add: run_agent_gateway_boot_inner_def and_then_def)
    then have "(\<exists>e. r = Inl e) \<and> ma_gateway m' = ma_gateway m1
        \<or> (\<exists>lines. r = Inr lines \<and> serve_agent_loop P incoming (ma_gateway m1) = (lines, ma_gateway m'))"
      by (auto simp: run_agent_serve_loop_def and_then_def pure_step_def split: if_splits sum.splits prod.splits)
    then obtain es where es: "acked_run P (ma_gateway m1) es (ma_gateway m')"
      "\<forall>lines. r = Inr lines \<and> (\<forall>conn. Inr conn \<in> set incoming \<longrightarrow> an_written conn = [])
         \<longrightarrow> subseq (map Inr (concat (map snd lines))) (map reply_frame es)"
      using serve_loop_acked [of P incoming "ma_gateway m1"] acked_Nil [of P "ma_gateway m1"] by fastforce
    have "gateway_ok (ma_gateway m1)"
      using b(2,3,5) assms(2) by (auto simp: gateway_ok_def anchored_def fresh_process_def)
    note run = acked_run_ok [OF es(1) this assms(5)]
    then obtain b' where b': "gw_keystore (ma_gateway m') = Some (b', meas)"
      "if filter is_commit es = [] then b' = b1 else evolves b1 b'"
      "unat (kb_freshness_epoch b') = unat (kb_freshness_epoch b1) + length (filter is_commit es)"
      using b(3) unfolding advances_def by auto
    have "kb_freshness_epoch b1 = as_epoch state" using b(2) by (simp add: anchored_def)
    moreover have "gw_process (ma_gateway m') = bound_to state" using run b(4) by (simp add: same_store_def)
    ultimately have "agent_gateway_boot_steps P m = Some (Inr (), m1)
        \<and> sourced P H m meas b0 \<and> anchored (pl_crypto P) (gw_draws (ma_gateway m)) b0 b1 state
        \<and> gw_keystore (ma_gateway m1) = Some (b1, meas) \<and> gw_process (ma_gateway m1) = bound_to state
        \<and> acked_run P (ma_gateway m1) es (ma_gateway m') \<and> gw_process (ma_gateway m') = bound_to state
        \<and> (if filter is_commit es = [] then b' = b1 else evolves b1 b')
        \<and> unat (kb_freshness_epoch b') = unat (as_epoch state) + length (filter is_commit es)
        \<and> (\<forall>lines. r = Inr lines \<and> (\<forall>conn. Inr conn \<in> set incoming \<longrightarrow> an_written conn = [])
             \<longrightarrow> subseq (map Inr (concat (map snd lines))) (map reply_frame es))"
      using 1 Inr b(1-4) es b' by simp
    then show ?thesis unfolding b'(1) option.case prod.case by (intro exI)
  qed
qed

text \<open>C7: what is served stays anchored. Whatever frames arrive on whatever connections after the boot, the machine is where a run of
  acknowledged steps from the booted one leads: every frame is answered with the keystore untouched, or is a commit, whose body was sealed
  under this root and measurement and acknowledged by the anchor, in an answer verified for this body and request, before it was
  installed. The keystore in use is the one the boot anchored when there was no commit, or has evolved from it: configuration as it was,
  keys only added, counters only higher; its freshness epoch is the anchored epoch plus the number of commits of this run, and the
  binding is still that of the boot. The frames that went out are, in order, replies of this run. A process with no keystore has ended
  with an error.\<close>

theorem served_keystore_stays_anchored:
  assumes "run_agent_gateway_boot_inner P incoming m = Some (r, m')" "fresh_process m" "trusted_provisioners P H m"
    "platform_correct P" "k1_public_uncompressed (pl_crypto P)"
  shows "(case gw_keystore (ma_gateway m') of
      None \<Rightarrow> \<exists>e. r = Inl e
    | Some (b, meas) \<Rightarrow> \<exists>m1 b0 b1 state es. agent_gateway_boot_steps P m = Some (Inr (), m1)
        \<and> sourced P H m meas b0 \<and> anchored (pl_crypto P) (gw_draws (ma_gateway m)) b0 b1 state
        \<and> gw_keystore (ma_gateway m1) = Some (b1, meas) \<and> gw_process (ma_gateway m1) = bound_to state
        \<and> acked_run P (ma_gateway m1) es (ma_gateway m') \<and> gw_process (ma_gateway m') = bound_to state
        \<and> (if filter is_commit es = [] then b = b1 else evolves b1 b)
        \<and> unat (kb_freshness_epoch b) = unat (as_epoch state) + length (filter is_commit es)
        \<and> (\<forall>lines. r = Inr lines \<and> (\<forall>conn. Inr conn \<in> set incoming \<longrightarrow> an_written conn = [])
             \<longrightarrow> subseq (map Inr (concat (map snd lines))) (map reply_frame es)))"
  by (rule served_anchored [OF assms])

text \<open>A connection that brings a frame of another type, in two pieces.\<close>

definition stray_conn :: agent_conn where
  "stray_conn = \<lparr>an_prepare = None, an_opened = 7,
     an_reads = [\<lparr>tr_before = 8, tr_outcome = Chunk [0, 0, 0, 2, 1], tr_after = 9\<rparr>, \<lparr>tr_before = 10, tr_outcome = Chunk [0x30], tr_after = 11\<rparr>],
     an_writes = [(None, 12)], an_written = []\<rparr>"

lemma stray_pump: "serve_framed_pump (agent_serve_one_frame P) cb SESSION_IDLE_TIMEOUT stray_conn g
    = (Inl (WireProtocol ''agent serve: non-0x40 frame on the agent listener''), stray_conn\<lparr>an_reads := []\<rparr>, g)"
proof -
  have "read_frame (7 + SESSION_IDLE_TIMEOUT) (an_reads stray_conn) = (Inr [0, 0, 0, 2, 1, 0x30], [])"
    by (simp add: read_frame_def stray_conn_def read_events_def SESSION_IDLE_TIMEOUT_def read_framed_message_with_idle_deadline_def
        read_exact_with_idle_deadline_def Let_def MAX_MESSAGE_SIZE_def unread_def)
  moreover have "agent_serve_one_frame P [0, 0, 0, 2, 1, 0x30] g
      = (Inl (WireProtocol ''agent serve: non-0x40 frame on the agent listener''), g)"
    by (simp add: agent_serve_one_frame_def decode_message_def Let_def MAX_MESSAGE_SIZE_def PROTOCOL_VERSION_def
        message_type_of_def)
  moreover have "an_opened stray_conn = 7" "stray_conn\<lparr>an_reads := [], an_writes := an_writes stray_conn\<rparr> = stray_conn\<lparr>an_reads := []\<rparr>"
    by (simp_all add: stray_conn_def)
  ultimately show ?thesis by (simp add: serve_framed_pump_def serve_framed_loop.simps [of _ _ _ _ _ stray_conn])
qed

lemma stray_boot: "\<exists>m'. run_agent_gateway_boot_inner served_platform [Inr stray_conn] served_machine
      = Some (Inr [(PeerRejected (WireProtocol ''agent serve: non-0x40 frame on the agent listener''), [])], m')
    \<and> gw_keystore (ma_gateway m') = Some (sample_body, [1])"
proof -
  obtain m' where b: "agent_gateway_boot_steps served_platform served_machine = Some (Inr (), m')"
    "gw_keystore (ma_gateway m') = Some (sample_body, [1])" "ma_listen m' = ma_listen served_machine"
    "bh_env (ma_host m') = bh_env served_host" using served_boot by blast
  have "handle_agent_accepted served_platform (Inr stray_conn) g
      = (PeerRejected (WireProtocol ''agent serve: non-0x40 frame on the agent listener''), [], g)" for g
  proof -
    have "an_prepare stray_conn = None" "an_written stray_conn = []" by (simp_all add: stray_conn_def)
    then show ?thesis by (simp add: handle_agent_accepted_def stray_pump)
  qed
  then show ?thesis
    using b served_env(3)
    by (simp add: run_agent_gateway_boot_inner_def run_agent_serve_loop_def and_then_def pure_step_def served_machine_def)
qed

lemma served_keystore_stays_anchored_witness:
  "\<exists>m' (m1 :: bytes machine) b0 b1 state es. run_agent_gateway_boot_inner served_platform [Inr stray_conn] served_machine
      = Some (Inr [(PeerRejected (WireProtocol ''agent serve: non-0x40 frame on the agent listener''), [])], m')
     \<and> sourced served_platform {} served_machine [1] b0 \<and> anchored sample_crypto [Some (replicate 32 2)] b0 b1 state
     \<and> acked_run served_platform (ma_gateway m1) es (ma_gateway m')
     \<and> unat (kb_freshness_epoch sample_body) = unat (as_epoch state) + length (filter is_commit es)"
proof -
  obtain m' where run: "run_agent_gateway_boot_inner served_platform [Inr stray_conn] served_machine
      = Some (Inr [(PeerRejected (WireProtocol ''agent serve: non-0x40 frame on the agent listener''), [])], m')"
    "gw_keystore (ma_gateway m') = Some (sample_body, [1])" using stray_boot by blast
  have P: "pl_crypto served_platform = sample_crypto" "gw_draws (ma_gateway served_machine) = [Some (replicate 32 2)]"
    by (simp_all add: served_platform_def sample_platform_def served_machine_def)
  from served_keystore_stays_anchored [OF run(1) served_trusted sample_k1 [folded P(1)], unfolded run(2) P option.case prod.case]
  show ?thesis
  proof (elim exE conjE)
    fix m1 :: "bytes machine" and b0 b1 state es
    assume "sourced served_platform {} served_machine [1] b0" "anchored sample_crypto [Some (replicate 32 2)] b0 b1 state"
      "acked_run served_platform (ma_gateway m1) es (ma_gateway m')"
      "unat (kb_freshness_epoch sample_body) = unat (as_epoch state) + length (filter is_commit es)"
    with run(1) show ?thesis by blast
  qed
qed

lemma honest_boot_served:
  assumes "boot_configure_agent_seal_root (pl_build P) m = Some (Inr (), m1)"
    "agent_keystore_source P m1 = Some (Inr (b, meas), m2)" "fresh_process m"
    "\<not> ma_claimed m" "pr_binding (gw_process (ma_gateway m)) = None"
    "boot_budget_config_from_env (bh_env (ma_host m)) = Inr (n, per_leg, overall)"
    "validate_boot_budget n per_leg overall = Inr bud" "anchor_relay_port_from_env (bh_env (ma_host m)) = Inr port"
    "ma_spawn m = f # fs" "ma_relay m (VMADDR_CID_HOST, port) = Inr d # cs"
    "gw_draws (ma_gateway m2) = Some nonce # ds"
    "current_at (pl_crypto P) b state" "honest_quote (pl_crypto P) per_leg b nonce f" "honest_leg (pl_crypto P) b nonce state d"
    "vsock_listen_addr_from_env (bh_env (ma_host m)) = Inr addr" "li_bind (ma_listen m2 addr)"
  shows "\<exists>m3 m' lines. agent_gateway_boot_steps P m = Some (Inr (), m3)
     \<and> gw_keystore (ma_gateway m3) = Some (b, meas) \<and> gw_process (ma_gateway m3) = bound_to state
     \<and> run_agent_gateway_boot_inner P incoming m = Some (Inr lines, m') \<and> length lines = length incoming"
proof -
  have len: "length (fst (serve_agent_loop P incoming g)) = length incoming" for g
    by (induction incoming arbitrary: g) (auto split: prod.splits, metis fst_conv)
  from honest_boot_steps [OF assms(1-14)] obtain m3 where m3: "agent_gateway_boot_steps P m = Some (Inr (), m3)"
    "gw_keystore (ma_gateway m3) = Some (b, meas)" "gw_process (ma_gateway m3) = bound_to state"
    "ma_listen m3 = ma_listen m2" "bh_env (ma_host m3) = bh_env (ma_host m)" by blast
  obtain lines g where "serve_agent_loop P incoming (ma_gateway m3) = (lines, g)" by fastforce
  moreover from this have "length lines = length incoming" using len [of "ma_gateway m3"] by simp
  ultimately show ?thesis
    using m3 assms(15,16)
    by (simp add: run_agent_gateway_boot_inner_def run_agent_serve_loop_def and_then_def pure_step_def)
qed

text \<open>C39: an honest host is served. When the root is configured, the source yields a keystore, the budget is valid, the first child
  quotes this boot's nonce, the first leg brings the anchor's signed answer for that nonce, and that answer describes
  the keystore, then the boot succeeds at once, installs this keystore bound to the anchored epoch, and the listener goes on to
  deal with every connection, whatever the peers send.\<close>

theorem honest_boot_serves:
  assumes "boot_configure_agent_seal_root (pl_build P) m = Some (Inr (), m1)"
    "agent_keystore_source P m1 = Some (Inr (b, meas), m2)" "fresh_process m"
    "\<not> ma_claimed m" "pr_binding (gw_process (ma_gateway m)) = None"
    "boot_budget_config_from_env (bh_env (ma_host m)) = Inr (n, per_leg, overall)"
    "validate_boot_budget n per_leg overall = Inr bud" "anchor_relay_port_from_env (bh_env (ma_host m)) = Inr port"
    "ma_spawn m = f # fs" "ma_relay m (VMADDR_CID_HOST, port) = Inr d # cs"
    "gw_draws (ma_gateway m2) = Some nonce # ds"
    "current_at (pl_crypto P) b state" "honest_quote (pl_crypto P) per_leg b nonce f" "honest_leg (pl_crypto P) b nonce state d"
    "vsock_listen_addr_from_env (bh_env (ma_host m)) = Inr addr" "li_bind (ma_listen m2 addr)"
  shows "\<exists>m3 m' lines. agent_gateway_boot_steps P m = Some (Inr (), m3)
     \<and> gw_keystore (ma_gateway m3) = Some (b, meas) \<and> gw_process (ma_gateway m3) = bound_to state
     \<and> run_agent_gateway_boot_inner P incoming m = Some (Inr lines, m') \<and> length lines = length incoming"
  by (rule honest_boot_served [OF assms])

lemma honest_boot_serves_witness:
  "\<exists>m' lines. run_agent_gateway_boot_inner served_platform [Inr stray_conn, Inl WouldBlock] served_machine = Some (Inr lines, m')
     \<and> length lines = 2"
proof -
  have P: "pl_build served_platform = lab_build" "pl_crypto served_platform = sample_crypto"
    by (simp_all add: served_platform_def sample_platform_def)
  let ?m1 = "served_machine\<lparr>ma_gateway := (ma_gateway served_machine)\<lparr>gw_root := Some zero32\<rparr>\<rparr>"
  have src: "agent_keystore_source served_platform ?m1 = Some (Inr (sample_body, [1]), ?m1)"
    by (rule served_source) (simp_all add: served_machine_def)
  obtain bud where bud: "validate_boot_budget 5 5000000000 82000000000 = Inr bud" using served_budget by blast
  have "\<exists>m3 m' lines. agent_gateway_boot_steps served_platform served_machine = Some (Inr (), m3)
     \<and> gw_keystore (ma_gateway m3) = Some (sample_body, [1]) \<and> gw_process (ma_gateway m3) = bound_to served_state
     \<and> run_agent_gateway_boot_inner served_platform [Inr stray_conn, Inl WouldBlock] served_machine = Some (Inr lines, m')
     \<and> length lines = length [Inr stray_conn, Inl WouldBlock]"
    by (rule honest_boot_serves [OF served_root [folded P] src _ _ _ _ bud _ _ _ _ served_current [folded P(2)]
          served_quote [folded P(2)] served_reply [folded P(2)]])
      (simp_all add: served_machine_def served_env fresh_process_def)
  then show ?thesis by auto
qed

text \<open>What the listener relies on of the CBOR crate: an error body of the gateway is read back as the map that was written, a code and a
  text, with nothing left over.\<close>

definition reads_agent_errors :: "ciborium \<Rightarrow> writer \<Rightarrow> bool" where
  "reads_agent_errors cb W \<longleftrightarrow> (\<forall>e. \<exists>r. cb_de cb (encode_agent_error W e)
     = Some (WMap [(WInteger 1, WInteger (uint (code e))), (WInteger 2, WText r)], length (encode_agent_error W e)))"

lemma agent_error_is_wire_error:
  assumes "reads_agent_errors cb W" shows "is_wire_error_payload cb (encode_agent_error W e)"
proof -
  obtain r where "cb_de cb (encode_agent_error W e)
     = Some (WMap [(WInteger 1, WInteger (uint (code e))), (WInteger 2, WText r)], length (encode_agent_error W e))"
    using assms unfolding reads_agent_errors_def by blast
  moreover have "uint (code e) < 2 ^ 64" by (cases e) simp_all
  ultimately show ?thesis
    by (simp add: is_wire_error_payload_def decode_wire_error_def decode_value_def is_wire_error_map_def wire_map_get_def map_get_opt_def
        the_map_def ok_or_def)
qed

lemma reply_resets_idle_frame:
  assumes "encode_message AgentGateway body = Inr f"
  shows "reply_resets_idle cb f \<longleftrightarrow> (\<exists>x. decode_wire_error cb body = Inl x)"
proof -
  have "decode_message f = Inr \<lparr>fm_version = PROTOCOL_VERSION, fm_msg_type = AgentGateway, fm_payload = body\<rparr>"
    using assms by (auto simp: decode_message_Inr encode_message_Inr)
  then show ?thesis by (auto simp: reply_resets_idle_def is_wire_error_payload_def split: sum.splits)
qed

lemma listener_pump:
  assumes "serve_framed_pump (agent_serve_one_frame P) cb idle c g = (r, c', g')" "reads_agent_errors cb (pl_writer P)"
  shows "\<exists>es sent k. acked_run P g es g' \<and> an_written c' = an_written c @ sent \<and> length sent \<le> length es \<and> length es \<le> Suc (length sent)
     \<and> map Inr sent = map reply_frame (take (length sent) es)
     \<and> k \<le> length (an_reads c) \<and> map tr_before (an_reads c') = drop k (map tr_before (an_reads c))
     \<and> (\<forall>t \<in> set (take k (map tr_before (an_reads c))). t < an_opened c + idle
          \<or> (\<exists>i < length sent. \<exists>now. an_writes c ! i = (None, now) \<and> t < now + idle
               \<and> (\<exists>x. decode_wire_error cb (event_out (es ! i)) = Inl x)
               \<and> (\<forall>e. event_out (es ! i) \<noteq> encode_agent_error (pl_writer P) e)))"
proof -
  note run = assms(1) [unfolded serve_framed_pump_def]
  obtain es sent where es: "acked_run P g es g'" "an_written c' = an_written c @ sent" "length sent \<le> length es"
    "length es \<le> Suc (length sent)" "map Inr sent = map reply_frame (take (length sent) es)" using pump_acked [OF run] by blast
  obtain k where k: "k \<le> length (an_reads c)" "map tr_before (an_reads c') = drop k (map tr_before (an_reads c))"
    "\<forall>t \<in> set (take k (map tr_before (an_reads c))). in_time cb idle (an_opened c + idle) (an_writes c) sent t"
    using serve_loop_before [OF run] es(2) by auto
  have body: "(\<exists>x. decode_wire_error cb (event_out (es ! i)) = Inl x) \<and> (\<forall>e. event_out (es ! i) \<noteq> encode_agent_error (pl_writer P) e)"
    if i: "i < length sent" "reply_resets_idle cb (sent ! i)" for i
  proof -
    have "reply_frame (es ! i) = Inr (sent ! i)" using arg_cong [OF es(5), of "\<lambda>xs. xs ! i"] i(1) es(3) by simp
    then have x: "\<exists>x. decode_wire_error cb (event_out (es ! i)) = Inl x" using i(2) reply_resets_idle_frame by (auto simp: reply_frame_def)
    have "event_out (es ! i) \<noteq> encode_agent_error (pl_writer P) e" for e
    proof
      assume "event_out (es ! i) = encode_agent_error (pl_writer P) e"
      then show False using agent_error_is_wire_error [OF assms(2), of e] x by (auto simp: is_wire_error_payload_def)
    qed
    with x show ?thesis by blast
  qed
  show ?thesis using es k(1,2) k(3) [unfolded in_time_def] body by (intro exI [of _ es] exI [of _ sent] exI [of _ k]) blast
qed

text \<open>C40: the agent listener answers agent frames only, and an idle peer cannot hold it. A connection is a run of acknowledged steps of
  the gateway, and what it sends are the replies of these steps, in order, as agent frames; only the last may have failed to go out.
  Every read begins before the idle deadline of the opening, or within the idle time after the write of an earlier reply, and this
  reply is then no error: its body is none of the error bodies of the gateway, and none that reads as a wire error. So a
  peer that gets only errors is cut off at the deadline of the opening. A frame of any other type closes the connection without touching
  the gateway.\<close>

theorem agent_listener_sound:
  assumes "serve_framed_pump (agent_serve_one_frame P) cb idle c g = (r, c', g')" "reads_agent_errors cb (pl_writer P)"
  shows "(\<exists>es sent k. acked_run P g es g' \<and> an_written c' = an_written c @ sent \<and> length sent \<le> length es \<and> length es \<le> Suc (length sent)
       \<and> map Inr sent = map reply_frame (take (length sent) es)
       \<and> k \<le> length (an_reads c) \<and> map tr_before (an_reads c') = drop k (map tr_before (an_reads c))
       \<and> (\<forall>t \<in> set (take k (map tr_before (an_reads c))). t < an_opened c + idle
            \<or> (\<exists>i < length sent. \<exists>now. an_writes c ! i = (None, now) \<and> t < now + idle
                 \<and> (\<exists>x. decode_wire_error cb (event_out (es ! i)) = Inl x)
                 \<and> (\<forall>e. event_out (es ! i) \<noteq> encode_agent_error (pl_writer P) e))))
     \<and> (\<forall>frame decoded. decode_message frame = Inr decoded \<and> fm_msg_type decoded \<noteq> AgentGateway \<longrightarrow>
         agent_serve_one_frame P frame g = (Inl (WireProtocol ''agent serve: non-0x40 frame on the agent listener''), g))"
  using listener_pump [OF assms] by (simp add: agent_serve_one_frame_def)

text \<open>An instance: a peer on a gateway with no keystore, which gets an error for its first frame, and whose next read would begin
  after the deadline of the opening.\<close>

definition error_reader :: ciborium where
  "error_reader = \<lparr>cb_ser = (\<lambda>_. None),
     cb_de = (\<lambda>b. case find (\<lambda>e. encode_agent_error enc_value e = b)
         [agent_error.Malformed, WrongProfile, KeyPurposeMismatch, CapabilityRejected, CapExceeded, NotConfigured, agent_error.SealFailed] of
       None \<Rightarrow> None
     | Some e \<Rightarrow> Some (WMap [(WInteger 1, WInteger (uint (code e))), (WInteger 2, WText (map (char_of \<circ> unat) (reason e)))], length b))\<rparr>"

lemma agent_error_prefix: "take 4 (encode_agent_error enc_value e) = [0xa2, 1, 0x18, code e]"
  by (cases e) (simp_all add: encode_agent_error_def encode_body_def put_uint_def put_text_def Let_def)

lemma agent_error_eq: "encode_agent_error enc_value e = encode_agent_error enc_value f \<longleftrightarrow> e = f"
  using agent_error_prefix [of e] agent_error_prefix [of f] code_inj by (metis list.inject)

lemma error_reader_reads: "reads_agent_errors error_reader enc_value"
proof -
  have "cb_de error_reader (encode_agent_error enc_value e) = Some (WMap [(WInteger 1, WInteger (uint (code e))),
      (WInteger 2, WText (map (char_of \<circ> unat) (reason e)))], length (encode_agent_error enc_value e))" for e
    by (cases e) (simp_all add: error_reader_def agent_error_eq)
  then show ?thesis unfolding reads_agent_errors_def by blast
qed

definition nagging_conn :: agent_conn where
  "nagging_conn = \<lparr>an_prepare = None, an_opened = 7,
     an_reads = [\<lparr>tr_before = 8, tr_outcome = Chunk [0, 0, 0, 2, 1, 0x40], tr_after = 9\<rparr>,
       \<lparr>tr_before = 7 + SESSION_IDLE_TIMEOUT, tr_outcome = Chunk [0, 0, 0, 2, 1, 0x40], tr_after = 8 + SESSION_IDLE_TIMEOUT\<rparr>],
     an_writes = [(None, 12), (None, 13)], an_written = []\<rparr>"

definition listener_platform :: "bytes platform" where
  "listener_platform = served_platform\<lparr>pl_writer := enc_value\<rparr>"

lemma nagging_pump:
  "serve_framed_pump (agent_serve_one_frame listener_platform) error_reader SESSION_IDLE_TIMEOUT nagging_conn (ma_gateway served_machine)
     = (Inr (), nagging_conn\<lparr>an_reads := tl (an_reads nagging_conn), an_writes := [(None, 13)],
          an_written := [frame_of AgentGateway (encode_agent_error enc_value WrongProfile)]\<rparr>, ma_gateway served_machine)"
proof -
  let ?body = "encode_agent_error enc_value WrongProfile"
  have "length (ascii ''agent: wrong profile'') = 20" by (simp add: ascii_def)
  then have "length ?body + 2 \<le> MAX_MESSAGE_SIZE"
    by (simp add: encode_agent_error_def encode_body_def reason_def put_uint_def put_text_def Let_def MAX_MESSAGE_SIZE_def)
  then have f: "encode_message AgentGateway ?body = Inr (frame_of AgentGateway ?body)" by (simp add: encode_message_Inr)
  have "decode_message [0, 0, 0, 2, 1, 0x40] = Inr \<lparr>fm_version = 1, fm_msg_type = AgentGateway, fm_payload = []\<rparr>"
    by (simp add: decode_message_def Let_def MAX_MESSAGE_SIZE_def PROTOCOL_VERSION_def message_type_of_def)
  moreover have "pl_writer listener_platform = enc_value" "gw_keystore (ma_gateway served_machine) = None"
    by (simp_all add: listener_platform_def served_machine_def)
  ultimately have one: "agent_serve_one_frame listener_platform [0, 0, 0, 2, 1, 0x40] (ma_gateway served_machine)
      = (Inr (frame_of AgentGateway ?body), ma_gateway served_machine)"
    using f by (simp add: agent_serve_one_frame_def handle_agent_gateway_frame_def)
  have idle: "\<not> reply_resets_idle error_reader (frame_of AgentGateway ?body)"
    using agent_error_is_wire_error [OF error_reader_reads, of WrongProfile]
    by (auto simp: reply_resets_idle_frame [OF f] is_wire_error_payload_def)
  have first: "read_frame (7 + SESSION_IDLE_TIMEOUT) (an_reads nagging_conn) = (Inr [0, 0, 0, 2, 1, 0x40], tl (an_reads nagging_conn))"
    by (simp add: read_frame_def nagging_conn_def read_events_def SESSION_IDLE_TIMEOUT_def read_framed_message_with_idle_deadline_def
        read_exact_with_idle_deadline_def Let_def MAX_MESSAGE_SIZE_def unread_def)
  have late: "read_frame (7 + SESSION_IDLE_TIMEOUT) (tl (an_reads nagging_conn)) = (Inl (Io TimedOut), tl (an_reads nagging_conn))"
    by (simp add: read_frame_def nagging_conn_def read_events_def read_framed_message_with_idle_deadline_def
        read_exact_with_idle_deadline_def Let_def unread_def)
  have sel: "an_opened nagging_conn = 7" "an_writes nagging_conn = [(None, 12), (None, 13)]" "an_written nagging_conn = []"
    by (simp_all add: nagging_conn_def)
  show ?thesis
    by (simp add: serve_framed_pump_def sel serve_framed_loop.simps [of _ _ _ _ _ nagging_conn] first one idle)
      (simp add: serve_framed_loop.simps late)
qed

lemma agent_listener_sound_witness:
  "(\<exists>es k. acked_run listener_platform (ma_gateway served_machine) es (ma_gateway served_machine) \<and> 1 \<le> length es \<and> k = 1
     \<and> map tr_before (tl (an_reads nagging_conn)) = drop k (map tr_before (an_reads nagging_conn))
     \<and> reply_frame (hd es) = Inr (frame_of AgentGateway (encode_agent_error enc_value WrongProfile)))"
proof -
  have W: "reads_agent_errors error_reader (pl_writer listener_platform)" using error_reader_reads by (simp add: listener_platform_def)
  have sel: "an_written nagging_conn = []" "length (an_reads nagging_conn) = 2" by (simp_all add: nagging_conn_def)
  from agent_listener_sound [OF nagging_pump W, THEN conjunct1] obtain es sent k where
    r: "acked_run listener_platform (ma_gateway served_machine) es (ma_gateway served_machine)"
    "sent = [frame_of AgentGateway (encode_agent_error enc_value WrongProfile)]" "length sent \<le> length es"
    "map Inr sent = map reply_frame (take (length sent) es)"
    "map tr_before (tl (an_reads nagging_conn)) = drop k (map tr_before (an_reads nagging_conn))"
    by (auto simp: sel)
  have "k = 1" using arg_cong [OF r(5), of length] sel(2) by simp
  moreover have "reply_frame (hd es) = Inr (frame_of AgentGateway (encode_agent_error enc_value WrongProfile))"
    using r(2-4) by (cases es) simp_all
  ultimately show ?thesis using r by auto
qed

end
