(* ===== verification/Producer_Serve.thy ===== *)
theory Producer_Serve
  imports Gateway_Boot
begin

text \<open>
  The producer enclave as a server: the boot of \<open>bin/enclave_vsock.rs\<close> over \<open>platform_provisioning_boot.rs\<close> and
  \<open>boot_lab_pq_seal.rs\<close>, and the concurrent sessions of \<open>enclave_serve.rs\<close> over the shared enclave state of \<open>Producer\<close>.

  A session thread holds the lock of the state for exactly one frame, so a server is a step relation: an accept, or one
  turn of one session, in any order. That the handler panics with the lock held, on which the process exits, is not modelled,
  nor are log lines. Timed reads and the scripts of a connection are those of \<open>Gateway_Boot\<close>.
\<close>

section \<open>The provisioning root and the lab signer\<close>

definition TWOD_HSM_PQ_SEALED_SIGNER_FILE :: string where "TWOD_HSM_PQ_SEALED_SIGNER_FILE = ''TWOD_HSM_PQ_SEALED_SIGNER_FILE''"
definition LEGACY_HSM_PQ_SEALED_SIGNER_FILE :: string where "LEGACY_HSM_PQ_SEALED_SIGNER_FILE = ''2D_HSM_PQ_SEALED_SIGNER_FILE''"
definition TWOD_HSM_PRODUCER_ATTESTATION_TRUST_FILE :: string where
  "TWOD_HSM_PRODUCER_ATTESTATION_TRUST_FILE = ''TWOD_HSM_PRODUCER_ATTESTATION_TRUST_FILE''"
definition LEGACY_HSM_PRODUCER_ATTESTATION_TRUST_FILE :: string where
  "LEGACY_HSM_PRODUCER_ATTESTATION_TRUST_FILE = ''2D_HSM_PRODUCER_ATTESTATION_TRUST_FILE''"

text \<open>The features \<open>lab-pq-seal-from-file\<close>, \<open>platform-provisioning-from-file\<close>, \<open>platform-root-from-boot-file\<close>,
  \<open>reference-seal-v1-root\<close>, and \<open>release_build\<close>.\<close>

record producer_build =
  pb_lab_seal_file :: bool
  pb_provisioning_file :: bool
  pb_root_from_boot_file :: bool
  pb_reference_root :: bool
  pb_release :: bool

definition read_provisioning_root_file :: "boot_host \<Rightarrow> bytes \<Rightarrow> protocol_error + bytes" where
  "read_provisioning_root_file h path =
     res_bind (read_boot_file_capped h path 32 ''failed to read provisioning root file'')
       (exactly_32 ''provisioning root file must be exactly 32 bytes'')"

text \<open>With both file features the boot file wins: its branch returns first.\<close>

definition derive_platform_provisioning_root_v1 :: "producer_build \<Rightarrow> boot_host \<Rightarrow> protocol_error + bytes" where
  "derive_platform_provisioning_root_v1 bd h =
     (if pb_root_from_boot_file bd then read_provisioning_root_file h PQ_SEAL_ROOT_PATH
      else if pb_provisioning_file bd then
        res_bind (map_err (\<lambda>_. PqSigningUnavailable ''TWOD_HSM_PQ_SEAL_V1_ROOT_FILE not set (expected path to 32-byte provisioning root)'')
          (var_twod (bh_env h) TWOD_HSM_PQ_SEAL_V1_ROOT_FILE LEGACY_HSM_PQ_SEAL_V1_ROOT_FILE)) (read_provisioning_root_file h)
      else Inl (PqSigningUnavailable (''platform PQ seal v1 provisioning root hook not configured (integrate vTPM/SNP/Nitro, ''
        @ ''enable platform-root-from-boot-file for the snp-derive-root boot path, or platform-provisioning-from-file for labs)'')))"

definition boot_configure_pq_seal_v1_platform_root :: "producer_build \<Rightarrow> boot_host \<Rightarrow> pq_state \<Rightarrow> protocol_error + pq_state" where
  "boot_configure_pq_seal_v1_platform_root bd h q =
     res_bind (derive_platform_provisioning_root_v1 bd h) (\<lambda>root. set_pq_seal_v1_provisioning_root root q)"

definition is_platform_pq_seal_v1_provisioning_root_set :: "pq_state \<Rightarrow> bool" where
  "is_platform_pq_seal_v1_provisioning_root_set q \<longleftrightarrow> ps_root q \<noteq> None"

definition is_pq_seal_v1_provisioning_root_configured :: "producer_build \<Rightarrow> pq_state \<Rightarrow> bool" where
  "is_pq_seal_v1_provisioning_root_configured bd q \<longleftrightarrow>
     is_platform_pq_seal_v1_provisioning_root_set q \<or> pb_reference_root bd"

definition boot_install_lab_sealed_signer_from_file :: "crypto \<Rightarrow> pq_crypto \<Rightarrow> boot_host \<Rightarrow> pq_state
    \<Rightarrow> protocol_error + pq_state" where
  "boot_install_lab_sealed_signer_from_file C Q h q =
     res_bind (map_err (\<lambda>_. PqSigningUnavailable ''TWOD_HSM_PQ_SEALED_SIGNER_FILE not set (lab prod guest)'')
         (var_twod (bh_env h) TWOD_HSM_PQ_SEALED_SIGNER_FILE LEGACY_HSM_PQ_SEALED_SIGNER_FILE)) (\<lambda>blob_path.
     res_bind (ok_or (PqSigningUnavailable ''failed to read TWOD_HSM_PQ_SEALED_SIGNER_FILE'') (bh_file h blob_path)) (\<lambda>blob.
     res_bind (case var_twod (bh_env h) TWOD_HSM_ENCLAVE_MEASUREMENT_FILE LEGACY_HSM_ENCLAVE_MEASUREMENT_FILE of
         Inr path \<Rightarrow> read_boot_file_trim_trailing_newlines h path ''failed to read TWOD_HSM_ENCLAVE_MEASUREMENT_FILE''
       | Inl _ \<Rightarrow> Inr LAB_PROD_MEASUREMENT) (\<lambda>measurement.
     if measurement = [] then Inl (PqSigningUnavailable ''enclave measurement must be non-empty'')
     else install_sealed_pq_signer C Q blob measurement q)))"

section \<open>The boot of the vsock producer\<close>

definition boot_capture_snp_measurement :: "'g producer_env \<Rightarrow> 'f tsm_fs \<Rightarrow> 'g host_process \<Rightarrow> 'f
    \<Rightarrow> (protocol_error + unit) \<times> 'g host_process \<times> 'f" where
  "boot_capture_snp_measurement E fs s f =
     (case active_signing_public_key_bytes E (hp_pq s) of
        None \<Rightarrow> (Inl (PqSigningUnavailable ''no installed PQ signer to bind the SNP report to''), s, f)
      | Some pq_pubkey \<Rightarrow>
          (case boot_fetch_and_cache (pe_crypto E) fs pq_pubkey (hp_attestation s, f) of
             (r, cache, f) \<Rightarrow> (r, s\<lparr>hp_attestation := cache\<rparr>, f)))"

datatype producer_boot_error =
    RootRequired protocol_error
  | LabSigner protocol_error
  | GateRefused protocol_error
  | ListenAddr config_error
  | BindFailed
  | TrustUnset
  | TrustUnreadable
  | TrustLength
  | TrustKey protocol_error

text \<open>Which of the three configuration blocks is compiled in depends on the build.\<close>

definition configure_signer :: "'g producer_env \<Rightarrow> producer_build \<Rightarrow> boot_host \<Rightarrow> pq_state
    \<Rightarrow> producer_boot_error + pq_state" where
  "configure_signer E bd h q =
     (if pb_lab_seal_file bd then
        res_bind (map_err RootRequired (boot_configure_pq_seal_v1_platform_root bd h q)) (\<lambda>q.
        map_err LabSigner (boot_install_lab_sealed_signer_from_file (pe_crypto E) (pe_pq E) h q))
      else if pb_release bd then map_err RootRequired (boot_configure_pq_seal_v1_platform_root bd h q)
      else (case boot_configure_pq_seal_v1_platform_root bd h q of
          Inr q \<Rightarrow> Inr q
        | Inl e \<Rightarrow> if transport_only_mode_enabled (bh_env h) then Inr q else Inl (RootRequired e)))"

definition load_attestation_trust :: "ed25519 \<Rightarrow> boot_host \<Rightarrow> producer_boot_error + bytes" where
  "load_attestation_trust ed h =
     res_bind (map_err (\<lambda>_. TrustUnset) (var_twod (bh_env h) TWOD_HSM_PRODUCER_ATTESTATION_TRUST_FILE
         LEGACY_HSM_PRODUCER_ATTESTATION_TRUST_FILE)) (\<lambda>path.
     res_bind (ok_or TrustUnreadable (bh_file h path)) (\<lambda>bs.
     if length bs \<noteq> 32 then Inl TrustLength
     else map_err TrustKey (trust_from_verifying_key_bytes ed bs)))"

text \<open>\<open>run\<close> up to its accept loop: the pinned trust, and the process as it then serves. \<open>bindable\<close> says which addresses can be bound.\<close>

definition producer_boot :: "'g producer_env \<Rightarrow> 'f tsm_fs \<Rightarrow> producer_build \<Rightarrow> (nat \<times> nat \<Rightarrow> bool) \<Rightarrow> boot_host
    \<Rightarrow> 'g host_process \<Rightarrow> 'f \<Rightarrow> producer_boot_error + bytes \<times> 'g host_process" where
  "producer_boot E fs bd bindable h s f =
     res_bind (configure_signer E bd h (hp_pq s)) (\<lambda>q.
     case boot_capture_snp_measurement E fs (s\<lparr>hp_pq := q\<rparr>) f of (snp_captured, s, _) \<Rightarrow>
     res_bind (map_err GateRefused (snp_attestation_boot_gate (pb_release bd) (is_sealed_signer_installed (hp_pq s))
         (case snp_captured of Inr _ \<Rightarrow> True | Inl _ \<Rightarrow> False))) (\<lambda>_.
     res_bind (map_err ListenAddr (vsock_listen_addr_from_env (bh_env h))) (\<lambda>addr.
     if \<not> bindable addr then Inl BindFailed
     else res_bind (load_attestation_trust (pe_ed E) h) (\<lambda>trust. Inr (trust, s\<lparr>hp_state := Unarmed\<rparr>)))))"

section \<open>One session\<close>

record producer_session =
  se_conn :: agent_conn
  se_deadline :: nat

text \<open>One round of the loop of \<open>serve_framed_connection\<close>: it goes on (\<open>None\<close>) or the session ends.\<close>

definition session_turn :: "'g producer_env \<Rightarrow> bytes \<Rightarrow> producer_session \<Rightarrow> 'g host_process
    \<Rightarrow> (protocol_error + unit) option \<times> producer_session \<times> 'g host_process" where
  "session_turn E trust se s =
     (case read_frame (se_deadline se) (an_reads (se_conn se)) of
        (Inl e, ts) \<Rightarrow> (Some (if closes_quietly e then Inr () else Inl e), se\<lparr>se_conn := (se_conn se)\<lparr>an_reads := ts\<rparr>\<rparr>, s)
      | (Inr frame, ts) \<Rightarrow>
          (case process_framed_with_shared_state E trust frame s of
             (Inl e, s) \<Rightarrow> (Some (Inl e), se\<lparr>se_conn := (se_conn se)\<lparr>an_reads := ts\<rparr>\<rparr>, s)
           | (Inr response, s) \<Rightarrow>
               (case an_writes (se_conn se) of
                  [] \<Rightarrow> (Some (Inl (Io BrokenPipe)), se\<lparr>se_conn := (se_conn se)\<lparr>an_reads := ts\<rparr>\<rparr>, s)
                | (Some k, _) # writes \<Rightarrow>
                    (Some (Inl (Io k)), se\<lparr>se_conn := (se_conn se)\<lparr>an_reads := ts, an_writes := writes\<rparr>\<rparr>, s)
                | (None, now) # writes \<Rightarrow>
                    (let reset_idle = (case decode_message response of Inl _ \<Rightarrow> False
                           | Inr framed \<Rightarrow> \<not> is_wire_error_payload (pe_cbor E) (fm_payload framed)) in
                     (None, \<lparr>se_conn = (se_conn se)\<lparr>an_reads := ts,
                           an_written := an_written (se_conn se) @ [response], an_writes := writes\<rparr>,
                         se_deadline = (if reset_idle then now + SESSION_IDLE_TIMEOUT else se_deadline se)\<rparr>, s)))))"

lemma session_turn_continues:
  "session_turn E trust se s = (None, se', s') \<Longrightarrow> length (an_writes (se_conn se')) < length (an_writes (se_conn se))"
  by (auto simp: session_turn_def Let_def split: prod.splits sum.splits list.splits option.splits)

function serve_session :: "'g producer_env \<Rightarrow> bytes \<Rightarrow> producer_session \<Rightarrow> 'g host_process
    \<Rightarrow> (protocol_error + unit) \<times> producer_session \<times> 'g host_process" where
  "serve_session E trust se s =
     (case session_turn E trust se s of
        (Some r, se, s) \<Rightarrow> (r, se, s)
      | (None, se, s) \<Rightarrow> serve_session E trust se s)"
  by pat_completeness auto
termination
  by (relation "measure (\<lambda>(_, _, se, _). length (an_writes (se_conn se)))")
    (auto intro: session_turn_continues [OF sym])

declare serve_session.simps [simp del]

definition open_session :: "agent_conn \<Rightarrow> producer_session" where
  "open_session c = \<lparr>se_conn = c, se_deadline = an_opened c + SESSION_IDLE_TIMEOUT\<rparr>"

definition serve_framed_connection :: "'g producer_env \<Rightarrow> bytes \<Rightarrow> agent_conn \<Rightarrow> 'g host_process
    \<Rightarrow> (protocol_error + unit) \<times> agent_conn \<times> 'g host_process" where
  "serve_framed_connection E trust c s = (case serve_session E trust (open_session c) s of (r, se, s) \<Rightarrow> (r, se_conn se, s))"

section \<open>The accept loop\<close>

definition MAX_CONCURRENT_SESSIONS :: nat where "MAX_CONCURRENT_SESSIONS = 32"

text \<open>The server: the counter of taken slots, the shared state, and the sessions by thread.\<close>

record 'g producer_server =
  sv_active :: nat
  sv_process :: "'g host_process"
  sv_sessions :: "nat \<Rightarrow> producer_session option"

datatype accept_log = AcceptError io_kind | ConnectionSetupFailed io_kind | AtSessionCap | SessionSpawned

text \<open>One round of \<open>run_incoming_accept_loop\<close>; \<open>sid\<close> is the thread it spawns.\<close>

definition accept_connection :: "io_kind + agent_conn \<Rightarrow> nat \<Rightarrow> 'g producer_server \<Rightarrow> accept_log \<times> 'g producer_server" where
  "accept_connection incoming sid sv =
     (case incoming of
        Inl k \<Rightarrow> (AcceptError k, sv)
      | Inr conn \<Rightarrow>
          (case an_prepare conn of
             Some k \<Rightarrow> (ConnectionSetupFailed k, sv)
           | None \<Rightarrow>
               (let prev = sv_active sv; sv = sv\<lparr>sv_active := prev + 1\<rparr> in
                if prev \<ge> MAX_CONCURRENT_SESSIONS then (AtSessionCap, sv\<lparr>sv_active := sv_active sv - 1\<rparr>)
                else (SessionSpawned, sv\<lparr>sv_sessions := (sv_sessions sv)(sid \<mapsto> open_session conn)\<rparr>))))"

text \<open>A session that ends gives back its slot (\<open>SessionSlotGuard\<close>).\<close>

definition after_turn :: "nat \<Rightarrow> (protocol_error + unit) option \<Rightarrow> producer_session \<Rightarrow> 'g producer_server \<Rightarrow> 'g producer_server" where
  "after_turn sid ended se sv =
     (case ended of
        None \<Rightarrow> sv\<lparr>sv_sessions := (sv_sessions sv)(sid \<mapsto> se)\<rparr>
      | Some _ \<Rightarrow> sv\<lparr>sv_active := sv_active sv - 1, sv_sessions := (sv_sessions sv)(sid := None)\<rparr>)"

section \<open>The sessions together\<close>

text \<open>What a frame adds to the record of signed hard forks.\<close>

definition frame_forks :: "'g producer_env \<Rightarrow> bytes \<Rightarrow> bytes \<Rightarrow> 'g host_process \<Rightarrow> hard_fork list" where
  "frame_forks E trust frame s =
     (case res_bind (decode_message frame) (\<lambda>m. decode_wire_command E (fm_msg_type m) (fm_payload m)) of
        Inl _ \<Rightarrow> []
      | Inr cmd \<Rightarrow> hard_fork_log (hp_state s) cmd (fst (dispatch_command_with_state E trust cmd s)))"

definition turn_forks :: "'g producer_env \<Rightarrow> bytes \<Rightarrow> producer_session \<Rightarrow> 'g host_process \<Rightarrow> hard_fork list" where
  "turn_forks E trust se s =
     (case fst (read_frame (se_deadline se) (an_reads (se_conn se))) of Inl _ \<Rightarrow> [] | Inr frame \<Rightarrow> frame_forks E trust frame s)"

inductive server_step :: "'g producer_env \<Rightarrow> bytes \<Rightarrow> 'g producer_server \<Rightarrow> hard_fork list \<Rightarrow> 'g producer_server \<Rightarrow> bool"
  for E trust where
  accepts: "sv_sessions sv sid = None \<Longrightarrow> accept_connection incoming sid sv = (line, sv') \<Longrightarrow> server_step E trust sv [] sv'"
| turns: "sv_sessions sv sid = Some se \<Longrightarrow> session_turn E trust se (sv_process sv) = (ended, se', s')
    \<Longrightarrow> server_step E trust sv (turn_forks E trust se (sv_process sv)) (after_turn sid ended se' (sv\<lparr>sv_process := s'\<rparr>))"

inductive server_run :: "'g producer_env \<Rightarrow> bytes \<Rightarrow> 'g producer_server \<Rightarrow> hard_fork list \<Rightarrow> 'g producer_server \<Rightarrow> bool"
  for E trust sv where
  run_start: "server_run E trust sv [] sv"
| run_step: "server_run E trust sv hist sv1 \<Longrightarrow> server_step E trust sv1 forks sv2 \<Longrightarrow> server_run E trust sv (hist @ forks) sv2"

definition fresh_server :: "'g host_process \<Rightarrow> 'g producer_server" where
  "fresh_server s = \<lparr>sv_active = 0, sv_process = s, sv_sessions = Map.empty\<rparr>"

subsection \<open>Slots\<close>

definition slots_ok :: "'g producer_server \<Rightarrow> bool" where
  "slots_ok sv \<longleftrightarrow> finite (dom (sv_sessions sv)) \<and> sv_active sv = card (dom (sv_sessions sv))
     \<and> sv_active sv \<le> MAX_CONCURRENT_SESSIONS"

lemma slots_ok_fresh: "slots_ok (fresh_server s)"
  by (simp add: slots_ok_def fresh_server_def)

lemma accept_slots:
  assumes "slots_ok sv" "sv_sessions sv sid = None" "accept_connection incoming sid sv = (line, sv')"
  shows "slots_ok sv' \<and> sv_process sv' = sv_process sv"
proof -
  have "finite (dom (sv_sessions sv)) \<Longrightarrow> card (insert sid (dom (sv_sessions sv))) = Suc (card (dom (sv_sessions sv)))"
    using assms(2) by (intro card_insert_disjoint) auto
  then show ?thesis using assms(1,3)
    by (auto simp: accept_connection_def slots_ok_def Let_def split: sum.splits option.splits if_splits)
qed

lemma turn_slots:
  assumes "slots_ok sv" "sv_sessions sv sid = Some se"
  shows "slots_ok (after_turn sid ended se' (sv\<lparr>sv_process := s'\<rparr>))"
proof -
  have "sid \<in> dom (sv_sessions sv)" using assms(2) by auto
  then have "insert sid (dom (sv_sessions sv)) = dom (sv_sessions sv)" "card (dom (sv_sessions sv) - {sid}) = card (dom (sv_sessions sv)) - 1"
    using assms(1) by (auto simp: slots_ok_def)
  then show ?thesis using assms(1) by (auto simp: after_turn_def slots_ok_def split: option.splits)
qed

lemma step_slots: "server_step E trust sv forks sv' \<Longrightarrow> slots_ok sv \<Longrightarrow> slots_ok sv'"
  by (induction rule: server_step.induct) (use accept_slots turn_slots in blast)+

lemma run_slots: "server_run E trust sv hist sv' \<Longrightarrow> slots_ok sv \<Longrightarrow> slots_ok sv'"
  by (induction rule: server_run.induct) (auto intro: step_slots)

subsection \<open>Sessions interleave as one run of the dispatcher\<close>

lemma frame_is_command:
  assumes "process_framed_with_shared_state E trust frame s = (x, s')"
  obtains "s' = s" "frame_forks E trust frame s = []"
  | cmd resp where "dispatch_command_with_state E trust cmd s = (resp, s')"
      "frame_forks E trust frame s = hard_fork_log (hp_state s) cmd resp"
proof -
  obtain y where y: "try_process_framed_with_shared_state E trust frame s = (y, s')"
    using process_framed_state [of E trust frame s] assms
    by (cases "try_process_framed_with_shared_state E trust frame s") auto
  show thesis
  proof (cases "res_bind (decode_message frame) (\<lambda>m. decode_wire_command E (fm_msg_type m) (fm_payload m))")
    case (Inl e)
    then show thesis using y that(1)
      by (auto simp: frame_forks_def try_process_framed_with_shared_state_def res_simps split: sum.splits)
  next
    case (Inr cmd)
    then have "dispatch_command_with_state E trust cmd s = (fst (dispatch_command_with_state E trust cmd s), s')"
      using y by (auto simp: try_process_framed_with_shared_state_def res_simps split: prod.splits sum.splits)
    then show thesis using Inr by (intro that(2)) (simp_all add: frame_forks_def)
  qed
qed

lemma turn_is_command:
  assumes "session_turn E trust se s = (ended, se', s')"
  obtains "s' = s" "turn_forks E trust se s = []"
  | cmd resp where "dispatch_command_with_state E trust cmd s = (resp, s')"
      "turn_forks E trust se s = hard_fork_log (hp_state s) cmd resp"
proof (cases "fst (read_frame (se_deadline se) (an_reads (se_conn se)))")
  case (Inl e)
  then show thesis using assms that(1) by (auto simp: session_turn_def turn_forks_def split: prod.splits)
next
  case (Inr frame)
  then obtain ts where r: "read_frame (se_deadline se) (an_reads (se_conn se)) = (Inr frame, ts)" by (metis prod.collapse)
  obtain x where x: "process_framed_with_shared_state E trust frame s = (x, s')"
    using assms r by (auto simp: session_turn_def Let_def split: prod.splits sum.splits list.splits option.splits)
  show thesis by (rule frame_is_command [OF x]) (use that r in \<open>auto simp: turn_forks_def\<close>)
qed

lemma server_run_dispatches:
  "server_run E trust sv hist sv' \<Longrightarrow> producer_run E trust (sv_process sv) hist (sv_process sv')"
proof (induction rule: server_run.induct)
  case run_start
  show ?case by (rule producer_run.start)
next
  case (run_step hist sv1 forks sv2)
  from run_step.hyps(2) show ?case
  proof cases
    case (accepts sid incoming line)
    then have "sv_process sv2 = sv_process sv1"
      by (auto simp: accept_connection_def Let_def split: sum.splits option.splits if_splits)
    then show ?thesis using run_step.IH accepts(1) by simp
  next
    case (turns sid se ended se' s')
    have p: "sv_process sv2 = s'" using turns(2) by (auto simp: after_turn_def split: option.splits)
    show ?thesis
      by (rule turn_is_command [OF turns(4)]) (use run_step.IH turns(1) p producer_run.step in fastforce)+
  qed
qed

lemma server_run_keeps:
  assumes "server_run E trust sv hist sv'"
  shows "hp_pq (sv_process sv') = hp_pq (sv_process sv) \<and> hp_attestation (sv_process sv') = hp_attestation (sv_process sv)"
  using server_run_dispatches [OF assms] by (induction rule: producer_run.induct) (auto dest: dispatch_keeps)

subsection \<open>A session is the generic pump\<close>

lemma session_is_pump:
  "serve_framed_loop (process_framed_with_shared_state E trust) (pe_cbor E) SESSION_IDLE_TIMEOUT d ws c s
     = (case serve_session E trust \<lparr>se_conn = c\<lparr>an_writes := ws\<rparr>, se_deadline = d\<rparr> s of (r, se, s) \<Rightarrow> (r, se_conn se, s))"
proof (induction ws arbitrary: d c s)
  case Nil
  show ?case
    by (simp add: serve_framed_loop.simps [of _ _ _ d "[]"] serve_session.simps [of E trust _ s] session_turn_def
        split: prod.split sum.split)
next
  case (Cons w ws)
  obtain k now where w: "w = (k, now)" by (cases w)
  show ?case unfolding w
    by (simp add: serve_framed_loop.simps [of _ _ _ d "(k, now) # ws"] serve_session.simps [of E trust _ s] session_turn_def
        Cons.IH reply_resets_idle_def Let_def split: prod.split sum.split option.split)
qed

section \<open>What the boot leaves\<close>

lemma exactly_32_Inr: "exactly_32 e bs = Inr bs' \<longleftrightarrow> bs' = bs \<and> length bs = 32"
  by (auto simp: exactly_32_def)

lemma read_root_length: "read_provisioning_root_file h path = Inr root \<Longrightarrow> length root = 32"
  by (auto simp: read_provisioning_root_file_def res_simps exactly_32_Inr)

lemma configured_platform_root:
  assumes "boot_configure_pq_seal_v1_platform_root bd h q = Inr q'"
  shows "\<exists>root. q' = q\<lparr>ps_root := Some root\<rparr> \<and> ps_root q = None \<and> length root = 32"
  using assms read_root_length
  by (auto simp: boot_configure_pq_seal_v1_platform_root_def derive_platform_provisioning_root_v1_def
      set_pq_seal_v1_provisioning_root_def res_simps split: if_splits)

text \<open>A signer that is installed stays, and no root is ever replaced.\<close>

lemma configure_signer_root:
  assumes "configure_signer E bd h q = Inr q'"
  shows "(is_platform_pq_seal_v1_provisioning_root_set q' \<or> \<not> pb_release bd \<and> \<not> pb_lab_seal_file bd \<and> transport_only_mode_enabled (bh_env h))
     \<and> (ps_root q \<noteq> None \<longrightarrow> ps_root q' = ps_root q)
     \<and> (ps_signer q \<noteq> None \<longrightarrow> ps_signer q' = ps_signer q)
     \<and> (\<not> pb_lab_seal_file bd \<longrightarrow> ps_signer q' = ps_signer q)"
proof -
  have root: "ps_root q1 \<noteq> None \<and> ps_root q = None \<and> ps_signer q1 = ps_signer q"
    if "boot_configure_pq_seal_v1_platform_root bd h q = Inr q1" for q1
    using configured_platform_root [OF that] by auto
  have lab: "ps_root q2 = ps_root q1 \<and> ps_signer q1 = None"
    if "boot_install_lab_sealed_signer_from_file C Q h q1 = Inr q2" for C Q q1 q2
    using that by (auto simp: boot_install_lab_sealed_signer_from_file_def res_simps install_Inr split: if_splits)
  show ?thesis
    using assms root lab
    by (auto simp: configure_signer_def is_platform_pq_seal_v1_provisioning_root_set_def res_simps
        split: if_splits sum.splits)
qed

definition attested :: "'g producer_env \<Rightarrow> 'g host_process \<Rightarrow> bool" where
  "attested E s \<longleftrightarrow> (\<exists>m report chain pk. hp_attestation s = Some (m, report, chain)
     \<and> active_signing_public_key_bytes E (hp_pq s) = Some pk \<and> report_carries report (report_data_for_pubkey (pe_crypto E) pk) m)"

lemma capture_cases:
  assumes "boot_capture_snp_measurement E fs s f = (r, s', f')" "hp_attestation s = None"
  shows "hp_pq s' = hp_pq s \<and> (case r of Inr _ \<Rightarrow> attested E s' | Inl _ \<Rightarrow> hp_attestation s' = None)"
proof (cases "active_signing_public_key_bytes E (hp_pq s)")
  case None
  then show ?thesis using assms by (auto simp: boot_capture_snp_measurement_def)
next
  case (Some pk)
  obtain r0 cache f1 where c: "boot_fetch_and_cache (pe_crypto E) fs pk (None, f) = (r0, cache, f1)" by (metis prod_cases3)
  then have s': "r = r0" "s' = s\<lparr>hp_attestation := cache\<rparr>" using assms Some by (auto simp: boot_capture_snp_measurement_def)
  show ?thesis
  proof (cases r0)
    case (Inl e)
    then have "cache = None" using c by (auto simp: boot_fetch_and_cache_def split: prod.splits sum.splits)
    then show ?thesis using Inl s' by simp
  next
    case (Inr u)
    then show ?thesis using boot_cache_authentic [of "pe_crypto E" fs pk None f cache f1] c s' Some
      by (auto simp: attested_def)
  qed
qed

lemma producer_boot_cases:
  assumes "producer_boot E fs bd bindable h s f = Inr (trust, s')" "hp_attestation s = None"
  shows "hp_state s' = Unarmed \<and> length trust = 32 \<and> load_attestation_trust (pe_ed E) h = Inr trust
     \<and> configure_signer E bd h (hp_pq s) = Inr (hp_pq s')
     \<and> (attested E s' \<or> hp_attestation s' = None \<and> (pb_release bd \<longrightarrow> \<not> is_sealed_signer_installed (hp_pq s')))"
proof -
  obtain q where q: "configure_signer E bd h (hp_pq s) = Inr q"
    using assms(1) by (auto simp: producer_boot_def res_simps)
  obtain r s1 f1 where c: "boot_capture_snp_measurement E fs (s\<lparr>hp_pq := q\<rparr>) f = (r, s1, f1)" by (metis prod_cases3)
  have s': "s' = s1\<lparr>hp_state := Unarmed\<rparr>" "load_attestation_trust (pe_ed E) h = Inr trust"
    "snp_attestation_boot_gate (pb_release bd) (is_sealed_signer_installed (hp_pq s1)) (case r of Inr _ \<Rightarrow> True | Inl _ \<Rightarrow> False) = Inr ()"
    using assms(1) q c by (auto simp: producer_boot_def res_simps split: if_splits)
  have "length trust = 32" using s'(2)
    by (auto simp: load_attestation_trust_def trust_from_verifying_key_bytes_def res_simps split: if_splits)
  then show ?thesis
    using s' q capture_cases [OF c] assms(2)
    by (auto simp: snp_attestation_boot_gate_def attested_def split: sum.splits if_splits)
qed

section \<open>Properties\<close>

text \<open>C4: the sessions of the producer do not equivocate together. From a server with no session and an unarmed enclave, and for
  any interleaving of accepts and of the turns of the sessions, the hard forks signed over all sessions are signed at strictly
  increasing finalized heights, each over its canonical hash with the installed key; the signer is never changed, and
  the slot counter is the number of open sessions and never above the cap.\<close>

theorem concurrent_sessions_never_equivocate:
  assumes "server_run E trust (fresh_server s) hist sv" "hp_state s = Unarmed"
  shows "sorted_wrt (\<lambda>x y. fst x < fst y) hist \<and> hp_pq (sv_process sv) = hp_pq s
     \<and> list_all (\<lambda>(h, t, r). h < tk_activation_height t \<and> validate_ticket_payload t = Inr ()
         \<and> sar_ticket_hash r = compute_canonical_ticket_hash (pe_crypto E) t
         \<and> signs_with E (hp_pq s) (tk_pq_pubkey t) (sar_ticket_hash r) (sar_signature r)) hist
     \<and> finite (dom (sv_sessions sv)) \<and> sv_active sv = card (dom (sv_sessions sv)) \<and> sv_active sv \<le> MAX_CONCURRENT_SESSIONS"
proof -
  have "run_ok E trust hist (sv_process sv)" "hp_pq (sv_process sv) = hp_pq s"
    using producer_run_ok [OF server_run_dispatches [OF assms(1)]] assms(2) by (simp_all add: fresh_server_def)
  moreover have "slots_ok sv" by (rule run_slots [OF assms(1) slots_ok_fresh])
  ultimately show ?thesis
    by (auto simp: run_ok_def hard_fork_ok_def ticket_signed_def list_all_iff split_beta slots_ok_def)
qed

text \<open>C14: what the producer advertises is attested. Once the boot has succeeded from a process without a captured report, whatever
  the sessions do, \<open>GET_MEASUREMENT\<close> answers with a report that echoes the advertised key and carries the advertised measurement, or
  with the placeholder, which a release build never combines with an operational signer; the provisioning root is set except in
  transport-only debug builds, and the trust anchor is the 32-byte key the operator pinned.\<close>

theorem advertised_key_is_attested:
  assumes "producer_boot E fs bd bindable h s f = Inr (trust, s1)" "hp_attestation s = None"
    "server_run E trust (fresh_server s1) hist sv" "r = measurement_response E (sv_process sv)"
  shows "(report_carries (gmr_attestation r) (report_data_for_pubkey (pe_crypto E) (gmr_pq_pubkey r)) (gmr_measurement r)
      \<or> gmr_measurement r = LAB_PROD_MEASUREMENT \<and> gmr_attestation r = ascii ''attestation-placeholder'' \<and> gmr_cert_chain r = []
        \<and> (pb_release bd \<longrightarrow> \<not> gmr_pq_signing_ready r))
    \<and> (is_platform_pq_seal_v1_provisioning_root_set (hp_pq (sv_process sv))
       \<or> \<not> pb_release bd \<and> \<not> pb_lab_seal_file bd \<and> transport_only_mode_enabled (bh_env h))
    \<and> length trust = 32 \<and> load_attestation_trust (pe_ed E) h = Inr trust"
proof -
  note b = producer_boot_cases [OF assms(1,2)]
  have k: "hp_pq (sv_process sv) = hp_pq s1" "hp_attestation (sv_process sv) = hp_attestation s1"
    using server_run_keeps [OF assms(3)] by (simp_all add: fresh_server_def)
  have "is_platform_pq_seal_v1_provisioning_root_set (hp_pq s1)
      \<or> \<not> pb_release bd \<and> \<not> pb_lab_seal_file bd \<and> transport_only_mode_enabled (bh_env h)"
    using b configure_signer_root by blast
  then show ?thesis
    using b k
    by (auto simp: assms(4) measurement_response_def resolve_measurement_and_attestation_def attested_def pq_signing_ready_def)
qed

text \<open>a producer session is the generic pump. The connection loop that the producer keeps of its own does, over every script of reads
  and writes, exactly what the pump of the agent listener does with the producer's frame processing as its handler.\<close>

theorem producer_session_is_the_pump:
  "serve_framed_connection E trust c s
     = serve_framed_pump (process_framed_with_shared_state E trust) (pe_cbor E) SESSION_IDLE_TIMEOUT c s"
  by (simp add: serve_framed_pump_def session_is_pump serve_framed_connection_def open_session_def)

section \<open>A concrete producer server\<close>

text \<open>A reader of two requests: the arming and the hard fork of \<open>Producer\<close>.\<close>

definition arm_value :: wire_value where
  "arm_value = w_map [(1, w_uint PROTOCOL_VERSION), (2, encode_authorized_producer_state sample_producer),
     (3, encode_recent_chain_proof sample_proof)]"

definition fork_value :: wire_value where
  "fork_value = w_map [(1, w_uint PROTOCOL_VERSION), (2, encode_ticket sample_fork)]"

definition two_requests :: ciborium where
  "two_requests = \<lparr>cb_ser = (\<lambda>w. if w = arm_value then Some [1] else if w = fork_value then Some [2] else None),
     cb_de = (\<lambda>b. if b = [1] then Some (arm_value, 1) else if b = [2] then Some (fork_value, 1) else None)\<rparr>"

definition server_build :: "unit producer_env" where "server_build = sample_build\<lparr>pe_cbor := two_requests\<rparr>"

definition one_frame_conn :: "message_type \<Rightarrow> bytes \<Rightarrow> agent_conn" where
  "one_frame_conn t p = \<lparr>an_prepare = None, an_opened = 7,
     an_reads = [\<lparr>tr_before = 8, tr_outcome = Chunk (frame_of t p), tr_after = 9\<rparr>], an_writes = [(None, 12)], an_written = []\<rparr>"

lemma server_build_sel [simp]: "pe_crypto server_build = sample_crypto" "pe_ed server_build = sample_ed"
  "pe_pq server_build = sample_pq" "pe_mldsa server_build" "pe_cbor server_build = two_requests"
  by (simp_all add: server_build_def)

lemma two_requests_correct: "ciborium_correct two_requests"
  by (simp add: ciborium_correct_def two_requests_def)

lemma server_decodes:
  "decode_arm_for_production_request two_requests [1] = Inr sample_arm"
  "decode_sign_authorization_ticket_request two_requests [2] = Inr sample_fork"
proof -
  have "authorized_typed sample_producer" "proof_typed sample_proof" "ticket_typed sample_fork"
    by (simp_all add: authorized_typed_def proof_typed_def ticket_typed_def h32_def sample_producer_def sample_authorized_def
        sample_proof_def sample_unsigned_proof_def sample_fork_def sample_ticket_def)
  moreover have "encode_arm_for_production_request two_requests sample_arm = Inr [1]"
    by (simp add: encode_arm_for_production_request_def encode_value_def two_requests_def arm_value_def sample_arm_def)
  moreover have "arm_value \<noteq> fork_value" by (simp add: arm_value_def fork_value_def w_map_def)
  then have "encode_sign_authorization_ticket_request two_requests sample_fork = Inr [2]"
    by (simp add: encode_sign_authorization_ticket_request_def encode_value_def two_requests_def) (simp add: fork_value_def)
  ultimately show "decode_arm_for_production_request two_requests [1] = Inr sample_arm"
    "decode_sign_authorization_ticket_request two_requests [2] = Inr sample_fork"
    using request_roundtrips(3,4) [OF two_requests_correct] by (simp_all add: sample_arm_def)
qed

lemma one_frame_read:
  "read_frame (7 + SESSION_IDLE_TIMEOUT) (an_reads (one_frame_conn t [b])) = (Inr (frame_of t [b]), [])"
proof -
  have "be32 3 = [0, 0, 0, 3]" by (rule be_val_inj) simp_all
  then have "frame_of t [b] = [0, 0, 0, 3, 1, message_type_byte t, b]"
    by (simp add: frame_of_def PROTOCOL_VERSION_def)
  then show ?thesis
    by (simp add: one_frame_conn_def read_frame_def read_events_def SESSION_IDLE_TIMEOUT_def
        read_framed_message_with_idle_deadline_def read_exact_with_idle_deadline_def Let_def MAX_MESSAGE_SIZE_def unread_def)
qed

lemma frame_of_decodes: "length p + 2 \<le> MAX_MESSAGE_SIZE \<Longrightarrow>
    decode_message (frame_of t p) = Inr \<lparr>fm_version = PROTOCOL_VERSION, fm_msg_type = t, fm_payload = p\<rparr>"
  unfolding decode_message_Inr by blast

text \<open>A session that brings one frame: its turn performs the command of the frame.\<close>

lemma one_frame_turn:
  assumes "decode_wire_command E t [b] = Inr cmd" "dispatch_command_with_state E trust cmd s = (resp, s')"
  shows "\<exists>ended se'. session_turn E trust (open_session (one_frame_conn t [b])) s = (ended, se', s')
     \<and> turn_forks E trust (open_session (one_frame_conn t [b])) s = hard_fork_log (hp_state s) cmd resp"
proof -
  have m: "decode_message (frame_of t [b]) = Inr \<lparr>fm_version = PROTOCOL_VERSION, fm_msg_type = t, fm_payload = [b]\<rparr>"
    by (rule frame_of_decodes) (simp add: MAX_MESSAGE_SIZE_def)
  have o': "se_deadline (open_session (one_frame_conn t [b])) = 7 + SESSION_IDLE_TIMEOUT"
    "se_conn (open_session (one_frame_conn t [b])) = one_frame_conn t [b]"
    by (simp_all add: open_session_def one_frame_conn_def)
  have f: "turn_forks E trust (open_session (one_frame_conn t [b])) s = hard_fork_log (hp_state s) cmd resp"
    by (simp add: turn_forks_def o' one_frame_read frame_forks_def m assms res_simps)
  obtain ended se' s2 where t: "session_turn E trust (open_session (one_frame_conn t [b])) s = (ended, se', s2)" by (metis prod_cases3)
  obtain x where x: "process_framed_with_shared_state E trust (frame_of t [b]) s = (x, s2)"
    using t by (auto simp: session_turn_def o' one_frame_read Let_def split: prod.splits sum.splits list.splits option.splits)
  have "s2 = s'"
    using process_framed_state [of E trust "frame_of t [b]" s] x assms m
    by (simp add: try_process_framed_with_shared_state_def)
  then show ?thesis using t f by blast
qed

text \<open>Two sessions: the first arms the enclave, the second has a hard fork signed.\<close>

lemma two_sessions_run:
  "\<exists>sv. server_run server_build sample_trust (fresh_server sample_process) [(120, sample_fork, sample_fork_response)] sv"
proof -
  let ?run = "server_run server_build sample_trust (fresh_server sample_process)"
  let ?a = "one_frame_conn ArmForProduction [1]" and ?f = "one_frame_conn SignAuthorizationTicket [2]"
  have open': "accept_connection (Inr (one_frame_conn t p)) sid sv = (SessionSpawned,
      sv\<lparr>sv_active := sv_active sv + 1, sv_sessions := (sv_sessions sv)(sid \<mapsto> open_session (one_frame_conn t p))\<rparr>)"
    if "sv_active sv < 32" for t p sid and sv :: "unit producer_server"
    using that by (simp add: accept_connection_def one_frame_conn_def MAX_CONCURRENT_SESSIONS_def Let_def)
  define sv1 where "sv1 = \<lparr>sv_active = 2, sv_process = sample_process, sv_sessions = [0 \<mapsto> open_session ?a, 1 \<mapsto> open_session ?f]\<rparr>"
  have "?run [] (fresh_server sample_process)" by (rule run_start)
  from run_step [OF this accepts [OF _ open' [where sid = 0 and t = ArmForProduction and p = "[1]"]]] have
    "?run [] ((fresh_server sample_process)\<lparr>sv_active := 1, sv_sessions := [0 \<mapsto> open_session ?a]\<rparr>)"
    by (simp add: fresh_server_def)
  from run_step [OF this accepts [OF _ open' [where sid = 1 and t = SignAuthorizationTicket and p = "[2]"]]] have r1: "?run [] sv1"
    by (simp add: fresh_server_def sv1_def numeral_2_eq_2)
  have arms: "dispatch_command_with_state server_build sample_trust (CmdArmForProduction sample_arm) sample_process
     = (RespArmForProduction \<lparr>ar_status = ''armed'', ar_reason = None\<rparr>, sample_armed)"
  proof -
    have "arm_for_production server_build (hp_pq sample_process) (hp_state sample_process) sample_arm sample_trust
        = arm_for_production sample_build (hp_pq sample_process) (hp_state sample_process) sample_arm sample_trust"
      by (simp add: arm_for_production_def pq_signing_ready_def expect_pq_pubkey_matches_active_signer_def
          active_signing_public_key_bytes_def)
    then show ?thesis using sample_arms by (auto split: sum.splits)
  qed
  obtain s2 where forks: "dispatch_command_with_state server_build sample_trust (CmdSignAuthorizationTicket sample_fork) sample_armed
     = (RespSignAuthorizationTicket sample_fork_response, s2)"
  proof -
    have parts: "produce_pq_signature server_build q th = produce_pq_signature sample_build q th"
      "validate_hard_fork_sign_preconditions server_build t a = validate_hard_fork_sign_preconditions sample_build t a"
      "validate_ticket_pq_pubkey_matches_signer server_build q t = validate_ticket_pq_pubkey_matches_signer sample_build q t" for q t a th
      by (simp_all add: validate_hard_fork_sign_preconditions_def produce_pq_signature_def pq_signing_ready_def
          validate_ticket_pq_pubkey_matches_signer_def expect_pq_pubkey_matches_active_signer_def active_signing_public_key_bytes_def
          cong: if_cong)
    have "handle_sign_authorization_ticket_with_state server_build q t st = handle_sign_authorization_ticket_with_state sample_build q t st"
      for q t st
      by (cases st) (simp_all add: handle_sign_authorization_ticket_with_state_def sign_recovery_ticket_def parts)
    then show thesis using that sample_fork_dispatch by (auto split: prod.splits sum.splits)
  qed
  obtain e1 se1 where t1: "session_turn server_build sample_trust (open_session ?a) sample_process = (e1, se1, sample_armed)"
    "turn_forks server_build sample_trust (open_session ?a) sample_process = []"
    using one_frame_turn [OF _ arms, of ArmForProduction 1] by (auto simp: server_decodes res_simps)
  obtain e2 se2 where t2: "session_turn server_build sample_trust (open_session ?f) sample_armed = (e2, se2, s2)"
    "turn_forks server_build sample_trust (open_session ?f) sample_armed = [(120, sample_fork, sample_fork_response)]"
  proof -
    have "hard_fork_log (hp_state sample_armed) (CmdSignAuthorizationTicket sample_fork) (RespSignAuthorizationTicket sample_fork_response)
        = [(120, sample_fork, sample_fork_response)]"
      by (simp add: sample_armed_def)
        (simp add: armed_with_def sample_arm_def sample_proof_def sample_unsigned_proof_def sample_fork_def sample_ticket_def)
    then show thesis using that one_frame_turn [OF _ forks, of SignAuthorizationTicket 2] by (auto simp: server_decodes res_simps)
  qed
  define sv2 where "sv2 = after_turn 0 e1 se1 (sv1\<lparr>sv_process := sample_armed\<rparr>)"
  have p1: "sv_sessions sv1 0 = Some (open_session ?a)" "sample_process = sv_process sv1" by (simp_all add: sv1_def)
  have r2: "?run [] sv2"
    using run_step [OF r1 turns [OF p1(1) t1(1) [unfolded p1(2)]]] t1(2) by (simp add: sv2_def p1(2))
  have p2: "sv_sessions sv2 1 = Some (open_session ?f)" "sample_armed = sv_process sv2"
    by (simp_all add: sv2_def sv1_def after_turn_def split: option.split)
  show ?thesis using run_step [OF r2 turns [OF p2(1) t2(1) [unfolded p2(2)]]] t2(2) by (auto simp: p2(2))
qed

lemma concurrent_sessions_never_equivocate_witness:
  "\<exists>sv. server_run server_build sample_trust (fresh_server sample_process) [(120, sample_fork, sample_fork_response)] sv
     \<and> sv_active sv = card (dom (sv_sessions sv)) \<and> (120 :: u64) < tk_activation_height sample_fork"
proof -
  obtain sv where run: "server_run server_build sample_trust (fresh_server sample_process) [(120, sample_fork, sample_fork_response)] sv"
    using two_sessions_run by blast
  then show ?thesis using concurrent_sessions_never_equivocate [OF run] by auto
qed

text \<open>A release boot with an operational signer and a device.\<close>

definition release_producer :: producer_build where
  "release_producer = \<lparr>pb_lab_seal_file = False, pb_provisioning_file = False, pb_root_from_boot_file = True, pb_reference_root = False,
     pb_release = True\<rparr>"

definition release_host :: boot_host where
  "release_host = \<lparr>bh_env = [TWOD_HSM_PRODUCER_ATTESTATION_TRUST_FILE \<mapsto> ascii ''t''],
     bh_file = [PQ_SEAL_ROOT_PATH \<mapsto> zero32, ascii ''t'' \<mapsto> sample_trust], bh_exists = Map.empty\<rparr>"

definition release_process :: "unit host_process" where
  "release_process = sample_process\<lparr>hp_pq := \<lparr>ps_root = None, ps_signer = Some sample_signer\<rparr>\<rparr>"

definition release_served :: "unit host_process" where
  "release_served = sample_process\<lparr>hp_pq := \<lparr>ps_root = Some zero32, ps_signer = Some sample_signer\<rparr>,
     hp_attestation := Some (replicate 48 4, Snp_Report.sample_report (report_data_for_pubkey sample_crypto sample_pk) (replicate 48 4), [9])\<rparr>"

lemma release_boots:
  "producer_boot server_build sample_tsm release_producer (\<lambda>_. True) release_host release_process [] = Inr (sample_trust, release_served)"
proof -
  have len: "length (report_data_for_pubkey sample_crypto sample_pk) = 64"
    by (simp add: report_data_for_pubkey_def sample_crypto_def)
  have key: "active_signing_public_key_bytes server_build \<lparr>ps_root = Some zero32, ps_signer = Some sample_signer\<rparr> = Some sample_pk"
    by (simp add: active_signing_public_key_bytes_def sealed_signer_public_key_bytes_def sample_signer_def)
  have "boot_configure_pq_seal_v1_platform_root release_producer release_host (hp_pq release_process)
      = Inr \<lparr>ps_root = Some zero32, ps_signer = Some sample_signer\<rparr>"
    by (simp add: boot_configure_pq_seal_v1_platform_root_def derive_platform_provisioning_root_v1_def release_producer_def
        read_provisioning_root_file_def read_boot_file_capped_def release_host_def PQ_SEAL_ROOT_PATH_def ascii_def exactly_32_def
        zero32_def set_pq_seal_v1_provisioning_root_def release_process_def)
  then have q: "configure_signer server_build release_producer release_host (hp_pq release_process)
      = Inr \<lparr>ps_root = Some zero32, ps_signer = Some sample_signer\<rparr>"
    by (simp add: configure_signer_def) (simp add: release_producer_def)
  have "fetch_report_with sample_tsm (report_data_for_pubkey sample_crypto sample_pk) []
      = (Inr (Snp_Report.sample_report (report_data_for_pubkey sample_crypto sample_pk) (replicate 48 4), [9]),
         report_data_for_pubkey sample_crypto sample_pk)"
    using len by (simp add: fetch_report_with_def fetch_report_with_at_def fetch_report_inner_with_def sample_tsm_def report_lens
        MAX_OUTBLOB_LEN_def Snp_Report.sample_report_def)
  moreover have "verify_and_extract_measurement (Snp_Report.sample_report (report_data_for_pubkey sample_crypto sample_pk) (replicate 48 4))
      (report_data_for_pubkey sample_crypto sample_pk) = Inr (replicate 48 4)"
    using len by (simp add: verify_and_extract_measurement_def report_data_from_report_def measurement_from_report_def report_lens
        Snp_Report.sample_report_def Let_def)
  ultimately have c: "boot_capture_snp_measurement server_build sample_tsm
      (release_process\<lparr>hp_pq := \<lparr>ps_root = Some zero32, ps_signer = Some sample_signer\<rparr>\<rparr>) []
      = (Inr (), release_served, report_data_for_pubkey sample_crypto sample_pk)"
    using key by (simp add: boot_capture_snp_measurement_def boot_fetch_and_cache_def fetch_measurement_and_report_def
        release_process_def release_served_def sample_process_def Let_def)
  have "load_attestation_trust sample_ed release_host = Inr sample_trust"
    by (simp add: load_attestation_trust_def var_twod_def env_var_def release_host_def TWOD_HSM_PRODUCER_ATTESTATION_TRUST_FILE_def
        PQ_SEAL_ROOT_PATH_def ascii_def sample_trust_def trust_from_verifying_key_bytes_def sample_ed_def)
  moreover have "vsock_listen_addr_from_env (bh_env release_host) = Inr (DEFAULT_VSOCK_CID, DEFAULT_VSOCK_PORT)"
    by (simp add: vsock_listen_addr_from_env_def serve_vsock_port_from_env_def env_u32_twod_def var_twod_def env_var_def release_host_def
        served_names TWOD_HSM_PRODUCER_ATTESTATION_TRUST_FILE_def validate_vsock_listen_addr_def DEFAULT_VSOCK_CID_def DEFAULT_VSOCK_PORT_def)
  moreover have "hp_state release_served = Unarmed" "release_served\<lparr>hp_state := Unarmed\<rparr> = release_served"
    by (simp_all add: release_served_def sample_process_def)
  ultimately show ?thesis
    using q c by (simp add: producer_boot_def snp_attestation_boot_gate_def)
qed

lemma advertised_key_is_attested_witness:
  "\<exists>sv. server_run server_build sample_trust (fresh_server release_served) [] sv
     \<and> report_carries (gmr_attestation (measurement_response server_build (sv_process sv)))
         (report_data_for_pubkey sample_crypto sample_pk) (replicate 48 4)"
proof -
  let ?sv = "fresh_server release_served" and ?r = "measurement_response server_build release_served"
  have run: "server_run server_build sample_trust ?sv [] ?sv" by (rule run_start)
  have p: "sv_process ?sv = release_served" by (simp add: fresh_server_def)
  have fresh: "hp_attestation release_process = None" by (simp add: release_process_def sample_process_def)
  have r: "gmr_pq_signing_ready ?r" "gmr_pq_pubkey ?r = sample_pk" "gmr_measurement ?r = replicate 48 4"
    by (simp_all add: measurement_response_def resolve_measurement_and_attestation_def release_served_def pq_signing_ready_def
        is_sealed_signer_installed_def active_signing_public_key_bytes_def sealed_signer_public_key_bytes_def sample_signer_def)
  from advertised_key_is_attested [OF release_boots fresh run refl] r have
    "report_carries (gmr_attestation ?r) (report_data_for_pubkey sample_crypto sample_pk) (replicate 48 4)"
    by (auto simp: p release_producer_def)
  with run p show ?thesis by metis
qed

end
