(* ===== verification/Backup.thy ===== *)
theory Backup
  imports Marks Pq_Signer Wire Keystore_Invariant
begin

text \<open>
  The disaster-recovery formats of \<open>agent_backup.rs\<close>: the backup blob \<open>pq-agent-backup-v1\<close>, the
  payload inside it, the restore-ingress envelope that carries the payload to the restoring enclave, and
  the checks and updates of a restore that need no process state. Both envelopes are ML-KEM-1024 followed
  by ChaCha20-Poly1305 with the serialized header as associated data.

  Parameters: ML-KEM (\<open>mlkem\<close>; a decapsulation key is its 64-byte seed), the AEAD of \<open>pq_crypto\<close>, the
  serde encoding of the payload (\<open>ingress_serde\<close>) and \<open>ciborium\<close> for the manifest. The reader states
  are as in the source; \<open>at pre s\<close> has read \<open>pre\<close> and has \<open>s\<close> left, and the interface \<open>reader_codec\<close>
  says that a read succeeds exactly on its encoding.
\<close>

record mlkem =
  kem_ek_ok :: "bytes \<Rightarrow> bool"
  kem_encaps :: "bytes \<Rightarrow> bytes \<Rightarrow> bytes \<times> bytes"
  kem_ek :: "bytes \<Rightarrow> bytes"
  kem_decaps :: "bytes \<Rightarrow> bytes \<Rightarrow> bytes"

definition BACKUP_MAGIC :: bytes where "BACKUP_MAGIC = ascii ''2DAGTBK'' @ [0]"
definition BACKUP_FORMAT_VERSION :: u16 where "BACKUP_FORMAT_VERSION = 1"
definition BACKUP_KDF_DOMAIN :: bytes where "BACKUP_KDF_DOMAIN = ascii ''2d-hsm-agent-backup-v1-key''"
definition ML_KEM_1024_CIPHERTEXT_LEN :: nat where "ML_KEM_1024_CIPHERTEXT_LEN = 1568"
definition PAYLOAD_NONCE_LEN :: nat where "PAYLOAD_NONCE_LEN = 12"

datatype backup_error =
    InvalidEncapsKeyLen | InvalidEncapsKey | FieldTooLong | Csprng | Encrypt | Decrypt | Truncated
  | BadMagic | UnsupportedVersion | Serialization

section \<open>The backup blob\<close>

definition derive_payload_key :: "crypto \<Rightarrow> bytes \<Rightarrow> bytes" where
  "derive_payload_key C ss = sha3_256 C (BACKUP_KDF_DOMAIN @ ss)"

text \<open>The bytes appended, or the refusal of a field its prefix cannot count.\<close>

definition put_lp16 :: "bytes \<Rightarrow> backup_error + bytes" where
  "put_lp16 field = (if length field < 2 ^ 16 then Inr (be16 (of_nat (length field)) @ field) else Inl FieldTooLong)"

definition put_lp32 :: "bytes \<Rightarrow> backup_error + bytes" where
  "put_lp32 field = (if length field < 2 ^ 32 then Inr (be32 (of_nat (length field)) @ field) else Inl FieldTooLong)"

definition build_header :: "bytes \<Rightarrow> u64 \<Rightarrow> bytes \<Rightarrow> bytes \<Rightarrow> bytes \<Rightarrow> bytes \<Rightarrow> backup_error + bytes" where
  "build_header recovery_key_id chain_id environment_identifier kem_ct key_refs_manifest payload_nonce =
     res_bind (put_lp16 recovery_key_id) (\<lambda>rid.
     res_bind (put_lp16 environment_identifier) (\<lambda>env.
     res_bind (put_lp32 key_refs_manifest) (\<lambda>manifest.
     Inr (BACKUP_MAGIC @ be16 BACKUP_FORMAT_VERSION @ rid @ be64 chain_id @ env @ kem_ct @ manifest
       @ payload_nonce))))"

definition encapsulate_to_recovery_key :: "mlkem \<Rightarrow> bytes \<Rightarrow> bytes \<Rightarrow> backup_error + bytes \<times> bytes" where
  "encapsulate_to_recovery_key K recovery_encaps_key m =
     (if length recovery_encaps_key \<noteq> ML_KEM_1024_ENCAPS_KEY_LEN then Inl InvalidEncapsKeyLen
      else if \<not> kem_ek_ok K recovery_encaps_key then Inl InvalidEncapsKey
      else Inr (kem_encaps K recovery_encaps_key m))"

definition reject_unparseable_header :: "bytes \<Rightarrow> backup_error + unit" where
  "reject_unparseable_header blob =
     (if length blob < length BACKUP_MAGIC + 2 then Inl Truncated
      else if take (length BACKUP_MAGIC) blob \<noteq> BACKUP_MAGIC then Inl BadMagic
      else if be_val [blob ! length BACKUP_MAGIC, blob ! (length BACKUP_MAGIC + 1)] \<noteq> unat BACKUP_FORMAT_VERSION
      then Inl UnsupportedVersion
      else Inr ())"

record parsed_backup =
  pb_recovery_key_id :: bytes
  pb_chain_id :: u64
  pb_environment_identifier :: bytes
  pb_kem_ct :: bytes
  pb_key_refs_manifest :: bytes
  pb_payload_nonce :: bytes
  pb_header :: bytes
  pb_dem_ct :: bytes

text \<open>The cursor; the overflow check of \<open>take\<close> is subsumed by its range check, as slices are shorter than \<open>isize::MAX\<close>.\<close>

record reader =
  rd_buf :: bytes
  rd_pos :: nat

definition rd_take :: "nat \<Rightarrow> reader \<Rightarrow> backup_error + bytes \<times> reader" where
  "rd_take n r =
     (let end = rd_pos r + n in
      if end > length (rd_buf r) then Inl Truncated
      else Inr (take n (drop (rd_pos r) (rd_buf r)), r\<lparr>rd_pos := end\<rparr>))"

definition rd_take_u16 :: "reader \<Rightarrow> backup_error + u16 \<times> reader" where
  "rd_take_u16 r = res_bind (rd_take 2 r) (\<lambda>(b, r). Inr (of_nat (be_val b), r))"

definition rd_take_u32 :: "reader \<Rightarrow> backup_error + u32 \<times> reader" where
  "rd_take_u32 r = res_bind (rd_take 4 r) (\<lambda>(b, r). Inr (of_nat (be_val b), r))"

definition rd_take_u64 :: "reader \<Rightarrow> backup_error + u64 \<times> reader" where
  "rd_take_u64 r = res_bind (rd_take 8 r) (\<lambda>(b, r). Inr (of_nat (be_val b), r))"

definition rd_take_lp16 :: "reader \<Rightarrow> backup_error + bytes \<times> reader" where
  "rd_take_lp16 r = res_bind (rd_take_u16 r) (\<lambda>(n, r). rd_take (unat n) r)"

definition rd_take_lp32 :: "reader \<Rightarrow> backup_error + bytes \<times> reader" where
  "rd_take_lp32 r = res_bind (rd_take_u32 r) (\<lambda>(n, r). rd_take (unat n) r)"

definition strict_parse :: "bytes \<Rightarrow> backup_error + parsed_backup" where
  "strict_parse blob =
     res_bind (reject_unparseable_header blob) (\<lambda>_.
     res_bind (rd_take (length BACKUP_MAGIC) \<lparr>rd_buf = blob, rd_pos = 0\<rparr>) (\<lambda>(_, r).
     res_bind (rd_take_u16 r) (\<lambda>(_, r).
     res_bind (rd_take_lp16 r) (\<lambda>(recovery_key_id, r).
     res_bind (rd_take_u64 r) (\<lambda>(chain_id, r).
     res_bind (rd_take_lp16 r) (\<lambda>(environment_identifier, r).
     res_bind (rd_take ML_KEM_1024_CIPHERTEXT_LEN r) (\<lambda>(kem_ct, r).
     res_bind (rd_take_lp32 r) (\<lambda>(key_refs_manifest, r).
     res_bind (rd_take PAYLOAD_NONCE_LEN r) (\<lambda>(payload_nonce, r).
     let header_end = rd_pos r in
     res_bind (rd_take_lp32 r) (\<lambda>(dem_ct, r).
     if rd_pos r \<noteq> length blob then Inl Truncated
     else Inr \<lparr>pb_recovery_key_id = recovery_key_id, pb_chain_id = chain_id,
       pb_environment_identifier = environment_identifier, pb_kem_ct = kem_ct,
       pb_key_refs_manifest = key_refs_manifest, pb_payload_nonce = payload_nonce,
       pb_header = take header_end blob, pb_dem_ct = dem_ct\<rparr>))))))))))"

definition seal_backup_blob_with_m :: "crypto \<Rightarrow> pq_crypto \<Rightarrow> mlkem \<Rightarrow> bytes \<Rightarrow> bytes \<Rightarrow> u64 \<Rightarrow> bytes \<Rightarrow> bytes \<Rightarrow> bytes
    \<Rightarrow> bytes \<Rightarrow> backup_error + bytes" where
  "seal_backup_blob_with_m C Q K recovery_encaps_key recovery_key_id chain_id environment_identifier
       key_refs_manifest payload m =
     res_bind (encapsulate_to_recovery_key K recovery_encaps_key m) (\<lambda>(kem_ct, ss).
     let payload_key = derive_payload_key C ss;
         payload_nonce = replicate PAYLOAD_NONCE_LEN 0 in
     res_bind (build_header recovery_key_id chain_id environment_identifier kem_ct key_refs_manifest
         payload_nonce) (\<lambda>header.
     if length payload_key \<noteq> 32 then Inl Encrypt
     else
       res_bind (ok_or Encrypt (chacha_encrypt Q payload_key payload_nonce payload header)) (\<lambda>dem_ct.
       res_bind (put_lp32 dem_ct) (\<lambda>tail.
       let blob = header @ tail in
       res_bind (strict_parse blob) (\<lambda>_. Inr blob)))))"

text \<open>\<open>draw\<close> is the encapsulation message \<open>getrandom\<close> fills, \<open>None\<close> when it fails.\<close>

definition seal_backup_blob :: "crypto \<Rightarrow> pq_crypto \<Rightarrow> mlkem \<Rightarrow> bytes \<Rightarrow> bytes \<Rightarrow> u64 \<Rightarrow> bytes \<Rightarrow> bytes \<Rightarrow> bytes
    \<Rightarrow> bytes option \<Rightarrow> backup_error + bytes" where
  "seal_backup_blob C Q K recovery_encaps_key recovery_key_id chain_id environment_identifier
       key_refs_manifest payload draw =
     res_bind (ok_or Csprng draw) (\<lambda>m.
     seal_backup_blob_with_m C Q K recovery_encaps_key recovery_key_id chain_id environment_identifier
       key_refs_manifest payload m)"

definition backup_recovery_key_id :: "bytes \<Rightarrow> backup_error + bytes" where
  "backup_recovery_key_id blob = res_bind (strict_parse blob) (\<lambda>p. Inr (pb_recovery_key_id p))"

section \<open>The restore-ingress payload\<close>

definition RESTORE_INGRESS_MAGIC :: bytes where "RESTORE_INGRESS_MAGIC = ascii ''2DRIGV1'' @ [0]"
definition RESTORE_INGRESS_FORMAT_VERSION :: u16 where "RESTORE_INGRESS_FORMAT_VERSION = 1"
definition RECOVERY_KEY_ID_DOMAIN :: bytes where
  "RECOVERY_KEY_ID_DOMAIN = ascii ''2d-hsm-agent-backup-v1-recovery-key-id''"
definition RECOVERY_KEY_ID_LEN :: nat where "RECOVERY_KEY_ID_LEN = 16"

record restore_config_subset =
  rc_twod_chain_id :: u64
  rc_environment_identifier :: bytes
  rc_admin_authority_pk :: bytes
  rc_recovery_authority_pk :: bytes
  rc_monotonic_treasury_config_version :: u64
  rc_authority_epoch :: u64

record restore_ingress_data =
  ri_config :: restore_config_subset
  ri_entries :: "key_entry list"
  ri_counters :: "counter_entry list"
  ri_faucet :: faucet_state
  ri_strict_recovery_counter :: u64
  ri_audit_records :: "audit_record list"

text \<open>\<open>ciborium\<close> with \<open>serde\<close> on the payload: the encoding, and a decoded payload with the bytes it consumed.\<close>

record ingress_serde =
  ser_ingress :: "restore_ingress_data \<Rightarrow> bytes option"
  de_ingress :: "bytes \<Rightarrow> (restore_ingress_data \<times> nat) option"

definition selected_key_refs :: "keystore_body \<Rightarrow> bytes list \<Rightarrow> bytes list" where
  "selected_key_refs body requested_refs =
     map ke_key_ref (filter (\<lambda>e. ke_key_ref e \<in> set requested_refs) (kb_entries body))"

definition parse_restore_ingress :: "ingress_serde \<Rightarrow> bytes \<Rightarrow> backup_error + restore_ingress_data" where
  "parse_restore_ingress I payload =
     (if length payload < length RESTORE_INGRESS_MAGIC + 2 then Inl Truncated
      else if take (length RESTORE_INGRESS_MAGIC) payload \<noteq> RESTORE_INGRESS_MAGIC then Inl BadMagic
      else
        (let ver_off = length RESTORE_INGRESS_MAGIC in
         if be_val [payload ! ver_off, payload ! (ver_off + 1)] \<noteq> unat RESTORE_INGRESS_FORMAT_VERSION
         then Inl UnsupportedVersion
         else
           (let cbor = drop (length RESTORE_INGRESS_MAGIC + 2) payload in
            res_bind (ok_or Serialization (de_ingress I cbor)) (\<lambda>(data, position).
            if position \<noteq> length cbor then Inl Truncated else Inr data))))"

definition restore_data_of :: "keystore_body \<Rightarrow> key_entry list \<Rightarrow> restore_ingress_data" where
  "restore_data_of body entries =
     \<lparr>ri_config = \<lparr>rc_twod_chain_id = kc_twod_chain_id (kb_config body),
        rc_environment_identifier = kc_environment_identifier (kb_config body),
        rc_admin_authority_pk = kc_admin_authority_pk (kb_config body),
        rc_recovery_authority_pk = kc_recovery_authority_pk (kb_config body),
        rc_monotonic_treasury_config_version = kc_monotonic_treasury_config_version (kb_config body),
        rc_authority_epoch = kc_authority_epoch (kb_config body)\<rparr>,
      ri_entries = entries, ri_counters = kb_counters body, ri_faucet = kb_faucet body,
      ri_strict_recovery_counter = kb_strict_recovery_counter body,
      ri_audit_records = au_records (kb_audit body)\<rparr>"

definition build_restore_ingress_payload :: "ingress_serde \<Rightarrow> keystore_body \<Rightarrow> bytes list
    \<Rightarrow> backup_error + bytes" where
  "build_restore_ingress_payload I body ordered_refs =
     res_bind (res_mapM (\<lambda>r. ok_or Serialization (find (\<lambda>e. ke_key_ref e = r) (kb_entries body))) ordered_refs)
       (\<lambda>entries.
     res_bind (ok_or Serialization (ser_ingress I (restore_data_of body entries))) (\<lambda>cbor.
     let out = RESTORE_INGRESS_MAGIC @ be16 RESTORE_INGRESS_FORMAT_VERSION @ cbor in
     res_bind (parse_restore_ingress I out) (\<lambda>_. Inr out)))"

definition build_key_refs_manifest :: "ciborium \<Rightarrow> bytes list \<Rightarrow> backup_error + bytes" where
  "build_key_refs_manifest cb ordered_refs = ok_or Serialization (cb_ser cb (WArray (map WBytes ordered_refs)))"

definition derive_recovery_key_id :: "crypto \<Rightarrow> bytes \<Rightarrow> bytes" where
  "derive_recovery_key_id C recovery_encaps_key =
     take RECOVERY_KEY_ID_LEN (sha3_256 C (RECOVERY_KEY_ID_DOMAIN @ recovery_encaps_key))"

section \<open>The restore-ingress envelope\<close>

definition RESTORE_INGRESS_ENVELOPE_MAGIC :: bytes where
  "RESTORE_INGRESS_ENVELOPE_MAGIC = ascii ''2DAGRIE'' @ [0]"
definition RESTORE_INGRESS_ENVELOPE_FORMAT_VERSION :: u16 where "RESTORE_INGRESS_ENVELOPE_FORMAT_VERSION = 1"
definition RESTORE_INGRESS_KDF_DOMAIN :: bytes where
  "RESTORE_INGRESS_KDF_DOMAIN = ascii ''2d-hsm-agent-restore-ingress-v1''"
definition MANIFEST_HASH_DOMAIN :: bytes where
  "MANIFEST_HASH_DOMAIN = ascii ''2d-hsm-agent-restore-ingress-v1-manifest-hash''"
definition BACKUP_DIGEST_DOMAIN :: bytes where
  "BACKUP_DIGEST_DOMAIN = ascii ''2d-hsm-agent-restore-ingress-v1-backup-digest''"
definition SHA3_256_LEN :: nat where "SHA3_256_LEN = 32"
definition INGRESS_NONCE_LEN :: nat where "INGRESS_NONCE_LEN = 12"

definition hash_domain_tag :: "bytes \<Rightarrow> bytes" where
  "hash_domain_tag domain = domain @ [0]"

definition derive_ingress_key :: "crypto \<Rightarrow> bytes \<Rightarrow> bytes" where
  "derive_ingress_key C ss = sha3_256 C (hash_domain_tag RESTORE_INGRESS_KDF_DOMAIN @ ss)"

definition compute_manifest_hash :: "crypto \<Rightarrow> bytes \<Rightarrow> bytes" where
  "compute_manifest_hash C manifest = sha3_256 C (hash_domain_tag MANIFEST_HASH_DOMAIN @ manifest)"

definition compute_original_backup_digest :: "crypto \<Rightarrow> bytes \<Rightarrow> bytes" where
  "compute_original_backup_digest C original_backup_blob =
     sha3_256 C (hash_domain_tag BACKUP_DIGEST_DOMAIN @ original_backup_blob)"

definition build_ingress_header :: "bytes \<Rightarrow> u64 \<Rightarrow> bytes \<Rightarrow> bytes \<Rightarrow> bytes \<Rightarrow> bytes \<Rightarrow> bytes
    \<Rightarrow> backup_error + bytes" where
  "build_ingress_header dest_measurement chain_id environment_identifier manifest_hash
       original_backup_digest ingress_kem_ct ingress_nonce =
     res_bind (put_lp16 dest_measurement) (\<lambda>meas.
     res_bind (put_lp16 environment_identifier) (\<lambda>env.
     Inr (RESTORE_INGRESS_ENVELOPE_MAGIC @ be16 RESTORE_INGRESS_ENVELOPE_FORMAT_VERSION @ meas
       @ be64 chain_id @ env @ manifest_hash @ original_backup_digest @ ingress_kem_ct @ ingress_nonce)))"

record parsed_ingress_envelope =
  pi_dest_measurement :: bytes
  pi_chain_id :: u64
  pi_environment_identifier :: bytes
  pi_manifest_hash :: bytes
  pi_original_backup_digest :: bytes
  pi_ingress_kem_ct :: bytes
  pi_ingress_nonce :: bytes
  pi_header :: bytes
  pi_dem_ct :: bytes

definition strict_parse_ingress_envelope :: "bytes \<Rightarrow> backup_error + parsed_ingress_envelope" where
  "strict_parse_ingress_envelope blob =
     (if length blob < length RESTORE_INGRESS_ENVELOPE_MAGIC + 2 then Inl Truncated
      else if take (length RESTORE_INGRESS_ENVELOPE_MAGIC) blob \<noteq> RESTORE_INGRESS_ENVELOPE_MAGIC then Inl BadMagic
      else
        (let ver_off = length RESTORE_INGRESS_ENVELOPE_MAGIC in
         if be_val [blob ! ver_off, blob ! (ver_off + 1)] \<noteq> unat RESTORE_INGRESS_ENVELOPE_FORMAT_VERSION
         then Inl UnsupportedVersion
         else
     res_bind (rd_take (length RESTORE_INGRESS_ENVELOPE_MAGIC) \<lparr>rd_buf = blob, rd_pos = 0\<rparr>) (\<lambda>(_, r).
     res_bind (rd_take_u16 r) (\<lambda>(_, r).
     res_bind (rd_take_lp16 r) (\<lambda>(dest_measurement, r).
     res_bind (rd_take_u64 r) (\<lambda>(chain_id, r).
     res_bind (rd_take_lp16 r) (\<lambda>(environment_identifier, r).
     res_bind (rd_take SHA3_256_LEN r) (\<lambda>(manifest_hash, r).
     res_bind (rd_take SHA3_256_LEN r) (\<lambda>(original_backup_digest, r).
     res_bind (rd_take ML_KEM_1024_CIPHERTEXT_LEN r) (\<lambda>(ingress_kem_ct, r).
     res_bind (rd_take INGRESS_NONCE_LEN r) (\<lambda>(ingress_nonce, r).
     let header_end = rd_pos r in
     res_bind (rd_take_lp32 r) (\<lambda>(dem_ct, r).
     if rd_pos r \<noteq> length blob then Inl Truncated
     else Inr \<lparr>pi_dest_measurement = dest_measurement, pi_chain_id = chain_id,
       pi_environment_identifier = environment_identifier, pi_manifest_hash = manifest_hash,
       pi_original_backup_digest = original_backup_digest, pi_ingress_kem_ct = ingress_kem_ct,
       pi_ingress_nonce = ingress_nonce, pi_header = take header_end blob, pi_dem_ct = dem_ct\<rparr>))))))))))))"

record opened_restore_ingress =
  oi_payload :: bytes
  oi_dest_measurement :: bytes
  oi_chain_id :: u64
  oi_environment_identifier :: bytes
  oi_manifest_hash :: bytes
  oi_original_backup_digest :: bytes

text \<open>\<open>seed\<close> is the decapsulation key.\<close>

definition open_restore_ingress_envelope :: "crypto \<Rightarrow> pq_crypto \<Rightarrow> mlkem \<Rightarrow> bytes \<Rightarrow> bytes
    \<Rightarrow> backup_error + opened_restore_ingress" where
  "open_restore_ingress_envelope C Q K seed blob =
     res_bind (strict_parse_ingress_envelope blob) (\<lambda>parsed.
     let ss_prime = kem_decaps K seed (pi_ingress_kem_ct parsed);
         ingress_key = derive_ingress_key C ss_prime in
     if length ingress_key \<noteq> 32 then Inl Decrypt
     else
       res_bind (ok_or Decrypt (chacha_decrypt Q ingress_key (pi_ingress_nonce parsed) (pi_dem_ct parsed)
           (pi_header parsed))) (\<lambda>payload_bytes.
       Inr \<lparr>oi_payload = payload_bytes, oi_dest_measurement = pi_dest_measurement parsed,
         oi_chain_id = pi_chain_id parsed, oi_environment_identifier = pi_environment_identifier parsed,
         oi_manifest_hash = pi_manifest_hash parsed,
         oi_original_backup_digest = pi_original_backup_digest parsed\<rparr>))"

section \<open>Applying a restore\<close>

datatype restore_apply_error = AuditCapacityOverflow | MonotonicOverflow

text \<open>\<open>iter().max()\<close> of the sequence numbers.\<close>

definition max_seq :: "audit_record list \<Rightarrow> u64 option" where
  "max_seq rs = (case rs of [] \<Rightarrow> None | r # rs' \<Rightarrow> Some (foldl (\<lambda>m x. max m (ar_seq x)) (ar_seq r) rs'))"

definition apply_restore_to_body :: "restore_ingress_data \<Rightarrow> u32 \<Rightarrow> keystore_body
    \<Rightarrow> restore_apply_error + keystore_body" where
  "apply_restore_to_body data audit_capacity body =
     (if unat audit_capacity < length (ri_audit_records data) then Inl AuditCapacityOverflow
      else
        res_bind (case max_seq (ri_audit_records data) of
            Some m \<Rightarrow> ok_or restore_apply_error.MonotonicOverflow (checked_add_u64 m 1)
          | None \<Rightarrow> Inr 1) (\<lambda>next_seq.
        let last_exported_seq = next_seq - 1;
            highest = max (kb_strict_recovery_counter body) (ri_strict_recovery_counter data) in
        res_bind (ok_or restore_apply_error.MonotonicOverflow (checked_add_u64 highest 1)) (\<lambda>new_strict_recovery.
        Inr (body\<lparr>kb_config := (kb_config body)\<lparr>
                kc_twod_chain_id := rc_twod_chain_id (ri_config data),
                kc_environment_identifier := rc_environment_identifier (ri_config data),
                kc_admin_authority_pk := rc_admin_authority_pk (ri_config data),
                kc_recovery_authority_pk := rc_recovery_authority_pk (ri_config data),
                kc_monotonic_treasury_config_version := rc_monotonic_treasury_config_version (ri_config data),
                kc_authority_epoch := rc_authority_epoch (ri_config data)\<rparr>,
              kb_entries := ri_entries data, kb_counters := ri_counters data, kb_faucet := ri_faucet data,
              kb_audit := \<lparr>au_records = ri_audit_records data, au_capacity = audit_capacity,
                au_last_exported_seq = last_exported_seq, au_next_seq = next_seq\<rparr>,
              kb_strict_recovery_counter := new_strict_recovery\<rparr>))))"

datatype restore_verify_error =
    MeasurementMismatch | ChainMismatch | EnvironmentMismatch | BackupDigestMismatch | ManifestMismatch
  | SelectorSetMismatch | ManifestEncode

text \<open>\<open>sort_unstable\<close> and \<open>dedup\<close>.\<close>

definition ref_set :: "bytes list \<Rightarrow> bytes list" where
  "ref_set refs = remdups_adj (sort refs)"

definition verify_restore_ingress :: "crypto \<Rightarrow> ciborium \<Rightarrow> opened_restore_ingress \<Rightarrow> restore_ingress_data
    \<Rightarrow> bytes \<Rightarrow> bytes list \<Rightarrow> bytes \<Rightarrow> u64 \<Rightarrow> bytes \<Rightarrow> restore_verify_error + unit" where
  "verify_restore_ingress C cb opened data original_backup_blob requested_refs own_measurement own_chain_id own_env =
     (if oi_dest_measurement opened \<noteq> own_measurement then Inl restore_verify_error.MeasurementMismatch
      else if oi_chain_id opened \<noteq> own_chain_id then Inl ChainMismatch
      else if oi_environment_identifier opened \<noteq> own_env then Inl EnvironmentMismatch
      else if rc_twod_chain_id (ri_config data) \<noteq> own_chain_id then Inl ChainMismatch
      else if rc_environment_identifier (ri_config data) \<noteq> own_env then Inl EnvironmentMismatch
      else if oi_original_backup_digest opened \<noteq> compute_original_backup_digest C original_backup_blob
      then Inl BackupDigestMismatch
      else
        (let payload_refs = map ke_key_ref (ri_entries data) in
         res_bind (map_err (\<lambda>_. ManifestEncode) (build_key_refs_manifest cb payload_refs)) (\<lambda>manifest.
         if oi_manifest_hash opened \<noteq> compute_manifest_hash C manifest then Inl ManifestMismatch
         else if ref_set requested_refs \<noteq> ref_set payload_refs then Inl SelectorSetMismatch
         else Inr ())))"

section \<open>The restore request\<close>

record recovery_high_water =
  hw_marks_payload :: bytes
  hw_signature :: bytes

record restore_request =
  rq_ingress_envelope :: bytes
  rq_original_backup :: bytes
  rq_requested_refs :: "bytes list"
  rq_recovery_high_water :: recovery_high_water

definition rr_as_bytes :: "cbor_value \<Rightarrow> backup_error + bytes" where
  "rr_as_bytes v = (case v of CBytes b \<Rightarrow> Inr b | _ \<Rightarrow> Inl Serialization)"

definition as_ref_array :: "cbor_value \<Rightarrow> backup_error + bytes list" where
  "as_ref_array v = (case v of
     CArray a \<Rightarrow> res_mapM (\<lambda>e. case e of
        CBytes b \<Rightarrow> if length b = 32 then Inr b else Inl Serialization | _ \<Rightarrow> Inl Serialization) a
   | _ \<Rightarrow> Inl Serialization)"

fun high_water_loop :: "bytes option \<times> bytes option \<Rightarrow> (cbor_value \<times> cbor_value) list
    \<Rightarrow> backup_error + bytes option \<times> bytes option" where
  "high_water_loop acc [] = Inr acc"
| "high_water_loop (marks_payload, signature) ((k, val) # m) =
     (if k = CInteger 1 then res_bind (rr_as_bytes val) (\<lambda>b. high_water_loop (Some b, signature) m)
      else if k = CInteger 2 then
        (case val of
           CBytes sig_bytes \<Rightarrow> if length sig_bytes \<noteq> 64 then Inl Serialization
             else high_water_loop (marks_payload, Some sig_bytes) m
         | _ \<Rightarrow> Inl Serialization)
      else Inl Serialization)"

definition as_high_water :: "cbor_value \<Rightarrow> backup_error + recovery_high_water" where
  "as_high_water v = (case v of
     CMap m \<Rightarrow> res_bind (high_water_loop (None, None) m) (\<lambda>(marks_payload, signature).
       res_bind (ok_or Serialization marks_payload) (\<lambda>p.
       res_bind (ok_or Serialization signature) (\<lambda>s.
       Inr \<lparr>hw_marks_payload = p, hw_signature = s\<rparr>)))
   | _ \<Rightarrow> Inl Serialization)"

record partial_request =
  pr_ingress_envelope :: "bytes option"
  pr_original_backup :: "bytes option"
  pr_requested_refs :: "bytes list option"
  pr_recovery_high_water :: "recovery_high_water option"

fun restore_request_loop :: "partial_request \<Rightarrow> (cbor_value \<times> cbor_value) list
    \<Rightarrow> backup_error + partial_request" where
  "restore_request_loop acc [] = Inr acc"
| "restore_request_loop acc ((k, val) # m) =
     (if k = CInteger 1
      then res_bind (rr_as_bytes val) (\<lambda>b. restore_request_loop (acc\<lparr>pr_ingress_envelope := Some b\<rparr>) m)
      else if k = CInteger 2
      then res_bind (rr_as_bytes val) (\<lambda>b. restore_request_loop (acc\<lparr>pr_original_backup := Some b\<rparr>) m)
      else if k = CInteger 3
      then res_bind (as_ref_array val) (\<lambda>rs. restore_request_loop (acc\<lparr>pr_requested_refs := Some rs\<rparr>) m)
      else if k = CInteger 4
      then res_bind (as_high_water val) (\<lambda>h. restore_request_loop (acc\<lparr>pr_recovery_high_water := Some h\<rparr>) m)
      else Inl Serialization)"

definition decode_restore_request :: "(cbor_value \<times> cbor_value) list \<Rightarrow> backup_error + restore_request" where
  "decode_restore_request payload =
     res_bind (restore_request_loop \<lparr>pr_ingress_envelope = None, pr_original_backup = None,
         pr_requested_refs = None, pr_recovery_high_water = None\<rparr> payload) (\<lambda>acc.
     res_bind (ok_or Serialization (pr_requested_refs acc)) (\<lambda>requested_refs.
     if requested_refs = [] then Inl Truncated
     else
       res_bind (ok_or Serialization (pr_ingress_envelope acc)) (\<lambda>ingress_envelope.
       res_bind (ok_or Serialization (pr_original_backup acc)) (\<lambda>original_backup.
       res_bind (ok_or Serialization (pr_recovery_high_water acc)) (\<lambda>recovery_high_water.
       Inr \<lparr>rq_ingress_envelope = ingress_envelope, rq_original_backup = original_backup,
         rq_requested_refs = requested_refs, rq_recovery_high_water = recovery_high_water\<rparr>)))))"

section \<open>The authenticated high-water\<close>

datatype ac6_error = StaleBackup | WouldLower

definition high_water_dominates :: "decoded_marks \<Rightarrow> counter_entry list \<Rightarrow> bytes \<Rightarrow> bytes \<Rightarrow> bool" where
  "high_water_dominates high target_counters target_cumulative_native_spend target_lifetime_spend \<longleftrightarrow>
     list_all (\<lambda>tc. case find (\<lambda>r. dr_authority r = ce_authority tc \<and> dr_scope_class r = ce_scope_class tc
           \<and> dr_scope_target r = ce_scope_target tc) (dm_rows high) of
         Some r \<Rightarrow> dr_highest_accepted_counter r \<ge> ce_highest_accepted_counter tc | None \<Rightarrow> False) target_counters
     \<and> dm_cumulative_native_spend high \<ge> target_cumulative_native_spend
     \<and> dm_lifetime_spend high \<ge> target_lifetime_spend"

definition verify_ac6_high_water :: "keystore_body \<Rightarrow> restore_ingress_data \<Rightarrow> decoded_marks \<Rightarrow> ac6_error + unit" where
  "verify_ac6_high_water destination_pre_restore data authenticated =
     (if \<not> high_water_dominates authenticated (ri_counters data)
          (fs_cumulative_native_spend (ri_faucet data)) (fs_lifetime_spend (ri_faucet data))
      then Inl StaleBackup
      else if \<not> high_water_dominates authenticated (kb_counters destination_pre_restore)
          (fs_cumulative_native_spend (kb_faucet destination_pre_restore))
          (fs_lifetime_spend (kb_faucet destination_pre_restore))
      then Inl WouldLower
      else Inr ())"

definition RECOVERY_HIGH_WATER_DOMAIN :: bytes where
  "RECOVERY_HIGH_WATER_DOMAIN = ascii ''2d-hsm-restore-high-water-v1'' @ [0]"

datatype recovery_high_water_error = SignatureInvalid | MalformedMarks

text \<open>The lengths are cast with \<open>as u16\<close> and \<open>as u32\<close>: they wrap.\<close>

definition recovery_high_water_preimage :: "u64 \<Rightarrow> bytes \<Rightarrow> bytes \<Rightarrow> bytes \<Rightarrow> bytes" where
  "recovery_high_water_preimage chain_id env request_id marks_payload =
     RECOVERY_HIGH_WATER_DOMAIN @ be64 chain_id
     @ be16 (of_nat (length env)) @ env
     @ be16 (of_nat (length request_id)) @ request_id
     @ be32 (of_nat (length marks_payload)) @ marks_payload"

definition verify_recovery_high_water :: "crypto \<Rightarrow> recovery_high_water \<Rightarrow> u64 \<Rightarrow> bytes \<Rightarrow> bytes \<Rightarrow> bytes
    \<Rightarrow> recovery_high_water_error + decoded_marks" where
  "verify_recovery_high_water C hwm chain_id env request_id recovery_authority_pk =
     (if \<not> ed_key_ok C recovery_authority_pk then Inl SignatureInvalid
      else
        (let preimage = recovery_high_water_preimage chain_id env request_id (hw_marks_payload hwm) in
         if \<not> ed_verify_strict C recovery_authority_pk preimage (hw_signature hwm) then Inl SignatureInvalid
         else ok_or MalformedMarks (strict_decode_marks_payload (hw_marks_payload hwm) MAX_COUNTER_ENTRIES)))"

definition adopt_ac6_high_water :: "decoded_marks \<Rightarrow> keystore_body \<Rightarrow> keystore_body" where
  "adopt_ac6_high_water authenticated candidate =
     (let env = kc_environment_identifier (kb_config candidate) in
      candidate\<lparr>kb_counters := map (\<lambda>r. \<lparr>ce_authority = dr_authority r, ce_environment_identifier = env,
            ce_scope_class = dr_scope_class r, ce_scope_target = dr_scope_target r,
            ce_highest_accepted_counter = dr_highest_accepted_counter r\<rparr>) (dm_rows authenticated),
          kb_faucet := (kb_faucet candidate)\<lparr>
            fs_cumulative_native_spend := dm_cumulative_native_spend authenticated,
            fs_lifetime_spend := dm_lifetime_spend authenticated\<rparr>,
          kb_strict_recovery_counter :=
            max (kb_strict_recovery_counter candidate) (dm_strict_recovery_counter authenticated)\<rparr>)"

section \<open>Framing\<close>

text \<open>A reader that has read \<open>pre\<close> and has \<open>s\<close> left.\<close>

definition rd_at :: "bytes \<Rightarrow> bytes \<Rightarrow> reader" where
  "rd_at pre s = \<lparr>rd_buf = pre @ s, rd_pos = length pre\<rparr>"

lemma rd_at_simps [simp]: "rd_buf (rd_at pre s) = pre @ s" "rd_pos (rd_at pre s) = length pre"
  by (simp_all add: rd_at_def)

lemma rd_start: "\<lparr>rd_buf = bs, rd_pos = 0\<rparr> = rd_at [] bs"
  by (simp add: rd_at_def)

lemma rd_take_at: "rd_take n (rd_at pre s)
    = (if n \<le> length s then Inr (take n s, rd_at (pre @ take n s) (drop n s)) else Inl Truncated)"
  by (simp add: rd_take_def rd_at_def Let_def)

text \<open>What a read promises: it succeeds exactly on the encoding of a valid value and stops after it.\<close>

locale reader_codec =
  fixes rd :: "reader \<Rightarrow> backup_error + 'a \<times> reader"
    and enc :: "'a \<Rightarrow> bytes"
    and ok :: "'a \<Rightarrow> bool"
  assumes rd_enc: "ok x \<Longrightarrow> rd (rd_at pre (enc x @ s)) = Inr (x, rd_at (pre @ enc x) s)"
    and rd_inv: "rd (rd_at pre s) = Inr (x, r) \<Longrightarrow> ok x \<and> (\<exists>t. s = enc x @ t \<and> r = rd_at (pre @ enc x) t)"
begin

lemma rd_last: "ok x \<Longrightarrow> rd (rd_at pre (enc x)) = Inr (x, rd_at (pre @ enc x) [])"
  using rd_enc [of x pre "[]"] by simp

lemma bind_iff: "res_bind (rd (rd_at pre s)) f = Inr y
    \<longleftrightarrow> (\<exists>x t. ok x \<and> s = enc x @ t \<and> f (x, rd_at (pre @ enc x) t) = Inr y)"
proof
  assume "res_bind (rd (rd_at pre s)) f = Inr y"
  then obtain x r where "rd (rd_at pre s) = Inr (x, r)" "f (x, r) = Inr y" by (auto simp: res_simps)
  then show "\<exists>x t. ok x \<and> s = enc x @ t \<and> f (x, rd_at (pre @ enc x) t) = Inr y"
    using rd_inv by blast
qed (auto simp: rd_enc)

end

sublocale reader_codec \<subseteq> prefix_codec enc "\<lambda>bs. case rd (rd_at [] bs) of Inl _ \<Rightarrow> None | Inr (x, r) \<Rightarrow> Some (x, drop (rd_pos r) (rd_buf r))" ok
  by unfold_locales (simp add: rd_enc)

definition enc_lp16 :: "bytes \<Rightarrow> bytes" where "enc_lp16 x = be16 (of_nat (length x)) @ x"
definition enc_lp32 :: "bytes \<Rightarrow> bytes" where "enc_lp32 x = be32 (of_nat (length x)) @ x"

lemma put_lp_Inr [res_simps]:
  "put_lp16 x = Inr y \<longleftrightarrow> length x < 65536 \<and> y = enc_lp16 x"
  "put_lp32 x = Inr y \<longleftrightarrow> length x < 4294967296 \<and> y = enc_lp32 x"
  by (auto simp: put_lp16_def put_lp32_def enc_lp16_def enc_lp32_def)

lemma be_of_val:
  "length b = 2 \<Longrightarrow> be16 (of_nat (be_val b)) = b" "length b = 4 \<Longrightarrow> be32 (of_nat (be_val b)) = b"
  "length b = 8 \<Longrightarrow> be64 (of_nat (be_val b)) = b"
  using be_val_less [of b] be_bytes_be_val [of b]
  by (auto simp: be16_def be32_def be64_def unat_of_nat take_bit_nat_eq_self)

interpretation rd_fixed: reader_codec "rd_take n" "\<lambda>x. x" "\<lambda>x. length x = n" for n
proof unfold_locales
  fix pre s and x :: bytes and r
  assume "rd_take n (rd_at pre s) = Inr (x, r)"
  then have "n \<le> length s" "x = take n s" "r = rd_at (pre @ take n s) (drop n s)"
    by (auto simp: rd_take_at split: if_splits)
  then show "length x = n \<and> (\<exists>t. s = x @ t \<and> r = rd_at (pre @ x) t)"
    by (auto intro!: exI [of _ "drop n s"])
qed (simp add: rd_take_at)

interpretation rd_u16: reader_codec rd_take_u16 be16 "\<lambda>_. True"
proof unfold_locales
  show "rd_take_u16 (rd_at pre (be16 x @ s)) = Inr (x, rd_at (pre @ be16 x) s)" for x pre s
    by (simp add: rd_take_u16_def rd_take_at)
qed (auto simp: rd_take_u16_def rd_fixed.bind_iff be_of_val)

interpretation rd_u32: reader_codec rd_take_u32 be32 "\<lambda>_. True"
proof unfold_locales
  show "rd_take_u32 (rd_at pre (be32 x @ s)) = Inr (x, rd_at (pre @ be32 x) s)" for x pre s
    by (simp add: rd_take_u32_def rd_take_at)
qed (auto simp: rd_take_u32_def rd_fixed.bind_iff be_of_val)

interpretation rd_u64: reader_codec rd_take_u64 be64 "\<lambda>_. True"
proof unfold_locales
  show "rd_take_u64 (rd_at pre (be64 x @ s)) = Inr (x, rd_at (pre @ be64 x) s)" for x pre s
    by (simp add: rd_take_u64_def rd_take_at)
qed (auto simp: rd_take_u64_def rd_fixed.bind_iff be_of_val)

lemma of_nat_unat_len:
  "length x = unat (n :: u16) \<Longrightarrow> of_nat (length x) = n" "length x = unat (k :: u32) \<Longrightarrow> of_nat (length x) = k"
  by simp_all

interpretation rd_lp16: reader_codec rd_take_lp16 enc_lp16 "\<lambda>x. length x < 65536"
proof unfold_locales
  fix pre s x
  assume "length (x :: bytes) < 65536"
  then show "rd_take_lp16 (rd_at pre (enc_lp16 x @ s)) = Inr (x, rd_at (pre @ enc_lp16 x) s)"
    by (simp add: rd_take_lp16_def enc_lp16_def rd_u16.rd_enc rd_take_at unat_of_nat take_bit_nat_eq_self)
next
  fix pre s x r
  assume "rd_take_lp16 (rd_at pre s) = Inr (x, r)"
  then obtain n t where n: "s = be16 n @ t" and "rd_take (unat n) (rd_at (pre @ be16 n) t) = Inr (x, r)"
    by (auto simp: rd_take_lp16_def rd_u16.bind_iff)
  then have x: "length x = unat n" "t = x @ drop (length x) t" "r = rd_at ((pre @ be16 n) @ x) (drop (length x) t)"
    by (auto dest!: rd_fixed.rd_inv)
  moreover have "unat n < 65536" using unat_less_word [of n] by simp
  ultimately show "length x < 65536 \<and> (\<exists>t. s = enc_lp16 x @ t \<and> r = rd_at (pre @ enc_lp16 x) t)"
    using n by (auto simp: enc_lp16_def of_nat_unat_len)
qed

interpretation rd_lp32: reader_codec rd_take_lp32 enc_lp32 "\<lambda>x. length x < 4294967296"
proof unfold_locales
  fix pre s x
  assume "length (x :: bytes) < 4294967296"
  then show "rd_take_lp32 (rd_at pre (enc_lp32 x @ s)) = Inr (x, rd_at (pre @ enc_lp32 x) s)"
    by (simp add: rd_take_lp32_def enc_lp32_def rd_u32.rd_enc rd_take_at unat_of_nat take_bit_nat_eq_self)
next
  fix pre s x r
  assume "rd_take_lp32 (rd_at pre s) = Inr (x, r)"
  then obtain n t where n: "s = be32 n @ t" and "rd_take (unat n) (rd_at (pre @ be32 n) t) = Inr (x, r)"
    by (auto simp: rd_take_lp32_def rd_u32.bind_iff)
  then have x: "length x = unat n" "t = x @ drop (length x) t" "r = rd_at ((pre @ be32 n) @ x) (drop (length x) t)"
    by (auto dest!: rd_fixed.rd_inv)
  moreover have "unat n < 4294967296" using unat_less_word [of n] by simp
  ultimately show "length x < 4294967296 \<and> (\<exists>t. s = enc_lp32 x @ t \<and> r = rd_at (pre @ enc_lp32 x) t)"
    using n by (auto simp: enc_lp32_def of_nat_unat_len)
qed

text \<open>The three formats open with a magic and a version.\<close>

lemma magic_version_iff:
  assumes "length magic = 8"
  shows "(10 \<le> length blob \<and> take 8 blob = magic \<and> be_val [blob ! 8, blob ! 9] = unat (v :: u16))
    \<longleftrightarrow> (\<exists>rest. blob = magic @ be16 v @ rest)"
proof
  assume a: "10 \<le> length blob \<and> take 8 blob = magic \<and> be_val [blob ! 8, blob ! 9] = unat v"
  then have "be16 v = [blob ! 8, blob ! 9]"
    using be_of_val(1) [of "[blob ! 8, blob ! 9]"] a by (simp del: be_val.simps)
  moreover have "drop 8 blob = blob ! 8 # blob ! 9 # drop 10 blob"
    using a Cons_nth_drop_Suc [of 8 blob] Cons_nth_drop_Suc [of 9 blob] by simp
  ultimately have "blob = magic @ be16 v @ drop 10 blob"
    using a append_take_drop_id [of 8 blob] by simp
  then show "\<exists>rest. blob = magic @ be16 v @ rest" by blast
next
  assume "\<exists>rest. blob = magic @ be16 v @ rest"
  then obtain rest where b: "blob = magic @ be16 v @ rest" by blast
  obtain x y where xy: "be16 v = [x, y]"
    using length_be16 [of v] by (auto simp only: numeral_2_eq_2 length_Suc_conv length_0_conv)
  have "be_val [x, y] = unat v" using xy be_val_be16 [of v] by simp
  moreover have "blob ! 8 = x" "blob ! 9 = y" using assms by (simp_all add: b xy nth_append)
  ultimately show "10 \<le> length blob \<and> take 8 blob = magic \<and> be_val [blob ! 8, blob ! 9] = unat v"
    using assms by (simp add: b xy del: be_val.simps)
qed

definition enc_header :: "bytes \<Rightarrow> u64 \<Rightarrow> bytes \<Rightarrow> bytes \<Rightarrow> bytes \<Rightarrow> bytes \<Rightarrow> bytes" where
  "enc_header rid chain env ct manifest nonce =
     BACKUP_MAGIC @ be16 BACKUP_FORMAT_VERSION @ enc_lp16 rid @ be64 chain @ enc_lp16 env @ ct
       @ enc_lp32 manifest @ nonce"

definition enc_ingress_header :: "bytes \<Rightarrow> u64 \<Rightarrow> bytes \<Rightarrow> bytes \<Rightarrow> bytes \<Rightarrow> bytes \<Rightarrow> bytes \<Rightarrow> bytes" where
  "enc_ingress_header meas chain env mh bd ct nonce =
     RESTORE_INGRESS_ENVELOPE_MAGIC @ be16 RESTORE_INGRESS_ENVELOPE_FORMAT_VERSION @ enc_lp16 meas
       @ be64 chain @ enc_lp16 env @ mh @ bd @ ct @ nonce"

lemma magic_lens [simp]: "length BACKUP_MAGIC = 8" "length RESTORE_INGRESS_ENVELOPE_MAGIC = 8"
  "length RESTORE_INGRESS_MAGIC = 8"
  by (simp_all add: BACKUP_MAGIC_def RESTORE_INGRESS_ENVELOPE_MAGIC_def RESTORE_INGRESS_MAGIC_def)

lemma reject_iff: "reject_unparseable_header blob = Inr u
    \<longleftrightarrow> (\<exists>rest. blob = BACKUP_MAGIC @ be16 BACKUP_FORMAT_VERSION @ rest)"
  using magic_version_iff [of BACKUP_MAGIC blob BACKUP_FORMAT_VERSION]
  by (auto simp: reject_unparseable_header_def not_less)

definition parsed_ok :: "parsed_backup \<Rightarrow> bool" where
  "parsed_ok p \<longleftrightarrow> length (pb_recovery_key_id p) < 65536 \<and> length (pb_environment_identifier p) < 65536
     \<and> length (pb_kem_ct p) = 1568 \<and> length (pb_key_refs_manifest p) < 4294967296
     \<and> length (pb_payload_nonce p) = 12 \<and> length (pb_dem_ct p) < 4294967296
     \<and> pb_header p = enc_header (pb_recovery_key_id p) (pb_chain_id p) (pb_environment_identifier p) (pb_kem_ct p)
         (pb_key_refs_manifest p) (pb_payload_nonce p)"

text \<open>The parser accepts exactly the blobs the sealer can write, and returns their fields.\<close>

lemma strict_parse_iff:
  "strict_parse blob = Inr p \<longleftrightarrow> parsed_ok p \<and> blob = pb_header p @ enc_lp32 (pb_dem_ct p)"
proof
  assume a: "strict_parse blob = Inr p"
  then obtain rest where b: "blob = BACKUP_MAGIC @ be16 BACKUP_FORMAT_VERSION @ rest"
    by (cases "reject_unparseable_header blob") (auto simp: strict_parse_def reject_iff)
  then have rej: "reject_unparseable_header blob = Inr ()" by (simp add: reject_iff)
  obtain mg v rid chain env ct man nonce dem where f: "length mg = 8"
      "blob = mg @ be16 v @ enc_lp16 rid @ be64 chain @ enc_lp16 env @ ct @ enc_lp32 man @ nonce @ enc_lp32 dem"
      "length rid < 65536" "length env < 65536" "length ct = 1568" "length man < 4294967296" "length nonce = 12"
      "length dem < 4294967296"
    and p: "p = \<lparr>pb_recovery_key_id = rid, pb_chain_id = chain, pb_environment_identifier = env, pb_kem_ct = ct,
       pb_key_refs_manifest = man, pb_payload_nonce = nonce,
       pb_header = take (length (mg @ be16 v @ enc_lp16 rid @ be64 chain @ enc_lp16 env @ ct @ enc_lp32 man @ nonce)) blob,
       pb_dem_ct = dem\<rparr>"
    using a unfolding strict_parse_def rd_start
    by (simp add: rej rd_fixed.bind_iff rd_u16.bind_iff rd_lp16.bind_iff rd_u64.bind_iff rd_lp32.bind_iff Let_def
        ML_KEM_1024_CIPHERTEXT_LEN_def PAYLOAD_NONCE_LEN_def if_Inl_eq_Inr cong: if_cong) (elim exE conjE, simp)
  have "mg = BACKUP_MAGIC" "be16 v = be16 BACKUP_FORMAT_VERSION"
    using f(1,2) b by simp_all
  then show "parsed_ok p \<and> blob = pb_header p @ enc_lp32 (pb_dem_ct p)"
    using f by (simp add: p parsed_ok_def enc_header_def)
next
  assume "parsed_ok p \<and> blob = pb_header p @ enc_lp32 (pb_dem_ct p)"
  then have ok: "parsed_ok p" and blob: "blob = BACKUP_MAGIC @ be16 BACKUP_FORMAT_VERSION
     @ enc_lp16 (pb_recovery_key_id p) @ be64 (pb_chain_id p) @ enc_lp16 (pb_environment_identifier p) @ pb_kem_ct p
     @ enc_lp32 (pb_key_refs_manifest p) @ pb_payload_nonce p @ enc_lp32 (pb_dem_ct p)"
    by (auto simp: parsed_ok_def enc_header_def)
  have "reject_unparseable_header blob = Inr ()" unfolding reject_iff blob by simp
  then show "strict_parse blob = Inr p"
    using ok unfolding strict_parse_def rd_start blob parsed_ok_def
    by (cases p) (simp add: rd_fixed.rd_enc rd_u16.rd_enc rd_lp16.rd_enc rd_u64.rd_enc rd_lp32.rd_enc rd_lp32.rd_last
      ML_KEM_1024_CIPHERTEXT_LEN_def PAYLOAD_NONCE_LEN_def Let_def enc_header_def)
qed

definition parsed_ingress_ok :: "parsed_ingress_envelope \<Rightarrow> bool" where
  "parsed_ingress_ok p \<longleftrightarrow> length (pi_dest_measurement p) < 65536 \<and> length (pi_environment_identifier p) < 65536
     \<and> length (pi_manifest_hash p) = 32 \<and> length (pi_original_backup_digest p) = 32
     \<and> length (pi_ingress_kem_ct p) = 1568 \<and> length (pi_ingress_nonce p) = 12 \<and> length (pi_dem_ct p) < 4294967296
     \<and> pi_header p = enc_ingress_header (pi_dest_measurement p) (pi_chain_id p) (pi_environment_identifier p)
         (pi_manifest_hash p) (pi_original_backup_digest p) (pi_ingress_kem_ct p) (pi_ingress_nonce p)"

lemmas ingress_lens = ML_KEM_1024_CIPHERTEXT_LEN_def INGRESS_NONCE_LEN_def SHA3_256_LEN_def

lemma ingress_guard_iff:
  "(if length blob < length RESTORE_INGRESS_ENVELOPE_MAGIC + 2 then Inl Truncated
    else if take (length RESTORE_INGRESS_ENVELOPE_MAGIC) blob \<noteq> RESTORE_INGRESS_ENVELOPE_MAGIC then Inl BadMagic
    else (let ver_off = length RESTORE_INGRESS_ENVELOPE_MAGIC in
      if be_val [blob ! ver_off, blob ! (ver_off + 1)] \<noteq> unat RESTORE_INGRESS_ENVELOPE_FORMAT_VERSION
      then Inl UnsupportedVersion else m)) = Inr p
   \<longleftrightarrow> (\<exists>rest. blob = RESTORE_INGRESS_ENVELOPE_MAGIC @ be16 RESTORE_INGRESS_ENVELOPE_FORMAT_VERSION @ rest) \<and> m = Inr p"
  using magic_version_iff [of RESTORE_INGRESS_ENVELOPE_MAGIC blob RESTORE_INGRESS_ENVELOPE_FORMAT_VERSION]
  by (auto simp: not_less Let_def simp del: be_val.simps)

lemma strict_parse_ingress_iff:
  "strict_parse_ingress_envelope blob = Inr p
    \<longleftrightarrow> parsed_ingress_ok p \<and> blob = pi_header p @ enc_lp32 (pi_dem_ct p)"
proof
  assume a: "strict_parse_ingress_envelope blob = Inr p"
  note g = a [unfolded strict_parse_ingress_envelope_def ingress_guard_iff rd_start]
  obtain rest where b: "blob = RESTORE_INGRESS_ENVELOPE_MAGIC @ be16 RESTORE_INGRESS_ENVELOPE_FORMAT_VERSION @ rest"
    using g by blast
  obtain mg v meas chain env mh bd ct nonce dem where f: "length mg = 8"
      "blob = mg @ be16 v @ enc_lp16 meas @ be64 chain @ enc_lp16 env @ mh @ bd @ ct @ nonce @ enc_lp32 dem"
      "length meas < 65536" "length env < 65536" "length mh = 32" "length bd = 32" "length ct = 1568" "length nonce = 12"
      "length dem < 4294967296"
    and p: "p = \<lparr>pi_dest_measurement = meas, pi_chain_id = chain, pi_environment_identifier = env,
       pi_manifest_hash = mh, pi_original_backup_digest = bd, pi_ingress_kem_ct = ct, pi_ingress_nonce = nonce,
       pi_header = take (length (mg @ be16 v @ enc_lp16 meas @ be64 chain @ enc_lp16 env @ mh @ bd @ ct @ nonce)) blob,
       pi_dem_ct = dem\<rparr>"
    using conjunct2 [OF g]
    by (simp add: rd_fixed.bind_iff rd_u16.bind_iff rd_lp16.bind_iff rd_u64.bind_iff rd_lp32.bind_iff Let_def
        ingress_lens if_Inl_eq_Inr cong: if_cong) (elim exE conjE, simp)
  have "mg = RESTORE_INGRESS_ENVELOPE_MAGIC" "be16 v = be16 RESTORE_INGRESS_ENVELOPE_FORMAT_VERSION"
    using f(1,2) b by simp_all
  then show "parsed_ingress_ok p \<and> blob = pi_header p @ enc_lp32 (pi_dem_ct p)"
    using f by (simp add: p parsed_ingress_ok_def enc_ingress_header_def)
next
  assume "parsed_ingress_ok p \<and> blob = pi_header p @ enc_lp32 (pi_dem_ct p)"
  then have ok: "parsed_ingress_ok p" and blob: "blob = RESTORE_INGRESS_ENVELOPE_MAGIC
     @ be16 RESTORE_INGRESS_ENVELOPE_FORMAT_VERSION @ enc_lp16 (pi_dest_measurement p) @ be64 (pi_chain_id p)
     @ enc_lp16 (pi_environment_identifier p) @ pi_manifest_hash p @ pi_original_backup_digest p @ pi_ingress_kem_ct p
     @ pi_ingress_nonce p @ enc_lp32 (pi_dem_ct p)"
    by (auto simp: parsed_ingress_ok_def enc_ingress_header_def)
  show "strict_parse_ingress_envelope blob = Inr p"
    unfolding strict_parse_ingress_envelope_def ingress_guard_iff rd_start
    using ok unfolding blob parsed_ingress_ok_def
    by (cases p) (simp add: rd_fixed.rd_enc rd_u16.rd_enc rd_lp16.rd_enc rd_u64.rd_enc rd_lp32.rd_enc rd_lp32.rd_last
      ingress_lens Let_def enc_ingress_header_def)
qed

text \<open>The operator's offline re-wrap (\<open>seal_restore_ingress_envelope_with_m\<close>), which the enclave opens.\<close>

definition seal_restore_ingress_envelope_with_m :: "crypto \<Rightarrow> pq_crypto \<Rightarrow> mlkem \<Rightarrow> bytes \<Rightarrow> bytes \<Rightarrow> u64 \<Rightarrow> bytes
    \<Rightarrow> bytes \<Rightarrow> bytes \<Rightarrow> bytes \<Rightarrow> bytes \<Rightarrow> backup_error + bytes" where
  "seal_restore_ingress_envelope_with_m C Q K dest_ephemeral_encaps_key dest_measurement chain_id
       environment_identifier manifest_hash original_backup_digest payload m =
     res_bind (encapsulate_to_recovery_key K dest_ephemeral_encaps_key m) (\<lambda>(ingress_kem_ct, ss_prime).
     let ingress_key = derive_ingress_key C ss_prime;
         ingress_nonce = replicate INGRESS_NONCE_LEN 0 in
     res_bind (build_ingress_header dest_measurement chain_id environment_identifier manifest_hash
         original_backup_digest ingress_kem_ct ingress_nonce) (\<lambda>header.
     if length ingress_key \<noteq> 32 then Inl Encrypt
     else
       res_bind (ok_or Encrypt (chacha_encrypt Q ingress_key ingress_nonce payload header)) (\<lambda>dem_ct.
       res_bind (put_lp32 dem_ct) (\<lambda>tail.
       let blob = header @ tail in
       res_bind (strict_parse_ingress_envelope blob) (\<lambda>_. Inr blob)))))"

section \<open>Documented behaviour of the parameters\<close>

text \<open>Decapsulation inverts encapsulation to the same seed's key, and the sizes are those of ML-KEM-1024.\<close>

definition kem_correct :: "mlkem \<Rightarrow> bool" where
  "kem_correct K \<longleftrightarrow> (\<forall>ek m. length (fst (kem_encaps K ek m)) = 1568)
     \<and> (\<forall>seed. length seed = 64 \<longrightarrow> length (kem_ek K seed) = 1568 \<and> kem_ek_ok K (kem_ek K seed)
          \<and> (\<forall>m. kem_decaps K seed (fst (kem_encaps K (kem_ek K seed) m)) = snd (kem_encaps K (kem_ek K seed) m)))"

definition ingress_serde_correct :: "ingress_serde \<Rightarrow> bool" where
  "ingress_serde_correct I \<longleftrightarrow> (\<forall>d x. ser_ingress I d = Some x \<longrightarrow> de_ingress I x = Some (d, length x))"

section \<open>Round trips\<close>

text \<open>The offline recovery key opens what the enclave sealed, under exactly the header it was sealed with.\<close>

definition opens_to :: "crypto \<Rightarrow> pq_crypto \<Rightarrow> mlkem \<Rightarrow> bytes \<Rightarrow> parsed_backup \<Rightarrow> bytes \<Rightarrow> bool" where
  "opens_to C Q K seed p payload \<longleftrightarrow> chacha_decrypt Q (derive_payload_key C (kem_decaps K seed (pb_kem_ct p)))
     (pb_payload_nonce p) (pb_dem_ct p) (pb_header p) = Some payload"

lemma seal_backup_blob_opens:
  assumes K: "kem_correct K" and Q: "aead12_correct Q" and "length seed = 64"
    and seal: "seal_backup_blob_with_m C Q K (kem_ek K seed) rid chain env manifest payload m = Inr blob"
  shows "\<exists>p. strict_parse blob = Inr p \<and> pb_recovery_key_id p = rid \<and> pb_chain_id p = chain
    \<and> pb_environment_identifier p = env \<and> pb_key_refs_manifest p = manifest \<and> opens_to C Q K seed p payload"
proof -
  obtain ct ss where e: "kem_encaps K (kem_ek K seed) m = (ct, ss)" by (cases "kem_encaps K (kem_ek K seed) m")
  have ct: "length ct = 1568" "kem_decaps K seed ct = ss"
    using K assms(3) e unfolding kem_correct_def by (metis fst_conv, metis fst_conv snd_conv)
  let ?h = "enc_header rid chain env ct manifest (replicate 12 0)"
  obtain dem where enc: "chacha_encrypt Q (derive_payload_key C ss) (replicate 12 0) payload ?h = Some dem"
    and lens: "length rid < 65536" "length env < 65536" "length manifest < 4294967296" "length dem < 4294967296"
    and blob: "blob = ?h @ enc_lp32 dem"
    using seal e
    by (auto simp: seal_backup_blob_with_m_def encapsulate_to_recovery_key_def build_header_def Let_def res_simps
        PAYLOAD_NONCE_LEN_def enc_header_def split: if_splits)
  let ?p = "\<lparr>pb_recovery_key_id = rid, pb_chain_id = chain, pb_environment_identifier = env, pb_kem_ct = ct,
    pb_key_refs_manifest = manifest, pb_payload_nonce = replicate 12 0, pb_header = ?h, pb_dem_ct = dem\<rparr>"
  have "strict_parse blob = Inr ?p"
    using lens ct(1) by (simp add: strict_parse_iff parsed_ok_def blob)
  moreover have "opens_to C Q K seed ?p payload"
    using Q enc ct(2) unfolding aead12_correct_def opens_to_def by fastforce
  ultimately show ?thesis by (intro exI [of _ ?p]) simp
qed

lemma open_sealed_ingress:
  assumes K: "kem_correct K" and Q: "aead12_correct Q" and seed: "length seed = 64" and len: "length mh = 32" "length bd = 32"
    and seal: "seal_restore_ingress_envelope_with_m C Q K (kem_ek K seed) meas chain env mh bd payload m = Inr blob"
  shows "open_restore_ingress_envelope C Q K seed blob = Inr \<lparr>oi_payload = payload, oi_dest_measurement = meas,
    oi_chain_id = chain, oi_environment_identifier = env, oi_manifest_hash = mh, oi_original_backup_digest = bd\<rparr>"
proof -
  obtain ct ss where e: "kem_encaps K (kem_ek K seed) m = (ct, ss)" by (cases "kem_encaps K (kem_ek K seed) m")
  have ct: "length ct = 1568" "kem_decaps K seed ct = ss"
    using K seed e unfolding kem_correct_def by (metis fst_conv, metis fst_conv snd_conv)
  let ?h = "enc_ingress_header meas chain env mh bd ct (replicate 12 0)"
  obtain dem where enc: "chacha_encrypt Q (derive_ingress_key C ss) (replicate 12 0) payload ?h = Some dem"
    and lens: "length meas < 65536" "length env < 65536" "length dem < 4294967296" "length (derive_ingress_key C ss) = 32"
    and blob: "blob = ?h @ enc_lp32 dem"
    using seal e
    by (auto simp: seal_restore_ingress_envelope_with_m_def encapsulate_to_recovery_key_def build_ingress_header_def
        Let_def res_simps INGRESS_NONCE_LEN_def enc_ingress_header_def split: if_splits)
  let ?p = "\<lparr>pi_dest_measurement = meas, pi_chain_id = chain, pi_environment_identifier = env, pi_manifest_hash = mh,
    pi_original_backup_digest = bd, pi_ingress_kem_ct = ct, pi_ingress_nonce = replicate 12 0, pi_header = ?h,
    pi_dem_ct = dem\<rparr>"
  have "strict_parse_ingress_envelope blob = Inr ?p"
    using lens ct(1) len by (simp add: strict_parse_ingress_iff parsed_ingress_ok_def blob)
  moreover have "chacha_decrypt Q (derive_ingress_key C ss) (replicate 12 0) dem ?h = Some payload"
    using Q enc unfolding aead12_correct_def by blast
  ultimately show ?thesis using ct(2) lens(4) by (simp add: open_restore_ingress_envelope_def Let_def)
qed

section \<open>The payload\<close>

lemma parse_built_payload:
  assumes "ingress_serde_correct I" "ser_ingress I d = Some x"
  shows "parse_restore_ingress I (RESTORE_INGRESS_MAGIC @ be16 RESTORE_INGRESS_FORMAT_VERSION @ x) = Inr d"
proof -
  let ?p = "RESTORE_INGRESS_MAGIC @ be16 RESTORE_INGRESS_FORMAT_VERSION @ x"
  have "10 \<le> length ?p \<and> take 8 ?p = RESTORE_INGRESS_MAGIC
      \<and> be_val [?p ! 8, ?p ! 9] = unat RESTORE_INGRESS_FORMAT_VERSION"
    unfolding magic_version_iff [OF magic_lens(3)] by blast
  then have "parse_restore_ingress I ?p = res_bind (ok_or Serialization (de_ingress I x)) (\<lambda>(data, position).
      if position \<noteq> length x then Inl Truncated else Inr data)"
    by (simp add: parse_restore_ingress_def Let_def del: be_val.simps)
  then show ?thesis using assms by (simp add: ingress_serde_correct_def)
qed

lemma find_key_ref:
  assumes "find (\<lambda>e. ke_key_ref e = r) es = Some e"
  shows "e \<in> set es" "ke_key_ref e = r"
  using assms by (auto simp: find_Some_iff)

lemma build_payload_Inr:
  assumes "build_restore_ingress_payload I body refs = Inr out"
  shows "\<exists>es x. list_all2 (\<lambda>r e. find (\<lambda>e. ke_key_ref e = r) (kb_entries body) = Some e) refs es
    \<and> ser_ingress I (restore_data_of body es) = Some x
    \<and> out = RESTORE_INGRESS_MAGIC @ be16 RESTORE_INGRESS_FORMAT_VERSION @ x"
  using assms by (auto simp: build_restore_ingress_payload_def res_mapM_Inr res_bind_eq_Inr ok_or_eq_Inr Let_def)

lemma selected_entries:
  assumes "distinct (map ke_key_ref (kb_entries body))"
    and "list_all2 (\<lambda>r e. find (\<lambda>e. ke_key_ref e = r) (kb_entries body) = Some e) (selected_key_refs body req) es"
  shows "es = filter (\<lambda>e. ke_key_ref e \<in> set req) (kb_entries body)"
proof -
  have "map ke_key_ref es = selected_key_refs body req"
    using assms(2) by (induction rule: list_all2_induct) (auto dest: find_key_ref)
  then have refs: "map ke_key_ref es = map ke_key_ref (filter (\<lambda>e. ke_key_ref e \<in> set req) (kb_entries body))"
    by (simp add: selected_key_refs_def)
  have "set es \<subseteq> set (kb_entries body)"
    using assms(2) by (induction rule: list_all2_induct) (auto dest: find_key_ref)
  moreover have "inj_on ke_key_ref (set (kb_entries body))" using assms(1) by (simp add: distinct_map)
  ultimately have "inj_on ke_key_ref (set es \<union> set (filter (\<lambda>e. ke_key_ref e \<in> set req) (kb_entries body)))"
    by (auto intro: inj_on_subset)
  then show ?thesis using refs by (simp add: inj_on_map_eq_map)
qed

lemma manifest_binds:
  assumes "ciborium_correct cb" "build_key_refs_manifest cb xs = Inr m" "build_key_refs_manifest cb ys = Inr m"
  shows "xs = ys"
proof -
  have "WArray (map WBytes xs) = WArray (map WBytes ys)"
    using assms unfolding ciborium_correct_def build_key_refs_manifest_def ok_or_eq_Inr
    by (metis option.inject prod.inject)
  then show ?thesis by (simp add: inj_map_eq_map inj_def)
qed

section \<open>What the checks establish\<close>

lemma strict_remdups_adj: "sorted (xs :: bytes list) \<Longrightarrow> sorted_wrt (<) (remdups_adj xs)"
  by (induction xs rule: remdups_adj.induct) (auto simp: less_le intro: order_trans)

lemma ref_set_eq_iff: "ref_set xs = ref_set ys \<longleftrightarrow> set xs = set ys"
proof
  assume "ref_set xs = ref_set ys"
  then have "set (ref_set xs) = set (ref_set ys)" by simp
  then show "set xs = set ys" by (simp add: ref_set_def)
next
  have s: "sorted_wrt (<) (ref_set zs)" for zs
    unfolding ref_set_def by (rule strict_remdups_adj) simp
  assume "set xs = set ys"
  then have "set (ref_set xs) = set (ref_set ys)" by (simp add: ref_set_def)
  then show "ref_set xs = ref_set ys" using s by (metis strict_sorted_equal)
qed

lemma verify_restore_ingress_iff:
  "verify_restore_ingress C cb opened data backup refs meas chain env = Inr () \<longleftrightarrow>
     oi_dest_measurement opened = meas \<and> oi_chain_id opened = chain \<and> oi_environment_identifier opened = env
     \<and> rc_twod_chain_id (ri_config data) = chain \<and> rc_environment_identifier (ri_config data) = env
     \<and> oi_original_backup_digest opened = compute_original_backup_digest C backup
     \<and> (\<exists>manifest. build_key_refs_manifest cb (map ke_key_ref (ri_entries data)) = Inr manifest
          \<and> oi_manifest_hash opened = compute_manifest_hash C manifest)
     \<and> set refs = ke_key_ref ` set (ri_entries data)"
  by (auto simp: verify_restore_ingress_def Let_def res_bind_eq_Inr map_err_eq_Inr ref_set_eq_iff)

text \<open>Spending is compared bytewise; on 32-byte values that is the numeric order.\<close>

definition row_covered :: "counter_entry list \<Rightarrow> counter_entry \<Rightarrow> bool" where
  "row_covered cs c \<longleftrightarrow> (\<exists>d \<in> set cs. ce_tuple d = ce_tuple c
     \<and> unat (ce_highest_accepted_counter c) \<le> unat (ce_highest_accepted_counter d))"

definition entry_of :: "bytes \<Rightarrow> decoded_row \<Rightarrow> counter_entry" where
  "entry_of env r = \<lparr>ce_authority = dr_authority r, ce_environment_identifier = env,
     ce_scope_class = dr_scope_class r, ce_scope_target = dr_scope_target r,
     ce_highest_accepted_counter = dr_highest_accepted_counter r\<rparr>"

lemma entry_of_simps [simp]: "ce_authority (entry_of env r) = dr_authority r"
  "ce_environment_identifier (entry_of env r) = env" "ce_scope_class (entry_of env r) = dr_scope_class r"
  "ce_scope_target (entry_of env r) = dr_scope_target r"
  "ce_highest_accepted_counter (entry_of env r) = dr_highest_accepted_counter r"
  "ce_tuple (entry_of env r) = dr_key r"
  by (simp_all add: entry_of_def ce_tuple_def dr_key_def)

definition marks_entries :: "bytes \<Rightarrow> decoded_marks \<Rightarrow> counter_entry list" where
  "marks_entries env m = map (entry_of env) (dm_rows m)"

lemma dominates_covered:
  assumes "high_water_dominates high cs cum life" "c \<in> set cs"
  shows "row_covered (marks_entries env high) c"
proof -
  obtain r where "find (\<lambda>r. dr_authority r = ce_authority c \<and> dr_scope_class r = ce_scope_class c
      \<and> dr_scope_target r = ce_scope_target c) (dm_rows high) = Some r"
    and ge: "dr_highest_accepted_counter r \<ge> ce_highest_accepted_counter c"
    using assms unfolding high_water_dominates_def list_all_iff by (fastforce split: option.splits)
  then have "r \<in> set (dm_rows high)" "dr_authority r = ce_authority c" "dr_scope_class r = ce_scope_class c"
    "dr_scope_target r = ce_scope_target c"
    by (auto simp: find_Some_iff)
  then show ?thesis
    using ge unfolding row_covered_def marks_entries_def
    by (intro bexI [of _ "entry_of env r"]) (auto simp: dr_key_def ce_tuple_def [of c] word_le_nat_alt)
qed

lemma max_seq_Some: "max_seq rs = Some m \<Longrightarrow> r \<in> set rs \<Longrightarrow> ar_seq r \<le> m"
proof -
  have "x \<le> foldl (\<lambda>m x. max m (ar_seq x)) x xs \<and> (\<forall>y \<in> set xs. ar_seq y \<le> foldl (\<lambda>m x. max m (ar_seq x)) x xs)"
    for x :: u64 and xs
  proof (induction xs arbitrary: x)
    case (Cons a xs)
    show ?case using Cons.IH [of "max x (ar_seq a)"] by auto
  qed simp
  then show "max_seq rs = Some m \<Longrightarrow> r \<in> set rs \<Longrightarrow> ar_seq r \<le> m"
    by (auto simp: max_seq_def split: list.splits)
qed

lemma apply_restore_cases:
  assumes "apply_restore_to_body data cap b = Inr b'"
  obtains next_seq rec where "length (ri_audit_records data) \<le> unat cap"
    "(case max_seq (ri_audit_records data) of Some m \<Rightarrow> ok_or restore_apply_error.MonotonicOverflow (checked_add_u64 m 1)
        | None \<Rightarrow> Inr 1) = Inr next_seq"
    "checked_add_u64 (max (kb_strict_recovery_counter b) (ri_strict_recovery_counter data)) 1 = Some rec"
    "b' = b\<lparr>kb_config := (kb_config b)\<lparr>
                kc_twod_chain_id := rc_twod_chain_id (ri_config data),
                kc_environment_identifier := rc_environment_identifier (ri_config data),
                kc_admin_authority_pk := rc_admin_authority_pk (ri_config data),
                kc_recovery_authority_pk := rc_recovery_authority_pk (ri_config data),
                kc_monotonic_treasury_config_version := rc_monotonic_treasury_config_version (ri_config data),
                kc_authority_epoch := rc_authority_epoch (ri_config data)\<rparr>,
              kb_entries := ri_entries data, kb_counters := ri_counters data, kb_faucet := ri_faucet data,
              kb_audit := \<lparr>au_records = ri_audit_records data, au_capacity = cap,
                au_last_exported_seq = next_seq - 1, au_next_seq = next_seq\<rparr>,
              kb_strict_recovery_counter := rec\<rparr>"
  using assms unfolding apply_restore_to_body_def Let_def by (auto simp: res_simps not_less)

lemma apply_restore_frame:
  assumes "apply_restore_to_body data cap b = Inr b'"
  shows "kb_entries b' = ri_entries data" "kb_faucet b' = ri_faucet data" "kb_counters b' = ri_counters data"
    "kc_anchor_root (kb_config b') = kc_anchor_root (kb_config b)"
    "kc_backup_recovery_wrapping_pubkey (kb_config b') = kc_backup_recovery_wrapping_pubkey (kb_config b)"
    "kc_enclave_scope_id (kb_config b') = kc_enclave_scope_id (kb_config b)"
    "kc_fleet_scope_id (kb_config b') = kc_fleet_scope_id (kb_config b)"
    "kc_twod_chain_id (kb_config b') = rc_twod_chain_id (ri_config data)"
    "kc_environment_identifier (kb_config b') = rc_environment_identifier (ri_config data)"
    "kc_admin_authority_pk (kb_config b') = rc_admin_authority_pk (ri_config data)"
    "kc_recovery_authority_pk (kb_config b') = rc_recovery_authority_pk (ri_config data)"
    "kb_freshness_epoch b' = kb_freshness_epoch b" "kb_structural_version b' = kb_structural_version b"
    "au_records (kb_audit b') = ri_audit_records data" "au_capacity (kb_audit b') = cap"
    "length (ri_audit_records data) \<le> unat cap"
  by (rule apply_restore_cases [OF assms], simp)+

text \<open>The sequence restarts right after the restored records, which count as exported; the recovery counter
  exceeds both the enclave's and the backup's.\<close>

lemma apply_restore_counts:
  assumes "apply_restore_to_body data cap b = Inr b'"
  shows "unat (kb_strict_recovery_counter b') = Suc (max (unat (kb_strict_recovery_counter b)) (unat (ri_strict_recovery_counter data)))"
    "\<forall>r \<in> set (ri_audit_records data). unat (ar_seq r) \<le> unat (au_last_exported_seq (kb_audit b'))"
    "Suc (unat (au_last_exported_seq (kb_audit b'))) = unat (au_next_seq (kb_audit b'))"
proof -
  obtain next_seq rec where n: "(case max_seq (ri_audit_records data) of Some m \<Rightarrow> ok_or restore_apply_error.MonotonicOverflow (checked_add_u64 m 1)
          | None \<Rightarrow> Inr 1) = Inr next_seq"
    and rec: "checked_add_u64 (max (kb_strict_recovery_counter b) (ri_strict_recovery_counter data)) 1 = Some rec"
    and b': "kb_strict_recovery_counter b' = rec" "au_last_exported_seq (kb_audit b') = next_seq - 1"
      "au_next_seq (kb_audit b') = next_seq"
    by (rule apply_restore_cases [OF assms]) simp
  have "unat (max x y) = max (unat x) (unat y)" for x y :: u64
    by (simp add: max_def word_le_nat_alt)
  then show "unat (kb_strict_recovery_counter b') = Suc (max (unat (kb_strict_recovery_counter b)) (unat (ri_strict_recovery_counter data)))"
    using rec by (simp add: b' checked_add_u64_Some)
  have nx: "unat next_seq = (case max_seq (ri_audit_records data) of Some m \<Rightarrow> Suc (unat m) | None \<Rightarrow> 1)"
    using n by (auto simp: res_simps checked_add_u64_Some split: option.splits)
  then have prev: "Suc (unat (next_seq - 1)) = unat next_seq"
    by (auto simp: unat_sub_if_size split: option.splits)
  then show "Suc (unat (au_last_exported_seq (kb_audit b'))) = unat (au_next_seq (kb_audit b'))" by (simp add: b')
  have "Suc (unat (ar_seq r)) \<le> unat next_seq" if r: "r \<in> set (ri_audit_records data)" for r
  proof -
    have "max_seq (ri_audit_records data) \<noteq> None" using r by (cases "ri_audit_records data") (auto simp: max_seq_def)
    then obtain m where m: "max_seq (ri_audit_records data) = Some m" by blast
    then have "unat (ar_seq r) \<le> unat m" using max_seq_Some [OF m r] by (simp add: word_le_nat_alt)
    then show ?thesis using nx m by simp
  qed
  then show "\<forall>r \<in> set (ri_audit_records data). unat (ar_seq r) \<le> unat (au_last_exported_seq (kb_audit b'))"
    using prev by (fastforce simp: b')
qed

text \<open>The signed high-water: accepted only under the sealed recovery authority, and the preimage determines what
  was attested.\<close>

lemma recovery_preimage_inj:
  assumes "recovery_high_water_preimage c e r m = recovery_high_water_preimage c' e' r' m'"
    and "length e < 65536" "length e' < 65536" "length r < 65536" "length r' < 65536"
    and "length m < 4294967296" "length m' < 4294967296"
  shows "c = c' \<and> e = e' \<and> r = r' \<and> m = m'"
proof -
  have "be64 c @ enc_lp16 e @ enc_lp16 r @ enc_lp32 m = be64 c' @ enc_lp16 e' @ enc_lp16 r' @ enc_lp32 m'"
    using assms(1) by (simp add: recovery_high_water_preimage_def enc_lp16_def enc_lp32_def)
  then show ?thesis
    using assms(2-) by (simp add: rd_lp16.append_inj rd_lp32.enc_inj)
qed

lemma verify_recovery_high_water_Inr:
  "verify_recovery_high_water C hwm chain env rid pk = Inr m \<longleftrightarrow>
     ed_key_ok C pk \<and> ed_verify_strict C pk (recovery_high_water_preimage chain env rid (hw_marks_payload hwm)) (hw_signature hwm)
     \<and> marks_ok MAX_COUNTER_ENTRIES m \<and> hw_marks_payload hwm = enc_marks m"
  by (auto simp: verify_recovery_high_water_def Let_def ok_or_eq_Inr strict_decode_marks_payload_iff)

lemma adopt_high_water_counters:
  "kb_counters (adopt_ac6_high_water m b) = marks_entries (kc_environment_identifier (kb_config b)) m"
  by (simp add: adopt_ac6_high_water_def marks_entries_def entry_of_def Let_def)

text \<open>What the high-water of a body covers: every counter row and both spends of another.\<close>

definition covers :: "keystore_body \<Rightarrow> counter_entry list \<Rightarrow> faucet_state \<Rightarrow> bool" where
  "covers b cs fs \<longleftrightarrow> (\<forall>c \<in> set cs. row_covered (kb_counters b) c)
     \<and> fs_cumulative_native_spend fs \<le> fs_cumulative_native_spend (kb_faucet b)
     \<and> fs_lifetime_spend fs \<le> fs_lifetime_spend (kb_faucet b)"

lemma adopt_covers:
  assumes "verify_ac6_high_water b data m = Inr ()"
  shows "covers (adopt_ac6_high_water m b') (kb_counters b) (kb_faucet b)"
    "covers (adopt_ac6_high_water m b') (ri_counters data) (ri_faucet data)"
proof -
  have "high_water_dominates m (kb_counters b) (fs_cumulative_native_spend (kb_faucet b)) (fs_lifetime_spend (kb_faucet b))"
    "high_water_dominates m (ri_counters data) (fs_cumulative_native_spend (ri_faucet data)) (fs_lifetime_spend (ri_faucet data))"
    using assms by (auto simp: verify_ac6_high_water_def split: if_splits)
  moreover have "kb_faucet (adopt_ac6_high_water m b') = (kb_faucet b')\<lparr>
      fs_cumulative_native_spend := dm_cumulative_native_spend m, fs_lifetime_spend := dm_lifetime_spend m\<rparr>"
    by (simp add: adopt_ac6_high_water_def Let_def)
  ultimately show "covers (adopt_ac6_high_water m b') (kb_counters b) (kb_faucet b)"
    "covers (adopt_ac6_high_water m b') (ri_counters data) (ri_faucet data)"
    using dominates_covered unfolding covers_def adopt_high_water_counters
    by (auto simp: high_water_dominates_def)
qed

end
