(* ===== verification/Restore.thy ===== *)
theory Restore
  imports Backup Frame Snp_Report
begin

text \<open>
  The disaster-recovery commands of \<open>agent_dispatch.rs\<close>, that is the build with the feature
  \<open>agent-backup-export-preview\<close>: EXPORT_BACKUP, RESTORE_BACKUP, GET_RESTORE_PUBKEY, the slot of the attested
  ephemeral key, the restore's own seal-attest-commit seam, and the dispatcher and frame handler of that build.
  The other commands are those of \<open>Dispatch\<close> and \<open>Frame\<close>.

  Parameters besides those of \<open>Backup\<close> and \<open>Frame\<close>: the attestation fetch \<open>fetch\<close>, over an arbitrary state of
  the quote machinery. A 64-byte random seed is two draws of 32 bytes.
\<close>

section \<open>The ephemeral restore key\<close>

record restore_ephemeral =
  re_encaps_key :: bytes
  re_decaps_seed :: bytes
  re_measurement :: bytes
  re_attestation_report :: bytes
  re_cert_chain :: bytes

record restore_ephemeral_pub =
  rp_encaps_key :: bytes
  rp_measurement :: bytes
  rp_attestation_report :: bytes
  rp_cert_chain :: bytes

record 'q restore_slot =
  rs_ephemeral :: "restore_ephemeral option"
  rs_quote :: 'q

type_synonym 'q fetch = "'q \<Rightarrow> bytes \<Rightarrow> (protocol_error + bytes \<times> bytes) \<times> 'q"

definition draw_seed :: "draws \<Rightarrow> bytes option \<times> draws" where
  "draw_seed ds = (case getrandom ds of
     (None, ds) \<Rightarrow> (None, ds)
   | (Some a, ds) \<Rightarrow> (case getrandom ds of (b, ds) \<Rightarrow> (map_option (\<lambda>b. a @ b) b, ds)))"

definition install_restore_ephemeral :: "crypto \<Rightarrow> mlkem \<Rightarrow> 'q fetch \<Rightarrow> bytes \<Rightarrow> u64 \<Rightarrow> bytes
    \<Rightarrow> 'q restore_slot \<times> draws \<Rightarrow> restore_ephemeral_pub option \<times> 'q restore_slot \<times> draws" where
  "install_restore_ephemeral C K fetch measurement chain_id environment_identifier st =
     (case st of (slot, ds) \<Rightarrow>
      if measurement = [] then (None, slot, ds)
      else
        (case draw_seed ds of
           (None, ds) \<Rightarrow> (None, slot, ds)
         | (Some seed, ds) \<Rightarrow>
             (let encaps_key = kem_ek K seed;
                  data = report_data_for_restore_ephemeral C encaps_key measurement chain_id
                    environment_identifier in
              case fetch (rs_quote slot) data of
                (Inl _, q) \<Rightarrow> (None, slot\<lparr>rs_quote := q\<rparr>, ds)
              | (Inr (attestation_report, cert_chain), q) \<Rightarrow>
                  (let pub_info = \<lparr>rp_encaps_key = encaps_key, rp_measurement = measurement,
                         rp_attestation_report = attestation_report, rp_cert_chain = cert_chain\<rparr>;
                       slot = slot\<lparr>rs_quote := q\<rparr> in
                   if rs_ephemeral slot \<noteq> None then (None, slot, ds)
                   else (Some pub_info, slot\<lparr>rs_ephemeral := Some \<lparr>re_encaps_key = encaps_key,
                       re_decaps_seed = seed, re_measurement = measurement,
                       re_attestation_report = attestation_report, re_cert_chain = cert_chain\<rparr>\<rparr>, ds)))))"

definition is_restore_ephemeral_installed :: "'q restore_slot \<Rightarrow> bool" where
  "is_restore_ephemeral_installed slot = (rs_ephemeral slot \<noteq> None)"

definition published_restore_ephemeral :: "'q restore_slot \<Rightarrow> restore_ephemeral_pub option" where
  "published_restore_ephemeral slot = map_option (\<lambda>e. \<lparr>rp_encaps_key = re_encaps_key e,
     rp_measurement = re_measurement e, rp_attestation_report = re_attestation_report e,
     rp_cert_chain = re_cert_chain e\<rparr>) (rs_ephemeral slot)"

text \<open>The snapshot: the decapsulation seed and the measurement.\<close>

definition snapshot_restore_ephemeral :: "'q restore_slot \<Rightarrow> (bytes \<times> bytes) option" where
  "snapshot_restore_ephemeral slot = map_option (\<lambda>e. (re_decaps_seed e, re_measurement e)) (rs_ephemeral slot)"

definition retire_restore_ephemeral :: "'q restore_slot \<Rightarrow> 'q restore_slot" where
  "retire_restore_ephemeral slot = slot\<lparr>rs_ephemeral := None\<rparr>"

definition handle_get_restore_pubkey :: "crypto \<Rightarrow> mlkem \<Rightarrow> 'q fetch \<Rightarrow> keystore_body \<Rightarrow> bytes
    \<Rightarrow> 'q restore_slot \<times> draws \<Rightarrow> (agent_error + agent_response) \<times> 'q restore_slot \<times> draws" where
  "handle_get_restore_pubkey C K fetch b measurement st =
     (case (case published_restore_ephemeral (fst st) of
              Some p \<Rightarrow> (Some p, st)
            | None \<Rightarrow> install_restore_ephemeral C K fetch measurement (kc_twod_chain_id (kb_config b))
                (kc_environment_identifier (kb_config b)) st) of
        (None, st) \<Rightarrow> (Inl SealFailed, st)
      | (Some p, st) \<Rightarrow> (Inr (GetRestorePubkeyResp (rp_encaps_key p) (rp_measurement p)
            (rp_attestation_report p) (rp_cert_chain p)), st))"

section \<open>Export\<close>

datatype export_selector = All | KeyRefs "bytes list" | BatchId u64

definition export_canonical_params :: "export_selector \<Rightarrow> bytes" where
  "export_canonical_params selector = (case selector of
     All \<Rightarrow> put_uint 5 0
   | KeyRefs refs \<Rightarrow> put_uint 5 1 @ put_uint 0 1 @ put_uint 4 (of_nat (length refs)) @ concat (map put_bytes refs)
   | BatchId i \<Rightarrow> put_uint 5 1 @ put_uint 0 2 @ put_uint 0 i)"

definition decode_export_selector :: "(cbor_value \<times> cbor_value) list \<Rightarrow> agent_error + export_selector" where
  "decode_export_selector payload =
     (case (map_get payload 1, map_get payload 2) of
        (None, None) \<Rightarrow> if payload = [] then Inr All else Inl agent_error.Malformed
      | (Some v, None) \<Rightarrow>
          if length payload = 1 then
            (case v of
               CArray items \<Rightarrow>
                 if items = [] \<or> length items > MAX_TOTAL_KEY_ENTRIES then Inl agent_error.Malformed
                 else res_bind (res_mapM (\<lambda>it. ok_or agent_error.Malformed (as_bytes32 it)) items) (\<lambda>refs.
                   Inr (KeyRefs refs))
             | _ \<Rightarrow> Inl agent_error.Malformed)
          else Inl agent_error.Malformed
      | (None, Some v) \<Rightarrow>
          if length payload = 1
          then res_bind (ok_or agent_error.Malformed (as_u64 v)) (\<lambda>i. Inr (BatchId i))
          else Inl agent_error.Malformed
      | _ \<Rightarrow> Inl agent_error.Malformed)"

definition export_requested :: "keystore_body \<Rightarrow> export_selector \<Rightarrow> agent_error + bytes list" where
  "export_requested b selector = (case selector of
     All \<Rightarrow> Inr (map ke_key_ref (kb_entries b))
   | KeyRefs refs \<Rightarrow>
       if list_ex (\<lambda>r. \<not> list_ex (\<lambda>e. ke_key_ref e = r) (kb_entries b)) refs then Inl KeyPurposeMismatch
       else Inr refs
   | BatchId i \<Rightarrow> Inr (map ke_key_ref (filter (\<lambda>e. cm_batch_id (ke_creation_metadata e) = i) (kb_entries b))))"

text \<open>Everything up to the seal of the blob: the candidate, its manifest and its payload.\<close>

definition export_candidate :: "crypto \<Rightarrow> ingress_serde \<Rightarrow> ciborium \<Rightarrow> agent_envelope \<Rightarrow> keystore_body
    \<Rightarrow> verified_capability \<Rightarrow> agent_error + keystore_body \<times> bytes \<times> bytes" where
  "export_candidate C I cb env b v =
     res_bind (ok_or agent_error.Malformed (ae_payload env)) (\<lambda>payload.
     res_bind (decode_export_selector payload) (\<lambda>selector.
     if payload_binding C (ae_opcode env) None (ae_request_id env) (export_canonical_params selector)
          \<noteq> vc_payload_binding v
     then Inl CapabilityRejected
     else
     res_bind (export_requested b selector) (\<lambda>requested.
     if requested = [] then Inl KeyPurposeMismatch
     else
     res_bind (map_err map_counter_error
         (advance_counter (vc_authority v) (vc_scope_class v) (vc_scope_target v) (vc_counter v) b)) (\<lambda>candidate.
     res_bind (map_err (\<lambda>_. SealFailed) (record_audit (audit_provenance env v candidate) candidate)) (\<lambda>candidate.
     res_bind (map_err (\<lambda>_. SealFailed) (advance_export_high_water candidate)) (\<lambda>candidate.
     let bumps_structural = (commit_bump_class ExportBackup = Structural) in
     res_bind (map_err (\<lambda>_. SealFailed) (advance_commit_epoch bumps_structural candidate)) (\<lambda>candidate.
     let ordered = selected_key_refs candidate requested in
     res_bind (map_err (\<lambda>_. SealFailed) (build_restore_ingress_payload I candidate ordered)) (\<lambda>payload_bytes.
     res_bind (map_err (\<lambda>_. SealFailed) (build_key_refs_manifest cb ordered)) (\<lambda>manifest.
     Inr (candidate, manifest, payload_bytes))))))))))"

definition handle_export_backup :: "crypto \<Rightarrow> pq_crypto \<Rightarrow> mlkem \<Rightarrow> ingress_serde \<Rightarrow> ciborium \<Rightarrow> agent_envelope
    \<Rightarrow> keystore_body \<Rightarrow> verified_capability \<Rightarrow> draws \<Rightarrow> (agent_error + agent_response) \<times> draws" where
  "handle_export_backup C Q K I cb env b v ds =
     (case export_candidate C I cb env b v of
        Inl e \<Rightarrow> (Inl e, ds)
      | Inr (candidate, manifest, payload_bytes) \<Rightarrow>
          (let recovery_key = kc_backup_recovery_wrapping_pubkey (kb_config candidate);
               recovery_key_id = derive_recovery_key_id C recovery_key in
           case getrandom ds of
             (draw, ds) \<Rightarrow>
               (res_bind (map_err (\<lambda>_. SealFailed) (seal_backup_blob C Q K recovery_key recovery_key_id
                  (kc_twod_chain_id (kb_config candidate)) (kc_environment_identifier (kb_config candidate))
                  manifest payload_bytes draw)) (\<lambda>backup_blob.
                Inr (ExportBackupResp candidate backup_blob (ae_request_id env))), ds)))"

section \<open>Restore\<close>

definition restore_canonical_params :: "bytes list \<Rightarrow> bytes \<Rightarrow> bytes" where
  "restore_canonical_params requested_refs backup_digest =
     put_uint 5 2 @ put_uint 0 1 @ put_uint 4 (of_nat (length requested_refs))
     @ concat (map put_bytes requested_refs) @ put_uint 0 2 @ put_bytes backup_digest"

text \<open>Recording the capability's counter: the larger of it and the row found, or a new row.\<close>

definition record_restore_counter :: "verified_capability \<Rightarrow> keystore_body \<Rightarrow> agent_error + keystore_body" where
  "record_restore_counter v candidate =
     (let env_id = kc_environment_identifier (kb_config candidate);
          row = counter_row (vc_authority v) env_id (vc_scope_class v) (vc_scope_target v) in
      if find row (kb_counters candidate) \<noteq> None
      then Inr (candidate\<lparr>kb_counters := update_first row (\<lambda>c. c\<lparr>ce_highest_accepted_counter :=
        max (ce_highest_accepted_counter c) (vc_counter v)\<rparr>) (kb_counters candidate)\<rparr>)
      else if length (kb_counters candidate) \<ge> MAX_COUNTER_ENTRIES then Inl CapExceeded
      else Inr (candidate\<lparr>kb_counters := kb_counters candidate @ [\<lparr>ce_authority = vc_authority v,
        ce_environment_identifier = env_id, ce_scope_class = vc_scope_class v,
        ce_scope_target = vc_scope_target v, ce_highest_accepted_counter = vc_counter v\<rparr>]\<rparr>))"

definition handle_restore_backup :: "crypto \<Rightarrow> pq_crypto \<Rightarrow> mlkem \<Rightarrow> ingress_serde \<Rightarrow> ciborium \<Rightarrow> agent_envelope
    \<Rightarrow> keystore_body \<Rightarrow> verified_capability \<Rightarrow> bytes \<Rightarrow> 'q restore_slot \<Rightarrow> agent_error + agent_response" where
  "handle_restore_backup C Q K I cb env b v measurement slot =
     res_bind (ok_or agent_error.Malformed (ae_payload env)) (\<lambda>payload.
     res_bind (map_err (\<lambda>_. agent_error.Malformed) (decode_restore_request payload)) (\<lambda>req.
     res_bind (ok_or NotConfigured (snapshot_restore_ephemeral slot)) (\<lambda>(decaps_seed, _).
     res_bind (map_err (\<lambda>_. SealFailed)
         (open_restore_ingress_envelope C Q K decaps_seed (rq_ingress_envelope req))) (\<lambda>opened.
     res_bind (map_err (\<lambda>_. agent_error.Malformed) (parse_restore_ingress I (oi_payload opened))) (\<lambda>data.
     res_bind (map_err (\<lambda>_. SealFailed)
         (verify_restore_ingress C cb opened data (rq_original_backup req) (rq_requested_refs req) measurement
            (kc_twod_chain_id (kb_config b)) (kc_environment_identifier (kb_config b)))) (\<lambda>_.
     let sealed_rid = derive_recovery_key_id C (kc_backup_recovery_wrapping_pubkey (kb_config b)) in
     res_bind (map_err (\<lambda>_. agent_error.Malformed) (backup_recovery_key_id (rq_original_backup req))) (\<lambda>backup_rid.
     if backup_rid \<noteq> sealed_rid then Inl SealFailed
     else
       (let canonical = restore_canonical_params (rq_requested_refs req) (oi_original_backup_digest opened) in
        if payload_binding C 8 None (ae_request_id env) canonical \<noteq> vc_payload_binding v
        then Inl CapabilityRejected
        else
          res_bind (map_err (\<lambda>_. CapabilityRejected)
              (verify_recovery_high_water C (rq_recovery_high_water req) (kc_twod_chain_id (kb_config b))
                 (kc_environment_identifier (kb_config b)) (ae_request_id env)
                 (kc_recovery_authority_pk (kb_config b)))) (\<lambda>authenticated.
          res_bind (map_err (\<lambda>_. SealFailed) (verify_ac6_high_water b data authenticated)) (\<lambda>_.
          res_bind (map_err (\<lambda>_. SealFailed)
              (apply_restore_to_body data (au_capacity (kb_audit b)) b)) (\<lambda>candidate.
          let candidate = adopt_ac6_high_water authenticated candidate in
          res_bind (record_restore_counter v candidate) (\<lambda>candidate.
          res_bind (map_err (\<lambda>_. SealFailed) (advance_commit_epoch True candidate)) (\<lambda>candidate.
          Inr (RestoreBackupResp candidate (ae_request_id env)))))))))))))))"

section \<open>The seam of a restore\<close>

record restored_key_identity =
  rk_key_ref :: bytes
  rk_public_identity :: bytes
  rk_key_purpose :: u64

definition identity_of :: "key_entry \<Rightarrow> restored_key_identity" where
  "identity_of e = \<lparr>rk_key_ref = ke_key_ref e, rk_public_identity = ke_public_identity e,
     rk_key_purpose = of_int (key_purpose_code (ke_purpose e))\<rparr>"

definition identity_set_preimage :: "restored_key_identity list \<Rightarrow> bytes" where
  "identity_set_preimage identity_set =
     (let entries = sort_key rk_key_ref identity_set in
      be64 (of_nat (length entries))
      @ concat (map (\<lambda>e. rk_key_ref e @ len64 (rk_public_identity e) @ rk_public_identity e
          @ be64 (rk_key_purpose e)) entries))"

definition compute_restored_identity_set_hash :: "crypto \<Rightarrow> restored_key_identity list \<Rightarrow> bytes" where
  "compute_restored_identity_set_hash C identity_set = sha2_256 C (identity_set_preimage identity_set)"

definition encode_restore_backup_response :: "writer \<Rightarrow> bytes \<Rightarrow> bytes \<Rightarrow> restored_key_identity list \<Rightarrow> bytes \<Rightarrow> bytes
    \<Rightarrow> bytes" where
  "encode_restore_backup_response enc sealed_blob request_id_echo identity_set attestation_report cert_chain =
     encode_body enc
       [(CInteger 1, CBytes sealed_blob), (CInteger 2, CBytes request_id_echo),
        (CInteger 3, CArray (map (\<lambda>e. CMap [(CInteger 1, CBytes (rk_key_ref e)),
            (CInteger 2, CBytes (rk_public_identity e)), (CInteger 3, CInteger (uint (rk_key_purpose e)))]) identity_set)),
        (CInteger 4, CBytes attestation_report), (CInteger 5, CBytes cert_chain)]"

text \<open>The parameters of the build.\<close>

record ('c, 'q) backend =
  bk_crypto :: crypto
  bk_pq :: pq_crypto
  bk_kem :: mlkem
  bk_ingress :: ingress_serde
  bk_cbor :: ciborium
  bk_serde :: serde
  bk_features :: features
  bk_writer :: writer
  bk_round_trip :: "'c round_trip"
  bk_fetch :: "'q fetch"

definition completion_report_data :: "crypto \<Rightarrow> keystore_body \<Rightarrow> bytes \<Rightarrow> bytes \<Rightarrow> bytes" where
  "completion_report_data C candidate request_id sealed =
     report_data_for_restore_completion C request_id
       (compute_restored_identity_set_hash C (map identity_of (kb_entries candidate))) (sha2_256 C sealed)
       (kc_twod_chain_id (kb_config candidate)) (kc_environment_identifier (kb_config candidate))"

definition restore_seal_attest_commit_emit :: "('c, 'q) backend \<Rightarrow> keystore_body \<Rightarrow> bytes \<Rightarrow> bytes
    \<Rightarrow> 'c gateway \<times> 'q restore_slot \<Rightarrow> bytes \<times> 'c gateway \<times> 'q restore_slot" where
  "restore_seal_attest_commit_emit B candidate request_id measurement st =
     (case st of (s, slot) \<Rightarrow>
      let C = bk_crypto B; enc = bk_writer B;
          identity_set = map identity_of (kb_entries candidate) in
      case resolve_provisioning_root s of
        Inl _ \<Rightarrow> (encode_agent_error enc SealFailed, s, slot)
      | Inr root \<Rightarrow>
          (case seal_body_rng C (bk_serde B) candidate root measurement (gw_draws s) of
             (Inl _, ds) \<Rightarrow> (encode_agent_error enc SealFailed, s\<lparr>gw_draws := ds\<rparr>, slot)
           | (Inr sealed, ds) \<Rightarrow>
               (case bk_fetch B (rs_quote slot) (completion_report_data C candidate request_id sealed) of
                  (Inl _, q) \<Rightarrow> (encode_agent_error enc SealFailed, s\<lparr>gw_draws := ds\<rparr>, slot\<lparr>rs_quote := q\<rparr>)
                | (Inr (attestation_report, cert_chain), q) \<Rightarrow>
                    (case commit_candidate_to_anchor C (bk_round_trip B) candidate request_id (s\<lparr>gw_draws := ds\<rparr>) of
                       (Inl e, s) \<Rightarrow> (encode_agent_error enc e, s, slot\<lparr>rs_quote := q\<rparr>)
                     | (Inr _, s) \<Rightarrow>
                         (encode_restore_backup_response enc sealed request_id identity_set attestation_report
                            cert_chain,
                          s\<lparr>gw_keystore := Some (candidate, measurement)\<rparr>, slot\<lparr>rs_quote := q\<rparr>)))))"

section \<open>Dispatch and frames of the build with backups\<close>

text \<open>The checks every command passes first: profile, envelope, version, domain, opcode and the anti-rollback gate.\<close>

definition admit :: "process \<Rightarrow> agent_profile \<Rightarrow> bytes \<Rightarrow> keystore_body \<Rightarrow> agent_error + agent_envelope \<times> agent_opcode" where
  "admit w profile payload b =
     (if profile \<noteq> AgentGatewayProfile then Inl WrongProfile
      else
        res_bind (decode_envelope payload) (\<lambda>env.
        if ae_agent_version env \<noteq> AGENT_GATEWAY_VERSION \<or> ae_command_domain env \<noteq> COMMAND_DOMAIN
        then Inl agent_error.Malformed
        else
          res_bind (ok_or agent_error.Malformed (opcode_from_u8 (ae_opcode env))) (\<lambda>opcode.
          if is_rollback_sensitive opcode \<and> \<not> anti_rollback_satisfied w b then Inl NotConfigured
          else Inr (env, opcode))))"

definition dispatch_agent_with_backup :: "('c, 'q) backend \<Rightarrow> process \<Rightarrow> agent_profile \<Rightarrow> bytes \<Rightarrow> keystore_body
    \<Rightarrow> bytes \<Rightarrow> 'q restore_slot \<times> draws \<Rightarrow> (agent_error + agent_response) \<times> 'q restore_slot \<times> draws" where
  "dispatch_agent_with_backup B w profile payload b measurement st =
     (case st of (slot, ds) \<Rightarrow>
      let C = bk_crypto B in
      case admit w profile payload b of
        Inl e \<Rightarrow> (Inl e, slot, ds)
      | Inr (env, opcode) \<Rightarrow>
          if opcode = ExportBackup \<or> opcode = RestoreBackup then
            (if ae_capability env = None then (Inl CapabilityRejected, slot, ds)
             else
               (case verify_capability C env b of
                  Inl e \<Rightarrow> (Inl e, slot, ds)
                | Inr v \<Rightarrow>
                    if opcode = ExportBackup then
                      (case handle_export_backup C (bk_pq B) (bk_kem B) (bk_ingress B) (bk_cbor B) env b v ds of
                         (r, ds) \<Rightarrow> (r, slot, ds))
                    else (handle_restore_backup C (bk_pq B) (bk_kem B) (bk_ingress B) (bk_cbor B) env b v
                            measurement slot, slot, ds)))
          else if opcode = GetRestorePubkey then
            (if ae_capability env \<noteq> None then (Inl agent_error.Malformed, slot, ds)
             else handle_get_restore_pubkey C (bk_kem B) (bk_fetch B) b measurement (slot, ds))
          else (case dispatch_agent C (bk_features B) w profile payload b ds of (r, ds) \<Rightarrow> (r, slot, ds)))"

text \<open>The arms of the frame handler other than that of RESTORE_BACKUP.\<close>

definition emit_outcome :: "('c, 'q) backend \<Rightarrow> bytes \<Rightarrow> agent_error + agent_response \<Rightarrow> 'c gateway
    \<Rightarrow> bytes \<times> 'c gateway" where
  "emit_outcome B measurement outcome s =
     (let C = bk_crypto B; S = bk_serde B; enc = bk_writer B; rt = bk_round_trip B in
      case outcome of
        Inr (GenerateKeysResp keys candidate request_id) \<Rightarrow>
          commit_before_emit C S enc rt candidate request_id measurement (encode_generate_keys_response enc keys) s
      | Inr (SignFaucetDispenseResp t candidate request_id) \<Rightarrow>
          commit_before_emit C S enc rt candidate request_id measurement
            (encode_sign_faucet_dispense_response enc t) s
      | Inr (ConfigureTreasuryResp candidate request_id) \<Rightarrow>
          commit_before_emit C S enc rt candidate request_id measurement (encode_configure_treasury_response enc) s
      | Inr (ExportBackupResp candidate backup_blob request_id) \<Rightarrow>
          commit_before_emit C S enc rt candidate request_id measurement
            (encode_export_backup_response enc backup_blob) s
      | Inr resp \<Rightarrow> (encode_agent_response enc resp, s)
      | Inl e \<Rightarrow> (encode_agent_error enc e, s))"

definition handle_agent_gateway_frame_with_backup :: "('c, 'q) backend \<Rightarrow> bytes \<Rightarrow> 'c gateway \<times> 'q restore_slot
    \<Rightarrow> bytes \<times> 'c gateway \<times> 'q restore_slot" where
  "handle_agent_gateway_frame_with_backup B payload st =
     (case st of (s, slot) \<Rightarrow>
      case gw_keystore s of
        None \<Rightarrow> (encode_agent_error (bk_writer B) WrongProfile, s, slot)
      | Some (body, measurement) \<Rightarrow>
          (case dispatch_agent_with_backup B (gw_process s) AgentGatewayProfile payload body measurement
              (slot, gw_draws s) of
             (outcome, slot, ds) \<Rightarrow>
               (let s = s\<lparr>gw_draws := ds\<rparr> in
                case outcome of
                  Inr (RestoreBackupResp candidate request_id) \<Rightarrow>
                    (case restore_seal_attest_commit_emit B candidate request_id measurement (s, slot) of
                       (body, s, slot) \<Rightarrow> (body, s, retire_restore_ephemeral slot))
                | _ \<Rightarrow> (case emit_outcome B measurement outcome s of (body, s) \<Rightarrow> (body, s, slot)))))"

section \<open>Export\<close>

lemma admit_Inr: "admit w profile payload b = Inr (env, op) \<longleftrightarrow> profile = AgentGatewayProfile
    \<and> decode_envelope payload = Inr env \<and> ae_agent_version env = AGENT_GATEWAY_VERSION
    \<and> ae_command_domain env = COMMAND_DOMAIN \<and> opcode_from_u8 (ae_opcode env) = Some op
    \<and> (is_rollback_sensitive op \<longrightarrow> is_anti_rollback_configured w)"
  by (auto simp: admit_def res_simps anti_rollback_satisfied_def sealed_optout_acknowledged_def)

lemma dispatch_agent_admit:
  "admit w profile payload b = Inl e \<Longrightarrow> dispatch_agent C ft w profile payload b ds = (Inl e, ds)"
  by (cases "decode_envelope payload"; cases "opcode_from_u8 (ae_opcode (projr (decode_envelope payload)))")
    (auto simp: admit_def dispatch_agent_def simp del: is_rollback_sensitive.simps split: if_splits)

lemma advance_export_frame:
  assumes "body_ok b" "advance_export_high_water b = Inr b'"
  shows "\<exists>n. b' = b\<lparr>kb_audit := (kb_audit b)\<lparr>au_last_exported_seq := n\<rparr>\<rparr>
    \<and> Suc (unat n) = unat (au_next_seq (kb_audit b))"
proof -
  let ?a = "kb_audit b"
  have lt: "au_last_exported_seq ?a < au_next_seq ?a" using assms(1) by (simp add: body_ok_def audit_ok_def)
  then have pos: "0 < unat (au_next_seq ?a)" by (simp add: word_less_nat_alt)
  let ?n = "saturating_sub_u64 (au_next_seq ?a) 1"
  have n: "Suc (unat ?n) = unat (au_next_seq ?a)" using pos by simp
  show ?thesis
  proof (cases "?n > au_last_exported_seq ?a")
    case True
    then show ?thesis using assms(2) n by (auto simp: advance_export_high_water_def Let_def)
  next
    case False
    then have "au_last_exported_seq ?a = ?n"
      using lt n by (simp add: word_less_nat_alt word_unat_eq_iff)
    moreover have "b' = b" using assms(2) False by (simp add: advance_export_high_water_def Let_def)
    ultimately show ?thesis using n by (intro exI [of _ ?n]) (auto simp: word_unat_eq_iff)
  qed
qed

lemma export_tail:
  assumes "body_ok b" "length (vc_scope_target v) \<le> 64" "length (ae_request_id env) \<le> 64"
    and b1: "advance_counter (vc_authority v) (vc_scope_class v) (vc_scope_target v) (vc_counter v) b = Inr b1"
    and b2: "record_audit (audit_provenance env v b1) b1 = Inr b2"
    and b3: "advance_export_high_water b2 = Inr b3" and b4: "advance_commit_epoch True b3 = Inr b4"
  shows "spends_capability env v b b4" "kb_entries b4 = kb_entries b" "kb_faucet b4 = kb_faucet b"
    "kb_strict_recovery_counter b4 = kb_strict_recovery_counter b" "kb_config b4 = kb_config b"
    "Suc (unat (au_last_exported_seq (kb_audit b4))) = unat (au_next_seq (kb_audit b4))"
proof -
  have ok1: "body_ok b1" using advance_counter_ok [OF assms(1) _ b1] assms(2) by simp
  have ok2: "body_ok b2" using record_audit_ok [OF ok1 b2] assms(2,3) by (simp add: audit_provenance_def)
  have ok3: "body_ok b3" by (rule advance_export_high_water_ok [OF ok2 b3])
  have ok4: "body_ok b4" by (rule advance_commit_epoch_ok [OF ok3 b4])
  obtain cs where cs: "b1 = b\<lparr>kb_counters := cs\<rparr>" using advance_counter_frame [OF b1] by blast
  note f2 = record_audit_frame [OF b2]
  then obtain au where au: "b2 = b1\<lparr>kb_audit := au\<rparr>" by blast
  obtain n where n: "b3 = b2\<lparr>kb_audit := (kb_audit b2)\<lparr>au_last_exported_seq := n\<rparr>\<rparr>"
    "Suc (unat n) = unat (au_next_seq (kb_audit b2))"
    using advance_export_frame [OF ok2 b3] by blast
  have e4: "b4 = b3\<lparr>kb_freshness_epoch := kb_freshness_epoch b3 + 1, kb_structural_version := kb_structural_version b3 + 1\<rparr>"
    "unat (kb_freshness_epoch b3 + 1) = Suc (unat (kb_freshness_epoch b3))"
    "unat (kb_structural_version b3 + 1) = Suc (unat (kb_structural_version b3))"
    using b4 unat_plus_one by (simp_all add: advance_commit_epoch_Inr)
  show cfg: "kb_config b4 = kb_config b" and "kb_entries b4 = kb_entries b" "kb_faucet b4 = kb_faucet b"
    "kb_strict_recovery_counter b4 = kb_strict_recovery_counter b"
    by (simp_all add: e4(1) n(1) au cs)
  show "Suc (unat (au_last_exported_seq (kb_audit b4))) = unat (au_next_seq (kb_audit b4))"
    by (simp add: e4(1) n)
  have "highest_counter b4 = highest_counter b1"
    by (rule highest_counter_cong) (simp_all add: e4(1) n(1) au cs)
  then have h: "highest_counter b4 = (highest_counter b)((vc_authority v, vc_scope_class v, vc_scope_target v) := unat (vc_counter v))"
    using advance_counter_highest [OF b1] by simp
  have ep: "kb_freshness_epoch b3 = kb_freshness_epoch b" "kb_structural_version b3 = kb_structural_version b"
    "kb_audit b1 = kb_audit b" "kb_config b1 = kb_config b"
    "au_records (kb_audit b4) = au_records (kb_audit b2)"
    "kb_freshness_epoch b4 = kb_freshness_epoch b3 + 1" "kb_structural_version b4 = kb_structural_version b3 + 1"
    by (simp_all add: e4(1) n(1) au cs)
  show "spends_capability env v b b4"
    using ok4 h e4(2,3) ep cfg conjunct2 [OF f2]
    by (simp add: spends_capability_def audit_provenance_def)
qed

lemma export_candidate_Inr:
  assumes "export_candidate C I cb env b v = Inr (c, manifest, out)"
  obtains payload selector requested b1 b2 b3 where "ae_payload env = Some payload"
    "decode_export_selector payload = Inr selector"
    "payload_binding C (ae_opcode env) None (ae_request_id env) (export_canonical_params selector) = vc_payload_binding v"
    "export_requested b selector = Inr requested" "requested \<noteq> []"
    "advance_counter (vc_authority v) (vc_scope_class v) (vc_scope_target v) (vc_counter v) b = Inr b1"
    "record_audit (audit_provenance env v b1) b1 = Inr b2" "advance_export_high_water b2 = Inr b3"
    "advance_commit_epoch True b3 = Inr c"
    "build_restore_ingress_payload I c (selected_key_refs c requested) = Inr out"
    "build_key_refs_manifest cb (selected_key_refs c requested) = Inr manifest"
  using assms unfolding export_candidate_def
  by (auto simp: res_bind_eq_Inr map_err_eq_Inr ok_or_eq_Inr Let_def split: if_splits)

lemma export_requested_in:
  assumes "export_requested b selector = Inr requested" "r \<in> set requested"
  shows "\<exists>e \<in> set (kb_entries b). ke_key_ref e = r"
  using assms by (auto simp: export_requested_def list_ex_iff split: export_selector.splits if_splits)

lemma handle_export_Inr:
  assumes "handle_export_backup C Q K I cb env b v ds = (Inr resp, ds')"
  obtains c manifest out m blob where "export_candidate C I cb env b v = Inr (c, manifest, out)"
    "seal_backup_blob_with_m C Q K (kc_backup_recovery_wrapping_pubkey (kb_config c))
       (derive_recovery_key_id C (kc_backup_recovery_wrapping_pubkey (kb_config c))) (kc_twod_chain_id (kb_config c))
       (kc_environment_identifier (kb_config c)) manifest out m = Inr blob"
    "resp = ExportBackupResp c blob (ae_request_id env)" "getrandom ds = (Some m, ds')"
  using assms unfolding handle_export_backup_def seal_backup_blob_def
  by (auto simp: res_bind_eq_Inr map_err_eq_Inr ok_or_eq_Inr Let_def split: sum.splits prod.splits)

section \<open>Which command gave which answer\<close>

fun backup_response :: "agent_response \<Rightarrow> bool" where
  "backup_response (ExportBackupResp _ _ _) = True"
| "backup_response (RestoreBackupResp _ _) = True"
| "backup_response (GetRestorePubkeyResp _ _ _ _) = True"
| "backup_response _ = False"

lemma dispatch_agent_kind:
  assumes "dispatch_agent C ft w profile payload b ds = (Inr resp, ds')"
  shows "\<not> backup_response resp"
proof (rule dispatch_agent_Inr [OF assms], goal_cases)
  case (1 env op)
  have gen: "\<not> backup_response resp" if "handle_generate_keys C env b v ds = (Inr resp, ds')" for v
    by (rule handle_generate_keys_Inr [OF that]) simp
  have conf: "\<not> backup_response resp" if "handle_configure_treasury C env b v = Inr resp" for v
    by (rule handle_configure_treasury_Inr [OF that]) simp
  have faucet: "\<not> backup_response resp" if "handle_sign_faucet_dispense C env b = Inr resp"
    by (rule handle_sign_faucet_dispense_Inr [OF that]) simp
  have "\<not> backup_response resp" if "handle_sign_transfer C env b = Inr resp"
    using handle_sign_transfer_Inr [OF that] by auto
  moreover have "\<not> backup_response resp" if "handle_public_identity C env b = Inr resp"
    using that by (auto simp: handle_public_identity_def res_simps)
  moreover have "\<not> backup_response resp" if "handle_prove_identity C env b = Inr resp"
    using that by (auto simp: handle_prove_identity_def res_simps)
  ultimately show ?case using 1(7) gen conf faucet by blast
qed

lemma handle_restore_kind:
  "handle_restore_backup C Q K I cb env b v measurement slot = Inr resp
    \<Longrightarrow> \<exists>c. resp = RestoreBackupResp c (ae_request_id env)"
  unfolding handle_restore_backup_def
  by (auto simp: res_bind_eq_Inr Let_def split: if_splits)

lemma handle_pubkey_kind:
  "handle_get_restore_pubkey C K fetch b measurement st = (Inr resp, st')
    \<Longrightarrow> \<exists>k m r cc. resp = GetRestorePubkeyResp k m r cc"
  unfolding handle_get_restore_pubkey_def by (auto split: option.splits prod.splits)

text \<open>A success of one of the three commands: its opcode, its gate, its capability and its handler.\<close>

lemma dispatch_with_backup_Inr:
  assumes "dispatch_agent_with_backup B w profile payload b measurement (slot, ds) = (Inr resp, slot', ds')"
    and "backup_response resp"
  obtains env op where "admit w profile payload b = Inr (env, op)"
    "(\<exists>v. op = ExportBackup \<and> is_anti_rollback_configured w \<and> verify_capability (bk_crypto B) env b = Inr v \<and> slot' = slot
        \<and> handle_export_backup (bk_crypto B) (bk_pq B) (bk_kem B) (bk_ingress B) (bk_cbor B) env b v ds = (Inr resp, ds'))
     \<or> (\<exists>v. op = RestoreBackup \<and> is_anti_rollback_configured w \<and> verify_capability (bk_crypto B) env b = Inr v \<and> slot' = slot
        \<and> ds' = ds
        \<and> handle_restore_backup (bk_crypto B) (bk_pq B) (bk_kem B) (bk_ingress B) (bk_cbor B) env b v measurement slot = Inr resp)
     \<or> op = GetRestorePubkey \<and> ae_capability env = None
        \<and> handle_get_restore_pubkey (bk_crypto B) (bk_kem B) (bk_fetch B) b measurement (slot, ds) = (Inr resp, slot', ds')"
proof -
  obtain env op where a: "admit w profile payload b = Inr (env, op)"
    using assms(1) by (cases "admit w profile payload b") (auto simp: dispatch_agent_with_backup_def Let_def)
  have gate: "is_rollback_sensitive op \<longrightarrow> is_anti_rollback_configured w" using a by (simp add: admit_Inr)
  consider "op = ExportBackup" | "op = RestoreBackup" | "op = GetRestorePubkey"
    | "op \<notin> {ExportBackup, RestoreBackup, GetRestorePubkey}" by blast
  then show thesis
  proof cases
    case 4
    then have "dispatch_agent (bk_crypto B) (bk_features B) w profile payload b ds = (Inr resp, ds')"
      using assms(1) a by (auto simp: dispatch_agent_with_backup_def Let_def split: prod.splits)
    then show ?thesis using dispatch_agent_kind assms(2) by blast
  qed (use assms(1) a gate that in
      \<open>auto simp: dispatch_agent_with_backup_def Let_def split: if_splits sum.splits prod.splits\<close>)
qed

lemma dispatch_export:
  assumes "dispatch_agent_with_backup B w profile payload b measurement (slot, ds) = (Inr (ExportBackupResp c blob rid), slot', ds')"
  obtains env v where "decode_envelope payload = Inr env" "ae_opcode env = 7" "is_anti_rollback_configured w"
    "verify_capability (bk_crypto B) env b = Inr v" "slot' = slot"
    "handle_export_backup (bk_crypto B) (bk_pq B) (bk_kem B) (bk_ingress B) (bk_cbor B) env b v ds
       = (Inr (ExportBackupResp c blob rid), ds')"
proof (rule dispatch_with_backup_Inr [OF assms], goal_cases)
  case (2 env op)
  have "op = ExportBackup \<longrightarrow> ae_opcode env = 7"
    using 2(2) by (auto simp: admit_Inr opcode_from_u8_def split: if_splits)
  then show ?case
    using 2 that [of env] by (auto simp: admit_Inr dest!: handle_restore_kind handle_pubkey_kind)
qed simp

lemma dispatch_restore:
  assumes "dispatch_agent_with_backup B w profile payload b measurement (slot, ds) = (Inr (RestoreBackupResp c rid), slot', ds')"
  obtains env v where "decode_envelope payload = Inr env" "ae_opcode env = 8" "is_anti_rollback_configured w"
    "verify_capability (bk_crypto B) env b = Inr v" "slot' = slot" "ds' = ds" "rid = ae_request_id env"
    "handle_restore_backup (bk_crypto B) (bk_pq B) (bk_kem B) (bk_ingress B) (bk_cbor B) env b v measurement slot
       = Inr (RestoreBackupResp c rid)"
proof (rule dispatch_with_backup_Inr [OF assms], goal_cases)
  case (2 env op)
  have op: "op = RestoreBackup \<longrightarrow> ae_opcode env = 8"
    using 2(2) by (auto simp: admit_Inr opcode_from_u8_def split: if_splits)
  have "\<not> (\<exists>v. handle_export_backup (bk_crypto B) (bk_pq B) (bk_kem B) (bk_ingress B) (bk_cbor B) env b v ds
      = (Inr (RestoreBackupResp c rid), ds'))"
    by (auto elim!: handle_export_Inr)
  moreover have "rid = ae_request_id env"
    if "handle_restore_backup (bk_crypto B) (bk_pq B) (bk_kem B) (bk_ingress B) (bk_cbor B) env b v measurement slot
      = Inr (RestoreBackupResp c rid)" for v
    using handle_restore_kind [OF that] by simp
  ultimately show ?case
    using 2 that [of env] op by (auto simp: admit_Inr dest!: handle_pubkey_kind)
qed simp

text \<open>What an export promises: the blob opens under the offline seed to the restore payload of exactly the requested keys,
  with the candidate's counters, spends and audit ring, and its manifest names those keys.\<close>

definition export_recovers :: "('c, 'q) backend \<Rightarrow> bytes \<Rightarrow> bytes list \<Rightarrow> keystore_body \<Rightarrow> bytes \<Rightarrow> bool" where
  "export_recovers B seed requested c blob \<longleftrightarrow>
     (let es = filter (\<lambda>e. ke_key_ref e \<in> set requested) (kb_entries c) in
      es \<noteq> [] \<and> ke_key_ref ` set es = set requested
      \<and> (\<exists>p payload. strict_parse blob = Inr p
           \<and> backup_recovery_key_id blob
               = Inr (derive_recovery_key_id (bk_crypto B) (kc_backup_recovery_wrapping_pubkey (kb_config c)))
           \<and> pb_chain_id p = kc_twod_chain_id (kb_config c)
           \<and> pb_environment_identifier p = kc_environment_identifier (kb_config c)
           \<and> build_key_refs_manifest (bk_cbor B) (map ke_key_ref es) = Inr (pb_key_refs_manifest p)
           \<and> opens_to (bk_crypto B) (bk_pq B) (bk_kem B) seed p payload
           \<and> parse_restore_ingress (bk_ingress B) payload = Inr (restore_data_of c es)))"

lemma handle_export_recovers:
  assumes h: "handle_export_backup (bk_crypto B) (bk_pq B) (bk_kem B) (bk_ingress B) (bk_cbor B) env b v ds
      = (Inr (ExportBackupResp c blob rid), ds')"
    and ok: "body_ok b" "length (vc_scope_target v) \<le> 64" "length (ae_request_id env) \<le> 64"
    and K: "kem_correct (bk_kem B)" and Q: "aead12_correct (bk_pq B)" and I: "ingress_serde_correct (bk_ingress B)"
    and seed: "length seed = 64" "kem_ek (bk_kem B) seed = kc_backup_recovery_wrapping_pubkey (kb_config b)"
  obtains payload selector requested where "ae_payload env = Some payload" "decode_export_selector payload = Inr selector"
    "payload_binding (bk_crypto B) (ae_opcode env) None (ae_request_id env) (export_canonical_params selector) = vc_payload_binding v"
    "export_requested b selector = Inr requested" "export_recovers B seed requested c blob"
    "spends_capability env v b c" "kb_entries c = kb_entries b" "kb_faucet c = kb_faucet b" "kb_config c = kb_config b"
    "Suc (unat (au_last_exported_seq (kb_audit c))) = unat (au_next_seq (kb_audit c))"
proof -
  obtain manifest out m where x: "export_candidate (bk_crypto B) (bk_ingress B) (bk_cbor B) env b v = Inr (c, manifest, out)"
    and s: "seal_backup_blob_with_m (bk_crypto B) (bk_pq B) (bk_kem B) (kc_backup_recovery_wrapping_pubkey (kb_config c))
       (derive_recovery_key_id (bk_crypto B) (kc_backup_recovery_wrapping_pubkey (kb_config c))) (kc_twod_chain_id (kb_config c))
       (kc_environment_identifier (kb_config c)) manifest out m = Inr blob"
    by (rule handle_export_Inr [OF h]) auto
  obtain payload selector requested b1 b2 b3 where c: "ae_payload env = Some payload" "decode_export_selector payload = Inr selector"
      "payload_binding (bk_crypto B) (ae_opcode env) None (ae_request_id env) (export_canonical_params selector) = vc_payload_binding v"
      "export_requested b selector = Inr requested" "requested \<noteq> []"
    and tail: "advance_counter (vc_authority v) (vc_scope_class v) (vc_scope_target v) (vc_counter v) b = Inr b1"
      "record_audit (audit_provenance env v b1) b1 = Inr b2" "advance_export_high_water b2 = Inr b3"
      "advance_commit_epoch True b3 = Inr c"
    and pl: "build_restore_ingress_payload (bk_ingress B) c (selected_key_refs c requested) = Inr out"
      "build_key_refs_manifest (bk_cbor B) (selected_key_refs c requested) = Inr manifest"
    by (rule export_candidate_Inr [OF x])
  note t = export_tail [OF ok tail]
  have okc: "body_ok c" using t(1) by (simp add: spends_capability_def)
  have wrap: "kc_backup_recovery_wrapping_pubkey (kb_config c) = kem_ek (bk_kem B) seed" using seed(2) t(5) by simp
  let ?es = "filter (\<lambda>e. ke_key_ref e \<in> set requested) (kb_entries c)"
  obtain es y where es: "list_all2 (\<lambda>r e. find (\<lambda>e. ke_key_ref e = r) (kb_entries c) = Some e) (selected_key_refs c requested) es"
    and y: "ser_ingress (bk_ingress B) (restore_data_of c es) = Some y"
    and out: "out = RESTORE_INGRESS_MAGIC @ be16 RESTORE_INGRESS_FORMAT_VERSION @ y"
    using build_payload_Inr [OF pl(1)] by blast
  have "es = ?es" by (rule selected_entries [OF _ es]) (use okc in \<open>simp add: body_ok_def\<close>)
  then have parse: "parse_restore_ingress (bk_ingress B) out = Inr (restore_data_of c ?es)"
    using parse_built_payload [OF I y] out by simp
  have refs: "selected_key_refs c requested = map ke_key_ref ?es" by (simp add: selected_key_refs_def)
  have in_entries: "\<exists>e \<in> set (kb_entries c). ke_key_ref e = r" if "r \<in> set requested" for r
    using export_requested_in [OF c(4) that] t(2) by simp
  then have set: "ke_key_ref ` set ?es = set requested" by force
  then have "?es \<noteq> []" using c(5) by (metis image_empty set_empty)
  moreover obtain p where "strict_parse blob = Inr p"
      "pb_recovery_key_id p = derive_recovery_key_id (bk_crypto B) (kem_ek (bk_kem B) seed)"
      "pb_chain_id p = kc_twod_chain_id (kb_config c)" "pb_environment_identifier p = kc_environment_identifier (kb_config c)"
      "pb_key_refs_manifest p = manifest" "opens_to (bk_crypto B) (bk_pq B) (bk_kem B) seed p out"
    using seal_backup_blob_opens [OF K Q seed(1) s [unfolded wrap]] by blast
  ultimately have "export_recovers B seed requested c blob"
    using set parse pl(2) unfolding export_recovers_def Let_def refs wrap
    by (auto simp: backup_recovery_key_id_def)
  then show thesis using c that t by blast
qed

text \<open>A sealer succeeds once its fields fit their prefixes.\<close>

lemma seal_backup_blob_total:
  assumes "length ek = 1568" "kem_ek_ok K ek" "kem_encaps K ek m = (ct, ss)" "length ct = 1568"
    and "length (derive_payload_key C ss) = 32" "length rid < 65536" "length env < 65536" "length manifest < 4294967296"
    and "chacha_encrypt Q (derive_payload_key C ss) (replicate 12 0) payload
           (enc_header rid chain env ct manifest (replicate 12 0)) = Some dem" "length dem < 4294967296"
  shows "seal_backup_blob_with_m C Q K ek rid chain env manifest payload m
    = Inr (enc_header rid chain env ct manifest (replicate 12 0) @ enc_lp32 dem)"
proof -
  let ?h = "enc_header rid chain env ct manifest (replicate 12 0)"
  let ?p = "\<lparr>pb_recovery_key_id = rid, pb_chain_id = chain, pb_environment_identifier = env, pb_kem_ct = ct,
    pb_key_refs_manifest = manifest, pb_payload_nonce = replicate 12 0, pb_header = ?h, pb_dem_ct = dem\<rparr>"
  have "strict_parse (?h @ enc_lp32 dem) = Inr ?p"
    using assms(4,6-8,10) by (simp add: strict_parse_iff parsed_ok_def)
  then show ?thesis
    using assms
    by (simp add: seal_backup_blob_with_m_def encapsulate_to_recovery_key_def ML_KEM_1024_ENCAPS_KEY_LEN_def
        build_header_def put_lp16_def put_lp32_def Let_def PAYLOAD_NONCE_LEN_def enc_header_def enc_lp16_def enc_lp32_def)
qed

lemma seal_restore_ingress_total:
  assumes "length ek = 1568" "kem_ek_ok K ek" "kem_encaps K ek m = (ct, ss)" "length ct = 1568"
    and "length (derive_ingress_key C ss) = 32" "length meas < 65536" "length env < 65536" "length mh = 32" "length bd = 32"
    and "chacha_encrypt Q (derive_ingress_key C ss) (replicate 12 0) payload
           (enc_ingress_header meas chain env mh bd ct (replicate 12 0)) = Some dem" "length dem < 4294967296"
  shows "seal_restore_ingress_envelope_with_m C Q K ek meas chain env mh bd payload m
    = Inr (enc_ingress_header meas chain env mh bd ct (replicate 12 0) @ enc_lp32 dem)"
proof -
  let ?h = "enc_ingress_header meas chain env mh bd ct (replicate 12 0)"
  let ?p = "\<lparr>pi_dest_measurement = meas, pi_chain_id = chain, pi_environment_identifier = env, pi_manifest_hash = mh,
    pi_original_backup_digest = bd, pi_ingress_kem_ct = ct, pi_ingress_nonce = replicate 12 0, pi_header = ?h,
    pi_dem_ct = dem\<rparr>"
  have "strict_parse_ingress_envelope (?h @ enc_lp32 dem) = Inr ?p"
    using assms(4,6-9,11) by (simp add: strict_parse_ingress_iff parsed_ingress_ok_def)
  then show ?thesis
    using assms
    by (simp add: seal_restore_ingress_envelope_with_m_def encapsulate_to_recovery_key_def ML_KEM_1024_ENCAPS_KEY_LEN_def
        build_ingress_header_def put_lp16_def put_lp32_def Let_def INGRESS_NONCE_LEN_def enc_ingress_header_def
        enc_lp16_def enc_lp32_def)
qed

section \<open>Samples\<close>

definition sample_kem :: mlkem where
  "sample_kem = \<lparr>kem_ek_ok = (\<lambda>_. True), kem_encaps = (\<lambda>_ _. (replicate 1568 1, replicate 32 7)),
     kem_ek = (\<lambda>_. replicate 1568 0), kem_decaps = (\<lambda>_ _. replicate 32 7)\<rparr>"

text \<open>A payload codec that knows one payload, and a backend over it and a body codec.\<close>

definition ingress_for :: "restore_ingress_data \<Rightarrow> ingress_serde" where
  "ingress_for d = \<lparr>ser_ingress = (\<lambda>d'. if d' = d then Some [2] else None), de_ingress = (\<lambda>_. Some (d, 1))\<rparr>"

definition sample_ciborium :: ciborium where
  "sample_ciborium = \<lparr>cb_ser = (\<lambda>_. Some [3]), cb_de = (\<lambda>_. None)\<rparr>"

definition sample_backend :: "restore_ingress_data \<Rightarrow> serde \<Rightarrow> unit round_trip \<Rightarrow> (unit, unit) backend" where
  "sample_backend d S rt = \<lparr>bk_crypto = sample_crypto, bk_pq = sample_pq, bk_kem = sample_kem, bk_ingress = ingress_for d,
     bk_cbor = sample_ciborium, bk_serde = S, bk_features = sample_features, bk_writer = enc_value, bk_round_trip = rt,
     bk_fetch = (\<lambda>q data. (Inr ([8], [9]), q))\<rparr>"

lemma sample_backend_simps [simp]:
  "bk_crypto (sample_backend d S rt) = sample_crypto" "bk_pq (sample_backend d S rt) = sample_pq"
  "bk_kem (sample_backend d S rt) = sample_kem" "bk_ingress (sample_backend d S rt) = ingress_for d"
  "bk_cbor (sample_backend d S rt) = sample_ciborium" "bk_serde (sample_backend d S rt) = S"
  "bk_features (sample_backend d S rt) = sample_features" "bk_writer (sample_backend d S rt) = enc_value"
  "bk_round_trip (sample_backend d S rt) = rt" "bk_fetch (sample_backend d S rt) q x = (Inr ([8], [9]), q)"
  by (simp_all add: sample_backend_def)

lemma sample_backend_correct: "kem_correct sample_kem" "ingress_serde_correct (ingress_for d)"
  by (simp_all add: kem_correct_def sample_kem_def ingress_serde_correct_def ingress_for_def)

lemma sample_digests [simp]: "length (sha3_256 sample_crypto m) = 32" "length (sha2_256 sample_crypto m) = 32"
  by (simp_all add: sample_crypto_def)

definition export_cap :: capability where
  "export_cap = sample_cap\<lparr>cp_command_opcode := 7\<rparr>"

definition export_cap_map :: "(cbor_value \<times> cbor_value) list" where
  "export_cap_map = [(CInteger 1, CInteger 2), (CInteger 2, CInteger 7), (CInteger 4, CInteger 1),
     (CInteger 5, CInteger 11565), (CInteger 6, CText (ascii ''lab'')), (CInteger 7, CInteger 0),
     (CInteger 8, CBytes [0x67]), (CInteger 9, CInteger 5), (CInteger 10, CBytes [1]),
     (CInteger 11, CBytes (replicate 32 5)), (CInteger 12, CBool False),
     (CInteger 13, CBytes (replicate 32 0xe1)), (CInteger 14, CBytes (replicate 64 1))]"

lemma export_cap_parses: "parse_capability export_cap_map = Inr export_cap"
proof -
  have "check_strict_keys export_cap_map (\<lambda>n. 1 \<le> n \<and> n \<le> 14)"
    by (simp add: check_strict_keys_iff export_cap_map_def as_u64_def)
  moreover have "as_u8 (CInteger 7) = Some 7" "as_u8 (CInteger 1) = Some 1" "as_u8 (CInteger 0) = Some 0"
    by (simp_all add: as_u8_def u8_try_from_def as_u64_def)
  moreover have "is_valid_scope_target [0x67]"
    by (simp add: is_valid_scope_target_def MAX_SCOPE_TARGET_LEN_def)
  ultimately show ?thesis
    using sample_env
    by (simp add: parse_capability_def export_cap_map_def export_cap_def sample_cap_def map_get_def as_u64_def as_text_def
        as_bool_def as_bytes32_def as_bytes_n_def as_bytes_def guarded_def parse_treasury_sub_op_def
        PRIVILEGED_OPCODES_def OPCODE_CONFIGURE_TREASURY_def MAX_CAP_REQUEST_ID_LEN_def)
qed

lemma export_cap_verified:
  "verify_capability_extract sample_crypto export_cap_map 7 [1] (kb_config treasury_body) (kb_counters treasury_body)
     = Inr sample_verified"
proof -
  have "highest_counter treasury_body (replicate 32 0xa1, 0, [0x67]) = 4"
    using sample_highest by (simp add: highest_counter_def treasury_body_def)
  then show ?thesis
    unfolding verify_capability_extract_Inr
    using export_cap_parses
    by (intro exI [of _ export_cap])
      (simp add: export_cap_def sample_cap_def CAP_FORMAT_VERSION_def tier_ok_def cap_authority_def sample_body_simps sample_crypto_def
        sample_config_def sample_verified_def treasury_body_def OPCODE_CONFIGURE_TREASURY_def)
qed

definition export_request :: "(cbor_value \<times> cbor_value) list" where
  "export_request = [(CInteger 1, CInteger 1), (CInteger 2, CInteger 7), (CInteger 3, CText COMMAND_DOMAIN),
     (CInteger 4, CBytes [1]), (CInteger 5, CMap export_cap_map), (CInteger 7, CMap [])]"

definition export_envelope :: agent_envelope where
  "export_envelope = \<lparr>ae_agent_version = 1, ae_opcode = 7, ae_command_domain = COMMAND_DOMAIN,
     ae_request_id = [1], ae_capability = Some export_cap_map, ae_key_ref = None, ae_payload = Some []\<rparr>"

lemma as_u8_export: "as_u8 (CInteger 7) = Some 7" "as_u8 (CInteger 8) = Some 8"
  by (simp_all add: as_u8_def u8_try_from_def as_u64_def)

lemma export_request_decodes: "decode_envelope (sample_request export_request) = Inr export_envelope"
proof -
  have "strict_decode_map (sample_request export_request) = Some export_request"
    unfolding sample_request_def strict_decode_map_iff
    by (simp add: export_request_def export_cap_map_def MAX_CBOR_DEPTH_def put_uint_def Let_def
        COMMAND_DOMAIN_utf8 utf8_valid_ascii ascii_def)
  moreover have "check_strict_keys export_request (\<lambda>n. 1 \<le> n \<and> n \<le> 7)"
    by (simp add: check_strict_keys_iff export_request_def as_u64_def)
  ultimately show ?thesis
    by (simp add: decode_envelope_def export_request_def export_envelope_def req_def map_get_def as_u64_def as_u8_sample
        as_u8_export as_text_def as_bytes_def opt_field_def as_map_def guarded_def MAX_REQUEST_ID_LEN_def)
qed

lemma sample_export_tail:
  obtains b1 b2 b3 c where "advance_counter (replicate 32 0xa1) 0 [0x67] 5 treasury_body = Inr b1"
    "record_audit (audit_provenance export_envelope sample_verified b1) b1 = Inr b2"
    "advance_export_high_water b2 = Inr b3" "advance_commit_epoch True b3 = Inr c"
    "kb_entries c = kb_entries treasury_body" "kb_config c = sample_config"
proof -
  obtain b1 where b1: "advance_counter (replicate 32 0xa1) 0 [0x67] 5 treasury_body = Inr b1"
    by (simp add: treasury_body_def sample_body_def advance_counter_def Let_def counter_row_def)
  have f1: "kb_audit b1 = kb_audit sample_body" "kb_entries b1 = kb_entries treasury_body" "kb_config b1 = sample_config"
      "kb_freshness_epoch b1 = 6" "kb_structural_version b1 = 3"
    by (subst advance_counter_frame [OF b1], simp add: treasury_body_def sample_body_def)+
  obtain b2 where b2: "record_audit (audit_provenance export_envelope sample_verified b1) b1 = Inr b2"
    using f1(1) by (auto simp: record_audit_def sample_body_def Let_def checked_add_u64_def saturating_sub_u64_def)
  obtain b3 where b3: "advance_export_high_water b2 = Inr b3"
    by (simp add: advance_export_high_water_def Let_def)
  obtain au where "b2 = b1\<lparr>kb_audit := au\<rparr>" using record_audit_frame [OF b2] by blast
  moreover have "\<exists>au. b3 = b2\<lparr>kb_audit := au\<rparr>"
    using b3 by (cases b2) (auto simp: advance_export_high_water_def Let_def split: if_splits)
  ultimately have "kb_entries b3 = kb_entries treasury_body" "kb_config b3 = sample_config"
      "kb_freshness_epoch b3 = 6" "kb_structural_version b3 = 3"
    using f1 by auto
  then show thesis using that [OF b1 b2 b3] by (simp add: advance_commit_epoch_Inr)
qed

lemma sample_keys_distinct: "ke_key_ref (sample_key 1 p) \<noteq> ke_key_ref (sample_key 2 q)"
  by (simp add: sample_key_def)

lemma sample_export_dispatch:
  obtains c blob ds' where "dispatch_agent_with_backup (sample_backend (restore_data_of c (kb_entries c)) S rt) bound_process
      AgentGatewayProfile (sample_request export_request) treasury_body [1] (slot, [Some (replicate 32 8), Some (replicate 32 9)])
    = (Inr (ExportBackupResp c blob [1]), slot, [Some (replicate 32 9)])"
proof -
  let ?ds = "[Some (replicate 32 8), Some (replicate 32 9)] :: draws"
  obtain b1 b2 b3 c where tail: "advance_counter (replicate 32 0xa1) 0 [0x67] 5 treasury_body = Inr b1"
    "record_audit (audit_provenance export_envelope sample_verified b1) b1 = Inr b2"
    "advance_export_high_water b2 = Inr b3" "advance_commit_epoch True b3 = Inr c"
    and c: "kb_entries c = kb_entries treasury_body" "kb_config c = sample_config"
    by (rule sample_export_tail)
  let ?d = "restore_data_of c (kb_entries c)"
  let ?B = "sample_backend ?d S rt"
  let ?out = "RESTORE_INGRESS_MAGIC @ be16 RESTORE_INGRESS_FORMAT_VERSION @ [2]"
  have es: "kb_entries c = [sample_key 1 AgentFaucetTreasuryK1, sample_key 2 AgentTransferK1]"
    using c(1) by (simp add: treasury_body_def)
  have sel: "selected_key_refs c (map ke_key_ref (kb_entries c)) = map ke_key_ref (kb_entries c)"
    by (simp add: selected_key_refs_def)
  have ser: "ser_ingress (ingress_for ?d) ?d = Some [2]" by (simp add: ingress_for_def)
  have pl: "build_restore_ingress_payload (ingress_for ?d) c (map ke_key_ref (kb_entries c)) = Inr ?out"
    using parse_built_payload [OF sample_backend_correct(2) ser] ser
    by (simp add: build_restore_ingress_payload_def es sample_keys_distinct)
  have bind: "payload_binding sample_crypto o' s r q = replicate 32 5" for o' s r q
    by (simp add: payload_binding_def sample_crypto_def)
  have cand: "export_candidate sample_crypto (ingress_for ?d) sample_ciborium export_envelope treasury_body sample_verified
      = Inr (c, [3], ?out)"
    using tail pl sel c(1)
    by (simp add: export_candidate_def export_envelope_def decode_export_selector_def map_get_def bind sample_verified_def
        export_requested_def build_key_refs_manifest_def sample_ciborium_def)
       (simp add: treasury_body_def)
  let ?rid = "derive_recovery_key_id sample_crypto (replicate 1568 0)"
  let ?h = "enc_header ?rid 11565 (ascii ''lab'') (replicate 1568 1) [3] (replicate 12 0)"
  have "seal_backup_blob_with_m sample_crypto sample_pq sample_kem (replicate 1568 0) ?rid 11565 (ascii ''lab'') [3] ?out m
      = Inr (?h @ enc_lp32 (?out @ replicate 16 0))" for m
    by (rule seal_backup_blob_total [of _ _ _ _ "replicate 32 7"])
      (simp_all add: sample_kem_def derive_payload_key_def derive_recovery_key_id_def ascii_def sample_encrypt)
  then have "handle_export_backup sample_crypto sample_pq sample_kem (ingress_for ?d) sample_ciborium export_envelope
      treasury_body sample_verified ?ds
      = (Inr (ExportBackupResp c (?h @ enc_lp32 (?out @ replicate 16 0)) [1]), [Some (replicate 32 9)])"
    by (simp add: handle_export_backup_def cand c(2) Let_def getrandom_def seal_backup_blob_def)
      (simp add: sample_config_def export_envelope_def)
  moreover have "verify_capability sample_crypto export_envelope treasury_body = Inr sample_verified"
    using export_cap_verified by (simp add: verify_capability_def export_envelope_def)
  moreover have "admit bound_process AgentGatewayProfile (sample_request export_request) treasury_body
      = Inr (export_envelope, ExportBackup)"
    unfolding admit_Inr export_request_decodes
    by (simp add: export_envelope_def AGENT_GATEWAY_VERSION_def opcode_from_u8_def)
  ultimately show thesis
    using that [of c] by (simp add: dispatch_agent_with_backup_def export_envelope_def)
qed

section \<open>Properties\<close>

text \<open>C15: A backup can be restored from. When EXPORT_BACKUP succeeds, the request carried a verified admin capability and it
  is spent: the candidate is valid, the counters and versions have advanced, the audit ring counts as exported, and keys,
  spending and configuration are untouched. The blob that goes out is bound to the sealed recovery key, chain and
  environment, its manifest lists exactly the keys the selector asked for, all of them present, and the holder of the
  offline recovery seed opens it to a payload that the restore path parses to those keys with the candidate's counters,
  spending and audit records.\<close>

theorem exported_backup_recovers:
  assumes "dispatch_agent_with_backup B w profile payload b measurement (slot, ds)
      = (Inr (ExportBackupResp c blob rid), slot', ds')"
    and "body_ok b" "kem_correct (bk_kem B)" "aead12_correct (bk_pq B)" "ingress_serde_correct (bk_ingress B)"
    and "length seed = 64" "kem_ek (bk_kem B) seed = kc_backup_recovery_wrapping_pubkey (kb_config b)"
  shows "\<exists>env v pl selector requested. decode_envelope payload = Inr env \<and> ae_opcode env = 7 \<and> is_anti_rollback_configured w
    \<and> verify_capability (bk_crypto B) env b = Inr v \<and> ae_payload env = Some pl \<and> decode_export_selector pl = Inr selector
    \<and> payload_binding (bk_crypto B) 7 None (ae_request_id env) (export_canonical_params selector) = vc_payload_binding v
    \<and> export_requested b selector = Inr requested \<and> export_recovers B seed requested c blob
    \<and> spends_capability env v b c \<and> kb_entries c = kb_entries b \<and> kb_faucet c = kb_faucet b \<and> kb_config c = kb_config b
    \<and> Suc (unat (au_last_exported_seq (kb_audit c))) = unat (au_next_seq (kb_audit c))"
proof (rule dispatch_export [OF assms(1)], goal_cases)
  case (1 env v)
  obtain m where m: "verify_capability_extract (bk_crypto B) m (ae_opcode env) (ae_request_id env) (kb_config b) (kb_counters b) = Inr v"
    using 1(4) by (auto simp: verify_capability_Inr)
  show ?case
    by (rule handle_export_recovers [OF 1(6) assms(2) verified_scope_target [OF m] decode_envelope_request_id [OF 1(1)] assms(3-7)])
      (use 1(1-4) in \<open>intro exI [of _ env] exI [of _ v], auto\<close>)
qed

lemma exported_backup_recovers_witness:
  "\<exists>B c blob ds' refs. dispatch_agent_with_backup B bound_process AgentGatewayProfile (sample_request export_request)
      treasury_body [1] (\<lparr>rs_ephemeral = None, rs_quote = ()\<rparr>, [Some (replicate 32 8), Some (replicate 32 9)])
      = (Inr (ExportBackupResp c blob [1]), \<lparr>rs_ephemeral = None, rs_quote = ()\<rparr>, ds')
    \<and> export_recovers (B :: (unit, unit) backend) (replicate 64 0) refs c blob"
proof -
  obtain c blob ds' where d: "dispatch_agent_with_backup (sample_backend (restore_data_of c (kb_entries c)) sample_serde (\<lambda>ch f. (Inr f, ch)))
      bound_process AgentGatewayProfile (sample_request export_request) treasury_body [1]
      (\<lparr>rs_ephemeral = None, rs_quote = ()\<rparr>, [Some (replicate 32 8), Some (replicate 32 9)])
    = (Inr (ExportBackupResp c blob [1]), \<lparr>rs_ephemeral = None, rs_quote = ()\<rparr>, [Some (replicate 32 9)])"
    by (rule sample_export_dispatch)
  have seed: "length (replicate 64 (0 :: u8)) = 64"
      "kem_ek sample_kem (replicate 64 0) = kc_backup_recovery_wrapping_pubkey (kb_config treasury_body)"
    by (simp_all add: sample_kem_def treasury_body_def sample_body_simps sample_config_def)
  show ?thesis
    using exported_backup_recovers [OF d treasury_body_ok(1), unfolded sample_backend_simps,
        OF sample_backend_correct(1) sample_pq_correct(1) sample_backend_correct(2) seed] d
    by blast
qed

section \<open>What a restore establishes\<close>

text \<open>The evidence an accepted restore rests on: the published ephemeral key opened the envelope, everything names this
  enclave and this original backup, and the high-water is signed by the recovery authority sealed before the restore.\<close>

definition restore_evidence :: "('c, 'q) backend \<Rightarrow> agent_envelope \<Rightarrow> keystore_body \<Rightarrow> verified_capability \<Rightarrow> bytes
    \<Rightarrow> 'q restore_slot \<Rightarrow> restore_request \<Rightarrow> restore_ingress_data \<Rightarrow> decoded_marks \<Rightarrow> bool" where
  "restore_evidence B env b v measurement slot request data high \<longleftrightarrow>
     (\<exists>e opened p manifest. rs_ephemeral slot = Some e
        \<and> open_restore_ingress_envelope (bk_crypto B) (bk_pq B) (bk_kem B) (re_decaps_seed e) (rq_ingress_envelope request) = Inr opened
        \<and> parse_restore_ingress (bk_ingress B) (oi_payload opened) = Inr data
        \<and> oi_dest_measurement opened = measurement
        \<and> oi_chain_id opened = kc_twod_chain_id (kb_config b)
        \<and> oi_environment_identifier opened = kc_environment_identifier (kb_config b)
        \<and> rc_twod_chain_id (ri_config data) = kc_twod_chain_id (kb_config b)
        \<and> rc_environment_identifier (ri_config data) = kc_environment_identifier (kb_config b)
        \<and> oi_original_backup_digest opened = compute_original_backup_digest (bk_crypto B) (rq_original_backup request)
        \<and> build_key_refs_manifest (bk_cbor B) (map ke_key_ref (ri_entries data)) = Inr manifest
        \<and> oi_manifest_hash opened = compute_manifest_hash (bk_crypto B) manifest
        \<and> set (rq_requested_refs request) = ke_key_ref ` set (ri_entries data)
        \<and> strict_parse (rq_original_backup request) = Inr p
        \<and> pb_recovery_key_id p = derive_recovery_key_id (bk_crypto B) (kc_backup_recovery_wrapping_pubkey (kb_config b))
        \<and> payload_binding (bk_crypto B) 8 None (ae_request_id env)
            (restore_canonical_params (rq_requested_refs request) (oi_original_backup_digest opened)) = vc_payload_binding v
        \<and> ed_verify_strict (bk_crypto B) (kc_recovery_authority_pk (kb_config b))
            (recovery_high_water_preimage (kc_twod_chain_id (kb_config b)) (kc_environment_identifier (kb_config b))
               (ae_request_id env) (hw_marks_payload (rq_recovery_high_water request)))
            (hw_signature (rq_recovery_high_water request))
        \<and> hw_marks_payload (rq_recovery_high_water request) = enc_marks high \<and> marks_ok MAX_COUNTER_ENTRIES high)"

text \<open>The effect: nothing counted is lowered below the enclave's own state, the backup or the signed high-water, and the spends are
  those of the signed high-water.\<close>

definition restored :: "keystore_body \<Rightarrow> restore_ingress_data \<Rightarrow> decoded_marks \<Rightarrow> verified_capability \<Rightarrow> keystore_body \<Rightarrow> bool" where
  "restored b data high v c \<longleftrightarrow>
     kb_entries c = ri_entries data
     \<and> covers c (kb_counters b) (kb_faucet b) \<and> covers c (ri_counters data) (ri_faucet data)
     \<and> (\<forall>r \<in> set (marks_entries (kc_environment_identifier (kb_config b)) high). row_covered (kb_counters c) r)
     \<and> fs_cumulative_native_spend (kb_faucet c) = dm_cumulative_native_spend high
     \<and> fs_lifetime_spend (kb_faucet c) = dm_lifetime_spend high
     \<and> unat (vc_counter v) \<le> highest_counter c (vc_authority v, vc_scope_class v, vc_scope_target v)
     \<and> max (unat (kb_strict_recovery_counter b)) (unat (ri_strict_recovery_counter data)) < unat (kb_strict_recovery_counter c)
     \<and> dm_strict_recovery_counter high \<le> kb_strict_recovery_counter c
     \<and> unat (kb_freshness_epoch c) = Suc (unat (kb_freshness_epoch b))
     \<and> unat (kb_structural_version c) = Suc (unat (kb_structural_version b))
     \<and> kc_anchor_root (kb_config c) = kc_anchor_root (kb_config b)
     \<and> kc_backup_recovery_wrapping_pubkey (kb_config c) = kc_backup_recovery_wrapping_pubkey (kb_config b)
     \<and> kc_enclave_scope_id (kb_config c) = kc_enclave_scope_id (kb_config b)
     \<and> kc_fleet_scope_id (kb_config c) = kc_fleet_scope_id (kb_config b)
     \<and> kc_twod_chain_id (kb_config c) = kc_twod_chain_id (kb_config b)
     \<and> kc_environment_identifier (kb_config c) = kc_environment_identifier (kb_config b)
     \<and> (\<forall>r \<in> set (au_records (kb_audit c)). unat (ar_seq r) \<le> unat (au_last_exported_seq (kb_audit c)))"

lemma handle_restore_Inr:
  assumes "handle_restore_backup C Q K I cb env b v measurement slot = Inr (RestoreBackupResp c rid)"
  obtains payload request seed m opened data rid' high c1 c2 where "ae_payload env = Some payload"
    "decode_restore_request payload = Inr request" "snapshot_restore_ephemeral slot = Some (seed, m)"
    "open_restore_ingress_envelope C Q K seed (rq_ingress_envelope request) = Inr opened"
    "parse_restore_ingress I (oi_payload opened) = Inr data"
    "verify_restore_ingress C cb opened data (rq_original_backup request) (rq_requested_refs request) measurement
       (kc_twod_chain_id (kb_config b)) (kc_environment_identifier (kb_config b)) = Inr ()"
    "backup_recovery_key_id (rq_original_backup request) = Inr rid'"
    "rid' = derive_recovery_key_id C (kc_backup_recovery_wrapping_pubkey (kb_config b))"
    "payload_binding C 8 None (ae_request_id env)
       (restore_canonical_params (rq_requested_refs request) (oi_original_backup_digest opened)) = vc_payload_binding v"
    "verify_recovery_high_water C (rq_recovery_high_water request) (kc_twod_chain_id (kb_config b))
       (kc_environment_identifier (kb_config b)) (ae_request_id env) (kc_recovery_authority_pk (kb_config b)) = Inr high"
    "verify_ac6_high_water b data high = Inr ()"
    "apply_restore_to_body data (au_capacity (kb_audit b)) b = Inr c1"
    "record_restore_counter v (adopt_ac6_high_water high c1) = Inr c2" "advance_commit_epoch True c2 = Inr c"
  using assms unfolding handle_restore_backup_def Let_def
  by (auto simp: res_bind_eq_Inr map_err_eq_Inr ok_or_eq_Inr split: if_splits)

text \<open>Recording the counter keeps every row covered and raises the capability's own.\<close>

lemma row_covered_raise:
  assumes "row_covered cs c" "\<And>d. ce_tuple (f d) = ce_tuple d"
    and "\<And>d. unat (ce_highest_accepted_counter d) \<le> unat (ce_highest_accepted_counter (f d))"
  shows "row_covered (update_first P f cs) c"
proof -
  have "\<exists>d' \<in> set (update_first P f cs). ce_tuple d' = ce_tuple d
      \<and> unat (ce_highest_accepted_counter d) \<le> unat (ce_highest_accepted_counter d')" if "d \<in> set cs" for d
    using that assms(2,3) by (induction cs) auto
  then show ?thesis using assms(1) unfolding row_covered_def by (metis order_trans)
qed

lemma record_restore_counter_Inr:
  assumes "record_restore_counter v b = Inr b'"
  shows "\<exists>cs. b' = b\<lparr>kb_counters := cs\<rparr>" "row_covered (kb_counters b) c \<Longrightarrow> row_covered (kb_counters b') c"
    "unat (vc_counter v) \<le> highest_counter b' (vc_authority v, vc_scope_class v, vc_scope_target v)"
proof -
  let ?row = "counter_row (vc_authority v) (kc_environment_identifier (kb_config b)) (vc_scope_class v) (vc_scope_target v)"
  let ?f = "\<lambda>c. c\<lparr>ce_highest_accepted_counter := max (ce_highest_accepted_counter c) (vc_counter v)\<rparr>"
  show cs: "\<exists>cs. b' = b\<lparr>kb_counters := cs\<rparr>"
    using assms by (auto simp: record_restore_counter_def Let_def split: if_splits)
  show "row_covered (kb_counters b') c" if c: "row_covered (kb_counters b) c"
  proof (cases "find ?row (kb_counters b)")
    case None
    then show ?thesis using assms c
      by (auto simp: record_restore_counter_def Let_def row_covered_def split: if_splits)
  next
    case (Some d)
    have "row_covered (update_first ?row ?f (kb_counters b)) c"
      by (rule row_covered_raise [OF c]) (simp_all add: ce_tuple_def word_le_nat_alt [symmetric])
    then show ?thesis using assms Some by (simp add: record_restore_counter_def Let_def) auto
  qed
  have cfg: "kb_config b' = kb_config b" using cs by auto
  show "unat (vc_counter v) \<le> highest_counter b' (vc_authority v, vc_scope_class v, vc_scope_target v)"
  proof (cases "find ?row (kb_counters b)")
    case None
    then show ?thesis using assms
      by (auto simp: record_restore_counter_def Let_def highest_counter_def find_snoc counter_row_def split: if_splits)
  next
    case (Some d)
    have "find ?row (update_first ?row ?f (kb_counters b)) = Some (?f d)"
      by (subst find_update_first_same) (simp add: counter_row_def, simp add: Some)
    then show ?thesis using assms Some
      by (auto simp: record_restore_counter_def Let_def highest_counter_def word_le_nat_alt [symmetric])
  qed
qed

lemma handle_restore_evidence:
  assumes "handle_restore_backup (bk_crypto B) (bk_pq B) (bk_kem B) (bk_ingress B) (bk_cbor B) env b v measurement slot
      = Inr (RestoreBackupResp c rid)"
  shows "\<exists>payload request data high. ae_payload env = Some payload \<and> decode_restore_request payload = Inr request
    \<and> restore_evidence B env b v measurement slot request data high \<and> restored b data high v c"
proof (rule handle_restore_Inr [OF assms], goal_cases)
  case (1 payload request seed m opened data rid' high c1 c2)
  note apply_f = apply_restore_frame [OF 1(12)] and counts = apply_restore_counts [OF 1(12)]
    and rec = record_restore_counter_Inr [OF 1(13)]
  have ver: "oi_dest_measurement opened = measurement" "oi_chain_id opened = kc_twod_chain_id (kb_config b)"
      "oi_environment_identifier opened = kc_environment_identifier (kb_config b)"
      "rc_twod_chain_id (ri_config data) = kc_twod_chain_id (kb_config b)"
      "rc_environment_identifier (ri_config data) = kc_environment_identifier (kb_config b)"
      "oi_original_backup_digest opened = compute_original_backup_digest (bk_crypto B) (rq_original_backup request)"
      "set (rq_requested_refs request) = ke_key_ref ` set (ri_entries data)"
      "\<exists>manifest. build_key_refs_manifest (bk_cbor B) (map ke_key_ref (ri_entries data)) = Inr manifest
         \<and> oi_manifest_hash opened = compute_manifest_hash (bk_crypto B) manifest"
    using 1(6) by (auto simp: verify_restore_ingress_iff)
  have slot: "\<exists>e. rs_ephemeral slot = Some e \<and> re_decaps_seed e = seed"
    using 1(3) by (auto simp: snapshot_restore_ephemeral_def)
  have "\<exists>p. strict_parse (rq_original_backup request) = Inr p \<and> pb_recovery_key_id p = rid'"
    using 1(7) by (auto simp: backup_recovery_key_id_def res_bind_eq_Inr)
  then have ev: "restore_evidence B env b v measurement slot request data high"
    using ver slot 1(4,5,8,9,10) unfolding restore_evidence_def verify_recovery_high_water_Inr by blast
  let ?a = "adopt_ac6_high_water high c1"
  obtain cs where c2: "c2 = ?a\<lparr>kb_counters := cs\<rparr>" using rec(1) by blast
  have c: "c = c2\<lparr>kb_freshness_epoch := kb_freshness_epoch c2 + 1, kb_structural_version := kb_structural_version c2 + 1\<rparr>"
    "unat (kb_freshness_epoch c2 + 1) = Suc (unat (kb_freshness_epoch c2))"
    "unat (kb_structural_version c2 + 1) = Suc (unat (kb_structural_version c2))"
    using 1(14) unat_plus_one by (simp_all add: advance_commit_epoch_Inr)
  have a: "kb_entries ?a = kb_entries c1" "kb_config ?a = kb_config c1" "kb_audit ?a = kb_audit c1"
    "kb_freshness_epoch ?a = kb_freshness_epoch c1" "kb_structural_version ?a = kb_structural_version c1"
    "kb_strict_recovery_counter ?a = max (kb_strict_recovery_counter c1) (dm_strict_recovery_counter high)"
    by (simp_all add: adopt_ac6_high_water_def Let_def)
  have cov: "covers ?a cs' fs \<Longrightarrow> covers c cs' fs" for cs' fs
    using rec(2) by (auto simp: covers_def c(1)) (auto simp: c2)
  have "covers ?a (kb_counters ?a) (kb_faucet ?a)" by (auto simp: covers_def row_covered_def)
  then have "covers c (kb_counters ?a) (kb_faucet ?a)" by (rule cov)
  then have marks: "\<forall>r \<in> set (marks_entries (kc_environment_identifier (kb_config b)) high). row_covered (kb_counters c) r"
    by (simp add: covers_def adopt_high_water_counters apply_f(9) ver(5))
  have "kb_faucet c = kb_faucet ?a" by (simp add: c(1) c2)
  then have spends: "fs_cumulative_native_spend (kb_faucet c) = dm_cumulative_native_spend high"
    "fs_lifetime_spend (kb_faucet c) = dm_lifetime_spend high" by (simp_all add: adopt_ac6_high_water_def Let_def)
  have cfg: "kb_config c = kb_config c1" by (simp add: c(1) c2 a)
  have hc: "highest_counter c = highest_counter c2" by (rule highest_counter_cong) (simp_all add: c(1))
  have sr: "kb_strict_recovery_counter c = max (kb_strict_recovery_counter c1) (dm_strict_recovery_counter high)"
    by (simp add: c(1) c2 a)
  have "kb_strict_recovery_counter c1 \<le> kb_strict_recovery_counter c" by (simp add: sr)
  then have strict: "max (unat (kb_strict_recovery_counter b)) (unat (ri_strict_recovery_counter data))
      < unat (kb_strict_recovery_counter c)" using counts(1) unfolding word_le_nat_alt by linarith
  have "kb_audit c = kb_audit c1" "kb_entries c = kb_entries c1" by (simp_all add: c(1) c2 a)
  then have "restored b data high v c"
    using cov [OF adopt_covers(1) [OF 1(11)]] cov [OF adopt_covers(2) [OF 1(11)]] marks spends rec(3) strict counts(2) c(2,3) apply_f sr
    by (simp add: restored_def hc cfg ver(4,5)) (simp add: c(1) c2 a apply_f)
  then show ?case using ev 1(1,2) by blast
qed

section \<open>A sample restore\<close>

definition restore_cap :: capability where
  "restore_cap = reset_cap\<lparr>cp_command_opcode := 8, cp_treasury_sub_op := None\<rparr>"

definition restore_cap_map :: "(cbor_value \<times> cbor_value) list" where
  "restore_cap_map = [(CInteger 1, CInteger 2), (CInteger 2, CInteger 8), (CInteger 4, CInteger 2),
     (CInteger 5, CInteger 11565), (CInteger 6, CText (ascii ''lab'')), (CInteger 7, CInteger 0),
     (CInteger 8, CBytes [0x67]), (CInteger 9, CInteger 1), (CInteger 10, CBytes [1]),
     (CInteger 11, CBytes (replicate 32 5)), (CInteger 12, CBool True),
     (CInteger 13, CBytes (replicate 32 0xe1)), (CInteger 14, CBytes (replicate 64 1))]"

lemma restore_cap_parses: "parse_capability restore_cap_map = Inr restore_cap"
proof -
  have "check_strict_keys restore_cap_map (\<lambda>n. 1 \<le> n \<and> n \<le> 14)"
    by (simp add: check_strict_keys_iff restore_cap_map_def as_u64_def)
  moreover have "as_u8 (CInteger 2) = Some 2" by (simp add: as_u8_def u8_try_from_def as_u64_def)
  moreover have "is_valid_scope_target [0x67]"
    by (simp add: is_valid_scope_target_def MAX_SCOPE_TARGET_LEN_def)
  ultimately show ?thesis
    using sample_env
    by (simp add: parse_capability_def restore_cap_map_def restore_cap_def reset_cap_def map_get_def as_u64_def as_text_def
        as_bool_def as_bytes32_def as_bytes_n_def as_bytes_def guarded_def parse_treasury_sub_op_def as_u8_sample as_u8_export
        PRIVILEGED_OPCODES_def OPCODE_CONFIGURE_TREASURY_def MAX_CAP_REQUEST_ID_LEN_def)
qed

definition restore_verified :: verified_capability where
  "restore_verified = reset_verified\<lparr>vc_treasury_sub_op := None\<rparr>"

lemma restore_cap_verified:
  "verify_capability_extract sample_crypto restore_cap_map 8 [1] (kb_config sample_body) (kb_counters sample_body)
     = Inr restore_verified"
proof -
  have "highest_counter sample_body (replicate 32 0xb2, 0, [0x67]) = 0"
    by (simp add: highest_counter_def sample_body_def counter_row_def)
  then show ?thesis
    unfolding verify_capability_extract_Inr
    using restore_cap_parses
    by (intro exI [of _ restore_cap])
      (simp add: restore_cap_def reset_cap_def CAP_FORMAT_VERSION_def tier_ok_def cap_authority_def sample_body_simps
        sample_crypto_def sample_config_def restore_verified_def reset_verified_def OPCODE_CONFIGURE_TREASURY_def)
qed

definition restore_payload :: "bytes \<Rightarrow> bytes \<Rightarrow> bytes \<Rightarrow> (cbor_value \<times> cbor_value) list" where
  "restore_payload ing backup marks = [(CInteger 1, CBytes ing), (CInteger 2, CBytes backup),
     (CInteger 3, CArray [CBytes (replicate 32 2)]),
     (CInteger 4, CMap [(CInteger 1, CBytes marks), (CInteger 2, CBytes (replicate 64 1))])]"

definition restore_message :: "bytes \<Rightarrow> bytes \<Rightarrow> bytes \<Rightarrow> (cbor_value \<times> cbor_value) list" where
  "restore_message ing backup marks = [(CInteger 1, CInteger 1), (CInteger 2, CInteger 8), (CInteger 3, CText COMMAND_DOMAIN),
     (CInteger 4, CBytes [1]), (CInteger 5, CMap restore_cap_map), (CInteger 7, CMap (restore_payload ing backup marks))]"

definition restore_envelope :: "bytes \<Rightarrow> bytes \<Rightarrow> bytes \<Rightarrow> agent_envelope" where
  "restore_envelope ing backup marks = \<lparr>ae_agent_version = 1, ae_opcode = 8, ae_command_domain = COMMAND_DOMAIN,
     ae_request_id = [1], ae_capability = Some restore_cap_map, ae_key_ref = None,
     ae_payload = Some (restore_payload ing backup marks)\<rparr>"

lemma restore_message_decodes:
  assumes "length ing \<le> 4096" "length backup \<le> 4096" "length marks \<le> 4096"
  shows "decode_envelope (sample_request (restore_message ing backup marks)) = Inr (restore_envelope ing backup marks)"
proof -
  have "strict_decode_map (sample_request (restore_message ing backup marks)) = Some (restore_message ing backup marks)"
    unfolding sample_request_def strict_decode_map_iff
    using assms
    by (simp add: restore_message_def restore_payload_def restore_cap_map_def MAX_CBOR_DEPTH_def put_uint_def Let_def
        COMMAND_DOMAIN_utf8 utf8_valid_ascii ascii_def)
  moreover have "check_strict_keys (restore_message ing backup marks) (\<lambda>n. 1 \<le> n \<and> n \<le> 7)"
    by (simp add: check_strict_keys_iff restore_message_def as_u64_def)
  ultimately show ?thesis
    by (simp add: decode_envelope_def restore_message_def restore_envelope_def req_def map_get_def as_u64_def as_u8_sample
        as_u8_export as_text_def as_bytes_def opt_field_def as_map_def guarded_def MAX_REQUEST_ID_LEN_def)
qed

lemma restore_payload_decodes:
  "decode_restore_request (restore_payload ing backup marks) = Inr \<lparr>rq_ingress_envelope = ing, rq_original_backup = backup,
     rq_requested_refs = [replicate 32 2],
     rq_recovery_high_water = \<lparr>hw_marks_payload = marks, hw_signature = replicate 64 1\<rparr>\<rparr>"
  by (simp add: decode_restore_request_def restore_payload_def rr_as_bytes_def as_ref_array_def as_high_water_def)

definition sample_original_backup :: bytes where
  "sample_original_backup = enc_header (derive_recovery_key_id sample_crypto (replicate 1568 0)) 11565 (ascii ''lab'')
     (replicate 1568 1) [3] (replicate 12 0) @ enc_lp32 []"

definition sample_restored_data :: restore_ingress_data where
  "sample_restored_data = restore_data_of sample_body [sample_key 2 AgentTransferK1]"

definition sample_ephemeral :: restore_ephemeral where
  "sample_ephemeral = \<lparr>re_encaps_key = replicate 1568 0, re_decaps_seed = replicate 64 0, re_measurement = [1],
     re_attestation_report = [8], re_cert_chain = [9]\<rparr>"

definition sample_slot :: "unit restore_slot" where
  "sample_slot = \<lparr>rs_ephemeral = Some sample_ephemeral, rs_quote = ()\<rparr>"

definition sample_ingress :: bytes where
  "sample_ingress = enc_ingress_header [1] 11565 (ascii ''lab'') (compute_manifest_hash sample_crypto [3])
     (compute_original_backup_digest sample_crypto sample_original_backup) (replicate 1568 1) (replicate 12 0)
   @ enc_lp32 ((RESTORE_INGRESS_MAGIC @ be16 RESTORE_INGRESS_FORMAT_VERSION @ [2]) @ replicate 16 0)"

lemma sample_original_backup_parses:
  "backup_recovery_key_id sample_original_backup = Inr (derive_recovery_key_id sample_crypto (replicate 1568 0))"
proof -
  let ?h = "enc_header (derive_recovery_key_id sample_crypto (replicate 1568 0)) 11565 (ascii ''lab'')
     (replicate 1568 1) [3] (replicate 12 0)"
  have "strict_parse sample_original_backup = Inr \<lparr>pb_recovery_key_id = derive_recovery_key_id sample_crypto (replicate 1568 0),
      pb_chain_id = 11565, pb_environment_identifier = ascii ''lab'', pb_kem_ct = replicate 1568 1,
      pb_key_refs_manifest = [3], pb_payload_nonce = replicate 12 0, pb_header = ?h, pb_dem_ct = []\<rparr>"
    by (simp add: strict_parse_iff parsed_ok_def sample_original_backup_def derive_recovery_key_id_def ascii_def)
  then show ?thesis by (simp add: backup_recovery_key_id_def)
qed

lemma sample_ingress_opens:
  "open_restore_ingress_envelope sample_crypto sample_pq sample_kem (replicate 64 0) sample_ingress
   = Inr \<lparr>oi_payload = RESTORE_INGRESS_MAGIC @ be16 RESTORE_INGRESS_FORMAT_VERSION @ [2], oi_dest_measurement = [1],
       oi_chain_id = 11565, oi_environment_identifier = ascii ''lab'',
       oi_manifest_hash = compute_manifest_hash sample_crypto [3],
       oi_original_backup_digest = compute_original_backup_digest sample_crypto sample_original_backup\<rparr>"
proof -
  have s: "seal_restore_ingress_envelope_with_m sample_crypto sample_pq sample_kem (kem_ek sample_kem (replicate 64 0)) [1] 11565
      (ascii ''lab'') (compute_manifest_hash sample_crypto [3])
      (compute_original_backup_digest sample_crypto sample_original_backup)
      (RESTORE_INGRESS_MAGIC @ be16 RESTORE_INGRESS_FORMAT_VERSION @ [2]) [] = Inr sample_ingress"
    unfolding sample_ingress_def
    by (rule seal_restore_ingress_total [of _ _ _ _ "replicate 32 7"])
      (simp_all add: sample_kem_def derive_ingress_key_def compute_manifest_hash_def compute_original_backup_digest_def
        ascii_def sample_encrypt)
  show ?thesis
    by (rule open_sealed_ingress [OF sample_backend_correct(1) sample_pq_correct(1) _ _ _ s])
      (simp_all add: compute_manifest_hash_def compute_original_backup_digest_def)
qed

lemma sample_restore_lengths: "length sample_ingress \<le> 4096" "length sample_original_backup \<le> 4096"
  by (simp_all add: sample_ingress_def sample_original_backup_def enc_ingress_header_def enc_header_def enc_lp16_def
      enc_lp32_def derive_recovery_key_id_def compute_manifest_hash_def compute_original_backup_digest_def ascii_def
      RESTORE_INGRESS_MAGIC_def)

lemma sample_marks_row: "dm_rows (marks_of sample_body) = [\<lparr>dr_authority = replicate 32 0xa1, dr_scope_class = 0,
    dr_scope_target = [0x67], dr_highest_accepted_counter = 4\<rparr>]"
  by (simp add: marks_of_def row_of_def sample_body_def)

lemma sample_marks_spends: "dm_cumulative_native_spend (marks_of sample_body) = fs_cumulative_native_spend sample_faucet"
    "dm_lifetime_spend (marks_of sample_body) = fs_lifetime_spend sample_faucet"
    "dm_strict_recovery_counter (marks_of sample_body) = 0"
  by (simp_all add: marks_of_def sample_body_def)

lemma sample_enc_marks_length: "length (enc_marks (marks_of sample_body)) \<le> 4096"
proof -
  note u = length_put_uint [THEN conjunct2]
  have "length (enc_row \<lparr>dr_authority = replicate 32 0xa1, dr_scope_class = 0, dr_scope_target = [0x67],
      dr_highest_accepted_counter = 4\<rparr>) \<le> 200"
    by (simp add: enc_row_def put_bytes_def put_uint_def Let_def)
  moreover have "length (fs_cumulative_native_spend sample_faucet) = 32" "length (fs_lifetime_spend sample_faucet) = 32"
    using sample_faucet_typed by (simp_all add: faucet_typed_def is_u256_def)
  ultimately show ?thesis
    by (simp add: enc_marks_def sample_marks_row sample_marks_spends put_bytes_def put_uint_def Let_def)
qed

lemma sample_high_water_dominates:
  "high_water_dominates (marks_of sample_body) (kb_counters sample_body) (fs_cumulative_native_spend sample_faucet)
     (fs_lifetime_spend sample_faucet)"
  by (simp add: high_water_dominates_def sample_marks_row sample_marks_spends) (simp add: sample_body_def)

abbreviation sample_restore_envelope :: agent_envelope where
  "sample_restore_envelope \<equiv> restore_envelope sample_ingress sample_original_backup (enc_marks (marks_of sample_body))"

lemma sample_restore_candidate:
  obtains c1 c2 c where "apply_restore_to_body sample_restored_data (au_capacity (kb_audit sample_body)) sample_body = Inr c1"
    "record_restore_counter restore_verified (adopt_ac6_high_water (marks_of sample_body) c1) = Inr c2"
    "advance_commit_epoch True c2 = Inr c" "body_ok c" "kb_config c = sample_config" "c \<noteq> sample_body"
proof -
  let ?key = "sample_key 2 AgentTransferK1"
  let ?row = "\<lparr>ce_authority = replicate 32 0xa1, ce_environment_identifier = ascii ''lab'', ce_scope_class = 0,
    ce_scope_target = [0x67], ce_highest_accepted_counter = 4\<rparr>"
  let ?cap = "\<lparr>ce_authority = replicate 32 0xb2, ce_environment_identifier = ascii ''lab'', ce_scope_class = 0,
    ce_scope_target = [0x67], ce_highest_accepted_counter = 1\<rparr>"
  let ?c1 = "sample_body\<lparr>kb_entries := [?key], kb_strict_recovery_counter := 1\<rparr>"
  let ?c2 = "?c1\<lparr>kb_counters := [?row, ?cap]\<rparr>"
  let ?c = "?c2\<lparr>kb_freshness_epoch := 7, kb_structural_version := 4\<rparr>"
  have c1: "apply_restore_to_body sample_restored_data (au_capacity (kb_audit sample_body)) sample_body = Inr ?c1"
    by (simp add: apply_restore_to_body_def sample_restored_data_def restore_data_of_def sample_body_def sample_config_def
        max_seq_def sample_record_def checked_add_u64_def Let_def)
  have c2: "record_restore_counter restore_verified (adopt_ac6_high_water (marks_of sample_body) ?c1) = Inr ?c2"
    by (simp add: record_restore_counter_def adopt_ac6_high_water_def sample_marks_row sample_marks_spends
        restore_verified_def reset_verified_def counter_row_def MAX_COUNTER_ENTRIES_def Let_def)
       (simp add: sample_body_def)
  have c: "advance_commit_epoch True ?c2 = Inr ?c"
    by (simp add: advance_commit_epoch_Inr) (simp add: sample_body_def)
  have ok: "body_ok ?c"
    using sample_body_ok by (simp add: body_ok_def counters_ok_def ce_tuple_def entry_ok_def sample_key_def sample_body_simps)
  show thesis
    by (rule that [OF c1 c2 c ok]) (simp_all add: sample_body_def)
qed

lemma sample_restore_dispatch:
  obtains c where "\<And>S rt ds. dispatch_agent_with_backup (sample_backend sample_restored_data S rt) bound_process AgentGatewayProfile
      (sample_request (restore_message sample_ingress sample_original_backup (enc_marks (marks_of sample_body))))
      sample_body [1] (sample_slot, ds) = (Inr (RestoreBackupResp c [1]), sample_slot, ds)"
    "body_ok c" "kb_config c = sample_config" "c \<noteq> sample_body"
proof -
  obtain c1 c2 c where cand: "apply_restore_to_body sample_restored_data (au_capacity (kb_audit sample_body)) sample_body = Inr c1"
    "record_restore_counter restore_verified (adopt_ac6_high_water (marks_of sample_body) c1) = Inr c2"
    "advance_commit_epoch True c2 = Inr c" and c: "body_ok c" "kb_config c = sample_config" "c \<noteq> sample_body"
    by (rule sample_restore_candidate)
  have refs: "ri_entries sample_restored_data = [sample_key 2 AgentTransferK1]"
    by (simp add: sample_restored_data_def restore_data_of_def)
  have parse: "parse_restore_ingress (ingress_for sample_restored_data)
      (RESTORE_INGRESS_MAGIC @ be16 RESTORE_INGRESS_FORMAT_VERSION @ [2]) = Inr sample_restored_data"
    by (rule parse_built_payload [OF sample_backend_correct(2)]) (simp add: ingress_for_def)
  let ?open = "\<lparr>oi_payload = RESTORE_INGRESS_MAGIC @ be16 RESTORE_INGRESS_FORMAT_VERSION @ [2], oi_dest_measurement = [1],
       oi_chain_id = 11565, oi_environment_identifier = ascii ''lab'',
       oi_manifest_hash = compute_manifest_hash sample_crypto [3],
       oi_original_backup_digest = compute_original_backup_digest sample_crypto sample_original_backup\<rparr>"
  have ver: "verify_restore_ingress sample_crypto sample_ciborium ?open sample_restored_data sample_original_backup
      [replicate 32 2] [1] (kc_twod_chain_id sample_config) (kc_environment_identifier sample_config) = Inr ()"
    unfolding verify_restore_ingress_iff refs
    by (simp add: build_key_refs_manifest_def sample_ciborium_def sample_restored_data_def restore_data_of_def
        sample_body_simps sample_config_def sample_key_def)
  have high: "verify_recovery_high_water sample_crypto
      \<lparr>hw_marks_payload = enc_marks (marks_of sample_body), hw_signature = replicate 64 1\<rparr>
      (kc_twod_chain_id sample_config) (kc_environment_identifier sample_config) [1] (kc_recovery_authority_pk sample_config)
      = Inr (marks_of sample_body)"
    unfolding verify_recovery_high_water_Inr
    using marks_of_ok [OF sample_body_ok sample_body_typed] by (simp add: sample_crypto_def)
  have ac6: "verify_ac6_high_water sample_body sample_restored_data (marks_of sample_body) = Inr ()"
    using sample_high_water_dominates
    by (simp add: verify_ac6_high_water_def sample_restored_data_def restore_data_of_def) (simp add: sample_body_def)
  have bind: "payload_binding sample_crypto o' s r q = replicate 32 5" for o' s r q
    by (simp add: payload_binding_def sample_crypto_def)
  have h: "handle_restore_backup sample_crypto sample_pq sample_kem (ingress_for sample_restored_data) sample_ciborium
      sample_restore_envelope sample_body restore_verified [1] sample_slot = Inr (RestoreBackupResp c [1])"
    using cand ver high ac6 parse sample_ingress_opens sample_original_backup_parses
    by (simp add: handle_restore_backup_def restore_envelope_def restore_payload_decodes snapshot_restore_ephemeral_def
        sample_slot_def sample_ephemeral_def sample_body_simps(1) bind)
      (simp add: sample_config_def restore_verified_def reset_verified_def)
  have v: "verify_capability sample_crypto sample_restore_envelope sample_body = Inr restore_verified"
    using restore_cap_verified by (simp add: verify_capability_def restore_envelope_def)
  have "admit bound_process AgentGatewayProfile (sample_request (restore_message sample_ingress sample_original_backup
      (enc_marks (marks_of sample_body)))) sample_body = Inr (sample_restore_envelope, RestoreBackup)"
    unfolding admit_Inr restore_message_decodes [OF sample_restore_lengths sample_enc_marks_length]
    by (simp add: restore_envelope_def AGENT_GATEWAY_VERSION_def opcode_from_u8_def)
  then have "dispatch_agent_with_backup (sample_backend sample_restored_data S rt) bound_process AgentGatewayProfile
      (sample_request (restore_message sample_ingress sample_original_backup (enc_marks (marks_of sample_body))))
      sample_body [1] (sample_slot, ds) = (Inr (RestoreBackupResp c [1]), sample_slot, ds)" for S rt ds
    using v h by (simp add: dispatch_agent_with_backup_def restore_envelope_def)
  then show thesis using that c by blast
qed

text \<open>C3: A restore is confined. When RESTORE_BACKUP succeeds, the anti-rollback mechanism was configured, a recovery
  capability verified against the body before the restore, and the evidence was complete: the published ephemeral key
  opened the envelope, which names this enclave's measurement, chain and environment, the digest of the backup given and
  the keys asked for, the backup was made for the sealed recovery key, the capability binds both, and the high-water
  marks are signed under the recovery authority sealed before. The candidate has exactly the payload's keys, lowers no
  counter, no spending total and not the recovery counter, whether of the enclave, of the backup or of the signed
  marks, has the spending totals of these marks, has spent the capability, and keeps the anchor, the recovery key, the scope identities, the chain and the
  environment of the enclave.\<close>

theorem restore_confined:
  assumes "dispatch_agent_with_backup B w profile payload b measurement (slot, ds)
      = (Inr (RestoreBackupResp c rid), slot', ds')"
  shows "\<exists>env v pl request data high. decode_envelope payload = Inr env \<and> ae_opcode env = 8
    \<and> is_anti_rollback_configured w \<and> verify_capability (bk_crypto B) env b = Inr v \<and> ae_payload env = Some pl
    \<and> decode_restore_request pl = Inr request \<and> restore_evidence B env b v measurement slot request data high
    \<and> restored b data high v c \<and> rid = ae_request_id env \<and> slot' = slot \<and> ds' = ds"
  by (rule dispatch_restore [OF assms]) (use handle_restore_evidence in blast)

lemma restore_confined_witness:
  "\<exists>c (B :: (unit, unit) backend). dispatch_agent_with_backup B bound_process AgentGatewayProfile
      (sample_request (restore_message sample_ingress sample_original_backup (enc_marks (marks_of sample_body))))
      sample_body [1] (sample_slot, []) = (Inr (RestoreBackupResp c [1]), sample_slot, [])
    \<and> kb_entries sample_body = [] \<and> (\<exists>data high v. restored sample_body data high v c)"
proof -
  obtain c where d: "dispatch_agent_with_backup (sample_backend sample_restored_data sample_serde (\<lambda>ch f. (Inr f, ch)))
      bound_process AgentGatewayProfile
      (sample_request (restore_message sample_ingress sample_original_backup (enc_marks (marks_of sample_body))))
      sample_body [1] (sample_slot, []) = (Inr (RestoreBackupResp c [1]), sample_slot, [])"
    by (rule sample_restore_dispatch) blast
  have "\<exists>data high v. restored sample_body data high v c" using restore_confined [OF d] by blast
  moreover have "kb_entries sample_body = []" by (simp add: sample_body_def)
  ultimately show ?thesis using d by blast
qed

end
