(* ===== verification/Restore_Frame.thy ===== *)
theory Restore_Frame
  imports Restore
begin

text \<open>
  Frames of the build with the disaster-recovery commands: the restore seam seals, attests and commits before it installs,
  the other commands behave as in the build without them, and over any sequence of frames, restores included, the
  installed keystore never loses its anchor, its scope or any of its capability counters.
\<close>

section \<open>Randomness\<close>

lemma handle_export_subset:
  assumes "handle_export_backup C Q K I cb env b v ds = (r, ds')"
  shows "set ds' \<subseteq> set ds"
  using getrandom_subset [of ds] assms
  by (auto simp: handle_export_backup_def Let_def split: sum.splits prod.splits)

lemma draw_seed_subset: "set (snd (draw_seed ds)) \<subseteq> set ds"
proof -
  obtain a ds1 where a: "getrandom ds = (a, ds1)" by (cases "getrandom ds")
  obtain b ds2 where b: "getrandom ds1 = (b, ds2)" by (cases "getrandom ds1")
  have "set ds1 \<subseteq> set ds" "set ds2 \<subseteq> set ds1" using getrandom_subset [of ds] getrandom_subset [of ds1] a b by simp_all
  then show ?thesis using a b by (auto simp: draw_seed_def split: option.splits)
qed

lemma handle_get_restore_pubkey_subset:
  "set (snd (snd (handle_get_restore_pubkey C K fetch b measurement (slot, ds)))) \<subseteq> set ds"
  using draw_seed_subset [of ds]
  by (auto simp: handle_get_restore_pubkey_def install_restore_ephemeral_def Let_def split: option.splits sum.splits prod.splits if_splits)

lemma dispatch_with_backup_subset:
  "set (snd (snd (dispatch_agent_with_backup B w profile payload b measurement (slot, ds)))) \<subseteq> set ds"
  using handle_get_restore_pubkey_subset [of "bk_crypto B" "bk_kem B" "bk_fetch B" b measurement slot ds]
    dispatch_agent_subset [of "bk_crypto B" "bk_features B" w profile payload b ds]
  by (auto simp: dispatch_agent_with_backup_def Let_def split: sum.splits prod.splits
      dest: handle_export_subset)

section \<open>The restore seam\<close>

text \<open>The seam changes the keystore only after the blob was sealed, its hash attested and the candidate acknowledged.\<close>

definition restore_committed :: "('c, 'q) backend \<Rightarrow> keystore_body \<Rightarrow> bytes \<Rightarrow> bytes \<Rightarrow> 'c gateway \<Rightarrow> 'q restore_slot
    \<Rightarrow> bytes \<Rightarrow> 'c gateway \<Rightarrow> bool" where
  "restore_committed B c request_id measurement s slot out s' \<longleftrightarrow>
     (\<exists>root n sealed report chain s1. gw_root s = Some root \<and> Some n \<in> set (gw_draws s)
        \<and> seal_body (bk_crypto B) (bk_serde B) c root measurement (Some (take NONCE_LEN n)) = Inr sealed
        \<and> fst (bk_fetch B (rs_quote slot) (completion_report_data (bk_crypto B) c request_id sealed)) = Inr (report, chain)
        \<and> same_store s s1 \<and> gw_channel s1 = gw_channel s
        \<and> anchor_committed (bk_crypto B) (bk_round_trip B) c request_id s1 s'
        \<and> gw_keystore s' = Some (c, measurement)
        \<and> out = encode_restore_backup_response (bk_writer B) sealed request_id (map identity_of (kb_entries c)) report chain)"

lemma restore_seam_cases:
  assumes "restore_seal_attest_commit_emit B c request_id measurement (s, slot) = (out, s', slot')"
  shows "same_store s s' \<and> rs_ephemeral slot' = rs_ephemeral slot
    \<and> (gw_keystore s' = gw_keystore s \<and> (\<exists>e. out = encode_agent_error (bk_writer B) e)
       \<or> restore_committed B c request_id measurement s slot out s')"
proof (cases "gw_root s")
  case None
  then show ?thesis
    using assms by (auto simp: restore_seal_attest_commit_emit_def resolve_provisioning_root_def same_store_def Let_def)
next
  case (Some root)
  obtain r ds where r: "seal_body_rng (bk_crypto B) (bk_serde B) c root measurement (gw_draws s) = (r, ds)"
    by (cases "seal_body_rng (bk_crypto B) (bk_serde B) c root measurement (gw_draws s)")
  let ?s1 = "s\<lparr>gw_draws := ds\<rparr>"
  have s1: "same_store s ?s1"
    using seal_body_rng_subset [of "bk_crypto B" "bk_serde B" c root measurement "gw_draws s"] r by (simp add: same_store_draws)
  show ?thesis
  proof (cases r)
    case (Inl e)
    then show ?thesis
      using assms Some r s1 by (auto simp: restore_seal_attest_commit_emit_def resolve_provisioning_root_def Let_def)
  next
    case (Inr sealed)
    obtain n where n: "Some n \<in> set (gw_draws s)"
        "seal_body (bk_crypto B) (bk_serde B) c root measurement (Some (take NONCE_LEN n)) = Inr sealed"
      using seal_body_rng_Inr [OF r [unfolded Inr]] by blast
    obtain q a where q: "bk_fetch B (rs_quote slot) (completion_report_data (bk_crypto B) c request_id sealed) = (a, q)"
      by (cases "bk_fetch B (rs_quote slot) (completion_report_data (bk_crypto B) c request_id sealed)")
    obtain x s2 where x: "commit_candidate_to_anchor (bk_crypto B) (bk_round_trip B) c request_id ?s1 = (x, s2)"
      by (cases "commit_candidate_to_anchor (bk_crypto B) (bk_round_trip B) c request_id ?s1")
    note s2 = commit_candidate_frame [OF x]
    have root: "resolve_provisioning_root s = Inr root" using Some by (simp add: resolve_provisioning_root_def)
    have run: "(out, s', slot') = (case a of Inl _ \<Rightarrow> (encode_agent_error (bk_writer B) SealFailed, ?s1, slot\<lparr>rs_quote := q\<rparr>)
      | Inr (report, chain) \<Rightarrow> (case x of Inl e \<Rightarrow> (encode_agent_error (bk_writer B) e, s2, slot\<lparr>rs_quote := q\<rparr>)
        | Inr _ \<Rightarrow> (encode_restore_backup_response (bk_writer B) sealed request_id (map identity_of (kb_entries c)) report chain,
            s2\<lparr>gw_keystore := Some (c, measurement)\<rparr>, slot\<lparr>rs_quote := q\<rparr>)))"
      using assms r Inr q x root
      by (auto simp: restore_seal_attest_commit_emit_def Let_def split: sum.splits)
    show ?thesis
    proof (cases a)
      case (Inl e)
      then show ?thesis using run s1 by auto
    next
      case a: (Inr ev)
      obtain report chain where ev: "ev = (report, chain)" by (cases ev)
      show ?thesis
      proof (cases x)
        case (Inl e)
        then show ?thesis using run a ev x s1 s2 same_store_trans [OF s1] by auto
      next
        case x': (Inr u)
        have commit: "anchor_committed (bk_crypto B) (bk_round_trip B) c request_id ?s1 s2"
          using commit_candidate_Inr [of "bk_crypto B" "bk_round_trip B" c request_id ?s1 s2] x x' by simp
        have s': "s' = s2\<lparr>gw_keystore := Some (c, measurement)\<rparr>" "rs_ephemeral slot' = rs_ephemeral slot"
          "out = encode_restore_backup_response (bk_writer B) sealed request_id (map identity_of (kb_entries c)) report chain"
          using run a ev x x' by auto
        have store: "same_store s s'" using same_store_trans [OF s1] s2 s'(1) by (auto simp: same_store_def)
        have ack: "anchor_committed (bk_crypto B) (bk_round_trip B) c request_id ?s1 s'"
          using commit by (auto simp: anchor_committed_def s'(1))
        have "restore_committed B c request_id measurement s slot out s'"
          unfolding restore_committed_def
          using Some n q a ev s1 ack s' by (intro exI [of _ root] exI [of _ n] exI [of _ sealed] exI [of _ report] exI [of _ chain] exI [of _ ?s1]) auto
        then show ?thesis using store s'(2) by blast
      qed
    qed
  qed
qed

section \<open>Custody across restores\<close>

text \<open>What no frame takes from an installed body.\<close>

definition persists :: "keystore_body \<Rightarrow> keystore_body \<Rightarrow> bool" where
  "persists b b' \<longleftrightarrow> body_ok b' \<and> highest_counter b \<le> highest_counter b'
     \<and> kb_structural_version b \<le> kb_structural_version b'
     \<and> kc_anchor_root (kb_config b') = kc_anchor_root (kb_config b)
     \<and> kc_backup_recovery_wrapping_pubkey (kb_config b') = kc_backup_recovery_wrapping_pubkey (kb_config b)
     \<and> kc_enclave_scope_id (kb_config b') = kc_enclave_scope_id (kb_config b)
     \<and> kc_fleet_scope_id (kb_config b') = kc_fleet_scope_id (kb_config b)
     \<and> kc_twod_chain_id (kb_config b') = kc_twod_chain_id (kb_config b)
     \<and> kc_environment_identifier (kb_config b') = kc_environment_identifier (kb_config b)"

lemma persists_refl: "body_ok b \<Longrightarrow> persists b b"
  by (simp add: persists_def)

lemma persists_trans: "persists a b \<Longrightarrow> persists b c \<Longrightarrow> persists a c"
  by (auto simp: persists_def intro: order_trans)

lemma same_config_persists: "same_config c c' \<Longrightarrow> kc_anchor_root c' = kc_anchor_root c
    \<and> kc_backup_recovery_wrapping_pubkey c' = kc_backup_recovery_wrapping_pubkey c
    \<and> kc_enclave_scope_id c' = kc_enclave_scope_id c \<and> kc_fleet_scope_id c' = kc_fleet_scope_id c
    \<and> kc_twod_chain_id c' = kc_twod_chain_id c \<and> kc_environment_identifier c' = kc_environment_identifier c"
  by (subst same_configD, assumption, simp)+

lemma evolves_persists: "evolves b b' \<Longrightarrow> persists b b'"
  using same_config_persists [of "kb_config b" "kb_config b'"] by (simp add: evolves_def persists_def)

text \<open>Covering every row of a body keeps every high-water of it, once the rows are unique.\<close>

lemma covers_highest:
  fixes b c :: keystore_body
  assumes "body_ok c" "covers c (kb_counters b) fs"
    and env: "kc_environment_identifier (kb_config c) = kc_environment_identifier (kb_config b)"
  shows "highest_counter b \<le> highest_counter c"
proof (rule le_funI)
  fix k
  let ?row = "counter_row (fst k) (kc_environment_identifier (kb_config b)) (fst (snd k)) (snd (snd k))"
  show "highest_counter b k \<le> highest_counter c k"
  proof (cases "find ?row (kb_counters b)")
    case None
    then show ?thesis by (simp add: highest_counter_def)
  next
    case (Some d)
    then have d: "d \<in> set (kb_counters b)" "ce_tuple d = k"
      by (auto simp: find_Some_iff counter_row_def ce_tuple_def)
    obtain d' where d': "d' \<in> set (kb_counters c)" "ce_tuple d' = k"
        "unat (ce_highest_accepted_counter d) \<le> unat (ce_highest_accepted_counter d')"
      using assms(2) d by (auto simp: covers_def row_covered_def)
    have cs: "counters_ok (kc_environment_identifier (kb_config b)) (kb_counters c)"
      using assms(1) env by (simp add: body_ok_def)
    then have row: "?row d'" using d' by (auto simp: counters_ok_def counter_row_def ce_tuple_def)
    have "e = d'" if "e \<in> set (kb_counters c)" "?row e" for e
    proof -
      have "ce_tuple e = ce_tuple d'" using that(2) d'(2) by (auto simp: counter_row_def ce_tuple_def)
      moreover have "inj_on ce_tuple (set (kb_counters c))" using cs by (simp add: counters_ok_def distinct_map)
      ultimately show ?thesis using that(1) d'(1) by (simp add: inj_on_eq_iff)
    qed
    moreover obtain e where e: "find ?row (kb_counters c) = Some e"
      using d'(1) row by (cases "find ?row (kb_counters c)") (auto simp: find_None_iff)
    moreover have "e \<in> set (kb_counters c)" "?row e" using e by (auto simp: find_Some_iff)
    ultimately have "find ?row (kb_counters c) = Some d'" by simp
    then show ?thesis using Some d'(3) env by (simp add: highest_counter_def)
  qed
qed

lemma restored_persists:
  assumes "restored b data high v c" "body_ok c"
  shows "persists b c \<and> unat (kb_freshness_epoch c) = Suc (unat (kb_freshness_epoch b))"
  using assms covers_highest [OF assms(2), of b "kb_faucet b"]
  by (simp add: restored_def persists_def word_le_nat_alt)

lemma spends_persists:
  fixes b :: keystore_body
  assumes "verify_capability C env b = Inr v" "spends_capability env v b c"
  shows "persists b c \<and> unat (kb_freshness_epoch c) = Suc (unat (kb_freshness_epoch b))"
proof -
  obtain m where m: "verify_capability_extract C m (ae_opcode env) (ae_request_id env) (kb_config b) (kb_counters b) = Inr v"
    using assms(1) by (auto simp: verify_capability_Inr)
  then show ?thesis
    using spends_counters [OF m assms(2)] assms(2) same_config_persists [of "kb_config b" "kb_config c"]
    by (simp add: spends_capability_def persists_def word_le_nat_alt)
qed

lemma handle_export_persists:
  assumes h: "handle_export_backup C Q K I cb env b v ds = (Inr resp, ds')" and v: "verify_capability C env b = Inr v"
    and env: "decode_envelope payload = Inr env" and ok: "body_ok b" and c: "candidate_of resp = Some (c, rid)"
  shows "persists b c \<and> unat (kb_freshness_epoch c) = Suc (unat (kb_freshness_epoch b))"
proof -
  obtain manifest out blob where x: "export_candidate C I cb env b v = Inr (c, manifest, out)"
    by (rule handle_export_Inr [OF h]) (use c that in auto)
  obtain m where m: "verify_capability_extract C m (ae_opcode env) (ae_request_id env) (kb_config b) (kb_counters b) = Inr v"
    using v by (auto simp: verify_capability_Inr)
  have "spends_capability env v b c"
    by (rule export_candidate_Inr [OF x])
      (use export_tail(1) [OF ok verified_scope_target [OF m] decode_envelope_request_id [OF env]] in blast)
  then show ?thesis by (rule spends_persists [OF v])
qed

text \<open>Every candidate dispatch hands to the seam, once it is valid (which sealing checks).\<close>

lemma dispatch_persists:
  assumes d: "dispatch_agent_with_backup B w profile payload b measurement (slot, ds) = (Inr resp, slot', ds')"
    and c: "candidate_of resp = Some (c, rid)" and ok: "body_ok b" "body_ok c"
    and k1: "k1_public_uncompressed (bk_crypto B)" and draws: "\<forall>d. Some d \<in> set ds \<longrightarrow> length d = 32"
  shows "persists b c \<and> unat (kb_freshness_epoch c) = Suc (unat (kb_freshness_epoch b))"
proof (cases "backup_response resp")
  case True
  show ?thesis
  proof (rule dispatch_with_backup_Inr [OF d True], goal_cases)
    case (1 env op)
    have env: "decode_envelope payload = Inr env" using 1(1) by (simp add: admit_Inr)
    from 1(2) show ?case
    proof (elim disjE exE conjE)
      fix v assume "verify_capability (bk_crypto B) env b = Inr v"
        "handle_export_backup (bk_crypto B) (bk_pq B) (bk_kem B) (bk_ingress B) (bk_cbor B) env b v ds = (Inr resp, ds')"
      then show ?thesis using handle_export_persists [OF _ _ env ok(1) c] by blast
    next
      fix v
      assume h: "handle_restore_backup (bk_crypto B) (bk_pq B) (bk_kem B) (bk_ingress B) (bk_cbor B) env b v measurement slot
        = Inr resp"
      then have "resp = RestoreBackupResp c (ae_request_id env)" using handle_restore_kind [OF h] c by auto
      then have "\<exists>data high. restored b data high v c" using handle_restore_evidence h by blast
      then show ?thesis using restored_persists [OF _ ok(2)] by blast
    next
      assume "handle_get_restore_pubkey (bk_crypto B) (bk_kem B) (bk_fetch B) b measurement (slot, ds) = (Inr resp, slot', ds')"
      then show ?thesis using handle_pubkey_kind c by fastforce
    qed
  qed
next
  case False
  have "dispatch_agent (bk_crypto B) (bk_features B) w profile payload b ds = (Inr resp, ds')"
    using d False handle_restore_kind handle_pubkey_kind
    by (fastforce simp: dispatch_agent_with_backup_def Let_def elim!: handle_export_Inr split: if_splits sum.splits prod.splits)
  then show ?thesis using dispatch_evolves [OF _ c ok(1) k1 draws] evolves_persists by blast
qed

lemma emit_outcome_cases:
  assumes "emit_outcome B measurement outcome s = (out, s')" and "\<forall>c rid. outcome \<noteq> Inr (RestoreBackupResp c rid)"
  shows "same_store s s' \<and> (gw_keystore s' = gw_keystore s
    \<or> (\<exists>resp c rid root n sealed. outcome = Inr resp \<and> candidate_of resp = Some (c, rid) \<and> gw_keystore s' = Some (c, measurement)
         \<and> gw_root s = Some root \<and> Some n \<in> set (gw_draws s)
         \<and> seal_body (bk_crypto B) (bk_serde B) c root measurement (Some (take NONCE_LEN n)) = Inr sealed))"
proof -
  have store: "same_store s s" by (simp add: same_store_def)
  show ?thesis
  proof (cases "\<exists>resp c rid. outcome = Inr resp \<and> candidate_of resp = Some (c, rid)")
    case True
    then obtain resp c rid where r: "outcome = Inr resp" "candidate_of resp = Some (c, rid)" by blast
    then obtain f where f: "commit_before_emit (bk_crypto B) (bk_serde B) (bk_writer B) (bk_round_trip B) c rid measurement f s
        = (out, s')"
      using assms by (cases resp) (auto simp: emit_outcome_def Let_def)
    show ?thesis using commit_before_emit_cases [OF f] r by auto
  next
    case False
    then have "s' = s"
      using assms(1) by (auto simp: emit_outcome_def Let_def split: sum.splits agent_response.splits)
    then show ?thesis using store by simp
  qed
qed

lemma backup_frame_cases:
  assumes "handle_agent_gateway_frame_with_backup B payload (s, slot) = (out, s', slot')"
  shows "same_store s s' \<and> (gw_keystore s' = gw_keystore s
    \<or> (\<exists>b measurement resp c rid root n sealed slot1 ds. gw_keystore s = Some (b, measurement)
         \<and> dispatch_agent_with_backup B (gw_process s) AgentGatewayProfile payload b measurement (slot, gw_draws s)
             = (Inr resp, slot1, ds)
         \<and> candidate_of resp = Some (c, rid) \<and> gw_keystore s' = Some (c, measurement)
         \<and> gw_root s = Some root \<and> Some n \<in> set (gw_draws s)
         \<and> seal_body (bk_crypto B) (bk_serde B) c root measurement (Some (take NONCE_LEN n)) = Inr sealed))"
proof (cases "gw_keystore s")
  case None
  then show ?thesis using assms by (simp add: handle_agent_gateway_frame_with_backup_def same_store_def)
next
  case (Some bm)
  obtain b measurement where bm: "bm = (b, measurement)" by (cases bm)
  obtain r slot1 ds where d: "dispatch_agent_with_backup B (gw_process s) AgentGatewayProfile payload b measurement (slot, gw_draws s)
      = (r, slot1, ds)"
    by (metis prod_cases3)
  let ?s0 = "s\<lparr>gw_draws := ds\<rparr>"
  have sub: "set ds \<subseteq> set (gw_draws s)"
    using dispatch_with_backup_subset [of B "gw_process s" AgentGatewayProfile payload b measurement slot "gw_draws s"] d by simp
  then have s0: "same_store s ?s0" by (rule same_store_draws)
  show ?thesis
  proof (cases "\<exists>c rid. r = Inr (RestoreBackupResp c rid)")
    case True
    then obtain c rid where r: "r = Inr (RestoreBackupResp c rid)" by blast
    obtain slot2 where run: "restore_seal_attest_commit_emit B c rid measurement (?s0, slot1) = (out, s', slot2)"
      using assms Some bm d r
      by (auto simp: handle_agent_gateway_frame_with_backup_def Let_def split: prod.splits)
    note k = restore_seam_cases [OF run]
    have "same_store s s'" using same_store_trans [OF s0] k by blast
    moreover have "gw_keystore s' = gw_keystore s \<or> (\<exists>root n sealed. gw_root s = Some root \<and> Some n \<in> set (gw_draws s)
        \<and> seal_body (bk_crypto B) (bk_serde B) c root measurement (Some (take NONCE_LEN n)) = Inr sealed
        \<and> gw_keystore s' = Some (c, measurement))"
      using k sub by (auto simp: restore_committed_def)
    ultimately show ?thesis using Some bm d r by auto
  next
    case False
    then have run: "emit_outcome B measurement r ?s0 = (out, s')"
      using assms Some bm d
      by (auto simp: handle_agent_gateway_frame_with_backup_def Let_def split: sum.splits prod.splits agent_response.splits)
    note k = emit_outcome_cases [OF run]
    have "same_store s s'" using same_store_trans [OF s0] k False by blast
    then show ?thesis using k False Some bm d sub by auto
  qed
qed

lemma seal_body_ok: "seal_body C S b root measurement draw = Inr sealed \<Longrightarrow> body_ok b"
  by (auto simp: seal_body_def res_simps validate_iff)

text \<open>What a sequence of frames does to an installed body: \<open>n\<close> of them committed.\<close>

definition keeps :: "nat \<Rightarrow> 'c gateway \<Rightarrow> 'c gateway \<Rightarrow> bool" where
  "keeps n s s' \<longleftrightarrow> (\<forall>b measurement. gw_keystore s = Some (b, measurement) \<longrightarrow>
     (\<exists>b'. gw_keystore s' = Some (b', measurement) \<and> persists b b'
        \<and> unat (kb_freshness_epoch b') = unat (kb_freshness_epoch b) + n))"

lemma keeps_trans: "keeps m s s' \<Longrightarrow> keeps n s' s'' \<Longrightarrow> keeps (m + n) s s''"
  unfolding keeps_def by (fastforce intro: persists_trans)

lemma backup_frame_ok:
  assumes f: "handle_agent_gateway_frame_with_backup B payload (s, slot) = (out, s', slot')"
    and ok: "gateway_ok s" "k1_public_uncompressed (bk_crypto B)"
  shows "gateway_ok s' \<and> keeps (if gw_keystore s' = gw_keystore s then 0 else 1) s s'"
proof -
  note k = backup_frame_cases [OF f]
  have store: "same_store s s'" using k by blast
  show ?thesis
  proof (cases "gw_keystore s' = gw_keystore s")
    case True
    then have "gateway_ok s'" using store ok(1) by (auto simp: same_store_def gateway_ok_def)
    then show ?thesis using True ok(1) by (auto simp: keeps_def gateway_ok_def persists_refl split: option.splits)
  next
    case False
    then obtain b measurement resp c rid root n sealed slot1 ds where c: "gw_keystore s = Some (b, measurement)"
      "dispatch_agent_with_backup B (gw_process s) AgentGatewayProfile payload b measurement (slot, gw_draws s) = (Inr resp, slot1, ds)"
      "candidate_of resp = Some (c, rid)" "gw_keystore s' = Some (c, measurement)"
      "seal_body (bk_crypto B) (bk_serde B) c root measurement (Some (take NONCE_LEN n)) = Inr sealed"
      using k by blast
    have okc: "body_ok c" by (rule seal_body_ok [OF c(5)])
    have okb: "body_ok b" "\<forall>d. Some d \<in> set (gw_draws s) \<longrightarrow> length d = 32" using ok(1) c(1) by (simp_all add: gateway_ok_def)
    have "persists b c \<and> unat (kb_freshness_epoch c) = Suc (unat (kb_freshness_epoch b))"
      by (rule dispatch_persists [OF c(2,3) okb(1) okc ok(2) okb(2)])
    moreover have "gateway_ok s'" using store ok(1) c(4) okc by (auto simp: same_store_def gateway_ok_def)
    ultimately show ?thesis using False c(1,4) by (simp add: keeps_def)
  qed
qed

text \<open>Frames served one after the other.\<close>

fun serve_frames :: "('c, 'q) backend \<Rightarrow> bytes list \<Rightarrow> 'c gateway \<times> 'q restore_slot
    \<Rightarrow> bytes list \<times> nat \<times> 'c gateway \<times> 'q restore_slot" where
  "serve_frames B [] st = ([], 0, st)"
| "serve_frames B (p # ps) st =
     (case handle_agent_gateway_frame_with_backup B p st of
        (out, st1) \<Rightarrow>
          (case serve_frames B ps st1 of
             (outs, n, st2) \<Rightarrow>
               (out # outs, n + (if gw_keystore (fst st1) = gw_keystore (fst st) then 0 else 1), st2)))"

lemma serve_frames_ok:
  assumes "serve_frames B ps (s, slot) = (outs, n, s', slot')" "gateway_ok s" "k1_public_uncompressed (bk_crypto B)"
  shows "gateway_ok s' \<and> keeps n s s' \<and> length outs = length ps"
  using assms
proof (induction ps arbitrary: s slot outs n)
  case Nil
  then show ?case by (auto simp: keeps_def gateway_ok_def persists_refl split: option.splits)
next
  case (Cons p ps)
  obtain out s1 slot1 where f: "handle_agent_gateway_frame_with_backup B p (s, slot) = (out, s1, slot1)" by (metis prod_cases3)
  obtain outs' m s2 slot2 where r: "serve_frames B ps (s1, slot1) = (outs', m, s2, slot2)" by (metis prod_cases4)
  have e: "outs = out # outs'" "n = m + (if gw_keystore s1 = gw_keystore s then 0 else 1)" "s' = s2"
    using Cons.prems(1) f r by (auto split: if_splits)
  note step = backup_frame_ok [OF f Cons.prems(2,3)]
  have r': "serve_frames B ps (s1, slot1) = (outs', m, s', slot')" using r Cons.prems(1) f e by (auto split: if_splits)
  then have "gateway_ok s'" "keeps m s1 s'" "length outs' = length ps" using Cons.IH [OF r'] step Cons.prems(3) by blast+
  then show ?case using step keeps_trans [OF conjunct2 [OF step]] e by (simp add: add.commute)
qed

lemma sample_restore_frame:
  obtains c out s' slot' where "handle_agent_gateway_frame_with_backup (sample_backend sample_restored_data (serde_for c) (anchor_for c))
      (sample_request (restore_message sample_ingress sample_original_backup (enc_marks (marks_of sample_body))))
      (sample_gateway sample_body, sample_slot) = (out, s', slot')"
    "gw_keystore s' = Some (c, [1])" "rs_ephemeral slot' = None" "body_ok c" "c \<noteq> sample_body"
proof -
  let ?ds = "[Some (replicate 32 8), Some (replicate 32 9)]"
  let ?m = "sample_request (restore_message sample_ingress sample_original_backup (enc_marks (marks_of sample_body)))"
  obtain c where d: "\<And>S rt. dispatch_agent_with_backup (sample_backend sample_restored_data S rt) bound_process AgentGatewayProfile
      ?m sample_body [1] (sample_slot, ?ds) = (Inr (RestoreBackupResp c [1]), sample_slot, ?ds)"
    and c: "body_ok c" "kb_config c = sample_config" "c \<noteq> sample_body"
    by (rule sample_restore_dispatch) blast
  let ?B = "sample_backend sample_restored_data (serde_for c) (anchor_for c)"
  obtain sealed where seal: "seal_body_rng sample_crypto (serde_for c) c zero32 [1] ?ds = (Inr sealed, [Some (replicate 32 9)])"
    using sample_seal_rng [OF c(1)] by blast
  let ?s1 = "sample_gateway sample_body\<lparr>gw_draws := [Some (replicate 32 9)]\<rparr>"
  obtain s' where s': "commit_candidate_to_anchor sample_crypto (anchor_for c) c [1] ?s1 = (Inr (), s')"
    using sample_commit [OF c(1), of ?s1] c(2) by (auto simp: sample_gateway_def)
  let ?out = "encode_restore_backup_response enc_value sealed [1] (map identity_of (kb_entries c)) [8] [9]"
  have "restore_seal_attest_commit_emit ?B c [1] [1] (sample_gateway sample_body, sample_slot)
      = (?out, s'\<lparr>gw_keystore := Some (c, [1])\<rparr>, sample_slot\<lparr>rs_quote := ()\<rparr>)"
    using seal s' by (simp add: restore_seal_attest_commit_emit_def resolve_provisioning_root_def Let_def)
      (simp add: sample_gateway_def)
  then have "handle_agent_gateway_frame_with_backup ?B ?m (sample_gateway sample_body, sample_slot)
      = (?out, s'\<lparr>gw_keystore := Some (c, [1])\<rparr>, retire_restore_ephemeral (sample_slot\<lparr>rs_quote := ()\<rparr>))"
    using d by (simp add: handle_agent_gateway_frame_with_backup_def sample_gateway_def)
  then show thesis by (rule that) (use c in \<open>simp_all add: retire_restore_ephemeral_def\<close>)
qed

section \<open>Properties\<close>

text \<open>C11: A restore installs only what was attested and committed. A RESTORE_BACKUP frame either leaves the keystore alone and
  returns an error, or the enclave had a published restore key and a verified recovery capability, the installed body is
  the confined candidate, valid, the returned blob unseals to exactly it, the attestation report was obtained over the
  digests of its keys and of that blob, the anchor acknowledged it under a fresh nonce, and the ephemeral restore key is
  gone, so that the same envelope cannot be opened again.\<close>

theorem restore_attested_and_committed:
  assumes f: "handle_agent_gateway_frame_with_backup B payload (s, slot) = (out, s', slot')"
    and env: "decode_envelope payload = Inr env" "ae_opcode env = 8"
    and laws: "sha3_digest_len (bk_crypto B)" "aead_correct (bk_crypto B)" "serde_correct (bk_serde B)" and ok: "gateway_ok s"
  shows "same_store s s' \<and> (gw_keystore s' = gw_keystore s \<and> (\<exists>e. out = encode_agent_error (bk_writer B) e)
    \<or> (\<exists>b measurement root c v data high sealed report chain s1.
         gw_keystore s = Some (b, measurement) \<and> gw_root s = Some root \<and> rs_ephemeral slot \<noteq> None
         \<and> verify_capability (bk_crypto B) env b = Inr v \<and> restored b data high v c
         \<and> gw_keystore s' = Some (c, measurement) \<and> body_ok c
         \<and> unseal_body (bk_crypto B) (bk_serde B) sealed root measurement = Inr c \<and> length sealed \<le> MAX_KEYSTORE_BLOB_SIZE
         \<and> fst (bk_fetch B (rs_quote slot) (completion_report_data (bk_crypto B) c (ae_request_id env) sealed)) = Inr (report, chain)
         \<and> same_store s s1 \<and> anchor_committed (bk_crypto B) (bk_round_trip B) c (ae_request_id env) s1 s'
         \<and> out = encode_restore_backup_response (bk_writer B) sealed (ae_request_id env) (map identity_of (kb_entries c)) report chain
         \<and> rs_ephemeral slot' = None))"
proof (cases "gw_keystore s")
  case None
  then show ?thesis using f by (auto simp: handle_agent_gateway_frame_with_backup_def same_store_def)
next
  case (Some bm)
  obtain b measurement where bm: "bm = (b, measurement)" by (cases bm)
  obtain r slot1 ds where d: "dispatch_agent_with_backup B (gw_process s) AgentGatewayProfile payload b measurement (slot, gw_draws s)
      = (r, slot1, ds)"
    by (metis prod_cases3)
  show ?thesis
  proof (cases r)
    case (Inl e)
    have "same_store s (s\<lparr>gw_draws := ds\<rparr>)"
      using dispatch_with_backup_subset [of B "gw_process s" AgentGatewayProfile payload b measurement slot "gw_draws s"] d
      by (simp add: same_store_draws)
    then show ?thesis using f Some bm d Inl
      by (auto simp: handle_agent_gateway_frame_with_backup_def emit_outcome_def Let_def)
  next
    case (Inr resp)
    obtain v where v: "verify_capability (bk_crypto B) env b = Inr v" "slot1 = slot" "ds = gw_draws s"
      and h: "handle_restore_backup (bk_crypto B) (bk_pq B) (bk_kem B) (bk_ingress B) (bk_cbor B) env b v measurement slot = Inr resp"
      using d Inr env by (auto simp: dispatch_agent_with_backup_def Let_def admit_def opcode_from_u8_def split: if_splits sum.splits
          simp del: is_rollback_sensitive.simps)
    obtain c where c: "resp = RestoreBackupResp c (ae_request_id env)" using handle_restore_kind [OF h] by blast
    obtain data high where rs: "restored b data high v c" "rs_ephemeral slot \<noteq> None"
      using handle_restore_evidence [OF h [unfolded c]] by (auto simp: restore_evidence_def)
    obtain slot2 where run: "restore_seal_attest_commit_emit B c (ae_request_id env) measurement (s, slot) = (out, s', slot2)"
        and slot': "slot' = retire_restore_ephemeral slot2"
      using f Some bm d Inr c v by (auto simp: handle_agent_gateway_frame_with_backup_def Let_def split: prod.splits)
    note k = restore_seam_cases [OF run]
    show ?thesis
    proof (cases "restore_committed B c (ae_request_id env) measurement s slot out s'")
      case True
      then obtain root n sealed report chain s1 where r: "gw_root s = Some root" "Some n \<in> set (gw_draws s)"
        "seal_body (bk_crypto B) (bk_serde B) c root measurement (Some (take NONCE_LEN n)) = Inr sealed"
        "fst (bk_fetch B (rs_quote slot) (completion_report_data (bk_crypto B) c (ae_request_id env) sealed)) = Inr (report, chain)"
        "same_store s s1" "anchor_committed (bk_crypto B) (bk_round_trip B) c (ae_request_id env) s1 s'"
        "gw_keystore s' = Some (c, measurement)"
        "out = encode_restore_backup_response (bk_writer B) sealed (ae_request_id env) (map identity_of (kb_entries c)) report chain"
        unfolding restore_committed_def by blast
      have "length (take NONCE_LEN n) = 24" using ok r(2) by (auto simp: gateway_ok_def NONCE_LEN_def)
      note sealed = unseal_seal_body [OF laws refl this r(3)]
      have retired: "rs_ephemeral slot' = None" by (simp add: slot' retire_restore_ephemeral_def)
      show ?thesis
        using k Some [unfolded bm] r v(1) rs seal_body_ok [OF r(3)] sealed retired by blast
    next
      case False
      then show ?thesis using k by blast
    qed
  qed
qed

lemma restore_attested_and_committed_witness:
  "\<exists>c sealed. body_ok c \<and> c \<noteq> sample_body
    \<and> gw_keystore (fst (snd (handle_agent_gateway_frame_with_backup (sample_backend sample_restored_data (serde_for c) (anchor_for c))
      (sample_request (restore_message sample_ingress sample_original_backup (enc_marks (marks_of sample_body))))
      (sample_gateway sample_body, sample_slot)))) = Some (c, [1])
    \<and> unseal_body sample_crypto (serde_for c) sealed zero32 [1] = Inr c"
proof -
  obtain c out s' slot' where f: "handle_agent_gateway_frame_with_backup (sample_backend sample_restored_data (serde_for c) (anchor_for c))
      (sample_request (restore_message sample_ingress sample_original_backup (enc_marks (marks_of sample_body))))
      (sample_gateway sample_body, sample_slot) = (out, s', slot')"
    and k: "gw_keystore s' = Some (c, [1])" "rs_ephemeral slot' = None" "body_ok c" "c \<noteq> sample_body"
    by (rule sample_restore_frame)
  have op: "ae_opcode sample_restore_envelope = 8" by (simp add: restore_envelope_def)
  have "\<exists>sealed. unseal_body sample_crypto (serde_for c) sealed zero32 [1] = Inr c"
    using restore_attested_and_committed [OF f restore_message_decodes [OF sample_restore_lengths sample_enc_marks_length] op,
        unfolded sample_backend_simps, OF sample_crypto_correct(1,2) serde_for_correct sample_gateway_ok [OF sample_body_ok]] k
    by (auto simp: sample_gateway_def)
  then show ?thesis using f k by auto
qed

text \<open>Custody survives restores. Serve any frames, valid or hostile, exports and restores of any backups among them: the
  installed body stays valid and on this enclave's chain, environment, scope and anchor, its freshness epoch has grown by
  exactly the number of frames that committed, and no capability counter and no structural version has gone back.\<close>

theorem restores_keep_custody:
  assumes "serve_frames B ps (s, slot) = (outs, n, s', slot')" "gateway_ok s" "k1_public_uncompressed (bk_crypto B)"
  shows "gateway_ok s' \<and> keeps n s s' \<and> length outs = length ps"
  by (rule serve_frames_ok [OF assms])

lemma restores_keep_custody_witness:
  "\<exists>c outs s' slot'. serve_frames (sample_backend sample_restored_data (serde_for c) (anchor_for c))
      [sample_request (restore_message sample_ingress sample_original_backup (enc_marks (marks_of sample_body)))]
      (sample_gateway sample_body, sample_slot) = (outs, 1, s', slot')
    \<and> gw_keystore s' = Some (c, [1]) \<and> keeps 1 (sample_gateway sample_body) s'"
proof -
  obtain c out s' slot' where f: "handle_agent_gateway_frame_with_backup (sample_backend sample_restored_data (serde_for c) (anchor_for c))
      (sample_request (restore_message sample_ingress sample_original_backup (enc_marks (marks_of sample_body))))
      (sample_gateway sample_body, sample_slot) = (out, s', slot')"
    and k: "gw_keystore s' = Some (c, [1])" "c \<noteq> sample_body"
    by (rule sample_restore_frame)
  have k1: "k1_public_uncompressed (bk_crypto (sample_backend sample_restored_data (serde_for c) (anchor_for c)))"
    using sample_k1 by simp
  have "serve_frames (sample_backend sample_restored_data (serde_for c) (anchor_for c))
      [sample_request (restore_message sample_ingress sample_original_backup (enc_marks (marks_of sample_body)))]
      (sample_gateway sample_body, sample_slot) = ([out], 1, s', slot')"
    using f k by (simp add: sample_gateway_def)
  then show ?thesis
    using restores_keep_custody [OF _ sample_gateway_ok [OF sample_body_ok] k1] k by blast
qed

text \<open>The backup commands are a conservative extension: a frame with any other opcode, and any frame that is not a valid
  envelope, is answered exactly as by the build without them, and does not touch the restore slot.\<close>

theorem other_commands_unchanged:
  assumes "\<And>env. decode_envelope payload = Inr env \<Longrightarrow> ae_opcode env \<notin> {7, 8, 9}"
  shows "handle_agent_gateway_frame_with_backup B payload (s, slot) =
    (case handle_agent_gateway_frame (bk_crypto B) (bk_serde B) (bk_features B) (bk_writer B) (bk_round_trip B) payload s of
       (out, s') \<Rightarrow> (out, s', slot))"
proof (cases "gw_keystore s")
  case None
  then show ?thesis by (simp add: handle_agent_gateway_frame_with_backup_def handle_agent_gateway_frame_def)
next
  case (Some bm)
  obtain b measurement where bm: "bm = (b, measurement)" by (cases bm)
  obtain r ds where r: "dispatch_agent (bk_crypto B) (bk_features B) (gw_process s) AgentGatewayProfile payload b (gw_draws s) = (r, ds)"
    by (cases "dispatch_agent (bk_crypto B) (bk_features B) (gw_process s) AgentGatewayProfile payload b (gw_draws s)")
  have d: "dispatch_agent_with_backup B (gw_process s) AgentGatewayProfile payload b measurement (slot, gw_draws s) = (r, slot, ds)"
  proof (cases "admit (gw_process s) AgentGatewayProfile payload b")
    case (Inl e)
    then show ?thesis
      using dispatch_agent_admit [OF Inl, of "bk_crypto B" "bk_features B" "gw_draws s"] r
      by (simp add: dispatch_agent_with_backup_def)
  next
    case (Inr eo)
    obtain env op where eo: "eo = (env, op)" by (cases eo)
    then have "decode_envelope payload = Inr env" "opcode_from_u8 (ae_opcode env) = Some op" using Inr by (simp_all add: admit_Inr)
    then have "op \<notin> {ExportBackup, RestoreBackup, GetRestorePubkey}"
      using assms by (auto simp: opcode_from_u8_def split: if_splits)
    then show ?thesis using Inr eo r by (simp add: dispatch_agent_with_backup_def)
  qed
  have kind: "\<not> backup_response resp" if "r = Inr resp" for resp
    using dispatch_agent_kind r that by blast
  show ?thesis
  proof (cases r)
    case (Inl e)
    then show ?thesis
      using Some bm d r by (simp add: handle_agent_gateway_frame_with_backup_def handle_agent_gateway_frame_def emit_outcome_def Let_def)
  next
    case (Inr resp)
    then show ?thesis
      using Some bm d r kind [OF Inr]
      by (cases resp) (simp_all add: handle_agent_gateway_frame_with_backup_def handle_agent_gateway_frame_def emit_outcome_def
          Let_def split: prod.split)
  qed
qed

lemma other_commands_unchanged_witness:
  "handle_agent_gateway_frame_with_backup (sample_backend sample_restored_data (serde_for treasury_body) (anchor_for treasury_body))
      (sample_request (transfer_request 5 1)) (sample_gateway treasury_body, sample_slot) =
    (case handle_agent_gateway_frame sample_crypto (serde_for treasury_body) sample_features enc_value (anchor_for treasury_body)
        (sample_request (transfer_request 5 1)) (sample_gateway treasury_body) of (out, s') \<Rightarrow> (out, s', sample_slot))"
proof -
  have five: "(5 :: u8) = 4 \<or> (5 :: u8) = 5" by simp
  have "ae_opcode env \<notin> {7, 8, 9}" if "decode_envelope (sample_request (transfer_request 5 1)) = Inr env" for env
  proof -
    have "env = transfer_envelope 5 1" using that transfer_request_decodes [OF five, of 1] by simp
    then show ?thesis by (simp add: transfer_envelope_def)
  qed
  then show ?thesis
    using other_commands_unchanged [of "sample_request (transfer_request 5 1)"
        "sample_backend sample_restored_data (serde_for treasury_body) (anchor_for treasury_body)"
        "sample_gateway treasury_body" sample_slot]
    unfolding sample_backend_simps by blast
qed

section \<open>Which restores a request can ask for\<close>

lemma canon_bytes: "canon_value (CBytes x) 4096 d \<Longrightarrow> length x \<le> 4096"
  by simp

lemma as_ref_array_bound: "as_ref_array v = Inr rs \<Longrightarrow> canon_value v 4096 d \<Longrightarrow> length rs \<le> 64"
  by (cases v) (auto simp: as_ref_array_def res_mapM_Inr dest: list_all2_lengthD)

lemma high_water_loop_bound:
  assumes "high_water_loop acc m = Inr (p, sig)" "\<forall>x. fst acc = Some x \<longrightarrow> length x \<le> 4096"
    and "\<forall>(k, v) \<in> set m. canon_value v 4096 d"
  shows "\<forall>x. p = Some x \<longrightarrow> length x \<le> 4096"
  using assms
proof (induction acc m rule: high_water_loop.induct)
  case (2 marks_payload signature k val m)
  then show ?case
    by (auto simp: rr_as_bytes_def res_bind_eq_Inr split: if_splits cbor_value.splits)
qed auto

lemma as_high_water_bound: "as_high_water v = Inr h \<Longrightarrow> canon_value v 4096 d \<Longrightarrow> length (hw_marks_payload h) \<le> 4096"
  by (cases v) (auto simp: as_high_water_def res_bind_eq_Inr ok_or_eq_Inr list_all_iff dest!: high_water_loop_bound [where d = "d + 1"])

definition request_bounded :: "partial_request \<Rightarrow> bool" where
  "request_bounded acc \<longleftrightarrow> (\<forall>x. pr_ingress_envelope acc = Some x \<longrightarrow> length x \<le> 4096)
     \<and> (\<forall>x. pr_original_backup acc = Some x \<longrightarrow> length x \<le> 4096)
     \<and> (\<forall>x. pr_requested_refs acc = Some x \<longrightarrow> length x \<le> 64)
     \<and> (\<forall>x. pr_recovery_high_water acc = Some x \<longrightarrow> length (hw_marks_payload x) \<le> 4096)"

lemma restore_request_step:
  assumes "restore_request_loop acc ((k, val) # m) = Inr acc'" "canon_value val 4096 d" "request_bounded acc"
  shows "\<exists>acc1. restore_request_loop acc1 m = Inr acc' \<and> request_bounded acc1"
proof -
  have bytes: "length x \<le> 4096" if "rr_as_bytes val = Inr x" for x
    using that assms(2) by (cases val) (auto simp: rr_as_bytes_def)
  consider b where "rr_as_bytes val = Inr b" "restore_request_loop (acc\<lparr>pr_ingress_envelope := Some b\<rparr>) m = Inr acc'"
    | b where "rr_as_bytes val = Inr b" "restore_request_loop (acc\<lparr>pr_original_backup := Some b\<rparr>) m = Inr acc'"
    | rs where "as_ref_array val = Inr rs" "restore_request_loop (acc\<lparr>pr_requested_refs := Some rs\<rparr>) m = Inr acc'"
    | h where "as_high_water val = Inr h" "restore_request_loop (acc\<lparr>pr_recovery_high_water := Some h\<rparr>) m = Inr acc'"
    using assms(1) by (auto simp: res_bind_eq_Inr split: if_splits)
  then show ?thesis
  proof cases
    case (1 b)
    then have "request_bounded (acc\<lparr>pr_ingress_envelope := Some b\<rparr>)" using assms(3) bytes by (simp add: request_bounded_def)
    then show ?thesis using 1 by blast
  next
    case (2 b)
    then have "request_bounded (acc\<lparr>pr_original_backup := Some b\<rparr>)" using assms(3) bytes by (simp add: request_bounded_def)
    then show ?thesis using 2 by blast
  next
    case (3 rs)
    then have "request_bounded (acc\<lparr>pr_requested_refs := Some rs\<rparr>)"
      using assms(3) as_ref_array_bound [OF _ assms(2)] by (simp add: request_bounded_def)
    then show ?thesis using 3 by blast
  next
    case (4 h)
    then have "request_bounded (acc\<lparr>pr_recovery_high_water := Some h\<rparr>)"
      using assms(3) as_high_water_bound [OF _ assms(2)] by (simp add: request_bounded_def)
    then show ?thesis using 4 by blast
  qed
qed

lemma restore_request_loop_bounded:
  "restore_request_loop acc m = Inr acc' \<Longrightarrow> request_bounded acc \<Longrightarrow> \<forall>(k, v) \<in> set m. canon_value v 4096 d
     \<Longrightarrow> request_bounded acc'"
proof (induction m arbitrary: acc)
  case (Cons kv m)
  obtain k v where kv: "kv = (k, v)" by (cases kv)
  obtain acc1 where "restore_request_loop acc1 m = Inr acc'" "request_bounded acc1"
    using restore_request_step [of acc k v m acc' d] Cons.prems kv by auto
  then show ?case using Cons.IH Cons.prems(3) by auto
qed simp

text \<open>The request bounds what can be restored: a restore request that decodes at all carries an ingress envelope and an
  original backup of at most 4096 bytes each, at most 64 key handles and at most 4096 bytes of high-water marks, because
  the envelope decoder caps every byte string and array. A backup that EXPORT_BACKUP wrote beyond that, which nothing
  prevents, cannot be restored.\<close>

theorem restore_requests_bounded:
  assumes "decode_envelope payload = Inr env" "ae_payload env = Some pl" "decode_restore_request pl = Inr request"
  shows "length (rq_ingress_envelope request) \<le> 4096 \<and> length (rq_original_backup request) \<le> 4096
    \<and> length (rq_requested_refs request) \<le> 64 \<and> length (hw_marks_payload (rq_recovery_high_water request)) \<le> 4096"
proof -
  obtain m where m: "strict_decode_map payload = Some m" "map_get m 7 = Some (CMap pl)"
    using assms(1,2)
    by (auto simp: decode_envelope_def res_bind_eq_Inr ok_or_eq_Inr opt_field_def as_map_def
        split: if_splits option.splits cbor_value.splits)
  have canon_map: "\<forall>(k, v) \<in> set m'. canon_value v 4096 (d + 1)" if "canon_value (CMap m') 4096 d" for m' d
    using that by (auto simp: list_all_iff)
  have "canon_value (CMap m) 4096 1" using m(1) by (simp add: strict_decode_map_iff)
  then have "\<forall>(k, v) \<in> set m. canon_value v 4096 (1 + 1)" by (rule canon_map)
  moreover obtain k where "(k, CMap pl) \<in> set m"
    using m(2) by (auto simp: map_get_def find_Some_iff split: option.splits dest!: nth_mem)
  ultimately have "canon_value (CMap pl) 4096 (1 + 1)" by blast
  then have canon: "\<forall>(k, v) \<in> set pl. canon_value v 4096 (1 + 1 + 1)" by (rule canon_map)
  obtain acc where acc: "restore_request_loop \<lparr>pr_ingress_envelope = None, pr_original_backup = None,
      pr_requested_refs = None, pr_recovery_high_water = None\<rparr> pl = Inr acc"
    and request: "pr_ingress_envelope acc = Some (rq_ingress_envelope request)"
      "pr_original_backup acc = Some (rq_original_backup request)" "pr_requested_refs acc = Some (rq_requested_refs request)"
      "pr_recovery_high_water acc = Some (rq_recovery_high_water request)"
    using assms(3) by (auto simp: decode_restore_request_def res_bind_eq_Inr ok_or_eq_Inr split: if_splits)
  have "request_bounded acc"
    by (rule restore_request_loop_bounded [OF acc _ canon]) (simp add: request_bounded_def)
  then show ?thesis using request by (simp add: request_bounded_def)
qed

lemma restore_requests_bounded_witness:
  "length sample_ingress \<le> 4096 \<and> length sample_original_backup \<le> 4096 \<and> length [replicate 32 (2 :: u8)] \<le> 64"
  using restore_requests_bounded [OF restore_message_decodes [OF sample_restore_lengths sample_enc_marks_length] _
      restore_payload_decodes [of sample_ingress sample_original_backup "enc_marks (marks_of sample_body)"]]
  by (simp add: restore_envelope_def)

end
