(* ===== verification/Attest.thy ===== *)
theory Attest
  imports Boot_Source
begin

text \<open>
  The relying party's verifier of an SEV-SNP attestation: the checks without signatures of \<open>snp_verify.rs\<close>, and the crate
  \<open>snp-attest-verify\<close> with the certificate chain to the pinned AMD root, the signature of the report, the binding of the
  VCEK to the chip, and its command line.

  X.509, P-384, RSA-PSS, SHA-384 and the PEM and hex readers are parameters: a certificate is the parts of it that the
  sources read, a key is whatever its SPKI decodes to. Files are their contents, \<open>None\<close> when they cannot be read.
\<close>

unbundle bit_operations_syntax

section \<open>Before the signatures (snp_verify.rs)\<close>

definition VERSION_OFFSET :: nat where "VERSION_OFFSET = 0x00"
definition POLICY_OFFSET :: nat where "POLICY_OFFSET = 0x08"
definition EXPECTED_REPORT_LEN :: nat where "EXPECTED_REPORT_LEN = 1184"
definition POLICY_DEBUG_BIT :: u64 where "POLICY_DEBUG_BIT = push_bit 19 1"
definition MIN_REPORT_VERSION :: u32 where "MIN_REPORT_VERSION = 2"

definition report_version :: "bytes \<Rightarrow> u32" where
  "report_version report = of_nat (be_val (rev (take 4 (drop VERSION_OFFSET report))))"

definition report_policy :: "bytes \<Rightarrow> u64" where
  "report_policy report = of_nat (be_val (rev (take 8 (drop POLICY_OFFSET report))))"

definition prevalidate_report :: "crypto \<Rightarrow> bytes \<Rightarrow> bytes option \<Rightarrow> bytes list \<Rightarrow> protocol_error + bytes" where
  "prevalidate_report C report expected_pq_pubkey allowed_measurements =
     (if length report < EXPECTED_REPORT_LEN
      then Inl (WireProtocol ''SNP report shorter than the fixed 1184-byte ABI size (truncated)'')
      else if report_version report < MIN_REPORT_VERSION
      then Inl (WireProtocol ''SNP report version older than the assumed ABI layout (need v2+)'')
      else if report_policy report AND POLICY_DEBUG_BIT \<noteq> 0
      then Inl (WireProtocol ''SNP guest policy has DEBUG enabled'')
      else
        res_bind (case expected_pq_pubkey of
            None \<Rightarrow> Inr ()
          | Some pubkey \<Rightarrow>
              res_bind (map_err (\<lambda>_. WireProtocol ''malformed SNP report (report_data field)'') (report_data_from_report report)) (\<lambda>echoed.
              if echoed \<noteq> report_data_for_pubkey C pubkey
              then Inl (WireProtocol ''report_data does not bind the expected pq_pubkey'') else Inr ())) (\<lambda>_.
        res_bind (map_err (\<lambda>_. WireProtocol ''malformed SNP report (measurement field)'') (measurement_from_report report)) (\<lambda>measurement.
        if measurement \<notin> set allowed_measurements then Inl (WireProtocol ''launch measurement not in allowlist'')
        else Inr measurement)))"

section \<open>Certificates and keys\<close>

record certificate =
  ce_tbs :: "bytes option"
  ce_subject :: bytes
  ce_issuer :: bytes
  ce_spki :: "bytes option"
  ce_algorithm :: string
  ce_signature :: "bytes option"
  ce_extensions :: "(string \<times> bytes) list option"

record verifier_lib =
  vl_sha384 :: "bytes \<Rightarrow> bytes"
  vl_p384_signature_ok :: "bytes \<Rightarrow> bool"
  vl_p384_key :: "bytes \<Rightarrow> bytes option"
  vl_p384_verify :: "bytes \<Rightarrow> bytes \<Rightarrow> bytes \<Rightarrow> bool"
  vl_rsa_key :: "bytes \<Rightarrow> bytes option"
  vl_pss_verify :: "bytes \<Rightarrow> bytes \<Rightarrow> bytes \<Rightarrow> bool"
  vl_octet_string :: "bytes \<Rightarrow> bytes option"
  vl_der :: "bytes \<Rightarrow> certificate option"
  vl_pem_chain :: "bytes \<Rightarrow> certificate list option"
  vl_hex_decode :: "bytes \<Rightarrow> bytes option"

definition REPORT_LEN :: nat where "REPORT_LEN = 1184"
definition SIG_OFFSET :: nat where "SIG_OFFSET = 0x2A0"
definition SIG_COMPONENT_LEN :: nat where "SIG_COMPONENT_LEN = 72"
definition P384_SCALAR_LEN :: nat where "P384_SCALAR_LEN = 48"
definition CHIP_ID_OFFSET :: nat where "CHIP_ID_OFFSET = 0x1A0"
definition CHIP_ID_LEN :: nat where "CHIP_ID_LEN = 64"
definition REPORTED_TCB_OFFSET :: nat where "REPORTED_TCB_OFFSET = 0x180"
definition REPORTED_TCB_LEN :: nat where "REPORTED_TCB_LEN = 8"
definition OID_RSASSA_PSS :: string where "OID_RSASSA_PSS = ''1.2.840.113549.1.1.10''"
definition AMD_VCEK_HWID_OID :: string where "AMD_VCEK_HWID_OID = ''1.3.6.1.4.1.3704.1.4''"

datatype verify_error =
    ShortReport nat
  | BadReportSignatureEncoding
  | ReportSignature
  | CertParse string
  | UnsupportedSigAlg string
  | CertSignature string
  | ArkNotSelfSigned
  | ArkPinMismatch
  | NameChain string
  | ChipBinding string
  | Prevalidate protocol_error

section \<open>The signature of the report\<close>

definition report_signature_be :: "bytes \<Rightarrow> bytes" where
  "report_signature_be report = rev (take P384_SCALAR_LEN (drop SIG_OFFSET report))
     @ rev (take P384_SCALAR_LEN (drop (SIG_OFFSET + SIG_COMPONENT_LEN) report))"

definition verify_report_signature :: "verifier_lib \<Rightarrow> bytes \<Rightarrow> bytes \<Rightarrow> verify_error + unit" where
  "verify_report_signature L report vcek =
     (if length report < REPORT_LEN then Inl (ShortReport (length report))
      else if \<not> vl_p384_signature_ok L (report_signature_be report) then Inl BadReportSignatureEncoding
      else if \<not> vl_p384_verify L vcek (vl_sha384 L (take SIG_OFFSET report)) (report_signature_be report) then Inl ReportSignature
      else Inr ())"

definition report_chip_id :: "bytes \<Rightarrow> verify_error + bytes" where
  "report_chip_id report =
     (if length report < REPORT_LEN then Inl (ShortReport (length report))
      else Inr (take CHIP_ID_LEN (drop CHIP_ID_OFFSET report)))"

definition report_reported_tcb :: "bytes \<Rightarrow> verify_error + bytes" where
  "report_reported_tcb report =
     (if length report < REPORT_LEN then Inl (ShortReport (length report))
      else Inr (take REPORTED_TCB_LEN (drop REPORTED_TCB_OFFSET report)))"

section \<open>The certificate chain\<close>

definition parse_cert_chain_pem :: "verifier_lib \<Rightarrow> bytes \<Rightarrow> verify_error + certificate list" where
  "parse_cert_chain_pem L pem = ok_or (CertParse ''pem chain'') (vl_pem_chain L pem)"

definition parse_cert_der :: "verifier_lib \<Rightarrow> bytes \<Rightarrow> verify_error + certificate" where
  "parse_cert_der L der = ok_or (CertParse ''der cert'') (vl_der L der)"

definition cert_p384_key :: "verifier_lib \<Rightarrow> certificate \<Rightarrow> verify_error + bytes" where
  "cert_p384_key L cert =
     res_bind (ok_or (CertParse ''spki der'') (ce_spki cert)) (\<lambda>spki. ok_or (CertParse ''ec spki'') (vl_p384_key L spki))"

definition verify_cert_signed_by :: "verifier_lib \<Rightarrow> certificate \<Rightarrow> certificate \<Rightarrow> string \<Rightarrow> verify_error + unit" where
  "verify_cert_signed_by L cert issuer ctx =
     res_bind (ok_or (CertParse ''tbs der'') (ce_tbs cert)) (\<lambda>tbs.
     res_bind (ok_or (CertParse ''signature bitstring'') (ce_signature cert)) (\<lambda>sig.
     res_bind (ok_or (CertParse ''issuer spki'') (ce_spki issuer)) (\<lambda>issuer_spki.
     if ce_algorithm cert = OID_RSASSA_PSS
     then res_bind (ok_or (CertParse ''rsa spki'') (vl_rsa_key L issuer_spki)) (\<lambda>pk.
       if vl_pss_verify L pk (vl_sha384 L tbs) sig then Inr () else Inl (CertSignature ctx))
     else Inl (UnsupportedSigAlg (ce_algorithm cert)))))"

definition is_self_signed :: "verifier_lib \<Rightarrow> certificate \<Rightarrow> bool" where
  "is_self_signed L cert \<longleftrightarrow> ce_subject cert = ce_issuer cert \<and> verify_cert_signed_by L cert cert ''ark-self'' = Inr ()"

definition verify_cert_chain :: "verifier_lib \<Rightarrow> certificate \<Rightarrow> certificate list \<Rightarrow> bytes \<Rightarrow> verify_error + unit" where
  "verify_cert_chain L vcek chain pinned_ark_spki =
     res_bind (ok_or ArkNotSelfSigned (find (is_self_signed L) chain)) (\<lambda>ark.
     res_bind (ok_or (CertParse ''ark spki'') (ce_spki ark)) (\<lambda>ark_spki.
     if ark_spki \<noteq> pinned_ark_spki then Inl ArkPinMismatch
     else
     res_bind (ok_or (NameChain ''no chain cert matches the VCEK issuer'') (find (\<lambda>c. ce_subject c = ce_issuer vcek) chain)) (\<lambda>ask.
     if ce_issuer ask \<noteq> ce_subject ark then Inl (NameChain ''ASK issuer != ARK subject'')
     else
     res_bind (verify_cert_signed_by L ask ark ''ask<-ark'') (\<lambda>_.
     verify_cert_signed_by L vcek ask ''vcek<-ask''))))"

definition pinned_ark_spki :: "verifier_lib \<Rightarrow> bytes \<Rightarrow> verify_error + bytes" where
  "pinned_ark_spki L pinned_chain_pem =
     res_bind (parse_cert_chain_pem L pinned_chain_pem) (\<lambda>chain.
     res_bind (ok_or ArkNotSelfSigned (find (is_self_signed L) chain)) (\<lambda>ark.
     ok_or (CertParse ''ark spki'') (ce_spki ark)))"

section \<open>The chip\<close>

definition parse_amd_hwid :: "verifier_lib \<Rightarrow> bytes \<Rightarrow> verify_error + bytes" where
  "parse_amd_hwid L extn_value =
     (if length extn_value = 64 then Inr extn_value
      else ok_or (ChipBinding ''VCEK HWID is neither 64 raw bytes nor an OCTET STRING of 64 bytes'')
        (Option.bind (vl_octet_string L extn_value) (\<lambda>os. if length os = 64 then Some os else None)))"

definition verify_vcek_chip_binding :: "verifier_lib \<Rightarrow> certificate \<Rightarrow> bytes \<Rightarrow> verify_error + unit" where
  "verify_vcek_chip_binding L vcek report =
     res_bind (report_chip_id report) (\<lambda>chip_id.
     if chip_id = replicate 64 0 then Inr ()
     else (case filter (\<lambda>e. fst e = AMD_VCEK_HWID_OID) (case ce_extensions vcek of None \<Rightarrow> [] | Some es \<Rightarrow> es) of
         [] \<Rightarrow> Inl (ChipBinding ''VCEK has no AMD HWID extension'')
       | [ext] \<Rightarrow> res_bind (parse_amd_hwid L (snd ext)) (\<lambda>hwid.
           if hwid \<noteq> chip_id then Inl (ChipBinding ''VCEK HWID != report chip_id'') else Inr ())
       | _ \<Rightarrow> Inl (ChipBinding ''VCEK has multiple HWID extensions'')))"

definition verify_attestation :: "crypto \<Rightarrow> verifier_lib \<Rightarrow> bytes \<Rightarrow> certificate \<Rightarrow> certificate list \<Rightarrow> bytes \<Rightarrow> bytes option
    \<Rightarrow> bytes list \<Rightarrow> verify_error + bytes" where
  "verify_attestation C L report vcek chain pinned expected_pq_pubkey allowed_measurements =
     res_bind (map_err Prevalidate (prevalidate_report C report expected_pq_pubkey allowed_measurements)) (\<lambda>measurement.
     res_bind (verify_cert_chain L vcek chain pinned) (\<lambda>_.
     res_bind (cert_p384_key L vcek) (\<lambda>vcek_key.
     res_bind (verify_report_signature L report vcek_key) (\<lambda>_.
     res_bind (verify_vcek_chip_binding L vcek report) (\<lambda>_. Inr measurement)))))"

section \<open>The command line\<close>

text \<open>The arguments, each file as its content, and the two bundled product chains.\<close>

record attest_cli =
  ac_report :: "bytes option"
  ac_vcek :: "bytes option"
  ac_cert_chain :: "bytes option"
  ac_product :: "string option"
  ac_pinned_ark_chain :: "bytes option option"
  ac_pq_pubkey :: "bytes option option"
  ac_allow_unbound :: bool
  ac_measurements :: "bytes list"
  ac_genoa_chain :: bytes
  ac_turin_chain :: bytes

datatype attest_error =
    ReadFailed string
  | BothPins
  | UnknownProduct string
  | NoPin
  | PubkeyAndUnbound
  | PubkeyRequired
  | MeasurementHex
  | MeasurementLength nat
  | PinnedArk verify_error
  | Rejected verify_error

definition parse_measurement :: "verifier_lib \<Rightarrow> bytes \<Rightarrow> attest_error + bytes" where
  "parse_measurement L hex_str =
     res_bind (ok_or MeasurementHex (vl_hex_decode L (trim_str hex_str))) (\<lambda>bs.
     if length bs \<noteq> 48 then Inl (MeasurementLength (length bs)) else Inr bs)"

definition pinned_pem :: "attest_cli \<Rightarrow> attest_error + bytes" where
  "pinned_pem cli =
     (case (ac_pinned_ark_chain cli, ac_product cli) of
        (Some _, Some _) \<Rightarrow> Inl BothPins
      | (Some p, None) \<Rightarrow> ok_or (ReadFailed ''--pinned-ark-chain'') p
      | (None, Some product) \<Rightarrow>
          if product = ''genoa'' then Inr (ac_genoa_chain cli)
          else if product = ''turin'' then Inr (ac_turin_chain cli)
          else Inl (UnknownProduct product)
      | (None, None) \<Rightarrow> Inl NoPin)"

definition cli_pq_pubkey :: "attest_cli \<Rightarrow> attest_error + bytes option" where
  "cli_pq_pubkey cli =
     (case (ac_pq_pubkey cli, ac_allow_unbound cli) of
        (Some _, True) \<Rightarrow> Inl PubkeyAndUnbound
      | (Some p, False) \<Rightarrow> res_bind (ok_or (ReadFailed ''--pq-pubkey'') p) (\<lambda>b. Inr (Some b))
      | (None, True) \<Rightarrow> Inr None
      | (None, False) \<Rightarrow> Inl PubkeyRequired)"

definition attest_run :: "crypto \<Rightarrow> verifier_lib \<Rightarrow> attest_cli \<Rightarrow> attest_error + bytes" where
  "attest_run C L cli =
     res_bind (ok_or (ReadFailed ''--report'') (ac_report cli)) (\<lambda>report.
     res_bind (ok_or (ReadFailed ''--vcek'') (ac_vcek cli)) (\<lambda>vcek_der.
     res_bind (ok_or (ReadFailed ''--cert-chain'') (ac_cert_chain cli)) (\<lambda>chain_pem.
     res_bind (pinned_pem cli) (\<lambda>pem.
     res_bind (cli_pq_pubkey cli) (\<lambda>pq_pubkey.
     res_bind (res_mapM (parse_measurement L) (ac_measurements cli)) (\<lambda>allow.
     res_bind (map_err Rejected (parse_cert_der L vcek_der)) (\<lambda>vcek.
     res_bind (map_err Rejected (parse_cert_chain_pem L chain_pem)) (\<lambda>chain.
     res_bind (map_err PinnedArk (pinned_ark_spki L pem)) (\<lambda>pinned.
     map_err Rejected (verify_attestation C L report vcek chain pinned pq_pubkey allow))))))))))"

section \<open>What acceptance means\<close>

text \<open>A certificate issued by another: its name and its signature.\<close>

definition issued_by :: "verifier_lib \<Rightarrow> certificate \<Rightarrow> certificate \<Rightarrow> bool" where
  "issued_by L cert issuer \<longleftrightarrow> ce_issuer cert = ce_subject issuer \<and> ce_algorithm cert = OID_RSASSA_PSS
     \<and> (\<exists>tbs sig spki pk. ce_tbs cert = Some tbs \<and> ce_signature cert = Some sig \<and> ce_spki issuer = Some spki
          \<and> vl_rsa_key L spki = Some pk \<and> vl_pss_verify L pk (vl_sha384 L tbs) sig)"

definition chip_bound :: "verifier_lib \<Rightarrow> certificate \<Rightarrow> bytes \<Rightarrow> bool" where
  "chip_bound L vcek chip_id \<longleftrightarrow> chip_id = replicate 64 0
     \<or> (\<exists>value. filter (\<lambda>e. fst e = AMD_VCEK_HWID_OID) (case ce_extensions vcek of None \<Rightarrow> [] | Some es \<Rightarrow> es)
            = [(AMD_VCEK_HWID_OID, value)] \<and> (value = chip_id \<or> vl_octet_string L value = Some chip_id))"

text \<open>The policy, over the signed part of the report only.\<close>

definition policy_holds :: "crypto \<Rightarrow> bytes \<Rightarrow> bytes option \<Rightarrow> bytes list \<Rightarrow> bytes \<Rightarrow> bool" where
  "policy_holds C body pubkey allowed m \<longleftrightarrow> 2 \<le> report_version body \<and> \<not> bit (report_policy body) 19
     \<and> (case pubkey of None \<Rightarrow> True | Some pk \<Rightarrow> take 64 (drop 0x50 body) = report_data_for_pubkey C pk)
     \<and> m \<in> set allowed \<and> m = take 48 (drop 0x90 body)"

definition chain_to_root :: "verifier_lib \<Rightarrow> certificate \<Rightarrow> certificate list \<Rightarrow> bytes \<Rightarrow> bool" where
  "chain_to_root L vcek chain pinned \<longleftrightarrow> (\<exists>ark \<in> set chain. \<exists>ask \<in> set chain. ce_spki ark = Some pinned
     \<and> issued_by L ark ark \<and> issued_by L ask ark \<and> issued_by L vcek ask)"

lemma debug_bit: "p AND POLICY_DEBUG_BIT \<noteq> 0 \<longleftrightarrow> bit p 19" for p :: u64
proof -
  have b: "bit POLICY_DEBUG_BIT n \<longleftrightarrow> n = 19" for n
    unfolding POLICY_DEBUG_BIT_def by (simp only: bit_push_bit_iff bit_1_iff possible_bit_word) auto
  show ?thesis
  proof
    assume "p AND POLICY_DEBUG_BIT \<noteq> 0"
    then obtain n where "bit (p AND POLICY_DEBUG_BIT) n" using bit_eqI [of "p AND POLICY_DEBUG_BIT" 0] by auto
    then show "bit p 19" by (simp only: bit_and_iff b) auto
  next
    assume "bit p 19"
    then have "bit (p AND POLICY_DEBUG_BIT) 19" by (simp only: bit_and_iff b)
    then show "p AND POLICY_DEBUG_BIT \<noteq> 0" by auto
  qed
qed

lemma take_drop_signed: "n + k \<le> SIG_OFFSET \<Longrightarrow> take k (drop n (take SIG_OFFSET report)) = take k (drop n report)"
  by (simp add: drop_take min_def)

lemma prevalidate_Inr:
  "prevalidate_report C report pubkey allowed = Inr m \<longleftrightarrow> 1184 \<le> length report
     \<and> policy_holds C (take SIG_OFFSET report) pubkey allowed m"
  by (auto simp: prevalidate_report_def policy_holds_def report_version_def report_policy_def VERSION_OFFSET_def POLICY_OFFSET_def
      EXPECTED_REPORT_LEN_def MIN_REPORT_VERSION_def debug_bit res_simps report_data_from_report_def measurement_from_report_def
      report_lens take_drop_signed SIG_OFFSET_def not_less drop_take min_def split: option.splits)

lemma signed_by_Inr:
  "verify_cert_signed_by L cert issuer ctx = Inr () \<longleftrightarrow> ce_algorithm cert = OID_RSASSA_PSS
     \<and> (\<exists>tbs sig spki pk. ce_tbs cert = Some tbs \<and> ce_signature cert = Some sig \<and> ce_spki issuer = Some spki
          \<and> vl_rsa_key L spki = Some pk \<and> vl_pss_verify L pk (vl_sha384 L tbs) sig)"
  by (auto simp: verify_cert_signed_by_def res_simps)

lemma self_signed_issued: "is_self_signed L cert \<longleftrightarrow> issued_by L cert cert"
  by (auto simp: is_self_signed_def signed_by_Inr issued_by_def)

lemma hwid_Inr: "length chip = 64 \<Longrightarrow>
    res_bind (parse_amd_hwid L v) (\<lambda>hwid. if hwid \<noteq> chip then Inl e else Inr ()) = Inr () \<longleftrightarrow> v = chip \<or> vl_octet_string L v = Some chip
      \<and> length v \<noteq> 64"
  by (cases "vl_octet_string L v") (auto simp: parse_amd_hwid_def res_simps)

lemma chip_binding_bound:
  assumes "verify_vcek_chip_binding L vcek report = Inr ()" "report_chip_id report = Inr chip" "length chip = 64"
  shows "chip_bound L vcek chip"
proof -
  have one: "filter (\<lambda>e. fst e = AMD_VCEK_HWID_OID) es = [(a, b)] \<Longrightarrow> a = AMD_VCEK_HWID_OID" for es :: "(string \<times> bytes) list" and a b
    by (metis (mono_tags, lifting) filter_eq_Cons_iff fst_conv)
  show ?thesis
    using assms by (auto simp: verify_vcek_chip_binding_def chip_bound_def hwid_Inr dest: one split: if_splits list.splits)
qed

lemma chain_sound:
  assumes "verify_cert_chain L vcek chain pinned = Inr ()"
  shows "chain_to_root L vcek chain pinned"
proof -
  from assms obtain ark ask where ark: "find (is_self_signed L) chain = Some ark" and spki: "ce_spki ark = Some pinned"
    and ask: "find (\<lambda>c. ce_subject c = ce_issuer vcek) chain = Some ask" and name: "ce_issuer ask = ce_subject ark"
    and s1: "verify_cert_signed_by L ask ark ''ask<-ark'' = Inr ()" and s2: "verify_cert_signed_by L vcek ask ''vcek<-ask'' = Inr ()"
    by (auto simp: verify_cert_chain_def res_simps split: if_splits)
  from ark have a: "ark \<in> set chain" "issued_by L ark ark" by (auto simp: find_Some_iff self_signed_issued [symmetric])
  from ask have b: "ask \<in> set chain" "ce_subject ask = ce_issuer vcek" by (auto simp: find_Some_iff)
  have c: "issued_by L ask ark" "issued_by L vcek ask" using s1 s2 name b by (simp_all add: issued_by_def signed_by_Inr)
  show ?thesis using a b c spki by (auto simp: chain_to_root_def)
qed

lemma attestation_Inr:
  assumes "verify_attestation C L report vcek chain pinned pubkey allowed = Inr m"
  shows "1184 \<le> length report \<and> policy_holds C (take SIG_OFFSET report) pubkey allowed m \<and> chain_to_root L vcek chain pinned
    \<and> (\<exists>spki key. ce_spki vcek = Some spki \<and> vl_p384_key L spki = Some key
        \<and> vl_p384_verify L key (vl_sha384 L (take SIG_OFFSET report)) (report_signature_be report))
    \<and> chip_bound L vcek (take 64 (drop 0x1A0 (take SIG_OFFSET report)))"
proof -
  from assms obtain key where pre: "prevalidate_report C report pubkey allowed = Inr m"
    and chain: "verify_cert_chain L vcek chain pinned = Inr ()" and key: "cert_p384_key L vcek = Inr key"
    and sig: "verify_report_signature L report key = Inr ()" and chip: "verify_vcek_chip_binding L vcek report = Inr ()"
    by (auto simp: verify_attestation_def res_simps)
  from pre have len: "1184 \<le> length report" and policy: "policy_holds C (take SIG_OFFSET report) pubkey allowed m"
    by (simp_all add: prevalidate_Inr)
  from sig have s: "vl_p384_verify L key (vl_sha384 L (take SIG_OFFSET report)) (report_signature_be report)"
    by (auto simp: verify_report_signature_def split: if_splits)
  have "take 64 (drop 0x1A0 (take SIG_OFFSET report)) = take 64 (drop 0x1A0 report)"
    by (rule take_drop_signed) (simp add: SIG_OFFSET_def)
  with len have c: "chip_bound L vcek (take 64 (drop 0x1A0 (take SIG_OFFSET report)))"
    using chip_binding_bound [OF chip, of "take 64 (drop 0x1A0 report)"]
    by (simp add: report_chip_id_def CHIP_ID_LEN_def CHIP_ID_OFFSET_def REPORT_LEN_def)
  from key obtain spki where k: "ce_spki vcek = Some spki" "vl_p384_key L spki = Some key"
    by (auto simp: cert_p384_key_def res_simps)
  show ?thesis using len policy chain_sound [OF chain] s c k by blast
qed

text \<open>C9: what the verifier accepts. When the command line ends with a measurement, exactly one trust anchor was given and
  the chain of the report's key ends at the root it names: the VCEK was issued by an intermediate of the presented chain,
  that one by a self-signed root whose key is the pinned one, and the VCEK's key signed the first 672 bytes of the report.
  Those signed bytes carry everything the verdict rests on: version 2 or later, a policy without DEBUG, the measurement
  returned (48 bytes, and on the operator's list), the binding of the expected public key unless the operator waived it by
  flag, and a chip id which is the one in the VCEK (or is masked).\<close>

theorem accepted_attestation_is_bound:
  assumes "attest_run C L cli = Inr m"
  shows "\<exists>report vcek_der vcek chain pem pinned pubkey allow key. ac_report cli = Some report \<and> ac_vcek cli = Some vcek_der
    \<and> vl_der L vcek_der = Some vcek \<and> pinned_pem cli = Inr pem \<and> pinned_ark_spki L pem = Inr pinned
    \<and> ((ac_product cli = None) \<noteq> (ac_pinned_ark_chain cli = None))
    \<and> (if pubkey = None then ac_allow_unbound cli \<and> ac_pq_pubkey cli = None else ac_pq_pubkey cli = Some pubkey)
    \<and> list_all2 (\<lambda>h a. vl_hex_decode L (trim_str h) = Some a \<and> length a = 48) (ac_measurements cli) allow
    \<and> 1184 \<le> length report \<and> length m = 48 \<and> policy_holds C (take SIG_OFFSET report) pubkey allow m
    \<and> chain_to_root L vcek chain pinned
    \<and> Option.bind (ce_spki vcek) (vl_p384_key L) = Some key
    \<and> vl_p384_verify L key (vl_sha384 L (take SIG_OFFSET report)) (report_signature_be report)
    \<and> chip_bound L vcek (take 64 (drop 0x1A0 (take SIG_OFFSET report)))"
proof -
  from assms obtain report vcek_der chain_pem pem pubkey allow vcek chain pinned where
    r: "ac_report cli = Some report" "ac_vcek cli = Some vcek_der" "vl_der L vcek_der = Some vcek"
    and pem: "pinned_pem cli = Inr pem" and pub: "cli_pq_pubkey cli = Inr pubkey"
    and allow: "res_mapM (parse_measurement L) (ac_measurements cli) = Inr allow"
    and pinned: "pinned_ark_spki L pem = Inr pinned"
    and v: "verify_attestation C L report vcek chain pinned pubkey allow = Inr m"
    by (auto simp: attest_run_def parse_cert_der_def res_simps)
  note A = attestation_Inr [OF v]
  have one: "(ac_product cli = None) \<noteq> (ac_pinned_ark_chain cli = None)"
    using pem by (auto simp: pinned_pem_def split: option.splits)
  have bound: "if pubkey = None then ac_allow_unbound cli \<and> ac_pq_pubkey cli = None else ac_pq_pubkey cli = Some pubkey"
    using pub by (auto simp: cli_pq_pubkey_def res_simps split: option.splits bool.splits)
  have hex: "list_all2 (\<lambda>h a. vl_hex_decode L (trim_str h) = Some a \<and> length a = 48) (ac_measurements cli) allow"
    using allow by (auto simp: res_mapM_Inr parse_measurement_def res_simps elim!: list_all2_mono split: if_splits)
  have "m \<in> set allow" using A unfolding policy_holds_def by blast
  then have "length m = 48" using hex by (auto simp: list_all2_conv_all_nth in_set_conv_nth)
  then show ?thesis using r pem pinned one bound hex A by fastforce
qed

text \<open>An instance: a chain of two certificates, a report signed by its leaf, and toy signatures.\<close>

definition sample_ark :: certificate where
  "sample_ark = \<lparr>ce_tbs = Some [10], ce_subject = [1], ce_issuer = [1], ce_spki = Some [11], ce_algorithm = OID_RSASSA_PSS,
     ce_signature = Some [11, 10], ce_extensions = None\<rparr>"
definition sample_ask :: certificate where
  "sample_ask = \<lparr>ce_tbs = Some [20], ce_subject = [2], ce_issuer = [1], ce_spki = Some [21], ce_algorithm = OID_RSASSA_PSS,
     ce_signature = Some [11, 20], ce_extensions = None\<rparr>"
definition sample_vcek :: certificate where
  "sample_vcek = \<lparr>ce_tbs = Some [30], ce_subject = [3], ce_issuer = [2], ce_spki = Some [31], ce_algorithm = OID_RSASSA_PSS,
     ce_signature = Some [21, 30], ce_extensions = Some [(AMD_VCEK_HWID_OID, replicate 64 9)]\<rparr>"

definition sample_verifier_lib :: verifier_lib where
  "sample_verifier_lib = \<lparr>vl_sha384 = id, vl_p384_signature_ok = (\<lambda>sig. length sig = 96), vl_p384_key = Some,
     vl_p384_verify = (\<lambda>key d sig. key = [31] \<and> hd d = 2), vl_rsa_key = Some, vl_pss_verify = (\<lambda>pk d sig. sig = pk @ d),
     vl_octet_string = (\<lambda>_. None), vl_der = (\<lambda>_. Some sample_vcek), vl_pem_chain = (\<lambda>_. Some [sample_ask, sample_ark]),
     vl_hex_decode = (\<lambda>_. Some (replicate 48 4))\<rparr>"

lemma sample_cert_sel [simp]:
  "ce_tbs sample_ark = Some [10]" "ce_tbs sample_ask = Some [20]" "ce_tbs sample_vcek = Some [30]"
  "ce_subject sample_ark = [1]" "ce_subject sample_ask = [2]" "ce_issuer sample_ark = [1]" "ce_issuer sample_ask = [1]"
  "ce_issuer sample_vcek = [2]" "ce_spki sample_ark = Some [11]" "ce_spki sample_ask = Some [21]" "ce_spki sample_vcek = Some [31]"
  "ce_algorithm sample_ark = OID_RSASSA_PSS" "ce_algorithm sample_ask = OID_RSASSA_PSS" "ce_algorithm sample_vcek = OID_RSASSA_PSS"
  "ce_signature sample_ark = Some [11, 10]" "ce_signature sample_ask = Some [11, 20]" "ce_signature sample_vcek = Some [21, 30]"
  "ce_extensions sample_vcek = Some [(AMD_VCEK_HWID_OID, replicate 64 9)]"
  by (simp_all add: sample_ark_def sample_ask_def sample_vcek_def)

lemma sample_lib_sel [simp]:
  "vl_sha384 sample_verifier_lib = id" "vl_p384_signature_ok sample_verifier_lib sig = (length sig = 96)"
  "vl_p384_key sample_verifier_lib = Some" "vl_p384_verify sample_verifier_lib key d sig = (key = [31] \<and> hd d = 2)"
  "vl_rsa_key sample_verifier_lib = Some" "vl_pss_verify sample_verifier_lib pk d sig = (sig = pk @ d)"
  "vl_der sample_verifier_lib b = Some sample_vcek" "vl_pem_chain sample_verifier_lib b = Some [sample_ask, sample_ark]"
  "vl_hex_decode sample_verifier_lib b = Some (replicate 48 4)"
  by (simp_all add: sample_verifier_lib_def)

definition sample_signed_report :: bytes where
  "sample_signed_report = [2, 0, 0, 0] @ replicate 76 0 @ report_data_for_pubkey sample_crypto [5] @ replicate 48 4 @ replicate 224 0
     @ replicate 64 9 @ replicate 704 0"

definition sample_attest_cli :: attest_cli where
  "sample_attest_cli = \<lparr>ac_report = Some sample_signed_report, ac_vcek = Some [], ac_cert_chain = Some [], ac_product = Some ''genoa'',
     ac_pinned_ark_chain = None, ac_pq_pubkey = Some (Some [5]), ac_allow_unbound = False, ac_measurements = [[]],
     ac_genoa_chain = [], ac_turin_chain = []\<rparr>"

lemma sample_attest_accepted: "attest_run sample_crypto sample_verifier_lib sample_attest_cli = Inr (replicate 48 4)"
proof -
  have n: "length (report_data_for_pubkey sample_crypto [5]) = 64"
    by (simp add: report_data_for_pubkey_def sample_crypto_def)
  have len: "length sample_signed_report = 1184" using n by (simp add: sample_signed_report_def)
  have head: "take 4 sample_signed_report = [2, 0, 0, 0]" "take 8 (drop 8 sample_signed_report) = replicate 8 0"
    "take 64 (drop 80 sample_signed_report) = report_data_for_pubkey sample_crypto [5]"
    "take 48 (drop 144 sample_signed_report) = replicate 48 4" "take 64 (drop 416 sample_signed_report) = replicate 64 9"
    using n by (simp_all add: sample_signed_report_def)
  have pre: "prevalidate_report sample_crypto sample_signed_report (Some [5]) [replicate 48 4] = Inr (replicate 48 4)"
    using len head n
    by (simp add: prevalidate_report_def EXPECTED_REPORT_LEN_def report_version_def VERSION_OFFSET_def MIN_REPORT_VERSION_def
        report_policy_def POLICY_OFFSET_def report_data_from_report_def measurement_from_report_def report_lens)
  have self: "find (is_self_signed sample_verifier_lib) [sample_ask, sample_ark] = Some sample_ark"
    by (simp add: is_self_signed_def verify_cert_signed_by_def)
  have chain: "verify_cert_chain sample_verifier_lib sample_vcek [sample_ask, sample_ark] [11] = Inr ()"
    by (simp only: verify_cert_chain_def self) (simp add: verify_cert_signed_by_def)
  have sig: "verify_report_signature sample_verifier_lib sample_signed_report [31] = Inr ()"
    using len head
    by (simp add: verify_report_signature_def REPORT_LEN_def report_signature_be_def P384_SCALAR_LEN_def SIG_OFFSET_def SIG_COMPONENT_LEN_def)
      (simp add: sample_signed_report_def)
  have chip: "verify_vcek_chip_binding sample_verifier_lib sample_vcek sample_signed_report = Inr ()"
    using len head
    by (simp add: verify_vcek_chip_binding_def report_chip_id_def REPORT_LEN_def CHIP_ID_LEN_def CHIP_ID_OFFSET_def
        parse_amd_hwid_def)
  have "verify_attestation sample_crypto sample_verifier_lib sample_signed_report sample_vcek [sample_ask, sample_ark] [11] (Some [5])
      [replicate 48 4] = Inr (replicate 48 4)"
    by (simp add: verify_attestation_def pre chain chip sig cert_p384_key_def)
  moreover have "pinned_ark_spki sample_verifier_lib [] = Inr [11]"
    using self by (simp add: pinned_ark_spki_def parse_cert_chain_pem_def del: find.simps)
  ultimately show ?thesis
    by (simp add: attest_run_def sample_attest_cli_def pinned_pem_def cli_pq_pubkey_def parse_measurement_def parse_cert_der_def
        parse_cert_chain_pem_def)
qed

theorem accepted_attestation_is_bound_witness:
  "attest_run sample_crypto sample_verifier_lib sample_attest_cli = Inr (replicate 48 4)
    \<and> chip_bound sample_verifier_lib sample_vcek (replicate 64 9)
    \<and> (\<exists>chain pinned. chain_to_root sample_verifier_lib sample_vcek chain pinned)"
proof -
  note A = accepted_attestation_is_bound [OF sample_attest_accepted]
  then obtain report vcek_der vcek chain pinned where r: "ac_report sample_attest_cli = Some report"
    and v: "vl_der sample_verifier_lib vcek_der = Some vcek" and c: "chain_to_root sample_verifier_lib vcek chain pinned"
    and b: "chip_bound sample_verifier_lib vcek (take 64 (drop 0x1A0 (take SIG_OFFSET report)))"
    by blast
  have "vcek = sample_vcek" "report = sample_signed_report" using r v by (simp_all add: sample_attest_cli_def)
  moreover have "take 64 (drop 0x1A0 (take SIG_OFFSET sample_signed_report)) = replicate 64 9"
    by (simp add: sample_signed_report_def SIG_OFFSET_def report_data_for_pubkey_def sample_crypto_def)
  ultimately show ?thesis using b c sample_attest_accepted by auto
qed

end
