(* ===== verification/Derive_Root.thy ===== *)
theory Derive_Root
  imports Boot_Source
begin

text \<open>
  The crate \<open>snp-derive-root\<close>: the helper that asks the SEV-SNP firmware for the guest's derived key, turns it into the
  provisioning root and leaves that root in the file the enclave reads at boot.

  \<open>/dev/sev-guest\<close> is a step of its own state: a request, and the return code, the exit information and the 64 bytes of
  the response. The disk is the files by path, each its bytes and the mode it was created with; whether the system grants
  a write, a removal or the creation of a directory is a parameter. Messages on the standard error are left out.
\<close>

unbundle bit_operations_syntax

section \<open>The disk\<close>

type_synonym file_node = "bytes \<times> nat"

record disk =
  dk_files :: "bytes \<rightharpoonup> file_node"
  dk_dirs :: "bytes set"

text \<open>A write is complete, or it fails before the file is there, or with the first bytes of it written. \<open>io_rmtree path\<close> holds of
  the entries that the recursive removal of \<open>path\<close> gets to: all of them when it succeeds.\<close>

datatype write_outcome = Complete | Refused | Cut nat

record disk_io =
  io_mkdir :: "bytes \<Rightarrow> bool"
  io_write :: "bytes \<Rightarrow> write_outcome"
  io_remove :: "bytes \<Rightarrow> bool"
  io_rmtree :: "bytes \<Rightarrow> bytes \<Rightarrow> bool"

definition SECRET_MODE :: nat where "SECRET_MODE = 384"

definition read_file :: "disk \<Rightarrow> bytes \<Rightarrow> bytes option" where
  "read_file d path = map_option fst (dk_files d path)"

definition write_at :: "disk_io \<Rightarrow> bytes \<Rightarrow> nat \<Rightarrow> bytes \<Rightarrow> disk \<Rightarrow> (unit + unit) \<times> disk" where
  "write_at io path mode data d =
     (case io_write io path of
        Complete \<Rightarrow> (Inr (), d\<lparr>dk_files := (dk_files d)(path \<mapsto> (data, mode))\<rparr>)
      | Refused \<Rightarrow> (Inl (), d)
      | Cut n \<Rightarrow> (Inl (), d\<lparr>dk_files := (dk_files d)(path \<mapsto> (take n data, mode))\<rparr>))"

text \<open>\<open>create_new\<close>: the file must not exist.\<close>

definition create_new :: "disk_io \<Rightarrow> bytes \<Rightarrow> nat \<Rightarrow> bytes \<Rightarrow> disk \<Rightarrow> (unit + unit) \<times> disk" where
  "create_new io path mode data d =
     (if dk_files d path \<noteq> None \<or> path \<in> dk_dirs d then (Inl (), d) else write_at io path mode data d)"

definition remove_file :: "disk_io \<Rightarrow> bytes \<Rightarrow> disk \<Rightarrow> disk" where
  "remove_file io path d = (if io_remove io path then d\<lparr>dk_files := (dk_files d)(path := None)\<rparr> else d)"

section \<open>The request (lib.rs)\<close>

definition FIELD_GUEST_POLICY :: u64 where "FIELD_GUEST_POLICY = push_bit 0 1"
definition FIELD_IMAGE_ID :: u64 where "FIELD_IMAGE_ID = push_bit 1 1"
definition FIELD_FAMILY_ID :: u64 where "FIELD_FAMILY_ID = push_bit 2 1"
definition FIELD_MEASUREMENT :: u64 where "FIELD_MEASUREMENT = push_bit 3 1"
definition FIELD_GUEST_SVN :: u64 where "FIELD_GUEST_SVN = push_bit 4 1"
definition FIELD_TCB_VERSION :: u64 where "FIELD_TCB_VERSION = push_bit 5 1"
definition ROOT_KEY_VCEK :: u32 where "ROOT_KEY_VCEK = 0"
definition ROOT_KEY_VMRK :: u32 where "ROOT_KEY_VMRK = 1"
definition DERIVED_KEY_OFFSET :: nat where "DERIVED_KEY_OFFSET = 0x20"
definition DERIVED_KEY_LEN :: nat where "DERIVED_KEY_LEN = 32"
definition ROOT_DOMAIN :: bytes where "ROOT_DOMAIN = ascii ''2d-hsm-pq-seal-v1-root''"

definition derive_provisioning_root :: "crypto \<Rightarrow> bytes \<Rightarrow> bytes" where
  "derive_provisioning_root C snp_key = sha3_256 C (ROOT_DOMAIN @ snp_key)"

datatype derive_error =
    Unsupported
  | OpenDevice
  | ZeroKey
  | Ioctl int u32 u32

record snp_derived_key_req =
  rq_root_key_select :: u32
  rq_rsvd :: u32
  rq_guest_field_select :: u64
  rq_vmpl :: u32
  rq_guest_svn :: u32
  rq_tcb_version :: u64

record 'd sev_guest =
  sg_opens :: "'d \<Rightarrow> bool"
  sg_ioctl :: "u64 \<Rightarrow> u8 \<Rightarrow> snp_derived_key_req \<Rightarrow> 'd \<Rightarrow> (int \<times> u64 \<times> bytes) \<times> 'd"

definition iowr :: "u32 \<Rightarrow> u32 \<Rightarrow> u64 \<Rightarrow> u64" where
  "iowr ty nr sz = ucast (((push_bit 30 3 OR push_bit 16 (ucast sz :: u32)) OR push_bit 8 ty) OR nr)"

text \<open>The size of \<open>SnpGuestRequestIoctl\<close>: a byte, padded, and three words of eight bytes.\<close>

definition SNP_GET_DERIVED_KEY :: u64 where "SNP_GET_DERIVED_KEY = iowr 0x53 0x1 32"

definition fetch_snp_derived_key :: "'d sev_guest \<Rightarrow> u64 \<Rightarrow> u32 \<Rightarrow> u32 \<Rightarrow> 'd \<Rightarrow> (derive_error + bytes) \<times> 'd" where
  "fetch_snp_derived_key G field_select root_key_select guest_svn dev =
     (if \<not> sg_opens G dev then (Inl OpenDevice, dev)
      else
        (let rq = \<lparr>rq_root_key_select = root_key_select, rq_rsvd = 0, rq_guest_field_select = field_select, rq_vmpl = 0,
                   rq_guest_svn = guest_svn, rq_tcb_version = 0\<rparr>;
             ((rc, exitinfo2, resp), dev) = sg_ioctl G SNP_GET_DERIVED_KEY 1 rq dev in
         if rc \<noteq> 0 then (Inl (Ioctl rc (ucast (exitinfo2 AND 0xffffffff)) (ucast (drop_bit 32 exitinfo2))), dev)
         else (Inr (take DERIVED_KEY_LEN (drop DERIVED_KEY_OFFSET resp)), dev)))"

definition provisioning_root :: "crypto \<Rightarrow> 'd sev_guest \<Rightarrow> u64 \<Rightarrow> u32 \<Rightarrow> u32 \<Rightarrow> 'd \<Rightarrow> (derive_error + bytes) \<times> 'd" where
  "provisioning_root C G field_select root_key_select guest_svn dev =
     (case fetch_snp_derived_key G field_select root_key_select guest_svn dev of
        (Inl e, dev) \<Rightarrow> (Inl e, dev)
      | (Inr key, dev) \<Rightarrow>
          if list_all (\<lambda>b. b = 0) key then (Inl ZeroKey, dev) else (Inr (derive_provisioning_root C key), dev))"

record self_test =
  st_pass :: bool
  st_nonzero :: bool
  st_binding_changes :: bool
  st_measurement_root_commit :: bytes

definition selftest_commit :: "crypto \<Rightarrow> bytes \<Rightarrow> bytes" where
  "selftest_commit C k = sha3_256 C (ascii ''2d-hsm-snp-derive-root-selftest-commit'' @ derive_provisioning_root C k)"

definition selftest :: "crypto \<Rightarrow> 'd sev_guest \<Rightarrow> 'd \<Rightarrow> (derive_error + self_test) \<times> 'd" where
  "selftest C G dev =
     (case fetch_snp_derived_key G FIELD_MEASUREMENT ROOT_KEY_VCEK 0 dev of
        (Inl e, dev) \<Rightarrow> (Inl e, dev)
      | (Inr m_key, dev) \<Rightarrow>
          (case fetch_snp_derived_key G 0 ROOT_KEY_VCEK 0 dev of
             (Inl e, dev) \<Rightarrow> (Inl e, dev)
           | (Inr n_key, dev) \<Rightarrow>
               (let nonzero = list_ex (\<lambda>b. b \<noteq> 0) m_key; binding_changes = (m_key \<noteq> n_key) in
                (Inr \<lparr>st_pass = (nonzero \<and> binding_changes), st_nonzero = nonzero, st_binding_changes = binding_changes,
                      st_measurement_root_commit = selftest_commit C m_key\<rparr>, dev))))"

section \<open>The command line (main.rs)\<close>

fun parse_hex_digits :: "nat \<Rightarrow> nat \<Rightarrow> bytes \<Rightarrow> nat option" where
  "parse_hex_digits bound acc [] = Some acc"
| "parse_hex_digits bound acc (c # cs) =
     (case hex_digit c of
        None \<Rightarrow> None
      | Some d \<Rightarrow> if acc * 16 + d < bound then parse_hex_digits bound (acc * 16 + d) cs else None)"

text \<open>\<open>u64::from_str_radix(_, 16)\<close>.\<close>

definition u64_from_hex :: "bytes \<Rightarrow> nat option" where
  "u64_from_hex s =
     (let s = (case s of c # cs \<Rightarrow> if c = 0x2b then cs else s | [] \<Rightarrow> s) in
      if s = [] then None else parse_hex_digits (2 ^ 64) 0 s)"

definition parse_field_select :: "bytes \<Rightarrow> string + u64" where
  "parse_field_select v =
     (if v = ascii ''measurement'' then Inr FIELD_MEASUREMENT
      else if v = ascii ''policy'' then Inr FIELD_GUEST_POLICY
      else if v = ascii ''policy+measurement'' \<or> v = ascii ''measurement+policy''
      then Inr (FIELD_GUEST_POLICY OR FIELD_MEASUREMENT)
      else if v = ascii ''none'' then Inr 0
      else if v = ascii ''all''
      then Inr (FIELD_GUEST_POLICY OR FIELD_IMAGE_ID OR FIELD_FAMILY_ID OR FIELD_MEASUREMENT OR FIELD_GUEST_SVN OR FIELD_TCB_VERSION)
      else map_sum id of_nat (ok_or ''invalid --field-select (preset, u64, or 0xHEX)''
        (if take 2 v = ascii ''0x'' then u64_from_hex (drop 2 v) else parse_unsigned (2 ^ 64) v)))"

record derive_args =
  ar_out :: "bytes option"
  ar_print :: bool
  ar_selftest :: bool
  ar_field_select :: u64
  ar_root_key :: u32
  ar_svn :: u32
  ar_help :: bool

definition default_args :: derive_args where
  "default_args = \<lparr>ar_out = None, ar_print = False, ar_selftest = False, ar_field_select = FIELD_MEASUREMENT,
     ar_root_key = ROOT_KEY_VCEK, ar_svn = 0, ar_help = False\<rparr>"

fun parse_args_from :: "derive_args \<Rightarrow> bytes list \<Rightarrow> string + derive_args" where
  "parse_args_from a [] = Inr a"
| "parse_args_from a (arg # args) =
     (if arg = ascii ''--out'' then
        (case args of
           [] \<Rightarrow> Inl ''--out needs a path''
         | p # args \<Rightarrow>
             if take 2 p = ascii ''--'' then Inl ''--out needs a path, got flag''
             else parse_args_from (a\<lparr>ar_out := Some p\<rparr>) args)
      else if arg = ascii ''--print'' then parse_args_from (a\<lparr>ar_print := True\<rparr>) args
      else if arg = ascii ''--selftest'' then parse_args_from (a\<lparr>ar_selftest := True\<rparr>) args
      else if arg = ascii ''--field-select'' then
        (case args of
           [] \<Rightarrow> Inl ''--field-select needs a value''
         | v # args \<Rightarrow>
             (case parse_field_select v of
                Inl e \<Rightarrow> Inl e
              | Inr f \<Rightarrow> parse_args_from (a\<lparr>ar_field_select := f\<rparr>) args))
      else if arg = ascii ''--root-key'' then
        (case args of
           [] \<Rightarrow> Inl ''invalid --root-key (vcek|vmrk)''
         | k # args \<Rightarrow>
             if k = ascii ''vcek'' then parse_args_from (a\<lparr>ar_root_key := ROOT_KEY_VCEK\<rparr>) args
             else if k = ascii ''vmrk'' then parse_args_from (a\<lparr>ar_root_key := ROOT_KEY_VMRK\<rparr>) args
             else Inl ''invalid --root-key (vcek|vmrk)'')
      else if arg = ascii ''--svn'' then
        (case args of
           [] \<Rightarrow> Inl ''--svn needs a value''
         | v # args \<Rightarrow>
             (case parse_unsigned (2 ^ 32) v of
                None \<Rightarrow> Inl ''invalid --svn (u32)''
              | Some n \<Rightarrow> parse_args_from (a\<lparr>ar_svn := of_nat n\<rparr>) args))
      else if arg = ascii ''-h'' \<or> arg = ascii ''--help'' then Inr (a\<lparr>ar_help := True\<rparr>)
      else Inl ''unknown argument'')"

definition parse_args :: "bytes list \<Rightarrow> string + derive_args" where
  "parse_args args = parse_args_from default_args args"

text \<open>\<open>Path::parent\<close> and the directory builder are the parameter's: its directory is there or it could be made.\<close>

definition write_root_0600 :: "disk_io \<Rightarrow> bytes \<Rightarrow> bytes \<Rightarrow> disk \<Rightarrow> (unit + unit) \<times> disk" where
  "write_root_0600 io path root d =
     (if \<not> io_mkdir io path then (Inl (), d) else create_new io path SECRET_MODE root (remove_file io path d))"

definition nibble :: "nat \<Rightarrow> u8" where
  "nibble n = (if n < 10 then of_nat (48 + n) else of_nat (87 + n))"

definition hex_lower :: "bytes \<Rightarrow> bytes" where
  "hex_lower b = concat (List.map (\<lambda>x. [nibble (unat x div 16), nibble (unat x mod 16)]) b)"

datatype derive_line =
    UsageText
  | SelftestLine self_test
  | RootHex bytes

datatype derive_cli_error =
    Usage string
  | Device derive_error
  | SelftestFailed
  | WriteFailed

record 'd derive_world =
  dw_device :: 'd
  dw_disk :: disk
  dw_stdout :: "derive_line list"

definition run_selftest :: "crypto \<Rightarrow> 'd sev_guest \<Rightarrow> 'd derive_world \<Rightarrow> (derive_cli_error + unit) \<times> 'd derive_world" where
  "run_selftest C G w =
     (case selftest C G (dw_device w) of
        (Inl e, dev) \<Rightarrow> (Inl (Device e), w\<lparr>dw_device := dev\<rparr>)
      | (Inr st, dev) \<Rightarrow>
          (if st_pass st then Inr () else Inl SelftestFailed,
           w\<lparr>dw_device := dev, dw_stdout := dw_stdout w @ [SelftestLine st]\<rparr>))"

definition run_provision :: "crypto \<Rightarrow> 'd sev_guest \<Rightarrow> disk_io \<Rightarrow> derive_args \<Rightarrow> 'd derive_world
    \<Rightarrow> (derive_cli_error + unit) \<times> 'd derive_world" where
  "run_provision C G io a w =
     (case provisioning_root C G (ar_field_select a) (ar_root_key a) (ar_svn a) (dw_device w) of
        (Inl e, dev) \<Rightarrow> (Inl (Device e), w\<lparr>dw_device := dev\<rparr>)
      | (Inr root, dev) \<Rightarrow>
          (let w = w\<lparr>dw_device := dev\<rparr>;
               (r, d) = (case ar_out a of None \<Rightarrow> (Inr (), dw_disk w) | Some path \<Rightarrow> write_root_0600 io path root (dw_disk w));
               w = w\<lparr>dw_disk := d\<rparr> in
           case r of
             Inl _ \<Rightarrow> (Inl WriteFailed, w)
           | Inr _ \<Rightarrow>
               (Inr (), if ar_print a then w\<lparr>dw_stdout := dw_stdout w @ [RootHex (hex_lower root)]\<rparr> else w)))"

definition derive_run :: "crypto \<Rightarrow> 'd sev_guest \<Rightarrow> disk_io \<Rightarrow> bytes list \<Rightarrow> 'd derive_world
    \<Rightarrow> (derive_cli_error + unit) \<times> 'd derive_world" where
  "derive_run C G io args w =
     (case parse_args args of
        Inl e \<Rightarrow> (Inl (Usage e), w)
      | Inr a \<Rightarrow>
          if ar_help a then (Inr (), w\<lparr>dw_stdout := dw_stdout w @ [UsageText]\<rparr>)
          else if ar_out a = None \<and> \<not> ar_print a \<and> \<not> ar_selftest a
          then (Inl (Usage ''need --out <path>, --print, or --selftest''), w)
          else
            (case (if ar_selftest a then run_selftest C G w else (Inr (), w)) of
               (Inl e, w) \<Rightarrow> (Inl e, w)
             | (Inr _, w) \<Rightarrow>
                 if ar_out a = None \<and> \<not> ar_print a then (Inr (), w) else run_provision C G io a w))"

section \<open>What the tool does with the key\<close>

lemma ioctl_number: "SNP_GET_DERIVED_KEY = 0xC0205301"
  by (simp add: SNP_GET_DERIVED_KEY_def iowr_def)

lemma parse_args_out:
  "parse_args_from a args = Inr a' \<Longrightarrow> (\<And>p. ar_out a = Some p \<Longrightarrow> take 2 p \<noteq> ascii ''--'')
    \<Longrightarrow> ar_out a' = Some q \<Longrightarrow> take 2 q \<noteq> ascii ''--''"
proof (induction a args arbitrary: a' rule: parse_args_from.induct)
  case (2 a arg args)
  then show ?case
    by (auto split: if_splits list.splits sum.splits option.splits)
qed simp

lemma create_fresh:
  assumes "write_root_0600 io p root d = (Inr (), d')"
  shows "d' = d\<lparr>dk_files := (dk_files d)(p \<mapsto> (root, SECRET_MODE))\<rparr>"
  using assms
  by (auto simp: write_root_0600_def create_new_def write_at_def remove_file_def split: if_splits write_outcome.splits)

text \<open>The firmware answered this request with this key.\<close>

definition firmware_key :: "'d sev_guest \<Rightarrow> derive_args \<Rightarrow> 'd \<Rightarrow> bytes \<Rightarrow> bool" where
  "firmware_key G a dev key \<longleftrightarrow> (\<exists>exitinfo2 resp dev'. sg_ioctl G 0xC0205301 1
      \<lparr>rq_root_key_select = ar_root_key a, rq_rsvd = 0, rq_guest_field_select = ar_field_select a, rq_vmpl = 0,
       rq_guest_svn = ar_svn a, rq_tcb_version = 0\<rparr> dev = ((0, exitinfo2, resp), dev')
    \<and> key = take 32 (drop 32 resp))"

lemma fetch_Inr:
  "fetch_snp_derived_key G (ar_field_select a) (ar_root_key a) (ar_svn a) dev = (Inr key, dev') \<Longrightarrow> firmware_key G a dev key"
  by (fastforce simp: fetch_snp_derived_key_def firmware_key_def ioctl_number DERIVED_KEY_LEN_def DERIVED_KEY_OFFSET_def Let_def
      split: if_splits prod.splits)

lemma provisioning_root_Inr:
  assumes "provisioning_root C G (ar_field_select a) (ar_root_key a) (ar_svn a) dev = (Inr root, dev')"
  shows "\<exists>key. firmware_key G a dev key \<and> list_ex (\<lambda>b. b \<noteq> 0) key \<and> root = sha3_256 C (ROOT_DOMAIN @ key)"
  using assms fetch_Inr
  by (fastforce simp: provisioning_root_def derive_provisioning_root_def list_all_iff list_ex_iff split: prod.splits sum.splits if_splits)

lemma selftest_keeps: "run_selftest C G w = (r, w') \<Longrightarrow> dw_disk w' = dw_disk w
    \<and> (\<exists>ls. dw_stdout w' = dw_stdout w @ ls \<and> list_all (\<lambda>l. \<forall>h. l \<noteq> RootHex h) ls)"
  by (auto simp: run_selftest_def split: prod.splits sum.splits if_splits)

lemma write_root_frame:
  assumes "write_root_0600 io p root d = (r, d')"
  shows "(\<forall>q. q \<noteq> p \<longrightarrow> dk_files d' q = dk_files d q)
    \<and> (\<forall>f. dk_files d' p = Some f \<longrightarrow> dk_files d p = Some f \<or> snd f = SECRET_MODE)"
  using assms
  by (auto simp: write_root_0600_def create_new_def write_at_def remove_file_def split: if_splits write_outcome.splits)

lemma provision_cases:
  assumes "run_provision C G io a w = (r, w')"
  obtains (device) e dev where "r = Inl (Device e)" "w' = w\<lparr>dw_device := dev\<rparr>"
    | (root) root dev d res where "provisioning_root C G (ar_field_select a) (ar_root_key a) (ar_svn a) (dw_device w) = (Inr root, dev)"
        "(case ar_out a of None \<Rightarrow> (Inr (), dw_disk w) | Some path \<Rightarrow> write_root_0600 io path root (dw_disk w)) = (res, d)"
        "r = (case res of Inl _ \<Rightarrow> Inl WriteFailed | Inr _ \<Rightarrow> Inr ())" "dw_disk w' = d"
        "dw_stdout w' = dw_stdout w @ (if ar_print a \<and> r = Inr () then [RootHex (hex_lower root)] else [])"
proof (cases "provisioning_root C G (ar_field_select a) (ar_root_key a) (ar_svn a) (dw_device w)")
  case (Pair x dev)
  show ?thesis
  proof (cases x)
    case (Inl e)
    then have "r = Inl (Device e)" "w' = w\<lparr>dw_device := dev\<rparr>" using assms Pair by (simp_all add: run_provision_def)
    then show ?thesis by (rule device)
  next
    case (Inr root)
    obtain res d where w: "(case ar_out a of None \<Rightarrow> (Inr (), dw_disk w) | Some path \<Rightarrow> write_root_0600 io path root (dw_disk w)) = (res, d)"
      by (metis surj_pair)
    then have "(case ar_out a of None \<Rightarrow> (Inr (), dw_disk (w\<lparr>dw_device := dev\<rparr>))
        | Some path \<Rightarrow> write_root_0600 io path root (dw_disk (w\<lparr>dw_device := dev\<rparr>))) = (res, d)" by (simp cong: option.case_cong)
    then have r: "run_provision C G io a w = (case res of
          Inl _ \<Rightarrow> (Inl WriteFailed, w\<lparr>dw_device := dev, dw_disk := d\<rparr>)
        | Inr _ \<Rightarrow> (Inr (), if ar_print a then w\<lparr>dw_device := dev, dw_disk := d, dw_stdout := dw_stdout w @ [RootHex (hex_lower root)]\<rparr>
            else w\<lparr>dw_device := dev, dw_disk := d\<rparr>))"
      using Pair Inr by (simp add: run_provision_def Let_def split: sum.splits)
    show ?thesis
    proof (rule root [of root dev res d])
      show "provisioning_root C G (ar_field_select a) (ar_root_key a) (ar_svn a) (dw_device w) = (Inr root, dev)" using Pair Inr by simp
    qed (use w r assms in \<open>auto split: sum.splits if_splits\<close>)
  qed
qed

lemma derive_run_cases:
  assumes "derive_run C G io args w = (r, w')"
  obtains (quiet) ls where "dw_disk w' = dw_disk w" "dw_stdout w' = dw_stdout w @ ls" "list_all (\<lambda>l. \<forall>h. l \<noteq> RootHex h) ls"
      "r = Inr () \<longrightarrow> (\<forall>a. parse_args args = Inr a \<longrightarrow> ar_help a \<or> ar_out a = None \<and> \<not> ar_print a)"
    | (provision) a w0 ls where "parse_args args = Inr a" "dw_disk w0 = dw_disk w" "dw_stdout w0 = dw_stdout w @ ls"
      "list_all (\<lambda>l. \<forall>h. l \<noteq> RootHex h) ls" "run_provision C G io a w0 = (r, w')"
proof (cases "parse_args args")
  case (Inl e)
  then show ?thesis using assms quiet [of "[]"] by (simp add: derive_run_def)
next
  case (Inr a)
  show ?thesis
  proof (cases "ar_help a \<or> ar_out a = None \<and> \<not> ar_print a \<and> \<not> ar_selftest a")
    case True
    then show ?thesis using assms Inr quiet [of "if ar_help a then [UsageText] else []"] by (auto simp: derive_run_def split: if_splits)
  next
    case False
    obtain r0 w0 where s: "(if ar_selftest a then run_selftest C G w else (Inr (), w)) = (r0, w0)" by (metis surj_pair)
    then obtain ls where k: "dw_disk w0 = dw_disk w" "dw_stdout w0 = dw_stdout w @ ls" "list_all (\<lambda>l. \<forall>h. l \<noteq> RootHex h) ls"
      using selftest_keeps [of C G w r0 w0] by (auto split: if_splits)
    have d: "derive_run C G io args w = (case r0 of Inl e \<Rightarrow> (Inl e, w0)
        | Inr _ \<Rightarrow> if ar_out a = None \<and> \<not> ar_print a then (Inr (), w0) else run_provision C G io a w0)"
      using Inr False s by (auto simp: derive_run_def split: sum.splits)
    show ?thesis
      using d assms k Inr quiet [of ls] provision [OF Inr k]
      by (cases r0) (auto split: if_splits)
  qed
qed

text \<open>C20: where the root comes from and where it goes. Whatever the tool is told and however the device and the disk behave,
  it changes no file but the one named by \<open>--out\<close>, leaves nothing new there that is not created with mode 0600, and prints
  the root only under \<open>--print\<close>. When it succeeds with \<open>--out\<close>, the file is exactly the domain-separated hash of a key the
  firmware returned for the selectors asked for, in a fresh file of mode 0600, the key was not all zero, and the path is
  not an option taken for one. An enclave whose image reads the root from that file then boots with it.\<close>

theorem derived_root_reaches_only_boot:
  assumes "derive_run C G io args w = (r, w')"
  shows "(\<forall>q f. dk_files (dw_disk w') q \<noteq> dk_files (dw_disk w) q \<longrightarrow> (\<exists>a. parse_args args = Inr a \<and> ar_out a = Some q)
            \<and> (dk_files (dw_disk w') q = Some f \<longrightarrow> snd f = SECRET_MODE))
    \<and> (\<exists>ls. dw_stdout w' = dw_stdout w @ ls
          \<and> (\<forall>h. RootHex h \<in> set ls \<longrightarrow> (\<exists>a. parse_args args = Inr a \<and> ar_print a)))
    \<and> (\<forall>a p. r = Inr () \<longrightarrow> parse_args args = Inr a \<longrightarrow> \<not> ar_help a \<longrightarrow> ar_out a = Some p \<longrightarrow>
        take 2 p \<noteq> ascii ''--'' \<and> (\<exists>dev key root. firmware_key G a dev key \<and> list_ex (\<lambda>b. b \<noteq> 0) key
          \<and> root = sha3_256 C (ROOT_DOMAIN @ key)
          \<and> dk_files (dw_disk w') = (dk_files (dw_disk w))(p \<mapsto> (root, SECRET_MODE))
          \<and> (\<forall>bd h. length root = 32 \<and> p = PQ_SEAL_ROOT_PATH \<and> bh_file h = read_file (dw_disk w') \<and> bd_root_from_boot_file bd
              \<and> \<not> bd_lab_keystore_file bd \<longrightarrow> derive_agent_provisioning_root bd h = Inr root)))"
  using assms
proof (cases rule: derive_run_cases)
  case (quiet ls)
  then show ?thesis by (auto simp: list_all_iff)
next
  case (provision a w0 ls)
  have flag: "ar_out a = Some p \<Longrightarrow> take 2 p \<noteq> ascii ''--''" for p
    using parse_args_out [of default_args args a p] provision(1) by (simp add: parse_args_def default_args_def)
  from provision(5) show ?thesis
  proof (cases rule: provision_cases)
    case (device e dev)
    then show ?thesis using provision by (auto simp: list_all_iff)
  next
    case (root root dev d res)
    have "\<forall>q f. dk_files d q \<noteq> dk_files (dw_disk w) q \<longrightarrow> ar_out a = Some q \<and> (dk_files d q = Some f \<longrightarrow> snd f = SECRET_MODE)"
    proof (cases "ar_out a")
      case None
      then show ?thesis using root(2) provision(2) by simp
    next
      case (Some p)
      then have "write_root_0600 io p root (dw_disk w0) = (res, d)" using root(2) by simp
      from write_root_frame [OF this] show ?thesis using Some provision(2) by (metis option.inject)
    qed
    moreover have "\<exists>ls. dw_stdout w' = dw_stdout w @ ls \<and> (\<forall>h. RootHex h \<in> set ls \<longrightarrow> ar_print a)"
      using root(5) provision(3,4) by (auto simp: list_all_iff)
    moreover {
      fix p assume ok: "r = Inr ()" "ar_out a = Some p"
      then have "write_root_0600 io p root (dw_disk w0) = (Inr (), d)" using root(2,3) by (cases res) auto
      then have d: "dk_files d = (dk_files (dw_disk w))(p \<mapsto> (root, SECRET_MODE))" using create_fresh provision(2) by fastforce
      then have "length root = 32 \<and> p = PQ_SEAL_ROOT_PATH \<and> bh_file h = read_file d \<and> bd_root_from_boot_file bd
          \<and> \<not> bd_lab_keystore_file bd \<longrightarrow> derive_agent_provisioning_root bd h = Inr root" for bd h
        by (auto simp: derive_agent_provisioning_root_def read_boot_file_capped_def read_file_def exactly_32_def)
      then have "\<exists>dev key root. firmware_key G a dev key \<and> list_ex (\<lambda>b. b \<noteq> 0) key \<and> root = sha3_256 C (ROOT_DOMAIN @ key)
          \<and> dk_files d = (dk_files (dw_disk w))(p \<mapsto> (root, SECRET_MODE))
          \<and> (\<forall>bd h. length root = 32 \<and> p = PQ_SEAL_ROOT_PATH \<and> bh_file h = read_file d \<and> bd_root_from_boot_file bd
              \<and> \<not> bd_lab_keystore_file bd \<longrightarrow> derive_agent_provisioning_root bd h = Inr root)"
        using d provisioning_root_Inr [OF root(1)] by blast
    }
    ultimately show ?thesis using provision(1) root(4) flag by simp
  qed
qed

text \<open>An instance: the production invocation on a firmware that returns a constant key.\<close>

definition sample_sev_guest :: "unit sev_guest" where
  "sample_sev_guest = \<lparr>sg_opens = (\<lambda>_. True), sg_ioctl = (\<lambda>_ _ _ _. ((0, 0, replicate 32 0 @ replicate 32 7), ()))\<rparr>"

definition sample_disk_io :: disk_io where
  "sample_disk_io = \<lparr>io_mkdir = (\<lambda>_. True), io_write = (\<lambda>_. Complete), io_remove = (\<lambda>_. True), io_rmtree = (\<lambda>_ _. True)\<rparr>"

definition sample_derive_world :: "unit derive_world" where
  "sample_derive_world = \<lparr>dw_device = (), dw_disk = \<lparr>dk_files = Map.empty(PQ_SEAL_ROOT_PATH \<mapsto> ([1], 0)), dk_dirs = {}\<rparr>, dw_stdout = []\<rparr>"

lemma sample_args: "parse_args [ascii ''--out'', PQ_SEAL_ROOT_PATH] = Inr (default_args\<lparr>ar_out := Some PQ_SEAL_ROOT_PATH\<rparr>)"
  by (simp add: parse_args_def PQ_SEAL_ROOT_PATH_def ascii_def)

lemma sample_derive_runs:
  "fst (derive_run sample_crypto sample_sev_guest sample_disk_io [ascii ''--out'', PQ_SEAL_ROOT_PATH] sample_derive_world) = Inr ()"
  by (simp add: derive_run_def sample_args default_args_def run_provision_def provisioning_root_def fetch_snp_derived_key_def
      sample_sev_guest_def sample_derive_world_def write_root_0600_def create_new_def write_at_def remove_file_def sample_disk_io_def
      DERIVED_KEY_OFFSET_def DERIVED_KEY_LEN_def Let_def list_all_iff)

theorem derived_root_reaches_only_boot_witness:
  "\<exists>w' root. derive_run sample_crypto sample_sev_guest sample_disk_io [ascii ''--out'', PQ_SEAL_ROOT_PATH] sample_derive_world = (Inr (), w')
    \<and> dk_files (dw_disk w') PQ_SEAL_ROOT_PATH = Some (root, SECRET_MODE) \<and> length root = 32"
proof -
  obtain w' where d: "derive_run sample_crypto sample_sev_guest sample_disk_io [ascii ''--out'', PQ_SEAL_ROOT_PATH] sample_derive_world
      = (Inr (), w')" using sample_derive_runs by (metis prod.collapse)
  have "\<not> ar_help (default_args\<lparr>ar_out := Some PQ_SEAL_ROOT_PATH\<rparr>)" "ar_out (default_args\<lparr>ar_out := Some PQ_SEAL_ROOT_PATH\<rparr>) = Some PQ_SEAL_ROOT_PATH"
    by (simp_all add: default_args_def)
  then obtain key where "dk_files (dw_disk w') = (dk_files (dw_disk sample_derive_world))(PQ_SEAL_ROOT_PATH \<mapsto>
      (sha3_256 sample_crypto (ROOT_DOMAIN @ key), SECRET_MODE))"
    using derived_root_reaches_only_boot [OF d] sample_args by blast
  then show ?thesis using d by (intro exI [of _ w'] exI conjI) (auto simp: sample_crypto_def)
qed

end
