(* ===== verification/Fleet.thy ===== *)
theory Fleet
  imports Derive_Root
begin

text \<open>
  The crates \<open>pq-seal-manifest\<close> and \<open>pq-seal-v1\<close>: the offline ceremony that seals the producer's key pair once for each
  host's provisioning root, the manifest that names the blobs by commitments to those roots, and a host's choice of its own.

  JSON and the hexadecimal crate are parameters. The nonce of the i-th seal is a draw of a source that may fail, the files
  and the outcome of each write are those of \<open>Derive_Root\<close>. Warnings and messages are left out.
\<close>

section \<open>The manifest (pq-seal-manifest)\<close>

definition COMMITMENT_DOMAIN :: bytes where "COMMITMENT_DOMAIN = ascii ''2d-hsm-pq-seal-manifest-commitment-v1''"
definition MANIFEST_VERSION :: u32 where "MANIFEST_VERSION = 1"
definition MANIFEST_FILENAME :: bytes where "MANIFEST_FILENAME = ascii ''pq-seal-manifest.json''"

record manifest_entry =
  en_label :: bytes
  en_root_commitment :: bytes
  en_blob :: bytes

record manifest =
  mn_version :: u32
  mn_measurement :: bytes
  mn_entries :: "manifest_entry list"

datatype manifest_error =
    ManifestVersion u32
  | NoMatch
  | Ambiguous nat
  | DuplicateCommitment bytes
  | Json

record fleet_lib =
  fl_hex_encode :: "bytes \<Rightarrow> bytes"
  fl_hex_decode :: "bytes \<Rightarrow> bytes option"
  fl_to_json :: "manifest \<Rightarrow> bytes option"
  fl_from_json :: "bytes \<Rightarrow> manifest option"

definition ascii_lower :: "u8 \<Rightarrow> u8" where
  "ascii_lower c = (if 0x41 \<le> c \<and> c \<le> 0x5a then c + 0x20 else c)"

definition to_ascii_lowercase :: "bytes \<Rightarrow> bytes" where
  "to_ascii_lowercase s = List.map ascii_lower s"

definition eq_ignore_ascii_case :: "bytes \<Rightarrow> bytes \<Rightarrow> bool" where
  "eq_ignore_ascii_case s t \<longleftrightarrow> to_ascii_lowercase s = to_ascii_lowercase t"

definition root_commitment :: "crypto \<Rightarrow> bytes \<Rightarrow> bytes" where
  "root_commitment C root = sha3_256 C (COMMITMENT_DOMAIN @ root)"

text \<open>The loop of \<open>from_json\<close> over the entries: the first commitment seen before.\<close>

fun first_duplicate :: "bytes set \<Rightarrow> manifest_entry list \<Rightarrow> bytes option" where
  "first_duplicate seen [] = None"
| "first_duplicate seen (e # es) =
     (if to_ascii_lowercase (en_root_commitment e) \<in> seen then Some (en_root_commitment e)
      else first_duplicate (insert (to_ascii_lowercase (en_root_commitment e)) seen) es)"

definition manifest_from_json :: "fleet_lib \<Rightarrow> bytes \<Rightarrow> manifest_error + manifest" where
  "manifest_from_json X bs =
     res_bind (ok_or Json (fl_from_json X bs)) (\<lambda>m.
     if mn_version m \<noteq> MANIFEST_VERSION then Inl (ManifestVersion (mn_version m))
     else (case first_duplicate {} (mn_entries m) of
         Some c \<Rightarrow> Inl (DuplicateCommitment c)
       | None \<Rightarrow> Inr m))"

definition to_json_pretty :: "fleet_lib \<Rightarrow> manifest \<Rightarrow> manifest_error + bytes" where
  "to_json_pretty X m = ok_or Json (fl_to_json X m)"

definition select_entry :: "crypto \<Rightarrow> fleet_lib \<Rightarrow> manifest \<Rightarrow> bytes \<Rightarrow> manifest_error + manifest_entry" where
  "select_entry C X m root =
     (let want = fl_hex_encode X (root_commitment C root) in
      case filter (\<lambda>e. eq_ignore_ascii_case (en_root_commitment e) want) (mn_entries m) of
        [] \<Rightarrow> Inl NoMatch
      | [e] \<Rightarrow> Inr e
      | matches \<Rightarrow> Inl (Ambiguous (length matches)))"

section \<open>The offline tool (pq-seal-v1)\<close>

datatype cli_error =
    Msg string
  | Io
  | Protocol protocol_error

record seal_tool =
  sl_crypto :: crypto
  sl_pq :: pq_crypto
  sl_lib :: fleet_lib
  sl_io :: disk_io
  sl_draw :: "nat \<Rightarrow> bytes option"
  sl_generate :: mldsa65_signer

definition read_measurement :: "fleet_lib \<Rightarrow> disk \<Rightarrow> bytes option \<Rightarrow> bytes option \<Rightarrow> cli_error + bytes" where
  "read_measurement X d args_file args_hex =
     (case args_file of
        Some path \<Rightarrow>
          res_bind (ok_or Io (read_file d path)) (\<lambda>b.
          if b = [] then Inl (Msg ''measurement must be non-empty'') else Inr b)
      | None \<Rightarrow>
          (case args_hex of
             Some hex \<Rightarrow>
               res_bind (ok_or (Msg ''measurement hex'') (fl_hex_decode X (trim_str hex))) (\<lambda>b.
               if b = [] then Inl (Msg ''measurement must be non-empty'') else Inr b)
           | None \<Rightarrow> Inl (Msg ''provide --measurement-file or --measurement-hex'')))"

definition read_root_32 :: "disk \<Rightarrow> bytes \<Rightarrow> cli_error + bytes" where
  "read_root_32 d path =
     res_bind (ok_or Io (read_file d path)) (\<lambda>content.
     if length content < 32 then Inl (Msg ''provisioning root must be exactly 32 bytes'')
     else if drop 32 content \<noteq> [] then Inl (Msg ''provisioning root must be exactly 32 bytes'')
     else Inr (take 32 content))"

definition write_secret_file :: "disk_io \<Rightarrow> bytes \<Rightarrow> bytes \<Rightarrow> disk \<Rightarrow> (cli_error + unit) \<times> disk" where
  "write_secret_file io path data d = (case create_new io path SECRET_MODE data d of (r, d) \<Rightarrow> (map_err (\<lambda>_. Io) r, d))"

definition read_validated_keypair :: "disk \<Rightarrow> bytes \<Rightarrow> bytes \<Rightarrow> cli_error + (bytes \<times> bytes)" where
  "read_validated_keypair d secret_key_file public_key_file =
     res_bind (ok_or Io (read_file d secret_key_file)) (\<lambda>sk.
     res_bind (ok_or Io (read_file d public_key_file)) (\<lambda>pk.
     if length sk \<noteq> ML_DSA65_SECRETKEY_LEN then Inl (Msg ''secret key length'')
     else if length pk \<noteq> ML_DSA65_PUBKEY_LEN then Inl (Msg ''public key length'')
     else Inr (sk, pk)))"

definition seal_blob :: "seal_tool \<Rightarrow> bytes \<Rightarrow> bytes \<Rightarrow> bytes \<Rightarrow> bytes \<Rightarrow> bytes option \<Rightarrow> cli_error + bytes" where
  "seal_blob T sk pk measurement root draw =
     res_bind (map_err Protocol (seal_mldsa65_keypair_v1_with_root (sl_crypto T) (sl_pq T) sk pk measurement root draw)) (\<lambda>blob.
     if length blob \<noteq> pq_seal_v1_expected_blob_len then Inl (Msg ''internal error: unexpected sealed blob length'')
     else Inr blob)"

definition is_ascii_alphanumeric :: "u8 \<Rightarrow> bool" where
  "is_ascii_alphanumeric b \<longleftrightarrow> 0x30 \<le> b \<and> b \<le> 0x39 \<or> 0x41 \<le> b \<and> b \<le> 0x5a \<or> 0x61 \<le> b \<and> b \<le> 0x7a"

definition validate_label :: "bytes \<Rightarrow> cli_error + unit" where
  "validate_label label =
     (if label = [] \<or> 64 < length label then Inl (Msg ''host label must be 1..=64 chars (it becomes a filename)'')
      else if \<not> (label \<noteq> ascii ''.'' \<and> label \<noteq> ascii ''..''
            \<and> list_all (\<lambda>b. is_ascii_alphanumeric b \<or> b = 0x2e \<or> b = 0x5f \<or> b = 0x2d) label)
      then Inl (Msg ''host label must match [A-Za-z0-9._-] (it becomes a filename)'')
      else Inr ())"

fun split_once :: "u8 \<Rightarrow> bytes \<Rightarrow> (bytes \<times> bytes) option" where
  "split_once c [] = None"
| "split_once c (b # bs) = (if b = c then Some ([], bs) else map_option (\<lambda>(l, r). (b # l, r)) (split_once c bs))"

type_synonym built_host = "bytes \<times> bytes \<times> bytes"

record ceremony_state =
  cs_built :: "built_host list"
  cs_labels :: "bytes set"
  cs_roots :: "bytes set"

definition build_host :: "seal_tool \<Rightarrow> disk \<Rightarrow> bytes \<Rightarrow> bytes \<Rightarrow> bytes \<Rightarrow> bytes \<Rightarrow> ceremony_state
    \<Rightarrow> cli_error + ceremony_state" where
  "build_host T d sk pk measurement h s =
     res_bind (ok_or (Msg ''--host must be LABEL=ROOTFILE'') (split_once 0x3d h)) (\<lambda>(label, path).
     res_bind (validate_label label) (\<lambda>_.
     if to_ascii_lowercase label \<in> cs_labels s then Inl (Msg ''duplicate host label (case-insensitive)'')
     else
     res_bind (read_root_32 d path) (\<lambda>root.
     let commitment = root_commitment (sl_crypto T) root in
     if commitment \<in> cs_roots s then Inl (Msg ''host has the same provisioning root as an earlier host'')
     else
     res_bind (seal_blob T sk pk measurement root (sl_draw T (length (cs_built s)))) (\<lambda>blob.
     Inr \<lparr>cs_built = cs_built s @ [(label, blob, commitment)],
          cs_labels = insert (to_ascii_lowercase label) (cs_labels s),
          cs_roots = insert commitment (cs_roots s)\<rparr>))))"

fun build_hosts :: "seal_tool \<Rightarrow> disk \<Rightarrow> bytes \<Rightarrow> bytes \<Rightarrow> bytes \<Rightarrow> bytes list \<Rightarrow> ceremony_state
    \<Rightarrow> cli_error + ceremony_state" where
  "build_hosts T d sk pk measurement [] s = Inr s"
| "build_hosts T d sk pk measurement (h # hs) s =
     res_bind (build_host T d sk pk measurement h s) (build_hosts T d sk pk measurement hs)"

text \<open>\<open>Path::join\<close> with a relative path.\<close>

definition join_path :: "bytes \<Rightarrow> bytes \<Rightarrow> bytes" where
  "join_path dir p = (if dir = [] \<or> last dir = 0x2f then dir @ p else dir @ 0x2f # p)"

definition create_dir :: "disk_io \<Rightarrow> bytes \<Rightarrow> disk \<Rightarrow> (unit + unit) \<times> disk" where
  "create_dir io path d =
     (if path \<in> dk_dirs d \<or> dk_files d path \<noteq> None \<or> \<not> io_mkdir io path then (Inl (), d)
      else (Inr (), d\<lparr>dk_dirs := insert path (dk_dirs d)\<rparr>))"

definition below :: "bytes \<Rightarrow> bytes \<Rightarrow> bool" where
  "below dir q \<longleftrightarrow> take (length (join_path dir [])) q = join_path dir []"

definition remove_dir_all :: "disk_io \<Rightarrow> bytes \<Rightarrow> disk \<Rightarrow> disk" where
  "remove_dir_all io path d =
     d\<lparr>dk_files := (\<lambda>q. if (q = path \<or> below path q) \<and> io_rmtree io path q then None else dk_files d q),
       dk_dirs := {q \<in> dk_dirs d. \<not> ((q = path \<or> below path q) \<and> io_rmtree io path q)}\<rparr>"

definition blob_rel :: "bytes \<Rightarrow> bytes" where
  "blob_rel label = ascii ''blobs/'' @ label @ ascii ''.sealed''"

fun write_blobs :: "disk_io \<Rightarrow> bytes \<Rightarrow> built_host list \<Rightarrow> disk \<Rightarrow> (cli_error + unit) \<times> disk" where
  "write_blobs io out_dir [] d = (Inr (), d)"
| "write_blobs io out_dir ((label, blob, commitment) # built) d =
     (case write_secret_file io (join_path out_dir (blob_rel label)) blob d of
        (Inl e, d) \<Rightarrow> (Inl e, d)
      | (Inr _, d) \<Rightarrow> write_blobs io out_dir built d)"

definition manifest_of :: "fleet_lib \<Rightarrow> bytes \<Rightarrow> built_host list \<Rightarrow> manifest" where
  "manifest_of X measurement built =
     \<lparr>mn_version = MANIFEST_VERSION, mn_measurement = fl_hex_encode X measurement,
      mn_entries = List.map (\<lambda>(label, blob, commitment).
        \<lparr>en_label = label, en_root_commitment = fl_hex_encode X commitment, en_blob = blob_rel label\<rparr>) built\<rparr>"

definition PLAIN_MODE :: nat where "PLAIN_MODE = 438"

definition write_manifest_tree :: "seal_tool \<Rightarrow> bytes \<Rightarrow> bytes \<Rightarrow> built_host list \<Rightarrow> disk \<Rightarrow> (cli_error + unit) \<times> disk" where
  "write_manifest_tree T out_dir measurement built d =
     (case create_dir (sl_io T) (join_path out_dir (ascii ''blobs'')) d of
        (Inl _, d) \<Rightarrow> (Inl Io, d)
      | (Inr _, d) \<Rightarrow>
          (case write_blobs (sl_io T) out_dir built d of
             (Inl e, d) \<Rightarrow> (Inl e, d)
           | (Inr _, d) \<Rightarrow>
               (case to_json_pretty (sl_lib T) (manifest_of (sl_lib T) measurement built) of
                  Inl _ \<Rightarrow> (Inl (Msg ''serialize manifest''), d)
                | Inr json \<Rightarrow>
                    (case write_at (sl_io T) (join_path out_dir MANIFEST_FILENAME) PLAIN_MODE json d of
                       (r, d) \<Rightarrow> (map_err (\<lambda>_. Io) r, d)))))"

record build_args =
  ba_measurement_file :: "bytes option"
  ba_measurement_hex :: "bytes option"
  ba_secret_key_file :: bytes
  ba_public_key_file :: bytes
  ba_hosts :: "bytes list"
  ba_out_dir :: bytes

text \<open>Everything before the first write, then the writes.\<close>

definition build_in_memory :: "seal_tool \<Rightarrow> build_args \<Rightarrow> disk \<Rightarrow> cli_error + (bytes \<times> built_host list)" where
  "build_in_memory T a d =
     res_bind (read_measurement (sl_lib T) d (ba_measurement_file a) (ba_measurement_hex a)) (\<lambda>measurement.
     res_bind (read_validated_keypair d (ba_secret_key_file a) (ba_public_key_file a)) (\<lambda>(sk, pk).
     res_bind (build_hosts T d sk pk measurement (ba_hosts a) \<lparr>cs_built = [], cs_labels = {}, cs_roots = {}\<rparr>) (\<lambda>s.
     Inr (measurement, cs_built s))))"

definition cmd_manifest_build :: "seal_tool \<Rightarrow> build_args \<Rightarrow> disk \<Rightarrow> (cli_error + unit) \<times> disk" where
  "cmd_manifest_build T a d =
     (case build_in_memory T a d of
        Inl e \<Rightarrow> (Inl e, d)
      | Inr (measurement, built) \<Rightarrow>
          (case create_dir (sl_io T) (ba_out_dir a) d of
             (Inl _, d) \<Rightarrow> (Inl (Msg ''create --out-dir''), d)
           | (Inr _, d) \<Rightarrow>
               (case write_manifest_tree T (ba_out_dir a) measurement built d of
                  (Inl e, d) \<Rightarrow> (Inl e, remove_dir_all (sl_io T) (ba_out_dir a) d)
                | (Inr _, d) \<Rightarrow> (Inr (), d))))"

text \<open>The other subcommands.\<close>

record seal_args =
  sa_measurement_file :: "bytes option"
  sa_measurement_hex :: "bytes option"
  sa_secret_key_file :: bytes
  sa_public_key_file :: bytes
  sa_provisioning_root_file :: bytes
  sa_output :: bytes

definition cmd_seal :: "seal_tool \<Rightarrow> seal_args \<Rightarrow> disk \<Rightarrow> (cli_error + unit) \<times> disk" where
  "cmd_seal T a d =
     (case res_bind (read_measurement (sl_lib T) d (sa_measurement_file a) (sa_measurement_hex a)) (\<lambda>measurement.
           res_bind (read_root_32 d (sa_provisioning_root_file a)) (\<lambda>root.
           res_bind (read_validated_keypair d (sa_secret_key_file a) (sa_public_key_file a)) (\<lambda>(sk, pk).
           seal_blob T sk pk measurement root (sl_draw T 0)))) of
        Inl e \<Rightarrow> (Inl e, d)
      | Inr blob \<Rightarrow> write_secret_file (sl_io T) (sa_output a) blob d)"

definition verify_sealed_blob_v1_with_root :: "crypto \<Rightarrow> pq_crypto \<Rightarrow> bytes \<Rightarrow> bytes \<Rightarrow> bytes \<Rightarrow> protocol_error + unit" where
  "verify_sealed_blob_v1_with_root C Q blob measurement root =
     res_bind (unseal_mldsa65_keypair_v1_with_root C Q blob measurement root) (\<lambda>(sk, pk).
     res_bind (from_verified_key_bytes Q sk pk) (\<lambda>_. Inr ()))"

definition cmd_verify :: "seal_tool \<Rightarrow> bytes \<Rightarrow> bytes option \<Rightarrow> bytes option \<Rightarrow> bytes \<Rightarrow> disk \<Rightarrow> cli_error + unit" where
  "cmd_verify T sealed_blob_file measurement_file measurement_hex root_file d =
     res_bind (read_measurement (sl_lib T) d measurement_file measurement_hex) (\<lambda>measurement.
     res_bind (read_root_32 d root_file) (\<lambda>root.
     res_bind (ok_or Io (read_file d sealed_blob_file)) (\<lambda>blob.
     map_err Protocol (verify_sealed_blob_v1_with_root (sl_crypto T) (sl_pq T) blob measurement root))))"

definition cmd_meas_digest :: "seal_tool \<Rightarrow> bytes option \<Rightarrow> bytes option \<Rightarrow> disk \<Rightarrow> cli_error + bytes" where
  "cmd_meas_digest T measurement_file measurement_hex d =
     res_bind (read_measurement (sl_lib T) d measurement_file measurement_hex) (\<lambda>measurement.
     Inr (fl_hex_encode (sl_lib T) (measurement_digest_v1 (sl_crypto T) measurement)))"

definition cmd_generate_keypair :: "seal_tool \<Rightarrow> bytes \<Rightarrow> bytes \<Rightarrow> disk \<Rightarrow> (cli_error + unit) \<times> disk" where
  "cmd_generate_keypair T secret_key_out public_key_out d =
     (case write_secret_file (sl_io T) secret_key_out (ms_secret_key (sl_generate T)) d of
        (Inl e, d) \<Rightarrow> (Inl e, d)
      | (Inr _, d) \<Rightarrow> write_secret_file (sl_io T) public_key_out (ms_public_key (sl_generate T)) d)"

section \<open>What a ceremony builds\<close>

definition host_built :: "seal_tool \<Rightarrow> disk \<Rightarrow> bytes \<Rightarrow> bytes \<Rightarrow> bytes \<Rightarrow> bytes \<Rightarrow> built_host \<Rightarrow> bool" where
  "host_built T d sk pk measurement h b = (case b of (label, blob, commitment) \<Rightarrow> \<exists>path root i.
     split_once 0x3d h = Some (label, path) \<and> validate_label label = Inr () \<and> read_root_32 d path = Inr root
     \<and> commitment = root_commitment (sl_crypto T) root
     \<and> seal_mldsa65_keypair_v1_with_root (sl_crypto T) (sl_pq T) sk pk measurement root (sl_draw T i) = Inr blob)"

definition ceremony_inv :: "seal_tool \<Rightarrow> disk \<Rightarrow> bytes \<Rightarrow> bytes \<Rightarrow> bytes \<Rightarrow> bytes list \<Rightarrow> ceremony_state \<Rightarrow> bool" where
  "ceremony_inv T d sk pk measurement hs s \<longleftrightarrow> list_all2 (host_built T d sk pk measurement) hs (cs_built s)
     \<and> cs_labels s = (to_ascii_lowercase \<circ> fst) ` set (cs_built s) \<and> distinct (List.map (to_ascii_lowercase \<circ> fst) (cs_built s))
     \<and> cs_roots s = (snd \<circ> snd) ` set (cs_built s) \<and> distinct (List.map (snd \<circ> snd) (cs_built s))"

lemma build_host_inv:
  assumes "build_host T d sk pk measurement h s = Inr s'" "ceremony_inv T d sk pk measurement hs s"
  shows "ceremony_inv T d sk pk measurement (hs @ [h]) s'"
proof -
  from assms(1) obtain label path root blob where o: "split_once 0x3d h = Some (label, path)" "validate_label label = Inr ()"
    "to_ascii_lowercase label \<notin> cs_labels s" "read_root_32 d path = Inr root" "root_commitment (sl_crypto T) root \<notin> cs_roots s"
    "seal_blob T sk pk measurement root (sl_draw T (length (cs_built s))) = Inr blob"
    "s' = \<lparr>cs_built = cs_built s @ [(label, blob, root_commitment (sl_crypto T) root)],
       cs_labels = insert (to_ascii_lowercase label) (cs_labels s), cs_roots = insert (root_commitment (sl_crypto T) root) (cs_roots s)\<rparr>"
    by (auto simp: build_host_def res_simps Let_def split: if_splits)
  then have "host_built T d sk pk measurement h (label, blob, root_commitment (sl_crypto T) root)"
    by (auto simp: host_built_def seal_blob_def res_simps split: if_splits)
  then show ?thesis
    using assms(2) o unfolding ceremony_inv_def by (auto intro: list_all2_appendI)
qed

lemma build_hosts_inv:
  "build_hosts T d sk pk measurement hs s = Inr s' \<Longrightarrow> ceremony_inv T d sk pk measurement before s
    \<Longrightarrow> ceremony_inv T d sk pk measurement (before @ hs) s'"
proof (induction hs arbitrary: s before)
  case (Cons h hs)
  then obtain s1 where "build_host T d sk pk measurement h s = Inr s1" "build_hosts T d sk pk measurement hs s1 = Inr s'"
    by (auto simp: res_simps)
  then show ?case using Cons.IH [of s1 "before @ [h]"] build_host_inv Cons.prems(2) by fastforce
qed simp

lemma build_in_memory_Inr:
  assumes "build_in_memory T a d = Inr (measurement, built)"
  obtains sk pk s where "read_measurement (sl_lib T) d (ba_measurement_file a) (ba_measurement_hex a) = Inr measurement"
    "read_validated_keypair d (ba_secret_key_file a) (ba_public_key_file a) = Inr (sk, pk)" "built = cs_built s"
    "ceremony_inv T d sk pk measurement (ba_hosts a) s"
proof -
  from assms obtain sk pk s where m: "read_measurement (sl_lib T) d (ba_measurement_file a) (ba_measurement_hex a) = Inr measurement"
    and k: "read_validated_keypair d (ba_secret_key_file a) (ba_public_key_file a) = Inr (sk, pk)" "built = cs_built s"
    and b: "build_hosts T d sk pk measurement (ba_hosts a) \<lparr>cs_built = [], cs_labels = {}, cs_roots = {}\<rparr> = Inr s"
    by (auto simp: build_in_memory_def res_simps)
  have "ceremony_inv T d sk pk measurement [] \<lparr>cs_built = [], cs_labels = {}, cs_roots = {}\<rparr>" by (simp add: ceremony_inv_def)
  with b have "ceremony_inv T d sk pk measurement (ba_hosts a) s" using build_hosts_inv by fastforce
  with m k show ?thesis by (rule that)
qed

section \<open>What it writes\<close>

lemma write_at_Inr: "write_at io p mode data d = (Inr (), d') \<longleftrightarrow> io_write io p = Complete
    \<and> d' = d\<lparr>dk_files := (dk_files d)(p \<mapsto> (data, mode))\<rparr>"
  by (auto simp: write_at_def split: write_outcome.splits)

lemma write_secret_file_Inr: "write_secret_file io p data d = (Inr (), d') \<Longrightarrow> dk_files d p = None
    \<and> d' = d\<lparr>dk_files := (dk_files d)(p \<mapsto> (data, SECRET_MODE))\<rparr>"
  by (cases "dk_files d p") (auto simp: write_secret_file_def create_new_def write_at_Inr map_err_def split: prod.splits sum.splits if_splits)

lemma write_blobs_Inr:
  "write_blobs io out built d = (Inr (), d') \<Longrightarrow> dk_dirs d' = dk_dirs d \<and> dk_files d \<subseteq>\<^sub>m dk_files d'
    \<and> list_all (\<lambda>(label, blob, _). dk_files d' (join_path out (blob_rel label)) = Some (blob, SECRET_MODE)) built"
proof (induction io out built d rule: write_blobs.induct)
  case (2 io out label blob commitment built d)
  then obtain d1 where w: "write_secret_file io (join_path out (blob_rel label)) blob d = (Inr (), d1)"
    and r: "write_blobs io out built d1 = (Inr (), d')"
    by (auto split: prod.splits sum.splits)
  note c = write_secret_file_Inr [OF w]
  have ih: "dk_dirs d' = dk_dirs d1 \<and> dk_files d1 \<subseteq>\<^sub>m dk_files d'
    \<and> list_all (\<lambda>(label, blob, _). dk_files d' (join_path out (blob_rel label)) = Some (blob, SECRET_MODE)) built"
    using 2(1) [OF w [symmetric]] r by simp
  have "dk_files d \<subseteq>\<^sub>m dk_files d1" using c by (auto simp: map_le_def)
  moreover have "dk_files d' (join_path out (blob_rel label)) = Some (blob, SECRET_MODE)"
    using ih c by (auto simp: map_le_def dom_def)
  ultimately show ?case using ih c map_le_trans by auto
qed simp

lemma blob_not_manifest [simp]: "join_path out (blob_rel label) \<noteq> join_path out MANIFEST_FILENAME"
  by (simp add: join_path_def blob_rel_def MANIFEST_FILENAME_def ascii_def)

lemma write_manifest_tree_Inr:
  assumes "write_manifest_tree T out measurement built d = (Inr (), d')"
  shows "list_all (\<lambda>(label, blob, _). dk_files d' (join_path out (blob_rel label)) = Some (blob, SECRET_MODE)) built
    \<and> (\<exists>json. fl_to_json (sl_lib T) (manifest_of (sl_lib T) measurement built) = Some json
         \<and> dk_files d' (join_path out MANIFEST_FILENAME) = Some (json, PLAIN_MODE))"
proof -
  from assms obtain d1 d2 json where "create_dir (sl_io T) (join_path out (ascii ''blobs'')) d = (Inr (), d1)"
    and w: "write_blobs (sl_io T) out built d1 = (Inr (), d2)"
    and j: "fl_to_json (sl_lib T) (manifest_of (sl_lib T) measurement built) = Some json"
    and m: "write_at (sl_io T) (join_path out MANIFEST_FILENAME) PLAIN_MODE json d2 = (Inr (), d')"
    by (auto simp: write_manifest_tree_def to_json_pretty_def res_simps map_err_def split: prod.splits sum.splits)
  show ?thesis using write_blobs_Inr [OF w] j m by (auto simp: write_at_Inr list_all_iff)
qed

section \<open>Selection\<close>

text \<open>The documented behaviour of the hexadecimal crate and of the JSON crate.\<close>

definition hex_documented :: "fleet_lib \<Rightarrow> bool" where
  "hex_documented X \<longleftrightarrow> (\<forall>b. fl_hex_decode X (fl_hex_encode X b) = Some b \<and> to_ascii_lowercase (fl_hex_encode X b) = fl_hex_encode X b)"

definition json_documented :: "fleet_lib \<Rightarrow> bool" where
  "json_documented X \<longleftrightarrow> (\<forall>m b. fl_to_json X m = Some b \<longrightarrow> fl_from_json X b = Some m)"

lemma hex_inj: "hex_documented X \<Longrightarrow> to_ascii_lowercase (fl_hex_encode X b) = to_ascii_lowercase (fl_hex_encode X b') \<longleftrightarrow> b = b'"
  unfolding hex_documented_def by (metis option.inject)

lemma no_duplicate: "distinct (List.map (to_ascii_lowercase \<circ> en_root_commitment) es)
    \<Longrightarrow> (to_ascii_lowercase \<circ> en_root_commitment) ` set es \<inter> seen = {} \<Longrightarrow> first_duplicate seen es = None"
  by (induction es arbitrary: seen) auto

lemma filter_unique: "distinct (List.map f xs) \<Longrightarrow> x \<in> set xs \<Longrightarrow> filter (\<lambda>y. f y = f x) xs = [x]"
proof (induction xs)
  case (Cons a xs)
  then show ?case
  proof (cases "x = a")
    case True
    with Cons.prems have "filter (\<lambda>y. f y = f x) xs = []" by (auto simp: filter_empty_conv image_iff)
    then show ?thesis using True by simp
  qed (use Cons in auto)
qed simp

lemma manifest_served:
  assumes X: "hex_documented X" and J: "json_documented X" and json: "fl_to_json X (manifest_of X measurement built) = Some json"
    and d: "distinct (List.map (snd \<circ> snd) built)"
  shows "manifest_from_json X json = Inr (manifest_of X measurement built)"
    and "(label, blob, root_commitment C root) \<in> set built \<Longrightarrow> select_entry C X (manifest_of X measurement built) root
      = Inr \<lparr>en_label = label, en_root_commitment = fl_hex_encode X (root_commitment C root), en_blob = blob_rel label\<rparr>"
proof -
  let ?es = "mn_entries (manifest_of X measurement built)"
  let ?f = "\<lambda>b. to_ascii_lowercase (fl_hex_encode X b)"
  have "inj ?f" using X by (auto simp: inj_def hex_inj)
  moreover have es: "List.map (to_ascii_lowercase \<circ> en_root_commitment) ?es = List.map ?f (List.map (snd \<circ> snd) built)"
    by (auto simp: manifest_of_def)
  ultimately have "distinct (List.map (to_ascii_lowercase \<circ> en_root_commitment) ?es)"
    using d unfolding es by (subst distinct_map) (auto simp: inj_on_def inj_def)
  note dist = this
  then have "first_duplicate {} ?es = None" by (intro no_duplicate) auto
  moreover have "fl_from_json X json = Some (manifest_of X measurement built)" using J json by (auto simp: json_documented_def)
  ultimately show "manifest_from_json X json = Inr (manifest_of X measurement built)"
    by (simp add: manifest_from_json_def) (simp add: manifest_of_def)
  assume "(label, blob, root_commitment C root) \<in> set built"
  then have "\<lparr>en_label = label, en_root_commitment = fl_hex_encode X (root_commitment C root), en_blob = blob_rel label\<rparr> \<in> set ?es"
    by (force simp: manifest_of_def)
  from filter_unique [OF dist this] show "select_entry C X (manifest_of X measurement built) root
      = Inr \<lparr>en_label = label, en_root_commitment = fl_hex_encode X (root_commitment C root), en_blob = blob_rel label\<rparr>"
    by (simp add: select_entry_def eq_ignore_ascii_case_def)
qed

text \<open>C12: every host of a ceremony can use its output. When \<open>manifest build\<close> succeeds, then for each host it was given,
  as label and file of the host's root, the manifest it wrote parses; the host that holds the root selects exactly the
  entry of its own label; the blob the entry names is in the output; and installing that blob with the root and the
  measurement of the ceremony gives the enclave the producer's key pair that was sealed. The hypotheses are those of the
  primitives: hashes of 32 bytes, a correct AEAD, nonces of 12 bytes, and the two crates that write the manifest.\<close>

theorem every_host_installs_its_blob:
  assumes C: "sha3_len (sl_crypto T)" and Q: "aead12_correct (sl_pq T)" and n: "\<forall>i nonce. sl_draw T i = Some nonce \<longrightarrow> length nonce = 12"
    and X: "hex_documented (sl_lib T)" and J: "json_documented (sl_lib T)"
    and ok: "cmd_manifest_build T a d = (Inr (), d')"
    and h: "h \<in> set (ba_hosts a)" "split_once 0x3d h = Some (label, path)" "read_file d path = Some root"
    and s: "ps_root s = Some root" "ps_signer s = None"
  shows "\<exists>json m e blob measurement sk pk. read_file d' (join_path (ba_out_dir a) MANIFEST_FILENAME) = Some json
    \<and> manifest_from_json (sl_lib T) json = Inr m \<and> select_entry (sl_crypto T) (sl_lib T) m root = Inr e \<and> en_label e = label
    \<and> dk_files d' (join_path (ba_out_dir a) (en_blob e)) = Some (blob, SECRET_MODE)
    \<and> read_measurement (sl_lib T) d (ba_measurement_file a) (ba_measurement_hex a) = Inr measurement
    \<and> read_file d (ba_secret_key_file a) = Some sk \<and> read_file d (ba_public_key_file a) = Some pk
    \<and> install_sealed_pq_signer (sl_crypto T) (sl_pq T) blob measurement s
        = Inr (s\<lparr>ps_signer := Some \<lparr>ms_public_key = pk, ms_secret_key = sk\<rparr>\<rparr>)"
proof -
  from ok obtain measurement built d1 where b: "build_in_memory T a d = Inr (measurement, built)"
    and w: "write_manifest_tree T (ba_out_dir a) measurement built d1 = (Inr (), d')"
    by (auto simp: cmd_manifest_build_def split: sum.splits prod.splits)
  from b obtain sk pk cs where m: "read_measurement (sl_lib T) d (ba_measurement_file a) (ba_measurement_hex a) = Inr measurement"
    and k: "read_validated_keypair d (ba_secret_key_file a) (ba_public_key_file a) = Inr (sk, pk)"
    and cs: "built = cs_built cs" "ceremony_inv T d sk pk measurement (ba_hosts a) cs"
    by (rule build_in_memory_Inr)
  then have hosts: "list_all2 (host_built T d sk pk measurement) (ba_hosts a) built" and dist: "distinct (List.map (snd \<circ> snd) built)"
    by (simp_all add: ceremony_inv_def)
  then obtain x where x: "x \<in> set built" "host_built T d sk pk measurement h x"
    using h(1) by (metis in_set_conv_nth list_all2_conv_all_nth)
  then obtain blob i where hb: "x = (label, blob, root_commitment (sl_crypto T) root)"
    and seal: "seal_mldsa65_keypair_v1_with_root (sl_crypto T) (sl_pq T) sk pk measurement root (sl_draw T i) = Inr blob"
    using h(2,3) by (auto simp: host_built_def read_root_32_def res_simps split: if_splits prod.splits)
  then obtain nonce where nonce: "sl_draw T i = Some nonce"
    by (auto simp: seal_mldsa65_keypair_v1_with_root_def res_simps Let_def split: if_splits)
  note tree = write_manifest_tree_Inr [OF w]
  then obtain json where json: "fl_to_json (sl_lib T) (manifest_of (sl_lib T) measurement built) = Some json"
    "dk_files d' (join_path (ba_out_dir a) MANIFEST_FILENAME) = Some (json, PLAIN_MODE)" by blast
  have bf: "dk_files d' (join_path (ba_out_dir a) (blob_rel label)) = Some (blob, SECRET_MODE)"
    using tree x(1) hb by (auto simp: list_all_iff)
  have keys: "read_file d (ba_secret_key_file a) = Some sk" "read_file d (ba_public_key_file a) = Some pk"
    using k by (auto simp: read_validated_keypair_def res_simps split: if_splits)
  have inst: "install_sealed_pq_signer (sl_crypto T) (sl_pq T) blob measurement s
      = Inr (s\<lparr>ps_signer := Some \<lparr>ms_public_key = pk, ms_secret_key = sk\<rparr>\<rparr>)"
    by (rule install_seal_v1 [OF C Q _ _ s, of nonce]) (use n nonce seal in auto)
  note served = manifest_served [OF X J json(1) dist]
  have "select_entry (sl_crypto T) (sl_lib T) (manifest_of (sl_lib T) measurement built) root
      = Inr \<lparr>en_label = label, en_root_commitment = fl_hex_encode (sl_lib T) (root_commitment (sl_crypto T) root), en_blob = blob_rel label\<rparr>"
    by (rule served(2)) (use x(1) hb in simp)
  moreover have "read_file d' (join_path (ba_out_dir a) MANIFEST_FILENAME) = Some json" using json(2) by (simp add: read_file_def)
  ultimately show ?thesis using served(1) bf m keys inst by fastforce
qed

section \<open>Failure\<close>

lemma below_join [simp]: "below out (join_path out p)"
  by (simp add: below_def join_path_def)

text \<open>What a path can hold after a write phase that may stop anywhere: what it held, or in a place that was free the first bytes of a
  blob of this ceremony or of its manifest.\<close>

definition blob_piece :: "bytes \<Rightarrow> built_host list \<Rightarrow> bytes \<Rightarrow> file_node option \<Rightarrow> bool" where
  "blob_piece out built q f \<longleftrightarrow>
     (\<exists>label blob c n. (label, blob, c) \<in> set built \<and> q = join_path out (blob_rel label) \<and> f = Some (take n blob, SECRET_MODE))"

definition manifest_piece :: "seal_tool \<Rightarrow> bytes \<Rightarrow> bytes \<Rightarrow> built_host list \<Rightarrow> bytes \<Rightarrow> file_node option \<Rightarrow> bool" where
  "manifest_piece T out measurement built q f \<longleftrightarrow>
     (\<exists>json n. fl_to_json (sl_lib T) (manifest_of (sl_lib T) measurement built) = Some json
        \<and> q = join_path out MANIFEST_FILENAME \<and> f = Some (take n json, PLAIN_MODE))"

lemma blob_piece_below: "blob_piece out built q f \<Longrightarrow> below out q \<and> q \<noteq> join_path out MANIFEST_FILENAME"
  by (auto simp: blob_piece_def)

lemma blob_piece_Cons: "blob_piece out built q f \<Longrightarrow> blob_piece out (x # built) q f"
  unfolding blob_piece_def by auto

lemma write_at_files: "write_at io p mode data d = (r, d') \<Longrightarrow> dk_dirs d' = dk_dirs d
    \<and> (dk_files d' = dk_files d \<or> (\<exists>n. dk_files d' = (dk_files d)(p \<mapsto> (take n data, mode))))"
  by (auto simp: write_at_def intro: exI [of _ "length data"] split: write_outcome.splits)

lemma write_secret_files: "write_secret_file io p data d = (r, d') \<Longrightarrow> dk_dirs d' = dk_dirs d
    \<and> (dk_files d' = dk_files d \<or> dk_files d p = None \<and> (\<exists>n. dk_files d' = (dk_files d)(p \<mapsto> (take n data, SECRET_MODE))))"
  by (auto simp: write_secret_file_def create_new_def dest: write_at_files split: if_splits prod.splits)

lemma write_blobs_files:
  "write_blobs io out built d = (r, d') \<Longrightarrow> dk_dirs d' = dk_dirs d
     \<and> (dk_files d' q = dk_files d q \<or> dk_files d q = None \<and> blob_piece out built q (dk_files d' q))"
proof (induction io out built d rule: write_blobs.induct)
  case (2 io out label blob commitment built d)
  let ?p = "join_path out (blob_rel label)"
  obtain r0 d1 where w: "write_secret_file io ?p blob d = (r0, d1)" by (metis surj_pair)
  have d1: "dk_dirs d1 = dk_dirs d" "dk_files d1 q = dk_files d q
      \<or> dk_files d q = None \<and> q = ?p \<and> (\<exists>n. dk_files d1 q = Some (take n blob, SECRET_MODE))"
    using write_secret_files [OF w] by (cases "q = ?p"; auto)+
  then have own: "dk_files d1 q = dk_files d q
      \<or> dk_files d q = None \<and> blob_piece out ((label, blob, commitment) # built) q (dk_files d1 q)"
    unfolding blob_piece_def by auto
  show ?case
  proof (cases r0)
    case (Inr u)
    then have "write_blobs io out built d1 = (r, d')" using 2(2) w by simp
    then have "dk_dirs d' = dk_dirs d1 \<and> (dk_files d' q = dk_files d1 q \<or> dk_files d1 q = None \<and> blob_piece out built q (dk_files d' q))"
      using 2(1) [OF w [symmetric]] Inr by simp
    then show ?thesis using d1(1) own blob_piece_Cons by metis
  qed (use 2(2) w d1(1) own in auto)
qed simp

lemma create_dir_Inr: "create_dir io p d = (Inr (), d') \<longleftrightarrow> p \<notin> dk_dirs d \<and> dk_files d p = None \<and> io_mkdir io p
    \<and> d' = d\<lparr>dk_dirs := insert p (dk_dirs d)\<rparr>"
  by (cases "dk_files d p") (auto simp: create_dir_def)

lemma create_dir_files: "create_dir io p d = (r, d') \<Longrightarrow> dk_files d' = dk_files d \<and> (dk_dirs d' = dk_dirs d \<or> dk_dirs d' = insert p (dk_dirs d))"
  by (auto simp: create_dir_def split: if_splits)

lemma write_manifest_tree_files:
  assumes w: "write_manifest_tree T out measurement built d = (r, d')" and free: "\<forall>q. below out q \<longrightarrow> dk_files d q = None"
  shows "(dk_dirs d' = dk_dirs d \<or> dk_dirs d' = insert (join_path out (ascii ''blobs'')) (dk_dirs d))
    \<and> (dk_files d' q = dk_files d q \<or> dk_files d q = None
         \<and> (blob_piece out built q (dk_files d' q) \<or> manifest_piece T out measurement built q (dk_files d' q)))"
proof -
  obtain r0 d1 where c: "create_dir (sl_io T) (join_path out (ascii ''blobs'')) d = (r0, d1)" by (metis surj_pair)
  note d1 = create_dir_files [OF c]
  obtain r1 d2 where b: "write_blobs (sl_io T) out built d1 = (r1, d2)" by (metis surj_pair)
  note d2 = write_blobs_files [OF b, of q]
  consider "d' = d1" | "d' = d2"
    | (json) json x where "fl_to_json (sl_lib T) (manifest_of (sl_lib T) measurement built) = Some json"
        "write_at (sl_io T) (join_path out MANIFEST_FILENAME) PLAIN_MODE json d2 = (x, d')"
    using w c b by (auto simp: write_manifest_tree_def to_json_pretty_def res_simps split: sum.splits prod.splits)
  then show ?thesis
  proof cases
    case json
    note m = write_at_files [OF json(2)]
    have "dk_files d' q = dk_files d2 q \<or> below out q \<and> manifest_piece T out measurement built q (dk_files d' q)"
      using m json(1) unfolding manifest_piece_def by (cases "q = join_path out MANIFEST_FILENAME") auto
    then show ?thesis using m d1 d2 free by metis
  qed (use d1 d2 in auto)
qed

text \<open>C25: a failed ceremony leaves nothing behind but what its own removal could not reach. A missing file, a bad or repeated label, a
  root used twice, a seal that fails, an output directory that exists or cannot be made: nothing has been written, the disk is as
  it was. Once the directory is made, a write that stops half way has the tree removed, and the disk is again as it was when the
  removal gets to every entry. The code ignores a removal that does not; then still no file that was there is changed, no directory is
  lost, the only new directories are the output directory and its \<open>blobs\<close>, and every file that is left is one the
  removal failed on, in the place of a sealed blob of this ceremony and with mode 0600 and its first bytes, or in that of the manifest:
  no key and no root is ever in them unsealed. The hypothesis on the disk is that a directory which is not there has nothing in it.\<close>

theorem failed_build_leaves_nothing:
  assumes f: "cmd_manifest_build T a d = (Inl e, d')"
    and free: "ba_out_dir a \<notin> dk_dirs d \<Longrightarrow> (\<forall>q. below (ba_out_dir a) q \<longrightarrow> dk_files d q = None \<and> q \<notin> dk_dirs d)"
  shows "((\<exists>e. build_in_memory T a d = Inl e) \<or> ba_out_dir a \<in> dk_dirs d \<or> dk_files d (ba_out_dir a) \<noteq> None
        \<or> \<not> io_mkdir (sl_io T) (ba_out_dir a) \<longrightarrow> d' = d)
    \<and> ((\<forall>q. q = ba_out_dir a \<or> below (ba_out_dir a) q \<longrightarrow> io_rmtree (sl_io T) (ba_out_dir a) q) \<longrightarrow> d' = d)
    \<and> dk_dirs d \<subseteq> dk_dirs d'
    \<and> (\<forall>q \<in> dk_dirs d' - dk_dirs d. q \<in> {ba_out_dir a, join_path (ba_out_dir a) (ascii ''blobs'')}
         \<and> \<not> io_rmtree (sl_io T) (ba_out_dir a) q)
    \<and> (\<forall>q. dk_files d' q \<noteq> dk_files d q \<longrightarrow> dk_files d q = None \<and> \<not> io_rmtree (sl_io T) (ba_out_dir a) q
         \<and> (\<exists>measurement built. build_in_memory T a d = Inr (measurement, built)
              \<and> ((\<exists>label blob commitment n. (label, blob, commitment) \<in> set built
                    \<and> q = join_path (ba_out_dir a) (blob_rel label) \<and> dk_files d' q = Some (take n blob, SECRET_MODE))
                 \<or> (\<exists>json n. fl_to_json (sl_lib T) (manifest_of (sl_lib T) measurement built) = Some json
                    \<and> q = join_path (ba_out_dir a) MANIFEST_FILENAME \<and> dk_files d' q = Some (take n json, PLAIN_MODE)))))"
proof -
  let ?out = "ba_out_dir a"
  let ?io = "sl_io T"
  consider (same) "d' = d"
    | (tree) measurement built r d1 d2 where "build_in_memory T a d = Inr (measurement, built)" "create_dir ?io ?out d = (Inr (), d1)"
        "write_manifest_tree T ?out measurement built d1 = (r, d2)" "d' = remove_dir_all ?io ?out d2"
    using f by (cases "create_dir ?io ?out d") (auto simp: cmd_manifest_build_def create_dir_def split: sum.splits prod.splits if_splits)
  then show ?thesis
  proof cases
    case tree
    have d1: "?out \<notin> dk_dirs d" "dk_files d ?out = None" "io_mkdir ?io ?out" "dk_files d1 = dk_files d" "dk_dirs d1 = insert ?out (dk_dirs d)"
      using tree(2) unfolding create_dir_Inr by simp_all
    note free = free [OF d1(1)]
    have "\<forall>q. below ?out q \<longrightarrow> dk_files d1 q = None" using free d1(4) by simp
    note d2 = write_manifest_tree_files [OF tree(3) this]
    have d': "dk_files d' q = (if (q = ?out \<or> below ?out q) \<and> io_rmtree ?io ?out q then None else dk_files d2 q)" for q
      using tree(4) by (simp add: remove_dir_all_def)
    have files: "dk_files d' q = dk_files d q \<or> dk_files d q = None \<and> \<not> io_rmtree ?io ?out q
        \<and> (blob_piece ?out built q (dk_files d' q) \<or> manifest_piece T ?out measurement built q (dk_files d' q))" for q
    proof (cases "(q = ?out \<or> below ?out q) \<and> io_rmtree ?io ?out q")
      case True
      then show ?thesis using d' free d1(2) by auto
    next
      case False
      moreover have "below ?out q" if "blob_piece ?out built q f \<or> manifest_piece T ?out measurement built q f" for f
        using that blob_piece_below by (auto simp: manifest_piece_def)
      ultimately show ?thesis using d2 [of q] d' [of q] d1(4) by metis
    qed
    have dirs: "dk_dirs d \<subseteq> dk_dirs d'"
      "\<forall>q \<in> dk_dirs d' - dk_dirs d. q \<in> {?out, join_path ?out (ascii ''blobs'')} \<and> \<not> io_rmtree ?io ?out q"
      using d2 [THEN conjunct1] d1(1,5) free tree(4) by (auto simp: remove_dir_all_def)
    have gone: "d' = d" if all: "\<forall>q. q = ?out \<or> below ?out q \<longrightarrow> io_rmtree ?io ?out q"
    proof -
      have "dk_files d' q = dk_files d q" for q
      proof (rule ccontr)
        assume "dk_files d' q \<noteq> dk_files d q"
        then have "\<not> io_rmtree ?io ?out q \<and> below ?out q" using files [of q] blob_piece_below by (auto simp: manifest_piece_def)
        then show False using all by blast
      qed
      moreover have "dk_dirs d' \<subseteq> dk_dirs d"
      proof (rule subsetI, rule ccontr)
        fix q assume "q \<in> dk_dirs d'" "q \<notin> dk_dirs d"
        then have "q = ?out \<or> q = join_path ?out (ascii ''blobs'')" "\<not> io_rmtree ?io ?out q" using dirs(2) by simp_all
        moreover have "q = ?out \<or> below ?out q" using calculation(1) by auto
        ultimately show False using all by blast
      qed
      ultimately have "dk_files d' = dk_files d" "dk_dirs d' = dk_dirs d" using dirs(1) by blast+
      then show ?thesis by simp
    qed
    have "((\<exists>e. build_in_memory T a d = Inl e) \<or> ?out \<in> dk_dirs d \<or> dk_files d ?out \<noteq> None \<or> \<not> io_mkdir ?io ?out) \<longrightarrow> d' = d"
      using tree(1) d1(1-3) by simp
    note early = this
    have "\<forall>q. dk_files d' q \<noteq> dk_files d q \<longrightarrow> dk_files d q = None \<and> \<not> io_rmtree ?io ?out q
        \<and> (\<exists>measurement built. build_in_memory T a d = Inr (measurement, built)
             \<and> (blob_piece ?out built q (dk_files d' q) \<or> manifest_piece T ?out measurement built q (dk_files d' q)))"
      using files tree(1) by blast
    from conjI [OF early conjI [OF impI [OF gone] conjI [OF dirs(1) conjI [OF dirs(2) this]]]] show ?thesis
      unfolding blob_piece_def manifest_piece_def .
  qed simp
qed

text \<open>An instance: two hosts, a hexadecimal crate that writes two lower-case digits a byte, and a failing disk.\<close>

definition sample_root1 :: bytes where "sample_root1 = replicate 31 0 @ [1]"
definition sample_root2 :: bytes where "sample_root2 = replicate 31 0 @ [2]"

definition sample_build_args :: build_args where
  "sample_build_args = \<lparr>ba_measurement_file = Some [1], ba_measurement_hex = None, ba_secret_key_file = [2], ba_public_key_file = [3],
     ba_hosts = [[0x61, 0x3d, 4], [0x62, 0x3d, 5]], ba_out_dir = [9]\<rparr>"

definition sample_ceremony_disk :: disk where
  "sample_ceremony_disk = \<lparr>dk_files = [[1] \<mapsto> (replicate 48 7, 0), [2] \<mapsto> (sample_sk, 0), [3] \<mapsto> (sample_pk, 0), [4] \<mapsto> (sample_root1, 0),
     [5] \<mapsto> (sample_root2, 0)], dk_dirs = {}\<rparr>"

definition sample_hex :: "bytes \<Rightarrow> bytes" where "sample_hex b = hex_lower b"

fun sample_unhex :: "bytes \<Rightarrow> bytes option" where
  "sample_unhex [] = Some []"
| "sample_unhex [a] = None"
| "sample_unhex (a # b # rest) = (case (hex_digit a, hex_digit b) of
     (Some x, Some y) \<Rightarrow> map_option (\<lambda>xs. of_nat (x * 16 + y) # xs) (sample_unhex rest) | _ \<Rightarrow> None)"

text \<open>The one manifest of the instance, and its text.\<close>

definition sample_manifest_of :: "bytes \<Rightarrow> bytes \<Rightarrow> manifest" where
  "sample_manifest_of blob1 blob2 = manifest_of \<lparr>fl_hex_encode = sample_hex, fl_hex_decode = sample_unhex, fl_to_json = (\<lambda>_. None),
     fl_from_json = (\<lambda>_. None)\<rparr> (replicate 48 7)
     [([0x61], blob1, root_commitment sample_crypto sample_root1), ([0x62], blob2, root_commitment sample_crypto sample_root2)]"

definition sample_fleet_lib :: fleet_lib where
  "sample_fleet_lib = \<lparr>fl_hex_encode = sample_hex, fl_hex_decode = sample_unhex,
     fl_to_json = (\<lambda>m. if m = sample_manifest_of [] [] then Some [1] else None),
     fl_from_json = (\<lambda>b. if b = [1] then Some (sample_manifest_of [] []) else None)\<rparr>"

definition sample_tool :: "disk_io \<Rightarrow> seal_tool" where
  "sample_tool io = \<lparr>sl_crypto = sample_crypto, sl_pq = sample_pq, sl_lib = sample_fleet_lib, sl_io = io,
     sl_draw = (\<lambda>_. Some (replicate 12 3)), sl_generate = sample_signer\<rparr>"

lemma nibble_digit: "n < 16 \<Longrightarrow> hex_digit (nibble n) = Some n \<and> ascii_lower (nibble n) = nibble n"
proof -
  assume "n < 16"
  moreover have "list_all (\<lambda>n. hex_digit (nibble n) = Some n \<and> ascii_lower (nibble n) = nibble n) [0..<16]" by code_simp
  ultimately show ?thesis by (auto simp: list_all_iff)
qed

lemma sample_hex_ok: "sample_unhex (sample_hex b) = Some b \<and> to_ascii_lowercase (sample_hex b) = sample_hex b"
proof (induction b)
  case (Cons x b)
  have "unat x div 16 < 16" "unat x mod 16 < 16" using unat_less_word [of x] by (simp_all add: less_mult_imp_div_less)
  moreover have "of_nat (unat x div 16 * 16 + unat x mod 16) = x" by simp
  ultimately show ?case using Cons nibble_digit
    by (simp add: sample_hex_def hex_lower_def to_ascii_lowercase_def)
qed (simp add: sample_hex_def hex_lower_def to_ascii_lowercase_def)

lemma sample_fleet_documented: "hex_documented sample_fleet_lib" "json_documented sample_fleet_lib"
  using sample_hex_ok by (auto simp: hex_documented_def json_documented_def sample_fleet_lib_def)

lemma sample_seals:
  "\<exists>blob. seal_mldsa65_keypair_v1_with_root sample_crypto sample_pq sample_sk sample_pk (replicate 48 7) root (Some (replicate 12 3)) = Inr blob
    \<and> length blob = pq_seal_v1_expected_blob_len"
proof -
  obtain blob where "seal_mldsa65_keypair_v1_with_root sample_crypto sample_pq sample_sk sample_pk (replicate 48 7) root
      (Some (replicate 12 3)) = Inr blob"
    using sample_pq_correct(2) sample_pair_verified
    by (simp add: seal_mldsa65_keypair_v1_with_root_def sha3_len_def derive_aead_key_v1_def sample_lens sample_encrypt cong: if_cong)
  moreover from this have "length blob = pq_seal_v1_expected_blob_len"
    by (intro unseal_seal_v1(2) [OF sample_pq_correct(2,1) _, of "replicate 12 3"]) simp_all
  ultimately show ?thesis by blast
qed

lemma be_bytes_high: "be_bytes n (k * 256 ^ n + v) = be_bytes n v"
proof (cases n)
  case (Suc m)
  have "k * 256 ^ n = (k * 256) * 256 ^ m" by (simp add: Suc)
  then have "(k * 256 ^ n + v) div 256 ^ m = k * 256 + v div 256 ^ m" "(k * 256 ^ n + v) mod 256 ^ m = v mod 256 ^ m"
    by (metis add.commute div_mult_self1 power_not_zero zero_neq_numeral, metis mod_mult_self3)
  moreover have "of_nat (k * 256) = (0 :: u8)" by (simp add: unat_eq_0 [symmetric] unat_of_nat take_bit_eq_mod del: of_nat_mult)
  ultimately show ?thesis by (simp add: Suc of_nat_add)
qed simp

lemma sample_commitments: "root_commitment sample_crypto sample_root1 = sample_root1" "root_commitment sample_crypto sample_root2 = sample_root2"
proof -
  have "root_commitment sample_crypto r = r" if "length r = 32" for r
    using that be_bytes_high [of 32 "be_val COMMITMENT_DOMAIN" "be_val r"] be_bytes_be_val [of r]
    by (simp add: root_commitment_def sample_crypto_def be_val_append)
  then show "root_commitment sample_crypto sample_root1 = sample_root1" "root_commitment sample_crypto sample_root2 = sample_root2"
    by (simp_all add: sample_root1_def sample_root2_def)
qed

lemma sample_build:
  "\<exists>built. build_in_memory (sample_tool io) sample_build_args sample_ceremony_disk = Inr (replicate 48 7, built)
    \<and> (\<exists>blob1 blob2. built = [([0x61], blob1, sample_root1), ([0x62], blob2, sample_root2)])"
proof -
  obtain blob1 where b1: "seal_mldsa65_keypair_v1_with_root sample_crypto sample_pq sample_sk sample_pk (replicate 48 7) sample_root1
      (Some (replicate 12 3)) = Inr blob1" "length blob1 = pq_seal_v1_expected_blob_len" using sample_seals by blast
  obtain blob2 where b2: "seal_mldsa65_keypair_v1_with_root sample_crypto sample_pq sample_sk sample_pk (replicate 48 7) sample_root2
      (Some (replicate 12 3)) = Inr blob2" "length blob2 = pq_seal_v1_expected_blob_len" using sample_seals by blast
  have keys: "read_validated_keypair sample_ceremony_disk [2] [3] = Inr (sample_sk, sample_pk)"
    using sample_lens by (simp add: read_validated_keypair_def read_file_def sample_ceremony_disk_def)
  have roots: "read_root_32 sample_ceremony_disk [4] = Inr sample_root1" "read_root_32 sample_ceremony_disk [5] = Inr sample_root2"
    by (simp_all add: read_root_32_def read_file_def sample_ceremony_disk_def sample_root1_def sample_root2_def)
  have labels: "validate_label [0x61] = Inr ()" "validate_label [0x62] = Inr ()"
    by (simp_all add: validate_label_def ascii_def is_ascii_alphanumeric_def)
  have "sample_root1 \<noteq> sample_root2" by (simp add: sample_root1_def sample_root2_def)
  then have "build_hosts (sample_tool io) sample_ceremony_disk sample_sk sample_pk (replicate 48 7) [[0x61, 0x3d, 4], [0x62, 0x3d, 5]]
      \<lparr>cs_built = [], cs_labels = {}, cs_roots = {}\<rparr> = Inr \<lparr>cs_built = [([0x61], blob1, sample_root1), ([0x62], blob2, sample_root2)],
        cs_labels = {[0x62], [0x61]}, cs_roots = {sample_root2, sample_root1}\<rparr>"
    using b1 b2
    by (simp add: build_host_def roots labels seal_blob_def to_ascii_lowercase_def ascii_lower_def Let_def sample_tool_def sample_commitments)
  then show ?thesis
    by (simp add: build_in_memory_def sample_build_args_def keys read_measurement_def)
      (simp add: read_file_def sample_ceremony_disk_def keys [unfolded sample_ceremony_disk_def])
qed

text \<open>A disk that stops while it writes the second blob.\<close>

definition failing_disk_io :: disk_io where
  "failing_disk_io = \<lparr>io_mkdir = (\<lambda>_. True), io_write = (\<lambda>p. if p = join_path [9] (blob_rel [0x62]) then Cut 5 else Complete),
     io_remove = (\<lambda>_. True), io_rmtree = (\<lambda>_ _. True)\<rparr>"

text \<open>The same, and the removal does not get to the first blob.\<close>

definition stuck_disk_io :: disk_io where
  "stuck_disk_io = failing_disk_io\<lparr>io_rmtree := (\<lambda>_ q. q \<noteq> join_path [9] (blob_rel [0x61]))\<rparr>"

lemma sample_sel [simp]:
  "io_mkdir sample_disk_io p" "io_write sample_disk_io p = Complete" "io_mkdir failing_disk_io p"
  "io_write failing_disk_io p = (if p = join_path [9] (blob_rel [0x62]) then Cut 5 else Complete)"
  "ba_out_dir sample_build_args = [9]" "dk_dirs sample_ceremony_disk = {}" "dk_files sample_ceremony_disk [9] = None"
  "dk_files sample_ceremony_disk (x # y # p) = None" "sl_io (sample_tool io) = io"
  by (simp_all add: sample_disk_io_def failing_disk_io_def sample_build_args_def sample_ceremony_disk_def sample_tool_def)

lemma stuck_sel: "\<forall>p. io_mkdir stuck_disk_io p" "io_write stuck_disk_io = io_write failing_disk_io"
  by (simp_all add: stuck_disk_io_def)

lemma sample_tree_written:
  "fst (cmd_manifest_build (sample_tool sample_disk_io) sample_build_args sample_ceremony_disk) = Inr ()"
proof -
  obtain blob1 blob2 where b: "build_in_memory (sample_tool sample_disk_io) sample_build_args sample_ceremony_disk
      = Inr (replicate 48 7, [([0x61], blob1, sample_root1), ([0x62], blob2, sample_root2)])" using sample_build by blast
  have j: "to_json_pretty (sl_lib (sample_tool sample_disk_io)) (manifest_of (sl_lib (sample_tool sample_disk_io)) (replicate 48 7)
      [([0x61], blob1, sample_root1), ([0x62], blob2, sample_root2)]) = Inr [1]"
    by (simp add: to_json_pretty_def sample_tool_def sample_fleet_lib_def sample_manifest_of_def manifest_of_def sample_commitments)
  show ?thesis
    by (simp add: cmd_manifest_build_def b write_manifest_tree_def j create_dir_def write_secret_file_def create_new_def write_at_def
        join_path_def blob_rel_def ascii_def)
qed

theorem every_host_installs_its_blob_witness:
  "\<exists>d' json m e blob. cmd_manifest_build (sample_tool sample_disk_io) sample_build_args sample_ceremony_disk = (Inr (), d')
    \<and> manifest_from_json sample_fleet_lib json = Inr m \<and> select_entry sample_crypto sample_fleet_lib m sample_root2 = Inr e
    \<and> en_label e = [0x62] \<and> install_sealed_pq_signer sample_crypto sample_pq blob (replicate 48 7)
      \<lparr>ps_root = Some sample_root2, ps_signer = None\<rparr> = Inr \<lparr>ps_root = Some sample_root2, ps_signer = Some sample_signer\<rparr>"
proof -
  let ?T = "sample_tool sample_disk_io"
  obtain d' where ok: "cmd_manifest_build ?T sample_build_args sample_ceremony_disk = (Inr (), d')"
    using sample_tree_written by (metis prod.collapse)
  have T: "sl_crypto ?T = sample_crypto" "sl_pq ?T = sample_pq" "sl_lib ?T = sample_fleet_lib" by (simp_all add: sample_tool_def)
  have h: "[0x62, 0x3d, 5] \<in> set (ba_hosts sample_build_args)" "split_once 0x3d [0x62, 0x3d, 5] = Some ([0x62], [5])"
    "read_file sample_ceremony_disk [5] = Some sample_root2" "read_file sample_ceremony_disk [2] = Some sample_sk"
    "read_file sample_ceremony_disk [3] = Some sample_pk"
    by (simp_all add: sample_build_args_def read_file_def sample_ceremony_disk_def)
  have m: "read_measurement sample_fleet_lib sample_ceremony_disk (ba_measurement_file sample_build_args) (ba_measurement_hex sample_build_args)
      = Inr (replicate 48 7)"
    by (simp add: read_measurement_def sample_build_args_def read_file_def sample_ceremony_disk_def)
  have n: "\<forall>i nonce. sl_draw ?T i = Some nonce \<longrightarrow> length nonce = 12" by (simp add: sample_tool_def)
  have s: "ps_root \<lparr>ps_root = Some sample_root2, ps_signer = None\<rparr> = Some sample_root2"
    "ps_signer \<lparr>ps_root = Some sample_root2, ps_signer = None\<rparr> = None" by simp_all
  show ?thesis
    using every_host_installs_its_blob [of ?T, unfolded T, OF sample_pq_correct(2,1) n sample_fleet_documented ok h(1-3) s] m h(4,5)
    by (auto simp: ok sample_signer_def) (auto simp: sample_build_args_def)
qed

theorem failed_build_leaves_nothing_witness:
  "(\<exists>e. cmd_manifest_build (sample_tool failing_disk_io) sample_build_args sample_ceremony_disk = (Inl e, sample_ceremony_disk))
   \<and> (\<exists>e d'. cmd_manifest_build (sample_tool stuck_disk_io) sample_build_args sample_ceremony_disk = (Inl e, d')
        \<and> dk_files d' [1] = Some (replicate 48 7, 0) \<and> dk_files d' (join_path [9] (blob_rel [0x62])) = None)"
proof
  have fails: "fst (cmd_manifest_build (sample_tool io) sample_build_args sample_ceremony_disk) = Inl Io"
    if "\<forall>p. io_mkdir io p" "io_write io = io_write failing_disk_io" for io
  proof -
    obtain blob1 blob2 where b: "build_in_memory (sample_tool io) sample_build_args sample_ceremony_disk
        = Inr (replicate 48 7, [([0x61], blob1, sample_root1), ([0x62], blob2, sample_root2)])" using sample_build by blast
    then show ?thesis using that
      by (simp add: cmd_manifest_build_def write_manifest_tree_def create_dir_def write_secret_file_def create_new_def write_at_def
          join_path_def blob_rel_def ascii_def)
  qed
  have free: "\<forall>q. below (ba_out_dir sample_build_args) q \<longrightarrow> dk_files sample_ceremony_disk q = None \<and> q \<notin> dk_dirs sample_ceremony_disk"
    by (auto simp: below_def join_path_def sample_ceremony_disk_def)
  obtain d' where f: "cmd_manifest_build (sample_tool failing_disk_io) sample_build_args sample_ceremony_disk = (Inl Io, d')"
    using fails [of failing_disk_io] by (metis prod.collapse sample_sel(3))
  show "\<exists>e. cmd_manifest_build (sample_tool failing_disk_io) sample_build_args sample_ceremony_disk = (Inl e, sample_ceremony_disk)"
    using failed_build_leaves_nothing [OF f] f free by (auto simp: failing_disk_io_def sample_tool_def)
  obtain d' where g: "cmd_manifest_build (sample_tool stuck_disk_io) sample_build_args sample_ceremony_disk = (Inl Io, d')"
    using fails [of stuck_disk_io, OF stuck_sel] by (metis prod.collapse)
  note kept = failed_build_leaves_nothing [OF g free, THEN conjunct2, THEN conjunct2, THEN conjunct2, THEN conjunct2, rule_format,
      THEN conjunct2, THEN conjunct1]
  have kept: "dk_files d' q = dk_files sample_ceremony_disk q" if "q \<noteq> join_path [9] (blob_rel [0x61])" for q
  proof (rule ccontr)
    assume "dk_files d' q \<noteq> dk_files sample_ceremony_disk q"
    from kept [OF this] that show False by (simp add: stuck_disk_io_def)
  qed
  have "[1] \<noteq> join_path [9] (blob_rel [0x61])" "join_path [9] (blob_rel [0x62]) \<noteq> join_path [9] (blob_rel [0x61])"
    by (simp_all add: join_path_def blob_rel_def ascii_def)
  from kept [OF this(1)] kept [OF this(2)]
  have "dk_files d' [1] = dk_files sample_ceremony_disk [1]"
    "dk_files d' (join_path [9] (blob_rel [0x62])) = dk_files sample_ceremony_disk (join_path [9] (blob_rel [0x62]))" .
  then show "\<exists>e d'. cmd_manifest_build (sample_tool stuck_disk_io) sample_build_args sample_ceremony_disk = (Inl e, d')
        \<and> dk_files d' [1] = Some (replicate 48 7, 0) \<and> dk_files d' (join_path [9] (blob_rel [0x62])) = None"
    using g by (simp add: sample_ceremony_disk_def join_path_def blob_rel_def ascii_def)
qed

end
