(* ===== verification/Contract_Server.thy ===== *)
theory Contract_Server
  imports Gateway_Boot
begin

text \<open>
  The deviceless server of the contract tests: the fixed keystore of \<open>reference_keystore.rs\<close>, the anchor that
  \<open>contract_server.rs\<close> stands in for, with its ledger of request ids, and the loop that serves agent frames over a local
  socket. It has no attestation and no durable anchor, and it uses the enclave's own handler.

  Ed25519 signing is a parameter. The socket layer delivers connections as \<open>Gateway_Boot\<close> describes them; binding the
  socket and the permissions of its directory are the outcome of one parameter.
\<close>

section \<open>The reference keystore (reference_keystore.rs)\<close>

record ed_signer =
  es_public :: "bytes \<Rightarrow> bytes"
  es_sign :: "bytes \<Rightarrow> bytes \<Rightarrow> bytes"

definition REFERENCE_TRANSFER_SCALAR :: bytes where
  "REFERENCE_TRANSFER_SCALAR = [0xac, 0x09, 0x74, 0xbe, 0xc3, 0x9a, 0x17, 0xe3, 0x6b, 0xa4, 0xa6, 0xb4, 0xd2, 0x38, 0xff, 0x94,
     0x4b, 0xac, 0xb4, 0x78, 0xcb, 0xed, 0x5e, 0xfc, 0xae, 0x78, 0x4d, 0x7b, 0xf4, 0xf2, 0xff, 0x80]"
definition REFERENCE_TREASURY_SCALAR :: bytes where
  "REFERENCE_TREASURY_SCALAR = [0x59, 0xc6, 0x99, 0x5e, 0x99, 0x8f, 0x97, 0xa5, 0xa0, 0x04, 0x49, 0x66, 0xf0, 0x94, 0x53, 0x89,
     0xdc, 0x9e, 0x86, 0xda, 0xe8, 0x8c, 0x7a, 0x84, 0x12, 0xf4, 0x60, 0x3b, 0x6b, 0x78, 0x69, 0x0d]"
definition REFERENCE_TRANSFER_KEY_REF :: bytes where "REFERENCE_TRANSFER_KEY_REF = replicate 32 0x33"
definition REFERENCE_TREASURY_KEY_REF :: bytes where "REFERENCE_TREASURY_KEY_REF = replicate 32 0x44"
definition REFERENCE_ANCHOR_SEED :: bytes where "REFERENCE_ANCHOR_SEED = replicate 32 0x42"
definition REFERENCE_ADMIN_SEED :: bytes where "REFERENCE_ADMIN_SEED = replicate 32 7"
definition REFERENCE_RECOVERY_SEED :: bytes where "REFERENCE_RECOVERY_SEED = replicate 32 9"
definition REFERENCE_ENVIRONMENT :: bytes where "REFERENCE_ENVIRONMENT = ascii ''env-prod-0''"
definition REFERENCE_CHAIN_ID :: u64 where "REFERENCE_CHAIN_ID = 11565"

definition u256_be :: "u64 \<Rightarrow> bytes" where
  "u256_be x = replicate 24 0 @ be64 x"

definition reference_key_entry :: "crypto \<Rightarrow> bytes \<Rightarrow> key_purpose \<Rightarrow> keypair \<Rightarrow> bytes \<Rightarrow> key_entry" where
  "reference_key_entry C key_ref purpose kp scalar =
     \<lparr>ke_key_ref = key_ref, ke_purpose = purpose, ke_algorithm = Secp256k1, ke_public_identity = public_key_uncompressed C kp,
      ke_secret_scalar = scalar, ke_creation_metadata = \<lparr>cm_config_version = 0, cm_counter_snapshot = 0, cm_batch_id = 0\<rparr>,
      ke_last_exported_seq = 0\<rparr>"

text \<open>\<open>None\<close> is the panic on a scalar that is no secret key.\<close>

definition reference_keystore_body :: "crypto \<Rightarrow> ed_signer \<Rightarrow> keystore_body option" where
  "reference_keystore_body C S =
     (case (from_secret_bytes C REFERENCE_TRANSFER_SCALAR, from_secret_bytes C REFERENCE_TREASURY_SCALAR) of
        (Inr transfer, Inr treasury) \<Rightarrow> Some
          \<lparr>kb_config = \<lparr>kc_twod_chain_id = REFERENCE_CHAIN_ID, kc_environment_identifier = REFERENCE_ENVIRONMENT,
             kc_admin_authority_pk = es_public S REFERENCE_ADMIN_SEED, kc_recovery_authority_pk = es_public S REFERENCE_RECOVERY_SEED,
             kc_backup_recovery_wrapping_pubkey = replicate 1568 0x33, kc_monotonic_treasury_config_version = 0,
             kc_authority_epoch = 0, kc_anchor_root = es_public S REFERENCE_ANCHOR_SEED,
             kc_enclave_scope_id = replicate 32 0xe1, kc_fleet_scope_id = replicate 32 0xf1\<rparr>,
           kb_entries = [reference_key_entry C REFERENCE_TRANSFER_KEY_REF AgentTransferK1 transfer REFERENCE_TRANSFER_SCALAR,
             reference_key_entry C REFERENCE_TREASURY_KEY_REF AgentFaucetTreasuryK1 treasury REFERENCE_TREASURY_SCALAR],
           kb_counters = [],
           kb_faucet = \<lparr>fs_per_dispense_max_amount = u256_be 1000000, fs_max_gas_limit = 21000,
             fs_max_effective_gas_fee_rate = 1000000000, fs_cumulative_native_spend = zero32, fs_lifetime_spend = zero32,
             fs_circuit_breaker_threshold = None, fs_cumulative_signing_budget = u256_be 10000000\<rparr>,
           kb_audit = \<lparr>au_records = [], au_capacity = 256, au_last_exported_seq = 0, au_next_seq = 1\<rparr>,
           kb_freshness_epoch = 1, kb_structural_version = 1, kb_strict_recovery_counter = 0\<rparr>
      | _ \<Rightarrow> None)"

definition install_reference_agent_keystore :: "keystore_body \<Rightarrow> 'c gateway \<Rightarrow> bool \<times> 'c gateway" where
  "install_reference_agent_keystore body g = install_agent_keystore body AGENT_KEYSTORE_BOOT_PLACEHOLDER_MEASUREMENT g"

section \<open>The mock anchor (contract_server.rs)\<close>

text \<open>\<open>test_signed_commit_ack_bytes\<close> of \<open>agent_anchor.rs\<close>.\<close>

definition test_signed_commit_ack_bytes :: "ed_signer \<Rightarrow> writer \<Rightarrow> bytes \<Rightarrow> u64 \<Rightarrow> bytes \<Rightarrow> u64 \<Rightarrow> u64 \<Rightarrow> bytes \<Rightarrow> bytes \<Rightarrow> bytes
    \<Rightarrow> bytes" where
  "test_signed_commit_ack_bytes S enc seed chain_id env epoch structural_version marks_digest nonce request_id =
     (let f = \<lparr>ca_version = COMMIT_ACK_VERSION, ca_chain_id = chain_id, ca_environment_identifier = env, ca_epoch = epoch,
               ca_structural_version = structural_version, ca_marks_digest = marks_digest, ca_nonce = nonce,
               ca_request_id = request_id, ca_signature = replicate 64 0\<rparr>;
          f = f\<lparr>ca_signature := es_sign S seed (commit_ack_signed_preimage f)\<rparr> in
      enc (CMap [(CInteger 1, CInteger (uint (ca_version f))), (CInteger 2, CInteger (uint (ca_chain_id f))),
        (CInteger 3, CText (ca_environment_identifier f)), (CInteger 4, CInteger (uint (ca_epoch f))),
        (CInteger 5, CInteger (uint (ca_structural_version f))), (CInteger 6, CBytes (ca_marks_digest f)),
        (CInteger 7, CBytes (ca_nonce f)), (CInteger 8, CBytes (ca_request_id f)), (CInteger 13, CBytes (ca_signature f))]))"

type_synonym proposed_state = "u64 \<times> u64 \<times> bytes"

record reference_commit_channel =
  rc_chain_id :: u64
  rc_environment_identifier :: bytes
  rc_signing_key :: bytes
  rc_ledger :: "bytes \<rightharpoonup> proposed_state"

definition reference_channel_new :: "keystore_body \<Rightarrow> reference_commit_channel" where
  "reference_channel_new body = \<lparr>rc_chain_id = kc_twod_chain_id (kb_config body),
     rc_environment_identifier = kc_environment_identifier (kb_config body), rc_signing_key = REFERENCE_ANCHOR_SEED,
     rc_ledger = Map.empty\<rparr>"

definition reference_ack :: "ed_signer \<Rightarrow> writer \<Rightarrow> cbor_reader \<Rightarrow> bytes \<Rightarrow> reference_commit_channel
    \<Rightarrow> (protocol_error + bytes) \<times> reference_commit_channel" where
  "reference_ack S enc cb frame ch =
     (case decode_anchor_commit_request cb frame of
        Inl e \<Rightarrow> (Inl e, ch)
      | Inr r \<Rightarrow>
          if cr_chain_id r \<noteq> rc_chain_id ch \<or> cr_environment_identifier r \<noteq> rc_environment_identifier ch
          then (Inl (WireProtocol ''reference commit channel: commit scope != reference keystore''), ch)
          else
            (let proposed = (cr_new_epoch r, cr_new_structural_version r, cr_marks_digest r);
                 signed = test_signed_commit_ack_bytes S enc (rc_signing_key ch) (cr_chain_id r) (cr_environment_identifier r)
                   (cr_new_epoch r) (cr_new_structural_version r) (cr_marks_digest r) (cr_nonce r) (cr_request_id r) in
             case rc_ledger ch (cr_request_id r) of
               Some recorded \<Rightarrow>
                 if recorded \<noteq> proposed
                 then (Inl (WireProtocol ''reference commit channel: request_id already recorded with a different state''), ch)
                 else (Inr signed, ch)
             | None \<Rightarrow> (Inr signed, ch\<lparr>rc_ledger := (rc_ledger ch)(cr_request_id r \<mapsto> proposed)\<rparr>)))"

definition reference_round_trip :: "ed_signer \<Rightarrow> writer \<Rightarrow> cbor_reader \<Rightarrow> reference_commit_channel round_trip" where
  "reference_round_trip S enc cb ch frame =
     (case reference_ack S enc cb frame ch of
        (r, ch) \<Rightarrow> (map_err (\<lambda>_. ''reference commit channel: ack computation failed'') r, ch))"

definition reference_marks_round_trip :: "reference_commit_channel round_trip" where
  "reference_marks_round_trip ch frame =
     (Inl ''reference commit channel: marks_round_trip not used on the per-op commit channel'', ch)"

section \<open>The server\<close>

text \<open>The build with a mutating preview; without one nothing below is installed.\<close>

definition mutating_previews :: "features \<Rightarrow> bool" where
  "mutating_previews ft \<longleftrightarrow> ft_keygen_exec ft \<or> ft_configure_treasury ft \<or> ft_sign_faucet ft"

definition install_mutating_op_support :: "features \<Rightarrow> keystore_body \<Rightarrow> reference_commit_channel gateway \<Rightarrow> reference_commit_channel gateway" where
  "install_mutating_op_support ft body g =
     (if \<not> mutating_previews ft then g
      else let g = g\<lparr>gw_process := snd (install_anti_rollback_binding \<lparr>ab_epoch = 1, ab_active = True\<rparr> (gw_process g))\<rparr> in
      snd (install_commit_channel (reference_channel_new body) g))"

definition prepare_contract_server :: "features \<Rightarrow> keystore_body \<Rightarrow> bytes \<Rightarrow> reference_commit_channel gateway
    \<Rightarrow> (protocol_error + unit) \<times> reference_commit_channel gateway" where
  "prepare_contract_server ft body reference_root g =
     (let g = (if mutating_previews ft then snd (set_provisioning_root reference_root g) else g) in
      case install_reference_agent_keystore body g of
        (installed, g) \<Rightarrow>
          if \<not> installed
          then (Inl (WireProtocol ''contract server: reference keystore failed to install (validate/cap)''), g)
          else (Inr (), install_mutating_op_support ft body g))"

record contract_platform =
  cp_crypto :: crypto
  cp_serde :: serde
  cp_features :: features
  cp_writer :: writer
  cp_reader :: cbor_reader
  cp_signer :: ed_signer
  cp_wire :: ciborium

definition serve_one_agent_frame :: "contract_platform \<Rightarrow> bytes \<Rightarrow> reference_commit_channel gateway
    \<Rightarrow> (protocol_error + bytes) \<times> reference_commit_channel gateway" where
  "serve_one_agent_frame P frame g =
     (case decode_message frame of
        Inl e \<Rightarrow> (Inl e, g)
      | Inr decoded \<Rightarrow>
          if fm_msg_type decoded \<noteq> AgentGateway
          then (Inl (WireProtocol ''contract server: non-0x40 frame on the agent listener''), g)
          else (case handle_agent_gateway_frame (cp_crypto P) (cp_serde P) (cp_features P) (cp_writer P)
                   (reference_round_trip (cp_signer P) (cp_writer P) (cp_reader P)) (fm_payload decoded) g of
              (body, g) \<Rightarrow> (encode_message AgentGateway body, g)))"

text \<open>The accept loop over the connections so far: what each was sent.\<close>

fun serve_contract_connections :: "contract_platform \<Rightarrow> (io_kind + agent_conn) list \<Rightarrow> reference_commit_channel gateway
    \<Rightarrow> bytes list list \<times> reference_commit_channel gateway" where
  "serve_contract_connections P [] g = ([], g)"
| "serve_contract_connections P (accepted # incoming) g =
     (let (sent, g) = (case accepted of
          Inl _ \<Rightarrow> ([], g)
        | Inr conn \<Rightarrow>
            (if an_prepare conn \<noteq> None then ([], g)
             else (case serve_framed_pump (serve_one_agent_frame P) (cp_wire P) SESSION_IDLE_TIMEOUT conn g of
               (_, conn, g) \<Rightarrow> (an_written conn, g))));
          (rest, g) = serve_contract_connections P incoming g in
      (sent # rest, g))"

text \<open>Equality of a \<open>Path\<close> with the root compares components: the path begins with a slash, and between its slashes there is nothing or a
  dot.\<close>

fun path_components :: "bytes \<Rightarrow> bytes list" where
  "path_components [] = [[]]"
| "path_components (c # cs) =
     (if c = 0x2f then [] # path_components cs
      else (case path_components cs of [] \<Rightarrow> [[c]] | p # ps \<Rightarrow> (c # p) # ps))"

definition is_root_path :: "bytes \<Rightarrow> bool" where
  "is_root_path p \<longleftrightarrow> (case p of [] \<Rightarrow> False | c # _ \<Rightarrow> c = 0x2f) \<and> list_all (\<lambda>q. q = [] \<or> q = ascii ''.'') (path_components p)"

lemma is_root_path_samples:
  "is_root_path (ascii ''/'')" "is_root_path (ascii ''//'')" "is_root_path (ascii ''/./'')"
  "\<not> is_root_path (ascii ''/..'')" "\<not> is_root_path (ascii ''.'')" "\<not> is_root_path (ascii ''/tmp'')"
  by (simp_all add: is_root_path_def ascii_def)

definition run_contract_server :: "contract_platform \<Rightarrow> bytes \<Rightarrow> bool \<Rightarrow> io_kind option \<Rightarrow> bytes \<Rightarrow> keystore_body
    \<Rightarrow> (io_kind + agent_conn) list \<Rightarrow> reference_commit_channel gateway
    \<Rightarrow> (protocol_error + bytes list list) \<times> reference_commit_channel gateway" where
  "run_contract_server P private_dir is_symlink bind_fault reference_root body incoming g =
     (if private_dir = [] \<or> is_root_path private_dir \<or> is_symlink
      then (Inl (WireProtocol ''contract server: private_dir must be a dedicated real directory, not empty / the root \"/\" / a symlink''), g)
      else (case prepare_contract_server (cp_features P) body reference_root g of
          (Inl e, g) \<Rightarrow> (Inl e, g)
        | (Inr _, g) \<Rightarrow>
            (case bind_fault of
               Some k \<Rightarrow> (Inl (Io k), g)
             | None \<Rightarrow> (case serve_contract_connections P incoming g of (sent, g) \<Rightarrow> (Inr sent, g)))))"


section \<open>The mock anchor is an anchor\<close>

text \<open>The documented behaviour of Ed25519 signing and of the CBOR writer on canonical maps.\<close>

definition ed_signer_documented :: "crypto \<Rightarrow> ed_signer \<Rightarrow> bool" where
  "ed_signer_documented C S \<longleftrightarrow> (\<forall>seed m. ed_key_ok C (es_public S seed) \<and> ed_verify_strict C (es_public S seed) m (es_sign S seed m)
     \<and> length (es_sign S seed m) = 64 \<and> length (es_public S seed) = 32)"

definition writes_canonical :: "writer \<Rightarrow> bool" where
  "writes_canonical enc \<longleftrightarrow> (\<forall>m. canon_value (CMap m) 1048576 1 \<longrightarrow> enc (CMap m) = enc_value (CMap m))"

lemma ack_fields_written:
  assumes "writes_canonical enc" "length (es_sign S seed (commit_ack_signed_preimage f0)) = 64" "utf8_valid env" "length env \<le> 4096"
    "length digest = 32" "length nonce = 32" "length request_id \<le> 64"
    and f0: "f0 = \<lparr>ca_version = 1, ca_chain_id = chain_id, ca_environment_identifier = env, ca_epoch = epoch,
      ca_structural_version = sv, ca_marks_digest = digest, ca_nonce = nonce, ca_request_id = request_id,
      ca_signature = replicate 64 0\<rparr>"
  shows "test_signed_commit_ack_bytes S enc seed chain_id env epoch sv digest nonce request_id
    = enc_commit_ack (f0\<lparr>ca_signature := es_sign S seed (commit_ack_signed_preimage f0)\<rparr>)"
proof -
  let ?m = "[(CInteger 1, CInteger 1), (CInteger 2, CInteger (uint chain_id)),
        (CInteger 3, CText env), (CInteger 4, CInteger (uint epoch)),
        (CInteger 5, CInteger (uint sv)), (CInteger 6, CBytes digest),
        (CInteger 7, CBytes nonce), (CInteger 8, CBytes request_id),
        (CInteger 13, CBytes (es_sign S seed (commit_ack_signed_preimage f0)))]"
  have "canon_value (CMap ?m) 1048576 1"
    using assms canon_uint [of 2] by (simp add: MAX_CBOR_DEPTH_def put_uint_def)
  then have "enc (CMap ?m) = enc_value (CMap ?m)" using assms(1) unfolding writes_canonical_def by blast
  then show ?thesis
    by (simp add: test_signed_commit_ack_bytes_def COMMIT_ACK_VERSION_def f0 enc_commit_ack_def del: enc_value.simps)
      (simp add: put_uint_def)
qed

definition proposed_of :: "anchor_commit \<Rightarrow> proposed_state" where
  "proposed_of c = (ac_new_epoch c, ac_new_structural_version c, ac_marks_digest c)"

definition commit_typed :: "anchor_commit \<Rightarrow> bool" where
  "commit_typed c \<longleftrightarrow> length (ac_marks_digest c) = 32 \<and> length (ac_nonce c) = 32 \<and> length (ac_request_id c) \<le> 64"

text \<open>The commits of an enclave, one after another over one channel: which of them it gets acknowledged.\<close>

fun run_commits :: "crypto \<Rightarrow> 'c round_trip \<Rightarrow> keystore_config \<Rightarrow> anchor_commit list \<Rightarrow> 'c \<Rightarrow> bool list \<times> 'c" where
  "run_commits C rt config [] ch = ([], ch)"
| "run_commits C rt config (c # cs) ch =
     (case run_anchor_commit C rt ch c config of (r, ch) \<Rightarrow>
       (case run_commits C rt config cs ch of (rs, ch) \<Rightarrow> ((r = Inr ()) # rs, ch)))"

lemma reference_ack_verifies:
  assumes "ed_signer_documented C S" "writes_canonical enc" "commit_typed c"
    and "is_valid_environment_identifier (kc_environment_identifier config)" "kc_anchor_root config = es_public S seed"
  shows "verify_commit_ack_bytes C (test_signed_commit_ack_bytes S enc seed (kc_twod_chain_id config) (kc_environment_identifier config)
      (ac_new_epoch c) (ac_new_structural_version c) (ac_marks_digest c) (ac_nonce c) (ac_request_id c)) (expected_of c) config = Inr ()"
proof -
  let ?env = "kc_environment_identifier config"
  define f0 where f0: "f0 = \<lparr>ca_version = 1, ca_chain_id = kc_twod_chain_id config, ca_environment_identifier = ?env,
      ca_epoch = ac_new_epoch c, ca_structural_version = ac_new_structural_version c, ca_marks_digest = ac_marks_digest c,
      ca_nonce = ac_nonce c, ca_request_id = ac_request_id c, ca_signature = replicate 64 (0 :: u8)\<rparr>"
  let ?f = "f0\<lparr>ca_signature := es_sign S seed (commit_ack_signed_preimage f0)\<rparr>"
  have env: "utf8_valid ?env" "length ?env \<le> 64"
    using assms(4) valid_env_utf8 valid_env_length by auto
  have sig: "length (es_sign S seed (commit_ack_signed_preimage f0)) = 64"
    using assms(1) by (simp add: ed_signer_documented_def)
  have "test_signed_commit_ack_bytes S enc seed (kc_twod_chain_id config) ?env (ac_new_epoch c) (ac_new_structural_version c)
      (ac_marks_digest c) (ac_nonce c) (ac_request_id c) = enc_commit_ack ?f"
    by (rule ack_fields_written [OF assms(2) sig]) (use assms(3) env in \<open>simp_all add: f0 commit_typed_def\<close>)
  moreover have "commit_ack_signed_preimage ?f = commit_ack_signed_preimage f0" by (simp add: commit_ack_signed_preimage_def)
  ultimately show ?thesis
    unfolding verify_commit_ack_bytes_Inr
    using assms(1,3,5) env sig
    by (intro exI [of _ ?f]) (auto simp: commit_ack_ok_def commit_typed_def ed_signer_documented_def expected_of_def f0)
qed

lemma commit_frame:
  assumes "is_valid_environment_identifier (kc_environment_identifier config)" "commit_typed c" "reads_canonical cb"
  obtains frame where "encode_anchor_commit_request (request_of c config) = Inr frame"
    "decode_anchor_commit_request cb frame = Inr (request_of c config)"
proof -
  have "length (anchor_commit_request_payload (request_of c config)) \<le> 400"
    using length_anchor_commit_request_payload [of "request_of c config"] assms(2) valid_env_length [OF assms(1)]
    by (simp add: request_of_def commit_typed_def)
  then obtain frame where "encode_anchor_commit_request (request_of c config) = Inr frame"
    using assms(2) by (simp add: encode_anchor_commit_request_def request_of_def MAX_REQUEST_ID_LEN_def encode_message_Inr
        MAX_MESSAGE_SIZE_def commit_typed_def)
  moreover have "commit_request_ok (request_of c config)" using assms(1,2) by (simp add: commit_request_ok_def request_of_def commit_typed_def)
  ultimately show ?thesis using that commit_request_roundtrip [OF assms(3)] by blast
qed

text \<open>What a commit over the reference channel gives: the ledger decides.\<close>

lemma reference_commit:
  assumes "ed_signer_documented C S" "writes_canonical enc" "reads_canonical cb" "commit_typed c"
    and "is_valid_environment_identifier (kc_environment_identifier config)" "kc_anchor_root config = es_public S (rc_signing_key ch)"
    and "rc_chain_id ch = kc_twod_chain_id config" "rc_environment_identifier ch = kc_environment_identifier config"
    and "run_anchor_commit C (reference_round_trip S enc cb) ch c config = (r, ch')"
  shows "(r = Inr ()) = (case rc_ledger ch (ac_request_id c) of None \<Rightarrow> True | Some p \<Rightarrow> p = proposed_of c)"
    and "ch' = ch\<lparr>rc_ledger := (case rc_ledger ch (ac_request_id c) of None \<Rightarrow> (rc_ledger ch)(ac_request_id c \<mapsto> proposed_of c)
      | Some _ \<Rightarrow> rc_ledger ch)\<rparr>"
proof -
  obtain frame where f: "encode_anchor_commit_request (request_of c config) = Inr frame"
    "decode_anchor_commit_request cb frame = Inr (request_of c config)"
    by (rule commit_frame [OF assms(5,4,3)])
  note v = reference_ack_verifies [OF assms(1,2,4,5,6)]
  show "(r = Inr ()) = (case rc_ledger ch (ac_request_id c) of None \<Rightarrow> True | Some p \<Rightarrow> p = proposed_of c)"
    using assms(7-9) f v
    by (auto simp: run_anchor_commit_def reference_round_trip_def reference_ack_def proposed_of_def Let_def map_err_def
        request_of_def split: option.splits if_splits)
  show "ch' = ch\<lparr>rc_ledger := (case rc_ledger ch (ac_request_id c) of None \<Rightarrow> (rc_ledger ch)(ac_request_id c \<mapsto> proposed_of c)
      | Some _ \<Rightarrow> rc_ledger ch)\<rparr>"
    using assms(7-9) f v
    by (auto simp: run_anchor_commit_def reference_round_trip_def reference_ack_def proposed_of_def Let_def map_err_def
        request_of_def split: option.splits if_splits)
qed

text \<open>The specification: a commit is acknowledged when it proposes what the first one with its request id proposed.\<close>

definition repeats_first :: "anchor_commit list \<Rightarrow> anchor_commit \<Rightarrow> bool" where
  "repeats_first cs c \<longleftrightarrow> map_option proposed_of (find (\<lambda>d. ac_request_id d = ac_request_id c) cs) = Some (proposed_of c)"

lemma run_commits_ledger:
  assumes "ed_signer_documented C S" "writes_canonical enc" "reads_canonical cb" "list_all commit_typed cs"
    and "is_valid_environment_identifier (kc_environment_identifier config)" "kc_anchor_root config = es_public S (rc_signing_key ch)"
    and "rc_chain_id ch = kc_twod_chain_id config" "rc_environment_identifier ch = kc_environment_identifier config"
  shows "fst (run_commits C (reference_round_trip S enc cb) config cs ch)
    = map (\<lambda>c. case rc_ledger ch (ac_request_id c) of Some p \<Rightarrow> p = proposed_of c | None \<Rightarrow> repeats_first cs c) cs"
  using assms(4,6-8)
proof (induction cs arbitrary: ch)
  case (Cons c cs)
  obtain r ch1 where r: "run_anchor_commit C (reference_round_trip S enc cb) ch c config = (r, ch1)" by (metis surj_pair)
  have t: "commit_typed c" "list_all commit_typed cs" using Cons.prems(1) by simp_all
  note step = reference_commit [OF assms(1-3) t(1) assms(5) Cons.prems(2-4) r]
  have ch1: "rc_signing_key ch1 = rc_signing_key ch" "rc_chain_id ch1 = rc_chain_id ch"
    "rc_environment_identifier ch1 = rc_environment_identifier ch" using step(2) by simp_all
  have ih: "fst (run_commits C (reference_round_trip S enc cb) config cs ch1)
      = map (\<lambda>c. case rc_ledger ch1 (ac_request_id c) of Some p \<Rightarrow> p = proposed_of c | None \<Rightarrow> repeats_first cs c) cs"
    by (rule Cons.IH [OF t(2)]) (use Cons.prems(2-4) ch1 in simp_all)
  have "(r = Inr ()) = (case rc_ledger ch (ac_request_id c) of Some p \<Rightarrow> p = proposed_of c | None \<Rightarrow> repeats_first (c # cs) c)"
    using step(1) by (auto simp: repeats_first_def split: option.splits)
  moreover have "(case rc_ledger ch1 (ac_request_id d) of Some p \<Rightarrow> p = proposed_of d | None \<Rightarrow> repeats_first cs d)
      = (case rc_ledger ch (ac_request_id d) of Some p \<Rightarrow> p = proposed_of d | None \<Rightarrow> repeats_first (c # cs) d)" for d
    using step(2) by (auto simp: repeats_first_def split: option.splits)
  ultimately show ?case using r ih by (simp add: case_prod_unfold)
qed simp

section \<open>The prepared server\<close>

lemma reference_body_ok:
  assumes "reference_keystore_body C S = Some body" "ed_signer_documented C S"
    and "k1_public_uncompressed C"
  shows "body_ok body \<and> body_typed body \<and> kc_anchor_root (kb_config body) = es_public S REFERENCE_ANCHOR_SEED
    \<and> is_valid_environment_identifier (kc_environment_identifier (kb_config body))"
proof -
  have env: "is_valid_environment_identifier REFERENCE_ENVIRONMENT"
    by code_simp
  show ?thesis
    using assms env
    by (auto simp: reference_keystore_body_def body_ok_def config_ok_def reference_key_entry_def entry_ok_def counters_ok_def audit_ok_def
        body_typed_def faucet_typed_def ed_signer_documented_def zero32_def from_secret_bytes_def public_key_uncompressed_def
        REFERENCE_TRANSFER_SCALAR_def REFERENCE_TREASURY_SCALAR_def REFERENCE_TRANSFER_KEY_REF_def REFERENCE_TREASURY_KEY_REF_def
        u256_be_def is_u256_def opt_u256_def k1_public_uncompressed_def split: sum.splits if_splits)
qed

text \<open>C24: the deviceless server is ready for every operation an enclave would commit. Prepared in a fresh process, it holds the
  reference keystore, which is valid, an active anti-rollback binding and the mock anchor in the keystore's own scope; and over
  any sequence of commits of that keystore, with whatever nonces, a commit is acknowledged, by an acknowledgement the enclave's
  own verifier accepts, exactly when it proposes the state that the first commit with its request id proposed: a new request
  and a repeated one are, a request id reused for another state never is.\<close>

theorem contract_server_acknowledges_once:
  assumes body: "reference_keystore_body C S = Some body" and S: "ed_signer_documented C S"
    and K: "k1_public_uncompressed C"
    and W: "writes_canonical enc" and R: "reads_canonical cb" and ft: "mutating_previews ft"
    and fresh: "gw_keystore g = None" "gw_channel g = None" "pr_binding (gw_process g) = None"
  shows "\<exists>ch g'. prepare_contract_server ft body root g = (Inr (), g')
    \<and> gw_keystore g' = Some (body, AGENT_KEYSTORE_BOOT_PLACEHOLDER_MEASUREMENT) \<and> body_ok body
    \<and> gw_root g' \<noteq> None \<and> pr_binding (gw_process g') = Some \<lparr>ab_epoch = 1, ab_active = True\<rparr> \<and> gw_channel g' = Some ch
    \<and> (\<forall>cs. list_all commit_typed cs \<longrightarrow>
        fst (run_commits C (reference_round_trip S enc cb) (kb_config body) cs ch) = map (repeats_first cs) cs)"
proof -
  let ?ch = "reference_channel_new body"
  note b = reference_body_ok [OF body S K]
  have "fst (run_commits C (reference_round_trip S enc cb) (kb_config body) cs ?ch) = map (repeats_first cs) cs"
    if "list_all commit_typed cs" for cs
    using run_commits_ledger [OF S W R that, of "kb_config body" ?ch] b by (simp add: reference_channel_new_def)
  then show ?thesis
    using b fresh ft
    by (intro exI [of _ ?ch])
      (auto simp: prepare_contract_server_def install_reference_agent_keystore_def install_agent_keystore_def
        install_mutating_op_support_def install_anti_rollback_binding_def install_commit_channel_def set_provisioning_root_def
        AGENT_KEYSTORE_BOOT_PLACEHOLDER_MEASUREMENT_def ascii_def Let_def)
qed

text \<open>An instance: three commits, the second of which reuses the request id of the first for another state.\<close>

definition sample_ed_signer :: ed_signer where
  "sample_ed_signer = \<lparr>es_public = (\<lambda>_. replicate 32 2), es_sign = (\<lambda>_ _. replicate 64 1)\<rparr>"

definition sample_commit_to :: "u64 \<Rightarrow> u8 \<Rightarrow> anchor_commit" where
  "sample_commit_to epoch nonce = \<lparr>ac_new_epoch = epoch, ac_new_structural_version = 1, ac_marks_digest = replicate 32 6,
     ac_nonce = replicate 32 nonce, ac_request_id = [1]\<rparr>"

definition empty_gateway :: "reference_commit_channel gateway" where
  "empty_gateway = \<lparr>gw_keystore = None, gw_root = None, gw_channel = None, gw_process = \<lparr>pr_challenge = None, pr_binding = None\<rparr>,
     gw_draws = []\<rparr>"

theorem contract_server_acknowledges_once_witness:
  "\<exists>body ch g'. prepare_contract_server sample_features body zero32 empty_gateway = (Inr (), g') \<and> gw_channel g' = Some ch
    \<and> fst (run_commits sample_crypto (reference_round_trip sample_ed_signer enc_value strict_reader) (kb_config body)
        [sample_commit_to 2 3, sample_commit_to 5 4, sample_commit_to 2 7] ch) = [True, False, True]"
proof -
  obtain body where body: "reference_keystore_body sample_crypto sample_ed_signer = Some body"
  proof -
    have "hd REFERENCE_TRANSFER_SCALAR \<noteq> 0" "hd REFERENCE_TREASURY_SCALAR \<noteq> 0"
      by (simp_all add: REFERENCE_TRANSFER_SCALAR_def REFERENCE_TREASURY_SCALAR_def)
    then have "REFERENCE_TRANSFER_SCALAR \<noteq> replicate 32 0" "REFERENCE_TREASURY_SCALAR \<noteq> replicate 32 0"
      using hd_replicate [of 32 "0 :: u8"] by fastforce+
    then have "\<exists>body. reference_keystore_body sample_crypto sample_ed_signer = Some body"
      by (simp add: reference_keystore_body_def from_secret_bytes_def sample_crypto_def)
    then show ?thesis using that by blast
  qed
  have S: "ed_signer_documented sample_crypto sample_ed_signer" by (simp add: ed_signer_documented_def sample_crypto_def sample_ed_signer_def)
  have K: "k1_public_uncompressed sample_crypto" by (simp add: k1_public_uncompressed_def sample_crypto_def)
  have W: "writes_canonical enc_value" by (simp add: writes_canonical_def)
  have ft: "mutating_previews sample_features" by (simp add: mutating_previews_def sample_features_def)
  have fresh: "gw_keystore empty_gateway = None" "gw_channel empty_gateway = None" "pr_binding (gw_process empty_gateway) = None"
    by (simp_all add: empty_gateway_def)
  let ?cs = "[sample_commit_to 2 3, sample_commit_to 5 4, sample_commit_to 2 7]"
  have "list_all commit_typed ?cs" by (simp add: commit_typed_def sample_commit_to_def)
  moreover have "map (repeats_first ?cs) ?cs = [True, False, True]"
    by (simp add: repeats_first_def proposed_of_def sample_commit_to_def)
  ultimately show ?thesis
    using contract_server_acknowledges_once [OF body S K W strict_reader_canonical ft fresh, of zero32] by fastforce
qed

end
