(* ===== verification/Body_Types.thy ===== *)
theory Body_Types
  imports Frame
begin

text \<open>
  The Rust types of the sealed body, as an invariant of the gateway: the fixed-length arrays of the keystore (keys, scope
  ids, authorities, key references, 256-bit amounts) are lists here, and no operation of \<open>agent_keystore.rs\<close>, no handler of
  \<open>agent_dispatch.rs\<close> and no run of the gateway gives one of them another length.
\<close>

section \<open>The operations of the keystore\<close>

definition counters_typed :: "counter_entry list \<Rightarrow> bool" where
  "counters_typed cs \<longleftrightarrow> (\<forall>c \<in> set cs. length (ce_authority c) = 32)"

lemma body_typed_parts: "body_typed b \<longleftrightarrow> faucet_typed (kb_faucet b) \<and> counters_typed (kb_counters b)
    \<and> (\<forall>e \<in> set (kb_entries b). length (ke_key_ref e) = 32)
    \<and> (\<forall>r \<in> set (au_records (kb_audit b)). length (ar_authority r) = 32)
    \<and> length (kc_admin_authority_pk (kb_config b)) = 32 \<and> length (kc_recovery_authority_pk (kb_config b)) = 32
    \<and> length (kc_anchor_root (kb_config b)) = 32 \<and> length (kc_enclave_scope_id (kb_config b)) = 32
    \<and> length (kc_fleet_scope_id (kb_config b)) = 32"
  by (simp add: body_typed_def counters_typed_def)

lemma advance_counter_typed:
  assumes "advance_counter a s t n b = Inr b'" "length a = 32" "body_typed b"
  shows "body_typed b'"
proof -
  have "counters_typed (kb_counters b')"
    using assms set_update_first [of "counter_row a (kc_environment_identifier (kb_config b)) s t"
        "\<lambda>c. c\<lparr>ce_highest_accepted_counter := n\<rparr>" "kb_counters b"]
    by (fastforce simp: body_typed_parts counters_typed_def advance_counter_def Let_def split: option.splits if_splits)
  moreover obtain cs where "b' = b\<lparr>kb_counters := cs\<rparr>" using advance_counter_frame [OF assms(1)] by blast
  ultimately show ?thesis using assms(3) by (simp add: body_typed_parts)
qed

lemma record_audit_typed:
  assumes "record_audit app b = Inr b'" "length (aa_authority app) = 32" "body_typed b"
  shows "body_typed b'"
  using assms list.set_sel(2) [of "au_records (kb_audit b)"]
  by (fastforce simp: record_audit_def Let_def res_simps body_typed_parts split: if_splits)

lemma advance_commit_epoch_typed: "advance_commit_epoch s b = Inr b' \<Longrightarrow> body_typed b \<Longrightarrow> body_typed b'"
  by (auto simp: advance_commit_epoch_Inr body_typed_parts)

lemma advance_version_typed: "advance_treasury_config_version b = Inr b' \<Longrightarrow> body_typed b \<Longrightarrow> body_typed b'"
  by (auto simp: advance_treasury_config_version_Inr body_typed_parts)

lemma verified_authority_typed: "verify_capability C env b = Inr v \<Longrightarrow> body_typed b \<Longrightarrow> length (vc_authority v) = 32"
  by (auto simp: verify_capability_Inr verify_capability_extract_Inr cap_authority_def body_typed_parts)

text \<open>The tail of the privileged handlers.\<close>

lemma commit_tail_typed:
  assumes "advance_counter (vc_authority v) (vc_scope_class v) (vc_scope_target v) (vc_counter v) b1 = Inr b2"
    and "b3 = b2 \<or> advance_treasury_config_version b2 = Inr b3" "advance_commit_epoch s b3 = Inr b4"
    and "record_audit (audit_provenance env v b4) b4 = Inr b5" "length (vc_authority v) = 32" "body_typed b1"
  shows "body_typed b5"
proof -
  have "body_typed b3" using advance_counter_typed [OF assms(1,5,6)] assms(2) advance_version_typed by blast
  then show ?thesis
    using record_audit_typed [OF assms(4)] advance_commit_epoch_typed [OF assms(3)] assms(5) by (simp add: audit_provenance_def)
qed

section \<open>The handlers\<close>

lemma apply_treasury_params_typed:
  assumes "parse_treasury_params payload sub_op = Inr (params, cp)" "apply_treasury_params params b = Inr b'" "body_typed b"
  shows "body_typed b'"
proof -
  have "case params of SetLimits x _ _ \<Rightarrow> is_u256 x | RefillBudget x \<Rightarrow> is_u256 x | RaiseBreaker x \<Rightarrow> is_u256 x | ResetBreaker x \<Rightarrow> is_u256 x"
    using assms(1) by (auto simp: parse_treasury_params_def read_u256_def res_simps u256_from_minimal_be_Some split: if_splits)
  then show ?thesis
    using assms(2,3)
    by (cases params) (auto simp: apply_treasury_params_def Let_def res_simps body_typed_parts faucet_typed_def opt_u256_def is_u256_def
        zero32_def split: if_splits)
qed

lemma generate_keys_typed:
  assumes "generate_keys C purpose count creation ds b = (Inr (gs, b'), ds')" "\<forall>d. Some d \<in> set ds \<longrightarrow> length d = 32" "body_typed b"
  shows "body_typed b'"
  using generate_keys_Inr(1) [OF assms(1)] assms(2,3) by (auto simp: body_typed_parts)

lemma dispatch_typed:
  assumes "dispatch_agent C ft w profile payload b ds = (Inr resp, ds')" "candidate_of resp = Some (b', request_id)"
    and "body_typed b" "\<forall>d. Some d \<in> set ds \<longrightarrow> length d = 32"
  shows "body_typed b'"
proof (rule dispatch_agent_Inr [OF assms(1)], goal_cases)
  case (1 env op)
  from 1(7) show ?case
  proof (elim disjE exE conjE)
    fix v assume v: "verify_capability C env b = Inr v" and h: "handle_generate_keys C env b v ds = (Inr resp, ds')"
    show ?thesis
    proof (rule handle_generate_keys_Inr [OF h], goal_cases)
      case (1 payload pc count purpose keys b1 b2 b3 b4)
      have "body_typed b1" by (rule generate_keys_typed [OF 1(8) assms(4,3)])
      then show ?case
        using commit_tail_typed [OF 1(9) disjI1 [OF refl] 1(10,11) verified_authority_typed [OF v assms(3)]] 1(12) assms(2) by simp
    qed
  next
    fix v assume v: "verify_capability C env b = Inr v" and h: "handle_configure_treasury C env b v = Inr resp"
    show ?thesis
    proof (rule handle_configure_treasury_Inr [OF h], goal_cases)
      case (1 payload sub_op params cp b1 b2 b3 b4 b5)
      have "body_typed b1" by (rule apply_treasury_params_typed [OF 1(3,7) assms(3)])
      then show ?case
        using commit_tail_typed [OF 1(8) disjI2 [OF 1(9)] 1(10,11) verified_authority_typed [OF v assms(3)]] 1(12) assms(2) by simp
    qed
  next
    assume h: "handle_sign_faucet_dispense C env b = Inr resp"
    show ?thesis
    proof (rule handle_sign_faucet_dispense_Inr [OF h], goal_cases)
      case (1 p key_ref payload amount price kp fs st)
      have "is_u256 amount" "is_u256 price" using 1(4,5) by (simp_all add: u256_from_minimal_be_Some)
      then have "faucet_typed fs"
        using accept_and_debit_refines [of "kb_faucet b" amount price "tp_gas_limit p"] 1(8) assms(3) by (simp add: body_typed_parts)
      then show ?case using 1(10) assms(2,3) by (auto simp: body_typed_parts)
    qed
  qed (use assms(2) in \<open>auto simp: handle_public_identity_def handle_prove_identity_def handle_sign_transfer_def res_simps\<close>)
qed

section \<open>Runs\<close>

definition gateway_typed :: "'c gateway \<Rightarrow> bool" where
  "gateway_typed s \<longleftrightarrow> (\<exists>b measurement. gw_keystore s = Some (b, measurement) \<and> body_typed b)"

lemma gateway_step_typed:
  assumes "gateway_step C S ft enc rt s e s'" "gateway_ok s" "gateway_typed s"
  shows "gateway_typed s'"
  using assms(1)
proof cases
  case (commit payload out)
  obtain b resp b' sealed where c: "frame_commits C S ft enc rt payload s out s' b resp b' sealed"
    using handle_frame_cases [OF commit(2)] commit(3) by (auto simp: frame_answers_def)
  then show ?thesis
    using assms(2,3) dispatch_typed unfolding frame_commits_def gateway_typed_def gateway_ok_def by fastforce
qed (use assms(3) in \<open>auto simp: gateway_typed_def install_agent_keystore_def install_commit_channel_def split: if_splits\<close>)

lemma gateway_run_typed:
  assumes "gateway_run C S ft enc rt s es s'" "gateway_ok s" "gateway_typed s" "k1_public_uncompressed C"
  shows "gateway_ok s' \<and> gateway_typed s'"
  using assms
proof (induction rule: gateway_run.induct)
  case (run_Cons s e s' es s'')
  then show ?case using gateway_step_ok gateway_step_typed by blast
qed simp

text \<open>C17: every run keeps the body's types. Whatever frames arrive at an enclave whose installed body has the array lengths of
  its Rust types, the body installed afterwards has them: every authority, key reference, scope id and configured key is 32
  bytes and every amount a 256-bit number; and so the marks payload it seals to the anchor is one that the strict decoder
  reads back as exactly the body's marks.\<close>

theorem runs_keep_types:
  assumes "gateway_run C S ft enc rt s es s'" "gateway_ok s" "k1_public_uncompressed C"
    and "gw_keystore s = Some (b, measurement)" "body_typed b"
  shows "\<exists>b'. gw_keystore s' = Some (b', measurement) \<and> body_typed b'
    \<and> strict_decode_marks_payload (encode_marks_payload b') MAX_COUNTER_ENTRIES = Some (marks_of b')"
proof -
  have "gateway_ok s'" "gateway_typed s'"
    using gateway_run_typed [OF assms(1,2) _ assms(3)] assms(4,5) by (auto simp: gateway_typed_def)
  then obtain b' m where b': "gw_keystore s' = Some (b', m)" "body_typed b'" "body_ok b'"
    by (auto simp: gateway_typed_def gateway_ok_def)
  moreover have "m = measurement"
    using gateway_run_ok [OF assms(1-3)] assms(4) b'(1) by (auto simp: advances_def)
  ultimately show ?thesis using marks_roundtrip by blast
qed

lemma runs_keep_types_witness:
  "\<exists>b' out s'. gateway_run sample_crypto (serde_for b') sample_features enc_value (anchor_for b') (sample_gateway treasury_body)
      [Committed (sample_request (transfer_request 5 1)) out] s' \<and> gw_keystore s' = Some (b', [1])
    \<and> strict_decode_marks_payload (encode_marks_payload b') MAX_COUNTER_ENTRIES = Some (marks_of b')"
proof -
  obtain b' out s' where h: "handle_agent_gateway_frame sample_crypto (serde_for b') sample_features enc_value (anchor_for b')
      (sample_request (transfer_request 5 1)) (sample_gateway treasury_body) = (out, s')"
    and k: "gw_keystore s' = Some (b', [1])" "b' \<noteq> treasury_body"
    using sample_dispense_commits by blast
  have r: "gateway_run sample_crypto (serde_for b') sample_features enc_value (anchor_for b') (sample_gateway treasury_body)
      [Committed (sample_request (transfer_request 5 1)) out] s'"
    using sample_step [OF h k] by (simp add: run_Cons_iff)
  have t: "body_typed treasury_body" "gw_keystore (sample_gateway treasury_body) = Some (treasury_body, [1])"
    using sample_body_typed by (simp_all add: treasury_body_def body_typed_def sample_key_def sample_gateway_def)
  show ?thesis
    using runs_keep_types [OF r sample_gateway_ok [OF treasury_body_ok(1)] sample_k1 t(2,1)] r k by auto
qed

end
