(* ===== verification/Configfs.thy ===== *)
theory Configfs
  imports Quote_Child
begin

text \<open>
  \<open>RealTsmFs\<close> and the sweep of orphaned entries in \<open>snp_report.rs\<close>: the two places where the program touches configfs-tsm.

  The kernel's side is the parameter \<open>configfs\<close>, over an arbitrary state: listing, making and removing directories, a
  write to a file, and the stream a file delivers, which may break off with a fault. The bounded reads, the errors and the
  choice of what to remove are the program's. Shown: whatever the provider delivers, a fetched report and its chain keep
  their bounds; and a quote child never touches an entry that is not a quote child's.
\<close>

section \<open>The file operations\<close>

text \<open>A name that is no UTF-8, or an entry that cannot be read, is \<open>None\<close> in a listing. A stream is its bytes and whether it breaks off.\<close>

datatype write_result = NotOpened | WriteFault | Written

record 'c configfs =
  cf_read_dir :: "string \<Rightarrow> 'c \<Rightarrow> string option list option"
  cf_remove_dir :: "string \<Rightarrow> 'c \<Rightarrow> 'c"
  cf_create_dir :: "string \<Rightarrow> 'c \<Rightarrow> bool \<times> 'c"
  cf_write :: "string \<Rightarrow> bytes \<Rightarrow> 'c \<Rightarrow> write_result \<times> 'c"
  cf_stream :: "string \<Rightarrow> 'c \<Rightarrow> (bytes \<times> bool) option \<times> 'c"

text \<open>\<open>take(n)\<close> and \<open>read_to_end\<close>: a fault after the first \<open>n\<close> bytes is not met.\<close>

definition read_capped :: "nat \<Rightarrow> bytes \<times> bool \<Rightarrow> bytes option" where
  "read_capped n stream =
     (case stream of (content, broken) \<Rightarrow> if length content < n \<and> broken then None else Some (take n content))"

definition real_remove_entry :: "'c configfs \<Rightarrow> string \<Rightarrow> 'c \<Rightarrow> 'c" where
  "real_remove_entry cf entry s = cf_remove_dir cf entry s"

definition real_create_entry :: "'c configfs \<Rightarrow> string \<Rightarrow> 'c \<Rightarrow> (protocol_error + unit) \<times> 'c" where
  "real_create_entry cf entry s =
     (case cf_create_dir cf entry s of (made, s) \<Rightarrow>
       (if made then Inr ()
        else Inl (PqSigningUnavailable (''SNP attestation unavailable: cannot create configfs-tsm report entry ''
          @ ''(needs kernel >= 6.7 and the sev-guest TSM provider)'')), s))"

definition real_write_inblob :: "'c configfs \<Rightarrow> string \<Rightarrow> bytes \<Rightarrow> 'c \<Rightarrow> (protocol_error + unit) \<times> 'c" where
  "real_write_inblob cf entry data s =
     (case cf_write cf (entry @ ''/inblob'') data s of
        (NotOpened, s) \<Rightarrow> (Inl (PqSigningUnavailable ''SNP attestation: cannot open inblob''), s)
      | (WriteFault, s) \<Rightarrow> (Inl (PqSigningUnavailable ''SNP attestation: cannot write report_data''), s)
      | (Written, s) \<Rightarrow> (Inr (), s))"

definition real_read_outblob :: "'c configfs \<Rightarrow> string \<Rightarrow> 'c \<Rightarrow> (protocol_error + bytes) \<times> 'c" where
  "real_read_outblob cf entry s =
     (case cf_stream cf (entry @ ''/outblob'') s of
        (None, s) \<Rightarrow> (Inl (PqSigningUnavailable ''SNP attestation: cannot open outblob''), s)
      | (Some stream, s) \<Rightarrow>
          (case read_capped (MAX_OUTBLOB_LEN + 1) stream of
             None \<Rightarrow> (Inl (PqSigningUnavailable ''SNP attestation: cannot read outblob''), s)
           | Some buf \<Rightarrow>
               if length buf > MAX_OUTBLOB_LEN
               then (Inl (PqSigningUnavailable ''SNP attestation: outblob exceeds max size''), s)
               else (Inr buf, s)))"

definition real_read_auxblob :: "'c configfs \<Rightarrow> string \<Rightarrow> 'c \<Rightarrow> bytes \<times> 'c" where
  "real_read_auxblob cf entry s =
     (case cf_stream cf (entry @ ''/auxblob'') s of
        (None, s) \<Rightarrow> ([], s)
      | (Some stream, s) \<Rightarrow>
          (case read_capped (MAX_CERT_CHAIN_LEN + 1) stream of
             Some buf \<Rightarrow> (if length buf \<le> MAX_CERT_CHAIN_LEN then buf else [], s)
           | None \<Rightarrow> ([], s)))"

definition real_tsm_fs :: "'c configfs \<Rightarrow> 'c tsm_fs" where
  "real_tsm_fs cf = \<lparr>remove_entry = real_remove_entry cf, create_entry = real_create_entry cf,
     write_inblob = real_write_inblob cf, read_outblob = real_read_outblob cf, read_auxblob = real_read_auxblob cf\<rparr>"

section \<open>The sweep of orphaned entries\<close>

fun gc_entries :: "'c configfs \<Rightarrow> string \<Rightarrow> string option list \<Rightarrow> 'c \<Rightarrow> 'c" where
  "gc_entries cf dir [] s = s"
| "gc_entries cf dir (None # entries) s = gc_entries cf dir entries s"
| "gc_entries cf dir (Some name # entries) s =
     gc_entries cf dir entries
       (if take (length TSM_QUOTE_ENTRY_PREFIX) name = TSM_QUOTE_ENTRY_PREFIX
        then cf_remove_dir cf (dir @ ''/'' @ name) s else s)"

definition gc_quote_entries_best_effort :: "'c configfs \<Rightarrow> string \<Rightarrow> 'c \<Rightarrow> 'c" where
  "gc_quote_entries_best_effort cf dir s = (case cf_read_dir cf dir s of None \<Rightarrow> s | Some entries \<Rightarrow> gc_entries cf dir entries s)"

definition gc_quote_entries_default :: "'c configfs \<Rightarrow> 'c \<Rightarrow> 'c" where
  "gc_quote_entries_default cf s = gc_quote_entries_best_effort cf TSM_REPORT_DIR s"

section \<open>Bounds whatever the provider delivers\<close>

lemma read_capped_length: "read_capped n stream = Some buf \<Longrightarrow> length buf \<le> n"
  by (auto simp: read_capped_def split: prod.splits if_splits)

lemma read_outblob_whole:
  "real_read_outblob cf entry s = (Inr report, s') \<Longrightarrow> length report \<le> MAX_OUTBLOB_LEN
     \<and> cf_stream cf (entry @ ''/outblob'') s = (Some (report, False), s')"
  by (auto simp: real_read_outblob_def read_capped_def split: prod.splits option.splits if_splits)

lemma real_auxblob_bounded: "length (fst (real_read_auxblob cf entry s)) \<le> MAX_CERT_CHAIN_LEN"
  by (auto simp: real_read_auxblob_def split: prod.splits option.splits)

lemma fetched_report_bounded:
  assumes "fetch_report_with_at (real_tsm_fs cf) entry data s = (Inr (report, chain), s')"
  shows "MIN_REPORT_LEN \<le> length report \<and> length report \<le> MAX_OUTBLOB_LEN \<and> length chain \<le> MAX_CERT_CHAIN_LEN"
  using assms real_auxblob_bounded [of cf entry]
  by (auto simp: fetch_report_with_at_def fetch_report_inner_with_def real_tsm_fs_def Let_def
      split: prod.splits sum.splits if_splits) (metis fst_conv)

section \<open>A quote child keeps to its own entries\<close>

text \<open>The documented behaviour of configfs: an operation on one entry does not change whether another is there.\<close>

definition entries_separate :: "'c configfs \<Rightarrow> (string \<Rightarrow> 'c \<Rightarrow> bool) \<Rightarrow> bool" where
  "entries_separate cf present \<longleftrightarrow>
     (\<forall>p q s. q \<noteq> p \<longrightarrow> present q (cf_remove_dir cf p s) = present q s \<and> present q (snd (cf_create_dir cf p s)) = present q s)
     \<and> (\<forall>p q d s. present q (snd (cf_write cf p d s)) = present q s \<and> present q (snd (cf_stream cf p s)) = present q s)"

definition quote_entry :: "string \<Rightarrow> bool" where
  "quote_entry path \<longleftrightarrow> (\<exists>rest. path = TSM_REPORT_DIR @ ''/'' @ TSM_QUOTE_ENTRY_PREFIX @ rest)"

lemma producer_entry_is_no_quote_entry: "\<not> quote_entry TSM_REPORT_ENTRY"
  by (simp add: quote_entry_def TSM_REPORT_ENTRY_def TSM_REPORT_DIR_def TSM_QUOTE_ENTRY_PREFIX_def)

lemma own_entry_is_quote_entry: "quote_entry (quote_child_entry_path pid)"
  by (simp add: quote_entry_def quote_child_entry_path_def)

lemma gc_spares:
  assumes "entries_separate cf present" "\<not> quote_entry q"
  shows "present q (gc_entries cf TSM_REPORT_DIR entries s) = present q s"
proof (induction entries arbitrary: s)
  case (Cons entry entries)
  have w: "present q (cf_remove_dir cf p s) = present q s" if "q \<noteq> p" for p s
    using assms(1) that by (simp add: entries_separate_def)
  have "q \<noteq> TSM_REPORT_DIR @ ''/'' @ name" if "take (length TSM_QUOTE_ENTRY_PREFIX) name = TSM_QUOTE_ENTRY_PREFIX" for name
    using assms(2) append_take_drop_id [of "length TSM_QUOTE_ENTRY_PREFIX" name] that unfolding quote_entry_def by metis
  then show ?case using Cons w by (cases entry) auto
qed simp

lemma fetch_spares:
  assumes "entries_separate cf present" "q \<noteq> entry" "fetch_report_with_at (real_tsm_fs cf) entry data s = (r, s')"
  shows "present q s' = present q s"
proof -
  have w: "present q (cf_remove_dir cf entry s) = present q s" for s
    using assms(1,2) by (simp add: entries_separate_def)
  have c: "cf_create_dir cf entry s = (m, s1) \<Longrightarrow> present q s1 = present q s" for s m s1
    using assms(1,2) unfolding entries_separate_def by (metis snd_conv)
  have d: "cf_write cf p x s = (m, s1) \<Longrightarrow> present q s1 = present q s" for p x s m s1
    using assms(1) unfolding entries_separate_def by (metis snd_conv)
  have e: "cf_stream cf p s = (m, s1) \<Longrightarrow> present q s1 = present q s" for p s m s1
    using assms(1) unfolding entries_separate_def by (metis snd_conv)
  have c': "real_create_entry cf entry s = (m, s1) \<Longrightarrow> present q s1 = present q s" for s m s1
    by (auto simp: real_create_entry_def split: prod.splits dest: c)
  have d': "real_write_inblob cf p x s = (m, s1) \<Longrightarrow> present q s1 = present q s" for p x s m s1
    by (auto simp: real_write_inblob_def split: prod.splits write_result.splits dest: d)
  have e': "real_read_outblob cf p s = (m, s1) \<Longrightarrow> present q s1 = present q s" for p s m s1
    by (auto simp: real_read_outblob_def split: prod.splits option.splits if_splits dest: e)
  have f': "real_read_auxblob cf p s = (m, s1) \<Longrightarrow> present q s1 = present q s" for p s m s1
    by (auto simp: real_read_auxblob_def split: prod.splits option.splits if_splits dest: e)
  have i: "fetch_report_inner_with (real_tsm_fs cf) entry data s = (r, s1) \<Longrightarrow> present q s1 = present q s" for s r s1
    by (auto simp: fetch_report_inner_with_def real_tsm_fs_def split: prod.splits sum.splits if_splits dest!: c' d' e' f')
  obtain r1 s1 where s1: "fetch_report_inner_with (real_tsm_fs cf) entry data (cf_remove_dir cf entry s) = (r1, s1)"
    by fastforce
  with assms(3) have "s' = cf_remove_dir cf entry s1"
    by (simp add: fetch_report_with_at_def Let_def real_tsm_fs_def real_remove_entry_def)
  then show ?thesis using i [OF s1] w by simp
qed

lemma child_state:
  "fetch_report_with_at fs (quote_child_entry_path pid) rdata s = (r, s') \<Longrightarrow> snd (quote_child_main_with fs pid rdata fails s) = s'"
  by (auto simp: quote_child_main_with_def Let_def split: prod.splits sum.splits
      dest!: step_tracker_fetch [of fs "quote_child_entry_path pid" rdata s r s'])

lemma quote_child_spares_other_entries:
  assumes "entries_separate cf present" "\<not> quote_entry q"
    and "agent_quote_child_dispatch env (real_tsm_fs cf) (gc_quote_entries_default cf) pid fails s = Some (out, s')"
  shows "present q s' = present q s"
proof -
  have own: "q \<noteq> quote_child_entry_path pid" using assms(2) own_entry_is_quote_entry by metis
  have gc: "present q (gc_quote_entries_default cf s) = present q s"
    using assms(1,2) by (simp add: gc_quote_entries_default_def gc_quote_entries_best_effort_def gc_spares split: option.split)
  have "present q (snd (quote_child_main_with (real_tsm_fs cf) pid rdata fails s1)) = present q s1" for rdata s1
    using child_state fetch_spares [OF assms(1) own] surj_pair by metis
  with gc assms(3) show ?thesis
    by (auto simp: agent_quote_child_dispatch_def agent_quote_child_main_def split: if_splits sum.splits) (metis snd_conv)+
qed

lemma quote_child_spares_producer:
  assumes "entries_separate cf present"
    and "agent_quote_child_dispatch env (real_tsm_fs cf) (gc_quote_entries_default cf) pid fails s = Some (out, s')"
  shows "present TSM_REPORT_ENTRY s' = present TSM_REPORT_ENTRY s"
  using quote_child_spares_other_entries [where present = present, OF assms(1) producer_entry_is_no_quote_entry assms(2)] .

end
