(* ===== verification/Spec2Isabelle.thy ===== *)
theory Spec2Isabelle
  imports Producer_Serve Restore_Frame Attest Fleet Contract_Server Body_Types Configfs
begin

text \<open>
  2D-HSM is a signer that runs in a SEV-SNP guest. Its code is the Rust under \<open>src/impl/rust\<close>: the crate
  \<open>enclave-protocol\<close> (E below, for \<open>enclave-protocol/src\<close>) and four tools around it. One binary serves one of two roles.
  The producer signs authorization tickets and block roots with ML-DSA-65, after the host has armed it with a proof of the
  recent chain. The agent gateway keeps secp256k1 keys in a sealed keystore and signs transfers, faucet dispenses and
  identity proofs; whatever changes its keystore is sealed, committed at an external anchor and only then installed and
  answered. The host is untrusted: it carries every byte, but the enclave checks what it carries.

  This development models both roles from the bytes of a frame to the bytes of the reply, their boot, the recovery and
  provisioning of the gateway, the relay to its anchor, and the tools. A component is a theory, with its operations in
  the order of the code and under the names of the code.

  \<^bold>\<open>Foundations.\<close>
  \<open>Prelude\<close> has the result type \<open>error + value\<close> with its bind, checked arithmetic, big-endian bytes and two interfaces
  that recur: \<open>checked_add_dom\<close> (addition that reports overflow) and \<open>prefix_codec\<close> (an encoding that ends itself).
  \<open>U256\<close> is E/u256.rs and \<open>Rlp\<close> E/rlp.rs. \<open>Crypto\<close> is the record of third-party cryptography, with E/secp256k1.rs over it.
  \<open>Cbor\<close> and \<open>Anchor_Wire\<close> are E/agent_cbor.rs: the strict reader and the typed decoders, all of them
  interpretations of \<open>sp_codec\<close>, so each accepts the canonical encodings and nothing else. \<open>Strict_Map\<close> adds the key-checked
  maps of provisioning and relay. \<open>Protocol\<close> is the framing and \<open>Wire\<close> the CBOR commands of E/lib.rs and E/wire.rs.

  \<^bold>\<open>The agent gateway.\<close>
  \<open>Keystore\<close> is the sealed body of E/agent_keystore.rs, \<open>Keystore_Invariant\<close> its validation as an invariant of every operation,
  with the counters as the interface \<open>counter_table\<close>, \<open>Faucet\<close> the faucet's gate against a specification over numbers,
  \<open>Marks\<close> the marks payload and \<open>Seal\<close> the envelope. \<open>Signing\<close> is E/agent_transfer.rs and E/agent_identity.rs, \<open>Keygen\<close>
  E/agent_keygen.rs, \<open>Capability\<close> E/agent_capability.rs. \<open>Anchor\<close> and \<open>Boot\<close> are E/agent_anchor.rs, E/agent_challenge.rs, E/agent_boot.rs and
  E/agent_boot_driver.rs. \<open>Dispatch\<close> has the handlers of E/agent_dispatch.rs, which work on a candidate copy of the body;
  \<open>Frame\<close> has the seam that seals, commits and installs it, and the runs of the gateway over frames. \<open>Backup\<close> is
  E/agent_backup.rs, \<open>Restore\<close> and \<open>Restore_Frame\<close> are the build with the recovery commands. \<open>Body_Types\<close> shows that no run
  changes the array lengths of the Rust types, which the lists of the model leave open.

  \<^bold>\<open>From power-on to the first frame.\<close>
  \<open>Config\<close> is E/env_config.rs, E/vsock_addr.rs and E/boot_input.rs. \<open>Provision\<close> and \<open>Ceremony\<close> are E/agent_provision.rs and
  E/provision_bootstrap.rs. \<open>Boot_Source\<close> is E/boot_agent_keystore.rs, \<open>Snp_Report\<close> and \<open>Configfs\<close> are E/snp_report.rs, \<open>Quote_Child\<close>
  is E/quote_subprocess.rs. \<open>Relay\<close> is E/agent_boot_relay.rs, E/cancellable_boundary.rs and the host's E/host_anchor_relay.rs.
  \<open>Gateway_Boot\<close> composes them as E/agent_gateway_boot.rs does, up to the serve loop with the pump of E/enclave_serve.rs.

  \<^bold>\<open>The producer.\<close>
  \<open>Chain_Proof\<close> is E/chain_proof_crypto.rs, \<open>Ticket\<close> the canonical hash of a ticket, \<open>Pq_Signer\<close> E/pq_signer.rs and E/mldsa65.rs,
  \<open>Producer\<close> the state machine of E/lib.rs. \<open>Producer_Serve\<close> is the boot of E/bin/enclave_vsock.rs and the accept loop with its
  concurrent sessions.

  \<^bold>\<open>The tools.\<close>
  \<open>Attest\<close> is the relying party, E/snp_verify.rs and \<open>snp-attest-verify\<close>. \<open>Derive_Root\<close> is \<open>snp-derive-root\<close>, \<open>Fleet\<close> is
  \<open>pq-seal-manifest\<close> with \<open>pq-seal-v1\<close>, \<open>Contract_Server\<close> is E/reference_keystore.rs with E/contract_server.rs.
\<close>

text \<open>
  \<^bold>\<open>State.\<close> The process globals of the code are records that every operation takes and returns: \<open>process\<close> (challenge and
  anti-rollback binding), \<open>gateway\<close> (root, keystore, commit channel, process), \<open>pq_state\<close> (root and signer), \<open>host_process\<close> (the
  producer with its captured report), \<open>backend\<close> (the gateway with
  the slot of the restore key and the quote machinery). A lock that the code holds over an
  operation makes the operation one step. Where threads interleave, in the producer's sessions, the server is an inductive step
  relation and the claims are invariants of its runs. Records, constructors and messages carry the names of the code; a
  message that \<open>format!\<close> builds is the data it is built from.

  \<^bold>\<open>Numbers and bytes.\<close> Fixed-width integers are words, and sums are written out with the check that the code makes. A byte
  string is a list of bytes. Lengths are natural numbers, which the code's \<open>usize\<close> agrees with up to \<open>isize::MAX\<close>; where
  a claim needs that bound it says so (\<open>rust_len\<close>). Times are natural numbers of nanoseconds.

  \<^bold>\<open>What the lemmas show.\<close>
  Codecs: exactness of every decoder and round trips of every message. Safety of the gateway: a frame leaves the keystore as
  it was or installs what was sealed and acknowledged (\<open>seal_before_emit\<close>); capabilities are not replayed, the faucet stays
  within its gate, keys stay in custody over any run; a backup restores on the enclave it was addressed to and nowhere else.
  Boot: what is installed agrees with a state the anchor signed for this boot; an honest host gets it served; from then on the machine
  follows a run of acknowledged steps (\<open>acked_run\<close>), and no peer that gets only errors holds the listener past its idle deadline.
  A configuration means what the operator wrote (\<open>configured\<close>) or is refused. The relay is transparent, and every wait returns in time
  when the host is punctual and time passes, through any storm of interruptions. The producer: hard forks are signed at increasing heights, over any interleaving of
  sessions, and the advertised key is attested. The tools: a verdict rests on signed bytes only, the root reaches one file only,
  every host of a fleet can use its blob, and a failed ceremony leaves nothing but what its own clean-up could not remove.

  \<^bold>\<open>Parameters.\<close> Code outside the repository is an argument: hashes, signatures, AEADs, ML-KEM, \<open>ciborium\<close>, serde, X.509,
  JSON, hexadecimal, the clock, random draws, configfs, sockets and files. A claim that needs their documented behaviour names it
  as a hypothesis (\<open>sha3_len\<close>, \<open>aead12_correct\<close>, \<open>serde_correct\<close>, \<open>ed_signer_documented\<close> and the like), and its witness
  instantiates the parameters with concrete functions. Unforgeability and collision resistance are assumed nowhere: a claim that
  rests on them is stated as what was verified, over the bytes that were hashed or signed.

  \<^bold>\<open>Bounds and termination.\<close> Every model is total. Loops over buffers recurse on what is left, reads and connections are
  scripts that shorten at each turn. A wait takes turns from a list, and is shown to return, by its deadline, on every endless sequence of
  them in which time passes. The CBOR reader recurses to the source's
  own \<open>MAX_CBOR_DEPTH\<close>. Two loops of the code never end, the accept loops; they run over the connections that have arrived
  (\<open>serve_agent_loop\<close>, \<open>serve_contract_connections\<close>) or are steps (\<open>server_step\<close>). No fuel is used.
\<close>

text \<open>
  \<^bold>\<open>Not modelled.\<close>
  The mains of the binaries other than \<open>enclave_vsock\<close>, which set up a socket and call the modelled functions, and the binding
  of sockets (\<open>uds_listen.rs\<close>, \<open>vsock_listen.rs\<close>): system I/O. The lab and smoke tools (\<open>lab_agent_smoke.rs\<close>, \<open>quote_smoke.rs\<close>,
  \<open>host_test_fixtures.rs\<close>), which are clients and fixtures of tests. The builds \<open>test-support\<close>, \<open>staging-host\<close> and \<open>demo-mock-sign\<close>
  with their mock signatures and reference keys, and the version 0 seal, which exists in tests only. A poisoned lock, on which the
  process exits. Erasure of secrets from memory (\<open>zeroize\<close>), timing, and log lines beyond their data. The shim in Elixir,
  the Solidity script, the Nix expressions and the shell scripts.
\<close>

end
